(* ===== verification/Float64.thy ===== *)
theory Float64
  imports Complex_Main "HOL-Library.Log_Nat"
begin

text \<open>
  IEEE-754 binary64 arithmetic, the number type behind every Python \<open>float\<close> of the
  program.  A finite float is the rational number it stands for (the sign of zero, which
  no comparison of the program observes, is not kept); \<open>fl\<close> is the correct rounding
  (to nearest, ties to even, with gradual underflow) that CPython applies to the result
  of an arithmetic operation, of \<open>int / int\<close> and of a decimal literal.

  The lemmas show that \<open>fl\<close> is monotone, odd, idempotent, exact on representable
  numbers and off by at most half a unit in the last place.  The last section turns them
  into the fact the trading rules rest on: comparing a rounded quotient of integers with
  a rounded threshold decides the comparison of the exact rationals, as long as the
  denominators are small enough.
\<close>

section \<open>Rounding\<close>

definition ilog2 :: "rat \<Rightarrow> int" where
  "ilog2 x = (let (n, d) = quotient_of x; k = bitlen n - bitlen d
              in if 2 powi k \<le> x then k else k - 1)"

definition rhe :: "rat \<Rightarrow> int" where
  "rhe x = (let f = \<lfloor>x\<rfloor>; r = x - of_int f in
     if r < 1 / 2 then f else if 1 / 2 < r then f + 1 else if even f then f else f + 1)"

definition ulp :: "rat \<Rightarrow> rat" where
  "ulp x = 2 powi (max (ilog2 \<bar>x\<bar> - 52) (-1074))"

definition fl :: "rat \<Rightarrow> rat" where
  "fl x = (if x = 0 then 0 else let u = ulp x in of_int (rhe (x / u)) * u)"

definition representable :: "rat \<Rightarrow> bool" where
  "representable q \<longleftrightarrow> (\<exists>m e. q = of_int m * 2 powi e \<and> \<bar>m\<bar> \<le> 2 ^ 53 \<and> -1074 \<le> e)"

subsection \<open>Powers of two\<close>

lemma two_powi_pos [simp]: "0 < (2 :: rat) powi e"
  by simp

lemma two_powi_mono: "a \<le> b \<Longrightarrow> (2 :: rat) powi a \<le> 2 powi b"
  by (rule power_int_increasing) simp_all

lemma two_powi_less_iff: "(2 :: rat) powi a < 2 powi b \<longleftrightarrow> a < b"
proof
  assume "(2 :: rat) powi a < 2 powi b"
  then show "a < b" using two_powi_mono [of b a] by (meson leD not_le)
next
  assume "a < b"
  then show "(2 :: rat) powi a < 2 powi b" by (intro power_int_strict_increasing) simp_all
qed

lemma two_powi_split: "b \<le> a \<Longrightarrow> (2 :: rat) powi a = of_int (2 ^ nat (a - b)) * 2 powi b"
proof -
  assume "b \<le> a"
  then have "a = int (nat (a - b)) + b" by simp
  then have "(2 :: rat) powi a = 2 powi (int (nat (a - b)) + b)" by simp
  also have "\<dots> = 2 ^ nat (a - b) * 2 powi b"
    by (subst power_int_add) (auto simp only: power_int_of_nat)
  finally show ?thesis by simp
qed

lemma ilog2_bounds:
  assumes "0 < x"
  shows "2 powi (ilog2 x) \<le> x \<and> x < 2 powi (ilog2 x + 1)"
proof -
  obtain n d where q: "quotient_of x = (n, d)" by (cases "quotient_of x")
  from q have d: "0 < d" by (rule quotient_of_denom_pos)
  from q have x: "x = of_int n / of_int d" by (rule quotient_of_div)
  with assms d have n: "0 < n" by (simp add: zero_less_divide_iff)
  define a b where "a = bitlen n" and "b = bitlen d"
  have ab: "0 < a" "0 < b" using n d bitlen_nonneg [of n] bitlen_nonneg [of d]
    by (auto simp: a_def b_def bitlen_eq_zero_iff less_le)
  have nat_powi: "(2 :: rat) ^ nat k = 2 powi k" if "0 \<le> k" for k
    using that by (simp add: power_int_def)
  from bitlen_bounds [OF n] have "2 ^ nat (a - 1) \<le> n" "n < 2 ^ nat a" by (simp_all add: a_def)
  then have "of_int (2 ^ nat (a - 1)) \<le> (of_int n :: rat)" "(of_int n :: rat) < of_int (2 ^ nat a)"
    by (simp_all only: of_int_le_iff of_int_less_iff)
  then have nb: "2 powi (a - 1) \<le> (of_int n :: rat)" "(of_int n :: rat) < 2 powi a"
    using ab nat_powi [of "a - 1"] nat_powi [of a] by simp_all
  from bitlen_bounds [OF d] have "2 ^ nat (b - 1) \<le> d" "d < 2 ^ nat b" by (simp_all add: b_def)
  then have "of_int (2 ^ nat (b - 1)) \<le> (of_int d :: rat)" "(of_int d :: rat) < of_int (2 ^ nat b)"
    by (simp_all only: of_int_le_iff of_int_less_iff)
  then have db: "2 powi (b - 1) \<le> (of_int d :: rat)" "(of_int d :: rat) < 2 powi b"
    using ab nat_powi [of "b - 1"] nat_powi [of b] by simp_all
  have dpos: "(0 :: rat) < of_int d" using d by simp
  have lo: "2 powi (a - b - 1) < x"
  proof -
    have "2 powi (a - b - 1) * of_int d < 2 powi (a - b - 1) * (2 powi b :: rat)"
      using db by (intro mult_strict_left_mono) simp_all
    also have "\<dots> = 2 powi (a - 1)" by (simp add: power_int_add [symmetric])
    also have "\<dots> \<le> of_int n" by (rule nb)
    finally show ?thesis using dpos by (simp add: x pos_less_divide_eq)
  qed
  have hi: "x < 2 powi (a - b + 1)"
  proof -
    have "(of_int n :: rat) < 2 powi a" by (rule nb)
    also have "\<dots> = 2 powi (a - b + 1) * 2 powi (b - 1)" by (simp add: power_int_add [symmetric])
    also have "\<dots> \<le> 2 powi (a - b + 1) * of_int d"
      using db by (intro mult_left_mono) simp_all
    finally show ?thesis using dpos by (simp add: x pos_divide_less_eq)
  qed
  have "ilog2 x = (if 2 powi (a - b) \<le> x then a - b else a - b - 1)"
    by (simp add: ilog2_def q a_def b_def Let_def)
  with lo hi show ?thesis by (auto simp: less_imp_le)
qed

lemma ilog2_mono: "0 < x \<Longrightarrow> x \<le> y \<Longrightarrow> ilog2 x \<le> ilog2 y"
proof -
  assume "0 < x" "x \<le> y"
  then have "(2 :: rat) powi ilog2 x < 2 powi (ilog2 y + 1)"
    using ilog2_bounds [of x] ilog2_bounds [of y] by linarith
  then show ?thesis by (simp add: two_powi_less_iff)
qed

lemma ilog2_eqI: "2 powi k \<le> x \<Longrightarrow> x < 2 powi (k + 1) \<Longrightarrow> ilog2 x = k"
proof -
  assume k: "2 powi k \<le> x" "x < 2 powi (k + 1)"
  have "0 < x" using k(1) two_powi_pos [of k] by linarith
  then have "(2 :: rat) powi ilog2 x < 2 powi (k + 1)" "(2 :: rat) powi k < 2 powi (ilog2 x + 1)"
    using ilog2_bounds [of x] k by linarith+
  then show ?thesis by (simp add: two_powi_less_iff)
qed

subsection \<open>Rounding to an integer\<close>

lemma rhe_of_int [simp]: "rhe (of_int n) = n"
  by (simp add: rhe_def)

lemma rhe_floor: "\<lfloor>x\<rfloor> \<le> rhe x \<and> rhe x \<le> \<lfloor>x\<rfloor> + 1"
  by (simp add: rhe_def Let_def)

lemma rhe_error: "\<bar>of_int (rhe x) - x\<bar> \<le> 1 / 2"
proof -
  have "of_int \<lfloor>x\<rfloor> \<le> x" "x < of_int \<lfloor>x\<rfloor> + 1" by linarith+
  then show ?thesis by (auto simp: rhe_def Let_def abs_le_iff)
qed

lemma rhe_mono: assumes "x \<le> y" shows "rhe x \<le> rhe y"
proof (cases "\<lfloor>x\<rfloor> = \<lfloor>y\<rfloor>")
  case True
  with assms show ?thesis by (auto simp: rhe_def Let_def)
next
  case False
  with assms have "\<lfloor>x\<rfloor> + 1 \<le> \<lfloor>y\<rfloor>" using floor_mono [of x y] by linarith
  then show ?thesis using rhe_floor [of x] rhe_floor [of y] by linarith
qed

lemma rhe_le_iff: "x \<le> of_int k \<Longrightarrow> rhe x \<le> k"
  using rhe_mono [of x "of_int k"] by simp

lemma rhe_ge_iff: "of_int k \<le> x \<Longrightarrow> k \<le> rhe x"
  using rhe_mono [of "of_int k" x] by simp

lemma rhe_minus: "rhe (- x) = - rhe x"
proof (cases "x \<in> \<int>")
  case True
  then obtain n where x: "x = of_int n" by (auto elim: Ints_cases)
  show ?thesis unfolding x of_int_minus [symmetric] rhe_of_int ..
next
  case False
  define f where "f = \<lfloor>x\<rfloor>"
  have "of_int f \<noteq> x" using False by (metis Ints_of_int)
  then have b: "of_int f < x" "x < of_int f + 1"
    unfolding f_def using floor_correct [of x] by (simp_all add: less_le)
  then have "\<lfloor>- x\<rfloor> = - f - 1" by (intro floor_unique) simp_all
  with b show ?thesis by (auto simp: rhe_def Let_def f_def [symmetric])
qed

subsection \<open>Rounding to binary64\<close>

lemma representableI:
  "q = of_int m * 2 powi e \<Longrightarrow> \<bar>m\<bar> \<le> 2 ^ 53 \<Longrightarrow> -1074 \<le> e \<Longrightarrow> representable q"
  unfolding representable_def by blast

lemma ulp_pos [simp]: "0 < ulp x"
  by (simp add: ulp_def)

lemma ulp_minus [simp]: "ulp (- x) = ulp x"
  by (simp add: ulp_def)

lemma fl_0 [simp]: "fl 0 = 0"
  by (simp add: fl_def)

lemma fl_minus: "fl (- x) = - fl x"
  by (simp add: fl_def Let_def rhe_minus)

lemma fl_grid_le: "x \<le> of_int k * ulp x \<Longrightarrow> x \<noteq> 0 \<Longrightarrow> fl x \<le> of_int k * ulp x"
proof -
  assume x: "x \<le> of_int k * ulp x" "x \<noteq> 0"
  then have "x / ulp x \<le> of_int k" by (simp add: pos_divide_le_eq)
  then have "rhe (x / ulp x) \<le> k" by (rule rhe_le_iff)
  with x show ?thesis by (simp add: fl_def Let_def)
qed

lemma fl_grid_ge: "of_int k * ulp x \<le> x \<Longrightarrow> x \<noteq> 0 \<Longrightarrow> of_int k * ulp x \<le> fl x"
proof -
  assume x: "of_int k * ulp x \<le> x" "x \<noteq> 0"
  then have "of_int k \<le> x / ulp x" by (simp add: pos_le_divide_eq)
  then have "k \<le> rhe (x / ulp x)" by (rule rhe_ge_iff)
  with x show ?thesis by (simp add: fl_def Let_def)
qed

lemma fl_nonneg: "0 \<le> x \<Longrightarrow> 0 \<le> fl x"
  using fl_grid_ge [of 0 x] by (cases "x = 0") auto

lemma fl_error: "\<bar>fl x - x\<bar> \<le> ulp x / 2"
proof (cases "x = 0")
  case True
  then show ?thesis by (simp add: less_imp_le)
next
  case False
  have "\<bar>of_int (rhe (x / ulp x)) - x / ulp x\<bar> * ulp x \<le> 1 / 2 * ulp x"
    by (rule mult_right_mono [OF rhe_error]) (simp add: less_imp_le)
  also have "\<bar>of_int (rhe (x / ulp x)) - x / ulp x\<bar> * ulp x
      = \<bar>(of_int (rhe (x / ulp x)) - x / ulp x) * ulp x\<bar>"
    by (simp add: abs_mult less_imp_le)
  also have "(of_int (rhe (x / ulp x)) - x / ulp x) * ulp x = fl x - x"
    using False less_imp_neq [OF ulp_pos [of x]] by (simp add: fl_def Let_def left_diff_distrib)
  finally show ?thesis by simp
qed

lemma ulp_grid: "max (ilog2 \<bar>x\<bar> - 52) (-1074) \<le> k \<Longrightarrow> \<exists>n. (2 :: rat) powi k = of_int n * ulp x"
  unfolding ulp_def by (meson two_powi_split)

lemma fl_mono_pos: assumes "0 < x" "x \<le> y" shows "fl x \<le> fl y"
proof (cases "ulp x = ulp y")
  case True
  have "x / ulp y \<le> y / ulp y" using assms by (simp add: divide_right_mono less_imp_le)
  then have "rhe (x / ulp y) \<le> rhe (y / ulp y)" by (rule rhe_mono)
  with True assms show ?thesis by (simp add: fl_def Let_def less_imp_le)
next
  case False
  have l: "ilog2 x < ilog2 y"
    using ilog2_mono [OF assms] False assms by (cases "ilog2 x = ilog2 y") (auto simp: ulp_def)
  with False assms have k: "-1074 < ilog2 y - 52" by (auto simp: ulp_def max_def split: if_splits)
  have xB: "x \<le> 2 powi ilog2 y"
    using ilog2_bounds [of x] assms two_powi_mono [of "ilog2 x + 1" "ilog2 y"] l by simp
  have By: "2 powi ilog2 y \<le> y" using ilog2_bounds [of y] assms by simp
  obtain m where m: "(2 :: rat) powi ilog2 y = of_int m * ulp x"
    using ulp_grid [of x "ilog2 y"] l k assms by auto
  obtain n where n: "(2 :: rat) powi ilog2 y = of_int n * ulp y"
    using ulp_grid [of y "ilog2 y"] k assms by auto
  have "fl x \<le> 2 powi ilog2 y" using fl_grid_le [of x m] m xB assms by simp
  also have "\<dots> \<le> fl y" using fl_grid_ge [of n y] n By assms by simp
  finally show ?thesis .
qed

lemma fl_mono: assumes "x \<le> y" shows "fl x \<le> fl y"
proof -
  consider "0 < x" | "x \<le> 0" "0 \<le> y" | "y < 0" by linarith
  then show ?thesis
  proof cases
    case 1
    then show ?thesis using assms by (rule fl_mono_pos)
  next
    case 2
    then have "0 \<le> fl (- x)" "0 \<le> fl y" by (simp_all add: fl_nonneg)
    then show ?thesis by (simp add: fl_minus)
  next
    case 3
    then have "fl (- y) \<le> fl (- x)" using assms by (intro fl_mono_pos) simp_all
    then show ?thesis by (simp add: fl_minus)
  qed
qed

lemma fl_exact:
  assumes "representable q"
  shows "fl q = q"
proof (cases "q = 0")
  case False
  obtain m e where q: "q = of_int m * 2 powi e" and m: "\<bar>m\<bar> \<le> 2 ^ 53" and e: "-1074 \<le> e"
    using assms by (auto simp: representable_def)
  define s where "s = max (ilog2 \<bar>q\<bar> - 52) (-1074)"
  have absq: "\<bar>q\<bar> = of_int \<bar>m\<bar> * 2 powi e" by (simp add: q abs_mult)
  have "of_int \<bar>m\<bar> \<le> (2 ^ 53 :: rat)" using m by (metis of_int_le_iff of_int_numeral of_int_power)
  then have "\<bar>q\<bar> \<le> 2 ^ 53 * 2 powi e" unfolding absq by (intro mult_right_mono) (simp_all add: less_imp_le)
  also have "\<dots> = 2 powi (53 + e)" by (simp add: power_int_add)
  finally have hi: "\<bar>q\<bar> \<le> 2 powi (53 + e)" .
  have lo: "2 powi ilog2 \<bar>q\<bar> \<le> \<bar>q\<bar>" using ilog2_bounds [of "\<bar>q\<bar>"] False by simp
  have "\<exists>k. q = of_int k * 2 powi s"
  proof (cases "s \<le> e")
    case True
    then have "q = of_int (m * 2 ^ nat (e - s)) * 2 powi s"
      unfolding q two_powi_split [OF True] by simp
    then show ?thesis ..
  next
    case 2: False
    then have s: "s = ilog2 \<bar>q\<bar> - 52" using e by (auto simp: s_def max_def split: if_splits)
    have "(2 :: rat) powi ilog2 \<bar>q\<bar> \<le> 2 powi (53 + e)" using lo hi by linarith
    then have "ilog2 \<bar>q\<bar> \<le> 53 + e" using two_powi_less_iff [of "53 + e" "ilog2 \<bar>q\<bar>"] by linarith
    with s 2 have il: "ilog2 \<bar>q\<bar> = 53 + e" "s = e + 1" by linarith+
    with lo hi have "\<bar>q\<bar> = 2 powi (53 + e)" by simp
    then have "\<bar>q\<bar> = of_int (2 ^ 52) * 2 powi s" unfolding il by (simp add: power_int_add)
    then have "q = of_int (if 0 \<le> q then 2 ^ 52 else - (2 ^ 52)) * 2 powi s"
      by (cases "0 \<le> q") simp_all
    then show ?thesis ..
  qed
  then obtain k where k: "q = of_int k * ulp q" by (auto simp: ulp_def s_def)
  then have "q / ulp q = of_int k" using less_imp_neq [OF ulp_pos [of q]]
    by (metis nonzero_mult_div_cancel_right)
  then show ?thesis using False k by (simp add: fl_def Let_def)
qed simp

lemma fl_representable: "representable (fl x)"
proof (cases "x = 0")
  case True
  then show ?thesis by (intro representableI [of _ 0 0]) simp_all
next
  case False
  define s where "s = max (ilog2 \<bar>x\<bar> - 52) (-1074)"
  have "\<bar>x\<bar> < 2 powi (ilog2 \<bar>x\<bar> + 1)" using ilog2_bounds [of "\<bar>x\<bar>"] False by simp
  also have "\<dots> \<le> 2 powi (s + 53)" by (rule two_powi_mono) (simp add: s_def)
  also have "\<dots> = of_int (2 ^ 53) * ulp x" by (simp add: power_int_add ulp_def s_def)
  finally have lt: "\<bar>x\<bar> < of_int (2 ^ 53) * ulp x" .
  have "x / ulp x \<le> of_int (2 ^ 53)" using lt
    by (subst pos_divide_le_eq) (simp_all add: abs_less_iff less_imp_le)
  moreover have "of_int (- (2 ^ 53)) \<le> x / ulp x" using lt
    by (subst pos_le_divide_eq) (auto simp: abs_less_iff)
  ultimately have "\<bar>rhe (x / ulp x)\<bar> \<le> 2 ^ 53"
    using rhe_le_iff rhe_ge_iff by (metis abs_le_iff minus_le_iff)
  moreover have "fl x = of_int (rhe (x / ulp x)) * 2 powi s"
    using False by (simp add: fl_def Let_def ulp_def s_def)
  moreover have "-1074 \<le> s" by (simp add: s_def)
  ultimately show ?thesis by (blast intro: representableI)
qed

lemma fl_idem [simp]: "fl (fl x) = fl x"
  by (rule fl_exact [OF fl_representable])

lemma representable_int: "\<bar>n\<bar> \<le> 2 ^ 53 \<Longrightarrow> representable (of_int n)"
  by (rule representableI [of _ n 0]) simp_all

lemma fl_of_int: "\<bar>n\<bar> \<le> 2 ^ 53 \<Longrightarrow> fl (of_int n) = of_int n"
  by (rule fl_exact [OF representable_int])

lemma fl_1 [simp]: "fl 1 = 1"
  using fl_of_int [of 1] by simp


subsection \<open>Comparing rounded values\<close>

lemma ulp_le: "0 < x \<Longrightarrow> x < 2 powi (k + 1) \<Longrightarrow> -1022 \<le> k \<Longrightarrow> ulp x \<le> 2 powi (k - 52)"
proof -
  assume a: "0 < x" "x < 2 powi (k + 1)" "-1022 \<le> k"
  then have "(2 :: rat) powi ilog2 x < 2 powi (k + 1)" using ilog2_bounds [of x] by linarith
  then have "ilog2 x \<le> k" by (simp add: two_powi_less_iff)
  with a show ?thesis unfolding ulp_def by (intro two_powi_mono) simp
qed

text \<open>Two values of the same binade more than one unit in the last place apart stay apart.\<close>

lemma fl_strict:
  assumes "0 < x" "x + 2 powi (k - 52) < y" "y < 2 powi (k + 1)" "-1022 \<le> k"
  shows "fl x < fl y"
proof -
  have p: "(0 :: rat) < 2 powi (k - 52)" by simp
  have "ulp x \<le> 2 powi (k - 52)" "ulp y \<le> 2 powi (k - 52)"
    using assms p by (intro ulp_le; linarith)+
  then show ?thesis using fl_error [of x] fl_error [of y] assms(2) unfolding abs_le_iff by linarith
qed

lemma frac_apart:
  fixes v c p q :: int
  assumes "0 < c" "0 < q" "p * c < v * q"
  shows "1 / (of_int (q * c)) \<le> (of_int v / of_int c - of_int p / of_int q :: rat)"
proof -
  have "of_int v / of_int c - of_int p / (of_int q :: rat) = of_int (v * q - p * c) / of_int (q * c)"
    using assms by (simp add: diff_frac_eq mult.commute)
  moreover have "(1 :: rat) \<le> of_int (v * q - p * c)" using assms by linarith
  ultimately show ?thesis using assms by (simp add: divide_right_mono)
qed

text \<open>
  The comparison \<open>v / c <= p / q\<close> on floats, with the quotient and the threshold each
  rounded, is the comparison on integers, whenever the threshold lies in the binade of
  \<open>2 ^ k\<close> with room below its end and \<open>q * c\<close> is below \<open>2 ^ (52 - k)\<close>.
\<close>

lemma fl_threshold_le_iff:
  fixes v c p q :: int
  assumes "0 < c" "0 < q" "0 < p" "of_int (q * c) < (2 powi (52 - k) :: rat)" "-1022 \<le> k"
    and "of_int p / of_int q + 2 powi (k - 51) < (2 powi (k + 1) :: rat)"
  shows "fl (of_int v / of_int c) \<le> fl (of_int p / of_int q) \<longleftrightarrow> v * q \<le> p * c"
proof
  assume "v * q \<le> p * c"
  then have "(of_int (v * q) :: rat) \<le> of_int (p * c)" by (simp only: of_int_le_iff)
  then have "of_int v / of_int c \<le> (of_int p / of_int q :: rat)"
    using assms(1,2) by (simp add: frac_le_eq divide_le_eq field_simps)
  then show "fl (of_int v / of_int c) \<le> fl (of_int p / of_int q)" by (rule fl_mono)
next
  define x t :: rat where "x = of_int v / of_int c" and "t = of_int p / of_int q"
  assume le: "fl (of_int v / of_int c) \<le> fl (of_int p / of_int q)"
  show "v * q \<le> p * c"
  proof (rule ccontr)
    assume "\<not> ?thesis"
    then have "1 / of_int (q * c) \<le> x - t"
      unfolding x_def t_def by (intro frac_apart assms) simp
    moreover have "2 powi (k - 52) < 1 / (of_int (q * c) :: rat)"
    proof -
      have "2 powi (k - 52) * (of_int (q * c) :: rat) < 2 powi (k - 52) * 2 powi (52 - k)"
        by (rule mult_strict_left_mono [OF assms(4)]) simp
      also have "\<dots> = 1" by (simp add: power_int_add [symmetric])
      finally show ?thesis using assms(1,2) by (simp add: pos_less_divide_eq)
    qed
    ultimately have gap: "t + 2 powi (k - 52) < x" by linarith
    have t: "0 < t" using assms by (simp add: t_def)
    have dbl: "(2 :: rat) powi (k - 51) = 2 * 2 powi (k - 52)"
      using power_int_add_1' [of "2 :: rat" "k - 52"] by (simp add: mult.commute)
    define y where "y = min x (2 powi (k + 1) - 2 powi (k - 52) / 2)"
    have p: "(0 :: rat) < 2 powi (k - 52)" by simp
    have y: "y = x \<or> y = 2 powi (k + 1) - 2 powi (k - 52) / 2" "y \<le> x"
      "y \<le> 2 powi (k + 1) - 2 powi (k - 52) / 2" by (auto simp: y_def)
    then have "t + 2 powi (k - 52) < y" "y < 2 powi (k + 1)"
      using gap assms(6) dbl p unfolding t_def [symmetric] by linarith+
    then have "fl t < fl y" using t assms(5) by (intro fl_strict)
    also have "fl y \<le> fl x" using y(2) by (rule fl_mono)
    finally show False using le by (simp add: x_def t_def)
  qed
qed

lemma fl_threshold_ge_iff:
  fixes v c p q :: int
  assumes "0 < c" "0 < q" "0 < p" "0 \<le> v" "of_int (q * c) < (2 powi (52 - k) :: rat)" "-1022 \<le> k"
    and "of_int p / of_int q < (2 powi (k + 1) :: rat)" "2 powi k < (of_int p / of_int q :: rat)"
  shows "fl (of_int p / of_int q) \<le> fl (of_int v / of_int c) \<longleftrightarrow> p * c \<le> v * q"
proof
  assume "p * c \<le> v * q"
  then have "(of_int (p * c) :: rat) \<le> of_int (v * q)" by (simp only: of_int_le_iff)
  then have "of_int p / of_int q \<le> (of_int v / of_int c :: rat)"
    using assms(1,2) by (simp add: field_simps)
  then show "fl (of_int p / of_int q) \<le> fl (of_int v / of_int c)" by (rule fl_mono)
next
  define x t :: rat where "x = of_int v / of_int c" and "t = of_int p / of_int q"
  assume le: "fl (of_int p / of_int q) \<le> fl (of_int v / of_int c)"
  show "p * c \<le> v * q"
  proof (rule ccontr)
    assume "\<not> ?thesis"
    then have "1 / of_int (c * q) \<le> t - x"
      unfolding x_def t_def by (intro frac_apart assms) simp
    moreover have "2 powi (k - 52) < 1 / (of_int (c * q) :: rat)"
    proof -
      have "2 powi (k - 52) * (of_int (q * c) :: rat) < 2 powi (k - 52) * 2 powi (52 - k)"
        by (rule mult_strict_left_mono [OF assms(5)]) simp
      also have "\<dots> = 1" by (simp add: power_int_add [symmetric])
      finally show ?thesis using assms(1,2) by (simp add: pos_less_divide_eq mult.commute)
    qed
    ultimately have gap: "x + 2 powi (k - 52) < t" by linarith
    have x0: "0 \<le> x" using assms by (simp add: x_def)
    have t0: "0 < fl t"
    proof -
      have "fl (2 powi k) = 2 powi k" using assms(6)
        by (intro fl_exact representableI [of _ 1 k]) simp_all
      then show ?thesis using fl_mono [of "2 powi k" t] assms(8) two_powi_pos [of k]
        unfolding t_def by linarith
    qed
    have "fl x < fl t"
    proof (cases "x = 0")
      case False
      with x0 gap assms(6,7) show ?thesis by (intro fl_strict) (simp_all add: t_def)
    qed (simp add: t0)
    then show False using le by (simp add: x_def t_def)
  qed
qed

section \<open>The float type and its operations\<close>

datatype f64 = Fin rat | PInf | NInf | NaN

text \<open>The float nearest to a rational; beyond the largest finite one, an infinity.\<close>

definition f64_of_rat :: "rat \<Rightarrow> f64" where
  "f64_of_rat x = (let y = fl x in
     if 2 ^ 1024 \<le> y then PInf else if y \<le> - (2 ^ 1024) then NInf else Fin y)"

fun f64_is_finite :: "f64 \<Rightarrow> bool" where
  "f64_is_finite (Fin _) = True"
| "f64_is_finite _ = False"

fun f64_neg :: "f64 \<Rightarrow> f64" where
  "f64_neg (Fin a) = Fin (- a)"
| "f64_neg PInf = NInf"
| "f64_neg NInf = PInf"
| "f64_neg NaN = NaN"

fun f64_add :: "f64 \<Rightarrow> f64 \<Rightarrow> f64" where
  "f64_add NaN _ = NaN"
| "f64_add _ NaN = NaN"
| "f64_add (Fin a) (Fin b) = f64_of_rat (a + b)"
| "f64_add PInf NInf = NaN"
| "f64_add NInf PInf = NaN"
| "f64_add PInf _ = PInf"
| "f64_add NInf _ = NInf"
| "f64_add _ PInf = PInf"
| "f64_add _ NInf = NInf"

definition f64_sub :: "f64 \<Rightarrow> f64 \<Rightarrow> f64" where
  "f64_sub a b = f64_add a (f64_neg b)"

fun f64_sign :: "f64 \<Rightarrow> rat" where
  "f64_sign (Fin a) = sgn a"
| "f64_sign PInf = 1"
| "f64_sign NInf = -1"
| "f64_sign NaN = 0"

definition f64_mul :: "f64 \<Rightarrow> f64 \<Rightarrow> f64" where
  "f64_mul a b = (case (a, b) of
     (Fin x, Fin y) \<Rightarrow> f64_of_rat (x * y)
   | _ \<Rightarrow> (let s = f64_sign a * f64_sign b in
       if a = NaN \<or> b = NaN \<or> s = 0 then NaN else if 0 < s then PInf else NInf))"

text \<open>Division by a non-zero float; the caller raises ZeroDivisionError for zero.\<close>

definition f64_div :: "f64 \<Rightarrow> f64 \<Rightarrow> f64" where
  "f64_div a b = (case (a, b) of
     (Fin x, Fin y) \<Rightarrow> f64_of_rat (x / y)
   | (Fin x, PInf) \<Rightarrow> Fin 0
   | (Fin x, NInf) \<Rightarrow> Fin 0
   | (PInf, Fin y) \<Rightarrow> (if y < 0 then NInf else PInf)
   | (NInf, Fin y) \<Rightarrow> (if y < 0 then PInf else NInf)
   | _ \<Rightarrow> NaN)"

text \<open>Comparisons are false on NaN, as Python's are.\<close>

fun f64_le :: "f64 \<Rightarrow> f64 \<Rightarrow> bool" where
  "f64_le NaN _ = False"
| "f64_le _ NaN = False"
| "f64_le (Fin a) (Fin b) = (a \<le> b)"
| "f64_le NInf _ = True"
| "f64_le _ PInf = True"
| "f64_le _ _ = False"

definition f64_lt :: "f64 \<Rightarrow> f64 \<Rightarrow> bool" where
  "f64_lt a b \<longleftrightarrow> f64_le a b \<and> a \<noteq> b"

text \<open>Python's \<open>max(a, b)\<close> and \<open>min(a, b)\<close> return the first argument on a tie or a NaN.\<close>

definition f64_max :: "f64 \<Rightarrow> f64 \<Rightarrow> f64" where
  "f64_max a b = (if f64_lt a b then b else a)"

definition f64_min :: "f64 \<Rightarrow> f64 \<Rightarrow> f64" where
  "f64_min a b = (if f64_lt b a then b else a)"

text \<open>\<open>round(x, n)\<close>: the decimal with \<open>n\<close> places nearest to the exact value, as a float.\<close>

fun f64_round :: "f64 \<Rightarrow> nat \<Rightarrow> f64" where
  "f64_round (Fin a) n = f64_of_rat (of_int (rhe (a * 10 ^ n)) / 10 ^ n)"
| "f64_round x n = x"

lemma f64_le_Fin_trans: "f64_le x y \<Longrightarrow> f64_le y z \<Longrightarrow> f64_le x z"
  by (cases x; cases y; cases z) auto

lemma f64_of_rat_small: "\<bar>x\<bar> \<le> 2 ^ 1000 \<Longrightarrow> f64_of_rat x = Fin (fl x)"
proof -
  assume x: "\<bar>x\<bar> \<le> 2 ^ 1000"
  have "fl (2 powi 1000) = 2 powi 1000" by (intro fl_exact representableI [of _ 1 1000]) simp_all
  then have "fl (2 ^ 1000) = 2 ^ 1000" by (simp add: power_int_def)
  then have "fl x \<le> 2 ^ 1000" "- (2 ^ 1000) \<le> fl x"
    using fl_mono [of x "2 ^ 1000"] fl_mono [of "- (2 ^ 1000)" x] x
    by (simp_all add: abs_le_iff fl_minus)
  moreover have "(2 :: rat) ^ 1000 < 2 ^ 1024" by (rule power_strict_increasing) simp_all
  ultimately show ?thesis by (simp add: f64_of_rat_def Let_def)
qed

lemma f64_of_rat_small_num [simp]: "f64_of_rat 0 = Fin 0" "f64_of_rat 1 = Fin 1"
  using f64_of_rat_small [of 0] f64_of_rat_small [of 1] by simp_all

text \<open>Evaluation: the overflow test is only made for values that may need it.\<close>

lemma f64_of_rat_code [code]:
  "f64_of_rat x = (if \<bar>x\<bar> \<le> 1000000000000000000000000 then Fin (fl x)
     else let y = fl x in if 2 ^ 1024 \<le> y then PInf else if y \<le> - (2 ^ 1024) then NInf else Fin y)"
proof (cases "\<bar>x\<bar> \<le> 1000000000000000000000000")
  case True
  have "(1000000000000000000000000 :: rat) \<le> 2 ^ 1000" by simp
  with True have "\<bar>x\<bar> \<le> 2 ^ 1000" by (rule order_trans)
  with True show ?thesis by (simp add: f64_of_rat_small)
qed (simp add: f64_of_rat_def)

text \<open>A float literal of the source: the nearest float.\<close>

definition float_lit :: "rat \<Rightarrow> f64" where
  "float_lit q = Fin (fl q)"

end
