(* ===== verification/PyValue.thy ===== *)
theory PyValue
  imports Float64 "HOL-Library.AList"
begin

text \<open>
  The part of Python the program is written in, as far as its behaviour depends on it:
  the JSON values a state file holds, the built-in conversions \<open>int\<close>, \<open>float\<close>,
  \<open>str\<close>, \<open>bool\<close> with the exceptions they raise, insertion-ordered dictionaries, and
  a result type for code that can raise.  Every component translates the program's code
  over these values, so that a missing key, a value of the wrong type or a malformed
  number takes the same branch as in the program.

  Text is a list of 8-bit characters (the program's keys, reasons and identifiers are
  ASCII); the clock and the random identifiers a function reads are arguments.
\<close>

named_theorems py_defs \<open>Definitions of the built-in conversions, to evaluate a closed call.\<close>

section \<open>Exceptions and results\<close>

datatype exc =
    KeyError string
  | IndexError
  | TypeError
  | ValueError string
  | AttributeError
  | OverflowError
  | ZeroDivisionError
  | RuntimeError string
  | VersionConflict int int
  | StateLockTimeout string
  | TimeoutError string
  | JSONDecodeError
  | InvalidOperation
  | JupiterNoRouteError string
  | TransportError string

type_synonym 'a res = "exc + 'a"

definition bindE :: "'a res \<Rightarrow> ('a \<Rightarrow> 'b res) \<Rightarrow> 'b res" where
  "bindE m f = (case m of Inl e \<Rightarrow> Inl e | Inr x \<Rightarrow> f x)"

lemma bindE_simps [simp]: "bindE (Inr x) f = f x" "bindE (Inl e) f = Inl e"
  by (simp_all add: bindE_def)

lemma bindE_eq_Inr: "bindE m f = Inr y \<longleftrightarrow> (\<exists>x. m = Inr x \<and> f x = Inr y)"
  by (cases m) simp_all

lemma bindE_eq_Inl: "bindE m f = Inl e \<longleftrightarrow> m = Inl e \<or> (\<exists>x. m = Inr x \<and> f x = Inl e)"
  by (cases m) simp_all

lemma bindE_cong [fundef_cong]:
  "m = m' \<Longrightarrow> (\<And>x. m' = Inr x \<Longrightarrow> f x = f' x) \<Longrightarrow> bindE m f = bindE m' f'"
  by (cases m') simp_all

lemma bindE_assoc: "bindE (bindE m f) g = bindE m (\<lambda>x. bindE (f x) g)"
  by (cases m) simp_all

text \<open>\<open>try: m except P: h\<close>.\<close>

definition catchE :: "'a res \<Rightarrow> (exc \<Rightarrow> bool) \<Rightarrow> (exc \<Rightarrow> 'a res) \<Rightarrow> 'a res" where
  "catchE m p h = (case m of Inl e \<Rightarrow> (if p e then h e else Inl e) | Inr x \<Rightarrow> Inr x)"

lemma catchE_simps [simp]:
  "catchE (Inr x) p h = Inr x" "catchE (Inl e) p h = (if p e then h e else Inl e)"
  by (simp_all add: catchE_def)

text \<open>A loop over a list whose body may raise: the first exception ends it.\<close>

fun foldE :: "('s \<Rightarrow> 'a \<Rightarrow> 's res) \<Rightarrow> 's \<Rightarrow> 'a list \<Rightarrow> 's res" where
  "foldE f s [] = Inr s"
| "foldE f s (x # xs) = bindE (f s x) (\<lambda>s'. foldE f s' xs)"

fun mapE :: "('a \<Rightarrow> 'b res) \<Rightarrow> 'a list \<Rightarrow> 'b list res" where
  "mapE f [] = Inr []"
| "mapE f (x # xs) = bindE (f x) (\<lambda>y. bindE (mapE f xs) (\<lambda>ys. Inr (y # ys)))"

lemma foldE_invariant:
  assumes "foldE f s xs = Inr t" "P s"
    and "\<And>s x t. x \<in> set xs \<Longrightarrow> P s \<Longrightarrow> f s x = Inr t \<Longrightarrow> P t"
  shows "P t"
  using assms
proof (induction xs arbitrary: s)
  case (Cons x xs)
  then obtain s' where s': "f s x = Inr s'" "foldE f s' xs = Inr t" by (auto simp: bindE_eq_Inr)
  have "P s'" using Cons.prems(3) [of x s s'] Cons.prems(2) s'(1) by simp
  with s'(2) show ?case using Cons.prems(3) by (intro Cons.IH) auto
qed simp

lemma mapE_length: "mapE f xs = Inr ys \<Longrightarrow> length ys = length xs"
  by (induction xs arbitrary: ys) (auto simp: bindE_eq_Inr)

lemma mapE_nth: "mapE f xs = Inr ys \<Longrightarrow> i < length xs \<Longrightarrow> f (xs ! i) = Inr (ys ! i)"
proof (induction xs arbitrary: ys i)
  case (Cons x xs)
  then show ?case by (cases i) (auto simp: bindE_eq_Inr)
qed simp

section \<open>Values\<close>

datatype py =
    PNone
  | PBool bool
  | PInt int
  | PFloat f64
  | PStr string
  | PList "py list"
  | PDict "(string \<times> py) list"

type_synonym dict = "(string \<times> py) list"

fun is_dict :: "py \<Rightarrow> bool" where "is_dict (PDict _) = True" | "is_dict _ = False"
fun is_list :: "py \<Rightarrow> bool" where "is_list (PList _) = True" | "is_list _ = False"
fun is_str :: "py \<Rightarrow> bool" where "is_str (PStr _) = True" | "is_str _ = False"

text \<open>Truth of a value, and \<open>a or b\<close>.\<close>

fun truthy :: "py \<Rightarrow> bool" where
  "truthy PNone = False"
| "truthy (PBool b) = b"
| "truthy (PInt i) = (i \<noteq> 0)"
| "truthy (PFloat x) = (x \<noteq> Fin 0)"
| "truthy (PStr s) = (s \<noteq> [])"
| "truthy (PList xs) = (xs \<noteq> [])"
| "truthy (PDict d) = (d \<noteq> [])"

definition py_or :: "py \<Rightarrow> py \<Rightarrow> py" where
  "py_or a b = (if truthy a then a else b)"

lemma py_or_simps [simp]:
  "py_or PNone b = b" "py_or (PStr []) b = b" "py_or (PInt 0) b = b"
  "s \<noteq> [] \<Longrightarrow> py_or (PStr s) b = PStr s" "i \<noteq> 0 \<Longrightarrow> py_or (PInt i) b = PInt i"
  by (simp_all add: py_or_def)

lemma py_or_int_0 [simp]: "py_or (PInt i) (PInt 0) = PInt i"
  by (simp add: py_or_def)

subsection \<open>Dictionaries\<close>

definition dget :: "dict \<Rightarrow> string \<Rightarrow> py option" where
  "dget d k = map_of d k"

text \<open>\<open>d.get(k, default)\<close>, \<open>d.get(k)\<close>, \<open>d[k]\<close>, \<open>k in d\<close>, \<open>d[k] = v\<close>,
  \<open>d.setdefault(k, v)\<close>, \<open>d.pop(k, None)\<close> and \<open>d.update(kvs)\<close>.\<close>

definition dget_or :: "dict \<Rightarrow> string \<Rightarrow> py \<Rightarrow> py" where
  "dget_or d k v = (case dget d k of None \<Rightarrow> v | Some x \<Rightarrow> x)"

definition dgetn :: "dict \<Rightarrow> string \<Rightarrow> py" where
  "dgetn d k = dget_or d k PNone"

definition dindex :: "dict \<Rightarrow> string \<Rightarrow> py res" where
  "dindex d k = (case dget d k of None \<Rightarrow> Inl (KeyError k) | Some x \<Rightarrow> Inr x)"

definition dhas :: "dict \<Rightarrow> string \<Rightarrow> bool" where
  "dhas d k \<longleftrightarrow> dget d k \<noteq> None"

definition dset :: "string \<Rightarrow> py \<Rightarrow> dict \<Rightarrow> dict" where
  "dset k v d = AList.update k v d"

definition dsetdefault :: "string \<Rightarrow> py \<Rightarrow> dict \<Rightarrow> dict" where
  "dsetdefault k v d = (if dhas d k then d else dset k v d)"

definition dpop :: "string \<Rightarrow> dict \<Rightarrow> dict" where
  "dpop k d = AList.delete k d"

definition dupdate :: "dict \<Rightarrow> dict \<Rightarrow> dict" where
  "dupdate d kvs = fold (\<lambda>(k, v). dset k v) kvs d"

definition dkeys :: "dict \<Rightarrow> string list" where
  "dkeys d = map fst d"

lemma dget_Nil [simp]: "dget [] k = None"
  by (simp add: dget_def)

lemma dget_Cons [simp]: "dget ((k, v) # d) k' = (if k = k' then Some v else dget d k')"
  by (simp add: dget_def)

lemma dget_dset [simp]: "dget (dset k v d) k' = (if k' = k then Some v else dget d k')"
  by (simp add: dget_def dset_def update_conv)

lemma dget_dpop [simp]: "dget (dpop k d) k' = (if k' = k then None else dget d k')"
  by (simp add: dget_def dpop_def delete_conv)

lemma dget_dsetdefault [simp]:
  "dget (dsetdefault k v d) k' =
     (if k' = k then Some (case dget d k of None \<Rightarrow> v | Some x \<Rightarrow> x) else dget d k')"
  by (auto simp: dsetdefault_def dhas_def)

lemma dget_or_eq [simp]: "dget d k = Some v \<Longrightarrow> dget_or d k x = v"
  and dget_or_None [simp]: "dget d k = None \<Longrightarrow> dget_or d k x = x"
  by (simp_all add: dget_or_def)

lemma dgetn_eq [simp]: "dget d k = Some v \<Longrightarrow> dgetn d k = v"
  and dgetn_None [simp]: "dget d k = None \<Longrightarrow> dgetn d k = PNone"
  by (simp_all add: dgetn_def)

lemma dindex_eq [simp]: "dget d k = Some v \<Longrightarrow> dindex d k = Inr v"
  and dindex_None [simp]: "dget d k = None \<Longrightarrow> dindex d k = Inl (KeyError k)"
  by (simp_all add: dindex_def)

lemma dget_or_dset [simp]:
  "dget_or (dset k v d) k' x = (if k' = k then v else dget_or d k' x)"
  "dget_or (dpop k d) k' x = (if k' = k then x else dget_or d k' x)"
  by (simp_all add: dget_or_def)

lemma dgetn_dset [simp]:
  "dgetn (dset k v d) k' = (if k' = k then v else dgetn d k')"
  "dgetn (dpop k d) k' = (if k' = k then PNone else dgetn d k')"
  by (simp_all add: dgetn_def)

lemma dindex_dset [simp]:
  "dindex (dset k v d) k' = (if k' = k then Inr v else dindex d k')"
  by (simp add: dindex_def)

lemma dhas_dset [simp]: "dhas (dset k v d) k' \<longleftrightarrow> k' = k \<or> dhas d k'"
  by (simp add: dhas_def)

lemma dkeys_dset: "dkeys (dset k v d) = (if dhas d k then dkeys d else dkeys d @ [k])"
  by (simp add: dkeys_def dset_def dhas_def dget_def update_keys map_of_eq_None_iff)

lemma distinct_dset [simp]: "distinct (map fst d) \<Longrightarrow> distinct (map fst (dset k v d))"
  by (simp add: dset_def distinct_update)

lemma distinct_dpop [simp]: "distinct (map fst d) \<Longrightarrow> distinct (map fst (dpop k d))"
  by (simp add: dpop_def distinct_delete)

lemma dget_in_set: "dget d k = Some v \<Longrightarrow> (k, v) \<in> set d"
  by (simp add: dget_def map_of_SomeD)

lemma in_set_dget: "distinct (map fst d) \<Longrightarrow> (k, v) \<in> set d \<Longrightarrow> dget d k = Some v"
  by (simp add: dget_def)

lemma set_dset_subset: "set (dset k v d) \<subseteq> insert (k, v) (set d)"
  unfolding dset_def by (induction d) auto

lemma set_dset: "distinct (map fst d) \<Longrightarrow> set (dset k v d) = insert (k, v) {p \<in> set d. fst p \<noteq> k}"
proof (induction d)
  case (Cons p d)
  then show ?case by (cases p) (force simp: dset_def rev_image_eqI)
qed (simp add: dset_def)

lemma set_dpop: "set (dpop k d) = {p \<in> set d. fst p \<noteq> k}"
  by (auto simp: dpop_def AList.delete_eq)

lemma dget_dupdate: "dget (dupdate d kvs) k = (case dget (rev kvs) k of None \<Rightarrow> dget d k | Some v \<Rightarrow> Some v)"
  by (induction kvs arbitrary: d)
    (auto simp: dupdate_def dget_def dset_def update_conv map_add_Some_iff split: option.splits)

lemma dget_rev_None: "dget (rev d) k = None \<longleftrightarrow> dget d k = None"
  by (simp add: dget_def map_of_eq_None_iff)

lemma dget_rev_distinct: "distinct (map fst d) \<Longrightarrow> dget (rev d) k = dget d k"
  using map_of_inject_set [of "rev d" d] by (simp add: dget_def rev_map [symmetric])

lemma distinct_dupdate: "distinct (map fst d) \<Longrightarrow> distinct (map fst (dupdate d kvs))"
  by (induction kvs arbitrary: d) (auto simp: dupdate_def)

lemma dset_same: "dget d k = Some v \<Longrightarrow> dset k v d = d"
  by (induction d) (auto simp: dset_def split: if_splits)

lemma dset_fresh: "dget d k = None \<Longrightarrow> dset k v d = d @ [(k, v)]"
  by (induction d) (auto simp: dset_def split: if_splits)

text \<open>Evaluation of a transaction: the continuation of a step waits for its result.\<close>

lemma bindE_weak: "m = m' \<Longrightarrow> bindE m f = bindE m' f" by simp
lemma let_weak: "a = b \<Longrightarrow> (let x = a in t x) = (let x = b in t x)" by simp

end
