(* ===== verification/PyText.thy ===== *)
theory PyText
  imports PyValue
begin

text \<open>
  Text: the string methods the program calls (\<open>strip\<close>, \<open>upper\<close>, \<open>replace\<close>, slices,
  \<open>join\<close>), and the conversions between text and numbers: \<open>str\<close> and \<open>repr\<close> of a value,
  \<open>f"{x:.4f}"\<close>, \<open>int(...)\<close> and \<open>float(...)\<close>.  \<open>repr\<close> of a float is the shortest
  decimal that reads back as the float, as CPython prints it.
\<close>

section \<open>Characters and string methods\<close>

definition char_code :: "char \<Rightarrow> int" where
  "char_code c = of_char c"

definition is_space :: "char \<Rightarrow> bool" where
  "is_space c = (let n = char_code c in
     9 \<le> n \<and> n \<le> 13 \<or> 28 \<le> n \<and> n \<le> 32 \<or> n = 133 \<or> n = 160)"

definition is_digit :: "char \<Rightarrow> bool" where
  "is_digit c = (48 \<le> char_code c \<and> char_code c \<le> 57)"

definition upper_char :: "char \<Rightarrow> char" where
  "upper_char c = (let n = char_code c in if 97 \<le> n \<and> n \<le> 122 then char_of (n - 32) else c)"

definition lower_char :: "char \<Rightarrow> char" where
  "lower_char c = (let n = char_code c in if 65 \<le> n \<and> n \<le> 90 then char_of (n + 32) else c)"

definition upper :: "string \<Rightarrow> string" where "upper s = map upper_char s"
definition lower :: "string \<Rightarrow> string" where "lower s = map lower_char s"

definition lstrip :: "string \<Rightarrow> string" where "lstrip s = dropWhile is_space s"
definition strip :: "string \<Rightarrow> string" where "strip s = rev (lstrip (rev (lstrip s)))"

fun starts_with :: "string \<Rightarrow> string \<Rightarrow> bool" where
  "starts_with s [] = True"
| "starts_with [] (p # ps) = False"
| "starts_with (c # cs) (p # ps) = (c = p \<and> starts_with cs ps)"

definition ends_with :: "string \<Rightarrow> string \<Rightarrow> bool" where
  "ends_with s p = starts_with (rev s) (rev p)"

text \<open>\<open>needle in s\<close>.\<close>

fun contains :: "string \<Rightarrow> string \<Rightarrow> bool" where
  "contains [] p = (p = [])"
| "contains (c # cs) p = (starts_with (c # cs) p \<or> contains cs p)"

text \<open>\<open>s.replace(old, new)\<close> for a non-empty \<open>old\<close>.\<close>

function replace_all :: "string \<Rightarrow> string \<Rightarrow> string \<Rightarrow> string" where
  "replace_all [] old new = []"
| "replace_all (c # cs) old new =
     (if old \<noteq> [] \<and> starts_with (c # cs) old
      then new @ replace_all (drop (length old) (c # cs)) old new
      else c # replace_all cs old new)"
  by pat_completeness auto
termination by (relation "measure (\<lambda>(s, _, _). length s)") auto

fun join :: "string \<Rightarrow> string list \<Rightarrow> string" where
  "join sep [] = []"
| "join sep [x] = x"
| "join sep (x # xs) = x @ sep @ join sep xs"

text \<open>\<open>xs[-n:]\<close> for \<open>n > 0\<close>.\<close>

definition take_last :: "nat \<Rightarrow> 'a list \<Rightarrow> 'a list" where
  "take_last n xs = drop (length xs - n) xs"

lemma take_last_set: "set (take_last n xs) \<subseteq> set xs"
  by (simp add: take_last_def set_drop_subset)

lemma take_last_length [simp]: "length (take_last n xs) = min n (length xs)"
  by (auto simp: take_last_def)

lemma take_last_all [simp]: "length xs \<le> n \<Longrightarrow> take_last n xs = xs"
  by (simp add: take_last_def)

section \<open>Decimal text\<close>

definition digit_char :: "int \<Rightarrow> char" where
  "digit_char d = char_of (48 + d)"

function dec_nat :: "int \<Rightarrow> string" where
  "dec_nat n = (if n < 10 then [digit_char n] else dec_nat (n div 10) @ [digit_char (n mod 10)])"
  by pat_completeness auto
termination by (relation "measure nat") auto

declare dec_nat.simps [simp del]

definition dec_int :: "int \<Rightarrow> string" where
  "dec_int n = (if n < 0 then ''-'' @ dec_nat (- n) else dec_nat n)"

definition zeros :: "int \<Rightarrow> string" where
  "zeros n = replicate (nat n) (CHR ''0'')"

text \<open>Left padding with zeros to width \<open>n\<close>.\<close>

definition pad_zero :: "nat \<Rightarrow> string \<Rightarrow> string" where
  "pad_zero n s = replicate (n - length s) (CHR ''0'') @ s"

text \<open>\<open>f"{x:.nf}"\<close>.\<close>

definition fixed_rat :: "nat \<Rightarrow> rat \<Rightarrow> string" where
  "fixed_rat n a = (let m = rhe (\<bar>a\<bar> * 10 ^ n); p = 10 ^ n;
       body = dec_nat (m div p) @ (if n = 0 then [] else ''.'' @ pad_zero n (dec_nat (m mod p)))
     in if a < 0 then ''-'' @ body else body)"

fun fixed_f64 :: "nat \<Rightarrow> f64 \<Rightarrow> string" where
  "fixed_f64 n (Fin a) = fixed_rat n a"
| "fixed_f64 n PInf = ''inf''"
| "fixed_f64 n NInf = ''-inf''"
| "fixed_f64 n NaN = ''nan''"

subsection \<open>The shortest decimal of a float\<close>

text \<open>\<open>dec_exp x\<close> is the decimal exponent of \<open>x > 0\<close>: \<open>10 ^ dec_exp x <= x\<close>.\<close>

definition dec_exp :: "rat \<Rightarrow> int" where
  "dec_exp x = (let (n, d) = quotient_of x;
       k = int (length (dec_nat n)) - int (length (dec_nat d))
     in if 10 powi k \<le> x then k else k - 1)"

text \<open>\<open>x\<close> rounded to \<open>p\<close> significant digits, as digits and exponent of the first one.\<close>

definition sig_digits :: "nat \<Rightarrow> rat \<Rightarrow> int \<times> int" where
  "sig_digits p x = (let e = dec_exp x; m = rhe (x / 10 powi (e - int p + 1))
     in if 10 ^ p \<le> m then (m div 10, e + 1) else (m, e))"

fun shortest_from :: "nat \<Rightarrow> nat \<Rightarrow> rat \<Rightarrow> int \<times> int" where
  "shortest_from 0 p x = sig_digits p x"
| "shortest_from (Suc n) p x = (let (m, e) = sig_digits p x in
     if fl (of_int m * 10 powi (e - int p + 1)) = x then (m, e) else shortest_from n (Suc p) x)"

definition repr_pos :: "rat \<Rightarrow> string" where
  "repr_pos x = (let (m, e) = shortest_from 16 1 x; ds = dec_nat m; n = int (length ds) in
     if -4 \<le> e \<and> e < 16 then
       (if n - 1 \<le> e then ds @ zeros (e - n + 1) @ ''.0''
        else if 0 \<le> e then take (nat (e + 1)) ds @ ''.'' @ drop (nat (e + 1)) ds
        else ''0.'' @ zeros (- e - 1) @ ds)
     else take 1 ds @ (if n = 1 then [] else ''.'' @ drop 1 ds) @ ''e''
       @ (if e < 0 then ''-'' else ''+'') @ pad_zero 2 (dec_nat \<bar>e\<bar>))"

fun repr_f64 :: "f64 \<Rightarrow> string" where
  "repr_f64 (Fin a) = (if a = 0 then ''0.0'' else if a < 0 then ''-'' @ repr_pos (- a) else repr_pos a)"
| "repr_f64 PInf = ''inf''"
| "repr_f64 NInf = ''-inf''"
| "repr_f64 NaN = ''nan''"

subsection \<open>\<open>repr\<close> and \<open>str\<close>\<close>

definition repr_char :: "char \<Rightarrow> char \<Rightarrow> string" where
  "repr_char q c = (let n = char_code c; hex = (\<lambda>d. ''0123456789abcdef'' ! nat d) in
     if c = q \<or> n = 92 then [char_of (92 :: int), c]
     else if n = 9 then [char_of (92 :: int), CHR ''t'']
     else if n = 10 then [char_of (92 :: int), CHR ''n'']
     else if n = 13 then [char_of (92 :: int), CHR ''r'']
     else if n < 32 \<or> 127 \<le> n \<and> n \<le> 160 \<or> n = 173
       then [char_of (92 :: int), CHR ''x'', hex (n div 16), hex (n mod 16)]
     else [c])"

definition repr_string :: "string \<Rightarrow> string" where
  "repr_string s = (let single = char_of (39 :: int); double = char_of (34 :: int);
       q = (if single \<in> set s \<and> double \<notin> set s then double else single)
     in [q] @ concat (map (repr_char q) s) @ [q])"

fun py_repr :: "py \<Rightarrow> string" where
  "py_repr PNone = ''None''"
| "py_repr (PBool b) = (if b then ''True'' else ''False'')"
| "py_repr (PInt i) = dec_int i"
| "py_repr (PFloat x) = repr_f64 x"
| "py_repr (PStr s) = repr_string s"
| "py_repr (PList xs) = ''['' @ join '', '' (map py_repr xs) @ '']''"
| "py_repr (PDict d) =
     ''{'' @ join '', '' (map (\<lambda>kv. repr_string (fst kv) @ '': '' @ py_repr (snd kv)) d) @ ''}''"

fun py_str :: "py \<Rightarrow> string" where
  "py_str (PStr s) = s"
| "py_str v = py_repr v"

section \<open>Reading numbers\<close>

text \<open>A run of digits with single underscores between them.\<close>

fun scan_digits :: "int \<Rightarrow> bool \<Rightarrow> string \<Rightarrow> int option" where
  "scan_digits acc prev [] = (if prev then Some acc else None)"
| "scan_digits acc prev (c # cs) =
     (if c = CHR ''_'' then (if prev then scan_digits acc False cs else None)
      else if is_digit c then scan_digits (10 * acc + (char_code c - 48)) True cs
      else None)"

definition split_sign :: "string \<Rightarrow> int \<times> string" where
  "split_sign s = (case s of
     c # cs \<Rightarrow> (if c = CHR ''-'' then (-1, cs) else if c = CHR ''+'' then (1, cs) else (1, s))
   | [] \<Rightarrow> (1, []))"

definition int_of_string :: "string \<Rightarrow> int option" where
  "int_of_string s = (let (sg, ds) = split_sign (strip s)
     in map_option (\<lambda>n. sg * n) (scan_digits 0 False ds))"

definition split_at_char :: "char \<Rightarrow> string \<Rightarrow> string \<times> string option" where
  "split_at_char c s = (let a = takeWhile (\<lambda>x. x \<noteq> c) s; b = drop (length a) s
     in (a, case b of [] \<Rightarrow> None | _ # cs \<Rightarrow> Some cs))"

definition mantissa_of_string :: "string \<Rightarrow> rat option" where
  "mantissa_of_string s = (case split_at_char (CHR ''.'') s of
     (a, None) \<Rightarrow> map_option of_int (scan_digits 0 False a)
   | (a, Some b) \<Rightarrow>
       (if a = [] \<and> b = [] then None
        else case (if a = [] then Some 0 else scan_digits 0 False a,
                   if b = [] then Some 0 else scan_digits 0 False b) of
          (Some m, Some f) \<Rightarrow> Some (of_int m + of_int f / 10 ^ length (filter is_digit b))
        | _ \<Rightarrow> None))"

definition decimal_of_string :: "string \<Rightarrow> rat option" where
  "decimal_of_string s = (let (sg, t) = split_sign s in
     case split_at_char (CHR ''e'') (lower t) of
       (a, None) \<Rightarrow> map_option (\<lambda>m. of_int sg * m) (mantissa_of_string a)
     | (a, Some x) \<Rightarrow> (let (esg, ed) = split_sign x in
         case (mantissa_of_string a, scan_digits 0 False ed) of
           (Some m, Some e) \<Rightarrow> Some (of_int sg * m * 10 powi (esg * e))
         | _ \<Rightarrow> None))"

definition f64_of_string :: "string \<Rightarrow> f64 option" where
  "f64_of_string s = (let t = strip s; (sg, u) = split_sign t in
     if lower u = ''inf'' \<or> lower u = ''infinity'' then Some (if sg < 0 then NInf else PInf)
     else if lower u = ''nan'' then Some NaN
     else map_option f64_of_rat (decimal_of_string t))"

section \<open>\<open>int(...)\<close> and \<open>float(...)\<close>\<close>

definition trunc_rat :: "rat \<Rightarrow> int" where
  "trunc_rat a = (if a < 0 then - \<lfloor>- a\<rfloor> else \<lfloor>a\<rfloor>)"

fun int_of_f64 :: "f64 \<Rightarrow> int res" where
  "int_of_f64 (Fin a) = Inr (trunc_rat a)"
| "int_of_f64 NaN = Inl (ValueError ''cannot convert float NaN to integer'')"
| "int_of_f64 _ = Inl OverflowError"

fun py_int :: "py \<Rightarrow> int res" where
  "py_int (PInt i) = Inr i"
| "py_int (PBool b) = Inr (if b then 1 else 0)"
| "py_int (PFloat x) = int_of_f64 x"
| "py_int (PStr s) = (case int_of_string s of
     Some i \<Rightarrow> Inr i | None \<Rightarrow> Inl (ValueError ''invalid literal for int() with base 10''))"
| "py_int _ = Inl TypeError"

text \<open>An integer becomes the nearest float; one too large for a float raises.\<close>

definition f64_of_int :: "int \<Rightarrow> f64 res" where
  "f64_of_int i = (case f64_of_rat (of_int i) of Fin a \<Rightarrow> Inr (Fin a) | _ \<Rightarrow> Inl OverflowError)"

fun py_float :: "py \<Rightarrow> f64 res" where
  "py_float (PInt i) = f64_of_int i"
| "py_float (PBool b) = Inr (Fin (if b then 1 else 0))"
| "py_float (PFloat x) = Inr x"
| "py_float (PStr s) = (case f64_of_string s of
     Some x \<Rightarrow> Inr x | None \<Rightarrow> Inl (ValueError ''could not convert string to float''))"
| "py_float _ = Inl TypeError"

text \<open>\<open>a / b\<close> on two integers.\<close>

definition int_truediv :: "int \<Rightarrow> int \<Rightarrow> f64 res" where
  "int_truediv a b = (if b = 0 then Inl ZeroDivisionError
     else case f64_of_rat (of_int a / of_int b) of Fin x \<Rightarrow> Inr (Fin x) | _ \<Rightarrow> Inl OverflowError)"

text \<open>\<open>a // b\<close> on two integers.\<close>

definition int_floordiv :: "int \<Rightarrow> int \<Rightarrow> int res" where
  "int_floordiv a b = (if b = 0 then Inl ZeroDivisionError else Inr (a div b))"

definition f64_truediv :: "f64 \<Rightarrow> f64 \<Rightarrow> f64 res" where
  "f64_truediv a b = (if b = Fin 0 then Inl ZeroDivisionError else Inr (f64_div a b))"

text \<open>Attribute access on a value expected to be a dictionary or a list.\<close>

fun as_dict :: "py \<Rightarrow> dict res" where
  "as_dict (PDict d) = Inr d"
| "as_dict _ = Inl AttributeError"

fun as_list :: "py \<Rightarrow> py list res" where
  "as_list (PList xs) = Inr xs"
| "as_list _ = Inl AttributeError"

text \<open>Iteration (\<open>for x in v\<close>): a list gives its elements, a dictionary its keys, a string its characters.\<close>

fun py_iter :: "py \<Rightarrow> py list res" where
  "py_iter (PList xs) = Inr xs"
| "py_iter (PDict d) = Inr (map (\<lambda>kv. PStr (fst kv)) d)"
| "py_iter (PStr s) = Inr (map (\<lambda>c. PStr [c]) s)"
| "py_iter _ = Inl TypeError"

section \<open>Reading fields\<close>

text \<open>\<open>int(d.get(k, v) or v)\<close>, \<open>float(d.get(k, v) or v)\<close> and \<open>str(d.get(k) or s)\<close>.\<close>

definition int_field :: "dict \<Rightarrow> string \<Rightarrow> int \<Rightarrow> int res" where
  "int_field d k v = py_int (py_or (dget_or d k (PInt v)) (PInt v))"

definition float_field :: "dict \<Rightarrow> string \<Rightarrow> py \<Rightarrow> f64 res" where
  "float_field d k v = py_float (py_or (dget_or d k v) v)"

definition str_field :: "dict \<Rightarrow> string \<Rightarrow> py \<Rightarrow> string" where
  "str_field d k v = py_str (py_or (dgetn d k) v)"

lemma int_field_PInt [simp]: "dget d k = Some (PInt i) \<Longrightarrow> int_field d k 0 = Inr i"
  by (simp add: int_field_def)

lemma int_field_None [simp]: "dget d k = None \<Longrightarrow> int_field d k v = Inr v"
  by (simp add: int_field_def py_or_def)

definition opt_str :: "string option \<Rightarrow> py" where
  "opt_str x = (case x of None \<Rightarrow> PNone | Some s \<Rightarrow> PStr s)"

definition opt_int :: "int option \<Rightarrow> py" where
  "opt_int x = (case x of None \<Rightarrow> PNone | Some i \<Rightarrow> PInt i)"

definition opt_float :: "f64 option \<Rightarrow> py" where
  "opt_float x = (case x of None \<Rightarrow> PNone | Some i \<Rightarrow> PFloat i)"

text \<open>\<open>s or t\<close> on an optional string.\<close>

definition str_or :: "string option \<Rightarrow> string \<Rightarrow> string" where
  "str_or x t = (case x of None \<Rightarrow> t | Some s \<Rightarrow> if s = [] then t else s)"

lemma f64_of_int_small: "\<bar>i\<bar> \<le> 2 ^ 1000 \<Longrightarrow> f64_of_int i = Inr (Fin (fl (of_int i)))"
proof -
  assume "\<bar>i\<bar> \<le> 2 ^ 1000"
  then have "\<bar>of_int i :: rat\<bar> \<le> 2 ^ 1000"
    by (metis of_int_abs of_int_le_iff of_int_numeral of_int_power)
  then show ?thesis by (simp add: f64_of_int_def f64_of_rat_small)
qed

lemma int_truediv_Inr_D: "int_truediv a b = Inr x \<Longrightarrow> b \<noteq> 0"
  by (auto simp: int_truediv_def split: if_splits)

lemmas py_text_defs = char_code_def is_space_def is_digit_def upper_def lower_def
  upper_char_def lower_char_def strip_def lstrip_def

end
