(* ===== verification/LogRedaction.thy ===== *)
theory LogRedaction
  imports PyText
begin

text \<open>
  \<open>src/logging_utils.py\<close>: masking of API keys in URLs.  The regular expression
  \<open>([?&])(?:api[-_]?key|apikey)=([^&\s'"<>]+)\<close>, case-insensitive, is the scanner below:
  at a question mark or an ampersand it reads the key name and the equals sign, and a
  non-empty run of value characters, which the fixed text replaces.
\<close>

definition value_char :: "char \<Rightarrow> bool" where
  "value_char c \<longleftrightarrow> c \<noteq> CHR ''&'' \<and> \<not> is_space c \<and> c \<noteq> CHR 0x27 \<and> c \<noteq> CHR 0x22
     \<and> c \<noteq> CHR ''<'' \<and> c \<noteq> CHR ''>''"

fun drop_prefix_ci :: "string \<Rightarrow> string \<Rightarrow> string option" where
  "drop_prefix_ci s [] = Some s"
| "drop_prefix_ci [] (p # ps) = None"
| "drop_prefix_ci (c # cs) (p # ps) = (if lower_char c = p then drop_prefix_ci cs ps else None)"

text \<open>What follows \<open>api-key=\<close>, \<open>api_key=\<close> or \<open>apikey=\<close>, if it starts with a value.\<close>

definition key_rest :: "string \<Rightarrow> string option" where
  "key_rest s = (case drop_prefix_ci s ''api-key='' of Some r \<Rightarrow> Some r
     | None \<Rightarrow> (case drop_prefix_ci s ''api_key='' of Some r \<Rightarrow> Some r
     | None \<Rightarrow> drop_prefix_ci s ''apikey=''))"

definition api_key_value :: "string \<Rightarrow> string option" where
  "api_key_value s = (case key_rest s of
     Some r \<Rightarrow> (if takeWhile value_char r = [] then None else Some r) | None \<Rightarrow> None)"

lemma drop_prefix_ci_length: "drop_prefix_ci s p = Some r \<Longrightarrow> length r + length p = length s"
  by (induction s p rule: drop_prefix_ci.induct) (auto split: if_splits)

lemma api_key_value_length: "api_key_value s = Some r \<Longrightarrow> length r < length s"
  by (auto simp: api_key_value_def key_rest_def split: option.splits if_splits
      dest!: drop_prefix_ci_length)

definition hidden_key :: string where "hidden_key = ''apiKey=HIDDEN_MASKED''"

function redact_sensitive_text :: "string \<Rightarrow> string" where
  "redact_sensitive_text [] = []"
| "redact_sensitive_text (c # cs) =
     (if c = CHR ''?'' \<or> c = CHR ''&'' then
        (case api_key_value cs of
           Some r \<Rightarrow> c # hidden_key @ redact_sensitive_text (dropWhile value_char r)
         | None \<Rightarrow> c # redact_sensitive_text cs)
      else c # redact_sensitive_text cs)"
  by pat_completeness auto
termination
  by (relation "measure length")
    (auto dest!: api_key_value_length intro: le_less_trans [OF length_dropWhile_le])

declare redact_sensitive_text.simps(2) [simp del]

text \<open>A text in which every masked position already holds the fixed text.\<close>

fun no_api_key :: "string \<Rightarrow> bool" where
  "no_api_key [] = True"
| "no_api_key (c # cs) = ((c = CHR ''?'' \<or> c = CHR ''&'' \<longrightarrow>
      (case api_key_value cs of None \<Rightarrow> True | Some r \<Rightarrow> takeWhile value_char r = ''HIDDEN_MASKED''))
     \<and> no_api_key cs)"

lemma redact_Cons_other:
  "c \<noteq> CHR ''?'' \<Longrightarrow> c \<noteq> CHR ''&'' \<Longrightarrow> redact_sensitive_text (c # cs) = c # redact_sensitive_text cs"
  by (simp add: redact_sensitive_text.simps)

lemma lower_char_special: "lower_char c = p \<Longrightarrow> p \<in> {CHR ''a'', CHR ''p'', CHR ''i'', CHR ''k'',
    CHR ''e'', CHR ''y'', CHR ''-'', CHR ''_'', CHR ''=''} \<Longrightarrow> c \<noteq> CHR ''?'' \<and> c \<noteq> CHR ''&''"
  by (auto simp: lower_char_def char_code_def Let_def)

lemma redact_head: "redact_sensitive_text (c # cs) = c # tl (redact_sensitive_text (c # cs))"
  by (simp add: redact_sensitive_text.simps split: option.split)

text \<open>Reading a key name commutes with the masking, since names contain no separator.\<close>

lemma drop_prefix_redact:
  "set p \<subseteq> {CHR ''a'', CHR ''p'', CHR ''i'', CHR ''k'', CHR ''e'', CHR ''y'', CHR ''-'', CHR ''_'', CHR ''=''}
   \<Longrightarrow> drop_prefix_ci (redact_sensitive_text s) p = map_option redact_sensitive_text (drop_prefix_ci s p)"
proof (induction s p rule: drop_prefix_ci.induct)
  case (3 c cs p ps)
  show ?case
  proof (cases "lower_char c = p")
    case True
    then have "c \<noteq> CHR ''?'' \<and> c \<noteq> CHR ''&''" using 3(2) by (intro lower_char_special) auto
    then show ?thesis using 3 True by (simp add: redact_Cons_other)
  next
    case False
    then show ?thesis by (subst redact_head) simp
  qed
qed auto

lemma key_rest_redact: "key_rest (redact_sensitive_text s) = map_option redact_sensitive_text (key_rest s)"
  by (simp add: key_rest_def drop_prefix_redact split: option.split)

lemma redact_eq_Nil [simp]: "redact_sensitive_text s = [] \<longleftrightarrow> s = []"
  by (cases s) (simp_all add: redact_sensitive_text.simps split: option.split)

lemma hd_redact [simp]: "s \<noteq> [] \<Longrightarrow> hd (redact_sensitive_text s) = hd s"
  by (cases s) (simp_all add: redact_sensitive_text.simps split: option.split)

lemma takeWhile_Nil_iff: "takeWhile p xs = [] \<longleftrightarrow> xs = [] \<or> \<not> p (hd xs)"
  by (cases xs) auto

lemma value_start_redact:
  "takeWhile value_char (redact_sensitive_text r) = [] \<longleftrightarrow> takeWhile value_char r = []"
  by (cases "r = []") (simp_all add: takeWhile_Nil_iff)

lemma api_key_value_redact:
  "api_key_value (redact_sensitive_text s) = map_option redact_sensitive_text (api_key_value s)"
  by (simp add: api_key_value_def key_rest_redact value_start_redact split: option.split)

lemma lower_char_consts:
  "lower_char (CHR ''a'') = CHR ''a''" "lower_char (CHR ''p'') = CHR ''p''"
  "lower_char (CHR ''i'') = CHR ''i''" "lower_char (CHR ''K'') = CHR ''k''"
  "lower_char (CHR ''e'') = CHR ''e''" "lower_char (CHR ''y'') = CHR ''y''"
  "lower_char (CHR ''='') = CHR ''=''"
  by code_simp+

lemma hidden_value_chars: "\<forall>c \<in> set ''HIDDEN_MASKED''. value_char c"
  by code_simp

lemma api_key_value_hidden:
  "api_key_value (hidden_key @ r) = Some (''HIDDEN_MASKED'' @ r)"
proof -
  have "key_rest (hidden_key @ r) = Some (''HIDDEN_MASKED'' @ r)"
    by (simp add: key_rest_def hidden_key_def lower_char_consts)
  moreover have "takeWhile value_char (''HIDDEN_MASKED'' @ r) \<noteq> []"
    using hidden_value_chars by (simp add: takeWhile_Nil_iff)
  ultimately show ?thesis by (simp only: api_key_value_def option.case if_False)
qed

lemma takeWhile_hidden:
  assumes "r = [] \<or> \<not> value_char (hd r)"
  shows "takeWhile value_char (''HIDDEN_MASKED'' @ r) = ''HIDDEN_MASKED''"
    and "dropWhile value_char (''HIDDEN_MASKED'' @ r) = r"
  using hidden_value_chars assms
  by (simp_all only: takeWhile_append2 dropWhile_append2) (cases r; simp)+

lemma redacted_rest_no_value:
  "redact_sensitive_text (dropWhile value_char r) = [] \<or>
   \<not> value_char (hd (redact_sensitive_text (dropWhile value_char r)))"
  by (cases "dropWhile value_char r = []") (simp_all add: hd_dropWhile)


lemma redact_masked:
  "c = CHR ''?'' \<or> c = CHR ''&'' \<Longrightarrow> api_key_value cs = Some r \<Longrightarrow>
   redact_sensitive_text (c # cs) = c # hidden_key @ redact_sensitive_text (dropWhile value_char r)"
  by (simp add: redact_sensitive_text.simps)

lemma redact_unmasked:
  "\<not> ((c = CHR ''?'' \<or> c = CHR ''&'') \<and> api_key_value cs \<noteq> None) \<Longrightarrow>
   redact_sensitive_text (c # cs) = c # redact_sensitive_text cs"
  by (auto simp: redact_sensitive_text.simps split: option.split)

lemma no_api_key_append:
  "\<forall>c \<in> set xs. c \<noteq> CHR ''?'' \<and> c \<noteq> CHR ''&'' \<Longrightarrow> no_api_key (xs @ ys) = no_api_key ys"
  by (induction xs) auto

lemma hidden_key_plain: "\<forall>c \<in> set hidden_key. c \<noteq> CHR ''?'' \<and> c \<noteq> CHR ''&''"
  by (simp add: hidden_key_def)

text \<open>C21: After masking, every API-key parameter of the text holds the fixed text.\<close>

theorem redacted_text_holds_no_key: "no_api_key (redact_sensitive_text s)"
proof (induction s rule: redact_sensitive_text.induct)
  case (2 c cs)
  show ?case
  proof (cases "(c = CHR ''?'' \<or> c = CHR ''&'') \<and> api_key_value cs \<noteq> None")
    case True
    then obtain r where r: "api_key_value cs = Some r" by auto
    have "no_api_key (redact_sensitive_text (dropWhile value_char r))"
      using 2 True r by blast
    then show ?thesis using True
      by (simp only: redact_masked [OF conjunct1 [OF True] r] no_api_key.simps api_key_value_hidden
          option.case takeWhile_hidden(1) [OF redacted_rest_no_value]
          no_api_key_append [OF hidden_key_plain] simp_thms)
  next
    case False
    then have "no_api_key (redact_sensitive_text cs)" using 2 by (auto split: option.splits)
    with False show ?thesis by (auto simp: redact_unmasked api_key_value_redact)
  qed
qed simp

text \<open>Masking a masked text changes nothing.\<close>

theorem redaction_idempotent:
  "redact_sensitive_text (redact_sensitive_text s) = redact_sensitive_text s"
proof (induction s rule: redact_sensitive_text.induct)
  case (2 c cs)
  show ?case
  proof (cases "(c = CHR ''?'' \<or> c = CHR ''&'') \<and> api_key_value cs \<noteq> None")
    case True
    then obtain r where r: "api_key_value cs = Some r" by auto
    define x where "x = redact_sensitive_text (dropWhile value_char r)"
    have "redact_sensitive_text x = x" unfolding x_def using 2 True r by blast
    moreover have "dropWhile value_char (''HIDDEN_MASKED'' @ x) = x"
      using redacted_rest_no_value [of r] by (simp only: x_def takeWhile_hidden)
    ultimately show ?thesis using True r
      by (simp only: redact_masked [OF _ r] redact_masked [OF _ api_key_value_hidden] x_def [symmetric])
  next
    case False
    then have IH: "redact_sensitive_text (redact_sensitive_text cs) = redact_sensitive_text cs"
      using 2 by (auto split: option.splits)
    have "\<not> ((c = CHR ''?'' \<or> c = CHR ''&'') \<and> api_key_value (redact_sensitive_text cs) \<noteq> None)"
      using False by (simp add: api_key_value_redact)
    with False IH show ?thesis by (simp add: redact_unmasked)
  qed
qed simp

end
