(* ===== verification/PyTime.thy ===== *)
theory PyTime
  imports PyText
begin

text \<open>
  Reading ISO-8601 timestamps: \<open>datetime.fromisoformat\<close> for the documented format
  \<open>YYYY-MM-DD[*HH[:MM[:SS[.fff[fff]]]][+HH:MM[:SS[.ffffff]]]]\<close>, the one \<open>isoformat()\<close>
  writes, and \<open>timestamp()\<close>.  A parsed time is its number of microseconds since the epoch
  together with the UTC offset, if one was given.
\<close>

fun digits_value :: "int \<Rightarrow> string \<Rightarrow> int option" where
  "digits_value acc [] = Some acc"
| "digits_value acc (c # cs) =
     (if is_digit c then digits_value (10 * acc + (char_code c - 48)) cs else None)"

text \<open>Exactly \<open>n\<close> digits at the front, and the rest.\<close>

definition take_digits :: "nat \<Rightarrow> string \<Rightarrow> (int \<times> string) option" where
  "take_digits n s = (if length s < n then None
     else map_option (\<lambda>v. (v, drop n s)) (digits_value 0 (take n s)))"

definition is_leap :: "int \<Rightarrow> bool" where
  "is_leap y \<longleftrightarrow> y mod 4 = 0 \<and> (y mod 100 \<noteq> 0 \<or> y mod 400 = 0)"

definition days_before_year :: "int \<Rightarrow> int" where
  "days_before_year y = (let p = y - 1 in p * 365 + p div 4 - p div 100 + p div 400)"

definition days_before_month :: "int \<Rightarrow> int \<Rightarrow> int" where
  "days_before_month y m =
     [0, 31, 59, 90, 120, 151, 181, 212, 243, 273, 304, 334] ! nat (m - 1)
     + (if 2 < m \<and> is_leap y then 1 else 0)"

definition days_in_month :: "int \<Rightarrow> int \<Rightarrow> int" where
  "days_in_month y m = (if m = 2 \<and> is_leap y then 29
     else [31, 28, 31, 30, 31, 30, 31, 31, 30, 31, 30, 31] ! nat (m - 1))"

definition date_ordinal :: "int \<Rightarrow> int \<Rightarrow> int \<Rightarrow> int" where
  "date_ordinal y m d = days_before_year y + days_before_month y m + d"

definition epoch_ordinal :: int where "epoch_ordinal = 719163"

definition parse_date :: "string \<Rightarrow> (int \<times> string) option" where
  "parse_date s = (case take_digits 4 s of
     Some (y, CHR ''-'' # s1) \<Rightarrow> (case take_digits 2 s1 of
       Some (m, CHR ''-'' # s2) \<Rightarrow> (case take_digits 2 s2 of
         Some (d, s3) \<Rightarrow>
           (if 1 \<le> y \<and> 1 \<le> m \<and> m \<le> 12 \<and> 1 \<le> d \<and> d \<le> days_in_month y m
            then Some (date_ordinal y m d - epoch_ordinal, s3) else None)
       | _ \<Rightarrow> None)
     | _ \<Rightarrow> None)
   | _ \<Rightarrow> None)"

text \<open>\<open>HH[:MM[:SS[.fff[fff]]]]\<close>, in microseconds.\<close>

definition parse_fraction :: "string \<Rightarrow> int option" where
  "parse_fraction s = (if length s = 3 then map_option (\<lambda>v. v * 1000) (digits_value 0 s)
     else if length s = 6 then digits_value 0 s else None)"

definition clock_us :: "int \<Rightarrow> int \<Rightarrow> int \<Rightarrow> int \<Rightarrow> int option" where
  "clock_us h m s us = (if h < 24 \<and> m < 60 \<and> s < 60
     then Some (((h * 60 + m) * 60 + s) * 1000000 + us) else None)"

definition parse_clock :: "string \<Rightarrow> int option" where
  "parse_clock t = (case take_digits 2 t of
     None \<Rightarrow> None
   | Some (h, []) \<Rightarrow> clock_us h 0 0 0
   | Some (h, CHR '':'' # t1) \<Rightarrow> (case take_digits 2 t1 of
       None \<Rightarrow> None
     | Some (m, []) \<Rightarrow> clock_us h m 0 0
     | Some (m, CHR '':'' # t2) \<Rightarrow> (case take_digits 2 t2 of
         None \<Rightarrow> None
       | Some (s, []) \<Rightarrow> clock_us h m s 0
       | Some (s, CHR ''.'' # t3) \<Rightarrow>
           (case parse_fraction t3 of None \<Rightarrow> None | Some us \<Rightarrow> clock_us h m s us)
       | _ \<Rightarrow> None)
     | _ \<Rightarrow> None)
   | _ \<Rightarrow> None)"

record datetime =
  local_us :: int
  offset_us :: "int option"

definition split_zone :: "string \<Rightarrow> string \<times> (int \<times> string) option" where
  "split_zone t = (let a = takeWhile (\<lambda>c. c \<noteq> CHR ''+'' \<and> c \<noteq> CHR ''-'') t
     in (a, case drop (length a) t of [] \<Rightarrow> None
            | c # z \<Rightarrow> Some (if c = CHR ''-'' then -1 else 1, z)))"

definition fromisoformat :: "string \<Rightarrow> datetime option" where
  "fromisoformat s = (case parse_date s of
     None \<Rightarrow> None
   | Some (days, []) \<Rightarrow> Some \<lparr>local_us = days * 86400000000, offset_us = None\<rparr>
   | Some (days, _ # t) \<Rightarrow> (case split_zone t of
       (c, None) \<Rightarrow> map_option (\<lambda>us. \<lparr>local_us = days * 86400000000 + us, offset_us = None\<rparr>)
                     (parse_clock c)
     | (c, Some (sg, z)) \<Rightarrow>
         (if length z \<noteq> 5 \<and> length z \<noteq> 8 \<and> length z \<noteq> 15 then None
          else case (parse_clock c, parse_clock z) of
            (Some us, Some off) \<Rightarrow>
              Some \<lparr>local_us = days * 86400000000 + us, offset_us = Some (sg * off)\<rparr>
          | _ \<Rightarrow> None)))"

text \<open>The instant of a time, a missing offset read as UTC.\<close>

definition instant_us :: "datetime \<Rightarrow> int" where
  "instant_us t = local_us t - (case offset_us t of None \<Rightarrow> 0 | Some o1 \<Rightarrow> o1)"

text \<open>\<open>total_seconds()\<close> of a difference in microseconds.\<close>

definition seconds_of_us :: "int \<Rightarrow> f64" where
  "seconds_of_us us = f64_of_rat (of_int us / 1000000)"

definition parse_iso_text :: "py \<Rightarrow> datetime res" where
  "parse_iso_text v = (case fromisoformat (replace_all (py_str v) ''Z'' ''+00:00'') of
     None \<Rightarrow> Inl (ValueError ''Invalid isoformat string'') | Some t \<Rightarrow> Inr t)"

lemma parse_iso_text_error: "parse_iso_text v = Inl e \<Longrightarrow> \<exists>m. e = ValueError m"
  by (auto simp: parse_iso_text_def split: option.splits)

end
