(* ===== verification/StateStore.thy ===== *)
theory StateStore
  imports PyTime
begin

text \<open>
  \<open>src/state_store.py\<close>: JSON state files shared by several processes.  A file is what
  reading it gives (\<open>state_file\<close>); every transaction of the module is a function of the
  outcome of the lock acquisition and the file, and returns the new file with its result
  or the exception raised.

  The theory holds the transactions (\<open>read_json\<close>, \<open>update_json\<close>, \<open>migrate_json\<close>), the
  acquisition loop of the lock, the steps of the atomic replacement, and the queries and
  updates the module defines over the paper ledger, the wallet ledger and the global
  metrics.
\<close>

section \<open>Files\<close>

datatype state_file = Missing | Malformed | Content py

text \<open>\<open>json.loads(path.read_text())\<close> with the fallback for a missing file.\<close>

fun read_json :: "string \<Rightarrow> state_file \<Rightarrow> dict \<Rightarrow> dict res" where
  "read_json path Missing fallback = Inr fallback"
| "read_json path Malformed fallback = Inl JSONDecodeError"
| "read_json path (Content (PDict d)) fallback = Inr d"
| "read_json path (Content _) fallback = Inl (RuntimeError (path @ '' must contain a JSON object''))"

section \<open>The lock\<close>

text \<open>
  The acquisition loop: each attempt is the outcome of the non-blocking lock call and the
  monotonic time read after a failure.  \<open>None\<close> means that the attempts given so far leave
  the loop waiting.
\<close>

fun lock_loop :: "rat \<Rightarrow> (bool \<times> rat) list \<Rightarrow> bool option" where
  "lock_loop deadline [] = None"
| "lock_loop deadline ((granted, t) # rest) =
     (if granted then Some True else if deadline \<le> t then Some False else lock_loop deadline rest)"

definition exclusive_file_lock :: "string \<Rightarrow> rat \<Rightarrow> rat \<Rightarrow> (bool \<times> rat) list \<Rightarrow> unit res option" where
  "exclusive_file_lock path timeout start attempts =
     map_option (\<lambda>ok. if ok then Inr () else Inl (StateLockTimeout (''timed out locking '' @ path)))
       (lock_loop (start + timeout) attempts)"

section \<open>Transactions\<close>

type_synonym 't mutator = "dict \<Rightarrow> ('t \<times> dict) res"

text \<open>\<open>int(document.get("version", 0) or 0)\<close>.\<close>

definition doc_version :: "dict \<Rightarrow> int res" where
  "doc_version d = py_int (py_or (dget_or d ''version'' (PInt 0)) (PInt 0))"

definition locked :: "string \<Rightarrow> bool \<Rightarrow> 'a res \<Rightarrow> 'a res" where
  "locked path lk body = (if lk then body else Inl (StateLockTimeout (''timed out locking '' @ path)))"

text \<open>
  \<open>update_json\<close>: lock, reread, check the expected version, mutate, increment the version,
  save.  An exception at any point leaves the file as it was.
\<close>

definition update_json ::
  "string \<Rightarrow> bool \<Rightarrow> state_file \<Rightarrow> dict \<Rightarrow> 't mutator \<Rightarrow> int option \<Rightarrow> ('t \<times> dict) res \<times> state_file" where
  "update_json path lk f fallback mutator expected_version =
     (let r = locked path lk (bindE (read_json path f fallback) (\<lambda>document.
            bindE (doc_version document) (\<lambda>current.
            case expected_version of
              Some v \<Rightarrow> (if current \<noteq> v then Inl (VersionConflict v current)
                 else bindE (mutator document) (\<lambda>(result, doc).
                        Inr (result, dset ''version'' (PInt (current + 1)) doc)))
            | None \<Rightarrow> bindE (mutator document) (\<lambda>(result, doc).
                        Inr (result, dset ''version'' (PInt (current + 1)) doc)))))
      in (r, case r of Inl _ \<Rightarrow> f | Inr (_, doc) \<Rightarrow> Content (PDict doc)))"

definition migrate_json ::
  "string \<Rightarrow> bool \<Rightarrow> state_file \<Rightarrow> dict \<Rightarrow> bool mutator \<Rightarrow> dict res \<times> state_file" where
  "migrate_json path lk f fallback migrator =
     (case locked path lk (bindE (read_json path f fallback) migrator) of
        Inl e \<Rightarrow> (Inl e, f)
      | Inr (changed, doc) \<Rightarrow>
          (if changed then
             (case doc_version doc of
                Inl e \<Rightarrow> (Inl e, f)
              | Inr v \<Rightarrow> (let doc' = dset ''version'' (PInt (v + 1)) doc
                          in (Inr doc', Content (PDict doc'))))
           else (Inr doc, f)))"

lemma update_json_error: "update_json p lk f fb m ev = (Inl e, f') \<Longrightarrow> f' = f"
  by (auto simp: update_json_def Let_def)

lemma update_json_Inr:
  "update_json p lk f fb m None = (Inr (r, doc), f') \<longleftrightarrow>
     lk \<and> f' = Content (PDict doc) \<and>
     (\<exists>d v d'. read_json p f fb = Inr d \<and> doc_version d = Inr v \<and> m d = Inr (r, d') \<and>
        doc = dset ''version'' (PInt (v + 1)) d')"
  by (auto simp: update_json_def Let_def locked_def bindE_eq_Inr split: sum.splits)

lemma update_json_run:
  "read_json p f fb = Inr d \<Longrightarrow> doc_version d = Inr v \<Longrightarrow> m d = Inr (r, d') \<Longrightarrow>
   update_json p True f fb m None =
     (Inr (r, dset ''version'' (PInt (v + 1)) d'), Content (PDict (dset ''version'' (PInt (v + 1)) d')))"
  by (simp add: update_json_def Let_def locked_def)

section \<open>Atomic replacement\<close>

text \<open>
  \<open>atomic_write_json\<close> on the directory of the file: the canonical file, and the temporary
  files beside it.  A temporary file has its modification time and whether it is a
  regular file (a symbolic link or a directory is not removed).
\<close>

record temp_file =
  temp_name :: string
  temp_regular :: bool
  temp_mtime :: rat

record directory =
  canonical :: state_file
  temps :: "temp_file list"

definition stale_seconds :: rat where "stale_seconds = 6 * 60 * 60"

definition cleanup_stale :: "rat \<Rightarrow> (string \<Rightarrow> bool) \<Rightarrow> directory \<Rightarrow> directory" where
  "cleanup_stale now unlink_fails dir = dir\<lparr>temps := filter (\<lambda>t.
     \<not> temp_regular t \<or> now - stale_seconds < temp_mtime t \<or> unlink_fails (temp_name t)) (temps dir)\<rparr>"

text \<open>
  The operations in their order; a write can be cut short at one of them by an exception,
  which runs the \<open>finally\<close> block, or by the end of the process, which does not.
\<close>

datatype write_step = CreateTemp | DumpDocument | Fsync | Rename

datatype write_failure = Raises write_step | Killed write_step

definition remove_temp :: "string \<Rightarrow> directory \<Rightarrow> directory" where
  "remove_temp name dir = dir\<lparr>temps := filter (\<lambda>t. temp_name t \<noteq> name) (temps dir)\<rparr>"

definition atomic_write_json ::
  "rat \<Rightarrow> (string \<Rightarrow> bool) \<Rightarrow> string \<Rightarrow> py \<Rightarrow> write_failure option \<Rightarrow> directory \<Rightarrow> bool \<times> directory" where
  "atomic_write_json now unlink_fails name document failure dir =
     (let dir1 = cleanup_stale now unlink_fails dir;
          dir2 = dir1\<lparr>temps := \<lparr>temp_name = name, temp_regular = True, temp_mtime = now\<rparr> # temps dir1\<rparr>
      in case failure of
           Some (Raises CreateTemp) \<Rightarrow> (False, dir1)
         | Some (Killed CreateTemp) \<Rightarrow> (False, dir1)
         | Some (Raises _) \<Rightarrow> (False, remove_temp name dir2)
         | Some (Killed _) \<Rightarrow> (False, dir2)
         | None \<Rightarrow> (True, (remove_temp name dir2)\<lparr>canonical := Content document\<rparr>))"


section \<open>Route metadata\<close>

definition normalized_route_metadata :: "string \<Rightarrow> f64 \<Rightarrow> (string \<times> f64) res" where
  "normalized_route_metadata route_type dex_momentum_score =
     (let normalized = upper route_type in
      if normalized \<noteq> ''A'' \<and> normalized \<noteq> ''B''
      then Inl (ValueError ''route_type must be A or B'')
      else if \<not> (f64_le (Fin 0) dex_momentum_score \<and> f64_le dex_momentum_score (Fin 100))
      then Inl (ValueError ''dex_momentum_score must be between 0 and 100'')
      else Inr (normalized, f64_round dex_momentum_score 4))"

lemma normalized_route_metadata_Inr:
  "normalized_route_metadata r x = Inr (r', y) \<longleftrightarrow>
     (r' = ''A'' \<or> r' = ''B'') \<and> upper r = r' \<and>
     f64_le (Fin 0) x \<and> f64_le x (Fin 100) \<and> y = f64_round x 4"
  by (auto simp: normalized_route_metadata_def Let_def)

section \<open>Queries over the paper ledger\<close>

text \<open>\<open>datetime_from_iso\<close>: seconds since the epoch.\<close>

definition datetime_from_iso :: "py \<Rightarrow> f64 res" where
  "datetime_from_iso v = bindE (parse_iso_text v) (\<lambda>t. Inr (seconds_of_us (instant_us t)))"

definition is_value_or_type_error :: "exc \<Rightarrow> bool" where
  "is_value_or_type_error e = (case e of
     TypeError \<Rightarrow> True | ValueError _ \<Rightarrow> True | JSONDecodeError \<Rightarrow> True | _ \<Rightarrow> False)"

text \<open>The loop of \<open>get_last_trade_time\<close> over the events, newest first.\<close>

fun last_trade_scan :: "string \<Rightarrow> py list \<Rightarrow> f64 res" where
  "last_trade_scan token [] = Inr (Fin 0)"
| "last_trade_scan token (PDict e # es) =
     (if dgetn e ''type'' \<noteq> PStr ''BUY'' \<or> py_str (dget_or e ''mint'' (PStr [])) \<noteq> token
      then last_trade_scan token es
      else let raw = dgetn e ''at'' in
        if \<not> truthy raw then Inr (Fin 0)
        else catchE (datetime_from_iso raw) is_value_or_type_error (\<lambda>_. Inr (Fin 0)))"
| "last_trade_scan token (_ # es) = last_trade_scan token es"

definition get_last_trade_time :: "bool \<Rightarrow> state_file \<Rightarrow> string \<Rightarrow> f64 res" where
  "get_last_trade_time lk f token_address =
     (let token = strip token_address in
      if token = [] then Inr (Fin 0)
      else locked ''paper_trades.json'' lk
        (bindE (read_json ''paper_trades.json'' f [(''events'', PList [])]) (\<lambda>document.
         case dget_or document ''events'' (PList []) of
           PList events \<Rightarrow> last_trade_scan token (rev events)
         | _ \<Rightarrow> Inr (Fin 0))))"

definition stop_reasons :: "string list" where
  "stop_reasons = [''STOP_LOSS_15'', ''ROUTE_B_STOP_LOSS_10'', ''LIVE_STOP_LOSS_15'',
     ''POST_TP_TRAILING_STOP_50'']"

text \<open>Membership of a value in a set of strings; a list or a dictionary is not hashable.\<close>

fun in_string_set :: "py \<Rightarrow> string list \<Rightarrow> bool res" where
  "in_string_set (PStr r) rs = Inr (r \<in> set rs)"
| "in_string_set (PList _) rs = Inl TypeError"
| "in_string_set (PDict _) rs = Inl TypeError"
| "in_string_set _ rs = Inr False"

text \<open>The mint of a stop-loss sale; other entries of the ledger give none.\<close>

fun stop_loss_mint :: "py \<Rightarrow> string option res" where
  "stop_loss_mint (PDict e) =
     (if dgetn e ''type'' \<noteq> PStr ''SELL'' then Inr None
      else bindE (in_string_set (dgetn e ''reason'') stop_reasons) (\<lambda>is_stop.
        if \<not> is_stop then Inr None
        else let m = strip (py_str (dget_or e ''mint'' (PStr [])))
          in Inr (if m = [] then None else Some m)))"
| "stop_loss_mint _ = Inr None"

fun event_at :: "py \<Rightarrow> py" where
  "event_at (PDict e) = dgetn e ''at''"
| "event_at _ = PNone"

text \<open>The loop of \<open>get_recent_stop_loss_time\<close>: \<open>seen\<close> holds the mints already met.\<close>

fun stop_loss_scan :: "string \<Rightarrow> nat \<Rightarrow> string list \<Rightarrow> py list \<Rightarrow> f64 res" where
  "stop_loss_scan token limit seen [] = Inr (Fin 0)"
| "stop_loss_scan token limit seen (e # es) = (case stop_loss_mint e of
     Inl ex \<Rightarrow> Inl ex
   | Inr None \<Rightarrow> stop_loss_scan token limit seen es
   | Inr (Some m) \<Rightarrow>
       (if m \<in> set seen then stop_loss_scan token limit seen es
        else if m = token then
          (if \<not> truthy (event_at e) then Inl (ValueError ''stop-loss event is missing at'')
           else datetime_from_iso (event_at e))
        else if limit \<le> length seen + 1 then Inr (Fin 0)
        else stop_loss_scan token limit (m # seen) es))"

definition get_recent_stop_loss_time :: "bool \<Rightarrow> state_file \<Rightarrow> string \<Rightarrow> int \<Rightarrow> f64 res" where
  "get_recent_stop_loss_time lk f token_address maximum_tokens =
     (let token = strip token_address; limit = max 1 (min 50 maximum_tokens) in
      if token = [] then Inr (Fin 0)
      else locked ''paper_trades.json'' lk
        (bindE (read_json ''paper_trades.json'' f [(''events'', PList [])]) (\<lambda>document.
         case dget_or document ''events'' (PList []) of
           PList events \<Rightarrow> stop_loss_scan token (nat limit) [] (rev events)
         | _ \<Rightarrow> Inl (ValueError ''paper trade events must be a list''))))"

definition terminal_reasons :: "string list" where
  "terminal_reasons = [''STOP_LOSS_15'', ''ROUTE_B_STOP_LOSS_10'', ''TP_BREAK_EVEN'',
     ''POST_TP_TRAILING_STOP_50'', ''MANUAL_CLOSE'', ''TAKE_PROFIT_100'']"

text \<open>\<open>position_routes\<close>: the route of every bought position, a later entry replacing an earlier.\<close>

fun position_route_entry :: "py \<Rightarrow> (string \<times> string) option" where
  "position_route_entry (PDict e) =
     (if dgetn e ''type'' = PStr ''BUY'' \<and> truthy (dgetn e ''position_id'')
      then Some (py_str (dget_or e ''position_id'' (PStr [])), py_str (dget_or e ''route_type'' (PStr ''A'')))
      else None)"
| "position_route_entry _ = None"

definition position_routes :: "py list \<Rightarrow> (string \<times> string) list" where
  "position_routes events = List.map_filter position_route_entry events"

definition route_of_position :: "py list \<Rightarrow> string \<Rightarrow> string" where
  "route_of_position events pid =
     (case map_of (rev (position_routes events)) pid of None \<Rightarrow> ''A'' | Some r \<Rightarrow> r)"

text \<open>The loop of \<open>get_route_initial_stop_streak\<close>: state \<open>(streak, latest, seen)\<close>.\<close>

fun streak_scan ::
  "py list \<Rightarrow> string \<Rightarrow> string \<Rightarrow> nat \<Rightarrow> f64 \<Rightarrow> string list \<Rightarrow> py list \<Rightarrow> (nat \<times> f64) res" where
  "streak_scan events route stop streak latest seen [] = Inr (streak, latest)"
| "streak_scan events route stop streak latest seen (PDict e # es) =
     (if dgetn e ''type'' \<noteq> PStr ''SELL'' then streak_scan events route stop streak latest seen es
      else case in_string_set (dgetn e ''reason'') terminal_reasons of
        Inl ex \<Rightarrow> Inl ex
      | Inr False \<Rightarrow> streak_scan events route stop streak latest seen es
      | Inr True \<Rightarrow> (let pid = py_str (dget_or e ''position_id'' (PStr [])) in
          if pid = [] \<or> pid \<in> set seen then streak_scan events route stop streak latest seen es
          else if route_of_position events pid \<noteq> route
            then streak_scan events route stop streak latest (pid # seen) es
          else if dgetn e ''reason'' \<noteq> PStr stop then Inr (streak, latest)
          else if \<not> truthy (dgetn e ''at'')
            then Inl (ValueError ''route stop-loss event is missing at'')
          else if streak = 0
            then (case datetime_from_iso (dgetn e ''at'') of
                Inl ex \<Rightarrow> Inl ex
              | Inr t \<Rightarrow> streak_scan events route stop (streak + 1) t (pid # seen) es)
          else streak_scan events route stop (streak + 1) latest (pid # seen) es))"
| "streak_scan events route stop streak latest seen (_ # es) =
     streak_scan events route stop streak latest seen es"

definition get_route_initial_stop_streak :: "bool \<Rightarrow> state_file \<Rightarrow> string \<Rightarrow> (nat \<times> f64) res" where
  "get_route_initial_stop_streak lk f route_type =
     (let route = upper (strip route_type) in
      if route \<noteq> ''A'' \<and> route \<noteq> ''B'' then Inl (ValueError ''route_type must be A or B'')
      else locked ''paper_trades.json'' lk
        (bindE (read_json ''paper_trades.json'' f [(''events'', PList [])]) (\<lambda>document.
         case dget_or document ''events'' (PList []) of
           PList events \<Rightarrow> streak_scan events route
             (if route = ''A'' then ''STOP_LOSS_15'' else ''ROUTE_B_STOP_LOSS_10'')
             0 (Fin 0) [] (rev events)
         | _ \<Rightarrow> Inl (ValueError ''paper trade events must be a list''))))"

section \<open>Wallet lists and global metrics\<close>

text \<open>A row of the watch list that counts as an active wallet.\<close>

fun active_wallet_row :: "py \<Rightarrow> bool" where
  "active_wallet_row (PStr s) = (strip s \<noteq> [])"
| "active_wallet_row (PDict row) =
     (strip (py_str (dget_or row ''address'' (PStr []))) \<noteq> [] \<and>
      upper (py_str (dget_or row ''status'' (PStr ''ACTIVE''))) = ''ACTIVE'')"
| "active_wallet_row _ = False"

definition get_active_wallets_count :: "bool \<Rightarrow> state_file \<Rightarrow> nat res" where
  "get_active_wallets_count lk f = locked ''wallets.json'' lk
     (bindE (read_json ''wallets.json'' f [(''wallets'', PList [])]) (\<lambda>document.
      case dget_or document ''wallets'' (PList []) of
        PList rows \<Rightarrow> Inr (length (filter active_wallet_row rows))
      | _ \<Rightarrow> Inr 0))"

definition metrics_fallback :: dict where
  "metrics_fallback = [(''schema_version'', PInt 2), (''version'', PInt 0), (''metrics'', PDict [])]"

definition get_global_metric :: "bool \<Rightarrow> state_file \<Rightarrow> string \<Rightarrow> py \<Rightarrow> py res" where
  "get_global_metric lk f name fallback =
     (let key = strip name in
      if key = [] then Inl (ValueError ''global metric name must not be empty'')
      else locked ''global_metrics.json'' lk
        (bindE (read_json ''global_metrics.json'' f metrics_fallback) (\<lambda>document.
         case dget_or document ''metrics'' (PDict []) of
           PDict metrics \<Rightarrow> Inr (dget_or metrics key fallback)
         | _ \<Rightarrow> Inr fallback)))"

text \<open>\<open>document.setdefault("metrics", {})\<close>, replaced by an empty dictionary if it is no dictionary.\<close>

definition metrics_of :: "dict \<Rightarrow> dict" where
  "metrics_of document = (case dget_or document ''metrics'' (PDict []) of PDict m \<Rightarrow> m | _ \<Rightarrow> [])"

definition set_global_metrics_mutate :: "dict \<Rightarrow> unit mutator" where
  "set_global_metrics_mutate normalized document =
     (let document = dsetdefault ''schema_version'' (PInt 2) document
      in Inr ((), dset ''metrics'' (PDict (dupdate (metrics_of document) normalized)) document))"

definition set_global_metrics :: "bool \<Rightarrow> state_file \<Rightarrow> dict \<Rightarrow> unit res \<times> state_file" where
  "set_global_metrics lk f values =
     (if values = [] then (Inl (ValueError ''global metrics must not be empty''), f)
      else let normalized = dupdate [] (map (\<lambda>(k, v). (strip k, v)) values) in
        if [] \<in> set (map fst normalized)
        then (Inl (ValueError ''global metric name must not be empty''), f)
        else case update_json ''global_metrics.json'' lk f metrics_fallback
                    (set_global_metrics_mutate normalized) None of
          (Inl e, f') \<Rightarrow> (Inl e, f')
        | (Inr _, f') \<Rightarrow> (Inr (), f'))"

definition set_global_metric :: "bool \<Rightarrow> state_file \<Rightarrow> string \<Rightarrow> py \<Rightarrow> unit res \<times> state_file" where
  "set_global_metric lk f name v = set_global_metrics lk f [(name, v)]"

text \<open>\<open>claim_global_interval\<close>: the mutator, and the whole operation.\<close>

definition previous_claim :: "dict \<Rightarrow> string \<Rightarrow> f64 res" where
  "previous_claim metrics key =
     catchE (py_float (py_or (dget_or metrics key (PInt 0)) (PInt 0)))
       is_value_or_type_error (\<lambda>_. Inr (Fin 0))"

definition claim_global_interval_mutate :: "string \<Rightarrow> f64 \<Rightarrow> f64 \<Rightarrow> bool mutator" where
  "claim_global_interval_mutate key current interval document =
     (let document = dsetdefault ''schema_version'' (PInt 2) document;
          metrics = metrics_of document;
          document = dset ''metrics'' (PDict metrics) document
      in bindE (previous_claim metrics key) (\<lambda>previous.
         if f64_lt (f64_sub current previous) interval then Inr (False, document)
         else Inr (True, dset ''metrics'' (PDict (dset key (PFloat current) metrics)) document)))"

definition claim_global_interval ::
  "bool \<Rightarrow> state_file \<Rightarrow> string \<Rightarrow> f64 \<Rightarrow> f64 \<Rightarrow> bool res \<times> state_file" where
  "claim_global_interval lk f name now interval_seconds =
     (let key = strip name; interval = f64_max (Fin 0) interval_seconds in
      if key = [] then (Inl (ValueError ''global metric name must not be empty''), f)
      else case update_json ''global_metrics.json'' lk f metrics_fallback
                  (claim_global_interval_mutate key now interval) None of
          (Inl e, f') \<Rightarrow> (Inl e, f')
        | (Inr (claimed, _), f') \<Rightarrow> (Inr claimed, f'))"

section \<open>Wallet states\<close>

definition wallets_fallback :: dict where
  "wallets_fallback = [(''schema_version'', PInt 4), (''version'', PInt 0), (''wallets'', PDict [])]"

fun wallet_has_status :: "string \<Rightarrow> py \<Rightarrow> bool" where
  "wallet_has_status status (PDict row) =
     (upper (py_str (dget_or row ''status'' (PStr ''ACTIVE''))) = status)"
| "wallet_has_status status _ = False"

fun wallet_snapshot :: "string \<times> py \<Rightarrow> py" where
  "wallet_snapshot (address, PDict row) = PDict (dupdate [(''address'', PStr address)] row)"
| "wallet_snapshot (address, v) = v"

definition get_wallets_by_status :: "bool \<Rightarrow> state_file \<Rightarrow> string \<Rightarrow> py list res" where
  "get_wallets_by_status lk f status =
     locked ''wallet_performance.json'' lk
       (bindE (read_json ''wallet_performance.json'' f wallets_fallback) (\<lambda>document.
        case dget_or document ''wallets'' (PDict []) of
          PDict rows \<Rightarrow> Inr (map wallet_snapshot
            (filter (\<lambda>kv. wallet_has_status (upper status) (snd kv)) rows))
        | _ \<Rightarrow> Inr []))"

definition activated_row :: "string option \<Rightarrow> dict \<Rightarrow> dict" where
  "activated_row completed_at row =
     (let row = dpop ''cooldown_started_at'' row;
          row = dpop ''cooldown_start_time'' row;
          row = dpop ''cooldown_reason'' row;
          row = dset ''evicted'' (PBool False) row
      in case completed_at of
           Some t \<Rightarrow> (if t \<noteq> [] then dset ''cooldown_completed_at'' (PStr t) row else row)
         | None \<Rightarrow> row)"

definition reset_wallet_metrics :: "dict \<Rightarrow> dict" where
  "reset_wallet_metrics row =
     dset ''cumulative_return_percent'' (PFloat (Fin 0))
       (dset ''average_return_percent'' (PFloat (Fin 0))
         (dset ''samples'' (PList []) (dset ''losses'' (PInt 0) (dset ''wins'' (PInt 0) row))))"

definition set_wallet_status_mutate ::
  "string \<Rightarrow> string \<Rightarrow> bool \<Rightarrow> string option \<Rightarrow> bool mutator" where
  "set_wallet_status_mutate wallet status reset_metrics completed_at document =
     (let wallets = (case dget_or document ''wallets'' (PDict []) of PDict w \<Rightarrow> w | _ \<Rightarrow> []);
          document = dset ''wallets'' (PDict wallets) document
      in case dgetn wallets wallet of
           PDict row \<Rightarrow>
             (let row = dset ''status'' (PStr status) row;
                  row = (if status = ''ACTIVE'' then activated_row completed_at row else row);
                  row = (if reset_metrics then reset_wallet_metrics row else row);
                  document = dset ''wallets'' (PDict (dset wallet (PDict row) wallets)) document
              in Inr (True, case completed_at of
                   Some t \<Rightarrow> (if t \<noteq> [] then dset ''updated_at'' (PStr t) document else document)
                 | None \<Rightarrow> document))
         | _ \<Rightarrow> Inr (False, document))"

definition set_wallet_status ::
  "bool \<Rightarrow> state_file \<Rightarrow> string \<Rightarrow> string \<Rightarrow> bool \<Rightarrow> string option \<Rightarrow> bool res \<times> state_file" where
  "set_wallet_status lk f address status reset_metrics completed_at =
     (let wallet = strip address; normalized = upper status in
      if wallet = [] then (Inl (ValueError ''wallet address must not be empty''), f)
      else if normalized \<noteq> ''ACTIVE'' \<and> normalized \<noteq> ''COOL_DOWN''
      then (Inl (ValueError ''wallet status must be ACTIVE or COOL_DOWN''), f)
      else case update_json ''wallet_performance.json'' lk f wallets_fallback
                  (set_wallet_status_mutate wallet normalized reset_metrics completed_at) None of
          (Inl e, f') \<Rightarrow> (Inl e, f')
        | (Inr (changed, _), f') \<Rightarrow> (Inr changed, f'))"

section \<open>Properties of the lock and of transactions\<close>

lemma lock_loop_None: "lock_loop d xs = None \<longleftrightarrow> (\<forall>(g, t) \<in> set xs. \<not> g \<and> t < d)"
  by (induction d xs rule: lock_loop.induct) auto

text \<open>Waiting for the lock ends: if every failed attempt takes at least the polling interval, then
  after the attempts that fit into the timeout and one more the loop has either the lock or
  raised the timeout.\<close>

theorem lock_acquisition_ends:
  assumes "0 < poll" "0 \<le> timeout"
    and "\<forall>i < length attempts. start + of_nat i * poll \<le> snd (attempts ! i)"
    and "timeout / poll + 1 < of_nat (length attempts)"
  shows "\<exists>r. exclusive_file_lock path timeout start attempts = Some r"
proof -
  have "0 \<le> timeout / poll" using assms by simp
  with assms(4) obtain n where len: "length attempts = Suc n" by (cases "length attempts") auto
  let ?n = "length attempts - 1"
  have n: "?n < length attempts" "timeout / poll < of_nat ?n" using assms(4) by (simp_all add: len)
  then have "timeout < of_nat ?n * poll" using assms(1) by (simp add: pos_divide_less_eq)
  with assms(3) n(1) have "start + timeout < snd (attempts ! ?n)" by fastforce
  moreover have "attempts ! ?n \<in> set attempts" using n(1) by (rule nth_mem)
  ultimately have "lock_loop (start + timeout) attempts \<noteq> None"
    unfolding lock_loop_None by (force simp: case_prod_beta)
  then show ?thesis by (auto simp: exclusive_file_lock_def)
qed

theorem lock_acquisition_ends_witness:
  "\<exists>r. exclusive_file_lock ''ledger'' 1 0 [(False, 0), (False, 1), (False, 2)] = Some r"
  by (rule lock_acquisition_ends [of 1]) (auto simp: less_Suc_eq numeral_eq_Suc)

lemma doc_version_dset [simp]: "doc_version (dset ''version'' (PInt v) d) = Inr v"
  by (simp add: doc_version_def)

lemma metrics_of_dset [simp]: "metrics_of (dset ''metrics'' (PDict m) d) = m"
  by (simp add: metrics_of_def)

lemma read_Content [simp]: "read_json p (Content (PDict d)) fb = Inr d"
  by simp

lemma claim_interval_True:
  "claim_global_interval lk f name now iv = (Inr True, f') \<Longrightarrow>
   \<exists>doc. f' = Content (PDict doc) \<and> dget (metrics_of doc) (strip name) = Some (PFloat now)
      \<and> (\<exists>v. doc_version doc = Inr v)"
  by (auto simp: claim_global_interval_def Let_def update_json_Inr claim_global_interval_mutate_def
        bindE_eq_Inr metrics_of_def split: if_splits prod.splits sum.splits)

text \<open>An interval claimed at \<open>t1\<close> cannot be claimed again before it has passed: the second claim
  returns False and the recorded time stays \<open>t1\<close>.\<close>

theorem interval_claimed_once:
  assumes "claim_global_interval lk1 f name (Fin t1) interval = (Inr True, f1)"
    and "f64_lt (f64_sub (Fin t2) (Fin t1)) (f64_max (Fin 0) interval)" and "t1 \<noteq> 0"
  shows "fst (claim_global_interval True f1 name (Fin t2) interval) = Inr False \<and>
     (case snd (claim_global_interval True f1 name (Fin t2) interval) of
        Content (PDict doc) \<Rightarrow> dget (metrics_of doc) (strip name) = Some (PFloat (Fin t1))
      | _ \<Rightarrow> False)"
proof -
  obtain doc v where f1: "f1 = Content (PDict doc)" "doc_version doc = Inr v"
      "dget (metrics_of doc) (strip name) = Some (PFloat (Fin t1))"
    using claim_interval_True [OF assms(1)] by blast
  have key: "strip name \<noteq> []" using assms(1) by (auto simp: claim_global_interval_def Let_def)
  define doc' where "doc' = dset ''metrics'' (PDict (metrics_of doc)) (dsetdefault ''schema_version'' (PInt 2) doc)"
  have m: "metrics_of (dsetdefault ''schema_version'' (PInt 2) doc) = metrics_of doc"
    by (simp add: metrics_of_def dget_or_def)
  have "claim_global_interval_mutate (strip name) (Fin t2) (f64_max (Fin 0) interval) doc = Inr (False, doc')"
    using f1 assms(2,3) by (simp add: claim_global_interval_mutate_def Let_def m previous_claim_def
        doc'_def py_or_def)
  then show ?thesis using f1 key
    by (simp add: claim_global_interval_def Let_def update_json_run doc'_def metrics_of_def)
qed

theorem interval_claimed_once_witness:
  "\<exists>f1. claim_global_interval True Missing ''scan'' (Fin 1000) (Fin 60) = (Inr True, f1) \<and>
     fst (claim_global_interval True f1 ''scan'' (Fin 1030) (Fin 60)) = Inr False"
proof -
  have "case claim_global_interval True Missing ''scan'' (Fin 1000) (Fin 60) of (Inr True, f1) \<Rightarrow> True | _ \<Rightarrow> False"
    by code_simp
  then obtain f1 where f1: "claim_global_interval True Missing ''scan'' (Fin 1000) (Fin 60) = (Inr True, f1)"
    by (auto split: prod.splits sum.splits bool.splits)
  have "f64_lt (f64_sub (Fin 1030) (Fin 1000)) (f64_max (Fin 0) (Fin 60))" by code_simp
  from interval_claimed_once [OF f1 this] f1 show ?thesis by simp
qed

subsection \<open>Recent stop losses\<close>

lemma stop_loss_scan_none:
  "\<forall>e \<in> set es. \<exists>m. stop_loss_mint e = Inr m \<and> m \<noteq> Some token \<Longrightarrow>
   stop_loss_scan token limit seen es = Inr (Fin 0)"
proof (induction es arbitrary: seen)
  case (Cons e es)
  then show ?case by (cases "stop_loss_mint e") (auto split: option.splits)
qed simp

definition stop_loss_mints :: "py list \<Rightarrow> string set" where
  "stop_loss_mints es = {m. \<exists>e \<in> set es. stop_loss_mint e = Inr (Some m)}"

lemma stop_loss_mints_simps [simp]:
  "stop_loss_mints [] = {}"
  "stop_loss_mints (e # es) = (case stop_loss_mint e of Inr (Some m) \<Rightarrow> {m} | _ \<Rightarrow> {}) \<union> stop_loss_mints es"
  by (auto simp: stop_loss_mints_def split: sum.splits option.splits)

lemma finite_stop_loss_mints [simp]: "finite (stop_loss_mints es)"
  by (induction es) (auto split: sum.splits option.splits)

lemma stop_loss_scan_found:
  assumes "\<forall>x \<in> set pre. \<exists>m. stop_loss_mint x = Inr m \<and> m \<noteq> Some token"
    and "stop_loss_mint e = Inr (Some token)" "truthy (event_at e)"
    and "token \<notin> set seen" "distinct seen" "length seen < limit"
  shows "stop_loss_scan token limit seen (pre @ e # post) =
    (if card (set seen \<union> stop_loss_mints pre) < limit then datetime_from_iso (event_at e) else Inr (Fin 0))"
  using assms
proof (induction pre arbitrary: seen)
  case Nil
  then show ?case by (simp add: distinct_card)
next
  case (Cons x pre)
  obtain m where m: "stop_loss_mint x = Inr m" "m \<noteq> Some token" using Cons.prems(1) by auto
  show ?case
  proof (cases m)
    case None
    then show ?thesis using Cons m by simp
  next
    case (Some a)
    have pre: "\<forall>x \<in> set pre. \<exists>m. stop_loss_mint x = Inr m \<and> m \<noteq> Some token"
      using Cons.prems(1) by simp
    show ?thesis
    proof (cases "a \<in> set seen")
      case True
      then have "set seen \<union> stop_loss_mints (x # pre) = set seen \<union> stop_loss_mints pre"
        using m Some by auto
      then show ?thesis using Cons.IH [OF pre Cons.prems(2-6)] True m Some by simp
    next
      case False
      have un: "set seen \<union> stop_loss_mints (x # pre) = set (a # seen) \<union> stop_loss_mints pre"
        using m Some by auto
      have c: "length (a # seen) \<le> card (set (a # seen) \<union> stop_loss_mints pre)"
        using False Cons.prems(5) by (metis card_mono distinct.simps(2) distinct_card finite_UnI
            finite_set finite_stop_loss_mints sup_ge1)
      show ?thesis
      proof (cases "limit \<le> length seen + 1")
        case True
        then show ?thesis using m Some False c un by auto
      next
        case lt: False
        have "stop_loss_scan token limit (a # seen) (pre @ e # post) =
          (if card (set (a # seen) \<union> stop_loss_mints pre) < limit then datetime_from_iso (event_at e)
           else Inr (Fin 0))"
          using Cons.prems m Some False lt by (intro Cons.IH) auto
        moreover have "stop_loss_scan token limit seen ((x # pre) @ e # post)
            = stop_loss_scan token limit (a # seen) (pre @ e # post)"
          using m Some False lt by simp
        ultimately show ?thesis unfolding un by simp
      qed
    qed
  qed
qed

text \<open>The time of the last stop loss of a token is that of its newest stop-loss sale, as long as
  fewer than the limit of distinct tokens were stopped out after it; otherwise it is zero.\<close>

theorem recent_stop_loss_found:
  assumes "dget document ''events'' = Some (PList (older @ e # newer))"
    and "\<forall>x \<in> set newer. \<exists>m. stop_loss_mint x = Inr m \<and> m \<noteq> Some (strip token)"
    and "stop_loss_mint e = Inr (Some (strip token))" "truthy (event_at e)"
  shows "get_recent_stop_loss_time True (Content (PDict document)) token maximum =
    (if card (stop_loss_mints newer) < nat (max 1 (min 50 maximum))
     then datetime_from_iso (event_at e) else Inr (Fin 0))"
proof -
  have "strip token \<noteq> []" using assms(3) by (cases e) (auto simp: bindE_eq_Inr Let_def split: if_splits)
  moreover have "stop_loss_mints (rev newer) = stop_loss_mints newer" by (simp add: stop_loss_mints_def)
  ultimately show ?thesis using assms
    by (simp add: get_recent_stop_loss_time_def Let_def locked_def stop_loss_scan_found)
qed

definition stop_sale :: "string \<Rightarrow> string \<Rightarrow> string \<Rightarrow> py" where
  "stop_sale m pid t = PDict [(''type'', PStr ''SELL''), (''reason'', PStr ''STOP_LOSS_15''),
     (''mint'', PStr m), (''position_id'', PStr pid), (''at'', PStr t)]"

theorem recent_stop_loss_found_witness:
  "get_recent_stop_loss_time True (Content (PDict [(''events'', PList [stop_sale ''A'' ''p'' ''2026-01-01T00:00:00+00:00'',
     stop_sale ''B'' ''q'' ''2026-01-01T00:10:00+00:00''])])) ''A'' 5 = Inr (Fin 1767225600)"
proof -
  let ?a = "stop_sale ''A'' ''p'' ''2026-01-01T00:00:00+00:00''"
  let ?b = "stop_sale ''B'' ''q'' ''2026-01-01T00:10:00+00:00''"
  have a: "stop_loss_mint ?a = Inr (Some (strip ''A''))" "truthy (event_at ?a)" by code_simp+
  have b: "\<forall>x \<in> set [?b]. \<exists>m. stop_loss_mint x = Inr m \<and> m \<noteq> Some (strip ''A'')"
  proof -
    have "stop_loss_mint ?b = Inr (Some ''B'')" "strip ''A'' = ''A''" by code_simp+
    then show ?thesis by simp
  qed
  have c: "card (stop_loss_mints [?b]) < nat (max 1 (min 50 5))"
  proof -
    have "stop_loss_mint ?b = Inr (Some ''B'')" by code_simp
    then show ?thesis by simp
  qed
  have t: "datetime_from_iso (event_at ?a) = Inr (Fin 1767225600)" by code_simp
  have "dget [(''events'', PList ([] @ ?a # [?b]))] ''events'' = Some (PList ([] @ ?a # [?b]))" by simp
  from recent_stop_loss_found [OF this b a, of 5] c t show ?thesis by simp
qed

lemma recent_stop_loss_absent:
  assumes "dget document ''events'' = Some (PList events)"
    and "\<forall>x \<in> set events. \<exists>m. stop_loss_mint x = Inr m \<and> m \<noteq> Some (strip token)"
  shows "get_recent_stop_loss_time True (Content (PDict document)) token maximum = Inr (Fin 0)"
  using assms by (simp add: get_recent_stop_loss_time_def Let_def locked_def stop_loss_scan_none)

subsection \<open>The stop-loss streak of a route\<close>

text \<open>A closing sale: its position, its reason and its time.\<close>

fun closing_entry :: "py \<Rightarrow> (string \<times> string \<times> py) option" where
  "closing_entry (PDict e) = (case dgetn e ''reason'' of
     PStr r \<Rightarrow> (let pid = py_str (dget_or e ''position_id'' (PStr [])) in
        if dgetn e ''type'' = PStr ''SELL'' \<and> r \<in> set terminal_reasons \<and> pid \<noteq> []
        then Some (pid, r, dgetn e ''at'') else None)
   | _ \<Rightarrow> None)"
| "closing_entry _ = None"

text \<open>The last closing sale of every position, in the order of the list.\<close>

fun closings :: "string list \<Rightarrow> py list \<Rightarrow> (string \<times> string \<times> py) list" where
  "closings seen [] = []"
| "closings seen (e # es) = (case closing_entry e of
     None \<Rightarrow> closings seen es
   | Some (pid, r, t) \<Rightarrow> (if pid \<in> set seen then closings seen es
       else (pid, r, t) # closings (pid # seen) es))"

definition stop_run :: "py list \<Rightarrow> string \<Rightarrow> string \<Rightarrow> string list \<Rightarrow> py list \<Rightarrow> (string \<times> string \<times> py) list" where
  "stop_run events route stop seen es =
     takeWhile (\<lambda>(_, r, _). r = stop)
       (filter (\<lambda>(pid, _, _). route_of_position events pid = route) (closings seen es))"

lemma stop_run_simps [simp]:
  "stop_run events route stop seen [] = []"
  "closing_entry e = None \<Longrightarrow> stop_run events route stop seen (e # es) = stop_run events route stop seen es"
  "closing_entry e = Some (pid, r, t) \<Longrightarrow> pid \<in> set seen \<Longrightarrow>
     stop_run events route stop seen (e # es) = stop_run events route stop seen es"
  "closing_entry e = Some (pid, r, t) \<Longrightarrow> pid \<notin> set seen \<Longrightarrow>
     stop_run events route stop seen (e # es) =
       (if route_of_position events pid \<noteq> route then stop_run events route stop (pid # seen) es
        else if r \<noteq> stop then [] else (pid, r, t) # stop_run events route stop (pid # seen) es)"
  by (auto simp: stop_run_def)

lemma streak_scan_skip:
  "closing_entry e = None \<Longrightarrow> streak_scan events route stop n t seen (e # es) = Inr r \<Longrightarrow>
   streak_scan events route stop n t seen es = Inr r"
  by (cases e) (auto simp: Let_def split: py.splits if_splits bool.splits)

lemma streak_scan_closing:
  "closing_entry e = Some (pid, r, a) \<Longrightarrow>
   streak_scan events route stop n t seen (e # es) =
     (if pid \<in> set seen then streak_scan events route stop n t seen es
      else if route_of_position events pid \<noteq> route
        then streak_scan events route stop n t (pid # seen) es
      else if r \<noteq> stop then Inr (n, t)
      else if \<not> truthy a then Inl (ValueError ''route stop-loss event is missing at'')
      else if n = 0 then (case datetime_from_iso a of
          Inl ex \<Rightarrow> Inl ex | Inr t' \<Rightarrow> streak_scan events route stop (n + 1) t' (pid # seen) es)
      else streak_scan events route stop (n + 1) t (pid # seen) es)"
  by (cases e) (auto simp: Let_def split: py.splits if_splits sum.splits)

lemma streak_scan_run:
  "streak_scan events route stop n t seen es = Inr (n', t') \<Longrightarrow>
   n' = n + length (stop_run events route stop seen es) \<and>
   (n = 0 \<longrightarrow> (case stop_run events route stop seen es of
      [] \<Rightarrow> t' = t | (_, _, a) # _ \<Rightarrow> datetime_from_iso a = Inr t')) \<and>
   (n \<noteq> 0 \<longrightarrow> t' = t)"
proof (induction es arbitrary: n t seen)
  case (Cons e es)
  show ?case
  proof (cases "closing_entry e")
    case None
    then show ?thesis using Cons.IH [OF streak_scan_skip [OF None Cons.prems]] by simp
  next
    case (Some c)
    then obtain pid r a where c: "closing_entry e = Some (pid, r, a)" by (cases c) auto
    note step = Cons.prems [unfolded streak_scan_closing [OF c]]
    show ?thesis
    proof (cases "pid \<in> set seen \<or> route_of_position events pid \<noteq> route \<or> r \<noteq> stop")
      case True
      then show ?thesis using step c by (auto split: if_splits dest: Cons.IH)
    next
      case False
      have next_sale: "stop_run events route stop seen (e # es)
          = (pid, r, a) # stop_run events route stop (pid # seen) es"
        using c False by simp
      show ?thesis
      proof (cases "n = 0")
        case True
        then obtain t1 where t1: "datetime_from_iso a = Inr t1"
            "streak_scan events route stop (Suc 0) t1 (pid # seen) es = Inr (n', t')"
          using step False by (auto split: if_splits sum.splits)
        show ?thesis using Cons.IH [OF t1(2)] t1(1) True by (simp add: next_sale)
      next
        case 2: False
        then have "streak_scan events route stop (Suc n) t (pid # seen) es = Inr (n', t')"
          using step False by (auto split: if_splits)
        from Cons.IH [OF this] 2 show ?thesis by (simp add: next_sale)
      qed
    qed
  qed
qed simp

text \<open>The stop-loss streak of a route is the run of its most recent closing sales, newest first and
  one per position, that were initial stops; its time is that of the newest of them.\<close>

theorem route_stop_streak:
  assumes "get_route_initial_stop_streak True (Content (PDict document)) route_type = Inr (n, t)"
    and "dget document ''events'' = Some (PList events)"
  shows "let route = upper (strip route_type);
             stop = (if route = ''A'' then ''STOP_LOSS_15'' else ''ROUTE_B_STOP_LOSS_10'');
             run = stop_run events route stop [] (rev events)
         in n = length run \<and> (run = [] \<longrightarrow> t = Fin 0) \<and>
            (run \<noteq> [] \<longrightarrow> datetime_from_iso (snd (snd (hd run))) = Inr t)"
proof -
  let ?route = "upper (strip route_type)"
  let ?stop = "if ?route = ''A'' then ''STOP_LOSS_15'' else ''ROUTE_B_STOP_LOSS_10''"
  have "streak_scan events ?route ?stop 0 (Fin 0) [] (rev events) = Inr (n, t)"
    using assms by (simp add: get_route_initial_stop_streak_def Let_def locked_def split: if_splits)
  note scan = streak_scan_run [OF this]
  show ?thesis unfolding Let_def
    by (rule conjI, use scan in simp, use scan in \<open>cases "stop_run events ?route ?stop [] (rev events)"\<close>)
      (auto simp del: if_split)
qed

theorem route_stop_streak_witness:
  "get_route_initial_stop_streak True (Content (PDict [(''events'', PList [stop_sale ''A'' ''p'' ''2026-01-01T00:00:00+00:00'',
     stop_sale ''B'' ''q'' ''2026-01-01T00:10:00+00:00''])])) ''A'' = Inr (2, Fin 1767226200) \<and>
   length (stop_run [stop_sale ''A'' ''p'' ''2026-01-01T00:00:00+00:00'',
     stop_sale ''B'' ''q'' ''2026-01-01T00:10:00+00:00''] ''A'' ''STOP_LOSS_15'' []
     (rev [stop_sale ''A'' ''p'' ''2026-01-01T00:00:00+00:00'', stop_sale ''B'' ''q'' ''2026-01-01T00:10:00+00:00''])) = 2"
proof -
  let ?es = "[stop_sale ''A'' ''p'' ''2026-01-01T00:00:00+00:00'', stop_sale ''B'' ''q'' ''2026-01-01T00:10:00+00:00'']"
  have run: "get_route_initial_stop_streak True (Content (PDict [(''events'', PList ?es)])) ''A''
      = Inr (2, Fin 1767226200)" by code_simp
  have "upper (strip ''A'') = ''A''" by code_simp
  moreover have "dget [(''events'', PList ?es)] ''events'' = Some (PList ?es)" by simp
  ultimately show ?thesis using route_stop_streak [OF run] run by (simp add: Let_def del: rev.simps)
qed

subsection \<open>Wallet states and atomic writes\<close>

text \<open>Activating a wallet that the file has sets its status, takes the eviction mark and the
  cooldown fields off, leaves its other fields and the other wallets as they are, and bumps
  the version of the file.\<close>

theorem wallet_activation:
  assumes "dget document ''wallets'' = Some (PDict wallets)"
    and "dget wallets (strip address) = Some (PDict row)"
    and "doc_version document = Inr v" "strip address \<noteq> []" "upper status = ''ACTIVE''"
  shows "\<exists>doc' row'. set_wallet_status True (Content (PDict document)) address status False None
      = (Inr True, Content (PDict doc')) \<and> doc_version doc' = Inr (v + 1) \<and>
      dget doc' ''wallets'' = Some (PDict (dset (strip address) (PDict row') wallets)) \<and>
      dget row' ''status'' = Some (PStr ''ACTIVE'') \<and> dget row' ''evicted'' = Some (PBool False) \<and>
      (\<forall>k. k \<noteq> ''status'' \<longrightarrow> k \<noteq> ''evicted'' \<longrightarrow>
         dget row' k = (if k \<in> {''cooldown_started_at'', ''cooldown_start_time'', ''cooldown_reason''}
                        then None else dget row k))"
proof -
  define row' where "row' = activated_row None (dset ''status'' (PStr ''ACTIVE'') row)"
  define doc1 where "doc1 = dset ''wallets'' (PDict (dset (strip address) (PDict row') wallets))
     (dset ''wallets'' (PDict wallets) document)"
  have "set_wallet_status_mutate (strip address) ''ACTIVE'' False None document = Inr (True, doc1)"
    using assms by (simp add: set_wallet_status_mutate_def doc1_def row'_def Let_def)
  then have "set_wallet_status True (Content (PDict document)) address status False None
      = (Inr True, Content (PDict (dset ''version'' (PInt (v + 1)) doc1)))"
    using assms by (simp add: set_wallet_status_def Let_def update_json_run [where d = document and v = v])
  then show ?thesis
    by (intro exI [of _ "dset ''version'' (PInt (v + 1)) doc1"] exI [of _ row'])
      (simp add: doc_version_def doc1_def row'_def activated_row_def Let_def)
qed

theorem wallet_activation_witness:
  "\<exists>doc'. set_wallet_status True (Content (PDict [(''wallets'', PDict [(''W'', PDict [(''status'', PStr ''EVICTED'')])])]))
     ''W'' ''active'' False None = (Inr True, Content (PDict doc')) \<and> doc_version doc' = Inr 1"
proof -
  let ?d = "[(''wallets'', PDict [(''W'', PDict [(''status'', PStr ''EVICTED'')])])]"
  have "strip ''W'' = ''W''" "upper ''active'' = ''ACTIVE''" by code_simp+
  then have "dget ?d ''wallets'' = Some (PDict [(''W'', PDict [(''status'', PStr ''EVICTED'')])])"
    "dget [(''W'', PDict [(''status'', PStr ''EVICTED'')])] (strip ''W'') = Some (PDict [(''status'', PStr ''EVICTED'')])"
    "doc_version ?d = Inr 0" "strip ''W'' \<noteq> []" "upper ''active'' = ''ACTIVE''"
    by (simp_all add: doc_version_def)
  from wallet_activation [OF this] show ?thesis by auto
qed

text \<open>Writing a state file is all or nothing: the canonical file holds the new document if the write
  succeeded and the old content otherwise, whichever step is cut short and whether by an
  exception or by the end of the process; only the latter can leave a temporary file behind.\<close>

theorem atomic_write_all_or_nothing:
  "let (ok, dir') = atomic_write_json now unlink_fails name document failure dir
   in canonical dir' = (if ok then Content document else canonical dir) \<and> (ok \<longleftrightarrow> failure = None) \<and>
     list_all (\<lambda>t. t \<in> set (temps dir) \<or>
       (\<exists>s. failure = Some (Killed s)) \<and> temp_name t = name \<and> temp_regular t \<and> temp_mtime t = now) (temps dir')"
  by (auto simp: atomic_write_json_def Let_def cleanup_stale_def remove_temp_def list_all_iff
      split: option.splits write_failure.splits write_step.splits)

end
