(* ===== verification/HeliusRpc.thy ===== *)
theory HeliusRpc
  imports StateStore LogRedaction
begin

text \<open>
  The Helius JSON-RPC caller of \<open>src/helius_rpc.py\<close>: the request slot and the cooldown that
  the processes share in \<open>helius_rpc_rate_limit.json\<close>, the delay before a retry, and the
  retry loop.  The clock, the random sample of the jitter, the outcome of each HTTP request
  and the date parser of the mail library are arguments.
\<close>

section \<open>Constants\<close>

definition HELIUS_MIN_INTERVAL_SECONDS :: f64 where "HELIUS_MIN_INTERVAL_SECONDS = float_lit (125 / 1000)"
definition HELIUS_MAX_ATTEMPTS :: int where "HELIUS_MAX_ATTEMPTS = 5"
definition HELIUS_MAX_BACKOFF_SECONDS :: f64 where "HELIUS_MAX_BACKOFF_SECONDS = float_lit 30"

definition HELIUS_RETRYABLE_STATUSES :: "int list" where
  "HELIUS_RETRYABLE_STATUSES = [408, 429, 500, 502, 503, 504]"

definition HELIUS_RATE_LIMIT_FALLBACK :: dict where
  "HELIUS_RATE_LIMIT_FALLBACK = [(''schema_version'', PInt 1), (''last_request_at_epoch'', PFloat (Fin 0)),
     (''not_before_epoch'', PFloat (Fin 0)), (''request_count'', PInt 0), (''rate_limit_count'', PInt 0),
     (''rate_limit_counts_by_method'', PDict [])]"

definition helius_path :: string where "helius_path = ''helius_rpc_rate_limit.json''"

definition RATE_LIMIT_REASONS :: "(string \<times> string) list" where
  "RATE_LIMIT_REASONS =
     [(''getAccountInfo'', ''RPC_GET_ACCOUNT_INFO_RATE_LIMIT_EXHAUSTED''),
      (''getTokenSupply'', ''RPC_GET_TOKEN_SUPPLY_RATE_LIMIT_EXHAUSTED''),
      (''getBalance'', ''RPC_GET_BALANCE_RATE_LIMIT_EXHAUSTED''),
      (''getTransaction'', ''RPC_GET_TRANSACTION_RATE_LIMIT_EXHAUSTED''),
      (''getSignaturesForAddress'', ''RPC_GET_SIGNATURES_FOR_ADDRESS_RATE_LIMIT_EXHAUSTED'')]"

definition HELIUS_RATE_LIMIT_FAILURE_REASONS :: "string list" where
  "HELIUS_RATE_LIMIT_FAILURE_REASONS = map snd RATE_LIMIT_REASONS @ [''RPC_RATE_LIMIT_EXHAUSTED'']"

text \<open>The failures of the caller: \<open>HeliusRpcRateLimitError\<close> with its reason, \<open>HeliusRpcError\<close>.\<close>

datatype helius_error = HeliusRpcRateLimitError string int | HeliusRpcError string | HeliusOther exc

definition rate_limit_reason :: "string \<Rightarrow> string" where
  "rate_limit_reason m = (case map_of RATE_LIMIT_REASONS m of
     Some r \<Rightarrow> r | None \<Rightarrow> ''RPC_RATE_LIMIT_EXHAUSTED'')"

section \<open>Numbers and delays\<close>

definition finite_nonnegative :: "py \<Rightarrow> f64 option" where
  "finite_nonnegative v = (case v of
     PBool _ \<Rightarrow> None | PNone \<Rightarrow> None | PStr [] \<Rightarrow> None
   | _ \<Rightarrow> (case py_float v of
       Inr x \<Rightarrow> (if f64_is_finite x \<and> f64_le (Fin 0) x then Some x else None)
     | Inl _ \<Rightarrow> None))"

text \<open>\<open>http_date\<close> is the timestamp of \<open>parsedate_to_datetime\<close>, read as UTC where it has no zone.\<close>

definition header_delay_seconds ::
  "(string \<Rightarrow> f64 option) \<Rightarrow> string option \<Rightarrow> f64 \<Rightarrow> bool \<Rightarrow> f64 option" where
  "header_delay_seconds http_date value now relative_only = (case value of
     None \<Rightarrow> None
   | Some s \<Rightarrow> (if s = [] then None else case finite_nonnegative (PStr s) of
       Some x \<Rightarrow> Some (if \<not> relative_only \<and> f64_lt now x then f64_sub x now else x)
     | None \<Rightarrow> (if relative_only
         then map_option (\<lambda>t. f64_max (Fin 0) (f64_sub t now)) (http_date s)
         else None)))"

type_synonym headers = "string \<Rightarrow> string option"

definition helius_backoff_seconds ::
  "(string \<Rightarrow> f64 option) \<Rightarrow> headers \<Rightarrow> nat \<Rightarrow> f64 \<Rightarrow> f64 \<times> string" where
  "helius_backoff_seconds http_date hs attempt_index now =
     (case header_delay_seconds http_date (hs ''Retry-After'') now True of
        Some d \<Rightarrow> (f64_min d HELIUS_MAX_BACKOFF_SECONDS, ''retry-after'')
      | None \<Rightarrow> (case header_delay_seconds http_date (hs ''x-ratelimit-reset'') now False of
          Some d \<Rightarrow> (f64_min d HELIUS_MAX_BACKOFF_SECONDS, ''rate-limit-reset'')
        | None \<Rightarrow> (case header_delay_seconds http_date (hs ''ratelimit-reset'') now False of
            Some d \<Rightarrow> (f64_min d HELIUS_MAX_BACKOFF_SECONDS, ''rate-limit-reset'')
          | None \<Rightarrow> (f64_min (f64_of_rat (2 ^ attempt_index)) HELIUS_MAX_BACKOFF_SECONDS,
                     ''exponential-fallback''))))"

definition jittered_backoff_seconds :: "f64 \<Rightarrow> string \<Rightarrow> f64 \<Rightarrow> f64" where
  "jittered_backoff_seconds delay source random_value =
     (let sample = f64_min (Fin 1) (f64_max (Fin 0) random_value);
          factor = (if source \<in> {''retry-after'', ''rate-limit-reset''}
            then f64_add (Fin 1) (f64_mul (float_lit (1 / 4)) sample)
            else f64_add (float_lit (3 / 4)) (f64_mul (float_lit (1 / 2)) sample))
      in f64_min HELIUS_MAX_BACKOFF_SECONDS (f64_mul (f64_max (Fin 0) delay) factor))"

section \<open>The shared slot\<close>

definition epoch_field :: "dict \<Rightarrow> string \<Rightarrow> f64" where
  "epoch_field d k = (case finite_nonnegative (dgetn d k) of Some x \<Rightarrow> x | None \<Rightarrow> Fin 0)"

text \<open>
  A transaction on the file that does not go through \<open>update_json\<close>: lock, read, change, replace.
\<close>

definition locked_write ::
  "string \<Rightarrow> bool \<Rightarrow> state_file \<Rightarrow> dict \<Rightarrow> 't mutator \<Rightarrow> 't res \<times> state_file" where
  "locked_write path lk f fallback m =
     (case locked path lk (bindE (read_json path f fallback) m) of
        Inl x \<Rightarrow> (Inl x, f) | Inr (r, d) \<Rightarrow> (Inr r, Content (PDict d)))"

text \<open>\<open>now\<close> is the clock before the wait, \<open>request_at\<close> the clock after it.\<close>

definition wait_for_helius_slot_mutate :: "f64 \<Rightarrow> f64 \<Rightarrow> f64 \<Rightarrow> f64 mutator" where
  "wait_for_helius_slot_mutate interval_seconds now request_at state =
     (let interval = f64_max (Fin 0) interval_seconds;
          last_request = epoch_field state ''last_request_at_epoch'';
          not_before = epoch_field state ''not_before_epoch'';
          target = f64_max (f64_max now (f64_add last_request interval)) not_before;
          delay = f64_max (Fin 0) (f64_sub target now);
          state = dset ''schema_version'' (PInt 1) state;
          state = dset ''last_request_at_epoch'' (PFloat request_at) state
      in bindE (int_field state ''request_count'' 0) (\<lambda>n.
         let state = dset ''request_count'' (PInt (n + 1)) state
         in Inr (delay, if f64_le not_before request_at
              then dset ''not_before_epoch'' (PFloat (Fin 0)) state else state)))"

definition wait_for_helius_slot ::
  "bool \<Rightarrow> state_file \<Rightarrow> f64 \<Rightarrow> f64 \<Rightarrow> f64 \<Rightarrow> f64 res \<times> state_file" where
  "wait_for_helius_slot lk f interval_seconds now request_at =
     locked_write helius_path lk f HELIUS_RATE_LIMIT_FALLBACK
       (wait_for_helius_slot_mutate interval_seconds now request_at)"

definition defer_helius_until_mutate :: "f64 \<Rightarrow> string \<Rightarrow> bool \<Rightarrow> f64 \<Rightarrow> unit mutator" where
  "defer_helius_until_mutate not_before m rate_limited now state =
     (let current = epoch_field state ''not_before_epoch'';
          state = dset ''schema_version'' (PInt 1) state;
          state = dset ''not_before_epoch'' (PFloat (f64_max current not_before)) state
      in if \<not> rate_limited then Inr ((), state)
         else bindE (int_field state ''rate_limit_count'' 0) (\<lambda>n.
           let state = dset ''rate_limit_count'' (PInt (n + 1)) state;
               counts = (case dgetn state ''rate_limit_counts_by_method'' of PDict c \<Rightarrow> c | _ \<Rightarrow> []);
               stable = (if m \<in> fst ` set RATE_LIMIT_REASONS then m else ''OTHER'')
           in bindE (int_field counts stable 0) (\<lambda>k.
              let state = dset ''rate_limit_counts_by_method'' (PDict (dset stable (PInt (k + 1)) counts)) state;
                  state = dset ''last_rate_limit_at_epoch'' (PFloat now) state
              in Inr ((), dset ''last_rate_limit_method'' (PStr stable) state))))"

definition defer_helius_until ::
  "bool \<Rightarrow> state_file \<Rightarrow> f64 \<Rightarrow> string \<Rightarrow> bool \<Rightarrow> f64 \<Rightarrow> unit res \<times> state_file" where
  "defer_helius_until lk f not_before m rate_limited now =
     locked_write helius_path lk f HELIUS_RATE_LIMIT_FALLBACK
       (defer_helius_until_mutate not_before m rate_limited now)"

section \<open>The retry loop\<close>

definition payload_is_rate_limited :: "py \<Rightarrow> bool" where
  "payload_is_rate_limited err = (case err of
     PDict e \<Rightarrow> (dgetn e ''code'' = PInt (-32005) \<or> dgetn e ''code'' = PFloat (Fin (-32005)) \<or>
        (let message = upper (str_field e ''message'' (PStr []))
         in contains message ''RATE LIMIT'' \<or> contains message ''TOO MANY REQUEST''))
   | _ \<Rightarrow> False)"

text \<open>
  What a request ends in: a response (status, headers, decoded body), a transport error with
  its text, or a body that cannot be decoded.
\<close>

datatype http_outcome = Response int headers py | Transport string | Undecodable exc

text \<open>
  One attempt: its HTTP outcome, the locks of the slot, of the deferral and of the deferral in
  the handler of transport errors, the clock before and after the wait, at the failure and at
  the deferrals, and the jitter samples.
\<close>

record helius_attempt =
  outcome :: http_outcome
  slot_lock :: bool
  defer_lock :: bool
  handler_lock :: bool
  slot_now :: f64
  request_at :: f64
  failed_at :: f64
  deferred_at :: f64
  handled_at :: f64
  jitter :: f64
  handler_jitter :: f64

definition body_error :: "py \<Rightarrow> py" where
  "body_error payload = (case payload of PDict d \<Rightarrow> dgetn d ''error'' | _ \<Rightarrow> PNone)"

definition body_result :: "py \<Rightarrow> py" where
  "body_result payload = (case payload of PDict d \<Rightarrow> dgetn d ''result'' | _ \<Rightarrow> PNone)"

text \<open>What a response decides: the value, a failure to raise, a retry, or a transport error.\<close>

datatype helius_decision =
    Return py
  | Fail helius_error
  | RetryAfter f64 bool
  | TransportFailed string

definition decide_attempt ::
  "(string \<Rightarrow> f64 option) \<Rightarrow> string \<Rightarrow> nat \<Rightarrow> helius_attempt \<Rightarrow> helius_decision" where
  "decide_attempt http_date m attempt_index a = (case outcome a of
     Response status hs payload \<Rightarrow>
       (let retryable = status \<in> set HELIUS_RETRYABLE_STATUSES in
        if \<not> retryable \<and> 400 \<le> status then Fail (HeliusRpcError (m @ '' HTTP '' @ dec_int status))
        else let err = (if retryable then PNone else body_error payload);
                 limited = payload_is_rate_limited err
          in if \<not> retryable \<and> \<not> limited
             then (if truthy err
                   then Fail (HeliusRpcError (m @ '' failed: '' @ take 300 (redact_sensitive_text (py_str err))))
                   else Return (body_result payload))
             else let (delay, source) = helius_backoff_seconds http_date hs attempt_index (failed_at a)
                  in RetryAfter (jittered_backoff_seconds delay source (jitter a)) (status = 429 \<or> limited))
   | Transport text \<Rightarrow> TransportFailed text
   | Undecodable x \<Rightarrow> Fail (HeliusOther x))"

text \<open>What an attempt ends in: the end of the call, or a pause before the next attempt.\<close>

datatype helius_step = Finished "helius_error + py" | Pause f64

text \<open>
  The handler of transport errors.  A lock timeout is a \<open>TimeoutError\<close>, which it catches too.
  On the last attempt it leaves the loop without a deferral.
\<close>

definition transport_failure ::
  "string \<Rightarrow> int \<Rightarrow> nat \<Rightarrow> bool \<Rightarrow> helius_attempt \<Rightarrow> string \<Rightarrow> state_file \<Rightarrow> helius_step \<times> state_file" where
  "transport_failure m attempts attempt_index final a text f =
     (if final then (Finished (Inl (HeliusRpcError (m @ '' transport failure after '' @ dec_int attempts
        @ '' attempts: '' @ take 200 (redact_sensitive_text text)))), f)
      else let (base, source) = helius_backoff_seconds (\<lambda>_. None) (\<lambda>_. None) attempt_index (handled_at a);
               delay = jittered_backoff_seconds base source (handler_jitter a)
        in case defer_helius_until (handler_lock a) f (f64_add (handled_at a) delay) m False (handled_at a) of
             (Inl x, f) \<Rightarrow> (Finished (Inl (HeliusOther x)), f)
           | (Inr _, f) \<Rightarrow> (Pause delay, f))"

definition helius_step_of ::
  "(string \<Rightarrow> f64 option) \<Rightarrow> string \<Rightarrow> int \<Rightarrow> nat \<Rightarrow> bool \<Rightarrow> helius_attempt \<Rightarrow> state_file
     \<Rightarrow> helius_step \<times> state_file" where
  "helius_step_of http_date m attempts attempt_index final a f =
     (case wait_for_helius_slot (slot_lock a) f HELIUS_MIN_INTERVAL_SECONDS (slot_now a) (request_at a) of
        (Inl (StateLockTimeout t), f) \<Rightarrow> transport_failure m attempts attempt_index final a t f
      | (Inl x, f) \<Rightarrow> (Finished (Inl (HeliusOther x)), f)
      | (Inr _, f) \<Rightarrow>
          (case decide_attempt http_date m attempt_index a of
             Return v \<Rightarrow> (Finished (Inr v), f)
           | Fail e \<Rightarrow> (Finished (Inl e), f)
           | TransportFailed t \<Rightarrow> transport_failure m attempts attempt_index final a t f
           | RetryAfter delay limited \<Rightarrow>
               (case defer_helius_until (defer_lock a) f (f64_add (failed_at a) delay) m limited (deferred_at a) of
                  (Inl (StateLockTimeout t), f) \<Rightarrow> transport_failure m attempts attempt_index final a t f
                | (Inl x, f) \<Rightarrow> (Finished (Inl (HeliusOther x)), f)
                | (Inr _, f) \<Rightarrow>
                    (if final
                     then (Finished (Inl (if limited then HeliusRpcRateLimitError (rate_limit_reason m) attempts
                             else HeliusRpcError (m @ '' transient failure after '' @ dec_int attempts @ '' attempts''))), f)
                     else (Pause delay, f)))))"

text \<open>The attempts \<open>i\<close>, \<open>i + 1\<close>, ... with \<open>n\<close> more after the current one, and the pauses.\<close>

fun helius_loop ::
  "(string \<Rightarrow> f64 option) \<Rightarrow> string \<Rightarrow> int \<Rightarrow> (nat \<Rightarrow> helius_attempt) \<Rightarrow> nat \<Rightarrow> nat \<Rightarrow> state_file
     \<Rightarrow> (helius_error + py) \<times> state_file \<times> f64 list" where
  "helius_loop http_date m attempts as i n f =
     (case helius_step_of http_date m attempts i (n = 0) (as i) f of
        (Finished r, f) \<Rightarrow> (r, f, [])
      | (Pause delay, f) \<Rightarrow> (case n of
            0 \<Rightarrow> (Inl (HeliusRpcError m), f, [delay])
          | Suc k \<Rightarrow> (let (r, f, slept) = helius_loop http_date m attempts as (Suc i) k f
                      in (r, f, delay # slept))))"

declare helius_loop.simps [simp del]

definition helius_rpc_call ::
  "(string \<Rightarrow> f64 option) \<Rightarrow> string \<Rightarrow> int \<Rightarrow> (nat \<Rightarrow> helius_attempt) \<Rightarrow> state_file
     \<Rightarrow> (helius_error + py) \<times> state_file \<times> f64 list" where
  "helius_rpc_call http_date m max_attempts as f =
     (let attempts = max 1 max_attempts in helius_loop http_date m attempts as 0 (nat attempts - 1) f)"

text \<open>The last attempt never pauses, so the first branch of the inner case is not reached.\<close>

lemma final_step_finishes:
  "helius_step_of http_date m attempts i True a f = (s, f') \<Longrightarrow> \<exists>r. s = Finished r"
  by (auto simp: helius_step_of_def transport_failure_def
      split: prod.splits sum.splits exc.splits helius_decision.splits if_splits)

section \<open>Properties\<close>

lemma fl_literals:
  "fl (1 / 4) = 1 / 4" "fl (1 / 2) = 1 / 2" "fl (3 / 4) = 3 / 4" "fl (5 / 4) = 5 / 4" "fl 30 = 30" "fl 2 = 2"
  by code_simp+

lemma clamp_sample: "\<exists>s. f64_min (Fin 1) (f64_max (Fin 0) r) = Fin s \<and> 0 \<le> s \<and> s \<le> 1"
  by (cases r) (auto simp: f64_min_def f64_max_def f64_lt_def)

lemma jitter_factor:
  assumes "0 \<le> s" "s \<le> 1"
  shows "\<exists>q. f64_add (Fin 1) (f64_mul (float_lit (1 / 4)) (Fin s)) = Fin q \<and> 1 \<le> q \<and> q \<le> 5 / 4"
    and "\<exists>q. f64_add (float_lit (3 / 4)) (f64_mul (float_lit (1 / 2)) (Fin s)) = Fin q \<and> 3 / 4 \<le> q \<and> q \<le> 5 / 4"
proof -
  have small: "\<bar>x\<bar> \<le> 2 ^ 1000" if "\<bar>x\<bar> \<le> 2" for x :: rat
  proof -
    have "(2 :: rat) ^ 1 \<le> 2 ^ 1000" by (rule power_increasing) simp_all
    with that show ?thesis by simp
  qed
  have a: "0 \<le> fl (1 / 4 * s)" "fl (1 / 4 * s) \<le> 1 / 4" "0 \<le> fl (1 / 2 * s)" "fl (1 / 2 * s) \<le> 1 / 2"
    using fl_mono [of "1 / 4 * s" "1 / 4"] fl_mono [of "1 / 2 * s" "1 / 2"] assms
    by (simp_all add: fl_nonneg fl_literals)
  have m: "f64_of_rat (1 / 4 * s) = Fin (fl (1 / 4 * s))" "f64_of_rat (1 / 2 * s) = Fin (fl (1 / 2 * s))"
    by (rule f64_of_rat_small, rule small, use assms in simp)+
  have p: "f64_of_rat (1 + fl (1 / 4 * s)) = Fin (fl (1 + fl (1 / 4 * s)))"
    "f64_of_rat (3 / 4 + fl (1 / 2 * s)) = Fin (fl (3 / 4 + fl (1 / 2 * s)))"
    by (rule f64_of_rat_small, rule small, use a in simp)+
  show "\<exists>q. f64_add (Fin 1) (f64_mul (float_lit (1 / 4)) (Fin s)) = Fin q \<and> 1 \<le> q \<and> q \<le> 5 / 4"
    using fl_mono [of 1 "1 + fl (1 / 4 * s)"] fl_mono [of "1 + fl (1 / 4 * s)" "5 / 4"] a m p
    by (simp add: f64_mul_def float_lit_def fl_literals)
  show "\<exists>q. f64_add (float_lit (3 / 4)) (f64_mul (float_lit (1 / 2)) (Fin s)) = Fin q \<and> 3 / 4 \<le> q \<and> q \<le> 5 / 4"
    using fl_mono [of "3 / 4" "3 / 4 + fl (1 / 2 * s)"] fl_mono [of "3 / 4 + fl (1 / 2 * s)" "5 / 4"] a m p
    by (simp add: f64_mul_def float_lit_def fl_literals)
qed

definition pause_ok :: "f64 \<Rightarrow> bool" where
  "pause_ok d \<longleftrightarrow> f64_le (Fin 0) d \<and> f64_le d (Fin 30)"

lemma min_30: "f64_le (Fin 0) x \<or> x = NaN \<Longrightarrow> pause_ok (f64_min (Fin 30) x)"
  by (cases x) (auto simp: pause_ok_def f64_min_def f64_lt_def)

lemma f64_of_rat_nonneg: "0 \<le> x \<Longrightarrow> f64_le (Fin 0) (f64_of_rat x)"
  using fl_nonneg [of x] by (auto simp: f64_of_rat_def Let_def)

lemma scaled_delay:
  assumes "0 < q"
  shows "f64_le (Fin 0) (f64_mul (f64_max (Fin 0) d) (Fin q))"
  using assms by (cases d) (auto simp: f64_mul_def f64_max_def f64_lt_def f64_of_rat_nonneg sgn_if)

lemma jittered_pause_ok: "pause_ok (jittered_backoff_seconds d source r)"
proof -
  obtain s where s: "f64_min (Fin 1) (f64_max (Fin 0) r) = Fin s" "0 \<le> s" "s \<le> 1"
    using clamp_sample by blast
  have "\<exists>q. 0 < q \<and> (if source \<in> {''retry-after'', ''rate-limit-reset''}
      then f64_add (Fin 1) (f64_mul (float_lit (1 / 4)) (Fin s))
      else f64_add (float_lit (3 / 4)) (f64_mul (float_lit (1 / 2)) (Fin s))) = Fin q"
  proof (cases "source \<in> {''retry-after'', ''rate-limit-reset''}")
    case True
    obtain q where "f64_add (Fin 1) (f64_mul (float_lit (1 / 4)) (Fin s)) = Fin q" "1 \<le> q"
      using jitter_factor(1) [OF s(2,3)] by blast
    with True show ?thesis by (intro exI [of _ q]) simp
  next
    case False
    obtain q where "f64_add (float_lit (3 / 4)) (f64_mul (float_lit (1 / 2)) (Fin s)) = Fin q" "3 / 4 \<le> q"
      using jitter_factor(2) [OF s(2,3)] by blast
    with False show ?thesis by (intro exI [of _ q]) simp
  qed
  then obtain q where "0 < q" "(if source \<in> {''retry-after'', ''rate-limit-reset''}
      then f64_add (Fin 1) (f64_mul (float_lit (1 / 4)) (Fin s))
      else f64_add (float_lit (3 / 4)) (f64_mul (float_lit (1 / 2)) (Fin s))) = Fin q" by blast
  then show ?thesis unfolding jittered_backoff_seconds_def Let_def s(1)
    using min_30 scaled_delay [of q d]
    by (simp add: HELIUS_MAX_BACKOFF_SECONDS_def float_lit_def fl_literals)
qed

lemma jittered_at_least:
  assumes "source \<in> {''retry-after'', ''rate-limit-reset''}" "representable d" "0 \<le> d" "d \<le> 30"
  shows "f64_le (Fin d) (jittered_backoff_seconds (Fin d) source r)"
proof -
  obtain s where s: "f64_min (Fin 1) (f64_max (Fin 0) r) = Fin s" "0 \<le> s" "s \<le> 1"
    using clamp_sample by blast
  obtain q where q: "f64_add (Fin 1) (f64_mul (float_lit (1 / 4)) (Fin s)) = Fin q" "1 \<le> q" "q \<le> 5 / 4"
    using jitter_factor(1) [OF s(2,3)] by blast
  have "d * 1 \<le> d * q" "d * q \<le> 30 * (5 / 4)" using assms q by (intro mult_mono; simp)+
  then have d: "d \<le> d * q" "d * q \<le> 75 / 2" by simp_all
  have "(2 :: rat) ^ 6 \<le> 2 ^ 1000" by (rule power_increasing) simp_all
  then have "f64_of_rat (d * q) = Fin (fl (d * q))" using d assms(3) by (intro f64_of_rat_small) simp
  moreover have "d \<le> fl (d * q)" using fl_mono [OF d(1)] fl_exact [OF assms(2)] by simp
  moreover have "f64_max (Fin 0) (Fin d) = Fin d" using assms(3) by (auto simp: f64_max_def f64_lt_def)
  ultimately show ?thesis unfolding jittered_backoff_seconds_def Let_def s(1)
    using assms(1,4) q(1)
    by (simp add: HELIUS_MAX_BACKOFF_SECONDS_def float_lit_def fl_literals f64_mul_def f64_min_def)
qed

lemma step_pause_ok: "helius_step_of http_date m attempts i final a f = (Pause d, f') \<Longrightarrow> pause_ok d"
  by (auto simp: helius_step_of_def transport_failure_def decide_attempt_def Let_def jittered_pause_ok
      split: prod.splits sum.splits exc.splits helius_decision.splits http_outcome.splits if_splits)

lemma helius_loop_pauses:
  "helius_loop http_date m attempts as i n f = (r, f', slept) \<Longrightarrow> length slept \<le> n \<and> list_all pause_ok slept"
proof (induction n arbitrary: i f f' slept r)
  case 0
  then show ?case
    using final_step_finishes [of http_date m attempts i "as i" f]
    by (auto simp: helius_loop.simps [of _ _ _ _ _ 0] split: prod.splits helius_step.splits)
next
  case (Suc n)
  obtain s f1 where s: "helius_step_of http_date m attempts i False (as i) f = (s, f1)" by fastforce
  show ?case
  proof (cases s)
    case (Finished r)
    then show ?thesis using Suc.prems s by (simp add: helius_loop.simps [of _ _ _ _ _ "Suc n"])
  next
    case (Pause d)
    obtain r1 f2 sl where l: "helius_loop http_date m attempts as (Suc i) n f1 = (r1, f2, sl)"
      by (cases "helius_loop http_date m attempts as (Suc i) n f1") auto
    have "pause_ok d" using step_pause_ok s Pause by blast
    then show ?thesis using Suc.prems s Pause Suc.IH [OF l] l
      by (auto simp: helius_loop.simps [of _ _ _ _ _ "Suc n"])
  qed
qed

text \<open>A Helius call makes at most its number of attempts: it pauses fewer times than that, and every
  pause lasts between 0 and 30 seconds, whatever the responses, the headers and the clock are.\<close>

theorem helius_call_pauses_bounded:
  "let (r, f', slept) = helius_rpc_call http_date m max_attempts as f
   in int (length slept) < max 1 max_attempts \<and> list_all pause_ok slept"
proof -
  obtain r f' slept where run: "helius_rpc_call http_date m max_attempts as f = (r, f', slept)"
    by (cases "helius_rpc_call http_date m max_attempts as f") auto
  then have "helius_loop http_date m (max 1 max_attempts) as 0 (nat (max 1 max_attempts) - 1) f = (r, f', slept)"
    by (simp add: helius_rpc_call_def Let_def)
  from helius_loop_pauses [OF this] show ?thesis by (auto simp: run)
qed

text \<open>The jitter never shortens a wait that the provider asked for: a delay of at most 30 seconds
  taken from a Retry-After or a reset header is waited out in full.\<close>

theorem provider_delay_respected:
  assumes "source \<in> {''retry-after'', ''rate-limit-reset''}" "representable d" "0 \<le> d" "d \<le> 30"
  shows "f64_le (Fin d) (jittered_backoff_seconds (Fin d) source r) \<and>
    f64_le (jittered_backoff_seconds (Fin d) source r) (Fin 30)"
  using jittered_at_least [OF assms] jittered_pause_ok [of "Fin d"] by (simp add: pause_ok_def)

theorem provider_delay_respected_witness:
  "f64_le (Fin 12) (jittered_backoff_seconds (Fin 12) ''retry-after'' (Fin (1 / 2)))"
proof -
  have "representable 12" using representable_int [of 12] by simp
  from provider_delay_respected [OF _ this, of "''retry-after''" "Fin (1 / 2)"] show ?thesis by simp
qed

end
