(* ===== verification/SolanaRpc.thy ===== *)
theory SolanaRpc
  imports HeliusRpc
begin

text \<open>
  The standard RPC router of \<open>src/solana_rpc.py\<close>: the providers in their fixed order, the state
  file of each provider (pacing, availability with its circuit breaker, metrics), the
  reservation of a request slot, the bookkeeping of successes and failures, and the call that
  tries providers until one answers or the attempt budget is spent.

  The clock, the locks, the jitter and the answers of the providers are arguments.  The
  research and phase telemetry hooks, whose failures the code swallows, are left out.
\<close>

section \<open>Constants\<close>

definition RPC_PROVIDER_STATE_SCHEMA_VERSION :: int where "RPC_PROVIDER_STATE_SCHEMA_VERSION = 5"
definition SOLANA_PUBLIC_DEFAULT_URL :: string where
  "SOLANA_PUBLIC_DEFAULT_URL = ''https://api.mainnet.solana.com''"
definition RPC_CIRCUIT_FAILURE_THRESHOLD :: int where "RPC_CIRCUIT_FAILURE_THRESHOLD = 3"
definition RPC_CIRCUIT_COOLDOWN_SECONDS :: f64 where "RPC_CIRCUIT_COOLDOWN_SECONDS = float_lit 60"
definition RPC_HALF_OPEN_LEASE_SECONDS :: f64 where "RPC_HALF_OPEN_LEASE_SECONDS = float_lit 20"
definition RPC_PROVIDER_LOCAL_ATTEMPTS :: int where "RPC_PROVIDER_LOCAL_ATTEMPTS = 2"
definition RPC_OVERALL_ATTEMPT_BUDGET :: int where "RPC_OVERALL_ATTEMPT_BUDGET = 6"
definition RPC_MAX_INLINE_BACKOFF_SECONDS :: f64 where "RPC_MAX_INLINE_BACKOFF_SECONDS = float_lit 5"

definition RPC_RETRYABLE_HTTP_STATUSES :: "int list" where
  "RPC_RETRYABLE_HTTP_STATUSES = [408, 429, 500, 502, 503, 504]"

definition RPC_RATE_LIMIT_ERROR_CODES :: "int list" where
  "RPC_RATE_LIMIT_ERROR_CODES = [429, -32005, -32067, -32068, -32069, -32070, -32077, -32090]"

definition RPC_TRANSIENT_ERROR_CODES :: "int list" where
  "RPC_TRANSIENT_ERROR_CODES =
     [-32055, -32056, -32057, -32059, -32061, -32063, -32064, -32071, -32076]"

definition HEAVY_RPC_METHODS :: "string list" where
  "HEAVY_RPC_METHODS = [''getSignaturesForAddress'', ''getTransaction'']"

definition HEAVY_WORKLOADS :: "string list" where
  "HEAVY_WORKLOADS = [''transaction_history'', ''wallet_feeder'']"

definition LIGHT_PROVIDER_ORDER :: "string list" where
  "LIGHT_PROVIDER_ORDER = [''alchemy'', ''chainstack'', ''ankr'', ''helius'', ''solana_public'']"

definition HEAVY_PROVIDER_ORDER :: "string list" where
  "HEAVY_PROVIDER_ORDER = [''ankr'', ''chainstack'', ''alchemy'', ''helius'', ''solana_public'']"

definition PROVIDER_UNSUPPORTED_METHODS :: "(string \<times> string list) list" where
  "PROVIDER_UNSUPPORTED_METHODS = [(''chainstack'', [''getTokenAccountsByOwner''])]"

text \<open>Provider, setting of the endpoint, setting of the rate and its default.\<close>

definition PROVIDER_ENVIRONMENTS :: "(string \<times> string \<times> string \<times> f64) list" where
  "PROVIDER_ENVIRONMENTS =
     [(''alchemy'', ''ALCHEMY_SOLANA_RPC_URL'', ''ALCHEMY_RPC_MAX_RPS'', Fin 3),
      (''chainstack'', ''CHAINSTACK_SOLANA_RPC_URL'', ''CHAINSTACK_RPC_MAX_RPS'', Fin 3),
      (''ankr'', ''ANKR_SOLANA_RPC_URL'', ''ANKR_RPC_MAX_RPS'', Fin 5),
      (''helius'', ''HELIUS_RPC_HTTP_URL'', ''HELIUS_RPC_MAX_RPS'', Fin 8),
      (''solana_public'', ''SOLANA_PUBLIC_RPC_URL'', ''SOLANA_PUBLIC_RPC_MAX_RPS'', Fin 2)]"

definition METHOD_RATE_LIMIT_REASONS :: "(string \<times> string) list" where
  "METHOD_RATE_LIMIT_REASONS =
     [(''getAccountInfo'', ''RPC_GET_ACCOUNT_INFO_RATE_LIMIT_EXHAUSTED''),
      (''getTokenSupply'', ''RPC_GET_TOKEN_SUPPLY_RATE_LIMIT_EXHAUSTED''),
      (''getBalance'', ''RPC_GET_BALANCE_RATE_LIMIT_EXHAUSTED''),
      (''getTokenAccountsByOwner'', ''RPC_GET_TOKEN_ACCOUNTS_BY_OWNER_RATE_LIMIT_EXHAUSTED''),
      (''getTransaction'', ''RPC_GET_TRANSACTION_RATE_LIMIT_EXHAUSTED''),
      (''getSignaturesForAddress'', ''RPC_GET_SIGNATURES_FOR_ADDRESS_RATE_LIMIT_EXHAUSTED''),
      (''getHealth'', ''RPC_RATE_LIMIT_EXHAUSTED'')]"

definition RPC_FAILURE_REASONS :: "string list" where
  "RPC_FAILURE_REASONS = HELIUS_RATE_LIMIT_FAILURE_REASONS @ map snd METHOD_RATE_LIMIT_REASONS @
     [''RPC_ALL_PROVIDERS_EXHAUSTED'', ''RPC_NO_PROVIDER_CONFIGURED'']"

definition RPC_METHOD_METRIC_NAMES :: "string list" where
  "RPC_METHOD_METRIC_NAMES = map fst METHOD_RATE_LIMIT_REASONS @
     [''getProgramAccounts'', ''getMultipleAccounts'', ''getBlock'', ''other'']"

definition RPC_PACING_HISTORY_LIMIT :: nat where "RPC_PACING_HISTORY_LIMIT = 256"

section \<open>Providers\<close>

record rpc_provider =
  provider_name :: string
  url :: string
  max_rps :: f64
  public_fallback :: bool

definition minimum_interval_seconds :: "rpc_provider \<Rightarrow> f64 res" where
  "minimum_interval_seconds p = f64_truediv (Fin 1) (max_rps p)"

definition positive_float :: "string \<Rightarrow> py \<Rightarrow> f64 res" where
  "positive_float setting value = (case py_float value of
     Inl _ \<Rightarrow> Inl (RuntimeError (setting @ '' must be a positive number''))
   | Inr x \<Rightarrow> (if \<not> f64_is_finite x \<or> f64_le x (Fin 0) \<or> f64_lt (Fin 1000) x
       then Inl (RuntimeError (setting @ '' must be between 0 and 1000'')) else Inr x))"

definition positive_int :: "string \<Rightarrow> int \<Rightarrow> py \<Rightarrow> int res" where
  "positive_int setting maximum value = (case py_int value of
     Inl _ \<Rightarrow> Inl (RuntimeError (setting @ '' must be a positive integer''))
   | Inr n \<Rightarrow> (if n \<le> 0 \<or> maximum < n
       then Inl (RuntimeError (setting @ '' must be between 1 and '' @ dec_int maximum)) else Inr n))"

type_synonym environ = "string \<Rightarrow> string option"

definition env_or :: "environ \<Rightarrow> string \<Rightarrow> string \<Rightarrow> string" where
  "env_or environ k v = (case environ k of None \<Rightarrow> v | Some s \<Rightarrow> s)"

definition helius_key_mark :: string where "helius_key_mark = ''${HELIUS_API_KEY}''"

definition resolved_endpoint :: "string \<Rightarrow> string \<Rightarrow> environ \<Rightarrow> string" where
  "resolved_endpoint name raw_url environ =
     (let u = strip raw_url;
          helius_key = strip (env_or environ ''HELIUS_API_KEY'' []);
          missing = (name = ''helius'' \<and> contains u helius_key_mark \<and> helius_key = []);
          u = (if name = ''helius'' then replace_all u helius_key_mark helius_key else u)
      in if missing then []
         else if u = [] \<or> contains u ''${'' \<or> \<not> starts_with u ''https://'' then [] else u)"

fun provider_configs :: "environ \<Rightarrow> (string \<times> string \<times> string \<times> f64) list \<Rightarrow> rpc_provider list res" where
  "provider_configs environ [] = Inr []"
| "provider_configs environ ((name, url_setting, rps_setting, default_rps) # rest) =
     (let raw_url = (if name = ''solana_public'' then env_or environ url_setting SOLANA_PUBLIC_DEFAULT_URL
                     else env_or environ url_setting []);
          u = resolved_endpoint name raw_url environ
      in if u = [] then provider_configs environ rest
         else bindE (positive_float rps_setting (case environ rps_setting of
                Some s \<Rightarrow> PStr s | None \<Rightarrow> PFloat default_rps)) (\<lambda>rps.
              bindE (provider_configs environ rest) (\<lambda>ps.
                Inr (\<lparr>provider_name = name, url = u, max_rps = rps,
                      public_fallback = (name = ''solana_public'')\<rparr> # ps))))"

definition provider_configs_from_env :: "environ \<Rightarrow> rpc_provider list res" where
  "provider_configs_from_env environ = provider_configs environ PROVIDER_ENVIRONMENTS"

text \<open>\<open>{provider.name: provider for provider in providers}\<close>: the last one of a name.\<close>

definition provider_named :: "rpc_provider list \<Rightarrow> string \<Rightarrow> rpc_provider option" where
  "provider_named ps name = List.find (\<lambda>p. provider_name p = name) (rev ps)"

definition ordered_providers :: "rpc_provider list \<Rightarrow> string \<Rightarrow> string \<Rightarrow> rpc_provider list" where
  "ordered_providers ps m workload =
     (let heavy = (m \<in> set HEAVY_RPC_METHODS \<or> workload \<in> set HEAVY_WORKLOADS);
          order = (if heavy then HEAVY_PROVIDER_ORDER else LIGHT_PROVIDER_ORDER)
      in List.map_filter (\<lambda>name. case provider_named ps name of
           None \<Rightarrow> None
         | Some p \<Rightarrow> (if m \<in> set (case map_of PROVIDER_UNSUPPORTED_METHODS name of None \<Rightarrow> [] | Some ms \<Rightarrow> ms)
                     then None else Some p)) order)"

section \<open>The state file of a provider\<close>

definition safe_epoch :: "py \<Rightarrow> f64" where
  "safe_epoch v = (case py_float v of
     Inl _ \<Rightarrow> Fin 0 | Inr x \<Rightarrow> (if f64_is_finite x \<and> f64_le (Fin 0) x then x else Fin 0))"

definition empty_availability_state :: dict where
  "empty_availability_state =
     [(''consecutive_failures'', PInt 0), (''last_success_at_epoch'', PNone),
      (''last_failure_at_epoch'', PNone), (''last_failure_category'', PNone),
      (''last_failure_method'', PNone), (''last_rate_limit_at_epoch'', PNone),
      (''last_rate_limit_method'', PNone), (''last_circuit_open_at_epoch'', PNone),
      (''last_circuit_open_method'', PNone), (''cooldown_until_epoch'', PFloat (Fin 0)),
      (''circuit_state'', PStr ''CLOSED''), (''circuit_open_count'', PInt 0),
      (''half_open_lease_until_epoch'', PFloat (Fin 0))]"

definition empty_provider_state :: "string \<Rightarrow> dict" where
  "empty_provider_state name =
     [(''schema_version'', PInt RPC_PROVIDER_STATE_SCHEMA_VERSION), (''version'', PInt 0),
      (''provider'', PStr name), (''enabled'', PBool True), (''request_count'', PInt 0),
      (''success_count'', PInt 0), (''failure_count'', PInt 0), (''rate_limit_count'', PInt 0),
      (''last_request_at_epoch'', PFloat (Fin 0))] @ empty_availability_state @
     [(''method_availability'', PDict (map (\<lambda>m. (m, PDict empty_availability_state)) HEAVY_RPC_METHODS)),
      (''method_metrics'', PDict [])]"

definition empty_buckets :: dict where
  "empty_buckets = [(''le_250_ms'', PInt 0), (''le_1000_ms'', PInt 0), (''le_5000_ms'', PInt 0),
     (''gt_5000_ms'', PInt 0)]"

definition method_metric :: dict where
  "method_metric = [(''request_count'', PInt 0), (''success_count'', PInt 0), (''failure_count'', PInt 0),
     (''rate_limit_count'', PInt 0), (''exhaustion_count'', PInt 0), (''retry_count'', PInt 0),
     (''failover_count'', PInt 0), (''latency_sample_count'', PInt 0), (''latency_sum_ms'', PFloat (Fin 0)),
     (''latency_max_ms'', PFloat (Fin 0)), (''latency_buckets'', PDict empty_buckets)]"

definition metric_method :: "string \<Rightarrow> string" where
  "metric_method m = (if m \<in> set RPC_METHOD_METRIC_NAMES then m else ''other'')"

definition with_defaults :: "dict \<Rightarrow> dict \<Rightarrow> dict" where
  "with_defaults defaults d = fold (\<lambda>(k, v). dsetdefault k v) defaults d"

text \<open>\<open>_state_method_metric\<close> and the update of the metric it returns, in place.\<close>

definition complete_metric :: "py \<Rightarrow> dict" where
  "complete_metric raw =
     (let d = with_defaults method_metric (case raw of PDict d \<Rightarrow> d | _ \<Rightarrow> method_metric);
          buckets = (case dgetn d ''latency_buckets'' of PDict b \<Rightarrow> b | _ \<Rightarrow> [])
      in dset ''latency_buckets'' (PDict (with_defaults empty_buckets buckets)) d)"

definition update_method_metric :: "string \<Rightarrow> (dict \<Rightarrow> dict res) \<Rightarrow> dict \<Rightarrow> dict res" where
  "update_method_metric m change state =
     (let state = dsetdefault ''method_metrics'' (PDict []) state in
      bindE (as_dict (dgetn state ''method_metrics'')) (\<lambda>metrics.
      bindE (change (complete_metric (dgetn metrics (metric_method m)))) (\<lambda>metric.
        Inr (dset ''method_metrics'' (PDict (dset (metric_method m) (PDict metric) metrics)) state))))"

text \<open>\<open>d[k] = int(d.get(k, 0) or 0) + 1\<close>.\<close>

definition increment :: "string \<Rightarrow> dict \<Rightarrow> dict res" where
  "increment k d = bindE (int_field d k 0) (\<lambda>n. Inr (dset k (PInt (n + 1)) d))"

definition record_latency :: "f64 \<Rightarrow> dict \<Rightarrow> dict res" where
  "record_latency latency_ms metric =
     (let value = f64_max (Fin 0) latency_ms in
      bindE (increment ''latency_sample_count'' metric) (\<lambda>metric.
      bindE (float_field metric ''latency_sum_ms'' (PFloat (Fin 0))) (\<lambda>total.
      let metric = dset ''latency_sum_ms'' (PFloat (f64_round (f64_add total value) 3)) metric in
      bindE (float_field metric ''latency_max_ms'' (PFloat (Fin 0))) (\<lambda>top.
      let metric = dset ''latency_max_ms'' (PFloat (f64_round (f64_max top value) 3)) metric;
          bucket = (if f64_le value (Fin 250) then ''le_250_ms''
                    else if f64_le value (Fin 1000) then ''le_1000_ms''
                    else if f64_le value (Fin 5000) then ''le_5000_ms'' else ''gt_5000_ms'')
      in bindE (as_dict (dget_or metric ''latency_buckets'' (PDict []))) (\<lambda>buckets.
         bindE (increment bucket buckets) (\<lambda>buckets.
           Inr (dset ''latency_buckets'' (PDict buckets) metric)))))))"

subsection \<open>Migration\<close>

definition scoped_availability :: "dict \<Rightarrow> string \<Rightarrow> dict" where
  "scoped_availability raw m =
     (let source = (case dgetn raw m of PDict d \<Rightarrow> d | _ \<Rightarrow> [])
      in map (\<lambda>(k, v). (k, dget_or source k v)) empty_availability_state)"

definition bounded_availability :: "dict \<Rightarrow> dict" where
  "bounded_availability state =
     (let raw = (case dgetn state ''method_availability'' of PDict d \<Rightarrow> d | _ \<Rightarrow> [])
      in map (\<lambda>m. (m, PDict (scoped_availability raw m))) HEAVY_RPC_METHODS)"

definition circuit_of :: "dict \<Rightarrow> string" where
  "circuit_of availability = upper (str_field availability ''circuit_state'' (PStr ''CLOSED''))"

text \<open>The reset of the provider's own availability.\<close>

definition close_circuit :: "dict \<Rightarrow> dict" where
  "close_circuit d =
     dset ''half_open_lease_until_epoch'' (PFloat (Fin 0))
       (dset ''circuit_state'' (PStr ''CLOSED'')
         (dset ''cooldown_until_epoch'' (PFloat (Fin 0)) d))"

text \<open>Before schema 5 a rate limit of a heavy method closed the whole provider.\<close>

definition scope_old_failure :: "dict \<Rightarrow> dict \<Rightarrow> (dict \<times> dict) res" where
  "scope_old_failure state availability =
     (let circuit = circuit_of state;
          opened = (circuit = ''OPEN'' \<or> circuit = ''HALF_OPEN'');
          trigger = (if opened then dgetn state ''last_circuit_open_method''
                     else dgetn state ''last_failure_method'')
      in bindE (in_string_set trigger HEAVY_RPC_METHODS) (\<lambda>heavy.
      bindE (if heavy then in_string_set (dgetn state ''last_failure_category'')
               [''RATE_LIMIT'', ''RPC_TRANSIENT''] else Inr False) (\<lambda>limited.
      if limited \<and> (opened \<or> f64_lt (Fin 0) (safe_epoch (dgetn state ''cooldown_until_epoch'')))
      then (let m = py_str trigger;
                scoped = (case dgetn availability m of PDict d \<Rightarrow> d | _ \<Rightarrow> []);
                scoped = map (\<lambda>(k, v). (k, dget_or state k v)) scoped;
                state = close_circuit (dset ''consecutive_failures'' (PInt 0) state)
            in Inr (state, dset m (PDict scoped) availability))
      else Inr (state, availability))))"

definition migrate_metrics :: "py \<Rightarrow> py" where
  "migrate_metrics metrics = (case metrics of
     PDict d \<Rightarrow> PDict (map (\<lambda>(k, v). (k, PDict (complete_metric v)))
        (filter (\<lambda>(k, v). k \<in> set RPC_METHOD_METRIC_NAMES) d))
   | _ \<Rightarrow> PDict [])"

definition migrate_provider_state :: "string \<Rightarrow> dict \<Rightarrow> dict res" where
  "migrate_provider_state name state =
     bindE (int_field state ''schema_version'' 0) (\<lambda>previous_schema.
     let state = dpop ''method_last_request_at_epoch'' state;
         state = with_defaults (empty_provider_state name) state;
         state = dset ''provider'' (PStr name) state;
         availability = bounded_availability state
     in bindE (if previous_schema < 5 then scope_old_failure state availability
               else Inr (state, availability)) (\<lambda>(state, availability).
        let state = dset ''method_availability'' (PDict availability) state;
            state = dset ''schema_version'' (PInt RPC_PROVIDER_STATE_SCHEMA_VERSION) state
        in Inr (dset ''method_metrics'' (migrate_metrics (dgetn state ''method_metrics'')) state)))"

section \<open>Availability\<close>

definition availability_block_reason :: "dict \<Rightarrow> f64 \<Rightarrow> string option" where
  "availability_block_reason availability now =
     (let circuit = circuit_of availability;
          cooldown_until = safe_epoch (dgetn availability ''cooldown_until_epoch'');
          lease_until = safe_epoch (dgetn availability ''half_open_lease_until_epoch'')
      in if circuit = ''OPEN'' \<and> f64_lt now cooldown_until then Some ''circuit_open_cooldown''
         else if circuit = ''HALF_OPEN'' \<and> f64_lt now lease_until then Some ''half_open_lease''
         else if circuit = ''CLOSED'' \<and> f64_lt now cooldown_until then Some ''cooldown''
         else None)"

definition activate_half_open_probe :: "f64 \<Rightarrow> dict \<Rightarrow> bool \<times> dict" where
  "activate_half_open_probe now availability =
     (let circuit = circuit_of availability in
      if circuit = ''OPEN'' \<or> circuit = ''HALF_OPEN''
      then (True, dset ''half_open_lease_until_epoch'' (PFloat (f64_add now RPC_HALF_OPEN_LEASE_SECONDS))
              (dset ''circuit_state'' (PStr ''HALF_OPEN'') availability))
      else (False, availability))"

text \<open>The availability of a heavy method in the provider's state (absent for other methods).\<close>

definition method_availability_state :: "dict \<Rightarrow> string \<Rightarrow> dict option res" where
  "method_availability_state state m =
     (if m \<notin> set HEAVY_RPC_METHODS then Inr None
      else bindE (bindE (dindex state ''method_availability'') as_dict) (\<lambda>availability.
           bindE (bindE (dindex availability m) as_dict) (\<lambda>d. Inr (Some d))))"

definition set_method_availability :: "string \<Rightarrow> dict \<Rightarrow> dict \<Rightarrow> dict" where
  "set_method_availability m d state = (case dgetn state ''method_availability'' of
     PDict availability \<Rightarrow> dset ''method_availability'' (PDict (dset m (PDict d) availability)) state
   | _ \<Rightarrow> state)"

section \<open>Pacing attribution\<close>

definition pacing_interval_bucket_of :: "f64 option \<Rightarrow> string" where
  "pacing_interval_bucket_of interval = (case interval of
     None \<Rightarrow> ''no_previous''
   | Some x \<Rightarrow> (if f64_lt x (Fin 0) then ''no_previous''
       else let ms = f64_mul x (Fin 1000) in
         if f64_lt ms (Fin 100) then ''lt_100_ms''
         else if f64_lt ms (Fin 250) then ''100_249_ms''
         else if f64_lt ms (Fin 500) then ''250_499_ms''
         else if f64_lt ms (Fin 1000) then ''500_999_ms''
         else if f64_le ms (Fin 2000) then ''1_2_s'' else ''gt_2_s''))"

definition pacing_burst_bucket :: "int \<Rightarrow> string" where
  "pacing_burst_bucket request_count =
     (let n = max 1 request_count in
      if n = 1 then ''1'' else if n = 2 then ''2'' else if n \<le> 4 then ''3_4''
      else if n \<le> 8 then ''5_8'' else if n \<le> 16 then ''9_16'' else ''gt_16'')"

text \<open>
  The times of the latest public \<open>getTransaction\<close> requests of the process, oldest first, and
  the attribution of a new one.
\<close>

definition push_pacing_time :: "f64 \<Rightarrow> f64 list \<Rightarrow> f64 list" where
  "push_pacing_time now ts =
     (let ts = (if ts \<noteq> [] \<and> f64_lt now (last ts) then [] else ts);
          ts = dropWhile (\<lambda>t. f64_lt t (f64_sub now (Fin 10))) ts
      in take_last RPC_PACING_HISTORY_LIMIT (ts @ [now]))"

definition burst_of :: "string \<Rightarrow> rat \<Rightarrow> f64 \<Rightarrow> f64 list \<Rightarrow> string \<times> string" where
  "burst_of label window now ts =
     (label, pacing_burst_bucket (int (length (filter (\<lambda>t. f64_le (f64_sub now (Fin window)) t) ts))))"

definition physical_pacing_attribution ::
  "rpc_provider \<Rightarrow> string \<Rightarrow> f64 \<Rightarrow> f64 list \<Rightarrow> (string option \<times> (string \<times> string) list) \<times> f64 list" where
  "physical_pacing_attribution p m now ts =
     (if provider_name p \<noteq> ''solana_public'' \<or> m \<noteq> ''getTransaction'' then ((None, []), ts)
      else let kept = (if ts \<noteq> [] \<and> f64_lt now (last ts) then [] else ts);
               interval = (if kept = [] then None else Some (f64_sub now (last kept)));
               ts = push_pacing_time now ts
           in ((Some (pacing_interval_bucket_of interval),
                [burst_of ''1s'' 1 now ts, burst_of ''5s'' 5 now ts, burst_of ''10s'' 10 now ts]),
               ts))"

section \<open>Reservation of a request slot\<close>

record provider_reservation =
  half_open_probe :: bool
  method_half_open_probe :: bool
  pacing_request_epoch :: "f64 option"
  pacing_interval_bucket :: "string option"
  pacing_burst_buckets :: "(string \<times> string) list"

record provider_failure =
  failed_provider :: string
  transient :: bool
  rate_limited :: bool
  retry_delay_seconds :: f64
  retry_source :: string
  category :: string

definition read_provider_state :: "string \<Rightarrow> state_file \<Rightarrow> dict res" where
  "read_provider_state name f =
     bindE (read_json (name @ ''.json'') f (empty_provider_state name)) (migrate_provider_state name)"

text \<open>
  What the reservation decides on the migrated state: the reason it is refused, or the probe
  flags and the state with the half-open leases taken.
\<close>

definition admit_request :: "string \<Rightarrow> f64 \<Rightarrow> dict \<Rightarrow> (string + bool \<times> bool \<times> dict) res" where
  "admit_request m now state = (case availability_block_reason state now of
     Some r \<Rightarrow> Inr (Inl r)
   | None \<Rightarrow> bindE (method_availability_state state m) (\<lambda>method_state.
       case (case method_state of None \<Rightarrow> None | Some d \<Rightarrow> availability_block_reason d now) of
         Some r \<Rightarrow> Inr (Inl r)
       | None \<Rightarrow>
           (let (probe, state) = activate_half_open_probe now state in
            case method_state of
              None \<Rightarrow> Inr (Inr (probe, False, state))
            | Some d \<Rightarrow> (let (mprobe, d) = activate_half_open_probe now d
                        in Inr (Inr (probe, mprobe, set_method_availability m d state))))))"

text \<open>The state after a request was started at \<open>now\<close>.\<close>

definition start_request :: "rpc_provider \<Rightarrow> string \<Rightarrow> bool \<Rightarrow> bool \<Rightarrow> f64 \<Rightarrow> dict \<Rightarrow> dict res" where
  "start_request p m retry failover now state =
     (let state = dset ''schema_version'' (PInt RPC_PROVIDER_STATE_SCHEMA_VERSION) state;
          state = dset ''provider'' (PStr (provider_name p)) state;
          state = dset ''enabled'' (PBool True) state
      in bindE (increment ''request_count'' state) (\<lambda>state.
         bindE (update_method_metric m (\<lambda>metric.
            bindE (increment ''request_count'' metric) (\<lambda>metric.
            bindE (if retry then increment ''retry_count'' metric else Inr metric) (\<lambda>metric.
              if failover then increment ''failover_count'' metric else Inr metric))) state) (\<lambda>state.
           increment ''version'' (dset ''last_request_at_epoch'' (PFloat now) state))))"

text \<open>\<open>now\<close> is the clock under the lock, \<open>woke\<close> the clock after the wait for the pacing target.\<close>

text \<open>\<open>_state_path\<close>, and an operation under the lock of a provider's file: a name that is not configured raises first.\<close>

definition state_path :: "string \<Rightarrow> string res" where
  "state_path name = (if name \<in> fst ` set PROVIDER_ENVIRONMENTS then Inr name
     else Inl (ValueError ''unsupported RPC provider name''))"

definition provider_locked :: "string \<Rightarrow> bool \<Rightarrow> 'a res \<Rightarrow> 'a res" where
  "provider_locked name lk body = bindE (state_path name) (\<lambda>path. locked path lk body)"

definition reserve_provider_slot ::
  "rpc_provider \<Rightarrow> string \<Rightarrow> bool \<Rightarrow> bool \<Rightarrow> bool \<Rightarrow> f64 \<Rightarrow> f64 \<Rightarrow> state_file \<times> f64 list
     \<Rightarrow> (provider_reservation option \<times> string option) res \<times> state_file \<times> f64 list" where
  "reserve_provider_slot p m retry failover lk now woke = (\<lambda>(f, ts).
     (case provider_locked (provider_name p) lk (bindE (read_provider_state (provider_name p) f) (admit_request m now)) of
        Inl x \<Rightarrow> (Inl x, f, ts)
      | Inr (Inl reason) \<Rightarrow> (Inr (None, Some reason), f, ts)
      | Inr (Inr (probe, mprobe, state)) \<Rightarrow>
          (case minimum_interval_seconds p of
             Inl x \<Rightarrow> (Inl x, f, ts)
           | Inr interval \<Rightarrow>
               (let target = f64_max now (f64_add (safe_epoch (dgetn state ''last_request_at_epoch'')) interval);
                    start = (if f64_lt now target then woke else target);
                    ((bucket, bursts), ts') = physical_pacing_attribution p m start ts
                in case start_request p m retry failover start state of
                     Inl x \<Rightarrow> (Inl x, f, ts')
                   | Inr state \<Rightarrow>
                       (Inr (Some \<lparr>half_open_probe = probe, method_half_open_probe = mprobe,
                          pacing_request_epoch = map_option (\<lambda>_. start) bucket,
                          pacing_interval_bucket = bucket, pacing_burst_buckets = bursts\<rparr>, None),
                        Content (PDict state), ts')))))"

section \<open>Bookkeeping of the outcome\<close>

definition provider_update :: "string \<Rightarrow> bool \<Rightarrow> (dict \<Rightarrow> dict res) \<Rightarrow> state_file \<Rightarrow> unit res \<times> state_file" where
  "provider_update name lk change f =
     (case provider_locked name lk (bindE (read_provider_state name f) (\<lambda>state.
         bindE (change state) (increment ''version''))) of
        Inl x \<Rightarrow> (Inl x, f) | Inr state \<Rightarrow> (Inr (), Content (PDict state)))"

definition succeeded :: "f64 \<Rightarrow> dict \<Rightarrow> dict" where
  "succeeded now d = close_circuit (dset ''last_failure_category'' PNone
     (dset ''last_success_at_epoch'' (PFloat now) (dset ''consecutive_failures'' (PInt 0) d)))"

definition success_change :: "string \<Rightarrow> f64 \<Rightarrow> f64 \<Rightarrow> dict \<Rightarrow> dict res" where
  "success_change m latency_ms now state =
     bindE (increment ''success_count'' state) (\<lambda>state.
     bindE (update_method_metric m (\<lambda>metric.
        bindE (increment ''success_count'' metric) (record_latency latency_ms)) state) (\<lambda>state.
     let state = succeeded now state in
     bindE (method_availability_state state m) (\<lambda>ms. case ms of
       None \<Rightarrow> Inr state
     | Some d \<Rightarrow> Inr (set_method_availability m (succeeded now d) state))))"

definition record_provider_success ::
  "rpc_provider \<Rightarrow> string \<Rightarrow> f64 \<Rightarrow> bool \<Rightarrow> f64 \<Rightarrow> state_file \<Rightarrow> unit res \<times> state_file" where
  "record_provider_success p m latency_ms lk now =
     provider_update (provider_name p) lk (success_change m latency_ms now)"

definition failure_uses_method_availability :: "string \<Rightarrow> provider_failure \<Rightarrow> bool" where
  "failure_uses_method_availability m x \<longleftrightarrow>
     m \<in> set HEAVY_RPC_METHODS \<and> (rate_limited x \<or> category x = ''RPC_TRANSIENT'')"

text \<open>The failure fields that the provider's state and an availability share.\<close>

definition note_failure :: "string \<Rightarrow> provider_failure \<Rightarrow> f64 \<Rightarrow> dict \<Rightarrow> dict" where
  "note_failure m x now d =
     (let d = dset ''last_failure_at_epoch'' (PFloat now) d;
          d = dset ''last_failure_category'' (PStr (category x)) d;
          d = dset ''last_failure_method'' (PStr (metric_method m)) d
      in if rate_limited x
         then dset ''last_rate_limit_method'' (PStr (metric_method m))
                (dset ''last_rate_limit_at_epoch'' (PFloat now) d)
         else d)"

definition note_opening :: "string \<Rightarrow> f64 \<Rightarrow> dict \<Rightarrow> dict res" where
  "note_opening m now d = bindE (increment ''circuit_open_count'' d) (\<lambda>d.
     Inr (dset ''last_circuit_open_method'' (PStr (metric_method m))
           (dset ''last_circuit_open_at_epoch'' (PFloat now) d)))"

text \<open>The circuit of an availability after a failure; whether it opened newly.\<close>

definition trip_circuit ::
  "string \<Rightarrow> provider_failure \<Rightarrow> bool \<Rightarrow> f64 \<Rightarrow> dict \<Rightarrow> (bool \<times> dict) res" where
  "trip_circuit m x probe now d =
     (let prior = circuit_of d; d = note_failure m x now d in
      if \<not> transient x
      then Inr (False, dset ''cooldown_until_epoch'' (PFloat (Fin 0))
             (dset ''circuit_state'' (PStr ''CLOSED'') (dset ''consecutive_failures'' (PInt 0) d)))
      else bindE (int_field d ''consecutive_failures'' 0) (\<lambda>n.
        let consecutive = n + 1;
            d = dset ''consecutive_failures'' (PInt consecutive) d;
            retry_at = f64_add now (f64_max (Fin 0) (retry_delay_seconds x));
            cooldown = f64_max (safe_epoch (dgetn d ''cooldown_until_epoch'')) retry_at;
            d = dset ''cooldown_until_epoch'' (PFloat cooldown) d
        in if probe \<or> RPC_CIRCUIT_FAILURE_THRESHOLD \<le> consecutive
           then let d = dset ''circuit_state'' (PStr ''OPEN'') d in
             bindE (if prior \<noteq> ''OPEN'' then note_opening m now d else Inr d) (\<lambda>d.
               Inr (prior \<noteq> ''OPEN'', dset ''cooldown_until_epoch''
                 (PFloat (f64_max cooldown (f64_add now RPC_CIRCUIT_COOLDOWN_SECONDS))) d))
           else Inr (False, dset ''circuit_state'' (PStr ''CLOSED'') d)))"

definition release_lease :: "dict \<Rightarrow> dict" where
  "release_lease = dset ''half_open_lease_until_epoch'' (PFloat (Fin 0))"

definition failure_change ::
  "string \<Rightarrow> f64 \<Rightarrow> provider_reservation \<Rightarrow> provider_failure \<Rightarrow> f64 \<Rightarrow> dict \<Rightarrow> dict res" where
  "failure_change m latency_ms r x now state =
     bindE (increment ''failure_count'' state) (\<lambda>state.
     bindE (update_method_metric m (\<lambda>metric.
        bindE (increment ''failure_count'' metric) (\<lambda>metric.
        bindE (record_latency latency_ms metric) (\<lambda>metric.
          if rate_limited x then increment ''rate_limit_count'' metric else Inr metric))) state) (\<lambda>state.
     bindE (if rate_limited x then increment ''rate_limit_count'' state else Inr state) (\<lambda>state.
     let state = note_failure m x now state in
     if failure_uses_method_availability m x
     then bindE (method_availability_state state m) (\<lambda>ms. case ms of
         None \<Rightarrow> Inl (RuntimeError ''missing method availability state'')
       | Some d \<Rightarrow> bindE (trip_circuit m x (method_half_open_probe r) now d) (\<lambda>(opened, d).
           bindE (if opened then note_opening m now state else Inr state) (\<lambda>state.
             Inr (close_circuit (dset ''consecutive_failures'' (PInt 0)
               (set_method_availability m (release_lease d) state))))))
     else bindE (trip_circuit m x (half_open_probe r) now state) (\<lambda>(_, state).
       let state = release_lease state in
       if method_half_open_probe r
       then bindE (method_availability_state state m) (\<lambda>ms. case ms of
           None \<Rightarrow> Inr state
         | Some d \<Rightarrow> Inr (set_method_availability m (release_lease d) state))
       else Inr state))))"

definition record_provider_failure ::
  "rpc_provider \<Rightarrow> provider_reservation \<Rightarrow> provider_failure \<Rightarrow> string \<Rightarrow> f64 \<Rightarrow> bool \<Rightarrow> f64
     \<Rightarrow> state_file \<Rightarrow> unit res \<times> state_file" where
  "record_provider_failure p r x m latency_ms lk now =
     provider_update (provider_name p) lk (failure_change m latency_ms r x now)"

definition record_provider_exhaustion ::
  "string \<Rightarrow> string \<Rightarrow> bool \<Rightarrow> state_file \<Rightarrow> unit res \<times> state_file" where
  "record_provider_exhaustion name m lk =
     provider_update name lk (update_method_metric m (increment ''exhaustion_count''))"

definition provider_state ::
  "string \<Rightarrow> rpc_provider list \<Rightarrow> bool \<Rightarrow> state_file \<Rightarrow> dict res" where
  "provider_state name configured lk f =
     bindE (provider_locked name lk (read_provider_state name f)) (\<lambda>state.
        let state = dset ''enabled'' (PBool (name \<in> provider_name ` set configured)) state in
        bindE (int_field state ''success_count'' 0) (\<lambda>ok.
        bindE (int_field state ''failure_count'' 0) (\<lambda>bad.
        let completed = ok + bad in
        bindE (if completed = 0 then Inr PNone
               else bindE (int_truediv ok completed) (\<lambda>q. Inr (PFloat (f64_round (f64_mul q (Fin 100)) 4))))
          (\<lambda>rate. Inr (dset ''success_rate_percent'' rate state)))))"

section \<open>One request\<close>

definition error_code :: "dict \<Rightarrow> int" where
  "error_code e = (case py_int (dgetn e ''code'') of Inr n \<Rightarrow> n | Inl _ \<Rightarrow> 0)"

definition payload_rate_limited :: "py \<Rightarrow> bool" where
  "payload_rate_limited err = (case err of
     PDict e \<Rightarrow> (let message = upper (str_field e ''message'' (PStr [])) in
       error_code e \<in> set RPC_RATE_LIMIT_ERROR_CODES \<or> contains message ''RATE LIMIT''
         \<or> contains message ''TOO MANY REQUEST'')
   | _ \<Rightarrow> False)"

definition payload_transient :: "py \<Rightarrow> bool" where
  "payload_transient err = (case err of
     PDict e \<Rightarrow> (let message = upper (str_field e ''message'' (PStr [])) in
       error_code e \<in> set RPC_TRANSIENT_ERROR_CODES \<or> contains message ''TEMPORAR''
         \<or> contains message ''UNAVAILABLE'' \<or> contains message ''TIMEOUT'')
   | _ \<Rightarrow> False)"

text \<open>What the HTTP client gives for a request.\<close>

datatype rpc_answer =
    Answer int headers py
  | TimedOut
  | ConnectionFailed
  | ClientFailed
  | Raised exc

text \<open>\<open>_ProviderRequestError\<close>; any other exception leaves the call.\<close>

record request_error =
  err_transient :: bool
  err_rate_limited :: bool
  err_headers :: headers
  err_category :: string

definition no_headers :: headers where "no_headers = (\<lambda>_. None)"

definition request_failure :: "bool \<Rightarrow> bool \<Rightarrow> headers \<Rightarrow> string \<Rightarrow> request_error" where
  "request_failure t l hs c = \<lparr>err_transient = t, err_rate_limited = l, err_headers = hs, err_category = c\<rparr>"

datatype request_result = Result py | Failed request_error | Uncaught exc

definition provider_request_once :: "rpc_answer \<Rightarrow> request_result" where
  "provider_request_once answer = (case answer of
     TimedOut \<Rightarrow> Failed (request_failure True False no_headers ''TIMEOUT'')
   | ConnectionFailed \<Rightarrow> Failed (request_failure True False no_headers ''CONNECTION'')
   | ClientFailed \<Rightarrow> Failed (request_failure True False no_headers ''TRANSPORT'')
   | Raised x \<Rightarrow> Uncaught x
   | Answer status hs payload \<Rightarrow>
       (if status \<in> set RPC_RETRYABLE_HTTP_STATUSES
        then Failed (request_failure True (status = 429) hs
               (if status = 429 then ''RATE_LIMIT'' else ''HTTP_TRANSIENT''))
        else if 400 \<le> status then Failed (request_failure False False no_headers ''HTTP_TERMINAL'')
        else (case payload of
          PDict d \<Rightarrow> (let err = dgetn d ''error'' in
            if payload_rate_limited err then Failed (request_failure True True hs ''RATE_LIMIT'')
            else if truthy err
              then Failed (request_failure (payload_transient err) False hs
                     (if payload_transient err then ''RPC_TRANSIENT'' else ''RPC_TERMINAL''))
            else Result (dgetn d ''result''))
        | _ \<Rightarrow> Failed (request_failure False False no_headers ''MALFORMED_RESPONSE''))))"

definition failure_from_error ::
  "(string \<Rightarrow> f64 option) \<Rightarrow> rpc_provider \<Rightarrow> request_error \<Rightarrow> nat \<Rightarrow> f64 \<Rightarrow> f64 \<Rightarrow> provider_failure" where
  "failure_from_error http_date p err attempt_index now sample =
     (let (delay, source) =
        (if err_transient err
         then let (base, source) = helius_backoff_seconds http_date (err_headers err) attempt_index now
              in (jittered_backoff_seconds base source sample, source)
         else (Fin 0, ''terminal''))
      in \<lparr>failed_provider = provider_name p, transient = err_transient err,
          rate_limited = err_rate_limited err, retry_delay_seconds = delay, retry_source = source,
          category = err_category err\<rparr>)"

section \<open>The call\<close>

datatype rpc_error =
    SolanaRpcConfigurationError
  | SolanaRpcRateLimitExhaustedError string nat "string option" "string option"
  | SolanaRpcExhaustedError nat "string option" "string option"
  | OtherError exc

definition canonical_reason :: "rpc_error \<Rightarrow> string option" where
  "canonical_reason e = (case e of
     SolanaRpcConfigurationError \<Rightarrow> Some ''RPC_NO_PROVIDER_CONFIGURED''
   | SolanaRpcRateLimitExhaustedError m _ _ _ \<Rightarrow> Some (case map_of METHOD_RATE_LIMIT_REASONS m of
       Some r \<Rightarrow> r | None \<Rightarrow> ''RPC_RATE_LIMIT_EXHAUSTED'')
   | SolanaRpcExhaustedError _ _ _ \<Rightarrow> Some ''RPC_ALL_PROVIDERS_EXHAUSTED''
   | OtherError _ \<Rightarrow> None)"

definition canonical_rpc_failure_reason :: "rpc_error \<Rightarrow> string option" where
  "canonical_rpc_failure_reason e = (case canonical_reason e of
     Some r \<Rightarrow> (if r \<in> set RPC_FAILURE_REASONS then Some r else None) | None \<Rightarrow> None)"

text \<open>
  What the call meets at its \<open>k\<close>-th reservation (counted over the whole call): locks, clock
  readings, the answer if a request is made, its latency and the jitter sample.
\<close>

record rpc_event =
  reserve_lock :: bool
  outcome_lock :: bool
  reserve_now :: f64
  woke_at :: f64
  answer :: rpc_answer
  latency :: f64
  backoff_now :: f64
  outcome_now :: f64
  sample :: f64

record rpc_state =
  provider_files :: "string \<Rightarrow> state_file"
  pacing_times :: "f64 list"
  reservations :: nat
  attempts_used :: nat
  failures :: "provider_failure list"
  requested :: "string list"
  slept :: "f64 list"
  skip_reasons :: "string list"

datatype rpc_flow = Answered py | Aborted exc | NextProvider

definition set_file :: "string \<Rightarrow> state_file \<Rightarrow> rpc_state \<Rightarrow> rpc_state" where
  "set_file name f s = s\<lparr>provider_files := (provider_files s)(name := f)\<rparr>"

text \<open>Whether the loop goes on to another attempt at the same provider after a failure.\<close>

definition retry_locally :: "provider_failure \<Rightarrow> bool \<Rightarrow> nat \<Rightarrow> nat \<Rightarrow> bool" where
  "retry_locally x last_local budget_left providers_left \<longleftrightarrow>
     \<not> rate_limited x \<and> transient x \<and> \<not> last_local \<and> providers_left < budget_left
     \<and> \<not> f64_lt RPC_MAX_INLINE_BACKOFF_SECONDS (retry_delay_seconds x)"

text \<open>
  One attempt at a provider: reservation, request, bookkeeping.  \<open>i\<close> attempts were made at it
  before, \<open>budget\<close> is the budget of the call and \<open>after\<close> the number of providers after it.
  \<open>None\<close> is another attempt at the same provider.
\<close>

definition attempt_provider ::
  "(string \<Rightarrow> f64 option) \<Rightarrow> rpc_event \<Rightarrow> string \<Rightarrow> nat \<Rightarrow> bool \<Rightarrow> nat \<Rightarrow> rpc_provider \<Rightarrow> nat
     \<Rightarrow> bool \<Rightarrow> rpc_state \<Rightarrow> rpc_flow option \<times> rpc_state" where
  "attempt_provider http_date e m budget failover after p i last_local s =
     (let name = provider_name p;
          (r, f, ts) = reserve_provider_slot p m (0 < i) failover (reserve_lock e) (reserve_now e)
             (woke_at e) (provider_files s name, pacing_times s);
          s = (set_file name f s)\<lparr>pacing_times := ts, reservations := Suc (reservations s)\<rparr>
      in case r of
        Inl x \<Rightarrow> (Some (Aborted x), s)
      | Inr (None, reason) \<Rightarrow>
          (Some NextProvider, s\<lparr>skip_reasons := skip_reasons s @ (case reason of Some t \<Rightarrow> [t] | None \<Rightarrow> [])\<rparr>)
      | Inr (Some rs, _) \<Rightarrow>
          (let s = s\<lparr>attempts_used := Suc (attempts_used s), requested := requested s @ [name]\<rparr>
           in case provider_request_once (answer e) of
             Uncaught x \<Rightarrow> (Some (Aborted x), s)
           | Result v \<Rightarrow>
               (let (r, f) = record_provider_success p m (latency e) (outcome_lock e) (outcome_now e)
                      (provider_files s name)
                in (Some (case r of Inl x \<Rightarrow> Aborted x | Inr _ \<Rightarrow> Answered v), set_file name f s))
           | Failed err \<Rightarrow>
               (let x = failure_from_error http_date p err i (backoff_now e) (sample e);
                    s = s\<lparr>failures := failures s @ [x]\<rparr>;
                    (r, f) = record_provider_failure p rs x m (latency e) (outcome_lock e) (outcome_now e)
                      (provider_files s name);
                    s = set_file name f s
                in case r of
                  Inl y \<Rightarrow> (Some (Aborted y), s)
                | Inr _ \<Rightarrow>
                    (if retry_locally x last_local (budget - attempts_used s) after
                     then (None, s\<lparr>slept := slept s @ [retry_delay_seconds x]\<rparr>)
                     else (Some NextProvider, s)))))"

text \<open>The attempts at one provider, at most \<open>n\<close> more.\<close>

fun provider_attempts ::
  "(string \<Rightarrow> f64 option) \<Rightarrow> (nat \<Rightarrow> rpc_event) \<Rightarrow> string \<Rightarrow> nat \<Rightarrow> bool \<Rightarrow> nat \<Rightarrow> rpc_provider \<Rightarrow> nat
     \<Rightarrow> nat \<Rightarrow> rpc_state \<Rightarrow> rpc_flow \<times> rpc_state" where
  "provider_attempts http_date ev m budget failover after p i 0 s = (NextProvider, s)"
| "provider_attempts http_date ev m budget failover after p i (Suc n) s =
     (if budget \<le> attempts_used s then (NextProvider, s)
      else case attempt_provider http_date (ev (reservations s)) m budget failover after p i (n = 0) s of
        (Some flow, s) \<Rightarrow> (flow, s)
      | (None, s) \<Rightarrow> provider_attempts http_date ev m budget failover after p (Suc i) n s)"

fun try_providers ::
  "(string \<Rightarrow> f64 option) \<Rightarrow> (nat \<Rightarrow> rpc_event) \<Rightarrow> string \<Rightarrow> nat \<Rightarrow> nat \<Rightarrow> bool \<Rightarrow> rpc_provider list
     \<Rightarrow> rpc_state \<Rightarrow> rpc_flow \<times> rpc_state" where
  "try_providers http_date ev m budget local failover [] s = (NextProvider, s)"
| "try_providers http_date ev m budget local failover (p # ps) s =
     (case provider_attempts http_date ev m budget failover (length ps) p 0 local s of
        (NextProvider, s) \<Rightarrow>
          (if budget \<le> attempts_used s then (NextProvider, s)
           else try_providers http_date ev m budget local True ps s)
      | r \<Rightarrow> r)"

text \<open>What is raised when no provider answered.\<close>

definition exhausted :: "string \<Rightarrow> rpc_state \<Rightarrow> rpc_error" where
  "exhausted m s =
     (let provider = (if requested s = [] then None else Some (last (requested s)));
          cat = (if failures s = [] then None else Some (category (last (failures s))))
      in if failures s \<noteq> [] \<and> list_all rate_limited (failures s)
         then SolanaRpcRateLimitExhaustedError m (attempts_used s) provider cat
         else SolanaRpcExhaustedError (attempts_used s) provider cat)"

text \<open>The values of the two budget settings are given as the caller or the environment has them.\<close>

definition solana_rpc_call ::
  "(string \<Rightarrow> f64 option) \<Rightarrow> (nat \<Rightarrow> rpc_event) \<Rightarrow> bool \<Rightarrow> string \<Rightarrow> string \<Rightarrow> rpc_provider list \<Rightarrow> py \<Rightarrow> py
     \<Rightarrow> (string \<Rightarrow> state_file) \<Rightarrow> f64 list \<Rightarrow> (rpc_error + py) \<times> rpc_state" where
  "solana_rpc_call http_date ev exhaustion_lock m workload configured overall_budget local_budget files ts =
     (let s0 = \<lparr>provider_files = files, pacing_times = ts, reservations = 0, attempts_used = 0,
               failures = [], requested = [], slept = [], skip_reasons = []\<rparr>;
          ordered = ordered_providers configured m workload
      in if ordered = [] then (Inl SolanaRpcConfigurationError, s0)
         else case positive_int ''SOLANA_RPC_OVERALL_ATTEMPT_BUDGET'' 20 overall_budget of
           Inl x \<Rightarrow> (Inl (OtherError x), s0)
         | Inr budget \<Rightarrow> (case positive_int ''SOLANA_RPC_PROVIDER_ATTEMPTS'' 3 local_budget of
             Inl x \<Rightarrow> (Inl (OtherError x), s0)
           | Inr local \<Rightarrow>
               (case try_providers http_date ev m (nat budget) (nat local) False ordered s0 of
                  (Answered v, s) \<Rightarrow> (Inr v, s)
                | (Aborted x, s) \<Rightarrow> (Inl (OtherError x), s)
                | (NextProvider, s) \<Rightarrow>
                    (if requested s = [] then (Inl (exhausted m s), s)
                     else let name = last (requested s) in
                       case record_provider_exhaustion name m exhaustion_lock
                              (provider_files s name) of
                         (Inl x, f) \<Rightarrow> (Inl (OtherError x), set_file name f s)
                       | (Inr _, f) \<Rightarrow> (Inl (exhausted m s), set_file name f s)))))"

end
