(* ===== verification/RpcCircuit.thy ===== *)
theory RpcCircuit
  imports SolanaRpc
begin

text \<open>
  The circuit breaker of a provider across the operations on its state file: the state files the
  router writes are well-formed and no operation on one of them raises, a tripped circuit
  refuses requests for its cooldown, a half-open circuit admits one probe, a failure that
  concerns one method leaves the provider usable for the others, and a success closes the
  circuit.
\<close>

section \<open>The circuit breaker, abstractly\<close>

text \<open>
  What an availability says about admission: the circuit, the end of the cooldown and of the
  half-open lease, and the failures counted in a row.
\<close>

record breaker =
  circuit :: string
  cooldown :: f64
  lease :: f64
  fails :: int

definition breaker_of :: "dict \<Rightarrow> breaker" where
  "breaker_of d = \<lparr>circuit = circuit_of d, cooldown = safe_epoch (dgetn d ''cooldown_until_epoch''),
     lease = safe_epoch (dgetn d ''half_open_lease_until_epoch''),
     fails = (case dgetn d ''consecutive_failures'' of PInt n \<Rightarrow> n | _ \<Rightarrow> 0)\<rparr>"

definition method_breaker :: "string \<Rightarrow> dict \<Rightarrow> breaker option" where
  "method_breaker m d = (case dgetn d ''method_availability'' of
     PDict a \<Rightarrow> (case dgetn a m of PDict ad \<Rightarrow> Some (breaker_of ad) | _ \<Rightarrow> None) | _ \<Rightarrow> None)"

definition breaker_fields :: "string list" where
  "breaker_fields = [''circuit_state'', ''cooldown_until_epoch'', ''half_open_lease_until_epoch'',
     ''consecutive_failures'', ''circuit_open_count'']"

section \<open>Well-formed states\<close>

definition int_at :: "dict \<Rightarrow> string \<Rightarrow> bool" where
  "int_at d k \<longleftrightarrow> (\<exists>n. dget d k = Some (PInt n))"

definition float_at :: "dict \<Rightarrow> string \<Rightarrow> bool" where
  "float_at d k \<longleftrightarrow> (\<exists>x. dget d k = Some (PFloat x))"

text \<open>The fields that decide whether an availability blocks, and what its breaker counts.\<close>

definition wf_availability :: "dict \<Rightarrow> bool" where
  "wf_availability d \<longleftrightarrow> int_at d ''consecutive_failures'' \<and> int_at d ''circuit_open_count'' \<and>
     (\<exists>c \<in> {''CLOSED'', ''OPEN'', ''HALF_OPEN''}. dget d ''circuit_state'' = Some (PStr c)) \<and>
     float_at d ''cooldown_until_epoch'' \<and> float_at d ''half_open_lease_until_epoch''"

definition metric_counters :: "string list" where
  "metric_counters = [''request_count'', ''success_count'', ''failure_count'', ''rate_limit_count'',
     ''exhaustion_count'', ''retry_count'', ''failover_count'', ''latency_sample_count'']"

definition wf_metric :: "dict \<Rightarrow> bool" where
  "wf_metric d \<longleftrightarrow> (\<forall>k \<in> set metric_counters. int_at d k) \<and> float_at d ''latency_sum_ms'' \<and>
     float_at d ''latency_max_ms'' \<and>
     (\<exists>b. dget d ''latency_buckets'' = Some (PDict b) \<and> (\<forall>k \<in> fst ` set empty_buckets. int_at b k))"

definition state_counters :: "string list" where
  "state_counters = [''version'', ''request_count'', ''success_count'', ''failure_count'', ''rate_limit_count'']"

definition wf_provider_state :: "dict \<Rightarrow> bool" where
  "wf_provider_state d \<longleftrightarrow> dget d ''schema_version'' = Some (PInt RPC_PROVIDER_STATE_SCHEMA_VERSION) \<and>
     (\<forall>k \<in> set state_counters. int_at d k) \<and> float_at d ''last_request_at_epoch'' \<and>
     wf_availability d \<and>
     (\<exists>a. dget d ''method_availability'' = Some (PDict a) \<and>
        (\<forall>m \<in> set HEAVY_RPC_METHODS. \<exists>ad. dget a m = Some (PDict ad) \<and> wf_availability ad)) \<and>
     (\<exists>ms. dget d ''method_metrics'' = Some (PDict ms) \<and>
        (\<forall>k v. dget ms k = Some v \<longrightarrow> (\<exists>md. v = PDict md \<and> wf_metric md)))"

lemma int_at_dset [simp]:
  "int_at (dset k v d) k' \<longleftrightarrow> (if k' = k then (\<exists>n. v = PInt n) else int_at d k')"
  "float_at (dset k v d) k' \<longleftrightarrow> (if k' = k then (\<exists>n. v = PFloat n) else float_at d k')"
  by (auto simp: int_at_def float_at_def)

lemma wf_availability_dset:
  "k \<notin> {''consecutive_failures'', ''circuit_open_count'', ''circuit_state'', ''cooldown_until_epoch'',
      ''half_open_lease_until_epoch''} \<Longrightarrow> wf_availability (dset k v d) \<longleftrightarrow> wf_availability d"
  "wf_availability d \<Longrightarrow> wf_availability (dset ''consecutive_failures'' (PInt n) d)"
  "wf_availability d \<Longrightarrow> wf_availability (dset ''circuit_open_count'' (PInt n) d)"
  "wf_availability d \<Longrightarrow> c \<in> {''CLOSED'', ''OPEN'', ''HALF_OPEN''} \<Longrightarrow>
     wf_availability (dset ''circuit_state'' (PStr c) d)"
  "wf_availability d \<Longrightarrow> wf_availability (dset ''cooldown_until_epoch'' (PFloat x) d)"
  "wf_availability d \<Longrightarrow> wf_availability (dset ''half_open_lease_until_epoch'' (PFloat x) d)"
  by (auto simp: wf_availability_def)

definition reserved_keys :: "string set" where
  "reserved_keys = insert ''schema_version'' (insert ''last_request_at_epoch'' (insert ''method_availability''
     (insert ''method_metrics'' (set state_counters))))"

lemma keys_apart:
  "k \<in> set state_counters \<Longrightarrow> k \<notin> {''schema_version'', ''last_request_at_epoch'', ''method_availability'',
     ''method_metrics'', ''consecutive_failures'', ''circuit_open_count'', ''circuit_state'',
     ''cooldown_until_epoch'', ''half_open_lease_until_epoch''}"
  by (simp only: state_counters_def list.set) (elim insertE; simp)

lemma other_keys:
  "''last_request_at_epoch'' \<notin> set state_counters" "''method_availability'' \<notin> set state_counters"
  "''method_metrics'' \<notin> set state_counters" "''schema_version'' \<notin> set state_counters"
  by (simp_all add: state_counters_def)

lemma wf_provider_state_dset:
  "k \<notin> reserved_keys \<Longrightarrow> wf_availability (dset k v d) \<Longrightarrow> wf_provider_state d \<Longrightarrow> wf_provider_state (dset k v d)"
  by (auto simp: wf_provider_state_def reserved_keys_def)

lemma wf_provider_state_counter:
  "k \<in> set state_counters \<Longrightarrow> wf_provider_state d \<Longrightarrow> wf_provider_state (dset k (PInt n) d)"
  using keys_apart [of k] by (auto simp: wf_provider_state_def wf_availability_dset)

lemma wf_provider_state_request:
  "wf_provider_state d \<Longrightarrow> wf_provider_state (dset ''last_request_at_epoch'' (PFloat x) d)"
  "wf_provider_state d \<Longrightarrow> wf_provider_state (dset ''schema_version'' (PInt RPC_PROVIDER_STATE_SCHEMA_VERSION) d)"
  by (auto simp: wf_provider_state_def wf_availability_dset other_keys)

lemma wf_provider_stateD:
  assumes "wf_provider_state d"
  shows "dget d ''schema_version'' = Some (PInt RPC_PROVIDER_STATE_SCHEMA_VERSION)" "wf_availability d"
    and "k \<in> set state_counters \<Longrightarrow> int_at d k" "float_at d ''last_request_at_epoch''"
  using assms by (simp_all add: wf_provider_state_def)

lemma increment_total: "int_at d k \<Longrightarrow> \<exists>n. increment k d = Inr (dset k (PInt n) d)"
  by (auto simp: int_at_def increment_def)

subsection \<open>Metrics\<close>

lemma dget_with_defaults: "dget d k = Some v \<Longrightarrow> dget (with_defaults defaults d) k = Some v"
  unfolding with_defaults_def
  by (induction defaults arbitrary: d) (auto split: prod.splits)

lemma dget_with_default:
  "dget d k = None \<Longrightarrow> dget (with_defaults defaults d) k = dget defaults k"
proof (induction defaults arbitrary: d)
  case (Cons p ds)
  obtain k' v where p: "p = (k', v)" by (cases p)
  show ?case
  proof (cases "k' = k")
    case True
    then have "dget (dsetdefault k' v d) k = Some v" using Cons.prems by simp
    from dget_with_defaults [OF this, of ds] show ?thesis using True p by (simp add: with_defaults_def)
  next
    case False
    then show ?thesis using Cons p by (simp add: with_defaults_def)
  qed
qed (simp add: with_defaults_def)

lemma wf_metric_new: "wf_metric method_metric"
  by (simp add: wf_metric_def method_metric_def metric_counters_def int_at_def float_at_def empty_buckets_def)

lemma wf_metric_completed:
  assumes "wf_metric d"
  shows "wf_metric (complete_metric (PDict d))"
proof -
  let ?c = "with_defaults method_metric d"
  obtain b where b: "dget d ''latency_buckets'' = Some (PDict b)" "\<forall>k \<in> fst ` set empty_buckets. int_at b k"
    using assms by (auto simp: wf_metric_def)
  have keep: "int_at ?c k" if "int_at d k" for k
    using that dget_with_defaults by (fastforce simp: int_at_def)
  have keepf: "float_at ?c k" if "float_at d k" for k
    using that dget_with_defaults by (fastforce simp: float_at_def)
  have "int_at (with_defaults empty_buckets b) k" if "int_at b k" for k
    using that dget_with_defaults by (fastforce simp: int_at_def)
  moreover have "dget ?c ''latency_buckets'' = Some (PDict b)" using b(1) by (rule dget_with_defaults)
  ultimately show ?thesis
    using assms b keep keepf
    by (simp add: complete_metric_def Let_def wf_metric_def metric_counters_def)
qed

lemma wf_metric_completed_None: "wf_metric (complete_metric PNone)"
proof -
  have "complete_metric PNone = complete_metric (PDict method_metric)"
    by (simp add: complete_metric_def)
  with wf_metric_completed [OF wf_metric_new] show ?thesis by simp
qed

lemma metric_keys_apart:
  "k \<in> set metric_counters \<Longrightarrow> k \<notin> {''latency_sum_ms'', ''latency_max_ms'', ''latency_buckets''}"
  by (simp only: metric_counters_def list.set) (elim insertE; simp)

lemma metric_other_keys:
  "''latency_sum_ms'' \<notin> set metric_counters" "''latency_max_ms'' \<notin> set metric_counters"
  "''latency_buckets'' \<notin> set metric_counters"
  by (simp_all add: metric_counters_def)

lemma wf_metric_counter: "wf_metric d \<Longrightarrow> k \<in> set metric_counters \<Longrightarrow> wf_metric (dset k (PInt n) d)"
  using metric_keys_apart [of k] by (auto simp: wf_metric_def)

lemma wf_metric_dset:
  "wf_metric d \<Longrightarrow> wf_metric (dset ''latency_sum_ms'' (PFloat x) d)"
  "wf_metric d \<Longrightarrow> wf_metric (dset ''latency_max_ms'' (PFloat x) d)"
  "wf_metric d \<Longrightarrow> \<forall>k \<in> fst ` set empty_buckets. int_at b k \<Longrightarrow> wf_metric (dset ''latency_buckets'' (PDict b) d)"
  by (auto simp: wf_metric_def metric_other_keys)

lemma metric_increment:
  "wf_metric d \<Longrightarrow> k \<in> set metric_counters \<Longrightarrow> \<exists>d'. increment k d = Inr d' \<and> wf_metric d'"
  using increment_total [of d k] wf_metric_counter [of d k] by (auto simp: wf_metric_def)

lemma float_field_PFloat [simp]: "dget d k = Some (PFloat x) \<Longrightarrow> float_field d k (PFloat (Fin 0)) = Inr x"
  by (cases "x = Fin 0") (simp_all add: float_field_def py_or_def)

lemma record_latency_total:
  assumes "wf_metric d"
  shows "\<exists>d'. record_latency t d = Inr d' \<and> wf_metric d'"
proof -
  let ?v = "f64_max (Fin 0) t"
  obtain d1 where d1: "increment ''latency_sample_count'' d = Inr d1" "wf_metric d1"
    using metric_increment [OF assms, of "''latency_sample_count''"] by (auto simp: metric_counters_def)
  obtain s1 where s1: "dget d1 ''latency_sum_ms'' = Some (PFloat s1)"
    using d1(2) by (auto simp: wf_metric_def float_at_def)
  define d2 where "d2 = dset ''latency_sum_ms'' (PFloat (f64_round (f64_add s1 ?v) 3)) d1"
  have d2: "wf_metric d2" using d1(2) by (simp add: d2_def wf_metric_dset)
  obtain m1 where m1: "dget d2 ''latency_max_ms'' = Some (PFloat m1)"
    using d2 by (auto simp: wf_metric_def float_at_def)
  define d3 where "d3 = dset ''latency_max_ms'' (PFloat (f64_round (f64_max m1 ?v) 3)) d2"
  have d3: "wf_metric d3" using d2 by (simp add: d3_def wf_metric_dset)
  obtain b where b: "dget d1 ''latency_buckets'' = Some (PDict b)" "\<forall>k \<in> fst ` set empty_buckets. int_at b k"
    using d1(2) by (auto simp: wf_metric_def)
  define k where "k = (if f64_le ?v (Fin 250) then ''le_250_ms'' else if f64_le ?v (Fin 1000) then ''le_1000_ms''
      else if f64_le ?v (Fin 5000) then ''le_5000_ms'' else ''gt_5000_ms'')"
  have "k \<in> fst ` set empty_buckets" by (simp add: k_def empty_buckets_def)
  then obtain n where n: "increment k b = Inr (dset k (PInt n) b)" using b(2) increment_total by blast
  have "record_latency t d = Inr (dset ''latency_buckets'' (PDict (dset k (PInt n) b)) d3)"
    using d1(1) s1 m1 b(1) n
    by (simp add: record_latency_def Let_def d2_def [symmetric] d3_def [symmetric] k_def [symmetric])
  moreover have "\<forall>k' \<in> fst ` set empty_buckets. int_at (dset k (PInt n) b) k'" using b(2) by simp
  ultimately show ?thesis using wf_metric_dset(3) [OF d3] by blast
qed

lemma update_method_metric_total:
  assumes wf: "wf_provider_state d" and change: "\<And>md. wf_metric md \<Longrightarrow> \<exists>md'. change md = Inr md' \<and> wf_metric md'"
  shows "\<exists>v. update_method_metric m change d = Inr (dset ''method_metrics'' v d) \<and>
    wf_provider_state (dset ''method_metrics'' v d)"
proof -
  obtain ms where ms: "dget d ''method_metrics'' = Some (PDict ms)"
      "\<And>k v. dget ms k = Some v \<Longrightarrow> \<exists>md. v = PDict md \<and> wf_metric md"
    using wf by (auto simp: wf_provider_state_def)
  have "wf_metric (complete_metric (dgetn ms (metric_method m)))"
  proof (cases "dget ms (metric_method m)")
    case None
    then show ?thesis by (simp add: wf_metric_completed_None)
  next
    case (Some v)
    then show ?thesis using ms(2) [OF Some] wf_metric_completed by auto
  qed
  from change [OF this] obtain md where md: "change (complete_metric (dgetn ms (metric_method m))) = Inr md" "wf_metric md"
    by blast
  let ?v = "PDict (dset (metric_method m) (PDict md) ms)"
  have "wf_provider_state (dset ''method_metrics'' ?v d)"
    using wf ms(2) md(2) by (auto simp: wf_provider_state_def wf_availability_dset other_keys)
  moreover have "update_method_metric m change d = Inr (dset ''method_metrics'' ?v d)"
    using ms(1) md(1) by (simp add: update_method_metric_def dsetdefault_def dhas_def)
  ultimately show ?thesis by blast
qed


subsection \<open>Reading\<close>

lemma dget_map_values: "dget (map (\<lambda>(k, v). (k, f k v)) d) k = map_option (f k) (dget d k)"
  by (induction d) auto

lemma wf_availability_fields: "wf_availability d \<Longrightarrow> k \<in> set breaker_fields \<Longrightarrow> \<exists>v. dget d k = Some v"
  by (auto simp: wf_availability_def breaker_fields_def int_at_def float_at_def)

lemma wf_availability_new: "wf_availability empty_availability_state"
  by (simp add: wf_availability_def empty_availability_state_def int_at_def float_at_def)

lemma dget_scoped:
  assumes "dget (case dgetn raw m of PDict d \<Rightarrow> d | _ \<Rightarrow> []) k = Some v" "dget empty_availability_state k \<noteq> None"
  shows "dget (scoped_availability raw m) k = Some v"
  using assms by (auto simp: scoped_availability_def Let_def dget_map_values)

lemma scoped_availability_keeps:
  assumes "dget raw m = Some (PDict ad)" "wf_availability ad"
  shows "wf_availability (scoped_availability raw m)"
    and "k \<in> set breaker_fields \<Longrightarrow> dget (scoped_availability raw m) k = dget ad k"
proof -
  have k: "dget (scoped_availability raw m) k = Some v" if "dget ad k = Some v" "dget empty_availability_state k \<noteq> None" for k v
    using dget_scoped that assms(1) by simp
  show "wf_availability (scoped_availability raw m)"
    using assms(2) by (auto simp: wf_availability_def int_at_def float_at_def empty_availability_state_def intro!: k)
  assume f: "k \<in> set breaker_fields"
  with wf_availability_fields [OF assms(2)] obtain v where "dget ad k = Some v" by blast
  moreover have "dget empty_availability_state k \<noteq> None"
    using f wf_availability_fields [OF wf_availability_new] by blast
  ultimately show "dget (scoped_availability raw m) k = dget ad k" using k by simp
qed

lemma dget_migrate_metrics:
  "dget (map (\<lambda>(k, v). (k, PDict (complete_metric v))) (filter (\<lambda>(k, v). P k) d)) k =
     (if P k then map_option (\<lambda>v. PDict (complete_metric v)) (dget d k) else None)"
  by (induction d) auto

lemma breaker_of_cong: "(\<And>k. k \<in> set breaker_fields \<Longrightarrow> dget d k = dget e k) \<Longrightarrow> breaker_of d = breaker_of e"
  by (simp add: breaker_of_def breaker_fields_def circuit_of_def str_field_def dgetn_def dget_or_def)

text \<open>Reading a well-formed state keeps it so, with the breakers of the provider and its methods.\<close>

lemma migrate_wf:
  assumes wf: "wf_provider_state d"
  shows "\<exists>d'. migrate_provider_state name d = Inr d' \<and> wf_provider_state d' \<and> breaker_of d' = breaker_of d \<and>
    (\<forall>m \<in> set HEAVY_RPC_METHODS. method_breaker m d' = method_breaker m d)"
proof -
  define e where "e = dset ''provider'' (PStr name)
     (with_defaults (empty_provider_state name) (dpop ''method_last_request_at_epoch'' d))"
  have e: "dget e k = Some v" if "dget d k = Some v" "k \<noteq> ''provider''" "k \<noteq> ''method_last_request_at_epoch''" for k v
    using dget_with_defaults that by (simp add: e_def)
  obtain a where a: "dget d ''method_availability'' = Some (PDict a)"
      "\<And>m. m \<in> set HEAVY_RPC_METHODS \<Longrightarrow> \<exists>ad. dget a m = Some (PDict ad) \<and> wf_availability ad"
    using wf by (auto simp: wf_provider_state_def)
  obtain ms where ms: "dget d ''method_metrics'' = Some (PDict ms)"
      "\<And>k v. dget ms k = Some v \<Longrightarrow> \<exists>md. v = PDict md \<and> wf_metric md"
    using wf by (auto simp: wf_provider_state_def)
  let ?b = "bounded_availability e"
  have b: "dget ?b m = Some (PDict (scoped_availability a m))" if "m \<in> set HEAVY_RPC_METHODS" for m
    using that e [OF a(1)] by (auto simp: bounded_availability_def HEAVY_RPC_METHODS_def)
  define d' where "d' = dset ''method_metrics'' (migrate_metrics (dgetn e ''method_metrics''))
     (dset ''schema_version'' (PInt RPC_PROVIDER_STATE_SCHEMA_VERSION) (dset ''method_availability'' (PDict ?b) e))"
  have run: "migrate_provider_state name d = Inr d'"
    using wf_provider_stateD(1) [OF wf]
    by (simp add: migrate_provider_state_def Let_def e_def [symmetric] d'_def RPC_PROVIDER_STATE_SCHEMA_VERSION_def)
  define ms' where "ms' = map (\<lambda>(k, v). (k, PDict (complete_metric v))) (filter (\<lambda>(k, v). k \<in> set RPC_METHOD_METRIC_NAMES) ms)"
  have mm: "migrate_metrics (dgetn e ''method_metrics'') = PDict ms'"
    using e [OF ms(1)] by (simp add: migrate_metrics_def ms'_def)
  have ms': "\<exists>md. v = PDict md \<and> wf_metric md" if "dget ms' k = Some v" for k v
  proof -
    from that obtain u where "dget ms k = Some u" "v = PDict (complete_metric u)"
      by (auto simp: ms'_def dget_migrate_metrics split: if_splits)
    with ms(2) [of k u] wf_metric_completed show ?thesis by auto
  qed
  have d': "dget d' k = Some v"
    if "dget d k = Some v" "k \<notin> {''provider'', ''method_last_request_at_epoch'', ''method_metrics'', ''method_availability'', ''schema_version''}" for k v
    using that e [of k v] by (simp add: d'_def)
  have fields: "dget d' k = dget d k" if f: "k \<in> set breaker_fields" for k
  proof -
    from wf_availability_fields [OF wf_provider_stateD(2) [OF wf] f] obtain v where "dget d k = Some v" by blast
    moreover have "k \<notin> {''provider'', ''method_last_request_at_epoch'', ''method_metrics'', ''method_availability'', ''schema_version''}"
      using f by (simp only: breaker_fields_def list.set) (elim insertE; simp)
    ultimately show ?thesis using d' by simp
  qed
  have "int_at d' k" if "k \<in> set state_counters" for k
    using wf_provider_stateD(3) [OF wf that] that
    by (simp only: state_counters_def list.set int_at_def) (elim insertE exE; fastforce intro: d')
  moreover have "float_at d' ''last_request_at_epoch''"
    using wf_provider_stateD(4) [OF wf] by (auto simp: float_at_def intro!: d')
  moreover have "wf_availability d'"
    using wf_provider_stateD(2) [OF wf] fields
    by (simp add: wf_availability_def int_at_def float_at_def breaker_fields_def)
  moreover have "\<forall>m \<in> set HEAVY_RPC_METHODS. \<exists>ad. dget ?b m = Some (PDict ad) \<and> wf_availability ad"
    using b a(2) scoped_availability_keeps(1) by blast
  ultimately have "wf_provider_state d'"
    using ms' by (simp add: wf_provider_state_def) (simp add: d'_def mm)
  moreover have "breaker_of d' = breaker_of d"
    using fields by (rule breaker_of_cong)
  moreover have "method_breaker m d' = method_breaker m d" if m: "m \<in> set HEAVY_RPC_METHODS" for m
  proof -
    obtain ad where ad: "dget a m = Some (PDict ad)" "wf_availability ad" using a(2) [OF m] by blast
    have "breaker_of (scoped_availability a m) = breaker_of ad"
      by (rule breaker_of_cong) (rule scoped_availability_keeps(2) [OF ad])
    then show ?thesis using ad(1) a(1) b [OF m] by (simp add: method_breaker_def d'_def)
  qed
  ultimately show ?thesis using run by blast
qed

section \<open>Operations\<close>

text \<open>What the operations do to a breaker.\<close>

definition epoch :: "f64 \<Rightarrow> f64" where
  "epoch x = (if f64_is_finite x \<and> f64_le (Fin 0) x then x else Fin 0)"

definition blocked :: "f64 \<Rightarrow> breaker \<Rightarrow> string option" where
  "blocked now b =
     (if circuit b = ''OPEN'' \<and> f64_lt now (cooldown b) then Some ''circuit_open_cooldown''
      else if circuit b = ''HALF_OPEN'' \<and> f64_lt now (lease b) then Some ''half_open_lease''
      else if circuit b = ''CLOSED'' \<and> f64_lt now (cooldown b) then Some ''cooldown'' else None)"

definition probing :: "breaker \<Rightarrow> bool" where
  "probing b \<longleftrightarrow> circuit b = ''OPEN'' \<or> circuit b = ''HALF_OPEN''"

definition after_probe :: "f64 \<Rightarrow> breaker \<Rightarrow> breaker" where
  "after_probe now b = (if probing b
     then b\<lparr>circuit := ''HALF_OPEN'', lease := epoch (f64_add now RPC_HALF_OPEN_LEASE_SECONDS)\<rparr> else b)"

definition shut :: "breaker \<Rightarrow> breaker" where
  "shut b = b\<lparr>circuit := ''CLOSED'', cooldown := Fin 0, lease := Fin 0, fails := 0\<rparr>"

definition after_trip :: "provider_failure \<Rightarrow> bool \<Rightarrow> f64 \<Rightarrow> breaker \<Rightarrow> breaker" where
  "after_trip x probe now b =
     (if \<not> transient x then b\<lparr>circuit := ''CLOSED'', cooldown := Fin 0, fails := 0\<rparr>
      else let pause = f64_max (cooldown b) (f64_add now (f64_max (Fin 0) (retry_delay_seconds x)));
               b = b\<lparr>fails := fails b + 1\<rparr>
        in if probe \<or> RPC_CIRCUIT_FAILURE_THRESHOLD \<le> fails b
           then b\<lparr>circuit := ''OPEN'',
                  cooldown := epoch (f64_max pause (f64_add now RPC_CIRCUIT_COOLDOWN_SECONDS))\<rparr>
           else b\<lparr>circuit := ''CLOSED'', cooldown := epoch pause\<rparr>)"

lemma safe_epoch_PFloat [simp]: "safe_epoch (PFloat x) = epoch x"
  by (simp add: safe_epoch_def epoch_def)

lemma epoch_0 [simp]: "epoch (Fin 0) = Fin 0"
  by (simp add: epoch_def)

lemma upper_circuits [simp]:
  "upper ''CLOSED'' = ''CLOSED''" "upper ''OPEN'' = ''OPEN''" "upper ''HALF_OPEN'' = ''HALF_OPEN''"
  by code_simp+

lemma block_reason_breaker: "availability_block_reason d now = blocked now (breaker_of d)"
  by (simp add: availability_block_reason_def blocked_def breaker_of_def Let_def)

lemma breaker_of_dset:
  "k \<notin> {''circuit_state'', ''cooldown_until_epoch'', ''half_open_lease_until_epoch'', ''consecutive_failures''} \<Longrightarrow>
     breaker_of (dset k v d) = breaker_of d"
  "c \<in> {''CLOSED'', ''OPEN'', ''HALF_OPEN''} \<Longrightarrow>
     breaker_of (dset ''circuit_state'' (PStr c) d) = (breaker_of d)\<lparr>circuit := c\<rparr>"
  "breaker_of (dset ''cooldown_until_epoch'' (PFloat x) d) = (breaker_of d)\<lparr>cooldown := epoch x\<rparr>"
  "breaker_of (dset ''half_open_lease_until_epoch'' (PFloat x) d) = (breaker_of d)\<lparr>lease := epoch x\<rparr>"
  "breaker_of (dset ''consecutive_failures'' (PInt n) d) = (breaker_of d)\<lparr>fails := n\<rparr>"
  by (auto simp: breaker_of_def circuit_of_def str_field_def)

definition same_methods :: "dict \<Rightarrow> dict \<Rightarrow> bool" where
  "same_methods d d' \<longleftrightarrow> (\<forall>m. method_breaker m d' = method_breaker m d)"

lemma same_methods_dset: "k \<noteq> ''method_availability'' \<Longrightarrow> same_methods d (dset k v d)"
  by (auto simp: same_methods_def method_breaker_def)

lemma same_methods_refl [simp]: "same_methods d d"
  and same_methods_trans: "same_methods d e \<Longrightarrow> same_methods e f \<Longrightarrow> same_methods d f"
  by (simp_all add: same_methods_def)

lemma same_methods_step:
  "same_methods d e \<Longrightarrow> k \<noteq> ''method_availability'' \<Longrightarrow> same_methods d (dset k v e)"
  using same_methods_trans same_methods_dset by blast

text \<open>The availability of a heavy method, and its replacement.\<close>

lemma method_availability_total:
  assumes "wf_provider_state d"
  shows "m \<in> set HEAVY_RPC_METHODS \<Longrightarrow> \<exists>ad. method_availability_state d m = Inr (Some ad) \<and> wf_availability ad \<and>
      method_breaker m d = Some (breaker_of ad)"
    and "m \<notin> set HEAVY_RPC_METHODS \<Longrightarrow> method_availability_state d m = Inr None"
  using assms by (auto simp: method_availability_state_def wf_provider_state_def method_breaker_def)

lemma set_method_availability_wf:
  assumes "wf_provider_state d" "m \<in> set HEAVY_RPC_METHODS" "wf_availability ad"
  shows "wf_provider_state (set_method_availability m ad d)"
    and "breaker_of (set_method_availability m ad d) = breaker_of d"
    and "method_breaker m (set_method_availability m ad d) = Some (breaker_of ad)"
    and "m' \<noteq> m \<Longrightarrow> method_breaker m' (set_method_availability m ad d) = method_breaker m' d"
proof -
  obtain a where a: "dget d ''method_availability'' = Some (PDict a)"
    using assms(1) by (auto simp: wf_provider_state_def)
  then have eq: "set_method_availability m ad d = dset ''method_availability'' (PDict (dset m (PDict ad) a)) d"
    by (simp add: set_method_availability_def)
  show "wf_provider_state (set_method_availability m ad d)"
    using assms a by (auto simp: eq wf_provider_state_def wf_availability_dset other_keys)
  show "breaker_of (set_method_availability m ad d) = breaker_of d" by (simp add: eq breaker_of_dset)
  show "method_breaker m (set_method_availability m ad d) = Some (breaker_of ad)"
    by (simp add: eq method_breaker_def)
  show "m' \<noteq> m \<Longrightarrow> method_breaker m' (set_method_availability m ad d) = method_breaker m' d"
    using a by (simp add: eq method_breaker_def)
qed

lemma wf_availability_breaker_dset:
  assumes "wf_provider_state d" "wf_availability (dset k v d)"
    and "k \<in> {''circuit_state'', ''cooldown_until_epoch'', ''half_open_lease_until_epoch'', ''consecutive_failures'',
      ''circuit_open_count''}"
  shows "wf_provider_state (dset k v d)"
proof -
  have "k \<notin> reserved_keys"
    using assms(3) by (elim insertE) (simp_all add: reserved_keys_def state_counters_def)
  then show ?thesis using assms(2,1) by (rule wf_provider_state_dset)
qed

text \<open>
  A change of the breaker fields, written once for the state of the provider and for the
  availability of a method: \<open>P\<close> is the well-formedness of either.
\<close>

definition wf_either :: "(dict \<Rightarrow> bool) \<Rightarrow> bool" where
  "wf_either P \<longleftrightarrow> P = wf_provider_state \<or> P = wf_availability"

lemma wf_either_dset:
  assumes "wf_either P" "P d"
  shows "P (dset ''consecutive_failures'' (PInt n) d)" "P (dset ''circuit_open_count'' (PInt n) d)"
    "c \<in> {''CLOSED'', ''OPEN'', ''HALF_OPEN''} \<Longrightarrow> P (dset ''circuit_state'' (PStr c) d)"
    "P (dset ''cooldown_until_epoch'' (PFloat x) d)" "P (dset ''half_open_lease_until_epoch'' (PFloat x) d)"
  using assms wf_provider_stateD(2)
  by (auto simp: wf_either_def intro!: wf_availability_breaker_dset intro: wf_availability_dset(2-))

definition note_fields :: "string list" where
  "note_fields = [''last_failure_at_epoch'', ''last_failure_category'', ''last_failure_method'', ''last_success_at_epoch'',
     ''last_rate_limit_method'', ''last_rate_limit_at_epoch'', ''last_circuit_open_method'', ''last_circuit_open_at_epoch'',
     ''provider'', ''enabled'']"

lemma note_fields_apart:
  "k \<in> set note_fields \<Longrightarrow> k \<notin> {''consecutive_failures'', ''circuit_open_count'', ''circuit_state'', ''cooldown_until_epoch'',
      ''half_open_lease_until_epoch'', ''method_availability''} \<and> k \<notin> reserved_keys"
  by (simp only: note_fields_def list.set)
    (elim insertE; simp add: reserved_keys_def state_counters_def)

lemma wf_either_note:
  assumes "wf_either P" "P d" "k \<in> set note_fields"
  shows "P (dset k v d)" "breaker_of (dset k v d) = breaker_of d" "same_methods d (dset k v d)"
  using assms note_fields_apart [OF assms(3)] wf_provider_stateD(2) [of d]
  by (auto simp: wf_either_def wf_availability_dset breaker_of_dset intro!: wf_provider_state_dset same_methods_dset)

lemma note_failure_keeps:
  assumes "wf_either P" "P d"
  shows "P (note_failure m x now d)" "breaker_of (note_failure m x now d) = breaker_of d"
    "same_methods d (note_failure m x now d)"
proof -
  have n: "P (dset k v e) \<and> breaker_of (dset k v e) = breaker_of e \<and> same_methods e (dset k v e)"
    if "P e" "k \<in> set note_fields" for k v e
    using wf_either_note [OF assms(1) that] by blast
  have "P (note_failure m x now d) \<and> breaker_of (note_failure m x now d) = breaker_of d \<and>
      same_methods d (note_failure m x now d)"
    unfolding note_failure_def Let_def same_methods_def
    by (simp add: n assms(2) note_fields_def n [unfolded same_methods_def])
  then show "P (note_failure m x now d)" "breaker_of (note_failure m x now d) = breaker_of d"
    "same_methods d (note_failure m x now d)" by simp_all
qed

lemma wf_either_counts: "wf_either P \<Longrightarrow> P d \<Longrightarrow> \<exists>n. dget d ''consecutive_failures'' = Some (PInt n)"
  "wf_either P \<Longrightarrow> P d \<Longrightarrow> \<exists>n. increment ''circuit_open_count'' d = Inr (dset ''circuit_open_count'' (PInt n) d)"
  using wf_provider_stateD(2) [of d] increment_total
  by (auto simp: wf_either_def wf_availability_def int_at_def)

lemma note_opening_total:
  assumes "wf_either P" "P d"
  shows "\<exists>d'. note_opening m now d = Inr d' \<and> P d' \<and> breaker_of d' = breaker_of d \<and> same_methods d d'"
proof -
  obtain n where n: "increment ''circuit_open_count'' d = Inr (dset ''circuit_open_count'' (PInt n) d)"
    using wf_either_counts(2) [OF assms] by blast
  define e where "e = dset ''circuit_open_count'' (PInt n) d"
  have e: "P e" "breaker_of e = breaker_of d" "same_methods d e"
    by (simp_all add: e_def wf_either_dset(2) [OF assms] breaker_of_dset same_methods_dset)
  note f = wf_either_note [OF assms(1) e(1), of "''last_circuit_open_at_epoch''" "PFloat now", simplified note_fields_def]
  note g = wf_either_note [OF assms(1) f(1), of "''last_circuit_open_method''" "PStr (metric_method m)", simplified note_fields_def]
  show ?thesis
    using n e f g by (auto simp: note_opening_def e_def [symmetric] intro: same_methods_trans)
qed

lemma trip_circuit_total:
  assumes "wf_either P" "P d"
  shows "\<exists>opened d'. trip_circuit m x probe now d = Inr (opened, d') \<and> P d' \<and>
    breaker_of d' = after_trip x probe now (breaker_of d) \<and> same_methods d d'"
proof -
  define e where "e = note_failure m x now d"
  note e = note_failure_keeps [OF assms, of m x now, folded e_def]
  obtain n where n: "dget e ''consecutive_failures'' = Some (PInt n)" using wf_either_counts(1) [OF assms(1) e(1)] by blast
  have fails: "fails (breaker_of d) = n" using n e(2) by (auto simp: breaker_of_def)
  have cool: "safe_epoch (dgetn e ''cooldown_until_epoch'') = cooldown (breaker_of d)"
    using e(2) by (auto simp: breaker_of_def)
  define pause where "pause = f64_max (cooldown (breaker_of d)) (f64_add now (f64_max (Fin 0) (retry_delay_seconds x)))"
  define g where "g = dset ''cooldown_until_epoch'' (PFloat pause) (dset ''consecutive_failures'' (PInt (n + 1)) e)"
  have g: "P g" "breaker_of g = (breaker_of d)\<lparr>fails := n + 1, cooldown := epoch pause\<rparr>" "same_methods d g"
    using e by (auto simp: g_def wf_either_dset [OF assms(1)] breaker_of_dset intro!: same_methods_step)
  define h where "h = dset ''circuit_state'' (PStr ''OPEN'') g"
  have h: "P h" "breaker_of h = (breaker_of g)\<lparr>circuit := ''OPEN''\<rparr>" "same_methods d h"
    using g same_methods_step [OF g(3)]
    by (simp_all add: h_def wf_either_dset [OF assms(1)] breaker_of_dset)
  obtain k where k: "note_opening m now h = Inr k" "P k" "breaker_of k = breaker_of h" "same_methods h k"
    using note_opening_total [OF assms(1) h(1)] by blast
  have open_case: "\<exists>d'. bindE (if c then note_opening m now h else Inr h) (\<lambda>d. Inr (c, dset ''cooldown_until_epoch'' (PFloat y) d)) = Inr (c, d') \<and> P d' \<and>
      breaker_of d' = (breaker_of h)\<lparr>cooldown := epoch y\<rparr> \<and> same_methods d d'" for c y
  proof (cases c)
    case True
    then show ?thesis
      using k h(3) same_methods_step [OF same_methods_trans [OF h(3) k(4)]]
      by (simp add: wf_either_dset [OF assms(1)] breaker_of_dset)
  next
    case False
    then show ?thesis
      using h same_methods_step [OF h(3)]
      by (simp add: wf_either_dset [OF assms(1)] breaker_of_dset)
  qed
  show ?thesis
  proof (cases "transient x")
    case False
    let ?d = "dset ''cooldown_until_epoch'' (PFloat (Fin 0)) (dset ''circuit_state'' (PStr ''CLOSED'')
        (dset ''consecutive_failures'' (PInt 0) e))"
    have "P ?d" "breaker_of ?d = after_trip x probe now (breaker_of d)" "same_methods d ?d"
      using e False same_methods_step [OF same_methods_step [OF same_methods_step [OF e(3)]]]
      by (simp_all add: wf_either_dset [OF assms(1)] breaker_of_dset after_trip_def)
    then show ?thesis using False by (intro exI [of _ False] exI [of _ ?d]) (simp add: trip_circuit_def Let_def e_def [symmetric])
  next
    case True
    have run: "trip_circuit m x probe now d =
       (if probe \<or> RPC_CIRCUIT_FAILURE_THRESHOLD \<le> n + 1
        then bindE (if circuit_of d \<noteq> ''OPEN'' then note_opening m now h else Inr h)
               (\<lambda>d'. Inr (circuit_of d \<noteq> ''OPEN'', dset ''cooldown_until_epoch''
                 (PFloat (f64_max pause (f64_add now RPC_CIRCUIT_COOLDOWN_SECONDS))) d'))
        else Inr (False, dset ''circuit_state'' (PStr ''CLOSED'') g))"
      using True n cool
      by (simp add: trip_circuit_def Let_def e_def [symmetric] pause_def [symmetric] g_def [symmetric] h_def [symmetric])
    show ?thesis
    proof (cases "probe \<or> RPC_CIRCUIT_FAILURE_THRESHOLD \<le> n + 1")
      case True2: True
      then show ?thesis
        using open_case [of "circuit_of d \<noteq> ''OPEN''" "f64_max pause (f64_add now RPC_CIRCUIT_COOLDOWN_SECONDS)"] run True h(2) g(2)
        by (auto simp: after_trip_def Let_def fails pause_def [symmetric])
    next
      case False
      then show ?thesis
        using run True g same_methods_step [OF g(3)]
        by (auto simp: after_trip_def Let_def fails pause_def [symmetric] wf_either_dset [OF assms(1)] breaker_of_dset)
    qed
  qed
qed

subsection \<open>The changes on the state\<close>

lemma wf_provider_either: "wf_either wf_provider_state" and wf_availability_either: "wf_either wf_availability"
  by (simp_all add: wf_either_def)

lemma counter_step:
  assumes "wf_provider_state d" "k \<in> set state_counters"
  shows "\<exists>d'. increment k d = Inr d' \<and> wf_provider_state d' \<and> breaker_of d' = breaker_of d \<and> same_methods d d'"
  using increment_total [OF wf_provider_stateD(3) [OF assms]] wf_provider_state_counter [OF assms(2,1)] keys_apart [OF assms(2)]
  by (auto simp: breaker_of_dset intro!: same_methods_dset)

lemma metric_step:
  assumes "wf_provider_state d" "\<And>md. wf_metric md \<Longrightarrow> \<exists>md'. change md = Inr md' \<and> wf_metric md'"
  shows "\<exists>d'. update_method_metric m change d = Inr d' \<and> wf_provider_state d' \<and> breaker_of d' = breaker_of d \<and>
    same_methods d d'"
  using update_method_metric_total [OF assms] by (fastforce simp: breaker_of_dset intro!: same_methods_dset)

lemma metric_increment_bind:
  assumes "k \<in> set metric_counters" "\<And>md. wf_metric md \<Longrightarrow> \<exists>md'. g md = Inr md' \<and> wf_metric md'" "wf_metric md"
  shows "\<exists>md'. bindE (increment k md) g = Inr md' \<and> wf_metric md'"
  using metric_increment [OF assms(3,1)] assms(2) by fastforce

lemma start_request_total:
  assumes "wf_provider_state d"
  shows "\<exists>d'. start_request p m retry failover now d = Inr d' \<and> wf_provider_state d' \<and> breaker_of d' = breaker_of d \<and>
    same_methods d d'"
proof -
  let ?d0 = "dset ''enabled'' (PBool True) (dset ''provider'' (PStr (provider_name p))
     (dset ''schema_version'' (PInt RPC_PROVIDER_STATE_SCHEMA_VERSION) d))"
  let ?g = "\<lambda>metric. bindE (increment ''request_count'' metric) (\<lambda>metric.
      bindE (if retry then increment ''retry_count'' metric else Inr metric) (\<lambda>metric.
        if failover then increment ''failover_count'' metric else Inr metric))"
  have 0: "wf_provider_state ?d0" "breaker_of ?d0 = breaker_of d" "same_methods d ?d0"
    using wf_either_note(1) [OF wf_provider_either] wf_provider_state_request(2) [OF assms]
    by (auto simp: note_fields_def breaker_of_dset intro!: same_methods_step)
  obtain d1 where 1: "increment ''request_count'' ?d0 = Inr d1" "wf_provider_state d1" "breaker_of d1 = breaker_of d"
      "same_methods d d1"
    using counter_step [OF 0(1), of "''request_count''"] 0(2,3) same_methods_trans by (fastforce simp: state_counters_def)
  have g: "\<exists>md'. ?g md = Inr md' \<and> wf_metric md'" if md: "wf_metric md" for md
  proof (rule metric_increment_bind [OF _ _ md])
    fix e assume e: "wf_metric e"
    have f: "\<exists>md'. (if failover then increment ''failover_count'' e else Inr e) = Inr md' \<and> wf_metric md'" if "wf_metric e" for e
      using metric_increment [OF that] that by (simp add: metric_counters_def)
    show "\<exists>md'. bindE (if retry then increment ''retry_count'' e else Inr e) (\<lambda>metric.
        if failover then increment ''failover_count'' metric else Inr metric) = Inr md' \<and> wf_metric md'"
      using metric_increment_bind [OF _ f e, of "''retry_count''"] f [OF e] by (cases retry) (simp_all add: metric_counters_def)
  qed (simp add: metric_counters_def)
  obtain d2 where 2: "update_method_metric m ?g d1 = Inr d2" "wf_provider_state d2" "breaker_of d2 = breaker_of d"
      "same_methods d d2"
    using metric_step [OF 1(2), of ?g m] g 1(3,4) same_methods_trans by fastforce
  let ?d3 = "dset ''last_request_at_epoch'' (PFloat now) d2"
  have 3: "wf_provider_state ?d3" "breaker_of ?d3 = breaker_of d" "same_methods d ?d3"
    using wf_provider_state_request(1) [OF 2(2)] 2(3) same_methods_step [OF 2(4)] by (simp_all add: breaker_of_dset)
  obtain d4 where 4: "increment ''version'' ?d3 = Inr d4" "wf_provider_state d4" "breaker_of d4 = breaker_of d"
      "same_methods d d4"
    using counter_step [OF 3(1), of "''version''"] 3(2,3) same_methods_trans by (fastforce simp: state_counters_def)
  show ?thesis using 1(1) 2(1) 4 by (simp add: start_request_def)
qed

lemma activate_probe_wf:
  assumes "wf_either P" "P d"
  shows "case activate_half_open_probe now d of (probe, d') \<Rightarrow> probe = probing (breaker_of d) \<and> P d' \<and>
    breaker_of d' = after_probe now (breaker_of d) \<and> same_methods d d'"
  using assms
  by (auto simp: activate_half_open_probe_def Let_def probing_def after_probe_def breaker_of_dset
      wf_either_dset [OF assms(1)] intro!: same_methods_step) (simp_all add: breaker_of_def)

text \<open>The admission of a request: refused by a breaker, or admitted with the leases taken.\<close>

lemma admit_request_total:
  assumes wf: "wf_provider_state d"
  shows "case blocked now (breaker_of d) of
      Some r \<Rightarrow> admit_request m now d = Inr (Inl r)
    | None \<Rightarrow> (case (if m \<in> set HEAVY_RPC_METHODS then method_breaker m d else None) of
        None \<Rightarrow> \<exists>d'. admit_request m now d = Inr (Inr (probing (breaker_of d), False, d')) \<and> wf_provider_state d' \<and>
          breaker_of d' = after_probe now (breaker_of d) \<and> same_methods d d'
      | Some b \<Rightarrow> (case blocked now b of
          Some r \<Rightarrow> admit_request m now d = Inr (Inl r)
        | None \<Rightarrow> \<exists>d'. admit_request m now d = Inr (Inr (probing (breaker_of d), probing b, d')) \<and> wf_provider_state d' \<and>
            breaker_of d' = after_probe now (breaker_of d) \<and> method_breaker m d' = Some (after_probe now b)))"
proof -
  obtain probe e where a: "activate_half_open_probe now d = (probe, e)" by (cases "activate_half_open_probe now d")
  have e: "probe = probing (breaker_of d)" "wf_provider_state e" "breaker_of e = after_probe now (breaker_of d)" "same_methods d e"
    using activate_probe_wf [OF wf_provider_either wf, of now] by (simp_all add: a)
  show ?thesis
  proof (cases "m \<in> set HEAVY_RPC_METHODS")
    case False
    then show ?thesis
      using method_availability_total(2) [OF wf False] e a
      by (auto simp: admit_request_def block_reason_breaker split: option.splits)
  next
    case True
    obtain ad where ad: "method_availability_state d m = Inr (Some ad)" "wf_availability ad"
        "method_breaker m d = Some (breaker_of ad)"
      using method_availability_total(1) [OF wf True] by blast
    obtain mp ae where ma: "activate_half_open_probe now ad = (mp, ae)" by (cases "activate_half_open_probe now ad")
    have ae: "mp = probing (breaker_of ad)" "wf_availability ae" "breaker_of ae = after_probe now (breaker_of ad)"
      using activate_probe_wf [OF wf_availability_either ad(2), of now] by (simp_all add: ma)
    show ?thesis
      using ad True e a ae ma set_method_availability_wf(1-3) [OF e(2) True ae(2)]
      by (auto simp: admit_request_def block_reason_breaker split: option.splits)
  qed
qed

lemma close_circuit_wf:
  assumes "wf_either P" "P d"
  shows "P (close_circuit d)" "breaker_of (close_circuit d) = (breaker_of d)\<lparr>circuit := ''CLOSED'', cooldown := Fin 0, lease := Fin 0\<rparr>"
    "same_methods d (close_circuit d)"
  using assms
  by (auto simp: close_circuit_def breaker_of_dset wf_either_dset [OF assms(1)] intro!: same_methods_step)

lemma succeeded_wf:
  assumes "wf_either P" "P d"
  shows "P (succeeded now d)" "breaker_of (succeeded now d) = shut (breaker_of d)" "same_methods d (succeeded now d)"
proof -
  let ?e = "dset ''last_failure_category'' PNone (dset ''last_success_at_epoch'' (PFloat now) (dset ''consecutive_failures'' (PInt 0) d))"
  have e: "P ?e" "breaker_of ?e = (breaker_of d)\<lparr>fails := 0\<rparr>" "same_methods d ?e"
    using assms wf_either_note(1) [OF assms(1)] wf_either_dset(1) [OF assms]
    by (auto simp: note_fields_def breaker_of_dset intro!: same_methods_step)
  note c = close_circuit_wf [OF assms(1) e(1)]
  show "P (succeeded now d)" "breaker_of (succeeded now d) = shut (breaker_of d)" "same_methods d (succeeded now d)"
    using c e same_methods_trans [OF e(3) c(3)] by (simp_all add: succeeded_def shut_def)
qed

lemma success_change_total:
  assumes wf: "wf_provider_state d"
  shows "\<exists>d'. success_change m t now d = Inr d' \<and> wf_provider_state d' \<and> breaker_of d' = shut (breaker_of d) \<and>
    (\<forall>m'. method_breaker m' d' = (if m' = m \<and> m \<in> set HEAVY_RPC_METHODS then map_option shut (method_breaker m' d)
       else method_breaker m' d))"
proof -
  let ?g = "\<lambda>metric. bindE (increment ''success_count'' metric) (record_latency t)"
  obtain d1 where 1: "increment ''success_count'' d = Inr d1" "wf_provider_state d1" "breaker_of d1 = breaker_of d" "same_methods d d1"
    using counter_step [OF wf, of "''success_count''"] by (auto simp: state_counters_def)
  have g: "\<exists>md'. ?g md = Inr md' \<and> wf_metric md'" if "wf_metric md" for md
    using metric_increment_bind [OF _ record_latency_total that] by (simp add: metric_counters_def)
  obtain d2 where 2: "update_method_metric m ?g d1 = Inr d2" "wf_provider_state d2" "breaker_of d2 = breaker_of d" "same_methods d d2"
    using metric_step [OF 1(2), of ?g m] g 1(3) same_methods_trans [OF 1(4)] by fastforce
  define d3 where "d3 = succeeded now d2"
  have 3: "wf_provider_state d3" "breaker_of d3 = shut (breaker_of d)" "same_methods d d3"
    using succeeded_wf [OF wf_provider_either 2(2), of now] 2(3) same_methods_trans [OF 2(4)] by (simp_all add: d3_def)
  have run: "success_change m t now d = bindE (method_availability_state d3 m) (\<lambda>ms. case ms of
       None \<Rightarrow> Inr d3 | Some ad \<Rightarrow> Inr (set_method_availability m (succeeded now ad) d3))"
    using 1(1) 2(1) by (simp add: success_change_def Let_def d3_def [symmetric])
  show ?thesis
  proof (cases "m \<in> set HEAVY_RPC_METHODS")
    case False
    then show ?thesis using run 3 method_availability_total(2) [OF 3(1) False] by (auto simp: same_methods_def)
  next
    case True
    obtain ad where ad: "method_availability_state d3 m = Inr (Some ad)" "wf_availability ad" "method_breaker m d3 = Some (breaker_of ad)"
      using method_availability_total(1) [OF 3(1) True] by blast
    note s = succeeded_wf(1,2) [OF wf_availability_either ad(2), of now]
    note w = set_method_availability_wf [OF 3(1) True s(1)]
    show ?thesis using run ad(1) w s(2) 3 ad(3) True by (auto simp: same_methods_def)
  qed
qed

text \<open>
  A failure trips one breaker: that of the method, for a rate limit or an upstream error of a
  heavy method, else that of the provider.
\<close>

lemma release_lease_wf:
  assumes "wf_either P" "P d"
  shows "P (release_lease d)" "breaker_of (release_lease d) = (breaker_of d)\<lparr>lease := Fin 0\<rparr>" "same_methods d (release_lease d)"
  using assms by (auto simp: release_lease_def breaker_of_dset wf_either_dset [OF assms(1)] intro!: same_methods_dset)

lemma failure_counted:
  assumes wf: "wf_provider_state d"
  shows "\<exists>d'. wf_provider_state d' \<and> breaker_of d' = breaker_of d \<and> same_methods d d' \<and>
    failure_change m t r x now d =
     (if failure_uses_method_availability m x
      then bindE (method_availability_state d' m) (\<lambda>ms. case ms of
         None \<Rightarrow> Inl (RuntimeError ''missing method availability state'')
       | Some d \<Rightarrow> bindE (trip_circuit m x (method_half_open_probe r) now d) (\<lambda>(opened, d).
           bindE (if opened then note_opening m now d' else Inr d') (\<lambda>state.
             Inr (close_circuit (dset ''consecutive_failures'' (PInt 0)
               (set_method_availability m (release_lease d) state))))))
      else bindE (trip_circuit m x (half_open_probe r) now d') (\<lambda>(_, state).
       let state = release_lease state in
       if method_half_open_probe r
       then bindE (method_availability_state state m) (\<lambda>ms. case ms of
           None \<Rightarrow> Inr state
         | Some d \<Rightarrow> Inr (set_method_availability m (release_lease d) state))
       else Inr state))"
proof -
  let ?h = "\<lambda>metric. if rate_limited x then increment ''rate_limit_count'' metric else Inr metric"
  let ?g = "\<lambda>metric. bindE (increment ''failure_count'' metric) (\<lambda>metric. bindE (record_latency t metric) ?h)"
  obtain d1 where 1: "increment ''failure_count'' d = Inr d1" "wf_provider_state d1" "breaker_of d1 = breaker_of d" "same_methods d d1"
    using counter_step [OF wf, of "''failure_count''"] by (auto simp: state_counters_def)
  have h: "\<exists>md'. ?h md = Inr md' \<and> wf_metric md'" if "wf_metric md" for md
    using metric_increment [OF that] that by (simp add: metric_counters_def)
  have l: "\<exists>md'. bindE (record_latency t md) ?h = Inr md' \<and> wf_metric md'" if "wf_metric md" for md
    using record_latency_total [OF that, of t] h by fastforce
  have g: "\<exists>md'. ?g md = Inr md' \<and> wf_metric md'" if "wf_metric md" for md
    using metric_increment_bind [OF _ l that] by (simp add: metric_counters_def)
  obtain d2 where 2: "update_method_metric m ?g d1 = Inr d2" "wf_provider_state d2" "breaker_of d2 = breaker_of d" "same_methods d d2"
    using metric_step [OF 1(2), of ?g m] g 1(3) same_methods_trans [OF 1(4)] by fastforce
  obtain d3 where 3: "(if rate_limited x then increment ''rate_limit_count'' d2 else Inr d2) = Inr d3" "wf_provider_state d3"
      "breaker_of d3 = breaker_of d" "same_methods d d3"
    using counter_step [OF 2(2), of "''rate_limit_count''"] 2(2-4) same_methods_trans [OF 2(4)]
    by (cases "rate_limited x") (auto simp: state_counters_def)
  define d4 where "d4 = note_failure m x now d3"
  have 4: "wf_provider_state d4" "breaker_of d4 = breaker_of d" "same_methods d d4"
    using note_failure_keeps [OF wf_provider_either 3(2), of m x now] 3(3) same_methods_trans [OF 3(4)]
    by (simp_all add: d4_def)
  show ?thesis
    using 4 by (intro exI [of _ d4]) (simp add: failure_change_def 1(1) 2(1) 3(1) d4_def [symmetric])
qed

text \<open>The breaker of the method while the provider's own is closed, and the converse.\<close>

lemma method_failure_total:
  assumes wf: "wf_provider_state d" and scope: "failure_uses_method_availability m x"
  shows "\<exists>d' b. failure_change m t r x now d = Inr d' \<and> wf_provider_state d' \<and> breaker_of d' = shut (breaker_of d) \<and>
    method_breaker m d = Some b \<and>
    method_breaker m d' = Some ((after_trip x (method_half_open_probe r) now b)\<lparr>lease := Fin 0\<rparr>) \<and>
    (\<forall>m'. m' \<noteq> m \<longrightarrow> method_breaker m' d' = method_breaker m' d)"
proof -
  have m: "m \<in> set HEAVY_RPC_METHODS" using scope by (simp add: failure_uses_method_availability_def)
  obtain e where e: "wf_provider_state e" "breaker_of e = breaker_of d" "same_methods d e"
    and run: "failure_change m t r x now d = bindE (method_availability_state e m) (\<lambda>ms. case ms of
         None \<Rightarrow> Inl (RuntimeError ''missing method availability state'')
       | Some d \<Rightarrow> bindE (trip_circuit m x (method_half_open_probe r) now d) (\<lambda>(opened, d).
           bindE (if opened then note_opening m now e else Inr e) (\<lambda>state.
             Inr (close_circuit (dset ''consecutive_failures'' (PInt 0)
               (set_method_availability m (release_lease d) state))))))"
    using failure_counted [OF wf, of m t r x now] scope by auto
  obtain ad where ad: "method_availability_state e m = Inr (Some ad)" "wf_availability ad" "method_breaker m e = Some (breaker_of ad)"
    using method_availability_total(1) [OF e(1) m] by blast
  obtain opened td where td: "trip_circuit m x (method_half_open_probe r) now ad = Inr (opened, td)" "wf_availability td"
      "breaker_of td = after_trip x (method_half_open_probe r) now (breaker_of ad)"
    using trip_circuit_total [OF wf_availability_either ad(2)] by blast
  note rl = release_lease_wf(1,2) [OF wf_availability_either td(2)]
  obtain f where f: "(if opened then note_opening m now e else Inr e) = Inr f" "wf_provider_state f" "breaker_of f = breaker_of d"
      "same_methods d f"
    using note_opening_total [OF wf_provider_either e(1), of m now] e same_methods_trans [OF e(3)] by (cases opened) auto
  let ?s = "set_method_availability m (release_lease td) f"
  note s = set_method_availability_wf [OF f(2) m rl(1)]
  let ?c = "dset ''consecutive_failures'' (PInt 0) ?s"
  have c: "wf_provider_state ?c" "breaker_of ?c = (breaker_of d)\<lparr>fails := 0\<rparr>" "same_methods ?s ?c"
    using wf_either_dset(1) [OF wf_provider_either s(1)] s(2) f(3) by (simp_all add: breaker_of_dset same_methods_dset)
  note z = close_circuit_wf [OF wf_provider_either c(1)]
  have "same_methods ?s (close_circuit ?c)" using same_methods_trans [OF c(3) z(3)] .
  then show ?thesis
    using run ad td f(1,4) s(3,4) rl(2) z(1,2) c(2) e(3) by (auto simp: same_methods_def shut_def)
qed

lemma provider_failure_total:
  assumes wf: "wf_provider_state d" and scope: "\<not> failure_uses_method_availability m x"
  shows "\<exists>d'. failure_change m t r x now d = Inr d' \<and> wf_provider_state d' \<and>
    breaker_of d' = (after_trip x (half_open_probe r) now (breaker_of d))\<lparr>lease := Fin 0\<rparr>"
proof -
  obtain e where e: "wf_provider_state e" "breaker_of e = breaker_of d" "same_methods d e"
    and run: "failure_change m t r x now d = bindE (trip_circuit m x (half_open_probe r) now e) (\<lambda>(_, state).
       let state = release_lease state in
       if method_half_open_probe r
       then bindE (method_availability_state state m) (\<lambda>ms. case ms of
           None \<Rightarrow> Inr state
         | Some d \<Rightarrow> Inr (set_method_availability m (release_lease d) state))
       else Inr state)"
    using failure_counted [OF wf, of m t r x now] scope by auto
  obtain opened td where td: "trip_circuit m x (half_open_probe r) now e = Inr (opened, td)" "wf_provider_state td"
      "breaker_of td = after_trip x (half_open_probe r) now (breaker_of d)"
    using trip_circuit_total [OF wf_provider_either e(1)] e(2) by metis
  note rl = release_lease_wf [OF wf_provider_either td(2)]
  show ?thesis
  proof (cases "method_half_open_probe r \<and> m \<in> set HEAVY_RPC_METHODS")
    case False
    then show ?thesis
      using run td rl method_availability_total(2) [OF rl(1)] by (auto simp: Let_def split: if_splits)
  next
    case True
    obtain ad where ad: "method_availability_state (release_lease td) m = Inr (Some ad)" "wf_availability ad"
      using method_availability_total(1) [OF rl(1)] True by blast
    note s = set_method_availability_wf [OF rl(1) conjunct2 [OF True] release_lease_wf(1) [OF wf_availability_either ad(2)]]
    show ?thesis using run td(1,3) rl(2) ad(1) s(1,2) True by simp
  qed
qed

section \<open>The operations on the file\<close>

text \<open>A file is missing, or a state that the router wrote.\<close>

definition wf_provider_file :: "state_file \<Rightarrow> bool" where
  "wf_provider_file f \<longleftrightarrow> f = Missing \<or> (\<exists>d. f = Content (PDict d) \<and> wf_provider_state d)"

text \<open>The breakers as the next reader sees them.\<close>

definition file_breaker :: "string \<Rightarrow> state_file \<Rightarrow> breaker" where
  "file_breaker name f = (case read_provider_state name f of
     Inr d \<Rightarrow> breaker_of d | Inl _ \<Rightarrow> breaker_of [])"

definition file_method_breaker :: "string \<Rightarrow> string \<Rightarrow> state_file \<Rightarrow> breaker option" where
  "file_method_breaker name m f = (case read_provider_state name f of
     Inr d \<Rightarrow> (if m \<in> set HEAVY_RPC_METHODS then method_breaker m d else None) | Inl _ \<Rightarrow> None)"

lemma wf_provider_state_new: "wf_provider_state (empty_provider_state name)"
proof -
  have k: "dget (empty_provider_state name) k = Some v"
    if "(k, v) \<in> set (empty_provider_state name)" for k v
    using that by (intro in_set_dget) (simp_all add: empty_provider_state_def empty_availability_state_def)
  have "int_at (empty_provider_state name) k" if "k \<in> set state_counters" for k
    using that by (simp only: state_counters_def list.set) (elim insertE; simp add: int_at_def empty_provider_state_def)
  moreover have "float_at (empty_provider_state name) ''last_request_at_epoch''"
    by (simp add: float_at_def empty_provider_state_def)
  moreover have "wf_availability (empty_provider_state name)"
    by (simp add: wf_availability_def int_at_def float_at_def empty_provider_state_def empty_availability_state_def)
  moreover have "dget (empty_provider_state name) ''schema_version'' = Some (PInt RPC_PROVIDER_STATE_SCHEMA_VERSION)"
    by (simp add: empty_provider_state_def)
  moreover have "dget (empty_provider_state name) ''method_metrics'' = Some (PDict [])"
    by (simp add: empty_provider_state_def empty_availability_state_def)
  moreover have "dget (empty_provider_state name) ''method_availability'' =
      Some (PDict (map (\<lambda>m. (m, PDict empty_availability_state)) HEAVY_RPC_METHODS))"
    by (simp add: empty_provider_state_def empty_availability_state_def)
  moreover have "\<forall>m \<in> set HEAVY_RPC_METHODS. dget (map (\<lambda>m. (m, PDict empty_availability_state)) HEAVY_RPC_METHODS) m =
      Some (PDict empty_availability_state)"
    by (simp add: HEAVY_RPC_METHODS_def)
  ultimately show ?thesis using wf_availability_new by (simp add: wf_provider_state_def)
qed

lemma read_provider_total:
  assumes "wf_provider_file f"
  shows "\<exists>d. read_provider_state name f = Inr d \<and> wf_provider_state d \<and> breaker_of d = file_breaker name f \<and>
    (\<forall>m \<in> set HEAVY_RPC_METHODS. method_breaker m d = file_method_breaker name m f)"
proof -
  obtain e where e: "read_json (name @ ''.json'') f (empty_provider_state name) = Inr e" "wf_provider_state e"
    using assms wf_provider_state_new by (auto simp: wf_provider_file_def)
  then show ?thesis
    using migrate_wf [OF e(2), of name]
    by (auto simp: read_provider_state_def file_breaker_def file_method_breaker_def)
qed

lemma written_file:
  assumes "wf_provider_state d"
  shows "wf_provider_file (Content (PDict d))" "file_breaker name (Content (PDict d)) = breaker_of d"
    "m \<in> set HEAVY_RPC_METHODS \<Longrightarrow> file_method_breaker name m (Content (PDict d)) = method_breaker m d"
  using assms migrate_wf [OF assms, of name]
  by (auto simp: wf_provider_file_def read_provider_state_def file_breaker_def file_method_breaker_def)

abbreviation supported :: "string \<Rightarrow> bool" where
  "supported name \<equiv> name \<in> fst ` set PROVIDER_ENVIRONMENTS"

lemma provider_locked [simp]:
  "supported name \<Longrightarrow> provider_locked name lk body = locked name lk body"
  "\<not> supported name \<Longrightarrow> provider_locked name lk body = Inl (ValueError ''unsupported RPC provider name'')"
  by (simp_all add: provider_locked_def state_path_def)

lemma provider_update_supported: "provider_update name lk change f = (Inr u, f') \<Longrightarrow> supported name"
  by (cases "supported name") (simp_all add: provider_update_def)

lemma outcome_supported:
  "record_provider_success p m t lk now f = (Inr u, f') \<Longrightarrow> supported (provider_name p)"
  "record_provider_failure p r x m t lk now f = (Inr u, f') \<Longrightarrow> supported (provider_name p)"
  unfolding record_provider_success_def record_provider_failure_def by (rule provider_update_supported, assumption)+

lemma reserve_supported:
  "reserve_provider_slot p m retry failover lk now woke (f, ts) = (Inr u, f', ts') \<Longrightarrow> supported (provider_name p)"
  by (cases "supported (provider_name p)") (simp_all add: reserve_provider_slot_def)

lemma provider_update_total:
  assumes "wf_provider_file f" "supported name"
    and "\<And>d. wf_provider_state d \<Longrightarrow> breaker_of d = file_breaker name f \<Longrightarrow>
      (\<forall>m \<in> set HEAVY_RPC_METHODS. method_breaker m d = file_method_breaker name m f) \<Longrightarrow>
      \<exists>d'. change d = Inr d' \<and> wf_provider_state d' \<and> Q (breaker_of d') (\<lambda>m. method_breaker m d')"
  shows "\<exists>f'. provider_update name True change f = (Inr (), f') \<and> wf_provider_file f' \<and>
    (\<exists>g. Q (file_breaker name f') g \<and> (\<forall>m \<in> set HEAVY_RPC_METHODS. g m = file_method_breaker name m f'))"
proof -
  obtain d where d: "read_provider_state name f = Inr d" "wf_provider_state d" "breaker_of d = file_breaker name f"
      "\<forall>m \<in> set HEAVY_RPC_METHODS. method_breaker m d = file_method_breaker name m f"
    using read_provider_total [OF assms(1)] by blast
  obtain d' where d': "change d = Inr d'" "wf_provider_state d'" "Q (breaker_of d') (\<lambda>m. method_breaker m d')"
    using assms(3) [OF d(2-4)] by blast
  obtain e where e: "increment ''version'' d' = Inr e" "wf_provider_state e" "breaker_of e = breaker_of d'" "same_methods d' e"
    using counter_step [OF d'(2), of "''version''"] by (auto simp: state_counters_def)
  have "provider_update name True change f = (Inr (), Content (PDict e))"
    using d(1) d'(1) e(1) assms(2) by (simp add: provider_update_def locked_def)
  then show ?thesis
    using written_file(1) [OF e(2)] written_file(2) [OF e(2), of name] written_file(3) [OF e(2), where name = name] e(3,4) d'(3)
    by (fastforce simp: same_methods_def)
qed

lemma record_success_total:
  assumes "wf_provider_file f" "supported (provider_name p)"
  shows "\<exists>f'. record_provider_success p m t True now f = (Inr (), f') \<and> wf_provider_file f' \<and>
    file_breaker (provider_name p) f' = shut (file_breaker (provider_name p) f) \<and>
    (m \<in> set HEAVY_RPC_METHODS \<longrightarrow> file_method_breaker (provider_name p) m f' =
       map_option shut (file_method_breaker (provider_name p) m f))"
  using provider_update_total [OF assms, of "success_change m t now"
      "\<lambda>b g. b = shut (file_breaker (provider_name p) f) \<and> (m \<in> set HEAVY_RPC_METHODS \<longrightarrow>
         g m = map_option shut (file_method_breaker (provider_name p) m f))"]
    success_change_total [of _ m t now]
  by (fastforce simp: record_provider_success_def)

lemma record_failure_total:
  assumes "wf_provider_file f" "supported (provider_name p)"
  shows "\<exists>f'. record_provider_failure p r x m t True now f = (Inr (), f') \<and> wf_provider_file f' \<and>
    (if failure_uses_method_availability m x
     then file_breaker (provider_name p) f' = shut (file_breaker (provider_name p) f) \<and>
       (\<exists>b. file_method_breaker (provider_name p) m f = Some b \<and> file_method_breaker (provider_name p) m f' =
          Some ((after_trip x (method_half_open_probe r) now b)\<lparr>lease := Fin 0\<rparr>))
     else file_breaker (provider_name p) f' =
       (after_trip x (half_open_probe r) now (file_breaker (provider_name p) f))\<lparr>lease := Fin 0\<rparr>)"
proof (cases "failure_uses_method_availability m x")
  case True
  then have m: "m \<in> set HEAVY_RPC_METHODS" by (simp add: failure_uses_method_availability_def)
  have *: "\<exists>d'. failure_change m t r x now d = Inr d' \<and> wf_provider_state d' \<and>
      (breaker_of d' = shut (file_breaker (provider_name p) f) \<and>
       (\<exists>b. file_method_breaker (provider_name p) m f = Some b \<and> method_breaker m d' =
          Some ((after_trip x (method_half_open_probe r) now b)\<lparr>lease := Fin 0\<rparr>)))"
    if "wf_provider_state d" "breaker_of d = file_breaker (provider_name p) f"
      "\<forall>m \<in> set HEAVY_RPC_METHODS. method_breaker m d = file_method_breaker (provider_name p) m f" for d
    using method_failure_total [OF that(1) True, of t r now] that(2,3) m by auto
  let ?Q = "\<lambda>b g. b = shut (file_breaker (provider_name p) f) \<and>
       (\<exists>b. file_method_breaker (provider_name p) m f = Some b \<and> g m =
          Some ((after_trip x (method_half_open_probe r) now b)\<lparr>lease := Fin 0\<rparr>))"
  obtain f' g where "provider_update (provider_name p) True (failure_change m t r x now) f = (Inr (), f')" "wf_provider_file f'"
      "?Q (file_breaker (provider_name p) f') g" "\<forall>m \<in> set HEAVY_RPC_METHODS. g m = file_method_breaker (provider_name p) m f'"
    using provider_update_total [OF assms, of "failure_change m t r x now" ?Q, OF *] by blast
  then show ?thesis using True m by (intro exI [of _ f']) (simp add: record_provider_failure_def)
next
  case False
  have *: "\<exists>d'. failure_change m t r x now d = Inr d' \<and> wf_provider_state d' \<and>
      breaker_of d' = (after_trip x (half_open_probe r) now (file_breaker (provider_name p) f))\<lparr>lease := Fin 0\<rparr>"
    if "wf_provider_state d" "breaker_of d = file_breaker (provider_name p) f" for d
    using provider_failure_total [OF that(1) False, of t r now] that(2) by auto
  let ?Q = "\<lambda>b (g :: string \<Rightarrow> breaker option).
      b = (after_trip x (half_open_probe r) now (file_breaker (provider_name p) f))\<lparr>lease := Fin 0\<rparr>"
  obtain f' g where "provider_update (provider_name p) True (failure_change m t r x now) f = (Inr (), f')" "wf_provider_file f'"
      "?Q (file_breaker (provider_name p) f') g"
    using provider_update_total [OF assms, of "failure_change m t r x now" ?Q, OF *] by blast
  then show ?thesis using False by (intro exI [of _ f']) (simp add: record_provider_failure_def)
qed

lemma record_exhaustion_total:
  assumes "wf_provider_file f" "supported name"
  shows "\<exists>f'. record_provider_exhaustion name m True f = (Inr (), f') \<and> wf_provider_file f'"
proof -
  have g: "\<exists>md'. increment ''exhaustion_count'' md = Inr md' \<and> wf_metric md'" if "wf_metric md" for md
    using metric_increment [OF that] by (simp add: metric_counters_def)
  then show ?thesis
    using provider_update_total [OF assms, of "update_method_metric m (increment ''exhaustion_count'')" "\<lambda>_ _. True"]
      metric_step [of _ "increment ''exhaustion_count''" m]
    by (fastforce simp: record_provider_exhaustion_def)
qed

text \<open>A reservation is refused by one of the two breakers, or written with the leases taken.\<close>

definition method_blocked :: "f64 \<Rightarrow> breaker option \<Rightarrow> string option" where
  "method_blocked now b = (case b of None \<Rightarrow> None | Some b \<Rightarrow> blocked now b)"

lemma reserve_total:
  assumes wf: "wf_provider_file f" and rate: "minimum_interval_seconds p = Inr interval" and sup: "supported (provider_name p)"
  shows "case blocked now (file_breaker (provider_name p) f) of
      Some r \<Rightarrow> reserve_provider_slot p m retry failover True now woke (f, ts) = (Inr (None, Some r), f, ts)
    | None \<Rightarrow> (case method_blocked now (file_method_breaker (provider_name p) m f) of
        Some r \<Rightarrow> reserve_provider_slot p m retry failover True now woke (f, ts) = (Inr (None, Some r), f, ts)
      | None \<Rightarrow> (\<exists>rs f' ts'. reserve_provider_slot p m retry failover True now woke (f, ts) = (Inr (Some rs, None), f', ts') \<and>
          wf_provider_file f' \<and> half_open_probe rs = probing (file_breaker (provider_name p) f) \<and>
          method_half_open_probe rs = (case file_method_breaker (provider_name p) m f of None \<Rightarrow> False | Some b \<Rightarrow> probing b) \<and>
          file_breaker (provider_name p) f' = after_probe now (file_breaker (provider_name p) f)))"
proof -
  let ?b = "file_breaker (provider_name p) f" and ?mb = "file_method_breaker (provider_name p) m f"
  obtain d where d: "read_provider_state (provider_name p) f = Inr d" "wf_provider_state d" "breaker_of d = ?b"
      "\<forall>m \<in> set HEAVY_RPC_METHODS. method_breaker m d = file_method_breaker (provider_name p) m f"
    using read_provider_total [OF wf] by blast
  have mb: "(if m \<in> set HEAVY_RPC_METHODS then method_breaker m d else None) = ?mb"
    using d(1) by (simp add: file_method_breaker_def)
  note adm = admit_request_total [OF d(2), where now = now and m = m, unfolded d(3) mb]
  consider r where "blocked now ?b = Some r" | r where "blocked now ?b = None" "method_blocked now ?mb = Some r"
    | "blocked now ?b = None" "method_blocked now ?mb = None" by fastforce
  then show ?thesis
  proof cases
    case 1
    then show ?thesis using adm d(1) by (simp add: reserve_provider_slot_def locked_def sup)
  next
    case 2
    then show ?thesis using adm d(1)
      by (auto simp: reserve_provider_slot_def locked_def sup method_blocked_def split: option.splits)
  next
    case 3
    have "\<exists>e. admit_request m now d = Inr (Inr (probing ?b, (case ?mb of None \<Rightarrow> False | Some b \<Rightarrow> probing b), e)) \<and>
        wf_provider_state e \<and> breaker_of e = after_probe now ?b"
      using adm 3 by (auto simp: method_blocked_def split: option.splits)
    then obtain mp e where e: "mp = (case ?mb of None \<Rightarrow> False | Some b \<Rightarrow> probing b)"
        "admit_request m now d = Inr (Inr (probing ?b, mp, e))" "wf_provider_state e" "breaker_of e = after_probe now ?b" by blast
    define start where "start =
       (if f64_lt now (f64_max now (f64_add (safe_epoch (dgetn e ''last_request_at_epoch'')) interval)) then woke
        else f64_max now (f64_add (safe_epoch (dgetn e ''last_request_at_epoch'')) interval))"
    obtain bucket bursts ts' where att: "physical_pacing_attribution p m start ts = ((bucket, bursts), ts')"
      by (cases "physical_pacing_attribution p m start ts") auto
    obtain g where g: "start_request p m retry failover start e = Inr g" "wf_provider_state g" "breaker_of g = breaker_of e"
      using start_request_total [OF e(3)] by blast
    show ?thesis
      using d(1) e rate att g 3 written_file(1) [OF g(2)] written_file(2) [OF g(2), of "provider_name p"]
      by (simp add: reserve_provider_slot_def locked_def sup Let_def start_def [symmetric] split del: if_split)
  qed
qed

section \<open>Sequences of operations\<close>

text \<open>The operations of the router on the file of one provider, with their inputs; the first says whether the lock
  of the file is granted in time.\<close>

datatype provider_op =
    Reserve (op_lock: bool) string bool bool f64 f64
  | Success (op_lock: bool) string f64 f64
  | Failure (op_lock: bool) string provider_reservation provider_failure f64 f64
  | Exhaustion (op_lock: bool) string

fun provider_step :: "rpc_provider \<Rightarrow> provider_op \<Rightarrow> state_file \<times> f64 list \<Rightarrow> unit res \<times> state_file \<times> f64 list" where
  "provider_step p (Reserve lk m retry failover now woke) (f, ts) =
     (case reserve_provider_slot p m retry failover lk now woke (f, ts) of (r, f, ts) \<Rightarrow> (bindE r (\<lambda>_. Inr ()), f, ts))"
| "provider_step p (Success lk m t now) (f, ts) =
     (case record_provider_success p m t lk now f of (r, f) \<Rightarrow> (r, f, ts))"
| "provider_step p (Failure lk m r x t now) (f, ts) =
     (case record_provider_failure p r x m t lk now f of (r, f) \<Rightarrow> (r, f, ts))"
| "provider_step p (Exhaustion lk m) (f, ts) =
     (case record_provider_exhaustion (provider_name p) m lk f of (r, f) \<Rightarrow> (r, f, ts))"

text \<open>The results of a sequence of operations, and the file after it.\<close>

fun provider_run :: "rpc_provider \<Rightarrow> provider_op list \<Rightarrow> state_file \<times> f64 list \<Rightarrow> unit res list \<times> state_file \<times> f64 list" where
  "provider_run p [] s = ([], s)"
| "provider_run p (x # xs) s = (case provider_step p x s of (r, s) \<Rightarrow>
     (case provider_run p xs s of (rs, s) \<Rightarrow> (r # rs, s)))"

text \<open>What an operation on a supported provider returns, and what it raises for a name that is not.\<close>

definition op_result :: "rpc_provider \<Rightarrow> provider_op \<Rightarrow> unit res" where
  "op_result p x = (if \<not> supported (provider_name p) then Inl (ValueError ''unsupported RPC provider name'')
     else if op_lock x then Inr () else Inl (StateLockTimeout (''timed out locking '' @ provider_name p)))"

lemma provider_step_refused:
  assumes "\<not> supported (provider_name p) \<or> \<not> op_lock x"
  shows "provider_step p x (f, ts) = (op_result p x, f, ts)"
  using assms
  by (cases x; cases "supported (provider_name p)") (simp_all add: op_result_def reserve_provider_slot_def record_provider_success_def
      record_provider_failure_def record_provider_exhaustion_def provider_update_def locked_def)

lemma provider_step_total:
  assumes "wf_provider_file f" "minimum_interval_seconds p = Inr interval" "supported (provider_name p)" "op_lock x"
  shows "\<exists>f' ts'. provider_step p x (f, ts) = (Inr (), f', ts') \<and> wf_provider_file f'"
proof (cases x)
  case (Reserve lk m retry failover now woke)
  have "\<exists>r f' ts'. reserve_provider_slot p m retry failover True now woke (f, ts) = (Inr r, f', ts') \<and> wf_provider_file f'"
    using reserve_total [OF assms(1,2,3), where now = now and m = m and retry = retry and failover = failover and woke = woke
        and ts = ts] assms(1) by (fastforce split: option.splits)
  then show ?thesis using assms(4) by (auto simp: Reserve)
next
  case (Success lk m t now)
  then show ?thesis using record_success_total [OF assms(1,3), of m t now] assms(4) by auto
next
  case (Failure lk m r y t now)
  then show ?thesis using record_failure_total [OF assms(1,3), of r y m t now] assms(4) by auto
next
  case (Exhaustion lk m)
  then show ?thesis using record_exhaustion_total [OF assms(1,3), of m] assms(4) by auto
qed

lemma provider_run_total:
  assumes "minimum_interval_seconds p = Inr interval"
  shows "wf_provider_file f \<Longrightarrow> \<exists>f' ts'. provider_run p xs (f, ts) = (map (op_result p) xs, f', ts') \<and> wf_provider_file f'
    \<and> (list_all (\<lambda>x. op_result p x \<noteq> Inr ()) xs \<longrightarrow> f' = f)"
proof (induction xs arbitrary: f ts)
  case (Cons x xs)
  obtain f1 t1 where 1: "provider_step p x (f, ts) = (op_result p x, f1, t1)" "wf_provider_file f1" "op_result p x \<noteq> Inr () \<longrightarrow> f1 = f"
  proof (cases "supported (provider_name p) \<and> op_lock x")
    case True
    then show thesis using provider_step_total [OF Cons.prems assms, of x ts] that by (auto simp: op_result_def)
  next
    case False
    then show thesis using provider_step_refused [of p x f ts] Cons.prems that by auto
  qed
  then show ?case using Cons.IH [OF 1(2), of t1] by auto
qed auto

section \<open>Properties\<close>

definition sample_provider :: "string \<Rightarrow> rpc_provider" where
  "sample_provider name = \<lparr>provider_name = name, url = ''https://rpc'', max_rps = Fin 2,
     public_fallback = (name = ''solana_public'')\<rparr>"

definition sample_file :: "string \<Rightarrow> int \<Rightarrow> state_file" where
  "sample_file c n = Content (PDict (dset ''consecutive_failures'' (PInt n)
     (dset ''circuit_state'' (PStr c) (empty_provider_state ''ankr''))))"

lemma sample_interval: "minimum_interval_seconds (sample_provider name) = Inr (f64_div (Fin 1) (Fin 2))"
  by (simp add: minimum_interval_seconds_def sample_provider_def f64_truediv_def)

lemma sample_file_wf:
  assumes "c \<in> {''CLOSED'', ''OPEN'', ''HALF_OPEN''}"
  shows "wf_provider_file (sample_file c n)"
    "file_breaker name (sample_file c n) = \<lparr>circuit = c, cooldown = Fin 0, lease = Fin 0, fails = n\<rparr>"
proof -
  let ?d = "dset ''consecutive_failures'' (PInt n) (dset ''circuit_state'' (PStr c) (empty_provider_state ''ankr''))"
  have wf: "wf_provider_state ?d"
    using wf_either_dset(1,3) [OF wf_provider_either] wf_provider_state_new assms by blast
  have "breaker_of (empty_provider_state ''ankr'') = \<lparr>circuit = ''CLOSED'', cooldown = Fin 0, lease = Fin 0, fails = 0\<rparr>"
    by (simp add: breaker_of_def circuit_of_def str_field_def empty_provider_state_def empty_availability_state_def)
  then have "breaker_of ?d = \<lparr>circuit = c, cooldown = Fin 0, lease = Fin 0, fails = n\<rparr>"
    by (simp add: breaker_of_dset(2) [OF assms] breaker_of_dset(5))
  then show "wf_provider_file (sample_file c n)"
    "file_breaker name (sample_file c n) = \<lparr>circuit = c, cooldown = Fin 0, lease = Fin 0, fails = n\<rparr>"
    using written_file(1,2) [OF wf] by (simp_all add: sample_file_def)
qed

lemma sample_supported: "supported (provider_name (sample_provider ''ankr''))"
  by (simp add: sample_provider_def PROVIDER_ENVIRONMENTS_def)



lemma blocked_half_open:
  "circuit b = ''HALF_OPEN'' \<Longrightarrow> f64_lt now (lease b) \<Longrightarrow> blocked now b = Some ''half_open_lease''"
  by (simp add: blocked_def)

text \<open>C12: A half-open circuit admits one probe: after a reservation that took the probe at \<open>now\<close>, every
  reservation at the same provider before the end of the 20 seconds of its lease, for whatever
  method, is refused and writes nothing.\<close>
theorem half_open_probe_is_single:
  assumes "wf_provider_file f" "minimum_interval_seconds p = Inr interval"
    and "reserve_provider_slot p m retry failover True now woke (f, ts) = (Inr (Some rs, u), f', ts')"
    and "half_open_probe rs" "f64_lt now' (epoch (f64_add now RPC_HALF_OPEN_LEASE_SECONDS))"
  shows "reserve_provider_slot p m' retry' failover' True now' woke' (f', ts'') = (Inr (None, Some ''half_open_lease''), f', ts'')"
proof -
  note sup = reserve_supported [OF assms(3)]
  let ?b = "file_breaker (provider_name p) f"
  have "wf_provider_file f' \<and> probing ?b \<and> file_breaker (provider_name p) f' = after_probe now ?b"
    using reserve_total [OF assms(1,2) sup, where now = now and m = m and retry = retry and failover = failover
        and woke = woke and ts = ts] assms(3,4)
    by (auto split: option.splits)
  moreover then have "blocked now' (file_breaker (provider_name p) f') = Some ''half_open_lease''"
    using assms(5) by (intro blocked_half_open) (simp_all add: after_probe_def)
  ultimately show ?thesis
    using reserve_total [OF _ assms(2) sup, where now = now' and m = m' and retry = retry' and failover = failover'
        and woke = woke' and ts = ts'' and f = f'] by simp
qed

lemma sample_half_open_admits:
  "\<exists>rs f' ts'. reserve_provider_slot (sample_provider ''ankr'') ''getHealth'' False False True (Fin 100) (Fin 100)
     (sample_file ''OPEN'' 3, []) = (Inr (Some rs, None), f', ts') \<and> half_open_probe rs"
proof -
  have wf: "wf_provider_file (sample_file ''OPEN'' 3)" by (rule sample_file_wf) simp
  show ?thesis
    using reserve_total [OF wf sample_interval sample_supported, where now = "Fin 100" and m = "''getHealth''"
      and retry = False and failover = False and woke = "Fin 100" and ts = "[]"]
    by (auto simp: sample_file_wf(2) blocked_def probing_def method_blocked_def file_method_breaker_def HEAVY_RPC_METHODS_def
      sample_provider_def f64_lt_def split: option.splits sum.splits)
qed

lemma sample_lease: "f64_lt (Fin 110) (epoch (f64_add (Fin 100) RPC_HALF_OPEN_LEASE_SECONDS))"
  by code_simp

theorem half_open_probe_is_single_witness:
  "\<exists>f' ts'. reserve_provider_slot (sample_provider ''ankr'') ''getBalance'' True True True (Fin 110) (Fin 110) (f', ts') =
     (Inr (None, Some ''half_open_lease''), f', ts')"
proof -
  obtain rs f' ts' where r: "reserve_provider_slot (sample_provider ''ankr'') ''getHealth'' False False True (Fin 100) (Fin 100)
     (sample_file ''OPEN'' 3, []) = (Inr (Some rs, None), f', ts')" "half_open_probe rs"
    using sample_half_open_admits by blast
  have "wf_provider_file (sample_file ''OPEN'' 3)" by (rule sample_file_wf) simp
  from half_open_probe_is_single [OF this sample_interval r sample_lease] show ?thesis by blast
qed

lemma f64_max_lt: "f64_lt x b \<Longrightarrow> f64_is_finite b \<Longrightarrow> f64_is_finite a \<Longrightarrow> f64_lt x (f64_max a b)"
  by (cases x; cases a; cases b) (auto simp: f64_max_def f64_lt_def)

lemma f64_max_finite: "f64_is_finite a \<Longrightarrow> f64_is_finite b \<Longrightarrow> f64_is_finite (f64_max a b)"
  by (simp add: f64_max_def)

lemma epoch_finite [simp]: "f64_is_finite (epoch x)" and epoch_nonneg: "f64_le (Fin 0) (epoch x)"
  by (simp_all add: epoch_def)

lemma epoch_max: "f64_is_finite a \<Longrightarrow> f64_le (Fin 0) b \<Longrightarrow> f64_is_finite b \<Longrightarrow> epoch (f64_max a b) = f64_max a b"
  by (cases a; cases b) (auto simp: epoch_def f64_max_def f64_lt_def)

lemma cooldown_finite: "f64_is_finite (cooldown (file_breaker name f))"
  by (auto simp: file_breaker_def breaker_of_def safe_epoch_def split: sum.splits)

text \<open>C10: A tripped circuit stays open: after a transient failure of the provider that came from the
  half-open probe or was the third in a row, every reservation at that provider in the 60 seconds
  after it, for whatever method, is refused and writes nothing.\<close>
theorem tripped_circuit_blocks:
  assumes "wf_provider_file f" "minimum_interval_seconds p = Inr interval"
    and "record_provider_failure p rs x m t True now f = (Inr (), f')"
    and "transient x" "\<not> failure_uses_method_availability m x"
    and "half_open_probe rs \<or> 2 \<le> fails (file_breaker (provider_name p) f)"
    and "f64_is_finite (f64_add now (f64_max (Fin 0) (retry_delay_seconds x)))"
    and "f64_is_finite (f64_add now RPC_CIRCUIT_COOLDOWN_SECONDS)" "f64_le (Fin 0) (f64_add now RPC_CIRCUIT_COOLDOWN_SECONDS)"
    and "f64_lt now' (f64_add now RPC_CIRCUIT_COOLDOWN_SECONDS)"
  shows "reserve_provider_slot p m' retry failover True now' woke (f', ts) = (Inr (None, Some ''circuit_open_cooldown''), f', ts)"
proof -
  note sup = outcome_supported(2) [OF assms(3)]
  let ?b = "file_breaker (provider_name p) f" and ?b' = "file_breaker (provider_name p) f'"
  let ?pause = "f64_max (cooldown ?b) (f64_add now (f64_max (Fin 0) (retry_delay_seconds x)))"
    and ?stop = "f64_add now RPC_CIRCUIT_COOLDOWN_SECONDS"
  have f': "wf_provider_file f'" "?b' = (after_trip x (half_open_probe rs) now ?b)\<lparr>lease := Fin 0\<rparr>"
    using record_failure_total [OF assms(1) sup, of rs x m t now] assms(3,5) by auto
  have "half_open_probe rs \<or> RPC_CIRCUIT_FAILURE_THRESHOLD \<le> fails ?b + 1"
    using assms(6) by (auto simp: RPC_CIRCUIT_FAILURE_THRESHOLD_def)
  then have "circuit ?b' = ''OPEN''" "cooldown ?b' = epoch (f64_max ?pause ?stop)"
    using assms(4) by (auto simp: f'(2) after_trip_def Let_def)
  moreover have "f64_is_finite ?pause" using cooldown_finite assms(7) by (rule f64_max_finite)
  ultimately have "blocked now' ?b' = Some ''circuit_open_cooldown''"
    using epoch_max [OF _ assms(9,8)] f64_max_lt [OF assms(10,8)] by (simp add: blocked_def)
  then show ?thesis
    using reserve_total [OF f'(1) assms(2) sup, where now = now' and m = m' and retry = retry and failover = failover
        and woke = woke and ts = ts] by simp
qed

definition sample_failure :: "bool \<Rightarrow> provider_failure" where
  "sample_failure limited = \<lparr>failed_provider = ''ankr'', transient = True, rate_limited = limited, retry_delay_seconds = Fin 2,
     retry_source = ''exponential'', category = (if limited then ''RATE_LIMIT'' else ''TIMEOUT'')\<rparr>"

definition no_probe :: provider_reservation where
  "no_probe = \<lparr>half_open_probe = False, method_half_open_probe = False, pacing_request_epoch = None,
     pacing_interval_bucket = None, pacing_burst_buckets = []\<rparr>"

lemma sample_cooldown:
  "f64_is_finite (f64_add (Fin 100) (f64_max (Fin 0) (retry_delay_seconds (sample_failure False))))"
  "f64_is_finite (f64_add (Fin 100) RPC_CIRCUIT_COOLDOWN_SECONDS)"
  "f64_le (Fin 0) (f64_add (Fin 100) RPC_CIRCUIT_COOLDOWN_SECONDS)"
  "f64_lt (Fin 150) (f64_add (Fin 100) RPC_CIRCUIT_COOLDOWN_SECONDS)"
  by code_simp+

theorem tripped_circuit_blocks_witness:
  "\<exists>f'. reserve_provider_slot (sample_provider ''ankr'') ''getBalance'' False False True (Fin 150) (Fin 150) (f', []) =
     (Inr (None, Some ''circuit_open_cooldown''), f', [])"
proof -
  have wf: "wf_provider_file (sample_file ''CLOSED'' 2)" by (rule sample_file_wf) simp
  obtain f' where f': "record_provider_failure (sample_provider ''ankr'') no_probe (sample_failure False) ''getHealth'' (Fin 9) True
      (Fin 100) (sample_file ''CLOSED'' 2) = (Inr (), f')"
    using record_failure_total [OF wf sample_supported] by blast
  have "2 \<le> fails (file_breaker (provider_name (sample_provider ''ankr'')) (sample_file ''CLOSED'' 2))"
    by (simp add: sample_file_wf(2))
  then show ?thesis
    using tripped_circuit_blocks [OF wf sample_interval f' _ _ _ sample_cooldown, of "''getBalance''" False False "Fin 150" "[]"]
    by (auto simp: sample_failure_def failure_uses_method_availability_def)
qed

lemma method_failure_effect:
  assumes "wf_provider_file f" "minimum_interval_seconds p = Inr interval"
    and "record_provider_failure p rs x m t True now f = (Inr (), f')"
    and "transient x" "failure_uses_method_availability m x" "\<not> method_half_open_probe rs"
    and "file_method_breaker (provider_name p) m f = Some b" "fails b + 1 < RPC_CIRCUIT_FAILURE_THRESHOLD" "f64_is_finite (cooldown b)"
    and "f64_add now (f64_max (Fin 0) (retry_delay_seconds x)) = Fin until" "0 \<le> until" "0 \<le> now'"
  shows "m' \<notin> set HEAVY_RPC_METHODS \<Longrightarrow> \<exists>rs f'' ts'. reserve_provider_slot p m' retry failover True (Fin now') woke (f', ts) =
      (Inr (Some rs, None), f'', ts')"
    and "now' < until \<Longrightarrow> reserve_provider_slot p m retry failover True (Fin now') woke (f', ts) = (Inr (None, Some ''cooldown''), f', ts)"
proof -
  note sup = outcome_supported(2) [OF assms(3)]
  let ?b' = "file_breaker (provider_name p) f'" and ?mb' = "file_method_breaker (provider_name p) m f'"
  let ?pause = "f64_max (cooldown b) (Fin until)"
  have f': "wf_provider_file f'" "?b' = shut (file_breaker (provider_name p) f)"
      "?mb' = Some ((after_trip x (method_half_open_probe rs) now b)\<lparr>lease := Fin 0\<rparr>)"
    using record_failure_total [OF assms(1) sup, of rs x m t now] assms(3,5,7) by auto
  have open_b: "blocked (Fin now') ?b' = None" using assms(12) by (simp add: f'(2) shut_def blocked_def f64_lt_def)
  show "\<exists>rs f'' ts'. reserve_provider_slot p m' retry failover True (Fin now') woke (f', ts) = (Inr (Some rs, None), f'', ts')"
    if "m' \<notin> set HEAVY_RPC_METHODS"
  proof -
    have "file_method_breaker (provider_name p) m' f' = None"
      using that by (auto simp: file_method_breaker_def split: sum.splits)
    then show ?thesis
      using reserve_total [OF f'(1) assms(2) sup, where now = "Fin now'" and m = m' and retry = retry and failover = failover
          and woke = woke and ts = ts] open_b by (auto simp: method_blocked_def)
  qed
  assume lt: "now' < until"
  have "?mb' = Some (b\<lparr>fails := fails b + 1, circuit := ''CLOSED'', cooldown := ?pause, lease := Fin 0\<rparr>)"
    using assms(4,6,8,9,10,11) epoch_max [of "cooldown b" "Fin until"] by (simp add: f'(3) after_trip_def Let_def)
  moreover have "f64_lt (Fin now') ?pause"
    using lt assms(9) by (intro f64_max_lt) (simp_all add: f64_lt_def)
  ultimately have "method_blocked (Fin now') ?mb' = Some ''cooldown''" by (simp add: method_blocked_def blocked_def)
  then show "reserve_provider_slot p m retry failover True (Fin now') woke (f', ts) = (Inr (None, Some ''cooldown''), f', ts)"
    using reserve_total [OF f'(1) assms(2) sup, where now = "Fin now'" and m = m and retry = retry and failover = failover
        and woke = woke and ts = ts] open_b by simp
qed

text \<open>A rate limit or an upstream error of a heavy method concerns that method alone: the provider stays
  open at once for every method that has no availability of its own, while the method itself is
  refused until the provider's retry delay has passed.\<close>
theorem method_failure_spares_provider:
  assumes "wf_provider_file f" "minimum_interval_seconds p = Inr interval"
    and "record_provider_failure p rs x m t True now f = (Inr (), f')"
    and "transient x" "failure_uses_method_availability m x" "\<not> method_half_open_probe rs"
    and "file_method_breaker (provider_name p) m f = Some b" "fails b + 1 < RPC_CIRCUIT_FAILURE_THRESHOLD" "f64_is_finite (cooldown b)"
    and "f64_add now (f64_max (Fin 0) (retry_delay_seconds x)) = Fin until" "0 \<le> now'" "now' < until"
    and "m' \<notin> set HEAVY_RPC_METHODS"
  shows "(\<exists>rs f'' ts'. reserve_provider_slot p m' retry failover True (Fin now') woke (f', ts) = (Inr (Some rs, None), f'', ts')) \<and>
    reserve_provider_slot p m retry failover True (Fin now') woke (f', ts) = (Inr (None, Some ''cooldown''), f', ts)"
  using method_failure_effect [OF assms(1-10) _ assms(11)] assms(11-13) by simp

lemma sample_until: "f64_add (Fin 100) (f64_max (Fin 0) (retry_delay_seconds (sample_failure True))) = Fin 102"
  by code_simp

lemma fresh_method_breaker:
  "m \<in> set HEAVY_RPC_METHODS \<Longrightarrow> file_method_breaker name m Missing = Some \<lparr>circuit = ''CLOSED'', cooldown = Fin 0, lease = Fin 0, fails = 0\<rparr>"
proof -
  assume m: "m \<in> set HEAVY_RPC_METHODS"
  have "method_breaker m (empty_provider_state name) = Some (breaker_of empty_availability_state)"
    using m by (auto simp: method_breaker_def empty_provider_state_def empty_availability_state_def HEAVY_RPC_METHODS_def)
  also have "breaker_of empty_availability_state = \<lparr>circuit = ''CLOSED'', cooldown = Fin 0, lease = Fin 0, fails = 0\<rparr>"
    by (simp add: breaker_of_def circuit_of_def str_field_def empty_availability_state_def)
  finally show ?thesis
    using migrate_wf [OF wf_provider_state_new, of name name] m by (auto simp: file_method_breaker_def read_provider_state_def)
qed

lemma fresh_breaker: "file_breaker name Missing = \<lparr>circuit = ''CLOSED'', cooldown = Fin 0, lease = Fin 0, fails = 0\<rparr>"
proof -
  have "breaker_of (empty_provider_state name) = \<lparr>circuit = ''CLOSED'', cooldown = Fin 0, lease = Fin 0, fails = 0\<rparr>"
    by (simp add: breaker_of_def circuit_of_def str_field_def empty_provider_state_def empty_availability_state_def)
  then show ?thesis
    using migrate_wf [OF wf_provider_state_new, of name name] by (auto simp: file_breaker_def read_provider_state_def)
qed

theorem method_failure_spares_provider_witness:
  "\<exists>f' rs f'' ts'. reserve_provider_slot (sample_provider ''ankr'') ''getHealth'' False False True (Fin 101) (Fin 101) (f', []) =
     (Inr (Some rs, None), f'', ts') \<and>
   reserve_provider_slot (sample_provider ''ankr'') ''getTransaction'' False False True (Fin 101) (Fin 101) (f', []) =
     (Inr (None, Some ''cooldown''), f', [])"
proof -
  have m: "''getTransaction'' \<in> set HEAVY_RPC_METHODS" "''getHealth'' \<notin> set HEAVY_RPC_METHODS"
    by (simp_all add: HEAVY_RPC_METHODS_def)
  have wf: "wf_provider_file Missing" by (simp add: wf_provider_file_def)
  obtain f' where f': "record_provider_failure (sample_provider ''ankr'') no_probe (sample_failure True) ''getTransaction'' (Fin 9) True
      (Fin 100) Missing = (Inr (), f')"
    using record_failure_total [OF wf sample_supported] by blast
  have c: "transient (sample_failure True)" "failure_uses_method_availability ''getTransaction'' (sample_failure True)"
      "\<not> method_half_open_probe no_probe"
    using m by (simp_all add: sample_failure_def failure_uses_method_availability_def no_probe_def)
  note t = method_failure_spares_provider [OF wf sample_interval f' c fresh_method_breaker [OF m(1)] _ _ sample_until]
  show ?thesis
    using t [of 101 "''getHealth''" False False "Fin 101" "[]"] m(2)
    by (auto simp: RPC_CIRCUIT_FAILURE_THRESHOLD_def)
qed

text \<open>C11: A success closes the circuit: after a recorded success of a method, the next request for it is
  admitted at once, as an ordinary request and not as a probe, whatever the circuit was before.\<close>
theorem success_closes_circuit:
  assumes "wf_provider_file f" "minimum_interval_seconds p = Inr interval"
    and "record_provider_success p m t True now f = (Inr (), f')" "0 \<le> now'"
  shows "\<exists>rs f'' ts'. reserve_provider_slot p m retry failover True (Fin now') woke (f', ts) = (Inr (Some rs, None), f'', ts') \<and>
    \<not> half_open_probe rs \<and> \<not> method_half_open_probe rs"
proof -
  note sup = outcome_supported(1) [OF assms(3)]
  let ?b' = "file_breaker (provider_name p) f'" and ?mb' = "file_method_breaker (provider_name p) m f'"
  have f': "wf_provider_file f'" "?b' = shut (file_breaker (provider_name p) f)"
    "m \<in> set HEAVY_RPC_METHODS \<longrightarrow> ?mb' = map_option shut (file_method_breaker (provider_name p) m f)"
    using record_success_total [OF assms(1) sup, of m t now] assms(3) by auto
  have s: "blocked (Fin now') (shut b) = None" "\<not> probing (shut b)" for b
    using assms(4) by (simp_all add: shut_def blocked_def probing_def f64_lt_def)
  have "?mb' = None \<or> (\<exists>b. ?mb' = Some (shut b))"
  proof (cases "m \<in> set HEAVY_RPC_METHODS")
    case True
    then show ?thesis using f'(3) by (cases "file_method_breaker (provider_name p) m f") auto
  next
    case False
    then show ?thesis by (auto simp: file_method_breaker_def split: sum.splits)
  qed
  then show ?thesis
    using reserve_total [OF f'(1) assms(2) sup, where now = "Fin now'" and m = m and retry = retry and failover = failover
        and woke = woke and ts = ts] f'(2) s by (auto simp: method_blocked_def)
qed

theorem success_closes_circuit_witness:
  "\<exists>f' rs f'' ts'. reserve_provider_slot (sample_provider ''ankr'') ''getHealth'' False False True (Fin 101) (Fin 101) (f', []) =
     (Inr (Some rs, None), f'', ts') \<and> \<not> half_open_probe rs"
proof -
  have wf: "wf_provider_file (sample_file ''OPEN'' 3)" by (rule sample_file_wf) simp
  obtain f' where "record_provider_success (sample_provider ''ankr'') ''getHealth'' (Fin 9) True (Fin 100) (sample_file ''OPEN'' 3) = (Inr (), f')"
    using record_success_total [OF wf sample_supported] by blast
  from success_closes_circuit [OF wf sample_interval this, of 101 False False "Fin 101" "[]"] show ?thesis by auto
qed

end
