(* ===== verification/RpcRouting.thy ===== *)
theory RpcRouting
  imports RpcCircuit
begin

text \<open>
  Properties of the RPC router: the bounds of a call and what it returns, and the circuit
  breaker of a provider across its operations.
\<close>

section \<open>The call\<close>

text \<open>What the loop over the attempts keeps of its state.\<close>

definition counted :: "rpc_state \<Rightarrow> bool" where
  "counted s \<longleftrightarrow> length (requested s) = attempts_used s"

lemma set_file_simps [simp]:
  "provider_files (set_file n f s) = (provider_files s)(n := f)" "pacing_times (set_file n f s) = pacing_times s"
  "reservations (set_file n f s) = reservations s" "attempts_used (set_file n f s) = attempts_used s"
  "failures (set_file n f s) = failures s" "requested (set_file n f s) = requested s"
  "slept (set_file n f s) = slept s" "skip_reasons (set_file n f s) = skip_reasons s"
  by (simp_all add: set_file_def)

text \<open>
  An attempt makes no request or one, of its provider; an answer is the result field of the
  response of its event, which had no error.
\<close>

definition answers :: "rpc_event \<Rightarrow> py \<Rightarrow> bool" where
  "answers e v \<longleftrightarrow> (\<exists>status hs d. answer e = Answer status hs (PDict d) \<and> status < 400 \<and>
     \<not> truthy (dgetn d ''error'') \<and> v = dgetn d ''result'')"

lemma request_result_authentic:
  "provider_request_once a = Result v \<Longrightarrow>
   \<exists>status hs d. a = Answer status hs (PDict d) \<and> status < 400 \<and> \<not> truthy (dgetn d ''error'') \<and> v = dgetn d ''result''"
  by (auto simp: provider_request_once_def Let_def split: rpc_answer.splits if_splits py.splits)

lemma attempt_provider_effect:
  assumes "attempt_provider http_date e m budget failover after p i last_local s = (r, s')"
  shows "requested s' = requested s \<and> attempts_used s' = attempts_used s \<and> r \<noteq> None \<or>
      requested s' = requested s @ [provider_name p] \<and> attempts_used s' = Suc (attempts_used s)"
    and "r = Some (Answered v) \<Longrightarrow> answers e v"
    and "reservations s' = Suc (reservations s)"
proof -
  let ?name = "provider_name p"
  obtain rv f ts where rv: "reserve_provider_slot p m (0 < i) failover (reserve_lock e) (reserve_now e)
        (woke_at e) (provider_files s ?name, pacing_times s) = (rv, f, ts)"
    by (cases "reserve_provider_slot p m (0 < i) failover (reserve_lock e) (reserve_now e)
        (woke_at e) (provider_files s ?name, pacing_times s)") auto
  note run = assms [unfolded attempt_provider_def Let_def rv prod.case]
  show "requested s' = requested s \<and> attempts_used s' = attempts_used s \<and> r \<noteq> None \<or>
      requested s' = requested s @ [provider_name p] \<and> attempts_used s' = Suc (attempts_used s)"
    "r = Some (Answered v) \<Longrightarrow> answers e v" "reservations s' = Suc (reservations s)"
    using run
    by (auto simp: answers_def split: sum.splits option.splits prod.splits request_result.splits if_splits
        dest!: request_result_authentic)
qed

lemma provider_attempts_requests:
  "provider_attempts http_date ev m budget failover after p i n s = (r, s') \<Longrightarrow> attempts_used s \<le> budget \<Longrightarrow>
   (\<exists>k \<le> n. requested s' = requested s @ replicate k (provider_name p) \<and>
     attempts_used s' = attempts_used s + k \<and> attempts_used s' \<le> budget) \<and>
   (\<forall>v. r = Answered v \<longrightarrow> reservations s' \<noteq> 0 \<and> answers (ev (reservations s' - 1)) v)"
proof (induction n arbitrary: i s)
  case (Suc n)
  show ?case
  proof (cases "budget \<le> attempts_used s")
    case True
    then show ?thesis using Suc.prems by (auto intro!: exI [of _ 0])
  next
    case False
    obtain q s1 where a: "attempt_provider http_date (ev (reservations s)) m budget failover after p i (n = 0) s = (q, s1)"
      by (cases "attempt_provider http_date (ev (reservations s)) m budget failover after p i (n = 0) s")
    note e = attempt_provider_effect [OF a]
    show ?thesis
    proof (cases q)
      case (Some flow)
      then have s': "s' = s1" "r = flow" using Suc.prems(1) False a by simp_all
      show ?thesis
      proof (cases "requested s' = requested s")
        case True
        then show ?thesis using e s' Some False by (auto intro!: exI [of _ 0])
      next
        case False2: False
        then show ?thesis using e s' Some False by (auto intro!: exI [of _ 1])
      qed
    next
      case None
      then have r: "provider_attempts http_date ev m budget failover after p (Suc i) n s1 = (r, s')"
        using Suc.prems(1) False a by simp
      have s1: "requested s1 = requested s @ [provider_name p]" "attempts_used s1 = Suc (attempts_used s)"
        using e(1) None by auto
      obtain k where "k \<le> n" "requested s' = requested s1 @ replicate k (provider_name p)"
          "attempts_used s' = attempts_used s1 + k" "attempts_used s' \<le> budget"
          "\<forall>v. r = Answered v \<longrightarrow> reservations s' \<noteq> 0 \<and> answers (ev (reservations s' - 1)) v"
        using Suc.IH [OF r] s1(2) False by auto
      then show ?thesis using s1 by (intro conjI exI [of _ "Suc k"]) auto
    qed
  qed
qed auto

lemma try_providers_requests:
  "try_providers http_date ev m budget local failover ps s = (r, s') \<Longrightarrow> attempts_used s \<le> budget \<Longrightarrow>
   distinct (map provider_name ps) \<Longrightarrow>
   (\<exists>names. requested s' = requested s @ names \<and> attempts_used s' = attempts_used s + length names \<and>
     attempts_used s' \<le> budget \<and> set names \<subseteq> provider_name ` set ps \<and>
     (\<forall>x. count_list names x \<le> local)) \<and>
   (\<forall>v. r = Answered v \<longrightarrow> reservations s' \<noteq> 0 \<and> answers (ev (reservations s' - 1)) v)"
proof (induction ps arbitrary: failover s)
  case (Cons p ps)
  obtain q s1 where a: "provider_attempts http_date ev m budget failover (length ps) p 0 local s = (q, s1)"
    by (cases "provider_attempts http_date ev m budget failover (length ps) p 0 local s")
  obtain k where k: "k \<le> local" "requested s1 = requested s @ replicate k (provider_name p)"
      "attempts_used s1 = attempts_used s + k" "attempts_used s1 \<le> budget"
      "\<forall>v. q = Answered v \<longrightarrow> reservations s1 \<noteq> 0 \<and> answers (ev (reservations s1 - 1)) v"
    using provider_attempts_requests [OF a Cons.prems(2)] by blast
  have count: "count_list (replicate k y) x \<le> k" for x y :: string
    by (induction k) auto
  show ?case
  proof (cases "q = NextProvider \<and> attempts_used s1 < budget")
    case True
    then have t: "try_providers http_date ev m budget local True ps s1 = (r, s')"
      using Cons.prems(1) a by simp
    have d: "distinct (map provider_name ps)" "provider_name p \<notin> provider_name ` set ps" using Cons.prems(3) by auto
    obtain names where n: "requested s' = requested s1 @ names" "attempts_used s' = attempts_used s1 + length names"
        "attempts_used s' \<le> budget" "set names \<subseteq> provider_name ` set ps" "\<forall>x. count_list names x \<le> local"
        "\<forall>v. r = Answered v \<longrightarrow> reservations s' \<noteq> 0 \<and> answers (ev (reservations s' - 1)) v"
      using Cons.IH [OF t k(4) d(1)] by blast
    have "count_list (replicate k (provider_name p) @ names) x \<le> local" for x
    proof (cases "x = provider_name p")
      case True
      then have "count_list names x = 0" using n(4) d(2) by (auto simp: count_list_0_iff)
      with count [of "provider_name p" x] k(1) show ?thesis by simp
    next
      case False
      then have "count_list (replicate k (provider_name p)) x = 0" by (simp add: count_list_0_iff)
      with n(5) show ?thesis by simp
    qed
    then show ?thesis using n k
      by (intro conjI exI [of _ "replicate k (provider_name p) @ names"]) auto
  next
    case False
    then have "s' = s1" "r = q" using Cons.prems(1) a by (auto split: rpc_flow.splits if_splits)
    then show ?thesis using k count
      by (intro conjI exI [of _ "replicate k (provider_name p)"]) (auto intro: order_trans)
  qed
qed simp

lemma provider_named_name: "provider_named ps name = Some p \<Longrightarrow> provider_name p = name"
  by (auto simp: provider_named_def find_Some_iff)

lemma map_filter_named:
  "(\<And>n p. f n = Some p \<Longrightarrow> provider_name p = n) \<Longrightarrow>
   map provider_name (List.map_filter f names) = filter (\<lambda>n. f n \<noteq> None) names"
  by (induction names) (auto simp: List.map_filter_simps split: option.splits)

lemma ordered_providers_distinct: "distinct (map provider_name (ordered_providers ps m workload))"
  unfolding ordered_providers_def Let_def
  by (subst map_filter_named)
    (auto simp: HEAVY_PROVIDER_ORDER_def LIGHT_PROVIDER_ORDER_def dest: provider_named_name
      split: option.splits if_splits)

lemma positive_int_range: "positive_int setting most v = Inr n \<Longrightarrow> 0 < n \<and> n \<le> most"
  by (auto simp: positive_int_def split: sum.splits if_splits)

lemma provider_named_in: "provider_named ps name = Some p \<Longrightarrow> p \<in> set ps"
  by (auto simp: provider_named_def find_Some_iff) (metis nth_mem length_rev set_rev)

lemma in_map_filterD: "x \<in> set (List.map_filter f xs) \<Longrightarrow> \<exists>a. f a = Some x"
  by (induction xs) (auto simp: List.map_filter_simps split: option.splits)

lemma ordered_providers_configured: "p \<in> set (ordered_providers ps m workload) \<Longrightarrow> p \<in> set ps"
  unfolding ordered_providers_def Let_def
  by (auto dest!: in_map_filterD intro: provider_named_in split: option.splits if_splits)

text \<open>A call that reaches its providers is the run over them, followed by the exhaustion mark.\<close>

lemma solana_rpc_call_run:
  assumes "solana_rpc_call http_date ev lk m workload ps overall attempts files ts = (r, s)"
  shows "requested s = [] \<and> attempts_used s = 0 \<and> (\<forall>v. r \<noteq> Inr v) \<or>
    (\<exists>budget n q t s0. budget \<le> 20 \<and> n \<le> 3 \<and> attempts_used s0 = 0 \<and> requested s0 = [] \<and>
      try_providers http_date ev m budget n False (ordered_providers ps m workload) s0 = (q, t) \<and>
      requested s = requested t \<and> attempts_used s = attempts_used t \<and> reservations s = reservations t \<and>
      (\<forall>v. r = Inr v \<longrightarrow> q = Answered v))"
proof -
  define s0 where "s0 = \<lparr>provider_files = files, pacing_times = ts, reservations = 0, attempts_used = 0,
      failures = [], requested = [], slept = [], skip_reasons = []\<rparr>"
  show ?thesis
  proof (cases "\<exists>b n. ordered_providers ps m workload \<noteq> [] \<and>
      positive_int ''SOLANA_RPC_OVERALL_ATTEMPT_BUDGET'' 20 overall = Inr b \<and>
      positive_int ''SOLANA_RPC_PROVIDER_ATTEMPTS'' 3 attempts = Inr n")
    case False
    then show ?thesis
      using assms by (auto simp: solana_rpc_call_def Let_def split: if_splits sum.splits)
  next
    case True
    then obtain b n where bn: "ordered_providers ps m workload \<noteq> []"
      "positive_int ''SOLANA_RPC_OVERALL_ATTEMPT_BUDGET'' 20 overall = Inr b"
      "positive_int ''SOLANA_RPC_PROVIDER_ATTEMPTS'' 3 attempts = Inr n" by blast
    obtain q t where t: "try_providers http_date ev m (nat b) (nat n) False (ordered_providers ps m workload) s0 = (q, t)"
      by (cases "try_providers http_date ev m (nat b) (nat n) False (ordered_providers ps m workload) s0")
    have run: "requested s = requested t \<and> attempts_used s = attempts_used t \<and> reservations s = reservations t \<and>
        (\<forall>v. r = Inr v \<longrightarrow> q = Answered v)"
      using assms [unfolded solana_rpc_call_def Let_def, folded s0_def] bn t
      by (auto split: rpc_flow.splits if_splits prod.splits sum.splits)
    moreover have "nat b \<le> 20" "nat n \<le> 3" using positive_int_range [OF bn(2)] positive_int_range [OF bn(3)] by auto
    moreover have "attempts_used s0 = 0" "requested s0 = []" by (simp_all add: s0_def)
    ultimately show ?thesis using t by blast
  qed
qed

text \<open>C12: A call of the RPC router is bounded, whatever the providers answer, the state files hold and
  the settings are: it makes at most 20 requests, at most 3 of them to any one provider, only to
  configured providers, and it counts each of them.\<close>
theorem rpc_call_bounded:
  "case solana_rpc_call http_date ev lk m workload ps overall attempts files ts of (r, s) \<Rightarrow>
     attempts_used s \<le> 20 \<and> length (requested s) = attempts_used s \<and>
     count_list (requested s) name \<le> 3 \<and> set (requested s) \<subseteq> provider_name ` set ps"
proof -
  obtain r s where call: "solana_rpc_call http_date ev lk m workload ps overall attempts files ts = (r, s)"
    by (cases "solana_rpc_call http_date ev lk m workload ps overall attempts files ts")
  from solana_rpc_call_run [OF call]
  have "attempts_used s \<le> 20 \<and> length (requested s) = attempts_used s \<and>
     count_list (requested s) name \<le> 3 \<and> set (requested s) \<subseteq> provider_name ` set ps"
  proof (elim disjE exE conjE)
    fix budget n q t s0
    assume a: "budget \<le> (20 :: nat)" "n \<le> (3 :: nat)" "attempts_used s0 = 0" "requested s0 = []"
      "try_providers http_date ev m budget n False (ordered_providers ps m workload) s0 = (q, t)"
      "requested s = requested t" "attempts_used s = attempts_used t"
    from try_providers_requests [OF a(5) _ ordered_providers_distinct] a(3)
    obtain names where "requested t = requested s0 @ names" "attempts_used t = attempts_used s0 + length names"
      "attempts_used t \<le> budget" "set names \<subseteq> provider_name ` set (ordered_providers ps m workload)"
      "\<forall>x. count_list names x \<le> n" by auto
    then show ?thesis
      using a by (auto dest: ordered_providers_configured intro: order_trans)
  qed simp
  then show ?thesis by (simp add: call)
qed

text \<open>A value that the router returns is the \<open>result\<close> field of the answer of the last provider it asked:
  an HTTP status below 400 with a JSON object whose \<open>error\<close> field is empty.\<close>
theorem rpc_answer_authentic:
  assumes "solana_rpc_call http_date ev lk m workload ps overall attempts files ts = (Inr v, s)"
  shows "\<exists>status hs d. answer (ev (reservations s - 1)) = Answer status hs (PDict d) \<and> status < 400 \<and>
    \<not> truthy (dgetn d ''error'') \<and> v = dgetn d ''result''"
proof -
  from solana_rpc_call_run [OF assms] obtain budget n t s0 where
    a: "attempts_used s0 = 0" "reservations s = reservations t"
      "try_providers http_date ev m budget n False (ordered_providers ps m workload) s0 = (Answered v, t)"
    by auto
  from try_providers_requests [OF a(3) _ ordered_providers_distinct] a(1,2) show ?thesis
    by (simp add: answers_def)
qed

text \<open>A call with one provider, which answers.\<close>

definition sample_event :: "rpc_answer \<Rightarrow> rpc_event" where
  "sample_event a = \<lparr>reserve_lock = True, outcome_lock = True, reserve_now = Fin 100, woke_at = Fin 100,
     answer = a, latency = Fin 12, backoff_now = Fin 100, outcome_now = Fin 100, sample = Fin 0\<rparr>"

definition sample_answer :: rpc_answer where
  "sample_answer = Answer 200 no_headers (PDict [(''result'', PStr ''ok'')])"

lemma sample_request: "provider_request_once sample_answer = Result (PStr ''ok'')"
  by (simp add: sample_answer_def provider_request_once_def RPC_RETRYABLE_HTTP_STATUSES_def payload_rate_limited_def)

lemma sample_attempt:
  assumes "attempts_used s = 0" "provider_files s = (\<lambda>_. Missing)"
  shows "\<exists>t. attempt_provider (\<lambda>_. None) (sample_event sample_answer) ''getHealth'' 6 False 0
     (sample_provider ''ankr'') 0 l s = (Some (Answered (PStr ''ok'')), t)"
proof -
  have wf: "wf_provider_file Missing" by (simp add: wf_provider_file_def)
  have b: "file_breaker ''ankr'' Missing = \<lparr>circuit = ''CLOSED'', cooldown = Fin 0, lease = Fin 0, fails = 0\<rparr>"
    by (rule fresh_breaker)
  have n: "provider_name (sample_provider ''ankr'') = ''ankr''" by (simp add: sample_provider_def)
  obtain rs f ts where r: "reserve_provider_slot (sample_provider ''ankr'') ''getHealth'' False False True (Fin 100) (Fin 100)
      (Missing, pacing_times s) = (Inr (Some rs, None), f, ts)" "wf_provider_file f"
    using reserve_total [OF wf sample_interval sample_supported, where now = "Fin 100" and m = "''getHealth''"
        and retry = False and failover = False and woke = "Fin 100" and ts = "pacing_times s"]
    by (auto simp: n b blocked_def f64_lt_def method_blocked_def file_method_breaker_def HEAVY_RPC_METHODS_def
        split: option.splits sum.splits)
  obtain f' where o: "record_provider_success (sample_provider ''ankr'') ''getHealth'' (Fin 12) True (Fin 100) f = (Inr (), f')"
    using record_success_total [OF r(2) sample_supported] by blast
  show ?thesis
    using r(1) o assms by (simp add: attempt_provider_def sample_event_def sample_request n Let_def)
qed

lemma sample_call:
  "\<exists>s. solana_rpc_call (\<lambda>_. None) (\<lambda>_. sample_event sample_answer) True ''getHealth'' ''health''
     [sample_provider ''ankr''] (PInt 6) (PInt 1) (\<lambda>_. Missing) [] = (Inr (PStr ''ok''), s)"
proof -
  have o: "ordered_providers [sample_provider ''ankr''] ''getHealth'' ''health'' = [sample_provider ''ankr'']"
    by (simp add: ordered_providers_def HEAVY_RPC_METHODS_def HEAVY_WORKLOADS_def LIGHT_PROVIDER_ORDER_def
        List.map_filter_def provider_named_def sample_provider_def PROVIDER_UNSUPPORTED_METHODS_def)
  have p: "positive_int setting n (PInt k) = Inr k" if "0 < k" "k \<le> n" for setting n k
    using that by (simp add: positive_int_def)
  let ?s = "\<lparr>provider_files = \<lambda>_. Missing, pacing_times = [], reservations = 0, attempts_used = 0,
     failures = [], requested = [], slept = [], skip_reasons = []\<rparr>"
  obtain t where "attempt_provider (\<lambda>_. None) (sample_event sample_answer) ''getHealth'' 6 False 0
     (sample_provider ''ankr'') 0 True ?s = (Some (Answered (PStr ''ok'')), t)"
    using sample_attempt [of ?s True] by auto
  then show ?thesis by (simp add: solana_rpc_call_def o p)
qed

theorem rpc_answer_authentic_witness:
  "\<exists>status hs d. sample_answer = Answer status hs (PDict d) \<and>
     status < 400 \<and> \<not> truthy (dgetn d ''error'') \<and> PStr ''ok'' = dgetn d ''result''"
proof -
  obtain s where "solana_rpc_call (\<lambda>_. None) (\<lambda>_. sample_event sample_answer) True ''getHealth'' ''health''
     [sample_provider ''ankr''] (PInt 6) (PInt 1) (\<lambda>_. Missing) [] = (Inr (PStr ''ok''), s)"
    using sample_call by blast
  from rpc_answer_authentic [OF this] show ?thesis by (simp add: sample_event_def)
qed

end
