(* ===== verification/PyDecimal.thy ===== *)
theory PyDecimal
  imports PyText
begin

text \<open>
  Python's \<open>decimal.Decimal\<close> as far as the program uses it: reading a decimal from text, the
  arithmetic of the default context (28 significant digits, half to even, invalid operations and
  divisions by zero trapped), comparison, and rounding to an integer.  The limits of the
  context on exponents are left out.
\<close>

datatype decimal = Dec rat | DInf bool | DNaN bool

text \<open>\<open>DInf True\<close> is the negative infinity, \<open>DNaN True\<close> a signalling NaN.\<close>

definition dec_precision :: nat where "dec_precision = 28"

text \<open>The exponent of the last of the 28 digits of \<open>x > 0\<close>.\<close>

definition dec_quantum :: "rat \<Rightarrow> int" where
  "dec_quantum x = dec_exp x - int dec_precision + 1"

definition dec_round :: "rat \<Rightarrow> rat" where
  "dec_round x = (if x = 0 then 0
     else let q = 10 powi dec_quantum \<bar>x\<bar> in of_int (rhe (x / q)) * q)"

section \<open>Text\<close>

text \<open>The quiet and the signalling NaN may carry digits.\<close>

definition dec_of_string :: "string \<Rightarrow> decimal option" where
  "dec_of_string s = (let t = strip s; t = filter (\<lambda>c. c \<noteq> CHR ''_'') t; (sg, u) = split_sign t; u = lower u in
     if u = ''inf'' \<or> u = ''infinity'' then Some (DInf (sg < 0))
     else if take 3 u = ''nan'' \<and> list_all is_digit (drop 3 u) then Some (DNaN False)
     else if take 4 u = ''snan'' \<and> list_all is_digit (drop 4 u) then Some (DNaN True)
     else map_option Dec (decimal_of_string t))"

section \<open>Arithmetic\<close>

text \<open>A signalling NaN traps; a quiet one is the result.\<close>

definition dec_nan :: "decimal \<Rightarrow> decimal \<Rightarrow> decimal res \<Rightarrow> decimal res" where
  "dec_nan a b r = (if a = DNaN True \<or> b = DNaN True then Inl InvalidOperation
     else if a = DNaN False \<or> b = DNaN False then Inr (DNaN False) else r)"

fun dec_neg :: "decimal \<Rightarrow> decimal" where
  "dec_neg (Dec x) = Dec (- x)"
| "dec_neg (DInf n) = DInf (\<not> n)"
| "dec_neg d = d"

definition dec_add :: "decimal \<Rightarrow> decimal \<Rightarrow> decimal res" where
  "dec_add a b = dec_nan a b (case (a, b) of
     (Dec x, Dec y) \<Rightarrow> Inr (Dec (dec_round (x + y)))
   | (DInf m, DInf n) \<Rightarrow> (if m = n then Inr a else Inl InvalidOperation)
   | (DInf _, _) \<Rightarrow> Inr a
   | _ \<Rightarrow> Inr b)"

definition dec_sub :: "decimal \<Rightarrow> decimal \<Rightarrow> decimal res" where
  "dec_sub a b = dec_add a (dec_neg b)"

fun dec_negative :: "decimal \<Rightarrow> bool" where
  "dec_negative (Dec x) = (x < 0)"
| "dec_negative (DInf n) = n"
| "dec_negative (DNaN _) = False"

definition dec_mul :: "decimal \<Rightarrow> decimal \<Rightarrow> decimal res" where
  "dec_mul a b = dec_nan a b (case (a, b) of
     (Dec x, Dec y) \<Rightarrow> Inr (Dec (dec_round (x * y)))
   | _ \<Rightarrow> (if a = Dec 0 \<or> b = Dec 0 then Inl InvalidOperation
           else Inr (DInf (dec_negative a \<noteq> dec_negative b))))"

definition dec_div :: "decimal \<Rightarrow> decimal \<Rightarrow> decimal res" where
  "dec_div a b = dec_nan a b (case (a, b) of
     (Dec x, Dec y) \<Rightarrow> (if y = 0 then Inl (if x = 0 then InvalidOperation else ZeroDivisionError)
                        else Inr (Dec (dec_round (x / y))))
   | (DInf _, DInf _) \<Rightarrow> Inl InvalidOperation
   | (DInf m, _) \<Rightarrow> Inr (DInf (m \<noteq> dec_negative b))
   | _ \<Rightarrow> Inr (Dec 0))"

section \<open>Comparison\<close>

fun dec_le_ok :: "decimal \<Rightarrow> decimal \<Rightarrow> bool" where
  "dec_le_ok (Dec x) (Dec y) = (x \<le> y)"
| "dec_le_ok (DInf n) d = (n \<or> d = DInf False)"
| "dec_le_ok d (DInf n) = (\<not> n)"
| "dec_le_ok _ _ = False"

fun is_dec_nan :: "decimal \<Rightarrow> bool" where
  "is_dec_nan (DNaN _) = True"
| "is_dec_nan _ = False"

text \<open>\<open>a <= b\<close>: an order comparison with a NaN is an invalid operation.\<close>

definition dec_le :: "decimal \<Rightarrow> decimal \<Rightarrow> bool res" where
  "dec_le a b = (if is_dec_nan a \<or> is_dec_nan b then Inl InvalidOperation else Inr (dec_le_ok a b))"

definition dec_lt :: "decimal \<Rightarrow> decimal \<Rightarrow> bool res" where
  "dec_lt a b = bindE (dec_le b a) (\<lambda>ge. Inr (\<not> ge))"

text \<open>\<open>f"{d:.2f}"\<close>, and \<open>str(d.quantize(Decimal("0.01")))\<close>: the coefficient must keep to 28 digits.\<close>

fun dec_format2 :: "decimal \<Rightarrow> string" where
  "dec_format2 (Dec x) = fixed_rat 2 x"
| "dec_format2 (DInf n) = (if n then ''-Infinity'' else ''Infinity'')"
| "dec_format2 (DNaN n) = (if n then ''sNaN'' else ''NaN'')"

fun dec_quantize2 :: "decimal \<Rightarrow> string res" where
  "dec_quantize2 (Dec x) = (if 10 ^ dec_precision \<le> \<bar>rhe (x * 100)\<bar> then Inl InvalidOperation else Inr (fixed_rat 2 x))"
| "dec_quantize2 (DInf _) = Inl InvalidOperation"
| "dec_quantize2 (DNaN n) = (if n then Inl InvalidOperation else Inr ''NaN'')"

text \<open>\<open>math.ceil\<close> and \<open>int\<close>.\<close>

fun dec_ceil :: "decimal \<Rightarrow> int res" where
  "dec_ceil (Dec x) = Inr \<lceil>x\<rceil>"
| "dec_ceil (DInf _) = Inl OverflowError"
| "dec_ceil (DNaN _) = Inl (ValueError ''cannot convert NaN to integer'')"

fun dec_trunc :: "decimal \<Rightarrow> int res" where
  "dec_trunc (Dec x) = Inr (trunc_rat x)"
| "dec_trunc (DInf _) = Inl OverflowError"
| "dec_trunc (DNaN _) = Inl (ValueError ''cannot convert NaN to integer'')"

section \<open>Products of small integers are exact\<close>

lemma rhe_eqI: "x = of_int k \<Longrightarrow> rhe x = k"
  by simp

lemma dec_round_on_grid:
  assumes "x = of_int k * 10 powi e" "dec_quantum \<bar>x\<bar> \<le> e"
  shows "dec_round x = x"
proof (cases "x = 0")
  case False
  let ?q = "dec_quantum \<bar>x\<bar>"
  obtain m where m: "e = ?q + int m" using assms(2) zle_iff_zadd by blast
  have "(10 :: rat) powi e = 10 ^ m * 10 powi ?q" unfolding m by (subst power_int_add) simp_all
  then have "x = of_int (k * 10 ^ m) * 10 powi ?q" using assms(1) by simp
  then have eq: "x / 10 powi ?q = of_int (k * 10 ^ m)"
    using power_int_not_zero [of "10 :: rat" ?q] by (metis nonzero_mult_div_cancel_right zero_neq_numeral)
  have "of_int (rhe (x / 10 powi ?q)) * 10 powi ?q = x / 10 powi ?q * 10 powi ?q"
    by (simp only: eq rhe_of_int)
  then show ?thesis using False by (simp add: dec_round_def Let_def)
qed (simp add: dec_round_def)


lemma dec_nat_length:
  "0 < n \<Longrightarrow> 10 ^ (length (dec_nat n) - 1) \<le> n \<and> n < 10 ^ length (dec_nat n)"
proof (induction n rule: dec_nat.induct)
  case (1 n)
  show ?case
  proof (cases "n < 10")
    case True
    then show ?thesis using 1(2) by (simp add: dec_nat.simps [of n])
  next
    case False
    let ?l = "length (dec_nat (n div 10))"
    have ih: "10 ^ (?l - 1) \<le> n div 10" "n div 10 < 10 ^ ?l" using 1(1) False by auto
    have "?l > 0" by (cases "dec_nat (n div 10)") (use dec_nat.simps [of "n div 10"] in \<open>auto split: if_splits\<close>)
    then obtain m where m: "?l = Suc m" using gr0_implies_Suc by blast
    have "length (dec_nat n) = Suc ?l" using False by (simp add: dec_nat.simps [of n])
    then show ?thesis using ih by (simp add: m) linarith
  qed
qed

lemma dec_exp_le: "0 < x \<Longrightarrow> 10 powi dec_exp x \<le> x"
proof -
  assume x: "0 < x"
  obtain n d where nd: "quotient_of x = (n, d)" by (cases "quotient_of x")
  have d: "0 < d" using quotient_of_denom_pos [OF nd] .
  have xe: "x = of_int n / of_int d" using quotient_of_div [OF nd] .
  have n: "0 < n" using x d by (simp add: xe zero_less_divide_iff)
  let ?k = "int (length (dec_nat n)) - int (length (dec_nat d))"
  have "10 powi (?k - 1) \<le> x"
  proof -
    have ln: "0 < length (dec_nat n)" using dec_nat_length [OF n] n by (cases "dec_nat n") auto
    obtain m where m: "length (dec_nat n) = Suc m" using ln gr0_implies_Suc by blast
    have "(10 :: rat) powi (?k - 1) = 10 powi (int m - int (length (dec_nat d)))" by (simp add: m)
    also have "\<dots> = 10 ^ (length (dec_nat n) - 1) / 10 ^ length (dec_nat d)"
      by (subst power_int_diff) (simp_all add: m)
    also have "\<dots> \<le> of_int n / of_int d"
    proof (rule frac_le)
      show "(10 :: rat) ^ (length (dec_nat n) - 1) \<le> of_int n"
        using dec_nat_length [OF n] by (metis of_int_le_iff of_int_numeral of_int_power)
      show "(of_int d :: rat) \<le> 10 ^ length (dec_nat d)"
        using dec_nat_length [OF d] by (metis less_imp_le of_int_le_iff of_int_numeral of_int_power)
    qed (use n d in simp_all)
    finally show ?thesis by (simp add: xe)
  qed
  then show ?thesis by (simp add: dec_exp_def nd Let_def)
qed

lemma dec_exp_bound: "0 < x \<Longrightarrow> x < 10 ^ n \<Longrightarrow> dec_exp x < int n"
proof (rule ccontr)
  assume x: "0 < x" "x < 10 ^ n" "\<not> dec_exp x < int n"
  then have "(10 :: rat) powi int n \<le> 10 powi dec_exp x" by (intro power_int_increasing) simp_all
  also have "\<dots> \<le> x" using x(1) by (rule dec_exp_le)
  finally show False using x(2) by simp
qed

text \<open>A multiple of a hundredth below \<open>10 ^ 26\<close> is represented.\<close>

lemma dec_round_hundredths: "\<bar>n\<bar> < 10 ^ 28 \<Longrightarrow> dec_round (of_int n / 100) = of_int n / 100"
proof (rule dec_round_on_grid [of _ n "-2"])
  assume n: "\<bar>n\<bar> < 10 ^ 28"
  show "(of_int n / 100 :: rat) = of_int n * 10 powi - 2" by (simp add: power_int_def power2_eq_square)
  show "dec_quantum \<bar>of_int n / 100\<bar> \<le> - 2"
  proof (cases "n = 0")
    case True
    then show ?thesis by (simp add: dec_quantum_def dec_exp_def dec_precision_def dec_nat.simps power_int_def)
  next
    case False
    have "(of_int \<bar>n\<bar> :: rat) < of_int (10 ^ 28)" using n by (simp only: of_int_less_iff)
    then have "\<bar>of_int n / 100 :: rat\<bar> < 10 ^ 26" by simp
    then have "dec_exp \<bar>of_int n / 100\<bar> < 26" using dec_exp_bound [of "\<bar>of_int n / 100\<bar>" 26] False by simp
    then show ?thesis by (simp add: dec_quantum_def dec_precision_def)
  qed
qed

end
