(* ===== verification/Analyzer.thy ===== *)
theory Analyzer
  imports PyDecimal SolanaRpc "HOL-Library.AList"
begin

text \<open>
  The safety gate before a purchase, \<open>src/analyzer.py\<close>: what it reads from the mint account, the
  supply and the two reports of the rug check, the route it selects, and the cache and the shared
  analyses around it.  The replies of the services are arguments.
\<close>

section \<open>Settings and reports\<close>

definition ROUTE_B_MINIMUM_LIQUIDITY_USD :: decimal where "ROUTE_B_MINIMUM_LIQUIDITY_USD = Dec 10000"
definition ANALYZER_CACHE_TTL_SECONDS :: f64 where "ANALYZER_CACHE_TTL_SECONDS = float_lit 5"
definition ANALYZER_CACHE_MAX_ENTRIES :: nat where "ANALYZER_CACHE_MAX_ENTRIES = 128"

record analyzer_settings =
  settings_rpc_url :: string
  minimum_safety_score :: int
  maximum_developer_percent :: decimal
  minimum_lp_locked_percent :: decimal
  minimum_liquidity_usd :: decimal

definition analyzer_settings_from_env :: "environ \<Rightarrow> analyzer_settings res" where
  "analyzer_settings_from_env environ = bindE (provider_configs_from_env environ) (\<lambda>providers.
     if providers = [] then Inl (RuntimeError ''at least one Solana RPC provider must be configured'')
     else Inr \<lparr>settings_rpc_url = ''solana-rpc-router'', minimum_safety_score = 70,
       maximum_developer_percent = Dec 10, minimum_lp_locked_percent = Dec 80, minimum_liquidity_usd = Dec 10000\<rparr>)"

record safety_report =
  report_mint :: string
  safety_score :: int
  should_enter :: bool
  report_route :: "string option"
  developer_wallet :: "string option"
  developer_supply_percent :: "string option"
  developer_below_ten_percent :: bool
  mint_authority_renounced :: bool
  lp_locked :: bool
  lp_locked_percent :: "string option"
  report_liquidity_usd :: "string option"
  liquidity_above_minimum :: bool
  reasons :: "string list"
  report_sources :: "string list"

section \<open>The rug check\<close>

text \<open>
  The four attempts: each is answered by a status, the text of the client's error for a bad status and
  the decoded body, or raises.  The result, and the pauses between the attempts.
\<close>

fun rugcheck_loop :: "nat \<Rightarrow> int \<Rightarrow> (nat \<Rightarrow> (int \<times> string \<times> py res) res) \<Rightarrow> nat \<Rightarrow> dict option res \<times> int list" where
  "rugcheck_loop attempt delay replies 0 = (Inr None, [])"
| "rugcheck_loop attempt delay replies (Suc n) = (case replies attempt of
     Inl x \<Rightarrow> (Inl x, [])
   | Inr (st, err, payload) \<Rightarrow>
       (if st = 404 then (Inr None, [])
        else if st = 429 \<or> 500 \<le> st
        then (if attempt = 3 then (Inr None, [])
              else let (r, ds) = rugcheck_loop (attempt + 1) (delay * 2) replies n in (r, delay # ds))
        else if 400 \<le> st then (Inl (TransportError err), [])
        else (bindE payload (\<lambda>v. Inr (case v of PDict d \<Rightarrow> Some d | _ \<Rightarrow> None)), [])))"

definition rugcheck_get :: "(nat \<Rightarrow> (int \<times> string \<times> py res) res) \<Rightarrow> dict option res \<times> int list" where
  "rugcheck_get replies = rugcheck_loop 0 2 replies 4"

section \<open>The parts of the check\<close>

definition mint_authority :: "py \<Rightarrow> py res" where
  "mint_authority result =
     bindE (as_dict (py_or result (PDict []))) (\<lambda>d. case dgetn d ''value'' of
       PDict v \<Rightarrow> (case py_or (dgetn v ''data'') (PDict []) of
           PDict dt \<Rightarrow> (case dgetn dt ''parsed'' of
               PDict parsed \<Rightarrow>
                 (if dgetn parsed ''type'' \<noteq> PStr ''mint'' then Inl (ValueError ''address is not an SPL token mint'')
                  else bindE (as_dict (py_or (dgetn parsed ''info'') (PDict []))) (\<lambda>info.
                    Inr (dgetn info ''mintAuthority'')))
             | _ \<Rightarrow> Inl (ValueError ''address is not an SPL token mint''))
         | _ \<Rightarrow> Inl (ValueError ''address is not an SPL token mint''))
     | _ \<Rightarrow> Inl (ValueError ''mint account does not exist''))"

definition decimal_or_none :: "py \<Rightarrow> decimal option" where
  "decimal_or_none v = (if v = PNone then None else dec_of_string (py_str v))"

definition dec_sum :: "decimal list \<Rightarrow> decimal res" where
  "dec_sum ds = foldE dec_add (Dec 0) ds"

text \<open>The share of a holder entry that belongs to the creator.\<close>

definition holder_share :: "string option \<Rightarrow> py \<Rightarrow> decimal option" where
  "holder_share creator holder = (case (holder, creator) of
     (PDict h, Some c) \<Rightarrow>
       (if c \<noteq> [] \<and> py_or (dgetn h ''owner'') (dgetn h ''ownerAddress'') = PStr c
        then decimal_or_none (py_or (dgetn h ''pct'') (dgetn h ''percentage'')) else None)
   | _ \<Rightarrow> None)"

definition developer_percentage :: "dict option \<Rightarrow> int \<Rightarrow> (string option \<times> decimal option) res" where
  "developer_percentage report supply_raw = (case report of
     None \<Rightarrow> Inr (None, None)
   | Some d \<Rightarrow>
       (if d = [] \<or> supply_raw \<le> 0 then Inr (None, None)
        else let raw_creator = dgetn d ''creator'';
                 creator = (if truthy raw_creator then Some (py_str raw_creator) else None)
          in case decimal_or_none (dgetn d ''creatorBalance'') of
               Some raw_balance \<Rightarrow>
                 bindE (dec_mul raw_balance (Dec 100)) (\<lambda>x. bindE (dec_div x (Dec (of_int supply_raw))) (\<lambda>pct.
                   Inr (creator, Some pct)))
             | None \<Rightarrow> bindE (py_iter (py_or (dgetn d ''topHolders'') (PList []))) (\<lambda>holders.
                 let percentages = List.map_filter (holder_share creator) holders
                 in if percentages = [] then Inr (creator, None)
                    else bindE (dec_sum percentages) (\<lambda>pct. Inr (creator, Some pct)))))"

text \<open>\<open>min\<close> of a non-empty list, by comparing each element with the least so far.\<close>

definition dec_min :: "decimal list \<Rightarrow> decimal res" where
  "dec_min ds = foldE (\<lambda>least d. bindE (dec_lt d least) (\<lambda>lt. Inr (if lt then d else least))) (hd ds) (tl ds)"

definition market_lock :: "dict \<Rightarrow> decimal option res" where
  "market_lock lp = (case decimal_or_none (dgetn lp ''lpLockedPct'') of
     Some v \<Rightarrow> Inr (Some v)
   | None \<Rightarrow> (case (decimal_or_none (dgetn lp ''lpLocked''), decimal_or_none (dgetn lp ''lpUnlocked'')) of
         (Some locked_amount, Some unlocked) \<Rightarrow>
           bindE (dec_add locked_amount unlocked) (\<lambda>total_amount. bindE (dec_lt (Dec 0) total_amount) (\<lambda>positive.
             if positive then bindE (dec_mul locked_amount (Dec 100)) (\<lambda>x.
               bindE (dec_div x total_amount) (\<lambda>v. Inr (Some v)))
             else Inr None))
       | _ \<Rightarrow> Inr None))"

definition market_locks :: "decimal list \<Rightarrow> py \<Rightarrow> decimal list res" where
  "market_locks acc market = (case market of
     PDict d \<Rightarrow> (case py_or (dgetn d ''lp'') (PDict []) of
         PDict lp \<Rightarrow> bindE (market_lock lp) (\<lambda>v. Inr (case v of Some x \<Rightarrow> acc @ [x] | None \<Rightarrow> acc))
       | _ \<Rightarrow> Inr acc)
   | _ \<Rightarrow> Inr acc)"

definition aggregate_lock :: "dict option \<Rightarrow> decimal option" where
  "aggregate_lock container = (case container of None \<Rightarrow> None | Some d \<Rightarrow> decimal_or_none (dgetn d ''lpLockedPct''))"

definition opt_dict :: "dict option \<Rightarrow> dict" where
  "opt_dict d = (case d of None \<Rightarrow> [] | Some x \<Rightarrow> x)"

definition locked_percentage :: "dict option \<Rightarrow> dict option \<Rightarrow> decimal option res" where
  "locked_percentage summary report = (case aggregate_lock summary of
     Some v \<Rightarrow> Inr (Some v)
   | None \<Rightarrow> (case aggregate_lock report of
         Some v \<Rightarrow> Inr (Some v)
       | None \<Rightarrow> bindE (py_iter (py_or (dgetn (opt_dict report) ''markets'') (PList []))) (\<lambda>markets.
           bindE (foldE market_locks [] markets) (\<lambda>percentages.
             if percentages = [] then Inr None else bindE (dec_min percentages) (\<lambda>v. Inr (Some v))))))"

fun first_some :: "'a option list \<Rightarrow> 'a option" where
  "first_some [] = None"
| "first_some (Some x # xs) = Some x"
| "first_some (None # xs) = first_some xs"

definition market_liquidity :: "py \<Rightarrow> decimal option" where
  "market_liquidity market = (case market of
     PDict d \<Rightarrow> first_some (map decimal_or_none [dgetn d ''liquidityUsd'', dgetn d ''liquidityUSD'',
       (case dgetn d ''liquidity'' of PDict l \<Rightarrow> dgetn l ''usd'' | _ \<Rightarrow> PNone)])
   | _ \<Rightarrow> None)"

definition liquidity_usd :: "dict option \<Rightarrow> decimal option res" where
  "liquidity_usd report = (case report of
     None \<Rightarrow> Inr None
   | Some d \<Rightarrow>
       (if d = [] then Inr None
        else case first_some (map (\<lambda>k. decimal_or_none (dgetn d k))
               [''totalMarketLiquidity'', ''totalLiquidity'', ''liquidityUsd'', ''liquidityUSD'']) of
            Some v \<Rightarrow> Inr (Some v)
          | None \<Rightarrow> bindE (py_iter (py_or (dgetn d ''markets'') (PList []))) (\<lambda>markets.
              let values = List.map_filter market_liquidity markets
              in if values = [] then Inr None else bindE (dec_sum values) (\<lambda>v. Inr (Some v)))))"

section \<open>The route\<close>

text \<open>\<open>a and b\<close> on results: the second is not evaluated after a false first.\<close>

definition andE :: "bool res \<Rightarrow> bool res \<Rightarrow> bool res" where
  "andE a b = bindE a (\<lambda>x. if x then b else Inr False)"

definition some_and :: "'a option \<Rightarrow> ('a \<Rightarrow> bool res) \<Rightarrow> bool res" where
  "some_and v P = (case v of None \<Rightarrow> Inr False | Some x \<Rightarrow> P x)"

definition select_route_type ::
  "int \<Rightarrow> bool \<Rightarrow> bool \<Rightarrow> decimal option \<Rightarrow> decimal option \<Rightarrow> analyzer_settings \<Rightarrow> string option res" where
  "select_route_type score below_ten renounced lp liquidity settings =
     bindE (andE (Inr (minimum_safety_score settings \<le> score \<and> below_ten \<and> renounced))
             (andE (some_and lp (\<lambda>p. dec_le (minimum_lp_locked_percent settings) p))
                   (some_and liquidity (\<lambda>v. dec_le (minimum_liquidity_usd settings) v)))) (\<lambda>route_a.
     bindE (andE (Inr (below_ten \<and> renounced \<and> lp \<noteq> None))
             (andE (some_and liquidity (\<lambda>v. dec_le ROUTE_B_MINIMUM_LIQUIDITY_USD v))
                   (bindE (some_and lp (\<lambda>p. dec_lt p (minimum_lp_locked_percent settings))) (\<lambda>low.
                      if low then Inr True else some_and liquidity (\<lambda>v. dec_lt v (minimum_liquidity_usd settings)))))) (\<lambda>route_b.
       Inr (if route_a then Some ''A'' else if route_b then Some ''B'' else None)))"

section \<open>The analysis\<close>

text \<open>Each part of the check adds to the report, in the order of the code.\<close>

definition empty_report :: "string \<Rightarrow> safety_report" where
  "empty_report m = \<lparr>report_mint = m, safety_score = 0, should_enter = False, report_route = None,
     developer_wallet = None, developer_supply_percent = None, developer_below_ten_percent = False,
     mint_authority_renounced = False, lp_locked = False, lp_locked_percent = None, report_liquidity_usd = None,
     liquidity_above_minimum = False, reasons = [], report_sources = [''solana_rpc_router_finalized'']\<rparr>"

definition add_reason :: "string \<Rightarrow> safety_report \<Rightarrow> safety_report" where
  "add_reason t r = r\<lparr>reasons := reasons r @ [t]\<rparr>"

definition check_authority :: "py \<Rightarrow> safety_report \<Rightarrow> safety_report" where
  "check_authority authority r =
     (if authority = PNone then r\<lparr>mint_authority_renounced := True, safety_score := safety_score r + 35\<rparr>
      else add_reason ''Mint authority has not been renounced'' r)"

definition check_developer ::
  "analyzer_settings \<Rightarrow> string option \<Rightarrow> decimal option \<Rightarrow> safety_report \<Rightarrow> safety_report res" where
  "check_developer settings creator pct r =
     (let r = r\<lparr>developer_wallet := creator\<rparr> in case pct of
        None \<Rightarrow> Inr (add_reason ''Developer wallet balance could not be verified'' r)
      | Some p \<Rightarrow> bindE (dec_quantize2 p) (\<lambda>t. bindE (dec_lt p (maximum_developer_percent settings)) (\<lambda>below.
          let r = r\<lparr>developer_supply_percent := Some t, developer_below_ten_percent := below\<rparr>
          in Inr (if below then r\<lparr>safety_score := safety_score r + 30\<rparr>
                  else add_reason (''Developer wallet holds '' @ dec_format2 p @ ''% of supply'') r))))"

definition check_lock :: "analyzer_settings \<Rightarrow> decimal option \<Rightarrow> safety_report \<Rightarrow> safety_report res" where
  "check_lock settings lp r = (case lp of
     None \<Rightarrow> Inr (add_reason ''LP lock status could not be verified'' r)
   | Some p \<Rightarrow> bindE (dec_quantize2 p) (\<lambda>t. bindE (dec_le (minimum_lp_locked_percent settings) p) (\<lambda>enough.
       let r = r\<lparr>lp_locked_percent := Some t, lp_locked := enough\<rparr>
       in Inr (if enough then r\<lparr>safety_score := safety_score r + 35\<rparr>
               else add_reason (''Only '' @ dec_format2 p @ ''% of LP is locked/burned'') r))))"

definition check_liquidity :: "analyzer_settings \<Rightarrow> decimal option \<Rightarrow> safety_report \<Rightarrow> safety_report res" where
  "check_liquidity settings liquidity r = (case liquidity of
     None \<Rightarrow> Inr (add_reason ''USD liquidity could not be verified'' r)
   | Some v \<Rightarrow> bindE (dec_quantize2 v) (\<lambda>t. bindE (dec_le (minimum_liquidity_usd settings) v) (\<lambda>enough.
       let r = r\<lparr>report_liquidity_usd := Some t, liquidity_above_minimum := enough\<rparr>
       in Inr (if enough then r else add_reason ''Liquidity is below $10,000'' r))))"

definition check_sources :: "dict option \<Rightarrow> dict option \<Rightarrow> safety_report \<Rightarrow> safety_report" where
  "check_sources rug_report rug_summary r =
     (if rug_report \<noteq> None \<or> rug_summary \<noteq> None then r\<lparr>report_sources := report_sources r @ [''rugcheck'']\<rparr> else r)"

definition supply_amount :: "py \<Rightarrow> int res" where
  "supply_amount supply =
     bindE (as_dict (py_or supply (PDict []))) (\<lambda>d.
     bindE (as_dict (py_or (dgetn d ''value'') (PDict []))) (\<lambda>v.
       py_int (py_or (dgetn v ''amount'') (PStr ''0''))))"

text \<open>\<open>gathered\<close> are the four replies, or the first exception among them.\<close>

definition analyze_token_uncached ::
  "bool \<Rightarrow> string \<Rightarrow> analyzer_settings \<Rightarrow> (py \<times> py \<times> dict option \<times> dict option) res \<Rightarrow> safety_report res" where
  "analyze_token_uncached valid_mint m settings gathered =
     (if \<not> valid_mint then Inl (ValueError (''invalid mint address: '' @ m))
      else bindE gathered (\<lambda>(account, supply, rug_report, rug_summary).
        bindE (mint_authority account) (\<lambda>authority.
        let r = check_authority authority (empty_report m) in
        bindE (supply_amount supply) (\<lambda>supply_raw.
        bindE (developer_percentage rug_report supply_raw) (\<lambda>(creator, creator_pct).
        bindE (check_developer settings creator creator_pct r) (\<lambda>r.
        bindE (locked_percentage rug_summary rug_report) (\<lambda>lp_pct.
        bindE (check_lock settings lp_pct r) (\<lambda>r.
        bindE (liquidity_usd rug_report) (\<lambda>liquidity.
        bindE (check_liquidity settings liquidity r) (\<lambda>r.
        let r = check_sources rug_report rug_summary r in
        bindE (select_route_type (safety_score r) (developer_below_ten_percent r) (mint_authority_renounced r)
                 lp_pct liquidity settings) (\<lambda>route.
          Inr (r\<lparr>report_route := route, should_enter := route \<noteq> None\<rparr>))))))))))))"

section \<open>The cache and the shared analyses\<close>

type_synonym analysis_key = "string \<times> analyzer_settings"

text \<open>The reports with the times they expire at, and the running task of each key.\<close>

record analyzer_state =
  analysis_cache :: "(analysis_key \<times> (f64 \<times> safety_report)) list"
  analysis_flights :: "(analysis_key \<times> nat) list"

text \<open>The first key with the least expiry.\<close>

fun oldest_entry :: "(analysis_key \<times> (f64 \<times> safety_report)) list \<Rightarrow> analysis_key option" where
  "oldest_entry [] = None"
| "oldest_entry [(k, _)] = Some k"
| "oldest_entry ((k, (t, r)) # (k', (t', r')) # cs) =
     (if f64_lt t' t then oldest_entry ((k', (t', r')) # cs) else oldest_entry ((k, (t, r)) # cs))"

definition store_report ::
  "f64 \<Rightarrow> analysis_key \<Rightarrow> safety_report \<Rightarrow> (analysis_key \<times> (f64 \<times> safety_report)) list
     \<Rightarrow> (analysis_key \<times> (f64 \<times> safety_report)) list" where
  "store_report now key report cache =
     (let cache = filter (\<lambda>(_, (t, _)). \<not> f64_le t now) cache;
          cache = (if ANALYZER_CACHE_MAX_ENTRIES \<le> length cache
                   then (case oldest_entry cache of Some k \<Rightarrow> AList.delete k cache | None \<Rightarrow> cache) else cache)
      in AList.update key (f64_add now ANALYZER_CACHE_TTL_SECONDS, report) cache)"

text \<open>The end of a flight, task \<open>task\<close>: a report is stored, an exception is not; the flight is over.\<close>

definition run_analysis_flight ::
  "f64 \<Rightarrow> analysis_key \<Rightarrow> nat \<Rightarrow> safety_report res \<Rightarrow> analyzer_state \<Rightarrow> safety_report res \<times> analyzer_state" where
  "run_analysis_flight now key task result s =
     (let s = (case result of Inr report \<Rightarrow> s\<lparr>analysis_cache := store_report now key report (analysis_cache s)\<rparr>
               | Inl _ \<Rightarrow> s)
      in (result, if map_of (analysis_flights s) key = Some task
                  then s\<lparr>analysis_flights := AList.delete key (analysis_flights s)\<rparr> else s))"

text \<open>What a call finds: a report, or the task it waits for; \<open>fresh\<close> names a task that is started.\<close>

datatype lookup = CachedReport safety_report | JoinFlight nat | StartFlight nat

definition analyze_token :: "f64 \<Rightarrow> analysis_key \<Rightarrow> nat \<Rightarrow> analyzer_state \<Rightarrow> lookup \<times> analyzer_state" where
  "analyze_token now key fresh s =
     (case map_of (analysis_cache s) key of
        Some (expires_at, report) \<Rightarrow>
          (if f64_lt now expires_at then (CachedReport report, s)
           else let s = s\<lparr>analysis_cache := AList.delete key (analysis_cache s)\<rparr>
             in (case map_of (analysis_flights s) key of
                   Some task \<Rightarrow> (JoinFlight task, s)
                 | None \<Rightarrow> (StartFlight fresh, s\<lparr>analysis_flights := AList.update key fresh (analysis_flights s)\<rparr>)))
      | None \<Rightarrow> (case map_of (analysis_flights s) key of
             Some task \<Rightarrow> (JoinFlight task, s)
           | None \<Rightarrow> (StartFlight fresh, s\<lparr>analysis_flights := AList.update key fresh (analysis_flights s)\<rparr>)))"

text \<open>\<open>should_enter_token\<close>: client errors, timeouts, \<open>RuntimeError\<close> and \<open>ValueError\<close> are a no.\<close>

definition analysis_refuses :: "exc \<Rightarrow> bool" where
  "analysis_refuses x = (case x of
     TransportError _ \<Rightarrow> True | TimeoutError _ \<Rightarrow> True | StateLockTimeout _ \<Rightarrow> True
   | RuntimeError _ \<Rightarrow> True | JupiterNoRouteError _ \<Rightarrow> True | VersionConflict _ _ \<Rightarrow> True
   | ValueError _ \<Rightarrow> True | JSONDecodeError \<Rightarrow> True | _ \<Rightarrow> False)"

definition should_enter_token :: "safety_report res \<Rightarrow> bool res" where
  "should_enter_token r = (case r of
     Inr report \<Rightarrow> Inr (should_enter report)
   | Inl x \<Rightarrow> (if analysis_refuses x then Inr False else Inl x))"

definition analyzer_exit_code :: "safety_report \<Rightarrow> int" where
  "analyzer_exit_code r = (if should_enter r then 0 else 2)"

end
