(* ===== verification/AnalyzerSafety.thy ===== *)
theory AnalyzerSafety
  imports Analyzer
begin

text \<open>
  Properties of the analyzer: what the report of an approved token rests on, and the cache and
  the shared analyses over a run of calls.
\<close>

section \<open>Approved tokens\<close>

lemma dec_lt_ge: "dec_lt p q = Inr b \<Longrightarrow> dec_le q p = Inr (\<not> b)"
  by (auto simp: dec_lt_def bindE_eq_Inr)

lemma add_reason_fields [simp]:
  "safety_score (add_reason t r) = safety_score r"
  "developer_below_ten_percent (add_reason t r) = developer_below_ten_percent r"
  "mint_authority_renounced (add_reason t r) = mint_authority_renounced r"
  by (simp_all add: add_reason_def)

lemma check_sources_fields [simp]:
  "safety_score (check_sources a b r) = safety_score r"
  "developer_below_ten_percent (check_sources a b r) = developer_below_ten_percent r"
  "mint_authority_renounced (check_sources a b r) = mint_authority_renounced r"
  by (simp_all add: check_sources_def)

lemma check_developer_facts:
  assumes "check_developer settings creator pct r = Inr r'" "\<not> developer_below_ten_percent r"
  shows "(developer_below_ten_percent r' \<longleftrightarrow> (\<exists>p. pct = Some p \<and> dec_lt p (maximum_developer_percent settings) = Inr True)) \<and>
    safety_score r' = safety_score r + (if developer_below_ten_percent r' then 30 else 0) \<and>
    mint_authority_renounced r' = mint_authority_renounced r"
proof (cases pct)
  case (Some p)
  obtain t below where p: "dec_lt p (maximum_developer_percent settings) = Inr below"
    "r' = (let r = r\<lparr>developer_wallet := creator, developer_supply_percent := Some t, developer_below_ten_percent := below\<rparr>
       in if below then r\<lparr>safety_score := safety_score r + 30\<rparr>
          else add_reason (''Developer wallet holds '' @ dec_format2 p @ ''% of supply'') r)"
    using assms(1) Some by (auto simp: check_developer_def Let_def bindE_eq_Inr)
  then show ?thesis using Some by (cases below) simp_all
qed (use assms in \<open>auto simp: check_developer_def Let_def\<close>)

lemma check_lock_facts:
  assumes "check_lock settings lp r = Inr r'"
  shows "safety_score r' = safety_score r + (if (\<exists>p. lp = Some p \<and> dec_le (minimum_lp_locked_percent settings) p = Inr True) then 35 else 0) \<and>
    developer_below_ten_percent r' = developer_below_ten_percent r \<and> mint_authority_renounced r' = mint_authority_renounced r"
proof (cases lp)
  case (Some p)
  obtain t enough where p: "dec_le (minimum_lp_locked_percent settings) p = Inr enough"
    "r' = (let r = r\<lparr>lp_locked_percent := Some t, lp_locked := enough\<rparr>
       in if enough then r\<lparr>safety_score := safety_score r + 35\<rparr>
               else add_reason (''Only '' @ dec_format2 p @ ''% of LP is locked/burned'') r)"
    using assms(1) Some by (auto simp: check_lock_def Let_def bindE_eq_Inr)
  then show ?thesis using Some by (cases enough) simp_all
qed (use assms in \<open>auto simp: check_lock_def\<close>)

lemma check_liquidity_facts:
  assumes "check_liquidity settings v r = Inr r'"
  shows "safety_score r' = safety_score r \<and> developer_below_ten_percent r' = developer_below_ten_percent r \<and>
    mint_authority_renounced r' = mint_authority_renounced r"
proof (cases v)
  case (Some p)
  obtain t enough where p:
    "r' = (let r = r\<lparr>report_liquidity_usd := Some t, liquidity_above_minimum := enough\<rparr>
       in if enough then r else add_reason ''Liquidity is below $10,000'' r)"
    using assms(1) Some by (auto simp: check_liquidity_def Let_def bindE_eq_Inr)
  then show ?thesis by (cases enough) simp_all
qed (use assms in \<open>auto simp: check_liquidity_def\<close>)

definition default_settings :: analyzer_settings where
  "default_settings = \<lparr>settings_rpc_url = ''solana-rpc-router'', minimum_safety_score = 70,
     maximum_developer_percent = Dec 10, minimum_lp_locked_percent = Dec 80, minimum_liquidity_usd = Dec 10000\<rparr>"

lemma settings_default: "analyzer_settings_from_env environ = Inr settings \<Longrightarrow> settings = default_settings"
  by (auto simp: analyzer_settings_from_env_def default_settings_def bindE_eq_Inr split: if_splits)

lemma route_facts:
  assumes "select_route_type score below renounced lp liquidity default_settings = Inr (Some route)"
    "score = (if renounced then 35 else 0) + (if below then 30 else 0) +
       (if (\<exists>p. lp = Some p \<and> dec_le (Dec 80) p = Inr True) then 35 else 0)"
  shows "below \<and> renounced \<and> (\<exists>p v. lp = Some p \<and> liquidity = Some v \<and> dec_le (Dec 10000) v = Inr True \<and>
    (\<exists>safe. dec_le (Dec 80) p = Inr safe \<and> route = (if safe then ''A'' else ''B'') \<and> score = (if safe then 100 else 65)))"
proof -
  have s: "minimum_safety_score default_settings = 70" "minimum_lp_locked_percent default_settings = Dec 80"
    "minimum_liquidity_usd default_settings = Dec 10000"
    by (simp_all add: default_settings_def)
  show ?thesis
    using assms
    by (cases lp; cases liquidity; cases below; cases renounced)
      (auto simp: select_route_type_def s andE_def some_and_def ROUTE_B_MINIMUM_LIQUIDITY_USD_def bindE_eq_Inr
        dec_lt_def split: if_splits)
qed

text \<open>C16: A token is only approved on verified data: its mint authority is renounced, the creator's share of
  the supply is known and below 10 percent, the locked share of the liquidity pool is known, and the
  liquidity is known and at least 10000 dollars.  It gets the first route with a score of 100 if at least 80
  percent of the pool is locked, and otherwise the second route with a score of 65, which is below the
  minimum score of 70.  This is the rule of the code and not that of the README, which has a token enter only with all
  three conditions met, a lock of at least 95 percent and a score of at least 85: by the code a lock of 80 percent is
  enough for the first route, and on the second the lock only has to be known.\<close>
theorem approved_token_is_verified:
  assumes "analyzer_settings_from_env environ = Inr settings"
    "analyze_token_uncached valid_mint m settings gathered = Inr r" "should_enter r"
  shows "\<exists>account supply report summary n creator p lp v safe. gathered = Inr (account, supply, report, summary) \<and>
    mint_authority account = Inr PNone \<and> supply_amount supply = Inr n \<and>
    developer_percentage report n = Inr (creator, Some p) \<and> dec_lt p (Dec 10) = Inr True \<and>
    locked_percentage summary report = Inr (Some lp) \<and> dec_le (Dec 80) lp = Inr safe \<and>
    liquidity_usd report = Inr (Some v) \<and> dec_le (Dec 10000) v = Inr True \<and>
    report_route r = Some (if safe then ''A'' else ''B'') \<and> safety_score r = (if safe then 100 else 65)"
proof -
  note d = settings_default [OF assms(1)]
  obtain account sup report summary authority n creator pct r1 lp r2 liquidity r3 route where g:
    "gathered = Inr (account, sup, report, summary)" "mint_authority account = Inr authority"
    "supply_amount sup = Inr n" "developer_percentage report n = Inr (creator, pct)"
    and r1: "check_developer settings creator pct (check_authority authority (empty_report m)) = Inr r1"
    and g2: "locked_percentage summary report = Inr lp" and r2: "check_lock settings lp r1 = Inr r2"
    and g3: "liquidity_usd report = Inr liquidity" and r3: "check_liquidity settings liquidity r2 = Inr r3"
    and route: "select_route_type (safety_score r3) (developer_below_ten_percent r3) (mint_authority_renounced r3) lp liquidity settings = Inr route"
    and r: "report_route r = route" "should_enter r \<longleftrightarrow> route \<noteq> None" "safety_score r = safety_score r3"
    using assms(2) [unfolded analyze_token_uncached_def Let_def]
    by (clarsimp simp: bindE_eq_Inr split: if_split_asm)
  have r0: "mint_authority_renounced (check_authority authority (empty_report m)) \<longleftrightarrow> authority = PNone"
      "safety_score (check_authority authority (empty_report m)) = (if authority = PNone then 35 else 0)"
      "\<not> developer_below_ten_percent (check_authority authority (empty_report m))"
    by (simp_all add: check_authority_def empty_report_def add_reason_def)
  note f1 = check_developer_facts [OF r1 r0(3)] and f2 = check_lock_facts [OF r2] and f3 = check_liquidity_facts [OF r3]
  have max: "maximum_developer_percent settings = Dec 10" "minimum_lp_locked_percent settings = Dec 80"
    by (simp_all add: d default_settings_def)
  obtain rt where rt: "route = Some rt" using assms(3) r(2) by auto
  have below: "developer_below_ten_percent r3 \<longleftrightarrow> (\<exists>p. pct = Some p \<and> dec_lt p (Dec 10) = Inr True)"
    using f1 f2 f3 by (simp add: max)
  have renounced: "mint_authority_renounced r3 \<longleftrightarrow> authority = PNone" using f1 f2 f3 r0(1) by simp
  have score: "safety_score r3 = (if mint_authority_renounced r3 then 35 else 0) +
      (if developer_below_ten_percent r3 then 30 else 0) +
       (if (\<exists>p. lp = Some p \<and> dec_le (Dec 80) p = Inr True) then 35 else 0)"
    using f1 f2 f3 r0(2) renounced by (simp add: max)
  from route_facts [OF route [unfolded d rt] score] obtain p v safe where
    "developer_below_ten_percent r3" "mint_authority_renounced r3" "lp = Some p" "liquidity = Some v"
    "dec_le (Dec 10000) v = Inr True" "dec_le (Dec 80) p = Inr safe" "rt = (if safe then ''A'' else ''B'')"
    "safety_score r3 = (if safe then 100 else 65)" by blast
  then show ?thesis using g g2 g3 r rt below renounced by auto
qed

definition sample_token :: "py \<times> py \<times> dict option \<times> dict option" where
  "sample_token = (PDict [(''value'', PDict [(''data'', PDict [(''parsed'', PDict [(''type'', PStr ''mint''),
       (''info'', PDict [(''mintAuthority'', PNone)])])])])],
     PDict [(''value'', PDict [(''amount'', PStr ''1000'')])],
     Some [(''creatorBalance'', PInt 50), (''lpLockedPct'', PInt 60), (''totalMarketLiquidity'', PInt 20000)], None)"

lemma sample_token_approved:
  "\<exists>r. analyze_token_uncached True ''M'' default_settings (Inr sample_token) = Inr r \<and> should_enter r"
proof -
  have "case analyze_token_uncached True ''M'' default_settings (Inr sample_token) of Inl _ \<Rightarrow> False | Inr r \<Rightarrow> should_enter r"
    by code_simp
  then show ?thesis by (cases "analyze_token_uncached True ''M'' default_settings (Inr sample_token)") auto
qed

text \<open>A token with 60 percent of its pool locked enters with a score of 65.\<close>

theorem approved_token_is_verified_witness:
  "\<exists>r. analyze_token_uncached True ''M'' default_settings (Inr sample_token) = Inr r \<and> should_enter r
    \<and> safety_score r = 65 \<and> report_route r = Some ''B'' \<and> mint_authority (fst sample_token) = Inr PNone"
proof -
  have env: "analyzer_settings_from_env (\<lambda>_. None) = Inr default_settings"
  proof -
    have "\<exists>s. analyzer_settings_from_env (\<lambda>_. None) = Inr s" by (rule exI, code_simp)
    then show ?thesis using settings_default by blast
  qed
  obtain r where r: "analyze_token_uncached True ''M'' default_settings (Inr sample_token) = Inr r" "should_enter r"
    using sample_token_approved by blast
  from approved_token_is_verified [OF env r] obtain account sup report summary lp safe where
    t: "sample_token = (account, sup, report, summary)" "mint_authority account = Inr PNone"
      "locked_percentage summary report = Inr (Some lp)" "dec_le (Dec 80) lp = Inr safe"
      "safety_score r = (if safe then 100 else 65)" "report_route r = Some (if safe then ''A'' else ''B'')"
    by auto
  have "mint_authority (fst sample_token) = Inr PNone" by (simp only: t fst_conv)
  moreover have "locked_percentage (snd (snd (snd sample_token))) (fst (snd (snd sample_token))) = Inr (Some (Dec 60))"
    by code_simp
  then have "lp = Dec 60" using t(3) by (simp add: t(1))
  then have "\<not> safe" using t(4) by (simp add: dec_le_def)
  ultimately show ?thesis using r t(5,6) by auto
qed

section \<open>The cache\<close>

text \<open>The calls of a process: a question for a key, and the end of the analysis of a task.\<close>

datatype analyzer_op =
    Ask f64 analysis_key nat
  | Finish f64 analysis_key nat "safety_report res"

fun analyzer_step :: "analyzer_op \<Rightarrow> analyzer_state \<Rightarrow> analyzer_state" where
  "analyzer_step (Ask now key fresh) s = snd (analyze_token now key fresh s)"
| "analyzer_step (Finish now key task result) s = snd (run_analysis_flight now key task result s)"

definition run_analyzer :: "analyzer_op list \<Rightarrow> analyzer_state" where
  "run_analyzer ops = fold analyzer_step ops \<lparr>analysis_cache = [], analysis_flights = []\<rparr>"

text \<open>What holds of the state after a history: keys are distinct, the cache is bounded, and every entry
  was stored by an analysis of its key, to expire five seconds after its end.\<close>

definition analyzer_ok :: "analyzer_op list \<Rightarrow> analyzer_state \<Rightarrow> bool" where
  "analyzer_ok history s \<longleftrightarrow> distinct (map fst (analysis_cache s)) \<and> length (analysis_cache s) \<le> 128 \<and>
     distinct (map fst (analysis_flights s)) \<and>
     (\<forall>(key, t, report) \<in> set (analysis_cache s). \<exists>now task. Finish now key task (Inr report) \<in> set history \<and>
        t = f64_add now (Fin 5))"

lemma oldest_entry_in: "cache \<noteq> [] \<Longrightarrow> \<exists>k. oldest_entry cache = Some k \<and> k \<in> fst ` set cache"
  by (induction cache rule: oldest_entry.induct) auto

lemma set_delete: "set (AList.delete k al) \<subseteq> set al"
  by (auto simp: AList.delete_eq)

lemma set_update: "set (AList.update k v al) \<subseteq> insert (k, v) (set al)"
  by (induction al) (auto split: if_splits)

lemma length_update: "length (AList.update k v al) \<le> Suc (length al)"
  by (induction al) auto

lemma length_delete: "distinct (map fst al) \<Longrightarrow> k \<in> fst ` set al \<Longrightarrow> Suc (length (AList.delete k al)) \<le> length al"
  by (induction al) (auto simp: le_SucI AList.length_delete_le)

lemma distinct_filter_keys: "distinct (map fst al) \<Longrightarrow> distinct (map fst (filter P al))"
  by (induction al) auto

lemma store_report_ok:
  assumes "distinct (map fst cache)" "length cache \<le> 128" "cache' = store_report now key report cache"
  shows "distinct (map fst cache')" "length cache' \<le> 128"
    "set cache' \<subseteq> insert (key, f64_add now (Fin 5), report) (set cache)"
proof -
  have ttl: "ANALYZER_CACHE_TTL_SECONDS = Fin 5"
    by (simp add: ANALYZER_CACHE_TTL_SECONDS_def float_lit_def fl_of_int [of 5, simplified])
  define c1 where "c1 = filter (\<lambda>(_, (t, _)). \<not> f64_le t now) cache"
  define c2 where "c2 = (if ANALYZER_CACHE_MAX_ENTRIES \<le> length c1
      then (case oldest_entry c1 of Some k \<Rightarrow> AList.delete k c1 | None \<Rightarrow> c1) else c1)"
  have c': "cache' = AList.update key (f64_add now (Fin 5), report) c2"
    by (simp add: assms(3) store_report_def c1_def [symmetric] c2_def Let_def ttl)
  have d1: "distinct (map fst c1)" unfolding c1_def by (rule distinct_filter_keys [OF assms(1)])
  have l1: "length c1 \<le> 128" unfolding c1_def by (rule le_trans [OF length_filter_le assms(2)])
  have d2: "distinct (map fst c2)" using d1 by (auto simp: c2_def AList.distinct_delete split: option.split)
  have "length c2 \<le> 127"
  proof (cases "128 \<le> length c1")
    case True
    then obtain k where k: "oldest_entry c1 = Some k" "k \<in> fst ` set c1" using oldest_entry_in [of c1] by force
    have "Suc (length (AList.delete k c1)) \<le> length c1" by (rule length_delete [OF d1 k(2)])
    then show ?thesis using True k(1) l1 by (simp add: c2_def ANALYZER_CACHE_MAX_ENTRIES_def)
  qed (simp add: c2_def ANALYZER_CACHE_MAX_ENTRIES_def)
  then show "length cache' \<le> 128" unfolding c' using length_update [of key _ c2] le_trans by fastforce
  show "distinct (map fst cache')" unfolding c' by (rule AList.distinct_update [OF d2])
  have "set c2 \<subseteq> set cache" using set_delete by (fastforce simp: c2_def c1_def split: option.splits if_splits)
  then show "set cache' \<subseteq> insert (key, f64_add now (Fin 5), report) (set cache)"
    unfolding c' using set_update by fastforce
qed

lemma analyzer_ok_later:
  assumes "analyzer_ok history s" "set (analysis_cache s') \<subseteq> set (analysis_cache s)" "distinct (map fst (analysis_cache s'))"
    "length (analysis_cache s') \<le> length (analysis_cache s)" "distinct (map fst (analysis_flights s'))"
  shows "analyzer_ok (history @ [op]) s'"
  using assms unfolding analyzer_ok_def by fastforce

lemma analyze_token_state:
  obtains "snd (analyze_token now key fresh s) = s"
    | flights where "snd (analyze_token now key fresh s) =
        s\<lparr>analysis_cache := AList.delete key (analysis_cache s), analysis_flights := flights\<rparr>"
        "flights = analysis_flights s \<or> flights = AList.update key fresh (analysis_flights s)"
    | "snd (analyze_token now key fresh s) = s\<lparr>analysis_flights := AList.update key fresh (analysis_flights s)\<rparr>"
proof (cases "map_of (analysis_cache s) key")
  case None
  then show ?thesis using that(1,3) by (cases "map_of (analysis_flights s) key") (simp_all add: analyze_token_def)
next
  case (Some e)
  obtain t r where e: "e = (t, r)" by (cases e)
  show ?thesis
  proof (cases "f64_lt now t")
    case True
    then show ?thesis using that(1) by (simp add: analyze_token_def Some e)
  next
    case False
    show ?thesis
    proof (cases "map_of (analysis_flights s) key")
      case None
      show ?thesis
        by (rule that(2) [of "AList.update key fresh (analysis_flights s)"]) (simp_all add: analyze_token_def Some e False None Let_def)
    next
      case (Some task)
      show ?thesis
        by (rule that(2) [of "analysis_flights s"])
          (simp_all add: analyze_token_def \<open>map_of (analysis_cache s) key = Some e\<close> e False Some Let_def)
    qed
  qed
qed

lemma analyzer_step_ok:
  assumes "analyzer_ok history s"
  shows "analyzer_ok (history @ [op]) (analyzer_step op s)"
proof (cases op)
  case (Ask now key fresh)
  have st: "analyzer_step op s = snd (analyze_token now key fresh s)" by (simp add: Ask)
  have d: "distinct (map fst (analysis_cache s))" "distinct (map fst (analysis_flights s))"
    using assms by (simp_all add: analyzer_ok_def)
  show ?thesis unfolding st
    by (rule analyze_token_state [of now key fresh s]; rule analyzer_ok_later [OF assms])
      (use d set_delete [of key "analysis_cache s"] in
        \<open>auto simp: AList.distinct_delete AList.distinct_update AList.length_delete_le\<close>)
next
  case (Finish now key task result)
  show ?thesis
  proof (cases result)
    case (Inl x)
    show ?thesis
      by (rule analyzer_ok_later [OF assms])
        (use assms in \<open>simp_all add: Finish Inl run_analysis_flight_def analyzer_ok_def AList.distinct_delete\<close>)
  next
    case (Inr report)
    have ok: "distinct (map fst (analysis_cache s))" "length (analysis_cache s) \<le> 128"
      using assms by (simp_all add: analyzer_ok_def)
    note st = store_report_ok [OF ok refl, of now key report]
    have "analysis_cache (analyzer_step op s) = store_report now key report (analysis_cache s)"
      "distinct (map fst (analysis_flights (analyzer_step op s)))"
      using assms by (simp_all add: Finish Inr run_analysis_flight_def analyzer_ok_def AList.distinct_delete Let_def)
    moreover have "\<exists>now task. Finish now k task (Inr r) \<in> set (history @ [op]) \<and> t = f64_add now (Fin 5)"
      if e: "(k, t, r) \<in> set (store_report now key report (analysis_cache s))" for k t r
    proof (cases "(k, t, r) \<in> set (analysis_cache s)")
      case True
      then show ?thesis using assms unfolding analyzer_ok_def by fastforce
    next
      case False
      then have "k = key" "t = f64_add now (Fin 5)" "r = report" using st(3) e by auto
      then show ?thesis by (auto simp: Finish Inr)
    qed
    ultimately show ?thesis using st(1,2) unfolding analyzer_ok_def by auto
  qed
qed

lemma run_analyzer_ok: "analyzer_ok ops (run_analyzer ops)"
proof (induction ops rule: rev_induct)
  case (snoc op ops)
  then show ?case using analyzer_step_ok by (simp add: run_analyzer_def)
qed (simp add: run_analyzer_def analyzer_ok_def)

text \<open>The analyzer's cache is bounded and answers truthfully: after any sequence of questions and
  finished analyses it holds at most 128 reports, a report it answers with is the result of an analysis of
  the same mint under the same settings that ended less than five seconds before, never a failed one, and
  a new analysis is only started while none of the same key runs.\<close>
theorem cached_reports_are_fresh:
  "length (analysis_cache (run_analyzer ops)) \<le> 128 \<and>
   (case fst (analyze_token now key fresh (run_analyzer ops)) of
      CachedReport report \<Rightarrow> (\<exists>ended task. Finish ended key task (Inr report) \<in> set ops \<and> f64_lt now (f64_add ended (Fin 5)))
    | JoinFlight task \<Rightarrow> map_of (analysis_flights (run_analyzer ops)) key = Some task
    | StartFlight task \<Rightarrow> map_of (analysis_flights (run_analyzer ops)) key = None \<and> task = fresh)"
proof -
  note ok = run_analyzer_ok [of ops]
  have entry: "\<exists>ended task. Finish ended key task (Inr report) \<in> set ops \<and> t = f64_add ended (Fin 5)"
    if "map_of (analysis_cache (run_analyzer ops)) key = Some (t, report)" for t report
    using ok map_of_SomeD [OF that] unfolding analyzer_ok_def by fastforce
  show ?thesis
  proof (cases "\<exists>t report. map_of (analysis_cache (run_analyzer ops)) key = Some (t, report) \<and> f64_lt now t")
    case True
    then obtain t report where c: "map_of (analysis_cache (run_analyzer ops)) key = Some (t, report)" "f64_lt now t" by blast
    with entry [OF c(1)] ok show ?thesis by (auto simp: analyze_token_def analyzer_ok_def)
  next
    case False
    then show ?thesis using ok
      by (auto simp: analyze_token_def Let_def analyzer_ok_def split: option.split)
  qed
qed

end
