(* ===== verification/Ledger.thy ===== *)
theory Ledger
  imports StateStore LogRedaction
begin

text \<open>
  The paper-trading ledger of \<open>src/risk_manager.py\<close>: the document \<open>paper_trades.json\<close>,
  its migration, and the transactions the trading processes run on it (buy, reject, skip,
  claim and release an exit, sell, mark, lifecycle, break-even floor, quote failure).
  Each transaction is the \<open>mutate\<close> function of the code, on the document it gets from
  \<open>update_json\<close>; the operation around it is the function with the file as its state.

  \<open>env\<close> answers the calls a transaction makes to the clock and to the identifier
  generator: the \<open>k\<close>-th call of each kind, in program order.
\<close>

record env =
  utc_now :: "nat \<Rightarrow> string"
  uuid4 :: "nat \<Rightarrow> string"

named_theorems ledger_defs \<open>Definitions of the ledger transactions.\<close>

text \<open>The environment after \<open>n\<close> readings of the clock.\<close>

definition later :: "nat \<Rightarrow> env \<Rightarrow> env" where
  "later n e = e\<lparr>utc_now := (\<lambda>k. utc_now e (k + n))\<rparr>"

section \<open>Constants\<close>

definition INITIAL_PAPER_LAMPORTS :: int where "INITIAL_PAPER_LAMPORTS = 10000000000"
definition TAKE_PROFIT_RATIO :: f64 where "TAKE_PROFIT_RATIO = float_lit (13 / 10)"
definition SECOND_TAKE_PROFIT_RATIO :: f64 where "SECOND_TAKE_PROFIT_RATIO = float_lit 2"
definition STOP_LOSS_RATIO :: f64 where "STOP_LOSS_RATIO = float_lit (85 / 100)"
definition ROUTE_B_STOP_LOSS_RATIO :: f64 where "ROUTE_B_STOP_LOSS_RATIO = float_lit (90 / 100)"
definition BREAK_EVEN_STOP_RATIO :: f64 where "BREAK_EVEN_STOP_RATIO = float_lit 1"
definition TAKE_PROFIT_SELL_PERCENT :: int where "TAKE_PROFIT_SELL_PERCENT = 80"
definition QUOTE_FAILURE_WARNING_COUNT :: int where "QUOTE_FAILURE_WARNING_COUNT = 3"
definition DEGRADED_QUOTE_GAP_SECONDS :: f64 where "DEGRADED_QUOTE_GAP_SECONDS = float_lit 10"
definition MAX_ENTRY_PRICE_IMPACT_PCT :: f64 where "MAX_ENTRY_PRICE_IMPACT_PCT = float_lit (15 / 10)"

section \<open>The document\<close>

definition empty_ledger :: "string \<Rightarrow> dict" where
  "empty_ledger now =
     [(''schema_version'', PInt 2), (''version'', PInt 0), (''next_event_seq'', PInt 1),
      (''cash_lamports'', PInt INITIAL_PAPER_LAMPORTS), (''positions'', PDict []),
      (''events'', PList []), (''updated_at'', PStr now)]"

text \<open>\<open>_next_event\<close>: the event with its identity, and the document with the next number.\<close>

definition next_event :: "string \<Rightarrow> dict \<Rightarrow> dict \<Rightarrow> (dict \<times> dict) res" where
  "next_event event_id document event =
     bindE (int_field document ''next_event_seq'' 1) (\<lambda>sequence.
       Inr (dupdate [(''event_id'', PStr event_id), (''event_seq'', PInt sequence)] event,
            dset ''next_event_seq'' (PInt (sequence + 1)) document))"

text \<open>\<open>document["events"].append(_next_event(document, event))\<close>.\<close>

definition append_event :: "string \<Rightarrow> dict \<Rightarrow> dict \<Rightarrow> dict res" where
  "append_event event_id event document =
     bindE (bindE (dindex document ''events'') as_list) (\<lambda>events.
     bindE (next_event event_id document event) (\<lambda>(ev, document).
       Inr (dset ''events'' (PList (events @ [PDict ev])) document)))"

text \<open>\<open>ledger.setdefault("positions", {}).get(mint)\<close>: the ledger, its positions and the entry.\<close>

definition positions_of :: "dict \<Rightarrow> dict res" where
  "positions_of ledger = as_dict (dget_or ledger ''positions'' (PDict []))"

definition with_positions :: "dict \<Rightarrow> dict" where
  "with_positions ledger = dsetdefault ''positions'' (PDict []) ledger"

definition set_position :: "string \<Rightarrow> dict \<Rightarrow> dict \<Rightarrow> dict \<Rightarrow> dict" where
  "set_position mint position positions ledger =
     dset ''positions'' (PDict (dset mint (PDict position) positions)) ledger"

text \<open>\<open>position["version"] = int(position.get("version", 0)) + 1\<close>.\<close>

definition bump_version :: "dict \<Rightarrow> dict res" where
  "bump_version position = bindE (py_int (dget_or position ''version'' (PInt 0)))
     (\<lambda>v. Inr (dset ''version'' (PInt (v + 1)) position))"

section \<open>Break-even value\<close>

definition legacy_break_even_required_value :: "dict \<Rightarrow> int option \<Rightarrow> int res" where
  "legacy_break_even_required_value position token_amount_raw =
     bindE (case token_amount_raw of
        None \<Rightarrow> py_int (dget_or position ''token_amount_raw'' (PInt 0)) | Some a \<Rightarrow> Inr a) (\<lambda>amount.
     bindE (int_field position ''entry_token_amount_raw'' amount) (\<lambda>entry_amount.
     bindE (py_int (py_or (dget_or position ''entry_cost_lamports''
              (dget_or position ''remaining_cost_lamports'' (PInt 0))) (PInt 0))) (\<lambda>entry_cost.
       Inr (if amount \<le> 0 \<or> entry_amount \<le> 0 \<or> entry_cost \<le> 0 then 0
            else (entry_cost * amount + entry_amount - 1) div entry_amount))))"

definition break_even_required_value :: "dict \<Rightarrow> int option \<Rightarrow> int res" where
  "break_even_required_value position token_amount_raw =
     (if dhas position ''break_even_required_proceeds_lamports''
      then bindE (int_field position ''break_even_required_proceeds_lamports'' 0) (\<lambda>v. Inr (max 0 v))
      else legacy_break_even_required_value position token_amount_raw)"

text \<open>The quotient \<open>entry_cost / entry_amount if entry_amount > 0 else 0.0\<close>.\<close>

definition unit_price :: "int \<Rightarrow> int \<Rightarrow> f64 res" where
  "unit_price cost amount = (if 0 < amount then int_truediv cost amount else Inr (Fin 0))"


section \<open>Migration\<close>

text \<open>\<open>_normalize_position\<close>; \<open>now\<close> is the clock reading it may take.\<close>

definition normalize_position :: "string \<Rightarrow> dict \<Rightarrow> string \<Rightarrow> string \<Rightarrow> int \<Rightarrow> dict res" where
  "normalize_position now position mint position_id round_index =
     (let opened_at = py_str (py_or (dgetn position ''opened_at'')
            (py_or (dgetn position ''signal_detected_at'') (PStr now)));
          opened = PStr opened_at
      in bindE (int_field position ''token_amount_raw'' 0) (\<lambda>amount.
      bindE (int_field position ''remaining_cost_lamports'' 0) (\<lambda>cost.
      bindE (int_field position ''round_index'' round_index) (\<lambda>round_index.
      bindE (int_field position ''entry_cost_lamports'' cost) (\<lambda>entry_cost.
      bindE (int_field position ''entry_token_amount_raw'' amount) (\<lambda>entry_amount.
      bindE (float_field position ''entry_price_impact_pct'' (PInt 0)) (\<lambda>impact.
      bindE (int_field position ''expected_slippage_bps'' 100) (\<lambda>slippage.
      bindE (float_field position ''whale_reference_price'' (PInt 0)) (\<lambda>whale_price.
      bindE (float_field position ''copy_price_gap_pct'' (PInt 0)) (\<lambda>gap.
      bindE (int_field position ''entry_latency_ms'' 0) (\<lambda>latency.
      bindE (py_int (py_or (dget_or position ''peak_exit_value_lamports''
               (dget_or position ''current_value_lamports'' (PInt 0))) (PInt 0))) (\<lambda>peak.
      bindE (int_field position ''consecutive_quote_failures'' 0) (\<lambda>failures.
      bindE (float_field position ''dex_momentum_score'' (PInt 0)) (\<lambda>score.
      bindE (py_float (dget_or position ''stop_loss_ratio''
               (PFloat (if truthy (dgetn position ''take_profit_done'')
                        then BREAK_EVEN_STOP_RATIO else STOP_LOSS_RATIO)))) (\<lambda>stop_ratio.
      bindE (unit_price entry_cost entry_amount) (\<lambda>default_price.
      bindE (py_float (py_or (dget_or position ''break_even_price'' (PFloat default_price))
               (PFloat (Fin 0)))) (\<lambda>break_even_price.
      bindE (legacy_break_even_required_value position (Some amount)) (\<lambda>default_required.
      bindE (py_int (py_or (dget_or position ''break_even_required_proceeds_lamports''
               (PInt default_required)) (PInt 0))) (\<lambda>required.
      bindE (int_field position ''cumulative_proceeds_lamports'' 0) (\<lambda>cumulative.
      bindE (int_field position ''post_tp_peak_exit_value_lamports'' 0) (\<lambda>post_peak.
      bindE (float_field position ''post_tp_trailing_stop_ratio'' (PFloat (float_lit (1 / 2)))) (\<lambda>trailing.
      bindE (int_field position ''version'' 1) (\<lambda>version.
      Inr (dupdate position [
        (''position_id'', PStr position_id),
        (''round_index'', PInt round_index),
        (''mint'', PStr mint),
        (''signal_detected_at'', PStr (str_field position ''signal_detected_at'' opened)),
        (''entry_quote_at'', PStr (str_field position ''entry_quote_at'' opened)),
        (''entry_cost_lamports'', PInt entry_cost),
        (''entry_token_amount_raw'', PInt entry_amount),
        (''entry_price_impact_pct'', PFloat impact),
        (''expected_slippage_bps'', PInt slippage),
        (''whale_reference_price'', PFloat whale_price),
        (''copy_price_gap_pct'', PFloat gap),
        (''entry_latency_ms'', PInt latency),
        (''analysis_completed_at'', PStr (str_field position ''analysis_completed_at'' opened)),
        (''peak_exit_value_lamports'', PInt peak),
        (''last_quote_success_at'', PStr (str_field position ''last_quote_success_at'' opened)),
        (''consecutive_quote_failures'', PInt failures),
        (''risk_state'', PStr (str_field position ''risk_state'' (PStr ''NORMAL''))),
        (''route_type'', PStr (str_field position ''route_type'' (PStr ''A''))),
        (''dex_momentum_score'', PFloat score),
        (''take_profit_done'', PBool (truthy (dget_or position ''take_profit_done'' (PBool False)))),
        (''second_take_profit_done'',
           PBool (truthy (dget_or position ''second_take_profit_done'' (PBool False)))),
        (''stop_loss_ratio'', PFloat stop_ratio),
        (''break_even_floor_active'', PBool (truthy (dget_or position ''break_even_floor_active''
           (dget_or position ''take_profit_done'' (PBool False))))),
        (''break_even_price'', PFloat break_even_price),
        (''break_even_required_proceeds_lamports'', PInt required),
        (''cumulative_proceeds_lamports'', PInt cumulative),
        (''post_tp_peak_exit_value_lamports'', PInt post_peak),
        (''post_tp_trailing_stop_ratio'', PFloat trailing),
        (''strategy_version'', PStr (str_field position ''strategy_version'' (PStr ''baseline_v1''))),
        (''observation_id'', dgetn position ''observation_id''),
        (''version'', PInt version)]))))))))))))))))))))))))"

subsection \<open>Walking over the dictionaries of a list or of a dictionary\<close>

fun fold_dicts :: "('s \<Rightarrow> dict \<Rightarrow> ('s \<times> dict) res) \<Rightarrow> 's \<Rightarrow> py list \<Rightarrow> ('s \<times> py list) res" where
  "fold_dicts f s [] = Inr (s, [])"
| "fold_dicts f s (PDict e # es) = bindE (f s e) (\<lambda>(s, e).
     bindE (fold_dicts f s es) (\<lambda>(s, es). Inr (s, PDict e # es)))"
| "fold_dicts f s (v # es) = bindE (fold_dicts f s es) (\<lambda>(s, es). Inr (s, v # es))"

fun fold_values ::
  "('s \<Rightarrow> string \<Rightarrow> dict \<Rightarrow> ('s \<times> dict) res) \<Rightarrow> 's \<Rightarrow> dict \<Rightarrow> ('s \<times> dict) res" where
  "fold_values f s [] = Inr (s, [])"
| "fold_values f s ((k, PDict e) # d) = bindE (f s k e) (\<lambda>(s, e).
     bindE (fold_values f s d) (\<lambda>(s, d). Inr (s, (k, PDict e) # d)))"
| "fold_values f s ((k, v) # d) = bindE (fold_values f s d) (\<lambda>(s, d). Inr (s, (k, v) # d))"

text \<open>Iterating a dictionary or a string meets no dictionary; other values cannot be iterated.\<close>

fun fold_iter :: "('s \<Rightarrow> dict \<Rightarrow> ('s \<times> dict) res) \<Rightarrow> 's \<Rightarrow> py \<Rightarrow> ('s \<times> py) res" where
  "fold_iter f s (PList es) = bindE (fold_dicts f s es) (\<lambda>(s, es). Inr (s, PList es))"
| "fold_iter f s (PDict d) = Inr (s, PDict d)"
| "fold_iter f s (PStr t) = Inr (s, PStr t)"
| "fold_iter f s _ = Inl TypeError"

subsection \<open>Documents of schema version 2\<close>

definition add_missing :: "string \<Rightarrow> py \<Rightarrow> bool \<times> dict \<Rightarrow> bool \<times> dict" where
  "add_missing k v = (\<lambda>(changed, d). if dhas d k then (changed, d) else (True, dset k v d))"

definition fill_break_even_price :: "bool \<times> dict \<Rightarrow> (bool \<times> dict) res" where
  "fill_break_even_price = (\<lambda>(changed, position).
     if dhas position ''break_even_price'' then Inr (changed, position)
     else bindE (py_int (py_or (dget_or position ''entry_token_amount_raw''
                   (dget_or position ''token_amount_raw'' (PInt 0))) (PInt 0))) (\<lambda>entry_amount.
          bindE (py_int (py_or (dget_or position ''entry_cost_lamports''
                   (dget_or position ''remaining_cost_lamports'' (PInt 0))) (PInt 0))) (\<lambda>entry_cost.
          bindE (unit_price entry_cost entry_amount) (\<lambda>price.
            Inr (True, dset ''break_even_price'' (PFloat price) position)))))"

definition fill_break_even_required :: "bool \<times> dict \<Rightarrow> (bool \<times> dict) res" where
  "fill_break_even_required = (\<lambda>(changed, position).
     if dhas position ''break_even_required_proceeds_lamports'' then Inr (changed, position)
     else bindE (legacy_break_even_required_value position None) (\<lambda>required.
            Inr (True, dset ''break_even_required_proceeds_lamports'' (PInt required) position)))"

definition migrate_position_v2 :: "bool \<Rightarrow> dict \<Rightarrow> (bool \<times> dict) res" where
  "migrate_position_v2 changed position =
     bindE (fill_break_even_price
        (add_missing ''observation_id'' PNone
          (add_missing ''strategy_version'' (PStr ''baseline_v1'')
            (add_missing ''dex_momentum_score'' (PFloat (Fin 0))
              (add_missing ''route_type'' (PStr ''A'') (changed, position)))))) (\<lambda>state.
     bindE (fill_break_even_required state) (\<lambda>state.
       Inr (add_missing ''post_tp_trailing_stop_ratio'' (PFloat (float_lit (1 / 2)))
             (add_missing ''post_tp_peak_exit_value_lamports'' (PInt 0)
               (add_missing ''cumulative_proceeds_lamports'' (PInt 0) state)))))"

definition migrate_event_v2 :: "bool \<Rightarrow> dict \<Rightarrow> (bool \<times> dict) res" where
  "migrate_event_v2 changed event =
     (let buy = (dgetn event ''type'' = PStr ''BUY'');
          (changed, event) = (if buy then add_missing ''route_type'' (PStr ''A'') (changed, event)
                              else (changed, event));
          (changed, event) = (if buy then add_missing ''dex_momentum_score'' (PFloat (Fin 0)) (changed, event)
                              else (changed, event))
      in bindE (in_string_set (dgetn event ''type'') [''BUY'', ''SELL'']) (\<lambda>trade.
         Inr (if trade
              then add_missing ''observation_id'' PNone
                     (add_missing ''strategy_version'' (PStr ''baseline_v1'') (changed, event))
              else (changed, event))))"

definition migrate_v2 :: "string \<Rightarrow> bool mutator" where
  "migrate_v2 now document =
     bindE (as_dict (dget_or document ''positions'' (PDict []))) (\<lambda>positions.
     bindE (fold_values (\<lambda>c k p. migrate_position_v2 c p) False positions) (\<lambda>(changed, positions).
     bindE (fold_iter migrate_event_v2 changed (dget_or document ''events'' (PList []))) (\<lambda>(changed, events).
       let document = (if dhas document ''positions'' then dset ''positions'' (PDict positions) document
                       else document);
           document = (if dhas document ''events'' then dset ''events'' events document else document)
       in Inr (changed, if changed then dset ''updated_at'' (PStr now) document else document))))"

subsection \<open>Older documents\<close>

text \<open>The state of the walk over the events of a document without identities.\<close>

record legacy_state =
  open_rounds :: "string \<rightharpoonup> string"
  round_counts :: "string \<rightharpoonup> int"
  sequence :: int
  next_uuid :: nat
  next_now :: nat

definition round_count :: "legacy_state \<Rightarrow> string \<Rightarrow> int" where
  "round_count s mint = (case round_counts s mint of None \<Rightarrow> 0 | Some n \<Rightarrow> n)"

text \<open>\<open>position.get("position_id") or open_rounds.get(mint) or uuid4()\<close>, as text.\<close>

definition choose_position_id :: "env \<Rightarrow> legacy_state \<Rightarrow> dict \<Rightarrow> string \<Rightarrow> legacy_state \<times> string" where
  "choose_position_id e s d mint =
     (let own = dgetn d ''position_id'' in
      if truthy own then (s, py_str own)
      else case open_rounds s mint of
        Some pid \<Rightarrow> (if pid \<noteq> [] then (s, pid)
                     else (s\<lparr>next_uuid := next_uuid s + 1\<rparr>, uuid4 e (next_uuid s)))
      | None \<Rightarrow> (s\<lparr>next_uuid := next_uuid s + 1\<rparr>, uuid4 e (next_uuid s)))"

definition legacy_sell_fields :: "dict \<Rightarrow> dict res" where
  "legacy_sell_fields event =
     (let event = dsetdefault ''trigger_roi_percent'' PNone event in
      bindE (int_field event ''proceeds_lamports'' 0) (\<lambda>proceeds.
      bindE (int_field event ''realized_pnl_lamports'' 0) (\<lambda>pnl.
      let released_cost = proceeds - pnl in
      bindE (if 0 < released_cost
             then bindE (int_truediv pnl released_cost) (\<lambda>q. Inr (f64_mul q (Fin 100)))
             else Inr (Fin 0)) (\<lambda>roi.
      Inr (dsetdefault ''quote_age_ms'' PNone
            (dsetdefault ''realized_roi_percent'' (PFloat roi) event))))))"

definition migrate_legacy_event :: "env \<Rightarrow> legacy_state \<Rightarrow> dict \<Rightarrow> (legacy_state \<times> dict) res" where
  "migrate_legacy_event e s event =
     (let mint = py_str (dget_or event ''mint'' (PStr []));
          kind = py_str (dget_or event ''type'' (PStr []));
          s = (if kind = ''BUY''
               then s\<lparr>round_counts := (round_counts s)(mint \<mapsto> round_count s mint + 1),
                      open_rounds := (open_rounds s)(mint \<mapsto> uuid4 e (next_uuid s)),
                      next_uuid := next_uuid s + 1\<rparr>
               else s);
          event = (if kind = ''BUY'' \<or> kind = ''SELL''
                   then dsetdefault ''observation_id'' PNone
                          (dsetdefault ''strategy_version'' (PStr ''baseline_v1'') event)
                   else event);
          (s, position_id) = choose_position_id e s event mint;
          event = dsetdefault ''position_id'' (PStr position_id) event;
          event = dsetdefault ''event_id'' (PStr (uuid4 e (next_uuid s))) event;
          s = s\<lparr>next_uuid := next_uuid s + 1\<rparr>;
          event = dsetdefault ''event_seq'' (PInt (sequence s)) event
      in bindE (bindE (dindex event ''event_seq'') py_int) (\<lambda>seq.
         let s = s\<lparr>sequence := max (sequence s + 1) (seq + 1)\<rparr> in
         bindE (if kind = ''SELL'' then legacy_sell_fields event else Inr event) (\<lambda>event.
           Inr (s, event))))"

definition migrate_legacy_position ::
  "env \<Rightarrow> legacy_state \<Rightarrow> string \<Rightarrow> dict \<Rightarrow> (legacy_state \<times> dict) res" where
  "migrate_legacy_position e s mint position =
     (let rounds = max 1 (round_count s mint);
          s = s\<lparr>round_counts := (round_counts s)(mint \<mapsto> rounds)\<rparr>;
          (s, position_id) = choose_position_id e s position mint;
          reads_clock = (\<not> truthy (dgetn position ''opened_at'') \<and>
                         \<not> truthy (dgetn position ''signal_detected_at''))
      in bindE (normalize_position (utc_now e (next_now s)) position mint position_id rounds)
           (\<lambda>position. Inr (if reads_clock then s\<lparr>next_now := next_now s + 1\<rparr> else s, position)))"

definition migrate_legacy :: "env \<Rightarrow> bool mutator" where
  "migrate_legacy e document =
     (let document = dsetdefault ''cash_lamports'' (PInt INITIAL_PAPER_LAMPORTS) document;
          document = dsetdefault ''positions'' (PDict []) document;
          document = dsetdefault ''events'' (PList []) document;
          s0 = \<lparr>open_rounds = Map.empty, round_counts = Map.empty, sequence = 1, next_uuid = 0, next_now = 0\<rparr>
      in bindE (fold_iter (migrate_legacy_event e) s0 (dgetn document ''events'')) (\<lambda>(s, events).
         bindE (as_dict (dgetn document ''positions'')) (\<lambda>positions.
         bindE (fold_values (migrate_legacy_position e) s positions) (\<lambda>(s, positions).
         let document = dset ''events'' events document;
             document = dset ''positions'' (PDict positions) document;
             document = dset ''next_event_seq'' (PInt (sequence s)) document;
             document = dset ''schema_version'' (PInt 2) document
         in Inr (True, dset ''updated_at'' (PStr (utc_now e (next_now s))) document)))))"

definition migrate_ledger_document :: "env \<Rightarrow> bool mutator" where
  "migrate_ledger_document e document =
     bindE (int_field document ''schema_version'' 1) (\<lambda>schema.
       if 2 \<le> schema then migrate_v2 (utc_now e 0) document else migrate_legacy e document)"

definition ledger_path :: string where "ledger_path = ''paper_trades.json''"

definition ensure_ledger_migrated :: "env \<Rightarrow> bool \<Rightarrow> state_file \<Rightarrow> dict res \<times> state_file" where
  "ensure_ledger_migrated e lk f =
     migrate_json ledger_path lk f (empty_ledger (utc_now e 0)) (migrate_ledger_document (later 1 e))"

definition read_ledger :: "env \<Rightarrow> bool \<Rightarrow> state_file \<Rightarrow> dict res \<times> state_file" where
  "read_ledger e lk f =
     (case bindE (read_json ledger_path f (empty_ledger (utc_now e 0)))
             (\<lambda>d. bindE (int_field d ''schema_version'' 1) (\<lambda>v. Inr (v, d))) of
        Inl x \<Rightarrow> (Inl x, f)
      | Inr (v, d) \<Rightarrow>
          (case (if v < 2 then ensure_ledger_migrated (later 1 e) lk f else (Inr d, f)) of
             (Inl x, f') \<Rightarrow> (Inl x, f')
           | (Inr d', f') \<Rightarrow>
               (Inr (dsetdefault ''events'' (PList []) (dsetdefault ''positions'' (PDict []) d')), f')))"

definition paper_cash_balance :: "env \<Rightarrow> bool \<Rightarrow> state_file \<Rightarrow> int res \<times> state_file" where
  "paper_cash_balance e lk f = (case read_ledger e lk f of
     (Inl x, f') \<Rightarrow> (Inl x, f')
   | (Inr d, f') \<Rightarrow> (bindE (dindex d ''cash_lamports'') py_int, f'))"


section \<open>Buying\<close>

record buy_request =
  mint :: string
  cost_lamports :: int
  token_amount_raw :: int
  token_decimals :: int
  source_wallet :: "string option"
  source_signature :: "string option"
  safety_score :: "int option"
  entry_reason :: string
  signal_detected_at :: "string option"
  analysis_completed_at :: "string option"
  entry_quote_at :: "string option"
  entry_price_impact :: f64
  exit_price_impact :: f64
  expected_slippage_bps :: int
  whale_reference_price :: f64
  copy_price_gap :: f64
  entry_latency_ms :: int
  route_type :: string
  dex_momentum_score :: f64
  strategy_version :: string
  observation_id :: "string option"
  max_strategy_open_positions :: "int option"

definition strategy_of :: "buy_request \<Rightarrow> string" where
  "strategy_of b = (if strategy_version b = [] then ''baseline_v1'' else strategy_version b)"

fun runs_strategy :: "string \<Rightarrow> py \<Rightarrow> bool" where
  "runs_strategy strategy (PDict position) =
     (str_field position ''strategy_version'' (PStr ''baseline_v1'') = strategy)"
| "runs_strategy strategy _ = False"

definition open_strategy_count :: "string \<Rightarrow> dict \<Rightarrow> int" where
  "open_strategy_count strategy positions =
     int (length (filter (\<lambda>kv. runs_strategy strategy (snd kv)) positions))"

text \<open>An event of a kind, for a mint, whose field \<open>key\<close> is a given text.\<close>

fun matching_event :: "string \<Rightarrow> string \<Rightarrow> string \<Rightarrow> string \<Rightarrow> py \<Rightarrow> bool" where
  "matching_event kind key sig m (PDict event) =
     (dgetn event ''type'' = PStr kind \<and> dgetn event key = PStr sig \<and> dgetn event ''mint'' = PStr m)"
| "matching_event kind key sig m _ = False"

fun buy_round :: "string \<Rightarrow> py \<Rightarrow> dict option" where
  "buy_round m (PDict event) =
     (if dgetn event ''type'' = PStr ''BUY'' \<and> dgetn event ''mint'' = PStr m then Some event else None)"
| "buy_round m _ = None"

definition previous_rounds :: "string \<Rightarrow> py list \<Rightarrow> int list res" where
  "previous_rounds m events =
     mapE (\<lambda>event. int_field event ''round_index'' 0) (List.map_filter (buy_round m) events)"

definition buy_metadata ::
  "buy_request \<Rightarrow> string \<Rightarrow> int \<Rightarrow> string \<Rightarrow> string \<Rightarrow> string \<times> f64 \<Rightarrow> dict" where
  "buy_metadata b position_id round_index signal_at quote_at route =
     [(''position_id'', PStr position_id),
      (''round_index'', PInt round_index),
      (''source_wallet'', opt_str (source_wallet b)),
      (''source_signature'', opt_str (source_signature b)),
      (''safety_score'', opt_int (safety_score b)),
      (''entry_reason'', PStr (entry_reason b)),
      (''signal_detected_at'', PStr signal_at),
      (''analysis_completed_at'', PStr (str_or (analysis_completed_at b) quote_at)),
      (''entry_quote_at'', PStr quote_at),
      (''entry_price_impact_pct'', PFloat (entry_price_impact b)),
      (''exit_price_impact_pct'', PFloat (exit_price_impact b)),
      (''expected_slippage_bps'', PInt (expected_slippage_bps b)),
      (''whale_reference_price'', PFloat (whale_reference_price b)),
      (''copy_price_gap_pct'', PFloat (copy_price_gap b)),
      (''entry_latency_ms'', PInt (entry_latency_ms b)),
      (''strategy_version'', PStr (strategy_of b)),
      (''observation_id'', opt_str (observation_id b)),
      (''route_type'', PStr (fst route)),
      (''dex_momentum_score'', PFloat (snd route))]"

definition opened_position ::
  "buy_request \<Rightarrow> string \<Rightarrow> string \<Rightarrow> string \<times> f64 \<Rightarrow> f64 \<Rightarrow> dict \<Rightarrow> dict" where
  "opened_position b opened_at quote_at route price metadata = dupdate
     [(''mint'', PStr (mint b)),
      (''token_amount_raw'', PInt (token_amount_raw b)),
      (''token_decimals'', PInt (max 0 (token_decimals b))),
      (''remaining_cost_lamports'', PInt (cost_lamports b)),
      (''entry_cost_lamports'', PInt (cost_lamports b)),
      (''entry_token_amount_raw'', PInt (token_amount_raw b)),
      (''opened_at'', PStr opened_at),
      (''peak_exit_value_lamports'', PInt (cost_lamports b)),
      (''last_quote_success_at'', PStr quote_at),
      (''consecutive_quote_failures'', PInt 0),
      (''risk_state'', PStr ''NORMAL''),
      (''take_profit_done'', PBool False),
      (''second_take_profit_done'', PBool False),
      (''stop_loss_ratio'', PFloat (if fst route = ''B'' then ROUTE_B_STOP_LOSS_RATIO else STOP_LOSS_RATIO)),
      (''break_even_floor_active'', PBool False),
      (''break_even_price'', PFloat price),
      (''break_even_required_proceeds_lamports'', PInt (cost_lamports b)),
      (''cumulative_proceeds_lamports'', PInt 0),
      (''post_tp_peak_exit_value_lamports'', PInt 0),
      (''post_tp_trailing_stop_ratio'', PFloat (float_lit (1 / 2))),
      (''version'', PInt 1)] metadata"

definition buy_event :: "buy_request \<Rightarrow> string \<Rightarrow> dict \<Rightarrow> dict" where
  "buy_event b opened_at metadata = dupdate
     [(''type'', PStr ''BUY''), (''mint'', PStr (mint b)),
      (''cost_lamports'', PInt (cost_lamports b)),
      (''token_amount_raw'', PInt (token_amount_raw b)),
      (''token_decimals'', PInt (max 0 (token_decimals b))),
      (''at'', PStr opened_at)] metadata"

text \<open>The guards of the transaction, in their order.\<close>

definition strategy_capacity :: "buy_request \<Rightarrow> dict \<Rightarrow> unit res" where
  "strategy_capacity b positions = (case max_strategy_open_positions b of
     None \<Rightarrow> Inr ()
   | Some n \<Rightarrow>
       (if n \<le> 0 then Inl (ValueError ''max strategy open positions must be positive'')
        else if n \<le> open_strategy_count (strategy_of b) positions
        then Inl (RuntimeError ''paper experiment position capacity reached'')
        else Inr ()))"

definition duplicate_buy :: "buy_request \<Rightarrow> dict \<Rightarrow> (bool \<times> dict) res" where
  "duplicate_buy b ledger = (case source_signature b of
     None \<Rightarrow> Inr (False, ledger)
   | Some sig \<Rightarrow>
       (if sig = [] then Inr (False, ledger)
        else let ledger = dsetdefault ''events'' (PList []) ledger in
          bindE (py_iter (dgetn ledger ''events'')) (\<lambda>events.
            Inr (list_ex (matching_event ''BUY'' ''source_signature'' sig (mint b)) events, ledger))))"

definition record_paper_buy_mutate :: "env \<Rightarrow> string \<times> f64 \<Rightarrow> buy_request \<Rightarrow> string mutator" where
  "record_paper_buy_mutate e route b ledger =
     (let ledger = with_positions ledger in
      bindE (positions_of ledger) (\<lambda>positions.
      bindE (strategy_capacity b positions) (\<lambda>_.
      if dhas positions (mint b)
      then Inl (RuntimeError (''paper position already exists for '' @ mint b))
      else bindE (duplicate_buy b ledger) (\<lambda>(duplicate, ledger).
      if duplicate
      then Inl (RuntimeError (''paper buy already recorded for '' @ str_or (source_signature b) []))
      else bindE (py_int (dget_or ledger ''cash_lamports'' (PInt 0))) (\<lambda>cash.
      if cash < cost_lamports b
      then Inl (RuntimeError ''paper account has insufficient virtual SOL'')
      else bindE (bindE (dindex ledger ''events'') py_iter) (\<lambda>events.
      bindE (previous_rounds (mint b) events) (\<lambda>rounds.
      bindE (bindE (dindex ledger ''cash_lamports'') py_int) (\<lambda>cash.
      bindE (int_truediv (cost_lamports b) (token_amount_raw b)) (\<lambda>price.
      let round_index = (case rounds of [] \<Rightarrow> 0 | r # rs \<Rightarrow> fold max rs r) + 1;
          position_id = uuid4 e 0;
          opened_at = utc_now e 0;
          signal_at = str_or (signal_detected_at b) opened_at;
          quote_at = str_or (entry_quote_at b) opened_at;
          metadata = buy_metadata b position_id round_index signal_at quote_at route;
          ledger = dset ''cash_lamports'' (PInt (cash - cost_lamports b)) ledger;
          ledger = set_position (mint b) (opened_position b opened_at quote_at route price metadata)
                     positions ledger
      in bindE (append_event (uuid4 e 1) (buy_event b opened_at metadata) ledger) (\<lambda>ledger.
         Inr (position_id, dset ''updated_at'' (PStr (utc_now e 1)) ledger)))))))))))"


text \<open>The operation around the transaction; \<open>lk1\<close> and \<open>lk2\<close> are its two lock acquisitions.\<close>

definition record_paper_buy ::
  "env \<Rightarrow> bool \<Rightarrow> bool \<Rightarrow> state_file \<Rightarrow> buy_request \<Rightarrow> string res \<times> state_file" where
  "record_paper_buy e lk1 lk2 f b =
     (if cost_lamports b \<le> 0 \<or> token_amount_raw b \<le> 0
      then (Inl (ValueError ''paper buy amounts must be positive''), f)
      else if f64_lt (entry_price_impact b) (Fin 0) \<or> f64_lt MAX_ENTRY_PRICE_IMPACT_PCT (entry_price_impact b)
      then (Inl (RuntimeError (''[FILTER] Entry price impact '' @ fixed_f64 4 (entry_price_impact b)
              @ ''% exceeds '' @ fixed_f64 2 MAX_ENTRY_PRICE_IMPACT_PCT @ ''%. Position not created.'')), f)
      else case ensure_ledger_migrated e lk1 f of
        (Inl x, f1) \<Rightarrow> (Inl x, f1)
      | (Inr _, f1) \<Rightarrow>
          (case normalized_route_metadata (route_type b) (dex_momentum_score b) of
             Inl x \<Rightarrow> (Inl x, f1)
           | Inr route \<Rightarrow>
               (case update_json ledger_path lk2 f1 (empty_ledger (utc_now e 2))
                       (record_paper_buy_mutate (later 3 e) route b) None of
                  (Inl x, f2) \<Rightarrow> (Inl x, f2)
                | (Inr (position_id, _), f2) \<Rightarrow> (Inr position_id, f2))))"

section \<open>Rejected and skipped signals\<close>

definition append_bounded_event :: "env \<Rightarrow> string \<Rightarrow> string \<Rightarrow> string \<Rightarrow> dict \<Rightarrow> unit mutator" where
  "append_bounded_event e kind sig m event ledger =
     (let ledger = dsetdefault ''events'' (PList []) ledger in
      bindE (py_iter (dgetn ledger ''events'')) (\<lambda>events.
      if list_ex (matching_event kind ''signature'' sig m) events then Inr ((), ledger)
      else bindE (append_event (uuid4 e 0) event ledger) (\<lambda>ledger.
           bindE (bindE (dindex ledger ''events'') as_list) (\<lambda>events.
             Inr ((), dset ''updated_at'' (PStr (utc_now e 1))
               (dset ''events'' (PList (take_last 2000 events)) ledger))))))"

definition record_paper_rejection_mutate ::
  "env \<Rightarrow> string \<Rightarrow> int \<Rightarrow> string list \<Rightarrow> string \<Rightarrow> string \<Rightarrow> unit mutator" where
  "record_paper_rejection_mutate e m score reasons wallet signature =
     append_bounded_event e ''SIGNAL_REJECTED'' signature m
       [(''type'', PStr ''SIGNAL_REJECTED''), (''mint'', PStr m), (''safety_score'', PInt score),
        (''reason'', PStr (join ''; '' reasons)), (''source_wallet'', PStr wallet),
        (''signature'', PStr signature), (''at'', PStr (utc_now e 0))]"

definition record_rpc_skip_mutate ::
  "env \<Rightarrow> string \<Rightarrow> string \<Rightarrow> string \<Rightarrow> string \<Rightarrow> unit mutator" where
  "record_rpc_skip_mutate e m wallet signature reason =
     append_bounded_event e ''SKIPPED_BY_RPC_ERROR'' signature m
       [(''type'', PStr ''SKIPPED_BY_RPC_ERROR''), (''mint'', PStr m),
        (''source_wallet'', PStr wallet), (''signature'', PStr signature),
        (''reason'', PStr (take 500 reason)), (''at'', PStr (utc_now e 0))]"

text \<open>\<open>ensure_ledger_migrated()\<close> followed by one transaction.\<close>

definition migrated_update ::
  "env \<Rightarrow> bool \<Rightarrow> bool \<Rightarrow> state_file \<Rightarrow> 't mutator \<Rightarrow> 't res \<times> state_file" where
  "migrated_update e lk1 lk2 f m = (case ensure_ledger_migrated e lk1 f of
     (Inl x, f1) \<Rightarrow> (Inl x, f1)
   | (Inr _, f1) \<Rightarrow> (case update_json ledger_path lk2 f1 (empty_ledger (utc_now e 2)) m None of
         (Inl x, f2) \<Rightarrow> (Inl x, f2)
       | (Inr (r, _), f2) \<Rightarrow> (Inr r, f2)))"

definition record_paper_rejection ::
  "env \<Rightarrow> bool \<Rightarrow> bool \<Rightarrow> state_file \<Rightarrow> string \<Rightarrow> int \<Rightarrow> string list \<Rightarrow> string \<Rightarrow> string
     \<Rightarrow> unit res \<times> state_file" where
  "record_paper_rejection e lk1 lk2 f m score reasons wallet signature =
     migrated_update e lk1 lk2 f (record_paper_rejection_mutate (later 3 e) m score reasons wallet signature)"

definition record_rpc_skip ::
  "env \<Rightarrow> bool \<Rightarrow> bool \<Rightarrow> state_file \<Rightarrow> string \<Rightarrow> string \<Rightarrow> string \<Rightarrow> string \<Rightarrow> unit res \<times> state_file" where
  "record_rpc_skip e lk1 lk2 f m wallet signature reason =
     migrated_update e lk1 lk2 f (record_rpc_skip_mutate (later 3 e) m wallet signature reason)"

section \<open>Exit claims\<close>

text \<open>The position of a mint, if it is a dictionary with the given identity.\<close>

definition owned_position :: "dict \<Rightarrow> string \<Rightarrow> string \<Rightarrow> dict option" where
  "owned_position positions m position_id = (case dgetn positions m of
     PDict position \<Rightarrow>
       (if dgetn position ''position_id'' = PStr position_id then Some position else None)
   | _ \<Rightarrow> None)"

definition claim_position_exit_mutate ::
  "env \<Rightarrow> string \<Rightarrow> string \<Rightarrow> string \<Rightarrow> string \<Rightarrow> (string \<times> int) option mutator" where
  "claim_position_exit_mutate e exit_id m position_id reason ledger =
     (let ledger = with_positions ledger in
      bindE (positions_of ledger) (\<lambda>positions.
      case owned_position positions m position_id of
        None \<Rightarrow> Inr (None, ledger)
      | Some position \<Rightarrow>
          (if dgetn position ''risk_state'' = PStr ''EXIT_PENDING'' then Inr (None, ledger)
           else let position = dset ''risk_state'' (PStr ''EXIT_PENDING'') position;
                    position = dset ''pending_exit_id'' (PStr exit_id) position;
                    position = dset ''pending_exit_reason'' (PStr reason) position
             in bindE (bump_version position) (\<lambda>position.
                bindE (py_int (dget_or position ''token_amount_raw'' (PInt 0))) (\<lambda>amount.
                  Inr (Some (exit_id, amount),
                    dset ''updated_at'' (PStr (utc_now e 0)) (set_position m position positions ledger)))))))"

definition release_exit_claim_mutate ::
  "env \<Rightarrow> string \<Rightarrow> string \<Rightarrow> string \<Rightarrow> bool \<Rightarrow> unit mutator" where
  "release_exit_claim_mutate e m position_id exit_id degraded ledger =
     (let ledger = with_positions ledger in
      bindE (positions_of ledger) (\<lambda>positions.
      case owned_position positions m position_id of
        None \<Rightarrow> Inr ((), ledger)
      | Some position \<Rightarrow>
          (if dgetn position ''pending_exit_id'' \<noteq> PStr exit_id then Inr ((), ledger)
           else let position = dpop ''pending_exit_id'' position;
                    position = dpop ''pending_exit_reason'' position;
                    position = dset ''risk_state'' (PStr (if degraded then ''DEGRADED'' else ''NORMAL'')) position
             in bindE (bump_version position) (\<lambda>position.
                Inr ((), dset ''updated_at'' (PStr (utc_now e 0))
                  (set_position m position positions ledger))))))"

definition ledger_update ::
  "env \<Rightarrow> bool \<Rightarrow> state_file \<Rightarrow> 't mutator \<Rightarrow> 't res \<times> state_file" where
  "ledger_update e lk f m = (case update_json ledger_path lk f (empty_ledger (utc_now e 0)) m None of
     (Inl x, f') \<Rightarrow> (Inl x, f') | (Inr (r, _), f') \<Rightarrow> (Inr r, f'))"

definition claim_position_exit ::
  "env \<Rightarrow> bool \<Rightarrow> state_file \<Rightarrow> string \<Rightarrow> string \<Rightarrow> string \<Rightarrow> (string \<times> int) option res \<times> state_file" where
  "claim_position_exit e lk f m position_id reason =
     ledger_update e lk f (claim_position_exit_mutate (later 1 e) (uuid4 e 0) m position_id reason)"

definition release_exit_claim ::
  "env \<Rightarrow> bool \<Rightarrow> state_file \<Rightarrow> string \<Rightarrow> string \<Rightarrow> string \<Rightarrow> bool \<Rightarrow> unit res \<times> state_file" where
  "release_exit_claim e lk f m position_id exit_id degraded =
     ledger_update e lk f (release_exit_claim_mutate (later 1 e) m position_id exit_id degraded)"


section \<open>Selling\<close>

record sell_request =
  sell_mint :: string
  sell_amount :: int
  proceeds_lamports :: int
  sell_reason :: string
  sell_position_id :: "string option"
  sell_exit_id :: "string option"
  trigger_roi_percent :: "f64 option"
  quote_age_ms :: "int option"
  exit_trigger_latency_ms :: "int option"
  previous_value_lamports :: "int option"
  previous_quote_at :: "string option"
  trigger_peak_value_lamports :: "int option"
  trigger_price_impact_pct :: "f64 option"

text \<open>\<open>x -= n\<close> on a stored number.\<close>

fun py_sub_int :: "py \<Rightarrow> int \<Rightarrow> py res" where
  "py_sub_int (PInt a) n = Inr (PInt (a - n))"
| "py_sub_int (PBool b) n = Inr (PInt ((if b then 1 else 0) - n))"
| "py_sub_int (PFloat x) n = bindE (f64_of_int n) (\<lambda>y. Inr (PFloat (f64_sub x y)))"
| "py_sub_int _ n = Inl TypeError"

definition first_take_profit_reasons :: "string list" where
  "first_take_profit_reasons = [''TAKE_PROFIT_50'', ''LIVE_TAKE_PROFIT_50'',
     ''ROUTE_B_TAKE_PROFIT_30'', ''TAKE_PROFIT_30_SELL_80'']"

definition second_take_profit_reasons :: "string list" where
  "second_take_profit_reasons = [''TAKE_PROFIT_100'', ''LIVE_TAKE_PROFIT_100'']"

text \<open>\<open>if guard and guard != actual\<close>: an absent or empty guard is not checked.\<close>

definition guard_passes :: "string option \<Rightarrow> bool \<Rightarrow> bool" where
  "guard_passes g matches = (case g of None \<Rightarrow> True | Some s \<Rightarrow> s = [] \<or> matches)"

text \<open>The part of the position a take-profit sale rewrites.\<close>

definition after_take_profit :: "string \<Rightarrow> int \<Rightarrow> dict \<Rightarrow> dict res" where
  "after_take_profit reason cumulative position =
     (if reason \<in> set first_take_profit_reasons then
        (let position = dset ''take_profit_done'' (PBool True) position;
             position = dset ''break_even_floor_active'' (PBool False) position
         in bindE (int_field position ''token_amount_raw'' 0) (\<lambda>remaining_amount.
            bindE (int_field position ''entry_cost_lamports'' 0) (\<lambda>entry_cost.
            let required = max 0 (entry_cost - cumulative);
                position = dset ''break_even_required_proceeds_lamports'' (PInt required) position
            in bindE (unit_price required remaining_amount) (\<lambda>price.
               Inr (dset ''post_tp_peak_exit_value_lamports'' (PInt 0)
                     (dset ''break_even_price'' (PFloat price) position))))))
      else if reason \<in> set second_take_profit_reasons
        then Inr (dset ''second_take_profit_done'' (PBool True) position)
      else Inr position)"

text \<open>The amounts of a sale: cost released, profit and return in percent.\<close>

definition realized_roi :: "int \<Rightarrow> int \<Rightarrow> f64 res" where
  "realized_roi pnl cost_released =
     (if 0 < cost_released
      then bindE (int_truediv pnl cost_released) (\<lambda>q. Inr (f64_mul q (Fin 100)))
      else Inr (Fin 0))"

definition sell_event ::
  "string \<Rightarrow> sell_request \<Rightarrow> string \<Rightarrow> int \<Rightarrow> int \<Rightarrow> int \<Rightarrow> f64 \<Rightarrow> dict \<Rightarrow> dict" where
  "sell_event now s position_id round_index sold pnl roi position =
     [(''type'', PStr ''SELL''), (''reason'', PStr (sell_reason s)), (''mint'', PStr (sell_mint s)),
      (''position_id'', PStr position_id),
      (''round_index'', PInt round_index),
      (''token_amount_raw'', PInt sold),
      (''proceeds_lamports'', PInt (proceeds_lamports s)),
      (''realized_pnl_lamports'', PInt pnl),
      (''trigger_roi_percent'', opt_float (trigger_roi_percent s)),
      (''realized_roi_percent'', PFloat roi),
      (''quote_age_ms'', opt_int (quote_age_ms s)),
      (''exit_trigger_latency_ms'', opt_int (exit_trigger_latency_ms s)),
      (''previous_value_lamports'', opt_int (previous_value_lamports s)),
      (''previous_quote_at'', opt_str (previous_quote_at s)),
      (''trigger_peak_value_lamports'', opt_int (trigger_peak_value_lamports s)),
      (''trigger_price_impact_pct'', opt_float (trigger_price_impact_pct s)),
      (''strategy_version'', PStr (str_field position ''strategy_version'' (PStr ''baseline_v1''))),
      (''observation_id'', dgetn position ''observation_id''),
      (''at'', PStr now)]"

text \<open>What the transaction reports: whether it sold, and the experiment it closed, if any.\<close>

type_synonym sell_result = "bool \<times> (string \<times> string) option"

definition closed_experiment :: "dict \<Rightarrow> string \<Rightarrow> (string \<times> string) option" where
  "closed_experiment position position_id =
     (let obs = dgetn position ''observation_id''
      in if truthy obs then Some (py_str obs, position_id) else None)"

text \<open>The effect of a sale of \<open>sold > 0\<close> units on the position and the ledger.\<close>

definition sell_position ::
  "env \<Rightarrow> sell_request \<Rightarrow> string \<Rightarrow> int \<Rightarrow> int \<Rightarrow> dict \<Rightarrow> dict \<Rightarrow> sell_result mutator" where
  "sell_position e s actual_id previous_amount sold position positions ledger =
     bindE (bindE (dindex position ''remaining_cost_lamports'') py_int) (\<lambda>remaining_cost.
     let cost_released = remaining_cost * sold div previous_amount;
         pnl = proceeds_lamports s - cost_released
     in bindE (realized_roi pnl cost_released) (\<lambda>roi.
     let position = dset ''token_amount_raw'' (PInt (previous_amount - sold)) position
     in bindE (bindE (dindex position ''remaining_cost_lamports'') (\<lambda>v. py_sub_int v cost_released)) (\<lambda>remaining.
     let position = dset ''remaining_cost_lamports'' remaining position
     in bindE (int_field position ''cumulative_proceeds_lamports'' 0) (\<lambda>cumulative.
     let cumulative = cumulative + proceeds_lamports s;
         position = dset ''cumulative_proceeds_lamports'' (PInt cumulative) position;
         position = dpop ''pending_exit_id'' position;
         position = dpop ''pending_exit_reason'' position;
         position = dset ''risk_state'' (PStr ''NORMAL'') position
     in bindE (bump_version position) (\<lambda>position.
     bindE (py_int (dget_or ledger ''cash_lamports'' (PInt 0))) (\<lambda>cash.
     let ledger = dset ''cash_lamports'' (PInt (cash + proceeds_lamports s)) ledger
     in bindE (after_take_profit (sell_reason s) cumulative position) (\<lambda>position.
     bindE (py_int (dget_or position ''round_index'' (PInt 1))) (\<lambda>round_index.
     let ledger = dsetdefault ''events'' (PList []) ledger
     in bindE (append_event (uuid4 e 0)
          (sell_event (utc_now e 0) s actual_id round_index sold pnl roi position) ledger) (\<lambda>ledger.
     let closed = (previous_amount - sold \<le> 0);
         positions = (if closed then dpop (sell_mint s) positions
                      else dset (sell_mint s) (PDict position) positions);
         ledger = dset ''positions'' (PDict positions) ledger
     in Inr ((True, if closed then closed_experiment position actual_id else None),
             dset ''updated_at'' (PStr (utc_now e 1)) ledger))))))))))"

definition record_paper_sell_mutate :: "env \<Rightarrow> sell_request \<Rightarrow> sell_result mutator" where
  "record_paper_sell_mutate e s ledger =
     (let ledger = with_positions ledger in
      bindE (positions_of ledger) (\<lambda>positions.
      case dgetn positions (sell_mint s) of
        PDict position \<Rightarrow>
          (let actual_id = py_str (dget_or position ''position_id'' (PStr [])) in
           if \<not> guard_passes (sell_position_id s) (sell_position_id s = Some actual_id)
           then Inr ((False, None), ledger)
           else if \<not> guard_passes (sell_exit_id s)
                  (dgetn position ''pending_exit_id'' = opt_str (sell_exit_id s))
           then Inr ((False, None), ledger)
           else bindE (py_int (dget_or position ''token_amount_raw'' (PInt 0))) (\<lambda>previous_amount.
             let sold = min (sell_amount s) previous_amount in
             if sold \<le> 0 then Inr ((False, None), ledger)
             else sell_position e s actual_id previous_amount sold position positions ledger))
      | _ \<Rightarrow> Inr ((False, None), ledger)))"

definition record_paper_sell ::
  "env \<Rightarrow> bool \<Rightarrow> bool \<Rightarrow> state_file \<Rightarrow> sell_request \<Rightarrow> sell_result res \<times> state_file" where
  "record_paper_sell e lk1 lk2 f s =
     migrated_update e lk1 lk2 f (record_paper_sell_mutate (later 3 e) s)"

section \<open>Marks, lifecycle, floor and quote failures\<close>

definition record_position_mark_mutate :: "env \<Rightarrow> string \<Rightarrow> string \<Rightarrow> int \<Rightarrow> unit mutator" where
  "record_position_mark_mutate e m position_id value ledger =
     (let ledger = with_positions ledger in
      bindE (positions_of ledger) (\<lambda>positions.
      case owned_position positions m position_id of
        None \<Rightarrow> Inr ((), ledger)
      | Some position \<Rightarrow>
          (if value < 0 then Inr ((), ledger)
           else bindE (py_int (dget_or position ''token_amount_raw'' (PInt 0))) (\<lambda>amount.
           bindE (py_int (dget_or position ''remaining_cost_lamports'' (PInt 0))) (\<lambda>cost.
           let now = PStr (utc_now e 0);
               position = dset ''current_value_lamports'' (PInt value) position
           in bindE (if 0 < amount then bindE (int_truediv value amount) (\<lambda>q. Inr (PFloat q))
                     else Inr (PInt 0)) (\<lambda>price.
           let position = dset ''current_price_lamports_per_raw'' price position
           in bindE (if 0 < cost
                     then bindE (int_truediv value cost) (\<lambda>q.
                       Inr (PFloat (f64_mul (f64_sub q (Fin 1)) (Fin 100))))
                     else Inr (PInt 0)) (\<lambda>unrealized.
           let position = dset ''unrealized_return_percent'' unrealized position
           in bindE (py_int (dget_or position ''peak_exit_value_lamports'' (PInt 0))) (\<lambda>peak.
           let position = dset ''peak_exit_value_lamports'' (PInt (max peak value)) position
           in bindE (if truthy (dgetn position ''take_profit_done'')
                     then bindE (int_field position ''post_tp_peak_exit_value_lamports'' 0) (\<lambda>post_peak.
                       Inr (dset ''post_tp_peak_exit_value_lamports'' (PInt (max post_peak value)) position))
                     else Inr position) (\<lambda>position.
           let position = dset ''price_updated_at'' now position;
               position = dset ''last_quote_success_at'' now position;
               position = dset ''consecutive_quote_failures'' (PInt 0) position;
               position = (if dgetn position ''risk_state'' \<noteq> PStr ''EXIT_PENDING''
                           then dset ''risk_state'' (PStr ''NORMAL'') position else position)
           in bindE (bump_version position) (\<lambda>position.
              Inr ((), dset ''updated_at'' now (set_position m position positions ledger))))))))))))"

definition record_position_mark ::
  "env \<Rightarrow> bool \<Rightarrow> state_file \<Rightarrow> string \<Rightarrow> string \<Rightarrow> int \<Rightarrow> unit res \<times> state_file" where
  "record_position_mark e lk f m position_id value =
     ledger_update e lk f (record_position_mark_mutate (later 1 e) m position_id value)"

text \<open>The lifecycle items one after the other; the state is clock, identifiers, position, ledger.\<close>

fun lifecycle_items ::
  "env \<Rightarrow> string \<Rightarrow> string \<Rightarrow> nat \<Rightarrow> nat \<Rightarrow> dict list \<Rightarrow> dict \<Rightarrow> dict \<Rightarrow> (nat \<times> dict \<times> dict) res" where
  "lifecycle_items e m position_id clock k [] position ledger = Inr (clock, position, ledger)"
| "lifecycle_items e m position_id clock k (item # items) position ledger =
     (let status = py_str (dget_or item ''status'' (PStr ''UNKNOWN''));
          stamped = truthy (dgetn item ''at'');
          position = dset ''transaction_lifecycle_status'' (PStr status) position;
          position = dset ''transaction_lifecycle_updated_at''
                       (if stamped then dgetn item ''at'' else PStr (utc_now e clock)) position;
          clock = (if stamped then clock else clock + 1);
          ledger = dsetdefault ''events'' (PList []) ledger
      in bindE (append_event (uuid4 e k)
           (dupdate [(''type'', PStr ''TRANSACTION_LIFECYCLE''), (''mint'', PStr m),
                     (''position_id'', PStr position_id)] item) ledger) (\<lambda>ledger.
         lifecycle_items e m position_id clock (k + 1) items position ledger))"

definition record_live_transaction_lifecycle_mutate ::
  "env \<Rightarrow> string \<Rightarrow> string \<Rightarrow> dict list \<Rightarrow> unit mutator" where
  "record_live_transaction_lifecycle_mutate e m position_id lifecycle ledger =
     (let ledger = with_positions ledger in
      bindE (positions_of ledger) (\<lambda>positions.
      case owned_position positions m position_id of
        None \<Rightarrow> Inr ((), ledger)
      | Some position \<Rightarrow>
          bindE (lifecycle_items e m position_id 0 0 lifecycle position ledger) (\<lambda>(clock, position, ledger).
          bindE (bump_version position) (\<lambda>position.
            Inr ((), dset ''updated_at'' (PStr (utc_now e clock))
              (set_position m position positions ledger))))))"

definition record_live_transaction_lifecycle ::
  "env \<Rightarrow> bool \<Rightarrow> state_file \<Rightarrow> string \<Rightarrow> string \<Rightarrow> dict list \<Rightarrow> unit res \<times> state_file" where
  "record_live_transaction_lifecycle e lk f m position_id lifecycle =
     (if lifecycle = [] then (Inr (), f)
      else ledger_update e lk f
             (record_live_transaction_lifecycle_mutate (later 1 e) m position_id lifecycle))"

definition ensure_break_even_floor_mutate :: "env \<Rightarrow> string \<Rightarrow> string \<Rightarrow> bool mutator" where
  "ensure_break_even_floor_mutate e m position_id ledger =
     (let ledger = with_positions ledger in
      bindE (positions_of ledger) (\<lambda>positions.
      case owned_position positions m position_id of
        None \<Rightarrow> Inr (False, ledger)
      | Some position \<Rightarrow>
          (if \<not> truthy (dgetn position ''take_profit_done'') then Inr (False, ledger)
           else bindE (if dgetn position ''break_even_floor_active'' = PBool True
                  then bindE (float_field position ''stop_loss_ratio'' (PInt 0))
                         (\<lambda>r. Inr (f64_le BREAK_EVEN_STOP_RATIO r))
                  else Inr False) (\<lambda>already_armed.
             if already_armed then Inr (False, ledger)
             else let position = dset ''stop_loss_ratio'' (PFloat BREAK_EVEN_STOP_RATIO) position;
                      position = dset ''break_even_floor_active'' (PBool True) position;
                      position = dset ''break_even_floor_armed_at'' (PStr (utc_now e 0)) position
               in bindE (bump_version position) (\<lambda>position.
                  Inr (True, dset ''updated_at'' (PStr (utc_now e 1))
                    (set_position m position positions ledger)))))))"

definition ensure_break_even_floor ::
  "env \<Rightarrow> bool \<Rightarrow> state_file \<Rightarrow> string \<Rightarrow> string \<Rightarrow> bool res \<times> state_file" where
  "ensure_break_even_floor e lk f m position_id =
     ledger_update e lk f (ensure_break_even_floor_mutate (later 1 e) m position_id)"

text \<open>An exception as the recorder sees it: the name of its class and its text.\<close>

record error_text =
  error_class :: string
  error_message :: string

text \<open>\<open>parse_time\<close>: the instant of a timestamp, if it is one.\<close>

definition parse_time :: "py \<Rightarrow> int option" where
  "parse_time v = (case parse_iso_text v of Inl _ \<Rightarrow> None | Inr t \<Rightarrow> Some (instant_us t))"

text \<open>\<open>now_us\<close> is the instant read for the gap, \<open>utc_now e 0\<close> the text of the failure time.\<close>

definition record_quote_failure_mutate ::
  "env \<Rightarrow> int \<Rightarrow> string \<Rightarrow> string \<Rightarrow> error_text \<Rightarrow> (int \<times> string) option mutator" where
  "record_quote_failure_mutate e now_us m position_id err ledger =
     (let ledger = with_positions ledger in
      bindE (positions_of ledger) (\<lambda>positions.
      case owned_position positions m position_id of
        None \<Rightarrow> Inr (None, ledger)
      | Some position \<Rightarrow>
          bindE (py_int (dget_or position ''consecutive_quote_failures'' (PInt 0))) (\<lambda>previous.
          let failures = previous + 1;
              position = dset ''consecutive_quote_failures'' (PInt failures) position;
              position = dset ''last_quote_error'' (PStr (take 500 (redact_sensitive_text
                           (error_class err @ '': '' @ error_message err)))) position;
              position = dset ''last_quote_failure_at'' (PStr (utc_now e 0)) position;
              gap = (case parse_time (dgetn position ''last_quote_success_at'') of
                       Some t \<Rightarrow> seconds_of_us (now_us - t) | None \<Rightarrow> DEGRADED_QUOTE_GAP_SECONDS);
              position = (if QUOTE_FAILURE_WARNING_COUNT \<le> failures \<or> f64_le DEGRADED_QUOTE_GAP_SECONDS gap
                          then dset ''risk_state'' (PStr
                            (if contains (lower (error_message err)) ''no executable route''
                             then ''NO_ROUTE'' else ''DEGRADED'')) position
                          else position)
          in bindE (bump_version position) (\<lambda>position.
             Inr (Some (failures, py_str (dget_or position ''risk_state'' (PStr ''NORMAL''))),
               dset ''updated_at'' (PStr (utc_now e 1)) (set_position m position positions ledger))))))"

definition record_quote_failure ::
  "env \<Rightarrow> int \<Rightarrow> bool \<Rightarrow> state_file \<Rightarrow> string \<Rightarrow> string \<Rightarrow> error_text
     \<Rightarrow> (int \<times> string) option res \<times> state_file" where
  "record_quote_failure e now_us lk f m position_id err =
     ledger_update e lk f (record_quote_failure_mutate (later 1 e) now_us m position_id err)"

end
