(* ===== verification/JupiterQuotes.thy ===== *)
theory JupiterQuotes
  imports Ledger HeliusRpc
begin

text \<open>
  The quotes of \<open>src/executor.py\<close>: the limits on the price impact of a quote, the request slot
  and the cooldown that the processes share in \<open>jupiter_rate_limit.json\<close>, and the retry loop
  around the quote request.  The clock and what the HTTP client answers are arguments.
\<close>

section \<open>Constants\<close>

definition QUOTE_INTERVAL_SECONDS :: f64 where "QUOTE_INTERVAL_SECONDS = float_lit (125 / 100)"
definition JUPITER_MAX_QUOTE_ATTEMPTS :: nat where "JUPITER_MAX_QUOTE_ATTEMPTS = 3"
definition JUPITER_MAX_RESET_WAIT_SECONDS :: f64 where "JUPITER_MAX_RESET_WAIT_SECONDS = float_lit 60"
definition MAX_EXIT_PRICE_IMPACT_PCT :: f64 where "MAX_EXIT_PRICE_IMPACT_PCT = float_lit (35 / 10)"

definition JUPITER_RATE_LIMIT_FALLBACK :: dict where
  "JUPITER_RATE_LIMIT_FALLBACK =
     [(''last_request_at_epoch'', PFloat (Fin 0)), (''not_before_epoch'', PFloat (Fin 0))]"

definition jupiter_path :: string where "jupiter_path = ''jupiter_rate_limit.json''"

section \<open>Price impact\<close>

definition entry_price_impact_pct :: "dict \<Rightarrow> f64 res" where
  "entry_price_impact_pct quote =
     (let raw_impact = dgetn quote ''priceImpactPct'' in
      if raw_impact = PNone \<or> raw_impact = PStr []
      then Inl (RuntimeError ''[FILTER] Jupiter quote is missing priceImpactPct. Abort buy.'')
      else case py_float raw_impact of
        Inr x \<Rightarrow> Inr x
      | Inl TypeError \<Rightarrow> Inl (RuntimeError ''Jupiter quote has an invalid priceImpactPct'')
      | Inl (ValueError _) \<Rightarrow> Inl (RuntimeError ''Jupiter quote has an invalid priceImpactPct'')
      | Inl x \<Rightarrow> Inl x)"

definition validate_entry_price_impact :: "dict \<Rightarrow> f64 res" where
  "validate_entry_price_impact quote = bindE (entry_price_impact_pct quote) (\<lambda>impact.
     if \<not> f64_is_finite impact \<or> f64_lt impact (Fin 0) \<or> f64_lt MAX_ENTRY_PRICE_IMPACT_PCT impact
     then Inl (RuntimeError (''[FILTER] Entry price impact '' @ fixed_f64 4 impact @ ''% exceeds ''
            @ fixed_f64 2 MAX_ENTRY_PRICE_IMPACT_PCT @ ''%. Abort buy.''))
     else Inr impact)"

definition validate_exit_price_impact :: "dict \<Rightarrow> f64 res" where
  "validate_exit_price_impact quote = bindE (entry_price_impact_pct quote) (\<lambda>impact.
     if \<not> f64_is_finite impact \<or> f64_lt impact (Fin 0) \<or> f64_le MAX_EXIT_PRICE_IMPACT_PCT impact
     then Inl (RuntimeError (''[ENTRY_REJECTED] Exit impact too high: '' @ fixed_f64 4 impact
            @ ''% (threshold < '' @ fixed_f64 2 MAX_EXIT_PRICE_IMPACT_PCT @ ''%)''))
     else Inr impact)"

section \<open>The shared slot\<close>

text \<open>\<open>now\<close> is the clock before the wait, \<open>woke\<close> the clock after it.\<close>

definition wait_for_jupiter_slot_mutate :: "f64 \<Rightarrow> f64 \<Rightarrow> f64 \<Rightarrow> f64 mutator" where
  "wait_for_jupiter_slot_mutate interval_seconds now woke state =
     bindE (float_field state ''last_request_at_epoch'' (PFloat (Fin 0))) (\<lambda>last_request.
     bindE (float_field state ''not_before_epoch'' (PFloat (Fin 0))) (\<lambda>not_before.
     let target = f64_max (f64_max now (f64_add last_request interval_seconds)) not_before;
         delay = f64_max (Fin 0) (f64_sub target now);
         state = dset ''last_request_at_epoch'' (PFloat woke) state
     in Inr (delay, if f64_le not_before woke
          then dset ''not_before_epoch'' (PFloat (Fin 0)) state else state)))"

definition wait_for_jupiter_slot :: "bool \<Rightarrow> state_file \<Rightarrow> f64 \<Rightarrow> f64 \<Rightarrow> f64 res \<times> state_file" where
  "wait_for_jupiter_slot lk f now woke = locked_write jupiter_path lk f JUPITER_RATE_LIMIT_FALLBACK
     (wait_for_jupiter_slot_mutate QUOTE_INTERVAL_SECONDS now woke)"

definition defer_jupiter_until_mutate :: "f64 \<Rightarrow> unit mutator" where
  "defer_jupiter_until_mutate not_before state =
     bindE (float_field state ''not_before_epoch'' (PFloat (Fin 0))) (\<lambda>current.
       Inr ((), dset ''not_before_epoch'' (PFloat (f64_max current not_before)) state))"

definition defer_jupiter_until :: "bool \<Rightarrow> state_file \<Rightarrow> f64 \<Rightarrow> unit res \<times> state_file" where
  "defer_jupiter_until lk f not_before =
     locked_write jupiter_path lk f JUPITER_RATE_LIMIT_FALLBACK (defer_jupiter_until_mutate not_before)"

definition exponential_backoff :: "nat \<Rightarrow> f64" where
  "exponential_backoff attempt_index = f64_min (f64_of_rat (2 ^ attempt_index)) (float_lit 30)"

definition jupiter_backoff_seconds :: "string option \<Rightarrow> nat \<Rightarrow> f64 \<Rightarrow> f64 \<times> string" where
  "jupiter_backoff_seconds reset_header attempt_index now =
     (case (case reset_header of None \<Rightarrow> None | Some s \<Rightarrow> if s = [] then None else f64_of_string s) of
        Some reset \<Rightarrow>
          (let delay = (if f64_lt now reset then f64_add (f64_sub reset now) (float_lit (5 / 100))
                        else f64_max (float_lit (5 / 100)) reset)
           in (f64_min delay JUPITER_MAX_RESET_WAIT_SECONDS, ''rate-limit-reset''))
      | None \<Rightarrow> (exponential_backoff attempt_index, ''exponential-fallback''))"

section \<open>The quote\<close>

text \<open>
  What a request ends in: a response (status, headers, body), an error of the HTTP client or a
  timeout with its text, or an exception the loop does not catch.  \<open>quote_status_error\<close> is the text of
  the error the HTTP client raises for a bad status.
\<close>

datatype quote_answer = QuoteResponse int headers py | QuoteTransport string | QuoteRaised exc

record quote_attempt =
  quote_lock :: bool
  quote_now :: f64
  quote_request_at :: f64
  quote_answer :: quote_answer
  quote_status_error :: string
  quote_failed_at :: f64
  quote_defer_lock :: bool

text \<open>What an attempt ends in.\<close>

datatype quote_step = QuoteGot py | QuoteStop exc | QuotePause f64 | QuoteTransportFailure string

text \<open>An exception of a lock or of the state file: a lock timeout is a \<open>TimeoutError\<close>.\<close>

definition slot_failure :: "exc \<Rightarrow> quote_step" where
  "slot_failure x = (case x of StateLockTimeout s \<Rightarrow> QuoteTransportFailure s | _ \<Rightarrow> QuoteStop x)"

definition header_or :: "headers \<Rightarrow> string \<Rightarrow> string \<Rightarrow> string option" where
  "header_or hs a b = (case hs a of None \<Rightarrow> hs b | Some s \<Rightarrow> (if s = [] then hs b else Some s))"

definition quote_attempt_step ::
  "bool \<Rightarrow> nat \<Rightarrow> bool \<Rightarrow> quote_attempt \<Rightarrow> state_file \<Rightarrow> quote_step \<times> state_file" where
  "quote_attempt_step fail_fast i final a f =
     (case wait_for_jupiter_slot (quote_lock a) f (quote_now a) (quote_request_at a) of
        (Inl x, f) \<Rightarrow> (slot_failure x, f)
      | (Inr _, f) \<Rightarrow>
          (case quote_answer a of
             QuoteTransport text \<Rightarrow> (QuoteTransportFailure text, f)
           | QuoteRaised x \<Rightarrow> (QuoteStop x, f)
           | QuoteResponse status hs payload \<Rightarrow>
               (if status = 400 \<and> fail_fast
                then (QuoteStop (JupiterNoRouteError ''Jupiter returned HTTP 400 without an executable route''), f)
                else if status \<noteq> 429 \<and> status < 500
                then (if 400 \<le> status then QuoteTransportFailure (quote_status_error a) else QuoteGot payload, f)
                else let (delay, source) = jupiter_backoff_seconds
                           (header_or hs ''x-ratelimit-reset'' ''Retry-After'') i (quote_failed_at a)
                  in case defer_jupiter_until (quote_defer_lock a) f (f64_add (quote_failed_at a) delay) of
                    (Inl x, f) \<Rightarrow> (slot_failure x, f)
                  | (Inr _, f) \<Rightarrow>
                      (if final then QuoteStop (RuntimeError ''Jupiter quote failed after 3 attempts'')
                       else QuotePause delay, f))))"

text \<open>
  The attempts \<open>i\<close>, \<open>i + 1\<close>, ..., \<open>n\<close> of them left: the answer that ended the loop, if any, with
  the text of the last transport error, and the pauses made.
\<close>

fun quote_loop ::
  "bool \<Rightarrow> (nat \<Rightarrow> quote_attempt) \<Rightarrow> nat \<Rightarrow> nat \<Rightarrow> string option \<Rightarrow> state_file
     \<Rightarrow> (py option \<times> string option) res \<times> f64 list \<times> state_file" where
  "quote_loop fail_fast ev i 0 last_error f = (Inr (None, last_error), [], f)"
| "quote_loop fail_fast ev i (Suc n) last_error f =
     (case quote_attempt_step fail_fast i (n = 0) (ev i) f of
        (QuoteGot payload, f) \<Rightarrow> (Inr (Some payload, last_error), [], f)
      | (QuoteStop x, f) \<Rightarrow> (Inl x, [], f)
      | (QuotePause d, f) \<Rightarrow>
          (let (r, ds, f) = quote_loop fail_fast ev (Suc i) n last_error f in (r, d # ds, f))
      | (QuoteTransportFailure text, f) \<Rightarrow>
          (if n = 0 then (Inr (None, Some text), [], f)
           else let (r, ds, f) = quote_loop fail_fast ev (Suc i) n (Some text) f
             in (r, exponential_backoff i # ds, f)))"

text \<open>A quote is usable if it has a route and a positive output.\<close>

definition checked_quote :: "bool \<Rightarrow> py option \<Rightarrow> string option \<Rightarrow> dict res" where
  "checked_quote fail_fast quote last_error =
     (let no_route = (if fail_fast then JupiterNoRouteError ''Jupiter returned no executable route''
                      else RuntimeError ''Jupiter returned no executable route'')
      in if quote = None \<or> quote = Some PNone
         then Inl (RuntimeError (''Jupiter quote failed after 3 attempts: ''
                @ (case last_error of Some t \<Rightarrow> t | None \<Rightarrow> ''no response'')))
         else bindE (as_dict (the quote)) (\<lambda>d.
           if \<not> truthy (dgetn d ''routePlan'') then Inl no_route
           else bindE (py_int (dget_or d ''outAmount'' (PStr ''0''))) (\<lambda>out.
             if out \<le> 0 then Inl no_route else Inr d)))"

definition jupiter_quote ::
  "(nat \<Rightarrow> quote_attempt) \<Rightarrow> int \<Rightarrow> bool \<Rightarrow> state_file \<Rightarrow> dict res \<times> f64 list \<times> state_file" where
  "jupiter_quote ev slippage_bps fail_fast f =
     (if slippage_bps < 0 \<or> 10000 < slippage_bps
      then (Inl (ValueError ''slippage_bps must be between 0 and 10000''), [], f)
      else let (r, ds, f) = quote_loop fail_fast ev 0 JUPITER_MAX_QUOTE_ATTEMPTS None f
        in (bindE r (\<lambda>(quote, last_error). checked_quote fail_fast quote last_error), ds, f))"

section \<open>Properties\<close>

lemma quote_loop_pauses:
  "quote_loop fail_fast ev i n e f = (r, ds, f') \<Longrightarrow> length ds \<le> n - 1"
proof (induction n arbitrary: i e f r ds f')
  case (Suc n)
  obtain s f1 where s: "quote_attempt_step fail_fast i (n = 0) (ev i) f = (s, f1)"
    by (cases "quote_attempt_step fail_fast i (n = 0) (ev i) f")
  have final: "s \<noteq> QuotePause d" if "n = 0" for d
    using s that
    by (auto simp: quote_attempt_step_def slot_failure_def split: sum.splits prod.splits quote_answer.splits if_splits exc.splits)
  show ?case
  proof (cases s)
    case (QuotePause d)
    obtain r1 ds1 f2 where l: "quote_loop fail_fast ev (Suc i) n e f1 = (r1, ds1, f2)"
      by (cases "quote_loop fail_fast ev (Suc i) n e f1") auto
    have "0 < n" using final QuotePause by (cases n) auto
    then show ?thesis using Suc.IH [OF l] Suc.prems s l QuotePause by auto
  next
    case (QuoteTransportFailure t)
    obtain r1 ds1 f2 where l: "quote_loop fail_fast ev (Suc i) n (Some t) f1 = (r1, ds1, f2)"
      by (cases "quote_loop fail_fast ev (Suc i) n (Some t) f1") auto
    show ?thesis using Suc.IH [OF l] Suc.prems s l QuoteTransportFailure by (cases n) auto
  qed (use Suc.prems s in auto)
qed auto

lemma quote_step_got:
  "quote_attempt_step fail_fast i final a f = (QuoteGot payload, f') \<Longrightarrow>
   \<exists>status hs. quote_answer a = QuoteResponse status hs payload \<and> status < 400"
  by (auto simp: quote_attempt_step_def slot_failure_def split: sum.splits prod.splits quote_answer.splits if_splits exc.splits)

lemma quote_loop_got:
  "quote_loop fail_fast ev i n e f = (Inr (Some payload, e'), ds, f') \<Longrightarrow>
   \<exists>j. i \<le> j \<and> j < i + n \<and> (\<exists>status hs. quote_answer (ev j) = QuoteResponse status hs payload \<and> status < 400)"
proof (induction n arbitrary: i e f ds f')
  case (Suc n)
  obtain s f1 where s: "quote_attempt_step fail_fast i (n = 0) (ev i) f = (s, f1)"
    by (cases "quote_attempt_step fail_fast i (n = 0) (ev i) f")
  have later: "\<exists>j. i \<le> j \<and> j < i + Suc n \<and> (\<exists>status hs. quote_answer (ev j) = QuoteResponse status hs payload \<and> status < 400)"
    if l: "quote_loop fail_fast ev (Suc i) n e1 f1 = (Inr (Some payload, e'), ds1, f2)" for e1 ds1 f2
  proof -
    from Suc.IH [OF l] obtain j where "Suc i \<le> j" "j < Suc i + n"
        "\<exists>status hs. quote_answer (ev j) = QuoteResponse status hs payload \<and> status < 400" by blast
    then show ?thesis by (intro exI [of _ j]) auto
  qed
  show ?case
  proof (cases s)
    case (QuoteGot q)
    then show ?thesis using Suc.prems s quote_step_got [of fail_fast i "n = 0" "ev i" f q f1] by auto
  qed (use Suc.prems s later in \<open>auto split: prod.splits if_splits\<close>)
qed simp

lemma jupiter_quote_facts:
  assumes "jupiter_quote ev slippage fail_fast f = (Inr q, ds, f')"
  shows "truthy (dgetn q ''routePlan'') \<and> (\<exists>n. py_int (dget_or q ''outAmount'' (PStr ''0'')) = Inr n \<and> 0 < n) \<and>
    (\<exists>i. i < 3 \<and> (\<exists>status hs. quote_answer (ev i) = QuoteResponse status hs (PDict q) \<and> status < 400)) \<and> length ds \<le> 2"
proof -
  obtain quote e where l: "quote_loop fail_fast ev 0 JUPITER_MAX_QUOTE_ATTEMPTS None f = (Inr (quote, e), ds, f')"
      "checked_quote fail_fast quote e = Inr q"
    using assms by (auto simp: jupiter_quote_def bindE_eq_Inr split: if_splits prod.splits)
  from l(2) have q: "quote = Some (PDict q)" "truthy (dgetn q ''routePlan'')"
      "\<exists>n. py_int (dget_or q ''outAmount'' (PStr ''0'')) = Inr n \<and> 0 < n"
    by (auto simp: checked_quote_def Let_def bindE_eq_Inr split: if_splits elim!: as_dict.elims)
  show ?thesis
    using q quote_loop_got [OF l(1) [unfolded q(1)]] quote_loop_pauses [OF l(1)]
    by (auto simp: JUPITER_MAX_QUOTE_ATTEMPTS_def)
qed

text \<open>A quote that \<open>jupiter_quote\<close> returns has a route and a positive output amount, and it was the
  body of a response with a status below 400 and not 429; the call pauses at most twice.\<close>
theorem quote_is_executable:
  assumes "jupiter_quote ev slippage fail_fast f = (Inr q, ds, f')"
  shows "truthy (dgetn q ''routePlan'') \<and> (\<exists>n. py_int (dget_or q ''outAmount'' (PStr ''0'')) = Inr n \<and> 0 < n) \<and>
    (\<exists>i. i < 3 \<and> (\<exists>status hs. quote_answer (ev i) = QuoteResponse status hs (PDict q) \<and> status < 400)) \<and> length ds \<le> 2"
  by (rule jupiter_quote_facts [OF assms])

definition sample_quote :: dict where
  "sample_quote = [(''routePlan'', PList [PNone]), (''outAmount'', PStr ''5''), (''priceImpactPct'', PStr ''0.5'')]"

definition sample_quote_attempt :: "quote_answer \<Rightarrow> quote_attempt" where
  "sample_quote_attempt a = \<lparr>quote_lock = True, quote_now = Fin 100, quote_request_at = Fin 100, quote_answer = a,
     quote_status_error = ''status'', quote_failed_at = Fin 101, quote_defer_lock = True\<rparr>"

definition quoting :: "nat \<Rightarrow> quote_attempt" where
  "quoting = (\<lambda>_. sample_quote_attempt (QuoteResponse 200 (\<lambda>_. None) (PDict sample_quote)))"

lemma quote_on_fresh_slot:
  "\<exists>f'. jupiter_quote quoting 100 b Missing = (Inr sample_quote, [], f')"
proof -
  have out: "int_of_string ''5'' = Some 5" by code_simp
  obtain d g where slot: "wait_for_jupiter_slot True Missing (Fin 100) (Fin 100) = (Inr d, g)"
    by (simp add: wait_for_jupiter_slot_def locked_write_def locked_def wait_for_jupiter_slot_mutate_def
        JUPITER_RATE_LIMIT_FALLBACK_def float_field_def py_or_def)
  then show ?thesis
    by (simp add: jupiter_quote_def JUPITER_MAX_QUOTE_ATTEMPTS_def eval_nat_numeral quoting_def sample_quote_attempt_def
        quote_attempt_step_def checked_quote_def sample_quote_def out)
qed

theorem quote_is_executable_witness:
  "truthy (dgetn sample_quote ''routePlan'') \<and> (\<exists>i. i < 3 \<and> quote_answer (quoting i) = QuoteResponse 200 (\<lambda>_. None) (PDict sample_quote))"
proof -
  obtain f' where f: "jupiter_quote quoting 100 False Missing = (Inr sample_quote, [], f')" using quote_on_fresh_slot by blast
  show ?thesis using quote_is_executable [OF f] by (auto simp: quoting_def sample_quote_attempt_def)
qed

end
