(* ===== verification/WalletPerformance.thy ===== *)
theory WalletPerformance
  imports Ledger LogRedaction JupiterQuotes "HOL-Library.List_Lexorder" "HOL-Library.Char_ord"
begin

text \<open>
  The performance ledger of the watched wallets, \<open>src/wallet_performance.py\<close>: their purchases, which
  are priced again after an hour, the counters and the cool-downs that follow from the results, the
  replacement of a wallet that cools down, the recovery after 24 hours, the migration of old files,
  and the loop that prices what is due.

  The clock, the quotes, the outcome of the locks and the text of an exception are arguments, and so is
  \<open>fsum\<close>, the sum of a list of floats, whose rounding depends on the version of Python.
\<close>

section \<open>Values\<close>

definition EVALUATION_DELAY_SECONDS :: f64 where "EVALUATION_DELAY_SECONDS = Fin 3600"
definition MAX_RETURN_PERCENT :: f64 where "MAX_RETURN_PERCENT = Fin 5000"
definition COOLDOWN_SECONDS :: f64 where "COOLDOWN_SECONDS = Fin 86400"

text \<open>\<open>len(v)\<close>, \<open>s in v\<close>, and \<open>a == b\<close> for values that can be elements of a set.\<close>

fun py_len :: "py \<Rightarrow> int res" where
  "py_len (PList xs) = Inr (int (length xs))"
| "py_len (PDict d) = Inr (int (length d))"
| "py_len (PStr s) = Inr (int (length s))"
| "py_len _ = Inl TypeError"

fun py_contains :: "string \<Rightarrow> py \<Rightarrow> bool res" where
  "py_contains s (PList xs) = Inr (PStr s \<in> set xs)"
| "py_contains s (PDict d) = Inr (dhas d s)"
| "py_contains s (PStr t) = Inr (contains t s)"
| "py_contains s _ = Inl TypeError"

fun hashable :: "py \<Rightarrow> bool" where
  "hashable (PList _) = False"
| "hashable (PDict _) = False"
| "hashable _ = True"

fun number_of :: "py \<Rightarrow> rat option" where
  "number_of (PBool b) = Some (if b then 1 else 0)"
| "number_of (PInt i) = Some (of_int i)"
| "number_of (PFloat (Fin q)) = Some q"
| "number_of _ = None"

definition py_same :: "py \<Rightarrow> py \<Rightarrow> bool" where
  "py_same a b = (case (number_of a, number_of b) of
     (Some x, Some y) \<Rightarrow> x = y
   | _ \<Rightarrow> a = b \<and> a \<noteq> PFloat NaN)"

definition capped_return_percent :: "py \<Rightarrow> f64 res" where
  "capped_return_percent v =
     catchE (bindE (py_float v) (\<lambda>x. Inr (if f64_lt MAX_RETURN_PERCENT x then MAX_RETURN_PERCENT else x)))
       is_value_or_type_error (\<lambda>_. Inr (Fin 0))"

definition entries :: "dict \<Rightarrow> dict list res" where
  "entries document = bindE (py_iter (dget_or document ''wallets'' (PList []))) (\<lambda>rows.
     Inr (List.map_filter (\<lambda>row. case row of
         PDict d \<Rightarrow> (if truthy (dgetn d ''address'') then Some d else None) | _ \<Rightarrow> None) rows))"

text \<open>The first and the last microsecond a \<open>datetime\<close> can hold, from the epoch.\<close>

definition MIN_UTC_US :: int where "MIN_UTC_US = (1 - epoch_ordinal) * 86400000000"
definition MAX_UTC_US :: int where "MAX_UTC_US = (3652060 - epoch_ordinal) * 86400000000 - 1"

definition parse_utc_timestamp :: "py \<Rightarrow> int option res" where
  "parse_utc_timestamp v =
     (if \<not> truthy v then Inr None
      else case fromisoformat (replace_all (py_str v) ''Z'' ''+00:00'') of
          None \<Rightarrow> Inr None
        | Some t \<Rightarrow> (if instant_us t < MIN_UTC_US \<or> MAX_UTC_US < instant_us t then Inl OverflowError
                     else Inr (Some (instant_us t))))"

definition wallet_is_cooling_down :: "py \<Rightarrow> bool" where
  "wallet_is_cooling_down row = (case row of PDict d \<Rightarrow> dgetn d ''status'' = PStr ''COOL_DOWN'' | _ \<Rightarrow> False)"

section \<open>The row of a wallet\<close>

definition default_row :: "dict \<Rightarrow> dict" where
  "default_row row = fold (\<lambda>(k, v). dsetdefault k v)
     [(''wins'', PInt 0), (''losses'', PInt 0), (''samples'', PList []), (''pending'', PList []),
      (''processed_signatures'', PList []), (''paper_buy_signatures'', PList []),
      (''safety_block_signatures'', PList []), (''status'', PStr ''ACTIVE'')] row"

definition sync_pipeline_counts :: "dict \<Rightarrow> dict res" where
  "sync_pipeline_counts row =
     bindE (py_int (dget_or row ''evaluation_completed_count'' (PInt 0))) (\<lambda>before.
     bindE (py_int (dget_or row ''wins'' (PInt 0))) (\<lambda>wins.
     bindE (py_int (dget_or row ''losses'' (PInt 0))) (\<lambda>losses.
     bindE (py_len (dget_or row ''samples'' (PList []))) (\<lambda>samples.
     let row = dset ''evaluation_completed_count'' (PInt (max (max before (wins + losses)) samples)) row in
     bindE (py_len (dget_or row ''pending'' (PList []))) (\<lambda>pending.
     let row = dset ''evaluation_pending_count'' (PInt pending) row in
     bindE (py_int (dget_or row ''processed_count'' (PInt 0))) (\<lambda>processed.
     bindE (py_len (dget_or row ''processed_signatures'' (PList []))) (\<lambda>signatures.
     let row = dset ''processed_count'' (PInt (max processed signatures)) row in
     bindE (py_int (dget_or row ''paper_buy_count'' (dget_or row ''virtual_buys'' (PInt 0)))) (\<lambda>buys.
     let row = dset ''paper_buy_count'' (PInt buys) row in
     bindE (py_int (dget_or row ''safety_block_count'' (dget_or row ''scam_rejections'' (PInt 0)))) (\<lambda>blocks.
     let row = dset ''safety_block_count'' (PInt blocks) row;
         row = dset ''virtual_buys'' (PInt buys) row
     in Inr (dset ''scam_rejections'' (PInt blocks) row))))))))))"

text \<open>The wallets of a state with the row of one of them: defaults, then the counts, which \<open>wallet_row\<close>
  computes as \<open>sync_pipeline_counts\<close> does.\<close>

definition wallet_row :: "dict \<Rightarrow> string \<Rightarrow> (dict \<times> dict) res" where
  "wallet_row state wallet =
     bindE (as_dict (dget_or state ''wallets'' (PDict []))) (\<lambda>wallets.
     bindE (as_dict (dget_or wallets wallet (PDict []))) (\<lambda>row.
     bindE (sync_pipeline_counts (default_row row)) (\<lambda>row. Inr (wallets, row))))"

definition put_row :: "dict \<Rightarrow> dict \<Rightarrow> string \<Rightarrow> dict \<Rightarrow> dict" where
  "put_row state wallets wallet row = dset ''wallets'' (PDict (dset wallet (PDict row) wallets)) state"

definition touch :: "string \<Rightarrow> dict \<Rightarrow> dict" where
  "touch t state = dset ''updated_at'' (PStr t) state"

text \<open>A signature is counted once; the last \<open>n\<close> are kept.\<close>

definition count_signature :: "string \<Rightarrow> string \<Rightarrow> nat \<Rightarrow> string \<Rightarrow> (dict \<Rightarrow> dict) \<Rightarrow> dict \<Rightarrow> dict res" where
  "count_signature signatures counter n sig finish row =
     bindE (py_contains sig (dget_or row signatures (PList []))) (\<lambda>seen.
       if seen then Inr row
       else bindE (py_int (dget_or row counter (PInt 0))) (\<lambda>c.
            bindE (as_list (dget_or row signatures (PList []))) (\<lambda>xs.
              Inr (finish (dset signatures (PList (take_last n (xs @ [PStr sig])))
                    (dset counter (PInt (c + 1)) row))))))"

definition last_buy :: "string \<Rightarrow> string \<Rightarrow> string \<Rightarrow> string \<Rightarrow> dict \<Rightarrow> dict" where
  "last_buy k m sig t row =
     dset k (PDict [(''mint'', PStr m), (''signature'', PStr sig), (''at'', PStr t)]) row"

definition performance_fallback :: dict where "performance_fallback = [(''wallets'', PDict [])]"

definition performance_update :: "bool \<Rightarrow> state_file \<Rightarrow> 't mutator \<Rightarrow> 't res \<times> state_file" where
  "performance_update lk f mutator =
     (case update_json ''wallet_performance.json'' lk f performance_fallback mutator None of
        (Inl e, f') \<Rightarrow> (Inl e, f') | (Inr (r, _), f') \<Rightarrow> (Inr r, f'))"

section \<open>Purchases\<close>

definition record_paper_buy_success_mutate :: "string \<Rightarrow> string \<Rightarrow> string \<Rightarrow> string \<Rightarrow> string \<Rightarrow> unit mutator" where
  "record_paper_buy_success_mutate wallet m sig t1 t2 state =
     bindE (wallet_row state wallet) (\<lambda>(wallets, row).
     bindE (count_signature ''paper_buy_signatures'' ''paper_buy_count'' 100 sig
              (last_buy ''last_virtual_buy'' m sig t1) row) (\<lambda>row.
     bindE (sync_pipeline_counts row) (\<lambda>row.
       Inr ((), touch t2 (put_row state wallets wallet row)))))"

definition record_paper_buy_success ::
  "bool \<Rightarrow> state_file \<Rightarrow> string \<Rightarrow> string \<Rightarrow> string \<Rightarrow> string \<Rightarrow> string \<Rightarrow> unit res \<times> state_file" where
  "record_paper_buy_success lk f wallet m sig t1 t2 =
     performance_update lk f (record_paper_buy_success_mutate wallet m sig t1 t2)"

definition observation_key :: "dict \<Rightarrow> string" where
  "observation_key item = py_str (py_or (dgetn item ''observation_id'')
     (PStr (py_str (dgetn item ''signature'') @ '':'' @ py_str (dgetn item ''mint''))))"

definition known_observations :: "dict \<Rightarrow> string list res" where
  "known_observations row =
     bindE (py_iter (dget_or row ''pending'' (PList []))) (\<lambda>pending.
     bindE (py_iter (dget_or row ''samples'' (PList []))) (\<lambda>samples.
       Inr (List.map_filter (\<lambda>item. case item of PDict d \<Rightarrow> Some (observation_key d) | _ \<Rightarrow> None)
             (pending @ samples))))"

definition new_observation :: "string \<Rightarrow> string \<Rightarrow> int \<Rightarrow> f64 \<Rightarrow> string \<Rightarrow> f64 \<Rightarrow> dict" where
  "new_observation key m acquired price sig now =
     [(''observation_id'', PStr key), (''mint'', PStr m), (''acquired_raw'', PInt acquired),
      (''entry_price'', PFloat price), (''observed_at'', PFloat now),
      (''evaluate_at'', PFloat (f64_add now EVALUATION_DELAY_SECONDS)), (''signature'', PStr sig),
      (''status'', PStr ''PENDING''), (''evaluation_attempts'', PInt 0),
      (''next_retry_at'', PFloat (f64_add now EVALUATION_DELAY_SECONDS)), (''evaluated_at'', PNone),
      (''evaluation_price'', PNone), (''price_source'', PNone), (''last_error'', PNone)]"

definition observe_buy_mutate ::
  "string \<Rightarrow> string \<Rightarrow> int \<Rightarrow> f64 \<Rightarrow> string \<Rightarrow> f64 \<Rightarrow> string \<Rightarrow> string \<Rightarrow> unit mutator" where
  "observe_buy_mutate wallet m acquired price sig now t1 t2 state =
     bindE (wallet_row state wallet) (\<lambda>(wallets, row).
     bindE (count_signature ''processed_signatures'' ''processed_count'' 1000 sig
              (last_buy ''last_processed_buy'' m sig t1) row) (\<lambda>row.
     let key = sig @ '':'' @ m in
     bindE (known_observations row) (\<lambda>known.
     bindE (if key \<in> set known then Inr row
            else bindE (as_list (dgetn row ''pending'')) (\<lambda>pending.
              Inr (dset ''pending'' (PList (pending @ [PDict (new_observation key m acquired price sig now)])) row))) (\<lambda>row.
     bindE (sync_pipeline_counts row) (\<lambda>row.
       Inr ((), touch t2 (dpop ''latest_prices'' (put_row state wallets wallet row))))))))"

definition observe_buy ::
  "bool \<Rightarrow> state_file \<Rightarrow> string \<Rightarrow> string \<Rightarrow> int \<Rightarrow> int \<Rightarrow> string \<Rightarrow> f64 \<Rightarrow> string \<Rightarrow> string \<Rightarrow> unit res \<times> state_file" where
  "observe_buy lk f wallet m acquired paid sig now t1 t2 =
     (if acquired \<le> 0 \<or> paid \<le> 0 then (Inr (), f)
      else case int_truediv paid acquired of
          Inl e \<Rightarrow> (Inl e, f)
        | Inr price \<Rightarrow> performance_update lk f (observe_buy_mutate wallet m acquired price sig now t1 t2))"

section \<open>Cool-downs\<close>

definition start_cooldown :: "string \<Rightarrow> string \<Rightarrow> dict \<Rightarrow> dict" where
  "start_cooldown t reason row = dpop ''eviction_reason'' (dupdate row
     [(''status'', PStr ''COOL_DOWN''), (''cooldown_started_at'', PStr t), (''cooldown_reason'', PStr reason),
      (''evicted'', PBool False)])"

definition reject_unsafe_buy_mutate ::
  "string \<Rightarrow> string \<Rightarrow> string list \<Rightarrow> string \<Rightarrow> string \<Rightarrow> string \<Rightarrow> bool mutator" where
  "reject_unsafe_buy_mutate wallet m rejections sig t1 t2 state =
     bindE (wallet_row state wallet) (\<lambda>(wallets, row).
     bindE (if sig \<noteq> ''unknown'' then Inr sig
            else bindE (py_len (dget_or row ''safety_block_signatures'' (PList []))) (\<lambda>n.
              Inr (m @ '':'' @ dec_int n))) (\<lambda>decision_key.
     bindE (count_signature ''safety_block_signatures'' ''safety_block_count'' 100 decision_key id row) (\<lambda>row.
     let row = dupdate row [(''last_rejected_mint'', PStr m), (''last_rejection_reasons'', PList (map PStr rejections))] in
     bindE (sync_pipeline_counts row) (\<lambda>row.
     bindE (py_int (dgetn row ''safety_block_count'')) (\<lambda>blocks.
     let cool = 2 \<le> blocks \<and> dgetn row ''status'' \<noteq> PStr ''COOL_DOWN'';
         row = (if cool then start_cooldown t1 ''repeated unsafe-token purchases'' row else row)
     in Inr (cool, touch t2 (put_row state wallets wallet row)))))))"

text \<open>
  The order of the watch list, best first: \<open>rank_less\<close> compares the sort keys, and the sort is
  stable.  Rows with a NaN among their keys have no order; Python leaves their places open.
\<close>

type_synonym rank = "bool \<times> f64 \<times> f64"

definition row_rank :: "dict \<Rightarrow> (rank \<times> dict) res" where
  "row_rank row =
     bindE (float_field row ''win_rate'' (PInt 0)) (\<lambda>w.
     bindE (float_field row ''average_return_percent'' (PInt 0)) (\<lambda>r.
       Inr ((truthy (py_or (dgetn row ''is_elite'') (dgetn row ''locked'')), w, r), row)))"

fun rank_less :: "rank \<Rightarrow> rank \<Rightarrow> bool" where
  "rank_less (e, w, r) (e', w', r') =
     (if e \<noteq> e' then e' else if w \<noteq> w' \<or> w = NaN then f64_lt w w' else f64_lt r r')"

fun insert_ranked :: "rank \<times> dict \<Rightarrow> (rank \<times> dict) list \<Rightarrow> (rank \<times> dict) list" where
  "insert_ranked x [] = [x]"
| "insert_ranked x (y # ys) = (if rank_less (fst y) (fst x) then x # y # ys else y # insert_ranked x ys)"

definition sort_rows :: "dict list \<Rightarrow> dict list res" where
  "sort_rows rows = bindE (mapE row_rank rows) (\<lambda>ranked. Inr (map snd (fold insert_ranked ranked [])))"

fun find_replacement :: "py list \<Rightarrow> string \<Rightarrow> string list \<Rightarrow> dict list \<Rightarrow> dict option res" where
  "find_replacement active wallet unavailable [] = Inr None"
| "find_replacement active wallet unavailable (row # rows) =
     (let a = dgetn row ''address'' in
      if \<not> hashable a then Inl TypeError
      else if list_ex (py_same a) active \<or> a = PStr wallet \<or> a \<in> PStr ` set unavailable
      then find_replacement active wallet unavailable rows
      else Inr (Some row))"

text \<open>The wallets that are cooling down or were evicted.\<close>

definition unavailable_wallets :: "dict \<Rightarrow> string list res" where
  "unavailable_wallets performance = bindE (as_dict (dget_or performance ''wallets'' (PDict []))) (\<lambda>rows.
     Inr (map fst (filter (\<lambda>(_, v). wallet_is_cooling_down v \<or>
       (case v of PDict d \<Rightarrow> dgetn d ''evicted'' = PBool True | _ \<Rightarrow> False)) rows)))"

definition cooldown_mutate ::
  "string \<Rightarrow> string \<Rightarrow> nat \<Rightarrow> string list \<Rightarrow> dict list \<Rightarrow> string \<Rightarrow> dict option mutator" where
  "cooldown_mutate wallet reason max_wallets unavailable candidates t document =
     bindE (entries document) (\<lambda>rows.
     bindE (sort_rows (filter (\<lambda>row. dgetn row ''address'' \<noteq> PStr wallet) rows)) (\<lambda>rows.
     let rows = take max_wallets rows;
         active = map (\<lambda>row. dgetn row ''address'') rows in
     if \<not> list_all hashable active then Inl TypeError
     else bindE (find_replacement active wallet unavailable candidates) (\<lambda>replacement.
       let rows = (case replacement of Some r \<Rightarrow> (if length rows < max_wallets then rows @ [r] else rows) | None \<Rightarrow> rows);
           rows = take max_wallets rows
       in Inr (replacement, dupdate document
            [(''generated_at'', PStr t), (''count'', PInt (int (length rows))),
             (''wallets'', PList (map PDict rows)),
             (''last_cooldown'', PDict [(''address'', PStr wallet), (''reason'', PStr reason)])]))))"

text \<open>The three files, and the steps of a process among those of others: \<open>wallet_others io k\<close> is what other
  processes do before the \<open>k\<close>-th access.\<close>

record wallet_files =
  performance_file :: state_file
  candidate_file :: state_file
  wallets_file :: state_file

record wallet_io =
  wallet_lock :: "nat \<Rightarrow> bool"
  wallet_others :: "nat \<Rightarrow> wallet_files \<Rightarrow> wallet_files"
  wallet_time :: "nat \<Rightarrow> string"
  wallet_environ :: "string \<Rightarrow> string option"

definition max_wallets_of :: "(string \<Rightarrow> string option) \<Rightarrow> nat res" where
  "max_wallets_of environ = bindE (py_int (PStr (case environ ''WALLET_MAX_WALLETS'' of None \<Rightarrow> ''20'' | Some s \<Rightarrow> s)))
     (\<lambda>n. Inr (nat (max 1 n)))"

definition cooldown_and_replace ::
  "wallet_io \<Rightarrow> nat \<Rightarrow> string \<Rightarrow> string \<Rightarrow> wallet_files \<Rightarrow> dict option res \<times> wallet_files" where
  "cooldown_and_replace io k wallet reason fs =
     (case max_wallets_of (wallet_environ io) of
        Inl e \<Rightarrow> (Inl e, fs)
      | Inr max_wallets \<Rightarrow>
          (let fs = wallet_others io k fs in
           case bindE (read_json ''wallet_performance.json'' (performance_file fs) performance_fallback)
                  unavailable_wallets of
             Inl e \<Rightarrow> (Inl e, fs)
           | Inr unavailable \<Rightarrow>
               (let fs = wallet_others io (k + 1) fs in
                case bindE (read_json ''wallet_candidates.json'' (candidate_file fs) []) entries of
                  Inl e \<Rightarrow> (Inl e, fs)
                | Inr candidates \<Rightarrow>
                    (let fs = wallet_others io (k + 2) fs in
                     case update_json ''wallets.json'' (wallet_lock io (k + 2)) (wallets_file fs)
                            [(''wallets'', PList [])]
                            (cooldown_mutate wallet reason max_wallets unavailable candidates (wallet_time io (k + 2)))
                            None of
                       (Inl e, f) \<Rightarrow> (Inl e, fs\<lparr>wallets_file := f\<rparr>)
                     | (Inr (r, _), f) \<Rightarrow> (Inr r, fs\<lparr>wallets_file := f\<rparr>)))))"

definition reject_unsafe_buy ::
  "wallet_io \<Rightarrow> string \<Rightarrow> string \<Rightarrow> string list \<Rightarrow> string \<Rightarrow> wallet_files \<Rightarrow> unit res \<times> wallet_files" where
  "reject_unsafe_buy io wallet m rejections sig fs =
     (let fs = wallet_others io 0 fs in
      case performance_update (wallet_lock io 0) (performance_file fs)
             (reject_unsafe_buy_mutate wallet m rejections sig (wallet_time io 0) (wallet_time io 1)) of
        (Inl e, f) \<Rightarrow> (Inl e, fs\<lparr>performance_file := f\<rparr>)
      | (Inr cool, f) \<Rightarrow>
          (let fs = fs\<lparr>performance_file := f\<rparr> in
           if cool then (case cooldown_and_replace io 2 wallet ''repeated unsafe-token purchases'' fs of
               (Inl e, fs) \<Rightarrow> (Inl e, fs) | (Inr _, fs) \<Rightarrow> (Inr (), fs))
           else (Inr (), fs)))"

section \<open>Recovery\<close>

text \<open>One wallet of the scan: an error skips it; \<open>current\<close> is the present in microseconds.\<close>

definition recover_wallet ::
  "bool \<Rightarrow> int \<Rightarrow> string \<Rightarrow> py \<Rightarrow> state_file \<Rightarrow> bool res \<times> state_file" where
  "recover_wallet lk current current_iso snapshot f = (case snapshot of
     PDict row \<Rightarrow>
       (let address = strip (py_str (dget_or row ''address'' (PStr []))) in
        if address = [] then (Inr False, f)
        else let raw = dgetn row ''cooldown_start_time'';
                 raw_started = (if raw = PNone then dgetn row ''cooldown_started_at'' else raw)
          in case parse_utc_timestamp raw_started of
               Inl e \<Rightarrow> (Inl e, f)
             | Inr None \<Rightarrow> (Inr False, f)
             | Inr (Some started) \<Rightarrow>
                 (if f64_lt (seconds_of_us (current - started)) COOLDOWN_SECONDS then (Inr False, f)
                  else case set_wallet_status lk f address ''ACTIVE'' False (Some current_iso) of
                      (Inl _, f) \<Rightarrow> (Inr False, f)
                    | (Inr changed, f) \<Rightarrow> (Inr changed, f)))
   | _ \<Rightarrow> (Inl AttributeError, f))"

fun recover_wallets ::
  "wallet_io \<Rightarrow> nat \<Rightarrow> int \<Rightarrow> py list \<Rightarrow> nat \<Rightarrow> wallet_files \<Rightarrow> nat res \<times> wallet_files" where
  "recover_wallets io k current [] restored fs = (Inr restored, fs)"
| "recover_wallets io k current (row # rows) restored fs =
     (let fs = wallet_others io k fs in
      case recover_wallet (wallet_lock io k) current (wallet_time io 0) row (performance_file fs) of
        (Inl e, f) \<Rightarrow> (Inl e, fs\<lparr>performance_file := f\<rparr>)
      | (Inr changed, f) \<Rightarrow>
          recover_wallets io (k + 1) current rows (restored + (if changed then 1 else 0)) (fs\<lparr>performance_file := f\<rparr>))"

definition self_recovery_cooldown_wallets :: "wallet_io \<Rightarrow> int \<Rightarrow> wallet_files \<Rightarrow> nat res \<times> wallet_files" where
  "self_recovery_cooldown_wallets io current fs =
     (let fs = wallet_others io 0 fs in
      case get_wallets_by_status (wallet_lock io 0) (performance_file fs) ''COOL_DOWN'' of
        Inl _ \<Rightarrow> (Inr 0, fs)
      | Inr rows \<Rightarrow> recover_wallets io 1 current rows 0 fs)"

section \<open>Evaluation\<close>

text \<open>\<open>due_observations\<close>: one sample, one wallet, and the whole file.\<close>

definition sample_is_due :: "f64 \<Rightarrow> dict \<Rightarrow> bool res" where
  "sample_is_due now sample =
     bindE (py_float (py_or (dget_or sample ''next_retry_at'' (dget_or sample ''evaluate_at'' (PInt 0))) (PInt 0)))
       (\<lambda>retry_at.
     if dget_or sample ''status'' (PStr ''PENDING'') \<noteq> PStr ''PENDING'' then Inr False
     else bindE (float_field sample ''evaluate_at'' (PInt 0)) (\<lambda>evaluate_at.
       Inr (f64_le evaluate_at now \<and> f64_le retry_at now)))"

definition due_samples :: "f64 \<Rightarrow> py list \<Rightarrow> dict list res" where
  "due_samples now pending =
     bindE (mapE (\<lambda>item. case item of
              PDict sample \<Rightarrow> bindE (sample_is_due now sample) (\<lambda>due. Inr (if due then [sample] else []))
            | _ \<Rightarrow> Inr []) pending) (\<lambda>found. Inr (concat found))"

definition due_observations :: "f64 \<Rightarrow> state_file \<Rightarrow> (string \<times> dict) list res" where
  "due_observations now f =
     bindE (read_json ''wallet_performance.json'' f performance_fallback) (\<lambda>state.
     bindE (as_dict (dget_or state ''wallets'' (PDict []))) (\<lambda>wallets.
     bindE (mapE (\<lambda>(wallet, v). case v of
              PDict row \<Rightarrow> bindE (py_iter (dget_or row ''pending'' (PList []))) (\<lambda>pending.
                bindE (due_samples now pending) (\<lambda>due. Inr (map (Pair wallet) due)))
            | _ \<Rightarrow> Inr []) wallets) (\<lambda>found. Inr (concat found))))"

text \<open>The first pending sample with a key, with those before and after it; the next two operations
  replace it or take it out.\<close>

fun find_pending :: "string \<Rightarrow> py list \<Rightarrow> (py list \<times> dict \<times> py list) option res" where
  "find_pending key [] = Inr None"
| "find_pending key (PDict item # items) =
     (if observation_key item = key then Inr (Some ([], item, items))
      else bindE (find_pending key items) (\<lambda>found. Inr (case found of
          None \<Rightarrow> None | Some (before, target, after) \<Rightarrow> Some (PDict item # before, target, after))))"
| "find_pending key (_ # items) = Inl AttributeError"

definition pending_target :: "string \<Rightarrow> dict \<Rightarrow> (py list \<times> dict \<times> py list) option res" where
  "pending_target key row = bindE (py_iter (dget_or row ''pending'' (PList []))) (find_pending key)"

definition return_percent :: "f64 \<Rightarrow> dict \<Rightarrow> f64 res" where
  "return_percent current_price target =
     bindE (float_field target ''entry_price'' (PInt 0)) (\<lambda>entry.
       if entry = Fin 0 then Inr (Fin (- 100))
       else bindE (f64_truediv current_price entry) (\<lambda>q. Inr (f64_mul (f64_sub q (Fin 1)) (Fin 100))))"

definition settled_sample :: "string \<Rightarrow> py \<Rightarrow> f64 \<Rightarrow> f64 \<Rightarrow> f64 \<Rightarrow> dict" where
  "settled_sample key m change now price =
     [(''observation_id'', PStr key), (''mint'', m), (''return_percent'', PFloat (f64_round change 2)),
      (''evaluated_at'', PFloat now), (''evaluation_price'', PFloat price),
      (''price_source'', PStr ''jupiter_executable_sell_quote'')]"

text \<open>The row after a result: the sample moves from the pending ones to the evaluated ones.\<close>

definition settle_row :: "string \<Rightarrow> py list \<times> dict \<times> py list \<Rightarrow> f64 \<Rightarrow> f64 \<Rightarrow> f64 \<Rightarrow> dict \<Rightarrow> dict res" where
  "settle_row key found change now price row =
     (case found of (before, target, after) \<Rightarrow>
      bindE (as_list (dget_or row ''samples'' (PList []))) (\<lambda>samples.
      bindE (dindex target ''mint'') (\<lambda>m.
      let samples = samples @ [PDict (settled_sample key m change now price)];
          row = dset ''samples'' (PList samples) row;
          row = dset ''pending'' (PList (before @ after)) row;
          result_key = (if f64_lt (Fin 0) change then ''wins'' else ''losses'') in
      bindE (py_int (dget_or row result_key (PInt 0))) (\<lambda>n.
        sync_pipeline_counts (dset ''samples'' (PList (take_last 100 samples)) (dset result_key (PInt (n + 1)) row))))))"

definition sample_returns :: "py list \<Rightarrow> f64 list res" where
  "sample_returns samples = bindE (mapE (\<lambda>item. case item of
     PDict d \<Rightarrow> bindE (capped_return_percent (dget_or d ''return_percent'' (PInt 0))) (\<lambda>x. Inr [x])
   | _ \<Rightarrow> Inr []) samples) (\<lambda>xs. Inr (concat xs))"

text \<open>The number of results, the share of wins and the mean of the capped returns of a row.\<close>

definition row_performance :: "(f64 list \<Rightarrow> f64) \<Rightarrow> dict \<Rightarrow> (int \<times> f64 \<times> f64) res" where
  "row_performance fsum row =
     bindE (py_int (dget_or row ''wins'' (PInt 0))) (\<lambda>wins.
     bindE (py_int (dget_or row ''losses'' (PInt 0))) (\<lambda>losses.
     let total_results = wins + losses in
     bindE (if total_results = 0 then Inr (Fin 0)
            else bindE (int_truediv wins total_results) (\<lambda>x. Inr (f64_mul x (Fin 100)))) (\<lambda>win_rate.
     bindE (as_list (dgetn row ''samples'')) (\<lambda>samples.
     bindE (sample_returns samples) (\<lambda>bounded.
     bindE (if bounded = [] then Inr (Fin 0)
            else bindE (f64_of_int (int (length bounded))) (\<lambda>n. f64_truediv (fsum bounded) n)) (\<lambda>average.
       Inr (total_results, win_rate, average)))))))"

definition poor_performance :: "f64 \<Rightarrow> int \<times> f64 \<times> f64 \<Rightarrow> bool" where
  "poor_performance change p = (case p of (total_results, win_rate, average) \<Rightarrow>
     f64_le change (Fin (- 50)) \<or>
     (3 \<le> total_results \<and> (f64_lt win_rate (Fin 35) \<or> f64_lt average (Fin (- 20)))))"

definition performance_reason :: "f64 \<Rightarrow> int \<times> f64 \<times> f64 \<Rightarrow> string" where
  "performance_reason change p = (case p of (total_results, win_rate, average) \<Rightarrow>
     ''performance win_rate='' @ fixed_f64 1 win_rate @ ''% avg='' @ fixed_f64 1 average @
     ''% last='' @ fixed_f64 1 change @ ''%'')"

definition complete_observation_mutate ::
  "(f64 list \<Rightarrow> f64) \<Rightarrow> string \<Rightarrow> string \<Rightarrow> f64 \<Rightarrow> f64 \<Rightarrow> string \<Rightarrow> string \<Rightarrow> string option mutator" where
  "complete_observation_mutate fsum wallet key price now t1 t2 state =
     bindE (wallet_row state wallet) (\<lambda>(wallets, row).
     bindE (pending_target key row) (\<lambda>found. case found of
       None \<Rightarrow> Inr (None, put_row state wallets wallet row)
     | Some (before, target, after) \<Rightarrow>
         bindE (return_percent price target) (\<lambda>change.
         bindE (settle_row key (before, target, after) change now price row) (\<lambda>row.
         bindE (row_performance fsum row) (\<lambda>p.
         let cool = poor_performance change p \<and> dgetn row ''status'' \<noteq> PStr ''COOL_DOWN'';
             reason = performance_reason change p;
             row = (if cool then start_cooldown t1 reason row else row)
         in Inr (if cool then Some reason else None,
                 touch t2 (dpop ''latest_prices'' (put_row state wallets wallet row))))))))"

definition complete_observation ::
  "(f64 list \<Rightarrow> f64) \<Rightarrow> bool \<Rightarrow> state_file \<Rightarrow> string \<Rightarrow> dict \<Rightarrow> f64 \<Rightarrow> f64 \<Rightarrow> string \<Rightarrow> string
     \<Rightarrow> string option res \<times> state_file" where
  "complete_observation fsum lk f wallet sample price now t1 t2 =
     performance_update lk f (complete_observation_mutate fsum wallet (observation_key sample) price now t1 t2)"

text \<open>\<open>60 * 2 ** min(attempts - 1, 6)\<close> seconds, at most an hour; a negative power is a float.\<close>

definition retry_delay :: "int \<Rightarrow> f64 res" where
  "retry_delay attempts =
     (let e = min (attempts - 1) 6 in
      if 0 \<le> e then Inr (Fin (of_int (min 3600 (60 * 2 ^ nat e))))
      else bindE (f64_of_int e) (\<lambda>_. Inr (f64_mul (Fin 60) (f64_of_rat (2 powi e)))))"

definition fail_observation_mutate ::
  "string \<Rightarrow> string \<Rightarrow> error_text \<Rightarrow> f64 \<Rightarrow> string \<Rightarrow> unit mutator" where
  "fail_observation_mutate wallet key err now t2 state =
     bindE (wallet_row state wallet) (\<lambda>(wallets, row).
     bindE (pending_target key row) (\<lambda>found. case found of
       None \<Rightarrow> Inr ((), put_row state wallets wallet row)
     | Some (before, target, after) \<Rightarrow>
         bindE (py_int (dget_or target ''evaluation_attempts'' (PInt 0))) (\<lambda>previous.
         let attempts = previous + 1 in
         bindE (retry_delay attempts) (\<lambda>delay.
         let target = dupdate target
               [(''observation_id'', PStr key), (''status'', PStr ''PENDING''), (''evaluation_attempts'', PInt attempts),
                (''next_retry_at'', PFloat (f64_add now delay)),
                (''last_error'', PStr (take 500 (redact_sensitive_text
                   (error_class err @ '': '' @ error_message err))))];
             row = dset ''pending'' (PList (before @ PDict target # after)) row in
         bindE (sync_pipeline_counts row) (\<lambda>row.
           Inr ((), touch t2 (put_row state wallets wallet row)))))))"

definition fail_observation ::
  "bool \<Rightarrow> state_file \<Rightarrow> string \<Rightarrow> dict \<Rightarrow> error_text \<Rightarrow> f64 \<Rightarrow> string \<Rightarrow> unit res \<times> state_file" where
  "fail_observation lk f wallet sample err now t2 =
     performance_update lk f (fail_observation_mutate wallet (observation_key sample) err now t2)"

definition skip_observation_mutate :: "string \<Rightarrow> string \<Rightarrow> string \<Rightarrow> string \<Rightarrow> string \<Rightarrow> bool mutator" where
  "skip_observation_mutate wallet key reason t1 t2 state =
     bindE (wallet_row state wallet) (\<lambda>(wallets, row).
     bindE (pending_target key row) (\<lambda>found. case found of
       None \<Rightarrow> Inr (False, put_row state wallets wallet row)
     | Some (before, target, after) \<Rightarrow>
         let row = dset ''pending'' (PList (before @ after)) row in
         bindE (int_field row ''evaluation_skipped_count'' 0) (\<lambda>skipped.
         let row = dset ''evaluation_skipped_count'' (PInt (skipped + 1)) row;
             row = dset ''last_evaluation_skip'' (PDict [(''observation_id'', PStr key),
               (''mint'', PStr (py_str (dget_or target ''mint'' (PStr [])))), (''reason'', PStr reason),
               (''at'', PStr t1)]) row in
         bindE (sync_pipeline_counts row) (\<lambda>row.
           Inr (True, touch t2 (put_row state wallets wallet row))))))"

definition skip_observation ::
  "bool \<Rightarrow> state_file \<Rightarrow> string \<Rightarrow> dict \<Rightarrow> string \<Rightarrow> string \<Rightarrow> string \<Rightarrow> bool res \<times> state_file" where
  "skip_observation lk f wallet sample reason t1 t2 =
     performance_update lk f (skip_observation_mutate wallet (observation_key sample) reason t1 t2)"

section \<open>Migration\<close>

definition migrate_pending_sample :: "py \<Rightarrow> py res" where
  "migrate_pending_sample item = (case item of
     PDict sample \<Rightarrow>
       (let m = py_str (dget_or sample ''mint'' (PStr []));
            sig = py_str (dget_or sample ''signature'' (PStr ''unknown'')) in
        bindE (float_field sample ''evaluate_at'' (PInt 0)) (\<lambda>evaluate_at.
        let sample = dsetdefault ''observation_id'' (PStr (sig @ '':'' @ m)) sample;
            sample = (if dhas sample ''acquired_raw'' then sample
                      else dset ''legacy_probe'' (PBool True) (dset ''acquired_raw'' (PInt 1000000) sample))
        in Inr (PDict (fold (\<lambda>(k, v). dsetdefault k v)
             [(''status'', PStr ''PENDING''), (''evaluation_attempts'', PInt 0), (''next_retry_at'', PFloat evaluate_at),
              (''evaluated_at'', PNone), (''evaluation_price'', PNone), (''price_source'', PNone),
              (''last_error'', PNone)] sample))))
   | _ \<Rightarrow> Inr item)"

fun migrate_pending :: "py \<Rightarrow> py res" where
  "migrate_pending (PList items) = bindE (mapE migrate_pending_sample items) (\<lambda>items. Inr (PList items))"
| "migrate_pending (PDict d) = Inr (PDict d)"
| "migrate_pending (PStr t) = Inr (PStr t)"
| "migrate_pending _ = Inl TypeError"

definition legacy_eviction :: "dict \<Rightarrow> bool" where
  "legacy_eviction row \<longleftrightarrow> dgetn row ''evicted'' = PBool True \<or>
     upper (py_str (dget_or row ''status'' (PStr []))) \<in> {''EVICTED'', ''EXILED'', ''BLACKLISTED'', ''BLOCKED''}"

definition amnesty :: "string \<Rightarrow> dict \<Rightarrow> dict" where
  "amnesty migrated_at row =
     (let legacy_reason = dgetn row ''eviction_reason'';
          row = (if truthy legacy_reason then dset ''legacy_eviction_reason'' legacy_reason row else row);
          row = dset ''evicted'' (PBool False) row;
          row = dpop ''eviction_reason'' row
      in dupdate row [(''status'', PStr ''ACTIVE''), (''safety_block_count'', PInt 0), (''scam_rejections'', PInt 0),
           (''safety_block_signatures'', PList []), (''amnestied_at'', PStr migrated_at)])"

text \<open>The signatures a row has seen: of the pending samples, and the heads of the ids of the evaluated ones.\<close>

definition pending_signature :: "py \<Rightarrow> string option" where
  "pending_signature item = (case item of
     PDict d \<Rightarrow> (if truthy (dgetn d ''signature'') then Some (py_str (dgetn d ''signature'')) else None)
   | _ \<Rightarrow> None)"

definition sample_signature :: "py \<Rightarrow> string option" where
  "sample_signature item = (case item of
     PDict d \<Rightarrow> (let key = py_str (dget_or d ''observation_id'' (PStr []))
       in if CHR '':'' \<in> set key then Some (takeWhile (\<lambda>c. c \<noteq> CHR '':'') key) else None)
   | _ \<Rightarrow> None)"

definition keep_first :: "string list \<Rightarrow> string list" where
  "keep_first xs = rev (remdups (rev xs))"

definition migrate_row_counts :: "dict \<Rightarrow> dict res" where
  "migrate_row_counts row =
     bindE (py_iter (dget_or row ''pending'' (PList []))) (\<lambda>pending.
     bindE (py_iter (dget_or row ''samples'' (PList []))) (\<lambda>samples.
     bindE (py_iter (dget_or row ''processed_signatures'' (PList []))) (\<lambda>processed.
     let observed = List.map_filter pending_signature pending @ List.map_filter sample_signature samples;
         existing = map py_str (filter truthy processed);
         signatures = take_last 1000 (keep_first (existing @ sort (remdups observed)));
         row = dset ''processed_signatures'' (PList (map PStr signatures)) row in
     bindE (py_int (dget_or row ''processed_count'' (PInt 0))) (\<lambda>c.
     bindE (py_int (dget_or row ''evaluation_completed_count'' (PInt 0))) (\<lambda>finished.
     bindE (py_int (dget_or row ''evaluation_pending_count'' (PInt 0))) (\<lambda>waiting.
       sync_pipeline_counts
         (dset ''processed_count'' (PInt (max (max c (int (length signatures))) (finished + waiting))) row)))))))"

text \<open>A row, and whether it was amnestied; a row that is no dictionary stays.\<close>

definition migrate_wallet_row :: "string \<Rightarrow> py \<Rightarrow> (bool \<times> py) res" where
  "migrate_wallet_row migrated_at v = (case v of
     PDict row \<Rightarrow>
       bindE (if dhas row ''pending''
              then bindE (migrate_pending (dgetn row ''pending'')) (\<lambda>p. Inr (dset ''pending'' p row))
              else Inr row) (\<lambda>row.
       let evicted = legacy_eviction row;
           row = (if evicted then amnesty migrated_at row else dsetdefault ''status'' (PStr ''ACTIVE'') row)
       in bindE (migrate_row_counts row) (\<lambda>row. Inr (evicted, PDict row)))
   | _ \<Rightarrow> Inr (False, v))"

definition migrate_performance_document :: "string \<Rightarrow> bool mutator" where
  "migrate_performance_document migrated_at state =
     bindE (int_field state ''schema_version'' 1) (\<lambda>version.
     if 4 \<le> version then Inr (False, state)
     else bindE (as_dict (dget_or state ''wallets'' (PDict []))) (\<lambda>wallets.
     bindE (mapE (\<lambda>(wallet, v). bindE (migrate_wallet_row migrated_at v) (\<lambda>(b, v). Inr (b, (wallet, v)))) wallets)
       (\<lambda>migrated.
     let amnestied = int (length (filter fst migrated));
         state = dset ''wallets'' (PDict (map snd migrated)) state;
         state = dpop ''latest_prices'' state
     in Inr (True, dupdate state
          [(''schema_version'', PInt 4), (''legacy_evictions_amnestied_count'', PInt amnestied),
           (''legacy_evictions_amnestied_at'', PStr migrated_at), (''updated_at'', PStr migrated_at)]))))"

definition ensure_performance_migrated :: "string \<Rightarrow> bool \<Rightarrow> state_file \<Rightarrow> dict res \<times> state_file" where
  "ensure_performance_migrated migrated_at lk f =
     migrate_json ''wallet_performance.json'' lk f wallets_fallback (migrate_performance_document migrated_at)"

section \<open>The loop\<close>

text \<open>The size of a probe sale for a sample without an amount, from the reply about the token's supply.\<close>

definition legacy_probe_amount :: "py res \<Rightarrow> int res" where
  "legacy_probe_amount reply =
     bindE reply (\<lambda>result.
     bindE (as_dict (py_or result (PDict []))) (\<lambda>d.
     bindE (as_dict (py_or (dgetn d ''value'') (PDict []))) (\<lambda>v.
     bindE (int_field v ''decimals'' 0) (\<lambda>decimals.
       Inr (max 1 (1000 * 10 ^ nat (max 0 decimals)))))))"

text \<open>
  One round: the services' replies for the \<open>i\<close>-th due sample (a quote for an amount), the clock, and the
  texts of exceptions.  Access \<open>0\<close> to the files reads the due samples; a sample has two accesses, and
  a cool-down three.
\<close>

record round_io = wallet_io +
  round_clock :: "nat \<Rightarrow> f64"
  round_supply :: "nat \<Rightarrow> py res"
  round_quote :: "nat \<Rightarrow> int \<Rightarrow> dict res"
  round_text :: "exc \<Rightarrow> error_text"

definition quoted_price :: "round_io \<Rightarrow> nat \<Rightarrow> dict \<Rightarrow> f64 res" where
  "quoted_price io i sample =
     bindE (int_field sample ''acquired_raw'' 0) (\<lambda>acquired.
     bindE (if truthy (dgetn sample ''legacy_probe'')
            then bindE (dindex sample ''mint'') (\<lambda>_. legacy_probe_amount (round_supply io i))
            else Inr acquired) (\<lambda>amount.
     bindE (dindex sample ''mint'') (\<lambda>_.
     bindE (round_quote io i amount) (\<lambda>quote.
     bindE (bindE (dindex quote ''outAmount'') py_int) (\<lambda>out. int_truediv out amount)))))"

text \<open>The price and the result it is recorded with; an exception in either is handled.\<close>

definition price_sample ::
  "(f64 list \<Rightarrow> f64) \<Rightarrow> round_io \<Rightarrow> nat \<Rightarrow> string \<Rightarrow> dict \<Rightarrow> wallet_files \<Rightarrow> string option res \<times> wallet_files" where
  "price_sample fsum io i wallet sample fs =
     (case quoted_price io i sample of
        Inl e \<Rightarrow> (Inl e, fs)
      | Inr price \<Rightarrow>
          (let fs = wallet_others io (2 * i + 1) fs in
           case complete_observation fsum (wallet_lock io (2 * i + 1)) (performance_file fs) wallet sample price
                  (round_clock io (2 * i + 1)) (wallet_time io (2 * i + 1)) (wallet_time io (2 * i + 2)) of
             (r, f) \<Rightarrow> (r, fs\<lparr>performance_file := f\<rparr>)))"

definition evaluate_sample ::
  "(f64 list \<Rightarrow> f64) \<Rightarrow> round_io \<Rightarrow> nat \<Rightarrow> string \<Rightarrow> dict \<Rightarrow> wallet_files \<Rightarrow> string option res \<times> wallet_files" where
  "evaluate_sample fsum io i wallet sample fs =
     (case price_sample fsum io i wallet sample fs of
        (Inr reason, fs) \<Rightarrow> (Inr reason, fs)
      | (Inl e, fs) \<Rightarrow>
          (let fs = wallet_others io (2 * i + 2) fs; lk = wallet_lock io (2 * i + 2); t = wallet_time io (2 * i + 2) in
           case e of
             JupiterNoRouteError _ \<Rightarrow>
               (case skip_observation lk (performance_file fs) wallet sample ''NO_ROUTE_PERFORMANCE'' t t of
                  (Inl e, f) \<Rightarrow> (Inl e, fs\<lparr>performance_file := f\<rparr>)
                | (Inr _, f) \<Rightarrow> (Inr None, fs\<lparr>performance_file := f\<rparr>))
           | _ \<Rightarrow>
               (case fail_observation lk (performance_file fs) wallet sample (round_text io e)
                       (round_clock io (2 * i + 2)) t of
                  (Inl e, f) \<Rightarrow> (Inl e, fs\<lparr>performance_file := f\<rparr>)
                | (Inr _, f) \<Rightarrow> (Inr None, fs\<lparr>performance_file := f\<rparr>))))"

fun evaluate_samples ::
  "(f64 list \<Rightarrow> f64) \<Rightarrow> round_io \<Rightarrow> nat \<Rightarrow> (string \<times> dict) list \<Rightarrow> wallet_files
     \<Rightarrow> (string \<times> string) list res \<times> wallet_files" where
  "evaluate_samples fsum io i [] fs = (Inr [], fs)"
| "evaluate_samples fsum io i ((wallet, sample) # due) fs =
     (case evaluate_sample fsum io i wallet sample fs of
        (Inl e, fs) \<Rightarrow> (Inl e, fs)
      | (Inr reason, fs) \<Rightarrow>
          (case evaluate_samples fsum io (i + 1) due fs of
             (Inl e, fs) \<Rightarrow> (Inl e, fs)
           | (Inr cooldowns, fs) \<Rightarrow>
               (Inr (case reason of Some r \<Rightarrow> (if r = [] then cooldowns else (wallet, r) # cooldowns) | None \<Rightarrow> cooldowns), fs)))"

fun cool_down_wallets ::
  "wallet_io \<Rightarrow> nat \<Rightarrow> (string \<times> string) list \<Rightarrow> wallet_files \<Rightarrow> unit res \<times> wallet_files" where
  "cool_down_wallets io k [] fs = (Inr (), fs)"
| "cool_down_wallets io k ((wallet, reason) # rest) fs =
     (case cooldown_and_replace io k wallet reason fs of
        (Inl e, fs) \<Rightarrow> (Inl e, fs)
      | (Inr _, fs) \<Rightarrow> cool_down_wallets io (k + 3) rest fs)"

definition performance_round ::
  "(f64 list \<Rightarrow> f64) \<Rightarrow> round_io \<Rightarrow> wallet_files \<Rightarrow> unit res \<times> wallet_files" where
  "performance_round fsum io fs =
     (let fs = wallet_others io 0 fs in
      case due_observations (round_clock io 0) (performance_file fs) of
        Inl e \<Rightarrow> (Inl e, fs)
      | Inr due \<Rightarrow>
          (case evaluate_samples fsum io 0 due fs of
             (Inl e, fs) \<Rightarrow> (Inl e, fs)
           | (Inr cooldowns, fs) \<Rightarrow> cool_down_wallets (wallet_io.truncate io) (2 * length due + 1) cooldowns fs))"

text \<open>The loop over the rounds given; it ends with the first exception, or at once without an API key.\<close>

fun performance_rounds ::
  "(f64 list \<Rightarrow> f64) \<Rightarrow> round_io list \<Rightarrow> wallet_files \<Rightarrow> unit res \<times> wallet_files" where
  "performance_rounds fsum [] fs = (Inr (), fs)"
| "performance_rounds fsum (io # ios) fs = (case performance_round fsum io fs of
     (Inl e, fs) \<Rightarrow> (Inl e, fs)
   | (Inr _, fs) \<Rightarrow> performance_rounds fsum ios fs)"

definition performance_loop ::
  "(f64 list \<Rightarrow> f64) \<Rightarrow> (string \<Rightarrow> string option) \<Rightarrow> string \<Rightarrow> bool \<Rightarrow> round_io list \<Rightarrow> wallet_files
     \<Rightarrow> unit res \<times> wallet_files" where
  "performance_loop fsum environ t lk ios fs =
     (case ensure_performance_migrated t lk (performance_file fs) of
        (Inl e, f) \<Rightarrow> (Inl e, fs\<lparr>performance_file := f\<rparr>)
      | (Inr _, f) \<Rightarrow>
          (let fs = fs\<lparr>performance_file := f\<rparr> in
           if strip (case environ ''JUPITER_API_KEY'' of None \<Rightarrow> [] | Some s \<Rightarrow> s) = [] then (Inr (), fs)
           else performance_rounds fsum ios fs))"

end
