(* ===== verification/WalletScores.thy ===== *)
theory WalletScores
  imports WalletPerformance
begin

text \<open>
  An abstract wallet and the refinement of the performance ledger to it: a row of the file shows a
  wallet, every operation on the file is the operation on the wallets, and none of them raises once it
  has the lock.  From this follow the counts, and that an observation is settled once.
\<close>

section \<open>Abstract wallets\<close>

record wallet =
  w_wins :: int
  w_losses :: int
  w_samples :: "dict list"
  w_pending :: "dict list"
  w_processed :: "string list"
  w_processed_count :: int
  w_bought :: "string list"
  w_buys :: int
  w_blocked :: "string list"
  w_blocks :: int
  w_cooling :: bool

definition new_wallet :: wallet where
  "new_wallet = \<lparr>w_wins = 0, w_losses = 0, w_samples = [], w_pending = [], w_processed = [], w_processed_count = 0,
     w_bought = [], w_buys = 0, w_blocked = [], w_blocks = 0, w_cooling = False\<rparr>"

text \<open>A sample that waits, and one that was evaluated.\<close>

definition waiting_ok :: "dict \<Rightarrow> bool" where
  "waiting_ok item \<longleftrightarrow> (\<exists>key m e n t u. key \<noteq> [] \<and> 0 \<le> n \<and>
     dget item ''observation_id'' = Some (PStr key) \<and> dget item ''mint'' = Some (PStr m) \<and>
     dget item ''entry_price'' = Some (PFloat e) \<and> dget item ''evaluation_attempts'' = Some (PInt n) \<and>
     dget item ''evaluate_at'' = Some (PFloat t) \<and> dget item ''next_retry_at'' = Some (PFloat u) \<and>
     dget item ''status'' = Some (PStr ''PENDING''))"

definition settled_ok :: "dict \<Rightarrow> bool" where
  "settled_ok item \<longleftrightarrow> (\<exists>key x. key \<noteq> [] \<and> dget item ''observation_id'' = Some (PStr key) \<and>
     dget item ''return_percent'' = Some (PFloat x))"

definition wallet_ok :: "wallet \<Rightarrow> bool" where
  "wallet_ok w \<longleftrightarrow> 0 \<le> w_wins w \<and> 0 \<le> w_losses w \<and> list_all settled_ok (w_samples w) \<and>
     length (w_samples w) \<le> 100 \<and> int (length (w_samples w)) \<le> w_wins w + w_losses w \<and>
     list_all waiting_ok (w_pending w) \<and> distinct (map observation_key (w_pending w)) \<and>
     int (length (w_processed w)) \<le> w_processed_count w"

lemma new_wallet_ok [simp]: "wallet_ok new_wallet"
  by (simp add: wallet_ok_def new_wallet_def)

section \<open>Rows that show a wallet\<close>

text \<open>\<open>row_shows\<close> is what the fields a row is computed from say, \<open>row_synced\<close> adds the counts.\<close>

definition row_shows :: "dict \<Rightarrow> wallet \<Rightarrow> bool" where
  "row_shows row w \<longleftrightarrow>
     dget row ''wins'' = Some (PInt (w_wins w)) \<and> dget row ''losses'' = Some (PInt (w_losses w)) \<and>
     dget row ''samples'' = Some (PList (map PDict (w_samples w))) \<and>
     dget row ''pending'' = Some (PList (map PDict (w_pending w))) \<and>
     dget row ''processed_signatures'' = Some (PList (map PStr (w_processed w))) \<and>
     dget row ''paper_buy_signatures'' = Some (PList (map PStr (w_bought w))) \<and>
     dget row ''safety_block_signatures'' = Some (PList (map PStr (w_blocked w))) \<and>
     dget row ''status'' = Some (PStr (if w_cooling w then ''COOL_DOWN'' else ''ACTIVE'')) \<and>
     dget_or row ''processed_count'' (PInt 0) = PInt (w_processed_count w) \<and>
     dget_or row ''paper_buy_count'' (dget_or row ''virtual_buys'' (PInt 0)) = PInt (w_buys w) \<and>
     dget_or row ''safety_block_count'' (dget_or row ''scam_rejections'' (PInt 0)) = PInt (w_blocks w) \<and>
     (\<exists>c. dget_or row ''evaluation_completed_count'' (PInt 0) = PInt c \<and> c \<le> w_wins w + w_losses w) \<and>
     (dget row ''evaluation_skipped_count'' = None \<or> (\<exists>n. dget row ''evaluation_skipped_count'' = Some (PInt n)))"

definition row_synced :: "dict \<Rightarrow> wallet \<Rightarrow> bool" where
  "row_synced row w \<longleftrightarrow> row_shows row w \<and>
     dget row ''evaluation_completed_count'' = Some (PInt (w_wins w + w_losses w)) \<and>
     dget row ''evaluation_pending_count'' = Some (PInt (int (length (w_pending w)))) \<and>
     dget row ''processed_count'' = Some (PInt (w_processed_count w)) \<and>
     dget row ''paper_buy_count'' = Some (PInt (w_buys w)) \<and>
     dget row ''safety_block_count'' = Some (PInt (w_blocks w))"

lemma dget_or_dsetdefault [simp]:
  "dget_or (dsetdefault k v d) k' x = (if k' = k then dget_or d k v else dget_or d k' x)"
  by (simp add: dget_or_def split: option.split)

lemma row_synced_shows: "row_synced row w \<Longrightarrow> row_shows row w"
  by (simp add: row_synced_def)

lemma new_row_shows: "row_shows (default_row []) new_wallet"
  by (simp add: row_shows_def default_row_def new_wallet_def dget_or_def)

lemma dsetdefault_present [simp]: "dget d k = Some v \<Longrightarrow> dsetdefault k x d = d"
  by (simp add: dsetdefault_def dhas_def)

lemma default_row_shown [simp]: "row_shows row w \<Longrightarrow> default_row row = row"
  by (simp add: row_shows_def default_row_def)

lemma sync_shown:
  assumes "row_shows row w" "wallet_ok w"
  shows "\<exists>row'. sync_pipeline_counts row = Inr row' \<and> row_synced row' w"
proof -
  obtain c where c: "dget_or row ''evaluation_completed_count'' (PInt 0) = PInt c" "c \<le> w_wins w + w_losses w"
    using assms(1) by (auto simp: row_shows_def)
  note r = assms(1) [unfolded row_shows_def]
  have len: "int (length (w_samples w)) \<le> w_wins w + w_losses w" "int (length (w_processed w)) \<le> w_processed_count w"
    using assms(2) by (simp_all add: wallet_ok_def)
  show ?thesis
    using r c len by (auto simp: sync_pipeline_counts_def row_synced_def row_shows_def Let_def max_def)
qed

text \<open>The state of the file: the wallets that all its rows show.\<close>

definition file_shows :: "state_file \<Rightarrow> (string \<Rightarrow> wallet) \<Rightarrow> bool" where
  "file_shows f W \<longleftrightarrow> f = Missing \<and> W = (\<lambda>_. new_wallet) \<or>
     (\<exists>doc rows v. f = Content (PDict doc) \<and> doc_version doc = Inr v \<and> dget doc ''wallets'' = Some (PDict rows) \<and>
        distinct (map fst rows) \<and>
        (\<forall>a. case dget rows a of None \<Rightarrow> W a = new_wallet
             | Some r \<Rightarrow> \<exists>row. r = PDict row \<and> row_synced row (W a)))"

definition state_shows :: "dict \<Rightarrow> (string \<Rightarrow> wallet) \<Rightarrow> bool" where
  "state_shows doc W \<longleftrightarrow> (\<exists>rows v. doc_version doc = Inr v \<and> dget doc ''wallets'' = Some (PDict rows) \<and>
     distinct (map fst rows) \<and>
     (\<forall>a. case dget rows a of None \<Rightarrow> W a = new_wallet
          | Some r \<Rightarrow> \<exists>row. r = PDict row \<and> row_synced row (W a)))"

lemma file_shows_read:
  assumes "file_shows f W"
  obtains doc where "read_json p f performance_fallback = Inr doc" "state_shows doc W"
  using assms that
  by (fastforce simp: file_shows_def state_shows_def performance_fallback_def doc_version_def py_or_def dget_or_def)

lemma wallet_row_shown:
  assumes "state_shows doc W" "\<forall>a. wallet_ok (W a)"
  obtains rows row where "wallet_row doc wallet = Inr (rows, row)" "row_synced row (W wallet)"
    "dget doc ''wallets'' = Some (PDict rows)"
proof -
  obtain rows v where d: "dget doc ''wallets'' = Some (PDict rows)"
    and r: "\<forall>a. case dget rows a of None \<Rightarrow> W a = new_wallet | Some r \<Rightarrow> \<exists>row. r = PDict row \<and> row_synced row (W a)"
    using assms(1) by (auto simp: state_shows_def)
  obtain row0 where row0: "dget_or rows wallet (PDict []) = PDict row0" "row_shows (default_row row0) (W wallet)"
  proof (cases "dget rows wallet")
    case None
    then show ?thesis using r [rule_format, of wallet] that [of "[]"] new_row_shows by simp
  next
    case (Some x)
    then show ?thesis using r [rule_format, of wallet] that row_synced_shows by fastforce
  qed
  obtain row where row: "sync_pipeline_counts (default_row row0) = Inr row" "row_synced row (W wallet)"
    using sync_shown [OF row0(2)] assms(2) by blast
  show ?thesis by (rule that [of rows row]) (use d row0(1) row in \<open>simp_all add: wallet_row_def\<close>)
qed

lemma put_row_shows:
  assumes "state_shows doc W" "dget doc ''wallets'' = Some (PDict rows)" "row_synced row w"
  shows "state_shows (put_row doc rows wallet row) (W(wallet := w))"
proof -
  obtain v where v: "doc_version doc = Inr v" "distinct (map fst rows)"
    and r: "\<forall>a. case dget rows a of None \<Rightarrow> W a = new_wallet | Some r \<Rightarrow> \<exists>row. r = PDict row \<and> row_synced row (W a)"
    using assms(1,2) by (auto simp: state_shows_def)
  have "doc_version (put_row doc rows wallet row) = Inr v" using v by (simp add: put_row_def doc_version_def)
  moreover have "case dget (dset wallet (PDict row) rows) a of None \<Rightarrow> (W(wallet := w)) a = new_wallet
      | Some r \<Rightarrow> \<exists>row. r = PDict row \<and> row_synced row ((W(wallet := w)) a)" for a
    using r [rule_format, of a] assms(3) by (cases "a = wallet") (simp_all only: dget_dset fun_upd_def if_True if_False option.case refl, auto)
  ultimately show ?thesis unfolding state_shows_def
    by (intro exI [of _ "dset wallet (PDict row) rows"] exI [of _ v]) (simp add: put_row_def v(2))
qed

lemma state_shows_other [simp]:
  "k \<noteq> ''wallets'' \<Longrightarrow> k \<noteq> ''version'' \<Longrightarrow> state_shows (dset k x doc) W = state_shows doc W"
  "k \<noteq> ''wallets'' \<Longrightarrow> k \<noteq> ''version'' \<Longrightarrow> state_shows (dpop k doc) W = state_shows doc W"
  by (simp_all add: state_shows_def doc_version_def)

lemma state_shows_touch [simp]: "state_shows (touch t doc) W = state_shows doc W"
  by (simp add: touch_def)

lemma file_shows_content:
  "state_shows doc W \<Longrightarrow> file_shows (Content (PDict (dset ''version'' (PInt v) doc))) W"
  by (auto simp: state_shows_def file_shows_def)

text \<open>A transaction on a file that shows \<open>W\<close>, given what its mutator does.\<close>

lemma performance_update_shown:
  assumes "file_shows f W"
    and "\<And>doc. state_shows doc W \<Longrightarrow> \<exists>doc'. mutator doc = Inr (r, doc') \<and> state_shows doc' W'"
  shows "\<exists>f'. performance_update True f mutator = (Inr r, f') \<and> file_shows f' W'"
proof -
  obtain doc where d: "read_json ''wallet_performance.json'' f performance_fallback = Inr doc" "state_shows doc W"
    by (rule file_shows_read [OF assms(1)])
  obtain doc' where m: "mutator doc = Inr (r, doc')" "state_shows doc' W'" using assms(2) [OF d(2)] by blast
  obtain v where v: "doc_version doc = Inr v" using d(2) by (auto simp: state_shows_def)
  show ?thesis
    using update_json_run [where d = doc and m = mutator, OF d(1) v m(1)] file_shows_content [OF m(2), of "v + 1"] by (simp add: performance_update_def)
qed

lemma performance_update_unlocked:
  "performance_update False f mutator = (Inl (StateLockTimeout ''timed out locking wallet_performance.json''), f)"
  by (simp add: performance_update_def update_json_def locked_def Let_def)

section \<open>Purchases and rejections\<close>

definition a_buy :: "string \<Rightarrow> wallet \<Rightarrow> wallet" where
  "a_buy sig w = (if sig \<in> set (w_bought w) then w
     else w\<lparr>w_bought := take_last 100 (w_bought w @ [sig]), w_buys := w_buys w + 1\<rparr>)"

definition a_processed :: "string \<Rightarrow> wallet \<Rightarrow> wallet" where
  "a_processed sig w = (if sig \<in> set (w_processed w) then w
     else w\<lparr>w_processed := take_last 1000 (w_processed w @ [sig]), w_processed_count := w_processed_count w + 1\<rparr>)"

definition a_blocked :: "string \<Rightarrow> wallet \<Rightarrow> wallet" where
  "a_blocked key w = (if key \<in> set (w_blocked w) then w
     else w\<lparr>w_blocked := take_last 100 (w_blocked w @ [key]), w_blocks := w_blocks w + 1\<rparr>)"

lemma take_last_map: "take_last n (map f xs) = map f (take_last n xs)"
  by (simp add: take_last_def drop_map)

lemma take_last_map_snoc [simp]: "take_last n (map f xs @ [f x]) = map f (take_last n (xs @ [x]))"
  using take_last_map [of n f "xs @ [x]"] by simp

lemma count_signature_shown:
  assumes "dget row signatures = Some (PList (map PStr sigs))" "dget row counter = Some (PInt n)"
  shows "count_signature signatures counter m sig finish row =
    Inr (if sig \<in> set sigs then row
         else finish (dset signatures (PList (map PStr (take_last m (sigs @ [sig])))) (dset counter (PInt (n + 1)) row)))"
  using assms by (auto simp: count_signature_def)

lemma paper_buy_shown:
  assumes "row_synced row w" "wallet_ok w"
  shows "\<exists>row'. count_signature ''paper_buy_signatures'' ''paper_buy_count'' 100 sig
      (last_buy ''last_virtual_buy'' m sig t) row = Inr row' \<and> row_shows row' (a_buy sig w)"
  using assms
  by (auto simp: count_signature_shown [where sigs = "w_bought w" and n = "w_buys w"] row_synced_def row_shows_def
      a_buy_def last_buy_def)

lemma processed_shown:
  assumes "row_synced row w" "wallet_ok w"
  shows "\<exists>row'. count_signature ''processed_signatures'' ''processed_count'' 1000 sig
      (last_buy ''last_processed_buy'' m sig t) row = Inr row' \<and> row_shows row' (a_processed sig w)"
  using assms
  by (auto simp: count_signature_shown [where sigs = "w_processed w" and n = "w_processed_count w"] row_synced_def row_shows_def
      a_processed_def last_buy_def)

lemma blocked_shown:
  assumes "row_synced row w" "wallet_ok w"
  shows "\<exists>row'. count_signature ''safety_block_signatures'' ''safety_block_count'' 100 key id row = Inr row' \<and>
    row_shows row' (a_blocked key w)"
  using assms
  by (auto simp: count_signature_shown [where sigs = "w_blocked w" and n = "w_blocks w"] row_synced_def row_shows_def
      a_blocked_def)

lemma wallet_ok_counts [simp]:
  "wallet_ok w \<Longrightarrow> wallet_ok (a_buy sig w)"
  "wallet_ok w \<Longrightarrow> wallet_ok (a_processed sig w)"
  "wallet_ok w \<Longrightarrow> wallet_ok (a_blocked sig w)"
  by (auto simp: wallet_ok_def a_buy_def a_processed_def a_blocked_def)

lemma record_paper_buy_shown:
  assumes "state_shows doc W" "\<forall>a. wallet_ok (W a)"
  shows "\<exists>doc'. record_paper_buy_success_mutate wallet m sig t1 t2 doc = Inr ((), doc') \<and>
    state_shows doc' (W(wallet := a_buy sig (W wallet)))"
proof -
  obtain rows row where r: "wallet_row doc wallet = Inr (rows, row)" "row_synced row (W wallet)"
      "dget doc ''wallets'' = Some (PDict rows)"
    by (rule wallet_row_shown [OF assms])
  obtain row1 where r1: "count_signature ''paper_buy_signatures'' ''paper_buy_count'' 100 sig
      (last_buy ''last_virtual_buy'' m sig t1) row = Inr row1" "row_shows row1 (a_buy sig (W wallet))"
    using paper_buy_shown [OF r(2)] assms(2) by blast
  obtain row2 where r2: "sync_pipeline_counts row1 = Inr row2" "row_synced row2 (a_buy sig (W wallet))"
    using sync_shown [OF r1(2)] assms(2) by auto
  show ?thesis
    using r(1) r1(1) r2(1) put_row_shows [OF assms(1) r(3) r2(2), of wallet] by (simp add: record_paper_buy_success_mutate_def)
qed


definition a_observed :: "string \<Rightarrow> dict \<Rightarrow> wallet \<Rightarrow> wallet" where
  "a_observed key item w = (if key \<in> observation_key ` set (w_pending w @ w_samples w) then w
     else w\<lparr>w_pending := w_pending w @ [item]\<rparr>)"

lemma observation_key_of: "dget item ''observation_id'' = Some (PStr key) \<Longrightarrow> key \<noteq> [] \<Longrightarrow> observation_key item = key"
  by (simp add: observation_key_def)

lemma map_filter_dicts:
  "List.map_filter (\<lambda>item. case item of PDict d \<Rightarrow> Some (g d) | _ \<Rightarrow> None) (map PDict xs) = map g xs"
  by (induction xs) (simp_all add: List.map_filter_simps)

lemma known_observations_shown:
  "row_shows row w \<Longrightarrow> known_observations row = Inr (map observation_key (w_pending w @ w_samples w))"
  using map_filter_dicts [of observation_key "w_pending w @ w_samples w"]
  by (simp add: known_observations_def row_shows_def)

lemma new_observation_ok:
  "waiting_ok (new_observation (sig @ '':'' @ m) m q e sig now) \<and>
   observation_key (new_observation (sig @ '':'' @ m) m q e sig now) = sig @ '':'' @ m"
  by (simp add: waiting_ok_def new_observation_def observation_key_def)

lemma a_observed_ok:
  assumes "wallet_ok w" "waiting_ok item" "observation_key item = key"
  shows "wallet_ok (a_observed key item w)"
  using assms by (auto simp: wallet_ok_def a_observed_def)

lemma row_shows_pending:
  "row_shows row w \<Longrightarrow> row_shows (dset ''pending'' (PList (map PDict ps)) row) (w\<lparr>w_pending := ps\<rparr>)"
  by (simp add: row_shows_def)

lemma observe_buy_shown:
  assumes "state_shows doc W" "\<forall>a. wallet_ok (W a)"
  shows "\<exists>doc'. observe_buy_mutate wallet m q e sig now t1 t2 doc = Inr ((), doc') \<and>
    state_shows doc' (W(wallet := a_observed (sig @ '':'' @ m) (new_observation (sig @ '':'' @ m) m q e sig now)
      (a_processed sig (W wallet))))"
proof -
  define key item w where defs: "key = sig @ '':'' @ m" "item = new_observation key m q e sig now"
    "w = a_processed sig (W wallet)"
  obtain rows row where r: "wallet_row doc wallet = Inr (rows, row)" "row_synced row (W wallet)"
      "dget doc ''wallets'' = Some (PDict rows)"
    by (rule wallet_row_shown [OF assms])
  obtain row1 where r1: "count_signature ''processed_signatures'' ''processed_count'' 1000 sig
      (last_buy ''last_processed_buy'' m sig t1) row = Inr row1" "row_shows row1 w"
    using processed_shown [OF r(2), of sig m t1] assms(2) unfolding defs by blast
  have known: "known_observations row1 = Inr (map observation_key (w_pending w @ w_samples w))"
    by (rule known_observations_shown [OF r1(2)])
  define row2 where "row2 = (if key \<in> observation_key ` set (w_pending w @ w_samples w) then row1
     else dset ''pending'' (PList (map PDict (w_pending w) @ [PDict item])) row1)"
  have p: "dgetn row1 ''pending'' = PList (map PDict (w_pending w))" using r1(2) by (simp add: row_shows_def)
  have row2: "row_shows row2 (a_observed key item w)"
    using r1(2) row_shows_pending [OF r1(2), of "w_pending w @ [item]"] by (simp add: row2_def a_observed_def)
  have ok: "wallet_ok (a_observed key item w)"
    using new_observation_ok assms(2) by (simp add: a_observed_ok defs)
  obtain row3 where r3: "sync_pipeline_counts row2 = Inr row3" "row_synced row3 (a_observed key item w)"
    using sync_shown [OF row2 ok] by blast
  have pending: "(if key \<in> set (map observation_key (w_pending w @ w_samples w)) then Inr row1
      else bindE (as_list (dgetn row1 ''pending'')) (\<lambda>ps.
        Inr (dset ''pending'' (PList (ps @ [PDict (new_observation key m q e sig now)])) row1))) = Inr row2"
    unfolding row2_def p defs(2) set_map by simp
  have "observe_buy_mutate wallet m q e sig now t1 t2 doc =
      Inr ((), touch t2 (dpop ''latest_prices'' (put_row doc rows wallet row3)))"
    unfolding observe_buy_mutate_def Let_def r(1) bindE_simps prod.case r1(1) known defs(1) [symmetric] pending r3(1) ..
  then show ?thesis using put_row_shows [OF assms(1) r(3) r3(2), of wallet] by (simp add: defs)
qed

definition a_rejected :: "string \<Rightarrow> wallet \<Rightarrow> bool \<times> wallet" where
  "a_rejected key w = (let w = a_blocked key w; cool = 2 \<le> w_blocks w \<and> \<not> w_cooling w
     in (cool, if cool then w\<lparr>w_cooling := True\<rparr> else w))"

definition decision_key :: "string \<Rightarrow> string \<Rightarrow> wallet \<Rightarrow> string" where
  "decision_key sig m w = (if sig \<noteq> ''unknown'' then sig else m @ '':'' @ dec_int (int (length (w_blocked w))))"

lemma cooling_ok [simp]: "wallet_ok (w\<lparr>w_cooling := c\<rparr>) = wallet_ok w"
  by (simp add: wallet_ok_def)

lemma start_cooldown_shown: "row_synced row w \<Longrightarrow> row_synced (start_cooldown t r row) (w\<lparr>w_cooling := True\<rparr>)"
  by (simp add: row_synced_def row_shows_def start_cooldown_def dupdate_def)

lemma reject_unsafe_buy_shown:
  assumes "state_shows doc W" "\<forall>a. wallet_ok (W a)"
  shows "\<exists>doc'. reject_unsafe_buy_mutate wallet m rs sig t1 t2 doc =
      Inr (fst (a_rejected (decision_key sig m (W wallet)) (W wallet)), doc') \<and>
    state_shows doc' (W(wallet := snd (a_rejected (decision_key sig m (W wallet)) (W wallet))))"
proof -
  obtain rows row where r: "wallet_row doc wallet = Inr (rows, row)" "row_synced row (W wallet)"
      "dget doc ''wallets'' = Some (PDict rows)"
    by (rule wallet_row_shown [OF assms])
  define key w where defs: "key = decision_key sig m (W wallet)" "w = a_blocked key (W wallet)"
  have key: "(if sig \<noteq> ''unknown'' then Inr sig
      else bindE (py_len (dget_or row ''safety_block_signatures'' (PList []))) (\<lambda>n. Inr (m @ '':'' @ dec_int n))) = Inr key"
    using r(2) by (simp add: defs decision_key_def row_synced_def row_shows_def)
  obtain row1 where r1: "count_signature ''safety_block_signatures'' ''safety_block_count'' 100 key id row = Inr row1"
      "row_shows row1 w"
    using blocked_shown [OF r(2), of key] assms(2) unfolding defs(2) by blast
  define row1' where "row1' = dupdate row1 [(''last_rejected_mint'', PStr m), (''last_rejection_reasons'', PList (map PStr rs))]"
  have "row_shows row1' w" using r1(2) by (simp add: row1'_def dupdate_def row_shows_def)
  moreover have "wallet_ok w" using assms(2) by (simp add: defs)
  ultimately obtain row2 where r2: "sync_pipeline_counts row1' = Inr row2" "row_synced row2 w"
    using sync_shown by blast
  define cool where "cool \<longleftrightarrow> 2 \<le> w_blocks w \<and> \<not> w_cooling w"
  define row3 where "row3 = (if cool then start_cooldown t1 ''repeated unsafe-token purchases'' row2 else row2)"
  have b: "dgetn row2 ''safety_block_count'' = PInt (w_blocks w)"
      "dgetn row2 ''status'' \<noteq> PStr ''COOL_DOWN'' \<longleftrightarrow> \<not> w_cooling w"
    using r2(2) by (simp_all add: row_synced_def row_shows_def)
  have "reject_unsafe_buy_mutate wallet m rs sig t1 t2 doc = Inr (cool, touch t2 (put_row doc rows wallet row3))"
    using r(1) key r1(1) r2(1) b
    by (simp add: reject_unsafe_buy_mutate_def Let_def row3_def cool_def row1'_def)
  moreover have "row_synced row3 (snd (a_rejected key (W wallet)))"
    using r2(2) start_cooldown_shown [OF r2(2)] by (simp add: row3_def a_rejected_def Let_def cool_def defs(2))
  moreover have "cool = fst (a_rejected key (W wallet))" by (simp add: a_rejected_def cool_def defs(2) Let_def)
  ultimately show ?thesis using put_row_shows [OF assms(1) r(3), of row3 _ wallet] by (simp add: defs(1))
qed


section \<open>Results\<close>

fun split_pending :: "string \<Rightarrow> dict list \<Rightarrow> (dict list \<times> dict \<times> dict list) option" where
  "split_pending key [] = None"
| "split_pending key (item # items) = (if observation_key item = key then Some ([], item, items)
     else map_option (\<lambda>(before, target, after). (item # before, target, after)) (split_pending key items))"

lemma find_pending_shown:
  "find_pending key (map PDict items) =
     Inr (map_option (\<lambda>(before, target, after). (map PDict before, target, map PDict after)) (split_pending key items))"
  by (induction items) (auto split: option.split)

lemma pending_target_shown:
  "row_shows row w \<Longrightarrow> pending_target key row =
     Inr (map_option (\<lambda>(before, target, after). (map PDict before, target, map PDict after)) (split_pending key (w_pending w)))"
  by (simp add: pending_target_def row_shows_def find_pending_shown)

lemma split_pending_Some:
  "split_pending key items = Some (before, target, after) \<Longrightarrow>
     items = before @ target # after \<and> observation_key target = key \<and> key \<notin> observation_key ` set before"
  by (induction items arbitrary: before) (auto split: if_splits)

lemma split_pending_None: "split_pending key items = None \<longleftrightarrow> key \<notin> observation_key ` set items"
  by (induction items) auto

definition a_taken :: "dict list \<Rightarrow> wallet \<Rightarrow> wallet" where
  "a_taken rest w = w\<lparr>w_pending := rest\<rparr>"

lemma a_taken_ok:
  "wallet_ok w \<Longrightarrow> w_pending w = before @ target # after \<Longrightarrow> wallet_ok (a_taken (before @ after) w)"
  by (auto simp: wallet_ok_def a_taken_def)

definition item_return :: "f64 \<Rightarrow> dict \<Rightarrow> f64" where
  "item_return price target = (case dgetn target ''entry_price'' of
     PFloat e \<Rightarrow> (if e = Fin 0 then Fin (- 100) else f64_mul (f64_sub (f64_div price e) (Fin 1)) (Fin 100))
   | _ \<Rightarrow> Fin (- 100))"

lemma return_percent_shown:
  assumes "waiting_ok target"
  shows "return_percent price target = Inr (item_return price target)"
proof -
  obtain e where "dget target ''entry_price'' = Some (PFloat e)" using assms by (auto simp: waiting_ok_def)
  then show ?thesis
    by (cases "e = Fin 0")
      (simp_all add: return_percent_def item_return_def float_field_def py_or_def f64_truediv_def f64_of_int_def)
qed

definition a_settled :: "string \<Rightarrow> dict \<Rightarrow> dict list \<Rightarrow> f64 \<Rightarrow> f64 \<Rightarrow> wallet \<Rightarrow> wallet" where
  "a_settled key target rest price now w =
     (let change = item_return price target;
          w = w\<lparr>w_pending := rest, w_samples := take_last 100 (w_samples w @
                [settled_sample key (dgetn target ''mint'') change now price])\<rparr>
      in if f64_lt (Fin 0) change then w\<lparr>w_wins := w_wins w + 1\<rparr> else w\<lparr>w_losses := w_losses w + 1\<rparr>)"

lemma settled_sample_ok: "key \<noteq> [] \<Longrightarrow> settled_ok (settled_sample key m c t p)"
  by (simp add: settled_ok_def settled_sample_def)

lemma list_all_take_last: "list_all P xs \<Longrightarrow> list_all P (take_last n xs)"
  using take_last_set [of n xs] by (auto simp: list_all_iff)

lemma a_settled_ok:
  assumes "wallet_ok w" "w_pending w = before @ target # after" "observation_key target = key"
  shows "wallet_ok (a_settled key target (before @ after) price now w)"
proof -
  obtain k where k: "k \<noteq> []" "dget target ''observation_id'' = Some (PStr k)"
    using assms(1,2) by (auto simp: wallet_ok_def waiting_ok_def)
  have "key \<noteq> []" using observation_key_of [OF k(2,1)] k(1) assms(3) by simp
  then have "list_all settled_ok (take_last 100 (w_samples w @ [settled_sample key m c t p]))" for m c t p
    using assms(1) by (intro list_all_take_last) (simp add: wallet_ok_def settled_sample_ok)
  then show ?thesis using assms(1,2) by (auto simp: wallet_ok_def a_settled_def Let_def)
qed

lemma settle_row_shown:
  assumes "row_synced row w" "wallet_ok w" "w_pending w = before @ target # after" "observation_key target = key"
  shows "\<exists>row'. settle_row key (map PDict before, target, map PDict after) (item_return price target) now price row = Inr row' \<and>
    row_synced row' (a_settled key target (before @ after) price now w)"
proof -
  define w' where "w' = a_settled key target (before @ after) price now w"
  define change where "change = item_return price target"
  obtain m where m: "dget target ''mint'' = Some (PStr m)"
    using assms(2,3) by (auto simp: wallet_ok_def waiting_ok_def)
  define samples where "samples = w_samples w @ [settled_sample key (PStr m) change now price]"
  define result_key n where "result_key = (if f64_lt (Fin 0) change then ''wins'' else ''losses'')"
    and "n = (if f64_lt (Fin 0) change then w_wins w else w_losses w)"
  define row1 where "row1 = dset ''samples'' (PList (take_last 100 (map PDict samples))) (dset result_key (PInt (n + 1))
     (dset ''pending'' (PList (map PDict (before @ after))) (dset ''samples'' (PList (map PDict samples)) row)))"
  have "row_shows row1 w'"
  proof (cases "f64_lt (Fin 0) change")
    case True
    then show ?thesis using assms(1) m
      by (auto simp: row1_def result_key_def n_def w'_def row_synced_def row_shows_def a_settled_def Let_def
          change_def [symmetric] samples_def)
  next
    case False
    then show ?thesis using assms(1) m
      by (auto simp: row1_def result_key_def n_def w'_def row_synced_def row_shows_def a_settled_def Let_def
          change_def [symmetric] samples_def)
  qed
  moreover have "wallet_ok w'" unfolding w'_def by (rule a_settled_ok [OF assms(2-4)])
  ultimately obtain row' where row': "sync_pipeline_counts row1 = Inr row'" "row_synced row' w'" using sync_shown by blast
  have "settle_row key (map PDict before, target, map PDict after) change now price row = sync_pipeline_counts row1"
    using assms(1) m
    by (simp add: settle_row_def Let_def row1_def samples_def result_key_def n_def row_synced_def row_shows_def)
  then show ?thesis using row' by (simp add: w'_def change_def)
qed


text \<open>The score of a wallet, and what follows from a result.\<close>

definition sample_return :: "dict \<Rightarrow> f64" where
  "sample_return d = (case dgetn d ''return_percent'' of
     PFloat x \<Rightarrow> (if f64_lt MAX_RETURN_PERCENT x then MAX_RETURN_PERCENT else x) | _ \<Rightarrow> Fin 0)"

definition wallet_score :: "(f64 list \<Rightarrow> f64) \<Rightarrow> wallet \<Rightarrow> int \<times> f64 \<times> f64" where
  "wallet_score fsum w = (let n = w_wins w + w_losses w; k = length (w_samples w) in
     (n, f64_mul (f64_of_rat (of_int (w_wins w) / of_int n)) (Fin 100),
      if k = 0 then Fin 0 else f64_div (fsum (map sample_return (w_samples w))) (Fin (of_nat k))))"

lemma sample_returns_shown:
  "list_all settled_ok ds \<Longrightarrow> sample_returns (map PDict ds) = Inr (map sample_return ds)"
proof (induction ds)
  case (Cons d ds)
  obtain x where "dget d ''return_percent'' = Some (PFloat x)" using Cons.prems by (auto simp: settled_ok_def)
  then show ?case using Cons
    by (auto simp: sample_returns_def capped_return_percent_def sample_return_def bindE_eq_Inr)
qed (simp add: sample_returns_def)

lemma row_performance_shown:
  assumes "row_synced row w" "wallet_ok w" "0 < w_wins w + w_losses w"
  shows "row_performance fsum row = Inr (wallet_score fsum w)"
proof -
  define n k where "n = w_wins w + w_losses w" and "k = length (w_samples w)"
  have "(of_int (w_wins w) :: rat) \<le> of_int n" "(0 :: rat) < of_int n"
    using assms(2,3) by (simp_all add: wallet_ok_def n_def)
  then have "\<bar>of_int (w_wins w) / of_int n :: rat\<bar> \<le> 1" using assms(2) by (simp add: wallet_ok_def)
  then have "\<bar>of_int (w_wins w) / of_int n :: rat\<bar> \<le> 2 ^ 1000"
    by (rule order_trans) simp
  from f64_of_rat_small [OF this] have rate: "int_truediv (w_wins w) n = Inr (f64_of_rat (of_int (w_wins w) / of_int n))"
    using assms(3) by (simp add: int_truediv_def n_def)
  have k: "k \<le> 100" using assms(2) by (simp add: wallet_ok_def k_def)
  then have "\<bar>int k\<bar> \<le> 2 ^ 53" by simp
  from fl_of_int [OF this] have "fl (of_nat k) = of_nat k" by simp
  moreover have "(100 :: int) \<le> 2 ^ 1000" by simp
  then have "\<bar>int k\<bar> \<le> 2 ^ 1000" using k by linarith
  ultimately have len: "f64_of_int (int k) = Inr (Fin (of_nat k))" using f64_of_int_small [of "int k"] by simp
  have ret: "sample_returns (map PDict (w_samples w)) = Inr (map sample_return (w_samples w))"
    using assms(2) by (simp add: sample_returns_shown wallet_ok_def)
  show ?thesis
    using assms(1,3) rate len ret
    by (auto simp: row_performance_def row_synced_def row_shows_def wallet_score_def Let_def n_def [symmetric] k_def [symmetric]
        f64_truediv_def) (simp_all add: k_def)
qed

definition a_completed ::
  "(f64 list \<Rightarrow> f64) \<Rightarrow> string \<Rightarrow> f64 \<Rightarrow> f64 \<Rightarrow> wallet \<Rightarrow> string option \<times> wallet" where
  "a_completed fsum key price now w = (case split_pending key (w_pending w) of
     None \<Rightarrow> (None, w)
   | Some (before, target, after) \<Rightarrow>
       (let change = item_return price target;
            w = a_settled key target (before @ after) price now w;
            score = wallet_score fsum w
        in if poor_performance change score \<and> \<not> w_cooling w
           then (Some (performance_reason change score), w\<lparr>w_cooling := True\<rparr>) else (None, w)))"

lemma complete_observation_shown:
  assumes "state_shows doc W" "\<forall>a. wallet_ok (W a)"
  shows "\<exists>doc'. complete_observation_mutate fsum wallet key price now t1 t2 doc =
      Inr (fst (a_completed fsum key price now (W wallet)), doc') \<and>
    state_shows doc' (W(wallet := snd (a_completed fsum key price now (W wallet))))"
proof -
  obtain rows row where r: "wallet_row doc wallet = Inr (rows, row)" "row_synced row (W wallet)"
      "dget doc ''wallets'' = Some (PDict rows)"
    by (rule wallet_row_shown [OF assms])
  note target = pending_target_shown [OF row_synced_shows [OF r(2)], of key]
  show ?thesis
  proof (cases "split_pending key (w_pending (W wallet))")
    case None
    then show ?thesis using r target put_row_shows [OF assms(1) r(3) r(2), of wallet]
      by (simp add: complete_observation_mutate_def a_completed_def)
  next
    case (Some s)
    obtain before target' after where s: "s = (before, target', after)" by (cases s)
    note sp = split_pending_Some [OF Some [unfolded s]]
    have tok: "waiting_ok target'" using assms(2) [rule_format, of wallet] sp by (simp add: wallet_ok_def)
    define change where "change = item_return price target'"
    define w where "w = a_settled key target' (before @ after) price now (W wallet)"
    obtain row1 where r1: "settle_row key (map PDict before, target', map PDict after) change now price row = Inr row1"
        "row_synced row1 w"
      using settle_row_shown [OF r(2), of before target' after key price now] assms(2) sp by (auto simp: change_def w_def)
    have ok: "wallet_ok w" unfolding w_def using assms(2) sp by (intro a_settled_ok) auto
    have pos: "0 < w_wins w + w_losses w"
      using assms(2) [rule_format, of wallet] by (auto simp: w_def a_settled_def Let_def wallet_ok_def)
    define p where "p = wallet_score fsum w"
    have perf: "row_performance fsum row1 = Inr p" unfolding p_def by (rule row_performance_shown [OF r1(2) ok pos])
    define cool where "cool \<longleftrightarrow> poor_performance change p \<and> \<not> w_cooling w"
    define row2 where "row2 = (if cool then start_cooldown t1 (performance_reason change p) row1 else row1)"
    have st: "dgetn row1 ''status'' \<noteq> PStr ''COOL_DOWN'' \<longleftrightarrow> \<not> w_cooling w"
      using r1(2) by (simp add: row_synced_def row_shows_def)
    have found: "pending_target key row = Inr (Some (map PDict before, target', map PDict after))"
      using target by (simp add: Some s)
    have "complete_observation_mutate fsum wallet key price now t1 t2 doc =
        Inr (if cool then Some (performance_reason change p) else None, touch t2 (dpop ''latest_prices'' (put_row doc rows wallet row2)))"
      using r(1) found return_percent_shown [OF tok, of price] r1(1) perf st
      by (simp add: complete_observation_mutate_def Let_def change_def [symmetric] row2_def cool_def)
    moreover have a: "a_completed fsum key price now (W wallet) =
        (if cool then Some (performance_reason change p) else None, if cool then w\<lparr>w_cooling := True\<rparr> else w)"
      by (simp add: a_completed_def Some s Let_def change_def [symmetric] w_def [symmetric] p_def [symmetric] cool_def)
    moreover have "row_synced row2 (if cool then w\<lparr>w_cooling := True\<rparr> else w)"
      using r1(2) start_cooldown_shown [OF r1(2)] by (simp add: row2_def)
    ultimately show ?thesis using put_row_shows [OF assms(1) r(3), of row2 _ wallet] by simp
  qed
qed


definition failed_item :: "string \<Rightarrow> error_text \<Rightarrow> f64 \<Rightarrow> dict \<Rightarrow> dict" where
  "failed_item key err now target =
     (let n = (case dgetn target ''evaluation_attempts'' of PInt n \<Rightarrow> n | _ \<Rightarrow> 0)
      in dupdate target
        [(''observation_id'', PStr key), (''status'', PStr ''PENDING''), (''evaluation_attempts'', PInt (n + 1)),
         (''next_retry_at'', PFloat (f64_add now (Fin (of_int (min 3600 (60 * 2 ^ nat (min n 6))))))),
         (''last_error'', PStr (take 500 (redact_sensitive_text (error_class err @ '': '' @ error_message err))))])"

definition a_failed :: "string \<Rightarrow> error_text \<Rightarrow> f64 \<Rightarrow> wallet \<Rightarrow> wallet" where
  "a_failed key err now w = (case split_pending key (w_pending w) of
     None \<Rightarrow> w
   | Some (before, target, after) \<Rightarrow> w\<lparr>w_pending := before @ failed_item key err now target # after\<rparr>)"

lemma failed_item_ok:
  assumes "waiting_ok target" "observation_key target = key"
  shows "waiting_ok (failed_item key err now target) \<and> observation_key (failed_item key err now target) = key"
proof -
  obtain k m e n t u where o: "k \<noteq> []" "0 \<le> n" "dget target ''observation_id'' = Some (PStr k)"
    "dget target ''mint'' = Some (PStr m)" "dget target ''entry_price'' = Some (PFloat e)"
    "dget target ''evaluation_attempts'' = Some (PInt n)" "dget target ''evaluate_at'' = Some (PFloat t)"
    "dget target ''next_retry_at'' = Some (PFloat u)" "dget target ''status'' = Some (PStr ''PENDING'')"
    using assms(1) by (auto simp: waiting_ok_def)
  have "key = k" using observation_key_of [OF o(3,1)] assms(2) by simp
  then show ?thesis using o by (simp add: waiting_ok_def failed_item_def Let_def dupdate_def observation_key_def)
qed

lemma a_failed_ok:
  assumes "wallet_ok w"
  shows "wallet_ok (a_failed key err now w)"
proof (cases "split_pending key (w_pending w)")
  case (Some s)
  obtain before target after where s: "s = (before, target, after)" by (cases s)
  note sp = split_pending_Some [OF Some [unfolded s]]
  have "waiting_ok target" using assms sp by (simp add: wallet_ok_def)
  moreover have "a_failed key err now w = w\<lparr>w_pending := before @ failed_item key err now target # after\<rparr>"
    by (simp add: a_failed_def Some s)
  ultimately show ?thesis using failed_item_ok [of target key err now] assms sp by (auto simp: wallet_ok_def)
qed (use assms in \<open>simp add: a_failed_def\<close>)

lemma fail_observation_shown:
  assumes "state_shows doc W" "\<forall>a. wallet_ok (W a)"
  shows "\<exists>doc'. fail_observation_mutate wallet key err now t doc = Inr ((), doc') \<and>
    state_shows doc' (W(wallet := a_failed key err now (W wallet)))"
proof -
  obtain rows row where r: "wallet_row doc wallet = Inr (rows, row)" "row_synced row (W wallet)"
      "dget doc ''wallets'' = Some (PDict rows)"
    by (rule wallet_row_shown [OF assms])
  note target = pending_target_shown [OF row_synced_shows [OF r(2)], of key]
  show ?thesis
  proof (cases "split_pending key (w_pending (W wallet))")
    case None
    then show ?thesis using r target put_row_shows [OF assms(1) r(3) r(2), of wallet]
      by (simp add: fail_observation_mutate_def a_failed_def)
  next
    case (Some s)
    obtain before target' after where s: "s = (before, target', after)" by (cases s)
    note sp = split_pending_Some [OF Some [unfolded s]]
    have "waiting_ok target'" using assms(2) [rule_format, of wallet] sp by (simp add: wallet_ok_def)
    then obtain n where n: "dget target' ''evaluation_attempts'' = Some (PInt n)" "0 \<le> n" by (auto simp: waiting_ok_def)
    define row1 where "row1 = dset ''pending'' (PList (map PDict (before @ failed_item key err now target' # after))) row"
    have "row_shows row1 (a_failed key err now (W wallet))"
      unfolding row1_def using row_shows_pending [OF row_synced_shows [OF r(2)], of "before @ failed_item key err now target' # after"]
      by (simp add: a_failed_def Some s)
    then obtain row2 where r2: "sync_pipeline_counts row1 = Inr row2" "row_synced row2 (a_failed key err now (W wallet))"
      using sync_shown a_failed_ok assms(2) by blast
    have found: "pending_target key row = Inr (Some (map PDict before, target', map PDict after))"
      using target by (simp add: Some s)
    have d: "retry_delay (n + 1) = Inr (Fin (of_int (min 3600 (60 * 2 ^ nat (min n 6)))))"
      using n(2) by (simp add: retry_delay_def Let_def)
    have "fail_observation_mutate wallet key err now t doc = Inr ((), touch t (put_row doc rows wallet row2))"
      using r(1) found n(1) d r2(1)
      by (simp add: fail_observation_mutate_def Let_def row1_def failed_item_def)
    then show ?thesis using put_row_shows [OF assms(1) r(3) r2(2), of wallet] by simp
  qed
qed

definition a_skipped :: "string \<Rightarrow> wallet \<Rightarrow> bool \<times> wallet" where
  "a_skipped key w = (case split_pending key (w_pending w) of
     None \<Rightarrow> (False, w) | Some (before, target, after) \<Rightarrow> (True, a_taken (before @ after) w))"

lemma skip_observation_shown:
  assumes "state_shows doc W" "\<forall>a. wallet_ok (W a)"
  shows "\<exists>doc'. skip_observation_mutate wallet key reason t1 t2 doc = Inr (fst (a_skipped key (W wallet)), doc') \<and>
    state_shows doc' (W(wallet := snd (a_skipped key (W wallet))))"
proof -
  obtain rows row where r: "wallet_row doc wallet = Inr (rows, row)" "row_synced row (W wallet)"
      "dget doc ''wallets'' = Some (PDict rows)"
    by (rule wallet_row_shown [OF assms])
  note target = pending_target_shown [OF row_synced_shows [OF r(2)], of key]
  show ?thesis
  proof (cases "split_pending key (w_pending (W wallet))")
    case None
    then show ?thesis using r target put_row_shows [OF assms(1) r(3) r(2), of wallet]
      by (simp add: skip_observation_mutate_def a_skipped_def)
  next
    case (Some s)
    obtain before target' after where s: "s = (before, target', after)" by (cases s)
    note sp = split_pending_Some [OF Some [unfolded s]]
    define w where "w = a_taken (before @ after) (W wallet)"
    have ok: "wallet_ok w" unfolding w_def using sp assms(2) by (intro a_taken_ok [of _ before target']) simp_all
    obtain c where c: "int_field row ''evaluation_skipped_count'' 0 = Inr c"
      using r(2) by (auto simp: row_synced_def row_shows_def)
    define row1 where "row1 = dset ''last_evaluation_skip'' (PDict [(''observation_id'', PStr key),
        (''mint'', PStr (py_str (dget_or target' ''mint'' (PStr [])))), (''reason'', PStr reason), (''at'', PStr t1)])
        (dset ''evaluation_skipped_count'' (PInt (c + 1)) (dset ''pending'' (PList (map PDict (before @ after))) row))"
    have "row_shows row1 w" using r(2) by (simp add: row1_def w_def a_taken_def row_synced_def row_shows_def)
    then obtain row2 where r2: "sync_pipeline_counts row1 = Inr row2" "row_synced row2 w" using sync_shown ok by blast
    have found: "pending_target key row = Inr (Some (map PDict before, target', map PDict after))"
      using target by (simp add: Some s)
    have "int_field (dset ''pending'' p row) ''evaluation_skipped_count'' 0 = Inr c" for p
      using c by (simp add: int_field_def)
    then have "skip_observation_mutate wallet key reason t1 t2 doc = Inr (True, touch t2 (put_row doc rows wallet row2))"
      using r(1) found r2(1) by (simp add: skip_observation_mutate_def Let_def row1_def)
    then show ?thesis using put_row_shows [OF assms(1) r(3) r2(2), of wallet]
      by (simp add: a_skipped_def Some s w_def)
  qed
qed


section \<open>Histories\<close>

datatype wallet_op =
    PaperBuy string string string string string
  | ObservedBuy string string int int string f64 string string
  | UnsafeBuy string string "string list" string string string
  | Completed string dict f64 f64 string string
  | FailedTry string dict error_text f64 string
  | Skipped string dict string string string

definition outcome :: "'a res \<times> state_file \<Rightarrow> unit res \<times> state_file" where
  "outcome p = (case p of (Inl e, f) \<Rightarrow> (Inl e, f) | (Inr _, f) \<Rightarrow> (Inr (), f))"

fun run_wallet_op :: "(f64 list \<Rightarrow> f64) \<Rightarrow> bool \<Rightarrow> wallet_op \<Rightarrow> state_file \<Rightarrow> unit res \<times> state_file" where
  "run_wallet_op fsum lk (PaperBuy a m sig t1 t2) f = record_paper_buy_success lk f a m sig t1 t2"
| "run_wallet_op fsum lk (ObservedBuy a m acquired paid sig now t1 t2) f = observe_buy lk f a m acquired paid sig now t1 t2"
| "run_wallet_op fsum lk (UnsafeBuy a m rs sig t1 t2) f =
     outcome (performance_update lk f (reject_unsafe_buy_mutate a m rs sig t1 t2))"
| "run_wallet_op fsum lk (Completed a sample price now t1 t2) f =
     outcome (complete_observation fsum lk f a sample price now t1 t2)"
| "run_wallet_op fsum lk (FailedTry a sample err now t) f = fail_observation lk f a sample err now t"
| "run_wallet_op fsum lk (Skipped a sample reason t1 t2) f = outcome (skip_observation lk f a sample reason t1 t2)"

text \<open>The same operation on the wallets.\<close>

fun a_step :: "(f64 list \<Rightarrow> f64) \<Rightarrow> wallet_op \<Rightarrow> (string \<Rightarrow> wallet) \<Rightarrow> (string \<Rightarrow> wallet)" where
  "a_step fsum (PaperBuy a m sig t1 t2) W = W(a := a_buy sig (W a))"
| "a_step fsum (ObservedBuy a m acquired paid sig now t1 t2) W =
     (if acquired \<le> 0 \<or> paid \<le> 0 then W
      else case int_truediv paid acquired of
          Inl _ \<Rightarrow> W
        | Inr e \<Rightarrow> W(a := a_observed (sig @ '':'' @ m) (new_observation (sig @ '':'' @ m) m acquired e sig now)
            (a_processed sig (W a))))"
| "a_step fsum (UnsafeBuy a m rs sig t1 t2) W = W(a := snd (a_rejected (decision_key sig m (W a)) (W a)))"
| "a_step fsum (Completed a sample price now t1 t2) W = W(a := snd (a_completed fsum (observation_key sample) price now (W a)))"
| "a_step fsum (FailedTry a sample err now t) W = W(a := a_failed (observation_key sample) err now (W a))"
| "a_step fsum (Skipped a sample reason t1 t2) W = W(a := snd (a_skipped (observation_key sample) (W a)))"

lemma a_completed_ok: "wallet_ok w \<Longrightarrow> wallet_ok (snd (a_completed fsum key price now w))"
proof (cases "split_pending key (w_pending w)")
  case (Some s)
  assume ok: "wallet_ok w"
  obtain before target after where s: "s = (before, target, after)" by (cases s)
  note sp = split_pending_Some [OF Some [unfolded s]]
  have "wallet_ok (a_settled key target (before @ after) price now w)" using sp ok by (intro a_settled_ok) auto
  then show ?thesis by (simp add: a_completed_def Some s Let_def)
qed (simp add: a_completed_def)

lemma a_skipped_ok: "wallet_ok w \<Longrightarrow> wallet_ok (snd (a_skipped key w))"
  by (auto simp: a_skipped_def split: option.split dest!: split_pending_Some intro: a_taken_ok)

lemma a_rejected_ok: "wallet_ok w \<Longrightarrow> wallet_ok (snd (a_rejected key w))"
  by (simp add: a_rejected_def Let_def)

lemma a_step_ok: "\<forall>a. wallet_ok (W a) \<Longrightarrow> \<forall>a. wallet_ok (a_step fsum op W a)"
  by (cases op)
    (auto simp: a_completed_ok a_skipped_ok a_rejected_ok a_failed_ok simp del: append.simps
      intro!: a_observed_ok new_observation_ok [THEN conjunct1] new_observation_ok [THEN conjunct2] split: sum.split)

lemma run_wallet_op_shown:
  assumes "file_shows f W" "\<forall>a. wallet_ok (W a)"
  shows "case run_wallet_op fsum True op f of (r, f') \<Rightarrow> (r = Inr () \<or> r = Inl OverflowError) \<and> file_shows f' (a_step fsum op W)"
proof (cases op)
  case (PaperBuy a m sig t1 t2)
  then show ?thesis
    using performance_update_shown [where mutator = "record_paper_buy_success_mutate a m sig t1 t2", OF assms(1) record_paper_buy_shown [OF _ assms(2)]]
    by (auto simp: record_paper_buy_success_def)
next
  case (ObservedBuy a m acquired paid sig now t1 t2)
  show ?thesis
  proof (cases "acquired \<le> 0 \<or> paid \<le> 0")
    case True
    then show ?thesis using assms(1) by (auto simp: ObservedBuy observe_buy_def)
  next
    case False
    show ?thesis
    proof (cases "int_truediv paid acquired")
      case (Inl x)
      then have "x = OverflowError" using False by (auto simp: int_truediv_def split: f64.splits)
      then show ?thesis using False Inl assms(1) by (simp add: ObservedBuy observe_buy_def)
    next
      case (Inr e)
      then show ?thesis
        using performance_update_shown [where mutator = "observe_buy_mutate a m acquired e sig now t1 t2", OF assms(1) observe_buy_shown [OF _ assms(2)]] False
        by (auto simp: ObservedBuy observe_buy_def simp del: append.simps)
    qed
  qed
next
  case (UnsafeBuy a m rs sig t1 t2)
  then show ?thesis
    using performance_update_shown [where mutator = "reject_unsafe_buy_mutate a m rs sig t1 t2", OF assms(1) reject_unsafe_buy_shown [OF _ assms(2)]]
    by (auto simp: outcome_def)
next
  case (Completed a sample price now t1 t2)
  then show ?thesis
    using performance_update_shown [where mutator = "complete_observation_mutate fsum a (observation_key sample) price now t1 t2",
        OF assms(1) complete_observation_shown [OF _ assms(2)]]
    by (auto simp: outcome_def complete_observation_def)
next
  case (FailedTry a sample err now t)
  then show ?thesis
    using performance_update_shown [where mutator = "fail_observation_mutate a (observation_key sample) err now t", OF assms(1) fail_observation_shown [OF _ assms(2)]]
    by (auto simp: fail_observation_def)
next
  case (Skipped a sample reason t1 t2)
  then show ?thesis
    using performance_update_shown [where mutator = "skip_observation_mutate a (observation_key sample) reason t1 t2",
        OF assms(1) skip_observation_shown [OF _ assms(2)]]
    by (auto simp: outcome_def skip_observation_def)
qed


text \<open>A history is a list of operations, each with whether it got the lock.\<close>

definition run_wallets :: "(f64 list \<Rightarrow> f64) \<Rightarrow> (bool \<times> wallet_op) list \<Rightarrow> state_file" where
  "run_wallets fsum ops = fold (\<lambda>(lk, op) f. snd (run_wallet_op fsum lk op f)) ops Missing"

definition a_run :: "(f64 list \<Rightarrow> f64) \<Rightarrow> (bool \<times> wallet_op) list \<Rightarrow> (string \<Rightarrow> wallet)" where
  "a_run fsum ops = fold (\<lambda>(lk, op) W. if lk then a_step fsum op W else W) ops (\<lambda>_. new_wallet)"

lemma run_wallet_op_unlocked: "snd (run_wallet_op fsum False op f) = f"
  by (cases op) (simp_all add: record_paper_buy_success_def observe_buy_def complete_observation_def fail_observation_def
      skip_observation_def performance_update_unlocked outcome_def split: sum.split)

lemma run_wallets_shown:
  "file_shows (run_wallets fsum ops) (a_run fsum ops) \<and> (\<forall>a. wallet_ok (a_run fsum ops a))"
proof (induction ops rule: rev_induct)
  case Nil
  show ?case by (simp add: run_wallets_def a_run_def file_shows_def)
next
  case (snoc x ops)
  obtain lk op where x: "x = (lk, op)" by (cases x)
  note ih = snoc.IH [unfolded run_wallets_def a_run_def]
  show ?case
  proof (cases lk)
    case True
    then show ?thesis
      using run_wallet_op_shown [OF ih [THEN conjunct1] ih [THEN conjunct2], of fsum op] a_step_ok [OF ih [THEN conjunct2], of fsum op]
      by (simp add: run_wallets_def a_run_def x case_prod_beta)
  next
    case False
    then show ?thesis using ih by (simp add: run_wallets_def a_run_def x run_wallet_op_unlocked)
  qed
qed

text \<open>C14: The performance ledger implements the abstract wallets: after any history of purchases, rejections,
  results, failed tries and skips, with or without the lock, every row of the file shows the wallet
  that the same history gives on the abstract wallets, its counts are those of its collections, and no
  wallet waits twice for one observation.  The next operation that gets the lock returns, unless a
  price overflows a float, and leads to the next abstract state.\<close>
theorem wallet_ledger_refines:
  "file_shows (run_wallets fsum ops) (a_run fsum ops) \<and> (\<forall>a. wallet_ok (a_run fsum ops a)) \<and>
   (case run_wallet_op fsum True op (run_wallets fsum ops) of (r, f) \<Rightarrow>
      r \<in> {Inr (), Inl OverflowError} \<and> file_shows f (a_step fsum op (a_run fsum ops)))"
  using run_wallets_shown [of fsum ops]
    run_wallet_op_shown [OF run_wallets_shown [THEN conjunct1] run_wallets_shown [THEN conjunct2], of fsum op fsum ops]
  by (auto split: prod.splits)

lemma complete_observation_runs:
  assumes "file_shows f W" "\<forall>a. wallet_ok (W a)"
  shows "\<exists>f'. complete_observation fsum True f a sample price now t1 t2 =
      (Inr (fst (a_completed fsum (observation_key sample) price now (W a))), f') \<and>
    file_shows f' (W(a := snd (a_completed fsum (observation_key sample) price now (W a))))"
  using performance_update_shown [where mutator = "complete_observation_mutate fsum a (observation_key sample) price now t1 t2",
      OF assms(1) complete_observation_shown [OF _ assms(2)]]
  by (simp add: complete_observation_def)

lemma settled_key_gone:
  assumes "wallet_ok w"
  shows "split_pending key (w_pending (snd (a_completed fsum key price now w))) = None"
proof (cases "split_pending key (w_pending w)")
  case (Some s)
  obtain before target after where s: "s = (before, target, after)" by (cases s)
  note sp = split_pending_Some [OF Some [unfolded s]]
  have "key \<notin> observation_key ` set (before @ after)" using assms sp by (auto simp: wallet_ok_def)
  then show ?thesis using Some s by (auto simp: a_completed_def Let_def a_settled_def split_pending_None)
qed (simp add: a_completed_def)

lemma a_completed_counts:
  "w_wins (snd (a_completed fsum key price now w)) + w_losses (snd (a_completed fsum key price now w)) =
     w_wins w + w_losses w + (if key \<in> observation_key ` set (w_pending w) then 1 else 0)"
proof (cases "split_pending key (w_pending w)")
  case None
  then have "key \<notin> observation_key ` set (w_pending w)" by (rule split_pending_None [THEN iffD1])
  then have "(if key \<in> observation_key ` set (w_pending w) then 1 else 0) = (0 :: int)" by (rule if_not_P)
  then show ?thesis by (simp only: a_completed_def None option.case snd_conv add_0_right)
next
  case (Some s)
  then have "key \<in> observation_key ` set (w_pending w)" by (metis option.distinct(1) split_pending_None)
  with Some show ?thesis by (auto simp: a_completed_def Let_def a_settled_def split: prod.split)
qed

lemma a_completed_cools:
  "fst (a_completed fsum key price now w) \<noteq> None \<longleftrightarrow> w_cooling (snd (a_completed fsum key price now w)) \<noteq> w_cooling w"
  by (auto simp: a_completed_def Let_def a_settled_def split: option.split)

text \<open>An observation is settled once: completing an observation of a wallet counts one result if the
  observation was waiting and none otherwise, takes it from the waiting ones, leaves the other wallets
  alone, and asks for a cool-down exactly if the wallet starts one.  A second completion, a failed try
  or a skip of the same observation then changes no wallet.\<close>
theorem observation_settled_once:
  "case complete_observation fsum True (run_wallets fsum ops) a sample price now t1 t2 of (r, f) \<Rightarrow>
     \<exists>W. file_shows f W \<and> (\<forall>b. b = a \<or> W b = a_run fsum ops b) \<and>
       observation_key sample \<notin> observation_key ` set (w_pending (W a)) \<and>
       w_wins (W a) + w_losses (W a) = w_wins (a_run fsum ops a) + w_losses (a_run fsum ops a) +
         (if observation_key sample \<in> observation_key ` set (w_pending (a_run fsum ops a)) then 1 else 0) \<and>
       (\<exists>reason. r = Inr reason \<and> (reason = None \<longleftrightarrow> w_cooling (W a) = w_cooling (a_run fsum ops a))) \<and>
       file_shows (snd (complete_observation fsum True f a sample price' now' t3 t4)) W \<and>
       file_shows (snd (fail_observation True f a sample err now' t3)) W \<and>
       file_shows (snd (skip_observation True f a sample why t3 t4)) W"
proof -
  define key W0 where "key = observation_key sample" and "W0 = a_run fsum ops"
  have W0: "file_shows (run_wallets fsum ops) W0" "\<forall>a. wallet_ok (W0 a)" using run_wallets_shown by (auto simp: W0_def)
  define W where "W = W0(a := snd (a_completed fsum key price now (W0 a)))"
  obtain f where f: "complete_observation fsum True (run_wallets fsum ops) a sample price now t1 t2 =
      (Inr (fst (a_completed fsum key price now (W0 a))), f)" "file_shows f W"
    using complete_observation_runs [OF W0, of fsum a sample price now t1 t2] by (auto simp: W_def key_def)
  have W: "\<forall>a. wallet_ok (W a)" using W0(2) a_completed_ok by (simp add: W_def)
  have none: "split_pending key (w_pending (W a)) = None"
    using settled_key_gone W0(2) by (simp add: W_def)
  then have same: "a_step fsum op W = W"
    if "op \<in> {Completed a sample price' now' t3 t4, FailedTry a sample err now' t3, Skipped a sample why t3 t4}" for op
    using that by (auto simp: a_completed_def a_failed_def a_skipped_def key_def [symmetric])
  have "file_shows (snd (run_wallet_op fsum True op f)) W"
    if "op \<in> {Completed a sample price' now' t3 t4, FailedTry a sample err now' t3, Skipped a sample why t3 t4}" for op
    using run_wallet_op_shown [OF f(2) W, of fsum op] same [OF that] by (simp add: case_prod_beta)
  note again = this [of "Completed a sample price' now' t3 t4"] this [of "FailedTry a sample err now' t3"]
    this [of "Skipped a sample why t3 t4"]
  have out: "snd (outcome p) = snd p" for p :: "'b res \<times> state_file"
    by (simp add: outcome_def split: prod.split sum.split)
  show ?thesis
    unfolding f(1) prod.case key_def [symmetric] W0_def [symmetric]
  proof (intro exI [of _ W] conjI)
    show "\<exists>reason. Inr (fst (a_completed fsum key price now (W0 a))) = Inr reason \<and>
        (reason = None \<longleftrightarrow> w_cooling (W a) = w_cooling (W0 a))"
      using a_completed_cools [of fsum key price now "W0 a"] by (auto simp: W_def)
  qed (use f(2) none a_completed_counts [of fsum key price now "W0 a"] again in
        \<open>auto simp: W_def split_pending_None out\<close>)
qed

end
