(* ===== verification/WalletCooldown.thy ===== *)
theory WalletCooldown
  imports WalletScores "HOL-Library.Product_Lexorder" "HOL-Library.Multiset"
begin

text \<open>
  Cool-downs of wallets: the order of the watch list is the library's sort, a wallet that cools down
  leaves the list and its replacement is available, the recovery after 24 hours is exact to the
  microsecond, and what is due for pricing is what waits and is old enough.
\<close>

section \<open>The watch list\<close>

text \<open>Floats in Python's order, with NaN put last; without NaN this is the comparison of the program.\<close>

fun f64_class :: "f64 \<Rightarrow> nat \<times> rat" where
  "f64_class NInf = (0, 0)"
| "f64_class (Fin x) = (1, x)"
| "f64_class PInf = (2, 0)"
| "f64_class NaN = (3, 0)"

lemma f64_class_inj: "f64_class a = f64_class b \<longleftrightarrow> a = b"
  by (cases a; cases b) auto

instantiation f64 :: linorder
begin

definition less_eq_f64 :: "f64 \<Rightarrow> f64 \<Rightarrow> bool" where "less_eq_f64 a b \<longleftrightarrow> f64_class a \<le> f64_class b"
definition less_f64 :: "f64 \<Rightarrow> f64 \<Rightarrow> bool" where "less_f64 a b \<longleftrightarrow> f64_class a < f64_class b"

instance
  by standard (auto simp: less_eq_f64_def less_f64_def f64_class_inj dest: antisym)

end

lemma f64_less_float: "a \<noteq> NaN \<Longrightarrow> b \<noteq> NaN \<Longrightarrow> f64_lt a b \<longleftrightarrow> a < b"
  by (cases a; cases b) (auto simp: f64_lt_def less_f64_def)

definition rank_ok :: "rank \<Rightarrow> bool" where
  "rank_ok r \<longleftrightarrow> fst (snd r) \<noteq> NaN \<and> snd (snd r) \<noteq> NaN"

lemma rank_less_less: "rank_ok a \<Longrightarrow> rank_ok b \<Longrightarrow> rank_less a b \<longleftrightarrow> a < b"
  by (cases "(a, b)" rule: rank_less.cases) (auto simp: rank_ok_def f64_less_float less_prod_simp)

lemma mset_insert_ranked [simp]: "mset (insert_ranked x ys) = add_mset x (mset ys)"
  by (induction ys) auto

lemma set_insert_ranked [simp]: "set (insert_ranked x ys) = insert x (set ys)"
  by (induction ys) auto

definition descending :: "(rank \<times> dict) list \<Rightarrow> bool" where
  "descending ys \<longleftrightarrow> sorted_wrt (\<lambda>a b. fst b \<le> fst a) ys \<and> (\<forall>y \<in> set ys. rank_ok (fst y))"

lemma insert_ranked_descending:
  "descending ys \<Longrightarrow> rank_ok (fst x) \<Longrightarrow> descending (insert_ranked x ys)"
proof (induction ys)
  case (Cons y ys)
  then have "rank_less (fst y) (fst x) \<longleftrightarrow> fst y < fst x" by (simp add: rank_less_less descending_def)
  with Cons show ?case by (auto simp: descending_def intro: order_trans less_imp_le)
qed (simp add: descending_def)

lemma insert_ranked_stable:
  "descending ys \<Longrightarrow> rank_ok (fst x) \<Longrightarrow>
   filter (\<lambda>y. k = fst y) (insert_ranked x ys) = filter (\<lambda>y. k = fst y) ys @ (if k = fst x then [x] else [])"
proof (induction ys)
  case (Cons y ys)
  then have less: "rank_less (fst y) (fst x) \<longleftrightarrow> fst y < fst x" by (simp add: rank_less_less descending_def)
  show ?case
  proof (cases "fst y < fst x")
    case True
    then have "\<forall>z \<in> set (y # ys). fst z \<noteq> fst x" using Cons.prems(1) by (auto simp: descending_def)
    then have "k = fst x \<Longrightarrow> filter (\<lambda>y. k = fst y) (y # ys) = []" by (auto simp: filter_empty_conv)
    then show ?thesis using True less by auto
  next
    case False
    with less have i: "insert_ranked x (y # ys) = y # insert_ranked x ys" by simp
    have "descending ys" using Cons.prems(1) by (simp add: descending_def)
    note ih = Cons.IH [OF this Cons.prems(2)]
    have "filter P (y # zs) = filter P (y # ys) @ us" if "filter P zs = filter P ys @ us" for P and zs us :: "(rank \<times> dict) list"
      using that by simp
    from this [OF ih] show ?thesis unfolding i .
  qed
qed simp

lemma fold_insert_ranked:
  assumes "\<forall>x \<in> set xs. rank_ok (fst x)"
  shows "descending (fold insert_ranked xs []) \<and> mset (fold insert_ranked xs []) = mset xs \<and>
    filter (\<lambda>y. k = fst y) (fold insert_ranked xs []) = filter (\<lambda>y. k = fst y) xs"
  using assms
proof (induction xs rule: rev_induct)
  case (snoc x xs)
  then show ?case by (simp add: insert_ranked_descending insert_ranked_stable)
qed (simp add: descending_def)

text \<open>The watch list is ordered as the library sorts: if no score is NaN, the rows come in the order of
  Python's \<open>sort(key=..., reverse=True)\<close>, which reverses, sorts by the key with a stable sort and
  reverses again.\<close>
theorem watch_list_sorted:
  assumes "mapE row_rank rows = Inr ranked" "\<forall>x \<in> set ranked. rank_ok (fst x)"
  shows "sort_rows rows = Inr (map snd (rev (sort_key fst (rev ranked))))"
proof -
  define r where "r = fold insert_ranked ranked []"
  have f: "descending r" "mset r = mset ranked" "filter (\<lambda>y. k = fst y) r = filter (\<lambda>y. k = fst y) ranked" for k
    using fold_insert_ranked [OF assms(2)] by (auto simp: r_def)
  have "sort_key fst (rev ranked) = rev r"
  proof (rule properties_for_sort_key)
    show "sorted (map fst (rev r))"
      using f(1) by (simp add: descending_def sorted_map sorted_wrt_rev)
  qed (use f(2,3) in \<open>simp_all flip: rev_filter\<close>)
  then show ?thesis using assms(1) by (simp add: sort_rows_def r_def)
qed

theorem watch_list_sorted_witness:
  "sort_rows [[(''win_rate'', PInt 40)], [(''locked'', PBool True)], [(''win_rate'', PInt 60)]] =
     Inr [[(''locked'', PBool True)], [(''win_rate'', PInt 60)], [(''win_rate'', PInt 40)]]"
proof -
  let ?rows = "[[(''win_rate'', PInt 40)], [(''locked'', PBool True)], [(''win_rate'', PInt 60)]]"
  let ?ranked = "[((False, Fin 40, Fin 0), [(''win_rate'', PInt 40)]), ((True, Fin 0, Fin 0), [(''locked'', PBool True)]),
    ((False, Fin 60, Fin 0), [(''win_rate'', PInt 60)])]"
  have "mapE row_rank ?rows = Inr ?ranked" by code_simp
  moreover have "\<forall>x \<in> set ?ranked. rank_ok (fst x)" by (simp add: rank_ok_def)
  ultimately have "sort_rows ?rows = Inr (map snd (rev (sort_key fst (rev ?ranked))))" by (rule watch_list_sorted)
  then show ?thesis by (simp add: less_eq_f64_def less_f64_def less_eq_prod_simp)
qed

section \<open>Leaving the list\<close>

lemma mset_fold_insert_ranked: "mset (fold insert_ranked xs ys) = mset xs + mset ys"
  by (induction xs arbitrary: ys) simp_all

lemma mapE_row_rank: "mapE row_rank rows = Inr ranked \<Longrightarrow> map snd ranked = rows"
  by (induction rows arbitrary: ranked) (auto simp: bindE_eq_Inr row_rank_def)

lemma sort_rows_mset: "sort_rows rows = Inr sorted_rows \<Longrightarrow> mset sorted_rows = mset rows"
  using mset_fold_insert_ranked mapE_row_rank by (fastforce simp: sort_rows_def bindE_eq_Inr)

lemma find_replacement_Some:
  "find_replacement active wallet unavailable rows = Inr (Some row) \<Longrightarrow>
     row \<in> set rows \<and> dgetn row ''address'' \<noteq> PStr wallet \<and> dgetn row ''address'' \<notin> PStr ` set unavailable \<and>
     (\<forall>a \<in> set active. \<not> py_same (dgetn row ''address'') a)"
  by (induction active wallet unavailable rows rule: find_replacement.induct)
    (auto simp: Let_def list_ex_iff split: if_splits)


lemma take_replacement:
  "take n (if length (take n xs) < n then take n xs @ [x] else take n xs) = take n xs @ (if length xs < n then [x] else [])"
  by auto

lemma cooldown_mutate_list:
  assumes "cooldown_mutate wallet reason n unavailable candidates t document = Inr (r, document')"
  obtains old ranked rows where "entries document = Inr old"
    "sort_rows (filter (\<lambda>row. dgetn row ''address'' \<noteq> PStr wallet) old) = Inr ranked"
    "rows = take n ranked @ (case r of Some x \<Rightarrow> (if length ranked < n then [x] else []) | None \<Rightarrow> [])"
    "dget document' ''wallets'' = Some (PList (map PDict rows))"
    "dget document' ''count'' = Some (PInt (int (length rows)))"
    "find_replacement (map (\<lambda>row. dgetn row ''address'') (take n ranked)) wallet unavailable candidates = Inr r"
proof -
  obtain old ranked where o: "entries document = Inr old"
    "sort_rows (filter (\<lambda>row. dgetn row ''address'' \<noteq> PStr wallet) old) = Inr ranked"
    and f: "find_replacement (map (\<lambda>row. dgetn row ''address'') (take n ranked)) wallet unavailable candidates = Inr r"
    and d: "document' = (let rows = take n (case r of Some x \<Rightarrow> (if length (take n ranked) < n then take n ranked @ [x]
          else take n ranked) | None \<Rightarrow> take n ranked) in dupdate document
            [(''generated_at'', PStr t), (''count'', PInt (int (length rows))),
             (''wallets'', PList (map PDict rows)),
             (''last_cooldown'', PDict [(''address'', PStr wallet), (''reason'', PStr reason)])])"
    using assms by (auto simp: cooldown_mutate_def Let_def bindE_eq_Inr split: if_splits)
  define rows where "rows = take n ranked @ (case r of Some x \<Rightarrow> (if length ranked < n then [x] else []) | None \<Rightarrow> [])"
  have "take n (case r of Some x \<Rightarrow> (if length (take n ranked) < n then take n ranked @ [x] else take n ranked)
      | None \<Rightarrow> take n ranked) = rows"
    by (cases r) (simp_all only: option.case rows_def take_replacement take_take min.idem append_Nil2)
  then have "dget document' ''wallets'' = Some (PList (map PDict rows))" "dget document' ''count'' = Some (PInt (int (length rows)))"
    by (simp_all add: d Let_def dget_dupdate)
  then show thesis using that [OF o rows_def] f by blast
qed

text \<open>C15: A wallet that cools down leaves the watch list: when \<open>cooldown_and_replace\<close> returns, whatever
  other processes did meanwhile, the list holds no row of the wallet, at most the configured number of
  rows, the best of the rows it held before, and at most one new row.  The new row is a candidate that
  was not on the list, and was neither cooling down nor evicted when the performance file was read.\<close>
theorem cooled_wallet_leaves:
  assumes "cooldown_and_replace io k wallet reason fs = (Inr r, fs')"
  shows "\<exists>n doc rows before old ranked performance unavailable.
    max_wallets_of (wallet_environ io) = Inr n \<and> wallets_file fs' = Content (PDict doc) \<and>
    dget doc ''wallets'' = Some (PList (map PDict rows)) \<and> dget doc ''count'' = Some (PInt (int (length rows))) \<and>
    length rows \<le> n \<and> list_all (\<lambda>row. dgetn row ''address'' \<noteq> PStr wallet) rows \<and>
    read_json ''wallets.json'' (wallets_file (wallet_others io (k + 2) (wallet_others io (k + 1) (wallet_others io k fs))))
      [(''wallets'', PList [])] = Inr before \<and> entries before = Inr old \<and>
    sort_rows (filter (\<lambda>row. dgetn row ''address'' \<noteq> PStr wallet) old) = Inr ranked \<and>
    rows = take n ranked @ (case r of Some x \<Rightarrow> (if length ranked < n then [x] else []) | None \<Rightarrow> []) \<and>
    read_json ''wallet_performance.json'' (performance_file (wallet_others io k fs)) performance_fallback = Inr performance \<and>
    unavailable_wallets performance = Inr unavailable \<and>
    (case r of None \<Rightarrow> True | Some x \<Rightarrow> dgetn x ''address'' \<notin> PStr ` set unavailable \<and>
       list_all (\<lambda>row. \<not> py_same (dgetn x ''address'') (dgetn row ''address'')) (take n ranked))"
proof -
  obtain n where n: "max_wallets_of (wallet_environ io) = Inr n"
    using assms by (auto simp: cooldown_and_replace_def split: sum.splits)
  obtain unavailable where u: "bindE (read_json ''wallet_performance.json'' (performance_file (wallet_others io k fs)) performance_fallback)
      unavailable_wallets = Inr unavailable"
    using assms n by (auto simp: cooldown_and_replace_def Let_def split: sum.splits)
  define fs2 where "fs2 = wallet_others io (k + 1) (wallet_others io k fs)"
  obtain candidates where c: "bindE (read_json ''wallet_candidates.json'' (candidate_file fs2) []) entries = Inr candidates"
    using assms n u by (auto simp: cooldown_and_replace_def Let_def fs2_def split: sum.splits)
  define fs3 where "fs3 = wallet_others io (k + 2) fs2"
  obtain doc where w: "update_json ''wallets.json'' (wallet_lock io (k + 2)) (wallets_file fs3) [(''wallets'', PList [])]
        (cooldown_mutate wallet reason n unavailable candidates (wallet_time io (k + 2))) None = (Inr (r, doc), wallets_file fs')"
    using assms n u c
    by (auto simp: cooldown_and_replace_def Let_def fs2_def fs3_def split: sum.splits prod.splits)
  obtain d v d' where m: "cooldown_mutate wallet reason n unavailable candidates (wallet_time io (k + 2)) d = Inr (r, d')"
    and doc: "doc = dset ''version'' (PInt (v + 1)) d'" "wallets_file fs' = Content (PDict doc)"
    and before: "read_json ''wallets.json'' (wallets_file fs3) [(''wallets'', PList [])] = Inr d"
    using w by (auto simp: update_json_Inr)
  obtain old ranked rows where old: "entries d = Inr old"
    and l: "sort_rows (filter (\<lambda>row. dgetn row ''address'' \<noteq> PStr wallet) old) = Inr ranked"
    "rows = take n ranked @ (case r of Some x \<Rightarrow> (if length ranked < n then [x] else []) | None \<Rightarrow> [])"
    "dget d' ''wallets'' = Some (PList (map PDict rows))" "dget d' ''count'' = Some (PInt (int (length rows)))"
    "find_replacement (map (\<lambda>row. dgetn row ''address'') (take n ranked)) wallet unavailable candidates = Inr r"
    by (rule cooldown_mutate_list [OF m])
  have "set ranked = set (filter (\<lambda>row. dgetn row ''address'' \<noteq> PStr wallet) old)"
    using sort_rows_mset [OF l(1)] mset_eq_setD by blast
  then have r0: "list_all (\<lambda>row. dgetn row ''address'' \<noteq> PStr wallet) (take n ranked)"
    by (auto simp: list_all_iff dest: in_set_takeD)
  have new: "case r of None \<Rightarrow> True | Some x \<Rightarrow> dgetn x ''address'' \<noteq> PStr wallet \<and> dgetn x ''address'' \<notin> PStr ` set unavailable \<and>
       list_all (\<lambda>row. \<not> py_same (dgetn x ''address'') (dgetn row ''address'')) (take n ranked)"
    using find_replacement_Some l(5) by (fastforce simp: list_all_iff split: option.split)
  have away: "list_all (\<lambda>row. dgetn row ''address'' \<noteq> PStr wallet) rows" using r0 new by (auto simp: l(2) split: option.splits)
  have len: "length rows \<le> n" by (auto simp: l(2) split: option.split)
  have list: "dget doc ''wallets'' = Some (PList (map PDict rows))" "dget doc ''count'' = Some (PInt (int (length rows)))"
    using l(3,4) by (simp_all add: doc(1))
  obtain performance where p: "read_json ''wallet_performance.json'' (performance_file (wallet_others io k fs))
      performance_fallback = Inr performance" "unavailable_wallets performance = Inr unavailable"
    using u by (auto simp: bindE_eq_Inr)
  have new': "case r of None \<Rightarrow> True | Some x \<Rightarrow> dgetn x ''address'' \<notin> PStr ` set unavailable \<and>
       list_all (\<lambda>row. \<not> py_same (dgetn x ''address'') (dgetn row ''address'')) (take n ranked)"
    using new by (cases r) simp_all
  show ?thesis
    by (intro exI conjI, rule n, rule doc(2), rule list(1), rule list(2), rule len, rule away,
        rule before [unfolded fs3_def fs2_def], rule old, rule l(1), rule l(2), rule p(1), rule p(2), rule new')
qed


definition sample_io :: wallet_io where
  "sample_io = \<lparr>wallet_lock = (\<lambda>_. True), wallet_others = (\<lambda>_ fs. fs), wallet_time = (\<lambda>_. ''now''),
     wallet_environ = (\<lambda>k. if k = ''WALLET_MAX_WALLETS'' then Some ''2'' else None)\<rparr>"

definition sample_files :: wallet_files where
  "sample_files = \<lparr>
     performance_file = Content (PDict [(''wallets'', PDict [(''C'', PDict [(''status'', PStr ''COOL_DOWN'')])])]),
     candidate_file = Content (PDict [(''wallets'', PList [PDict [(''address'', PStr ''C'')], PDict [(''address'', PStr ''D'')]])]),
     wallets_file = Content (PDict [(''wallets'', PList [PDict [(''address'', PStr ''A'')],
       PDict [(''address'', PStr ''B''), (''win_rate'', PInt 60)]])])\<rparr>"

theorem cooled_wallet_leaves_witness:
  "\<exists>fs' doc rows. cooldown_and_replace sample_io 0 ''A'' ''losses'' sample_files = (Inr (Some [(''address'', PStr ''D'')]), fs') \<and>
     wallets_file fs' = Content (PDict doc) \<and> dget doc ''wallets'' = Some (PList (map PDict rows)) \<and> length rows \<le> 2"
proof -
  have "fst (cooldown_and_replace sample_io 0 ''A'' ''losses'' sample_files) = Inr (Some [(''address'', PStr ''D'')])"
    by code_simp
  then obtain fs' where r: "cooldown_and_replace sample_io 0 ''A'' ''losses'' sample_files =
      (Inr (Some [(''address'', PStr ''D'')]), fs')"
    by (metis prod.collapse)
  have two: "max_wallets_of (wallet_environ sample_io) = Inr 2" by code_simp
  from cooled_wallet_leaves [OF r] obtain n doc rows where
    "max_wallets_of (wallet_environ sample_io) = Inr n" "wallets_file fs' = Content (PDict doc)"
    "dget doc ''wallets'' = Some (PList (map PDict rows))" "length rows \<le> n" by blast
  with r two show ?thesis by fastforce
qed

section \<open>Recovery\<close>

lemma f64_lt_of_rat: "\<bar>c\<bar> < 2 ^ 1024 \<Longrightarrow> f64_lt (f64_of_rat x) (Fin c) \<longleftrightarrow> fl x < c"
  by (auto simp: f64_of_rat_def f64_lt_def Let_def)

lemma day_exact: "f64_lt (seconds_of_us d) COOLDOWN_SECONDS \<longleftrightarrow> d < 86400000000"
proof -
  have "\<bar>86400 :: rat\<bar> < 2 ^ 1024" by simp
  then have "f64_lt (seconds_of_us d) COOLDOWN_SECONDS \<longleftrightarrow> fl (of_int d / 1000000) < 86400"
    unfolding seconds_of_us_def COOLDOWN_SECONDS_def by (rule f64_lt_of_rat)
  also have "\<dots> \<longleftrightarrow> d < 86400000000"
  proof
    assume "fl (of_int d / 1000000) < (86400 :: rat)"
    moreover have "fl 86400 = (86400 :: rat)" by code_simp
    ultimately have "\<not> 86400 \<le> (of_int d / 1000000 :: rat)" using fl_mono [of 86400 "of_int d / 1000000"] by auto
    then have "(of_int d :: rat) < of_int 86400000000" by simp
    then show "d < 86400000000" by (simp only: of_int_less_iff)
  next
    assume "d < 86400000000"
    then have "(of_int d :: rat) \<le> of_int 86399999999" by (simp only: of_int_le_iff)
    then have "of_int d / 1000000 \<le> (86399999999 / 1000000 :: rat)" by simp
    then have "fl (of_int d / 1000000) \<le> fl (86399999999 / 1000000)" by (rule fl_mono)
    moreover have "fl (86399999999 / 1000000) < (86400 :: rat)" by code_simp
    ultimately show "fl (of_int d / 1000000) < (86400 :: rat)" by (rule le_less_trans)
  qed
  finally show ?thesis .
qed

text \<open>A wallet of a file that is cooling down, with the time it began.\<close>

definition cooling_since :: "state_file \<Rightarrow> string \<Rightarrow> dict \<Rightarrow> int \<Rightarrow> bool" where
  "cooling_since f a row started \<longleftrightarrow> (\<exists>doc rows v. f = Content (PDict doc) \<and> doc_version doc = Inr v \<and>
     dget doc ''wallets'' = Some (PDict rows) \<and> dget rows a = Some (PDict row)) \<and>
     a \<noteq> [] \<and> strip a = a \<and> distinct (map fst row) \<and> dget row ''address'' = None \<and> dgetn row ''status'' = PStr ''COOL_DOWN'' \<and>
     dgetn row ''cooldown_start_time'' = PNone \<and> parse_utc_timestamp (dgetn row ''cooldown_started_at'') = Inr (Some started)"

text \<open>Recovery is exact: a wallet that cools down is left alone by the scan until the 24 hours have passed
  to the microsecond, in spite of the float arithmetic on the way, and from then on the scan makes it
  active, with its results, its samples and its counts as they were and no other row of the file touched.\<close>
theorem recovery_after_a_day:
  assumes "cooling_since f a row started" "t \<noteq> []"
  shows "case recover_wallet True current t (wallet_snapshot (a, PDict row)) f of (r, f') \<Rightarrow>
    if current - started < 86400000000 then r = Inr False \<and> f' = f
    else r = Inr True \<and> (\<exists>doc rows rows' row'. f = Content (PDict doc) \<and> dget doc ''wallets'' = Some (PDict rows) \<and>
      (\<exists>doc'. f' = Content (PDict doc') \<and> dget doc' ''wallets'' = Some (PDict rows')) \<and>
      dget rows' a = Some (PDict row') \<and> dget row' ''status'' = Some (PStr ''ACTIVE'') \<and>
      list_all (\<lambda>k. dget row' k = dget row k) [''wins'', ''losses'', ''samples'', ''pending'', ''safety_block_count'',
        ''evaluation_completed_count''] \<and>
      (\<forall>b. b = a \<or> dget rows' b = dget rows b))"
proof -
  obtain doc rows v where f: "f = Content (PDict doc)" "doc_version doc = Inr v" "dget doc ''wallets'' = Some (PDict rows)"
      "dget rows a = Some (PDict row)"
    and a: "a \<noteq> []" "strip a = a"
    and dist: "distinct (map fst row)"
    and row: "dget row ''address'' = None" "dgetn row ''status'' = PStr ''COOL_DOWN''" "dgetn row ''cooldown_start_time'' = PNone"
      "parse_utc_timestamp (dgetn row ''cooldown_started_at'') = Inr (Some started)"
    using assms(1) by (auto simp: cooling_since_def)
  define snap where "snap = dupdate [(''address'', PStr a)] row"
  have get: "dget snap k = (case dget row k of None \<Rightarrow> dget [(''address'', PStr a)] k | Some x \<Rightarrow> Some x)" for k
    by (simp add: snap_def dget_dupdate dget_rev_distinct [OF dist])
  have snap: "dget_or snap ''address'' (PStr []) = PStr a" "dgetn snap ''cooldown_start_time'' = PNone"
      "dgetn snap ''cooldown_started_at'' = dgetn row ''cooldown_started_at''"
    using row(1,3) by (auto simp: dget_or_def dgetn_def get split: option.splits)
  define row' where "row' = activated_row (Some t) (dset ''status'' (PStr ''ACTIVE'') row)"
  define doc1 where "doc1 = dset ''updated_at'' (PStr t) (dset ''wallets'' (PDict (dset a (PDict row') rows))
     (dset ''wallets'' (PDict rows) doc))"
  have "set_wallet_status_mutate a ''ACTIVE'' False (Some t) doc = Inr (True, doc1)"
    using f(3,4) assms(2) by (simp add: set_wallet_status_mutate_def doc1_def row'_def Let_def)
  moreover have "upper ''ACTIVE'' = ''ACTIVE''" by code_simp
  ultimately have set: "set_wallet_status True f a ''ACTIVE'' False (Some t) =
      (Inr True, Content (PDict (dset ''version'' (PInt (v + 1)) doc1)))"
    using a f(1,2) by (simp add: set_wallet_status_def Let_def update_json_run [where d = doc and v = v])
  have run: "recover_wallet True current t (wallet_snapshot (a, PDict row)) f =
      (if current - started < 86400000000 then (Inr False, f)
       else (Inr True, Content (PDict (dset ''version'' (PInt (v + 1)) doc1))))"
    using snap row(4) set a by (simp add: recover_wallet_def snap_def [symmetric] day_exact)
  show ?thesis
  proof (cases "current - started < 86400000000")
    case True
    then show ?thesis unfolding run by simp
  next
    case False
    have d: "dget (dset ''version'' (PInt (v + 1)) doc1) ''wallets'' = Some (PDict (dset a (PDict row') rows))"
      by (simp add: doc1_def)
    have r: "dget row' ''status'' = Some (PStr ''ACTIVE'')" "list_all (\<lambda>k. dget row' k = dget row k)
        [''wins'', ''losses'', ''samples'', ''pending'', ''safety_block_count'', ''evaluation_completed_count'']"
      using assms(2) by (simp_all add: row'_def activated_row_def Let_def)
    have b: "dget (dset a (PDict row') rows) a = Some (PDict row')"
      "\<forall>b. b = a \<or> dget (dset a (PDict row') rows) b = dget rows b" by simp_all
    show ?thesis unfolding run if_not_P [OF False] prod.case
      by (intro conjI exI, rule refl, rule f(1), rule f(3), rule refl, rule d, rule b(1), rule r(1), rule r(2), rule b(2))
  qed
qed

theorem recovery_after_a_day_witness:
  "let f = Content (PDict [(''wallets'', PDict [(''W'', PDict [(''wins'', PInt 3), (''status'', PStr ''COOL_DOWN''),
        (''cooldown_started_at'', PStr ''2026-01-01T00:00:00+00:00'')])])]);
       snapshot = wallet_snapshot (''W'', PDict [(''wins'', PInt 3), (''status'', PStr ''COOL_DOWN''),
        (''cooldown_started_at'', PStr ''2026-01-01T00:00:00+00:00'')]) in
   recover_wallet True 1767311999999999 ''now'' snapshot f = (Inr False, f) \<and>
   fst (recover_wallet True 1767312000000000 ''now'' snapshot f) = Inr True"
proof -
  let ?row = "[(''wins'', PInt 3), (''status'', PStr ''COOL_DOWN''), (''cooldown_started_at'', PStr ''2026-01-01T00:00:00+00:00'')]"
  let ?f = "Content (PDict [(''wallets'', PDict [(''W'', PDict ?row)])])"
  have "parse_utc_timestamp (PStr ''2026-01-01T00:00:00+00:00'') = Inr (Some 1767225600000000)" by code_simp
  moreover have "strip ''W'' = ''W''" by code_simp
  ultimately have c: "cooling_since ?f ''W'' ?row 1767225600000000"
    by (simp add: cooling_since_def doc_version_def)
  from recovery_after_a_day [OF c, of "''now''" 1767311999999999] recovery_after_a_day [OF c, of "''now''" 1767312000000000]
  show ?thesis by (auto simp: Let_def split: prod.splits)
qed


section \<open>What is due\<close>

definition due_item :: "f64 \<Rightarrow> dict \<Rightarrow> bool" where
  "due_item now item = (case (dgetn item ''evaluate_at'', dgetn item ''next_retry_at'') of
     (PFloat t, PFloat u) \<Rightarrow> f64_le t now \<and> f64_le u now | _ \<Rightarrow> False)"

lemma py_float_or_zero: "py_float (py_or (PFloat x) (PInt 0)) = Inr x"
  by (simp add: py_or_def f64_of_int_def)

lemma sample_is_due_shown: "waiting_ok item \<Longrightarrow> sample_is_due now item = Inr (due_item now item)"
  by (auto simp: waiting_ok_def sample_is_due_def due_item_def float_field_def py_float_or_zero)

lemma due_samples_shown: "list_all waiting_ok items \<Longrightarrow> due_samples now (map PDict items) = Inr (filter (due_item now) items)"
  by (induction items) (auto simp: due_samples_def sample_is_due_shown bindE_eq_Inr)

lemma due_rows_shown:
  assumes "\<forall>(a, v) \<in> set rows. \<exists>row. v = PDict row \<and> row_synced row (W a) \<and> list_all waiting_ok (w_pending (W a))"
  shows "\<exists>found. mapE (\<lambda>(wallet, v). case v of
              PDict row \<Rightarrow> bindE (py_iter (dget_or row ''pending'' (PList []))) (\<lambda>pending.
                bindE (due_samples now pending) (\<lambda>due. Inr (map (Pair wallet) due)))
            | _ \<Rightarrow> Inr []) rows = Inr found \<and>
    set (concat found) = {(a, item). a \<in> fst ` set rows \<and> item \<in> set (w_pending (W a)) \<and> due_item now item}"
  using assms
proof (induction rows)
  case (Cons r rows)
  obtain a row where r: "r = (a, PDict row)" "row_synced row (W a)" "list_all waiting_ok (w_pending (W a))"
    using Cons.prems by (cases r) auto
  have p: "dget_or row ''pending'' (PList []) = PList (map PDict (w_pending (W a)))"
    using r(2) by (simp add: row_synced_def row_shows_def)
  obtain found where "mapE (\<lambda>(wallet, v). case v of
              PDict row \<Rightarrow> bindE (py_iter (dget_or row ''pending'' (PList []))) (\<lambda>pending.
                bindE (due_samples now pending) (\<lambda>due. Inr (map (Pair wallet) due)))
            | _ \<Rightarrow> Inr []) rows = Inr found"
    "set (concat found) = {(a, item). a \<in> fst ` set rows \<and> item \<in> set (w_pending (W a)) \<and> due_item now item}"
    using Cons by auto
  then show ?case by (auto simp: r(1) p due_samples_shown [OF r(3)])
qed simp

text \<open>What is priced is what waits and is old enough: after any history of the ledger, \<open>due_observations\<close>
  returns, and gives exactly the observations of all wallets that wait and whose time of evaluation and
  of the next try have come.  A purchase comes up an hour after it was seen.\<close>
theorem due_exactly_waiting:
  "(\<exists>due. due_observations now (run_wallets fsum ops) = Inr due \<and>
      set due = {(a, item). item \<in> set (w_pending (a_run fsum ops a)) \<and> due_item now item}) \<and>
   (due_item now (new_observation key m q e sig t) \<longleftrightarrow> f64_le (f64_add t (Fin 3600)) now)"
proof
  define W where "W = a_run fsum ops"
  have W: "file_shows (run_wallets fsum ops) W" "\<forall>a. wallet_ok (W a)" using run_wallets_shown by (auto simp: W_def)
  show "\<exists>due. due_observations now (run_wallets fsum ops) = Inr due \<and>
      set due = {(a, item). item \<in> set (w_pending (a_run fsum ops a)) \<and> due_item now item}"
    unfolding W_def [symmetric]
  proof (cases "run_wallets fsum ops = Missing")
    case True
    then have "W = (\<lambda>_. new_wallet)" using W(1) by (auto simp: file_shows_def)
    then show "\<exists>due. due_observations now (run_wallets fsum ops) = Inr due \<and>
        set due = {(a, item). item \<in> set (w_pending (W a)) \<and> due_item now item}"
      by (simp add: True due_observations_def performance_fallback_def new_wallet_def)
  next
    case False
    then obtain doc rows where f: "run_wallets fsum ops = Content (PDict doc)" "dget doc ''wallets'' = Some (PDict rows)"
        "distinct (map fst rows)"
      and shows': "\<forall>a. case dget rows a of None \<Rightarrow> W a = new_wallet | Some r \<Rightarrow> \<exists>row. r = PDict row \<and> row_synced row (W a)"
      using W(1) by (auto simp: file_shows_def)
    have "\<forall>(a, v) \<in> set rows. \<exists>row. v = PDict row \<and> row_synced row (W a) \<and> list_all waiting_ok (w_pending (W a))"
    proof safe
      fix a v assume "(a, v) \<in> set rows"
      then have "dget rows a = Some v" by (rule in_set_dget [OF f(3)])
      then show "\<exists>row. v = PDict row \<and> row_synced row (W a) \<and> list_all waiting_ok (w_pending (W a))"
        using shows' [rule_format, of a] W(2) by (auto simp: wallet_ok_def)
    qed
    from due_rows_shown [OF this, of now] obtain found where found: "mapE (\<lambda>(wallet, v). case v of
              PDict row \<Rightarrow> bindE (py_iter (dget_or row ''pending'' (PList []))) (\<lambda>pending.
                bindE (due_samples now pending) (\<lambda>due. Inr (map (Pair wallet) due)))
            | _ \<Rightarrow> Inr []) rows = Inr found"
      "set (concat found) = {(a, item). a \<in> fst ` set rows \<and> item \<in> set (w_pending (W a)) \<and> due_item now item}" by blast
    have "w_pending (W a) = []" if "a \<notin> fst ` set rows" for a
    proof -
      have "dget rows a = None" using that by (simp add: dget_def map_of_eq_None_iff)
      then show ?thesis using shows' [rule_format, of a] by (simp add: new_wallet_def)
    qed
    then have "{(a, item). a \<in> fst ` set rows \<and> item \<in> set (w_pending (W a)) \<and> due_item now item} =
        {(a, item). item \<in> set (w_pending (W a)) \<and> due_item now item}" by fastforce
    with found f(1,2) show "\<exists>due. due_observations now (run_wallets fsum ops) = Inr due \<and>
        set due = {(a, item). item \<in> set (w_pending (W a)) \<and> due_item now item}"
      by (simp add: due_observations_def)
  qed
  show "due_item now (new_observation key m q e sig t) \<longleftrightarrow> f64_le (f64_add t (Fin 3600)) now"
    by (simp add: due_item_def new_observation_def EVALUATION_DELAY_SECONDS_def)
qed

end
