(* ===== verification/LedgerInvariant.thy ===== *)
theory LedgerInvariant
  imports Ledger
begin

text \<open>
  The invariant of the paper ledger and its preservation: every transaction of the ledger
  takes a well-formed document to a well-formed document, keeps the event numbers
  increasing, and moves money only as a purchase or a sale does.
\<close>

section \<open>Well-formed documents\<close>

fun int_value :: "py option \<Rightarrow> int" where
  "int_value (Some (PInt i)) = i"
| "int_value _ = 0"

definition ival :: "dict \<Rightarrow> string \<Rightarrow> int" where
  "ival d k = int_value (dget d k)"

definition has_int :: "dict \<Rightarrow> string \<Rightarrow> bool" where
  "has_int d k = (case dget d k of Some (PInt _) \<Rightarrow> True | _ \<Rightarrow> False)"

definition has_str :: "dict \<Rightarrow> string \<Rightarrow> bool" where
  "has_str d k = (case dget d k of Some (PStr _) \<Rightarrow> True | _ \<Rightarrow> False)"

definition position_ints :: "string list" where
  "position_ints = [''token_amount_raw'', ''remaining_cost_lamports'', ''entry_cost_lamports'',
     ''cumulative_proceeds_lamports'', ''peak_exit_value_lamports'',
     ''post_tp_peak_exit_value_lamports'', ''consecutive_quote_failures'', ''round_index'', ''version'']"

fun wf_position :: "py \<Rightarrow> bool" where
  "wf_position (PDict p) = (list_all (has_int p) position_ints \<and>
     0 < ival p ''token_amount_raw'' \<and> 0 \<le> ival p ''remaining_cost_lamports'' \<and>
     has_str p ''position_id'')"
| "wf_position _ = False"

definition wf_positions :: "dict \<Rightarrow> bool" where
  "wf_positions ps \<longleftrightarrow> distinct (map fst ps) \<and> list_all (\<lambda>kv. wf_position (snd kv)) ps"

fun wf_event :: "py \<Rightarrow> bool" where
  "wf_event (PDict e) = has_int e ''event_seq''"
| "wf_event _ = False"

fun event_seq_of :: "py \<Rightarrow> int" where
  "event_seq_of (PDict e) = ival e ''event_seq''"
| "event_seq_of _ = 0"

text \<open>Event numbers grow along the list and stay below the next one.\<close>

definition wf_events :: "py list \<Rightarrow> int \<Rightarrow> bool" where
  "wf_events es n \<longleftrightarrow> list_all wf_event es \<and> sorted_wrt (<) (map event_seq_of es @ [n])"

definition ledger_positions :: "dict \<Rightarrow> dict" where
  "ledger_positions l = (case dget l ''positions'' of Some (PDict ps) \<Rightarrow> ps | _ \<Rightarrow> [])"

definition ledger_events :: "dict \<Rightarrow> py list" where
  "ledger_events l = (case dget l ''events'' of Some (PList es) \<Rightarrow> es | _ \<Rightarrow> [])"

definition cash :: "dict \<Rightarrow> int" where "cash l = ival l ''cash_lamports''"

definition wf_ledger :: "dict \<Rightarrow> bool" where
  "wf_ledger l \<longleftrightarrow> has_int l ''cash_lamports'' \<and> 0 \<le> cash l \<and>
     dget l ''positions'' = Some (PDict (ledger_positions l)) \<and> wf_positions (ledger_positions l) \<and>
     dget l ''events'' = Some (PList (ledger_events l)) \<and>
     has_int l ''next_event_seq'' \<and> 0 < ival l ''next_event_seq'' \<and>
     has_int l ''schema_version'' \<and> 2 \<le> ival l ''schema_version'' \<and>
     wf_events (ledger_events l) (ival l ''next_event_seq'')"

text \<open>The cost still tied up in open positions.\<close>

fun position_cost :: "py \<Rightarrow> int" where
  "position_cost (PDict p) = ival p ''remaining_cost_lamports''"
| "position_cost _ = 0"

definition held_cost :: "dict \<Rightarrow> int" where
  "held_cost l = (\<Sum>kv\<leftarrow>ledger_positions l. position_cost (snd kv))"

subsection \<open>Reading and writing well-formed documents\<close>

lemma has_intE: "has_int d k \<Longrightarrow> dget d k = Some (PInt (ival d k))"
  by (auto simp: has_int_def ival_def split: option.splits py.splits)

lemma has_strE: "has_str d k \<Longrightarrow> \<exists>s. dget d k = Some (PStr s)"
  by (auto simp: has_str_def split: option.splits py.splits)

lemma ival_simps [simp]:
  "ival (dset k v d) k' = (if k' = k then int_value (Some v) else ival d k')"
  "ival (dpop k d) k' = (if k' = k then 0 else ival d k')"
  by (simp_all add: ival_def)

lemma has_int_simps [simp]:
  "has_int (dset k (PInt i) d) k' \<longleftrightarrow> k' = k \<or> has_int d k'"
  "k' \<noteq> k \<Longrightarrow> has_int (dset k v d) k' = has_int d k'"
  "k' \<noteq> k \<Longrightarrow> has_int (dpop k d) k' = has_int d k'"
  by (auto simp: has_int_def)

lemma has_str_simps [simp]:
  "k' \<noteq> k \<Longrightarrow> has_str (dset k v d) k' = has_str d k'"
  "k' \<noteq> k \<Longrightarrow> has_str (dpop k d) k' = has_str d k'"
  by (auto simp: has_str_def)

lemma ival_eq: "dget d k = Some (PInt i) \<Longrightarrow> ival d k = i"
  by (simp add: ival_def)

lemma ledger_positions_dset [simp]:
  "ledger_positions (dset k v l) = (if k = ''positions'' then (case v of PDict ps \<Rightarrow> ps | _ \<Rightarrow> []) else ledger_positions l)"
  by (auto simp: ledger_positions_def)

lemma ledger_events_dset [simp]:
  "ledger_events (dset k v l) = (if k = ''events'' then (case v of PList es \<Rightarrow> es | _ \<Rightarrow> []) else ledger_events l)"
  by (auto simp: ledger_events_def)

lemma cash_dset [simp]:
  "cash (dset k v l) = (if k = ''cash_lamports'' then int_value (Some v) else cash l)"
  by (simp add: cash_def)

lemma held_cost_dset [simp]: "k \<noteq> ''positions'' \<Longrightarrow> held_cost (dset k v l) = held_cost l"
  by (simp add: held_cost_def)

lemma wf_ledgerD:
  assumes "wf_ledger l"
  shows "dget l ''cash_lamports'' = Some (PInt (cash l))"
    and "dget l ''positions'' = Some (PDict (ledger_positions l))"
    and "dget l ''events'' = Some (PList (ledger_events l))"
    and "dget l ''next_event_seq'' = Some (PInt (ival l ''next_event_seq''))"
    and "positions_of l = Inr (ledger_positions l)" and "with_positions l = l"
    and "wf_positions (ledger_positions l)"
  using assms by (auto simp: wf_ledger_def cash_def has_intE positions_of_def with_positions_def
      dsetdefault_def dhas_def)

lemma wf_ledger_dset_other:
  "k \<notin> {''cash_lamports'', ''positions'', ''events'', ''next_event_seq'', ''schema_version''} \<Longrightarrow>
   wf_ledger (dset k v l) = wf_ledger l"
  by (auto simp: wf_ledger_def)

lemma wf_position_field:
  "wf_position (PDict p) \<Longrightarrow> k \<in> set position_ints \<Longrightarrow> dget p k = Some (PInt (ival p k))"
  by (auto simp: list_all_iff has_intE)

lemma wf_positionD:
  assumes "wf_position (PDict p)"
  shows "dget p ''token_amount_raw'' = Some (PInt (ival p ''token_amount_raw''))"
    and "dget p ''remaining_cost_lamports'' = Some (PInt (ival p ''remaining_cost_lamports''))"
    and "dget p ''entry_cost_lamports'' = Some (PInt (ival p ''entry_cost_lamports''))"
    and "dget p ''cumulative_proceeds_lamports'' = Some (PInt (ival p ''cumulative_proceeds_lamports''))"
    and "dget p ''peak_exit_value_lamports'' = Some (PInt (ival p ''peak_exit_value_lamports''))"
    and "dget p ''post_tp_peak_exit_value_lamports'' = Some (PInt (ival p ''post_tp_peak_exit_value_lamports''))"
    and "dget p ''consecutive_quote_failures'' = Some (PInt (ival p ''consecutive_quote_failures''))"
    and "dget p ''round_index'' = Some (PInt (ival p ''round_index''))"
    and "dget p ''version'' = Some (PInt (ival p ''version''))"
    and "0 < ival p ''token_amount_raw''" "0 \<le> ival p ''remaining_cost_lamports''"
proof -
  note f = wf_position_field [OF assms, unfolded position_ints_def]
  show "dget p ''token_amount_raw'' = Some (PInt (ival p ''token_amount_raw''))"
    and "dget p ''remaining_cost_lamports'' = Some (PInt (ival p ''remaining_cost_lamports''))"
    and "dget p ''entry_cost_lamports'' = Some (PInt (ival p ''entry_cost_lamports''))"
    and "dget p ''cumulative_proceeds_lamports'' = Some (PInt (ival p ''cumulative_proceeds_lamports''))"
    and "dget p ''peak_exit_value_lamports'' = Some (PInt (ival p ''peak_exit_value_lamports''))"
    and "dget p ''post_tp_peak_exit_value_lamports'' = Some (PInt (ival p ''post_tp_peak_exit_value_lamports''))"
    and "dget p ''consecutive_quote_failures'' = Some (PInt (ival p ''consecutive_quote_failures''))"
    and "dget p ''round_index'' = Some (PInt (ival p ''round_index''))"
    and "dget p ''version'' = Some (PInt (ival p ''version''))"
    by (rule f; simp)+
  show "0 < ival p ''token_amount_raw''" "0 \<le> ival p ''remaining_cost_lamports''"
    using assms by simp_all
qed

lemma list_all_has_int:
  "k \<notin> set ks \<Longrightarrow> list_all (has_int (dset k v p)) ks = list_all (has_int p) ks"
  "k \<notin> set ks \<Longrightarrow> list_all (has_int (dpop k p)) ks = list_all (has_int p) ks"
  "list_all (has_int p) ks \<Longrightarrow> list_all (has_int (dset k (PInt i) p)) ks"
  by (auto simp: list_all_iff has_int_def)

lemma position_ints_mem:
  "''token_amount_raw'' \<in> set position_ints" "''remaining_cost_lamports'' \<in> set position_ints"
  "''position_id'' \<notin> set position_ints"
  by (simp_all add: position_ints_def)

lemma wf_position_dset:
  assumes "wf_position (PDict p)" "k \<notin> set position_ints" "k \<noteq> ''position_id''"
  shows "wf_position (PDict (dset k v p))"
proof -
  have "k \<noteq> ''token_amount_raw''" "k \<noteq> ''remaining_cost_lamports''"
    using assms(2) position_ints_mem by metis+
  with assms show ?thesis by (auto simp: list_all_has_int has_str_def)
qed

lemma wf_position_dpop:
  assumes "wf_position (PDict p)" "k \<notin> set position_ints" "k \<noteq> ''position_id''"
  shows "wf_position (PDict (dpop k p))"
proof -
  have "k \<noteq> ''token_amount_raw''" "k \<noteq> ''remaining_cost_lamports''"
    using assms(2) position_ints_mem by metis+
  with assms show ?thesis by (auto simp: list_all_has_int has_str_def)
qed

lemma wf_position_dset_int:
  assumes "wf_position (PDict p)" "k \<in> set position_ints"
    and "k = ''token_amount_raw'' \<Longrightarrow> 0 < i" "k = ''remaining_cost_lamports'' \<Longrightarrow> 0 \<le> i"
  shows "wf_position (PDict (dset k (PInt i) p))"
proof -
  have "k \<noteq> ''position_id''" using assms(2) position_ints_mem(3) by metis
  with assms show ?thesis by (auto simp: list_all_has_int has_str_def)
qed

lemma wf_positionsD: "wf_positions ps \<Longrightarrow> dget ps m = Some v \<Longrightarrow> \<exists>p. v = PDict p \<and> wf_position (PDict p)"
proof -
  assume "wf_positions ps" "dget ps m = Some v"
  then have "wf_position v" by (force simp: wf_positions_def list_all_iff dest: dget_in_set)
  then show ?thesis by (cases v) auto
qed

lemma wf_positions_dset:
  assumes "wf_positions ps" "wf_position v"
  shows "wf_positions (dset m v ps)"
proof -
  have "list_all (\<lambda>kv. wf_position (snd kv)) (dset m v ps)"
    using assms set_dset_subset [of m v ps] by (fastforce simp: wf_positions_def list_all_iff)
  with assms show ?thesis by (simp add: wf_positions_def)
qed

lemma wf_positions_dpop: "wf_positions ps \<Longrightarrow> wf_positions (dpop m ps)"
  by (auto simp: wf_positions_def list_all_iff set_dpop)

lemma owned_positionD:
  "owned_position ps m i = Some p \<Longrightarrow> dget ps m = Some (PDict p) \<and> dgetn p ''position_id'' = PStr i"
  by (auto simp: owned_position_def dgetn_def dget_or_def split: py.splits if_splits option.splits)

subsection \<open>Events\<close>

lemma wf_events_snoc:
  assumes "wf_events es n" "wf_event e" "event_seq_of e = n"
  shows "wf_events (es @ [e]) (n + 1)"
  using assms by (force simp: wf_events_def sorted_wrt_append)

lemma wf_events_take_last: "wf_events es n \<Longrightarrow> wf_events (take_last k es) n"
proof -
  assume wf: "wf_events es n"
  let ?i = "length es - k"
  have "es = take ?i es @ drop ?i es" by simp
  then have "sorted_wrt (<) (map event_seq_of (take ?i es) @ (map event_seq_of (drop ?i es) @ [n]))"
    using wf by (metis append.assoc map_append wf_events_def)
  moreover have "list_all wf_event (drop ?i es)"
    using wf by (auto simp: wf_events_def list_all_iff dest: in_set_dropD)
  ultimately show ?thesis by (simp add: wf_events_def take_last_def sorted_wrt_append)
qed

text \<open>Appending an event that does not carry a number of its own.\<close>

lemma append_event_wf:
  assumes "wf_ledger l" "dget event ''event_seq'' = None"
  shows "\<exists>l'. append_event i event l = Inr l' \<and> wf_ledger l' \<and> cash l' = cash l \<and>
    ledger_positions l' = ledger_positions l \<and>
    (\<exists>ev. ledger_events l' = ledger_events l @ [PDict ev] \<and>
      (\<forall>k. k \<noteq> ''event_id'' \<longrightarrow> k \<noteq> ''event_seq'' \<longrightarrow> dget ev k = dget (rev event) k) \<and>
      dget ev ''event_seq'' = Some (PInt (ival l ''next_event_seq''))) \<and>
    ival l' ''next_event_seq'' = ival l ''next_event_seq'' + 1"
proof -
  define n where "n = ival l ''next_event_seq''"
  define ev where "ev = dupdate [(''event_id'', PStr i), (''event_seq'', PInt n)] event"
  define l' where "l' = dset ''events'' (PList (ledger_events l @ [PDict ev]))
      (dset ''next_event_seq'' (PInt (n + 1)) l)"
  have n: "dget l ''next_event_seq'' = Some (PInt n)" "0 < n"
    using wf_ledgerD(4) [OF assms(1)] assms(1) by (simp_all add: n_def wf_ledger_def)
  have seq: "dget ev ''event_seq'' = Some (PInt n)"
    by (simp add: ev_def dget_dupdate iffD2 [OF dget_rev_None assms(2)])
  have other: "\<forall>k. k \<noteq> ''event_id'' \<longrightarrow> k \<noteq> ''event_seq'' \<longrightarrow> dget ev k = dget (rev event) k"
    by (simp add: ev_def dget_dupdate split: option.split)
  have "append_event i event l = Inr l'"
    using n wf_ledgerD(3) [OF assms(1)]
    by (simp add: append_event_def next_event_def int_field_def l'_def ev_def py_or_def)
  moreover have "wf_ledger l'"
  proof -
    have "wf_events (ledger_events l) n" using assms(1) by (simp add: wf_ledger_def n_def)
    then have "wf_events (ledger_events l @ [PDict ev]) (n + 1)"
      using seq by (intro wf_events_snoc) (simp_all add: has_int_def ival_def)
    moreover have "has_int l ''cash_lamports''" "0 \<le> cash l" "wf_positions (ledger_positions l)"
        "dget l ''positions'' = Some (PDict (ledger_positions l))"
        "has_int l ''schema_version''" "2 \<le> ival l ''schema_version''"
      using assms(1) by (simp_all add: wf_ledger_def)
    ultimately show ?thesis using n(2) by (simp add: wf_ledger_def l'_def)
  qed
  ultimately show ?thesis using seq other
    by (intro exI [of _ l']) (auto simp: l'_def n_def [symmetric])
qed


section \<open>Transactions on one position\<close>

lemma sum_list_dset:
  assumes "distinct (map fst d)"
  shows "(\<Sum>kv\<leftarrow>dset m v d. g (snd kv)) =
    (\<Sum>kv\<leftarrow>d. g (snd kv)) + g v - (case dget d m of None \<Rightarrow> (0 :: int) | Some u \<Rightarrow> g u)"
  using assms
proof (induction d)
  case (Cons kv d)
  then show ?case by (cases kv) (auto simp: dset_def dget_def map_of_eq_None_iff split: option.splits)
qed (simp add: dset_def)

lemma sum_list_dpop:
  assumes "distinct (map fst d)"
  shows "(\<Sum>kv\<leftarrow>dpop m d. g (snd kv)) =
    (\<Sum>kv\<leftarrow>d. g (snd kv)) - (case dget d m of None \<Rightarrow> (0 :: int) | Some u \<Rightarrow> g u)"
  using assms
proof (induction d)
  case (Cons kv d)
  then show ?case by (cases kv) (auto simp: dpop_def dget_def split: option.splits)
qed (simp add: dpop_def)

lemma wf_set_position:
  assumes "wf_ledger l" "wf_position (PDict p)"
  shows "wf_ledger (set_position m p (ledger_positions l) l)"
  using assms(1) wf_positions_dset [OF wf_ledgerD(7) [OF assms(1)] assms(2), of m]
  by (simp add: wf_ledger_def set_position_def)

lemma held_cost_set_position:
  assumes "wf_ledger l"
  shows "held_cost (set_position m p (ledger_positions l) l) =
    held_cost l + position_cost (PDict p) -
      (case dget (ledger_positions l) m of None \<Rightarrow> 0 | Some v \<Rightarrow> position_cost v)"
proof -
  have "distinct (map fst (ledger_positions l))"
    using wf_ledgerD(7) [OF assms] by (simp add: wf_positions_def)
  then show ?thesis by (simp add: held_cost_def set_position_def sum_list_dset)
qed

text \<open>
  What a transaction that only rewrites a position keeps: the invariant, the cash, the
  cost tied up, the events and the number of the next one.
\<close>

definition keeps_money :: "dict \<Rightarrow> dict \<Rightarrow> bool" where
  "keeps_money l l' \<longleftrightarrow> wf_ledger l' \<and> cash l' = cash l \<and> held_cost l' = held_cost l"

lemma keeps_money_refl: "wf_ledger l \<Longrightarrow> keeps_money l l"
  by (simp add: keeps_money_def)

lemma keeps_money_trans: "keeps_money l m \<Longrightarrow> keeps_money m n \<Longrightarrow> keeps_money l n"
  by (simp add: keeps_money_def)

lemma keeps_money_dset:
  "keeps_money l l' \<Longrightarrow> k \<notin> {''cash_lamports'', ''positions'', ''events'', ''next_event_seq'', ''schema_version''} \<Longrightarrow>
   keeps_money l (dset k v l')"
  by (auto simp: keeps_money_def wf_ledger_dset_other)

lemma keeps_money_set_position:
  assumes "wf_ledger l" "dget (ledger_positions l) m = Some (PDict p)"
    and "wf_position (PDict p')" "ival p' ''remaining_cost_lamports'' = ival p ''remaining_cost_lamports''"
  shows "keeps_money l (set_position m p' (ledger_positions l) l)"
proof -
  have "cash (set_position m p' (ledger_positions l) l) = cash l" by (simp add: set_position_def)
  with assms show ?thesis
    by (simp add: keeps_money_def wf_set_position held_cost_set_position del: wf_position.simps)
qed

lemma bump_version_wf:
  assumes "wf_position (PDict p)"
  shows "bump_version p = Inr (dset ''version'' (PInt (ival p ''version'' + 1)) p)"
    and "wf_position (PDict (dset ''version'' (PInt (ival p ''version'' + 1)) p))"
proof -
  show "bump_version p = Inr (dset ''version'' (PInt (ival p ''version'' + 1)) p)"
    by (simp add: bump_version_def dget_or_eq [OF wf_positionD(9) [OF assms]])
  show "wf_position (PDict (dset ''version'' (PInt (ival p ''version'' + 1)) p))"
    using assms by (rule wf_position_dset_int) (simp_all add: position_ints_def)
qed

text \<open>The result of a position transaction: the same ledger, or one position rewritten.\<close>

lemma bump_version_keeps:
  "bump_version p = Inr p' \<Longrightarrow> wf_position (PDict p) \<Longrightarrow>
   wf_position (PDict p') \<and> ival p' ''remaining_cost_lamports'' = ival p ''remaining_cost_lamports'' \<and>
   ival p' ''token_amount_raw'' = ival p ''token_amount_raw''"
  using bump_version_wf [of p] by (auto simp del: wf_position.simps)

text \<open>A rewritten position that keeps its cost.\<close>

definition keeps_cost :: "dict \<Rightarrow> dict \<Rightarrow> bool" where
  "keeps_cost p q \<longleftrightarrow> wf_position (PDict q) \<and>
     ival q ''remaining_cost_lamports'' = ival p ''remaining_cost_lamports''"

lemma keeps_cost_refl: "wf_position (PDict p) \<Longrightarrow> keeps_cost p p"
  by (simp add: keeps_cost_def)

lemma keeps_cost_dset:
  assumes "keeps_cost p q" "k \<notin> set position_ints" "k \<noteq> ''position_id''"
  shows "keeps_cost p (dset k v q)" "keeps_cost p (dpop k q)"
proof -
  have "k \<noteq> ''remaining_cost_lamports''" using assms(2) position_ints_mem(2) by metis
  then show "keeps_cost p (dset k v q)" "keeps_cost p (dpop k q)"
    using assms wf_position_dset [of q k v] wf_position_dpop [of q k]
    by (simp_all add: keeps_cost_def del: wf_position.simps)
qed

lemma keeps_cost_dset_int:
  assumes "keeps_cost p q" "k \<in> set position_ints" "k \<noteq> ''token_amount_raw''"
    "k \<noteq> ''remaining_cost_lamports''"
  shows "keeps_cost p (dset k (PInt i) q)"
  using assms wf_position_dset_int [of q k i] by (simp add: keeps_cost_def del: wf_position.simps)

text \<open>The keys a position transaction writes, as it writes them.\<close>

lemma keeps_cost_mark [intro]:
  assumes "keeps_cost p q"
  shows "keeps_cost p (dset ''current_value_lamports'' v q)"
    and "keeps_cost p (dset ''current_price_lamports_per_raw'' v q)"
    and "keeps_cost p (dset ''unrealized_return_percent'' v q)"
    and "keeps_cost p (dset ''price_updated_at'' v q)"
    and "keeps_cost p (dset ''last_quote_success_at'' v q)"
    and "keeps_cost p (dset ''last_quote_error'' v q)"
    and "keeps_cost p (dset ''last_quote_failure_at'' v q)"
    and "keeps_cost p (dset ''risk_state'' v q)"
    and "keeps_cost p (dset ''transaction_lifecycle_status'' v q)"
    and "keeps_cost p (dset ''transaction_lifecycle_updated_at'' v q)"
    and "keeps_cost p (dset ''peak_exit_value_lamports'' (PInt i) q)"
    and "keeps_cost p (dset ''post_tp_peak_exit_value_lamports'' (PInt i) q)"
    and "keeps_cost p (dset ''consecutive_quote_failures'' (PInt i) q)"
  by (rule keeps_cost_dset keeps_cost_dset_int, rule assms; simp add: position_ints_def)+

lemma keeps_cost_bump: "bump_version q = Inr q' \<Longrightarrow> keeps_cost p q \<Longrightarrow> keeps_cost p q'"
  using bump_version_keeps by (simp add: keeps_cost_def del: wf_position.simps)

lemmas keeps_cost_intros = keeps_cost_dset keeps_cost_dset_int keeps_cost_refl

lemma keeps_money_position:
  assumes "wf_ledger l" "owned_position (ledger_positions l) m i = Some p" "keeps_cost p q"
  shows "keeps_money l (dset ''updated_at'' v (set_position m q (ledger_positions l) l))"
  using assms owned_positionD [OF assms(2)]
  by (intro keeps_money_dset keeps_money_set_position) (auto simp: keeps_cost_def)

lemma owned_wf:
  "wf_ledger l \<Longrightarrow> owned_position (ledger_positions l) m i = Some p \<Longrightarrow> wf_position (PDict p)"
  using wf_positionsD [OF wf_ledgerD(7)] owned_positionD by blast

lemma claim_keeps_money:
  assumes "wf_ledger l" "claim_position_exit_mutate e x m i r l = Inr (res, l')"
  shows "keeps_money l l'"
proof (cases "owned_position (ledger_positions l) m i")
  case (Some p)
  define q where "q = dset ''pending_exit_reason'' (PStr r) (dset ''pending_exit_id'' (PStr x)
      (dset ''risk_state'' (PStr ''EXIT_PENDING'') p))"
  have q: "keeps_cost p q"
    unfolding q_def by (intro keeps_cost_intros owned_wf [OF assms(1) Some]) (simp_all add: position_ints_def)
  show ?thesis using assms Some
    by (auto simp: claim_position_exit_mutate_def Let_def wf_ledgerD(5,6) q_def [symmetric]
        bindE_eq_Inr keeps_money_refl split: if_splits
        intro!: keeps_money_position keeps_cost_bump [OF _ q])
qed (use assms in \<open>simp add: claim_position_exit_mutate_def Let_def wf_ledgerD(5,6) keeps_money_refl\<close>)

lemma release_keeps_money:
  assumes "wf_ledger l" "release_exit_claim_mutate e m i x d l = Inr (res, l')"
  shows "keeps_money l l'"
proof (cases "owned_position (ledger_positions l) m i")
  case (Some p)
  define q where "q = dset ''risk_state'' (PStr (if d then ''DEGRADED'' else ''NORMAL''))
      (dpop ''pending_exit_reason'' (dpop ''pending_exit_id'' p))"
  have q: "keeps_cost p q"
    unfolding q_def by (intro keeps_cost_intros owned_wf [OF assms(1) Some]) (simp_all add: position_ints_def)
  show ?thesis using assms Some
    by (auto simp: release_exit_claim_mutate_def Let_def wf_ledgerD(5,6) q_def [symmetric]
        bindE_eq_Inr keeps_money_refl split: if_splits
        intro!: keeps_money_position keeps_cost_bump [OF _ q])
qed (use assms in \<open>simp add: release_exit_claim_mutate_def Let_def wf_ledgerD(5,6) keeps_money_refl\<close>)

lemma floor_keeps_money:
  assumes "wf_ledger l" "ensure_break_even_floor_mutate e m i l = Inr (res, l')"
  shows "keeps_money l l'"
proof (cases "owned_position (ledger_positions l) m i")
  case (Some p)
  define q where "q = dset ''break_even_floor_armed_at'' (PStr (utc_now e 0))
      (dset ''break_even_floor_active'' (PBool True)
        (dset ''stop_loss_ratio'' (PFloat BREAK_EVEN_STOP_RATIO) p))"
  have q: "keeps_cost p q"
    unfolding q_def by (intro keeps_cost_intros owned_wf [OF assms(1) Some]) (simp_all add: position_ints_def)
  show ?thesis using assms Some
    by (auto simp: ensure_break_even_floor_mutate_def Let_def wf_ledgerD(5,6) q_def [symmetric]
        bindE_eq_Inr keeps_money_refl split: if_splits
        intro!: keeps_money_position keeps_cost_bump [OF _ q])
qed (use assms in \<open>simp add: ensure_break_even_floor_mutate_def Let_def wf_ledgerD(5,6) keeps_money_refl\<close>)

lemma keeps_money_bumped:
  assumes "wf_ledger l" "owned_position (ledger_positions l) m i = Some p"
    and "dset ''updated_at'' v (set_position m q' (ledger_positions l) l) = l'"
    and "bump_version q = Inr q'" "keeps_cost p q"
  shows "keeps_money l l'"
  unfolding assms(3) [symmetric]
  by (rule keeps_money_position [OF assms(1,2) keeps_cost_bump [OF assms(4,5)]])

lemma quote_failure_keeps_money:
  assumes "wf_ledger l" "record_quote_failure_mutate e now m i err l = Inr (res, l')"
  shows "keeps_money l l'"
proof (cases "owned_position (ledger_positions l) m i")
  case (Some p)
  note p = keeps_cost_refl [OF owned_wf [OF assms(1) Some]]
  show ?thesis using assms(2)
    by (simp add: record_quote_failure_mutate_def Let_def wf_ledgerD(5,6) [OF assms(1)] Some bindE_eq_Inr)
      (elim exE conjE, rule keeps_money_bumped [OF assms(1) Some], assumption+,
       simp add: keeps_cost_mark p)
qed (use assms in \<open>simp add: record_quote_failure_mutate_def Let_def wf_ledgerD(5,6) keeps_money_refl\<close>)

lemma keeps_cost_bindE_if:
  "(if c then bindE g (\<lambda>x. Inr (f x)) else Inr q) = Inr q' \<Longrightarrow> keeps_cost p q \<Longrightarrow>
   (\<And>x. keeps_cost p (f x)) \<Longrightarrow> keeps_cost p q'"
  by (auto simp: bindE_eq_Inr split: if_splits)

lemma keeps_cost_if: "keeps_cost p q \<Longrightarrow> keeps_cost p r \<Longrightarrow> keeps_cost p (if c then q else r)"
  by simp

lemma mark_keeps_money:
  assumes "wf_ledger l" "record_position_mark_mutate e m i v l = Inr (res, l')"
  shows "keeps_money l l'"
proof (cases "owned_position (ledger_positions l) m i")
  case (Some p)
  note p = keeps_cost_refl [OF owned_wf [OF assms(1) Some]]
  show ?thesis
  proof (cases "v < 0")
    case False
    then show ?thesis using assms(2)
      by (simp add: record_position_mark_mutate_def Let_def wf_ledgerD(5,6) [OF assms(1)] Some bindE_eq_Inr)
        (elim exE conjE, rule keeps_money_bumped [OF assms(1) Some], assumption+,
         intro keeps_cost_if keeps_cost_mark; erule keeps_cost_bindE_if; intro keeps_cost_mark p)
  qed (use assms Some in \<open>simp add: record_position_mark_mutate_def Let_def wf_ledgerD(5,6) keeps_money_refl\<close>)
qed (use assms in \<open>simp add: record_position_mark_mutate_def Let_def wf_ledgerD(5,6) keeps_money_refl\<close>)

section \<open>Transactions that only report\<close>

lemma append_event_keeps:
  assumes "wf_ledger l" "dget event ''event_seq'' = None" "append_event i event l = Inr l'"
  shows "keeps_money l l'" "ledger_positions l' = ledger_positions l"
    "ival l' ''next_event_seq'' = ival l ''next_event_seq'' + 1"
    "\<exists>ev. ledger_events l' = ledger_events l @ [PDict ev] \<and>
      (\<forall>k. k \<noteq> ''event_id'' \<longrightarrow> k \<noteq> ''event_seq'' \<longrightarrow> dget ev k = dget (rev event) k) \<and>
      dget ev ''event_seq'' = Some (PInt (ival l ''next_event_seq''))"
  using append_event_wf [OF assms(1,2), of i] assms(3) by (auto simp: keeps_money_def held_cost_def)

lemma dsetdefault_wf [simp]:
  "wf_ledger l \<Longrightarrow> dsetdefault ''events'' v l = l"
  by (simp add: dsetdefault_def dhas_def wf_ledgerD(3))

lemma keeps_money_events_suffix:
  assumes "wf_ledger l" shows "keeps_money l (dset ''events'' (PList (take_last n (ledger_events l))) l)"
proof -
  have "wf_events (take_last n (ledger_events l)) (ival l ''next_event_seq'')"
    using assms by (intro wf_events_take_last) (simp add: wf_ledger_def)
  with assms show ?thesis by (simp add: keeps_money_def wf_ledger_def held_cost_def)
qed

lemma bounded_event_keeps_money:
  assumes "wf_ledger l" "dget event ''event_seq'' = None"
    and "append_bounded_event e kind sig m event l = Inr (res, l')"
  shows "keeps_money l l'"
proof -
  have ev: "py_iter (dgetn l ''events'') = Inr (ledger_events l)"
    using wf_ledgerD(3) [OF assms(1)] by (simp add: dgetn_def dget_or_def)
  show ?thesis
  proof (cases "list_ex (matching_event kind ''signature'' sig m) (ledger_events l)")
    case True
    then show ?thesis using assms ev by (simp add: append_bounded_event_def keeps_money_refl)
  next
    case False
    then obtain l1 where l1: "append_event (uuid4 e 0) event l = Inr l1"
        "bindE (bindE (dindex l1 ''events'') as_list) (\<lambda>events.
             Inr ((), dset ''updated_at'' (PStr (utc_now e 1))
               (dset ''events'' (PList (take_last 2000 events)) l1))) = Inr ((), l')"
      using assms ev by (auto simp: append_bounded_event_def bindE_eq_Inr)
    note k = append_event_keeps(1) [OF assms(1,2) l1(1)]
    then have "wf_ledger l1" by (simp add: keeps_money_def)
    then have l': "l' = dset ''updated_at'' (PStr (utc_now e 1))
        (dset ''events'' (PList (take_last 2000 (ledger_events l1))) l1)"
      using l1(2) wf_ledgerD(3) [of l1] by simp
    show ?thesis unfolding l'
      by (intro keeps_money_dset keeps_money_trans [OF k] keeps_money_events_suffix) (simp_all add: \<open>wf_ledger l1\<close>)
  qed
qed

lemma rejection_keeps_money:
  "wf_ledger l \<Longrightarrow> record_paper_rejection_mutate e m score reasons w sig l = Inr (res, l') \<Longrightarrow> keeps_money l l'"
  unfolding record_paper_rejection_mutate_def by (rule bounded_event_keeps_money) simp_all

lemma rpc_skip_keeps_money:
  "wf_ledger l \<Longrightarrow> record_rpc_skip_mutate e m w sig reason l = Inr (res, l') \<Longrightarrow> keeps_money l l'"
  unfolding record_rpc_skip_mutate_def by (rule bounded_event_keeps_money) simp_all

text \<open>Lifecycle items carry no event number of their own.\<close>

lemma lifecycle_items_keep:
  assumes "lifecycle_items e m i clock k items p l = Inr (clock', q, l')"
    and "\<forall>item \<in> set items. dget item ''event_seq'' = None" "wf_ledger l" "keeps_cost p0 p"
  shows "keeps_money l l' \<and> keeps_cost p0 q \<and> ledger_positions l' = ledger_positions l"
  using assms
proof (induction e m i clock k items p l rule: lifecycle_items.induct)
  case (2 e m i clock k item items p l)
  let ?event = "dupdate [(''type'', PStr ''TRANSACTION_LIFECYCLE''), (''mint'', PStr m),
      (''position_id'', PStr i)] item"
  obtain l1 where l1: "append_event (uuid4 e k) ?event l = Inr l1"
    using 2(2,4) by (auto simp: Let_def bindE_eq_Inr)
  have seq: "dget ?event ''event_seq'' = None"
    using 2(3) by (simp add: dget_dupdate iffD2 [OF dget_rev_None])
  note k = append_event_keeps(1,2) [OF 2(4) seq l1]
  have "keeps_money l1 l' \<and> keeps_cost p0 q \<and> ledger_positions l' = ledger_positions l1"
    using 2(2,3,4,5) l1 k
    by (intro 2(1) [OF refl refl refl refl refl refl])
      (auto simp: Let_def keeps_cost_mark keeps_money_def)
  with k show ?case by (auto intro: keeps_money_trans)
qed (simp add: keeps_money_refl)

lemma lifecycle_keeps_money:
  assumes "wf_ledger l" "\<forall>item \<in> set items. dget item ''event_seq'' = None"
    and "record_live_transaction_lifecycle_mutate e m i items l = Inr (res, l')"
  shows "keeps_money l l'"
proof (cases "owned_position (ledger_positions l) m i")
  case (Some p)
  note p = keeps_cost_refl [OF owned_wf [OF assms(1) Some]]
  obtain c q l1 q' where step: "lifecycle_items e m i 0 0 items p l = Inr (c, q, l1)"
      "bump_version q = Inr q'"
      "l' = dset ''updated_at'' (PStr (utc_now e c)) (set_position m q' (ledger_positions l) l1)"
    using assms Some by (auto simp: record_live_transaction_lifecycle_mutate_def Let_def
        wf_ledgerD(5,6) bindE_eq_Inr)
  note k = lifecycle_items_keep [OF step(1) assms(2,1) p]
  then have "wf_ledger l1" "owned_position (ledger_positions l1) m i = Some p"
    using Some by (simp_all add: keeps_money_def)
  then have "keeps_money l1 l'"
    using k step by (intro keeps_money_bumped [of l1 m i p _ q' l' q]) auto
  with k show ?thesis by (auto intro: keeps_money_trans)
qed (use assms in \<open>simp add: record_live_transaction_lifecycle_mutate_def Let_def wf_ledgerD(5,6) keeps_money_refl\<close>)

end
