(* ===== verification/LedgerTrades.thy ===== *)
theory LedgerTrades
  imports LedgerInvariant
begin

text \<open>
  Purchases, sales and exit claims of the paper ledger: what each does to the cash, to the
  positions and to the events, and the properties of the ledger as a whole.
\<close>

declare wf_position.simps [simp del]

section \<open>Purchases\<close>

lemma opened_position_fields:
  fixes b :: buy_request
  defines "p t q route price i n sg q2 \<equiv> opened_position b t q route price (buy_metadata b i n sg q2 route)"
  shows "dget (p t q route price i n sg q2) ''token_amount_raw'' = Some (PInt (token_amount_raw b))"
    and "dget (p t q route price i n sg q2) ''remaining_cost_lamports'' = Some (PInt (cost_lamports b))"
    and "dget (p t q route price i n sg q2) ''entry_cost_lamports'' = Some (PInt (cost_lamports b))"
    and "dget (p t q route price i n sg q2) ''cumulative_proceeds_lamports'' = Some (PInt 0)"
    and "dget (p t q route price i n sg q2) ''peak_exit_value_lamports'' = Some (PInt (cost_lamports b))"
    and "dget (p t q route price i n sg q2) ''post_tp_peak_exit_value_lamports'' = Some (PInt 0)"
    and "dget (p t q route price i n sg q2) ''consecutive_quote_failures'' = Some (PInt 0)"
    and "dget (p t q route price i n sg q2) ''round_index'' = Some (PInt n)"
    and "dget (p t q route price i n sg q2) ''version'' = Some (PInt 1)"
    and "dget (p t q route price i n sg q2) ''position_id'' = Some (PStr i)"
    and "dget (p t q route price i n sg q2) ''strategy_version'' = Some (PStr (strategy_of b))"
    and "dget (p t q route price i n sg q2) ''stop_loss_ratio''
      = Some (PFloat (if fst route = ''B'' then ROUTE_B_STOP_LOSS_RATIO else STOP_LOSS_RATIO))"
  by (simp_all add: p_def opened_position_def buy_metadata_def dget_dupdate)

lemma opened_position_wf:
  assumes "0 < token_amount_raw b" "0 \<le> cost_lamports b"
  shows "wf_position (PDict (opened_position b t q route price (buy_metadata b i n sg q2 route)))"
  using assms
  by (simp add: wf_position.simps opened_position_fields has_int_def has_str_def ival_def position_ints_def)

lemma buy_event_fields:
  "dget (rev (buy_event b t (buy_metadata b i n sg q route))) ''event_seq'' = None"
  "dget (buy_event b t (buy_metadata b i n sg q route)) ''event_seq'' = None"
  "dget (buy_event b t (buy_metadata b i n sg q route)) ''type'' = Some (PStr ''BUY'')"
  "dget (buy_event b t (buy_metadata b i n sg q route)) ''mint'' = Some (PStr (mint b))"
  "dget (buy_event b t (buy_metadata b i n sg q route)) ''source_signature'' = Some (opt_str (source_signature b))"
  by (simp_all add: buy_event_def buy_metadata_def dget_dupdate dget_rev_None)

definition already_bought :: "buy_request \<Rightarrow> dict \<Rightarrow> bool" where
  "already_bought b l \<longleftrightarrow> (\<exists>sig. source_signature b = Some sig \<and> sig \<noteq> [] \<and>
     list_ex (matching_event ''BUY'' ''source_signature'' sig (mint b)) (ledger_events l))"

lemma duplicate_buy_wf:
  assumes "wf_ledger l"
  shows "duplicate_buy b l = Inr (already_bought b l, l)"
proof -
  have "py_iter (dgetn l ''events'') = Inr (ledger_events l)"
    using wf_ledgerD(3) [OF assms] by (simp add: dgetn_def dget_or_def)
  with assms show ?thesis
    by (auto simp: duplicate_buy_def already_bought_def Let_def split: option.split)
qed

lemma buy_shape:
  assumes "wf_ledger l" "record_paper_buy_mutate e route b l = Inr (i, l')"
  obtains n price l2 where
    "dget (ledger_positions l) (mint b) = None" "\<not> already_bought b l" "cost_lamports b \<le> cash l"
    "strategy_capacity b (ledger_positions l) = Inr ()" "i = uuid4 e 0"
    "append_event (uuid4 e 1)
       (buy_event b (utc_now e 0) (buy_metadata b (uuid4 e 0) n (str_or (signal_detected_at b) (utc_now e 0))
          (str_or (entry_quote_at b) (utc_now e 0)) route))
       (set_position (mint b) (opened_position b (utc_now e 0) (str_or (entry_quote_at b) (utc_now e 0))
          route price (buy_metadata b (uuid4 e 0) n (str_or (signal_detected_at b) (utc_now e 0))
            (str_or (entry_quote_at b) (utc_now e 0)) route))
         (ledger_positions l) (dset ''cash_lamports'' (PInt (cash l - cost_lamports b)) l)) = Inr l2"
    "l' = dset ''updated_at'' (PStr (utc_now e 1)) l2"
proof -
  note run = assms(2) [unfolded record_paper_buy_mutate_def Let_def wf_ledgerD(6) [OF assms(1)]
      wf_ledgerD(5) [OF assms(1)] bindE_simps]
  have cap: "strategy_capacity b (ledger_positions l) = Inr ()"
    using run by (auto simp: bindE_eq_Inr)
  note run = run [unfolded this bindE_simps duplicate_buy_wf [OF assms(1)]]
  have fresh: "dget (ledger_positions l) (mint b) = None" "\<not> already_bought b l"
    using run by (auto simp: dhas_def split: if_splits)
  have c: "py_int (dget_or l ''cash_lamports'' (PInt 0)) = Inr (cash l)"
    "bindE (dindex l ''cash_lamports'') py_int = Inr (cash l)"
    "bindE (dindex l ''events'') py_iter = Inr (ledger_events l)"
    using wf_ledgerD(1,3) [OF assms(1)] by (simp_all add: dget_or_def)
  show thesis
    using run fresh
    by (auto simp: dhas_def c bindE_eq_Inr split: if_splits intro!: that [OF fresh _ cap])
qed

lemma buy_event_distinct: "distinct (map fst (buy_event b t (buy_metadata b i n sg q route)))"
  unfolding buy_event_def by (rule distinct_dupdate) simp

lemma buy_effect:
  assumes "wf_ledger l" "record_paper_buy_mutate e route b l = Inr (i, l')"
    and "0 < token_amount_raw b" "0 \<le> cost_lamports b"
  shows "wf_ledger l'" "cash l' = cash l - cost_lamports b"
    "held_cost l' = held_cost l + cost_lamports b"
    "dget (ledger_positions l) (mint b) = None" "\<not> already_bought b l" "i = uuid4 e 0"
    "strategy_capacity b (ledger_positions l) = Inr ()"
    "\<exists>t q n price sg q2. ledger_positions l' = dset (mint b) (PDict (opened_position b t q route price
        (buy_metadata b i n sg q2 route))) (ledger_positions l)"
    "\<exists>ev. ledger_events l' = ledger_events l @ [PDict ev] \<and> dget ev ''type'' = Some (PStr ''BUY'') \<and>
       dget ev ''mint'' = Some (PStr (mint b)) \<and>
       dget ev ''source_signature'' = Some (opt_str (source_signature b))"
proof -
  from assms(1,2) obtain n price l2 where s:
    "dget (ledger_positions l) (mint b) = None" "\<not> already_bought b l" "cost_lamports b \<le> cash l"
    "strategy_capacity b (ledger_positions l) = Inr ()" "i = uuid4 e 0"
    and ap: "append_event (uuid4 e 1)
       (buy_event b (utc_now e 0) (buy_metadata b (uuid4 e 0) n (str_or (signal_detected_at b) (utc_now e 0))
          (str_or (entry_quote_at b) (utc_now e 0)) route))
       (set_position (mint b) (opened_position b (utc_now e 0) (str_or (entry_quote_at b) (utc_now e 0))
          route price (buy_metadata b (uuid4 e 0) n (str_or (signal_detected_at b) (utc_now e 0))
            (str_or (entry_quote_at b) (utc_now e 0)) route))
         (ledger_positions l) (dset ''cash_lamports'' (PInt (cash l - cost_lamports b)) l)) = Inr l2"
    and l': "l' = dset ''updated_at'' (PStr (utc_now e 1)) l2"
    by (rule buy_shape)
  show "dget (ledger_positions l) (mint b) = None" "\<not> already_bought b l" "i = uuid4 e 0"
    "strategy_capacity b (ledger_positions l) = Inr ()" by (fact s)+
  let ?meta = "buy_metadata b (uuid4 e 0) n (str_or (signal_detected_at b) (utc_now e 0))
      (str_or (entry_quote_at b) (utc_now e 0)) route"
  let ?p = "opened_position b (utc_now e 0) (str_or (entry_quote_at b) (utc_now e 0)) route price ?meta"
  let ?l0 = "dset ''cash_lamports'' (PInt (cash l - cost_lamports b)) l"
  let ?l1 = "set_position (mint b) ?p (ledger_positions ?l0) ?l0"
  have l0: "wf_ledger ?l0" "ledger_positions ?l0 = ledger_positions l"
    using assms(1) s(3) by (simp_all add: wf_ledger_def)
  have wfp: "wf_position (PDict ?p)" by (rule opened_position_wf [OF assms(3,4)])
  note l1 = wf_set_position [OF l0(1) wfp]
  have cost: "position_cost (PDict ?p) = cost_lamports b"
    by (simp add: ival_def opened_position_fields)
  have held: "held_cost ?l1 = held_cost l + cost_lamports b"
    unfolding held_cost_set_position [OF l0(1)] cost using s(1) by simp
  have ap': "append_event (uuid4 e 1) (buy_event b (utc_now e 0) ?meta) ?l1 = Inr l2"
    using ap by simp
  note k = append_event_keeps [OF l1 buy_event_fields(2) ap']
  show "wf_ledger l'" "cash l' = cash l - cost_lamports b" "held_cost l' = held_cost l + cost_lamports b"
    using k(1) held by (simp_all add: l' wf_ledger_dset_other keeps_money_def set_position_def)
  show "\<exists>t q n price sg q2. ledger_positions l' = dset (mint b) (PDict (opened_position b t q route price
        (buy_metadata b i n sg q2 route))) (ledger_positions l)"
  proof -
    have "ledger_positions l' = dset (mint b) (PDict ?p) (ledger_positions l)"
      using k(2) by (simp add: l' set_position_def)
    then show ?thesis unfolding s(5) by blast
  qed
  show "\<exists>ev. ledger_events l' = ledger_events l @ [PDict ev] \<and> dget ev ''type'' = Some (PStr ''BUY'') \<and>
       dget ev ''mint'' = Some (PStr (mint b)) \<and>
       dget ev ''source_signature'' = Some (opt_str (source_signature b))"
  proof -
    obtain ev where ev: "ledger_events l2 = ledger_events ?l1 @ [PDict ev]"
        "\<forall>k. k \<noteq> ''event_id'' \<longrightarrow> k \<noteq> ''event_seq'' \<longrightarrow>
           dget ev k = dget (rev (buy_event b (utc_now e 0) ?meta)) k"
      using k(4) by blast
    have "dget ev ''type'' = dget (buy_event b (utc_now e 0) ?meta) ''type''"
      "dget ev ''mint'' = dget (buy_event b (utc_now e 0) ?meta) ''mint''"
      "dget ev ''source_signature'' = dget (buy_event b (utc_now e 0) ?meta) ''source_signature''"
      using ev(2) by (simp_all add: dget_rev_distinct [OF buy_event_distinct])
    moreover have "ledger_events l' = ledger_events l @ [PDict ev]"
      using ev(1) by (simp add: l' set_position_def)
    ultimately show ?thesis by (simp only: buy_event_fields) blast
  qed
qed

section \<open>Sales\<close>

lemma sale_cost_bounds:
  fixes cost sold prev :: int
  assumes "0 \<le> cost" "0 < sold" "sold \<le> prev"
  shows "0 \<le> cost * sold div prev" "cost * sold div prev \<le> cost"
    "sold = prev \<Longrightarrow> cost * sold div prev = cost"
proof -
  show "0 \<le> cost * sold div prev" using assms by (simp add: pos_imp_zdiv_nonneg_iff)
  have "cost * sold div prev \<le> cost * prev div prev"
    using assms by (intro zdiv_mono1 mult_left_mono) auto
  then show "cost * sold div prev \<le> cost" using assms by simp
  show "sold = prev \<Longrightarrow> cost * sold div prev = cost" using assms by simp
qed

lemma after_take_profit_fields:
  assumes "after_take_profit r c p = Inr q"
  shows "ival q ''remaining_cost_lamports'' = ival p ''remaining_cost_lamports''"
    "ival q ''token_amount_raw'' = ival p ''token_amount_raw''"
    "dgetn q ''position_id'' = dgetn p ''position_id''"
    "dgetn q ''observation_id'' = dgetn p ''observation_id''"
  using assms by (auto simp: after_take_profit_def Let_def bindE_eq_Inr split: if_splits)

lemma keeps_cost_take_profit:
  assumes "keeps_cost p q"
  shows "keeps_cost p (dset ''take_profit_done'' v q)" "keeps_cost p (dset ''second_take_profit_done'' v q)"
    "keeps_cost p (dset ''break_even_floor_active'' v q)" "keeps_cost p (dset ''break_even_price'' v q)"
    "keeps_cost p (dset ''break_even_required_proceeds_lamports'' v q)"
  by (rule keeps_cost_dset, rule assms; simp add: position_ints_def)+

lemma after_take_profit_wf:
  assumes "after_take_profit r c p = Inr q" "wf_position (PDict p)"
  shows "wf_position (PDict q)"
proof -
  have "keeps_cost p q"
    using assms
    by (auto simp: after_take_profit_def Let_def bindE_eq_Inr keeps_cost_take_profit keeps_cost_mark
        keeps_cost_refl split: if_splits)
  then show ?thesis by (simp add: keeps_cost_def)
qed

text \<open>The position after a sale, before the take-profit bookkeeping.\<close>

definition reduced_position :: "int \<Rightarrow> int \<Rightarrow> int \<Rightarrow> dict \<Rightarrow> dict" where
  "reduced_position amount cost cumulative p =
     dset ''version'' (PInt (ival p ''version'' + 1))
     (dset ''risk_state'' (PStr ''NORMAL'') (dpop ''pending_exit_reason'' (dpop ''pending_exit_id''
       (dset ''cumulative_proceeds_lamports'' (PInt cumulative)
         (dset ''remaining_cost_lamports'' (PInt cost) (dset ''token_amount_raw'' (PInt amount) p))))))"

lemma reduced_position_fields [simp]:
  "ival (reduced_position a c u p) ''token_amount_raw'' = a"
  "ival (reduced_position a c u p) ''remaining_cost_lamports'' = c"
  "dgetn (reduced_position a c u p) ''position_id'' = dgetn p ''position_id''"
  "dgetn (reduced_position a c u p) ''observation_id'' = dgetn p ''observation_id''"
  by (simp_all add: reduced_position_def dgetn_def dget_or_def)

lemma reduced_position_wf:
  assumes "wf_position (PDict p)" "0 < a" "0 \<le> c"
  shows "wf_position (PDict (reduced_position a c u p))"
  unfolding reduced_position_def
  by (intro wf_position_dset_int wf_position_dset wf_position_dpop assms)
    (use assms in \<open>simp_all add: position_ints_def\<close>)

lemma sell_position_shape:
  assumes "wf_ledger l" "wf_position (PDict p)"
    and "sell_position e s i (ival p ''token_amount_raw'') sold p (ledger_positions l) l = Inr ((b, cl), l')"
  defines "amount \<equiv> ival p ''token_amount_raw''" and "cost \<equiv> ival p ''remaining_cost_lamports''"
  defines "released \<equiv> cost * sold div amount"
  obtains roi q n l1 where
    "after_take_profit (sell_reason s) (ival p ''cumulative_proceeds_lamports'' + proceeds_lamports s)
       (reduced_position (amount - sold) (cost - released)
         (ival p ''cumulative_proceeds_lamports'' + proceeds_lamports s) p) = Inr q"
    "append_event (uuid4 e 0) (sell_event (utc_now e 0) s i n sold (proceeds_lamports s - released) roi q)
       (dset ''cash_lamports'' (PInt (cash l + proceeds_lamports s)) l) = Inr l1"
    "b" "cl = (if amount \<le> sold then closed_experiment q i else None)"
    "l' = dset ''updated_at'' (PStr (utc_now e 1)) (dset ''positions''
       (PDict (if amount \<le> sold then dpop (sell_mint s) (ledger_positions l)
               else dset (sell_mint s) (PDict q) (ledger_positions l))) l1)"
proof -
  have wf2: "dsetdefault ''events'' (PList []) (dset ''cash_lamports'' v l) = dset ''cash_lamports'' v l" for v
    using wf_ledgerD(3) [OF assms(1)] by (simp add: dsetdefault_def dhas_def)
  have ver: "bump_version (dset ''risk_state'' a (dpop ''pending_exit_reason'' (dpop ''pending_exit_id''
       (dset ''cumulative_proceeds_lamports'' c (dset ''remaining_cost_lamports'' d
         (dset ''token_amount_raw'' f p)))))) = Inr (dset ''version'' (PInt (ival p ''version'' + 1))
     (dset ''risk_state'' a (dpop ''pending_exit_reason'' (dpop ''pending_exit_id''
       (dset ''cumulative_proceeds_lamports'' c (dset ''remaining_cost_lamports'' d
         (dset ''token_amount_raw'' f p)))))))" for a c d f
    by (simp add: bump_version_def dget_or_def wf_positionD(9) [OF assms(2)])
  show thesis
    using assms(3) wf_positionD(2,4,9) [OF assms(2)] wf_ledgerD(1) [OF assms(1)]
    by (auto simp: sell_position_def Let_def bindE_eq_Inr wf2 ver dget_or_def
        amount_def cost_def released_def reduced_position_def [symmetric] intro!: that)
qed

lemma sell_shape:
  assumes "wf_ledger l" "record_paper_sell_mutate e s l = Inr ((True, cl), l')"
  obtains p sold where
    "dget (ledger_positions l) (sell_mint s) = Some (PDict p)" "wf_position (PDict p)"
    "sold = min (sell_amount s) (ival p ''token_amount_raw'')" "0 < sold"
    "guard_passes (sell_position_id s) (sell_position_id s = Some (py_str (dget_or p ''position_id'' (PStr []))))"
    "guard_passes (sell_exit_id s) (dgetn p ''pending_exit_id'' = opt_str (sell_exit_id s))"
    "sell_position e s (py_str (dget_or p ''position_id'' (PStr []))) (ival p ''token_amount_raw'') sold p
       (ledger_positions l) l = Inr ((True, cl), l')"
proof -
  note run = assms(2) [unfolded record_paper_sell_mutate_def Let_def wf_ledgerD(6) [OF assms(1)]
      wf_ledgerD(5) [OF assms(1)] bindE_simps]
  obtain p where p: "dget (ledger_positions l) (sell_mint s) = Some (PDict p)"
    using run by (auto simp: dgetn_def dget_or_def split: option.splits py.splits)
  have wf: "wf_position (PDict p)" using wf_positionsD [OF wf_ledgerD(7) [OF assms(1)] p] by auto
  show thesis
    using run wf_positionD(1) [OF wf] p
    by (auto simp: dget_or_def split: if_splits intro!: that [OF p wf])
qed

lemma sell_event_fields:
  "dget (sell_event t s i n sold pnl roi q) ''event_seq'' = None"
  "dget (sell_event t s i n sold pnl roi q) ''type'' = Some (PStr ''SELL'')"
  "dget (sell_event t s i n sold pnl roi q) ''mint'' = Some (PStr (sell_mint s))"
  "dget (sell_event t s i n sold pnl roi q) ''position_id'' = Some (PStr i)"
  "dget (sell_event t s i n sold pnl roi q) ''token_amount_raw'' = Some (PInt sold)"
  "dget (sell_event t s i n sold pnl roi q) ''realized_pnl_lamports'' = Some (PInt pnl)"
  "distinct (map fst (sell_event t s i n sold pnl roi q))"
  by (simp_all add: sell_event_def)

text \<open>
  A sale pays its proceeds into the cash and releases a share of the position's cost: the
  share of the units sold, rounded down, and all of it when the position closes.
\<close>

lemma sell_effect:
  assumes "wf_ledger l" "record_paper_sell_mutate e s l = Inr ((True, cl), l')"
    and "0 \<le> proceeds_lamports s"
  obtains p sold released ev where
    "dget (ledger_positions l) (sell_mint s) = Some (PDict p)"
    "sold = min (sell_amount s) (ival p ''token_amount_raw'')" "0 < sold"
    "guard_passes (sell_exit_id s) (dgetn p ''pending_exit_id'' = opt_str (sell_exit_id s))"
    "released = ival p ''remaining_cost_lamports'' * sold div ival p ''token_amount_raw''"
    "wf_ledger l'" "cash l' = cash l + proceeds_lamports s" "held_cost l' = held_cost l - released"
    "ledger_events l' = ledger_events l @ [PDict ev]" "dget ev ''type'' = Some (PStr ''SELL'')"
    "dget ev ''realized_pnl_lamports'' = Some (PInt (proceeds_lamports s - released))"
    "sold = ival p ''token_amount_raw'' \<Longrightarrow> dget (ledger_positions l') (sell_mint s) = None \<and>
       released = ival p ''remaining_cost_lamports''"
    "sold \<noteq> ival p ''token_amount_raw'' \<Longrightarrow> cl = None \<and>
       (\<exists>q. dget (ledger_positions l') (sell_mint s) = Some (PDict q) \<and>
        ival q ''token_amount_raw'' = ival p ''token_amount_raw'' - sold \<and>
        ival q ''remaining_cost_lamports'' = ival p ''remaining_cost_lamports'' - released)"
    "\<And>m. m \<noteq> sell_mint s \<Longrightarrow> dget (ledger_positions l') m = dget (ledger_positions l) m"
proof -
  obtain p sold where p: "dget (ledger_positions l) (sell_mint s) = Some (PDict p)" "wf_position (PDict p)"
      "sold = min (sell_amount s) (ival p ''token_amount_raw'')" "0 < sold"
      "guard_passes (sell_exit_id s) (dgetn p ''pending_exit_id'' = opt_str (sell_exit_id s))"
      "sell_position e s (py_str (dget_or p ''position_id'' (PStr []))) (ival p ''token_amount_raw'') sold p
       (ledger_positions l) l = Inr ((True, cl), l')"
    using assms(1,2) by (rule sell_shape)
  let ?amount = "ival p ''token_amount_raw''" and ?cost = "ival p ''remaining_cost_lamports''"
  let ?released = "?cost * sold div ?amount" and ?i = "py_str (dget_or p ''position_id'' (PStr []))"
  obtain roi n q l1 where q:
    "after_take_profit (sell_reason s) (ival p ''cumulative_proceeds_lamports'' + proceeds_lamports s)
       (reduced_position (?amount - sold) (?cost - ?released)
         (ival p ''cumulative_proceeds_lamports'' + proceeds_lamports s) p) = Inr q"
    and l1: "append_event (uuid4 e 0) (sell_event (utc_now e 0) s ?i n sold (proceeds_lamports s - ?released) roi q)
       (dset ''cash_lamports'' (PInt (cash l + proceeds_lamports s)) l) = Inr l1"
    and "True" and cl: "cl = (if ?amount \<le> sold then closed_experiment q ?i else None)"
    and l': "l' = dset ''updated_at'' (PStr (utc_now e 1)) (dset ''positions''
       (PDict (if ?amount \<le> sold then dpop (sell_mint s) (ledger_positions l)
               else dset (sell_mint s) (PDict q) (ledger_positions l))) l1)"
    by (rule sell_position_shape [OF assms(1) p(2,6)])
  let ?l0 = "dset ''cash_lamports'' (PInt (cash l + proceeds_lamports s)) l"
  have l0: "wf_ledger ?l0" using assms(1,3) by (simp add: wf_ledger_def)
  note k = append_event_keeps [OF l0 sell_event_fields(1) l1]
  have bounds: "0 \<le> ?released" "?released \<le> ?cost" "sold = ?amount \<Longrightarrow> ?released = ?cost" "sold \<le> ?amount"
    using sale_cost_bounds [of ?cost sold ?amount] wf_positionD(11) [OF p(2)] p(3,4) by auto
  have wfq: "wf_position (PDict q)" if "sold < ?amount"
    using that bounds by (intro after_take_profit_wf [OF q] reduced_position_wf p(2)) auto
  note qf = after_take_profit_fields [OF q, simplified]
  let ?ps = "if ?amount \<le> sold then dpop (sell_mint s) (ledger_positions l)
               else dset (sell_mint s) (PDict q) (ledger_positions l)"
  have ps: "ledger_positions l' = ?ps" by (simp add: l')
  have wfps: "wf_positions ?ps"
    using wfq wf_ledgerD(7) [OF assms(1)] by (simp add: wf_positions_dset wf_positions_dpop)
  have wfl1: "wf_ledger l1" using k(1) by (simp add: keeps_money_def)
  then have wfl': "wf_ledger l'" using wfps by (simp add: l' wf_ledger_def)
  have cash: "cash l' = cash l + proceeds_lamports s" using k(1) by (simp add: l' keeps_money_def)
  have "distinct (map fst (ledger_positions l))"
    using wf_ledgerD(7) [OF assms(1)] by (simp add: wf_positions_def)
  then have held: "held_cost l' = held_cost l - ?released"
    using p(1) qf(1) bounds(3,4) by (auto simp: held_cost_def ps sum_list_dset sum_list_dpop)
  obtain ev where ev0: "ledger_events l1 = ledger_events ?l0 @ [PDict ev]"
      "\<forall>k. k \<noteq> ''event_id'' \<longrightarrow> k \<noteq> ''event_seq'' \<longrightarrow> dget ev k =
         dget (rev (sell_event (utc_now e 0) s ?i n sold (proceeds_lamports s - ?released) roi q)) k"
    using k(4) by blast
  have ev: "ledger_events l' = ledger_events l @ [PDict ev]"
      "dget ev ''type'' = Some (PStr ''SELL'')"
      "dget ev ''realized_pnl_lamports'' = Some (PInt (proceeds_lamports s - ?released))"
    using ev0 by (simp_all add: l' dget_rev_distinct [OF sell_event_fields(7)] sell_event_fields)
  have full: "sold = ?amount \<Longrightarrow> dget (ledger_positions l') (sell_mint s) = None \<and> ?released = ?cost"
    using bounds(3) unfolding ps by simp
  have part: "sold \<noteq> ?amount \<Longrightarrow> cl = None \<and>
       (\<exists>q. dget (ledger_positions l') (sell_mint s) = Some (PDict q) \<and>
        ival q ''token_amount_raw'' = ?amount - sold \<and>
        ival q ''remaining_cost_lamports'' = ?cost - ?released)"
    using bounds(4) qf(1,2) unfolding ps cl by simp
  have other: "m \<noteq> sell_mint s \<Longrightarrow> dget (ledger_positions l') m = dget (ledger_positions l) m" for m
    unfolding ps by simp
  show thesis
    by (rule that [OF p(1,3,4,5) refl wfl' cash held ev full part other])
qed

end
