(* ===== verification/LedgerAccounts.thy ===== *)
theory LedgerAccounts
  imports LedgerTrades
begin

text \<open>
  The ledger as a whole: the interface a transaction has to meet for \<open>update_json\<close> to keep
  an invariant of the file, its instances for the transactions of the ledger, and the
  accounts over a run of them.
\<close>

section \<open>Transactions that keep an invariant of the document\<close>

text \<open>What holds of the document of a state file, whatever it is while it is not one.\<close>

definition file_holds :: "(dict \<Rightarrow> bool) \<Rightarrow> state_file \<Rightarrow> bool" where
  "file_holds I f = (case f of Content (PDict d) \<Rightarrow> I d | _ \<Rightarrow> True)"

lemma file_holds_simps [simp]:
  "file_holds I (Content (PDict d)) = I d" "file_holds I Missing" "file_holds I Malformed"
  by (simp_all add: file_holds_def)

lemma read_json_Inr:
  "read_json p f fb = Inr d \<longleftrightarrow> f = Missing \<and> d = fb \<or> f = Content (PDict d)"
  by (cases "(p, f, fb)" rule: read_json.cases) auto

locale kept_by_transaction =
  fixes I :: "dict \<Rightarrow> bool" and m :: "'t mutator"
  assumes transaction: "I d \<Longrightarrow> m d = Inr (r, d') \<Longrightarrow> I d'"
    and version: "I d \<Longrightarrow> I (dset ''version'' (PInt v) d)"
begin

lemma update_keeps:
  assumes "file_holds I f" "I fallback" "update_json p lk f fallback m None = (res, f')"
  shows "file_holds I f'"
proof (cases res)
  case (Inl e)
  then show ?thesis using assms update_json_error [of p lk f fallback m None e f'] by simp
next
  case (Inr x)
  obtain r doc where x: "x = (r, doc)" by (cases x)
  obtain d v d' where d: "read_json p f fallback = Inr d" "m d = Inr (r, d')"
      "f' = Content (PDict doc)" "doc = dset ''version'' (PInt (v + 1)) d'"
    using assms(3) unfolding Inr x update_json_Inr by blast
  have "I d" using d(1) assms(1,2) by (auto simp: read_json_Inr)
  then show ?thesis using d transaction version by simp
qed

end

lemma wf_ledger_version: "wf_ledger l \<Longrightarrow> wf_ledger (dset ''version'' (PInt v) l)"
  by (simp add: wf_ledger_dset_other)

lemma wf_empty_ledger [simp]: "wf_ledger (empty_ledger now)"
  by (simp add: empty_ledger_def wf_ledger_def has_int_def cash_def ival_def INITIAL_PAPER_LAMPORTS_def
      ledger_positions_def ledger_events_def wf_positions_def wf_events_def)

text \<open>Transactions that move no money.\<close>

locale money_kept =
  fixes m :: "'t mutator"
  assumes keeps: "wf_ledger l \<Longrightarrow> m l = Inr (r, l') \<Longrightarrow> keeps_money l l'"
begin

lemma money_update:
  assumes "wf_ledger l" "update_json p lk (Content (PDict l)) fb m None = (res, f')"
  shows "\<exists>l'. f' = Content (PDict l') \<and> keeps_money l l'"
proof (cases res)
  case (Inl e)
  then show ?thesis using assms update_json_error [of p lk _ fb m None e f'] keeps_money_refl by auto
next
  case (Inr x)
  obtain r doc where "x = (r, doc)" by (cases x)
  then obtain v d' where "m l = Inr (r, d')" "f' = Content (PDict (dset ''version'' (PInt (v + 1)) d'))"
    using assms(2) Inr by (auto simp: update_json_Inr)
  then show ?thesis using keeps_money_dset [OF keeps [OF assms(1)]] by auto
qed

end

sublocale money_kept \<subseteq> kept_by_transaction wf_ledger m
  by unfold_locales (auto dest: keeps simp: keeps_money_def wf_ledger_version)

interpretation claim: money_kept "claim_position_exit_mutate e x mt i r" for e x mt i r
  by unfold_locales (rule claim_keeps_money)

interpretation release: money_kept "release_exit_claim_mutate e mt i x d" for e mt i x d
  by unfold_locales (rule release_keeps_money)

interpretation mark: money_kept "record_position_mark_mutate e mt i v" for e mt i v
  by unfold_locales (rule mark_keeps_money)

interpretation break_even: money_kept "ensure_break_even_floor_mutate e mt i" for e mt i
  by unfold_locales (rule floor_keeps_money)

interpretation quote_failure: money_kept "record_quote_failure_mutate e now mt i err" for e now mt i err
  by unfold_locales (rule quote_failure_keeps_money)

interpretation rejection: money_kept "record_paper_rejection_mutate e mt sc rs w sig" for e mt sc rs w sig
  by unfold_locales (rule rejection_keeps_money)

interpretation rpc_skip: money_kept "record_rpc_skip_mutate e mt w sig reason" for e mt w sig reason
  by unfold_locales (rule rpc_skip_keeps_money)

section \<open>Runs of transactions\<close>

text \<open>The transactions of the ledger, as the processes issue them.\<close>

datatype ledger_op =
    Buy "string \<times> f64" buy_request
  | Reject string int "string list" string string
  | Skip string string string string
  | Claim string string string string
  | Release string string string bool
  | Sell sell_request
  | Mark string string int
  | Lifecycle string string "dict list"
  | Floor string string
  | QuoteFailure int string string error_text

text \<open>The profit a sale writes into its event, the last one of the ledger.\<close>

fun event_profit :: "py \<Rightarrow> int" where
  "event_profit (PDict e) = ival e ''realized_pnl_lamports''"
| "event_profit _ = 0"

definition last_profit :: "dict \<Rightarrow> int" where
  "last_profit l = event_profit (last (ledger_events l))"

text \<open>A transaction of the ledger, with the profit it records as its result.\<close>

definition silently :: "'t mutator \<Rightarrow> int mutator" where
  "silently m l = bindE (m l) (\<lambda>(r, l'). Inr (0, l'))"

fun op_mutator :: "env \<Rightarrow> ledger_op \<Rightarrow> int mutator" where
  "op_mutator e (Buy route b) = silently (record_paper_buy_mutate e route b)"
| "op_mutator e (Reject m score reasons wallet sig) =
     silently (record_paper_rejection_mutate e m score reasons wallet sig)"
| "op_mutator e (Skip m wallet sig reason) = silently (record_rpc_skip_mutate e m wallet sig reason)"
| "op_mutator e (Claim x m i r) = silently (claim_position_exit_mutate e x m i r)"
| "op_mutator e (Release m i x d) = silently (release_exit_claim_mutate e m i x d)"
| "op_mutator e (Sell s) = (\<lambda>l. bindE (record_paper_sell_mutate e s l) (\<lambda>((sold, _), l').
     Inr (if sold then last_profit l' else 0, l')))"
| "op_mutator e (Mark m i v) = silently (record_position_mark_mutate e m i v)"
| "op_mutator e (Lifecycle m i items) = silently (record_live_transaction_lifecycle_mutate e m i items)"
| "op_mutator e (Floor m i) = silently (ensure_break_even_floor_mutate e m i)"
| "op_mutator e (QuoteFailure now m i err) = silently (record_quote_failure_mutate e now m i err)"

text \<open>What the callers guarantee of the amounts they pass.\<close>

fun op_valid :: "ledger_op \<Rightarrow> bool" where
  "op_valid (Buy route b) \<longleftrightarrow> 0 < token_amount_raw b \<and> 0 < cost_lamports b"
| "op_valid (Sell s) \<longleftrightarrow> 0 \<le> proceeds_lamports s"
| "op_valid (Lifecycle m i items) \<longleftrightarrow> list_all (\<lambda>item. \<not> dhas item ''event_seq'') items"
| "op_valid _ \<longleftrightarrow> True"

text \<open>A sequence of transactions on the file: a failed one leaves the file and reports no profit.\<close>

fun run_ops :: "(env \<times> ledger_op) list \<Rightarrow> state_file \<Rightarrow> int \<times> state_file" where
  "run_ops [] f = (0, f)"
| "run_ops ((e, op) # ops) f =
     (case update_json ledger_path True f (empty_ledger (utc_now e 0)) (op_mutator e op) None of
        (Inl _, f') \<Rightarrow> run_ops ops f'
      | (Inr (profit, _), f') \<Rightarrow> (let (total, f'') = run_ops ops f' in (profit + total, f'')))"

lemma silently_Inr: "silently m l = Inr (x, l') \<longleftrightarrow> x = 0 \<and> (\<exists>r. m l = Inr (r, l'))"
  by (auto simp: silently_def bindE_eq_Inr)

lemma sell_not_sold:
  assumes "wf_ledger l" "record_paper_sell_mutate e s l = Inr ((False, c), l')"
  shows "l' = l"
proof -
  note run = assms(2) [unfolded record_paper_sell_mutate_def Let_def wf_ledgerD(6) [OF assms(1)]
      wf_ledgerD(5) [OF assms(1)] bindE_simps]
  show ?thesis
  proof (cases "\<exists>p. dgetn (ledger_positions l) (sell_mint s) = PDict p")
    case False
    then show ?thesis using run by (auto split: py.splits)
  next
    case True
    then obtain p where p: "dgetn (ledger_positions l) (sell_mint s) = PDict p" by blast
    then have wf: "wf_position (PDict p)"
      using wf_positionsD [OF wf_ledgerD(7) [OF assms(1)]]
      by (auto simp: dgetn_def dget_or_def split: option.splits)
    have "sell_position e s i (ival p ''token_amount_raw'') sold p (ledger_positions l) l
        \<noteq> Inr ((False, c), l')" for i sold
      using sell_position_shape [OF assms(1) wf] by blast
    then show ?thesis using run p wf_positionD(1) [OF wf]
      by (auto simp: dget_or_def split: if_splits)
  qed
qed

lemma sell_accounts:
  assumes "wf_ledger l" "record_paper_sell_mutate e s l = Inr ((b, c), l')" "0 \<le> proceeds_lamports s"
  shows "wf_ledger l' \<and> cash l' + held_cost l' = cash l + held_cost l + (if b then last_profit l' else 0)"
proof (cases b)
  case False
  then show ?thesis using assms sell_not_sold [of l e s c l'] by simp
next
  case True
  then have run: "record_paper_sell_mutate e s l = Inr ((True, c), l')" using assms(2) by simp
  have "\<exists>released ev. wf_ledger l' \<and> cash l' = cash l + proceeds_lamports s \<and>
    held_cost l' = held_cost l - released \<and> ledger_events l' = ledger_events l @ [PDict ev] \<and>
    dget ev ''realized_pnl_lamports'' = Some (PInt (proceeds_lamports s - released))"
    by (rule sell_effect [OF assms(1) run assms(3)]) blast
  then show ?thesis using True by (auto simp: last_profit_def ival_def)
qed

lemma op_accounts:
  assumes "wf_ledger l" "op_valid op" "op_mutator e op l = Inr (profit, l')"
  shows "wf_ledger l' \<and> cash l' + held_cost l' = cash l + held_cost l + profit"
proof (cases op)
  case (Buy route b)
  then show ?thesis using assms buy_effect(1-3) [of l e route b _ l'] by (auto simp: silently_Inr)
next
  case (Sell s)
  then show ?thesis using assms sell_accounts [of l e s] by (auto simp: bindE_eq_Inr split: if_splits)
next
  case (Lifecycle m i items)
  then show ?thesis using assms lifecycle_keeps_money [of l items e m i _ l']
    by (auto simp: silently_Inr keeps_money_def list_all_iff dhas_def)
qed (use assms in \<open>auto simp: silently_Inr keeps_money_def dest: claim.keeps release.keeps mark.keeps
      break_even.keeps quote_failure.keeps rejection.keeps rpc_skip.keeps\<close>)

lemma run_ops_accounts:
  assumes "wf_ledger l" "\<forall>(e, op) \<in> set ops. op_valid op"
  shows "\<exists>l'. snd (run_ops ops (Content (PDict l))) = Content (PDict l') \<and> wf_ledger l' \<and>
    cash l' + held_cost l' = cash l + held_cost l + fst (run_ops ops (Content (PDict l)))"
  using assms
proof (induction ops arbitrary: l)
  case (Cons eop ops)
  obtain e op where eop: "eop = (e, op)" by (cases eop)
  obtain res f' where u: "update_json ledger_path True (Content (PDict l)) (empty_ledger (utc_now e 0))
      (op_mutator e op) None = (res, f')" by (cases "update_json ledger_path True (Content (PDict l))
      (empty_ledger (utc_now e 0)) (op_mutator e op) None")
  show ?case
  proof (cases res)
    case (Inl x)
    then have "f' = Content (PDict l)" using u update_json_error by blast
    then show ?thesis using Cons u Inl by (simp add: eop)
  next
    case (Inr x)
    then obtain profit doc v d' where d: "x = (profit, doc)" "op_mutator e op l = Inr (profit, d')"
        "f' = Content (PDict (dset ''version'' (PInt (v + 1)) d'))"
      using u by (cases x) (auto simp: update_json_Inr)
    have op: "op_valid op" "\<forall>(e, op) \<in> set ops. op_valid op" using Cons.prems(2) by (auto simp: eop)
    note acc = op_accounts [OF Cons.prems(1) op(1) d(2)]
    let ?l1 = "dset ''version'' (PInt (v + 1)) d'"
    have l1: "wf_ledger ?l1" "cash ?l1 = cash d'" "held_cost ?l1 = held_cost d'"
      using acc by (auto intro: wf_ledger_version)
    obtain l' where l': "snd (run_ops ops (Content (PDict ?l1))) = Content (PDict l')" "wf_ledger l'"
        "cash l' + held_cost l' = cash ?l1 + held_cost ?l1 + fst (run_ops ops (Content (PDict ?l1)))"
      using Cons.IH [OF l1(1) op(2)] by blast
    have "run_ops (eop # ops) (Content (PDict l)) =
        (profit + fst (run_ops ops (Content (PDict ?l1))), Content (PDict l'))"
      using u Inr d l'(1) by (simp add: eop case_prod_beta Let_def)
    then show ?thesis using l' l1(2,3) acc by auto
  qed
qed simp

section \<open>Exit claims\<close>

lemma claim_effect:
  assumes "wf_ledger l" "claim_position_exit_mutate e x m i r l = Inr (Some c, l')"
  obtains p where
    "owned_position (ledger_positions l) m i = Some p" "dgetn p ''risk_state'' \<noteq> PStr ''EXIT_PENDING''"
    "c = (x, ival p ''token_amount_raw'')"
    "\<exists>q. dget (ledger_positions l') m = Some (PDict q) \<and> dgetn q ''risk_state'' = PStr ''EXIT_PENDING'' \<and>
       dgetn q ''pending_exit_id'' = PStr x \<and> dgetn q ''position_id'' = PStr i"
    "wf_ledger l'"
proof -
  obtain p where p: "owned_position (ledger_positions l) m i = Some p"
      "dgetn p ''risk_state'' \<noteq> PStr ''EXIT_PENDING''"
    using assms(2) by (auto simp: claim_position_exit_mutate_def Let_def wf_ledgerD(5,6) [OF assms(1)]
        split: option.splits if_splits)
  note o = owned_positionD [OF p(1)]
  have wf: "wf_position (PDict p)" by (rule owned_wf [OF assms(1) p(1)])
  have "c = (x, ival p ''token_amount_raw'') \<and>
    (\<exists>q. dget (ledger_positions l') m = Some (PDict q) \<and> dgetn q ''risk_state'' = PStr ''EXIT_PENDING'' \<and>
       dgetn q ''pending_exit_id'' = PStr x \<and> dgetn q ''position_id'' = PStr i)"
    using assms(2) p o wf_positionD(1) [OF wf]
    by (auto simp: claim_position_exit_mutate_def Let_def wf_ledgerD(5,6) [OF assms(1)] bindE_eq_Inr
        bump_version_def set_position_def)
  moreover have "wf_ledger l'" using claim.keeps [OF assms] by (simp add: keeps_money_def)
  ultimately show thesis using that p by blast
qed

text \<open>The positions of a ledger, and a position with a pending exit.\<close>

definition pending_exit :: "dict \<Rightarrow> string \<Rightarrow> string \<Rightarrow> bool" where
  "pending_exit l m x \<longleftrightarrow> (\<exists>q. dget (ledger_positions l) m = Some (PDict q) \<and>
     dgetn q ''risk_state'' = PStr ''EXIT_PENDING'' \<and> dgetn q ''pending_exit_id'' = PStr x)"

lemma pending_excludes_claim:
  "wf_ledger l \<Longrightarrow> pending_exit l m x \<Longrightarrow> claim_position_exit_mutate e y m i r l = Inr (None, l)"
  by (auto simp: pending_exit_def claim_position_exit_mutate_def Let_def wf_ledgerD(5,6) owned_position_def
      split: option.split if_split_asm)

lemma pending_excludes_release:
  "wf_ledger l \<Longrightarrow> pending_exit l m x \<Longrightarrow> y \<noteq> x \<Longrightarrow>
   release_exit_claim_mutate e m i y d l = Inr ((), l)"
  by (auto simp: pending_exit_def release_exit_claim_mutate_def Let_def wf_ledgerD(5,6) owned_position_def
      split: option.split if_split_asm)

lemma pending_excludes_sale:
  "wf_ledger l \<Longrightarrow> pending_exit l (sell_mint s) x \<Longrightarrow> sell_exit_id s = Some y \<Longrightarrow> y \<noteq> [] \<Longrightarrow> y \<noteq> x \<Longrightarrow>
   record_paper_sell_mutate e s l = Inr ((False, None), l)"
  by (auto simp: pending_exit_def record_paper_sell_mutate_def Let_def wf_ledgerD(5,6) guard_passes_def
      opt_str_def)

section \<open>Break-even values\<close>

lemma ceiling_least:
  fixes a b v :: int
  assumes "0 < b"
  shows "(a + b - 1) div b \<le> v \<longleftrightarrow> a \<le> v * b"
proof -
  define q r where "q = (a + b - 1) div b" and "r = (a + b - 1) mod b"
  have x: "a + b - 1 = b * q + r" "0 \<le> r" "r < b" using assms by (simp_all add: q_def r_def)
  have "q \<le> v" if "a \<le> v * b"
  proof (rule ccontr)
    assume "\<not> q \<le> v"
    then have "b * (v + 1) \<le> b * q" using assms by (intro mult_left_mono) auto
    with that x show False by (simp add: algebra_simps)
  qed
  moreover have "a \<le> v * b" if "q \<le> v"
  proof -
    have "b * q \<le> b * v" using that assms by (intro mult_left_mono) auto
    then have "a \<le> b * v" using x by linarith
    then show ?thesis by (simp add: mult.commute)
  qed
  ultimately show ?thesis unfolding q_def by blast
qed

text \<open>The value at which the units left recover their share of the entry cost, rounded up.\<close>

lemma legacy_break_even_least:
  assumes "dget p ''entry_token_amount_raw'' = Some (PInt entry)" "dget p ''entry_cost_lamports'' = Some (PInt cost)"
    and "0 < entry" "0 < cost" "0 < amount"
  shows "legacy_break_even_required_value p (Some amount) = Inr ((cost * amount + entry - 1) div entry)"
    and "(cost * amount + entry - 1) div entry \<le> v \<longleftrightarrow> cost * amount \<le> v * entry"
  using assms by (simp_all add: legacy_break_even_required_value_def int_field_def ceiling_least)

text \<open>After a first take-profit sale the break-even value is what the entry cost still lacks.\<close>

lemma first_take_profit_floor:
  assumes "after_take_profit r cumulative p = Inr q" "r \<in> set first_take_profit_reasons"
    and "dget p ''entry_cost_lamports'' = Some (PInt cost)"
  shows "break_even_required_value q n = Inr (max 0 (cost - cumulative))"
    and "dget q ''take_profit_done'' = Some (PBool True)"
  using assms
  by (auto simp: after_take_profit_def Let_def bindE_eq_Inr break_even_required_value_def dhas_def
      int_field_def)

section \<open>Migration of current documents\<close>

lemma add_missing_eq:
  "add_missing k v (c, d) = (c \<or> \<not> dhas d k, dsetdefault k v d)"
  by (auto simp: add_missing_def dsetdefault_def)

definition position_keys :: "string list" where
  "position_keys = [''route_type'', ''dex_momentum_score'', ''strategy_version'', ''observation_id'',
     ''break_even_price'', ''break_even_required_proceeds_lamports'', ''cumulative_proceeds_lamports'',
     ''post_tp_peak_exit_value_lamports'', ''post_tp_trailing_stop_ratio'']"

definition current_position :: "dict \<Rightarrow> bool" where
  "current_position p \<longleftrightarrow> list_all (dhas p) position_keys"

lemma dsetdefault_has [simp]:
  "dhas d k \<Longrightarrow> dsetdefault k v d = d" "dhas (dsetdefault k v d) k' \<longleftrightarrow> k' = k \<or> dhas d k'"
  by (auto simp: dsetdefault_def)

lemma migrate_current_position: "current_position p \<Longrightarrow> migrate_position_v2 c p = Inr (c, p)"
  by (simp add: current_position_def position_keys_def migrate_position_v2_def add_missing_eq
      fill_break_even_price_def fill_break_even_required_def)

lemma fill_break_even_has:
  "fill_break_even_price s = Inr (c, q) \<Longrightarrow>
     dhas q ''break_even_price'' \<and> (\<forall>k. dhas (snd s) k \<longrightarrow> dhas q k)"
  "fill_break_even_required s = Inr (c, q) \<Longrightarrow>
     dhas q ''break_even_required_proceeds_lamports'' \<and> (\<forall>k. dhas (snd s) k \<longrightarrow> dhas q k)"
  by (auto simp: fill_break_even_price_def fill_break_even_required_def bindE_eq_Inr
      split: prod.splits if_split_asm)

lemma migrated_position_current:
  assumes "migrate_position_v2 c p = Inr (c', q)"
  shows "current_position q"
proof -
  obtain c1 p1 c2 p2 where
    p1: "fill_break_even_price (add_missing ''observation_id'' PNone
          (add_missing ''strategy_version'' (PStr ''baseline_v1'')
            (add_missing ''dex_momentum_score'' (PFloat (Fin 0))
              (add_missing ''route_type'' (PStr ''A'') (c, p))))) = Inr (c1, p1)"
    and p2: "fill_break_even_required (c1, p1) = Inr (c2, p2)"
    and q: "q = dsetdefault ''post_tp_trailing_stop_ratio'' (PFloat (float_lit (1 / 2)))
         (dsetdefault ''post_tp_peak_exit_value_lamports'' (PInt 0)
           (dsetdefault ''cumulative_proceeds_lamports'' (PInt 0) p2))"
    using assms unfolding migrate_position_v2_def
    by (auto simp: add_missing_eq bindE_eq_Inr)
  note 1 = fill_break_even_has(1) [OF p1] and 2 = fill_break_even_has(2) [OF p2]
  have "dhas p1 ''route_type''" "dhas p1 ''dex_momentum_score''" "dhas p1 ''strategy_version''"
    "dhas p1 ''observation_id''" "dhas p1 ''break_even_price''"
    using 1 by (simp_all add: add_missing_eq)
  then show ?thesis using 2
    by (simp add: q current_position_def position_keys_def)
qed

definition current_event :: "dict \<Rightarrow> bool" where
  "current_event e \<longleftrightarrow> (\<exists>b. in_string_set (dgetn e ''type'') [''BUY'', ''SELL''] = Inr b \<and>
     (b \<longrightarrow> dhas e ''strategy_version'' \<and> dhas e ''observation_id'')) \<and>
     (dgetn e ''type'' = PStr ''BUY'' \<longrightarrow> dhas e ''route_type'' \<and> dhas e ''dex_momentum_score'')"

lemma dgetn_dsetdefault: "k \<noteq> k' \<Longrightarrow> dgetn (dsetdefault k v d) k' = dgetn d k'"
  by (simp add: dsetdefault_def)

lemma migrate_current_event: "current_event e \<Longrightarrow> migrate_event_v2 c e = Inr (c, e)"
  by (auto simp: current_event_def migrate_event_v2_def Let_def add_missing_eq)

lemma migrated_event_current:
  assumes "migrate_event_v2 c e = Inr (c', q)"
  shows "current_event q"
proof (cases "dgetn e ''type'' = PStr ''BUY''")
  case True
  have q: "q = dsetdefault ''observation_id'' PNone (dsetdefault ''strategy_version'' (PStr ''baseline_v1'')
      (dsetdefault ''dex_momentum_score'' (PFloat (Fin 0)) (dsetdefault ''route_type'' (PStr ''A'') e)))"
    using assms True by (simp add: migrate_event_v2_def add_missing_eq dgetn_dsetdefault)
  have t: "in_string_set (dgetn q ''type'') [''BUY'', ''SELL''] = Inr True"
    using True by (simp add: q dgetn_dsetdefault)
  have "dhas q ''strategy_version''" "dhas q ''observation_id''" "dhas q ''route_type''"
    "dhas q ''dex_momentum_score''" by (simp_all add: q)
  with t show ?thesis unfolding current_event_def by blast
next
  case False
  then obtain b where b: "in_string_set (dgetn e ''type'') [''BUY'', ''SELL''] = Inr b"
    using assms by (simp add: migrate_event_v2_def bindE_eq_Inr) blast
  have q: "q = (if b then dsetdefault ''observation_id'' PNone
         (dsetdefault ''strategy_version'' (PStr ''baseline_v1'') e) else e)"
    using assms b False by (cases b) (simp_all add: migrate_event_v2_def add_missing_eq)
  have "dgetn q ''type'' = dgetn e ''type''" by (simp add: q dgetn_dsetdefault)
  with b False show ?thesis by (simp add: current_event_def) (simp add: q)
qed

lemma fold_dicts_idem:
  assumes "\<And>c e c' q. f c e = Inr (c', q) \<Longrightarrow> P q" "\<And>c e. P e \<Longrightarrow> f c e = Inr (c, e)"
  shows "fold_dicts f c es = Inr (c', es') \<Longrightarrow> fold_dicts f a es' = Inr (a, es')"
proof (induction es arbitrary: c c' es' a)
  case (Cons v es)
  then show ?case
    by (cases v) (auto simp: bindE_eq_Inr assms(2) dest!: assms(1))
qed simp

lemma fold_values_idem:
  assumes "\<And>c k e c' q. f c k e = Inr (c', q) \<Longrightarrow> P q" "\<And>c k e. P e \<Longrightarrow> f c k e = Inr (c, e)"
  shows "fold_values f c d = Inr (c', d') \<Longrightarrow> fold_values f a d' = Inr (a, d')"
proof (induction d arbitrary: c c' d' a)
  case (Cons kv d)
  obtain k v where "kv = (k, v)" by (cases kv)
  with Cons show ?case
    by (cases v) (auto simp: bindE_eq_Inr assms(2) dest!: assms(1))
qed simp

lemma fold_iter_idem:
  assumes "\<And>c e c' q. f c e = Inr (c', q) \<Longrightarrow> P q" "\<And>c e. P e \<Longrightarrow> f c e = Inr (c, e)"
    and "fold_iter f c v = Inr (c', v')"
  shows "fold_iter f a v' = Inr (a, v')"
proof (cases v)
  case (PList es)
  then obtain es' where "v' = PList es'" "fold_dicts f c es = Inr (c', es')"
    using assms(3) by (auto simp: bindE_eq_Inr)
  then show ?thesis using fold_dicts_idem [of f P c es c' es' a] assms(1,2) by simp
qed (use assms(3) in auto)

text \<open>Writing back the lists of the walk: only where the document has them.\<close>

definition write_back :: "string \<Rightarrow> py \<Rightarrow> dict \<Rightarrow> dict" where
  "write_back k v d = (if dhas d k then dset k v d else d)"

lemma write_back_get:
  "dget_or (write_back k v d) k w = (if dhas d k then v else w)"
  "k' \<noteq> k \<Longrightarrow> dget_or (write_back k v d) k' w = dget_or d k' w"
  "dhas (write_back k v d) k' = dhas d k'"
  by (auto simp: write_back_def dget_or_def dhas_def)

lemma write_back_same: "dget_or d k v = v \<Longrightarrow> write_back k v d = d"
  by (auto simp: write_back_def dhas_def intro!: dset_same)

lemma migrate_v2_eq:
  "migrate_v2 now d =
     bindE (as_dict (dget_or d ''positions'' (PDict []))) (\<lambda>positions.
     bindE (fold_values (\<lambda>c k p. migrate_position_v2 c p) False positions) (\<lambda>(changed, positions).
     bindE (fold_iter migrate_event_v2 changed (dget_or d ''events'' (PList []))) (\<lambda>(changed, events).
       let document = write_back ''events'' events (write_back ''positions'' (PDict positions) d)
       in Inr (changed, if changed then dset ''updated_at'' (PStr now) document else document))))"
  by (simp add: migrate_v2_def write_back_def Let_def)

lemma fold_values_Nil: "fold_values f c [] = Inr (c, [])"
  by simp

lemma migrate_v2_idem:
  assumes "migrate_v2 now d = Inr (c, d')"
  shows "migrate_v2 now' d' = Inr (False, d')"
proof -
  obtain ps c1 ps' es' where s: "as_dict (dget_or d ''positions'' (PDict [])) = Inr ps"
      "fold_values (\<lambda>c k p. migrate_position_v2 c p) False ps = Inr (c1, ps')"
      "fold_iter migrate_event_v2 c1 (dget_or d ''events'' (PList [])) = Inr (c, es')"
    and d': "d' = (let document = write_back ''events'' es' (write_back ''positions'' (PDict ps') d)
       in if c then dset ''updated_at'' (PStr now) document else document)"
    using assms by (clarsimp simp: migrate_v2_eq bindE_eq_Inr Let_def)
  have ps: "fold_values (\<lambda>c k p. migrate_position_v2 c p) False ps' = Inr (False, ps')"
    by (rule fold_values_idem [where P = current_position, OF _ _ s(2)])
      (auto dest: migrated_position_current intro: migrate_current_position)
  have es: "fold_iter migrate_event_v2 False es' = Inr (False, es')"
    by (rule fold_iter_idem [where P = current_event, OF _ _ s(3)])
      (auto dest: migrated_event_current intro: migrate_current_event)
  have "\<not> dhas d ''positions'' \<Longrightarrow> ps' = []" "\<not> dhas d ''events'' \<Longrightarrow> es' = PList []"
    using s by (auto simp: dhas_def)
  then have g: "dget_or d' ''positions'' (PDict []) = PDict ps'" "dget_or d' ''events'' (PList []) = es'"
    "dget_or d' ''positions'' (PDict ps') = PDict ps'" "dget_or d' ''events'' es' = es'"
    by (simp_all add: d' Let_def write_back_get)
  show ?thesis
    by (simp add: migrate_v2_eq g(1,2) ps es write_back_same [OF g(3)] write_back_same [OF g(4)])
qed

text \<open>The migration of a current document moves no money.\<close>

lemma fill_break_even_keeps:
  assumes "keeps_cost p0 p"
  shows "fill_break_even_price (c, p) = Inr (c', q) \<Longrightarrow> keeps_cost p0 q"
    and "fill_break_even_required (c, p) = Inr (c', q) \<Longrightarrow> keeps_cost p0 q"
  using assms
  by (auto simp: fill_break_even_price_def fill_break_even_required_def bindE_eq_Inr keeps_cost_take_profit
      split: if_split_asm)

lemma keeps_cost_default:
  assumes "keeps_cost p q"
  shows "k \<notin> set position_ints \<Longrightarrow> k \<noteq> ''position_id'' \<Longrightarrow> keeps_cost p (dsetdefault k v q)"
    and "k \<in> set position_ints \<Longrightarrow> k \<noteq> ''token_amount_raw'' \<Longrightarrow> k \<noteq> ''remaining_cost_lamports'' \<Longrightarrow>
      keeps_cost p (dsetdefault k (PInt i) q)"
  using assms by (simp_all add: dsetdefault_def keeps_cost_dset keeps_cost_dset_int)

lemma migrate_position_keeps:
  assumes "migrate_position_v2 c p = Inr (c', q)" "wf_position (PDict p)"
  shows "keeps_cost p q"
proof -
  obtain c1 p1 c2 p2 where
    p1: "fill_break_even_price (add_missing ''observation_id'' PNone
          (add_missing ''strategy_version'' (PStr ''baseline_v1'')
            (add_missing ''dex_momentum_score'' (PFloat (Fin 0))
              (add_missing ''route_type'' (PStr ''A'') (c, p))))) = Inr (c1, p1)"
    and p2: "fill_break_even_required (c1, p1) = Inr (c2, p2)"
    and q: "q = dsetdefault ''post_tp_trailing_stop_ratio'' (PFloat (float_lit (1 / 2)))
         (dsetdefault ''post_tp_peak_exit_value_lamports'' (PInt 0)
           (dsetdefault ''cumulative_proceeds_lamports'' (PInt 0) p2))"
    using assms(1) unfolding migrate_position_v2_def
    by (auto simp: add_missing_eq bindE_eq_Inr)
  note d = keeps_cost_default(1)
  have "keeps_cost p (dsetdefault ''observation_id'' PNone (dsetdefault ''strategy_version'' (PStr ''baseline_v1'')
      (dsetdefault ''dex_momentum_score'' (PFloat (Fin 0)) (dsetdefault ''route_type'' (PStr ''A'') p))))"
    by (rule d, rule d, rule d, rule d, rule keeps_cost_refl [OF assms(2)]) (simp_all add: position_ints_def)
  from fill_break_even_keeps(1) [OF this] have "keeps_cost p p1" using p1 by (simp add: add_missing_eq)
  from fill_break_even_keeps(2) [OF this p2] have p2: "keeps_cost p p2" .
  show ?thesis unfolding q
    by (rule keeps_cost_default(1), rule keeps_cost_default(2), rule keeps_cost_default(2), rule p2)
      (simp_all add: position_ints_def)
qed

lemma migrate_positions_keep:
  assumes "fold_values (\<lambda>c k p. migrate_position_v2 c p) c ps = Inr (c', ps')" "wf_positions ps"
  shows "map fst ps' = map fst ps" "list_all (\<lambda>kv. wf_position (snd kv)) ps'"
    "(\<Sum>kv\<leftarrow>ps'. position_cost (snd kv)) = (\<Sum>kv\<leftarrow>ps. position_cost (snd kv))"
proof -
  have "map fst ps' = map fst ps \<and> list_all (\<lambda>kv. wf_position (snd kv)) ps' \<and>
    (\<Sum>kv\<leftarrow>ps'. position_cost (snd kv)) = (\<Sum>kv\<leftarrow>ps. position_cost (snd kv))"
    using assms(1) assms(2) [unfolded wf_positions_def, THEN conjunct2]
  proof (induction ps arbitrary: c ps')
    case (Cons kv ps)
    obtain k v where kv: "kv = (k, v)" by (cases kv)
    obtain p where v: "v = PDict p" "wf_position (PDict p)" using Cons.prems(2) kv by (cases v) (auto simp: wf_position.simps)
    obtain c1 q ps1 where q: "migrate_position_v2 c p = Inr (c1, q)"
        "fold_values (\<lambda>c k p. migrate_position_v2 c p) c1 ps = Inr (c', ps1)" "ps' = (k, PDict q) # ps1"
      using Cons.prems(1) by (auto simp: kv v bindE_eq_Inr)
    have "keeps_cost p q" by (rule migrate_position_keeps [OF q(1) v(2)])
    with Cons.IH [OF q(2)] Cons.prems(2) show ?case by (simp add: kv v q(3) keeps_cost_def)
  qed simp
  then show "map fst ps' = map fst ps" "list_all (\<lambda>kv. wf_position (snd kv)) ps'"
    "(\<Sum>kv\<leftarrow>ps'. position_cost (snd kv)) = (\<Sum>kv\<leftarrow>ps. position_cost (snd kv))" by blast+
qed

lemma add_missing_seq:
  "k \<noteq> ''event_seq'' \<Longrightarrow> dget (snd (add_missing k v s)) ''event_seq'' = dget (snd s) ''event_seq''"
  by (cases s) (simp add: add_missing_eq)

lemma migrate_event_seq:
  assumes "migrate_event_v2 c e = Inr (c', q)"
  shows "dget q ''event_seq'' = dget e ''event_seq''"
proof -
  have "(c', q) = s \<Longrightarrow> dget q ''event_seq'' = dget (snd s) ''event_seq''" for s by auto
  note snd = this
  show ?thesis
  proof (cases "dgetn e ''type'' = PStr ''BUY''")
    case True
    then have "(c', q) = add_missing ''observation_id'' PNone (add_missing ''strategy_version'' (PStr ''baseline_v1'')
        (add_missing ''dex_momentum_score'' (PFloat (Fin 0)) (add_missing ''route_type'' (PStr ''A'') (c, e))))"
      using assms by (simp add: migrate_event_v2_def add_missing_eq dgetn_dsetdefault)
    from snd [OF this] show ?thesis by (simp add: add_missing_seq)
  next
    case False
    then obtain t where "in_string_set (dgetn e ''type'') [''BUY'', ''SELL''] = Inr t"
      using assms by (simp add: migrate_event_v2_def bindE_eq_Inr) blast
    with False assms have "(c', q) = (if t then add_missing ''observation_id'' PNone
        (add_missing ''strategy_version'' (PStr ''baseline_v1'') (c, e)) else (c, e))"
      by (cases t) (simp_all add: migrate_event_v2_def)
    from snd [OF this] show ?thesis by (simp add: add_missing_seq)
  qed
qed

lemma migrate_events_keep:
  assumes "fold_dicts migrate_event_v2 c es = Inr (c', es')" "wf_events es n"
  shows "wf_events es' n"
proof -
  have "map event_seq_of es' = map event_seq_of es \<and> list_all wf_event es'"
    using assms(1) assms(2) [unfolded wf_events_def, THEN conjunct1]
  proof (induction es arbitrary: c es')
    case (Cons v es)
    obtain e where v: "v = PDict e" "has_int e ''event_seq''" using Cons.prems(2) by (cases v) auto
    obtain c1 q es1 where q: "migrate_event_v2 c e = Inr (c1, q)"
        "fold_dicts migrate_event_v2 c1 es = Inr (c', es1)" "es' = PDict q # es1"
      using Cons.prems(1) by (auto simp: v bindE_eq_Inr)
    then show ?case using Cons.IH [OF q(2)] Cons.prems(2) migrate_event_seq [OF q(1)]
      by (simp add: v ival_def has_int_def)
  qed simp
  then show ?thesis using assms(2) by (simp add: wf_events_def)
qed

lemma migrate_v2_keeps_money:
  assumes "wf_ledger l" "migrate_v2 now l = Inr (c, l')"
  shows "keeps_money l l'"
proof -
  obtain ps' c1 es' where s: "fold_values (\<lambda>c k p. migrate_position_v2 c p) False (ledger_positions l) = Inr (c1, ps')"
      "fold_dicts migrate_event_v2 c1 (ledger_events l) = Inr (c, es')"
    and l': "l' = (let document = dset ''events'' (PList es') (dset ''positions'' (PDict ps') l)
       in if c then dset ''updated_at'' (PStr now) document else document)"
    using assms(2) wf_ledgerD(2,3) [OF assms(1)]
    by (clarsimp simp: migrate_v2_eq bindE_eq_Inr Let_def write_back_def dhas_def)
  note ps = migrate_positions_keep [OF s(1) wf_ledgerD(7) [OF assms(1)]]
  let ?d = "dset ''events'' (PList es') (dset ''positions'' (PDict ps') l)"
  have "wf_events es' (ival l ''next_event_seq'')"
    using assms(1) by (intro migrate_events_keep [OF s(2)]) (simp add: wf_ledger_def)
  then have "keeps_money l ?d"
    using assms(1) ps by (simp add: keeps_money_def wf_ledger_def held_cost_def wf_positions_def)
  then show ?thesis by (auto simp: l' Let_def intro: keeps_money_dset)
qed

section \<open>The operations on the file\<close>

text \<open>The ledger a process reads: an absent file is the empty ledger.\<close>

definition file_ledger :: "state_file \<Rightarrow> dict" where
  "file_ledger f = (case f of Content (PDict l) \<Rightarrow> l | _ \<Rightarrow> empty_ledger [])"

lemma file_ledger_simps [simp]:
  "file_ledger (Content (PDict l)) = l" "file_ledger Missing = empty_ledger []"
  by (simp_all add: file_ledger_def)

lemma wf_file_ledger: "file_holds wf_ledger f \<Longrightarrow> wf_ledger (file_ledger f)"
  by (auto simp: file_holds_def file_ledger_def split: state_file.split py.split)

lemma empty_ledger_money [simp]:
  "cash (empty_ledger t) = INITIAL_PAPER_LAMPORTS" "held_cost (empty_ledger t) = 0"
  "ledger_positions (empty_ledger t) = []" "ledger_events (empty_ledger t) = []"
  by (simp_all add: empty_ledger_def cash_def ival_def held_cost_def ledger_positions_def ledger_events_def)

definition same_money :: "dict \<Rightarrow> dict \<Rightarrow> bool" where
  "same_money l l' \<longleftrightarrow> cash l' = cash l \<and> held_cost l' = held_cost l"

lemma read_file_ledger:
  assumes "file_holds wf_ledger f" "read_json p f (empty_ledger t) = Inr d"
  shows "wf_ledger d" "same_money (file_ledger f) d"
  using assms by (auto simp: read_json_Inr same_money_def)

lemma wf_int_field_schema: "wf_ledger l \<Longrightarrow> \<exists>v \<ge> 2. int_field l ''schema_version'' 1 = Inr v"
  using has_intE [of l "''schema_version''"]
  by (auto simp: wf_ledger_def int_field_def py_or_def)

lemma migrate_document_keeps:
  assumes "wf_ledger l" "migrate_ledger_document e l = Inr (c, l')"
  shows "keeps_money l l'"
  using assms wf_int_field_schema [OF assms(1)]
  by (auto simp: migrate_ledger_document_def intro: migrate_v2_keeps_money)

interpretation migration: money_kept "migrate_ledger_document e" for e
  by unfold_locales (rule migrate_document_keeps)

lemma ensure_migrated_keeps:
  assumes "file_holds wf_ledger f" "ensure_ledger_migrated e lk f = (res, f')"
  shows "file_holds wf_ledger f' \<and> same_money (file_ledger f) (file_ledger f')"
proof (cases "f' = f")
  case True
  then show ?thesis using assms(1) by (simp add: same_money_def)
next
  case False
  then obtain d c d1 v where d: "read_json ledger_path f (empty_ledger (utc_now e 0)) = Inr d"
      "migrate_ledger_document (later 1 e) d = Inr (c, d1)"
      "f' = Content (PDict (dset ''version'' (PInt (v + 1)) d1))"
    using assms(2) by (auto simp: ensure_ledger_migrated_def migrate_json_def locked_def bindE_eq_Inr Let_def
        split: sum.splits if_splits)
  note r = read_file_ledger [OF assms(1) d(1)]
  have "keeps_money d d1" by (rule migration.keeps [OF r(1) d(2)])
  then show ?thesis using d(3) r(2) by (simp add: keeps_money_def same_money_def wf_ledger_version)
qed

text \<open>One transaction after the migration, on a file that holds a well-formed ledger.\<close>

lemma migrated_update_cases:
  assumes "file_holds wf_ledger f" "migrated_update e lk1 lk2 f m = (res, f')"
  obtains (failed) x where "res = Inl x" "file_holds wf_ledger f'" "same_money (file_ledger f) (file_ledger f')"
  | (committed) d r d' v where "res = Inr r" "wf_ledger d" "same_money (file_ledger f) d" "m d = Inr (r, d')"
      "f' = Content (PDict (dset ''version'' (PInt v) d'))"
proof -
  obtain r1 f1 where e: "ensure_ledger_migrated e lk1 f = (r1, f1)"
    by (cases "ensure_ledger_migrated e lk1 f")
  note k = ensure_migrated_keeps [OF assms(1) e]
  show thesis
  proof (cases r1)
    case (Inl x)
    then show thesis using assms(2) e k by (intro failed [of x]) (auto simp: migrated_update_def)
  next
    case (Inr d0)
    obtain u f2 where u: "update_json ledger_path lk2 f1 (empty_ledger (utc_now e 2)) m None = (u, f2)"
      by (cases "update_json ledger_path lk2 f1 (empty_ledger (utc_now e 2)) m None")
    show thesis
    proof (cases u)
      case Inl2: (Inl x)
      then have "f2 = f1" using u update_json_error by blast
      then show thesis using assms(2) e k Inr u Inl2 by (intro failed [of x]) (auto simp: migrated_update_def)
    next
      case Inr2: (Inr y)
      obtain r doc where y: "y = (r, doc)" by (cases y)
      obtain d v d' where d: "read_json ledger_path f1 (empty_ledger (utc_now e 2)) = Inr d"
          "m d = Inr (r, d')" "f2 = Content (PDict (dset ''version'' (PInt (v + 1)) d'))"
        using u Inr2 y by (auto simp: update_json_Inr)
      have "file_holds wf_ledger f1" using k by blast
      note rd = read_file_ledger [OF this d(1)]
      have "same_money (file_ledger f) d" using rd(2) k by (simp add: same_money_def)
      then show thesis using assms(2) e Inr u Inr2 y d rd(1) committed [of r d d' "v + 1"]
        by (simp add: migrated_update_def)
    qed
  qed
qed

lemma record_paper_buy_migrated:
  assumes "record_paper_buy e lk1 lk2 f b = (res, f')"
  shows "f' = f \<and> (\<exists>x. res = Inl x) \<or>
    (0 < token_amount_raw b \<and> 0 < cost_lamports b \<and>
     ((\<exists>r. ensure_ledger_migrated e lk1 f = (r, f') \<and> (\<exists>x. res = Inl x)) \<or>
      (\<exists>route. normalized_route_metadata (route_type b) (dex_momentum_score b) = Inr route \<and>
         migrated_update e lk1 lk2 f (record_paper_buy_mutate (later 3 e) route b) = (res, f'))))"
proof -
  obtain r1 f1 where e: "ensure_ledger_migrated e lk1 f = (r1, f1)"
    by (cases "ensure_ledger_migrated e lk1 f")
  show ?thesis
  proof (cases "cost_lamports b \<le> 0 \<or> token_amount_raw b \<le> 0 \<or> f64_lt (entry_price_impact b) (Fin 0) \<or>
      f64_lt MAX_ENTRY_PRICE_IMPACT_PCT (entry_price_impact b)")
    case True
    then have "f' = f \<and> (\<exists>x. res = Inl x)"
      using assms by (auto simp: record_paper_buy_def simp del: append.simps split: if_split_asm)
    then show ?thesis ..
  next
    case False
    note run = assms [unfolded record_paper_buy_def e]
    show ?thesis
    proof (cases r1)
      case (Inl x)
      then show ?thesis using run False e by auto
    next
      case (Inr d)
      show ?thesis
      proof (cases "normalized_route_metadata (route_type b) (dex_momentum_score b)")
        case (Inr route)
        have "migrated_update e lk1 lk2 f (record_paper_buy_mutate (later 3 e) route b) = (res, f')"
          using run False \<open>r1 = Inr d\<close> Inr by (simp add: migrated_update_def e)
        then show ?thesis using False Inr by auto
      qed (use run False e \<open>r1 = Inr d\<close> in auto)
    qed
  qed
qed

definition bought :: "buy_request \<Rightarrow> dict \<Rightarrow> dict \<Rightarrow> bool" where
  "bought b l l' \<longleftrightarrow> cash l' = cash l - cost_lamports b \<and> held_cost l' = held_cost l + cost_lamports b \<and>
     dhas (ledger_positions l') (mint b)"

lemma record_paper_buy_file:
  assumes "file_holds wf_ledger f" "record_paper_buy e lk1 lk2 f b = (res, f')"
  shows "file_holds wf_ledger f' \<and> (case res of Inl _ \<Rightarrow> same_money (file_ledger f) (file_ledger f')
     | Inr i \<Rightarrow> bought b (file_ledger f) (file_ledger f'))"
proof -
  consider (same) x where "f' = f" "res = Inl x"
    | (migrated) r x where "ensure_ledger_migrated e lk1 f = (r, f')" "res = Inl x"
    | (update) route where "0 < token_amount_raw b" "0 < cost_lamports b"
        "migrated_update e lk1 lk2 f (record_paper_buy_mutate (later 3 e) route b) = (res, f')"
    using record_paper_buy_migrated [OF assms(2)] by blast
  then show ?thesis
  proof cases
    case same
    then show ?thesis using assms(1) by (simp add: same_money_def)
  next
    case migrated
    then show ?thesis using ensure_migrated_keeps [OF assms(1)] by simp
  next
    case update
    show ?thesis
    proof (cases rule: migrated_update_cases [OF assms(1) update(3)])
      case 1
      then show ?thesis by simp
    next
      case (2 d i d' v)
      have "0 \<le> cost_lamports b" using update(2) by simp
      note b = buy_effect(1,2,3,8) [OF 2(2,4) update(1) this]
      have "dhas (ledger_positions d') (mint b)" using b(4) by (auto simp: dhas_def)
      then show ?thesis using 2(1,3,5) b(1-3)
        by (simp add: bought_def same_money_def wf_ledger_version)
    qed
  qed
qed

lemma record_paper_sell_file:
  assumes "file_holds wf_ledger f" "record_paper_sell e lk1 lk2 f s = (res, f')" "0 \<le> proceeds_lamports s"
  shows "file_holds wf_ledger f' \<and>
    (case res of Inr (True, _) \<Rightarrow> cash (file_ledger f') = cash (file_ledger f) + proceeds_lamports s \<and>
         cash (file_ledger f') + held_cost (file_ledger f') =
           cash (file_ledger f) + held_cost (file_ledger f) + last_profit (file_ledger f')
     | _ \<Rightarrow> same_money (file_ledger f) (file_ledger f'))"
proof (cases rule: migrated_update_cases [OF assms(1) assms(2) [unfolded record_paper_sell_def]])
  case 1
  then show ?thesis by simp
next
  case (2 d r d' v)
  obtain sold c where r: "r = (sold, c)" by (cases r)
  note acc = sell_accounts [OF 2(2) 2(4) [unfolded r] assms(3)]
  have lp: "last_profit (dset ''version'' (PInt v) d') = last_profit d'" by (simp add: last_profit_def)
  show ?thesis
  proof (cases sold)
    case True
    then have "record_paper_sell_mutate (later 3 e) s d = Inr ((True, c), d')" using 2(4) r by simp
    then have "cash d' = cash d + proceeds_lamports s"
      by (rule sell_effect [OF 2(2) _ assms(3)]) blast
    then show ?thesis using 2(1,3,5) r True acc lp
      by (simp add: same_money_def wf_ledger_version)
  next
    case False
    then have "d' = d" using sell_not_sold [OF 2(2)] 2(4) r by simp
    then show ?thesis using 2(1,2,3,5) r False
      by (simp add: same_money_def wf_ledger_version)
  qed
qed

section \<open>Capacity of a strategy\<close>

lemma open_strategy_count_dset:
  "dget ps m = None \<Longrightarrow> open_strategy_count strategy (dset m v ps) =
     open_strategy_count strategy ps + (if runs_strategy strategy v then 1 else 0)"
  by (simp add: dset_fresh open_strategy_count_def)

lemma strategy_of_nonempty: "strategy_of b \<noteq> []"
  by (simp add: strategy_of_def)

lemma capacity_after_buy:
  assumes "wf_ledger l" "record_paper_buy_mutate e route b l = Inr (i, l')"
    and "0 < token_amount_raw b" "0 \<le> cost_lamports b" "max_strategy_open_positions b = Some n"
  shows "open_strategy_count (strategy_of b) (ledger_positions l') \<le> n"
proof -
  note b = buy_effect [OF assms(1-4)]
  obtain t q k price sg q2 where ps: "ledger_positions l' = dset (mint b) (PDict (opened_position b t q route price
        (buy_metadata b i k sg q2 route))) (ledger_positions l)"
    using b(8) by blast
  have "open_strategy_count (strategy_of b) (ledger_positions l) < n"
    using b(7) assms(5) by (simp add: strategy_capacity_def split: if_splits)
  moreover have "runs_strategy (strategy_of b) (PDict (opened_position b t q route price
        (buy_metadata b i k sg q2 route)))"
    by (simp add: str_field_def opened_position_fields strategy_of_nonempty)
  ultimately show ?thesis using b(4) by (simp add: ps open_strategy_count_dset)
qed


section \<open>A sample ledger\<close>

definition sample_env :: env where
  "sample_env = \<lparr>utc_now = (\<lambda>_. ''2026-01-01T00:00:00+00:00''), uuid4 = (\<lambda>k. replicate (Suc k) CHR ''v'')\<rparr>"

definition sample_sell :: "int \<Rightarrow> int \<Rightarrow> string option \<Rightarrow> sell_request" where
  "sample_sell amount proceeds exit_id = \<lparr>sell_mint = ''M'', sell_amount = amount,
     proceeds_lamports = proceeds, sell_reason = ''MANUAL'', sell_position_id = Some ''u'',
     sell_exit_id = exit_id, trigger_roi_percent = None, quote_age_ms = None,
     exit_trigger_latency_ms = None, previous_value_lamports = None, previous_quote_at = None,
     trigger_peak_value_lamports = None, trigger_price_impact_pct = None\<rparr>"

definition sample_buy :: "string \<Rightarrow> buy_request" where
  "sample_buy m = \<lparr>mint = m, cost_lamports = 1000000, token_amount_raw = 1000, token_decimals = 6,
     source_wallet = None, source_signature = Some ''S'', safety_score = Some 80, entry_reason = ''copy'',
     signal_detected_at = None, analysis_completed_at = None, entry_quote_at = None,
     entry_price_impact = Fin (1 / 2), exit_price_impact = Fin 0, expected_slippage_bps = 100,
     whale_reference_price = Fin 0, copy_price_gap = Fin 0, entry_latency_ms = 0, route_type = ''A'',
     dex_momentum_score = Fin 0, strategy_version = ''baseline_v1'', observation_id = None,
     max_strategy_open_positions = Some 2\<rparr>"

definition sample_position :: dict where
  "sample_position = [(''position_id'', PStr ''u''), (''token_amount_raw'', PInt 1000),
     (''remaining_cost_lamports'', PInt 1000000), (''entry_cost_lamports'', PInt 1000000),
     (''cumulative_proceeds_lamports'', PInt 0), (''peak_exit_value_lamports'', PInt 1000000),
     (''post_tp_peak_exit_value_lamports'', PInt 0), (''consecutive_quote_failures'', PInt 0),
     (''round_index'', PInt 1), (''version'', PInt 1), (''risk_state'', PStr ''NORMAL'')]"

definition sample_ledger :: dict where
  "sample_ledger = [(''schema_version'', PInt 2), (''version'', PInt 1), (''next_event_seq'', PInt 1),
     (''cash_lamports'', PInt 9999000000), (''positions'', PDict [(''M'', PDict sample_position)]),
     (''events'', PList []), (''updated_at'', PStr ''t'')]"

lemma sample_position_wf: "wf_position (PDict sample_position)"
  by (simp add: sample_position_def wf_position.simps position_ints_def has_int_def has_str_def ival_def)

lemma wf_sample_ledger: "wf_ledger sample_ledger"
  using sample_position_wf
  by (simp add: wf_ledger_def sample_ledger_def has_int_def cash_def ival_def
     ledger_positions_def ledger_events_def wf_positions_def wf_events_def)

lemmas ledger_eval = with_positions_def positions_of_def dsetdefault_def dhas_def owned_position_def
  set_position_def bump_version_def append_event_def next_event_def int_field_def dset_def
  dpop_def dupdate_def sample_ledger_def sample_position_def sample_sell_def guard_passes_def

lemma sample_claim:
  "\<exists>l'. claim_position_exit_mutate sample_env ''x'' ''M'' ''u'' ''STOP'' sample_ledger
     = Inr (Some (''x'', 1000), l')"
  by (simp add: ledger_eval claim_position_exit_mutate_def cong: bindE_weak let_weak)

lemma sell_position_runs:
  assumes "wf_ledger l" "wf_position (PDict p)" "0 \<le> proceeds_lamports s"
    and "realized_roi (proceeds_lamports s - ival p ''remaining_cost_lamports'' * sold div ival p ''token_amount_raw'')
       (ival p ''remaining_cost_lamports'' * sold div ival p ''token_amount_raw'') = Inr roi"
    and "sell_reason s \<notin> set first_take_profit_reasons"
  shows "\<exists>c l'. sell_position e s i (ival p ''token_amount_raw'') sold p (ledger_positions l) l = Inr ((True, c), l')"
proof -
  let ?l0 = "dset ''cash_lamports'' (PInt (cash l + proceeds_lamports s)) l"
  have l0: "wf_ledger ?l0" using assms(1,3) by (simp add: wf_ledger_def)
  from append_event_wf [OF this sell_event_fields(1)]
  have ev: "\<exists>l1. append_event j (sell_event t s i n sold pnl roi q) ?l0 = Inr l1" for j t n pnl q
    by blast
  show ?thesis
    using assms(4,5) wf_positionD(2,4,8,9) [OF assms(2)] wf_ledgerD(1) [OF assms(1)] ev dsetdefault_wf [OF l0]
    by (simp add: sell_position_def Let_def bump_version_def dget_or_def after_take_profit_def bindE_eq_Inr)
qed

lemma sample_sale:
  "\<exists>c l'. record_paper_sell_mutate sample_env (sample_sell 300 450000 None) sample_ledger
     = Inr ((True, c), l')"
proof -
  have "int_truediv 150000 300000 = Inr (Fin (1 / 2))" by code_simp
  then obtain roi where roi: "realized_roi 150000 300000 = Inr roi" by (simp add: realized_roi_def)
  have amount: "ival sample_position ''token_amount_raw'' = 1000"
    "ival sample_position ''remaining_cost_lamports'' = 1000000"
    by (simp_all add: ival_def sample_position_def)
  have ps: "ledger_positions sample_ledger = [(''M'', PDict sample_position)]"
    by (simp add: ledger_positions_def sample_ledger_def)
  have i: "py_str (dget_or sample_position ''position_id'' (PStr [])) = ''u''"
    "py_int (dget_or sample_position ''token_amount_raw'' (PInt 0)) = Inr 1000"
    by (simp_all add: sample_position_def)
  note run = sell_position_runs [OF wf_sample_ledger sample_position_wf, of "sample_sell 300 450000 None" 300 roi
      sample_env "''u''", unfolded amount]
  have "\<exists>c l'. sell_position sample_env (sample_sell 300 450000 None) ''u'' 1000 300 sample_position
      (ledger_positions sample_ledger) sample_ledger = Inr ((True, c), l')"
    by (rule run) (simp_all add: sample_sell_def roi first_take_profit_reasons_def)
  then show ?thesis
    unfolding record_paper_sell_mutate_def Let_def wf_ledgerD(6) [OF wf_sample_ledger]
      wf_ledgerD(5) [OF wf_sample_ledger]
    by (simp add: ps i guard_passes_def sample_sell_def)
qed

lemma buy_runs:
  assumes "wf_ledger l" "0 < token_amount_raw b" "0 \<le> cost_lamports b" "cost_lamports b \<le> cash l"
    and "dget (ledger_positions l) (mint b) = None" "\<not> already_bought b l"
    and "strategy_capacity b (ledger_positions l) = Inr ()"
    and "previous_rounds (mint b) (ledger_events l) = Inr rounds"
    and "int_truediv (cost_lamports b) (token_amount_raw b) = Inr price"
  shows "\<exists>l'. record_paper_buy_mutate e route b l = Inr (uuid4 e 0, l')"
proof -
  let ?l0 = "dset ''cash_lamports'' (PInt (cash l - cost_lamports b)) l"
  have l0: "wf_ledger ?l0" "ledger_positions ?l0 = ledger_positions l"
    using assms(1,4) by (simp_all add: wf_ledger_def)
  have ev: "\<exists>l2. append_event j (buy_event b t (buy_metadata b i n sg q route))
       (set_position (mint b) (opened_position b t q route price (buy_metadata b i n sg q route))
         (ledger_positions l) ?l0) = Inr l2" for j t i n sg q
  proof -
    have "wf_ledger (set_position (mint b) (opened_position b t q route price (buy_metadata b i n sg q route))
       (ledger_positions ?l0) ?l0)"
      by (rule wf_set_position [OF l0(1) opened_position_wf [OF assms(2,3)]])
    from append_event_wf [OF this buy_event_fields(2)] show ?thesis unfolding l0(2) by blast
  qed
  have c: "py_int (dget_or l ''cash_lamports'' (PInt 0)) = Inr (cash l)"
    "bindE (dindex l ''cash_lamports'') py_int = Inr (cash l)"
    "bindE (dindex l ''events'') py_iter = Inr (ledger_events l)"
    using wf_ledgerD(1,3) [OF assms(1)] by (simp_all add: dget_or_def)
  show ?thesis
    unfolding record_paper_buy_mutate_def Let_def wf_ledgerD(6) [OF assms(1)] wf_ledgerD(5) [OF assms(1)]
      duplicate_buy_wf [OF assms(1)]
    using assms(4-9) ev by (simp add: dhas_def c bindE_eq_Inr)
qed

lemma sample_purchase:
  "\<exists>l'. record_paper_buy_mutate sample_env (''A'', Fin 0) (sample_buy ''N'') sample_ledger = Inr (''v'', l')"
proof -
  have price: "int_truediv 1000000 1000 = Inr (Fin 1000)" by code_simp
  have ps: "ledger_positions sample_ledger = [(''M'', PDict sample_position)]" "ledger_events sample_ledger = []"
    "cash sample_ledger = 9999000000"
    by (simp_all add: ledger_positions_def ledger_events_def sample_ledger_def cash_def ival_def)
  have "strategy_capacity (sample_buy ''N'') (ledger_positions sample_ledger) = Inr ()"
    by (simp add: ps strategy_capacity_def sample_buy_def open_strategy_count_def)
  then have "\<exists>l'. record_paper_buy_mutate sample_env (''A'', Fin 0) (sample_buy ''N'') sample_ledger
      = Inr (uuid4 sample_env 0, l')"
    by (rule buy_runs [OF wf_sample_ledger, where rounds = "[]" and price = "Fin 1000", rotated 5])
      (simp_all add: ps price already_bought_def previous_rounds_def List.map_filter_simps, simp_all add: sample_buy_def price)
  then show ?thesis by (simp add: sample_env_def)
qed

lemma someD:
  "(case m of Inr (Some c, d) \<Rightarrow> P c d | _ \<Rightarrow> False) \<Longrightarrow> \<exists>c d. m = Inr (Some c, d) \<and> P c d"
  by (auto split: sum.splits prod.splits option.splits)

text \<open>A claim on a position that has none pending succeeds; what a quote failure leaves.\<close>

lemma claim_runs:
  assumes "wf_ledger l" "owned_position (ledger_positions l) m i = Some p"
    and "dgetn p ''risk_state'' \<noteq> PStr ''EXIT_PENDING''"
  shows "\<exists>c l'. claim_position_exit_mutate e x m i r l = Inr (Some c, l')"
  using assms wf_positionD(1,9) [OF owned_wf [OF assms(1,2)]]
  by (simp add: claim_position_exit_mutate_def Let_def wf_ledgerD(5,6) bump_version_def dget_or_def)

lemma bump_version_dget: "bump_version p = Inr q \<Longrightarrow> k \<noteq> ''version'' \<Longrightarrow> dget q k = dget p k"
  by (auto simp: bump_version_def bindE_eq_Inr)

lemma quote_failure_state:
  assumes "wf_ledger l" "record_quote_failure_mutate e now m i err l = Inr (Some (n, st), l')"
  shows "\<exists>p. owned_position (ledger_positions l') m i = Some p \<and> wf_ledger l' \<and>
    py_str (dget_or p ''risk_state'' (PStr ''NORMAL'')) = st"
proof -
  obtain p where p: "owned_position (ledger_positions l) m i = Some p"
    using assms(2) by (auto simp: record_quote_failure_mutate_def Let_def wf_ledgerD(5,6) [OF assms(1)]
        split: option.splits)
  note o = owned_positionD [OF p]
  obtain q q' where q: "bump_version q = Inr q'" "dgetn q ''position_id'' = PStr i"
      "st = py_str (dget_or q' ''risk_state'' (PStr ''NORMAL''))"
      "l' = dset ''updated_at'' (PStr (utc_now e 1)) (set_position m q' (ledger_positions l) l)"
    using assms(2) o
    by (simp add: record_quote_failure_mutate_def Let_def wf_ledgerD(5,6) [OF assms(1)] p bindE_eq_Inr)
      (elim exE conjE, rule that, assumption, simp_all)
  have "dgetn q' ''position_id'' = PStr i"
    using bump_version_dget [OF q(1), of "''position_id''"] q(2) by (simp add: dgetn_def dget_or_def)
  then have "owned_position (ledger_positions l') m i = Some q'"
    by (simp add: q(4) set_position_def owned_position_def)
  moreover have "wf_ledger l'" using quote_failure.keeps [OF assms] by (simp add: keeps_money_def)
  ultimately show ?thesis using q(3) by simp
qed

section \<open>Properties\<close>

text \<open>C1: Any sequence of ledger transactions, in any order and whichever of them fail, keeps the
  ledger well-formed (cash not negative, every position with a positive amount and a cost,
  event numbers increasing), and cash plus the cost of the open positions grows by exactly
  the profits the sales record in their events: no transaction creates or loses money.\<close>

theorem ledger_accounts_balance:
  assumes "wf_ledger l" "\<forall>(e, op) \<in> set ops. op_valid op"
  shows "\<exists>l'. snd (run_ops ops (Content (PDict l))) = Content (PDict l') \<and> wf_ledger l' \<and>
    cash l' + held_cost l' = cash l + held_cost l + fst (run_ops ops (Content (PDict l)))"
  by (rule run_ops_accounts [OF assms])

definition sample_run :: "(env \<times> ledger_op) list" where
  "sample_run = [(sample_env, Sell (sample_sell 300 450000 None)),
     (sample_env, Claim ''x'' ''M'' ''u'' ''STOP''), (sample_env, Buy (''A'', Fin 0) (sample_buy ''N'')),
     (sample_env, Sell (sample_sell 700 600000 (Some ''x'')))]"

theorem ledger_accounts_balance_witness:
  "\<exists>l'. snd (run_ops sample_run (Content (PDict sample_ledger))) = Content (PDict l') \<and> wf_ledger l' \<and>
     cash l' + held_cost l' = 10000000000 + fst (run_ops sample_run (Content (PDict sample_ledger)))"
proof -
  have ops: "\<forall>(e, op) \<in> set sample_run. op_valid op"
    by (simp add: sample_run_def sample_buy_def sample_sell_def)
  have "cash sample_ledger + held_cost sample_ledger = 10000000000"
    by (simp add: cash_def ival_def held_cost_def ledger_positions_def sample_ledger_def sample_position_def)
  with ledger_accounts_balance [OF wf_sample_ledger ops] show ?thesis by simp
qed

text \<open>C2: A claimed exit belongs to its claimant: while it is pending every other claim of the
  position is refused, a release with another exit id changes nothing, and a sale that carries
  another exit id sells nothing.\<close>

theorem exit_claim_is_exclusive:
  assumes "wf_ledger l" "claim_position_exit_mutate e x m i r l = Inr (Some c, l')"
  shows "fst c = x \<and> claim_position_exit_mutate e2 y m i2 r2 l' = Inr (None, l') \<and>
    (y \<noteq> x \<longrightarrow> release_exit_claim_mutate e2 m i2 y d l' = Inr ((), l')) \<and>
    (sell_mint s = m \<and> sell_exit_id s = Some y \<and> y \<noteq> [] \<and> y \<noteq> x \<longrightarrow>
       record_paper_sell_mutate e2 s l' = Inr ((False, None), l'))"
proof -
  have "pending_exit l' m x \<and> wf_ledger l' \<and> fst c = x"
    by (rule claim_effect [OF assms]) (auto simp: pending_exit_def)
  then show ?thesis
    using pending_excludes_claim [of l' m x] pending_excludes_release [of l' m x]
      pending_excludes_sale [of l' s x] by blast
qed

theorem exit_claim_is_exclusive_witness:
  "\<exists>l'. claim_position_exit_mutate sample_env ''x'' ''M'' ''u'' ''STOP'' sample_ledger = Inr (Some (''x'', 1000), l') \<and>
     record_paper_sell_mutate sample_env (sample_sell 10 20 (Some ''y'')) l' = Inr ((False, None), l')"
proof -
  obtain l' where l': "claim_position_exit_mutate sample_env ''x'' ''M'' ''u'' ''STOP'' sample_ledger
      = Inr (Some (''x'', 1000), l')"
    using sample_claim by blast
  from exit_claim_is_exclusive [OF wf_sample_ledger l', of sample_env "''y''" "''u''" "''R''" False
      "sample_sell 10 20 (Some ''y'')"] l'
  show ?thesis by (simp add: sample_sell_def)
qed

text \<open>C4: A recorded purchase opened a position that did not exist, paid its cost from cash that
  covered it into the cost of the open positions, was not recorded before for the same source
  signature and mint, appended one event that carries that signature, and left the strategy
  within its limit of open positions.\<close>

theorem paper_buy_opens_position:
  assumes "wf_ledger l" "record_paper_buy_mutate e route b l = Inr (i, l')"
    and "0 < token_amount_raw b" "0 < cost_lamports b"
  shows "wf_ledger l' \<and> dget (ledger_positions l) (mint b) = None \<and> dhas (ledger_positions l') (mint b) \<and>
    cash l' = cash l - cost_lamports b \<and> held_cost l' = held_cost l + cost_lamports b \<and>
    \<not> already_bought b l \<and> (source_signature b = Some sig \<and> sig \<noteq> [] \<longrightarrow> already_bought b l') \<and>
    length (ledger_events l') = Suc (length (ledger_events l)) \<and>
    (max_strategy_open_positions b = Some n \<longrightarrow>
       open_strategy_count (strategy_of b) (ledger_positions l') \<le> n)"
proof -
  have cost: "0 \<le> cost_lamports b" using assms(4) by simp
  note b = buy_effect [OF assms(1-3) cost]
  obtain ev where ev: "ledger_events l' = ledger_events l @ [PDict ev]" "dget ev ''type'' = Some (PStr ''BUY'')"
      "dget ev ''mint'' = Some (PStr (mint b))" "dget ev ''source_signature'' = Some (opt_str (source_signature b))"
    using b(9) by blast
  then have "source_signature b = Some sig \<and> sig \<noteq> [] \<longrightarrow> already_bought b l'"
    by (auto simp: already_bought_def opt_str_def)
  moreover have "dhas (ledger_positions l') (mint b)" using b(8) by (auto simp: dhas_def)
  ultimately show ?thesis using b(1-5) ev(1) capacity_after_buy [OF assms(1-3) cost] by simp
qed

theorem paper_buy_opens_position_witness:
  "\<exists>l'. record_paper_buy_mutate sample_env (''A'', Fin 0) (sample_buy ''N'') sample_ledger = Inr (''v'', l') \<and>
     cash l' = cash sample_ledger - 1000000 \<and> already_bought (sample_buy ''N'') l'"
proof -
  obtain l' where l': "record_paper_buy_mutate sample_env (''A'', Fin 0) (sample_buy ''N'') sample_ledger
      = Inr (''v'', l')" using sample_purchase by blast
  from paper_buy_opens_position [OF wf_sample_ledger l', of "''S''" 2] l'
  show ?thesis by (simp add: sample_buy_def)
qed

text \<open>C3: A sale sells at most what the position holds, and only with the exit id that is pending
  if it carries one.  It pays the proceeds into the cash and releases the share of the cost
  that the units sold are of the amount, rounded down; the event records the difference as
  the profit.  Selling everything removes the position and releases its whole cost.\<close>

theorem paper_sale_releases_cost:
  assumes "wf_ledger l" "record_paper_sell_mutate e s l = Inr ((True, c), l')" "0 \<le> proceeds_lamports s"
  shows "\<exists>p sold released. dget (ledger_positions l) (sell_mint s) = Some (PDict p) \<and>
    sold = min (sell_amount s) (ival p ''token_amount_raw'') \<and> 0 < sold \<and>
    guard_passes (sell_exit_id s) (dgetn p ''pending_exit_id'' = opt_str (sell_exit_id s)) \<and>
    released = ival p ''remaining_cost_lamports'' * sold div ival p ''token_amount_raw'' \<and>
    cash l' = cash l + proceeds_lamports s \<and> held_cost l' = held_cost l - released \<and>
    last_profit l' = proceeds_lamports s - released \<and>
    (sold = ival p ''token_amount_raw'' \<longrightarrow> \<not> dhas (ledger_positions l') (sell_mint s) \<and>
       released = ival p ''remaining_cost_lamports'') \<and>
    (sold < ival p ''token_amount_raw'' \<longrightarrow> (\<exists>q. dget (ledger_positions l') (sell_mint s) = Some (PDict q) \<and>
        ival q ''token_amount_raw'' = ival p ''token_amount_raw'' - sold \<and>
        ival q ''remaining_cost_lamports'' = ival p ''remaining_cost_lamports'' - released)) \<and>
    (\<forall>m. m \<noteq> sell_mint s \<longrightarrow> dget (ledger_positions l') m = dget (ledger_positions l) m)"
proof (rule sell_effect [OF assms], goal_cases)
  case (1 p sold released ev)
  have "last_profit l' = proceeds_lamports s - released" using 1(9,11) by (simp add: last_profit_def ival_def)
  moreover have "sold < ival p ''token_amount_raw'' \<Longrightarrow> sold \<noteq> ival p ''token_amount_raw''" by simp
  ultimately show ?case using 1 unfolding dhas_def by blast
qed

theorem paper_sale_releases_cost_witness:
  "\<exists>c l'. record_paper_sell_mutate sample_env (sample_sell 300 450000 None) sample_ledger = Inr ((True, c), l') \<and>
     cash l' = 9999450000 \<and> last_profit l' = 150000"
proof -
  obtain c l' where run: "record_paper_sell_mutate sample_env (sample_sell 300 450000 None) sample_ledger
      = Inr ((True, c), l')" using sample_sale by blast
  have "0 \<le> proceeds_lamports (sample_sell 300 450000 None)" by (simp add: sample_sell_def)
  note sale = paper_sale_releases_cost [OF wf_sample_ledger run this]
  have cash: "cash sample_ledger = 9999000000" by (simp add: cash_def ival_def sample_ledger_def)
  have pos: "ledger_positions sample_ledger = [(''M'', PDict sample_position)]"
    by (simp add: ledger_positions_def sample_ledger_def)
  have "cash l' = cash sample_ledger + 450000 \<and> last_profit l' = 150000"
    using sale by (auto simp: pos sample_sell_def sample_position_def ival_def)
  then show ?thesis using run by (simp add: cash)
qed

text \<open>Recording a purchase on the ledger file (migration, validation and transaction, with
  either lock possibly timing out): whatever happens the file still holds a well-formed
  ledger; if the call returns a position the money moved from cash into that position, and
  if it raises no money moved.\<close>

theorem paper_buy_on_file:
  assumes "file_holds wf_ledger f" "record_paper_buy e lk1 lk2 f b = (res, f')"
  shows "file_holds wf_ledger f' \<and> (case res of Inl _ \<Rightarrow> same_money (file_ledger f) (file_ledger f')
     | Inr i \<Rightarrow> bought b (file_ledger f) (file_ledger f'))"
  by (rule record_paper_buy_file [OF assms])

theorem paper_buy_on_file_witness:
  "\<exists>res f'. record_paper_buy sample_env True False (Content (PDict sample_ledger)) (sample_buy ''N'') = (res, f') \<and>
     file_holds wf_ledger f'"
proof -
  obtain res f' where run: "record_paper_buy sample_env True False (Content (PDict sample_ledger))
      (sample_buy ''N'') = (res, f')" by fastforce
  have "file_holds wf_ledger (Content (PDict sample_ledger))" by (simp add: wf_sample_ledger)
  from paper_buy_on_file [OF this run] run show ?thesis by blast
qed

text \<open>Migrating a document of the current schema twice is migrating it once: the second pass
  reports no change and returns the document as it is.\<close>

theorem current_migration_idempotent:
  "case migrate_v2 now d of Inl _ \<Rightarrow> True | Inr (_, d') \<Rightarrow> migrate_v2 now' d' = Inr (False, d')"
  using migrate_v2_idem [of now d] by (auto split: sum.split)

lemma committedD:
  "(case m of Inr (True, d) \<Rightarrow> P d | _ \<Rightarrow> False) \<Longrightarrow> \<exists>d. m = Inr (True, d) \<and> P d"
  by (auto split: sum.splits prod.splits bool.splits)

definition legacy_document :: dict where
  "legacy_document = [(''cash_lamports'', PInt 10), (''positions'', PDict []),
     (''events'', PList [PDict [(''type'', PStr ''BUY''), (''mint'', PStr ''M'')]])]"

text \<open>A document of the first schema is not migrated in one pass: the pass to the current schema
  leaves purchase events without their route fields, and migrating its result changes it again.\<close>

theorem legacy_migration_needs_two_passes:
  "\<exists>d1 d2. migrate_ledger_document sample_env legacy_document = Inr (True, d1) \<and>
     migrate_ledger_document sample_env d1 = Inr (True, d2) \<and> d2 \<noteq> d1"
proof -
  have "case migrate_ledger_document sample_env legacy_document of
      Inr (True, d1) \<Rightarrow> (case migrate_ledger_document sample_env d1 of Inr (True, d2) \<Rightarrow> d2 \<noteq> d1 | _ \<Rightarrow> False)
    | _ \<Rightarrow> False" by code_simp
  from committedD [OF this] obtain d1 where
    d1: "migrate_ledger_document sample_env legacy_document = Inr (True, d1)"
    and d2: "case migrate_ledger_document sample_env d1 of Inr (True, d2) \<Rightarrow> d2 \<noteq> d1 | _ \<Rightarrow> False"
    by blast
  from d1 committedD [OF d2] show ?thesis by blast
qed

text \<open>After a first take-profit sale the position's break-even value is exactly what its entry cost
  still lacks: a sale of the rest for that value or more recovers the entry cost.\<close>

theorem take_profit_floor_recovers_cost:
  assumes "after_take_profit reason cumulative p = Inr q" "reason \<in> set first_take_profit_reasons"
    and "dget p ''entry_cost_lamports'' = Some (PInt cost)"
  shows "\<exists>floor. break_even_required_value q n = Inr floor \<and> 0 \<le> floor \<and>
    (\<forall>proceeds \<ge> floor. cost \<le> cumulative + proceeds) \<and> (cumulative < cost \<longrightarrow> floor = cost - cumulative)"
  using first_take_profit_floor(1) [OF assms, of n] by auto

theorem take_profit_floor_recovers_cost_witness:
  "\<exists>q. after_take_profit ''TAKE_PROFIT_50'' 900000 sample_position = Inr q \<and>
     break_even_required_value q None = Inr 100000"
proof -
  have "int_truediv 100000 1000 = Inr (Fin 100)" by code_simp
  then obtain q where q: "after_take_profit ''TAKE_PROFIT_50'' 900000 sample_position = Inr q"
    by (simp add: after_take_profit_def first_take_profit_reasons_def unit_price_def int_field_def
        sample_position_def)
  have "dget sample_position ''entry_cost_lamports'' = Some (PInt 1000000)" by (simp add: sample_position_def)
  from take_profit_floor_recovers_cost [OF q _ this, of None] q show ?thesis
    by (simp add: first_take_profit_reasons_def)
qed

text \<open>A quote failure takes the pending mark off a position whose exit is in progress: once it
  reports a state other than pending, a second claim of the position succeeds, and the sale
  of the first claimant is then refused.\<close>

theorem quote_failure_reopens_claim:
  assumes "wf_ledger l" "claim_position_exit_mutate e x m i r l = Inr (Some c, l1)"
    and "record_quote_failure_mutate e1 now m i err l1 = Inr (Some (n, st), l2)" "st \<noteq> ''EXIT_PENDING''"
  shows "\<exists>c' l3. claim_position_exit_mutate e2 y m i r2 l2 = Inr (Some c', l3) \<and>
    (y \<noteq> x \<and> x \<noteq> [] \<and> sell_mint s = m \<and> sell_exit_id s = Some x \<longrightarrow>
       record_paper_sell_mutate e3 s l3 = Inr ((False, None), l3))"
proof -
  have "wf_ledger l1" by (rule claim_effect [OF assms(1,2)])
  note q = quote_failure_state [OF this assms(3)]
  then obtain p where p: "owned_position (ledger_positions l2) m i = Some p" "wf_ledger l2"
      "py_str (dget_or p ''risk_state'' (PStr ''NORMAL'')) = st" by blast
  have "dgetn p ''risk_state'' \<noteq> PStr ''EXIT_PENDING''"
    using p(3) assms(4) by (auto simp: dgetn_def dget_or_def split: option.splits)
  then obtain c' l3 where l3: "claim_position_exit_mutate e2 y m i r2 l2 = Inr (Some c', l3)"
    using claim_runs [OF p(2,1)] by blast
  have "pending_exit l3 m y \<and> wf_ledger l3"
    by (rule claim_effect [OF p(2) l3]) (auto simp: pending_exit_def)
  then show ?thesis using l3 pending_excludes_sale [of l3 s y] by blast
qed

theorem quote_failure_reopens_claim_witness:
  "\<exists>l1 l2 l3 c'. claim_position_exit_mutate sample_env ''x'' ''M'' ''u'' ''STOP'' sample_ledger = Inr (Some (''x'', 1000), l1) \<and>
     record_quote_failure_mutate sample_env 0 ''M'' ''u''
       \<lparr>error_class = ''TimeoutError'', error_message = ''quote''\<rparr> l1 = Inr (Some (1, ''DEGRADED''), l2) \<and>
     claim_position_exit_mutate sample_env ''y'' ''M'' ''u'' ''STOP'' l2 = Inr (Some c', l3)"
proof -
  let ?err = "\<lparr>error_class = ''TimeoutError'', error_message = ''quote''\<rparr>"
  have "case claim_position_exit_mutate sample_env ''x'' ''M'' ''u'' ''STOP'' sample_ledger of
     Inr (Some c, l1) \<Rightarrow> c = (''x'', 1000) \<and>
       (case record_quote_failure_mutate sample_env 0 ''M'' ''u'' ?err l1 of
          Inr (Some r, _) \<Rightarrow> r = (1, ''DEGRADED'') | _ \<Rightarrow> False) | _ \<Rightarrow> False"
    by code_simp
  from someD [OF this] obtain l1 where l1: "claim_position_exit_mutate sample_env ''x'' ''M'' ''u'' ''STOP'' sample_ledger
      = Inr (Some (''x'', 1000), l1)"
    and "case record_quote_failure_mutate sample_env 0 ''M'' ''u'' ?err l1 of
          Inr (Some r, _) \<Rightarrow> r = (1, ''DEGRADED'') | _ \<Rightarrow> False"
    by blast
  from someD [OF this(2)] obtain l2 where
    "record_quote_failure_mutate sample_env 0 ''M'' ''u'' ?err l1 = Inr (Some (1, ''DEGRADED''), l2)"
    by blast
  note r = l1 this
  from quote_failure_reopens_claim [OF wf_sample_ledger r, of sample_env "''y''" "''STOP''"] r
  show ?thesis by blast
qed

end
