(* ===== verification/Executor.thy ===== *)
theory Executor
  imports JupiterQuotes PyDecimal SolanaRpc LedgerAccounts
begin

text \<open>
  The trade executor \<open>src/executor.py\<close>: the settings, the tip for the block builder, the compute
  limit written into a transaction, the lifecycle of a live swap, and the two orders
  \<open>execute_buy\<close> and \<open>execute_sell\<close>.  Quotes are in \<open>JupiterQuotes\<close>.

  The cryptography and the transaction format (\<open>cryptography\<close>, \<open>solders\<close>) and the answers of the
  services are arguments: a key pair is known by its address, a transaction by its account keys
  and instructions.
\<close>

section \<open>Constants\<close>

definition WSOL_MINT :: string where "WSOL_MINT = ''So11111111111111111111111111111111111111112''"
definition LIVE_BUY_PERCENT :: int where "LIVE_BUY_PERCENT = 1"
definition PAPER_BUY_BASIS_POINTS :: int where "PAPER_BUY_BASIS_POINTS = 50"
definition ROUTE_B_SIZE_MULTIPLIER :: decimal where "ROUTE_B_SIZE_MULTIPLIER = Dec (15 / 100)"
definition LAMPORTS_PER_SOL :: int where "LAMPORTS_PER_SOL = 1000000000"
definition JITO_FALLBACK_TIP_LAMPORTS :: int where "JITO_FALLBACK_TIP_LAMPORTS = 2000000"
definition JITO_MIN_TIP_LAMPORTS :: int where "JITO_MIN_TIP_LAMPORTS = 1000"
definition MAX_FEE_BASIS_POINTS :: int where "MAX_FEE_BASIS_POINTS = 200"
definition MAX_ABSOLUTE_FEE_LAMPORTS :: int where "MAX_ABSOLUTE_FEE_LAMPORTS = 30000000"
definition MAX_COMPUTE_UNIT_LIMIT :: int where "MAX_COMPUTE_UNIT_LIMIT = 1400000"
definition COMPUTE_UNIT_MARGIN :: f64 where "COMPUTE_UNIT_MARGIN = float_lit (110 / 100)"
definition COMPUTE_BUDGET_PROGRAM :: string where
  "COMPUTE_BUDGET_PROGRAM = ''ComputeBudget111111111111111111111111111111''"
definition MIN_FEE_RESERVE_LAMPORTS :: int where "MIN_FEE_RESERVE_LAMPORTS = 2000000"

section \<open>Settings\<close>

record execution_settings =
  rpc_url :: string
  trading_mode :: string
  encrypted_private_key :: string
  jupiter_api_key :: string
  jito_url :: string
  expected_wallet_address :: string
  live_acknowledgement :: string

definition rstrip_char :: "char \<Rightarrow> string \<Rightarrow> string" where
  "rstrip_char c s = rev (dropWhile (\<lambda>x. x = c) (rev s))"

text \<open>\<open>ExecutionSettings.from_env\<close>; \<open>environ\<close> is the environment after \<open>load_dotenv()\<close>.\<close>

definition settings_from_env :: "environ \<Rightarrow> execution_settings res" where
  "settings_from_env environ =
     (let helius_key = strip (env_or environ ''HELIUS_API_KEY'' []);
          url = strip (env_or environ ''HELIUS_RPC_HTTP_URL'' []);
          url = replace_all url helius_key_mark helius_key;
          mode = lower (strip (env_or environ ''TRADING_MODE'' ''paper''))
      in if helius_key = [] \<or> url = [] then Inl (RuntimeError ''Helius RPC settings are missing'')
         else if mode \<noteq> ''paper'' \<and> mode \<noteq> ''live''
         then Inl (RuntimeError ''TRADING_MODE must be paper or live'')
         else Inr \<lparr>rpc_url = url, trading_mode = mode,
           encrypted_private_key = strip (env_or environ ''SOLANA_PRIVATE_KEY_ENCRYPTED'' []),
           jupiter_api_key = strip (env_or environ ''JUPITER_API_KEY'' []),
           jito_url = rstrip_char (CHR ''/'') (env_or environ ''JITO_BLOCK_ENGINE_URL''
             ''https://mainnet.block-engine.jito.wtf''),
           expected_wallet_address = strip (env_or environ ''EXPECTED_LIVE_WALLET_ADDRESS'' []),
           live_acknowledgement = strip (env_or environ ''LIVE_TRADING_ACK'' [])\<rparr>)"

fun verified_wallet :: "py \<Rightarrow> bool" where
  "verified_wallet (PDict d) = (dgetn d ''verified'' = PBool True)"
| "verified_wallet _ = False"

text \<open>The entries of \<open>wallets.json\<close>: a missing or malformed file is reported, a wrong shape raises.\<close>

definition live_wallets :: "state_file \<Rightarrow> py res" where
  "live_wallets f = (case f of
     Content v \<Rightarrow> bindE (as_dict v) (\<lambda>d. Inr (dget_or d ''wallets'' (PList [])))
   | _ \<Rightarrow> Inl (RuntimeError ''verified wallets.json is required for live mode''))"

definition validate_live_settings :: "environ \<Rightarrow> state_file \<Rightarrow> execution_settings \<Rightarrow> unit res" where
  "validate_live_settings environ wallets s =
     (if strip (env_or environ ''SOLANA_PRIVATE_KEY'' []) \<noteq> []
      then Inl (RuntimeError ''plaintext SOLANA_PRIVATE_KEY is forbidden; remove it immediately'')
      else if live_acknowledgement s \<noteq> ''I_UNDERSTAND_LIVE_TRADING_RISK''
      then Inl (RuntimeError ''LIVE_TRADING_ACK is missing or incorrect'')
      else if \<not> starts_with (rpc_url s) ''https://'' \<or> \<not> contains (rpc_url s) ''mainnet''
      then Inl (RuntimeError ''live RPC must be an HTTPS Solana mainnet endpoint'')
      else if \<not> starts_with (jito_url s) ''https://'' \<or> \<not> contains (jito_url s) ''mainnet''
      then Inl (RuntimeError ''live Jito URL must be an HTTPS mainnet Block Engine endpoint'')
      else bindE (live_wallets wallets) (\<lambda>entries.
        if \<not> truthy entries then Inl (RuntimeError ''live mode refuses empty or unverified monitoring wallets'')
        else bindE (py_iter entries) (\<lambda>items.
          if list_all verified_wallet items then Inr ()
          else Inl (RuntimeError ''live mode refuses empty or unverified monitoring wallets''))))"

text \<open>The libraries a key is loaded with; a key pair is its address.\<close>

record key_library =
  fernet_decrypt :: "string \<Rightarrow> string \<Rightarrow> string option"
  secret_bytes :: "string \<Rightarrow> int list res"
  keypair_of_bytes :: "int list \<Rightarrow> string res"
  keypair_of_base58 :: "string \<Rightarrow> string res"
  pubkey_of_string :: "string \<Rightarrow> string option"

definition load_keypair :: "key_library \<Rightarrow> environ \<Rightarrow> string \<Rightarrow> string \<Rightarrow> string res" where
  "load_keypair lib environ ciphertext expected_address =
     (let fernet_key = strip (env_or environ ''SOLANA_KEY_ENCRYPTION_KEY'' []) in
      if ciphertext = [] \<or> fernet_key = []
      then Inl (RuntimeError ''SOLANA_PRIVATE_KEY_ENCRYPTED and OS variable SOLANA_KEY_ENCRYPTION_KEY are required'')
      else case fernet_decrypt lib fernet_key ciphertext of
        None \<Rightarrow> Inl (RuntimeError ''encrypted Solana private key could not be decrypted'')
      | Some text \<Rightarrow>
          (let plaintext = strip text in
           bindE (if starts_with plaintext ''['' then bindE (secret_bytes lib plaintext) (\<lambda>secret.
                    if length secret \<noteq> 64 then Inl (ValueError ''keypair byte array must contain 64 values'')
                    else keypair_of_bytes lib secret)
                  else keypair_of_base58 lib plaintext) (\<lambda>address.
           if expected_address = [] then Inl (RuntimeError ''EXPECTED_LIVE_WALLET_ADDRESS is required'')
           else case pubkey_of_string lib expected_address of
             None \<Rightarrow> Inl (RuntimeError ''EXPECTED_LIVE_WALLET_ADDRESS is invalid'')
           | Some expected \<Rightarrow> (if address \<noteq> expected
               then Inl (RuntimeError ''decrypted key does not match EXPECTED_LIVE_WALLET_ADDRESS'')
               else Inr address))))"

section \<open>Balances and amounts\<close>

definition sol_balance :: "py \<Rightarrow> int res" where
  "sol_balance result = bindE (as_dict (py_or result (PDict []))) (\<lambda>d. py_int (dget_or d ''value'' (PInt 0)))"

text \<open>\<open>d.get(k) or {}\<close>, used as a dictionary.\<close>

definition sub_dict :: "dict \<Rightarrow> string \<Rightarrow> dict res" where
  "sub_dict d k = as_dict (py_or (dgetn d k) (PDict []))"

definition account_amount :: "py \<Rightarrow> int res" where
  "account_amount account =
     bindE (as_dict account) (\<lambda>a.
     bindE (sub_dict a ''account'') (\<lambda>a.
     bindE (sub_dict a ''data'') (\<lambda>a.
     bindE (sub_dict a ''parsed'') (\<lambda>a.
     bindE (sub_dict a ''info'') (\<lambda>info.
     bindE (sub_dict info ''tokenAmount'') (\<lambda>amount.
       py_int (py_or (dgetn amount ''amount'') (PStr ''0''))))))))"

definition token_balance :: "py \<Rightarrow> int res" where
  "token_balance result =
     bindE (as_dict (py_or result (PDict []))) (\<lambda>d.
     bindE (py_iter (py_or (dgetn d ''value'') (PList []))) (\<lambda>accounts.
       foldE (\<lambda>total account. bindE (account_amount account) (\<lambda>n. Inr (total + n))) 0 accounts))"

definition route_sized_amount :: "int \<Rightarrow> string \<Rightarrow> int res" where
  "route_sized_amount base_amount route =
     bindE (normalized_route_metadata route (Fin 0)) (\<lambda>(r, _).
       if r = ''B'' then bindE (dec_mul (Dec (of_int base_amount)) ROUTE_B_SIZE_MULTIPLIER) dec_trunc
       else Inr base_amount)"

section \<open>The tip\<close>

text \<open>The percentiles of a row, in the order of its keys; unreadable numbers are skipped.\<close>

definition percentile_point :: "string \<times> py \<Rightarrow> (decimal \<times> decimal) option" where
  "percentile_point kv = (case kv of (key, value) \<Rightarrow>
     (let prefix = ''landed_tips_''; suffix = ''th_percentile'' in
      if starts_with key prefix \<and> ends_with key suffix \<and> \<not> starts_with key ''ema_''
      then (case (dec_of_string (take (length key - length prefix - length suffix) (drop (length prefix) key)),
                  dec_of_string (py_str value)) of
              (Some p, Some v) \<Rightarrow> Some (p, v) | _ \<Rightarrow> None)
      else None))"

text \<open>
  Sorting the points compares their percentiles, and the values of equal percentiles.  Whatever
  order a sort compares in, neighbours in the result have been compared, so a NaN percentile
  among several points, or a NaN value beside an equal percentile, raises.
\<close>

definition point_le :: "decimal \<times> decimal \<Rightarrow> decimal \<times> decimal \<Rightarrow> bool" where
  "point_le a b \<longleftrightarrow> (if fst a = fst b then dec_le_ok (snd a) (snd b) else dec_le_ok (fst a) (fst b))"

fun insert_point :: "decimal \<times> decimal \<Rightarrow> (decimal \<times> decimal) list \<Rightarrow> (decimal \<times> decimal) list" where
  "insert_point p [] = [p]"
| "insert_point p (q # qs) = (if point_le p q then p # q # qs else q # insert_point p qs)"

definition incomparable_points :: "(decimal \<times> decimal) list \<Rightarrow> bool" where
  "incomparable_points ps \<longleftrightarrow> 1 < length ps \<and>
     (list_ex (\<lambda>p. is_dec_nan (fst p)) ps \<or>
      list_ex (\<lambda>p. is_dec_nan (snd p) \<and> 1 < length (filter (\<lambda>q. fst q = fst p) ps)) ps)"

definition sort_points :: "(decimal \<times> decimal) list \<Rightarrow> (decimal \<times> decimal) list res" where
  "sort_points ps = (if incomparable_points ps then Inl InvalidOperation else Inr (foldr insert_point ps []))"

fun interpolate :: "decimal \<Rightarrow> (decimal \<times> decimal) list \<Rightarrow> decimal res" where
  "interpolate target ((left_p, left_v) # (right_p, right_v) # ps) =
     bindE (bindE (dec_le left_p target) (\<lambda>a. if a then dec_le target right_p else Inr False)) (\<lambda>inside.
       if inside
       then bindE (dec_sub target left_p) (\<lambda>x. bindE (dec_sub right_p left_p) (\<lambda>y.
            bindE (dec_div x y) (\<lambda>weight. bindE (dec_sub right_v left_v) (\<lambda>d.
            bindE (dec_mul d weight) (\<lambda>z. dec_add left_v z)))))
       else interpolate target ((right_p, right_v) # ps))"
| "interpolate target _ = Inl (ValueError ''could not interpolate Jito tip percentile'')"

definition tip_percentile :: "dict \<Rightarrow> decimal \<Rightarrow> decimal res" where
  "tip_percentile row target =
     bindE (sort_points (List.map_filter percentile_point row)) (\<lambda>points.
       if points = [] then Inl (ValueError ''tip floor response contains no percentile values'')
       else bindE (dec_le target (fst (hd points))) (\<lambda>low.
         if low then Inr (snd (hd points))
         else bindE (dec_le (fst (last points)) target) (\<lambda>high.
           if high then Inr (snd (last points)) else interpolate target points)))"

text \<open>The exceptions for which the tip falls back: HTTP client, timeouts, \<open>ValueError\<close>, \<open>TypeError\<close>.\<close>

definition tip_falls_back :: "exc \<Rightarrow> bool" where
  "tip_falls_back x = (case x of
     TransportError _ \<Rightarrow> True | TimeoutError _ \<Rightarrow> True | StateLockTimeout _ \<Rightarrow> True
   | ValueError _ \<Rightarrow> True | JSONDecodeError \<Rightarrow> True | TypeError \<Rightarrow> True | _ \<Rightarrow> False)"

definition requested_tip :: "string \<Rightarrow> py \<Rightarrow> int res" where
  "requested_tip urgency payload = (case payload of
     PList (PDict row # _) \<Rightarrow>
       bindE (tip_percentile row (Dec (if urgency = ''normal'' then 125 / 2 else 165 / 2))) (\<lambda>p.
       bindE (dec_mul p (Dec (of_int LAMPORTS_PER_SOL))) (\<lambda>lamports.
       bindE (dec_ceil lamports) (\<lambda>wanted.
         if wanted \<le> 0 then Inl (ValueError ''Jito tip floor returned a non-positive tip'')
         else Inr wanted)))
   | _ \<Rightarrow> Inl (ValueError ''unexpected Jito tip floor response''))"

text \<open>The cap of an order, and the tip; the state is the last tip that was read.\<close>

definition tip_cap :: "int \<Rightarrow> int" where
  "tip_cap order_notional_lamports =
     min (max 0 order_notional_lamports * MAX_FEE_BASIS_POINTS div 10000) MAX_ABSOLUTE_FEE_LAMPORTS"

definition dynamic_jito_tip ::
  "int \<Rightarrow> string \<Rightarrow> py res \<Rightarrow> int option \<Rightarrow> int res \<times> int option" where
  "dynamic_jito_tip order_notional_lamports urgency tip_floor last_tip =
     (if urgency \<noteq> ''normal'' \<and> urgency \<noteq> ''emergency''
      then (Inl (ValueError ''urgency must be normal or emergency''), last_tip)
      else let cap = tip_cap order_notional_lamports in
        if cap < JITO_MIN_TIP_LAMPORTS
        then (Inl (RuntimeError ''order is too small to fund Jito's minimum tip within fee cap''), last_tip)
        else let select = (\<lambda>wanted. max JITO_MIN_TIP_LAMPORTS (min wanted cap)) in
          case bindE tip_floor (requested_tip urgency) of
            Inr wanted \<Rightarrow> (Inr (select wanted), Some wanted)
          | Inl x \<Rightarrow> (if tip_falls_back x
              then (Inr (select (case last_tip of Some t \<Rightarrow> if t \<noteq> 0 then t else JITO_FALLBACK_TIP_LAMPORTS
                                 | None \<Rightarrow> JITO_FALLBACK_TIP_LAMPORTS)), last_tip)
              else (Inl x, last_tip)))"

section \<open>The compute limit of a transaction\<close>

record compiled_instruction =
  program_id_index :: nat
  data :: "int list"
  accounts :: "int list"

datatype message_version = V0 | Legacy | Unsupported string

text \<open>A message: its version, the parts that stay (header, blockhash, lookups), keys, instructions.\<close>

record swap_message =
  version :: message_version
  fixed_parts :: string
  account_keys :: "string list"
  instructions :: "compiled_instruction list"

text \<open>\<open>struct.pack("<BI", 2, units)\<close>: the tag and 32 bits, the lowest byte first.\<close>

definition le_bytes :: "nat \<Rightarrow> int \<Rightarrow> int list" where
  "le_bytes k n = map (\<lambda>i. n div 256 ^ i mod 256) [0 ..< k]"

definition compute_limit_data :: "int \<Rightarrow> int list" where
  "compute_limit_data units = 2 # le_bytes 4 units"

definition sets_compute_limit :: "string list \<Rightarrow> compiled_instruction \<Rightarrow> bool" where
  "sets_compute_limit keys i \<longleftrightarrow> keys ! program_id_index i = COMPUTE_BUDGET_PROGRAM \<and> take 1 (data i) = [2]"

definition tune_instruction :: "string list \<Rightarrow> int \<Rightarrow> compiled_instruction \<Rightarrow> compiled_instruction res" where
  "tune_instruction keys units i =
     (if length keys \<le> program_id_index i then Inl IndexError
      else Inr (if sets_compute_limit keys i then i\<lparr>data := compute_limit_data units\<rparr> else i))"

definition apply_compute_unit_limit :: "swap_message \<Rightarrow> int \<Rightarrow> swap_message res" where
  "apply_compute_unit_limit m units =
     (if units \<le> 0 \<or> MAX_COMPUTE_UNIT_LIMIT < units
      then Inl (ValueError (''compute unit limit must be between 1 and '' @ dec_int MAX_COMPUTE_UNIT_LIMIT))
      else bindE (mapE (tune_instruction (account_keys m) units) (instructions m)) (\<lambda>tuned.
        if \<not> list_ex (sets_compute_limit (account_keys m)) (instructions m)
        then Inl (RuntimeError ''Jupiter transaction is missing SetComputeUnitLimit'')
        else case version m of
          Unsupported t \<Rightarrow> Inl (RuntimeError (''unsupported Solana message type: '' @ t))
        | _ \<Rightarrow> Inr (m\<lparr>instructions := tuned\<rparr>)))"

section \<open>A live swap\<close>

text \<open>\<open>json_rpc\<close>, \<open>send_bundle\<close> and \<open>simulate_signed_transaction\<close> on the decoded body of the answer.\<close>

definition json_rpc :: "string \<Rightarrow> py res \<Rightarrow> py res" where
  "json_rpc m body = bindE body (\<lambda>payload. bindE (as_dict payload) (\<lambda>d.
     if truthy (dgetn d ''error'')
     then Inl (RuntimeError (m @ '' failed: '' @ py_str (dgetn d ''error'')))
     else Inr (dgetn d ''result'')))"

definition simulate_signed_transaction :: "py res \<Rightarrow> int res" where
  "simulate_signed_transaction body =
     bindE (json_rpc ''simulateTransaction'' body) (\<lambda>result.
     bindE (as_dict (py_or result (PDict []))) (\<lambda>d.
     bindE (sub_dict d ''value'') (\<lambda>value.
       if dgetn value ''err'' \<noteq> PNone
       then Inl (RuntimeError (''swap simulation failed: '' @ py_str (dgetn value ''err'')))
       else let units = dgetn value ''unitsConsumed'';
                missing = Inl (RuntimeError ''swap simulation did not return a positive unitsConsumed'')
         in if units = PNone then missing
            else bindE (py_int units) (\<lambda>n. if n \<le> 0 then missing else Inr n))))"

definition send_bundle :: "py res \<Rightarrow> string res" where
  "send_bundle body = bindE (json_rpc ''sendBundle'' body) (\<lambda>result.
     if \<not> truthy result then Inl (RuntimeError ''Jito did not return a bundle id'')
     else Inr (py_str result))"

text \<open>\<open>values[0]\<close> of a true value, used as a dictionary.\<close>

fun first_status :: "py \<Rightarrow> dict res" where
  "first_status (PList (v # vs)) = as_dict v"
| "first_status (PStr s) = Inl AttributeError"
| "first_status (PDict d) = Inl (KeyError ''0'')"
| "first_status _ = Inl TypeError"

text \<open>One status query: the confirmation, if the bundle has landed.\<close>

definition bundle_status :: "py res \<Rightarrow> string option res" where
  "bundle_status body =
     bindE (json_rpc ''getBundleStatuses'' body) (\<lambda>result.
     bindE (as_dict (py_or result (PDict []))) (\<lambda>d.
     let values = py_or (dgetn d ''value'') (PList []) in
     if \<not> truthy values then Inr None
     else bindE (first_status values) (\<lambda>st.
       let err = dgetn st ''err'' in
       if err \<noteq> PNone \<and> err \<noteq> PDict [(''Ok'', PNone)]
       then Inl (RuntimeError (''Jito bundle failed: '' @ py_str err))
       else let confirmation = py_or (dgetn st ''confirmation_status'') (dgetn st ''confirmationStatus'')
         in bindE (in_string_set confirmation [''confirmed'', ''finalized'']) (\<lambda>landed.
              Inr (if landed then Some (py_str confirmation) else None)))))"

text \<open>The polls, each with the clock before it; \<open>None\<close> while the list ends before the deadline.\<close>

fun wait_for_bundle :: "f64 \<Rightarrow> (f64 \<times> py res) list \<Rightarrow> string res option" where
  "wait_for_bundle deadline [] = None"
| "wait_for_bundle deadline ((now, body) # polls) =
     (if f64_lt now deadline
      then (case bundle_status body of
          Inl x \<Rightarrow> Some (Inl x)
        | Inr (Some c) \<Rightarrow> Some (Inr c)
        | Inr None \<Rightarrow> wait_for_bundle deadline polls)
      else Some (Inl (TimeoutError
        ''bundle landing is unconfirmed; do not resubmit until signature history is checked'')))"

record execution_result =
  submitted :: bool
  landed :: bool
  result_mint :: string
  input_lamports :: int
  bundle_id :: "string option"
  signature :: "string option"
  status :: "string option"
  compute_units_consumed :: "int option"
  compute_unit_limit :: "int option"
  jito_tip_lamports :: "int option"
  lifecycle :: "dict list"

definition unsubmitted :: "string \<Rightarrow> int \<Rightarrow> string \<Rightarrow> execution_result" where
  "unsubmitted m amount st = \<lparr>submitted = False, landed = False, result_mint = m, input_lamports = amount,
     bundle_id = None, signature = None, status = Some st, compute_units_consumed = None,
     compute_unit_limit = None, jito_tip_lamports = None, lifecycle = []\<rparr>"

definition lifecycle_event :: "string \<Rightarrow> string \<Rightarrow> dict \<Rightarrow> dict" where
  "lifecycle_event now st details = dupdate [(''status'', PStr st), (''at'', PStr now)] details"

text \<open>
  What a live swap meets: the transaction Jupiter builds, the signatures of the provisional and
  of the final transaction, the simulation, the submission, the polls, and the text of an
  exception.
\<close>

record swap_io =
  built :: "swap_message res"
  provisional :: "unit res"
  simulation :: "py res"
  sign :: "swap_message \<Rightarrow> string res"
  submission :: "py res"
  deadline :: f64
  polls :: "(f64 \<times> py res) list"
  describe :: "exc \<Rightarrow> string"

fun ceil_f64 :: "f64 \<Rightarrow> int res" where
  "ceil_f64 (Fin x) = Inr \<lceil>x\<rceil>"
| "ceil_f64 NaN = Inl (ValueError ''cannot convert float NaN to integer'')"
| "ceil_f64 _ = Inl OverflowError"

definition tuned_limit :: "int \<Rightarrow> int res" where
  "tuned_limit consumed = bindE (f64_of_int consumed) (\<lambda>c.
     bindE (ceil_f64 (f64_mul c COMPUTE_UNIT_MARGIN)) (\<lambda>n. Inr (min MAX_COMPUTE_UNIT_LIMIT n)))"

definition failed_event :: "swap_io \<Rightarrow> string \<Rightarrow> string \<Rightarrow> exc \<Rightarrow> dict" where
  "failed_event io now stage x = lifecycle_event now ''FAILED''
     [(''stage'', PStr stage), (''error'', PStr (take 500 (redact_sensitive_text (describe io x))))]"

text \<open>Simulation, limit and final signature.\<close>

definition simulate_and_sign :: "swap_io \<Rightarrow> swap_message \<Rightarrow> (int \<times> int \<times> string) res" where
  "simulate_and_sign io m =
     bindE (simulate_signed_transaction (simulation io)) (\<lambda>consumed.
     bindE (tuned_limit consumed) (\<lambda>limit.
     bindE (apply_compute_unit_limit m limit) (\<lambda>tuned.
     bindE (sign io tuned) (\<lambda>sig. Inr (consumed, limit, sig)))))"

definition is_timeout :: "exc \<Rightarrow> bool" where
  "is_timeout x = (case x of TimeoutError _ \<Rightarrow> True | StateLockTimeout _ \<Rightarrow> True | _ \<Rightarrow> False)"

text \<open>The landing of a submitted bundle.\<close>

definition confirm_swap :: "env \<Rightarrow> swap_io \<Rightarrow> execution_result \<Rightarrow> string res \<Rightarrow> execution_result" where
  "confirm_swap e io r confirmation = (case confirmation of
     Inr c \<Rightarrow> r\<lparr>landed := True, status := Some ''LANDED'',
       lifecycle := lifecycle r @ [lifecycle_event (utc_now e 3) ''LANDED'' [(''confirmation'', PStr c)]]\<rparr>
   | Inl x \<Rightarrow> (if is_timeout x
       then r\<lparr>status := Some ''UNKNOWN'', lifecycle := lifecycle r @ [lifecycle_event (utc_now e 3) ''UNKNOWN''
              [(''error'', PStr (take 500 (redact_sensitive_text (describe io x))))]]\<rparr>
       else r\<lparr>status := Some ''FAILED'',
              lifecycle := lifecycle r @ [failed_event io (utc_now e 3) ''CONFIRMATION'' x]\<rparr>))"

definition execute_live_swap ::
  "env \<Rightarrow> swap_io \<Rightarrow> string \<Rightarrow> int \<Rightarrow> string \<Rightarrow> int res \<Rightarrow> execution_result res option" where
  "execute_live_swap e io m input_amount urgency tip_result =
     (case bindE tip_result (\<lambda>tip. bindE (built io) (\<lambda>msg. bindE (provisional io) (\<lambda>_. Inr (tip, msg)))) of
        Inl x \<Rightarrow> Some (Inl x)
      | Inr (tip, msg) \<Rightarrow>
          (let r = (unsubmitted m input_amount ''FAILED'')\<lparr>jito_tip_lamports := Some tip,
                 lifecycle := [lifecycle_event (utc_now e 0) ''BUILT''
                   [(''jito_tip_lamports'', PInt tip), (''urgency'', PStr urgency)]]\<rparr>
           in case simulate_and_sign io msg of
             Inl x \<Rightarrow> Some (Inr (r\<lparr>lifecycle := lifecycle r @ [failed_event io (utc_now e 1) ''SIMULATION'' x]\<rparr>))
           | Inr (consumed, limit, sig) \<Rightarrow>
               (let r = r\<lparr>signature := Some sig, compute_units_consumed := Some consumed,
                      compute_unit_limit := Some limit,
                      lifecycle := lifecycle r @ [lifecycle_event (utc_now e 1) ''SIMULATED''
                        [(''compute_units_consumed'', PInt consumed), (''compute_unit_limit'', PInt limit),
                         (''margin'', PFloat COMPUTE_UNIT_MARGIN)]]\<rparr>
                in case send_bundle (submission io) of
                  Inl x \<Rightarrow> Some (Inr (r\<lparr>lifecycle := lifecycle r @ [failed_event io (utc_now e 2) ''SUBMISSION'' x]\<rparr>))
                | Inr bid \<Rightarrow>
                    (let r = r\<lparr>submitted := True, bundle_id := Some bid,
                           lifecycle := lifecycle r @ [lifecycle_event (utc_now e 2) ''SUBMITTED''
                             [(''bundle_id'', PStr bid), (''signature'', PStr sig)]]\<rparr>
                     in map_option (\<lambda>c. Inr (confirm_swap e io r c)) (wait_for_bundle (deadline io) (polls io))))))"

section \<open>Orders\<close>

text \<open>The report of the analyzer: whether to enter, and the route.\<close>

type_synonym entry_report = "bool \<times> string"

definition paper_request :: "string \<Rightarrow> int \<Rightarrow> int \<Rightarrow> f64 \<Rightarrow> string \<Rightarrow> buy_request" where
  "paper_request m amount out impact route =
     \<lparr>mint = m, cost_lamports = amount, token_amount_raw = out, token_decimals = 0, source_wallet = None,
      source_signature = None, safety_score = None, entry_reason = ''analyzer_approved'',
      signal_detected_at = None, analysis_completed_at = None, entry_quote_at = None,
      entry_price_impact = impact, exit_price_impact = Fin 0, expected_slippage_bps = 100,
      whale_reference_price = Fin 0, copy_price_gap = Fin 0, entry_latency_ms = 0, route_type = route,
      dex_momentum_score = Fin 0, strategy_version = ''baseline_v1'', observation_id = None,
      max_strategy_open_positions = None\<rparr>"

text \<open>
  A paper purchase: the size from the ledger's cash, the quote, the impact limit, the record in
  the ledger.  \<open>lk\<close> are the locks of the three ledger transactions.
\<close>

definition paper_buy ::
  "env \<Rightarrow> (nat \<Rightarrow> bool) \<Rightarrow> execution_settings \<Rightarrow> string \<Rightarrow> string \<Rightarrow> dict res \<Rightarrow> state_file
     \<Rightarrow> execution_result res \<times> state_file" where
  "paper_buy e lk settings m route quote f =
     (if jupiter_api_key settings = []
      then (Inl (RuntimeError ''JUPITER_API_KEY is required for paper price quotes''), f)
      else case paper_cash_balance e (lk 0) f of
        (Inl x, f) \<Rightarrow> (Inl x, f)
      | (Inr balance, f) \<Rightarrow>
          (case bindE (route_sized_amount (balance * PAPER_BUY_BASIS_POINTS div 10000) route) (\<lambda>amount.
             bindE quote (\<lambda>q. bindE (validate_entry_price_impact q) (\<lambda>impact.
             bindE (bindE (dindex q ''outAmount'') py_int) (\<lambda>out. Inr (amount, impact, out))))) of
             Inl x \<Rightarrow> (Inl x, f)
           | Inr (amount, impact, out) \<Rightarrow>
               (case record_paper_buy (later 2 e) (lk 1) (lk 2) f (paper_request m amount out impact route) of
                  (Inl x, f) \<Rightarrow> (Inl x, f)
                | (Inr _, f) \<Rightarrow> (Inr (unsubmitted m amount ''paper_buy_recorded''), f))))"

text \<open>
  A live purchase.  \<open>signer\<close> is the key pair, \<open>balance\<close> the answer of the balance query, and \<open>tip\<close>
  the tip for an order of a given size.
\<close>

definition live_buy ::
  "env \<Rightarrow> swap_io \<Rightarrow> environ \<Rightarrow> state_file \<Rightarrow> execution_settings \<Rightarrow> string \<Rightarrow> string \<Rightarrow> string res \<Rightarrow> py res
     \<Rightarrow> dict res \<Rightarrow> (int \<Rightarrow> int res) \<Rightarrow> execution_result res option" where
  "live_buy e io environ wallets settings m route signer balance quote tip =
     (case (if jupiter_api_key settings = []
            then Inl (RuntimeError ''JUPITER_API_KEY is required for live execution'')
            else bindE (validate_live_settings environ wallets settings) (\<lambda>_.
              bindE signer (\<lambda>_. bindE (bindE balance sol_balance) (\<lambda>bal.
              bindE (route_sized_amount (bal * LIVE_BUY_PERCENT div 100) route) (\<lambda>amount.
              if amount \<le> 0 \<or> bal - amount < MIN_FEE_RESERVE_LAMPORTS
              then Inl (RuntimeError ''insufficient SOL balance after the fixed 1% buy and fee reserve'')
              else bindE quote (\<lambda>q. bindE (validate_entry_price_impact q) (\<lambda>_. bindE (tip amount) (\<lambda>t.
                if bal - amount < t + MIN_FEE_RESERVE_LAMPORTS
                then Inl (RuntimeError ''insufficient SOL balance for dynamic Jito tip and fee reserve'')
                else Inr (amount, t))))))))) of
        Inl x \<Rightarrow> Some (Inl x)
      | Inr (amount, t) \<Rightarrow> execute_live_swap e io m amount ''normal'' (Inr t))"

definition execute_buy ::
  "env \<Rightarrow> (nat \<Rightarrow> bool) \<Rightarrow> swap_io \<Rightarrow> environ \<Rightarrow> state_file \<Rightarrow> execution_settings \<Rightarrow> bool \<Rightarrow> entry_report res
     \<Rightarrow> string res \<Rightarrow> py res \<Rightarrow> dict res \<Rightarrow> (int \<Rightarrow> int res) \<Rightarrow> string \<Rightarrow> state_file
     \<Rightarrow> execution_result res option \<times> state_file" where
  "execute_buy e lk io environ wallets settings valid_mint report signer balance quote tip m f =
     (if \<not> valid_mint then (Some (Inl (ValueError (''invalid output mint: '' @ m))), f)
      else case report of
        Inl x \<Rightarrow> (Some (Inl x), f)
      | Inr (should_enter, route) \<Rightarrow>
          (if \<not> should_enter \<or> route \<noteq> ''A'' \<and> route \<noteq> ''B''
           then (Some (Inr (unsubmitted m 0 ''analyzer_rejected'')), f)
           else if trading_mode settings \<noteq> ''live''
           then (let (r, f) = paper_buy e lk settings m route quote f in (Some r, f))
           else (live_buy e io environ wallets settings m route signer balance quote tip, f)))"

text \<open>A sale: \<open>balance\<close> answers the query for the token accounts, \<open>quote\<close> the quote of an amount.\<close>

definition execute_sell ::
  "env \<Rightarrow> swap_io \<Rightarrow> environ \<Rightarrow> state_file \<Rightarrow> execution_settings \<Rightarrow> string res \<Rightarrow> py res \<Rightarrow> (int \<Rightarrow> dict res)
     \<Rightarrow> (int \<Rightarrow> string \<Rightarrow> int res) \<Rightarrow> string \<Rightarrow> int \<Rightarrow> string \<Rightarrow> execution_result res option" where
  "execute_sell e io environ wallets settings signer balance quote tip m percent urgency =
     (if percent \<noteq> 50 \<and> percent \<noteq> 100
      then Some (Inl (ValueError ''risk exits may sell only 50% or 100%''))
      else if trading_mode settings \<noteq> ''live''
      then Some (Inr (unsubmitted m 0 (''paper_sell_'' @ dec_int percent)))
      else case (if jupiter_api_key settings = []
            then Inl (RuntimeError ''JUPITER_API_KEY is required for live execution'')
            else bindE (validate_live_settings environ wallets settings) (\<lambda>_. bindE signer (\<lambda>_.
              bindE (bindE balance token_balance) (\<lambda>bal.
              let amount = (if percent = 100 then bal else bal div 2) in
              if amount \<le> 0 then Inl (RuntimeError ''no token balance available to sell'')
              else bindE (quote amount) (\<lambda>q. bindE (bindE (dindex q ''outAmount'') py_int) (\<lambda>out.
                Inr (amount, out))))))) of
        Inl x \<Rightarrow> Some (Inl x)
      | Inr (amount, out) \<Rightarrow> execute_live_swap e io m amount urgency (tip out urgency))"

text \<open>The exit code of the command line.\<close>

definition exit_code :: "execution_result \<Rightarrow> int" where
  "exit_code r = (if landed r \<or> status r = Some ''paper_mode_pass'' then 0 else 2)"

end
