(* ===== verification/ExecutorOrders.thy ===== *)
theory ExecutorOrders
  imports Executor
begin

text \<open>
  Properties of the executor: the size of an order, the bounds of the tip, the compute limit in
  the transaction, the lifecycle of a live swap, the guards of a live purchase, and what a paper
  purchase does to the ledger.
\<close>

section \<open>Sizes and tips\<close>

lemma route_b_size:
  assumes "0 \<le> n" "n < 10 ^ 26"
  shows "route_sized_amount n ''B'' = Inr (n * 15 div 100)"
proof -
  have meta: "normalized_route_metadata ''B'' (Fin 0) = Inr (''B'', f64_round (Fin 0) 4)" by code_simp
  have "\<bar>15 * n\<bar> < 10 ^ 28" using assms by simp
  from dec_round_hundredths [OF this] have "dec_round (of_int n * (15 / 100)) = of_int (15 * n) / 100"
    by (simp add: mult.commute)
  then have "dec_mul (Dec (of_int n)) ROUTE_B_SIZE_MULTIPLIER = Inr (Dec (of_int (15 * n) / 100))"
    by (simp only: dec_mul_def dec_nan_def ROUTE_B_SIZE_MULTIPLIER_def prod.case decimal.case decimal.distinct if_False
        disj_not1 simp_thms)
  then have "route_sized_amount n ''B'' = Inr (trunc_rat (of_int (15 * n) / 100))"
    unfolding route_sized_amount_def meta by simp
  moreover have "trunc_rat (of_int (15 * n) / 100) = 15 * n div 100"
    using assms(1) floor_divide_of_int_eq [of "15 * n" 100, where 'a = rat] by (simp add: trunc_rat_def)
  ultimately show ?thesis by (simp add: mult.commute)
qed

text \<open>An order of the second route is sized to 15 percent of the base, rounded down: the decimal product of
  the code is exact for every base below \<open>10 ^ 26\<close> lamports, so no rounding of the decimal context shows.\<close>
theorem route_b_sized_to_fifteen_percent:
  assumes "0 \<le> n" "n < 10 ^ 26"
  shows "route_sized_amount n ''B'' = Inr (n * 15 div 100)"
  by (rule route_b_size [OF assms])

theorem route_b_sized_to_fifteen_percent_witness: "route_sized_amount 50000000 ''B'' = Inr 7500000"
  using route_b_sized_to_fifteen_percent [of 50000000] by simp

text \<open>A tip that is paid lies between the builder's minimum of 1000 lamports and both caps, 2 percent of
  the order and 30 million lamports, whatever the tip service answers; smaller orders are refused.\<close>
theorem tip_within_caps:
  assumes "dynamic_jito_tip notional urgency tip_floor last_tip = (Inr tip, last_tip')"
  shows "1000 \<le> tip \<and> tip \<le> 30000000 \<and> tip * 10000 \<le> notional * 200"
proof -
  have cap: "1000 \<le> tip_cap notional" and tip: "\<exists>w. tip = max 1000 (min w (tip_cap notional))"
    using assms by (auto simp: dynamic_jito_tip_def Let_def JITO_MIN_TIP_LAMPORTS_def split: if_splits sum.splits)
  have "tip \<le> tip_cap notional" "1000 \<le> tip" using cap tip by auto
  moreover have "tip_cap notional \<le> 30000000" by (simp add: tip_cap_def MAX_ABSOLUTE_FEE_LAMPORTS_def)
  moreover have "tip_cap notional * 10000 \<le> notional * 200"
    using cap by (simp add: tip_cap_def MAX_FEE_BASIS_POINTS_def) linarith
  ultimately show ?thesis by linarith
qed

theorem tip_within_caps_witness:
  "\<exists>tip l. dynamic_jito_tip 1000000000 ''normal'' (Inl (TimeoutError '''')) None = (Inr tip, l) \<and> tip * 10000 \<le> 1000000000 * 200"
proof -
  have "dynamic_jito_tip 1000000000 ''normal'' (Inl (TimeoutError '''')) None = (Inr 2000000, None)" by code_simp
  from tip_within_caps [OF this] this show ?thesis by blast
qed

section \<open>The compute limit\<close>

definition le_value :: "int list \<Rightarrow> int" where
  "le_value bs = foldr (\<lambda>b n. b + 256 * n) bs 0"

lemma le_value_bytes: "0 \<le> n \<Longrightarrow> n < 256 ^ k \<Longrightarrow> le_value (le_bytes k n) = n"
proof (induction k arbitrary: n)
  case (Suc k)
  have "le_bytes (Suc k) n = n mod 256 # le_bytes k (n div 256)"
    by (simp add: le_bytes_def upt_conv_Cons map_Suc_upt [symmetric] zdiv_zmult2_eq del: upt_Suc)
  moreover have "le_value (le_bytes k (n div 256)) = n div 256"
  proof (rule Suc.IH)
    have "n < 256 * 256 ^ k" using Suc.prems(2) by simp
    then show "n div 256 < 256 ^ k" by (rule contrapos_pp) linarith
  qed (use Suc.prems(1) in simp)
  ultimately show ?case by (simp add: le_value_def)
qed (simp add: le_value_def le_bytes_def)

text \<open>C20: The compute limit that is written into a transaction reads back as the limit: every instruction that
  sets it carries the tag and the limit's four bytes, at least one exists, and every other part of
  the message, the accounts and the order of the instructions included, is unchanged.\<close>
theorem compute_limit_reads_back:
  assumes "apply_compute_unit_limit m units = Inr m'"
  shows "m' = m\<lparr>instructions := instructions m'\<rparr> \<and> length (instructions m') = length (instructions m) \<and>
    (\<exists>i < length (instructions m). sets_compute_limit (account_keys m) (instructions m ! i)) \<and>
    (\<forall>i < length (instructions m). if sets_compute_limit (account_keys m) (instructions m ! i)
       then (\<exists>bs. instructions m' ! i = (instructions m ! i)\<lparr>data := 2 # bs\<rparr> \<and> length bs = 4 \<and> le_value bs = units)
       else instructions m' ! i = instructions m ! i)"
proof -
  obtain tuned where t: "mapE (tune_instruction (account_keys m) units) (instructions m) = Inr tuned"
      "m' = m\<lparr>instructions := tuned\<rparr>" "list_ex (sets_compute_limit (account_keys m)) (instructions m)"
    and u: "0 < units" "units \<le> 1400000"
    using assms by (auto simp: apply_compute_unit_limit_def bindE_eq_Inr MAX_COMPUTE_UNIT_LIMIT_def
        split: if_splits message_version.splits)
  have bytes: "length (le_bytes 4 units) = 4" "le_value (le_bytes 4 units) = units"
    using u le_value_bytes [of units 4] by (simp_all add: le_bytes_def)
  have "if sets_compute_limit (account_keys m) (instructions m ! i)
       then (\<exists>bs. tuned ! i = (instructions m ! i)\<lparr>data := 2 # bs\<rparr> \<and> length bs = 4 \<and> le_value bs = units)
       else tuned ! i = instructions m ! i" if "i < length (instructions m)" for i
    using mapE_nth [OF t(1) that] bytes
    by (auto simp: tune_instruction_def compute_limit_data_def split: if_splits intro!: exI [of _ "le_bytes 4 units"])
  moreover have "\<exists>i < length (instructions m). sets_compute_limit (account_keys m) (instructions m ! i)"
    using t(3) by (auto simp: list_ex_iff in_set_conv_nth)
  ultimately show ?thesis using t(2) mapE_length [OF t(1)] by simp
qed

definition sample_message :: swap_message where
  "sample_message = \<lparr>version = V0, fixed_parts = ''header'', account_keys = [''payer'', COMPUTE_BUDGET_PROGRAM],
     instructions = [\<lparr>program_id_index = 1, data = [2, 0, 0, 0, 0], accounts = []\<rparr>,
                     \<lparr>program_id_index = 0, data = [7], accounts = [0]\<rparr>]\<rparr>"

theorem compute_limit_reads_back_witness:
  "\<exists>m'. apply_compute_unit_limit sample_message 220000 = Inr m' \<and> length (instructions m') = 2"
proof -
  obtain m' where m': "apply_compute_unit_limit sample_message 220000 = Inr m'"
    by (simp add: apply_compute_unit_limit_def MAX_COMPUTE_UNIT_LIMIT_def sample_message_def tune_instruction_def sets_compute_limit_def)
  from compute_limit_reads_back [OF m'] m' show ?thesis by (auto simp: sample_message_def)
qed

section \<open>The lifecycle of a swap\<close>

definition event_status :: "dict \<Rightarrow> py" where
  "event_status ev = dgetn ev ''status''"

lemma lifecycle_event_status:
  "dget (rev details) ''status'' = None \<Longrightarrow> event_status (lifecycle_event now st details) = PStr st"
  by (simp add: event_status_def lifecycle_event_def dgetn_def dget_or_def dget_dupdate)

lemma failed_event_status: "event_status (failed_event io now stage x) = PStr ''FAILED''"
  by (simp add: failed_event_def lifecycle_event_status)

text \<open>The states of a swap, and the steps between them.\<close>

inductive swap_step :: "string \<Rightarrow> string \<Rightarrow> bool" where
  simulate: "swap_step ''BUILT'' ''SIMULATED''"
| fail_simulation: "swap_step ''BUILT'' ''FAILED''"
| submit: "swap_step ''SIMULATED'' ''SUBMITTED''"
| fail_submission: "swap_step ''SIMULATED'' ''FAILED''"
| land: "swap_step ''SUBMITTED'' ''LANDED''"
| lose: "swap_step ''SUBMITTED'' ''UNKNOWN''"
| fail_confirmation: "swap_step ''SUBMITTED'' ''FAILED''"

declare swap_step.intros [intro]

inductive_cases swap_step_from_failed: "swap_step ''FAILED'' st"
inductive_cases swap_step_to_landed: "swap_step st ''LANDED''"

inductive swap_path :: "string list \<Rightarrow> bool" where
  start: "swap_path [''BUILT'']"
| follow: "swap_path (sts @ [st]) \<Longrightarrow> swap_step st st' \<Longrightarrow> swap_path (sts @ [st, st'])"

lemma swap_path_2: "swap_step ''BUILT'' a \<Longrightarrow> swap_path [''BUILT'', a]"
  using follow [of "[]" "''BUILT''" a] start by simp

lemma swap_path_3: "swap_path [''BUILT'', a] \<Longrightarrow> swap_step a b \<Longrightarrow> swap_path [''BUILT'', a, b]"
  using follow [of "[''BUILT'']" a b] by simp

lemma swap_path_4: "swap_path [''BUILT'', a, b] \<Longrightarrow> swap_step b c \<Longrightarrow> swap_path [''BUILT'', a, b, c]"
  using follow [of "[''BUILT'', a]" b c] by simp

text \<open>What a result says of its lifecycle.\<close>

definition consistent_result :: "execution_result \<Rightarrow> bool" where
  "consistent_result r \<longleftrightarrow> (\<exists>sts. map event_status (lifecycle r) = map PStr sts \<and> swap_path sts \<and>
     status r = Some (last sts) \<and> (submitted r \<longleftrightarrow> ''SUBMITTED'' \<in> set sts) \<and> (landed r \<longleftrightarrow> last sts = ''LANDED'') \<and>
     (submitted r \<longleftrightarrow> bundle_id r \<noteq> None) \<and> last sts \<in> {''LANDED'', ''UNKNOWN'', ''FAILED''})"

lemma consistentI:
  assumes "map event_status (lifecycle r) = map PStr sts" "swap_path sts" "status r = Some (last sts)"
    "submitted r \<longleftrightarrow> ''SUBMITTED'' \<in> set sts" "landed r \<longleftrightarrow> last sts = ''LANDED''" "submitted r \<longleftrightarrow> bundle_id r \<noteq> None"
    "last sts \<in> {''LANDED'', ''UNKNOWN'', ''FAILED''}"
  shows "consistent_result r"
  using assms unfolding consistent_result_def by blast

lemma swap_paths:
  "swap_path [''BUILT'', ''FAILED'']" "swap_path [''BUILT'', ''SIMULATED'', ''FAILED'']"
  "c \<in> {''LANDED'', ''UNKNOWN'', ''FAILED''} \<Longrightarrow> swap_path [''BUILT'', ''SIMULATED'', ''SUBMITTED'', c]"
  by (auto intro!: swap_path_2 swap_path_3 swap_path_4)

lemma confirmed_consistent:
  assumes "map event_status (lifecycle r) = [PStr ''BUILT'', PStr ''SIMULATED'', PStr ''SUBMITTED'']"
    "submitted r" "\<not> landed r" "bundle_id r \<noteq> None"
  shows "consistent_result (confirm_swap e io r c)"
proof -
  define st where "st = (case c of Inr _ \<Rightarrow> ''LANDED'' | Inl x \<Rightarrow> if is_timeout x then ''UNKNOWN'' else ''FAILED'')"
  have "map event_status (lifecycle (confirm_swap e io r c)) = map PStr [''BUILT'', ''SIMULATED'', ''SUBMITTED'', st]"
    "status (confirm_swap e io r c) = Some st" "landed (confirm_swap e io r c) \<longleftrightarrow> st = ''LANDED''"
    "submitted (confirm_swap e io r c)" "bundle_id (confirm_swap e io r c) \<noteq> None"
    using assms
    by (auto simp: confirm_swap_def st_def lifecycle_event_status failed_event_status split: sum.splits)
  moreover have "st \<in> {''LANDED'', ''UNKNOWN'', ''FAILED''}" by (simp add: st_def split: sum.split)
  moreover from swap_paths(3) [OF this] have "swap_path [''BUILT'', ''SIMULATED'', ''SUBMITTED'', st]" .
  ultimately show ?thesis by (intro consistentI [of _ "[''BUILT'', ''SIMULATED'', ''SUBMITTED'', st]"]) simp_all
qed

text \<open>C18: The lifecycle of a live swap is a path of its state machine: it is built, then simulated, then
  submitted, then it lands, is lost from sight or fails, and it may fail at each stage.  The result
  says submitted exactly if a bundle was submitted (after a successful simulation), landed exactly if
  it landed, and its status is the last state.\<close>
theorem swap_lifecycle_is_a_path:
  assumes "execute_live_swap e io m amount urgency tip_result = Some (Inr r)"
  shows "consistent_result r"
proof -
  note st = lifecycle_event_status failed_event_status
  obtain tip msg where pre: "bindE tip_result (\<lambda>tip. bindE (built io) (\<lambda>msg. bindE (provisional io) (\<lambda>_. Inr (tip, msg)))) = Inr (tip, msg)"
    using assms by (auto simp: execute_live_swap_def split: sum.splits)
  note run = assms [unfolded execute_live_swap_def pre sum.case prod.case Let_def]
  show ?thesis
  proof (cases "simulate_and_sign io msg")
    case (Inl x)
    then show ?thesis using run swap_paths(1)
      by (intro consistentI [of _ "[''BUILT'', ''FAILED'']"]) (auto simp: unsubmitted_def st)
  next
    case sim: (Inr a)
    obtain consumed limit sig where a: "a = (consumed, limit, sig)" by (cases a) auto
    show ?thesis
    proof (cases "send_bundle (submission io)")
      case (Inl x)
      then show ?thesis using run sim a swap_paths(2)
        by (intro consistentI [of _ "[''BUILT'', ''SIMULATED'', ''FAILED'']"]) (auto simp: unsubmitted_def st)
    next
      case (Inr bid)
      then obtain c r0 where "r = confirm_swap e io r0 c" "submitted r0" "\<not> landed r0" "bundle_id r0 \<noteq> None"
          "map event_status (lifecycle r0) = [PStr ''BUILT'', PStr ''SIMULATED'', PStr ''SUBMITTED'']"
        using run sim a by (auto simp: unsubmitted_def st)
      then show ?thesis by (simp add: confirmed_consistent)
    qed
  qed
qed

definition sample_swap_io :: swap_io where
  "sample_swap_io = \<lparr>built = Inr sample_message, provisional = Inr (),
     simulation = Inr (PDict [(''result'', PDict [(''value'', PDict [(''unitsConsumed'', PInt 200000)])])]),
     sign = (\<lambda>_. Inr ''sig''), submission = Inr (PDict [(''result'', PStr ''bundle'')]), deadline = Fin 100,
     polls = [(Fin 120, Inr PNone)], describe = (\<lambda>_. ''late'')\<rparr>"

lemma sample_swap_runs:
  "\<exists>r. execute_live_swap sample_env sample_swap_io m amount urgency (Inr 2000) = Some (Inr r) \<and> submitted r \<and> \<not> landed r"
proof -
  have s: "simulate_signed_transaction (simulation sample_swap_io) = Inr 200000"
    by (simp add: sample_swap_io_def simulate_signed_transaction_def json_rpc_def sub_dict_def py_or_def)
  obtain limit where l: "tuned_limit 200000 = Inr limit" "0 < limit" "limit \<le> MAX_COMPUTE_UNIT_LIMIT"
  proof -
    have "tuned_limit 200000 = Inr 220000 \<or> tuned_limit 200000 = Inr 220001" by code_simp
    then show ?thesis by (elim disjE) (auto intro: that simp: MAX_COMPUTE_UNIT_LIMIT_def)
  qed
  obtain m' where m': "apply_compute_unit_limit sample_message limit = Inr m'"
    using l by (simp add: apply_compute_unit_limit_def sample_message_def tune_instruction_def sets_compute_limit_def)
  have sim: "simulate_and_sign sample_swap_io sample_message = Inr (200000, limit, ''sig'')"
    by (simp add: simulate_and_sign_def s l(1) m' del: bindE_eq_Inr) (simp add: sample_swap_io_def)
  have sub: "send_bundle (submission sample_swap_io) = Inr ''bundle''"
    by (simp add: sample_swap_io_def send_bundle_def json_rpc_def)
  have wait: "wait_for_bundle (deadline sample_swap_io) (polls sample_swap_io) =
      Some (Inl (TimeoutError ''bundle landing is unconfirmed; do not resubmit until signature history is checked''))"
    by (simp add: sample_swap_io_def f64_lt_def)
  have made: "built sample_swap_io = Inr sample_message" "provisional sample_swap_io = Inr ()"
    by (simp_all add: sample_swap_io_def)
  show ?thesis by (simp add: execute_live_swap_def made sim sub wait Let_def confirm_swap_def is_timeout_def unsubmitted_def)
qed

theorem swap_lifecycle_is_a_path_witness:
  "\<exists>r. execute_live_swap sample_env sample_swap_io ''M'' 5000000 ''normal'' (Inr 2000) = Some (Inr r) \<and> consistent_result r"
  using sample_swap_runs swap_lifecycle_is_a_path by blast

section \<open>Live purchases\<close>

lemma normalized_route_cases: "normalized_route_metadata route x = Inr (r, y) \<Longrightarrow> r = ''A'' \<or> r = ''B''"
  by (auto simp: normalized_route_metadata_def Let_def split: if_splits)

lemma sized_amount_cases:
  assumes "route_sized_amount n route = Inr amount" "0 \<le> n" "n < 10 ^ 26"
  shows "amount = n \<or> amount = n * 15 div 100"
proof -
  obtain r y where r: "normalized_route_metadata route (Fin 0) = Inr (r, y)"
    using assms(1) by (auto simp: route_sized_amount_def bindE_eq_Inr)
  have "route_sized_amount n r = route_sized_amount n route" if "r = ''B''"
  proof -
    have "normalized_route_metadata ''B'' (Fin 0) = Inr (''B'', f64_round (Fin 0) 4)" by code_simp
    with that r show ?thesis by (simp add: route_sized_amount_def)
  qed
  then show ?thesis using assms r route_b_size [OF assms(2,3)]
    by (cases "r = ''B''") (auto simp: route_sized_amount_def)
qed

lemma impact_limits: "MAX_ENTRY_PRICE_IMPACT_PCT = Fin (3/2)" "MAX_EXIT_PRICE_IMPACT_PCT = Fin (7/2)"
  by code_simp+

lemma entry_impact_range:
  "validate_entry_price_impact quote = Inr x \<Longrightarrow> \<exists>a. entry_price_impact_pct quote = Inr (Fin a) \<and> x = Fin a \<and> 0 \<le> a \<and> a \<le> 3/2"
  by (cases x) (auto simp: validate_entry_price_impact_def bindE_eq_Inr impact_limits f64_lt_def split: if_splits)

lemma exit_impact_range:
  "validate_exit_price_impact quote = Inr x \<Longrightarrow> \<exists>a. entry_price_impact_pct quote = Inr (Fin a) \<and> x = Fin a \<and> 0 \<le> a \<and> a < 7/2"
  by (cases x) (auto simp: validate_exit_price_impact_def bindE_eq_Inr impact_limits f64_lt_def split: if_splits)

text \<open>The settings and the wallets a live order is placed with.\<close>

definition live_settings_safe :: "environ \<Rightarrow> state_file \<Rightarrow> execution_settings \<Rightarrow> bool" where
  "live_settings_safe environ wallets s \<longleftrightarrow>
     strip (env_or environ ''SOLANA_PRIVATE_KEY'' []) = []
     \<and> live_acknowledgement s = ''I_UNDERSTAND_LIVE_TRADING_RISK''
     \<and> starts_with (rpc_url s) ''https://'' \<and> contains (rpc_url s) ''mainnet''
     \<and> starts_with (jito_url s) ''https://'' \<and> contains (jito_url s) ''mainnet''
     \<and> (\<exists>d rows. wallets = Content (PDict d) \<and> py_iter (dget_or d ''wallets'' (PList [])) = Inr rows
         \<and> truthy (dget_or d ''wallets'' (PList []))
         \<and> (\<forall>row \<in> set rows. \<exists>w. row = PDict w \<and> dgetn w ''verified'' = PBool True))"

lemma verified_wallet_row: "verified_wallet row \<Longrightarrow> \<exists>w. row = PDict w \<and> dgetn w ''verified'' = PBool True"
  by (cases row) auto

lemma as_dict_Inr: "as_dict v = Inr d \<Longrightarrow> v = PDict d"
  by (cases v) auto

lemma live_wallets_rows: "live_wallets f = Inr v \<Longrightarrow> \<exists>d. f = Content (PDict d) \<and> v = dget_or d ''wallets'' (PList [])"
  by (auto simp: live_wallets_def bindE_eq_Inr dest!: as_dict_Inr split: state_file.splits)

lemma validated_settings_safe:
  assumes "validate_live_settings environ wallets s = Inr ()"
  shows "live_settings_safe environ wallets s"
proof -
  obtain v rows where v: "live_wallets wallets = Inr v" "truthy v" "py_iter v = Inr rows" "list_all verified_wallet rows"
    using assms by (auto simp: validate_live_settings_def bindE_eq_Inr split: if_splits)
  moreover have "\<forall>row \<in> set rows. \<exists>w. row = PDict w \<and> dgetn w ''verified'' = PBool True"
    using v(4) verified_wallet_row by (auto simp: list_all_iff)
  ultimately show ?thesis using assms live_wallets_rows [OF v(1)]
    unfolding live_settings_safe_def by (auto simp: validate_live_settings_def split: if_splits)
qed


definition sample_settings :: execution_settings where
  "sample_settings = \<lparr>rpc_url = ''https://mainnet'', trading_mode = ''live'', encrypted_private_key = ''k'',
     jupiter_api_key = ''key'', jito_url = ''https://mainnet'', expected_wallet_address = ''W'',
     live_acknowledgement = ''I_UNDERSTAND_LIVE_TRADING_RISK''\<rparr>"

definition sample_wallets :: state_file where
  "sample_wallets = Content (PDict [(''wallets'', PList [PDict [(''verified'', PBool True)]])])"

lemma sample_settings_valid: "validate_live_settings (\<lambda>_. None) sample_wallets sample_settings = Inr ()"
proof -
  have "live_wallets sample_wallets = Inr (PList [PDict [(''verified'', PBool True)]])"
    by (simp add: live_wallets_def sample_wallets_def)
  then show ?thesis
    unfolding validate_live_settings_def by (simp add: sample_settings_def env_or_def, code_simp)
qed


section \<open>Paper purchases\<close>

lemma current_ledger_read:
  assumes "file_holds wf_ledger f" "read_ledger e lk f = (res, f')"
  shows "f' = f \<and> (\<forall>d. res = Inr d \<longrightarrow> wf_ledger d \<and> same_money (file_ledger f) d)"
proof (cases "read_json ledger_path f (empty_ledger (utc_now e 0))")
  case (Inr d)
  note r = read_file_ledger [OF assms(1) Inr]
  obtain v where v: "int_field d ''schema_version'' 1 = Inr v" "\<not> v < 2"
    using wf_int_field_schema [OF r(1)] by auto
  have "dsetdefault ''events'' (PList []) (dsetdefault ''positions'' (PDict []) d) = d"
    using wf_ledgerD [OF r(1)] by (simp add: dsetdefault_def dhas_def)
  then show ?thesis using assms(2) r v by (auto simp: read_ledger_def Inr)
qed (use assms(2) in \<open>auto simp: read_ledger_def\<close>)

lemma paper_balance_is_cash:
  assumes "file_holds wf_ledger f" "paper_cash_balance e lk f = (res, f')"
  shows "f' = f \<and> (\<forall>n. res = Inr n \<longrightarrow> n = cash (file_ledger f))"
proof -
  obtain r f1 where rd: "read_ledger e lk f = (r, f1)" by (cases "read_ledger e lk f")
  note c = current_ledger_read [OF assms(1) rd]
  show ?thesis
  proof (cases r)
    case (Inr d)
    then have "wf_ledger d" "same_money (file_ledger f) d" using c by auto
    moreover have "dget d ''cash_lamports'' = Some (PInt (cash d))"
      using wf_ledgerD [OF \<open>wf_ledger d\<close>] by (simp add: cash_def has_intE)
    ultimately show ?thesis using assms(2) c
      by (auto simp: paper_cash_balance_def rd Inr dindex_def same_money_def)
  qed (use assms(2) c in \<open>auto simp: paper_cash_balance_def rd\<close>)
qed

lemma paper_request_fields [simp]:
  "mint (paper_request m amount out impact route) = m" "cost_lamports (paper_request m amount out impact route) = amount"
  by (simp_all add: paper_request_def)

lemma paper_buy_accounts:
  assumes "file_holds wf_ledger f" "paper_buy e lk settings m route quote f = (res, f')"
  shows "file_holds wf_ledger f' \<and> (case res of
       Inl _ \<Rightarrow> same_money (file_ledger f) (file_ledger f')
     | Inr r \<Rightarrow> (\<exists>amount. r = unsubmitted m amount ''paper_buy_recorded'' \<and>
         route_sized_amount (cash (file_ledger f) * 50 div 10000) route = Inr amount \<and>
         cash (file_ledger f') = cash (file_ledger f) - amount \<and>
         held_cost (file_ledger f') = held_cost (file_ledger f) + amount \<and>
         dhas (ledger_positions (file_ledger f')) m))"
proof (cases "jupiter_api_key settings = []")
  case False
  obtain b f1 where b: "paper_cash_balance e (lk 0) f = (b, f1)" by (cases "paper_cash_balance e (lk 0) f")
  note bal = paper_balance_is_cash [OF assms(1) b]
  define prep where "prep = (\<lambda>balance. bindE (route_sized_amount (balance * PAPER_BUY_BASIS_POINTS div 10000) route) (\<lambda>amount.
             bindE quote (\<lambda>q. bindE (validate_entry_price_impact q) (\<lambda>impact.
             bindE (bindE (dindex q ''outAmount'') py_int) (\<lambda>out. Inr (amount, impact, out))))))"
  note run = assms(2) [unfolded paper_buy_def b, folded prep_def]
  show ?thesis
  proof (cases b)
    case (Inl x)
    then show ?thesis using run bal False assms(1) by (auto simp: same_money_def)
  next
    case (Inr n)
    show ?thesis
    proof (cases "prep n")
      case (Inl x)
      then show ?thesis using run bal False Inr assms(1) by (auto simp: prep_def same_money_def)
    next
      case prep: (Inr p)
      obtain amount impact out where p: "p = (amount, impact, out)" by (cases p)
      have sized: "route_sized_amount (cash (file_ledger f) * 50 div 10000) route = Inr amount"
        using prep p bal Inr by (auto simp: prep_def bindE_eq_Inr PAPER_BUY_BASIS_POINTS_def)
      obtain u f2 where u: "record_paper_buy (later 2 e) (lk 1) (lk 2) f (paper_request m amount out impact route) = (u, f2)"
        by fastforce
      note rec = record_paper_buy_file [OF assms(1) u]
      show ?thesis
        using run [unfolded Inr] bal False prep p u rec sized
        by (cases u) (auto simp: prep_def bought_def)
    qed
  qed
qed (use assms in \<open>auto simp: paper_buy_def same_money_def\<close>)

text \<open>C17: A purchase in paper mode keeps the accounts of the ledger: it spends exactly half a percent of the cash
  (15 percent of that on the second route), which becomes the cost of a position in the bought token, or,
  on every rejection and every error, it leaves the cash and the costs as they were.\<close>
theorem paper_purchase_accounts:
  assumes "file_holds wf_ledger f" "trading_mode settings \<noteq> ''live''"
    "execute_buy e lk io environ wallets settings valid_mint report signer balance quote tip m f = (res, f')"
  shows "file_holds wf_ledger f' \<and> (same_money (file_ledger f) (file_ledger f') \<or>
    (\<exists>route amount. report = Inr (True, route) \<and> (route = ''A'' \<or> route = ''B'') \<and>
       res = Some (Inr (unsubmitted m amount ''paper_buy_recorded'')) \<and>
       route_sized_amount (cash (file_ledger f) * 50 div 10000) route = Inr amount \<and>
       cash (file_ledger f') = cash (file_ledger f) - amount \<and>
       held_cost (file_ledger f') = held_cost (file_ledger f) + amount \<and>
       dhas (ledger_positions (file_ledger f')) m))"
proof (cases "f' = f")
  case False
  then obtain route r where r: "report = Inr (True, route)" "route = ''A'' \<or> route = ''B''"
      "paper_buy e lk settings m route quote f = (r, f')" "res = Some r"
    using assms(2,3) by (auto simp: execute_buy_def Let_def split: if_splits sum.splits prod.splits)
  from paper_buy_accounts [OF assms(1) r(3)] show ?thesis using r by (cases r) auto
qed (use assms(1) in \<open>simp add: same_money_def\<close>)

theorem paper_purchase_accounts_witness:
  "\<exists>res f'. execute_buy sample_env (\<lambda>_. False) sample_swap_io (\<lambda>_. None) sample_wallets
      (sample_settings\<lparr>trading_mode := ''paper''\<rparr>) True (Inr (True, ''A'')) (Inr ''W'') (Inr PNone)
      (Inr sample_quote) (\<lambda>_. Inr 2000) ''N'' (Content (PDict sample_ledger)) = (res, f') \<and> file_holds wf_ledger f'"
proof -
  have wf: "file_holds wf_ledger (Content (PDict sample_ledger))" by (simp add: wf_sample_ledger)
  have mode: "trading_mode (sample_settings\<lparr>trading_mode := ''paper''\<rparr>) \<noteq> ''live''" by simp
  obtain res f' where run: "execute_buy sample_env (\<lambda>_. False) sample_swap_io (\<lambda>_. None) sample_wallets
      (sample_settings\<lparr>trading_mode := ''paper''\<rparr>) True (Inr (True, ''A'')) (Inr ''W'') (Inr PNone)
      (Inr sample_quote) (\<lambda>_. Inr 2000) ''N'' (Content (PDict sample_ledger)) = (res, f')" by fastforce
  from paper_purchase_accounts [OF wf mode this] run show ?thesis by blast
qed

end
