(* ===== verification/RiskLoop.thy ===== *)
theory RiskLoop
  imports ExecutorOrders
begin

text \<open>
  The risk loop of \<open>src/risk_manager.py\<close>: closing a position by hand, the exit of a paper position
  (claim, quote, sale or return of the claim), the evaluation of a position against its stops, and
  the cycles of the loop in paper and in live mode.

  Between two transactions of an exit other processes run theirs: \<open>others io k\<close> is what they do to
  the ledger file before the \<open>k\<close>-th transaction.  The clock, the identifiers, the locks and the
  quotes are the other fields of \<open>io\<close>.
\<close>

section \<open>The steps of an exit\<close>

record exit_io =
  op_env :: "nat \<Rightarrow> env"
  op_lock :: "nat \<Rightarrow> bool \<times> bool"
  others :: "nat \<Rightarrow> state_file \<Rightarrow> state_file"
  exit_quote :: "int \<Rightarrow> dict res"
  quote_age :: int
  failure_now :: int
  failure_text :: "exc \<Rightarrow> error_text"

text \<open>The same run after \<open>n\<close> transactions.\<close>

definition after_ops :: "nat \<Rightarrow> exit_io \<Rightarrow> exit_io" where
  "after_ops n io = io\<lparr>op_env := (\<lambda>k. op_env io (k + n)), op_lock := (\<lambda>k. op_lock io (k + n)),
     others := (\<lambda>k. others io (k + n))\<rparr>"

definition claim_step ::
  "exit_io \<Rightarrow> nat \<Rightarrow> string \<Rightarrow> string \<Rightarrow> string \<Rightarrow> state_file \<Rightarrow> (string \<times> int) option res \<times> state_file" where
  "claim_step io k m i reason f =
     claim_position_exit (op_env io k) (snd (op_lock io k)) (others io k f) m i reason"

definition release_step ::
  "exit_io \<Rightarrow> nat \<Rightarrow> string \<Rightarrow> string \<Rightarrow> string \<Rightarrow> bool \<Rightarrow> state_file \<Rightarrow> unit res \<times> state_file" where
  "release_step io k m i x degraded f =
     release_exit_claim (op_env io k) (snd (op_lock io k)) (others io k f) m i x degraded"

definition failure_step ::
  "exit_io \<Rightarrow> nat \<Rightarrow> string \<Rightarrow> string \<Rightarrow> exc \<Rightarrow> state_file \<Rightarrow> (int \<times> string) option res \<times> state_file" where
  "failure_step io k m i x f =
     record_quote_failure (op_env io k) (failure_now io) (snd (op_lock io k)) (others io k f) m i (failure_text io x)"

definition mark_step ::
  "exit_io \<Rightarrow> nat \<Rightarrow> string \<Rightarrow> string \<Rightarrow> int \<Rightarrow> state_file \<Rightarrow> unit res \<times> state_file" where
  "mark_step io k m i value f =
     record_position_mark (op_env io k) (snd (op_lock io k)) (others io k f) m i value"

definition sale_step :: "exit_io \<Rightarrow> nat \<Rightarrow> sell_request \<Rightarrow> state_file \<Rightarrow> sell_result res \<times> state_file" where
  "sale_step io k s f = record_paper_sell (op_env io k) (fst (op_lock io k)) (snd (op_lock io k)) (others io k f) s"

text \<open>The handler around a claimed exit: release the claim, record the failure, raise again.\<close>

definition give_back ::
  "exit_io \<Rightarrow> nat \<Rightarrow> string \<Rightarrow> string \<Rightarrow> string \<Rightarrow> exc \<Rightarrow> state_file \<Rightarrow> 'a res \<times> state_file" where
  "give_back io k m i x failure f = (case release_step io k m i x True f of
     (Inl y, f) \<Rightarrow> (Inl y, f)
   | (Inr _, f) \<Rightarrow> (case failure_step io (k + 1) m i failure f of
         (Inl y, f) \<Rightarrow> (Inl y, f)
       | (Inr _, f) \<Rightarrow> (Inl failure, f)))"

section \<open>Closing by hand\<close>

definition manual_request :: "exit_io \<Rightarrow> string \<Rightarrow> string \<Rightarrow> string \<Rightarrow> int \<Rightarrow> int \<Rightarrow> sell_request" where
  "manual_request io m i x amount proceeds =
     \<lparr>sell_mint = m, sell_amount = amount, proceeds_lamports = proceeds, sell_reason = ''MANUAL_CLOSE'',
      sell_position_id = Some i, sell_exit_id = Some x, trigger_roi_percent = None,
      quote_age_ms = Some (quote_age io), exit_trigger_latency_ms = None, previous_value_lamports = None,
      previous_quote_at = None, trigger_peak_value_lamports = None, trigger_price_impact_pct = None\<rparr>"

text \<open>The exit of a claimed position, by hand.\<close>

definition close_claimed ::
  "exit_io \<Rightarrow> string \<Rightarrow> string \<Rightarrow> string \<Rightarrow> int \<Rightarrow> state_file \<Rightarrow> int res \<times> state_file" where
  "close_claimed io m i x amount f =
     (case bindE (exit_quote io amount) (\<lambda>q. bindE (dindex q ''outAmount'') py_int) of
        Inl y \<Rightarrow> give_back io 3 m i x y f
      | Inr proceeds \<Rightarrow> (case sale_step io 2 (manual_request io m i x amount proceeds) f of
            (Inl y, f) \<Rightarrow> give_back io 3 m i x y f
          | (Inr (recorded, _), f) \<Rightarrow>
              (if recorded then (Inr proceeds, f)
               else give_back io 3 m i x (RuntimeError ''position changed before manual close was committed'') f)))"

definition close_paper_position ::
  "exit_io \<Rightarrow> execution_settings \<Rightarrow> string \<Rightarrow> state_file \<Rightarrow> int res \<times> state_file" where
  "close_paper_position io settings m f =
     (if trading_mode settings \<noteq> ''paper''
      then (Inl (RuntimeError ''dashboard manual close is restricted to paper mode''), f)
      else if jupiter_api_key settings = []
      then (Inl (RuntimeError ''JUPITER_API_KEY is required for manual position close''), f)
      else case read_ledger (op_env io 0) (fst (op_lock io 0)) (others io 0 f) of
        (Inl x, f) \<Rightarrow> (Inl x, f)
      | (Inr ledger, f) \<Rightarrow>
          (case bindE (bindE (dindex ledger ''positions'') as_dict) (\<lambda>positions. case dgetn positions m of
               PDict position \<Rightarrow> bindE (dindex position ''position_id'') (\<lambda>i. Inr (py_str i))
             | _ \<Rightarrow> Inl (RuntimeError ''paper position no longer exists'')) of
             Inl x \<Rightarrow> (Inl x, f)
           | Inr i \<Rightarrow> (case claim_step io 1 m i ''MANUAL_CLOSE'' f of
                 (Inl x, f) \<Rightarrow> (Inl x, f)
               | (Inr None, f) \<Rightarrow> (Inl (RuntimeError ''position exit is already pending''), f)
               | (Inr (Some (x, amount)), f) \<Rightarrow> close_claimed io m i x amount f)))"

section \<open>The exit of a paper position\<close>

definition full_exit_reasons :: "string list" where
  "full_exit_reasons = [''STOP_LOSS_15'', ''ROUTE_B_STOP_LOSS_10'', ''TP_BREAK_EVEN'', ''POST_TP_TRAILING_STOP_50'']"

text \<open>What the sale records; \<open>ms\<close> is present if the trigger time was given.\<close>

definition exit_request ::
  "exit_io \<Rightarrow> dict \<Rightarrow> string \<Rightarrow> string \<Rightarrow> string \<Rightarrow> int \<Rightarrow> string \<Rightarrow> f64 \<Rightarrow> int option \<Rightarrow> dict \<Rightarrow> sell_request res" where
  "exit_request io position m i x amount reason roi ms quote =
     bindE (bindE (dindex quote ''outAmount'') py_int) (\<lambda>proceeds.
     bindE (int_field position ''current_value_lamports'' 0) (\<lambda>previous_value.
     bindE (int_field position ''post_tp_peak_exit_value_lamports'' 0) (\<lambda>peak.
     bindE (float_field quote ''priceImpactPct'' (PInt 0)) (\<lambda>impact.
       Inr \<lparr>sell_mint = m, sell_amount = amount, proceeds_lamports = proceeds, sell_reason = reason,
         sell_position_id = Some i, sell_exit_id = Some x, trigger_roi_percent = Some roi,
         quote_age_ms = Some (quote_age io), exit_trigger_latency_ms = ms,
         previous_value_lamports = Some previous_value,
         previous_quote_at = Some (str_field position ''price_updated_at'' (PStr [])),
         trigger_peak_value_lamports = Some peak, trigger_price_impact_pct = Some impact\<rparr>))))"

definition exit_amount :: "string \<Rightarrow> int \<Rightarrow> int" where
  "exit_amount reason current =
     (if reason \<in> set full_exit_reasons then current else current * TAKE_PROFIT_SELL_PERCENT div 100)"

text \<open>The exit after the claim of \<open>current\<close> units: \<open>detected\<close> is the quote that triggered it, if it is to
  be used, with the amount it was made for and the latency in milliseconds.\<close>

definition execute_claimed_exit ::
  "exit_io \<Rightarrow> dict \<Rightarrow> string \<Rightarrow> string \<Rightarrow> string \<Rightarrow> int \<Rightarrow> string \<Rightarrow> f64 \<Rightarrow> (dict \<times> int \<times> int) option \<Rightarrow> state_file
     \<Rightarrow> bool res \<times> state_file" where
  "execute_claimed_exit io position m i x current reason roi detected f =
     (let amount = exit_amount reason current in
      if amount \<le> 0 \<or> (case detected of Some (_, n, _) \<Rightarrow> n \<noteq> amount | None \<Rightarrow> False)
      then (case release_step io 1 m i x False f of (Inl y, f) \<Rightarrow> (Inl y, f) | (Inr _, f) \<Rightarrow> (Inr False, f))
      else case bindE (case detected of Some (q, _, _) \<Rightarrow> Inr q | None \<Rightarrow> exit_quote io amount)
               (exit_request io position m i x amount reason roi (map_option (\<lambda>(_, _, t). t) detected)) of
        Inl y \<Rightarrow> give_back io 2 m i x y f
      | Inr s \<Rightarrow> (case sale_step io 1 s f of
            (Inl y, f) \<Rightarrow> give_back io 2 m i x y f
          | (Inr (recorded, _), f) \<Rightarrow> (Inr recorded, f)))"

definition position_key :: "dict \<Rightarrow> (string \<times> string) res" where
  "position_key position =
     bindE (dindex position ''mint'') (\<lambda>m. bindE (dindex position ''position_id'') (\<lambda>i. Inr (py_str m, py_str i)))"

definition execute_paper_exit ::
  "exit_io \<Rightarrow> dict \<Rightarrow> string \<Rightarrow> f64 \<Rightarrow> (dict \<times> int \<times> int) option \<Rightarrow> state_file \<Rightarrow> bool res \<times> state_file" where
  "execute_paper_exit io position reason roi detected f =
     (case position_key position of
        Inl x \<Rightarrow> (Inl x, f)
      | Inr (m, i) \<Rightarrow> (case claim_step io 0 m i reason f of
            (Inl x, f) \<Rightarrow> (Inl x, f)
          | (Inr None, f) \<Rightarrow> (Inr False, f)
          | (Inr (Some (x, current)), f) \<Rightarrow> execute_claimed_exit io position m i x current reason roi detected f))"

section \<open>The evaluation of a paper position\<close>

text \<open>The exit a position is due for, with whether it uses the quote that triggered it.\<close>

definition exit_due :: "dict \<Rightarrow> int \<Rightarrow> f64 \<Rightarrow> (string \<times> bool) option res" where
  "exit_due position current_value ratio =
     (let route_type = str_field position ''route_type'' (PStr ''A'');
          take_profit_done = truthy (dgetn position ''take_profit_done'');
          stop_loss_ratio = (if route_type = ''B'' then ROUTE_B_STOP_LOSS_RATIO else STOP_LOSS_RATIO)
      in bindE (int_field position ''post_tp_peak_exit_value_lamports'' 0) (\<lambda>trailing_peak.
         Inr (if (if take_profit_done then 0 < trailing_peak \<and> current_value * 2 \<le> trailing_peak
                  else f64_le ratio stop_loss_ratio)
              then Some (if take_profit_done then ''POST_TP_TRAILING_STOP_50''
                         else if route_type = ''B'' then ''ROUTE_B_STOP_LOSS_10'' else ''STOP_LOSS_15'', True)
              else if f64_le TAKE_PROFIT_RATIO ratio \<and> \<not> take_profit_done
              then Some (''TAKE_PROFIT_30_SELL_80'', False)
              else None)))"

text \<open>\<open>market\<close> is the quote for the whole position, \<open>ms\<close> the milliseconds from the trigger to the sale.\<close>

definition evaluate_quoted ::
  "exit_io \<Rightarrow> int \<Rightarrow> dict \<Rightarrow> string \<Rightarrow> string \<Rightarrow> int \<Rightarrow> int \<Rightarrow> dict \<Rightarrow> state_file \<Rightarrow> unit res \<times> state_file" where
  "evaluate_quoted io ms position m i amount cost quote f =
     (case bindE (bindE (dindex quote ''outAmount'') py_int) (\<lambda>v. bindE (int_truediv v cost) (\<lambda>r. Inr (v, r))) of
        Inl x \<Rightarrow> (Inl x, f)
      | Inr (current_value, ratio) \<Rightarrow>
          (case mark_step io 0 m i current_value f of
             (Inl x, f) \<Rightarrow> (Inl x, f)
           | (Inr _, f) \<Rightarrow>
               (case exit_due position current_value ratio of
                  Inl x \<Rightarrow> (Inl x, f)
                | Inr None \<Rightarrow> (Inr (), f)
                | Inr (Some (reason, urgent)) \<Rightarrow>
                    (let roi = f64_mul (f64_sub ratio (Fin 1)) (Fin 100);
                         detected = (if urgent then Some (quote, amount, ms) else None)
                     in case execute_paper_exit (after_ops 1 io) position reason roi detected f of
                       (Inl x, f) \<Rightarrow> (Inl x, f)
                     | (Inr _, f) \<Rightarrow> (Inr (), f)))))"

definition evaluate_paper_position ::
  "exit_io \<Rightarrow> dict res \<Rightarrow> int \<Rightarrow> dict \<Rightarrow> state_file \<Rightarrow> unit res \<times> state_file" where
  "evaluate_paper_position io market ms position f =
     (case bindE (position_key position) (\<lambda>(m, i).
           bindE (bindE (dindex position ''token_amount_raw'') py_int) (\<lambda>amount.
           bindE (bindE (dindex position ''remaining_cost_lamports'') py_int) (\<lambda>cost. Inr (m, i, amount, cost)))) of
        Inl x \<Rightarrow> (Inl x, f)
      | Inr (m, i, amount, cost) \<Rightarrow>
          (if amount \<le> 0 \<or> cost \<le> 0 \<or> dgetn position ''risk_state'' = PStr ''EXIT_PENDING'' then (Inr (), f)
           else case market of
             Inl x \<Rightarrow> (case failure_step io 0 m i x f of (Inl y, f) \<Rightarrow> (Inl y, f) | (Inr _, f) \<Rightarrow> (Inl x, f))
           | Inr quote \<Rightarrow> evaluate_quoted io ms position m i amount cost quote f))"

section \<open>The evaluation of a live position\<close>

text \<open>What \<open>execute_sell\<close> meets on the live path.\<close>

record live_io =
  live_swap :: swap_io
  live_env :: env
  live_environ :: environ
  live_wallets_file :: state_file
  live_settings :: execution_settings
  live_signer :: "string res"
  live_balance :: "py res"
  live_quote :: "int \<Rightarrow> dict res"
  live_tip :: "int \<Rightarrow> string \<Rightarrow> int res"

definition live_exit_due :: "dict \<Rightarrow> f64 \<Rightarrow> (string \<times> int) option" where
  "live_exit_due position ratio =
     (let done_once = truthy (dgetn position ''take_profit_done'') in
      if f64_le ratio STOP_LOSS_RATIO then Some (''LIVE_STOP_LOSS_15'', 100)
      else if f64_le SECOND_TAKE_PROFIT_RATIO ratio \<and> done_once \<and>
        \<not> truthy (dgetn position ''second_take_profit_done'') then Some (''LIVE_TAKE_PROFIT_100'', 50)
      else if f64_le TAKE_PROFIT_RATIO ratio \<and> \<not> done_once then Some (''LIVE_TAKE_PROFIT_50'', 50)
      else None)"

definition live_request ::
  "string \<Rightarrow> string \<Rightarrow> string \<Rightarrow> int \<Rightarrow> int \<Rightarrow> string \<Rightarrow> f64 \<Rightarrow> sell_request" where
  "live_request m i x sold proceeds reason roi =
     \<lparr>sell_mint = m, sell_amount = sold, proceeds_lamports = proceeds, sell_reason = reason,
      sell_position_id = Some i, sell_exit_id = Some x, trigger_roi_percent = Some roi, quote_age_ms = None,
      exit_trigger_latency_ms = None, previous_value_lamports = None, previous_quote_at = None,
      trigger_peak_value_lamports = None, trigger_price_impact_pct = None\<rparr>"

text \<open>The handler of the live path: it only releases the claim.\<close>

definition live_give_back ::
  "exit_io \<Rightarrow> string \<Rightarrow> string \<Rightarrow> string \<Rightarrow> exc \<Rightarrow> state_file \<Rightarrow> unit res \<times> state_file" where
  "live_give_back io m i x failure f = (case release_step io 4 m i x True f of
     (Inl y, f) \<Rightarrow> (Inl y, f) | (Inr _, f) \<Rightarrow> (Inl failure, f))"

text \<open>What follows the sale: the lifecycle is recorded, then the sale, or the claim is released.\<close>

definition settle_live_sale ::
  "exit_io \<Rightarrow> string \<Rightarrow> string \<Rightarrow> string \<Rightarrow> int \<Rightarrow> dict \<Rightarrow> string \<Rightarrow> f64 \<Rightarrow> execution_result \<Rightarrow> state_file
     \<Rightarrow> unit res \<times> state_file" where
  "settle_live_sale io m i x sold quote reason roi r f =
     (case record_live_transaction_lifecycle (op_env io 2) (snd (op_lock io 2)) (others io 2 f) m i (lifecycle r) of
        (Inl y, f) \<Rightarrow> live_give_back io m i x y f
      | (Inr _, f) \<Rightarrow>
          (if landed r
           then (case bindE (dindex quote ''outAmount'') py_int of
               Inl y \<Rightarrow> live_give_back io m i x y f
             | Inr proceeds \<Rightarrow> (case sale_step io 3 (live_request m i x sold proceeds reason roi) f of
                   (Inl y, f) \<Rightarrow> live_give_back io m i x y f
                 | (Inr _, f) \<Rightarrow> (Inr (), f)))
           else (case release_step io 3 m i x True f of
               (Inl y, f) \<Rightarrow> live_give_back io m i x y f
             | (Inr _, f) \<Rightarrow> (Inr (), f))))"

definition live_urgency :: "string \<Rightarrow> string" where
  "live_urgency reason =
     (if reason = ''LIVE_STOP_LOSS_15'' \<or> reason = ''MANUAL_CLOSE'' then ''emergency'' else ''normal'')"

definition live_sale :: "live_io \<Rightarrow> string \<Rightarrow> int \<Rightarrow> string \<Rightarrow> execution_result res option" where
  "live_sale live m percent reason =
     execute_sell (live_env live) (live_swap live) (live_environ live) (live_wallets_file live) (live_settings live)
       (live_signer live) (live_balance live) (live_quote live) (live_tip live) m percent (live_urgency reason)"

text \<open>The exit after the claim; \<open>None\<close> while the sale waits for its bundle.\<close>

definition execute_live_exit ::
  "exit_io \<Rightarrow> live_io \<Rightarrow> string \<Rightarrow> string \<Rightarrow> string \<Rightarrow> int \<Rightarrow> string \<Rightarrow> int \<Rightarrow> f64 \<Rightarrow> dict \<Rightarrow> state_file
     \<Rightarrow> (unit res \<times> state_file) option" where
  "execute_live_exit io live m i x claimed reason percent roi quote f =
     (let sold = (if percent = 100 then claimed else claimed div 2) in
      case (if percent = 50 then exit_quote io sold else Inr quote) of
        Inl y \<Rightarrow> Some (live_give_back io m i x y f)
      | Inr quote \<Rightarrow>
          (case live_sale live m percent reason of
              None \<Rightarrow> None
            | Some (Inl y) \<Rightarrow> Some (live_give_back io m i x y f)
            | Some (Inr r) \<Rightarrow> Some (settle_live_sale io m i x sold quote reason roi r f)))"

definition evaluate_live_position ::
  "exit_io \<Rightarrow> live_io \<Rightarrow> dict res \<Rightarrow> dict \<Rightarrow> state_file \<Rightarrow> (unit res \<times> state_file) option" where
  "evaluate_live_position io live market position f =
     (case bindE (dindex position ''mint'') (\<lambda>m.
           bindE (bindE (dindex position ''token_amount_raw'') py_int) (\<lambda>amount.
           bindE (bindE (dindex position ''remaining_cost_lamports'') py_int) (\<lambda>cost.
           bindE market (\<lambda>quote.
           bindE (bindE (dindex quote ''outAmount'') py_int) (\<lambda>out.
           bindE (int_truediv out cost) (\<lambda>ratio.
           bindE (dindex position ''position_id'') (\<lambda>i.
             Inr (py_str m, py_str i, quote, out, ratio)))))))) of
        Inl x \<Rightarrow> Some (Inl x, f)
      | Inr (m, i, quote, out, ratio) \<Rightarrow>
          (case mark_step io 0 m i out f of
             (Inl x, f) \<Rightarrow> Some (Inl x, f)
           | (Inr _, f) \<Rightarrow>
               (case live_exit_due position ratio of
                  None \<Rightarrow> Some (Inr (), f)
                | Some (reason, percent) \<Rightarrow>
                    (case claim_step io 1 m i reason f of
                       (Inl x, f) \<Rightarrow> Some (Inl x, f)
                     | (Inr None, f) \<Rightarrow> Some (Inr (), f)
                     | (Inr (Some (x, claimed)), f) \<Rightarrow>
                         execute_live_exit io live m i x claimed reason percent
                           (f64_mul (f64_sub ratio (Fin 1)) (Fin 100)) quote f))))"

section \<open>The loop\<close>

text \<open>
  The positions of a snapshot, one after the other: a failed evaluation is logged and the loop goes
  on, except that logging a position that is not a dictionary raises.  \<open>visit k\<close> evaluates the \<open>k\<close>-th
  position, \<open>stop k\<close> is the stop request read before it.
\<close>

fun visit_positions ::
  "(nat \<Rightarrow> dict \<Rightarrow> state_file \<Rightarrow> unit res \<times> state_file) \<Rightarrow> (nat \<Rightarrow> bool) \<Rightarrow> nat \<Rightarrow> py list \<Rightarrow> state_file
     \<Rightarrow> unit res \<times> state_file" where
  "visit_positions visit stop k [] f = (Inr (), f)"
| "visit_positions visit stop k (PDict position # ps) f =
     (if stop k then (Inr (), f)
      else let (_, f) = visit k position f in visit_positions visit stop (Suc k) ps f)"
| "visit_positions visit stop k (_ # ps) f = (if stop k then (Inr (), f) else (Inl AttributeError, f))"

text \<open>What one cycle meets: the stop requests, the reading of the ledger, and each position's run.\<close>

record risk_cycle =
  cycle_stop :: bool
  cycle_env :: env
  cycle_lock :: bool
  position_stop :: "nat \<Rightarrow> bool"
  position_run :: "nat \<Rightarrow> exit_io"
  position_market :: "nat \<Rightarrow> dict res"
  position_latency :: "nat \<Rightarrow> int"

definition visit_paper :: "risk_cycle \<Rightarrow> nat \<Rightarrow> dict \<Rightarrow> state_file \<Rightarrow> unit res \<times> state_file" where
  "visit_paper c k = evaluate_paper_position (position_run c k) (position_market c k) (position_latency c k)"

definition run_cycle :: "risk_cycle \<Rightarrow> state_file \<Rightarrow> unit res \<times> state_file" where
  "run_cycle c f =
     (case read_ledger (cycle_env c) (cycle_lock c) f of
        (Inl x, f) \<Rightarrow> (Inl x, f)
      | (Inr ledger, f) \<Rightarrow>
          (case bindE (dindex ledger ''positions'') as_dict of
             Inl x \<Rightarrow> (Inl x, f)
           | Inr positions \<Rightarrow> visit_positions (visit_paper c) (position_stop c) 0 (map snd positions) f))"

text \<open>The cycles of the paper loop until a stop request or an exception; \<open>None\<close> while they go on.\<close>

fun risk_cycles :: "risk_cycle list \<Rightarrow> state_file \<Rightarrow> (unit res \<times> state_file) option" where
  "risk_cycles [] f = None"
| "risk_cycles (c # cs) f =
     (if cycle_stop c then Some (Inr (), f)
      else case run_cycle c f of
        (Inl x, f) \<Rightarrow> Some (Inl x, f)
      | (Inr _, f) \<Rightarrow> risk_cycles cs f)"

definition run_risk_loop ::
  "env \<Rightarrow> bool \<Rightarrow> execution_settings \<Rightarrow> risk_cycle list \<Rightarrow> state_file \<Rightarrow> (unit res \<times> state_file) option" where
  "run_risk_loop e lk settings cs f =
     (case ensure_ledger_migrated e lk f of
        (Inl x, f) \<Rightarrow> Some (Inl x, f)
      | (Inr _, f) \<Rightarrow> (if jupiter_api_key settings = [] then Some (Inr (), f) else risk_cycles cs f))"

end
