(* ===== verification/LedgerClaims.thy ===== *)
theory LedgerClaims
  imports LedgerAccounts
begin

text \<open>
  Exit claims across the transactions of the ledger: only a claim with an identifier makes a
  position pending for it, for each transaction, for a run of them and for a change of the file.
\<close>

section \<open>Claims across transactions\<close>

text \<open>
  No transaction but a claim with the identifier \<open>x\<close> makes a position pending for \<open>x\<close>: a position
  pending for \<open>x\<close> after it was pending for \<open>x\<close> before it, and keeps its identity.
\<close>

definition same_claim :: "string \<Rightarrow> dict \<Rightarrow> dict \<Rightarrow> bool" where
  "same_claim x p q \<longleftrightarrow> dget q ''position_id'' = dget p ''position_id'' \<and>
     (dget q ''pending_exit_id'' = Some (PStr x) \<longrightarrow> dget p ''pending_exit_id'' = Some (PStr x))"

definition no_new_claim :: "string \<Rightarrow> dict \<Rightarrow> dict \<Rightarrow> bool" where
  "no_new_claim x ps ps' \<longleftrightarrow> (\<forall>m q. dget ps' m = Some (PDict q) \<longrightarrow> dget q ''pending_exit_id'' = Some (PStr x) \<longrightarrow>
     (\<exists>p. dget ps m = Some (PDict p) \<and> same_claim x p q))"

lemma same_claim_refl: "same_claim x p p"
  by (simp add: same_claim_def)

lemma same_claim_dset:
  "same_claim x p q \<Longrightarrow> k \<noteq> ''position_id'' \<Longrightarrow> k \<noteq> ''pending_exit_id'' \<Longrightarrow> same_claim x p (dset k v q)"
  "same_claim x p q \<Longrightarrow> k \<noteq> ''position_id'' \<Longrightarrow> same_claim x p (dpop k q)"
  "same_claim x p q \<Longrightarrow> y \<noteq> x \<Longrightarrow> same_claim x p (dset ''pending_exit_id'' (PStr y) q)"
  by (simp_all add: same_claim_def)

lemma same_claim_bump: "bump_version q = Inr q' \<Longrightarrow> same_claim x p q \<Longrightarrow> same_claim x p q'"
  by (auto simp: bump_version_def bindE_eq_Inr same_claim_def)

lemma same_claim_if: "same_claim x p q \<Longrightarrow> same_claim x p r \<Longrightarrow> same_claim x p (if c then q else r)"
  by simp

lemma same_claim_bindE_if:
  "(if c then bindE g (\<lambda>y. Inr (h y)) else Inr q) = Inr q' \<Longrightarrow> same_claim x p q \<Longrightarrow>
   (\<And>y. same_claim x p (h y)) \<Longrightarrow> same_claim x p q'"
  by (auto simp: bindE_eq_Inr split: if_splits)

lemmas same_claim_intros = same_claim_dset same_claim_refl

lemma no_new_claim_refl [simp]: "no_new_claim x ps ps"
  by (auto simp: no_new_claim_def same_claim_def)

lemma no_new_claim_trans: "no_new_claim x ps qs \<Longrightarrow> no_new_claim x qs rs \<Longrightarrow> no_new_claim x ps rs"
  unfolding no_new_claim_def same_claim_def by metis

lemma no_new_claim_dset:
  "dget ps m = Some (PDict p) \<Longrightarrow> same_claim x p q \<Longrightarrow> no_new_claim x ps (dset m (PDict q) ps)"
  by (auto simp: no_new_claim_def same_claim_def)

lemma no_new_claim_fresh:
  "dget q ''pending_exit_id'' = None \<Longrightarrow> no_new_claim x ps (dset m (PDict q) ps)"
  by (auto simp: no_new_claim_def same_claim_def)

lemma no_new_claim_dpop: "no_new_claim x ps (dpop m ps)"
  by (auto simp: no_new_claim_def same_claim_def)

lemma owned_no_new_claim:
  assumes "owned_position ps m i = Some p" "bump_version q = Inr q'" "same_claim x p q"
  shows "no_new_claim x ps (dset m (PDict q') ps)"
  using owned_positionD [OF assms(1)] same_claim_bump [OF assms(2,3)] no_new_claim_dset by blast

text \<open>The interface: a transaction that makes no position pending for \<open>x\<close>.\<close>

locale claim_free =
  fixes x :: string and m :: "'t mutator"
  assumes free: "wf_ledger l \<Longrightarrow> m l = Inr (r, l') \<Longrightarrow> no_new_claim x (ledger_positions l) (ledger_positions l')"
begin

lemma silent_free: "wf_ledger l \<Longrightarrow> silently m l = Inr (r, l') \<Longrightarrow> no_new_claim x (ledger_positions l) (ledger_positions l')"
  using free by (auto simp: silently_Inr)

end

lemmas owned_run = Let_def wf_ledgerD(5,6) bindE_eq_Inr set_position_def

lemma claim_no_new_claim:
  "y \<noteq> x \<Longrightarrow> wf_ledger l \<Longrightarrow> claim_position_exit_mutate e y mt i r l = Inr (res, l') \<Longrightarrow>
   no_new_claim x (ledger_positions l) (ledger_positions l')"
  by (auto simp: claim_position_exit_mutate_def owned_run split: option.splits if_splits
      intro!: owned_no_new_claim same_claim_intros)

interpretation release_free: claim_free x "release_exit_claim_mutate e mt i y d" for x e mt i y d
  by unfold_locales
    (auto simp: release_exit_claim_mutate_def owned_run split: option.splits if_splits
      intro!: owned_no_new_claim same_claim_intros)

interpretation floor_free: claim_free x "ensure_break_even_floor_mutate e mt i" for x e mt i
  by unfold_locales
    (auto simp: ensure_break_even_floor_mutate_def owned_run split: option.splits if_splits
      intro!: owned_no_new_claim same_claim_intros)

lemma quote_failure_no_new_claim:
  assumes "wf_ledger l" "record_quote_failure_mutate e now m i err l = Inr (r, l')"
  shows "no_new_claim x (ledger_positions l) (ledger_positions l')"
proof (cases "owned_position (ledger_positions l) m i")
  case (Some p)
  show ?thesis using assms(2)
    by (simp add: record_quote_failure_mutate_def Some owned_run assms(1))
      (elim exE conjE, hypsubst, simp,
       rule owned_no_new_claim [OF Some], assumption, intro same_claim_if same_claim_intros; simp)
qed (use assms in \<open>simp add: record_quote_failure_mutate_def Let_def wf_ledgerD(5,6)\<close>)

interpretation quote_failure_free: claim_free x "record_quote_failure_mutate e now mt i err" for x e now mt i err
  by unfold_locales (rule quote_failure_no_new_claim)

lemma mark_no_new_claim:
  assumes "wf_ledger l" "record_position_mark_mutate e m i v l = Inr (r, l')"
  shows "no_new_claim x (ledger_positions l) (ledger_positions l')"
proof (cases "owned_position (ledger_positions l) m i")
  case (Some p)
  show ?thesis
  proof (cases "v < 0")
    case False
    then show ?thesis using assms(2)
      by (simp add: record_position_mark_mutate_def Some owned_run assms(1))
        (elim exE conjE, hypsubst, simp, rule owned_no_new_claim [OF Some], assumption,
         intro same_claim_if same_claim_intros; (erule same_claim_bindE_if)?; (intro same_claim_intros)?; simp)
  qed (use assms Some in \<open>simp add: record_position_mark_mutate_def Let_def wf_ledgerD(5,6)\<close>)
qed (use assms in \<open>simp add: record_position_mark_mutate_def Let_def wf_ledgerD(5,6)\<close>)

interpretation mark_free: claim_free x "record_position_mark_mutate e mt i v" for x e mt i v
  by unfold_locales (rule mark_no_new_claim)

lemma bounded_event_positions:
  assumes "wf_ledger l" "dget event ''event_seq'' = None" "append_bounded_event e kind sig m event l = Inr (res, l')"
  shows "ledger_positions l' = ledger_positions l"
proof -
  have ev: "py_iter (dgetn l ''events'') = Inr (ledger_events l)"
    using wf_ledgerD(3) [OF assms(1)] by (simp add: dgetn_def dget_or_def)
  show ?thesis
    using assms ev append_event_keeps(2) [OF assms(1,2)]
    by (auto simp: append_bounded_event_def bindE_eq_Inr split: if_splits)
qed

interpretation rejection_free: claim_free x "record_paper_rejection_mutate e mt sc rs w sig" for x e mt sc rs w sig
  by unfold_locales (auto simp: record_paper_rejection_mutate_def dest!: bounded_event_positions [rotated 2])

interpretation rpc_skip_free: claim_free x "record_rpc_skip_mutate e mt w sig reason" for x e mt w sig reason
  by unfold_locales (auto simp: record_rpc_skip_mutate_def dest!: bounded_event_positions [rotated 2])

lemma lifecycle_same_claim:
  assumes "lifecycle_items e m i clock k items p l = Inr (clock', q, l')" "same_claim x p0 p"
  shows "same_claim x p0 q"
  using assms
proof (induction e m i clock k items p l rule: lifecycle_items.induct)
  case (2 e m i clock k item items p l)
  then show ?case by (auto simp: Let_def bindE_eq_Inr intro!: 2(1) [OF refl refl refl refl refl refl] same_claim_intros)
qed simp

lemma lifecycle_no_new_claim:
  assumes "wf_ledger l" "\<forall>item \<in> set items. dget item ''event_seq'' = None"
    and "record_live_transaction_lifecycle_mutate e m i items l = Inr (res, l')"
  shows "no_new_claim x (ledger_positions l) (ledger_positions l')"
proof (cases "owned_position (ledger_positions l) m i")
  case (Some p)
  obtain c q l1 q' where step: "lifecycle_items e m i 0 0 items p l = Inr (c, q, l1)"
      "bump_version q = Inr q'"
      "l' = dset ''updated_at'' (PStr (utc_now e c)) (set_position m q' (ledger_positions l) l1)"
    using assms Some by (auto simp: record_live_transaction_lifecycle_mutate_def Let_def
        wf_ledgerD(5,6) bindE_eq_Inr)
  from owned_no_new_claim [OF Some step(2) lifecycle_same_claim [OF step(1) same_claim_refl]]
  show ?thesis by (simp add: step(3) set_position_def)
qed (use assms in \<open>simp add: record_live_transaction_lifecycle_mutate_def Let_def wf_ledgerD(5,6)\<close>)

lemma buy_no_new_claim:
  assumes "wf_ledger l" "record_paper_buy_mutate e route b l = Inr (i, l')"
    and "0 < token_amount_raw b" "0 \<le> cost_lamports b"
  shows "no_new_claim x (ledger_positions l) (ledger_positions l')"
proof -
  have "dget (opened_position b t q route price (buy_metadata b i n sg q2 route)) ''pending_exit_id'' = None"
    for t q n price sg q2
    by (simp add: opened_position_def buy_metadata_def dget_dupdate)
  then show ?thesis using buy_effect(8) [OF assms] no_new_claim_fresh by metis
qed

lemma after_take_profit_keeps:
  "after_take_profit reason cumulative p = Inr q \<Longrightarrow> k \<in> {''position_id'', ''pending_exit_id''} \<Longrightarrow> dget q k = dget p k"
  by (auto simp: after_take_profit_def Let_def bindE_eq_Inr split: if_splits)

lemma sale_no_new_claim:
  assumes "wf_ledger l" "record_paper_sell_mutate e s l = Inr ((b, c), l')"
  shows "no_new_claim x (ledger_positions l) (ledger_positions l')"
proof (cases b)
  case False
  then show ?thesis using assms sell_not_sold [OF assms(1), of e s c l'] by simp
next
  case True
  then have sold: "record_paper_sell_mutate e s l = Inr ((True, c), l')" using assms(2) by simp
  obtain p sold i where p: "wf_position (PDict p)"
      "sell_position e s i (ival p ''token_amount_raw'') sold p (ledger_positions l) l = Inr ((True, c), l')"
    by (rule sell_shape [OF assms(1) sold]) blast
  obtain q cum l1 a1 a2 where
    "after_take_profit (sell_reason s) cum (reduced_position a1 a2 cum p) = Inr q"
    "l' = dset ''updated_at'' (PStr (utc_now e 1)) (dset ''positions''
       (PDict (if ival p ''token_amount_raw'' \<le> sold then dpop (sell_mint s) (ledger_positions l)
               else dset (sell_mint s) (PDict q) (ledger_positions l))) l1)"
    by (rule sell_position_shape [OF assms(1) p]) blast
  moreover from this(1) have "dget q ''pending_exit_id'' = None"
    by (simp add: after_take_profit_keeps reduced_position_def)
  ultimately show ?thesis by (simp add: no_new_claim_dpop no_new_claim_fresh)
qed

lemma same_claim_filled:
  assumes "same_claim x p0 p"
  shows "fill_break_even_price (c, p) = Inr (c', q) \<Longrightarrow> same_claim x p0 q"
    and "fill_break_even_required (c, p) = Inr (c', q) \<Longrightarrow> same_claim x p0 q"
    and "k \<noteq> ''position_id'' \<Longrightarrow> k \<noteq> ''pending_exit_id'' \<Longrightarrow> same_claim x p0 (dsetdefault k v p)"
  using assms
  by (auto simp: fill_break_even_price_def fill_break_even_required_def bindE_eq_Inr dsetdefault_def same_claim_dset
      split: if_split_asm)

lemma migrated_position_claim:
  assumes "migrate_position_v2 c p = Inr (c', q)"
  shows "same_claim x p q"
proof -
  obtain c1 p1 c2 p2 where
    p1: "fill_break_even_price (add_missing ''observation_id'' PNone
          (add_missing ''strategy_version'' (PStr ''baseline_v1'')
            (add_missing ''dex_momentum_score'' (PFloat (Fin 0))
              (add_missing ''route_type'' (PStr ''A'') (c, p))))) = Inr (c1, p1)"
    and p2: "fill_break_even_required (c1, p1) = Inr (c2, p2)"
    and q: "q = dsetdefault ''post_tp_trailing_stop_ratio'' (PFloat (float_lit (1 / 2)))
         (dsetdefault ''post_tp_peak_exit_value_lamports'' (PInt 0)
           (dsetdefault ''cumulative_proceeds_lamports'' (PInt 0) p2))"
    using assms(1) unfolding migrate_position_v2_def
    by (auto simp: add_missing_eq bindE_eq_Inr)
  note d = same_claim_filled(3)
  have "same_claim x p (dsetdefault ''observation_id'' PNone (dsetdefault ''strategy_version'' (PStr ''baseline_v1'')
      (dsetdefault ''dex_momentum_score'' (PFloat (Fin 0)) (dsetdefault ''route_type'' (PStr ''A'') p))))"
    by (rule d, rule d, rule d, rule d, rule same_claim_refl) simp_all
  from same_claim_filled(1) [OF this] have "same_claim x p p1" using p1 by (simp add: add_missing_eq)
  from same_claim_filled(2) [OF this p2] have p2: "same_claim x p p2" .
  show ?thesis unfolding q by (rule d, rule d, rule d, rule p2) simp_all
qed

lemma migrated_positions_claim:
  "fold_values (\<lambda>c k p. migrate_position_v2 c p) c ps = Inr (c', ps') \<Longrightarrow> no_new_claim x ps ps'"
proof (induction ps arbitrary: c ps')
  case (Cons kv ps)
  obtain k v where kv: "kv = (k, v)" by (cases kv)
  show ?case
  proof (cases "is_dict v")
    case True
    then obtain p where v: "v = PDict p" by (cases v) auto
    obtain c1 q ps1 where q: "migrate_position_v2 c p = Inr (c1, q)"
        "fold_values (\<lambda>c k p. migrate_position_v2 c p) c1 ps = Inr (c', ps1)" "ps' = (k, PDict q) # ps1"
      using Cons.prems by (auto simp: kv v bindE_eq_Inr)
    show ?thesis using Cons.IH [OF q(2)] migrated_position_claim [OF q(1), of x]
      by (auto simp: no_new_claim_def kv v q(3))
  next
    case False
    then obtain ps1 where q: "fold_values (\<lambda>c k p. migrate_position_v2 c p) c ps = Inr (c', ps1)" "ps' = (k, v) # ps1"
      using Cons.prems by (cases v) (auto simp: kv bindE_eq_Inr)
    show ?thesis using Cons.IH [OF q(1)] False by (auto simp: no_new_claim_def kv q(2))
  qed
qed simp

lemma migration_no_new_claim:
  assumes "wf_ledger l" "migrate_ledger_document e l = Inr (c, l')"
  shows "no_new_claim x (ledger_positions l) (ledger_positions l')"
proof -
  obtain ps' c1 es' where s: "fold_values (\<lambda>c k p. migrate_position_v2 c p) False (ledger_positions l) = Inr (c1, ps')"
    and l': "ledger_positions l' = ps'"
    using assms(2) wf_ledgerD(2,3) [OF assms(1)] wf_int_field_schema [OF assms(1)]
    by (clarsimp simp: migrate_ledger_document_def migrate_v2_eq bindE_eq_Inr Let_def write_back_def dhas_def)
  show ?thesis unfolding l' by (rule migrated_positions_claim [OF s])
qed

interpretation migration_free: claim_free x "migrate_ledger_document e" for x e
  by unfold_locales (rule migration_no_new_claim)

text \<open>The transactions of a run, other than the claims for \<open>x\<close>.\<close>

fun claims_for :: "string \<Rightarrow> ledger_op \<Rightarrow> bool" where
  "claims_for x (Claim y m i r) \<longleftrightarrow> y = x"
| "claims_for x _ \<longleftrightarrow> False"

lemma op_no_new_claim:
  assumes "wf_ledger l" "op_valid op" "\<not> claims_for x op" "op_mutator e op l = Inr (profit, l')"
  shows "no_new_claim x (ledger_positions l) (ledger_positions l')"
proof (cases op)
  case (Buy route b)
  then show ?thesis using assms buy_no_new_claim [of l e route b _ l' x] by (auto simp: silently_Inr)
next
  case (Sell s)
  then show ?thesis using assms sale_no_new_claim [of l e s] by (auto simp: bindE_eq_Inr)
next
  case (Lifecycle m i items)
  then show ?thesis using assms lifecycle_no_new_claim [of l items e m i _ l' x]
    by (auto simp: silently_Inr list_all_iff dhas_def)
next
  case (Claim y m i r)
  then show ?thesis using assms claim_no_new_claim [of y x l e m i r _ l'] by (auto simp: silently_Inr)
qed (use assms in \<open>auto dest: release_free.silent_free mark_free.silent_free floor_free.silent_free
      quote_failure_free.silent_free rejection_free.silent_free rpc_skip_free.silent_free\<close>)

lemma sale_keeps_wf:
  assumes "wf_ledger l" "record_paper_sell_mutate e s l = Inr ((b, c), l')" "0 \<le> proceeds_lamports s"
  shows "wf_ledger l'"
  using sell_accounts [OF assms] by blast

section \<open>The file between the steps of an exit\<close>

text \<open>
  A ledger file with a version, and a change of it that makes no position pending for \<open>x\<close>.
\<close>

definition active :: "dict \<Rightarrow> bool" where
  "active l \<longleftrightarrow> wf_ledger l \<and> has_int l ''version''"

definition claim_free_change :: "string \<Rightarrow> state_file \<Rightarrow> state_file \<Rightarrow> bool" where
  "claim_free_change x f f' \<longleftrightarrow> (\<forall>l. f = Content (PDict l) \<longrightarrow> active l \<longrightarrow>
     (\<exists>l'. f' = Content (PDict l') \<and> active l' \<and> no_new_claim x (ledger_positions l) (ledger_positions l')))"

lemma claim_free_change_refl [simp]: "claim_free_change x f f"
  by (simp add: claim_free_change_def)

lemma claim_free_change_trans:
  "claim_free_change x f g \<Longrightarrow> claim_free_change x g h \<Longrightarrow> claim_free_change x f h"
  unfolding claim_free_change_def using no_new_claim_trans by metis

lemma active_version: "wf_ledger l \<Longrightarrow> active (dset ''version'' (PInt v) l)"
  by (simp add: active_def wf_ledger_version has_int_def)

lemma active_doc_version: "active l \<Longrightarrow> doc_version l = Inr (ival l ''version'')"
  using has_intE [of l "''version''"] by (simp add: active_def doc_version_def)

lemma update_claim_free:
  assumes "\<And>l r l'. wf_ledger l \<Longrightarrow> m l = Inr (r, l') \<Longrightarrow>
      wf_ledger l' \<and> no_new_claim x (ledger_positions l) (ledger_positions l')"
    and "update_json p lk f fb m None = (res, f')"
  shows "claim_free_change x f f'"
proof (cases res)
  case (Inl e)
  then show ?thesis using assms(2) update_json_error [of p lk f fb m None e f'] by simp
next
  case (Inr y)
  obtain r doc where "y = (r, doc)" by (cases y)
  then obtain d v d' where d: "read_json p f fb = Inr d" "m d = Inr (r, d')"
      "f' = Content (PDict (dset ''version'' (PInt (v + 1)) d'))"
    using assms(2) Inr by (auto simp: update_json_Inr)
  show ?thesis unfolding claim_free_change_def
  proof (intro allI impI)
    fix l assume "f = Content (PDict l)" "active l"
    then have "wf_ledger d" "d = l" using d(1) by (simp_all add: active_def)
    with assms(1) [OF this(1) d(2)] d(3) show "\<exists>l'. f' = Content (PDict l') \<and> active l' \<and>
        no_new_claim x (ledger_positions l) (ledger_positions l')"
      by (auto intro: active_version)
  qed
qed

lemma ledger_update_claim_free:
  assumes "\<And>l r l'. wf_ledger l \<Longrightarrow> m l = Inr (r, l') \<Longrightarrow>
      wf_ledger l' \<and> no_new_claim x (ledger_positions l) (ledger_positions l')"
    and "ledger_update e lk f m = (res, f')"
  shows "claim_free_change x f f'"
proof -
  obtain u g where u: "update_json ledger_path lk f (empty_ledger (utc_now e 0)) m None = (u, g)" by fastforce
  then have "f' = g" using assms(2) by (auto simp: ledger_update_def split: sum.splits)
  then show ?thesis using update_claim_free [OF assms(1) u] by simp
qed

lemma run_ops_claim_free:
  "\<forall>(e, op) \<in> set ops. op_valid op \<and> \<not> claims_for x op \<Longrightarrow> claim_free_change x f (snd (run_ops ops f))"
proof (induction ops arbitrary: f)
  case (Cons eop ops)
  obtain e op where eop: "eop = (e, op)" by (cases eop)
  obtain res f' where u: "update_json ledger_path True f (empty_ledger (utc_now e 0)) (op_mutator e op) None = (res, f')"
    by fastforce
  have op: "op_valid op" "\<not> claims_for x op" using Cons.prems by (auto simp: eop)
  have "claim_free_change x f f'"
    by (rule update_claim_free [OF _ u]) (use op op_accounts op_no_new_claim in blast)
  moreover have "claim_free_change x f' (snd (run_ops ops f'))" using Cons by simp
  moreover have "snd (run_ops (eop # ops) f) = snd (run_ops ops f')"
    by (simp add: eop u Let_def case_prod_beta split: sum.split)
  ultimately show ?case using claim_free_change_trans by metis
qed simp

end
