(* ===== verification/RiskExits.thy ===== *)
theory RiskExits
  imports RiskLoop LedgerClaims
begin

text \<open>
  Properties of the risk loop: an exit never keeps its claim, whatever the other processes do
  meanwhile; the stops compare exactly; an evaluation moves money only by a recorded sale; and a
  live sale that is lost from sight opens the position for another one.
\<close>

section \<open>An exit gives its claim back\<close>

text \<open>No position is pending for \<open>x\<close>; at most the position \<open>i\<close> of the mint \<open>m\<close> is.\<close>

definition unclaimed :: "string \<Rightarrow> dict \<Rightarrow> bool" where
  "unclaimed x l \<longleftrightarrow> (\<forall>m q. dget (ledger_positions l) m = Some (PDict q) \<longrightarrow> dget q ''pending_exit_id'' \<noteq> Some (PStr x))"

definition only_claim :: "string \<Rightarrow> string \<Rightarrow> string \<Rightarrow> dict \<Rightarrow> bool" where
  "only_claim x m i l \<longleftrightarrow> (\<forall>m' q. dget (ledger_positions l) m' = Some (PDict q) \<longrightarrow>
     dget q ''pending_exit_id'' = Some (PStr x) \<longrightarrow> m' = m \<and> dget q ''position_id'' = Some (PStr i))"

lemma unclaimed_only: "unclaimed x l \<Longrightarrow> only_claim x m i l"
  by (simp add: unclaimed_def only_claim_def)

lemma unclaimed_kept:
  "unclaimed x l \<Longrightarrow> no_new_claim x (ledger_positions l) (ledger_positions l') \<Longrightarrow> unclaimed x l'"
  unfolding unclaimed_def no_new_claim_def same_claim_def by metis

lemma only_claim_kept:
  "only_claim x m i l \<Longrightarrow> no_new_claim x (ledger_positions l) (ledger_positions l') \<Longrightarrow> only_claim x m i l'"
  unfolding only_claim_def no_new_claim_def same_claim_def by metis

lemma dgetn_PStr: "dgetn d k = PStr s \<longleftrightarrow> dget d k = Some (PStr s)"
  by (auto simp: dgetn_def dget_or_def split: option.split)

lemma only_claim_unowned:
  assumes "only_claim x m i l" "\<And>p. owned_position (ledger_positions l) m i = Some p \<Longrightarrow> dgetn p ''pending_exit_id'' \<noteq> PStr x"
  shows "unclaimed x l"
  unfolding unclaimed_def
proof (intro allI impI notI)
  fix m' q assume q: "dget (ledger_positions l) m' = Some (PDict q)" "dget q ''pending_exit_id'' = Some (PStr x)"
  then have "m' = m" "dget q ''position_id'' = Some (PStr i)" using assms(1) by (auto simp: only_claim_def)
  then have "owned_position (ledger_positions l) m i = Some q" using q(1) by (simp add: owned_position_def)
  with assms(2) q(2) show False by (simp add: dgetn_PStr)
qed

lemma claim_makes_only:
  assumes "wf_ledger l" "unclaimed x l" "claim_position_exit_mutate e x m i r l = Inr (res, l')"
  shows "only_claim x m i l'"
proof (cases "owned_position (ledger_positions l) m i")
  case (Some p)
  note o = owned_positionD [OF Some]
  show ?thesis using assms(2,3) Some o
    by (auto simp: claim_position_exit_mutate_def owned_run assms(1) only_claim_def unclaimed_def bump_version_def dgetn_PStr
        split: if_splits)
qed (use assms unclaimed_only in \<open>auto simp: claim_position_exit_mutate_def Let_def wf_ledgerD(5,6)\<close>)

lemma release_frees:
  assumes "wf_ledger l" "only_claim x m i l"
  shows "\<exists>l'. release_exit_claim_mutate e m i x d l = Inr ((), l') \<and> unclaimed x l'"
proof (cases "\<exists>p. owned_position (ledger_positions l) m i = Some p \<and> dgetn p ''pending_exit_id'' = PStr x")
  case False
  then have "unclaimed x l" using only_claim_unowned [OF assms(2)] by blast
  moreover have "release_exit_claim_mutate e m i x d l = Inr ((), l)"
    using False by (auto simp: release_exit_claim_mutate_def Let_def wf_ledgerD(5,6) [OF assms(1)] split: option.split)
  ultimately show ?thesis by blast
next
  case True
  then obtain p where p: "owned_position (ledger_positions l) m i = Some p" "dgetn p ''pending_exit_id'' = PStr x" by blast
  show ?thesis
    using p assms(2) wf_positionD(9) [OF owned_wf [OF assms(1) p(1)]]
    by (auto simp: release_exit_claim_mutate_def owned_run assms(1) bump_version_def dget_or_def unclaimed_def only_claim_def)
qed

lemma sale_frees:
  assumes "wf_ledger l" "only_claim x (sell_mint s) i l" "sell_position_id s = Some i" "sell_exit_id s = Some x"
    and "0 < sell_amount s" "record_paper_sell_mutate e s l = Inr ((b, c), l')"
  shows "unclaimed x l'"
proof (cases b)
  case True
  then have sold: "record_paper_sell_mutate e s l = Inr ((True, c), l')" using assms(6) by simp
  obtain p n j where p: "wf_position (PDict p)"
      "sell_position e s j (ival p ''token_amount_raw'') n p (ledger_positions l) l = Inr ((True, c), l')"
    by (rule sell_shape [OF assms(1) sold]) blast
  obtain q cum l1 a1 a2 where
    "after_take_profit (sell_reason s) cum (reduced_position a1 a2 cum p) = Inr q"
    "l' = dset ''updated_at'' (PStr (utc_now e 1)) (dset ''positions''
       (PDict (if ival p ''token_amount_raw'' \<le> n then dpop (sell_mint s) (ledger_positions l)
               else dset (sell_mint s) (PDict q) (ledger_positions l))) l1)"
    by (rule sell_position_shape [OF assms(1) p]) blast
  moreover from this(1) have "dget q ''pending_exit_id'' = None"
    by (simp add: after_take_profit_keeps reduced_position_def)
  ultimately show ?thesis using assms(2) by (auto simp: unclaimed_def only_claim_def split: if_splits)
next
  case False
  then have l': "l' = l" using sell_not_sold [OF assms(1), of e s c l'] assms(6) by simp
  have "dgetn p ''pending_exit_id'' \<noteq> PStr x" if p: "owned_position (ledger_positions l) (sell_mint s) i = Some p" for p
  proof
    assume x: "dgetn p ''pending_exit_id'' = PStr x"
    note o = owned_positionD [OF p] and wf = owned_wf [OF assms(1) p]
    have "0 < ival p ''token_amount_raw''" using wf_positionD(10) [OF wf] .
    then have "sell_position e s i (ival p ''token_amount_raw'') (min (sell_amount s) (ival p ''token_amount_raw'')) p
        (ledger_positions l) l = Inr ((b, c), l')"
      using assms(3-6) o x wf_positionD(1) [OF wf]
      by (auto simp: record_paper_sell_mutate_def Let_def wf_ledgerD(5,6) [OF assms(1)] guard_passes_def opt_str_def
          dget_or_def dgetn_PStr split: if_splits)
    from sell_position_shape [OF assms(1) wf this] False show False by blast
  qed
  then show ?thesis unfolding l' by (rule only_claim_unowned [OF assms(2)])
qed

text \<open>The steps on the file, with the locks granted and the others making no claim for \<open>x\<close>.\<close>

definition quiet_io :: "string \<Rightarrow> exit_io \<Rightarrow> bool" where
  "quiet_io x io \<longleftrightarrow> (\<forall>k. op_lock io k = (True, True)) \<and> (\<forall>k f. claim_free_change x f (others io k f))"

lemma quiet_io_after [simp]: "quiet_io x io \<Longrightarrow> quiet_io x (after_ops n io)"
  by (simp add: quiet_io_def after_ops_def)

definition free_file :: "string \<Rightarrow> state_file \<Rightarrow> bool" where
  "free_file x f \<longleftrightarrow> (\<exists>l. f = Content (PDict l) \<and> active l \<and> unclaimed x l)"

definition only_file :: "string \<Rightarrow> string \<Rightarrow> string \<Rightarrow> state_file \<Rightarrow> bool" where
  "only_file x m i f \<longleftrightarrow> (\<exists>l. f = Content (PDict l) \<and> active l \<and> only_claim x m i l)"

lemma free_only_file: "free_file x f \<Longrightarrow> only_file x m i f"
  by (auto simp: free_file_def only_file_def intro: unclaimed_only)

lemma file_changed:
  "free_file x f \<Longrightarrow> claim_free_change x f f' \<Longrightarrow> free_file x f'"
  "only_file x m i f \<Longrightarrow> claim_free_change x f f' \<Longrightarrow> only_file x m i f'"
  unfolding free_file_def only_file_def claim_free_change_def
  by (blast intro: unclaimed_kept only_claim_kept)+

lemma file_others:
  assumes "quiet_io x io"
  shows "free_file x f \<Longrightarrow> free_file x (others io k f)" "only_file x m i f \<Longrightarrow> only_file x m i (others io k f)"
  using assms by (auto simp: quiet_io_def intro: file_changed)

lemma ledger_update_run:
  assumes "active l" "m l = Inr (r, l')"
  shows "ledger_update e True (Content (PDict l)) m = (Inr r, Content (PDict (dset ''version'' (PInt (ival l ''version'' + 1)) l')))"
proof -
  have "update_json ledger_path True (Content (PDict l)) (empty_ledger (utc_now e 0)) m None =
     (Inr (r, dset ''version'' (PInt (ival l ''version'' + 1)) l'), Content (PDict (dset ''version'' (PInt (ival l ''version'' + 1)) l')))"
    by (rule update_json_run [where d = l]) (simp_all add: assms active_doc_version)
  then show ?thesis by (simp add: ledger_update_def)
qed

lemma unclaimed_version [simp]: "unclaimed x (dset ''version'' v l) = unclaimed x l"
  "only_claim x m i (dset ''version'' v l) = only_claim x m i l"
  by (simp_all add: unclaimed_def only_claim_def)

lemma release_step_frees:
  assumes "quiet_io x io" "only_file x m i f" "release_step io k m i x d f = (res, f')"
  shows "res = Inr () \<and> free_file x f'"
proof -
  obtain l where l: "others io k f = Content (PDict l)" "active l" "only_claim x m i l"
    using file_others(2) [OF assms(1,2), of k] by (auto simp: only_file_def)
  have wf: "wf_ledger l" using l(2) by (simp add: active_def)
  obtain l' where l': "release_exit_claim_mutate (later 1 (op_env io k)) m i x d l = Inr ((), l')" "unclaimed x l'"
    using release_frees [OF wf l(3)] by blast
  have "wf_ledger l'" using release.keeps [OF wf l'(1)] by (simp add: keeps_money_def)
  then have "free_file x (Content (PDict (dset ''version'' (PInt (ival l ''version'' + 1)) l')))"
    using l'(2) by (simp add: free_file_def active_version)
  then show ?thesis using assms(1,3) ledger_update_run [OF l(2), of _ "()" l'] l' l(1)
    by (simp add: release_step_def release_exit_claim_def quiet_io_def)
qed

lemma step_claim_free:
  assumes "quiet_io x io"
  shows "failure_step io k m i y f = (r1, f1) \<Longrightarrow> claim_free_change x f f1"
    and "mark_step io k m i v f = (r2, f2) \<Longrightarrow> claim_free_change x f f2"
proof -
  have o: "claim_free_change x f (others io k f)" using assms by (simp add: quiet_io_def)
  show "failure_step io k m i y f = (r1, f1) \<Longrightarrow> claim_free_change x f f1"
    by (rule claim_free_change_trans [OF o])
      (auto simp: failure_step_def record_quote_failure_def keeps_money_def
        dest: quote_failure.keeps quote_failure_free.free elim!: ledger_update_claim_free [rotated])
  show "mark_step io k m i v f = (r2, f2) \<Longrightarrow> claim_free_change x f f2"
    by (rule claim_free_change_trans [OF o])
      (auto simp: mark_step_def record_position_mark_def keeps_money_def
        dest: mark.keeps mark_free.free elim!: ledger_update_claim_free [rotated])
qed

lemma give_back_frees:
  assumes "quiet_io x io" "only_file x m i f" "give_back io k m i x y f = (res, f')"
  shows "free_file x f'"
proof -
  obtain r g where r: "release_step io k m i x True f = (r, g)" by fastforce
  note g = release_step_frees [OF assms(1,2) r]
  obtain r2 g2 where r2: "failure_step io (k + 1) m i y g = (r2, g2)" by fastforce
  have "free_file x g2" using g step_claim_free(1) [OF assms(1) r2] file_changed(1) by blast
  moreover have "f' = g2" using assms(3) g r r2 by (auto simp: give_back_def split: sum.splits)
  ultimately show ?thesis by simp
qed

lemma ensure_migrated_claim_free:
  assumes "ensure_ledger_migrated e lk f = (res, f')"
  shows "claim_free_change x f f'"
  unfolding claim_free_change_def
proof (intro allI impI)
  fix l assume l: "f = Content (PDict l)" "active l"
  then have wf: "wf_ledger l" by (simp add: active_def)
  show "\<exists>l'. f' = Content (PDict l') \<and> active l' \<and> no_new_claim x (ledger_positions l) (ledger_positions l')"
  proof (cases "f' = f")
    case False
    then have "\<exists>d1 v. migrate_ledger_document (later 1 e) l = Inr (True, d1) \<and>
        f' = Content (PDict (dset ''version'' (PInt v) d1))"
      using assms l(1) by (auto simp: ensure_ledger_migrated_def migrate_json_def locked_def bindE_eq_Inr Let_def
          split: sum.splits if_splits)
    then obtain d1 v where d: "migrate_ledger_document (later 1 e) l = Inr (True, d1)"
        "f' = Content (PDict (dset ''version'' (PInt v) d1))" by blast
    have "wf_ledger d1" using migration.keeps [OF wf d(1)] by (simp add: keeps_money_def)
    then show ?thesis using d(2) migration_free.free [OF wf d(1)] by (auto intro: active_version)
  qed (use l in auto)
qed

lemma sale_step_frees:
  assumes "quiet_io x io" "only_file x (sell_mint s) i f" "sell_position_id s = Some i" "sell_exit_id s = Some x"
    "0 < sell_amount s" "sale_step io k s f = (res, f')" "0 \<le> proceeds_lamports s"
  shows "only_file x (sell_mint s) i f' \<and> (\<forall>b c. res = Inr (b, c) \<longrightarrow> free_file x f')"
proof -
  let ?e = "op_env io k"
  obtain r1 f1 where e: "ensure_ledger_migrated ?e True (others io k f) = (r1, f1)" by fastforce
  have o1: "only_file x (sell_mint s) i f1"
    using file_others(2) [OF assms(1,2)] file_changed(2) ensure_migrated_claim_free [OF e] by blast
  have run: "sale_step io k s f = migrated_update ?e True True (others io k f) (record_paper_sell_mutate (later 3 ?e) s)"
    using assms(1) by (simp add: sale_step_def record_paper_sell_def quiet_io_def)
  show ?thesis
  proof (cases r1)
    case (Inl y)
    then show ?thesis using assms(6) run e o1 by (auto simp: migrated_update_def)
  next
    case (Inr d0)
    obtain u f2 where u: "update_json ledger_path True f1 (empty_ledger (utc_now ?e 2)) (record_paper_sell_mutate (later 3 ?e) s) None = (u, f2)"
      by fastforce
    show ?thesis
    proof (cases u)
      case Inl2: (Inl y)
      then show ?thesis using assms(6) run e Inr u o1 update_json_error [OF u [unfolded Inl2]]
        by (auto simp: migrated_update_def)
    next
      case Inr2: (Inr y)
      obtain b c doc where y: "y = ((b, c), doc)" by (cases y) auto
      obtain l where l: "f1 = Content (PDict l)" "active l" "only_claim x (sell_mint s) i l"
        using o1 by (auto simp: only_file_def)
      then have wf: "wf_ledger l" by (simp add: active_def)
      obtain v d' where d: "record_paper_sell_mutate (later 3 ?e) s l = Inr ((b, c), d')"
          "f2 = Content (PDict (dset ''version'' (PInt (v + 1)) d'))"
        using u [unfolded Inr2 y] l(1) by (auto simp: update_json_Inr)
      have "unclaimed x d'" by (rule sale_frees [OF wf l(3) assms(3-5) d(1)])
      moreover have "wf_ledger d'"
        by (rule sale_keeps_wf [OF wf d(1) assms(7)])
      ultimately have "free_file x f2" using d(2) by (simp add: free_file_def active_version)
      then show ?thesis using assms(6) run e Inr u Inr2 y free_only_file by (auto simp: migrated_update_def)
    qed
  qed
qed

lemma claim_step_only:
  assumes "quiet_io x io" "free_file x f" "uuid4 (op_env io k) 0 = x" "claim_step io k m i reason f = (res, f')"
  shows "(\<forall>y. res = Inl y \<or> res = Inr None \<longrightarrow> free_file x f') \<and>
    (\<forall>y n. res = Inr (Some (y, n)) \<longrightarrow> y = x \<and> only_file x m i f')"
proof -
  let ?e = "op_env io k"
  obtain l where l: "others io k f = Content (PDict l)" "active l" "unclaimed x l"
    using file_others(1) [OF assms(1,2), of k] by (auto simp: free_file_def)
  have wf: "wf_ledger l" using l(2) by (simp add: active_def)
  note run = assms(4) [unfolded claim_step_def claim_position_exit_def assms(3) l(1)]
  show ?thesis
  proof (cases "claim_position_exit_mutate (later 1 ?e) x m i reason l")
    case (Inl y)
    then have "f' = Content (PDict l) \<and> res \<noteq> Inr (Some c) " for c
      using run assms(1) l(2) active_doc_version [OF l(2)]
      by (auto simp: ledger_update_def update_json_def Let_def locked_def quiet_io_def split: sum.splits)
    then show ?thesis using l by (auto simp: free_file_def)
  next
    case (Inr a)
    obtain c l' where a: "a = (c, l')" by (cases a)
    note claim = Inr [unfolded a]
    have r: "res = Inr c" "f' = Content (PDict (dset ''version'' (PInt (ival l ''version'' + 1)) l'))"
      using run assms(1) ledger_update_run [of l "claim_position_exit_mutate (later 1 ?e) x m i reason", OF l(2) claim]
      by (simp_all add: quiet_io_def)
    have wf': "wf_ledger l'" using claim.keeps [OF wf claim] by (simp add: keeps_money_def)
    have only: "only_claim x m i l'" by (rule claim_makes_only [OF wf l(3) claim])
    have "unclaimed x l'" if "c = None"
      using claim that l(3) wf by (auto simp: claim_position_exit_mutate_def owned_run split: option.splits if_splits)
    moreover have "y = x" if "c = Some (y, n)" for y n
      using claim that wf by (auto simp: claim_position_exit_mutate_def owned_run split: option.splits if_splits)
    ultimately show ?thesis using r wf' only by (auto simp: free_file_def only_file_def active_version)
  qed
qed

text \<open>What \<open>jupiter_quote\<close> guarantees of a quote.\<close>

definition executable_quote :: "dict \<Rightarrow> bool" where
  "executable_quote q \<longleftrightarrow> (\<exists>n. py_int (dget_or q ''outAmount'' (PStr ''0'')) = Inr n \<and> 0 < n)"

lemma jupiter_quote_executable: "jupiter_quote ev slippage fail_fast f = (Inr q, ds, f') \<Longrightarrow> executable_quote q"
  using jupiter_quote_facts [of ev slippage fail_fast f q ds f'] by (simp add: executable_quote_def)

definition executable_quotes :: "exit_io \<Rightarrow> dict res \<Rightarrow> bool" where
  "executable_quotes io market \<longleftrightarrow> (\<forall>q. market = Inr q \<longrightarrow> executable_quote q) \<and>
     (\<forall>n q. exit_quote io n = Inr q \<longrightarrow> executable_quote q)"

lemma executable_proceeds:
  "executable_quote q \<Longrightarrow> bindE (dindex q ''outAmount'') py_int = Inr n \<Longrightarrow> 0 < n"
  by (auto simp: executable_quote_def bindE_eq_Inr dindex_def dget_or_def split: option.splits)

lemma exit_request_fields:
  "exit_request io position m i x amount reason roi ms quote = Inr s \<Longrightarrow> executable_quote quote \<Longrightarrow>
   sell_mint s = m \<and> sell_position_id s = Some i \<and> sell_exit_id s = Some x \<and> sell_amount s = amount \<and>
   0 < proceeds_lamports s"
  using executable_proceeds by (auto simp: exit_request_def bindE_eq_Inr)

lemma claimed_exit_frees:
  assumes "quiet_io x io" "only_file x m i f" "executable_quotes io (Inr quote)"
    "\<And>q n ms. detected = Some (q, n, ms) \<Longrightarrow> q = quote"
    "execute_claimed_exit io position m i x current reason roi detected f = (res, f')"
  shows "free_file x f'"
proof -
  define amount where "amount = exit_amount reason current"
  define stale where "stale \<longleftrightarrow> amount \<le> 0 \<or> (case detected of Some (_, n, _) \<Rightarrow> n \<noteq> amount | None \<Rightarrow> False)"
  define wanted where "wanted = bindE (case detected of Some (q, _, _) \<Rightarrow> Inr q | None \<Rightarrow> exit_quote io amount)
               (exit_request io position m i x amount reason roi (map_option (\<lambda>(_, _, t). t) detected))"
  note run = assms(5) [unfolded execute_claimed_exit_def Let_def, folded amount_def, folded stale_def wanted_def]
  show ?thesis
  proof (cases stale)
    case True
    obtain r g where r: "release_step io 1 m i x False f = (r, g)" by fastforce
    show ?thesis using release_step_frees [OF assms(1,2) r] run True r by simp
  next
    case False
    show ?thesis
    proof (cases wanted)
      case (Inl y)
      then show ?thesis using run False give_back_frees [OF assms(1,2)] by auto
    next
      case (Inr s)
      then obtain q where q: "exit_request io position m i x amount reason roi (map_option (\<lambda>(_, _, t). t) detected) q = Inr s"
          "(case detected of Some (q, _, _) \<Rightarrow> Inr q | None \<Rightarrow> exit_quote io amount) = Inr q"
        by (auto simp: bindE_eq_Inr wanted_def)
      have "executable_quote q"
        using q(2) assms(3,4) by (auto simp: executable_quotes_def split: option.splits)
      note s = exit_request_fields [OF q(1) this]
      obtain r g where r: "sale_step io 1 s f = (r, g)" by fastforce
      have g: "only_file x m i g" "\<And>b c. r = Inr (b, c) \<Longrightarrow> free_file x g"
        using sale_step_frees [OF assms(1) _ _ _ _ r, of i] s assms(2) False by (auto simp: stale_def)
      show ?thesis
      proof (cases r)
        case Inl2: (Inl y)
        then show ?thesis using run False Inr r give_back_frees [OF assms(1) g(1)] by auto
      next
        case Inr2: (Inr bc)
        then show ?thesis using run False Inr r g(2) by (cases bc) auto
      qed
    qed
  qed
qed

lemma paper_exit_frees:
  assumes "quiet_io x io" "free_file x f" "uuid4 (op_env io 0) 0 = x"
    "executable_quotes io (Inr quote)" "\<And>q n ms. detected = Some (q, n, ms) \<Longrightarrow> q = quote"
    "execute_paper_exit io position reason roi detected f = (res, f')"
  shows "free_file x f'"
proof (cases "position_key position")
  case (Inr k)
  obtain m i where k: "k = (m, i)" by (cases k)
  obtain r g where r: "claim_step io 0 m i reason f = (r, g)" by fastforce
  note c = claim_step_only [OF assms(1-3) r]
  show ?thesis
  proof (cases "\<exists>y n. r = Inr (Some (y, n))")
    case True
    then show ?thesis using c assms(6) Inr k r claimed_exit_frees [OF assms(1) _ assms(4,5)] by (auto simp: execute_paper_exit_def)
  next
    case False
    then have "res = map_sum id (\<lambda>_. False) r \<and> f' = g \<and> (r = Inr None \<or> (\<exists>y. r = Inl y))"
      using assms(6) Inr k r by (cases r) (auto simp: execute_paper_exit_def split: option.splits)
    then show ?thesis using c by blast
  qed
qed (use assms in \<open>auto simp: execute_paper_exit_def\<close>)

lemma evaluation_frees:
  assumes "quiet_io x io" "free_file x f" "uuid4 (op_env io 1) 0 = x" "executable_quotes io market"
    "evaluate_paper_position io market ms position f = (res, f')"
  shows "free_file x f'"
proof (cases "f' = f")
  case False
  then obtain m i amount cost where key: "position_key position = Inr (m, i)"
      "bindE (dindex position ''token_amount_raw'') py_int = Inr amount"
      "bindE (dindex position ''remaining_cost_lamports'') py_int = Inr cost"
    and run: "(case market of
             Inl x \<Rightarrow> (case failure_step io 0 m i x f of (Inl y, f) \<Rightarrow> (Inl y, f) | (Inr _, f) \<Rightarrow> (Inl x, f))
           | Inr quote \<Rightarrow> evaluate_quoted io ms position m i amount cost quote f) = (res, f')"
    using assms(5) by (auto simp: evaluate_paper_position_def bindE_eq_Inr split: sum.splits if_splits)
  show ?thesis
  proof (cases market)
    case (Inl y)
    obtain r g where r: "failure_step io 0 m i y f = (r, g)" by fastforce
    have "free_file x g" using file_changed(1) [OF assms(2) step_claim_free(1) [OF assms(1) r]] .
    then show ?thesis using run Inl r by (auto split: sum.splits)
  next
    case (Inr quote)
    then have run: "evaluate_quoted io ms position m i amount cost quote f = (res, f')" using run by simp
    obtain v ratio where v: "bindE (bindE (dindex quote ''outAmount'') py_int) (\<lambda>v. bindE (int_truediv v cost) (\<lambda>r. Inr (v, r))) = Inr (v, ratio)"
      using run False by (auto simp: evaluate_quoted_def split: sum.splits)
    obtain r g where r: "mark_step io 0 m i v f = (r, g)" by fastforce
    have g: "free_file x g" using file_changed(1) [OF assms(2) step_claim_free(2) [OF assms(1) r]] .
    have q: "quiet_io x (after_ops 1 io)" "uuid4 (op_env (after_ops 1 io) 0) 0 = x"
        "executable_quotes (after_ops 1 io) (Inr quote)"
      using assms(1,3,4) Inr by (simp_all add: after_ops_def executable_quotes_def quiet_io_def)
    have exit: "free_file x h" if "execute_paper_exit (after_ops 1 io) position reason roi
        (if urgent then Some (quote, amount, ms) else None) g = (u, h)" for reason roi urgent u h
      by (rule paper_exit_frees [OF q(1) g q(2,3) _ that]) (simp split: if_splits)
    show ?thesis
    proof (cases "\<exists>reason urgent. exit_due position v ratio = Inr (Some (reason, urgent)) \<and> (\<exists>y. r = Inr y)")
      case True
      then obtain reason urgent where due: "exit_due position v ratio = Inr (Some (reason, urgent))" "\<exists>y. r = Inr y" by blast
      obtain u h where u: "execute_paper_exit (after_ops 1 io) position reason (f64_mul (f64_sub ratio (Fin 1)) (Fin 100))
          (if urgent then Some (quote, amount, ms) else None) g = (u, h)" by fastforce
      then have "f' = h" using run v r due by (auto simp: evaluate_quoted_def split: sum.splits)
      with exit [OF u] show ?thesis by simp
    next
      case False
      then have "f' = g" using run v r by (auto simp: evaluate_quoted_def split: sum.splits option.splits)
      with g show ?thesis by simp
    qed
  qed
qed (use assms(2) in simp)

section \<open>Properties\<close>

text \<open>C13: An evaluation of a paper position gives its exit claim back, whatever the other processes do to the
  ledger between its steps: when it returns or raises, no position is pending for the identifier it
  claimed with.  It relies on the locks being granted and on identifiers not being drawn twice.\<close>
theorem exit_claim_given_back:
  fixes io :: exit_io
  defines "x \<equiv> uuid4 (op_env io 1) 0"
  assumes "wf_ledger l" "has_int l ''version''" "unclaimed x l" "executable_quotes io market"
    "\<forall>k. op_lock io k = (True, True)" "\<forall>k. others io k = (\<lambda>f. snd (run_ops (ops k) f))"
    "\<forall>k. \<forall>(e, op) \<in> set (ops k). op_valid op \<and> \<not> claims_for x op"
    "evaluate_paper_position io market ms position (Content (PDict l)) = (res, f')"
  shows "\<exists>l'. f' = Content (PDict l') \<and> wf_ledger l' \<and> unclaimed x l'"
proof -
  have "quiet_io x io" using assms(6-8) run_ops_claim_free by (auto simp: quiet_io_def)
  moreover have "free_file x (Content (PDict l))" using assms(2-4) by (simp add: free_file_def active_def)
  ultimately have "free_file x f'" by (rule evaluation_frees) (use assms in simp_all)
  then show ?thesis by (auto simp: free_file_def active_def)
qed

definition sample_io :: exit_io where
  "sample_io = \<lparr>op_env = (\<lambda>_. sample_env), op_lock = (\<lambda>_. (True, True)), others = (\<lambda>_ f. snd (run_ops [] f)),
     exit_quote = (\<lambda>_. Inr sample_quote), quote_age = 5, failure_now = 0,
     failure_text = (\<lambda>_. \<lparr>error_class = ''E'', error_message = ''e''\<rparr>)\<rparr>"

lemma sample_quote_executable: "executable_quote sample_quote"
proof -
  have "int_of_string ''5'' = Some 5" by code_simp
  then show ?thesis by (simp add: executable_quote_def sample_quote_def)
qed

theorem exit_claim_given_back_witness:
  "\<exists>res f'. evaluate_paper_position sample_io (Inr sample_quote) 3
      (dset ''mint'' (PStr ''M'') sample_position) (Content (PDict sample_ledger)) = (res, f') \<and>
    (\<exists>l'. f' = Content (PDict l') \<and> unclaimed ''v'' l')"
proof -
  obtain res f' where run: "evaluate_paper_position sample_io (Inr sample_quote) 3
      (dset ''mint'' (PStr ''M'') sample_position) (Content (PDict sample_ledger)) = (res, f')" by fastforce
  have x: "uuid4 (op_env sample_io 1) 0 = ''v''" by (simp add: sample_io_def sample_env_def)
  have "unclaimed (uuid4 (op_env sample_io 1) 0) sample_ledger"
    by (simp add: unclaimed_def sample_ledger_def ledger_positions_def sample_position_def)
  moreover have "has_int sample_ledger ''version''" by (simp add: sample_ledger_def has_int_def)
  moreover have "executable_quotes sample_io (Inr sample_quote)"
    using sample_quote_executable by (simp add: executable_quotes_def sample_io_def)
  ultimately have "\<exists>l'. f' = Content (PDict l') \<and> wf_ledger l' \<and> unclaimed (uuid4 (op_env sample_io 1) 0) l'"
    by (intro exit_claim_given_back [where ops = "\<lambda>_. []", OF wf_sample_ledger _ _ _ _ _ _ run])
      (simp_all add: sample_io_def)
  with run x show ?thesis by auto
qed

text \<open>The stops of a paper position compare exactly: although the code compares rounded quotients with
  rounded thresholds, for costs below \<open>10 ^ 14\<close> lamports a stop-loss is due exactly at a value of at most 85
  percent of the cost (90 on the second route), a take-profit exactly at 130 percent or more, and after
  the take-profit the trailing stop exactly at half the peak.\<close>
theorem stops_compare_exactly:
  assumes "0 < cost" "cost < 10 ^ 14" "0 \<le> v" "int_truediv v cost = Inr ratio"
    "int_field position ''post_tp_peak_exit_value_lamports'' 0 = Inr peak"
  shows "exit_due position v ratio = Inr (if truthy (dgetn position ''take_profit_done'')
      then (if 0 < peak \<and> 2 * v \<le> peak then Some (''POST_TP_TRAILING_STOP_50'', True) else None)
      else if str_field position ''route_type'' (PStr ''A'') = ''B''
      then (if 10 * v \<le> 9 * cost then Some (''ROUTE_B_STOP_LOSS_10'', True)
            else if 13 * cost \<le> 10 * v then Some (''TAKE_PROFIT_30_SELL_80'', False) else None)
      else (if 100 * v \<le> 85 * cost then Some (''STOP_LOSS_15'', True)
            else if 13 * cost \<le> 10 * v then Some (''TAKE_PROFIT_30_SELL_80'', False) else None))"
proof -
  have ratio: "ratio = Fin (fl (of_int v / of_int cost))"
    using assms(1,4) by (auto simp: int_truediv_def f64_of_rat_def Let_def split: if_splits)
  have "of_int cost < (of_int (10 ^ 14) :: rat)" using assms(2) by (simp only: of_int_less_iff)
  then have cost: "of_int (20 * cost) < (2 powi (52 - - 1) :: rat)" "of_int (10 * cost) < (2 powi (52 - - 1) :: rat)"
      "of_int (10 * cost) < (2 powi (52 - 0) :: rat)"
    by simp_all
  have stop: "f64_le ratio STOP_LOSS_RATIO \<longleftrightarrow> 100 * v \<le> 85 * cost"
  proof -
    have "f64_le ratio STOP_LOSS_RATIO \<longleftrightarrow> v * 20 \<le> 17 * cost"
      using fl_threshold_le_iff [of cost 20 17 "- 1" v] assms(1) cost
      by (simp add: ratio STOP_LOSS_RATIO_def float_lit_def)
    then show ?thesis by presburger
  qed
  have stop_b: "f64_le ratio ROUTE_B_STOP_LOSS_RATIO \<longleftrightarrow> 10 * v \<le> 9 * cost"
    using fl_threshold_le_iff [of cost 10 9 "- 1" v] assms(1) cost
    by (simp add: ratio ROUTE_B_STOP_LOSS_RATIO_def float_lit_def mult.commute)
  have profit: "f64_le TAKE_PROFIT_RATIO ratio \<longleftrightarrow> 13 * cost \<le> 10 * v"
    using fl_threshold_ge_iff [of cost 10 13 v 0] assms(1,3) cost
    by (simp add: ratio TAKE_PROFIT_RATIO_def float_lit_def mult.commute)
  show ?thesis
    using assms(5) by (simp add: exit_due_def Let_def stop stop_b profit mult.commute)
qed

theorem stops_compare_exactly_witness:
  "exit_due sample_position 850000 (Fin (fl (850000 / 1000000))) = Inr (Some (''STOP_LOSS_15'', True))"
proof -
  have ratio: "int_truediv 850000 1000000 = Inr (Fin (fl (850000 / 1000000)))" by code_simp
  have peak: "int_field sample_position ''post_tp_peak_exit_value_lamports'' 0 = Inr 0"
    by (simp add: sample_position_def int_field_def py_or_def)
  show ?thesis
    using stops_compare_exactly [OF _ _ _ ratio peak]
    by (simp add: sample_position_def str_field_def py_or_def)
qed

section \<open>Live exits\<close>

definition unnumbered :: "execution_result \<Rightarrow> bool" where
  "unnumbered r \<longleftrightarrow> (\<forall>ev \<in> set (lifecycle r). dget ev ''event_seq'' = None)"

lemma event_unnumbered:
  "''event_seq'' \<notin> set (map fst details) \<Longrightarrow> dget (lifecycle_event now st details) ''event_seq'' = None"
proof -
  assume "''event_seq'' \<notin> set (map fst details)"
  then have "dget details ''event_seq'' = None" by (induction details) auto
  then show ?thesis by (simp add: lifecycle_event_def dget_dupdate iffD2 [OF dget_rev_None])
qed

lemma unsubmitted_unnumbered: "unnumbered (unsubmitted m n st)"
  by (simp add: unnumbered_def unsubmitted_def)

lemma confirm_unnumbered: "unnumbered r \<Longrightarrow> unnumbered (confirm_swap e io r c)"
  by (auto simp: unnumbered_def confirm_swap_def failed_event_def event_unnumbered split: sum.split)

lemma swap_events_unnumbered:
  assumes "execute_live_swap e io m amount urgency tip = Some (Inr r)"
  shows "unnumbered r"
  using assms
  by (auto simp: execute_live_swap_def unsubmitted_def Let_def failed_event_def event_unnumbered
      intro!: confirm_unnumbered split: sum.splits prod.splits)
    (simp_all add: unnumbered_def event_unnumbered)

lemma sell_events_unnumbered:
  assumes "execute_sell e io environ wallets settings signer balance quote tip m percent urgency = Some (Inr r)"
  shows "unnumbered r"
  using assms
  by (auto simp: execute_sell_def unsubmitted_unnumbered split: if_splits sum.splits dest: swap_events_unnumbered)

text \<open>A position that is owned and pending for \<open>x\<close>.\<close>

definition pending_for :: "string \<Rightarrow> string \<Rightarrow> string \<Rightarrow> dict \<Rightarrow> bool" where
  "pending_for x m i l \<longleftrightarrow> (\<exists>p. owned_position (ledger_positions l) m i = Some p \<and> dgetn p ''pending_exit_id'' = PStr x)"

lemma lifecycle_keeps_fields:
  assumes "lifecycle_items e m i clock k items p l = Inr (clock', q, l')" "key \<in> {''position_id'', ''pending_exit_id''}"
  shows "dgetn q key = dgetn p key"
  using assms
proof (induction e m i clock k items p l rule: lifecycle_items.induct)
  case (2 e m i clock k item items p l)
  then show ?case by (auto simp: Let_def bindE_eq_Inr)
qed simp

lemma lifecycle_keeps_pending:
  assumes "wf_ledger l" "pending_for x m i l" "record_live_transaction_lifecycle_mutate e m i items l = Inr (r, l')"
  shows "pending_for x m i l'"
proof -
  obtain p where p: "owned_position (ledger_positions l) m i = Some p" "dgetn p ''pending_exit_id'' = PStr x"
    using assms(2) by (auto simp: pending_for_def)
  obtain c q l1 q' where step: "lifecycle_items e m i 0 0 items p l = Inr (c, q, l1)"
      "bump_version q = Inr q'"
      "l' = dset ''updated_at'' (PStr (utc_now e c)) (set_position m q' (ledger_positions l) l1)"
    using assms(1,3) p by (auto simp: record_live_transaction_lifecycle_mutate_def Let_def
        wf_ledgerD(5,6) bindE_eq_Inr)
  have "dgetn q' key = dgetn q key" if "key \<noteq> ''version''" for key
    using bump_version_dget [OF step(2) that] by (simp add: dgetn_def dget_or_def)
  then show ?thesis
    using lifecycle_keeps_fields [OF step(1), of "''position_id''"] lifecycle_keeps_fields [OF step(1), of "''pending_exit_id''"]
      p owned_positionD [OF p(1)]
    by (simp add: pending_for_def step(3) set_position_def owned_position_def)
qed

lemma release_reopens:
  assumes "wf_ledger l" "pending_for x m i l"
  shows "\<exists>l' q. release_exit_claim_mutate e m i x d l = Inr ((), l') \<and> wf_ledger l' \<and>
    owned_position (ledger_positions l') m i = Some q \<and> dgetn q ''risk_state'' \<noteq> PStr ''EXIT_PENDING''"
proof -
  obtain p where p: "owned_position (ledger_positions l) m i = Some p" "dgetn p ''pending_exit_id'' = PStr x"
    using assms(2) by (auto simp: pending_for_def)
  have "\<exists>l' q. release_exit_claim_mutate e m i x d l = Inr ((), l') \<and>
    owned_position (ledger_positions l') m i = Some q \<and> dgetn q ''risk_state'' \<noteq> PStr ''EXIT_PENDING''"
    using p owned_positionD [OF p(1)] wf_positionD(9) [OF owned_wf [OF assms(1) p(1)]]
    by (simp add: release_exit_claim_mutate_def owned_run assms(1) bump_version_def dget_or_def owned_position_def dgetn_PStr)
  then show ?thesis using release.keeps [OF assms(1)] by (auto simp: keeps_money_def)
qed

text \<open>The position can be claimed.\<close>

definition claimable :: "string \<Rightarrow> string \<Rightarrow> dict \<Rightarrow> bool" where
  "claimable m i l \<longleftrightarrow> (\<forall>e y why. \<exists>c l'. claim_position_exit_mutate e y m i why l = Inr (Some c, l'))"

definition alone :: "exit_io \<Rightarrow> bool" where
  "alone io \<longleftrightarrow> (\<forall>k. op_lock io k = (True, True)) \<and> (\<forall>k f. others io k f = f)"

lemma release_step_reopens:
  assumes "alone io" "active l" "pending_for x m i l"
  shows "\<exists>l'. release_step io k m i x d (Content (PDict l)) = (Inr (), Content (PDict l')) \<and> claimable m i l'"
proof -
  have wf: "wf_ledger l" using assms(2) by (simp add: active_def)
  obtain l' q where l': "release_exit_claim_mutate (later 1 (op_env io k)) m i x d l = Inr ((), l')" "wf_ledger l'"
      "owned_position (ledger_positions l') m i = Some q" "dgetn q ''risk_state'' \<noteq> PStr ''EXIT_PENDING''"
    using release_reopens [OF wf assms(3)] by blast
  let ?l = "dset ''version'' (PInt (ival l ''version'' + 1)) l'"
  have "release_step io k m i x d (Content (PDict l)) = (Inr (), Content (PDict ?l))"
    using assms(1) ledger_update_run [of l "release_exit_claim_mutate (later 1 (op_env io k)) m i x d", OF assms(2) l'(1)]
    by (simp add: release_step_def release_exit_claim_def alone_def)
  moreover have "claimable m i ?l" unfolding claimable_def
    using claim_runs [of ?l m i q] l'(2-4) by (simp add: wf_ledger_version)
  ultimately show ?thesis by blast
qed

lemma live_give_back_reopens:
  "alone io \<Longrightarrow> active l \<Longrightarrow> pending_for x m i l \<Longrightarrow>
   \<exists>r l'. live_give_back io m i x y (Content (PDict l)) = (r, Content (PDict l')) \<and> claimable m i l'"
  using release_step_reopens [of io l x m i 4 True] by (auto simp: live_give_back_def)

lemma unlanded_sale_reopens:
  assumes "alone io" "active l" "pending_for x m i l" "unnumbered r" "\<not> landed r"
  shows "\<exists>res l'. settle_live_sale io m i x sold quote reason roi r (Content (PDict l)) = (res, Content (PDict l')) \<and> claimable m i l'"
proof -
  have wf: "wf_ledger l" using assms(2) by (simp add: active_def)
  let ?step = "record_live_transaction_lifecycle (op_env io 2) True (Content (PDict l)) m i (lifecycle r)"
  have settle: "settle_live_sale io m i x sold quote reason roi r (Content (PDict l)) = (case ?step of
        (Inl y, f) \<Rightarrow> live_give_back io m i x y f
      | (Inr _, f) \<Rightarrow> (case release_step io 3 m i x True f of
               (Inl y, f) \<Rightarrow> live_give_back io m i x y f
             | (Inr _, f) \<Rightarrow> (Inr (), f)))"
    using assms(1,5) by (simp add: settle_live_sale_def alone_def cong: sum.case_cong prod.case_cong)
  show ?thesis
  proof (cases "lifecycle r = []")
    case True
    then show ?thesis using settle release_step_reopens [OF assms(1-3), of 3 True]
      by (auto simp: record_live_transaction_lifecycle_def)
  next
    case False
    let ?m = "record_live_transaction_lifecycle_mutate (later 1 (op_env io 2)) m i (lifecycle r)"
    show ?thesis
    proof (cases "?m l")
      case (Inl y)
      then have "?step = (Inl y, Content (PDict l))"
        using False assms(2) active_doc_version [OF assms(2)]
        by (simp add: record_live_transaction_lifecycle_def ledger_update_def update_json_def Let_def locked_def)
      then show ?thesis using settle live_give_back_reopens [OF assms(1-3)] by simp
    next
      case (Inr a)
      obtain l1 where run: "?m l = Inr ((), l1)" using Inr by (cases a) auto
      have "wf_ledger l1" using lifecycle_keeps_money [OF wf _ run] assms(4) by (simp add: unnumbered_def keeps_money_def)
      then have act: "active (dset ''version'' (PInt (ival l ''version'' + 1)) l1)" (is "active ?l1") by (rule active_version)
      have pend: "pending_for x m i ?l1"
        using lifecycle_keeps_pending [OF wf assms(3) run] by (simp add: pending_for_def)
      have "?step = (Inr (), Content (PDict ?l1))"
        using False ledger_update_run [of l ?m, OF assms(2) run] by (simp add: record_live_transaction_lifecycle_def)
      then show ?thesis using settle release_step_reopens [OF assms(1) act pend, of 3 True] by auto
    qed
  qed
qed

text \<open>A live sale that was submitted but is lost from sight opens its position for another sale: although
  the executor asks not to resubmit before the signature history is checked, the risk loop releases the
  claim of every sale that has not landed, and the next cycle's claim succeeds.\<close>
theorem lost_live_sale_reopens:
  assumes "wf_ledger l" "has_int l ''version''" "pending_for x m i l"
    "\<forall>k. op_lock io k = (True, True)" "\<forall>k f. others io k f = f"
    "live_sale live m percent reason = Some (Inr r)" "submitted r" "\<not> landed r"
    "execute_live_exit io live m i x claimed reason percent roi quote (Content (PDict l)) = Some (res, f')"
  shows "\<exists>l'. f' = Content (PDict l') \<and> claimable m i l'"
proof -
  have l: "alone io" "active l" using assms(1,2,4,5) by (simp_all add: alone_def active_def)
  have "unnumbered r" using assms(6) unfolding live_sale_def by (rule sell_events_unnumbered)
  note settled = unlanded_sale_reopens [OF l assms(3) this assms(8)]
  define sold where "sold = (if percent = 100 then claimed else claimed div 2)"
  note run = assms(9) [unfolded execute_live_exit_def Let_def, folded sold_def]
  show ?thesis
  proof (cases "if percent = 50 then exit_quote io sold else Inr quote")
    case (Inl y)
    obtain r' l' where g: "live_give_back io m i x y (Content (PDict l)) = (r', Content (PDict l'))" "claimable m i l'"
      using live_give_back_reopens [OF l assms(3)] by blast
    from run have "live_give_back io m i x y (Content (PDict l)) = (res, f')" by (simp add: Inl)
    then show ?thesis using g by auto
  next
    case (Inr q)
    obtain r' l' where g: "settle_live_sale io m i x sold q reason roi r (Content (PDict l)) = (r', Content (PDict l'))"
        "claimable m i l'"
      using settled by blast
    from run have "settle_live_sale io m i x sold q reason roi r (Content (PDict l)) = (res, f')" by (simp add: Inr assms(6))
    then show ?thesis using g by auto
  qed
qed

definition sample_live :: live_io where
  "sample_live = \<lparr>live_swap = sample_swap_io, live_env = sample_env, live_environ = (\<lambda>_. None),
     live_wallets_file = sample_wallets, live_settings = sample_settings, live_signer = Inr ''W'',
     live_balance = Inr (PDict [(''value'', PList [PDict [(''account'', PDict [(''data'', PDict [(''parsed'',
       PDict [(''info'', PDict [(''tokenAmount'', PDict [(''amount'', PStr ''5'')])])])])])]])]),
     live_quote = (\<lambda>_. Inr sample_quote), live_tip = (\<lambda>_ _. Inr 2000)\<rparr>"

lemma sample_live_sale:
  "\<exists>r. live_sale sample_live m 100 reason = Some (Inr r) \<and> submitted r \<and> \<not> landed r"
proof -
  have five: "int_of_string ''5'' = Some 5" by code_simp
  have bal: "bindE (live_balance sample_live) token_balance = Inr 5"
    by (simp add: sample_live_def token_balance_def account_amount_def sub_dict_def py_or_def five)
  have out: "bindE (dindex sample_quote ''outAmount'') py_int = Inr 5" by (simp add: sample_quote_def five)
  have key: "jupiter_api_key sample_settings \<noteq> []" "trading_mode sample_settings = ''live''"
    by (simp_all add: sample_settings_def)
  show ?thesis
    using sample_swap_runs [of m 5 "live_urgency reason"] bal
    by (simp add: live_sale_def execute_sell_def sample_live_def key sample_settings_valid out)
qed

definition sample_pending_ledger :: dict where
  "sample_pending_ledger = set_position ''M'' (dset ''pending_exit_id'' (PStr ''x'') sample_position)
     (ledger_positions sample_ledger) sample_ledger"

theorem lost_live_sale_reopens_witness:
  "\<exists>res l'. execute_live_exit (sample_io\<lparr>others := (\<lambda>_ f. f)\<rparr>) sample_live ''M'' ''u'' ''x'' 1000 ''LIVE_STOP_LOSS_15'' 100
      (Fin (- 20)) sample_quote (Content (PDict sample_pending_ledger)) = Some (res, Content (PDict l')) \<and> claimable ''M'' ''u'' l'"
proof -
  let ?io = "sample_io\<lparr>others := (\<lambda>_ f. f)\<rparr>"
  obtain r where r: "live_sale sample_live ''M'' 100 ''LIVE_STOP_LOSS_15'' = Some (Inr r)" "submitted r" "\<not> landed r"
    using sample_live_sale by blast
  have "\<exists>z. execute_live_exit ?io sample_live ''M'' ''u'' ''x'' 1000 ''LIVE_STOP_LOSS_15'' 100
      (Fin (- 20)) sample_quote (Content (PDict sample_pending_ledger)) = Some z"
    by (simp add: execute_live_exit_def r(1))
  then obtain res f' where run: "execute_live_exit ?io sample_live ''M'' ''u'' ''x'' 1000 ''LIVE_STOP_LOSS_15'' 100
      (Fin (- 20)) sample_quote (Content (PDict sample_pending_ledger)) = Some (res, f')" by auto
  have wf: "wf_ledger sample_pending_ledger" unfolding sample_pending_ledger_def
    by (intro wf_set_position wf_sample_ledger wf_position_dset sample_position_wf) (simp_all add: position_ints_def)
  have version: "has_int sample_pending_ledger ''version''"
    by (simp add: sample_pending_ledger_def set_position_def has_int_def sample_ledger_def)
  have pending: "pending_for ''x'' ''M'' ''u'' sample_pending_ledger"
    by (simp add: pending_for_def sample_pending_ledger_def set_position_def owned_position_def sample_position_def)
  have "\<exists>l'. f' = Content (PDict l') \<and> claimable ''M'' ''u'' l'"
    by (rule lost_live_sale_reopens [OF wf version pending _ _ r run]) (simp_all add: sample_io_def)
  with run show ?thesis by auto
qed

end
