(* ===== verification/StateConcurrency.thy ===== *)
theory StateConcurrency
  imports StateStore
begin

text \<open>
  Concurrent transactions on one state file.  Each process runs \<open>update_json\<close> of
  \<open>src/state_store.py\<close> in steps: it waits for the lock (\<open>exclusive_file_lock\<close>), reads the file, then
  replaces it or fails, and releases the lock.  A process may also give up waiting, or die: the
  operating system then drops its lock, and the replacement of the file has happened or not.

  Every interleaving of the steps is an atomic execution of the transactions, one after the other.
\<close>

section \<open>The steps\<close>

record 'a transaction =
  txn_fallback :: dict
  txn_mutator :: "'a mutator"
  txn_expected :: "int option"

text \<open>
  Where a process is: waiting, holding the lock, with the file as it read it, with its outcome while
  it still holds the lock, and gone.  \<open>None\<close> is the outcome of a process that died.
\<close>

datatype 'a phase =
    Waiting
  | Holding
  | Loaded state_file
  | Finished "'a res"
  | Gone "'a res option"

record 'a shared =
  shared_file :: state_file
  holder :: "nat option"
  phase :: "nat \<Rightarrow> 'a phase"

definition goto :: "nat \<Rightarrow> 'a phase \<Rightarrow> 'a shared \<Rightarrow> 'a shared" where
  "goto i p s = s\<lparr>phase := (phase s)(i := p)\<rparr>"

text \<open>The body of the transaction on the file it read: its outcome and the file it writes.\<close>

definition body :: "string \<Rightarrow> 'a transaction \<Rightarrow> state_file \<Rightarrow> 'a res \<times> state_file" where
  "body path t g = (case update_json path True g (txn_fallback t) (txn_mutator t) (txn_expected t) of
     (Inl x, f) \<Rightarrow> (Inl x, f) | (Inr (r, _), f) \<Rightarrow> (Inr r, f))"

inductive lock_step :: "string \<Rightarrow> (nat \<Rightarrow> 'a transaction) \<Rightarrow> 'a shared \<Rightarrow> 'a shared \<Rightarrow> bool"
  for path txn where
  acquire: "phase s i = Waiting \<Longrightarrow> holder s = None \<Longrightarrow>
     lock_step path txn s (goto i Holding (s\<lparr>holder := Some i\<rparr>))"
| give_up: "phase s i = Waiting \<Longrightarrow> holder s = Some j \<Longrightarrow>
     lock_step path txn s (goto i (Gone (Some (Inl (StateLockTimeout (''timed out locking '' @ path))))) s)"
| load: "phase s i = Holding \<Longrightarrow> lock_step path txn s (goto i (Loaded (shared_file s)) s)"
| commit: "phase s i = Loaded g \<Longrightarrow> body path (txn i) g = (Inr r, f) \<Longrightarrow>
     lock_step path txn s (goto i (Finished (Inr r)) (s\<lparr>shared_file := f\<rparr>))"
| fail: "phase s i = Loaded g \<Longrightarrow> body path (txn i) g = (Inl x, f) \<Longrightarrow>
     lock_step path txn s (goto i (Finished (Inl x)) s)"
| release: "phase s i = Finished r \<Longrightarrow>
     lock_step path txn s (goto i (Gone (Some r)) (s\<lparr>holder := None\<rparr>))"
| die: "holder s = Some i \<Longrightarrow> lock_step path txn s (goto i (Gone None) (s\<lparr>holder := None\<rparr>))"
| die_waiting: "phase s i = Waiting \<Longrightarrow> lock_step path txn s (goto i (Gone None) s)"

inductive_cases lock_stepE: "lock_step path txn s s'"

inductive reached :: "string \<Rightarrow> (nat \<Rightarrow> 'a transaction) \<Rightarrow> state_file \<Rightarrow> 'a shared \<Rightarrow> bool"
  for path txn f where
  initially: "reached path txn f \<lparr>shared_file = f, holder = None, phase = (\<lambda>_. Waiting)\<rparr>"
| onwards: "reached path txn f s \<Longrightarrow> lock_step path txn s s' \<Longrightarrow> reached path txn f s'"

section \<open>The lock\<close>

text \<open>Only the holder is inside, and the file is as it read it.\<close>

definition inside :: "'a shared \<Rightarrow> nat \<Rightarrow> bool" where
  "inside s i \<longleftrightarrow> (case phase s i of Waiting \<Rightarrow> False | Gone _ \<Rightarrow> False | _ \<Rightarrow> True)"

definition guarded :: "'a shared \<Rightarrow> bool" where
  "guarded s \<longleftrightarrow> (\<forall>i. inside s i \<longleftrightarrow> holder s = Some i) \<and> (\<forall>i g. phase s i = Loaded g \<longrightarrow> shared_file s = g)"

lemma inside_goto [simp]:
  "inside (goto i p s) j = (if j = i then (case p of Waiting \<Rightarrow> False | Gone _ \<Rightarrow> False | _ \<Rightarrow> True) else inside s j)"
  by (simp add: inside_def goto_def)

lemma goto_fields [simp]:
  "phase (goto i p s) = (phase s)(i := p)" "holder (goto i p s) = holder s" "shared_file (goto i p s) = shared_file s"
  by (simp_all add: goto_def)

lemma inside_update [simp]: "inside (s\<lparr>holder := h\<rparr>) i = inside s i" "inside (s\<lparr>shared_file := g\<rparr>) i = inside s i"
  by (simp_all add: inside_def)

lemma guardedD:
  assumes "guarded s"
  shows "phase s i = Waiting \<Longrightarrow> holder s \<noteq> Some i" "phase s i = Gone q \<Longrightarrow> holder s \<noteq> Some i"
    "phase s i = Holding \<Longrightarrow> holder s = Some i" "phase s i = Loaded g \<Longrightarrow> holder s = Some i \<and> shared_file s = g"
    "phase s i = Finished r \<Longrightarrow> holder s = Some i"
  using assms spec [OF conjunct1 [OF assms [unfolded guarded_def]], of i] by (auto simp: guarded_def inside_def)

lemma guardedI:
  "(\<And>j. inside s j \<longleftrightarrow> holder s = Some j) \<Longrightarrow> (\<And>j g. phase s j = Loaded g \<Longrightarrow> shared_file s = g) \<Longrightarrow> guarded s"
  by (simp add: guarded_def)

lemma step_guarded:
  assumes "lock_step path txn s s'" "guarded s"
  shows "guarded s'"
proof -
  have ins: "inside s j \<longleftrightarrow> holder s = Some j" for j using assms(2) by (simp add: guarded_def)
  note at = guardedD [OF assms(2)]
  show ?thesis
    using assms(1)
  proof cases
    case (commit i g r f)
    have only: "j = i" if "phase s j = Loaded h" for j h using at(4) [OF that] at(4) [OF commit(2)] by simp
    show ?thesis unfolding commit(1)
      by (rule guardedI) (use at(4) [OF commit(2)] only in \<open>auto simp: ins split: if_splits\<close>)
  next
    case (fail i g x f)
    show ?thesis unfolding fail(1)
      by (rule guardedI) (use at(4) [OF fail(2)] at(4) in \<open>auto simp: ins split: if_splits\<close>)
  next
    case (release i r)
    have "j = i" if "phase s j = Loaded h" for j h using at(4) [OF that] at(5) [OF release(2)] by simp
    then show ?thesis unfolding release(1)
      by (intro guardedI) (use at(5) [OF release(2)] at(4) in \<open>auto simp: ins split: if_splits\<close>)
  next
    case (die i)
    show ?thesis unfolding die(1)
      by (rule guardedI) (use die(2) at(4) in \<open>auto simp: ins split: if_splits\<close>)
  next
    case (acquire i)
    show ?thesis unfolding acquire(1)
      by (rule guardedI) (use acquire(3) at(4) in \<open>auto simp: ins split: if_splits\<close>)
  next
    case (load i)
    show ?thesis unfolding load(1)
      by (rule guardedI) (use at(3) [OF load(2)] at(4) in \<open>auto simp: ins split: if_splits\<close>)
  next
    case (give_up i j)
    show ?thesis unfolding give_up(1)
      by (rule guardedI) (use at(1) [OF give_up(2)] at(4) in \<open>auto simp: ins split: if_splits\<close>)
  next
    case (die_waiting i)
    show ?thesis unfolding die_waiting(1)
      by (rule guardedI) (use at(1) [OF die_waiting(2)] at(4) in \<open>auto simp: ins split: if_splits\<close>)
  qed
qed

lemma reached_guarded: "reached path txn f s \<Longrightarrow> guarded s"
proof (induction rule: reached.induct)
  case initially
  show ?case by (simp add: guarded_def inside_def)
next
  case (onwards s s')
  then show ?case using step_guarded by blast
qed

section \<open>Atomic executions\<close>

text \<open>The transactions of the processes \<open>is\<close>, one after the other: their outcomes, and the file.\<close>

fun atomic_run ::
  "string \<Rightarrow> (nat \<Rightarrow> 'a transaction) \<Rightarrow> nat list \<Rightarrow> state_file \<Rightarrow> (nat \<times> 'a res) list \<times> state_file" where
  "atomic_run path txn [] f = ([], f)"
| "atomic_run path txn (i # ps) f =
     (let (r, f) = body path (txn i) f; (rs, f) = atomic_run path txn ps f in ((i, r) # rs, f))"

lemma atomic_run_snoc:
  "atomic_run path txn (ps @ [i]) f =
     (fst (atomic_run path txn ps f) @ [(i, fst (body path (txn i) (snd (atomic_run path txn ps f))))],
      snd (body path (txn i) (snd (atomic_run path txn ps f))))"
  by (induction ps arbitrary: f) (simp_all add: case_prod_beta Let_def)

lemma body_error: "body path t g = (Inl x, f) \<Longrightarrow> f = g"
  by (auto simp: body_def split: sum.splits prod.splits dest: update_json_error)

text \<open>
  The simulation: the file is what the transactions that got to their outcome leave when run one after
  the other, and each outcome is the one of that run.
\<close>

definition outcome :: "'a shared \<Rightarrow> nat \<Rightarrow> 'a res option" where
  "outcome s i = (case phase s i of Finished r \<Rightarrow> Some r | Gone r \<Rightarrow> r | _ \<Rightarrow> None)"

definition explains :: "string \<Rightarrow> (nat \<Rightarrow> 'a transaction) \<Rightarrow> state_file \<Rightarrow> 'a shared \<Rightarrow> nat list \<Rightarrow> bool" where
  "explains path txn f s ps \<longleftrightarrow> distinct ps \<and> shared_file s = snd (atomic_run path txn ps f) \<and>
     (\<forall>i \<in> set ps. phase s i \<in> range Finished \<union> range Gone) \<and>
     (\<forall>i r. outcome s i = Some r \<longrightarrow> (i, r) \<in> set (fst (atomic_run path txn ps f)) \<or>
        (i \<notin> set ps \<and> r = Inl (StateLockTimeout (''timed out locking '' @ path))))"

lemma atomic_run_ids: "map fst (fst (atomic_run path txn ps f)) = ps"
  by (induction ps arbitrary: f) (simp_all add: case_prod_beta Let_def)

lemma explains_outcome:
  assumes "explains path txn f s ps" "guarded s" "phase s i = Loaded g" "body path (txn i) g = (r, h)"
  shows "explains path txn f (goto i (Finished r) (s\<lparr>shared_file := h\<rparr>)) (ps @ [i])"
proof -
  have g: "g = snd (atomic_run path txn ps f)"
    using assms(1) guardedD(4) [OF assms(2,3)] by (simp add: explains_def)
  have i: "i \<notin> set ps" using assms(1,3) by (auto simp: explains_def)
  show ?thesis
    using assms(1,4) i
    by (auto simp: explains_def atomic_run_snoc g [symmetric] outcome_def split: if_splits)
qed

lemma explains_quiet:
  assumes "explains path txn f s ps" "outcome s' = outcome s" "shared_file s' = shared_file s"
    "\<And>i. phase s i \<in> range Finished \<union> range Gone \<Longrightarrow> phase s' i \<in> range Finished \<union> range Gone"
  shows "explains path txn f s' ps"
  using assms unfolding explains_def by metis

lemma explains_step:
  assumes "lock_step path txn s s'" "guarded s" "explains path txn f s ps"
  shows "\<exists>qs. explains path txn f s' qs"
  using assms(1)
proof cases
  case (commit i g r h)
  then show ?thesis using explains_outcome [OF assms(3,2) commit(2,3)] by auto
next
  case (fail i g x h)
  have "h = shared_file s" using body_error [OF fail(3)] guardedD(4) [OF assms(2) fail(2)] by simp
  then show ?thesis using explains_outcome [OF assms(3,2) fail(2,3)] fail(1) by auto
next
  case (give_up i j)
  have "i \<notin> set ps" using assms(3) give_up(2) by (auto simp: explains_def)
  then have "explains path txn f s' ps"
    using assms(3) unfolding give_up(1) explains_def by (auto simp: outcome_def)
  then show ?thesis ..
next
  case (release i r)
  have "explains path txn f s' ps"
    by (rule explains_quiet [OF assms(3)]) (auto simp: release outcome_def)
  then show ?thesis ..
next
  case (die i)
  have "explains path txn f s' ps"
    using assms(3) unfolding die(1) explains_def by (auto simp: outcome_def)
  then show ?thesis ..
next
  case (die_waiting i)
  have "explains path txn f s' ps"
    by (rule explains_quiet [OF assms(3)]) (auto simp: die_waiting outcome_def)
  then show ?thesis ..
next
  case (acquire i)
  have "explains path txn f s' ps"
    by (rule explains_quiet [OF assms(3)]) (auto simp: acquire outcome_def)
  then show ?thesis ..
next
  case (load i)
  have "explains path txn f s' ps"
    by (rule explains_quiet [OF assms(3)]) (auto simp: load outcome_def)
  then show ?thesis ..
qed

section \<open>Properties\<close>

lemma reached_explained: "reached path txn f s \<Longrightarrow> \<exists>ps. explains path txn f s ps"
proof (induction rule: reached.induct)
  case initially
  have "explains path txn f \<lparr>shared_file = f, holder = None, phase = (\<lambda>_. Waiting)\<rparr> []"
    by (simp add: explains_def outcome_def)
  then show ?case ..
next
  case (onwards s s')
  then show ?case using explains_step reached_guarded by blast
qed

text \<open>C7: Concurrent transactions refine atomic ones: in every state that any number of processes can
  reach, in any interleaving of their steps, with processes giving up and dying at any point, at most one
  is between its lock and its release, the file is what some of the transactions leave when run one after
  the other, each at most once, and every process that has an outcome has the one of that run or has
  timed out waiting for the lock.\<close>
theorem transactions_serialise:
  assumes "reached path txn f s"
  shows "(\<forall>i j. inside s i \<longrightarrow> inside s j \<longrightarrow> i = j) \<and>
    (\<exists>ps. distinct ps \<and> shared_file s = snd (atomic_run path txn ps f) \<and>
       (\<forall>i r. outcome s i = Some r \<longrightarrow> (i, r) \<in> set (fst (atomic_run path txn ps f)) \<or>
          r = Inl (StateLockTimeout (''timed out locking '' @ path))))"
proof -
  have "\<forall>i j. inside s i \<longrightarrow> inside s j \<longrightarrow> i = j"
    using reached_guarded [OF assms] by (auto simp: guarded_def)
  then show ?thesis using reached_explained [OF assms] unfolding explains_def by blast
qed

text \<open>Two processes that set a field: the second gives up while the first holds the lock.\<close>

definition sample_txn :: "nat \<Rightarrow> nat transaction" where
  "sample_txn i = \<lparr>txn_fallback = [], txn_mutator = (\<lambda>d. Inr (i, dset ''owner'' (PInt (int i)) d)), txn_expected = None\<rparr>"

lemma sample_body: "body ''state.json'' (sample_txn 0) Missing =
    (Inr 0, Content (PDict [(''owner'', PInt 0), (''version'', PInt 1)]))"
  by (simp add: body_def sample_txn_def update_json_def locked_def doc_version_def py_or_def dget_or_def dset_def)

theorem transactions_serialise_witness:
  "\<exists>s. reached ''state.json'' sample_txn Missing s \<and> outcome s 0 = Some (Inr 0) \<and>
    outcome s 1 = Some (Inl (StateLockTimeout (''timed out locking '' @ ''state.json''))) \<and>
    (\<exists>ps. distinct ps \<and> shared_file s = snd (atomic_run ''state.json'' sample_txn ps Missing))"
proof -
  let ?R = "reached ''state.json'' sample_txn Missing" and ?L = "lock_step ''state.json'' sample_txn"
  define s0 :: "nat shared" where "s0 = \<lparr>shared_file = Missing, holder = None, phase = (\<lambda>_. Waiting)\<rparr>"
  define s1 where "s1 = goto 0 Holding (s0\<lparr>holder := Some 0\<rparr>)"
  define s2 where "s2 = goto 0 (Loaded (shared_file s1)) s1"
  define s3 where "s3 = goto 1 (Gone (Some (Inl (StateLockTimeout (''timed out locking '' @ ''state.json''))))) s2"
  define s4 where "s4 = goto 0 (Finished (Inr 0))
     (s3\<lparr>shared_file := Content (PDict [(''owner'', PInt 0), (''version'', PInt 1)])\<rparr>)"
  have "?R s0" unfolding s0_def by (rule initially)
  moreover have "?L s0 s1" unfolding s1_def by (rule acquire) (simp_all add: s0_def)
  moreover have "?L s1 s2" unfolding s2_def by (rule load) (simp add: s1_def)
  moreover have "?L s2 s3" unfolding s3_def by (rule give_up [where j = 0]) (simp_all add: s2_def s1_def s0_def)
  moreover have "?L s3 s4" unfolding s4_def
    by (rule commit [where g = Missing]) (simp_all add: s3_def s2_def s1_def s0_def sample_body)
  ultimately have "?R s4" by (blast intro: onwards)
  from transactions_serialise [OF this] this show ?thesis
    by (intro exI [of _ s4] conjI) (auto simp: outcome_def s4_def s3_def)
qed

end
