(* ===== verification/LedgerConcurrency.thy ===== *)
theory LedgerConcurrency
  imports StateConcurrency LedgerAccounts
begin

text \<open>
  The ledger under concurrent transactions: the steps of \<open>StateConcurrency\<close> with the transactions of
  \<open>LedgerAccounts\<close>.
\<close>

definition ledger_txn :: "(nat \<Rightarrow> env) \<Rightarrow> (nat \<Rightarrow> ledger_op) \<Rightarrow> nat \<Rightarrow> int transaction" where
  "ledger_txn env op i = \<lparr>txn_fallback = empty_ledger (utc_now (env i) 0),
     txn_mutator = op_mutator (env i) (op i), txn_expected = None\<rparr>"

text \<open>The profits recorded by a run: an outcome that is an error records none.\<close>

definition recorded_profit :: "(nat \<times> int res) list \<Rightarrow> int" where
  "recorded_profit rs = (\<Sum>(i, r) \<leftarrow> rs. case r of Inl _ \<Rightarrow> 0 | Inr n \<Rightarrow> n)"

lemma ledger_body:
  assumes "wf_ledger l" "op_valid (op i)" "body p (ledger_txn env op i) (Content (PDict l)) = (r, f)"
  shows "\<exists>l'. f = Content (PDict l') \<and> wf_ledger l' \<and>
    cash l' + held_cost l' = cash l + held_cost l + (case r of Inl _ \<Rightarrow> 0 | Inr n \<Rightarrow> n)"
proof -
  obtain u where u: "update_json p True (Content (PDict l)) (empty_ledger (utc_now (env i) 0)) (op_mutator (env i) (op i)) None = (u, f)"
      "r = map_sum id fst u"
    using assms(3) by (auto simp: body_def ledger_txn_def split: sum.splits prod.splits)
  show ?thesis
  proof (cases u)
    case (Inl x)
    then show ?thesis using u assms(1) update_json_error by fastforce
  next
    case (Inr y)
    obtain n doc where y: "y = (n, doc)" by (cases y)
    obtain v d' where d: "op_mutator (env i) (op i) l = Inr (n, d')" "f = Content (PDict (dset ''version'' (PInt (v + 1)) d'))"
      using u(1) [unfolded Inr y update_json_Inr] by auto
    from op_accounts [OF assms(1,2) d(1)] show ?thesis
      using u(2) d(2) Inr y by (auto intro!: wf_ledger_version)
  qed
qed

lemma ledger_atomic_run:
  assumes "wf_ledger l" "\<forall>i. op_valid (op i)"
  shows "\<exists>l'. snd (atomic_run p (ledger_txn env op) ps (Content (PDict l))) = Content (PDict l') \<and> wf_ledger l' \<and>
    cash l' + held_cost l' = cash l + held_cost l + recorded_profit (fst (atomic_run p (ledger_txn env op) ps (Content (PDict l))))"
  using assms
proof (induction ps arbitrary: l)
  case (Cons i ps)
  obtain r f where b: "body p (ledger_txn env op i) (Content (PDict l)) = (r, f)" by fastforce
  obtain l1 where l1: "f = Content (PDict l1)" "wf_ledger l1"
      "cash l1 + held_cost l1 = cash l + held_cost l + (case r of Inl _ \<Rightarrow> 0 | Inr n \<Rightarrow> n)"
    using ledger_body [OF Cons.prems(1) _ b] Cons.prems(2) by blast
  from Cons.IH [OF l1(2) Cons.prems(2)] l1(3) show ?case
    by (auto simp: b l1(1) Let_def case_prod_beta recorded_profit_def)
qed (simp add: recorded_profit_def)

lemma recorded_outcome:
  assumes "explains path txn f s ps" "(i, r) \<in> set (fst (atomic_run path txn ps f))"
  shows "outcome s i = Some r \<or> phase s i = Gone None"
proof -
  let ?rs = "fst (atomic_run path txn ps f)"
  have ids: "map fst ?rs = ps" "distinct (map fst ?rs)" using assms(1) by (simp_all add: atomic_run_ids explains_def)
  have i: "i \<in> set ps" using image_eqI [OF _ assms(2), of i fst] by (simp add: ids(1) flip: set_map)
  then have "phase s i \<in> range Finished \<union> range Gone" using assms(1) by (simp add: explains_def)
  moreover have "r' = r" if "outcome s i = Some r'" for r'
  proof -
    have "(i, r') \<in> set ?rs" using assms(1) i that by (auto simp: explains_def)
    with assms(2) ids(2) show ?thesis by (rule eq_key_imp_eq_value [rotated 2])
  qed
  ultimately show ?thesis by (auto simp: outcome_def)
qed

text \<open>C8: Whatever ledger transactions run concurrently, and however their steps interleave, in every reachable
  state the ledger is well-formed, and its cash plus the cost of its open positions is that of the start
  plus the profits of the transactions that ran, each once.  The transactions that ran are those of the processes that
  have seen their outcome, with that outcome, and of processes that died; a process that has an outcome but did not
  run has timed out waiting for the lock, and adds nothing.\<close>
theorem concurrent_ledger_balances:
  assumes "wf_ledger l" "\<forall>i. op_valid (op i)" "reached p (ledger_txn env op) (Content (PDict l)) s"
  shows "\<exists>l' rs. shared_file s = Content (PDict l') \<and> wf_ledger l' \<and> distinct (map fst rs) \<and>
    cash l' + held_cost l' = cash l + held_cost l + recorded_profit rs \<and>
    (\<forall>(i, r) \<in> set rs. outcome s i = Some r \<or> phase s i = Gone None) \<and>
    (\<forall>i r. outcome s i = Some r \<longrightarrow> (i, r) \<in> set rs \<or>
       i \<notin> fst ` set rs \<and> r = Inl (StateLockTimeout (''timed out locking '' @ p)))"
proof -
  obtain ps where ps: "explains p (ledger_txn env op) (Content (PDict l)) s ps" using reached_explained [OF assms(3)] ..
  let ?rs = "fst (atomic_run p (ledger_txn env op) ps (Content (PDict l)))"
  obtain l' where l': "snd (atomic_run p (ledger_txn env op) ps (Content (PDict l))) = Content (PDict l')" "wf_ledger l'"
      "cash l' + held_cost l' = cash l + held_cost l + recorded_profit ?rs"
    using ledger_atomic_run [OF assms(1,2)] by blast
  have ids: "map fst ?rs = ps" "fst ` set ?rs = set ps" by (simp_all add: atomic_run_ids flip: set_map)
  have "\<forall>(i, r) \<in> set ?rs. outcome s i = Some r \<or> phase s i = Gone None" using recorded_outcome [OF ps] by blast
  moreover have "\<forall>i r. outcome s i = Some r \<longrightarrow> (i, r) \<in> set ?rs \<or>
       i \<notin> fst ` set ?rs \<and> r = Inl (StateLockTimeout (''timed out locking '' @ p))"
    using ps unfolding explains_def ids(2) by blast
  moreover have "distinct (map fst ?rs)" "shared_file s = Content (PDict l')"
    using ps l'(1) by (simp_all add: explains_def ids(1))
  ultimately show ?thesis using l'(2,3) by blast
qed

lemma single_profit:
  assumes "(1, Inr n) \<in> set rs" "\<And>i r. (i, r) \<in> set rs \<Longrightarrow> i = 1 \<or> r = Inl x" "distinct (map fst rs)"
  shows "recorded_profit rs = n"
proof -
  have none: "recorded_profit qs = 0" if "set qs \<subseteq> set rs" "1 \<notin> fst ` set qs" for qs
    using that assms(2) by (induction qs) (fastforce simp: recorded_profit_def)+
  obtain us vs where rs: "rs = us @ (1, Inr n) # vs" using assms(1) by (meson split_list)
  then have "1 \<notin> fst ` set us" "1 \<notin> fst ` set vs" using assms(3) by auto
  then have "recorded_profit us = 0" "recorded_profit vs = 0" using none [of us] none [of vs] by (simp_all add: rs subset_iff)
  then show ?thesis by (simp add: rs recorded_profit_def)
qed

text \<open>Two sales: the first commits while the second gives up waiting.\<close>

definition selling :: "nat \<Rightarrow> ledger_op" where
  "selling i = Sell (sample_sell 300 450000 None)"

lemma selling_body:
  "\<exists>f. body ledger_path (ledger_txn (\<lambda>_. sample_env) selling i) (Content (PDict sample_ledger)) = (Inr 150000, f)"
proof -
  have "fst (body ledger_path (ledger_txn (\<lambda>_. sample_env) selling i) (Content (PDict sample_ledger))) = Inr 150000"
    by (simp only: ledger_txn_def selling_def) code_simp
  then show ?thesis by (metis prod.collapse)
qed

theorem concurrent_ledger_balances_witness:
  "\<exists>s l'. reached ledger_path (ledger_txn (\<lambda>_. sample_env) selling) (Content (PDict sample_ledger)) s
     \<and> outcome s 1 = Some (Inr 150000) \<and> outcome s 2 = Some (Inl (StateLockTimeout (''timed out locking '' @ ledger_path)))
     \<and> shared_file s = Content (PDict l') \<and> wf_ledger l' \<and> cash l' + held_cost l' = 10000150000"
proof -
  let ?R = "reached ledger_path (ledger_txn (\<lambda>_. sample_env) selling) (Content (PDict sample_ledger))"
    and ?L = "lock_step ledger_path (ledger_txn (\<lambda>_. sample_env) selling)"
  obtain f where f: "body ledger_path (ledger_txn (\<lambda>_. sample_env) selling 1) (Content (PDict sample_ledger)) = (Inr 150000, f)"
    using selling_body by blast
  let ?late = "Inl (StateLockTimeout (''timed out locking '' @ ledger_path)) :: int res"
  define s0 :: "int shared" where "s0 = \<lparr>shared_file = Content (PDict sample_ledger), holder = None, phase = (\<lambda>_. Waiting)\<rparr>"
  define s1 where "s1 = goto 1 Holding (s0\<lparr>holder := Some 1\<rparr>)"
  define s2 where "s2 = goto 1 (Loaded (shared_file s1)) s1"
  define s3 where "s3 = goto 2 (Gone (Some ?late)) s2"
  define s4 where "s4 = goto 1 (Finished (Inr 150000)) (s3\<lparr>shared_file := f\<rparr>)"
  have "?R s0" unfolding s0_def by (rule initially)
  moreover have "?L s0 s1" unfolding s1_def by (rule acquire) (simp_all add: s0_def)
  moreover have "?L s1 s2" unfolding s2_def by (rule load) (simp add: s1_def)
  moreover have "?L s2 s3" unfolding s3_def by (rule give_up [where j = 1]) (simp_all add: s2_def s1_def s0_def)
  moreover have "?L s3 s4" unfolding s4_def
    by (rule commit [where g = "Content (PDict sample_ledger)"]) (simp_all add: f [simplified] s3_def s2_def s1_def s0_def)
  ultimately have R: "?R s4" by (blast intro: onwards)
  have at: "outcome s4 1 = Some (Inr 150000)" "outcome s4 2 = Some ?late" "\<And>i. i \<noteq> 1 \<Longrightarrow> i \<noteq> 2 \<Longrightarrow> outcome s4 i = None \<and> phase s4 i = Waiting"
    "phase s4 2 = Gone (Some ?late)" "phase s4 1 = Finished (Inr 150000)"
    by (auto simp: outcome_def s4_def s3_def s2_def s1_def s0_def)
  have valid: "\<forall>i. op_valid (selling i)" by (simp add: selling_def sample_sell_def)
  obtain l' rs where l': "shared_file s4 = Content (PDict l')" "wf_ledger l'" "distinct (map fst rs)"
      "cash l' + held_cost l' = cash sample_ledger + held_cost sample_ledger + recorded_profit rs"
      "\<forall>(i, r) \<in> set rs. outcome s4 i = Some r \<or> phase s4 i = Gone None"
      "\<forall>i r. outcome s4 i = Some r \<longrightarrow> (i, r) \<in> set rs \<or> i \<notin> fst ` set rs \<and> r = ?late"
    using concurrent_ledger_balances [OF wf_sample_ledger valid R] by blast
  have "(1, Inr 150000) \<in> set rs" using l'(6) at(1) by blast
  moreover have "i = 1 \<or> r = ?late" if "(i, r) \<in> set rs" for i r
    using l'(5) that at by (cases "i = 1"; cases "i = 2") fastforce+
  ultimately have "recorded_profit rs = 150000" using l'(3) by (rule single_profit)
  moreover have "cash sample_ledger + held_cost sample_ledger = 10000000000"
    by (simp add: cash_def ival_def held_cost_def ledger_positions_def sample_ledger_def sample_position_def)
  ultimately show ?thesis using R at(1,2) l'(1,2,4) by (intro exI [of _ s4] exI [of _ l']) simp
qed

end
