(* ===== verification/PyDate.thy ===== *)
theory PyDate
  imports PyTime
begin

text \<open>
  The other direction of \<open>PyTime\<close>: \<open>datetime.fromtimestamp(x, timezone.utc).isoformat()\<close>, the text the
  program stores for a time it has as a number of seconds.  The seconds are rounded to microseconds,
  half to even, as CPython does; a time outside the years a \<open>datetime\<close> can hold raises.

  Also \<open>x // y\<close> on floats for a positive divisor.
\<close>

section \<open>From seconds to text\<close>

definition seconds_limit :: rat where "seconds_limit = 9223372036854775808"
definition max_utc_seconds :: int where "max_utc_seconds = (3652060 - epoch_ordinal) * 86400"
definition min_utc_seconds :: int where "min_utc_seconds = (1 - epoch_ordinal) * 86400"

text \<open>\<open>datetime.fromtimestamp(x, timezone.utc)\<close>, in microseconds from the epoch.  The product of the
  fraction by a million is itself rounded to a float.\<close>

fun fromtimestamp_us :: "f64 \<Rightarrow> int res" where
  "fromtimestamp_us (Fin q) =
     (let s = \<lfloor>q\<rfloor>; us = s * 1000000 + rhe (fl ((q - of_int s) * 1000000)) in
      if seconds_limit \<le> \<bar>q\<bar> then Inl OverflowError
      else if us < min_utc_seconds * 1000000 \<or> max_utc_seconds * 1000000 \<le> us
      then Inl (ValueError ''year is out of range'')
      else Inr us)"
| "fromtimestamp_us NaN = Inl (ValueError ''cannot convert float NaN to integer'')"
| "fromtimestamp_us _ = Inl OverflowError"

text \<open>The year, month and day of an ordinal: cycles of 400, 100, 4 and 1 years, then the month.\<close>

definition year_of_ordinal :: "int \<Rightarrow> int \<times> int" where
  "year_of_ordinal ordinal =
     (let n = ordinal - 1; n400 = n div 146097; n = n mod 146097;
          n100 = n div 36524; n = n mod 36524;
          n4 = n div 1461; n = n mod 1461;
          n1 = n div 365; year = n400 * 400 + n100 * 100 + n4 * 4 + n1 + 1
      in if n1 = 4 \<or> n100 = 4 then (year - 1, 365) else (year, n mod 365))"

definition ymd_of_ordinal :: "int \<Rightarrow> int \<times> int \<times> int" where
  "ymd_of_ordinal ordinal =
     (let (y, n) = year_of_ordinal ordinal;
          before = (\<lambda>m. days_before_month y m);
          m = int (length (filter (\<lambda>m. before m \<le> n) [1, 2, 3, 4, 5, 6, 7, 8, 9, 10, 11, 12]))
      in (y, m, n - before m + 1))"

definition isoformat_us :: "int \<Rightarrow> string" where
  "isoformat_us us =
     (let (y, mo, d) = ymd_of_ordinal (epoch_ordinal + us div 86400000000);
          t = us mod 86400000000; f = t mod 1000000; s = t div 1000000
      in pad_zero 4 (dec_nat y) @ ''-'' @ pad_zero 2 (dec_nat mo) @ ''-'' @ pad_zero 2 (dec_nat d)
         @ ''T'' @ pad_zero 2 (dec_nat (s div 3600)) @ '':'' @ pad_zero 2 (dec_nat (s div 60 mod 60))
         @ '':'' @ pad_zero 2 (dec_nat (s mod 60))
         @ (if f = 0 then [] else ''.'' @ pad_zero 6 (dec_nat f)) @ ''+00:00'')"

definition utc_isoformat :: "f64 \<Rightarrow> string res" where
  "utc_isoformat x = bindE (fromtimestamp_us x) (\<lambda>us. Inr (isoformat_us us))"

section \<open>Floor division of floats\<close>

text \<open>
  CPython's \<open>x // y\<close> for finite \<open>x\<close> and finite \<open>y > 0\<close>: the remainder is exact, the quotient of what is left is
  rounded, and the result is the integer below it, or above it when it is more than a half away.
\<close>

definition float_floordiv :: "rat \<Rightarrow> rat \<Rightarrow> int" where
  "float_floordiv x y =
     (let d = fl (fl (y * of_int \<lfloor>x / y\<rfloor>) / y) in \<lceil>d - 1 / 2\<rceil>)"

lemma float_floordiv_mono:
  assumes "x \<le> x'" "0 < y"
  shows "float_floordiv x y \<le> float_floordiv x' y"
proof -
  have "\<lfloor>x / y\<rfloor> \<le> \<lfloor>x' / y\<rfloor>" using assms by (intro floor_mono divide_right_mono) simp_all
  then have "y * of_int \<lfloor>x / y\<rfloor> \<le> y * of_int \<lfloor>x' / y\<rfloor>"
    using assms(2) by (intro mult_left_mono) simp_all
  then have "fl (y * of_int \<lfloor>x / y\<rfloor>) / y \<le> fl (y * of_int \<lfloor>x' / y\<rfloor>) / y"
    using assms(2) by (intro divide_right_mono fl_mono) simp_all
  then have "fl (fl (y * of_int \<lfloor>x / y\<rfloor>) / y) \<le> fl (fl (y * of_int \<lfloor>x' / y\<rfloor>) / y)"
    by (rule fl_mono)
  then show ?thesis unfolding float_floordiv_def Let_def by (intro ceiling_mono diff_right_mono)
qed

end
