(* ===== verification/ProspectiveFeatures.thy ===== *)
theory ProspectiveFeatures
  imports PyDate WalletPerformance
begin

text \<open>
  \<open>src/research/prospective_features.py\<close>: the snapshots of a pair that are taken before a signal.  The
  store keeps at most six snapshots, one per minute, for each of the 256 pairs used last, and forgets
  those older than 15 minutes; the normalisation keeps of a collection only what was known at the signal.

  A finite, non-negative float of a snapshot is its rational value; \<open>py_number\<close> gives it back.
\<close>

section \<open>Values\<close>

definition FEATURE_COLLECTION_SCHEMA_VERSION :: int where "FEATURE_COLLECTION_SCHEMA_VERSION = 1"
definition MOMENTUM_COLLECTOR_VERSION :: string where "MOMENTUM_COLLECTOR_VERSION = ''momentum_pre_signal_v1''"
definition MAX_PRE_SIGNAL_SNAPSHOTS :: nat where "MAX_PRE_SIGNAL_SNAPSHOTS = 6"
definition SNAPSHOT_BUCKET_SECONDS :: rat where "SNAPSHOT_BUCKET_SECONDS = 60"
definition SNAPSHOT_TTL_SECONDS :: rat where "SNAPSHOT_TTL_SECONDS = 900"
definition MAX_TRACKED_MINT_PAIRS :: nat where "MAX_TRACKED_MINT_PAIRS = 256"

text \<open>\<open>_finite_number\<close>: a finite float that is not negative; every exception of \<open>float\<close> is caught.\<close>

definition feature_number :: "py \<Rightarrow> rat option" where
  "feature_number v = (case v of PBool _ \<Rightarrow> None | _ \<Rightarrow>
     (case py_float v of Inr (Fin q) \<Rightarrow> (if 0 \<le> q then Some q else None) | _ \<Rightarrow> None))"

definition feature_timestamp :: "py \<Rightarrow> rat option" where
  "feature_timestamp v = (case feature_number v of
     Some q \<Rightarrow> Some q
   | None \<Rightarrow> (case v of
       PStr s \<Rightarrow> (if strip s = [] then None
         else case fromisoformat (replace_all (strip s) ''Z'' ''+00:00'') of
           None \<Rightarrow> None
         | Some t \<Rightarrow> (if offset_us t = None then None
             else case seconds_of_us (instant_us t) of
               Fin q \<Rightarrow> (if 0 \<le> q then Some q else None) | _ \<Rightarrow> None))
     | _ \<Rightarrow> None))"

definition iso_timestamp :: "rat \<Rightarrow> string res" where
  "iso_timestamp q = bindE (utc_isoformat (Fin q)) (\<lambda>s. Inr (replace_all s ''+00:00'' ''Z''))"

section \<open>Snapshots\<close>

record snapshot =
  snapshot_at_epoch :: rat
  volume_m5_usd :: rat
  buys_m5 :: int
  sells_m5 :: int
  liquidity_usd :: rat
  price_usd :: "rat option"

definition py_number :: "rat \<Rightarrow> py" where "py_number q = PFloat (Fin q)"

definition projection :: "snapshot \<Rightarrow> dict" where
  "projection s =
     [(''snapshot_at_epoch'', py_number (snapshot_at_epoch s)), (''volume_m5_usd'', py_number (volume_m5_usd s)),
      (''buys_m5'', PInt (buys_m5 s)), (''sells_m5'', PInt (sells_m5 s)),
      (''liquidity_usd'', py_number (liquidity_usd s)),
      (''price_usd'', case price_usd s of None \<Rightarrow> PNone | Some q \<Rightarrow> py_number q)]"

definition normalized_snapshot :: "py \<Rightarrow> snapshot option" where
  "normalized_snapshot v = (case v of
     PDict d \<Rightarrow>
       (case (feature_timestamp (dgetn d ''snapshot_at_epoch''), feature_number (dgetn d ''volume_m5_usd''),
              feature_number (dgetn d ''buys_m5''), feature_number (dgetn d ''sells_m5''),
              feature_number (dgetn d ''liquidity_usd'')) of
          (Some t, Some v, Some b, Some s, Some l) \<Rightarrow>
            Some \<lparr>snapshot_at_epoch = t, volume_m5_usd = v, buys_m5 = trunc_rat b, sells_m5 = trunc_rat s,
              liquidity_usd = l, price_usd = feature_number (dgetn d ''price_usd'')\<rparr>
        | _ \<Rightarrow> None)
   | _ \<Rightarrow> None)"

definition bucket_of :: "snapshot \<Rightarrow> int" where
  "bucket_of s = float_floordiv (snapshot_at_epoch s) SNAPSHOT_BUCKET_SECONDS"

section \<open>The normalisation of a collection\<close>

text \<open>\<open>signal_epoch - 900.0 <= epoch <= signal_epoch\<close>, the difference rounded.\<close>

definition in_window :: "rat \<Rightarrow> snapshot \<Rightarrow> bool" where
  "in_window signal s \<longleftrightarrow> fl (signal - SNAPSHOT_TTL_SECONDS) \<le> snapshot_at_epoch s \<and> snapshot_at_epoch s \<le> signal"

text \<open>A dictionary from buckets to snapshots: a later snapshot replaces the one of its bucket.\<close>

definition put_bucket :: "snapshot \<Rightarrow> (int \<times> snapshot) list \<Rightarrow> (int \<times> snapshot) list" where
  "put_bucket s m = AList.update (bucket_of s) s m"

definition collect_buckets :: "rat \<Rightarrow> py list \<Rightarrow> (int \<times> snapshot) list" where
  "collect_buckets signal raws = fold (\<lambda>raw m. case normalized_snapshot raw of
       None \<Rightarrow> m | Some s \<Rightarrow> (if in_window signal s then put_bucket s m else m)) raws []"

definition select_snapshots :: "rat \<Rightarrow> py list \<Rightarrow> snapshot list" where
  "select_snapshots signal raws =
     take_last MAX_PRE_SIGNAL_SNAPSHOTS (sort_key snapshot_at_epoch (map snd (collect_buckets signal raws)))"

definition collection_dict :: "snapshot list \<Rightarrow> dict res" where
  "collection_dict selected = (case selected of
     [] \<Rightarrow> Inr []
   | s # _ \<Rightarrow> bindE (iso_timestamp (snapshot_at_epoch s)) (\<lambda>t. Inr
       [(''schema_version'', PInt FEATURE_COLLECTION_SCHEMA_VERSION),
        (''collector_version'', PStr MOMENTUM_COLLECTOR_VERSION),
        (''prospective_collection_start'', PStr t),
        (''snapshot_count'', PInt (int (length selected))),
        (''pre_signal_snapshots'', PList (map (PDict \<circ> projection) selected))]))"

definition normalize_prospective_feature_collection :: "py \<Rightarrow> py \<Rightarrow> dict res" where
  "normalize_prospective_feature_collection v signal_timestamp = (case v of
     PDict d \<Rightarrow>
       (if \<not> py_same (dgetn d ''schema_version'') (PInt FEATURE_COLLECTION_SCHEMA_VERSION) then Inr []
        else if dgetn d ''collector_version'' \<noteq> PStr MOMENTUM_COLLECTOR_VERSION then Inr []
        else case (feature_timestamp signal_timestamp, dgetn d ''pre_signal_snapshots'') of
            (Some signal, PList raws) \<Rightarrow> collection_dict (select_snapshots signal raws)
          | _ \<Rightarrow> Inr [])
   | _ \<Rightarrow> Inr [])"

definition prospective_feature_collection_eligible :: "py \<Rightarrow> int \<Rightarrow> bool res" where
  "prospective_feature_collection_eligible row minimum_snapshots = (case row of
     PDict d \<Rightarrow> bindE (normalize_prospective_feature_collection
         (dgetn d ''prospective_feature_collection'') (dgetn d ''signal_detected_at'')) (\<lambda>normalized.
       bindE (int_field normalized ''snapshot_count'' 0) (\<lambda>n. Inr (max 1 minimum_snapshots \<le> n)))
   | _ \<Rightarrow> Inr False)"

section \<open>The store of snapshots\<close>

text \<open>An ordered dictionary from pairs to their snapshots, the pair used last at the end.\<close>

type_synonym snapshot_store = "((string \<times> string) \<times> snapshot list) list"

definition series_count :: "snapshot_store \<Rightarrow> nat" where "series_count st = length st"

definition snapshot_count :: "snapshot_store \<Rightarrow> nat" where
  "snapshot_count st = sum_list (map (length \<circ> snd) st)"

definition drop_expired :: "rat \<Rightarrow> snapshot list \<Rightarrow> snapshot list" where
  "drop_expired oldest xs = dropWhile (\<lambda>s. snapshot_at_epoch s < oldest) xs"

definition evict_expired :: "rat \<Rightarrow> snapshot_store \<Rightarrow> snapshot_store" where
  "evict_expired now st =
     filter (\<lambda>(_, xs). xs \<noteq> []) (map (\<lambda>(k, xs). (k, drop_expired (fl (now - SNAPSHOT_TTL_SECONDS)) xs)) st)"

text \<open>\<open>deque(maxlen=6).append\<close>, and the replacement of the snapshot of the same minute.\<close>

definition push_snapshot :: "snapshot \<Rightarrow> snapshot list \<Rightarrow> snapshot list" where
  "push_snapshot s xs =
     (if xs \<noteq> [] \<and> bucket_of (last xs) = bucket_of s then butlast xs @ [s]
      else take_last MAX_PRE_SIGNAL_SNAPSHOTS (xs @ [s]))"

definition use_series :: "string \<times> string \<Rightarrow> snapshot list \<Rightarrow> snapshot_store \<Rightarrow> snapshot_store" where
  "use_series k xs st = take_last MAX_TRACKED_MINT_PAIRS (filter (\<lambda>p. fst p \<noteq> k) st @ [(k, xs)])"

record snapshot_fields =
  field_at :: py
  field_volume :: py
  field_buys :: py
  field_sells :: py
  field_liquidity :: py
  field_price :: py

definition raw_snapshot :: "snapshot_fields \<Rightarrow> py" where
  "raw_snapshot f = PDict
     [(''snapshot_at_epoch'', case feature_timestamp (field_at f) of None \<Rightarrow> PNone | Some q \<Rightarrow> py_number q),
      (''volume_m5_usd'', field_volume f), (''buys_m5'', field_buys f), (''sells_m5'', field_sells f),
      (''liquidity_usd'', field_liquidity f), (''price_usd'', field_price f)]"

definition store_record :: "string \<Rightarrow> string \<Rightarrow> snapshot_fields \<Rightarrow> snapshot_store \<Rightarrow> bool \<times> snapshot_store" where
  "store_record mint_text pair_text f st =
     (case normalized_snapshot (raw_snapshot f) of
        None \<Rightarrow> (False, st)
      | Some s \<Rightarrow>
          (let m = strip mint_text; p = strip pair_text in
           if m = [] \<or> p = [] \<or> 80 < length m \<or> 160 < length p then (False, st)
           else let st = evict_expired (snapshot_at_epoch s) st;
                    xs = (case map_of st (m, p) of None \<Rightarrow> [] | Some xs \<Rightarrow> xs) in
             if xs \<noteq> [] \<and> snapshot_at_epoch s < snapshot_at_epoch (last xs) then (False, st)
             else (True, use_series (m, p) (push_snapshot s xs) st)))"

definition store_collection :: "string \<Rightarrow> string \<Rightarrow> py \<Rightarrow> snapshot_store \<Rightarrow> dict res \<times> snapshot_store" where
  "store_collection mint_text pair_text signal_timestamp st =
     (case feature_timestamp signal_timestamp of
        None \<Rightarrow> (Inr [], st)
      | Some signal \<Rightarrow>
          (let st = evict_expired signal st in
           case map_of st (strip mint_text, strip pair_text) of
             None \<Rightarrow> (Inr [], st)
           | Some xs \<Rightarrow>
               (if xs = [] then (Inr [], st)
                else (normalize_prospective_feature_collection (PDict
                   [(''schema_version'', PInt FEATURE_COLLECTION_SCHEMA_VERSION),
                    (''collector_version'', PStr MOMENTUM_COLLECTOR_VERSION),
                    (''pre_signal_snapshots'', PList (map (PDict \<circ> projection) xs))]) (py_number signal), st))))"


section \<open>What the normalisation keeps\<close>

lemma bucket_less_time: "bucket_of a < bucket_of b \<Longrightarrow> snapshot_at_epoch a < snapshot_at_epoch b"
  using float_floordiv_mono [of "snapshot_at_epoch b" "snapshot_at_epoch a" SNAPSHOT_BUCKET_SECONDS]
  by (fastforce simp: bucket_of_def SNAPSHOT_BUCKET_SECONDS_def)

abbreviation minutes_increase :: "snapshot list \<Rightarrow> bool" where
  "minutes_increase \<equiv> sorted_wrt (\<lambda>a b. bucket_of a < bucket_of b)"

lemma minutes_increase_sorted: "minutes_increase xs \<Longrightarrow> sorted_wrt (\<lambda>a b. snapshot_at_epoch a < snapshot_at_epoch b) xs"
  by (rule sorted_wrt_mono_rel [of xs "\<lambda>a b. bucket_of a < bucket_of b"]) (auto intro: bucket_less_time)

lemma minutes_increase_sort_key: "minutes_increase xs \<Longrightarrow> sort_key snapshot_at_epoch xs = xs"
proof -
  assume "minutes_increase xs"
  then have "sorted_wrt (\<lambda>a b. snapshot_at_epoch a \<le> snapshot_at_epoch b) xs"
    by (rule sorted_wrt_mono_rel [OF _ minutes_increase_sorted, rotated]) simp
  then show ?thesis by (intro sort_key_id_if_sorted) (simp only: sorted_map)
qed

lemma sorted_distinct_minutes:
  assumes "sorted (map snapshot_at_epoch xs)" "distinct (map bucket_of xs)"
  shows "minutes_increase xs"
  using assms
proof (induction xs)
  case (Cons x xs)
  have "bucket_of x < bucket_of y" if y: "y \<in> set xs" for y
  proof -
    have "snapshot_at_epoch x \<le> snapshot_at_epoch y" using Cons.prems(1) y by simp
    then have "bucket_of x \<le> bucket_of y"
      unfolding bucket_of_def SNAPSHOT_BUCKET_SECONDS_def by (rule float_floordiv_mono) simp
    moreover have "bucket_of x \<noteq> bucket_of y" using Cons.prems(2) y by force
    ultimately show ?thesis by simp
  qed
  with Cons show ?case by simp
qed simp

definition buckets_ok :: "rat \<Rightarrow> py list \<Rightarrow> (int \<times> snapshot) list \<Rightarrow> bool" where
  "buckets_ok signal raws m \<longleftrightarrow> distinct (map fst m) \<and>
     (\<forall>(k, s) \<in> set m. k = bucket_of s \<and> in_window signal s \<and> (\<exists>raw \<in> set raws. normalized_snapshot raw = Some s))"

lemma set_update_subset: "set (AList.update k v m) \<subseteq> insert (k, v) (set m)"
  by (induction m) auto

lemma buckets_ok_put:
  assumes "buckets_ok signal raws m" "in_window signal s" "raw \<in> set raws" "normalized_snapshot raw = Some s"
  shows "buckets_ok signal raws (put_bucket s m)"
  using assms set_update_subset [of "bucket_of s" s m]
  by (force simp: buckets_ok_def put_bucket_def distinct_update)

lemma collect_buckets_ok: "buckets_ok signal raws (collect_buckets signal raws)"
proof -
  have "buckets_ok signal raws (fold (\<lambda>raw m. case normalized_snapshot raw of
       None \<Rightarrow> m | Some s \<Rightarrow> (if in_window signal s then put_bucket s m else m)) xs m)"
    if "set xs \<subseteq> set raws" "buckets_ok signal raws m" for xs m
    using that
  proof (induction xs arbitrary: m)
    case (Cons x xs)
    have "buckets_ok signal raws (case normalized_snapshot x of
       None \<Rightarrow> m | Some s \<Rightarrow> (if in_window signal s then put_bucket s m else m))"
      using Cons.prems buckets_ok_put [of signal raws m _ x] by (simp split: option.split)
    then show ?case using Cons by simp
  qed simp
  from this [of raws "[]"] show ?thesis by (simp add: collect_buckets_def buckets_ok_def)
qed

lemma select_snapshots_ok:
  defines "sel \<equiv> select_snapshots"
  shows "length (sel signal raws) \<le> 6" "minutes_increase (sel signal raws)"
    "\<And>s. s \<in> set (sel signal raws) \<Longrightarrow> in_window signal s \<and> (\<exists>raw \<in> set raws. normalized_snapshot raw = Some s)"
proof -
  let ?m = "collect_buckets signal raws"
  let ?xs = "sort_key snapshot_at_epoch (map snd ?m)"
  have ok: "buckets_ok signal raws ?m" by (rule collect_buckets_ok)
  have fst: "map fst ?m = map bucket_of (map snd ?m)"
    unfolding map_map using ok by (intro map_cong) (auto simp: buckets_ok_def)
  have d: "distinct (map bucket_of ?xs)"
  proof -
    have m: "distinct (map bucket_of (map snd ?m))" using ok unfolding buckets_ok_def fst by blast
    then have "distinct (map snd ?m)" by (simp only: distinct_map)
    then have "distinct ?xs" by (simp only: distinct_sort)
    moreover have "inj_on bucket_of (set ?xs)" using m by (simp only: distinct_map set_sort)
    ultimately show ?thesis by (simp only: distinct_map)
  qed
  have "minutes_increase ?xs" by (rule sorted_distinct_minutes [OF sorted_sort_key d])
  then show "minutes_increase (sel signal raws)"
    unfolding sel_def select_snapshots_def take_last_def by (rule sorted_wrt_drop)
  show "length (sel signal raws) \<le> 6"
    by (simp add: sel_def select_snapshots_def MAX_PRE_SIGNAL_SNAPSHOTS_def)
  show "in_window signal s \<and> (\<exists>raw \<in> set raws. normalized_snapshot raw = Some s)"
    if "s \<in> set (sel signal raws)" for s
  proof -
    have "s \<in> snd ` set ?m" using that take_last_set
      by (fastforce simp: sel_def select_snapshots_def)
    then show ?thesis using ok by (auto simp: buckets_ok_def)
  qed
qed

lemma normalize_cases:
  assumes "normalize_prospective_feature_collection v ts = Inr out" "out \<noteq> []"
  obtains d signal raws where "v = PDict d" "feature_timestamp ts = Some signal"
    "dgetn d ''pre_signal_snapshots'' = PList raws" "collection_dict (select_snapshots signal raws) = Inr out"
    "select_snapshots signal raws \<noteq> []"
proof -
  obtain d where v: "v = PDict d" using assms by (cases v) (auto simp: normalize_prospective_feature_collection_def)
  obtain signal where t: "feature_timestamp ts = Some signal"
    using assms v by (auto simp: normalize_prospective_feature_collection_def split: if_splits option.splits)
  obtain raws where r: "dgetn d ''pre_signal_snapshots'' = PList raws"
    using assms v t by (auto simp: normalize_prospective_feature_collection_def split: if_splits py.splits)
  have c: "collection_dict (select_snapshots signal raws) = Inr out"
    using assms v t r by (auto simp: normalize_prospective_feature_collection_def split: if_splits)
  with assms(2) have "select_snapshots signal raws \<noteq> []" by (auto simp: collection_dict_def)
  with that v t r c show ?thesis by blast
qed

lemma collection_dict_cons:
  assumes "collection_dict sel = Inr out" "sel \<noteq> []"
  obtains t where "iso_timestamp (snapshot_at_epoch (hd sel)) = Inr t"
    "out = [(''schema_version'', PInt 1), (''collector_version'', PStr MOMENTUM_COLLECTOR_VERSION),
       (''prospective_collection_start'', PStr t), (''snapshot_count'', PInt (int (length sel))),
       (''pre_signal_snapshots'', PList (map (PDict \<circ> projection) sel))]"
  using assms by (cases sel) (auto simp: collection_dict_def bindE_eq_Inr FEATURE_COLLECTION_SCHEMA_VERSION_def)

text \<open>C27: a normalised collection holds nothing a signal could not have known: its snapshots are not later
  than the signal and not older than 15 minutes before it, there is at most one for each minute, in the order
  of time, and at most six; each is a snapshot of the input, and the count is theirs.\<close>

theorem collection_has_no_lookahead:
  assumes "normalize_prospective_feature_collection v ts = Inr out" "out \<noteq> []"
  shows "\<exists>d signal raws selected. v = PDict d \<and> feature_timestamp ts = Some signal
     \<and> dgetn d ''pre_signal_snapshots'' = PList raws \<and> selected \<noteq> [] \<and> length selected \<le> 6
     \<and> dget out ''pre_signal_snapshots'' = Some (PList (map (PDict \<circ> projection) selected))
     \<and> dget out ''snapshot_count'' = Some (PInt (int (length selected)))
     \<and> minutes_increase selected
     \<and> (\<forall>s \<in> set selected. snapshot_at_epoch s \<le> signal \<and> fl (signal - 900) \<le> snapshot_at_epoch s
          \<and> (\<exists>raw \<in> set raws. normalized_snapshot raw = Some s))"
proof -
  obtain d signal raws where o: "v = PDict d" "feature_timestamp ts = Some signal"
    "dgetn d ''pre_signal_snapshots'' = PList raws" "collection_dict (select_snapshots signal raws) = Inr out"
    "select_snapshots signal raws \<noteq> []" by (rule normalize_cases [OF assms])
  define sel where "sel = select_snapshots signal raws"
  note ok = select_snapshots_ok [where signal = signal and raws = raws, folded sel_def]
  obtain t where out: "out = [(''schema_version'', PInt 1), (''collector_version'', PStr MOMENTUM_COLLECTOR_VERSION),
       (''prospective_collection_start'', PStr t), (''snapshot_count'', PInt (int (length sel))),
       (''pre_signal_snapshots'', PList (map (PDict \<circ> projection) sel))]"
    using collection_dict_cons [OF o(4,5)] unfolding sel_def by metis
  have "dget out ''pre_signal_snapshots'' = Some (PList (map (PDict \<circ> projection) sel))"
    "dget out ''snapshot_count'' = Some (PInt (int (length sel)))" by (simp_all add: out)
  moreover have "\<forall>s \<in> set sel. snapshot_at_epoch s \<le> signal \<and> fl (signal - 900) \<le> snapshot_at_epoch s
          \<and> (\<exists>raw \<in> set raws. normalized_snapshot raw = Some s)"
    using ok(3) by (simp add: in_window_def SNAPSHOT_TTL_SECONDS_def)
  ultimately show ?thesis using o(1-3) ok(1,2) o(5) unfolding sel_def by blast
qed


section \<open>The normalisation is stable\<close>

lemma feature_number_nonneg: "feature_number v = Some q \<Longrightarrow> 0 \<le> q"
  by (auto simp: feature_number_def split: py.splits sum.splits f64.splits if_splits)

lemma feature_timestamp_nonneg: "feature_timestamp v = Some q \<Longrightarrow> 0 \<le> q"
proof (cases "feature_number v")
  case (Some r)
  then show "feature_timestamp v = Some q \<Longrightarrow> 0 \<le> q"
    by (simp add: feature_timestamp_def feature_number_nonneg)
next
  case None
  then show "feature_timestamp v = Some q \<Longrightarrow> 0 \<le> q"
    by (auto simp: feature_timestamp_def split: py.splits if_splits option.splits f64.splits)
qed

lemma feature_number_float [simp]: "0 \<le> q \<Longrightarrow> feature_number (py_number q) = Some q"
  by (simp add: feature_number_def py_number_def)

lemma feature_timestamp_float [simp]: "0 \<le> q \<Longrightarrow> feature_timestamp (py_number q) = Some q"
  by (simp add: feature_timestamp_def)

lemma feature_number_int [simp]: "0 \<le> n \<Longrightarrow> n \<le> 2 ^ 53 \<Longrightarrow> feature_number (PInt n) = Some (of_int n)"
proof -
  assume n: "0 \<le> n" "n \<le> 2 ^ 53"
  then have "\<bar>n\<bar> \<le> 2 ^ 1000"
    using power_increasing [of 53 1000 "2 :: int"] by simp
  then show ?thesis using n by (simp add: feature_number_def f64_of_int_small fl_of_int)
qed

lemma trunc_rat_of_int [simp]: "trunc_rat (of_int n) = n"
  by (simp add: trunc_rat_def)

lemma trunc_rat_nonneg: "0 \<le> q \<Longrightarrow> 0 \<le> trunc_rat q"
  by (simp add: trunc_rat_def)

text \<open>Counts of trades that a float holds exactly.\<close>

definition counts_exact :: "snapshot \<Rightarrow> bool" where
  "counts_exact s \<longleftrightarrow> buys_m5 s \<le> 2 ^ 53 \<and> sells_m5 s \<le> 2 ^ 53"

lemma projection_reads_back:
  assumes "normalized_snapshot raw = Some s" "counts_exact s"
  shows "normalized_snapshot (PDict (projection s)) = Some s"
proof -
  obtain d where d: "raw = PDict d" using assms(1) by (cases raw) (auto simp: normalized_snapshot_def)
  obtain t v b sl l where f: "feature_timestamp (dgetn d ''snapshot_at_epoch'') = Some t"
    "feature_number (dgetn d ''volume_m5_usd'') = Some v" "feature_number (dgetn d ''buys_m5'') = Some b"
    "feature_number (dgetn d ''sells_m5'') = Some sl" "feature_number (dgetn d ''liquidity_usd'') = Some l"
    and s: "s = \<lparr>snapshot_at_epoch = t, volume_m5_usd = v, buys_m5 = trunc_rat b, sells_m5 = trunc_rat sl,
              liquidity_usd = l, price_usd = feature_number (dgetn d ''price_usd'')\<rparr>"
    using assms(1) unfolding d normalized_snapshot_def by (auto split: option.splits)
  have n: "0 \<le> t" "0 \<le> v" "0 \<le> trunc_rat b" "0 \<le> trunc_rat sl" "0 \<le> l"
    using f by (auto intro: feature_timestamp_nonneg feature_number_nonneg trunc_rat_nonneg)
  have p: "feature_number (case price_usd s of None \<Rightarrow> PNone | Some q \<Rightarrow> py_number q) = price_usd s"
    unfolding s using feature_number_nonneg [of "dgetn d ''price_usd''"]
    by (auto simp: feature_number_def [of PNone] split: option.split)
  show ?thesis
    using n p assms(2) by (simp add: normalized_snapshot_def projection_def counts_exact_def s dgetn_def dget_or_def)
qed

lemma put_bucket_fresh: "bucket_of s \<notin> fst ` set m \<Longrightarrow> put_bucket s m = m @ [(bucket_of s, s)]"
  unfolding put_bucket_def by (induction m) auto

lemma collect_buckets_snoc:
  "normalized_snapshot raw = Some s \<Longrightarrow> in_window signal s \<Longrightarrow>
   collect_buckets signal (raws @ [raw]) = put_bucket s (collect_buckets signal raws)"
  by (simp add: collect_buckets_def)

lemma collect_projections:
  assumes "minutes_increase sel" "\<forall>s \<in> set sel. in_window signal s \<and> normalized_snapshot (PDict (projection s)) = Some s"
  shows "collect_buckets signal (map (PDict \<circ> projection) sel) = map (\<lambda>s. (bucket_of s, s)) sel"
  using assms
proof (induction sel rule: rev_induct)
  case (snoc s sel)
  have ih: "collect_buckets signal (map (PDict \<circ> projection) sel) = map (\<lambda>s. (bucket_of s, s)) sel"
    using snoc.prems by (intro snoc.IH) (simp_all add: sorted_wrt_append)
  have "bucket_of s \<notin> fst ` set (map (\<lambda>s. (bucket_of s, s)) sel)"
    using snoc.prems(1) by (fastforce simp: sorted_wrt_append)
  then have "put_bucket s (map (\<lambda>s. (bucket_of s, s)) sel) = map (\<lambda>s. (bucket_of s, s)) (sel @ [s])"
    by (simp add: put_bucket_fresh)
  moreover have "collect_buckets signal (map (PDict \<circ> projection) (sel @ [s]))
      = put_bucket s (collect_buckets signal (map (PDict \<circ> projection) sel))"
    unfolding map_append list.map comp_apply using snoc.prems(2)
    by (intro collect_buckets_snoc) simp_all
  ultimately show ?case unfolding ih by (simp add: comp_def)
qed (simp add: collect_buckets_def)

lemma select_projections:
  assumes "minutes_increase sel" "length sel \<le> 6"
    "\<forall>s \<in> set sel. in_window signal s \<and> normalized_snapshot (PDict (projection s)) = Some s"
  shows "select_snapshots signal (map (PDict \<circ> projection) sel) = sel"
proof -
  have "map snd (collect_buckets signal (map (PDict \<circ> projection) sel)) = sel"
    unfolding collect_projections [OF assms(1,3)] by (simp add: comp_def)
  then show ?thesis
    using assms(2) unfolding select_snapshots_def
    by (simp add: minutes_increase_sort_key [OF assms(1)] MAX_PRE_SIGNAL_SNAPSHOTS_def)
qed

text \<open>a collection that was normalised once is not changed when it is normalised again for the same
  signal, as long as its counts are exact floats: what the observation ledger stored is what it reads.\<close>

theorem normalisation_is_stable:
  assumes "normalize_prospective_feature_collection (PDict d) ts = Inr out"
    and "dgetn d ''pre_signal_snapshots'' = PList raws"
    and "\<forall>raw \<in> set raws. \<forall>s. normalized_snapshot raw = Some s \<longrightarrow> counts_exact s"
  shows "normalize_prospective_feature_collection (PDict out) ts = Inr out"
proof (cases "out = []")
  case True
  then show ?thesis
    by (simp add: normalize_prospective_feature_collection_def py_same_def split: option.split)
next
  case False
  obtain signal where o: "feature_timestamp ts = Some signal"
    "collection_dict (select_snapshots signal raws) = Inr out" "select_snapshots signal raws \<noteq> []"
    using normalize_cases [OF assms(1) False] assms(2) by (metis py.inject(5,6))
  define sel where "sel = select_snapshots signal raws"
  note ok = select_snapshots_ok [where signal = signal and raws = raws, folded sel_def]
  obtain t where out: "out = [(''schema_version'', PInt 1), (''collector_version'', PStr MOMENTUM_COLLECTOR_VERSION),
       (''prospective_collection_start'', PStr t), (''snapshot_count'', PInt (int (length sel))),
       (''pre_signal_snapshots'', PList (map (PDict \<circ> projection) sel))]"
    using collection_dict_cons [OF o(2,3)] unfolding sel_def by metis
  have "normalized_snapshot (PDict (projection s)) = Some s" if "s \<in> set sel" for s
    using ok(3) [OF that] assms(3) projection_reads_back by blast
  then have "select_snapshots signal (map (PDict \<circ> projection) sel) = sel"
    using ok by (intro select_projections) auto
  then show ?thesis
    using o(1,2) unfolding sel_def [symmetric]
    by (simp add: normalize_prospective_feature_collection_def py_same_def dgetn_def dget_or_def
        FEATURE_COLLECTION_SCHEMA_VERSION_def out)
qed


section \<open>The store\<close>

definition series_ok :: "snapshot list \<Rightarrow> bool" where
  "series_ok xs \<longleftrightarrow> xs \<noteq> [] \<and> length xs \<le> MAX_PRE_SIGNAL_SNAPSHOTS \<and> minutes_increase xs"

definition pair_ok :: "string \<times> string \<Rightarrow> bool" where
  "pair_ok k \<longleftrightarrow> fst k \<noteq> [] \<and> snd k \<noteq> [] \<and> length (fst k) \<le> 80 \<and> length (snd k) \<le> 160"

definition store_ok :: "snapshot_store \<Rightarrow> bool" where
  "store_ok st \<longleftrightarrow> distinct (map fst st) \<and> length st \<le> MAX_TRACKED_MINT_PAIRS
     \<and> (\<forall>(k, xs) \<in> set st. pair_ok k \<and> series_ok xs)"

lemma drop_expired_ok: "series_ok xs \<Longrightarrow> drop_expired t xs \<noteq> [] \<Longrightarrow> series_ok (drop_expired t xs)"
  unfolding series_ok_def drop_expired_def
  by (metis dropWhile_eq_drop length_drop le_diff_conv le_add1 le_trans sorted_wrt_drop)

lemma drop_expired_filter: "minutes_increase xs \<Longrightarrow> drop_expired t xs = filter (\<lambda>s. \<not> snapshot_at_epoch s < t) xs"
proof (induction xs)
  case (Cons x xs)
  have "filter (\<lambda>s. \<not> snapshot_at_epoch s < t) xs = xs" if "\<not> snapshot_at_epoch x < t"
    using minutes_increase_sorted [OF Cons.prems] that by (intro filter_True) auto
  with Cons show ?case by (auto simp: drop_expired_def)
qed (simp add: drop_expired_def)

lemma evict_expired_ok:
  assumes "store_ok st" shows "store_ok (evict_expired now st)"
proof -
  let ?f = "\<lambda>(k, xs). (k, drop_expired (fl (now - SNAPSHOT_TTL_SECONDS)) xs)"
  have m: "map fst (map ?f st) = map fst st" by (auto simp: comp_def case_prod_unfold)
  have "distinct (map fst (evict_expired now st))"
    unfolding evict_expired_def using assms m
    by (metis (no_types, lifting) distinct_map_filter store_ok_def)
  moreover have "length (evict_expired now st) \<le> MAX_TRACKED_MINT_PAIRS"
    using assms length_filter_le [of _ "map ?f st"] unfolding evict_expired_def store_ok_def
    by (metis (no_types, lifting) le_trans length_map)
  moreover have "\<forall>(k, xs) \<in> set (evict_expired now st). pair_ok k \<and> series_ok xs"
    using assms by (auto simp: evict_expired_def store_ok_def intro: drop_expired_ok)
  ultimately show ?thesis by (simp add: store_ok_def)
qed

lemma push_snapshot_ok:
  assumes "series_ok xs \<or> xs = []" "xs \<noteq> [] \<Longrightarrow> \<not> snapshot_at_epoch s < snapshot_at_epoch (last xs)"
  shows "series_ok (push_snapshot s xs) \<and> last (push_snapshot s xs) = s"
proof (cases xs rule: rev_cases)
  case Nil
  then show ?thesis by (simp add: push_snapshot_def series_ok_def MAX_PRE_SIGNAL_SNAPSHOTS_def)
next
  case (snoc ys y)
  have i: "minutes_increase ys" "\<forall>x \<in> set ys. bucket_of x < bucket_of y" and l: "length ys < 6"
    using assms(1) snoc by (auto simp: series_ok_def sorted_wrt_append MAX_PRE_SIGNAL_SNAPSHOTS_def)
  have "bucket_of y \<le> bucket_of s"
    using assms(2) snoc unfolding bucket_of_def SNAPSHOT_BUCKET_SECONDS_def
    by (intro float_floordiv_mono) auto
  then consider "bucket_of y = bucket_of s" | "bucket_of y < bucket_of s" by linarith
  then show ?thesis
  proof cases
    case 1
    then show ?thesis using i l snoc
      by (simp add: push_snapshot_def series_ok_def sorted_wrt_append MAX_PRE_SIGNAL_SNAPSHOTS_def)
  next
    case 2
    have inc: "minutes_increase (ys @ [y] @ [s])" using i 2 by (auto simp: sorted_wrt_append)
    have p: "push_snapshot s xs = take_last 6 (ys @ [y] @ [s])"
      using 2 snoc by (simp add: push_snapshot_def MAX_PRE_SIGNAL_SNAPSHOTS_def)
    have "minutes_increase (push_snapshot s xs)"
      unfolding p take_last_def by (rule sorted_wrt_drop [OF inc])
    moreover have "last (push_snapshot s xs) = s" unfolding p take_last_def by (subst last_drop) simp_all
    moreover have "length (push_snapshot s xs) \<le> 6 \<and> push_snapshot s xs \<noteq> []"
      unfolding p using l by (auto simp: take_last_def)
    ultimately show ?thesis by (simp add: series_ok_def MAX_PRE_SIGNAL_SNAPSHOTS_def)
  qed
qed

lemma use_series_ok:
  assumes "store_ok st" "pair_ok k" "series_ok xs"
  shows "store_ok (use_series k xs st)"
proof -
  let ?st = "filter (\<lambda>p. fst p \<noteq> k) st @ [(k, xs)]"
  have "distinct (map fst ?st)" using assms(1) by (auto simp: store_ok_def distinct_map_filter)
  then have "distinct (map fst (use_series k xs st))"
    unfolding use_series_def take_last_def by (simp only: drop_map [symmetric] distinct_drop)
  moreover have "length (use_series k xs st) \<le> MAX_TRACKED_MINT_PAIRS" by (simp add: use_series_def)
  moreover have "set (use_series k xs st) \<subseteq> insert (k, xs) (set st)"
    using take_last_set [of MAX_TRACKED_MINT_PAIRS ?st] unfolding use_series_def by auto
  ultimately show ?thesis using assms unfolding store_ok_def by fastforce
qed


lemma store_record_ok:
  assumes "store_ok st"
  shows "store_ok (snd (store_record m p f st))"
proof (cases "fst (store_record m p f st)")
  case False
  then show ?thesis using assms evict_expired_ok
    by (auto simp: store_record_def Let_def split: option.splits if_splits)
next
  case True
  then obtain s where s: "normalized_snapshot (raw_snapshot f) = Some s"
    by (auto simp: store_record_def split: option.splits)
  let ?st = "evict_expired (snapshot_at_epoch s) st"
  define k where "k = (strip m, strip p)"
  define xs where "xs = (case map_of ?st k of None \<Rightarrow> [] | Some xs \<Rightarrow> xs)"
  have k: "pair_ok k" and r: "\<not> (xs \<noteq> [] \<and> snapshot_at_epoch s < snapshot_at_epoch (last xs))"
    and st': "snd (store_record m p f st) = use_series k (push_snapshot s xs) ?st"
    using True by (auto simp: store_record_def s Let_def k_def xs_def pair_ok_def split: if_splits)
  have st: "store_ok ?st" by (rule evict_expired_ok [OF assms])
  have "series_ok xs \<or> xs = []"
    using st unfolding xs_def store_ok_def by (auto dest!: map_of_SomeD split: option.split)
  then have "series_ok (push_snapshot s xs)" using r by (intro push_snapshot_ok [THEN conjunct1]) auto
  then show ?thesis unfolding st' by (intro use_series_ok st k)
qed

lemma store_collection_ok: "store_ok st \<Longrightarrow> store_ok (snd (store_collection m p ts st))"
  by (auto simp: store_collection_def Let_def evict_expired_ok split: option.split)

lemma snapshot_count_bound:
  assumes "store_ok st"
  shows "snapshot_count st \<le> 1536"
proof -
  have "snapshot_count st \<le> (\<Sum>x\<leftarrow>st. 6)"
    unfolding snapshot_count_def comp_def using assms
    by (intro sum_list_mono) (auto simp: store_ok_def series_ok_def MAX_PRE_SIGNAL_SNAPSHOTS_def)
  also have "\<dots> \<le> 1536" using assms by (simp add: store_ok_def MAX_TRACKED_MINT_PAIRS_def sum_list_triv)
  finally show ?thesis .
qed

text \<open>The calls a monitor makes on its store, in any order.\<close>

datatype snapshot_call = RecordSnapshot string string snapshot_fields | ReadCollection string string py

fun store_call :: "snapshot_call \<Rightarrow> snapshot_store \<Rightarrow> snapshot_store" where
  "store_call (RecordSnapshot m p f) st = snd (store_record m p f st)"
| "store_call (ReadCollection m p ts) st = snd (store_collection m p ts st)"

definition run_store :: "snapshot_call list \<Rightarrow> snapshot_store" where
  "run_store calls = fold store_call calls []"

lemma run_store_ok: "store_ok (run_store calls)"
proof -
  have "store_ok st \<Longrightarrow> store_ok (fold store_call calls st)" for st
  proof (induction calls arbitrary: st)
    case (Cons c calls)
    then show ?case by (cases c) (simp_all add: store_record_ok store_collection_ok)
  qed simp
  moreover have "store_ok []" by (simp add: store_ok_def)
  ultimately show ?thesis by (simp add: run_store_def)
qed

text \<open>the memory of the store is bounded whatever the feed sends: after any calls it tracks at most 256
  pairs, each once, and holds at most 1536 snapshots; every pair has between one and six, at most one for
  each minute, in the order of time.\<close>

theorem snapshot_store_is_bounded:
  "series_count (run_store calls) \<le> 256 \<and> snapshot_count (run_store calls) \<le> 1536
   \<and> distinct (map fst (run_store calls))
   \<and> list_all (\<lambda>(k, xs). pair_ok k \<and> 1 \<le> length xs \<and> length xs \<le> 6 \<and> minutes_increase xs) (run_store calls)"
  using run_store_ok [of calls] snapshot_count_bound [OF run_store_ok]
  by (auto simp: store_ok_def series_ok_def series_count_def list_all_iff MAX_PRE_SIGNAL_SNAPSHOTS_def
      MAX_TRACKED_MINT_PAIRS_def Suc_le_eq)

section \<open>Examples\<close>

definition example_snapshot :: "rat \<Rightarrow> int \<Rightarrow> py" where
  "example_snapshot t n = PDict [(''snapshot_at_epoch'', py_number t), (''volume_m5_usd'', py_number 10),
     (''buys_m5'', PInt n), (''sells_m5'', PInt 1), (''liquidity_usd'', py_number 20)]"

definition example_collection :: dict where
  "example_collection = [(''schema_version'', PInt 1), (''collector_version'', PStr ''momentum_pre_signal_v1''),
     (''pre_signal_snapshots'', PList [example_snapshot 1000 3, example_snapshot 1010 4, example_snapshot 1090 5,
        example_snapshot 1200 6])]"

lemma example_normalizes:
  "normalize_prospective_feature_collection (PDict example_collection) (PInt 1100) = Inr
     [(''schema_version'', PInt 1), (''collector_version'', PStr ''momentum_pre_signal_v1''),
      (''prospective_collection_start'', PStr ''1970-01-01T00:16:50Z''), (''snapshot_count'', PInt 2),
      (''pre_signal_snapshots'', PList [PDict (projection \<lparr>snapshot_at_epoch = 1010, volume_m5_usd = 10,
         buys_m5 = 4, sells_m5 = 1, liquidity_usd = 20, price_usd = None\<rparr>),
         PDict (projection \<lparr>snapshot_at_epoch = 1090, volume_m5_usd = 10,
         buys_m5 = 5, sells_m5 = 1, liquidity_usd = 20, price_usd = None\<rparr>)])]"
  by code_simp


lemma example_nonempty:
  "\<exists>out. normalize_prospective_feature_collection (PDict example_collection) (PInt 1100) = Inr out \<and> out \<noteq> []"
  unfolding example_normalizes by simp

theorem collection_has_no_lookahead_witness:
  "\<exists>d signal raws selected. PDict example_collection = PDict d \<and> feature_timestamp (PInt 1100) = Some signal
     \<and> dgetn d ''pre_signal_snapshots'' = PList raws \<and> selected \<noteq> [] \<and> minutes_increase selected"
proof -
  obtain out where o: "normalize_prospective_feature_collection (PDict example_collection) (PInt 1100) = Inr out"
    "out \<noteq> []" using example_nonempty by blast
  show ?thesis using collection_has_no_lookahead [OF o] by blast
qed

lemma example_counts:
  "dgetn example_collection ''pre_signal_snapshots'' = PList [example_snapshot 1000 3, example_snapshot 1010 4,
     example_snapshot 1090 5, example_snapshot 1200 6]"
  by (simp add: example_collection_def dgetn_def dget_or_def)

lemma example_snapshot_reads: "0 \<le> t \<Longrightarrow> 0 \<le> n \<Longrightarrow> n \<le> 2 ^ 53 \<Longrightarrow> normalized_snapshot (example_snapshot t n) =
   Some \<lparr>snapshot_at_epoch = t, volume_m5_usd = 10, buys_m5 = n, sells_m5 = 1, liquidity_usd = 20, price_usd = None\<rparr>"
  using feature_number_int [of 1] trunc_rat_of_int [of 1]
  by (simp add: normalized_snapshot_def example_snapshot_def dgetn_def dget_or_def feature_number_def [of PNone])

theorem normalisation_is_stable_witness:
  "\<exists>out. out \<noteq> [] \<and> normalize_prospective_feature_collection (PDict out) (PInt 1100) = Inr out"
proof -
  obtain out where o: "normalize_prospective_feature_collection (PDict example_collection) (PInt 1100) = Inr out"
    "out \<noteq> []" using example_nonempty by blast
  have "\<forall>raw \<in> set [example_snapshot 1000 3, example_snapshot 1010 4, example_snapshot 1090 5, example_snapshot 1200 6].
      \<forall>s. normalized_snapshot raw = Some s \<longrightarrow> counts_exact s"
    by (auto simp: example_snapshot_reads counts_exact_def)
  from normalisation_is_stable [OF o(1) example_counts this] o(2) show ?thesis by blast
qed

end
