(* ===== verification/ObservationRows.thy ===== *)
theory ObservationRows
  imports ProspectiveFeatures
begin

text \<open>
  The rows of the observation ledger, \<open>src/observation_tracker.py\<close>: their settings and normalisations, the
  migration of the document, and which rows an operation keeps or expires.  An observation is a candidate
  the monitor found; it is priced again after 1, 3, 5, 15, 30 and 60 minutes.

  The rows of a document are distinct objects, so \<open>id(row)\<close> is the position of the row.  The times an
  operation reads as text are arguments.
\<close>

section \<open>Constants\<close>

definition OBSERVATION_INTERVALS :: "(string \<times> int) list" where
  "OBSERVATION_INTERVALS = [(''1m'', 60), (''3m'', 180), (''5m'', 300), (''15m'', 900), (''30m'', 1800), (''60m'', 3600)]"

definition MAX_OBSERVATIONS :: nat where "MAX_OBSERVATIONS = 1000"
definition MAX_ACTIVE_OBSERVATIONS :: nat where "MAX_ACTIVE_OBSERVATIONS = 200"
definition OBSERVATION_SAMPLE_BATCH_SIZE :: nat where "OBSERVATION_SAMPLE_BATCH_SIZE = 20"
definition MAX_SAMPLE_ATTEMPTS :: int where "MAX_SAMPLE_ATTEMPTS = 3"
definition MAX_HORIZON_SAMPLE_LAG_SECONDS :: f64 where "MAX_HORIZON_SAMPLE_LAG_SECONDS = Fin 60"
definition ARCHIVE_DRAIN_BATCH_SIZE :: nat where "ARCHIVE_DRAIN_BATCH_SIZE = 100"
definition DISCOVERY_PROCESSING_INTERRUPTED :: string where
  "DISCOVERY_PROCESSING_INTERRUPTED = ''DISCOVERY_PROCESSING_INTERRUPTED''"
definition OBSERVATION_SCHEMA_VERSION :: int where "OBSERVATION_SCHEMA_VERSION = 5"
definition TERMINAL_OBSERVATION_STATUSES :: "string list" where
  "TERMINAL_OBSERVATION_STATUSES = [''COMPLETE'', ''EXPIRED_UNSAMPLED'']"
definition CANDIDATE_V2_MIN_SCORE :: f64 where "CANDIDATE_V2_MIN_SCORE = Fin 90"
definition CANDIDATE_V2_MAX_SCORE :: f64 where "CANDIDATE_V2_MAX_SCORE = Fin 100"
definition CANDIDATE_V2_MINT_COOLDOWN_SECONDS :: f64 where "CANDIDATE_V2_MINT_COOLDOWN_SECONDS = Fin 86400"
definition CANDIDATE_V2_EARLY_FAILURE_PERCENT :: f64 where "CANDIDATE_V2_EARLY_FAILURE_PERCENT = Fin (- 10)"

definition interval_labels :: "string list" where "interval_labels = map fst OBSERVATION_INTERVALS"

section \<open>Values of a row\<close>

definition required_observation_intervals :: "dict \<Rightarrow> string list" where
  "required_observation_intervals row =
     (if dgetn row ''tracking_profile'' = PStr ''legacy_15m'' then [''1m'', ''5m'', ''15m''] else interval_labels)"

definition signal_type_for_route :: "py \<Rightarrow> string" where
  "signal_type_for_route v =
     (let route = upper (py_str v) in
      if route = ''A'' then ''SMART_MONEY'' else if route = ''B'' then ''MOMENTUM'' else ''UNKNOWN'')"

definition canonical_research_decision :: "dict \<Rightarrow> string" where
  "canonical_research_decision row =
     (if upper (py_str (dget_or row ''paper_experiment_status'' (PStr []))) \<in> {''OPENED'', ''CLOSED''} then ''ENTERED''
      else if upper (py_str (dget_or row ''decision_status'' (PStr []))) \<in> {''REJECTED'', ''UNAVAILABLE'', ''FAILED''}
      then ''REJECTED'' else ''SHADOW'')"

text \<open>\<open>_float_or_zero\<close> and \<open>_finite_or_none\<close> catch every exception \<open>float\<close> raises.\<close>

definition float_or_zero :: "py \<Rightarrow> f64" where
  "float_or_zero v = (case py_float v of Inr (Fin q) \<Rightarrow> Fin q | _ \<Rightarrow> Fin 0)"

definition finite_or_none :: "py \<Rightarrow> rat option" where
  "finite_or_none v = (case v of
     PBool _ \<Rightarrow> None | PNone \<Rightarrow> None | PStr [] \<Rightarrow> None
   | _ \<Rightarrow> (case py_float v of Inr (Fin q) \<Rightarrow> Some q | _ \<Rightarrow> None))"

definition opt_number :: "rat option \<Rightarrow> py" where
  "opt_number x = (case x of None \<Rightarrow> PNone | Some q \<Rightarrow> py_number q)"

definition opt_integer :: "rat option \<Rightarrow> py" where
  "opt_integer x = (case x of None \<Rightarrow> PNone | Some q \<Rightarrow> PInt (trunc_rat q))"

definition normalized_momentum_metrics :: "py \<Rightarrow> py" where
  "normalized_momentum_metrics metrics = (case metrics of
     PDict d \<Rightarrow> (let real = (\<lambda>k. (k, opt_number (finite_or_none (dgetn d k))));
                      whole = (\<lambda>k. (k, opt_integer (finite_or_none (dgetn d k)))) in
       PDict [real ''volume_m5_usd'', whole ''buys_m5'', whole ''sells_m5'', whole ''net_buys_m5'',
         real ''buy_sell_ratio_m5'', real ''liquidity_usd'', real ''pair_age_seconds'', whole ''unknown_whale_count''])
   | _ \<Rightarrow> PNone)"

text \<open>The metrics of the safety gates.  Unlike above, an integer too large for a float raises.\<close>

definition gate_number :: "dict \<Rightarrow> string \<Rightarrow> rat option \<Rightarrow> rat option \<Rightarrow> py res" where
  "gate_number d k lo hi =
     (let v = dgetn d k in
      if v = PNone \<or> v = PStr [] then Inr PNone
      else catchE (bindE (py_float v) (\<lambda>x. case x of
            Fin q \<Rightarrow> Inr (if (case lo of None \<Rightarrow> False | Some m \<Rightarrow> q < m) \<or> (case hi of None \<Rightarrow> False | Some m \<Rightarrow> m < q)
              then PNone else py_number q)
          | _ \<Rightarrow> Inr PNone)) is_value_or_type_error (\<lambda>_. Inr PNone))"

definition gate_bool :: "dict \<Rightarrow> string \<Rightarrow> py" where
  "gate_bool d k = (case dgetn d k of PBool b \<Rightarrow> PBool b | _ \<Rightarrow> PBool False)"

definition gate_strings :: "dict \<Rightarrow> string \<Rightarrow> py" where
  "gate_strings d k = (case dgetn d k of
     PList xs \<Rightarrow> PList (map (\<lambda>v. PStr (take 200 (py_str v))) (take 20 xs)) | _ \<Rightarrow> PList [])"

definition normalized_safety_metrics :: "py \<Rightarrow> dict res" where
  "normalized_safety_metrics metrics =
     (let d = (case metrics of PDict d \<Rightarrow> d | _ \<Rightarrow> []) in
      bindE (gate_number d ''developer_supply_percent'' (Some 0) (Some 100)) (\<lambda>supply.
      bindE (gate_number d ''lp_locked_percent'' (Some 0) (Some 100)) (\<lambda>lp.
      bindE (gate_number d ''liquidity_usd'' (Some 0) None) (\<lambda>liquidity.
        Inr [(''developer_supply_percent'', supply),
             (''developer_below_ten_percent'', gate_bool d ''developer_below_ten_percent''),
             (''mint_authority_renounced'', gate_bool d ''mint_authority_renounced''),
             (''lp_locked'', gate_bool d ''lp_locked''), (''lp_locked_percent'', lp),
             (''liquidity_usd'', liquidity),
             (''liquidity_above_minimum'', gate_bool d ''liquidity_above_minimum''),
             (''reasons'', gate_strings d ''reasons''), (''sources'', gate_strings d ''sources'')]))))"

definition bounded_value :: "py \<Rightarrow> py res" where
  "bounded_value v = (case v of
     PBool b \<Rightarrow> Inr v | PNone \<Rightarrow> Inr v
   | PInt i \<Rightarrow> bindE (py_float v) (\<lambda>x. Inr (if f64_is_finite x then PFloat x else PNone))
   | PFloat x \<Rightarrow> Inr (if f64_is_finite x then PFloat x else PNone)
   | _ \<Rightarrow> Inr (PStr (take 200 (py_str v))))"

definition bounded_metadata :: "py \<Rightarrow> dict res" where
  "bounded_metadata values = (case values of
     PDict d \<Rightarrow> foldE (\<lambda>out (k, v). bindE (bounded_value v) (\<lambda>v. Inr (dset (take 80 k) v out))) [] (take 30 d)
   | _ \<Rightarrow> Inr [])"

definition strategy_variants :: "string \<Rightarrow> f64 \<Rightarrow> string list" where
  "strategy_variants r score =
     (let route = upper r;
          variants = [''baseline_v1'', ''route_'' @ lower route @ ''_baseline''] in
      if route \<noteq> ''B'' then variants
      else if f64_lt score CANDIDATE_V2_MIN_SCORE then variants @ [''route_b_score_below_90'']
      else if f64_lt score CANDIDATE_V2_MAX_SCORE then variants @ [''candidate_v2_score_90_to_below_100'']
      else variants @ [''route_b_score_100_or_more''])"

section \<open>Settings\<close>

definition env_flag :: "(string \<Rightarrow> string option) \<Rightarrow> string \<Rightarrow> bool res" where
  "env_flag environ k =
     (let raw = lower (strip (case environ k of None \<Rightarrow> ''false'' | Some s \<Rightarrow> s)) in
      if raw \<in> {''1'', ''true'', ''yes'', ''on''} then Inr True
      else if raw \<in> {''0'', ''false'', ''no'', ''off''} then Inr False
      else Inl (RuntimeError (k @ '' must be true or false'')))"

definition observation_mode_enabled :: "(string \<Rightarrow> string option) \<Rightarrow> bool res" where
  "observation_mode_enabled environ = env_flag environ ''OBSERVATION_MODE''"

definition approved_signal_paper_mode_enabled :: "(string \<Rightarrow> string option) \<Rightarrow> bool res" where
  "approved_signal_paper_mode_enabled environ = env_flag environ ''APPROVED_SIGNAL_PAPER_MODE''"

definition is_value_error :: "exc \<Rightarrow> bool" where
  "is_value_error e = (case e of ValueError _ \<Rightarrow> True | _ \<Rightarrow> False)"

definition approved_signal_max_open_positions :: "(string \<Rightarrow> string option) \<Rightarrow> int res" where
  "approved_signal_max_open_positions environ =
     (let k = ''APPROVED_SIGNAL_MAX_OPEN_POSITIONS'' in
      bindE (catchE (py_int (PStr (strip (case environ k of None \<Rightarrow> ''8'' | Some s \<Rightarrow> s)))) is_value_error
               (\<lambda>_. Inl (RuntimeError (k @ '' must be an integer'')))) (\<lambda>v.
        if 1 \<le> v \<and> v \<le> 20 then Inr v else Inl (RuntimeError (k @ '' must be between 1 and 20''))))"

section \<open>The migration of the document\<close>

definition empty_observations :: "string \<Rightarrow> dict" where
  "empty_observations t = [(''schema_version'', PInt OBSERVATION_SCHEMA_VERSION), (''observations'', PList []),
     (''updated_at'', PStr t), (''version'', PInt 0)]"

definition row_status :: "dict \<Rightarrow> string" where
  "row_status row = upper (py_str (dget_or row ''status'' (PStr [])))"

definition row_defaults :: "bool \<Rightarrow> dict \<Rightarrow> dict" where
  "row_defaults legacy row =
     [(''strategy_version'', PStr ''baseline_v1''), (''strategy_variants'', PList [PStr ''baseline_v1'']),
      (''safety_metrics'', PDict []), (''paper_experiment_status'', PStr ''LEGACY_OBSERVATION''),
      (''paper_experiment_position_id'', PNone), (''candidate_v2_paper_status'', PStr ''LEGACY_OBSERVATION''),
      (''candidate_v2_position_id'', PNone), (''sample_attempts'', PDict []), (''samples'', PList []),
      (''decision_status'', PStr ''APPROVED''), (''decision_reasons'', PList []),
      (''quote_status'', PStr ''EXECUTABLE''), (''discovery_metadata'', PDict []),
      (''signal_type'', PStr (signal_type_for_route (dgetn row ''route_type''))),
      (''research_decision'', PStr (canonical_research_decision row)),
      (''mfe_percent'', case finite_or_none (dgetn row ''max_return_percent'') of
         None \<Rightarrow> PNone | Some q \<Rightarrow> PFloat (f64_max (Fin 0) (Fin q))),
      (''mae_percent'', case finite_or_none (dgetn row ''min_return_percent'') of
         None \<Rightarrow> PNone | Some q \<Rightarrow> PFloat (f64_min (Fin 0) (Fin q))),
      (''excursion_basis'', PStr ''scheduled_jupiter_executable_quotes''),
      (''tracking_profile'', PStr (if legacy \<and> row_status row = ''COMPLETE'' then ''legacy_15m'' else ''research_v1_60m''))]"

definition add_defaults :: "dict \<Rightarrow> dict \<Rightarrow> dict" where
  "add_defaults defaults row = fold (\<lambda>(k, v). dsetdefault k v) defaults row"

text \<open>The intervals a list of samples covers.\<close>

definition sample_intervals :: "py list \<Rightarrow> string list" where
  "sample_intervals samples =
     List.map_filter (\<lambda>s. case s of PDict d \<Rightarrow> Some (py_str (dgetn d ''interval'')) | _ \<Rightarrow> None) samples"

definition intervals_covered :: "dict \<Rightarrow> py list \<Rightarrow> bool" where
  "intervals_covered row samples \<longleftrightarrow>
     list_all (\<lambda>k. k \<in> set (sample_intervals samples)) (required_observation_intervals row)"

definition sampled_at_texts :: "py list \<Rightarrow> string list" where
  "sampled_at_texts samples = List.map_filter (\<lambda>s. case s of
     PDict d \<Rightarrow> (if truthy (dgetn d ''sampled_at'') then Some (py_str (dgetn d ''sampled_at'')) else None) | _ \<Rightarrow> None) samples"

definition malformed :: "string \<Rightarrow> exc" where
  "malformed what = RuntimeError (''signal observation '' @ what)"

definition expect :: "bool \<Rightarrow> exc \<Rightarrow> unit res" where
  "expect b e = (if b then Inr () else Inl e)"

definition check_row :: "dict \<Rightarrow> py list res" where
  "check_row row = (case dgetn row ''samples'' of
     PList samples \<Rightarrow>
       (if \<not> is_dict (dgetn row ''sample_attempts'') then Inl (malformed ''sample attempts are malformed'')
        else if \<not> is_dict (dgetn row ''safety_metrics'') then Inl (malformed ''safety metrics are malformed'')
        else if \<not> is_list (dgetn row ''decision_reasons'') then Inl (malformed ''decision reasons are malformed'')
        else if \<not> is_dict (dgetn row ''discovery_metadata'') then Inl (malformed ''discovery metadata is malformed'')
        else Inr samples)
   | _ \<Rightarrow> Inl (malformed ''samples are malformed''))"

definition complete_migrated :: "string \<Rightarrow> py list \<Rightarrow> dict \<Rightarrow> bool \<times> dict" where
  "complete_migrated now samples row =
     (if row_status row = ''PENDING'' \<and> intervals_covered row samples then
        (let row = dset ''status'' (PStr ''COMPLETE'') row in
         (True, if truthy (dgetn row ''completed_at'') then row
                else dset ''completed_at'' (PStr (case sampled_at_texts samples of
                    [] \<Rightarrow> now | x # xs \<Rightarrow> fold max xs x)) row))
      else (False, row))"

definition migrate_row :: "bool \<Rightarrow> string \<Rightarrow> py \<Rightarrow> (bool \<times> py) res" where
  "migrate_row legacy now v = (case v of
     PDict row \<Rightarrow>
       (let defaults = row_defaults legacy row;
            missing = list_ex (\<lambda>(k, _). \<not> dhas row k) defaults;
            row = add_defaults defaults row in
        bindE (check_row row) (\<lambda>samples.
          case complete_migrated now samples row of (completed, row) \<Rightarrow> Inr (missing \<or> completed, PDict row)))
   | _ \<Rightarrow> Inl (malformed ''row is malformed''))"

definition migrate_rows :: "bool \<Rightarrow> (nat \<Rightarrow> string) \<Rightarrow> py list \<Rightarrow> (bool \<times> py) list res" where
  "migrate_rows legacy now rows = mapE (\<lambda>(i, row). migrate_row legacy (now i) row) (List.enumerate 0 rows)"

text \<open>Row \<open>i\<close> reads the time \<open>now i\<close>, the document the time after its rows.\<close>

definition migrate_observation_document :: "(nat \<Rightarrow> string) \<Rightarrow> bool mutator" where
  "migrate_observation_document now document =
     bindE (int_field document ''schema_version'' 1) (\<lambda>version.
       if OBSERVATION_SCHEMA_VERSION < version
       then Inl (malformed ''schema is newer than this service'')
       else let document = dsetdefault ''observations'' (PList []) document in
         case dgetn document ''observations'' of
           PList rows \<Rightarrow>
             bindE (migrate_rows (version < OBSERVATION_SCHEMA_VERSION) now rows) (\<lambda>done.
               let changed = version \<noteq> OBSERVATION_SCHEMA_VERSION \<or> list_ex fst done;
                   document = dset ''observations'' (PList (map snd done)) document in
               Inr (changed, if changed
                 then dset ''updated_at'' (PStr (now (length rows)))
                        (dset ''schema_version'' (PInt OBSERVATION_SCHEMA_VERSION) document)
                 else document))
         | _ \<Rightarrow> Inl (malformed ''ledger is malformed''))"

definition ensure_observations_migrated ::
  "bool \<Rightarrow> state_file \<Rightarrow> string \<Rightarrow> (nat \<Rightarrow> string) \<Rightarrow> dict res \<times> state_file" where
  "ensure_observations_migrated lk f t now =
     migrate_json ''signal_observations.json'' lk f (empty_observations t) (migrate_observation_document now)"

definition read_observations_snapshot :: "state_file \<Rightarrow> string \<Rightarrow> (nat \<Rightarrow> string) \<Rightarrow> dict res" where
  "read_observations_snapshot f t now =
     bindE (read_json ''signal_observations.json'' f (empty_observations t)) (\<lambda>document.
     bindE (migrate_observation_document now document) (\<lambda>(changed, document).
       if changed then Inl (malformed ''ledger requires startup migration'') else Inr document))"


section \<open>Documents of the current schema\<close>

definition default_keys :: "string list" where "default_keys = map fst (row_defaults False [])"

definition current_row :: "dict \<Rightarrow> bool" where
  "current_row row \<longleftrightarrow> list_all (dhas row) default_keys
     \<and> (\<exists>samples. check_row row = Inr samples \<and> \<not> (row_status row = ''PENDING'' \<and> intervals_covered row samples))"

definition current_rows :: "py list \<Rightarrow> bool" where
  "current_rows rows \<longleftrightarrow> (\<forall>v \<in> set rows. \<exists>row. v = PDict row \<and> current_row row)"

definition current_document :: "dict \<Rightarrow> bool" where
  "current_document document \<longleftrightarrow> int_field document ''schema_version'' 1 = Inr OBSERVATION_SCHEMA_VERSION
     \<and> (\<exists>rows. dget document ''observations'' = Some (PList rows) \<and> current_rows rows)"

lemma map_fst_defaults: "map fst (row_defaults legacy row) = default_keys"
  by (simp add: row_defaults_def default_keys_def)

lemma row_default_has: "dhas row k \<Longrightarrow> dsetdefault k v row = row"
  by (simp add: dsetdefault_def)

lemma add_defaults_id: "list_all (dhas row) (map fst defaults) \<Longrightarrow> add_defaults defaults row = row"
  unfolding add_defaults_def by (induction defaults) (auto simp: row_default_has)

lemma add_defaults_simps [simp]:
  "add_defaults [] row = row" "add_defaults ((k, v) # ds) row = add_defaults ds (dsetdefault k v row)"
  by (simp_all add: add_defaults_def)

lemma dhas_dsetdefault [simp]: "dhas (dsetdefault k v d) k' \<longleftrightarrow> k' = k \<or> dhas d k'"
  by (auto simp: dhas_def)

lemma dget_add_defaults_old: "dget row k = Some v \<Longrightarrow> dget (add_defaults ds row) k = Some v"
proof (induction ds arbitrary: row)
  case (Cons p ds)
  obtain k' v' where p: "p = (k', v')" by (cases p)
  show ?case unfolding p using Cons.prems by (auto intro!: Cons.IH)
qed simp

lemma dhas_add_defaults: "dhas (add_defaults ds row) k \<longleftrightarrow> dhas row k \<or> k \<in> fst ` set ds"
proof (induction ds arbitrary: row)
  case (Cons p ds)
  obtain k' v' where p: "p = (k', v')" by (cases p)
  show ?case by (auto simp: p Cons.IH)
qed simp

lemma dget_add_defaults_other: "k \<notin> fst ` set ds \<Longrightarrow> dget (add_defaults ds row) k = dget row k"
proof (induction ds arbitrary: row)
  case (Cons p ds)
  obtain k' v' where p: "p = (k', v')" by (cases p)
  show ?case using Cons by (simp add: p)
qed simp

lemma complete_migrated_False:
  "row_status row = ''PENDING'' \<longrightarrow> \<not> intervals_covered row samples \<Longrightarrow> complete_migrated now samples row = (False, row)"
  by (auto simp: complete_migrated_def)

lemma migrate_row_current: "current_row row \<Longrightarrow> migrate_row legacy now (PDict row) = Inr (False, PDict row)"
proof -
  assume c: "current_row row"
  then have h: "list_all (dhas row) (map fst (row_defaults legacy row))"
    by (simp add: current_row_def map_fst_defaults)
  then have "\<not> list_ex (\<lambda>(k, _). \<not> dhas row k) (row_defaults legacy row)"
    by (auto simp: list_ex_iff list_all_iff)
  with c show ?thesis
    by (auto simp: migrate_row_def Let_def add_defaults_id [OF h] current_row_def complete_migrated_False)
qed

lemma mapE_same:
  assumes "\<And>x. x \<in> set xs \<Longrightarrow> f x = Inr (g x)"
  shows "mapE f xs = Inr (map g xs)"
  using assms by (induction xs) auto

lemma migrate_rows_current:
  assumes "current_rows rows"
  shows "migrate_rows legacy now rows = Inr (map (Pair False) rows)"
proof -
  have "migrate_rows legacy now rows = Inr (map (\<lambda>(i, row). (False, row)) (List.enumerate 0 rows))"
    unfolding migrate_rows_def
    using assms by (intro mapE_same) (auto simp: current_rows_def in_set_enumerate_eq migrate_row_current
        dest!: nth_mem)
  moreover have "map (\<lambda>(i, row). (False, row)) (List.enumerate 0 rows) = map (Pair False) rows"
    by (intro nth_equalityI) (simp_all add: nth_enumerate_eq)
  ultimately show ?thesis by simp
qed

lemma migrate_current:
  assumes "current_document document"
  shows "migrate_observation_document now document = Inr (False, document)"
proof -
  obtain rows where r: "dget document ''observations'' = Some (PList rows)" "current_rows rows"
    and v: "int_field document ''schema_version'' 1 = Inr OBSERVATION_SCHEMA_VERSION"
    using assms by (auto simp: current_document_def)
  have d: "dsetdefault ''observations'' (PList []) document = document"
    using r by (intro row_default_has) (simp add: dhas_def)
  show ?thesis
    using r by (simp add: migrate_observation_document_def v d migrate_rows_current comp_def list_ex_iff dset_same)
qed


lemma check_row_cong:
  assumes "\<And>k. k \<in> {''samples'', ''sample_attempts'', ''safety_metrics'', ''decision_reasons'', ''discovery_metadata''}
    \<Longrightarrow> dgetn row k = dgetn row' k"
  shows "check_row row = check_row row'"
proof -
  have e: "dgetn row ''samples'' = dgetn row' ''samples''" "dgetn row ''sample_attempts'' = dgetn row' ''sample_attempts''"
    "dgetn row ''safety_metrics'' = dgetn row' ''safety_metrics''"
    "dgetn row ''decision_reasons'' = dgetn row' ''decision_reasons''"
    "dgetn row ''discovery_metadata'' = dgetn row' ''discovery_metadata''"
    by (simp_all add: assms)
  show ?thesis unfolding check_row_def e ..
qed

lemma row_status_PStr [simp]: "dget row ''status'' = Some (PStr t) \<Longrightarrow> row_status row = upper t"
  by (simp add: row_status_def)

lemma complete_migrated_frame:
  assumes "complete_migrated now samples row = (c, row')" "k \<notin> {''status'', ''completed_at''}"
  shows "dget row' k = dget row k"
  using assms by (auto simp: complete_migrated_def Let_def split: if_splits)

lemma complete_migrated_terminal:
  assumes "complete_migrated now samples row = (c, row')"
  shows "row_status row' = ''PENDING'' \<Longrightarrow> \<not> intervals_covered row' samples"
proof (cases "row_status row = ''PENDING'' \<and> intervals_covered row samples")
  case True
  then have "dget row' ''status'' = Some (PStr ''COMPLETE'')"
    using assms by (auto simp: complete_migrated_def Let_def split: if_splits)
  then have "row_status row' = ''COMPLETE''" by (simp add: py_text_defs)
  then show "row_status row' = ''PENDING'' \<Longrightarrow> \<not> intervals_covered row' samples" by simp
next
  case False
  then have "row' = row" using assms by (auto simp: complete_migrated_def split: if_splits)
  then show "row_status row' = ''PENDING'' \<Longrightarrow> \<not> intervals_covered row' samples" using False by simp
qed

lemma complete_migrated_has: "complete_migrated now samples row = (c, row') \<Longrightarrow> dhas row k \<Longrightarrow> dhas row' k"
  by (auto simp: complete_migrated_def Let_def split: if_splits)

lemma migrate_row_makes_current:
  assumes "migrate_row legacy now v = Inr (c, v')"
  obtains row row' where "v = PDict row" "v' = PDict row'" "current_row row'"
    "\<And>k. k \<notin> set default_keys \<union> {''status'', ''completed_at''} \<Longrightarrow> dget row' k = dget row k"
    "\<And>k x. k \<notin> {''status'', ''completed_at''} \<Longrightarrow> dget row k = Some x \<Longrightarrow> dget row' k = Some x"
proof -
  obtain row where v: "v = PDict row" using assms by (cases v) (auto simp: migrate_row_def)
  define row1 where "row1 = add_defaults (row_defaults legacy row) row"
  obtain samples where s: "check_row row1 = Inr samples"
    using assms by (cases "check_row row1") (auto simp: v migrate_row_def row1_def [symmetric] Let_def)
  obtain c' row' where c: "complete_migrated now samples row1 = (c', row')" by fastforce
  have v': "v' = PDict row'" using assms s c by (simp add: v migrate_row_def row1_def [symmetric] Let_def)
  have "dhas row' k" if "k \<in> set default_keys" for k
    using that complete_migrated_has [OF c] map_fst_defaults [of legacy row]
    by (auto simp: row1_def dhas_add_defaults simp flip: set_map)
  moreover have "check_row row' = check_row row1"
    by (rule check_row_cong) (auto simp: dgetn_def dget_or_def complete_migrated_frame [OF c])
  ultimately have "current_row row'"
    using s complete_migrated_terminal [OF c] by (auto simp: current_row_def list_all_iff)
  moreover have "dget row' k = dget row k" if "k \<notin> set default_keys \<union> {''status'', ''completed_at''}" for k
    using that complete_migrated_frame [OF c, of k] map_fst_defaults [of legacy row]
    by (simp add: row1_def dget_add_defaults_other flip: set_map)
  moreover have "dget row' k = Some x" if "k \<notin> {''status'', ''completed_at''}" "dget row k = Some x" for k x
    using that complete_migrated_frame [OF c, of k] by (simp add: row1_def dget_add_defaults_old)
  ultimately show ?thesis using that v v' by blast
qed

lemma migrate_makes_current:
  assumes "migrate_observation_document now document = Inr (c, document')"
  shows "current_document document'"
proof -
  let ?d = "dsetdefault ''observations'' (PList []) document"
  obtain version where v: "int_field document ''schema_version'' 1 = Inr version" "version \<le> OBSERVATION_SCHEMA_VERSION"
    using assms by (auto simp: migrate_observation_document_def bindE_eq_Inr split: if_splits)
  obtain rows where r: "dgetn ?d ''observations'' = PList rows"
    using assms v by (auto simp: migrate_observation_document_def Let_def split: py.splits)
  obtain new where d: "migrate_rows (version < OBSERVATION_SCHEMA_VERSION) now rows = Inr new"
    using assms v r by (auto simp: migrate_observation_document_def Let_def bindE_eq_Inr)
  define doc2 where "doc2 = dset ''observations'' (PList (map snd new)) ?d"
  define changed where "changed \<longleftrightarrow> version \<noteq> OBSERVATION_SCHEMA_VERSION \<or> list_ex fst new"
  have out: "document' = (if changed then dset ''updated_at'' (PStr (now (length rows)))
      (dset ''schema_version'' (PInt OBSERVATION_SCHEMA_VERSION) doc2) else doc2)"
    using assms v r d by (auto simp: migrate_observation_document_def Let_def doc2_def changed_def)
  have "int_field doc2 ''schema_version'' 1 = int_field document ''schema_version'' 1"
    by (simp add: doc2_def int_field_def dget_or_def)
  then have "int_field document' ''schema_version'' 1 = Inr OBSERVATION_SCHEMA_VERSION"
    using v by (auto simp: out int_field_def changed_def OBSERVATION_SCHEMA_VERSION_def)
  moreover have "dget document' ''observations'' = Some (PList (map snd new))"
    by (simp add: out doc2_def)
  moreover have "current_rows (map snd new)"
    unfolding current_rows_def
  proof
    fix v assume "v \<in> set (map snd new)"
    then obtain i where i: "i < length new" "v = snd (new ! i)" by (auto simp: in_set_conv_nth)
    have "length new = length rows" using mapE_length [OF d [unfolded migrate_rows_def]] by simp
    then have "migrate_row (version < OBSERVATION_SCHEMA_VERSION) (now i) (rows ! i) = Inr (new ! i)"
      using mapE_nth [OF d [unfolded migrate_rows_def], of i] i by (simp add: nth_enumerate_eq)
    then show "\<exists>row. v = PDict row \<and> current_row row"
      using i by (cases "new ! i") (auto elim: migrate_row_makes_current)
  qed
  ultimately show ?thesis by (auto simp: current_document_def)
qed

end
