(* ===== verification/ObservationRetention.thy ===== *)
theory ObservationRetention
  imports ObservationRows "HOL-Library.Sublist"
begin

text \<open>
  Which rows of the observation ledger an operation keeps (\<open>src/observation_tracker.py\<close>): the cap on finished
  rows, which spares those that are not archived yet, the expiry of rows beyond the limit of active
  ones, the rows to archive and the markers that say a row was archived.
\<close>

section \<open>Retention\<close>

definition terminal_text :: "dict \<Rightarrow> bool" where
  "terminal_text row \<longleftrightarrow> upper (str_field row ''status'' (PStr [])) \<in> set TERMINAL_OBSERVATION_STATUSES"

definition archived_row :: "dict \<Rightarrow> bool" where
  "archived_row row \<longleftrightarrow> py_same (dgetn row ''archive_schema_version'') (PInt 1) \<and> truthy (dgetn row ''archived_at'')"

definition unarchived_terminal :: "py \<Rightarrow> bool" where
  "unarchived_terminal v = (case v of PDict row \<Rightarrow> terminal_text row \<and> \<not> archived_row row | _ \<Rightarrow> False)"

definition paper_opened :: "dict \<Rightarrow> bool" where
  "paper_opened row \<longleftrightarrow> dgetn row ''paper_experiment_status'' = PStr ''OPENED''"

text \<open>\<open>row.get("status") in TERMINAL_OBSERVATION_STATUSES\<close>, which raises for a list or a dictionary.\<close>

datatype row_class = Active | Completed | NoRow

definition classify_row :: "py \<Rightarrow> row_class res" where
  "classify_row v = (case v of
     PDict row \<Rightarrow> bindE (in_string_set (dgetn row ''status'') TERMINAL_OBSERVATION_STATUSES) (\<lambda>terminal.
       Inr (if \<not> terminal \<or> paper_opened row then Active else Completed))
   | _ \<Rightarrow> Inr NoRow)"

definition positions :: "('a \<Rightarrow> bool) \<Rightarrow> 'a list \<Rightarrow> nat list" where
  "positions P xs = filter (\<lambda>i. P (xs ! i)) [0..<length xs]"

definition kept_positions :: "row_class list \<Rightarrow> nat list" where
  "kept_positions classes =
     (let active = positions ((=) Active) classes; completed = positions ((=) Completed) classes
      in active @ take_last (MAX_OBSERVATIONS - length active) completed)"

definition retained_positions :: "py list \<Rightarrow> nat list res" where
  "retained_positions rows = bindE (mapE classify_row rows) (\<lambda>classes. Inr (kept_positions classes))"

definition retained_observations :: "py list \<Rightarrow> py list res" where
  "retained_observations rows = bindE (retained_positions rows) (\<lambda>kept. Inr (nths rows (set kept)))"

definition archive_and_retain_observations :: "py list \<Rightarrow> py list res" where
  "archive_and_retain_observations rows =
     (let unarchived = positions unarchived_terminal rows in
      bindE (retained_positions rows) (\<lambda>kept.
        if set unarchived \<subseteq> set kept then Inr (nths rows (set kept))
        else Inr (nths rows (set kept \<union> set unarchived))))"

section \<open>Expiry\<close>

definition expirable_row :: "py \<Rightarrow> bool res" where
  "expirable_row v = (case v of
     PDict row \<Rightarrow> bindE (in_string_set (dgetn row ''status'') TERMINAL_OBSERVATION_STATUSES) (\<lambda>terminal.
       Inr (\<not> terminal \<and> \<not> paper_opened row))
   | _ \<Rightarrow> Inr False)"

definition expire_row :: "string \<Rightarrow> py \<Rightarrow> py" where
  "expire_row now v = (case v of
     PDict row \<Rightarrow> PDict (dset ''completed_at'' (PStr now) (dset ''expiration_reason'' (PStr ''ACTIVE_OBSERVATION_LIMIT'')
       (dset ''status'' (PStr ''EXPIRED_UNSAMPLED'') row)))
   | _ \<Rightarrow> v)"

definition expire_positions :: "bool list \<Rightarrow> nat list" where
  "expire_positions expirable =
     (let open1 = positions id expirable in take (length open1 - MAX_ACTIVE_OBSERVATIONS) open1)"

definition expire_observation_backlog :: "(nat \<Rightarrow> string) \<Rightarrow> py list \<Rightarrow> py list res" where
  "expire_observation_backlog now rows = bindE (mapE expirable_row rows) (\<lambda>expirable.
     let expired = expire_positions expirable in
     Inr (map (\<lambda>(i, v). if i \<in> set expired then expire_row (now i) v else v) (List.enumerate 0 rows)))"

section \<open>The archive markers\<close>

definition unarchived_terminal_snapshots :: "state_file \<Rightarrow> string \<Rightarrow> py list res" where
  "unarchived_terminal_snapshots f t =
     bindE (read_json ''signal_observations.json'' f (empty_observations t)) (\<lambda>document.
       case dget_or document ''observations'' (PList []) of
         PList rows \<Rightarrow> Inr (take ARCHIVE_DRAIN_BATCH_SIZE (filter unarchived_terminal rows))
       | _ \<Rightarrow> Inl (malformed ''rows are malformed''))"

text \<open>\<open>markers\<close>: the identifiers of the snapshots that were archived, with the time; a later one wins.\<close>

definition archive_markers :: "dict list \<Rightarrow> (string \<times> string) list" where
  "archive_markers snapshots = fold (\<lambda>row m.
     let k = py_str (py_or (dgetn row ''observation_id'') (PStr [])) in
     if py_same (dgetn row ''archive_schema_version'') (PInt 1) \<and> truthy (dgetn row ''archived_at'') \<and> k \<noteq> []
     then AList.update k (py_str (py_or (dgetn row ''archived_at'') (PStr []))) m else m) snapshots []"

definition mark_archived :: "(string \<times> string) list \<Rightarrow> py \<Rightarrow> bool \<times> py" where
  "mark_archived markers v = (case v of
     PDict row \<Rightarrow>
       (case map_of markers (py_str (py_or (dgetn row ''observation_id'') (PStr []))) of
          None \<Rightarrow> (False, v)
        | Some t \<Rightarrow> (if t = [] then (False, v) else
            (True, PDict (dset ''archived_at'' (PStr t) (dset ''archive_schema_version'' (PInt 1) row)))))
   | _ \<Rightarrow> (False, v))"

text \<open>The rows of a document after its migration, and their replacement.\<close>

definition observation_rows :: "dict \<Rightarrow> py list res" where
  "observation_rows document = py_iter (dget_or document ''observations'' (PList []))"

definition put_rows :: "py list \<Rightarrow> string \<Rightarrow> dict \<Rightarrow> dict" where
  "put_rows rows t document = dset ''updated_at'' (PStr t) (dset ''observations'' (PList rows) document)"

definition persist_archive_markers_mutate :: "(string \<times> string) list \<Rightarrow> (nat \<Rightarrow> string) \<Rightarrow> string \<Rightarrow> nat mutator" where
  "persist_archive_markers_mutate markers now t document =
     bindE (migrate_observation_document now document) (\<lambda>(_, document).
     bindE (observation_rows document) (\<lambda>rows.
     let marked = map (mark_archived markers) rows in
     bindE (archive_and_retain_observations (map snd marked)) (\<lambda>kept.
       Inr (length (filter fst marked), put_rows kept t document))))"

definition observation_update :: "bool \<Rightarrow> state_file \<Rightarrow> string \<Rightarrow> 't mutator \<Rightarrow> 't res \<times> state_file" where
  "observation_update lk f t mutator =
     (case update_json ''signal_observations.json'' lk f (empty_observations t) mutator None of
        (Inl e, f') \<Rightarrow> (Inl e, f') | (Inr (r, _), f') \<Rightarrow> (Inr r, f'))"

definition persist_archive_markers ::
  "bool \<Rightarrow> state_file \<Rightarrow> string \<Rightarrow> dict list \<Rightarrow> (nat \<Rightarrow> string) \<Rightarrow> string \<Rightarrow> nat res \<times> state_file" where
  "persist_archive_markers lk f t0 snapshots now t =
     (let markers = archive_markers snapshots in
      if markers = [] then (Inr 0, f)
      else observation_update lk f t0 (persist_archive_markers_mutate markers now t))"


section \<open>Positions\<close>

lemma set_positions: "set (positions P xs) = {i. i < length xs \<and> P (xs ! i)}"
  by (auto simp: positions_def)

lemma sorted_positions: "sorted_wrt (<) (positions P xs)"
  by (simp add: positions_def sorted_wrt_filter)

lemma distinct_positions [simp]: "distinct (positions P xs)"
  by (simp add: positions_def)

lemma length_positions: "length (positions P xs) = length (filter P xs)"
proof -
  have "map ((!) xs) (positions P xs) = filter P (map ((!) xs) [0..<length xs])"
    by (simp add: positions_def filter_map comp_def)
  then show ?thesis by (metis length_map map_nth)
qed

lemma take_last_dropped:
  assumes "sorted_wrt (<) xs" "x \<in> set xs" "x \<notin> set (take_last n xs)"
  shows "n \<le> length (filter (\<lambda>y. x < y) (xs :: nat list))"
proof -
  let ?k = "length xs - n"
  have s: "xs = take ?k xs @ take_last n xs" by (simp add: take_last_def)
  then have x: "x \<in> set (take ?k xs)" using assms(2,3) by (metis Un_iff set_append)
  then have "0 < ?k" by (cases "?k") auto
  then have n: "length (take_last n xs) = n" by simp
  have "\<forall>y \<in> set (take_last n xs). x < y"
    using assms(1) x by (subst (asm) s) (auto simp: sorted_wrt_append)
  then have "filter (\<lambda>y. x < y) (take_last n xs) = take_last n xs" by (simp add: filter_id_conv)
  then have "length (filter (\<lambda>y. x < y) xs) \<ge> length (take_last n xs)"
    by (subst s) (simp only: filter_append length_append)
  then show ?thesis using n by simp
qed

lemma take_first_order:
  assumes "sorted_wrt (<) xs" "i \<in> set (take n xs)" "j \<in> set xs" "j \<notin> set (take n xs)"
  shows "(i :: nat) < j"
proof -
  have "j \<in> set (drop n xs)" using assms(3,4) by (metis Un_iff append_take_drop_id set_append)
  then show ?thesis using assms(1,2) by (metis append_take_drop_id sorted_wrt_append)
qed

section \<open>What is kept\<close>

abbreviation completed_after :: "row_class list \<Rightarrow> nat \<Rightarrow> nat" where
  "completed_after classes i \<equiv> length (filter (\<lambda>j. i < j) (positions ((=) Completed) classes))"

lemma kept_positions_active: "i < length classes \<Longrightarrow> classes ! i = Active \<Longrightarrow> i \<in> set (kept_positions classes)"
  by (simp add: kept_positions_def Let_def set_positions)

lemma kept_positions_dropped:
  assumes "i < length classes" "classes ! i = Completed" "i \<notin> set (kept_positions classes)"
  shows "MAX_OBSERVATIONS \<le> length (positions ((=) Active) classes) + completed_after classes i"
proof -
  have "MAX_OBSERVATIONS - length (positions ((=) Active) classes) \<le> completed_after classes i"
    using assms by (intro take_last_dropped sorted_positions) (auto simp: set_positions kept_positions_def Let_def)
  then show ?thesis by simp
qed

lemma kept_positions_length: "length (kept_positions classes) \<le> max MAX_OBSERVATIONS (length (positions ((=) Active) classes))"
  by (simp add: kept_positions_def Let_def)

lemma kept_positions_class: "i \<in> set (kept_positions classes) \<Longrightarrow> i < length classes \<and> classes ! i \<noteq> NoRow"
  by (auto simp: kept_positions_def Let_def set_positions dest!: subsetD [OF take_last_set])

definition exact_terminal :: "dict \<Rightarrow> bool" where
  "exact_terminal row \<longleftrightarrow> dgetn row ''status'' \<in> PStr ` set TERMINAL_OBSERVATION_STATUSES"

lemma in_terminal_set:
  "in_string_set v TERMINAL_OBSERVATION_STATUSES = Inr t \<Longrightarrow> t \<longleftrightarrow> v \<in> PStr ` set TERMINAL_OBSERVATION_STATUSES"
  by (cases v) auto

lemma classify_row_Inr:
  "classify_row v = Inr c \<longleftrightarrow> (case v of
     PDict row \<Rightarrow> in_string_set (dgetn row ''status'') TERMINAL_OBSERVATION_STATUSES = Inr (exact_terminal row)
       \<and> c = (if exact_terminal row \<and> \<not> paper_opened row then Completed else Active)
   | _ \<Rightarrow> c = NoRow)"
  by (cases v) (auto simp: classify_row_def bindE_eq_Inr exact_terminal_def dest: in_terminal_set)

lemma exact_terminal_text: "exact_terminal row \<Longrightarrow> terminal_text row"
proof -
  assume "exact_terminal row"
  then obtain t where t: "dgetn row ''status'' = PStr t" "t \<in> {''COMPLETE'', ''EXPIRED_UNSAMPLED''}"
    by (auto simp: exact_terminal_def TERMINAL_OBSERVATION_STATUSES_def)
  then have "upper t = t" by (auto simp: py_text_defs)
  moreover have "t \<noteq> []" using t(2) by auto
  ultimately show "terminal_text row"
    using t by (auto simp: terminal_text_def str_field_def TERMINAL_OBSERVATION_STATUSES_def)
qed

text \<open>The classes of rows whose statuses can be compared.\<close>

definition row_class_of :: "py \<Rightarrow> row_class" where
  "row_class_of v = (case v of
     PDict row \<Rightarrow> (if exact_terminal row \<and> \<not> paper_opened row then Completed else Active) | _ \<Rightarrow> NoRow)"

lemma mapE_map: "(\<And>x y. x \<in> set xs \<Longrightarrow> f x = Inr y \<Longrightarrow> y = g x) \<Longrightarrow> mapE f xs = Inr ys \<Longrightarrow> ys = map g xs"
  by (induction xs arbitrary: ys) (auto simp: bindE_eq_Inr)

lemma retained_positions_Inr:
  "retained_positions rows = Inr kept \<Longrightarrow> kept = kept_positions (map row_class_of rows)"
proof -
  assume "retained_positions rows = Inr kept"
  then obtain cs where c: "mapE classify_row rows = Inr cs" "kept = kept_positions cs"
    by (auto simp: retained_positions_def bindE_eq_Inr)
  have "cs = map row_class_of rows"
    using c(1) by (rule mapE_map [rotated]) (auto simp: classify_row_Inr row_class_of_def split: py.splits)
  with c(2) show ?thesis by simp
qed

lemma archive_and_retain_Inr:
  assumes "archive_and_retain_observations rows = Inr kept"
  shows "kept = nths rows (set (kept_positions (map row_class_of rows)) \<union> set (positions unarchived_terminal rows))"
proof -
  obtain ks where k: "retained_positions rows = Inr ks"
    using assms by (auto simp: archive_and_retain_observations_def bindE_eq_Inr Let_def)
  then have "kept = nths rows (set ks \<union> set (positions unarchived_terminal rows))"
    using assms by (auto simp: archive_and_retain_observations_def Let_def Un_absorb2 split: if_splits)
  then show ?thesis using retained_positions_Inr [OF k] by simp
qed

definition kept_set :: "py list \<Rightarrow> nat set" where
  "kept_set rows = set (kept_positions (map row_class_of rows)) \<union> set (positions unarchived_terminal rows)"

lemma dropped_is_archived:
  assumes "i < length rows" "i \<notin> kept_set rows" "rows ! i = PDict row"
  shows "row_class_of (rows ! i) = Completed" "exact_terminal row" "\<not> paper_opened row" "archived_row row"
proof -
  have "map row_class_of rows ! i \<noteq> Active"
    using kept_positions_active [of i "map row_class_of rows"] assms by (auto simp: kept_set_def)
  then show c: "row_class_of (rows ! i) = Completed" "exact_terminal row" "\<not> paper_opened row"
    using assms by (auto simp: row_class_of_def split: if_splits)
  have "\<not> unarchived_terminal (rows ! i)" using assms by (simp add: kept_set_def set_positions)
  then show "archived_row row" using assms(3) exact_terminal_text [OF c(2)] by (simp add: unarchived_terminal_def)
qed

text \<open>C23: the cap on the observation ledger loses nothing that is still needed.  The rows kept are rows of the
  ledger in their order; a row that is dropped is finished, has no open paper position and is in the
  research archive, and at least 1000 rows are active or finished after it.  When every finished row is
  archived, the ledger has at most 1000 rows, or as many as are active.\<close>

theorem retention_loses_nothing_needed:
  assumes "archive_and_retain_observations rows = Inr kept"
  defines "classes \<equiv> map row_class_of rows"
  shows "\<exists>S. kept = nths rows S \<and> subseq kept rows
     \<and> (\<forall>i row. i < length rows \<and> i \<notin> S \<and> rows ! i = PDict row \<longrightarrow>
          exact_terminal row \<and> \<not> paper_opened row \<and> archived_row row
          \<and> 1000 \<le> length (filter ((=) Active) classes) + completed_after classes i)
     \<and> (filter unarchived_terminal rows = [] \<longrightarrow> length kept \<le> max 1000 (length (filter ((=) Active) classes)))"
proof -
  define S where "S = set (kept_positions classes) \<union> set (positions unarchived_terminal rows)"
  have k: "kept = nths rows S"
    using archive_and_retain_Inr [OF assms(1)] unfolding S_def classes_def .
  have "exact_terminal row \<and> \<not> paper_opened row \<and> archived_row row
      \<and> 1000 \<le> length (filter ((=) Active) classes) + completed_after classes i"
    if i: "i < length rows" "i \<notin> S" "rows ! i = PDict row" for i row
  proof -
    note d = dropped_is_archived [OF i(1) i(2) [unfolded S_def classes_def, folded kept_set_def] i(3)]
    have "1000 \<le> length (filter ((=) Active) classes) + completed_after classes i"
      using kept_positions_dropped [of i classes] i d(1)
      by (simp add: S_def classes_def length_positions MAX_OBSERVATIONS_def)
    then show ?thesis using d by blast
  qed
  moreover have "length kept \<le> max 1000 (length (filter ((=) Active) classes))"
    if "filter unarchived_terminal rows = []"
  proof -
    have "positions unarchived_terminal rows = []"
      using that length_positions [of unarchived_terminal rows] by simp
    then have "length kept \<le> card (set (kept_positions classes))"
      unfolding k S_def length_nths by (auto intro!: card_mono)
    also have "\<dots> \<le> length (kept_positions classes)" by (rule card_length)
    finally show ?thesis using kept_positions_length [of classes]
      by (simp add: MAX_OBSERVATIONS_def length_positions)
  qed
  ultimately show ?thesis using k by (intro exI [of _ S]) (auto simp: subseq_conv_nths)
qed


lemma retain_total:
  assumes "\<And>v. v \<in> set rows \<Longrightarrow> \<exists>c. classify_row v = Inr c"
  shows "\<exists>kept. archive_and_retain_observations rows = Inr kept"
proof -
  have "mapE classify_row rows = Inr (map (\<lambda>v. projr (classify_row v)) rows)"
    using assms by (intro mapE_same) fastforce
  then show ?thesis by (simp add: archive_and_retain_observations_def retained_positions_def Let_def)
qed

definition finished_row :: "int \<Rightarrow> py" where
  "finished_row n = PDict [(''observation_id'', PInt n), (''status'', PStr ''COMPLETE''),
     (''archive_schema_version'', PInt 1), (''archived_at'', PStr ''2026-01-01T00:00:00+00:00'')]"

lemma finished_row_facts [simp]:
  "\<exists>c. classify_row (finished_row n) = Inr c" "\<not> unarchived_terminal (finished_row n)"
  "row_class_of (finished_row n) = Completed"
  by (simp_all add: finished_row_def classify_row_def dgetn_def dget_or_def TERMINAL_OBSERVATION_STATUSES_def
      unarchived_terminal_def archived_row_def row_class_of_def exact_terminal_def paper_opened_def py_same_def)

theorem retention_loses_nothing_needed_witness:
  "\<exists>kept. archive_and_retain_observations (map (finished_row \<circ> int) [0..<1001]) = Inr kept
     \<and> length kept \<le> 1000"
proof -
  let ?rows = "map (finished_row \<circ> int) [0..<1001]"
  have "\<And>v. v \<in> set ?rows \<Longrightarrow> \<exists>c. classify_row v = Inr c" by (auto simp del: upt_conv_Cons upt_rec_numeral)
  from retain_total [OF this] obtain kept where k: "archive_and_retain_observations ?rows = Inr kept" by blast
  have "filter unarchived_terminal ?rows = []" "filter ((=) Active) (map row_class_of ?rows) = []"
    by (simp_all add: filter_empty_conv del: upt_rec_numeral)
  then have "length kept \<le> 1000" using retention_loses_nothing_needed [OF k] by auto
  with k show ?thesis by blast
qed

section \<open>What expires\<close>

definition waiting_row :: "py \<Rightarrow> bool" where
  "waiting_row v = (case v of PDict row \<Rightarrow> \<not> exact_terminal row \<and> \<not> paper_opened row | _ \<Rightarrow> False)"

lemma expirable_row_Inr: "expirable_row v = Inr b \<Longrightarrow> b \<longleftrightarrow> waiting_row v"
  by (cases v) (auto simp: expirable_row_def waiting_row_def exact_terminal_def bindE_eq_Inr dest: in_terminal_set)

lemma expire_Inr:
  assumes "expire_observation_backlog now rows = Inr rows'"
  defines "expired \<equiv> take (length (filter waiting_row rows) - 200) (positions waiting_row rows)"
  shows "rows' = map (\<lambda>(i, v). if i \<in> set expired then expire_row (now i) v else v) (List.enumerate 0 rows)"
proof -
  obtain es where e: "mapE expirable_row rows = Inr es"
    using assms(1) by (auto simp: expire_observation_backlog_def bindE_eq_Inr)
  have es: "es = map waiting_row rows"
    using e by (rule mapE_map [rotated]) (auto dest: expirable_row_Inr)
  have p: "positions id es = positions waiting_row rows"
    unfolding es positions_def by (rule filter_cong) simp_all
  have "expire_positions es = expired"
    unfolding expire_positions_def Let_def p expired_def
    by (simp add: length_positions MAX_ACTIVE_OBSERVATIONS_def)
  then show ?thesis using assms(1) e by (simp add: expire_observation_backlog_def Let_def)
qed

lemma expire_row_waiting: "\<not> waiting_row (expire_row t v)"
  by (cases v) (auto simp: expire_row_def waiting_row_def exact_terminal_def TERMINAL_OBSERVATION_STATUSES_def)

lemma length_filter_waiting:
  assumes "length rows' = length rows" "\<And>i. i < length rows \<Longrightarrow> waiting_row (rows' ! i) \<longleftrightarrow> i \<notin> S \<and> waiting_row (rows ! i)"
  shows "length (filter waiting_row rows') = length (filter (\<lambda>i. i \<notin> S) (positions waiting_row rows))"
proof -
  have "positions waiting_row rows' = filter (\<lambda>i. i \<notin> S) (positions waiting_row rows)"
    unfolding positions_def filter_filter assms(1) using assms(2) by (intro filter_cong) auto
  then show ?thesis by (metis length_positions)
qed

lemma filter_not_in_take:
  assumes "distinct xs"
  shows "filter (\<lambda>i. i \<notin> set (take n xs)) xs = drop n xs"
proof -
  have d: "set (take n xs) \<inter> set (drop n xs) = {}"
    by (rule set_take_disj_set_drop_if_distinct [OF assms order_refl])
  have "filter (\<lambda>i. i \<notin> set (take n xs)) (take n xs @ drop n xs)
      = filter (\<lambda>i. i \<notin> set (take n xs)) (take n xs) @ filter (\<lambda>i. i \<notin> set (take n xs)) (drop n xs)"
    by (rule filter_append)
  also have "filter (\<lambda>i. i \<notin> set (take n xs)) (take n xs) = []" by (simp add: filter_empty_conv)
  also have "filter (\<lambda>i. i \<notin> set (take n xs)) (drop n xs) = drop n xs"
    using d by (intro filter_True) blast
  finally show ?thesis by simp
qed

text \<open>the backlog of unfinished observations is bounded, and the oldest give way.  The expiry keeps every
  row in its place; it changes only rows that wait for samples and have no open paper position, and
  marks them as expired; at most 200 rows wait afterwards; and a row that still waits is newer than
  every row that expired.\<close>

theorem expiry_bounds_the_backlog:
  assumes "expire_observation_backlog now rows = Inr rows'"
  shows "\<exists>S. length rows' = length rows
     \<and> (\<forall>i < length rows. rows' ! i = (if i \<in> S then expire_row (now i) (rows ! i) else rows ! i))
     \<and> (\<forall>i \<in> S. i < length rows \<and> waiting_row (rows ! i))
     \<and> (\<forall>i \<in> S. \<forall>j < length rows. waiting_row (rows' ! j) \<longrightarrow> i < j)
     \<and> length (filter waiting_row rows') \<le> 200"
proof -
  define n where "n = length (filter waiting_row rows) - 200"
  define S where "S = set (take n (positions waiting_row rows))"
  have r: "rows' = map (\<lambda>(i, v). if i \<in> S then expire_row (now i) v else v) (List.enumerate 0 rows)"
    using expire_Inr [OF assms] unfolding S_def n_def .
  have l: "length rows' = length rows" by (simp add: r)
  have e: "rows' ! i = (if i \<in> S then expire_row (now i) (rows ! i) else rows ! i)" if "i < length rows" for i
    using that by (simp add: r nth_enumerate_eq)
  have S: "i < length rows \<and> waiting_row (rows ! i)" if "i \<in> S" for i
    using that by (auto simp: S_def set_positions dest: in_set_takeD)
  have w: "waiting_row (rows' ! i) \<longleftrightarrow> i \<notin> S \<and> waiting_row (rows ! i)" if "i < length rows" for i
    by (simp add: e that expire_row_waiting)
  have "length (filter waiting_row rows') = length (filter (\<lambda>i. i \<notin> S) (positions waiting_row rows))"
    by (rule length_filter_waiting [OF l]) (rule w)
  also have "\<dots> = length (drop n (positions waiting_row rows))"
    unfolding S_def by (simp add: filter_not_in_take)
  finally have "length (filter waiting_row rows') \<le> 200" by (simp add: n_def length_positions)
  moreover have "i < j" if "i \<in> S" "j < length rows" "waiting_row (rows' ! j)" for i j
    using take_first_order [OF sorted_positions, of i n waiting_row rows j] that w [of j]
    by (simp add: S_def set_positions)
  ultimately show ?thesis using l e S by blast
qed


definition pending_row :: py where
  "pending_row = PDict [(''observation_id'', PStr ''a''), (''status'', PStr ''PENDING'')]"

theorem expiry_bounds_the_backlog_witness:
  "\<exists>rows'. expire_observation_backlog (\<lambda>_. ''t'') (replicate 201 pending_row) = Inr rows'
     \<and> length rows' = 201 \<and> length (filter waiting_row rows') \<le> 200"
proof -
  have "expirable_row pending_row = Inr True"
    by (simp add: expirable_row_def pending_row_def dgetn_def dget_or_def TERMINAL_OBSERVATION_STATUSES_def paper_opened_def)
  then have "mapE expirable_row (replicate 201 pending_row) = Inr (map (\<lambda>_. True) (replicate 201 pending_row))"
    by (intro mapE_same) auto
  then obtain rows' where r: "expire_observation_backlog (\<lambda>_. ''t'') (replicate 201 pending_row) = Inr rows'"
    by (simp add: expire_observation_backlog_def Let_def)
  have "length rows' = length (replicate 201 pending_row) \<and> length (filter waiting_row rows') \<le> 200"
    using expiry_bounds_the_backlog [OF r] by blast
  with r show ?thesis by (simp)
qed


section \<open>Rows stay well formed\<close>

definition checked_keys :: "string list" where
  "checked_keys = [''samples'', ''sample_attempts'', ''safety_metrics'', ''decision_reasons'', ''discovery_metadata'']"

lemma current_row_cong:
  assumes "current_row row" "\<And>k. dhas row k \<Longrightarrow> dhas row' k" "\<And>k. k \<in> set checked_keys \<Longrightarrow> dgetn row' k = dgetn row k"
    and "row_status row' = ''PENDING'' \<Longrightarrow> row_status row = ''PENDING'' \<and> dgetn row' ''tracking_profile'' = dgetn row ''tracking_profile''"
  shows "current_row row'"
proof -
  obtain samples where s: "list_all (dhas row) default_keys" "check_row row = Inr samples"
    "\<not> (row_status row = ''PENDING'' \<and> intervals_covered row samples)"
    using assms(1) by (auto simp: current_row_def)
  have "check_row row' = check_row row" by (rule check_row_cong) (auto intro!: assms(3) simp: checked_keys_def)
  moreover have "\<not> (row_status row' = ''PENDING'' \<and> intervals_covered row' samples)"
    using assms(4) s(3) by (auto simp: intervals_covered_def required_observation_intervals_def)
  ultimately show ?thesis using s(1,2) assms(2) by (auto simp: current_row_def list_all_iff)
qed

lemma current_row_dset:
  "current_row row \<Longrightarrow> k \<notin> set checked_keys \<union> {''status'', ''tracking_profile''} \<Longrightarrow> current_row (dset k v row)"
  by (rule current_row_cong) (auto simp: checked_keys_def row_status_def dget_or_def)

lemma current_row_finish:
  assumes "current_row row" "upper t \<noteq> ''PENDING''"
  shows "current_row (dset ''status'' (PStr t) row)"
proof (rule current_row_cong [OF assms(1)])
  have "row_status (dset ''status'' (PStr t) row) = upper t" by (simp add: row_status_def)
  then show "row_status (dset ''status'' (PStr t) row) = ''PENDING'' \<Longrightarrow> row_status row = ''PENDING''
      \<and> dgetn (dset ''status'' (PStr t) row) ''tracking_profile'' = dgetn row ''tracking_profile''"
    using assms(2) by simp
qed (auto simp: checked_keys_def)

lemma upper_terminal [simp]: "upper ''COMPLETE'' = ''COMPLETE''" "upper ''EXPIRED_UNSAMPLED'' = ''EXPIRED_UNSAMPLED''"
  "upper ''PENDING'' = ''PENDING''" "upper ''DISCOVERED'' = ''DISCOVERED''"
  by (simp_all add: py_text_defs)

lemma expire_row_current: "current_row row \<Longrightarrow> \<exists>row'. expire_row t (PDict row) = PDict row' \<and> current_row row'"
  by (simp add: expire_row_def current_row_dset current_row_finish checked_keys_def)

lemma retain_current:
  assumes "archive_and_retain_observations rows = Inr kept" "current_rows rows"
  shows "current_rows kept"
  using archive_and_retain_Inr [OF assms(1)] assms(2) set_nths_subset unfolding current_rows_def by fastforce

lemma expire_current:
  assumes "expire_observation_backlog now rows = Inr rows'" "current_rows rows"
  shows "current_rows rows'"
  unfolding current_rows_def
proof
  fix v assume "v \<in> set rows'"
  then obtain i where i: "i < length rows" and v: "v = rows ! i \<or> v = expire_row (now i) (rows ! i)"
    unfolding expire_Inr [OF assms(1)] by (auto simp: in_set_conv_nth nth_enumerate_eq split: if_splits)
  obtain row where r: "rows ! i = PDict row" "current_row row"
    using assms(2) i by (auto simp: current_rows_def dest: nth_mem)
  show "\<exists>row. v = PDict row \<and> current_row row"
    using v expire_row_current [OF r(2), of "now i"] r by auto
qed

section \<open>Rows stay until they are archived\<close>

definition same_observation :: "dict \<Rightarrow> dict \<Rightarrow> bool" where
  "same_observation row row' \<longleftrightarrow> archived_row row' = archived_row row
     \<and> dgetn row' ''observation_id'' = dgetn row ''observation_id''"

definition keeps_unarchived :: "py list \<Rightarrow> py list \<Rightarrow> bool" where
  "keeps_unarchived rows rows' \<longleftrightarrow> (\<forall>row. PDict row \<in> set rows \<and> \<not> archived_row row \<longrightarrow>
     (\<exists>row'. PDict row' \<in> set rows' \<and> \<not> archived_row row'
        \<and> dgetn row' ''observation_id'' = dgetn row ''observation_id''))"

lemma keeps_unarchived_refl: "keeps_unarchived rows rows"
  by (auto simp: keeps_unarchived_def)

lemma keeps_unarchived_trans: "keeps_unarchived xs ys \<Longrightarrow> keeps_unarchived ys zs \<Longrightarrow> keeps_unarchived xs zs"
  unfolding keeps_unarchived_def by metis

lemma keeps_unarchived_append: "keeps_unarchived rows (rows @ [v])"
  by (auto simp: keeps_unarchived_def)

lemma keeps_unarchived_update:
  assumes "i < length rows" "rows ! i = PDict row" "same_observation row row'"
  shows "keeps_unarchived rows (rows[i := PDict row'])"
  unfolding keeps_unarchived_def
proof (intro allI impI)
  fix r assume r: "PDict r \<in> set rows \<and> \<not> archived_row r"
  then obtain j where j: "j < length rows" "rows ! j = PDict r" by (auto simp: in_set_conv_nth)
  show "\<exists>r'. PDict r' \<in> set (rows[i := PDict row']) \<and> \<not> archived_row r'
      \<and> dgetn r' ''observation_id'' = dgetn r ''observation_id''"
  proof (cases "j = i")
    case True
    then show ?thesis using assms r j set_update_memI [OF assms(1), of "PDict row'"]
      by (auto simp: same_observation_def)
  next
    case False
    then have "PDict r \<in> set (rows[i := PDict row'])" using j by (metis length_list_update nth_list_update_neq nth_mem)
    then show ?thesis using r by blast
  qed
qed

lemma same_observation_dset:
  "k \<notin> {''observation_id'', ''archive_schema_version'', ''archived_at''} \<Longrightarrow> same_observation row (dset k v row)"
  by (auto simp: same_observation_def archived_row_def)

lemma same_observation_trans: "same_observation a b \<Longrightarrow> same_observation b c \<Longrightarrow> same_observation a c"
  by (simp add: same_observation_def)

lemma retain_keeps_unarchived:
  assumes "archive_and_retain_observations rows = Inr kept"
  shows "keeps_unarchived rows kept"
  unfolding keeps_unarchived_def
proof (intro allI impI)
  fix row assume r: "PDict row \<in> set rows \<and> \<not> archived_row row"
  then obtain i where i: "i < length rows" "rows ! i = PDict row" by (auto simp: in_set_conv_nth)
  then have "i \<in> kept_set rows" using dropped_is_archived(4) r by blast
  then have "PDict row \<in> set kept"
    using archive_and_retain_Inr [OF assms, folded kept_set_def] i by (force simp: set_nths)
  then show "\<exists>row'. PDict row' \<in> set kept \<and> \<not> archived_row row'
      \<and> dgetn row' ''observation_id'' = dgetn row ''observation_id''" using r by blast
qed


lemma expire_keeps_unarchived:
  assumes "expire_observation_backlog now rows = Inr rows'"
  shows "keeps_unarchived rows rows'"
  unfolding keeps_unarchived_def
proof (intro allI impI)
  fix row assume r: "PDict row \<in> set rows \<and> \<not> archived_row row"
  then obtain i where i: "i < length rows" "rows ! i = PDict row" by (auto simp: in_set_conv_nth)
  obtain row' where e: "expire_row (now i) (PDict row) = PDict row'" "same_observation row row'"
    by (simp add: expire_row_def same_observation_def archived_row_def)
  have l: "length rows' = length rows" unfolding expire_Inr [OF assms] by simp
  have "rows' ! i = PDict row \<or> rows' ! i = PDict row'"
    unfolding expire_Inr [OF assms] using i e by (simp add: nth_enumerate_eq)
  moreover have "rows' ! i \<in> set rows'" using i l by simp
  ultimately show "\<exists>row'. PDict row' \<in> set rows' \<and> \<not> archived_row row'
      \<and> dgetn row' ''observation_id'' = dgetn row ''observation_id''"
    using r e(2) by (auto simp: same_observation_def)
qed

section \<open>Transactions on the observation ledger\<close>

definition ledger_rows :: "dict \<Rightarrow> py list" where
  "ledger_rows document = (case dgetn document ''observations'' of PList rows \<Rightarrow> rows | _ \<Rightarrow> [])"

lemma current_document_rows:
  "current_document document \<longleftrightarrow> int_field document ''schema_version'' 1 = Inr OBSERVATION_SCHEMA_VERSION
     \<and> dget document ''observations'' = Some (PList (ledger_rows document)) \<and> current_rows (ledger_rows document)"
  by (auto simp: current_document_def ledger_rows_def)

lemma observation_rows_current: "current_document document \<Longrightarrow> observation_rows document = Inr (ledger_rows document)"
  by (simp add: current_document_rows observation_rows_def)

lemma ledger_rows_put [simp]: "ledger_rows (put_rows rows t document) = rows"
  by (simp add: ledger_rows_def put_rows_def)

lemma put_rows_current: "current_document document \<Longrightarrow> current_rows rows \<Longrightarrow> current_document (put_rows rows t document)"
  by (simp add: current_document_rows put_rows_def int_field_def dget_or_def) (simp add: ledger_rows_def)

text \<open>
  What every transaction of the module promises: a document of the current schema stays one, and a row
  that is not in the research archive stays in the ledger.
\<close>

locale observation_transaction =
  fixes step :: "'t mutator"
  assumes keeps_current: "current_document d \<Longrightarrow> step d = Inr (r, d') \<Longrightarrow> current_document d'"
    and keeps_rows: "current_document d \<Longrightarrow> step d = Inr (r, d') \<Longrightarrow> keeps_unarchived (ledger_rows d) (ledger_rows d')"
begin

lemma commit:
  assumes "observation_update lk (Content (PDict d)) t step = (res, f')" "current_document d"
  shows "\<exists>d'. f' = Content (PDict d') \<and> current_document d' \<and> keeps_unarchived (ledger_rows d) (ledger_rows d')"
proof (cases "fst (update_json ''signal_observations.json'' lk (Content (PDict d)) (empty_observations t) step None)")
  case (Inl e)
  then have "f' = Content (PDict d)"
    using assms(1) by (auto simp: observation_update_def update_json_def Let_def split: sum.splits prod.splits)
  then show ?thesis using assms(2) keeps_unarchived_refl by blast
next
  case (Inr r)
  then obtain v x d1 where s: "step d = Inr (x, d1)" and f: "f' = Content (PDict (dset ''version'' (PInt v) d1))"
    using assms(1)
    by (auto simp: observation_update_def update_json_def Let_def locked_def bindE_eq_Inr split: sum.splits prod.splits if_splits)
  have "current_document (dset ''version'' (PInt v) d1)"
    using keeps_current [OF assms(2) s] by (simp add: current_document_def int_field_def dget_or_def)
  moreover have "ledger_rows (dset ''version'' (PInt v) d1) = ledger_rows d1" by (simp add: ledger_rows_def)
  ultimately show ?thesis using keeps_rows [OF assms(2) s] f by simp
qed

end

lemma mark_archived_row:
  assumes "current_row row"
  shows "\<exists>row'. snd (mark_archived markers (PDict row)) = PDict row' \<and> current_row row'
     \<and> dgetn row' ''observation_id'' = dgetn row ''observation_id''
     \<and> (map_of markers (py_str (py_or (dgetn row ''observation_id'') (PStr []))) = None \<longrightarrow> row' = row)"
  using assms by (auto simp: mark_archived_def checked_keys_def intro!: current_row_dset split: option.split)

text \<open>A marker transaction archives the rows it names and no other.\<close>

lemma persist_markers_run:
  assumes "current_document d"
    and "persist_archive_markers_mutate markers now t d = Inr (n, d')"
  shows "current_document d'"
    and "\<lbrakk>PDict row \<in> set (ledger_rows d); \<not> archived_row row;
       map_of markers (py_str (py_or (dgetn row ''observation_id'') (PStr []))) = None\<rbrakk>
     \<Longrightarrow> PDict row \<in> set (ledger_rows d')"
proof -
  define marked where "marked = map (snd \<circ> mark_archived markers) (ledger_rows d)"
  obtain kept where k: "archive_and_retain_observations marked = Inr kept" "d' = put_rows kept t d"
    using assms by (auto simp: persist_archive_markers_mutate_def migrate_current observation_rows_current
        Let_def bindE_eq_Inr marked_def)
  have m: "current_rows marked"
    unfolding current_rows_def
  proof
    fix v assume "v \<in> set marked"
    then obtain u where u: "u \<in> set (ledger_rows d)" "v = snd (mark_archived markers u)" by (auto simp: marked_def)
    then obtain row where "u = PDict row" "current_row row"
      using assms(1) by (auto simp: current_document_rows current_rows_def)
    then show "\<exists>row. v = PDict row \<and> current_row row" using mark_archived_row [of row markers] u by auto
  qed
  show "current_document d'" unfolding k(2) by (intro put_rows_current assms(1) retain_current [OF k(1) m])
  show "PDict row \<in> set (ledger_rows d')" if r: "PDict row \<in> set (ledger_rows d)" "\<not> archived_row row"
    "map_of markers (py_str (py_or (dgetn row ''observation_id'') (PStr []))) = None"
  proof -
    have "snd (mark_archived markers (PDict row)) = PDict row" using r(3) by (simp add: mark_archived_def)
    then have "PDict row \<in> set marked" using r(1) by (force simp: marked_def)
    then obtain i where i: "i < length marked" "marked ! i = PDict row" by (auto simp: in_set_conv_nth)
    then have "i \<in> kept_set marked" using dropped_is_archived(4) r(2) by blast
    then show ?thesis
      using archive_and_retain_Inr [OF k(1), folded kept_set_def] i unfolding k(2) by (force simp: set_nths)
  qed
qed

end
