(* ===== verification/ObservationRecords.thy ===== *)
theory ObservationRecords
  imports ObservationRetention
begin

text \<open>
  The operations on the observation ledger, \<open>src/observation_tracker.py\<close>: a candidate is recorded before its
  gates, closed when it has no quote, or decided with its quote; its paper experiment is linked; its samples
  and failed attempts are stored; an interrupted one is closed at the next start.

  Each operation is a transaction of \<open>StateStore\<close>.  The clock of a transaction is a record of the
  times it reads: the migration of row \<open>i\<close> and its expiry read their own times.
\<close>

section \<open>Values\<close>

record row_clock =
  migrate_clock :: "nat \<Rightarrow> string"
  expire_clock :: "nat \<Rightarrow> string"
  start_clock :: string
  stamp_clock :: string

record observation_decision =
  decision_created :: bool
  decision_observation :: string
  decision_eligible :: bool
  decision_variants :: "py list"

fun find_observation :: "string \<Rightarrow> py list \<Rightarrow> (nat \<times> dict) option" where
  "find_observation oid [] = None"
| "find_observation oid (v # vs) = (case v of
     PDict row \<Rightarrow> (if dgetn row ''observation_id'' = PStr oid then Some (0, row)
       else map_option (\<lambda>(i, r). (Suc i, r)) (find_observation oid vs))
   | _ \<Rightarrow> map_option (\<lambda>(i, r). (Suc i, r)) (find_observation oid vs))"

definition observation_id_of :: "string \<Rightarrow> string \<Rightarrow> string \<Rightarrow> string" where
  "observation_id_of sig wallet m = sig @ '':'' @ wallet @ '':'' @ m"

text \<open>\<open>expire_observation_backlog\<close>, \<open>archive_and_retain_observations\<close> and the write of the document.\<close>

definition expire_and_retain :: "row_clock \<Rightarrow> py list \<Rightarrow> dict \<Rightarrow> dict res" where
  "expire_and_retain clk rows document =
     bindE (expire_observation_backlog (expire_clock clk) rows) (\<lambda>rows.
     bindE (archive_and_retain_observations rows) (\<lambda>rows. Inr (put_rows rows (stamp_clock clk) document)))"

definition retain_rows :: "row_clock \<Rightarrow> py list \<Rightarrow> dict \<Rightarrow> dict res" where
  "retain_rows clk rows document =
     bindE (archive_and_retain_observations rows) (\<lambda>rows. Inr (put_rows rows (stamp_clock clk) document))"

definition with_rows :: "row_clock \<Rightarrow> (py list \<Rightarrow> dict \<Rightarrow> ('t \<times> dict) res) \<Rightarrow> 't mutator" where
  "with_rows clk body document =
     bindE (migrate_observation_document (migrate_clock clk) document) (\<lambda>(_, document).
     bindE (observation_rows document) (\<lambda>rows. body rows document))"

definition current_schema :: "dict \<Rightarrow> dict" where
  "current_schema document = dset ''schema_version'' (PInt OBSERVATION_SCHEMA_VERSION) document"

section \<open>Discovery\<close>

record discovery =
  found_mint :: string
  found_route :: string
  found_wallet :: string
  found_signature :: string
  found_amount :: int
  found_decimals :: int
  found_at :: string
  found_momentum :: py
  found_metrics :: py
  found_metadata :: py
  found_collection :: py

definition existing_decision :: "string \<Rightarrow> dict \<Rightarrow> string list \<Rightarrow> observation_decision res" where
  "existing_decision oid row variants =
     bindE (py_iter (py_or (dgetn row ''strategy_variants'') (PList (map PStr variants)))) (\<lambda>vs.
       Inr \<lparr>decision_created = False, decision_observation = oid,
            decision_eligible = (dgetn row ''candidate_v2_eligible'' = PBool True), decision_variants = vs\<rparr>)"

definition discovery_base :: "discovery \<Rightarrow> f64 \<Rightarrow> string \<Rightarrow> dict \<Rightarrow> dict" where
  "discovery_base c started_at t metadata =
     (let score = float_or_zero (found_momentum c) in
        [(''observation_id'', PStr (observation_id_of (found_signature c) (found_wallet c) (found_mint c))),
         (''mint'', PStr (found_mint c)), (''route_type'', PStr (upper (found_route c))),
         (''signal_type'', PStr (signal_type_for_route (PStr (found_route c)))),
         (''research_decision'', PStr ''SHADOW''), (''source_wallet'', PStr (found_wallet c)),
         (''source_signature'', PStr (found_signature c)), (''safety_score'', PNone),
         (''entry_cost_lamports'', PInt 0), (''token_amount_raw'', PInt (max 0 (found_amount c))),
         (''token_decimals'', PInt (max 0 (found_decimals c))), (''entry_price_impact_pct'', PNone),
         (''exit_price_impact_pct'', PNone), (''expected_slippage_bps'', PNone),
         (''dex_momentum_score'', PFloat score), (''strategy_version'', PStr ''broad_observation_v1''),
         (''strategy_variants'', PList (map PStr (strategy_variants (found_route c) score))),
         (''safety_metrics'', PDict []), (''momentum_metrics'', normalized_momentum_metrics (found_metrics c)),
         (''candidate_v2_eligible'', PBool False),
         (''candidate_v2_filter_reasons'', PList [PStr ''DECISION_PENDING'']),
         (''candidate_v2_early_failure'', PNone), (''candidate_v2_paper_status'', PStr ''NOT_EVALUATED''),
         (''candidate_v2_position_id'', PNone), (''paper_experiment_status'', PStr ''NOT_EVALUATED''),
         (''paper_experiment_position_id'', PNone), (''decision_status'', PStr ''DISCOVERED''),
         (''decision_reasons'', PList []), (''quote_status'', PStr ''NOT_REQUESTED''),
         (''discovery_metadata'', PDict metadata), (''signal_detected_at'', PStr (found_at c)),
         (''analysis_completed_at'', PNone), (''entry_quote_at'', PNone), (''entry_latency_ms'', PNone),
         (''started_at_epoch'', PFloat started_at), (''started_at'', PStr t), (''samples'', PList []),
         (''sample_attempts'', PDict []), (''mfe_percent'', PNone), (''mae_percent'', PNone),
         (''excursion_basis'', PStr ''scheduled_jupiter_executable_quotes''),
         (''tracking_profile'', PStr ''research_v1_60m''), (''status'', PStr ''DISCOVERED'')])"

text \<open>A normalised collection is stored when it is not empty.\<close>

definition with_collection :: "dict \<Rightarrow> dict \<Rightarrow> dict" where
  "with_collection collection payload = (if collection = [] then payload
     else dset ''prospective_feature_collection'' (PDict collection) payload)"

definition discovery_payload :: "discovery \<Rightarrow> f64 \<Rightarrow> string \<Rightarrow> dict res" where
  "discovery_payload c started_at t =
     bindE (bounded_metadata (found_metadata c)) (\<lambda>metadata.
     bindE (normalize_prospective_feature_collection (found_collection c) (PStr (found_at c))) (\<lambda>collection.
       Inr (with_collection collection (discovery_base c started_at t metadata))))"

definition record_candidate_discovery_mutate ::
  "discovery \<Rightarrow> f64 \<Rightarrow> row_clock \<Rightarrow> observation_decision mutator" where
  "record_candidate_discovery_mutate c started_at clk =
     (let oid = observation_id_of (found_signature c) (found_wallet c) (found_mint c);
          variants = strategy_variants (found_route c) (float_or_zero (found_momentum c)) in
      with_rows clk (\<lambda>rows document. case find_observation oid rows of
          Some (_, row) \<Rightarrow> bindE (existing_decision oid row variants) (\<lambda>r. Inr (r, document))
        | None \<Rightarrow>
            bindE (discovery_payload c started_at (start_clock clk)) (\<lambda>payload.
            bindE (expire_and_retain clk (rows @ [PDict payload]) (current_schema document)) (\<lambda>document.
              Inr (\<lparr>decision_created = True, decision_observation = oid, decision_eligible = False,
                    decision_variants = map PStr variants\<rparr>, document)))))"

definition record_candidate_discovery ::
  "bool \<Rightarrow> state_file \<Rightarrow> string \<Rightarrow> discovery \<Rightarrow> f64 \<Rightarrow> row_clock \<Rightarrow> observation_decision res \<times> state_file" where
  "record_candidate_discovery lk f t c started_at clk =
     observation_update lk f t (record_candidate_discovery_mutate c started_at clk)"

section \<open>A candidate without a quote\<close>

definition short_reasons :: "py list \<Rightarrow> py" where
  "short_reasons reasons = PList (map (\<lambda>r. PStr (take 200 (py_str r))) (take 20 reasons))"

record closing =
  closing_status :: string
  closing_reasons :: "py list"
  closing_quote :: string
  closing_score :: py
  closing_metrics :: py
  closing_analysis :: py

definition finalized_row :: "closing \<Rightarrow> dict \<Rightarrow> string \<Rightarrow> dict \<Rightarrow> dict" where
  "finalized_row c metrics t row = dupdate row
     [(''decision_status'', PStr (upper (closing_status c))), (''research_decision'', PStr ''REJECTED''),
      (''decision_reasons'', short_reasons (closing_reasons c)),
      (''quote_status'', PStr (take 80 (upper (closing_quote c)))),
      (''paper_experiment_status'', PStr ''NOT_ELIGIBLE''), (''candidate_v2_paper_status'', PStr ''NOT_ELIGIBLE''),
      (''safety_score'', closing_score c), (''safety_metrics'', PDict metrics),
      (''analysis_completed_at'', closing_analysis c), (''status'', PStr ''COMPLETE''), (''completed_at'', PStr t)]"

definition finalize_candidate_mutate :: "string \<Rightarrow> closing \<Rightarrow> row_clock \<Rightarrow> bool mutator" where
  "finalize_candidate_mutate oid c clk = with_rows clk (\<lambda>rows document.
     case find_observation oid rows of
       None \<Rightarrow> Inr (False, document)
     | Some (i, row) \<Rightarrow>
         bindE (normalized_safety_metrics (closing_metrics c)) (\<lambda>metrics.
         bindE (retain_rows clk (rows[i := PDict (finalized_row c metrics (start_clock clk) row)]) document) (\<lambda>document.
           Inr (True, document))))"

definition finalize_candidate_without_quote ::
  "bool \<Rightarrow> state_file \<Rightarrow> string \<Rightarrow> string \<Rightarrow> closing \<Rightarrow> row_clock \<Rightarrow> bool res \<times> state_file" where
  "finalize_candidate_without_quote lk f t oid c clk =
     (if upper (closing_status c) \<notin> {''REJECTED'', ''UNAVAILABLE'', ''FAILED''}
      then (Inl (ValueError ''unsupported candidate decision status''), f)
      else observation_update lk f t (finalize_candidate_mutate oid c clk))"


section \<open>The decision on a candidate\<close>

record quoted_signal =
  quoted_mint :: string
  quoted_route :: string
  quoted_wallet :: string
  quoted_signature :: string
  quoted_score :: int
  quoted_cost :: int
  quoted_amount :: int
  quoted_decimals :: int
  quoted_entry_impact :: f64
  quoted_exit_impact :: "f64 option"
  quoted_slippage :: int
  quoted_momentum :: py
  quoted_detected :: string
  quoted_analyzed :: string
  quoted_at :: string
  quoted_latency :: int
  quoted_copy_gap :: py
  quoted_metrics :: py
  quoted_safety :: py
  quoted_collection :: py
  quoted_decision :: string
  quoted_reasons :: "py list"
  quoted_status :: string

text \<open>An eligible row of the same mint within 24 hours.\<close>

fun mint_seen :: "string \<Rightarrow> f64 \<Rightarrow> py list \<Rightarrow> bool res" where
  "mint_seen m now [] = Inr False"
| "mint_seen m now (v # vs) = (case v of
     PDict row \<Rightarrow>
       (if dgetn row ''mint'' = PStr m \<and> dgetn row ''candidate_v2_eligible'' = PBool True
        then bindE (float_field row ''started_at_epoch'' (PInt 0)) (\<lambda>started.
          if f64_lt (f64_sub now started) CANDIDATE_V2_MINT_COOLDOWN_SECONDS then Inr True else mint_seen m now vs)
        else mint_seen m now vs)
   | _ \<Rightarrow> mint_seen m now vs)"

definition candidate_verdict :: "quoted_signal \<Rightarrow> f64 \<Rightarrow> py list \<Rightarrow> (bool \<times> string list) res" where
  "candidate_verdict q now rows =
     (let score = float_or_zero (quoted_momentum q);
          approved = upper (quoted_decision q) = ''APPROVED'';
          in_band = f64_le CANDIDATE_V2_MIN_SCORE score \<and> f64_lt score CANDIDATE_V2_MAX_SCORE;
          eligible = quoted_route q = ''B'' \<and> approved \<and> in_band;
          reasons = (if approved then [] else [''ENTRY_DECISION_REJECTED''])
            @ (if quoted_route q = ''B'' then [] else [''ROUTE_NOT_B''])
            @ (if in_band then [] else [''MOMENTUM_OUTSIDE_90_TO_BELOW_100'']) in
      if \<not> eligible then Inr (False, reasons)
      else bindE (mint_seen (quoted_mint q) now rows) (\<lambda>seen.
        Inr (if seen then (False, reasons @ [''MINT_SEEN_WITHIN_24H'']) else (True, reasons))))"

definition decision_collection :: "quoted_signal \<Rightarrow> dict option \<Rightarrow> dict res" where
  "decision_collection q existing =
     bindE (normalize_prospective_feature_collection (quoted_collection q) (PStr (quoted_detected q))) (\<lambda>c.
       case existing of
         Some row \<Rightarrow> (if c = [] then normalize_prospective_feature_collection
             (dgetn row ''prospective_feature_collection'') (PStr (quoted_detected q)) else Inr c)
       | None \<Rightarrow> Inr c)"

definition decision_payload ::
  "quoted_signal \<Rightarrow> f64 \<Rightarrow> string \<Rightarrow> dict option \<Rightarrow> bool \<times> string list \<Rightarrow> dict \<Rightarrow> dict" where
  "decision_payload q started_at t existing verdict metrics =
     (let score = float_or_zero (quoted_momentum q);
          approved = upper (quoted_decision q) = ''APPROVED'';
          eligible = fst verdict in
      [(''observation_id'', PStr (observation_id_of (quoted_signature q) (quoted_wallet q) (quoted_mint q))),
       (''mint'', PStr (quoted_mint q)), (''route_type'', PStr (quoted_route q)),
       (''signal_type'', PStr (signal_type_for_route (PStr (quoted_route q)))),
       (''research_decision'', PStr (if approved then ''SHADOW'' else ''REJECTED'')),
       (''source_wallet'', PStr (quoted_wallet q)), (''source_signature'', PStr (quoted_signature q)),
       (''safety_score'', PInt (quoted_score q)), (''entry_cost_lamports'', PInt (quoted_cost q)),
       (''token_amount_raw'', PInt (quoted_amount q)), (''token_decimals'', PInt (quoted_decimals q)),
       (''entry_price_impact_pct'', PFloat (quoted_entry_impact q)),
       (''exit_price_impact_pct'', opt_float (quoted_exit_impact q)),
       (''expected_slippage_bps'', PInt (quoted_slippage q)), (''dex_momentum_score'', PFloat score),
       (''strategy_version'', PStr ''baseline_v1+candidate_v2''),
       (''strategy_variants'', PList (map PStr (strategy_variants (quoted_route q) score))),
       (''safety_metrics'', PDict metrics),
       (''momentum_metrics'', normalized_momentum_metrics (if quoted_route q = ''B'' then quoted_metrics q else PNone)),
       (''candidate_v2_eligible'', PBool eligible),
       (''candidate_v2_filter_reasons'', PList (map PStr (snd verdict))), (''candidate_v2_early_failure'', PNone),
       (''candidate_v2_paper_status'', PStr (if eligible then ''ELIGIBLE'' else ''NOT_ELIGIBLE'')),
       (''candidate_v2_position_id'', PNone),
       (''paper_experiment_status'', PStr (if approved then ''ELIGIBLE'' else ''NOT_ELIGIBLE'')),
       (''paper_experiment_position_id'', PNone), (''signal_detected_at'', PStr (quoted_detected q)),
       (''analysis_completed_at'', PStr (quoted_analyzed q)), (''entry_quote_at'', PStr (quoted_at q)),
       (''entry_latency_ms'', PInt (quoted_latency q)),
       (''copy_price_gap_pct'', opt_number (finite_or_none (quoted_copy_gap q))),
       (''started_at_epoch'', case existing of None \<Rightarrow> PFloat started_at
          | Some row \<Rightarrow> dget_or row ''started_at_epoch'' (PFloat started_at)),
       (''started_at'', case existing of None \<Rightarrow> PStr t | Some row \<Rightarrow> dget_or row ''started_at'' (PStr t)),
       (''samples'', PList []), (''sample_attempts'', PDict []), (''mfe_percent'', PNone), (''mae_percent'', PNone),
       (''excursion_basis'', PStr ''scheduled_jupiter_executable_quotes''),
       (''tracking_profile'', PStr ''research_v1_60m''), (''status'', PStr ''PENDING''),
       (''decision_status'', PStr (upper (quoted_decision q))),
       (''decision_reasons'', short_reasons (quoted_reasons q)),
       (''quote_status'', PStr (take 80 (upper (quoted_status q)))),
       (''discovery_metadata'', case existing of None \<Rightarrow> PDict [] | Some row \<Rightarrow> dget_or row ''discovery_metadata'' (PDict []))])"

definition decide_rows ::
  "quoted_signal \<Rightarrow> f64 \<Rightarrow> row_clock \<Rightarrow> (nat \<times> dict) option \<Rightarrow> py list \<Rightarrow> dict \<Rightarrow> (observation_decision \<times> dict) res" where
  "decide_rows q started_at clk found rows document =
     (let existing = map_option snd found;
          score = float_or_zero (quoted_momentum q) in
      if upper (quoted_decision q) \<notin> {''APPROVED'', ''REJECTED''}
      then Inl (ValueError ''unsupported observation decision status'')
      else bindE (candidate_verdict q started_at rows) (\<lambda>verdict.
           bindE (decision_collection q existing) (\<lambda>collection.
           bindE (normalized_safety_metrics (quoted_safety q)) (\<lambda>metrics.
           let payload = with_collection collection
                 (decision_payload q started_at (start_clock clk) existing verdict metrics);
               rows = (case found of Some (i, row) \<Rightarrow> rows[i := PDict (dupdate row payload)]
                       | None \<Rightarrow> rows @ [PDict payload]) in
           bindE (expire_and_retain clk rows (current_schema document)) (\<lambda>document.
             Inr (\<lparr>decision_created = True,
                   decision_observation = observation_id_of (quoted_signature q) (quoted_wallet q) (quoted_mint q),
                   decision_eligible = fst verdict,
                   decision_variants = map PStr (strategy_variants (quoted_route q) score)\<rparr>, document))))))"

definition record_observation_decision_mutate ::
  "quoted_signal \<Rightarrow> f64 \<Rightarrow> row_clock \<Rightarrow> observation_decision mutator" where
  "record_observation_decision_mutate q started_at clk =
     (let oid = observation_id_of (quoted_signature q) (quoted_wallet q) (quoted_mint q) in
      with_rows clk (\<lambda>rows document.
        case find_observation oid rows of
          Some (i, row) \<Rightarrow> (if dgetn row ''quote_status'' = PStr ''EXECUTABLE''
             then bindE (existing_decision oid row [''baseline_v1'']) (\<lambda>r. Inr (r, document))
             else decide_rows q started_at clk (Some (i, row)) rows document)
        | None \<Rightarrow> decide_rows q started_at clk None rows document))"

definition record_observation_decision ::
  "bool \<Rightarrow> state_file \<Rightarrow> string \<Rightarrow> quoted_signal \<Rightarrow> f64 \<Rightarrow> row_clock \<Rightarrow> observation_decision res \<times> state_file" where
  "record_observation_decision lk f t q started_at clk =
     (if quoted_cost q \<le> 0 \<or> quoted_amount q \<le> 0
      then (Inl (ValueError ''observation quote amounts must be positive''), f)
      else observation_update lk f t (record_observation_decision_mutate q started_at clk))"

text \<open>\<open>record_observation\<close> fixes the decision to an approved, executable one.\<close>

definition record_observation ::
  "bool \<Rightarrow> state_file \<Rightarrow> string \<Rightarrow> quoted_signal \<Rightarrow> f64 \<Rightarrow> row_clock \<Rightarrow> bool res \<times> state_file" where
  "record_observation lk f t q started_at clk =
     (case record_observation_decision lk f t
        (q\<lparr>quoted_decision := ''APPROVED'', quoted_reasons := [], quoted_status := ''EXECUTABLE''\<rparr>) started_at clk of
        (Inl e, f') \<Rightarrow> (Inl e, f') | (Inr r, f') \<Rightarrow> (Inr (decision_created r), f'))"

section \<open>The link to a paper position\<close>

definition linked_row :: "string \<Rightarrow> string option \<Rightarrow> dict \<Rightarrow> dict" where
  "linked_row status position row =
     (let row = dset ''paper_experiment_position_id'' (opt_str position)
                  (dset ''paper_experiment_status'' (PStr status) row);
          row = (if dgetn row ''candidate_v2_eligible'' = PBool True
                 then dset ''candidate_v2_position_id'' (opt_str position)
                        (dset ''candidate_v2_paper_status'' (PStr status) row) else row)
      in dset ''research_decision'' (PStr (if status \<in> {''OPENED'', ''CLOSED''} then ''ENTERED''
           else canonical_research_decision row)) row)"

definition mark_paper_experiment_mutate :: "string \<Rightarrow> string \<Rightarrow> string option \<Rightarrow> row_clock \<Rightarrow> bool mutator" where
  "mark_paper_experiment_mutate oid status position clk = with_rows clk (\<lambda>rows document.
     case find_observation oid rows of
       None \<Rightarrow> Inr (False, document)
     | Some (i, row) \<Rightarrow> bindE (retain_rows clk (rows[i := PDict (linked_row status position row)]) document) (\<lambda>document.
         Inr (True, document)))"

definition mark_paper_experiment_status ::
  "bool \<Rightarrow> state_file \<Rightarrow> string \<Rightarrow> string \<Rightarrow> string \<Rightarrow> string option \<Rightarrow> row_clock \<Rightarrow> bool res \<times> state_file" where
  "mark_paper_experiment_status lk f t oid status position clk =
     (if upper status \<notin> {''ELIGIBLE'', ''OPENED'', ''CLOSED'', ''SKIPPED_CAPACITY'', ''FAILED''}
      then (Inl (ValueError ''unsupported paper experiment status''), f)
      else observation_update lk f t (mark_paper_experiment_mutate oid (upper status) position clk))"

section \<open>Failed attempts\<close>

definition has_interval :: "string \<Rightarrow> py list \<Rightarrow> bool" where
  "has_interval k samples =
     list_ex (\<lambda>s. case s of PDict d \<Rightarrow> dgetn d ''interval'' = PStr k | _ \<Rightarrow> False) samples"

definition record_sample_attempt_mutate :: "string \<Rightarrow> string \<Rightarrow> string \<Rightarrow> row_clock \<Rightarrow> int mutator" where
  "record_sample_attempt_mutate oid k message clk = with_rows clk (\<lambda>rows document.
     case find_observation oid rows of
       None \<Rightarrow> Inr (0, document)
     | Some (i, row) \<Rightarrow>
         bindE (py_iter (dget_or row ''samples'' (PList []))) (\<lambda>samples.
           if has_interval k samples then Inr (0, document)
           else let row = dsetdefault ''sample_attempts'' (PDict []) row in
             bindE (as_dict (dgetn row ''sample_attempts'')) (\<lambda>attempts.
             bindE (int_field attempts k 0) (\<lambda>n.
             let row = dupdate row
               [(''sample_attempts'', PDict (dset k (PInt (n + 1)) attempts)),
                (''sample_last_error'', PStr (take 500 message)), (''sample_last_attempt_at'', PStr (start_clock clk))] in
               Inr (n + 1, put_rows (rows[i := PDict row]) (stamp_clock clk) document)))))"

definition record_sample_attempt ::
  "bool \<Rightarrow> state_file \<Rightarrow> string \<Rightarrow> string \<Rightarrow> string \<Rightarrow> string \<Rightarrow> row_clock \<Rightarrow> int res \<times> state_file" where
  "record_sample_attempt lk f t oid k message clk =
     (if k \<notin> set interval_labels then (Inl (ValueError ''unsupported observation interval''), f)
      else observation_update lk f t (record_sample_attempt_mutate oid k message clk))"


section \<open>Samples\<close>

record sample_result =
  result_observation :: string
  result_interval :: string
  result_proceeds :: "int option"
  result_error :: "string option"
  result_at :: "f64 option"
  result_latency :: "f64 option"

text \<open>\<open>round((int(proceeds) / entry_cost - 1) * 100, 4)\<close>, when there is a price and a cost.\<close>

definition sample_return :: "int option \<Rightarrow> int \<Rightarrow> f64 option res" where
  "sample_return proceeds entry_cost = (case proceeds of
     Some p \<Rightarrow> (if 0 < entry_cost
       then bindE (int_truediv p entry_cost) (\<lambda>x. Inr (Some (f64_round (f64_mul (f64_sub x (Fin 1)) (Fin 100)) 4)))
       else Inr None)
   | None \<Rightarrow> Inr None)"

definition sample_latency :: "f64 option \<Rightarrow> f64 option" where
  "sample_latency latency = (case latency of
     None \<Rightarrow> None
   | Some x \<Rightarrow> (case finite_or_none (PFloat x) of
       None \<Rightarrow> None | Some q \<Rightarrow> (if q < 0 then None else Some (f64_round (Fin q) 4))))"

definition sample_dict :: "sample_result \<Rightarrow> f64 option \<Rightarrow> f64 \<Rightarrow> f64 \<Rightarrow> string \<Rightarrow> dict" where
  "sample_dict r ret epoch target t =
     [(''interval'', PStr (result_interval r)), (''proceeds_lamports'', opt_int (result_proceeds r)),
      (''return_percent'', opt_float ret),
      (''error'', case result_error r of None \<Rightarrow> PNone | Some e \<Rightarrow> if e = [] then PNone else PStr (take 500 e)),
      (''sampled_at'', PStr t), (''target_at_epoch'', PFloat target), (''sampled_at_epoch'', PFloat epoch),
      (''sample_lag_seconds'', PFloat (f64_round (f64_max (Fin 0) (f64_sub epoch target)) 4)),
      (''quote_latency_ms'', opt_float (sample_latency (result_latency r)))]"

fun observed_returns :: "py list \<Rightarrow> f64 list res" where
  "observed_returns [] = Inr []"
| "observed_returns (v # vs) = (case v of
     PDict d \<Rightarrow> (if dgetn d ''return_percent'' = PNone then observed_returns vs
       else bindE (py_float (dgetn d ''return_percent'')) (\<lambda>x. bindE (observed_returns vs) (\<lambda>xs. Inr (x # xs))))
   | _ \<Rightarrow> observed_returns vs)"

text \<open>\<open>max([0.0, *returns])\<close> and \<open>min([0.0, *returns])\<close>: a later element replaces an earlier one it exceeds.\<close>

definition highest :: "f64 list \<Rightarrow> f64" where "highest xs = fold (\<lambda>x best. f64_max best x) xs (Fin 0)"
definition lowest :: "f64 list \<Rightarrow> f64" where "lowest xs = fold (\<lambda>x best. f64_min best x) xs (Fin 0)"

definition with_excursions :: "f64 list \<Rightarrow> dict \<Rightarrow> dict" where
  "with_excursions returns row =
     (let mfe = (if returns = [] then PNone else PFloat (highest returns));
          mae = (if returns = [] then PNone else PFloat (lowest returns)) in
      dupdate row [(''mfe_percent'', mfe), (''mae_percent'', mae), (''max_return_percent'', mfe), (''min_return_percent'', mae)])"

text \<open>\<open>_apply_sample_to_document\<close> on the row of the sample: \<open>None\<close> when the row does not take it.  The clock
  gives the time of a result without one, and the text of the completion.\<close>

definition apply_sample_row :: "sample_result \<Rightarrow> f64 \<Rightarrow> string \<Rightarrow> dict \<Rightarrow> dict option res" where
  "apply_sample_row r now t row =
     (if terminal_text row then Inr None
      else case dget_or row ''samples'' (PList []) of
        PList samples \<Rightarrow>
          (if has_interval (result_interval r) samples then Inr None
           else bindE (int_field row ''entry_cost_lamports'' 0) (\<lambda>entry_cost.
             bindE (sample_return (result_proceeds r) entry_cost) (\<lambda>ret.
             let epoch = (case result_at r of None \<Rightarrow> now | Some x \<Rightarrow> x) in
             case map_of OBSERVATION_INTERVALS (result_interval r) of
               None \<Rightarrow> Inl (KeyError (result_interval r))
             | Some delay \<Rightarrow>
                 bindE (float_field row ''started_at_epoch'' (PInt 0)) (\<lambda>started.
                 let target = f64_add started (Fin (of_int delay)) in
                 bindE (utc_isoformat epoch) (\<lambda>at_text.
                 let samples = samples @ [PDict (sample_dict r ret epoch target at_text)];
                     row = dset ''samples'' (PList samples) row;
                     row = (if result_interval r = ''1m'' \<and> dgetn row ''candidate_v2_eligible'' = PBool True
                       then dset ''candidate_v2_early_failure'' (case ret of None \<Rightarrow> PNone
                              | Some x \<Rightarrow> PBool (f64_le x CANDIDATE_V2_EARLY_FAILURE_PERCENT)) row
                       else row) in
                 bindE (observed_returns samples) (\<lambda>returns.
                 let row = with_excursions returns row in
                   Inr (Some (if intervals_covered row samples
                     then (let row = dset ''status'' (PStr ''COMPLETE'') row in
                           if truthy (dgetn row ''completed_at'') then row
                           else dset ''completed_at'' (PStr t) row)
                     else row))))))))
      | _ \<Rightarrow> Inr None)"

record sample_clock =
  row_times :: row_clock
  epoch_times :: "nat \<Rightarrow> f64"
  done_times :: "nat \<Rightarrow> string"

definition apply_sample_result ::
  "sample_clock \<Rightarrow> py list \<times> (sample_result \<times> nat) list \<Rightarrow> nat \<times> sample_result
   \<Rightarrow> (py list \<times> (sample_result \<times> nat) list) res" where
  "apply_sample_result clk st k_r = (case (st, k_r) of ((rows, applied), (k, r)) \<Rightarrow>
     (case find_observation (result_observation r) rows of
        None \<Rightarrow> Inr (rows, applied)
      | Some (i, row) \<Rightarrow> bindE (apply_sample_row r (epoch_times clk k) (done_times clk k) row) (\<lambda>new.
          case new of None \<Rightarrow> Inr (rows, applied)
          | Some row \<Rightarrow> Inr (rows[i := PDict row], applied @ [(r, i)]))))"

definition apply_samples ::
  "sample_clock \<Rightarrow> sample_result list \<Rightarrow> py list \<Rightarrow> (py list \<times> (sample_result \<times> nat) list) res" where
  "apply_samples clk results rows = foldE (apply_sample_result clk) (rows, []) (List.enumerate 0 results)"

record applied_sample =
  applied_result :: sample_result
  applied_mint :: string
  applied_route :: string
  completed_snapshot :: "dict option"

text \<open>What is reported of a result: the row as it is at the end of the transaction.\<close>

definition report_applied :: "py list \<Rightarrow> sample_result \<times> nat \<Rightarrow> applied_sample" where
  "report_applied rows r_i = (case r_i of (r, i) \<Rightarrow>
     (let row = (case rows ! i of PDict row \<Rightarrow> row | _ \<Rightarrow> []) in
      \<lparr>applied_result = r, applied_mint = py_str (dget_or row ''mint'' (PStr [])),
       applied_route = py_str (dget_or row ''route_type'' (PStr [])),
       completed_snapshot = (if upper (str_field row ''status'' (PStr [])) = ''COMPLETE'' then Some row else None)\<rparr>))"

definition record_sample_batch_mutate :: "sample_result list \<Rightarrow> sample_clock \<Rightarrow> applied_sample list mutator" where
  "record_sample_batch_mutate results clk = with_rows (row_times clk) (\<lambda>rows document.
     bindE (apply_samples clk results rows) (\<lambda>(rows, applied).
       if applied = [] then Inr ([], document)
       else bindE (expire_observation_backlog (expire_clock (row_times clk)) rows) (\<lambda>expired.
            bindE (retain_rows (row_times clk) expired document) (\<lambda>document.
              Inr (map (report_applied expired) applied, document)))))"

definition record_sample_batch_applied ::
  "bool \<Rightarrow> state_file \<Rightarrow> string \<Rightarrow> sample_result list \<Rightarrow> sample_clock \<Rightarrow> applied_sample list res \<times> state_file" where
  "record_sample_batch_applied lk f t results clk =
     (if results = [] then (Inr [], f)
      else if OBSERVATION_SAMPLE_BATCH_SIZE < length results
      then (Inl (ValueError ''observation sample batch exceeds bounded size''), f)
      else if list_ex (\<lambda>r. result_interval r \<notin> set interval_labels) results
      then (Inl (ValueError ''unsupported observation interval''), f)
      else observation_update lk f t (record_sample_batch_mutate results clk))"

text \<open>The rows \<open>_emit_sample_side_effects\<close> hands to the shadow trades: one for each observation that
  completed.\<close>

fun completed_snapshots :: "string list \<Rightarrow> applied_sample list \<Rightarrow> dict list" where
  "completed_snapshots seen [] = []"
| "completed_snapshots seen (a # as) = (case completed_snapshot a of
     None \<Rightarrow> completed_snapshots seen as
   | Some row \<Rightarrow> (if result_observation (applied_result a) \<in> set seen then completed_snapshots seen as
       else row # completed_snapshots (result_observation (applied_result a) # seen) as))"

section \<open>Interrupted discoveries\<close>

definition interrupted_row :: "f64 \<Rightarrow> f64 \<Rightarrow> dict \<Rightarrow> bool" where
  "interrupted_row now grace row \<longleftrightarrow>
     upper (str_field row ''status'' (PStr [])) = ''DISCOVERED''
     \<and> upper (str_field row ''decision_status'' (PStr [])) = ''DISCOVERED''
     \<and> upper (str_field row ''quote_status'' (PStr [])) = ''NOT_REQUESTED''
     \<and> dgetn row ''tracking_profile'' = PStr ''research_v1_60m''
     \<and> dgetn row ''analysis_completed_at'' = PNone \<and> dgetn row ''entry_quote_at'' = PNone
     \<and> dgetn row ''decision_reasons'' = PList [] \<and> dgetn row ''samples'' = PList []
     \<and> dgetn row ''sample_attempts'' \<in> {PDict [], PNone}
     \<and> dgetn row ''paper_experiment_position_id'' = PNone \<and> dgetn row ''candidate_v2_position_id'' = PNone
     \<and> upper (str_field row ''paper_experiment_status'' (PStr ''NOT_EVALUATED'')) = ''NOT_EVALUATED''
     \<and> (case finite_or_none (dgetn row ''started_at_epoch'') of
          None \<Rightarrow> False | Some s \<Rightarrow> \<not> f64_lt (f64_sub now (Fin s)) grace)"

definition reconciled_row :: "string \<Rightarrow> dict \<Rightarrow> dict" where
  "reconciled_row t row = dupdate row
     [(''status'', PStr ''COMPLETE''), (''decision_status'', PStr ''INTERRUPTED''),
      (''decision_reasons'', PList [PStr DISCOVERY_PROCESSING_INTERRUPTED]),
      (''quote_status'', PStr ''PROCESSING_FAILED''), (''research_decision'', PStr ''SHADOW''),
      (''paper_experiment_status'', PStr ''NOT_ELIGIBLE''), (''candidate_v2_paper_status'', PStr ''NOT_ELIGIBLE''),
      (''reconciled_at'', PStr t), (''reconciliation_reason'', PStr DISCOVERY_PROCESSING_INTERRUPTED),
      (''completed_at'', PStr t)]"

definition reconcile_row :: "f64 \<Rightarrow> f64 \<Rightarrow> py \<Rightarrow> (bool \<times> py) res" where
  "reconcile_row now grace v = (case v of
     PDict row \<Rightarrow> (if interrupted_row now grace row
       then bindE (utc_isoformat now) (\<lambda>t. Inr (True, PDict (reconciled_row t row))) else Inr (False, v))
   | _ \<Rightarrow> Inr (False, v))"

text \<open>The migrator; the number of rows it closes is what the function returns.\<close>

definition reconcile_mutate :: "f64 \<Rightarrow> f64 \<Rightarrow> row_clock \<Rightarrow> (bool \<times> nat) mutator" where
  "reconcile_mutate now grace clk document =
     bindE (migrate_observation_document (migrate_clock clk) document) (\<lambda>(changed, document).
     bindE (observation_rows document) (\<lambda>rows.
     bindE (mapE (reconcile_row now grace) rows) (\<lambda>rows.
     let n = length (filter fst rows) in
       Inr ((changed \<or> n \<noteq> 0, n),
            if n = 0 then document else put_rows (map snd rows) (stamp_clock clk) document))))"

definition reconcile_interrupted_discoveries ::
  "bool \<Rightarrow> state_file \<Rightarrow> string \<Rightarrow> f64 \<Rightarrow> f64 \<Rightarrow> row_clock \<Rightarrow> nat res \<times> state_file" where
  "reconcile_interrupted_discoveries lk f t now grace_seconds clk =
     (let grace = f64_max (Fin 60) grace_seconds;
          migrator = (\<lambda>document. bindE (reconcile_mutate now grace clk document) (\<lambda>((changed, _), document).
             Inr (changed, document)));
          count = bindE (read_json ''signal_observations.json'' f (empty_observations t)) (\<lambda>document.
             bindE (reconcile_mutate now grace clk document) (\<lambda>((_, n), _). Inr n)) in
      case migrate_json ''signal_observations.json'' lk f (empty_observations t) migrator of
        (Inl e, f') \<Rightarrow> (Inl e, f') | (Inr _, f') \<Rightarrow> (count, f'))"

end
