(* ===== verification/ObservationLedger.thy ===== *)
theory ObservationLedger
  imports ObservationRecords
begin

text \<open>
  What the operations on the observation ledger guarantee (\<open>src/observation_tracker.py\<close>): they keep the
  document readable and lose no row that is not archived; the decision on a candidate, its samples and
  the close of an interrupted one.
\<close>

section \<open>Well-formed rows\<close>

lemma check_row_Inr: "check_row row = Inr samples \<longleftrightarrow> dgetn row ''samples'' = PList samples
    \<and> is_dict (dgetn row ''sample_attempts'') \<and> is_dict (dgetn row ''safety_metrics'')
    \<and> is_list (dgetn row ''decision_reasons'') \<and> is_dict (dgetn row ''discovery_metadata'')"
  by (cases "dgetn row ''samples''") (auto simp: check_row_def)

lemma current_row_iff: "current_row row \<longleftrightarrow> list_all (dhas row) default_keys
    \<and> (\<exists>samples. dgetn row ''samples'' = PList samples
         \<and> (row_status row = ''PENDING'' \<longrightarrow> \<not> intervals_covered row samples))
    \<and> is_dict (dgetn row ''sample_attempts'') \<and> is_dict (dgetn row ''safety_metrics'')
    \<and> is_list (dgetn row ''decision_reasons'') \<and> is_dict (dgetn row ''discovery_metadata'')"
  by (auto simp: current_row_def check_row_Inr)

lemma dhas_dupdate: "dhas row k \<Longrightarrow> dhas (dupdate row kvs) k"
  by (simp add: dhas_def dget_dupdate split: option.split)

lemma default_keys_eq: "default_keys = [''strategy_version'', ''strategy_variants'', ''safety_metrics'',
   ''paper_experiment_status'', ''paper_experiment_position_id'', ''candidate_v2_paper_status'',
   ''candidate_v2_position_id'', ''sample_attempts'', ''samples'', ''decision_status'', ''decision_reasons'',
   ''quote_status'', ''discovery_metadata'', ''signal_type'', ''research_decision'', ''mfe_percent'',
   ''mae_percent'', ''excursion_basis'', ''tracking_profile'']"
  by (simp add: default_keys_def row_defaults_def)

lemma row_status_dset [simp]:
  "row_status (dset k v row) = (if k = ''status'' then upper (py_str v) else row_status row)"
  by (simp add: row_status_def)

lemma intervals_uncovered [simp]: "\<not> intervals_covered row []"
  by (simp add: intervals_covered_def required_observation_intervals_def interval_labels_def
      OBSERVATION_INTERVALS_def sample_intervals_def)

text \<open>Reading a payload by the place of a key.\<close>

lemma dget_nth: "distinct (map fst d) \<Longrightarrow> i < length d \<Longrightarrow> d ! i = (k, v) \<Longrightarrow> dget d k = Some v"
  by (metis in_set_dget nth_mem)

lemma dhas_keys: "dhas d k \<longleftrightarrow> k \<in> set (map fst d)"
  by (auto simp: dhas_def dget_def map_of_eq_None_iff)

lemma dget_None_keys: "dget d k = None \<longleftrightarrow> k \<notin> set (map fst d)"
  by (auto simp: dget_def map_of_eq_None_iff)

definition discovery_keys :: "string list" where
  "discovery_keys = [''observation_id'', ''mint'', ''route_type'', ''signal_type'', ''research_decision'',
    ''source_wallet'', ''source_signature'', ''safety_score'', ''entry_cost_lamports'',
    ''token_amount_raw'', ''token_decimals'', ''entry_price_impact_pct'', ''exit_price_impact_pct'',
    ''expected_slippage_bps'', ''dex_momentum_score'', ''strategy_version'', ''strategy_variants'',
    ''safety_metrics'', ''momentum_metrics'', ''candidate_v2_eligible'',
    ''candidate_v2_filter_reasons'', ''candidate_v2_early_failure'', ''candidate_v2_paper_status'',
    ''candidate_v2_position_id'', ''paper_experiment_status'', ''paper_experiment_position_id'',
    ''decision_status'', ''decision_reasons'', ''quote_status'', ''discovery_metadata'',
    ''signal_detected_at'', ''analysis_completed_at'', ''entry_quote_at'', ''entry_latency_ms'',
    ''started_at_epoch'', ''started_at'', ''samples'', ''sample_attempts'', ''mfe_percent'',
    ''mae_percent'', ''excursion_basis'', ''tracking_profile'', ''status'']"

lemma discovery_keys: "map fst (discovery_base c started_at t metadata) = discovery_keys"
  by (simp add: discovery_base_def Let_def discovery_keys_def)

lemma discovery_keys_distinct: "distinct discovery_keys"
  by code_simp

lemma discovery_keys_default: "list_all (\<lambda>k. k \<in> set discovery_keys) default_keys"
  unfolding default_keys_eq by code_simp

lemma discovery_length: "length (discovery_base c started_at t metadata) = 43"
  using arg_cong [OF discovery_keys, of length] by (simp only: length_map) (simp add: discovery_keys_def)

lemma discovery_nth: "i < 43 \<Longrightarrow> discovery_base c started_at t metadata ! i = (k, v) \<Longrightarrow> dget (discovery_base c started_at t metadata) k = Some v"
  by (rule dget_nth) (simp_all add: discovery_keys discovery_keys_distinct discovery_length)

lemma discovery_get:
  "dget (discovery_base c started_at t metadata) ''observation_id'' = Some (PStr (observation_id_of (found_signature c) (found_wallet c) (found_mint c)))"
  "dget (discovery_base c started_at t metadata) ''status'' = Some (PStr ''DISCOVERED'')"
  "dget (discovery_base c started_at t metadata) ''candidate_v2_eligible'' = Some (PBool False)"
  "dget (discovery_base c started_at t metadata) ''samples'' = Some (PList [])"
  "dget (discovery_base c started_at t metadata) ''sample_attempts'' = Some (PDict [])"
  "dget (discovery_base c started_at t metadata) ''safety_metrics'' = Some (PDict [])"
  "dget (discovery_base c started_at t metadata) ''decision_reasons'' = Some (PList [])"
  "dget (discovery_base c started_at t metadata) ''discovery_metadata'' = Some (PDict metadata)"
  by - ((rule discovery_nth [where i = 0]; simp add: discovery_base_def Let_def), (rule discovery_nth [where i = 42]; simp add: discovery_base_def Let_def), (rule discovery_nth [where i = 19]; simp add: discovery_base_def Let_def), (rule discovery_nth [where i = 36]; simp add: discovery_base_def Let_def), (rule discovery_nth [where i = 37]; simp add: discovery_base_def Let_def), (rule discovery_nth [where i = 17]; simp add: discovery_base_def Let_def), (rule discovery_nth [where i = 27]; simp add: discovery_base_def Let_def), (rule discovery_nth [where i = 29]; simp add: discovery_base_def Let_def))

lemma discovery_base_row:
  "current_row (discovery_base c started_at t metadata)"
  "dgetn (discovery_base c started_at t metadata) ''observation_id''
    = PStr (observation_id_of (found_signature c) (found_wallet c) (found_mint c))"
  "dgetn (discovery_base c started_at t metadata) ''status'' = PStr ''DISCOVERED''"
  "dgetn (discovery_base c started_at t metadata) ''candidate_v2_eligible'' = PBool False"
proof -
  have "list_all (dhas (discovery_base c started_at t metadata)) default_keys"
    using discovery_keys_default by (auto simp: dhas_keys discovery_keys list_all_iff simp del: set_map)
  then show "current_row (discovery_base c started_at t metadata)"
    by (simp add: current_row_iff discovery_get)
qed (simp_all add: discovery_get)

lemma discovery_payload_row:
  assumes "discovery_payload c started_at t = Inr payload"
  shows "current_row payload" "dgetn payload ''observation_id''
    = PStr (observation_id_of (found_signature c) (found_wallet c) (found_mint c))"
    "dgetn payload ''status'' = PStr ''DISCOVERED''" "dgetn payload ''candidate_v2_eligible'' = PBool False"
  using assms discovery_base_row
  by (auto simp: discovery_payload_def with_collection_def bindE_eq_Inr checked_keys_def intro!: current_row_dset)

lemma finalized_row_ok:
  assumes "current_row row"
  shows "current_row (finalized_row c metrics t row)" "same_observation row (finalized_row c metrics t row)"
  using assms
  by (auto simp: finalized_row_def dupdate_def current_row_iff list_all_iff short_reasons_def
      same_observation_def archived_row_def)

definition decision_keys :: "string list" where
  "decision_keys = [''observation_id'', ''mint'', ''route_type'', ''signal_type'', ''research_decision'',
    ''source_wallet'', ''source_signature'', ''safety_score'', ''entry_cost_lamports'',
    ''token_amount_raw'', ''token_decimals'', ''entry_price_impact_pct'', ''exit_price_impact_pct'',
    ''expected_slippage_bps'', ''dex_momentum_score'', ''strategy_version'', ''strategy_variants'',
    ''safety_metrics'', ''momentum_metrics'', ''candidate_v2_eligible'',
    ''candidate_v2_filter_reasons'', ''candidate_v2_early_failure'', ''candidate_v2_paper_status'',
    ''candidate_v2_position_id'', ''paper_experiment_status'', ''paper_experiment_position_id'',
    ''signal_detected_at'', ''analysis_completed_at'', ''entry_quote_at'', ''entry_latency_ms'',
    ''copy_price_gap_pct'', ''started_at_epoch'', ''started_at'', ''samples'', ''sample_attempts'',
    ''mfe_percent'', ''mae_percent'', ''excursion_basis'', ''tracking_profile'', ''status'',
    ''decision_status'', ''decision_reasons'', ''quote_status'', ''discovery_metadata'']"

lemma decision_keys: "map fst (decision_payload q s t e v m) = decision_keys"
  by (simp add: decision_payload_def Let_def decision_keys_def)

lemma decision_keys_distinct: "distinct decision_keys"
  by code_simp

lemma decision_keys_default: "list_all (\<lambda>k. k \<in> set decision_keys) default_keys"
  unfolding default_keys_eq by code_simp

lemma decision_keys_absent: "list_all (\<lambda>k. k \<notin> set decision_keys)
   [''archive_schema_version'', ''archived_at'', ''completed_at'', ''prospective_feature_collection'']"
  by code_simp

lemma decision_length: "length (decision_payload q s t e v m) = 44"
  using arg_cong [OF decision_keys, of length] by (simp only: length_map) (simp add: decision_keys_def)

lemma decision_nth: "i < 44 \<Longrightarrow> decision_payload q s t e v m ! i = (k, v') \<Longrightarrow> dget (decision_payload q s t e v m) k = Some v'"
  by (rule dget_nth) (simp_all add: decision_keys decision_keys_distinct decision_length)

lemma decision_payload_get:
  "dget (decision_payload q s t e v m) ''samples'' = Some (PList [])"
  "dget (decision_payload q s t e v m) ''sample_attempts'' = Some (PDict [])"
  "dget (decision_payload q s t e v m) ''safety_metrics'' = Some (PDict m)"
  "dget (decision_payload q s t e v m) ''decision_reasons'' = Some (short_reasons (quoted_reasons q))"
  "dget (decision_payload q s t e v m) ''discovery_metadata'' = Some (case e of None \<Rightarrow> PDict []
       | Some row \<Rightarrow> dget_or row ''discovery_metadata'' (PDict []))"
  "dget (decision_payload q s t e v m) ''observation_id'' = Some 
       (PStr (observation_id_of (quoted_signature q) (quoted_wallet q) (quoted_mint q)))"
  "dget (decision_payload q s t e v m) ''candidate_v2_eligible'' = Some (PBool (fst v))"
  "dget (decision_payload q s t e v m) ''mint'' = Some (PStr (quoted_mint q))"
  "dget (decision_payload q s t e v m) ''started_at_epoch'' = Some (case e of None \<Rightarrow> PFloat s
       | Some row \<Rightarrow> dget_or row ''started_at_epoch'' (PFloat s))"
  "dget (decision_payload q s t e v m) ''status'' = Some (PStr ''PENDING'')"
  by - ((rule decision_nth [where i = 33]; simp add: decision_payload_def Let_def), (rule decision_nth [where i = 34]; simp add: decision_payload_def Let_def), (rule decision_nth [where i = 17]; simp add: decision_payload_def Let_def), (rule decision_nth [where i = 41]; simp add: decision_payload_def Let_def), (rule decision_nth [where i = 43]; simp add: decision_payload_def Let_def), (rule decision_nth [where i = 0]; simp add: decision_payload_def Let_def), (rule decision_nth [where i = 19]; simp add: decision_payload_def Let_def), (rule decision_nth [where i = 1]; simp add: decision_payload_def Let_def), (rule decision_nth [where i = 31]; simp add: decision_payload_def Let_def), (rule decision_nth [where i = 39]; simp add: decision_payload_def Let_def))

lemma decision_payload_absent:
  "dget (decision_payload q s t e v m) ''archive_schema_version'' = None"
  "dget (decision_payload q s t e v m) ''archived_at'' = None"
  "dget (decision_payload q s t e v m) ''completed_at'' = None"
  "dget (decision_payload q s t e v m) ''prospective_feature_collection'' = None"
  using decision_keys_absent by (simp_all add: dget_None_keys decision_keys)

lemma decision_payload_distinct: "distinct (map fst (decision_payload q s t e v m))"
  by (simp only: decision_keys decision_keys_distinct)

lemma decision_payload_row: "current_row (decision_payload q s t None v m)"
proof -
  have "list_all (dhas (decision_payload q s t None v m)) default_keys"
    using decision_keys_default by (auto simp: dhas_keys decision_keys list_all_iff simp del: set_map)
  then show ?thesis by (simp add: current_row_iff decision_payload_get short_reasons_def)
qed

text \<open>The row of a decision: a fresh one, or the one of the discovery with the payload over it.\<close>

lemma with_collection_get:
  "k \<noteq> ''prospective_feature_collection'' \<Longrightarrow> dget (with_collection c p) k = dget p k"
  "distinct (map fst p) \<Longrightarrow> distinct (map fst (with_collection c p))"
  by (simp_all add: with_collection_def)

lemma dget_dupdate_distinct:
  "distinct (map fst kvs) \<Longrightarrow> dget (dupdate d kvs) k = (case dget kvs k of None \<Rightarrow> dget d k | Some v \<Rightarrow> Some v)"
  by (simp add: dget_dupdate dget_rev_distinct)

lemma decided_row_get:
  fixes row q s t e v m c
  defines "row' \<equiv> dupdate row (with_collection c (decision_payload q s t e v m))"
  assumes "k \<noteq> ''prospective_feature_collection''"
  shows "dget row' k = (case dget (decision_payload q s t e v m) k of None \<Rightarrow> dget row k | Some x \<Rightarrow> Some x)"
  unfolding row'_def
  by (simp add: dget_dupdate_distinct with_collection_get assms(2) decision_payload_distinct)

lemma decided_row_ok:
  fixes row q s t v m c
  defines "row' \<equiv> dupdate row (with_collection c (decision_payload q s t (Some row) v m))"
  assumes "current_row row"
  shows "current_row row'"
    and "dgetn row ''observation_id'' = PStr (observation_id_of (quoted_signature q) (quoted_wallet q) (quoted_mint q))
      \<Longrightarrow> same_observation row row'"
proof -
  have m: "is_dict (dget_or row ''discovery_metadata'' (PDict []))"
    using assms(2) by (cases "dget row ''discovery_metadata''") (auto simp: current_row_iff)
  have k: "list_all (dhas row') default_keys"
    using assms(2) unfolding row'_def by (auto simp: current_row_iff list_all_iff intro: dhas_dupdate)
  show "current_row row'"
    unfolding current_row_iff
    using k m unfolding row'_def
    by (simp add: dgetn_def dget_or_def decided_row_get decision_payload_get short_reasons_def)
  show "same_observation row row'"
    if "dgetn row ''observation_id'' = PStr (observation_id_of (quoted_signature q) (quoted_wallet q) (quoted_mint q))"
    using that unfolding row'_def same_observation_def archived_row_def
    by (simp add: dgetn_def dget_or_def decided_row_get decision_payload_get decision_payload_absent)
qed

lemma linked_row_ok:
  assumes "current_row row"
  shows "current_row (linked_row status position row)" "same_observation row (linked_row status position row)"
  using assms by (simp_all add: linked_row_def Let_def current_row_dset checked_keys_def same_observation_def archived_row_def)

section \<open>Every operation is a transaction of the ledger\<close>

lemma find_observation_Some:
  "find_observation oid rows = Some (i, row) \<Longrightarrow> i < length rows \<and> rows ! i = PDict row \<and> dgetn row ''observation_id'' = PStr oid"
  by (induction rows arbitrary: i) (auto split: py.splits if_splits)

lemma with_rows_current: "current_document d \<Longrightarrow> with_rows clk body d = body (ledger_rows d) d"
  by (simp add: with_rows_def migrate_current observation_rows_current)

lemma retain_rows_ok:
  assumes "retain_rows clk rows d = Inr d'" "current_document d" "current_rows rows"
  shows "current_document d'" "keeps_unarchived rows (ledger_rows d')"
  using assms by (auto simp: retain_rows_def bindE_eq_Inr intro: put_rows_current retain_current retain_keeps_unarchived)

lemma current_schema_ok: "current_document d \<Longrightarrow> current_document (current_schema d)"
  by (auto simp: current_document_def current_schema_def int_field_def py_or_def OBSERVATION_SCHEMA_VERSION_def)

lemma expire_and_retain_ok:
  assumes "expire_and_retain clk rows d = Inr d'" "current_document d" "current_rows rows"
  shows "current_document d'" "keeps_unarchived rows (ledger_rows d')"
proof -
  obtain rows1 where e: "expire_observation_backlog (expire_clock clk) rows = Inr rows1" "retain_rows clk rows1 d = Inr d'"
    using assms(1) by (auto simp: expire_and_retain_def retain_rows_def bindE_eq_Inr)
  note r = retain_rows_ok [OF e(2) assms(2) expire_current [OF e(1) assms(3)]]
  show "current_document d'" "keeps_unarchived rows (ledger_rows d')"
    using r keeps_unarchived_trans [OF expire_keeps_unarchived [OF e(1)]] by blast+
qed

lemma current_rows_update:
  "current_rows rows \<Longrightarrow> current_row row \<Longrightarrow> current_rows (rows[i := PDict row])"
  using set_update_subset_insert [of rows i "PDict row"] by (auto simp: current_rows_def)

lemma current_rows_append: "current_rows rows \<Longrightarrow> current_row row \<Longrightarrow> current_rows (rows @ [PDict row])"
  by (auto simp: current_rows_def)

lemma current_rows_nth: "current_rows rows \<Longrightarrow> i < length rows \<Longrightarrow> rows ! i = PDict row \<Longrightarrow> current_row row"
  by (auto simp: current_rows_def dest!: nth_mem)


lemma current_ledger: "current_document d \<Longrightarrow> current_rows (ledger_rows d)"
  by (simp add: current_document_rows)

text \<open>A row that an operation replaces by a well-formed row of the same observation.\<close>

lemma replace_row_ok:
  assumes "current_document d" "find_observation oid (ledger_rows d) = Some (i, row)"
    and "current_row row'" "same_observation row row'"
  shows "current_rows ((ledger_rows d)[i := PDict row'])"
    "keeps_unarchived (ledger_rows d) ((ledger_rows d)[i := PDict row'])"
  using assms find_observation_Some [OF assms(2)]
  by (auto intro: current_rows_update current_ledger keeps_unarchived_update)

lemma found_current:
  "current_document d \<Longrightarrow> find_observation oid (ledger_rows d) = Some (i, row) \<Longrightarrow> current_row row"
  using current_rows_nth [OF current_ledger] find_observation_Some by blast

interpretation discovery_step: observation_transaction "record_candidate_discovery_mutate c started_at clk"
  for c started_at clk
proof
  fix d r d'
  assume d: "current_document d" and s: "record_candidate_discovery_mutate c started_at clk d = Inr (r, d')"
  let ?oid = "observation_id_of (found_signature c) (found_wallet c) (found_mint c)"
  have "current_document d' \<and> keeps_unarchived (ledger_rows d) (ledger_rows d')"
  proof (cases "find_observation ?oid (ledger_rows d)")
    case (Some p)
    then have "d' = d"
      using s d by (cases p) (auto simp: record_candidate_discovery_mutate_def with_rows_current Let_def bindE_eq_Inr)
    then show ?thesis using d keeps_unarchived_refl by simp
  next
    case None
    then obtain payload where p: "discovery_payload c started_at (start_clock clk) = Inr payload"
      "expire_and_retain clk (ledger_rows d @ [PDict payload]) (current_schema d) = Inr d'"
      using s d by (auto simp: record_candidate_discovery_mutate_def with_rows_current Let_def bindE_eq_Inr)
    note e = expire_and_retain_ok [OF p(2) current_schema_ok [OF d]
        current_rows_append [OF current_ledger [OF d] discovery_payload_row(1) [OF p(1)]]]
    show ?thesis using e keeps_unarchived_trans [OF keeps_unarchived_append] by blast
  qed
  then show "current_document d'" "keeps_unarchived (ledger_rows d) (ledger_rows d')" by blast+
qed

interpretation closing_step: observation_transaction "finalize_candidate_mutate oid c clk" for oid c clk
proof
  fix d r d'
  assume d: "current_document d" and s: "finalize_candidate_mutate oid c clk d = Inr (r, d')"
  have "current_document d' \<and> keeps_unarchived (ledger_rows d) (ledger_rows d')"
  proof (cases "find_observation oid (ledger_rows d)")
    case None
    then have "d' = d" using s d by (simp add: finalize_candidate_mutate_def with_rows_current)
    then show ?thesis using d keeps_unarchived_refl by simp
  next
    case (Some p)
    then obtain i row where f: "find_observation oid (ledger_rows d) = Some (i, row)" by (cases p) auto
    then obtain metrics where m: "retain_rows clk
        ((ledger_rows d)[i := PDict (finalized_row c metrics (start_clock clk) row)]) d = Inr d'"
      using s d by (auto simp: finalize_candidate_mutate_def with_rows_current bindE_eq_Inr)
    note r = replace_row_ok [OF d f finalized_row_ok [OF found_current [OF d f]]]
    show ?thesis using retain_rows_ok [OF m d r(1)] keeps_unarchived_trans [OF r(2)] by blast
  qed
  then show "current_document d'" "keeps_unarchived (ledger_rows d) (ledger_rows d')" by blast+
qed

interpretation link_step: observation_transaction "mark_paper_experiment_mutate oid status position clk"
  for oid status position clk
proof
  fix d r d'
  assume d: "current_document d" and s: "mark_paper_experiment_mutate oid status position clk d = Inr (r, d')"
  have "current_document d' \<and> keeps_unarchived (ledger_rows d) (ledger_rows d')"
  proof (cases "find_observation oid (ledger_rows d)")
    case None
    then have "d' = d" using s d by (simp add: mark_paper_experiment_mutate_def with_rows_current)
    then show ?thesis using d keeps_unarchived_refl by simp
  next
    case (Some p)
    then obtain i row where f: "find_observation oid (ledger_rows d) = Some (i, row)" by (cases p) auto
    then have m: "retain_rows clk ((ledger_rows d)[i := PDict (linked_row status position row)]) d = Inr d'"
      using s d by (auto simp: mark_paper_experiment_mutate_def with_rows_current bindE_eq_Inr)
    note r = replace_row_ok [OF d f linked_row_ok [OF found_current [OF d f]]]
    show ?thesis using retain_rows_ok [OF m d r(1)] keeps_unarchived_trans [OF r(2)] by blast
  qed
  then show "current_document d'" "keeps_unarchived (ledger_rows d) (ledger_rows d')" by blast+
qed

lemma decide_rows_Inr:
  assumes "decide_rows q started_at clk found rows d = Inr (r, d')"
  obtains v c m where "candidate_verdict q started_at rows = Inr v"
    "expire_and_retain clk (case found of
         Some (i, row) \<Rightarrow> rows[i := PDict (dupdate row (with_collection c
            (decision_payload q started_at (start_clock clk) (map_option snd found) v m)))]
       | None \<Rightarrow> rows @ [PDict (with_collection c
            (decision_payload q started_at (start_clock clk) (map_option snd found) v m))]) (current_schema d) = Inr d'"
    "decision_eligible r = fst v" "decision_created r"
    "upper (quoted_decision q) \<in> {''APPROVED'', ''REJECTED''}"
proof -
  have u: "upper (quoted_decision q) \<in> {''APPROVED'', ''REJECTED''}"
    using assms by (auto simp: decide_rows_def Let_def split: if_splits)
  obtain v where v: "candidate_verdict q started_at rows = Inr v"
    using assms u by (cases "candidate_verdict q started_at rows") (auto simp: decide_rows_def Let_def)
  obtain c where c: "decision_collection q (map_option snd found) = Inr c"
    using assms u by (cases "decision_collection q (map_option snd found)") (auto simp: decide_rows_def Let_def v)
  obtain m where m: "normalized_safety_metrics (quoted_safety q) = Inr m"
    using assms u by (cases "normalized_safety_metrics (quoted_safety q)") (auto simp: decide_rows_def Let_def v c)
  note vcm = v c m
  have "\<exists>d1. expire_and_retain clk (case found of
         Some (i, row) \<Rightarrow> rows[i := PDict (dupdate row (with_collection c
            (decision_payload q started_at (start_clock clk) (map_option snd found) v m)))]
       | None \<Rightarrow> rows @ [PDict (with_collection c
            (decision_payload q started_at (start_clock clk) (map_option snd found) v m))]) (current_schema d) = Inr d1
      \<and> d' = d1 \<and> decision_eligible r = fst v \<and> decision_created r"
    using assms u by (auto simp: decide_rows_def Let_def vcm bindE_eq_Inr)
  then show ?thesis using that vcm(1) u by blast
qed

lemma decide_rows_ok:
  assumes "current_document d" "decide_rows q started_at clk found (ledger_rows d) d = Inr (r, d')"
    and "found = find_observation (observation_id_of (quoted_signature q) (quoted_wallet q) (quoted_mint q)) (ledger_rows d)"
  shows "current_document d' \<and> keeps_unarchived (ledger_rows d) (ledger_rows d')"
proof -
  let ?rows = "ledger_rows d"
  obtain v c m where e: "expire_and_retain clk
      (case found of Some (i, row) \<Rightarrow>
           ?rows[i := PDict (dupdate row (with_collection c (decision_payload q started_at (start_clock clk) (map_option snd found) v m)))]
       | None \<Rightarrow> ?rows @ [PDict (with_collection c (decision_payload q started_at (start_clock clk) (map_option snd found) v m))])
      (current_schema d) = Inr d'"
    by (rule decide_rows_Inr [OF assms(2)]) blast
  show ?thesis
  proof (cases found)
    case None
    have "current_row (with_collection c (decision_payload q started_at (start_clock clk) None v m))"
      using decision_payload_row [of q started_at "start_clock clk" v m]
      by (simp add: with_collection_def checked_keys_def current_row_dset)
    note r = current_rows_append [OF current_ledger [OF assms(1)] this]
    show ?thesis
      using expire_and_retain_ok [OF e [unfolded None, simplified] current_schema_ok [OF assms(1)] r]
        keeps_unarchived_trans [OF keeps_unarchived_append] by blast
  next
    case (Some p)
    then obtain i row where f: "found = Some (i, row)" by (cases p) auto
    note g = f [unfolded assms(3)]
    note k = decided_row_ok [OF found_current [OF assms(1) g], where q = q and s = started_at
        and t = "start_clock clk" and v = v and m = m and c = c]
    note r = replace_row_ok [OF assms(1) g k(1) k(2)]
    show ?thesis
      using expire_and_retain_ok [OF e [unfolded f, simplified] current_schema_ok [OF assms(1)] r(1)]
        keeps_unarchived_trans [OF r(2)] find_observation_Some [OF g] by blast
  qed
qed

interpretation decision_step: observation_transaction "record_observation_decision_mutate q started_at clk"
  for q started_at clk
proof
  fix d r d'
  assume d: "current_document d" and s: "record_observation_decision_mutate q started_at clk d = Inr (r, d')"
  let ?f = "find_observation (observation_id_of (quoted_signature q) (quoted_wallet q) (quoted_mint q)) (ledger_rows d)"
  have "d' = d \<or> decide_rows q started_at clk ?f (ledger_rows d) d = Inr (r, d')"
    using s d by (auto simp: record_observation_decision_mutate_def with_rows_current Let_def bindE_eq_Inr
        split: option.splits if_splits)
  then have "current_document d' \<and> keeps_unarchived (ledger_rows d) (ledger_rows d')"
    using decide_rows_ok [OF d] d keeps_unarchived_refl by auto
  then show "current_document d'" "keeps_unarchived (ledger_rows d) (ledger_rows d')" by blast+
qed


lemma attempt_row_ok:
  assumes "current_row row"
  shows "current_row (dupdate (dsetdefault ''sample_attempts'' (PDict []) row)
      [(''sample_attempts'', PDict a), (''sample_last_error'', x), (''sample_last_attempt_at'', y)])"
    "same_observation row (dupdate (dsetdefault ''sample_attempts'' (PDict []) row)
      [(''sample_attempts'', PDict a), (''sample_last_error'', x), (''sample_last_attempt_at'', y)])"
proof -
  have d: "dsetdefault ''sample_attempts'' (PDict []) row = row"
    using assms by (intro row_default_has) (auto simp: current_row_iff dhas_def dgetn_def dget_or_def split: option.splits)
  show "current_row (dupdate (dsetdefault ''sample_attempts'' (PDict []) row)
      [(''sample_attempts'', PDict a), (''sample_last_error'', x), (''sample_last_attempt_at'', y)])"
    "same_observation row (dupdate (dsetdefault ''sample_attempts'' (PDict []) row)
      [(''sample_attempts'', PDict a), (''sample_last_error'', x), (''sample_last_attempt_at'', y)])"
    using assms unfolding d
    by (auto simp: dupdate_def current_row_iff list_all_iff same_observation_def archived_row_def
        intervals_covered_def required_observation_intervals_def)
qed

interpretation attempt_step: observation_transaction "record_sample_attempt_mutate oid k message clk"
  for oid k message clk
proof
  fix d r d'
  assume d: "current_document d" and s: "record_sample_attempt_mutate oid k message clk d = Inr (r, d')"
  have "current_document d' \<and> keeps_unarchived (ledger_rows d) (ledger_rows d')"
  proof (cases "find_observation oid (ledger_rows d)")
    case None
    then have "d' = d" using s d by (simp add: record_sample_attempt_mutate_def with_rows_current)
    then show ?thesis using d keeps_unarchived_refl by simp
  next
    case (Some p)
    then obtain i row where f: "find_observation oid (ledger_rows d) = Some (i, row)" by (cases p) auto
    define touched where "touched n a = dupdate (dsetdefault ''sample_attempts'' (PDict []) row)
        [(''sample_attempts'', PDict (dset k (PInt (n + 1)) a)), (''sample_last_error'', PStr (take 500 message)),
         (''sample_last_attempt_at'', PStr (start_clock clk))]" for n a
    have "d' = d \<or> (\<exists>n a. d' = put_rows ((ledger_rows d)[i := PDict (touched n a)]) (stamp_clock clk) d)"
      using s d f by (auto simp: record_sample_attempt_mutate_def with_rows_current bindE_eq_Inr Let_def touched_def
          split: if_splits)
    moreover have "current_document (put_rows ((ledger_rows d)[i := PDict (touched n a)]) (stamp_clock clk) d)
        \<and> keeps_unarchived (ledger_rows d) ((ledger_rows d)[i := PDict (touched n a)])" for n a
      using replace_row_ok [OF d f attempt_row_ok [OF found_current [OF d f]]] put_rows_current [OF d]
      by (simp add: touched_def)
    ultimately show ?thesis using d keeps_unarchived_refl by auto
  qed
  then show "current_document d'" "keeps_unarchived (ledger_rows d) (ledger_rows d')" by blast+
qed

section \<open>A sample on a row\<close>

text \<open>The row after a sample: the sample is appended, the excursions follow from all returns, and the row is
  complete when the intervals of its profile are covered.\<close>

definition sampled_row :: "sample_result \<Rightarrow> f64 option \<Rightarrow> dict \<Rightarrow> f64 list \<Rightarrow> string \<Rightarrow> dict \<Rightarrow> py list \<Rightarrow> dict" where
  "sampled_row r ret new returns t row samples =
     (let row = dset ''samples'' (PList (samples @ [PDict new])) row;
          row = (if result_interval r = ''1m'' \<and> dgetn row ''candidate_v2_eligible'' = PBool True
            then dset ''candidate_v2_early_failure'' (case ret of None \<Rightarrow> PNone
                   | Some x \<Rightarrow> PBool (f64_le x CANDIDATE_V2_EARLY_FAILURE_PERCENT)) row
            else row);
          row = with_excursions returns row
      in if intervals_covered row (samples @ [PDict new])
         then (let row = dset ''status'' (PStr ''COMPLETE'') row in
               if truthy (dgetn row ''completed_at'') then row else dset ''completed_at'' (PStr t) row)
         else row)"

lemma apply_sample_row_Some:
  assumes "apply_sample_row r now t row = Inr (Some row')"
  obtains samples cost ret delay started iso returns where
    "\<not> terminal_text row" "dget_or row ''samples'' (PList []) = PList samples"
    "\<not> has_interval (result_interval r) samples"
    "int_field row ''entry_cost_lamports'' 0 = Inr cost" "sample_return (result_proceeds r) cost = Inr ret"
    "map_of OBSERVATION_INTERVALS (result_interval r) = Some delay"
    "float_field row ''started_at_epoch'' (PInt 0) = Inr started"
    "utc_isoformat (case result_at r of None \<Rightarrow> now | Some x \<Rightarrow> x) = Inr iso"
    "observed_returns (samples @ [PDict (sample_dict r ret (case result_at r of None \<Rightarrow> now | Some x \<Rightarrow> x)
        (f64_add started (Fin (of_int delay))) iso)]) = Inr returns"
    "row' = sampled_row r ret (sample_dict r ret (case result_at r of None \<Rightarrow> now | Some x \<Rightarrow> x)
        (f64_add started (Fin (of_int delay))) iso) returns t row samples"
proof -
  have nt: "\<not> terminal_text row" using assms by (auto simp: apply_sample_row_def)
  obtain samples where s: "dget_or row ''samples'' (PList []) = PList samples"
    using assms nt by (auto simp: apply_sample_row_def split: py.splits)
  have nh: "\<not> has_interval (result_interval r) samples" using assms nt s by (auto simp: apply_sample_row_def)
  obtain cost where c: "int_field row ''entry_cost_lamports'' 0 = Inr cost"
    using assms nt s nh by (auto simp: apply_sample_row_def bindE_eq_Inr)
  obtain ret where q: "sample_return (result_proceeds r) cost = Inr ret"
    using assms nt s nh c by (cases "sample_return (result_proceeds r) cost") (auto simp: apply_sample_row_def)
  obtain delay where dl: "map_of OBSERVATION_INTERVALS (result_interval r) = Some delay"
    using assms nt s nh c q by (auto simp: apply_sample_row_def Let_def split: option.splits)
  obtain started where st: "float_field row ''started_at_epoch'' (PInt 0) = Inr started"
    using assms nt s nh c q dl
    by (cases "float_field row ''started_at_epoch'' (PInt 0)") (auto simp: apply_sample_row_def Let_def)
  define epoch where "epoch = (case result_at r of None \<Rightarrow> now | Some x \<Rightarrow> x)"
  obtain iso where x: "utc_isoformat epoch = Inr iso"
    using assms nt s nh c q dl st
    by (cases "utc_isoformat epoch") (auto simp: apply_sample_row_def Let_def epoch_def [symmetric])
  define new where "new = sample_dict r ret epoch (f64_add started (Fin (of_int delay))) iso"
  obtain returns where rs: "observed_returns (samples @ [PDict new]) = Inr returns"
    using assms nt s nh c q dl st x
    by (cases "observed_returns (samples @ [PDict new])")
      (auto simp: apply_sample_row_def Let_def epoch_def [symmetric] new_def [symmetric])
  have "row' = sampled_row r ret new returns t row samples"
    using assms unfolding apply_sample_row_def sampled_row_def
    by (simp only: nt s nh c q dl st x rs Let_def epoch_def [symmetric] new_def [symmetric] if_False py.case option.case
        bindE_simps sum.inject option.inject)
  with that nt s nh c q dl st x rs show ?thesis unfolding epoch_def new_def by blast
qed


lemma with_excursions_get:
  "dget (with_excursions returns row) k =
     (if k \<in> {''mfe_percent'', ''max_return_percent''} then Some (if returns = [] then PNone else PFloat (highest returns))
      else if k \<in> {''mae_percent'', ''min_return_percent''} then Some (if returns = [] then PNone else PFloat (lowest returns))
      else dget row k)"
  by (simp add: with_excursions_def Let_def dupdate_def)

lemma intervals_covered_cong:
  "dgetn row ''tracking_profile'' = dgetn row' ''tracking_profile'' \<Longrightarrow> intervals_covered row xs = intervals_covered row' xs"
  by (simp add: intervals_covered_def required_observation_intervals_def)

lemma sampled_row_get:
  fixes r ret new returns t row samples
  defines "row' \<equiv> sampled_row r ret new returns t row samples"
    and "covered \<equiv> intervals_covered row (samples @ [PDict new])"
  shows "dget row' ''samples'' = Some (PList (samples @ [PDict new]))"
    "dget row' ''mfe_percent'' = Some (if returns = [] then PNone else PFloat (highest returns))"
    "dget row' ''mae_percent'' = Some (if returns = [] then PNone else PFloat (lowest returns))"
    "dget row' ''status'' = (if covered then Some (PStr ''COMPLETE'') else dget row ''status'')"
    "k \<notin> {''samples'', ''candidate_v2_early_failure'', ''mfe_percent'', ''mae_percent'', ''max_return_percent'',
       ''min_return_percent'', ''status'', ''completed_at''} \<Longrightarrow> dget row' k = dget row k"
proof -
  let ?row1 = "with_excursions returns (if result_interval r = ''1m'' \<and> dgetn row ''candidate_v2_eligible'' = PBool True
      then dset ''candidate_v2_early_failure'' (case ret of None \<Rightarrow> PNone
             | Some x \<Rightarrow> PBool (f64_le x CANDIDATE_V2_EARLY_FAILURE_PERCENT))
             (dset ''samples'' (PList (samples @ [PDict new])) row)
      else dset ''samples'' (PList (samples @ [PDict new])) row)"
  have c: "intervals_covered ?row1 (samples @ [PDict new]) = covered"
    unfolding covered_def by (intro intervals_covered_cong) (simp add: dgetn_def dget_or_def with_excursions_get)
  have r: "row' = (if covered then (let row = dset ''status'' (PStr ''COMPLETE'') ?row1 in
               if truthy (dgetn row ''completed_at'') then row else dset ''completed_at'' (PStr t) row) else ?row1)"
    unfolding row'_def sampled_row_def Let_def using c by simp
  show "dget row' ''samples'' = Some (PList (samples @ [PDict new]))"
    "dget row' ''mfe_percent'' = Some (if returns = [] then PNone else PFloat (highest returns))"
    "dget row' ''mae_percent'' = Some (if returns = [] then PNone else PFloat (lowest returns))"
    "dget row' ''status'' = (if covered then Some (PStr ''COMPLETE'') else dget row ''status'')"
    "k \<notin> {''samples'', ''candidate_v2_early_failure'', ''mfe_percent'', ''mae_percent'', ''max_return_percent'',
       ''min_return_percent'', ''status'', ''completed_at''} \<Longrightarrow> dget row' k = dget row k"
    unfolding r Let_def by (simp_all add: with_excursions_get)
qed

lemma sampled_row_has: "dhas row k \<Longrightarrow> dhas (sampled_row r ret new returns t row samples) k"
  by (simp add: sampled_row_def with_excursions_def Let_def dhas_dupdate)

lemma sampled_row_ok:
  assumes "current_row row" "row' = sampled_row r ret new returns t row samples"
  shows "current_row row'" "same_observation row row'"
proof -
  have g: "dgetn row' k = dgetn row k" if "k \<notin> {''samples'', ''candidate_v2_early_failure'', ''mfe_percent'', ''mae_percent'',
      ''max_return_percent'', ''min_return_percent'', ''status'', ''completed_at''}" for k
    using that by (simp add: assms(2) dgetn_def dget_or_def sampled_row_get)
  have k: "list_all (dhas row') default_keys"
    using assms(1) by (auto simp: current_row_iff list_all_iff assms(2) intro: sampled_row_has)
  have s: "dgetn row' ''samples'' = PList (samples @ [PDict new])" by (simp add: assms(2) sampled_row_get)
  have c: "intervals_covered row' (samples @ [PDict new]) = intervals_covered row (samples @ [PDict new])"
    by (intro intervals_covered_cong g) simp
  have "row_status row' = ''PENDING'' \<longrightarrow> \<not> intervals_covered row' (samples @ [PDict new])"
  proof (cases "intervals_covered row (samples @ [PDict new])")
    case True
    then have "dget row' ''status'' = Some (PStr ''COMPLETE'')" by (simp add: assms(2) sampled_row_get)
    then show ?thesis by simp
  qed (simp add: c)
  then show "current_row row'" using k s assms(1) unfolding current_row_iff by (simp add: g)
  show "same_observation row row'" by (simp add: same_observation_def archived_row_def g)
qed

lemma apply_sample_row_ok:
  assumes "apply_sample_row r now t row = Inr (Some row')" "current_row row"
  shows "current_row row'" "same_observation row row'"
  by (rule apply_sample_row_Some [OF assms(1)], erule sampled_row_ok [OF assms(2)])+

section \<open>A batch of samples\<close>

lemma apply_samples_ok:
  assumes "apply_samples clk results rows = Inr (rows', applied)" "current_rows rows"
  shows "current_rows rows'" "keeps_unarchived rows rows'"
    "\<And>r i. (r, i) \<in> set applied \<Longrightarrow> i < length rows'" "length rows' = length rows" "length applied \<le> length results"
proof -
  define P where "P st \<longleftrightarrow> current_rows (fst st) \<and> keeps_unarchived rows (fst st) \<and> length (fst st) = length rows
     \<and> (\<forall>(r, i) \<in> set (snd st). i < length rows)" for st :: "py list \<times> (sample_result \<times> nat) list"
  have step: "P st'" if p: "P st" and step: "apply_sample_result clk st kr = Inr st'" for kr st st'
  proof -
    obtain rows1 ap k r where e: "st = (rows1, ap)" "kr = (k, r)" by (cases st, cases kr) auto
    show ?thesis
    proof (cases "st' = st")
      case False
      then obtain i row row' where f: "find_observation (result_observation r) rows1 = Some (i, row)"
        "apply_sample_row r (epoch_times clk k) (done_times clk k) row = Inr (Some row')"
        "st' = (rows1[i := PDict row'], ap @ [(r, i)])"
        using step unfolding e apply_sample_result_def
        by (auto simp: bindE_eq_Inr split: option.splits)
      have c: "current_rows rows1" "keeps_unarchived rows rows1" "length rows1 = length rows"
        "\<forall>(r, i) \<in> set ap. i < length rows" using p by (auto simp: P_def e)
      note i = find_observation_Some [OF f(1)]
      have row: "current_row row" using current_rows_nth [OF c(1)] i by blast
      note ok = apply_sample_row_ok [OF f(2) row]
      have "keeps_unarchived rows1 (rows1[i := PDict row'])" using i keeps_unarchived_update [OF _ _ ok(2)] by blast
      then show ?thesis
        using c i current_rows_update [OF c(1) ok(1)] keeps_unarchived_trans [OF c(2)]
        by (auto simp: P_def f(3))
    qed (simp add: p)
  qed
  have "P (rows, [])" using assms(2) by (simp add: P_def keeps_unarchived_refl)
  then have "P (rows', applied)"
    using assms(1) unfolding apply_samples_def by (rule_tac foldE_invariant [where P = P]) (auto intro: step)
  then show "current_rows rows'" "keeps_unarchived rows rows'" "length rows' = length rows"
    "\<And>r i. (r, i) \<in> set applied \<Longrightarrow> i < length rows'" by (auto simp: P_def)
  have "foldE (apply_sample_result clk) st krs = Inr st' \<Longrightarrow> length (snd st') \<le> length (snd st) + length krs" for krs st st'
  proof (induction krs arbitrary: st)
    case (Cons kr krs)
    then obtain st1 where s: "apply_sample_result clk st kr = Inr st1" "foldE (apply_sample_result clk) st1 krs = Inr st'"
      by (auto simp: bindE_eq_Inr)
    have "length (snd st1) \<le> Suc (length (snd st))"
      using s(1) by (cases st; cases kr) (auto simp: apply_sample_result_def bindE_eq_Inr split: option.splits)
    then show ?case using Cons.IH [OF s(2)] by simp
  qed simp
  from this [OF assms(1) [unfolded apply_samples_def]] show "length applied \<le> length results" by simp
qed

interpretation batch_step: observation_transaction "record_sample_batch_mutate results clk" for results clk
proof
  fix d r d'
  assume d: "current_document d" and s: "record_sample_batch_mutate results clk d = Inr (r, d')"
  have "\<exists>rows applied. apply_samples clk results (ledger_rows d) = Inr (rows, applied)
      \<and> (d' = d \<or> expire_and_retain (row_times clk) rows d = Inr d')"
    using s d by (auto simp: record_sample_batch_mutate_def with_rows_current bindE_eq_Inr expire_and_retain_def
        retain_rows_def split: if_splits)
  then obtain rows applied where a: "apply_samples clk results (ledger_rows d) = Inr (rows, applied)"
    "d' = d \<or> expire_and_retain (row_times clk) rows d = Inr d'" by blast
  note ok = apply_samples_ok [OF a(1) current_ledger [OF d]]
  have "current_document d' \<and> keeps_unarchived (ledger_rows d) (ledger_rows d')"
    using a(2) expire_and_retain_ok [OF _ d ok(1), of "row_times clk" d'] keeps_unarchived_trans [OF ok(2)]
      d keeps_unarchived_refl by auto
  then show "current_document d'" "keeps_unarchived (ledger_rows d) (ledger_rows d')" by blast+
qed


section \<open>The close of interrupted discoveries\<close>

lemma reconciled_row_ok:
  assumes "current_row row"
  shows "current_row (reconciled_row t row)" "same_observation row (reconciled_row t row)"
  using assms
  by (auto simp: reconciled_row_def dupdate_def current_row_iff list_all_iff same_observation_def archived_row_def)

lemma reconcile_rows:
  assumes "mapE (reconcile_row now grace) rows = Inr new" "current_rows rows"
  shows "current_rows (map snd new) \<and> keeps_unarchived rows (map snd new)"
proof -
  have l: "length new = length rows" by (rule mapE_length [OF assms(1)])
  have n: "\<exists>row row'. rows ! i = PDict row \<and> snd (new ! i) = PDict row' \<and> current_row row' \<and> same_observation row row'"
    if i: "i < length rows" for i
  proof -
    obtain row where r: "rows ! i = PDict row" "current_row row"
      using assms(2) i by (auto simp: current_rows_def dest!: nth_mem)
    have m: "reconcile_row now grace (rows ! i) = Inr (new ! i)" by (rule mapE_nth [OF assms(1) i])
    show ?thesis
    proof (cases "interrupted_row now grace row")
      case True
      then obtain t where "(True, PDict (reconciled_row t row)) = new ! i"
        using m r by (auto simp: reconcile_row_def bindE_eq_Inr)
      then have "new ! i = (True, PDict (reconciled_row t row))" by (rule sym)
      then show ?thesis using r reconciled_row_ok [OF r(2)] by auto
    next
      case False
      then have "new ! i = (False, PDict row)" using m r by (simp add: reconcile_row_def)
      then show ?thesis using r by (auto simp: same_observation_def)
    qed
  qed
  have "current_rows (map snd new)"
    unfolding current_rows_def
  proof
    fix v assume "v \<in> set (map snd new)"
    then obtain i where "i < length rows" "v = snd (new ! i)" using l by (auto simp: in_set_conv_nth)
    then show "\<exists>row. v = PDict row \<and> current_row row" using n [of i] by auto
  qed
  moreover have "keeps_unarchived rows (map snd new)"
    unfolding keeps_unarchived_def
  proof (intro allI impI)
    fix row assume r: "PDict row \<in> set rows \<and> \<not> archived_row row"
    then obtain i where i: "i < length rows" "rows ! i = PDict row" by (auto simp: in_set_conv_nth)
    have "snd (new ! i) \<in> set (map snd new)" using i l by simp
    moreover obtain row' where "snd (new ! i) = PDict row'" "same_observation row row'" using n [OF i(1)] i by auto
    ultimately have "PDict row' \<in> set (map snd new) \<and> \<not> archived_row row'
        \<and> dgetn row' ''observation_id'' = dgetn row ''observation_id''" using r by (simp add: same_observation_def)
    then show "\<exists>row'. PDict row' \<in> set (map snd new) \<and> \<not> archived_row row'
        \<and> dgetn row' ''observation_id'' = dgetn row ''observation_id''" by blast
  qed
  ultimately show ?thesis by blast
qed

lemma reconcile_mutate_ok:
  assumes "current_document d" "reconcile_mutate now grace clk d = Inr ((changed, n), d')"
  shows "current_document d' \<and> keeps_unarchived (ledger_rows d) (ledger_rows d') \<and> (changed \<longleftrightarrow> n \<noteq> 0)"
proof -
  obtain new where m: "mapE (reconcile_row now grace) (ledger_rows d) = Inr new" and n: "n = length (filter fst new)"
    and c: "changed \<longleftrightarrow> n \<noteq> 0"
    and d': "d' = (if n = 0 then d else put_rows (map snd new) (stamp_clock clk) d)"
    using assms by (auto simp: reconcile_mutate_def migrate_current observation_rows_current bindE_eq_Inr Let_def)
  note ok = reconcile_rows [OF m current_ledger [OF assms(1)]]
  have "current_document (put_rows (map snd new) (stamp_clock clk) d)" using ok by (intro put_rows_current assms(1)) simp
  then show ?thesis using ok c assms(1) keeps_unarchived_refl by (auto simp: d')
qed

lemma reconcile_commit:
  assumes "reconcile_interrupted_discoveries lk (Content (PDict d)) t now g clk = (res, f')" "current_document d"
  shows "\<exists>d'. f' = Content (PDict d') \<and> current_document d' \<and> keeps_unarchived (ledger_rows d) (ledger_rows d')"
proof (cases "f' = Content (PDict d)")
  case True
  then show ?thesis using assms(2) keeps_unarchived_refl by blast
next
  case False
  let ?g = "f64_max (Fin 60) g"
  obtain c n d1 v where r: "reconcile_mutate now ?g clk d = Inr ((c, n), d1)" and f: "f' = Content (PDict (dset ''version'' (PInt v) d1))"
    using assms(1) False
    by (auto simp: reconcile_interrupted_discoveries_def migrate_json_def Let_def locked_def bindE_eq_Inr
        split: sum.splits prod.splits if_splits)
  note ok = reconcile_mutate_ok [OF assms(2) r]
  have "current_document (dset ''version'' (PInt v) d1)"
    using ok by (simp add: current_document_def int_field_def dget_or_def)
  moreover have "ledger_rows (dset ''version'' (PInt v) d1) = ledger_rows d1" by (simp add: ledger_rows_def)
  ultimately show ?thesis using ok f by auto
qed

section \<open>Any sequence of operations\<close>

text \<open>The operations of the monitor and the observer on the ledger, with the outcome of each lock and the
  clock of each transaction.\<close>

datatype ledger_call =
    Discover bool string discovery f64 row_clock
  | Finalize bool string string closing row_clock
  | Decide bool string quoted_signal f64 row_clock
  | LinkPaper bool string string string "string option" row_clock
  | CountAttempt bool string string string string row_clock
  | StoreSamples bool string "sample_result list" sample_clock
  | Reconcile bool string f64 f64 row_clock

fun observation_call :: "ledger_call \<Rightarrow> state_file \<Rightarrow> state_file" where
  "observation_call (Discover lk t c now clk) f = snd (record_candidate_discovery lk f t c now clk)"
| "observation_call (Finalize lk t oid c clk) f = snd (finalize_candidate_without_quote lk f t oid c clk)"
| "observation_call (Decide lk t q now clk) f = snd (record_observation_decision lk f t q now clk)"
| "observation_call (LinkPaper lk t oid status pos clk) f = snd (mark_paper_experiment_status lk f t oid status pos clk)"
| "observation_call (CountAttempt lk t oid k message clk) f = snd (record_sample_attempt lk f t oid k message clk)"
| "observation_call (StoreSamples lk t results clk) f = snd (record_sample_batch_applied lk f t results clk)"
| "observation_call (Reconcile lk t now g clk) f = snd (reconcile_interrupted_discoveries lk f t now g clk)"

lemma observation_call_ok:
  assumes "current_document d"
  shows "\<exists>d'. observation_call c (Content (PDict d)) = Content (PDict d') \<and> current_document d'
     \<and> keeps_unarchived (ledger_rows d) (ledger_rows d')"
proof -
  have same: "\<exists>d'. Content (PDict d) = Content (PDict d') \<and> current_document d' \<and> keeps_unarchived (ledger_rows d) (ledger_rows d')"
    using assms keeps_unarchived_refl by blast
  show ?thesis
  proof (cases c)
    case (Discover lk t x now clk)
    then show ?thesis using discovery_step.commit [OF surjective_pairing assms]
      by (simp add: record_candidate_discovery_def)
  next
    case (Finalize lk t oid x clk)
    then show ?thesis using closing_step.commit [OF surjective_pairing assms] same
      by (simp add: finalize_candidate_without_quote_def)
  next
    case (Decide lk t q now clk)
    then show ?thesis using decision_step.commit [OF surjective_pairing assms] same
      by (simp add: record_observation_decision_def)
  next
    case (LinkPaper lk t oid status pos clk)
    then show ?thesis using link_step.commit [OF surjective_pairing assms] same
      by (simp add: mark_paper_experiment_status_def)
  next
    case (CountAttempt lk t oid k message clk)
    then show ?thesis using attempt_step.commit [OF surjective_pairing assms] same
      by (simp add: record_sample_attempt_def)
  next
    case (StoreSamples lk t results clk)
    then show ?thesis using batch_step.commit [OF surjective_pairing assms] same
      by (simp add: record_sample_batch_applied_def)
  next
    case (Reconcile lk t now g clk)
    then show ?thesis using reconcile_commit [OF surjective_pairing assms] by simp
  qed
qed

text \<open>C22: from a ledger of the current schema, no sequence of operations, whatever their arguments, their
  clocks and the outcomes of their locks, leaves a ledger a reader rejects, and none loses an
  observation that is not in the research archive: its identifier is still in the ledger, not archived.\<close>

theorem operations_keep_the_observation_ledger:
  assumes "current_document d"
  shows "\<exists>d'. fold observation_call calls (Content (PDict d)) = Content (PDict d')
     \<and> read_observations_snapshot (Content (PDict d')) t now = Inr d'
     \<and> (\<forall>row. PDict row \<in> set (ledger_rows d) \<and> \<not> archived_row row \<longrightarrow>
          (\<exists>row'. PDict row' \<in> set (ledger_rows d') \<and> \<not> archived_row row'
             \<and> dgetn row' ''observation_id'' = dgetn row ''observation_id''))"
proof -
  have "\<exists>d'. fold observation_call calls (Content (PDict d)) = Content (PDict d') \<and> current_document d'
     \<and> keeps_unarchived (ledger_rows d) (ledger_rows d')"
    using assms
  proof (induction calls arbitrary: d)
    case (Cons c calls)
    obtain d1 where d1: "observation_call c (Content (PDict d)) = Content (PDict d1)" "current_document d1"
      "keeps_unarchived (ledger_rows d) (ledger_rows d1)" using observation_call_ok [OF Cons.prems] by blast
    show ?case using Cons.IH [OF d1(2)] d1 keeps_unarchived_trans [OF d1(3)] by auto
  qed (auto intro: keeps_unarchived_refl)
  then show ?thesis
    unfolding keeps_unarchived_def by (auto simp: read_observations_snapshot_def migrate_current)
qed


section \<open>The candidates of the second strategy\<close>

lemma mint_seen_False:
  assumes "mint_seen m now rows = Inr False" "PDict row \<in> set rows" "dgetn row ''mint'' = PStr m"
    "dgetn row ''candidate_v2_eligible'' = PBool True"
  shows "\<exists>started. float_field row ''started_at_epoch'' (PInt 0) = Inr started
     \<and> \<not> f64_lt (f64_sub now started) (Fin 86400)"
  using assms
  by (induction m now rows rule: mint_seen.induct)
    (auto simp: bindE_eq_Inr CANDIDATE_V2_MINT_COOLDOWN_SECONDS_def split: py.splits if_splits)

text \<open>C24: a decision makes a candidate of the second strategy eligible only for an approved signal of route B
  whose momentum is at least 90 and below 100, and only when every row of the ledger that made the same
  mint eligible began at least 24 hours before.\<close>

theorem one_eligible_candidate_per_mint_and_day:
  assumes "current_document d" "record_observation_decision_mutate q now clk d = Inr (r, d')"
    and "decision_created r" "decision_eligible r"
  shows "quoted_route q = ''B'' \<and> upper (quoted_decision q) = ''APPROVED''
     \<and> f64_le (Fin 90) (float_or_zero (quoted_momentum q)) \<and> f64_lt (float_or_zero (quoted_momentum q)) (Fin 100)
     \<and> (\<forall>row. PDict row \<in> set (ledger_rows d) \<and> dgetn row ''mint'' = PStr (quoted_mint q)
          \<and> dgetn row ''candidate_v2_eligible'' = PBool True \<longrightarrow>
          (\<exists>started. float_field row ''started_at_epoch'' (PInt 0) = Inr started
             \<and> \<not> f64_lt (f64_sub now started) (Fin 86400)))"
proof -
  let ?f = "find_observation (observation_id_of (quoted_signature q) (quoted_wallet q) (quoted_mint q)) (ledger_rows d)"
  have "decide_rows q now clk ?f (ledger_rows d) d = Inr (r, d')"
    using assms(1-3) by (auto simp: record_observation_decision_mutate_def with_rows_current Let_def bindE_eq_Inr
        existing_decision_def split: option.splits if_splits)
  then obtain v where v: "candidate_verdict q now (ledger_rows d) = Inr v" "decision_eligible r = fst v"
    by (rule decide_rows_Inr)
  then have "mint_seen (quoted_mint q) now (ledger_rows d) = Inr False \<and> quoted_route q = ''B''
      \<and> upper (quoted_decision q) = ''APPROVED'' \<and> f64_le (Fin 90) (float_or_zero (quoted_momentum q))
      \<and> f64_lt (float_or_zero (quoted_momentum q)) (Fin 100)"
    using assms(4) by (auto simp: candidate_verdict_def Let_def bindE_eq_Inr CANDIDATE_V2_MIN_SCORE_def
        CANDIDATE_V2_MAX_SCORE_def split: if_splits)
  then show ?thesis using mint_seen_False by blast
qed

section \<open>What a sample changes\<close>

lemma f64_le_max: "x \<noteq> NaN \<Longrightarrow> b \<noteq> NaN \<Longrightarrow> f64_le x (f64_max b x) \<and> f64_le b (f64_max b x) \<and> f64_max b x \<in> {b, x}"
  by (cases x; cases b) (auto simp: f64_max_def f64_lt_def)

lemma f64_ge_min: "x \<noteq> NaN \<Longrightarrow> b \<noteq> NaN \<Longrightarrow> f64_le (f64_min b x) x \<and> f64_le (f64_min b x) b \<and> f64_min b x \<in> {b, x}"
  by (cases x; cases b) (auto simp: f64_min_def f64_lt_def)

lemma f64_max_NaN [simp]: "f64_max b NaN = b" "f64_min b NaN = b"
  by (cases b; simp add: f64_max_def f64_min_def f64_lt_def)+

lemma f64_le_refl: "x \<noteq> NaN \<Longrightarrow> f64_le x x"
  by (cases x) auto

lemma fold_max_bounds:
  "b \<noteq> NaN \<Longrightarrow> fold (\<lambda>x best. f64_max best x) xs b \<noteq> NaN \<and> f64_le b (fold (\<lambda>x best. f64_max best x) xs b)
     \<and> (\<forall>x \<in> set xs. x \<noteq> NaN \<longrightarrow> f64_le x (fold (\<lambda>x best. f64_max best x) xs b))
     \<and> fold (\<lambda>x best. f64_max best x) xs b \<in> insert b (set xs)"
proof (induction xs arbitrary: b)
  case (Cons x xs)
  have n: "f64_max b x \<noteq> NaN" "f64_le b (f64_max b x)" "x \<noteq> NaN \<Longrightarrow> f64_le x (f64_max b x)" "f64_max b x \<in> {b, x}"
    using Cons.prems f64_le_max [of x b] f64_le_refl [of b] by (cases "x = NaN"; auto)+
  let ?y = "fold (\<lambda>x best. f64_max best x) xs (f64_max b x)"
  have ih: "?y \<noteq> NaN" "f64_le (f64_max b x) ?y" "\<forall>x \<in> set xs. x \<noteq> NaN \<longrightarrow> f64_le x ?y"
    "?y \<in> insert (f64_max b x) (set xs)" using Cons.IH [OF n(1)] by blast+
  have "f64_le b ?y" "x \<noteq> NaN \<Longrightarrow> f64_le x ?y" using n ih(2) f64_le_Fin_trans by blast+
  moreover have "?y \<in> insert b (insert x (set xs))" using ih(4) n(4) by (metis insertE insertI1 insertI2 empty_iff)
  ultimately show ?case using ih(1,3) by simp
qed (simp add: f64_le_refl)

lemma fold_min_bounds:
  "b \<noteq> NaN \<Longrightarrow> fold (\<lambda>x best. f64_min best x) xs b \<noteq> NaN \<and> f64_le (fold (\<lambda>x best. f64_min best x) xs b) b
     \<and> (\<forall>x \<in> set xs. x \<noteq> NaN \<longrightarrow> f64_le (fold (\<lambda>x best. f64_min best x) xs b) x)
     \<and> fold (\<lambda>x best. f64_min best x) xs b \<in> insert b (set xs)"
proof (induction xs arbitrary: b)
  case (Cons x xs)
  have n: "f64_min b x \<noteq> NaN" "f64_le (f64_min b x) b" "x \<noteq> NaN \<Longrightarrow> f64_le (f64_min b x) x" "f64_min b x \<in> {b, x}"
    using Cons.prems f64_ge_min [of x b] f64_le_refl [of b] by (cases "x = NaN"; auto)+
  let ?y = "fold (\<lambda>x best. f64_min best x) xs (f64_min b x)"
  have ih: "?y \<noteq> NaN" "f64_le ?y (f64_min b x)" "\<forall>x \<in> set xs. x \<noteq> NaN \<longrightarrow> f64_le ?y x"
    "?y \<in> insert (f64_min b x) (set xs)" using Cons.IH [OF n(1)] by blast+
  have "f64_le ?y b" "x \<noteq> NaN \<Longrightarrow> f64_le ?y x" using n ih(2) f64_le_Fin_trans by blast+
  moreover have "?y \<in> insert b (insert x (set xs))" using ih(4) n(4) by (metis insertE insertI1 insertI2 empty_iff)
  ultimately show ?case using ih(1,3) by simp
qed (simp add: f64_le_refl)

lemmas highest_bounds = fold_max_bounds [of "Fin 0", folded highest_def, simplified]
lemmas lowest_bounds = fold_min_bounds [of "Fin 0", folded lowest_def, simplified]


lemma sample_dict_interval [simp]: "dget (sample_dict r ret epoch target t) ''interval'' = Some (PStr (result_interval r))"
  by (simp add: sample_dict_def)

text \<open>A sample is taken once.  A row takes it only when it is not finished and has no sample of that
  interval; the sample is appended, the best and the worst return bound every return seen so far and
  zero, and the row is complete exactly when every interval of its profile has a sample; a second result
  for the interval changes nothing.\<close>

theorem sample_is_taken_once:
  assumes "apply_sample_row r now t row = Inr (Some row')"
  shows "\<exists>samples new returns. dget_or row ''samples'' (PList []) = PList samples
     \<and> \<not> terminal_text row \<and> \<not> has_interval (result_interval r) samples
     \<and> dget row' ''samples'' = Some (PList (samples @ [PDict new]))
     \<and> dgetn new ''interval'' = PStr (result_interval r)
     \<and> observed_returns (samples @ [PDict new]) = Inr returns
     \<and> dget row' ''mfe_percent'' = Some (if returns = [] then PNone else PFloat (highest returns))
     \<and> dget row' ''mae_percent'' = Some (if returns = [] then PNone else PFloat (lowest returns))
     \<and> (\<forall>x \<in> set returns. x \<noteq> NaN \<longrightarrow> f64_le (lowest returns) x \<and> f64_le x (highest returns))
     \<and> f64_le (lowest returns) (Fin 0) \<and> f64_le (Fin 0) (highest returns)
     \<and> highest returns \<in> insert (Fin 0) (set returns) \<and> lowest returns \<in> insert (Fin 0) (set returns)
     \<and> dget row' ''status'' = (if intervals_covered row' (samples @ [PDict new]) then Some (PStr ''COMPLETE'')
          else dget row ''status'')
     \<and> (\<forall>r' now' t'. result_interval r' = result_interval r \<longrightarrow> apply_sample_row r' now' t' row' = Inr None)"
proof (rule apply_sample_row_Some [OF assms])
  fix samples cost ret delay started iso returns
  define new where "new = sample_dict r ret (case result_at r of None \<Rightarrow> now | Some x \<Rightarrow> x)
        (f64_add started (Fin (of_int delay))) iso"
  assume h: "\<not> terminal_text row" "dget_or row ''samples'' (PList []) = PList samples"
    "\<not> has_interval (result_interval r) samples"
    and rs: "observed_returns (samples @ [PDict (sample_dict r ret (case result_at r of None \<Rightarrow> now | Some x \<Rightarrow> x)
        (f64_add started (Fin (of_int delay))) iso)]) = Inr returns"
    and row': "row' = sampled_row r ret (sample_dict r ret (case result_at r of None \<Rightarrow> now | Some x \<Rightarrow> x)
        (f64_add started (Fin (of_int delay))) iso) returns t row samples"
  note row' = row' [folded new_def]
  have c: "intervals_covered row' (samples @ [PDict new]) = intervals_covered row (samples @ [PDict new])"
    by (intro intervals_covered_cong) (simp add: row' dgetn_def dget_or_def sampled_row_get)
  have twice: "apply_sample_row r' now' t' row' = Inr None" if "result_interval r' = result_interval r" for r' now' t'
    using that by (simp add: apply_sample_row_def row' dget_or_def sampled_row_get has_interval_def dgetn_def)
      (simp add: new_def)
  have n: "dgetn new ''interval'' = PStr (result_interval r)" by (simp add: new_def dgetn_def dget_or_def)
  have s: "dget row' ''samples'' = Some (PList (samples @ [PDict new]))"
    "dget row' ''mfe_percent'' = Some (if returns = [] then PNone else PFloat (highest returns))"
    "dget row' ''mae_percent'' = Some (if returns = [] then PNone else PFloat (lowest returns))"
    "dget row' ''status'' = (if intervals_covered row' (samples @ [PDict new]) then Some (PStr ''COMPLETE'')
          else dget row ''status'')"
    unfolding c by (simp_all add: row' sampled_row_get)
  show ?thesis
    using h rs [folded new_def] n s twice highest_bounds [of returns] lowest_bounds [of returns]
    by (intro exI [of _ samples] exI [of _ new] exI [of _ returns] conjI) blast+
qed


section \<open>Examples\<close>

definition example_clock :: row_clock where
  "example_clock = \<lparr>migrate_clock = (\<lambda>_. ''t''), expire_clock = (\<lambda>_. ''t''), start_clock = ''t'', stamp_clock = ''t''\<rparr>"

definition example_discovery :: discovery where
  "example_discovery = \<lparr>found_mint = ''m'', found_route = ''b'', found_wallet = ''w'', found_signature = ''s'',
     found_amount = 100, found_decimals = 6, found_at = ''1000'', found_momentum = PInt 95, found_metrics = PNone,
     found_metadata = PNone, found_collection = PNone\<rparr>"

definition example_row :: dict where "example_row = discovery_base example_discovery (Fin 1000) ''t'' []"

definition example_document :: dict where
  "example_document = [(''schema_version'', PInt 5), (''observations'', PList [PDict example_row]), (''version'', PInt 0)]"

definition example_signal :: quoted_signal where
  "example_signal = \<lparr>quoted_mint = ''m'', quoted_route = ''B'', quoted_wallet = ''w'', quoted_signature = ''s'',
     quoted_score = 70, quoted_cost = 1000, quoted_amount = 100, quoted_decimals = 6, quoted_entry_impact = Fin 0,
     quoted_exit_impact = None, quoted_slippage = 50, quoted_momentum = PInt 95, quoted_detected = ''1000'',
     quoted_analyzed = ''a'', quoted_at = ''e'', quoted_latency = 10, quoted_copy_gap = PNone, quoted_metrics = PNone,
     quoted_safety = PNone, quoted_collection = PNone, quoted_decision = ''approved'', quoted_reasons = [],
     quoted_status = ''EXECUTABLE''\<rparr>"

definition example_sample :: sample_result where
  "example_sample = \<lparr>result_observation = ''s:w:m'', result_interval = ''1m'', result_proceeds = Some 1100,
     result_error = None, result_at = Some (Fin 1060), result_latency = Some (Fin 12)\<rparr>"

lemma example_document_current: "current_document example_document"
  using discovery_base_row(1)
  by (simp add: current_document_def example_document_def current_rows_def example_row_def int_field_def dget_or_def
      OBSERVATION_SCHEMA_VERSION_def)

theorem operations_keep_the_observation_ledger_witness:
  "\<exists>d'. fold observation_call [Decide True ''t'' example_signal (Fin 1001) example_clock,
       CountAttempt True ''t'' ''s:w:m'' ''1m'' ''error'' example_clock] (Content (PDict example_document)) = Content (PDict d')
     \<and> (\<exists>row'. PDict row' \<in> set (ledger_rows d') \<and> \<not> archived_row row'
          \<and> dgetn row' ''observation_id'' = PStr ''s:w:m'')"
proof -
  have r: "PDict example_row \<in> set (ledger_rows example_document)"
    by (simp add: ledger_rows_def example_document_def dgetn_def dget_or_def)
  have "dget example_row ''archived_at'' = None"
    unfolding example_row_def dget_None_keys discovery_keys by code_simp
  then have a: "\<not> archived_row example_row" by (simp add: archived_row_def)
  have "dgetn example_row ''observation_id'' = PStr ''s:w:m''"
    by (simp add: example_row_def discovery_base_row example_discovery_def observation_id_of_def)
  then show ?thesis
    using operations_keep_the_observation_ledger [OF example_document_current,
        of "[Decide True ''t'' example_signal (Fin 1001) example_clock,
          CountAttempt True ''t'' ''s:w:m'' ''1m'' ''error'' example_clock]"] r a by fastforce
qed

lemma example_decision:
  "\<exists>r d'. record_observation_decision_mutate example_signal (Fin 1001) example_clock example_document = Inr (r, d')
     \<and> decision_created r \<and> decision_eligible r"
proof -
  have "(case record_observation_decision_mutate example_signal (Fin 1001) example_clock example_document of
      Inr (r, _) \<Rightarrow> decision_created r \<and> decision_eligible r | Inl _ \<Rightarrow> False)"
    by code_simp
  then show ?thesis by (auto split: sum.splits prod.splits)
qed

theorem one_eligible_candidate_per_mint_and_day_witness:
  "quoted_route example_signal = ''B'' \<and> f64_le (Fin 90) (float_or_zero (quoted_momentum example_signal))"
proof -
  obtain r d' where "record_observation_decision_mutate example_signal (Fin 1001) example_clock example_document = Inr (r, d')"
    "decision_created r" "decision_eligible r" using example_decision by blast
  from one_eligible_candidate_per_mint_and_day [OF example_document_current this] show ?thesis by blast
qed

lemma example_sample_taken:
  "\<exists>row'. apply_sample_row example_sample (Fin 0) ''t'' (dset ''entry_cost_lamports'' (PInt 1000) example_row) = Inr (Some row')"
proof -
  have "(case apply_sample_row example_sample (Fin 0) ''t'' (dset ''entry_cost_lamports'' (PInt 1000) example_row) of
      Inr (Some _) \<Rightarrow> True | _ \<Rightarrow> False)"
    by code_simp
  then show ?thesis by (auto split: sum.splits option.splits)
qed

theorem sample_is_taken_once_witness:
  "\<exists>row'. apply_sample_row example_sample (Fin 0) ''t'' (dset ''entry_cost_lamports'' (PInt 1000) example_row) = Inr (Some row')
     \<and> apply_sample_row example_sample (Fin 0) ''t'' row' = Inr None"
proof -
  obtain row' where r: "apply_sample_row example_sample (Fin 0) ''t'' (dset ''entry_cost_lamports'' (PInt 1000) example_row)
      = Inr (Some row')" using example_sample_taken by blast
  show ?thesis using sample_is_taken_once [OF r] r by blast
qed

end
