(* ===== verification/ObservationSampling.thy ===== *)
theory ObservationSampling
  imports ObservationLedger WalletCooldown
begin

text \<open>
  The sampling of observations, \<open>src/observation_tracker.py\<close>: which intervals are due, the bounded batch of
  a cycle with its round robin over the backlog, the price of one sample with its retries, and the cycles
  of the observer, which keep what a busy lock could not store.

  The clock, the quotes, the texts of exceptions, the outcomes of the locks, the steps of other processes
  and the order in which the workers finish are arguments.
\<close>

section \<open>What is due\<close>

record due_sample =
  due_observation :: string
  due_interval :: string
  due_mint :: string
  due_amount :: int
  due_target :: f64

definition horizon_sample_is_missed :: "f64 \<Rightarrow> f64 \<Rightarrow> bool" where
  "horizon_sample_is_missed now_epoch target_at_epoch =
     f64_lt MAX_HORIZON_SAMPLE_LAG_SECONDS (f64_sub now_epoch target_at_epoch)"

definition due_of_row :: "f64 \<Rightarrow> py \<Rightarrow> due_sample list res" where
  "due_of_row now v = (case v of
     PDict row \<Rightarrow>
       (if dgetn row ''status'' \<noteq> PStr ''PENDING'' then Inr []
        else bindE (py_iter (dget_or row ''samples'' (PList []))) (\<lambda>samples.
          bindE (float_field row ''started_at_epoch'' (PInt 0)) (\<lambda>started.
            mapE (\<lambda>(label, delay). bindE (int_field row ''token_amount_raw'' 0) (\<lambda>amount.
                Inr \<lparr>due_observation = py_str (dget_or row ''observation_id'' (PStr [])), due_interval = label,
                  due_mint = py_str (dget_or row ''mint'' (PStr [])), due_amount = amount,
                  due_target = f64_add started (Fin (of_int delay))\<rparr>))
              (filter (\<lambda>(label, delay). label \<notin> set (sample_intervals samples)
                 \<and> f64_le (f64_add started (Fin (of_int delay))) now) OBSERVATION_INTERVALS))))
   | _ \<Rightarrow> Inr [])"

fun index_of :: "string \<Rightarrow> string list \<Rightarrow> nat" where
  "index_of x [] = 0"
| "index_of x (y # ys) = (if x = y then 0 else Suc (index_of x ys))"

definition due_key :: "due_sample \<Rightarrow> f64 \<times> nat \<times> string" where
  "due_key c = (due_target c, index_of (due_interval c) interval_labels, due_observation c)"

definition due_sample_candidates :: "py list \<Rightarrow> f64 \<Rightarrow> due_sample list res" where
  "due_sample_candidates rows now = bindE (mapE (due_of_row now) rows) (\<lambda>due. Inr (sort_key due_key (concat due)))"

section \<open>The batch of a cycle\<close>

text \<open>The queues of the backlog, one for each observation in the order of its first candidate.  A queue is
  never empty: its head and the rest.\<close>

type_synonym 'a queues = "(string \<times> 'a \<times> 'a list) list"

fun enqueue :: "string \<Rightarrow> 'a \<Rightarrow> 'a queues \<Rightarrow> 'a queues" where
  "enqueue k x [] = [(k, x, [])]"
| "enqueue k x ((k', y, ys) # qs) = (if k' = k then (k', y, ys @ [x]) # qs else (k', y, ys) # enqueue k x qs)"

definition recovery_queues :: "due_sample list \<Rightarrow> due_sample queues" where
  "recovery_queues candidates = fold (\<lambda>c. enqueue (due_observation c) c) candidates []"

text \<open>One pass over the queues: the head of each is selected until there is no room; a queue that is empty
  is deleted.\<close>

fun recovery_pass :: "nat \<Rightarrow> 'a queues \<Rightarrow> 'a list \<times> 'a queues" where
  "recovery_pass n [] = ([], [])"
| "recovery_pass 0 qs = ([], qs)"
| "recovery_pass (Suc n) ((k, x, xs) # qs) = (case recovery_pass n qs of (selected, rest) \<Rightarrow>
     (x # selected, case xs of [] \<Rightarrow> rest | y # ys \<Rightarrow> (k, y, ys) # rest))"

lemma recovery_pass_progress: "0 < n \<Longrightarrow> qs \<noteq> [] \<Longrightarrow> 0 < length (fst (recovery_pass n qs))"
  by (induction n qs rule: recovery_pass.induct) (auto simp: case_prod_unfold)

function recovery_loop :: "nat \<Rightarrow> 'a queues \<Rightarrow> 'a list" where
  "recovery_loop room qs =
     (if qs = [] \<or> room = 0 then []
      else case recovery_pass room qs of (selected, rest) \<Rightarrow> selected @ recovery_loop (room - length selected) rest)"
  by pat_completeness auto
termination
proof (relation "measure fst")
  fix room :: nat and qs :: "'a queues" and selected rest
  assume h: "\<not> (qs = [] \<or> room = 0)" and p: "(selected, rest) = recovery_pass room qs"
  have "0 < length selected" using recovery_pass_progress [of room qs] h p by (metis fst_conv neq0_conv)
  then show "((room - length selected, rest), room, qs) \<in> measure fst" using h by simp
qed simp

declare recovery_loop.simps [simp del]

definition fair_recovery_candidates :: "due_sample list \<Rightarrow> nat \<Rightarrow> due_sample list" where
  "fair_recovery_candidates candidates limit = recovery_loop limit (recovery_queues candidates)"

definition select_due_sample_batch :: "due_sample list \<Rightarrow> f64 \<Rightarrow> int option \<Rightarrow> due_sample list" where
  "select_due_sample_batch due now limit =
     (let bounded = nat (max 0 (case limit of None \<Rightarrow> int OBSERVATION_SAMPLE_BATCH_SIZE | Some n \<Rightarrow> n));
          timely = filter (\<lambda>c. \<not> horizon_sample_is_missed now (due_target c)) due;
          selected = take bounded timely;
          remaining = bounded - length selected in
      if remaining = 0 then selected
      else selected @ fair_recovery_candidates
             (filter (\<lambda>c. horizon_sample_is_missed now (due_target c)) due) remaining)"

definition due_observation_samples :: "state_file \<Rightarrow> string \<Rightarrow> (nat \<Rightarrow> string) \<Rightarrow> f64 \<Rightarrow> due_sample list res" where
  "due_observation_samples f t ts now =
     bindE (read_observations_snapshot f t ts) (\<lambda>document.
     bindE (observation_rows document) (\<lambda>rows.
     bindE (due_sample_candidates rows now) (\<lambda>due. Inr (select_due_sample_batch due now None))))"

section \<open>One sample\<close>

record worker_io =
  attempted_at :: f64
  quote_reply :: "py res"
  answered_at :: f64
  answered_ms :: f64
  quote_failed_at :: f64
  quote_failed_ms :: f64
  error_text :: "exc \<Rightarrow> string"

record pending_attempt =
  pending_sample :: due_sample
  pending_error :: string
  pending_at :: f64
  pending_ms :: f64

datatype worker_result = Sampled sample_result | Retry | Deferred pending_attempt

definition missed_text :: string where "missed_text = ''HORIZON_MISSED''"

definition failed_sample :: "due_sample \<Rightarrow> string \<Rightarrow> f64 \<Rightarrow> f64 option \<Rightarrow> sample_result" where
  "failed_sample c e t ms = \<lparr>result_observation = due_observation c, result_interval = due_interval c,
     result_proceeds = None, result_error = Some e, result_at = Some t, result_latency = ms\<rparr>"

definition final_failure :: "due_sample \<Rightarrow> string \<Rightarrow> f64 \<Rightarrow> f64 \<Rightarrow> sample_result" where
  "final_failure c e t ms =
     failed_sample c (if horizon_sample_is_missed t (due_target c) then missed_text else e) t (Some ms)"

text \<open>The quote and its amount; every exception but a missing route is counted as an attempt.\<close>

definition quoted_sample :: "due_sample \<Rightarrow> worker_io \<Rightarrow> sample_result res" where
  "quoted_sample c io = bindE (quote_reply io) (\<lambda>quote.
     if horizon_sample_is_missed (answered_at io) (due_target c)
     then Inr (failed_sample c missed_text (answered_at io) (Some (answered_ms io)))
     else bindE (bindE (as_dict quote) (\<lambda>d. dindex d ''outAmount'')) (\<lambda>v. bindE (py_int v) (\<lambda>proceeds.
       Inr \<lparr>result_observation = due_observation c, result_interval = due_interval c, result_proceeds = Some proceeds,
            result_error = None, result_at = Some (answered_at io), result_latency = Some (answered_ms io)\<rparr>)))"

text \<open>A failure after its attempt was counted: the third is final; a busy lock defers the count.\<close>

definition counted_failure ::
  "int res \<times> state_file \<Rightarrow> due_sample \<Rightarrow> string \<Rightarrow> worker_io \<Rightarrow> worker_result res \<times> state_file" where
  "counted_failure r_f c text io = (case r_f of (r, f) \<Rightarrow>
     (case r of
        Inr n \<Rightarrow> (Inr (if MAX_SAMPLE_ATTEMPTS \<le> n
           then Sampled (final_failure c text (quote_failed_at io) (quote_failed_ms io)) else Retry), f)
      | Inl e \<Rightarrow> (case e of
           StateLockTimeout _ \<Rightarrow> (Inr (Deferred \<lparr>pending_sample = c, pending_error = text,
             pending_at = quote_failed_at io, pending_ms = quote_failed_ms io\<rparr>), f)
         | _ \<Rightarrow> (Inl e, f))))"

text \<open>The worker; \<open>attempt e\<close> is the transaction that counts a failed attempt with the text \<open>e\<close>.\<close>

definition sample_due ::
  "(string \<Rightarrow> state_file \<Rightarrow> int res \<times> state_file) \<Rightarrow> due_sample \<Rightarrow> worker_io \<Rightarrow> state_file
   \<Rightarrow> worker_result res \<times> state_file" where
  "sample_due attempt c io f =
     (if horizon_sample_is_missed (attempted_at io) (due_target c)
      then (Inr (Sampled (failed_sample c missed_text (attempted_at io) None)), f)
      else case quoted_sample c io of
          Inr r \<Rightarrow> (Inr (Sampled r), f)
        | Inl e \<Rightarrow> (let text = redact_sensitive_text (error_text io e) in
            case e of
              JupiterNoRouteError _ \<Rightarrow>
                (Inr (Sampled (final_failure c text (quote_failed_at io) (quote_failed_ms io))), f)
            | _ \<Rightarrow> counted_failure (attempt text f) c text io))"

section \<open>The cycles of the observer\<close>

datatype access = RetryAttempt nat | FlushPending | ScanDue | WorkerAttempt nat | StoreResults

record observer_io =
  io_lock :: "access \<Rightarrow> bool"
  io_others :: "access \<Rightarrow> state_file \<Rightarrow> state_file"
  io_fallback :: "access \<Rightarrow> string"
  io_clock :: "access \<Rightarrow> sample_clock"
  io_now :: f64
  io_worker :: "nat \<Rightarrow> worker_io"
  io_order :: "nat list"

record observer_state =
  pending_finalized :: "sample_result list"
  pending_sample_attempts :: "pending_attempt list"

definition count_attempt :: "observer_io \<Rightarrow> access \<Rightarrow> due_sample \<Rightarrow> string \<Rightarrow> state_file \<Rightarrow> int res \<times> state_file" where
  "count_attempt io a c e f = record_sample_attempt (io_lock io a) (io_others io a f) (io_fallback io a)
     (due_observation c) (due_interval c) e (row_times (io_clock io a))"

definition store_batch ::
  "observer_io \<Rightarrow> access \<Rightarrow> sample_result list \<Rightarrow> state_file \<Rightarrow> applied_sample list res \<times> state_file" where
  "store_batch io a results f =
     record_sample_batch_applied (io_lock io a) (io_others io a f) (io_fallback io a) results (io_clock io a)"

text \<open>The retry of attempts that a busy lock kept from being counted: the first one that times out again
  stops it, with those after it.\<close>

fun retry_attempts ::
  "observer_io \<Rightarrow> nat \<Rightarrow> pending_attempt list \<Rightarrow> sample_result list \<Rightarrow> state_file
   \<Rightarrow> (sample_result list \<times> pending_attempt list) res \<times> state_file" where
  "retry_attempts io k [] finalized f = (Inr (finalized, []), f)"
| "retry_attempts io k (p # ps) finalized f =
     (case count_attempt io (RetryAttempt k) (pending_sample p) (pending_error p) f of
        (Inl (StateLockTimeout m), f) \<Rightarrow> (Inr (finalized, p # ps), f)
      | (Inl e, f) \<Rightarrow> (Inl e, f)
      | (Inr n, f) \<Rightarrow> retry_attempts io (Suc k) ps
          (if n < MAX_SAMPLE_ATTEMPTS then finalized
           else finalized @ [final_failure (pending_sample p) (pending_error p) (pending_at p) (pending_ms p)]) f)"

text \<open>The workers of a batch, in the order in which they reach the ledger; their results are those of the
  candidates in turn, and the deferred attempts are in the order of the workers.\<close>

definition worker_order :: "observer_io \<Rightarrow> nat \<Rightarrow> nat list" where
  "worker_order io n = (if distinct (io_order io) \<and> set (io_order io) = {..<n} then io_order io else [0..<n])"

fun run_workers ::
  "observer_io \<Rightarrow> due_sample list \<Rightarrow> nat list \<Rightarrow> state_file \<Rightarrow> (nat \<times> worker_result res) list \<times> state_file" where
  "run_workers io due [] f = ([], f)"
| "run_workers io due (i # is) f =
     (case sample_due (count_attempt io (WorkerAttempt i) (due ! i)) (due ! i) (io_worker io i) f of
        (r, f) \<Rightarrow> (case run_workers io due is f of (rs, f) \<Rightarrow> ((i, r) # rs, f)))"

definition sampled_of :: "worker_result res \<Rightarrow> sample_result option" where
  "sampled_of r = (case r of Inr (Sampled s) \<Rightarrow> Some s | _ \<Rightarrow> None)"

definition deferred_of :: "worker_result res \<Rightarrow> pending_attempt option" where
  "deferred_of r = (case r of Inr (Deferred p) \<Rightarrow> Some p | _ \<Rightarrow> None)"

definition run_due_sample_batch ::
  "observer_io \<Rightarrow> due_sample list \<Rightarrow> state_file \<Rightarrow> (sample_result list \<times> pending_attempt list) res \<times> state_file" where
  "run_due_sample_batch io due f =
     (case run_workers io due (worker_order io (length due)) f of (rs, f) \<Rightarrow>
        (case List.map_filter (\<lambda>(_, r). case r of Inl e \<Rightarrow> Some e | Inr _ \<Rightarrow> None) rs of
           e # _ \<Rightarrow> (Inl e, f)
         | [] \<Rightarrow> (Inr (List.map_filter (\<lambda>i. Option.bind (map_of rs i) sampled_of) [0..<length due],
                      List.map_filter (\<lambda>(_, r). deferred_of r) rs), f)))"

text \<open>A cycle: its state afterwards or the exception that ends the loop, the file, and the batches it gave to
  \<open>record_sample_batch\<close>.\<close>

record cycle =
  cycle_state :: "observer_state res"
  cycle_file :: state_file
  cycle_batches :: "sample_result list list"

definition observe_batch :: "observer_io \<Rightarrow> sample_result list list \<Rightarrow> state_file \<Rightarrow> cycle" where
  "observe_batch io batches f =
     (let f = io_others io ScanDue f in
      case due_observation_samples f (io_fallback io ScanDue) (migrate_clock (row_times (io_clock io ScanDue))) (io_now io) of
        Inl e \<Rightarrow> \<lparr>cycle_state = (case e of StateLockTimeout _ \<Rightarrow> Inr \<lparr>pending_finalized = [], pending_sample_attempts = []\<rparr>
                    | _ \<Rightarrow> Inl e),
             cycle_file = f, cycle_batches = batches\<rparr>
      | Inr due \<Rightarrow>
          (case run_due_sample_batch io due f of
             (Inl e, f) \<Rightarrow> \<lparr>cycle_state = Inl e, cycle_file = f, cycle_batches = batches\<rparr>
           | (Inr (finalized, deferred), f) \<Rightarrow>
               (if finalized = [] then \<lparr>cycle_state = Inr \<lparr>pending_finalized = [], pending_sample_attempts = deferred\<rparr>,
                    cycle_file = f, cycle_batches = batches\<rparr>
                else case store_batch io StoreResults finalized f of
                  (Inr _, f) \<Rightarrow> \<lparr>cycle_state = Inr \<lparr>pending_finalized = [], pending_sample_attempts = deferred\<rparr>,
                     cycle_file = f, cycle_batches = batches @ [finalized]\<rparr>
                | (Inl e, f) \<Rightarrow> \<lparr>cycle_state = (case e of
                       StateLockTimeout _ \<Rightarrow> Inr \<lparr>pending_finalized = finalized, pending_sample_attempts = deferred\<rparr>
                     | _ \<Rightarrow> Inl e),
                     cycle_file = f, cycle_batches = batches @ [finalized]\<rparr>)))"

definition observer_cycle :: "observer_io \<Rightarrow> observer_state \<Rightarrow> state_file \<Rightarrow> cycle" where
  "observer_cycle io st f =
     (case retry_attempts io 0 (pending_sample_attempts st) (pending_finalized st) f of
        (Inl e, f) \<Rightarrow> \<lparr>cycle_state = Inl e, cycle_file = f, cycle_batches = []\<rparr>
      | (Inr (finalized, left), f) \<Rightarrow>
          (let kept = \<lparr>pending_finalized = finalized, pending_sample_attempts = left\<rparr> in
           if left \<noteq> [] then \<lparr>cycle_state = Inr kept, cycle_file = f, cycle_batches = []\<rparr>
           else if finalized = [] then
             (if pending_sample_attempts st \<noteq> []
              then \<lparr>cycle_state = Inr kept, cycle_file = f, cycle_batches = []\<rparr>
              else observe_batch io [] f)
           else case store_batch io FlushPending finalized f of
               (Inl e, f) \<Rightarrow> \<lparr>cycle_state = (case e of StateLockTimeout _ \<Rightarrow> Inr kept | _ \<Rightarrow> Inl e),
                  cycle_file = f, cycle_batches = [finalized]\<rparr>
             | (Inr _, f) \<Rightarrow>
                 (if pending_sample_attempts st \<noteq> []
                  then \<lparr>cycle_state = Inr \<lparr>pending_finalized = [], pending_sample_attempts = []\<rparr>, cycle_file = f,
                        cycle_batches = [finalized]\<rparr>
                  else observe_batch io [finalized] f)))"


section \<open>The round robin\<close>

text \<open>The queues as lists; the reference takes the queues by rounds, which \<open>transpose\<close> of the library does.\<close>

definition queue_lists :: "'a queues \<Rightarrow> 'a list list" where
  "queue_lists qs = map (\<lambda>(k, x, xs). x # xs) qs"

definition round_robin :: "'a list list \<Rightarrow> 'a list" where
  "round_robin xss = concat (transpose xss)"

text \<open>The candidates of each observation, in the order of the first one.\<close>

fun firsts :: "string list \<Rightarrow> string list" where
  "firsts [] = []"
| "firsts (k # ks) = k # filter (\<lambda>k'. k' \<noteq> k) (firsts ks)"

definition by_observation :: "due_sample list \<Rightarrow> due_sample list list" where
  "by_observation cs = map (\<lambda>k. filter (\<lambda>c. due_observation c = k) cs) (firsts (map due_observation cs))"

definition queue_tails :: "'a queues \<Rightarrow> 'a queues" where
  "queue_tails qs = List.map_filter (\<lambda>(k, x, xs). case xs of [] \<Rightarrow> None | y # ys \<Rightarrow> Some (k, y, ys)) qs"

lemma recovery_pass_full: "length qs \<le> n \<Longrightarrow> recovery_pass n qs = (map (\<lambda>(k, x, xs). x) qs, queue_tails qs)"
  by (induction n qs rule: recovery_pass.induct)
    (auto simp: queue_tails_def List.map_filter_simps split: list.split)

lemma recovery_pass_partial: "n < length qs \<Longrightarrow> fst (recovery_pass n qs) = take n (map (\<lambda>(k, x, xs). x) qs)"
  by (induction n qs rule: recovery_pass.induct) (auto simp: case_prod_unfold)

lemma transpose_nonempty: "transpose xss = transpose (filter (\<lambda>xs. xs \<noteq> []) xss)"
proof (rule nth_equalityI)
  show l: "length (transpose xss) = length (transpose (filter (\<lambda>xs. xs \<noteq> []) xss))"
    unfolding length_transpose by (induction xss) auto
  fix i assume i: "i < length (transpose xss)"
  have "filter (\<lambda>ys. i < length ys) xss = filter (\<lambda>ys. i < length ys) (filter (\<lambda>xs. xs \<noteq> []) xss)"
    by (auto intro!: filter_cong)
  then show "transpose xss ! i = transpose (filter (\<lambda>xs. xs \<noteq> []) xss) ! i"
    using i l by (simp only: nth_transpose)
qed

lemma transpose_queues:
  assumes "qs \<noteq> []"
  shows "transpose (queue_lists qs) = map (\<lambda>(k, x, xs). x) qs # transpose (queue_lists (queue_tails qs))"
proof -
  obtain k x xs rest where q: "qs = (k, x, xs) # rest" using assms by (cases qs) auto
  have h: "concat (map (case_list [] (\<lambda>h t. [h])) (queue_lists qs)) = map (\<lambda>(k, x, xs). x) qs" for qs :: "'a queues"
    by (induction qs) (auto simp: queue_lists_def)
  have t: "filter (\<lambda>xs. xs \<noteq> []) (concat (map (case_list [] (\<lambda>h t. [t])) (queue_lists qs))) = queue_lists (queue_tails qs)"
    for qs :: "'a queues"
    by (induction qs) (auto simp: queue_lists_def queue_tails_def List.map_filter_simps split: list.split)
  note f = transpose_nonempty
  have "transpose (queue_lists qs) = (x # concat (map (case_list [] (\<lambda>h t. [h])) (queue_lists rest)))
      # transpose (xs # concat (map (case_list [] (\<lambda>h t. [t])) (queue_lists rest)))"
    by (simp add: q queue_lists_def)
  then show ?thesis using h [of qs] t [of qs] f [of "xs # concat (map (case_list [] (\<lambda>h t. [t])) (queue_lists rest))"]
    by (simp add: q queue_lists_def)
qed


lemma recovery_loop_round_robin: "recovery_loop n qs = take n (round_robin (queue_lists qs))"
proof (induction n qs rule: recovery_loop.induct)
  case (1 room qs)
  show ?case
  proof (cases "qs = [] \<or> room = 0")
    case True
    then show ?thesis by (subst recovery_loop.simps) (auto simp: round_robin_def queue_lists_def)
  next
    case False
    obtain selected rest where p: "recovery_pass room qs = (selected, rest)" by fastforce
    have step: "recovery_loop room qs = selected @ recovery_loop (room - length selected) rest"
      using False by (subst recovery_loop.simps) (simp add: p)
    have rr: "round_robin (queue_lists qs) = map (\<lambda>(k, x, xs). x) qs @ round_robin (queue_lists (queue_tails qs))"
      using False by (simp add: round_robin_def transpose_queues)
    show ?thesis
    proof (cases "length qs \<le> room")
      case True
      then have s: "selected = map (\<lambda>(k, x, xs). x) qs" "rest = queue_tails qs"
        using recovery_pass_full [OF True] p by simp_all
      have "recovery_loop (room - length selected) rest = take (room - length selected) (round_robin (queue_lists rest))"
        using False "1.IH" [OF False p [symmetric]] by simp
      then show ?thesis using True by (simp add: step rr s)
    next
      case short: False
      then have s: "selected = take room (map (\<lambda>(k, x, xs). x) qs)"
        using recovery_pass_partial [of room qs] p by simp
      then have "length selected = room" using short by simp
      moreover have "recovery_loop 0 rest = []" by (subst recovery_loop.simps) simp
      ultimately show ?thesis using short by (simp add: step rr s)
    qed
  qed
qed

lemma firsts_keys: "set (firsts ks) = set ks" "distinct (firsts ks)"
  by (induction ks) auto

lemma firsts_snoc: "firsts (ks @ [k]) = (if k \<in> set ks then firsts ks else firsts ks @ [k])"
  by (induction ks) auto

lemma enqueue_keys: "k \<notin> set (map fst qs) \<Longrightarrow> enqueue k x qs = qs @ [(k, x, [])]"
  by (induction k x qs rule: enqueue.induct) auto

lemma enqueue_lists:
  "distinct (map fst qs) \<Longrightarrow> k \<in> set (map fst qs) \<Longrightarrow>
   queue_lists (enqueue k x qs) = map (\<lambda>(k', y, ys). if k' = k then y # ys @ [x] else y # ys) qs
   \<and> map fst (enqueue k x qs) = map fst qs"
proof (induction k x qs rule: enqueue.induct)
  case (2 k x k' y ys qs)
  show ?case
  proof (cases "k' = k")
    case True
    then have "\<And>q. q \<in> set qs \<Longrightarrow> fst q \<noteq> k" using 2(2) by auto
    then have "map (\<lambda>(k', y, ys). y # ys) qs = map (\<lambda>(k', y, ys). if k' = k then y # ys @ [x] else y # ys) qs"
      by (intro map_cong) auto
    then show ?thesis using True by (simp add: queue_lists_def)
  qed (use 2 in \<open>simp add: queue_lists_def\<close>)
qed simp

lemma recovery_queues_keys:
  "map fst (recovery_queues cs) = firsts (map due_observation cs) \<and> queue_lists (recovery_queues cs) = by_observation cs"
proof (induction cs rule: rev_induct)
  case Nil
  then show ?case by (simp add: recovery_queues_def queue_lists_def by_observation_def)
next
  case (snoc c cs)
  let ?k = "due_observation c" and ?qs = "recovery_queues cs"
  have q: "recovery_queues (cs @ [c]) = enqueue ?k c ?qs" by (simp add: recovery_queues_def)
  have keys: "map fst ?qs = firsts (map due_observation cs)" and ls: "queue_lists ?qs = by_observation cs"
    using snoc.IH by simp_all
  show ?case
  proof (cases "?k \<in> set (map due_observation cs)")
    case False
    then have e: "enqueue ?k c ?qs = ?qs @ [(?k, c, [])]" by (intro enqueue_keys) (simp add: keys firsts_keys)
    have "filter (\<lambda>c'. due_observation c' = ?k) cs = []" using False by (auto simp: filter_empty_conv image_iff)
    moreover have "map (\<lambda>k. filter (\<lambda>c. due_observation c = k) (cs @ [c])) (firsts (map due_observation cs))
        = map (\<lambda>k. filter (\<lambda>c. due_observation c = k) cs) (firsts (map due_observation cs))"
      using False firsts_keys(1) [of "map due_observation cs"] by (intro map_cong) auto
    ultimately show ?thesis using False keys ls
      by (simp add: q e firsts_snoc by_observation_def queue_lists_def)
  next
    case True
    then have m: "?k \<in> set (map fst ?qs)" "distinct (map fst ?qs)" by (simp_all add: keys firsts_keys)
    note e = enqueue_lists [OF m(2,1), of c]
    have len: "length ?qs = length (firsts (map due_observation cs))" using arg_cong [OF keys, of length] by simp
    have "map (\<lambda>(k', y, ys). if k' = ?k then y # ys @ [c] else y # ys) ?qs
        = map (\<lambda>k. filter (\<lambda>c. due_observation c = k) (cs @ [c])) (firsts (map due_observation cs))"
    proof (rule nth_equalityI)
      fix i assume "i < length (map (\<lambda>(k', y, ys). if k' = ?k then y # ys @ [c] else y # ys) ?qs)"
      then have i: "i < length ?qs" by simp
      obtain k y ys where qi: "?qs ! i = (k, y, ys)" by (cases "?qs ! i") auto
      have "firsts (map due_observation cs) ! i = k" using i qi keys by (metis fst_conv nth_map)
      moreover have "by_observation cs ! i = y # ys" using i qi ls by (metis (mono_tags) nth_map queue_lists_def case_prod_conv)
      ultimately show "map (\<lambda>(k', y, ys). if k' = ?k then y # ys @ [c] else y # ys) ?qs ! i
          = map (\<lambda>k. filter (\<lambda>c. due_observation c = k) (cs @ [c])) (firsts (map due_observation cs)) ! i"
        using i qi len by (auto simp: by_observation_def)
    qed (simp add: len)
    then show ?thesis using e True by (simp add: q firsts_snoc by_observation_def keys)
  qed
qed

text \<open>C25: the recovery of old samples is a round robin over the observations: the loop ends, and what it
  selects are the first candidates of the rounds that take, in the order in which the observations appear,
  the next candidate of each observation that still has one.\<close>

theorem recovery_is_round_robin:
  "fair_recovery_candidates candidates limit = take limit (round_robin (by_observation candidates))"
  using recovery_queues_keys [of candidates]
  by (simp add: fair_recovery_candidates_def recovery_loop_round_robin)


section \<open>The batch\<close>

lemma mset_transpose: "mset (concat (transpose xss)) = mset (concat xss)"
proof (induction xss rule: transpose.induct)
  case (3 x xs xss)
  define H where "H = concat (map (case_list [] (\<lambda>h t. [h])) xss)"
  define T where "T = concat (map (case_list [] (\<lambda>h t. [t])) xss)"
  have e: "mset H + mset (concat T) = mset (concat xss)"
    unfolding H_def T_def by (induction xss) (auto split: list.split)
  have "mset (concat (transpose ((x # xs) # xss))) = add_mset x (mset H + mset (concat (transpose (xs # T))))"
    by (simp add: H_def T_def)
  also have "\<dots> = add_mset x (mset xs + (mset H + mset (concat T)))"
    using 3 by (simp add: T_def)
  finally show ?case unfolding e by simp
qed simp_all

lemma mset_enqueue: "mset (concat (queue_lists (enqueue k x qs))) = add_mset x (mset (concat (queue_lists qs)))"
  by (induction k x qs rule: enqueue.induct) (auto simp: queue_lists_def)

lemma mset_round_robin: "mset (round_robin (by_observation cs)) = mset cs"
proof -
  have "mset (concat (queue_lists (recovery_queues cs))) = mset cs"
    by (induction cs rule: rev_induct)
      (simp_all add: recovery_queues_def mset_enqueue, simp add: queue_lists_def)
  then show ?thesis using recovery_queues_keys [of cs] by (simp add: round_robin_def mset_transpose)
qed

lemma fair_recovery_eq: "fair_recovery_candidates cs n = take n (round_robin (by_observation cs))"
  using recovery_queues_keys [of cs] by (simp add: fair_recovery_candidates_def recovery_loop_round_robin)

abbreviation timely_candidates :: "f64 \<Rightarrow> due_sample list \<Rightarrow> due_sample list" where
  "timely_candidates now due \<equiv> filter (\<lambda>c. \<not> horizon_sample_is_missed now (due_target c)) due"

abbreviation missed_candidates :: "f64 \<Rightarrow> due_sample list \<Rightarrow> due_sample list" where
  "missed_candidates now due \<equiv> filter (\<lambda>c. horizon_sample_is_missed now (due_target c)) due"

lemma select_batch_eq:
  "select_due_sample_batch due now None = take 20 (timely_candidates now due)
     @ take (20 - length (timely_candidates now due)) (round_robin (by_observation (missed_candidates now due)))"
  by (auto simp: select_due_sample_batch_def Let_def OBSERVATION_SAMPLE_BATCH_SIZE_def fair_recovery_eq min_def)

lemma mset_take_le: "mset (take n xs) \<subseteq># mset xs"
  by (metis append_take_drop_id mset_append mset_subset_eq_add_left)

lemma select_batch_sub: "mset (select_due_sample_batch due now None) \<subseteq># mset due"
proof -
  have "mset (select_due_sample_batch due now None)
      \<subseteq># mset (timely_candidates now due) + mset (round_robin (by_observation (missed_candidates now due)))"
    unfolding select_batch_eq mset_append by (intro subset_mset.add_mono mset_take_le)
  also have "\<dots> = mset due" by (simp add: mset_round_robin)
  finally show ?thesis .
qed

lemma due_of_row_Inr:
  assumes "due_of_row now v = Inr cs" "c \<in> set cs"
  obtains row samples started where "v = PDict row" "dgetn row ''status'' = PStr ''PENDING''"
    "py_iter (dget_or row ''samples'' (PList [])) = Inr samples" "due_interval c \<notin> set (sample_intervals samples)"
    "due_observation c = py_str (dget_or row ''observation_id'' (PStr []))"
    "due_interval c \<in> set interval_labels" "f64_le (due_target c) now"
    "float_field row ''started_at_epoch'' (PInt 0) = Inr started"
    "\<exists>delay. (due_interval c, delay) \<in> set OBSERVATION_INTERVALS \<and> due_target c = f64_add started (Fin (of_int delay))"
proof -
  obtain row where v: "v = PDict row" "dgetn row ''status'' = PStr ''PENDING''"
    using assms by (cases v) (auto simp: due_of_row_def split: if_splits)
  obtain samples where s: "py_iter (dget_or row ''samples'' (PList [])) = Inr samples"
    using assms(1) v by (cases "py_iter (dget_or row ''samples'' (PList []))") (simp_all add: due_of_row_def)
  obtain started where st: "float_field row ''started_at_epoch'' (PInt 0) = Inr started"
    using assms(1) v s by (cases "float_field row ''started_at_epoch'' (PInt 0)") (simp_all add: due_of_row_def)
  let ?ds = "filter (\<lambda>(label, delay). label \<notin> set (sample_intervals samples)
                 \<and> f64_le (f64_add started (Fin (of_int delay))) now) OBSERVATION_INTERVALS"
  let ?g = "\<lambda>(label, delay). bindE (int_field row ''token_amount_raw'' 0) (\<lambda>amount.
                Inr \<lparr>due_observation = py_str (dget_or row ''observation_id'' (PStr [])), due_interval = label,
                  due_mint = py_str (dget_or row ''mint'' (PStr [])), due_amount = amount,
                  due_target = f64_add started (Fin (of_int delay))\<rparr>)"
  have m: "mapE ?g ?ds = Inr cs" using assms(1) v s st by (simp add: due_of_row_def)
  obtain i where i: "i < length cs" "c = cs ! i" using assms(2) by (auto simp: in_set_conv_nth)
  have l: "length cs = length ?ds" by (rule mapE_length [OF m])
  obtain label delay where d: "?ds ! i = (label, delay)" by (cases "?ds ! i") auto
  have "?g (?ds ! i) = Inr c" using mapE_nth [OF m, of i] i l by simp
  then have c: "due_observation c = py_str (dget_or row ''observation_id'' (PStr []))" "due_interval c = label"
    "due_target c = f64_add started (Fin (of_int delay))"
    unfolding d by (auto simp: bindE_eq_Inr)
  have "(label, delay) \<in> set ?ds" using d i l by (metis nth_mem)
  then have x: "label \<notin> set (sample_intervals samples)" "f64_le (f64_add started (Fin (of_int delay))) now"
    "(label, delay) \<in> set OBSERVATION_INTERVALS" by simp_all
  have n: "due_interval c \<notin> set (sample_intervals samples)" using x(1) c(2) by simp
  have k: "due_interval c \<in> set interval_labels" using imageI [OF x(3), of fst] c(2) by (simp add: interval_labels_def)
  have t: "f64_le (due_target c) now" using x(2) c(3) by simp
  have e: "\<exists>delay. (due_interval c, delay) \<in> set OBSERVATION_INTERVALS \<and> due_target c = f64_add started (Fin (of_int delay))"
    using x(3) c(2,3) by blast
  show ?thesis by (rule that [OF v s n c(1) k t st e])
qed

lemma due_candidate_row:
  assumes "due_sample_candidates rows now = Inr due" "c \<in> set due"
  obtains v cs where "v \<in> set rows" "due_of_row now v = Inr cs" "c \<in> set cs"
proof -
  obtain css where m: "mapE (due_of_row now) rows = Inr css" and d: "due = sort_key due_key (concat css)"
    using assms(1) by (auto simp: due_sample_candidates_def bindE_eq_Inr)
  have "c \<in> set (concat css)" using assms(2) d by simp
  then obtain cs where "cs \<in> set css" "c \<in> set cs" by auto
  then obtain i where i: "i < length css" "c \<in> set (css ! i)" by (metis in_set_conv_nth)
  have "i < length rows" using mapE_length [OF m] i(1) by simp
  with that [of "rows ! i" "css ! i"] mapE_nth [OF m, of i] i show ?thesis by simp
qed

text \<open>The batch of a cycle is bounded, useful and fair.  It has at most 20 samples, each of them once; every
  sample is an interval of a pending row that has no sample yet and whose time has come; samples that are
  still on time go first, and what room they leave goes to the backlog, observation by observation; and
  the batch has fewer than 20 samples only when it holds all that is due.\<close>

theorem sample_batch_is_bounded_and_fair:
  assumes "due_sample_candidates rows now = Inr due"
  defines "batch \<equiv> select_due_sample_batch due now None"
  shows "length batch \<le> 20 \<and> mset batch \<subseteq># mset due
     \<and> batch = take 20 (timely_candidates now due)
         @ take (20 - length (timely_candidates now due)) (round_robin (by_observation (missed_candidates now due)))
     \<and> (length batch < 20 \<longrightarrow> mset batch = mset due)
     \<and> (\<forall>c \<in> set batch. \<exists>row samples. PDict row \<in> set rows \<and> dgetn row ''status'' = PStr ''PENDING''
          \<and> py_iter (dget_or row ''samples'' (PList [])) = Inr samples
          \<and> due_observation c = py_str (dget_or row ''observation_id'' (PStr []))
          \<and> due_interval c \<notin> set (sample_intervals samples) \<and> f64_le (due_target c) now)"
proof -
  let ?t = "timely_candidates now due" and ?m = "missed_candidates now due"
  have size: "length (round_robin (by_observation ?m)) = length ?m"
    using mset_round_robin [of ?m] by (metis size_mset)
  have rows: "\<exists>row samples. PDict row \<in> set rows \<and> dgetn row ''status'' = PStr ''PENDING''
          \<and> py_iter (dget_or row ''samples'' (PList [])) = Inr samples
          \<and> due_observation c = py_str (dget_or row ''observation_id'' (PStr []))
          \<and> due_interval c \<notin> set (sample_intervals samples) \<and> f64_le (due_target c) now" if "c \<in> set batch" for c
  proof -
    have "c \<in> set due" using that select_batch_sub [of due now] unfolding batch_def
      by (meson mset_subset_eqD set_mset_mset in_multiset_in_set)
    then obtain v cs where v: "v \<in> set rows" "due_of_row now v = Inr cs" "c \<in> set cs"
      by (rule due_candidate_row [OF assms(1)])
    show ?thesis using due_of_row_Inr [OF v(2,3)] v(1) by metis
  qed
  have full: "mset batch = mset due" if "length batch < 20"
  proof -
    have "length batch = min 20 (length ?t) + min (20 - length ?t) (length ?m)"
      unfolding batch_def select_batch_eq by (simp add: size)
    then have "length ?t < 20" "length ?m \<le> 20 - length ?t" using that by (auto simp: min_def split: if_splits)
    then have "mset batch = mset ?t + mset (round_robin (by_observation ?m))"
      unfolding batch_def select_batch_eq by (simp add: size)
    then show ?thesis by (simp add: mset_round_robin)
  qed
  have "length batch \<le> 20" unfolding batch_def select_batch_eq by (auto simp: min_def)
  moreover have "mset batch \<subseteq># mset due" unfolding batch_def by (rule select_batch_sub)
  ultimately show ?thesis using rows full by (intro conjI) (auto simp: batch_def select_batch_eq)
qed


section \<open>The state of the observer\<close>

definition known_interval :: "sample_result \<Rightarrow> bool" where
  "known_interval r \<longleftrightarrow> result_interval r \<in> set interval_labels"

definition pending_ok :: "sample_result list \<Rightarrow> pending_attempt list \<Rightarrow> bool" where
  "pending_ok finalized attempts \<longleftrightarrow> length finalized + length attempts \<le> 20
     \<and> (\<forall>r \<in> set finalized. known_interval r) \<and> (\<forall>p \<in> set attempts. due_interval (pending_sample p) \<in> set interval_labels)"

definition observer_ok :: "observer_state \<Rightarrow> bool" where
  "observer_ok st \<longleftrightarrow> pending_ok (pending_finalized st) (pending_sample_attempts st)"

lemma known_final_failure: "due_interval c \<in> set interval_labels \<Longrightarrow> known_interval (final_failure c e t ms)"
  by (simp add: known_interval_def final_failure_def failed_sample_def)

lemma retry_attempts_ok:
  "retry_attempts io k ps finalized f = (Inr (finalized', left), f') \<Longrightarrow> pending_ok finalized ps
   \<Longrightarrow> pending_ok finalized' left \<and> set finalized \<subseteq> set finalized'"
proof (induction io k ps finalized f arbitrary: f' rule: retry_attempts.induct)
  case (2 io k p ps finalized f)
  obtain r f1 where c: "count_attempt io (RetryAttempt k) (pending_sample p) (pending_error p) f = (r, f1)" by fastforce
  show ?case
  proof (cases r)
    case (Inl e)
    then show ?thesis using "2.prems" c by (cases e) auto
  next
    case (Inr n)
    let ?fin = "if n < MAX_SAMPLE_ATTEMPTS then finalized
        else finalized @ [final_failure (pending_sample p) (pending_error p) (pending_at p) (pending_ms p)]"
    have ok: "pending_ok ?fin ps"
      using "2.prems"(2) known_final_failure [of "pending_sample p"] by (auto simp: pending_ok_def)
    have "retry_attempts io (Suc k) ps ?fin f1 = (Inr (finalized', left), f')"
      using "2.prems"(1) by (simp add: c Inr)
    from "2.IH" [OF c [symmetric] Inr this ok] show ?thesis by (auto split: if_splits)
  qed
qed simp

lemma sample_due_known:
  assumes "sample_due attempt c io f = (Inr w, f')" "due_interval c \<in> set interval_labels"
  shows "w = Sampled r \<Longrightarrow> known_interval r" "w = Deferred p \<Longrightarrow> due_interval (pending_sample p) \<in> set interval_labels"
proof -
  have q: "quoted_sample c io = Inr r \<Longrightarrow> result_interval r = due_interval c" for r
    by (auto simp: quoted_sample_def failed_sample_def bindE_eq_Inr Let_def split: if_splits)
  have f: "known_interval (failed_sample c e t ms)" for e t ms
    using assms(2) by (simp add: known_interval_def failed_sample_def)
  have x: "(\<exists>r. w = Sampled r \<and> known_interval r) \<or> w = Retry \<or>
      (\<exists>p. w = Deferred p \<and> due_interval (pending_sample p) \<in> set interval_labels)"
  proof (cases "horizon_sample_is_missed (attempted_at io) (due_target c)")
    case True
    then show ?thesis using assms(1) f by (auto simp: sample_due_def)
  next
    case False
    show ?thesis
    proof (cases "quoted_sample c io")
      case (Inr r)
      then show ?thesis using assms False q [OF Inr] by (auto simp: sample_due_def known_interval_def)
    next
      case (Inl e)
      let ?text = "redact_sensitive_text (error_text io e)"
      obtain a f1 where a: "attempt ?text f = (a, f1)" by fastforce
      have k: "known_interval (final_failure c t x y)" for t x y by (rule known_final_failure [OF assms(2)])
      have "(\<exists>m. e = JupiterNoRouteError m) \<or> counted_failure (attempt ?text f) c ?text io = (Inr w, f')"
        using assms(1) False Inl by (cases e) (simp_all add: sample_due_def Let_def)
      then show ?thesis
      proof
        assume "\<exists>m. e = JupiterNoRouteError m"
        then show ?thesis using assms(1) False Inl k by (auto simp: sample_due_def Let_def)
      next
        assume w: "counted_failure (attempt ?text f) c ?text io = (Inr w, f')"
        show ?thesis
        proof (cases a)
          case (Inl e')
          then show ?thesis using w assms(2) by (cases e') (auto simp: a counted_failure_def)
        next
          case (Inr n)
          then show ?thesis using w k by (auto simp: a counted_failure_def)
        qed
      qed
    qed
  qed
  show "w = Sampled r \<Longrightarrow> known_interval r" "w = Deferred p \<Longrightarrow> due_interval (pending_sample p) \<in> set interval_labels"
    using x by auto
qed

lemma run_workers_results:
  assumes "run_workers io due is f = (rs, f')"
  shows "map fst rs = is"
    "(i, r) \<in> set rs \<Longrightarrow> \<exists>f1 f2. sample_due (count_attempt io (WorkerAttempt i) (due ! i)) (due ! i) (io_worker io i) f1 = (r, f2)"
  using assms by (induction io due "is" f arbitrary: rs f' rule: run_workers.induct) (fastforce split: prod.splits)+

lemma worker_order_perm: "distinct (worker_order io n) \<and> set (worker_order io n) = {..<n}"
  by (auto simp: worker_order_def)

lemma worker_order_length: "length (worker_order io n) = n"
  using worker_order_perm [of io n] distinct_card [of "worker_order io n"] by simp

lemma length_map_filter_disjoint:
  "(\<And>x. x \<in> set xs \<Longrightarrow> f x = None \<or> g x = None) \<Longrightarrow> length (List.map_filter f xs) + length (List.map_filter g xs) \<le> length xs"
  by (induction xs) (force simp: List.map_filter_simps split: option.split)+

lemma length_map_filter_perm:
  assumes "mset xs = mset ys"
  shows "length (List.map_filter f xs) = length (List.map_filter f ys)"
proof -
  have "length (List.map_filter f zs) = size (filter_mset (\<lambda>x. f x \<noteq> None) (mset zs))" for zs
    by (induction zs) (auto simp: List.map_filter_simps split: option.split)
  then show ?thesis using assms by simp
qed

lemma map_filter_map_of:
  assumes "distinct (map fst rs)"
  shows "List.map_filter (\<lambda>i. Option.bind (map_of rs i) g) (map fst rs) = List.map_filter (\<lambda>(_, r). g r) rs"
  using assms
proof (induction rs)
  case (Cons p rs)
  obtain i r where p: "p = (i, r)" by (cases p)
  have "List.map_filter (\<lambda>j. Option.bind (map_of ((i, r) # rs) j) g) (map fst rs)
      = List.map_filter (\<lambda>j. Option.bind (map_of rs j) g) (map fst rs)"
    using Cons.prems p by (auto simp: List.map_filter_def intro!: arg_cong [where f = "map _"] filter_cong map_cong)
  then show ?case using Cons p by (simp add: List.map_filter_simps split: option.split)
qed (simp add: List.map_filter_simps)


lemma run_due_sample_batch_Inr:
  assumes "run_due_sample_batch io due f = (Inr (finalized, deferred), f')"
    and "\<forall>c \<in> set due. due_interval c \<in> set interval_labels"
  shows "length finalized + length deferred \<le> length due"
    "\<forall>r \<in> set finalized. known_interval r" "\<forall>p \<in> set deferred. due_interval (pending_sample p) \<in> set interval_labels"
proof -
  obtain rs f1 where rs: "run_workers io due (worker_order io (length due)) f = (rs, f1)" by fastforce
  have keys: "map fst rs = worker_order io (length due)" by (rule run_workers_results(1) [OF rs])
  have out: "finalized = List.map_filter (\<lambda>i. Option.bind (map_of rs i) sampled_of) [0..<length due]"
    "deferred = List.map_filter (\<lambda>(_, r). deferred_of r) rs"
    using assms(1) rs by (auto simp: run_due_sample_batch_def split: list.splits)
  have d: "distinct (map fst rs)" using worker_order_perm keys by metis
  have "set [0..<length due] = set (map fst rs)"
    unfolding keys using worker_order_perm [of io "length due"] by (simp add: atLeast0LessThan)
  then have m: "mset [0..<length due] = mset (map fst rs)"
    using d by (metis distinct_upt set_eq_iff_mset_eq_distinct)
  have "length finalized = length (List.map_filter (\<lambda>i. Option.bind (map_of rs i) sampled_of) (map fst rs))"
    unfolding out(1) by (rule length_map_filter_perm [OF m])
  also have "List.map_filter (\<lambda>i. Option.bind (map_of rs i) sampled_of) (map fst rs)
      = List.map_filter (\<lambda>(_, r). sampled_of r) rs" by (rule map_filter_map_of [OF d])
  finally have "length finalized = length (List.map_filter (\<lambda>(_, r). sampled_of r) rs)" .
  moreover have "length (List.map_filter (\<lambda>(_, r). sampled_of r) rs) + length (List.map_filter (\<lambda>(_, r). deferred_of r) rs)
      \<le> length rs"
    by (rule length_map_filter_disjoint) (auto simp: sampled_of_def deferred_of_def split: sum.split worker_result.split)
  moreover have "length rs = length due"
    using arg_cong [OF keys, of length] by (simp add: worker_order_length)
  ultimately show "length finalized + length deferred \<le> length due" by (simp add: out(2))
  have w: "\<exists>c f1 f2 attempt io'. c \<in> set due \<and> sample_due attempt c io' f1 = (r, f2)" if ir: "(i, r) \<in> set rs" for i r
  proof -
    have "i \<in> set (map fst rs)" using ir by force
    then have "i < length due" unfolding keys using worker_order_perm [of io "length due"] by simp
    then have c: "due ! i \<in> set due" by simp
    obtain f1 f2 where "sample_due (count_attempt io (WorkerAttempt i) (due ! i)) (due ! i) (io_worker io i) f1 = (r, f2)"
      using run_workers_results(2) [OF rs ir] by blast
    with c show ?thesis by blast
  qed
  show "\<forall>r \<in> set finalized. known_interval r"
  proof
    fix s assume "s \<in> set finalized"
    then obtain i where "Option.bind (map_of rs i) sampled_of = Some s"
      unfolding out(1) by (auto simp: List.map_filter_def)
    then obtain r where r: "map_of rs i = Some r" "sampled_of r = Some s" by (auto simp: Option.bind_eq_Some_conv)
    have e: "r = Inr (Sampled s)" using r(2) by (auto simp: sampled_of_def split: sum.splits worker_result.splits)
    obtain c f1 f2 attempt io' where c: "c \<in> set due" "sample_due attempt c io' f1 = (Inr (Sampled s), f2)"
      using w [OF map_of_SomeD [OF r(1)]] e by blast
    show "known_interval s" using sample_due_known(1) [OF c(2)] assms(2) c(1) by blast
  qed
  show "\<forall>p \<in> set deferred. due_interval (pending_sample p) \<in> set interval_labels"
  proof
    fix p assume "p \<in> set deferred"
    then obtain i r where r: "(i, r) \<in> set rs" "deferred_of r = Some p"
      unfolding out(2) by (auto simp: List.map_filter_def)
    have e: "r = Inr (Deferred p)" using r(2) by (auto simp: deferred_of_def split: sum.splits worker_result.splits)
    obtain c f1 f2 attempt io' where c: "c \<in> set due" "sample_due attempt c io' f1 = (Inr (Deferred p), f2)"
      using w [OF r(1)] e by blast
    show "due_interval (pending_sample p) \<in> set interval_labels"
      using sample_due_known(2) [OF c(2)] assms(2) c(1) by blast
  qed
qed

lemma due_observation_samples_ok:
  assumes "due_observation_samples f t ts now = Inr due"
  shows "length due \<le> 20" "\<forall>c \<in> set due. due_interval c \<in> set interval_labels"
proof -
  obtain rows cs where c: "due_sample_candidates rows now = Inr cs" "due = select_due_sample_batch cs now None"
    using assms by (auto simp: due_observation_samples_def bindE_eq_Inr)
  show "length due \<le> 20" unfolding c(2) select_batch_eq by (auto simp: min_def)
  show "\<forall>c \<in> set due. due_interval c \<in> set interval_labels"
  proof
    fix x assume "x \<in> set due"
    then have "x \<in> set cs" using select_batch_sub [of cs now] unfolding c(2)
      by (meson mset_subset_eqD set_mset_mset in_multiset_in_set)
    then obtain v xs where v: "v \<in> set rows" "due_of_row now v = Inr xs" "x \<in> set xs"
      by (rule due_candidate_row [OF c(1)])
    show "due_interval x \<in> set interval_labels" by (rule due_of_row_Inr [OF v(2,3)])
  qed
qed

text \<open>A cycle keeps the pending work small, and gives \<open>record_sample_batch\<close> only batches it accepts.\<close>

definition batch_ok :: "sample_result list \<Rightarrow> bool" where
  "batch_ok b \<longleftrightarrow> b \<noteq> [] \<and> length b \<le> 20 \<and> (\<forall>r \<in> set b. known_interval r)"

definition cycle_ok :: "cycle \<Rightarrow> bool" where
  "cycle_ok c \<longleftrightarrow> (\<forall>b \<in> set (cycle_batches c). batch_ok b)
     \<and> (\<forall>st. cycle_state c = Inr st \<longrightarrow> observer_ok st)"

lemma observe_batch_ok:
  assumes "\<forall>b \<in> set batches. batch_ok b"
  shows "cycle_ok (observe_batch io batches f)"
proof -
  define f0 where "f0 = io_others io ScanDue f"
  define sc where "sc = due_observation_samples f0 (io_fallback io ScanDue) (migrate_clock (row_times (io_clock io ScanDue))) (io_now io)"
  note def = observe_batch_def [of io batches f, unfolded Let_def, folded f0_def, folded sc_def]
  have e: "observer_ok \<lparr>pending_finalized = [], pending_sample_attempts = []\<rparr>" by (simp add: observer_ok_def pending_ok_def)
  show ?thesis
  proof (cases sc)
    case (Inl x)
    then show ?thesis using assms e by (cases x) (auto simp: def cycle_ok_def)
  next
    case (Inr due)
    note due = due_observation_samples_ok [OF Inr [unfolded sc_def]]
    obtain r f1 where r: "run_due_sample_batch io due f0 = (r, f1)" by fastforce
    show ?thesis
    proof (cases r)
      case (Inl x)
      then show ?thesis using assms \<open>sc = Inr due\<close> r by (simp add: def cycle_ok_def)
    next
      case (Inr fd)
      obtain finalized deferred where fd: "fd = (finalized, deferred)" by (cases fd)
      note ok = run_due_sample_batch_Inr [OF r [unfolded Inr fd] due(2)]
      have p: "pending_ok finalized deferred" "pending_ok [] deferred" using ok due(1) by (auto simp: pending_ok_def)
      obtain w f2 where w: "store_batch io StoreResults finalized f1 = (w, f2)" by fastforce
      have b: "finalized \<noteq> [] \<Longrightarrow> batch_ok finalized" using ok due(1) by (simp add: batch_ok_def)
      show ?thesis
      proof (cases "finalized = []")
        case True
        then show ?thesis using assms p \<open>sc = Inr due\<close> r Inr fd by (simp add: def cycle_ok_def observer_ok_def)
      next
        case ne: False
        show ?thesis
        proof (cases w)
          case (Inl x)
          then show ?thesis using assms p b ne \<open>sc = Inr due\<close> r \<open>r = Inr fd\<close> fd w
            by (cases x) (auto simp: def cycle_ok_def observer_ok_def)
        next
          case (Inr y)
          then show ?thesis using assms p b ne \<open>sc = Inr due\<close> r \<open>r = Inr fd\<close> fd w
            by (auto simp: def cycle_ok_def observer_ok_def)
        qed
      qed
    qed
  qed
qed


lemma observer_cycle_ok:
  assumes "observer_ok st"
  shows "cycle_ok (observer_cycle io st f)"
proof -
  have e: "observer_ok \<lparr>pending_finalized = [], pending_sample_attempts = []\<rparr>" by (simp add: observer_ok_def pending_ok_def)
  obtain r f1 where r: "retry_attempts io 0 (pending_sample_attempts st) (pending_finalized st) f = (r, f1)" by fastforce
  show ?thesis
  proof (cases r)
    case (Inl x)
    then show ?thesis using r by (simp add: observer_cycle_def cycle_ok_def)
  next
    case (Inr fl)
    obtain finalized left where fl: "fl = (finalized, left)" by (cases fl)
    have p: "pending_ok finalized left" "set (pending_finalized st) \<subseteq> set finalized"
      using retry_attempts_ok [OF r [unfolded Inr fl]] assms by (simp_all add: observer_ok_def)
    note def = observer_cycle_def [of io st f, unfolded r Inr fl, simplified, unfolded Let_def]
    obtain w f2 where w: "store_batch io FlushPending finalized f1 = (w, f2)" by fastforce
    have b: "finalized \<noteq> [] \<Longrightarrow> batch_ok finalized" using p(1) by (auto simp: batch_ok_def pending_ok_def)
    have k: "cycle_ok (observe_batch io [finalized] f2)" if "finalized \<noteq> []"
      using b [OF that] by (intro observe_batch_ok) simp
    have k0: "cycle_ok (observe_batch io [] f1)" by (intro observe_batch_ok) simp
    show ?thesis
    proof (cases "left = []")
      case False
      then show ?thesis using p by (simp add: def cycle_ok_def observer_ok_def)
    next
      case left: True
      show ?thesis
      proof (cases "finalized = []")
        case True
        then show ?thesis using left p k0 by (auto simp: def cycle_ok_def observer_ok_def)
      next
        case ne: False
        show ?thesis
        proof (cases w)
          case (Inl x)
          then show ?thesis using left ne w p b by (cases x) (auto simp: def cycle_ok_def observer_ok_def)
        next
          case (Inr y)
          show ?thesis
          proof (cases "pending_sample_attempts st = []")
            case True
            then show ?thesis using left ne w k Inr by (simp add: def)
          next
            case False
            then show ?thesis using left ne w b Inr e by (simp add: def cycle_ok_def)
          qed
        qed
      qed
    qed
  qed
qed

text \<open>The cycles of an observer from its start, until one of them ends the loop.\<close>

fun run_observer :: "observer_io list \<Rightarrow> observer_state \<Rightarrow> state_file \<Rightarrow> cycle list" where
  "run_observer [] st f = []"
| "run_observer (io # ios) st f =
     (let c = observer_cycle io st f in
      c # (case cycle_state c of Inl _ \<Rightarrow> [] | Inr st' \<Rightarrow> run_observer ios st' (cycle_file c)))"

definition observer_start :: observer_state where
  "observer_start = \<lparr>pending_finalized = [], pending_sample_attempts = []\<rparr>"

text \<open>the observer holds at most 20 pending samples and attempts at any time, whatever the quotes, the
  locks and the other processes do, and every batch it stores has between one and 20 samples of known
  intervals, so that the ledger never rejects it.\<close>

theorem observer_stores_only_bounded_batches:
  "\<forall>c \<in> set (run_observer ios observer_start f).
     (\<forall>b \<in> set (cycle_batches c). b \<noteq> [] \<and> length b \<le> 20 \<and> (\<forall>r \<in> set b. result_interval r \<in> set interval_labels))
     \<and> (case cycle_state c of Inl _ \<Rightarrow> True | Inr st \<Rightarrow>
          length (pending_finalized st) + length (pending_sample_attempts st) \<le> 20)"
proof -
  have "\<forall>c \<in> set (run_observer ios st f). (\<forall>b \<in> set (cycle_batches c). batch_ok b)
     \<and> (case cycle_state c of Inl _ \<Rightarrow> True | Inr st \<Rightarrow> observer_ok st)" if "observer_ok st" for st
    using that
  proof (induction ios st f rule: run_observer.induct)
    case (2 io ios st f)
    have c: "cycle_ok (observer_cycle io st f)" by (rule observer_cycle_ok [OF 2(2)])
    show ?case
    proof (cases "cycle_state (observer_cycle io st f)")
      case (Inl e)
      then show ?thesis using c by (auto simp: cycle_ok_def Let_def)
    next
      case (Inr st')
      then have "observer_ok st'" using c by (auto simp: cycle_ok_def)
      then show ?thesis using 2(1) [OF refl Inr] c Inr by (auto simp: cycle_ok_def Let_def)
    qed
  qed simp
  moreover have "observer_ok observer_start" by (simp add: observer_ok_def pending_ok_def observer_start_def)
  ultimately have k: "(\<forall>b \<in> set (cycle_batches c). batch_ok b)
      \<and> (case cycle_state c of Inl _ \<Rightarrow> True | Inr st \<Rightarrow> observer_ok st)" if "c \<in> set (run_observer ios observer_start f)" for c
    using that by blast
  show ?thesis
  proof
    fix c assume "c \<in> set (run_observer ios observer_start f)"
    from k [OF this] show "(\<forall>b \<in> set (cycle_batches c). b \<noteq> [] \<and> length b \<le> 20 \<and> (\<forall>r \<in> set b. result_interval r \<in> set interval_labels))
     \<and> (case cycle_state c of Inl _ \<Rightarrow> True | Inr st \<Rightarrow>
          length (pending_finalized st) + length (pending_sample_attempts st) \<le> 20)"
      by (cases "cycle_state c") (simp_all add: batch_ok_def known_interval_def observer_ok_def pending_ok_def)
  qed
qed

section \<open>Examples\<close>

definition pending_example :: "string \<Rightarrow> rat \<Rightarrow> py" where
  "pending_example oid started = PDict [(''observation_id'', PStr oid), (''status'', PStr ''PENDING''), (''mint'', PStr ''m''),
     (''token_amount_raw'', PInt 100), (''started_at_epoch'', PFloat (Fin started)), (''samples'', PList [])]"

lemma example_due: "\<exists>due. due_sample_candidates [pending_example ''a'' 1000, pending_example ''b'' 1100] (Fin 1400) = Inr due"
proof -
  have "(case due_sample_candidates [pending_example ''a'' 1000, pending_example ''b'' 1100] (Fin 1400) of
      Inr due \<Rightarrow> True | Inl _ \<Rightarrow> False)" by code_simp
  then show ?thesis by (auto split: sum.splits)
qed

theorem sample_batch_is_bounded_and_fair_witness:
  "\<exists>due. due_sample_candidates [pending_example ''a'' 1000, pending_example ''b'' 1100] (Fin 1400) = Inr due
     \<and> length (select_due_sample_batch due (Fin 1400) None) \<le> 20"
proof -
  obtain due where d: "due_sample_candidates [pending_example ''a'' 1000, pending_example ''b'' 1100] (Fin 1400) = Inr due"
    using example_due by blast
  show ?thesis using sample_batch_is_bounded_and_fair [OF d] d by blast
qed

definition idle_worker :: worker_io where
  "idle_worker = \<lparr>attempted_at = Fin 0, quote_reply = Inl TypeError, answered_at = Fin 0, answered_ms = Fin 0,
     quote_failed_at = Fin 0, quote_failed_ms = Fin 0, error_text = (\<lambda>_. ''e'')\<rparr>"

definition busy_io :: observer_io where
  "busy_io = \<lparr>io_lock = (\<lambda>_. False), io_others = (\<lambda>_ f. f), io_fallback = (\<lambda>_. ''t''),
     io_clock = (\<lambda>_. \<lparr>row_times = example_clock, epoch_times = (\<lambda>_. Fin 0), done_times = (\<lambda>_. ''t'')\<rparr>),
     io_now = Fin 0, io_worker = (\<lambda>_. idle_worker), io_order = []\<rparr>"

theorem observer_stores_only_bounded_batches_witness:
  "list_all (\<lambda>b. b \<noteq> [] \<and> length b \<le> 20) (cycle_batches (observer_cycle busy_io observer_start Missing))"
proof -
  have "observer_cycle busy_io observer_start Missing \<in> set (run_observer [busy_io] observer_start Missing)"
    by (simp add: Let_def)
  with observer_stores_only_bounded_batches [of "[busy_io]" Missing] show ?thesis
    by (auto simp: list_all_iff)
qed

end
