(* ===== verification/ObservationDelivery.thy ===== *)
theory ObservationDelivery
  imports ObservationSampling
begin

text \<open>
  What becomes of a final result of \<open>ObservationSampling\<close>: the effect of \<open>record_sample_batch_applied\<close> on the ledger
  file, and the cycle of the observer, which stores a final result or keeps it for the next cycle.
\<close>

section \<open>A batch settles its results\<close>

text \<open>A row that needs no result: it is finished, or it has the sample of that interval.\<close>

definition holds_result :: "sample_result \<Rightarrow> dict \<Rightarrow> bool" where
  "holds_result r row \<longleftrightarrow> terminal_text row
     \<or> (\<exists>samples. dget_or row ''samples'' (PList []) = PList samples \<and> has_interval (result_interval r) samples)"

definition settled :: "py list \<Rightarrow> sample_result \<Rightarrow> bool" where
  "settled rows r \<longleftrightarrow> (\<exists>row. PDict row \<in> set rows \<and> \<not> archived_row row
     \<and> dgetn row ''observation_id'' = PStr (result_observation r) \<and> holds_result r row)"

text \<open>The ledger has a row for the result that is not archived.\<close>

definition awaits :: "py list \<Rightarrow> sample_result \<Rightarrow> bool" where
  "awaits rows r \<longleftrightarrow> (\<exists>i row. find_observation (result_observation r) rows = Some (i, row) \<and> \<not> archived_row row)"

lemma has_interval_append: "has_interval k xs \<Longrightarrow> has_interval k (xs @ ys)"
  by (auto simp: has_interval_def list_ex_iff)

lemma settled_replace:
  assumes "i < length rows" "rows ! i = PDict row" "same_observation row row'" "\<And>r. holds_result r row \<Longrightarrow> holds_result r row'"
    and "settled rows r"
  shows "settled (rows[i := PDict row']) r"
proof -
  obtain q where q: "PDict q \<in> set rows" "\<not> archived_row q" "dgetn q ''observation_id'' = PStr (result_observation r)" "holds_result r q"
    using assms(5) by (auto simp: settled_def)
  show ?thesis
  proof (cases "q = row")
    case True
    have "PDict row' \<in> set (rows[i := PDict row'])" using assms(1) by (intro set_update_memI)
    moreover have "\<not> archived_row row'" "dgetn row' ''observation_id'' = PStr (result_observation r)" "holds_result r row'"
      using q True assms(3) assms(4) [of r] by (simp_all add: same_observation_def)
    ultimately show ?thesis unfolding settled_def by blast
  next
    case False
    obtain j where j: "j < length rows" "rows ! j = PDict q" using q(1) by (auto simp: in_set_conv_nth)
    then have "j \<noteq> i" using False assms(2) by auto
    then have "rows[i := PDict row'] ! j = PDict q" using j(2) by simp
    then have "PDict q \<in> set (rows[i := PDict row'])" using j(1) by (metis length_list_update nth_mem)
    then show ?thesis using q(2-4) unfolding settled_def by blast
  qed
qed

lemma sample_settles:
  assumes "apply_sample_row r now t row = Inr (Some row')"
  shows "same_observation row row'" "holds_result r row'" "holds_result r' row \<Longrightarrow> holds_result r' row'"
proof -
  obtain samples new ret returns where s: "\<not> terminal_text row" "dget_or row ''samples'' (PList []) = PList samples"
    "row' = sampled_row r ret new returns t row samples" "dget new ''interval'' = Some (PStr (result_interval r))"
    by (rule apply_sample_row_Some [OF assms]) (use sample_dict_interval in blast)
  have g: "dgetn row' k = dgetn row k" if "k \<in> {''observation_id'', ''archive_schema_version'', ''archived_at''}" for k
    using that by (auto simp: s(3) dgetn_def dget_or_def sampled_row_get)
  show "same_observation row row'" by (simp add: same_observation_def archived_row_def g)
  have h: "dget_or row' ''samples'' (PList []) = PList (samples @ [PDict new])" by (simp add: s(3) dget_or_def sampled_row_get)
  have "has_interval (result_interval r) (samples @ [PDict new])" using s(4) by (simp add: has_interval_def dgetn_def dget_or_def)
  then show "holds_result r row'" using h by (auto simp: holds_result_def)
  show "holds_result r' row \<Longrightarrow> holds_result r' row'" using s(1,2) h has_interval_append by (auto simp: holds_result_def)
qed

lemma refused_sample_held:
  assumes "apply_sample_row r now t row = Inr None" "current_row row"
  shows "holds_result r row"
proof -
  obtain samples where "dgetn row ''samples'' = PList samples"
    using assms(2) by (auto simp: current_row_def check_row_def split: py.splits if_splits)
  then have d: "dget_or row ''samples'' (PList []) = PList samples" by (auto simp: dgetn_def dget_or_def split: option.splits)
  then show ?thesis
    using assms(1) by (auto simp: apply_sample_row_def holds_result_def Let_def bindE_eq_Inr split: if_splits option.splits)
qed

lemma found_settled:
  assumes "find_observation (result_observation r) rows = Some (i, row)" "\<not> archived_row row" "holds_result r row"
  shows "settled rows r"
  using find_observation_Some [OF assms(1)] assms(2,3) unfolding settled_def by (metis nth_mem)

lemma find_replaced:
  assumes "i < length rows" "rows ! i = PDict row" "same_observation row row'"
  shows "awaits (rows[i := PDict row']) r = awaits rows r"
proof -
  have "rel_option (\<lambda>p q. archived_row (snd p) = archived_row (snd q))
      (find_observation (result_observation r) rows) (find_observation (result_observation r) (rows[i := PDict row']))"
    using assms
  proof (induction rows arbitrary: i)
    case (Cons v rows)
    show ?case
    proof (cases i)
      case 0
      then show ?thesis using Cons.prems
        by (auto simp: same_observation_def option.rel_map intro!: option.rel_refl)
    next
      case (Suc j)
      then have "rel_option (\<lambda>p q. archived_row (snd p) = archived_row (snd q))
        (find_observation (result_observation r) rows) (find_observation (result_observation r) (rows[j := PDict row']))"
        using Cons.prems by (intro Cons.IH) simp_all
      then show ?thesis using Suc
        by (cases v) (auto simp: option.rel_map case_prod_beta)
    qed
  qed simp
  then show ?thesis unfolding awaits_def
    by (cases "find_observation (result_observation r) rows"; cases "find_observation (result_observation r) (rows[i := PDict row'])")
      auto
qed

lemma result_step:
  assumes "apply_sample_result clk (rows, ap) (k, r) = Inr (rows', ap')" "current_rows rows"
  shows "current_rows rows'" "awaits rows' q = awaits rows q" "settled rows q \<Longrightarrow> settled rows' q"
    "awaits rows r \<Longrightarrow> settled rows' r" "rows' = rows \<and> ap' = ap \<or> ap' \<noteq> []"
proof -
  have all: "current_rows rows' \<and> awaits rows' q = awaits rows q \<and> (settled rows q \<longrightarrow> settled rows' q)
    \<and> (awaits rows r \<longrightarrow> settled rows' r) \<and> (rows' = rows \<and> ap' = ap \<or> ap' \<noteq> [])"
  proof (cases "find_observation (result_observation r) rows")
    case None
    then show ?thesis using assms by (simp add: apply_sample_result_def awaits_def)
  next
    case (Some p)
    obtain i row where p: "p = (i, row)" by (cases p)
    note f = Some [unfolded p]
    note i = find_observation_Some [OF f]
    have row: "current_row row" using current_rows_nth [OF assms(2)] i by blast
    obtain new where new: "apply_sample_row r (epoch_times clk k) (done_times clk k) row = Inr new"
      using assms(1) f by (auto simp: apply_sample_result_def bindE_eq_Inr)
    show ?thesis
    proof (cases new)
      case None
      then have "rows' = rows \<and> ap' = ap" using assms(1) f new by (simp add: apply_sample_result_def)
      moreover have "awaits rows r \<Longrightarrow> settled rows r"
        using found_settled [OF f _ refused_sample_held [OF new [unfolded None] row]] f by (auto simp: awaits_def)
      ultimately show ?thesis using assms(2) by simp
    next
      case (Some row')
      have e: "rows' = rows[i := PDict row']" "ap' = ap @ [(r, i)]"
        using assms(1) f new Some by (simp_all add: apply_sample_result_def)
      note s = sample_settles [OF new [unfolded Some]]
      have set: "settled rows' r" if "awaits rows r"
      proof -
        have "PDict row' \<in> set rows'" using i unfolding e(1) by (intro set_update_memI) simp
        moreover have "\<not> archived_row row'" using that f s(1) by (simp add: awaits_def same_observation_def)
        moreover have "dgetn row' ''observation_id'' = PStr (result_observation r)" using i s(1) by (simp add: same_observation_def)
        ultimately show ?thesis using s(2) unfolding settled_def by blast
      qed
      have "current_rows rows'" unfolding e(1)
        by (rule current_rows_update [OF assms(2) apply_sample_row_ok(1) [OF new [unfolded Some] row]])
      moreover have "settled rows q \<Longrightarrow> settled rows' q"
        unfolding e(1) using i by (intro settled_replace [OF _ _ s(1)]) (auto intro: s(3))
      ultimately show ?thesis using set i s(1) by (simp add: e find_replaced)
    qed
  qed
  show "current_rows rows'" "awaits rows' q = awaits rows q" "settled rows q \<Longrightarrow> settled rows' q"
    "awaits rows r \<Longrightarrow> settled rows' r" "rows' = rows \<and> ap' = ap \<or> ap' \<noteq> []" using all by blast+
qed

lemma batch_settles:
  assumes "apply_samples clk results rows = Inr (rows', ap')" "current_rows rows"
  shows "r \<in> set results \<Longrightarrow> awaits rows r \<Longrightarrow> settled rows' r" "ap' = [] \<Longrightarrow> rows' = rows"
proof -
  have "(\<forall>r. awaits rows r \<and> r \<in> snd ` set krs \<or> settled rows r \<longrightarrow> settled rows' r) \<and> (ap' = [] \<longrightarrow> rows' = rows \<and> ap = [])"
    if "foldE (apply_sample_result clk) (rows, ap) krs = Inr (rows', ap')" "current_rows rows" for krs ap rows
    using that
  proof (induction krs arbitrary: rows ap)
    case (Cons kr krs)
    obtain k r where kr: "kr = (k, r)" by (cases kr)
    obtain rows1 ap1 where s: "apply_sample_result clk (rows, ap) (k, r) = Inr (rows1, ap1)"
        "foldE (apply_sample_result clk) (rows1, ap1) krs = Inr (rows', ap')"
      using Cons.prems(1) by (auto simp: kr bindE_eq_Inr)
    note st = result_step [OF s(1) Cons.prems(2)]
    note ih = Cons.IH [OF s(2) st(1)]
    show ?case using ih st(2-5) unfolding kr by auto
  qed simp
  from this [OF assms(1) [unfolded apply_samples_def] assms(2)]
  moreover have "snd ` set (List.enumerate 0 results) = set results" by (simp flip: set_map)
  ultimately show "r \<in> set results \<Longrightarrow> awaits rows r \<Longrightarrow> settled rows' r" "ap' = [] \<Longrightarrow> rows' = rows"
    by blast+
qed

lemma expire_settled:
  assumes "expire_observation_backlog now rows = Inr rows'" "settled rows r"
  shows "settled rows' r"
proof -
  obtain row where r: "PDict row \<in> set rows" "\<not> archived_row row" "dgetn row ''observation_id'' = PStr (result_observation r)"
      "holds_result r row" using assms(2) by (auto simp: settled_def)
  then obtain i where i: "i < length rows" "rows ! i = PDict row" by (auto simp: in_set_conv_nth)
  obtain row' where e: "expire_row (now i) (PDict row) = PDict row'" "same_observation row row'" "holds_result r row'"
    by (simp add: expire_row_def same_observation_def archived_row_def holds_result_def terminal_text_def str_field_def
        TERMINAL_OBSERVATION_STATUSES_def)
  have "rows' ! i = PDict row \<or> rows' ! i = PDict row'"
    unfolding expire_Inr [OF assms(1)] using i e by (simp add: nth_enumerate_eq)
  moreover have "rows' ! i \<in> set rows'" using i unfolding expire_Inr [OF assms(1)] by simp
  ultimately show ?thesis using r e(2,3) unfolding settled_def same_observation_def by metis
qed

lemma retain_settled:
  assumes "archive_and_retain_observations rows = Inr kept" "settled rows r"
  shows "settled kept r"
proof -
  obtain row where r: "PDict row \<in> set rows" "\<not> archived_row row" "dgetn row ''observation_id'' = PStr (result_observation r)"
      "holds_result r row" using assms(2) by (auto simp: settled_def)
  then obtain i where i: "i < length rows" "rows ! i = PDict row" by (auto simp: in_set_conv_nth)
  then have "i \<in> kept_set rows" using dropped_is_archived(4) r by blast
  then have "PDict row \<in> set kept"
    using archive_and_retain_Inr [OF assms(1), folded kept_set_def] i by (force simp: set_nths)
  then show ?thesis using r unfolding settled_def by blast
qed

section \<open>The transactions of a cycle\<close>

definition current_file :: "state_file \<Rightarrow> bool" where
  "current_file f \<longleftrightarrow> (\<exists>d. f = Content (PDict d) \<and> current_document d)"

text \<open>The ledger \<open>f\<close> became \<open>f'\<close>, and a row that awaited the result in \<open>f\<close> is settled in \<open>f'\<close>.\<close>

definition delivered :: "state_file \<Rightarrow> state_file \<Rightarrow> sample_result \<Rightarrow> bool" where
  "delivered f f' r \<longleftrightarrow> (\<exists>d d'. f = Content (PDict d) \<and> f' = Content (PDict d')
     \<and> (awaits (ledger_rows d) r \<longrightarrow> settled (ledger_rows d') r))"

lemma batch_mutate_settles:
  assumes "record_sample_batch_mutate results clk d = Inr (ap, d')" "current_document d" "r \<in> set results" "awaits (ledger_rows d) r"
  shows "settled (ledger_rows d') r"
proof -
  obtain rows applied where a: "apply_samples clk results (ledger_rows d) = Inr (rows, applied)"
      "applied = [] \<and> d' = d \<or> expire_and_retain (row_times clk) rows d = Inr d'"
    using assms(1,2) by (auto simp: record_sample_batch_mutate_def with_rows_current bindE_eq_Inr expire_and_retain_def
        retain_rows_def split: if_splits)
  note b = batch_settles [OF a(1) current_ledger [OF assms(2)]]
  from a(2) show ?thesis
  proof
    assume "applied = [] \<and> d' = d"
    then show ?thesis using b(1) [OF assms(3,4)] b(2) by simp
  next
    assume "expire_and_retain (row_times clk) rows d = Inr d'"
    then show ?thesis using b(1) [OF assms(3,4)]
      by (auto simp: expire_and_retain_def bindE_eq_Inr dest: expire_settled retain_settled)
  qed
qed

lemma update_commits:
  assumes "observation_update lk (Content (PDict d)) t m = (Inr x, f')"
  shows "\<exists>v d1. m d = Inr (x, d1) \<and> f' = Content (PDict (dset ''version'' (PInt v) d1))"
  using assms by (auto simp: observation_update_def update_json_def Let_def locked_def bindE_eq_Inr split: sum.splits prod.splits if_splits)

lemma store_delivers:
  assumes "store_batch io a results f = (Inr ap, f')" "current_file (io_others io a f)" "r \<in> set results"
  shows "delivered (io_others io a f) f' r"
proof -
  obtain d where d: "io_others io a f = Content (PDict d)" "current_document d" using assms(2) by (auto simp: current_file_def)
  have "observation_update (io_lock io a) (Content (PDict d)) (io_fallback io a) (record_sample_batch_mutate results (io_clock io a)) = (Inr ap, f')"
    using assms(1,3) by (auto simp: store_batch_def record_sample_batch_applied_def d(1) split: if_splits)
  from update_commits [OF this] obtain v d1 where m: "record_sample_batch_mutate results (io_clock io a) d = Inr (ap, d1)"
      "f' = Content (PDict (dset ''version'' (PInt v) d1))" by blast
  have "ledger_rows (dset ''version'' (PInt v) d1) = ledger_rows d1" by (simp add: ledger_rows_def)
  then show ?thesis using batch_mutate_settles [OF m(1) d(2) assms(3)] d(1) m(2) unfolding delivered_def by auto
qed

lemma call_current:
  "current_file f \<Longrightarrow> current_file (observation_call c f)"
  using observation_call_ok [of _ c] by (auto simp: current_file_def)

lemma count_current:
  assumes "count_attempt io a c e f = (r, f')" "current_file (io_others io a f)"
  shows "current_file f'"
  using call_current [OF assms(2), of "CountAttempt (io_lock io a) (io_fallback io a) (due_observation c) (due_interval c) e (row_times (io_clock io a))"]
    assms(1) by (simp add: count_attempt_def)

lemma store_current:
  assumes "store_batch io a results f = (r, f')" "current_file (io_others io a f)"
  shows "current_file f'"
  using call_current [OF assms(2), of "StoreSamples (io_lock io a) (io_fallback io a) results (io_clock io a)"]
    assms(1) by (simp add: store_batch_def)

text \<open>What the others write stays readable.\<close>

definition others_current :: "observer_io \<Rightarrow> bool" where
  "others_current io \<longleftrightarrow> (\<forall>a g. current_file g \<longrightarrow> current_file (io_others io a g))"

lemma counted_failure_file: "snd (counted_failure n_f c t w) = snd n_f"
  by (cases n_f; cases "fst n_f"; cases "projl (fst n_f)") (auto simp: counted_failure_def)

lemma sample_due_file: "snd (sample_due attempt c w f) = f \<or> (\<exists>t. snd (sample_due attempt c w f) = snd (attempt t f))"
proof (cases "quoted_sample c w")
  case (Inl e)
  then show ?thesis by (cases e) (auto simp: sample_due_def Let_def counted_failure_file)
qed (simp add: sample_due_def)

lemma sample_due_current:
  assumes "sample_due (count_attempt io a c) c w f = (r, f')" "current_file f" "others_current io"
  shows "current_file f'"
proof -
  have "f' = f \<or> (\<exists>t. f' = snd (count_attempt io a c t f))"
    using sample_due_file [of "count_attempt io a c" c w f] assms(1) by simp
  then show ?thesis using assms(2,3) count_current [OF surjective_pairing] by (auto simp: others_current_def)
qed

lemma workers_current:
  "run_workers io due is f = (rs, f') \<Longrightarrow> current_file f \<Longrightarrow> others_current io \<Longrightarrow> current_file f'"
  by (induction io due "is" f arbitrary: rs f' rule: run_workers.induct) (auto split: prod.splits dest: sample_due_current)

lemma retry_current:
  "retry_attempts io k ps finalized f = (r, f') \<Longrightarrow> current_file f \<Longrightarrow> others_current io \<Longrightarrow> current_file f'"
proof (induction io k ps finalized f arbitrary: r f' rule: retry_attempts.induct)
  case (2 io k p ps finalized f)
  obtain n f1 where c: "count_attempt io (RetryAttempt k) (pending_sample p) (pending_error p) f = (n, f1)" by fastforce
  have "current_file f1" using count_current [OF c] "2.prems" by (simp add: others_current_def)
  then show ?case using 2(1) [OF c [symmetric]] "2.prems" c by (cases n; cases "projl n") auto
qed simp

lemma retry_keeps: "retry_attempts io k ps finalized f = (Inr (finalized', left), f') \<Longrightarrow> set finalized \<subseteq> set finalized'"
proof (induction io k ps finalized f arbitrary: f' rule: retry_attempts.induct)
  case (2 io k p ps finalized f)
  obtain n f1 where c: "count_attempt io (RetryAttempt k) (pending_sample p) (pending_error p) f = (n, f1)" by fastforce
  then show ?case using 2(1) [OF c [symmetric]] "2.prems" by (cases n; cases "projl n") (auto split: if_splits)
qed simp

section \<open>The cycle\<close>

text \<open>The workers of a cycle: the samples that are due in the ledger the cycle scans, after the results that waited were
  stored, the outcome of each worker, and the ledger after them.\<close>

definition worked ::
  "observer_io \<Rightarrow> observer_state \<Rightarrow> state_file \<Rightarrow> due_sample list \<Rightarrow> (nat \<times> worker_result res) list \<Rightarrow> state_file \<Rightarrow> bool" where
  "worked io st f due rs g \<longleftrightarrow> pending_sample_attempts st = [] \<and> (\<exists>f1.
     (if pending_finalized st = [] then f1 = f else \<exists>ap. store_batch io FlushPending (pending_finalized st) f = (Inr ap, f1))
     \<and> due_observation_samples (io_others io ScanDue f1) (io_fallback io ScanDue) (migrate_clock (row_times (io_clock io ScanDue)))
         (io_now io) = Inr due
     \<and> run_workers io due (worker_order io (length due)) (io_others io ScanDue f1) = (rs, g))"

text \<open>What a batch makes of the outcomes of its workers.\<close>

lemma batch_of_workers:
  assumes "run_workers io due (worker_order io (length due)) f = (rs, g)"
    and "run_due_sample_batch io due f = (Inr (finalized, deferred), g')" "(i, w) \<in> set rs"
  shows "g' = g \<and> (case w of Inl _ \<Rightarrow> False | Inr (Sampled r) \<Rightarrow> r \<in> set finalized | Inr (Deferred p) \<Rightarrow> p \<in> set deferred
    | Inr Retry \<Rightarrow> True)"
proof -
  have keys: "map fst rs = worker_order io (length due)" by (rule run_workers_results(1) [OF assms(1)])
  then have d: "distinct (map fst rs)" using worker_order_perm by metis
  have i: "i < length due"
    using keys assms(3) worker_order_perm [of io "length due"] image_eqI [OF _ assms(3), of i fst] by (simp flip: set_map)
  have out: "List.map_filter (\<lambda>(_, r). case r of Inl e \<Rightarrow> Some e | Inr _ \<Rightarrow> None) rs = []" "g' = g"
    "finalized = List.map_filter (\<lambda>i. Option.bind (map_of rs i) sampled_of) [0..<length due]"
    "deferred = List.map_filter (\<lambda>(_, r). deferred_of r) rs"
    using assms(1,2) by (auto simp: run_due_sample_batch_def split: list.splits)
  have m: "map_of rs i = Some w" using d assms(3) by simp
  show ?thesis
  proof (cases w)
    case (Inl e)
    then have "e \<in> set (List.map_filter (\<lambda>(_, r). case r of Inl e \<Rightarrow> Some e | Inr _ \<Rightarrow> None) rs)"
      using assms(3) by (force simp: List.map_filter_def)
    then show ?thesis using out(1) by simp
  next
    case (Inr x)
    have "r \<in> set finalized" if "x = Sampled r" for r
      using m i that Inr unfolding out(3) by (force simp: List.map_filter_def sampled_of_def)
    moreover have "p \<in> set deferred" if "x = Deferred p" for p
      using assms(3) that Inr unfolding out(4) by (force simp: List.map_filter_def deferred_of_def)
    ultimately show ?thesis using Inr out(2) by (cases x) auto
  qed
qed

lemma observed_results:
  assumes "cycle_state (observe_batch io batches f) = Inr st'" "current_file f" "others_current io"
    and "due_observation_samples (io_others io ScanDue f) (io_fallback io ScanDue) (migrate_clock (row_times (io_clock io ScanDue)))
         (io_now io) = Inr due"
    and "run_workers io due (worker_order io (length due)) (io_others io ScanDue f) = (rs, g)" "(i, w) \<in> set rs"
  shows "case w of Inl _ \<Rightarrow> False | Inr Retry \<Rightarrow> True | Inr (Deferred p) \<Rightarrow> p \<in> set (pending_sample_attempts st')
    | Inr (Sampled r) \<Rightarrow> r \<in> set (pending_finalized st')
        \<or> delivered (io_others io StoreResults g) (cycle_file (observe_batch io batches f)) r"
proof -
  let ?f = "io_others io ScanDue f"
  obtain fd g' where b: "run_due_sample_batch io due ?f = (Inr fd, g')"
    using assms(1,4) by (cases "run_due_sample_batch io due ?f"; cases "fst (run_due_sample_batch io due ?f)")
      (auto simp: observe_batch_def Let_def)
  obtain finalized deferred where fd: "fd = (finalized, deferred)" by (cases fd)
  note w = batch_of_workers [OF assms(5) b [unfolded fd] assms(6)]
  have "current_file g"
    using workers_current [OF assms(5)] assms(2,3) by (simp add: others_current_def)
  then have cur: "current_file (io_others io StoreResults g)" using assms(3) by (simp add: others_current_def)
  obtain x h where x: "store_batch io StoreResults finalized g = (x, h)" by fastforce
  have kept: "set deferred \<subseteq> set (pending_sample_attempts st')
     \<and> (\<forall>r \<in> set finalized. r \<in> set (pending_finalized st')
        \<or> delivered (io_others io StoreResults g) (cycle_file (observe_batch io batches f)) r)"
  proof (cases x)
    case (Inr ap)
    have "\<forall>r \<in> set finalized. delivered (io_others io StoreResults g) h r"
      using store_delivers [OF x [unfolded Inr] cur] by blast
    then show ?thesis using assms(1,4) b fd w x Inr
      by (auto simp: observe_batch_def Let_def split: if_splits)
  next
    case (Inl e)
    then show ?thesis using assms(1,4) b fd w x
      by (cases e) (auto simp: observe_batch_def Let_def split: if_splits)
  qed
  show ?thesis using w kept by (auto split: sum.splits worker_result.splits)
qed


section \<open>Examples\<close>

text \<open>A result that waited is written into the ledger.\<close>

definition waiting_state :: observer_state where
  "waiting_state = \<lparr>pending_finalized = [example_sample], pending_sample_attempts = []\<rparr>"

definition storing_io :: observer_io where
  "storing_io = busy_io\<lparr>io_lock := (\<lambda>_. True)\<rparr>"

definition priced_document :: dict where
  "priced_document = [(''schema_version'', PInt 5),
     (''observations'', PList [PDict (dset ''entry_cost_lamports'' (PInt 1000) example_row)]), (''version'', PInt 0)]"

abbreviation priced_row :: dict where
  "priced_row \<equiv> dset ''entry_cost_lamports'' (PInt 1000) example_row"

lemma priced_document_current: "current_document priced_document" "ledger_rows priced_document = [PDict priced_row]"
proof -
  have "current_row priced_row" unfolding example_row_def
    by (rule current_row_dset [OF discovery_base_row(1)]) (simp add: checked_keys_def)
  then show "current_document priced_document" "ledger_rows priced_document = [PDict priced_row]"
    by (simp_all add: current_document_def priced_document_def current_rows_def ledger_rows_def int_field_def dget_or_def dgetn_def
      OBSERVATION_SCHEMA_VERSION_def)
qed

lemma priced_row_facts:
  "dgetn priced_row ''observation_id'' = PStr (result_observation example_sample)" "\<not> archived_row priced_row"
  "dgetn priced_row ''status'' = PStr ''DISCOVERED''"
proof -
  have "dget example_row ''archived_at'' = None"
    unfolding example_row_def dget_None_keys discovery_keys by code_simp
  then show "\<not> archived_row priced_row" by (simp add: archived_row_def dgetn_def dget_or_def)
  show "dgetn priced_row ''observation_id'' = PStr (result_observation example_sample)"
    using discovery_base_row [of example_discovery "Fin 1000" "''t''" "[]"]
    by (simp add: example_row_def example_discovery_def observation_id_of_def example_sample_def dgetn_def dget_or_def)
  have "dgetn example_row ''status'' = PStr ''DISCOVERED''" by code_simp
  then show "dgetn priced_row ''status'' = PStr ''DISCOVERED''" by (simp add: dgetn_def dget_or_def)
qed

lemma priced_batch:
  "\<exists>ap d. record_sample_batch_mutate [example_sample] (io_clock storing_io FlushPending) priced_document = Inr (ap, d)
     \<and> current_document d \<and> (\<forall>v \<in> set (ledger_rows d). due_of_row now v = Inr [])"
proof -
  let ?clk = "io_clock storing_io FlushPending"
  obtain row' where row': "apply_sample_row example_sample (Fin 0) ''t'' priced_row = Inr (Some row')"
    using example_sample_taken by blast
  have clk: "epoch_times ?clk k = Fin 0" "done_times ?clk k = ''t''" for k by (simp_all add: storing_io_def busy_io_def)
  have a: "apply_samples ?clk [example_sample] [PDict priced_row] = Inr ([PDict row'], [(example_sample, 0)])"
    using row' priced_row_facts(1) by (simp add: apply_samples_def apply_sample_result_def clk)
  have "dget row' ''status'' \<in> {Some (PStr ''COMPLETE''), dget priced_row ''status''}"
    by (rule apply_sample_row_Some [OF row']) (simp add: sampled_row_get)
  then have "dgetn row' ''status'' = PStr ''COMPLETE'' \<or> dgetn row' ''status'' = dgetn priced_row ''status''"
    by (auto simp: dgetn_def dget_or_def)
  then obtain t where t: "dgetn row' ''status'' = PStr t" "t \<noteq> ''PENDING''" using priced_row_facts(3) by auto
  have c: "\<exists>b. classify_row (PDict row') = Inr b" "expirable_row (PDict row') = Inr (t \<notin> set TERMINAL_OBSERVATION_STATUSES \<and> \<not> paper_opened row')"
    using t by (auto simp: classify_row_def expirable_row_def)
  have e: "expire_observation_backlog (expire_clock (row_times ?clk)) [PDict row'] = Inr [PDict row']"
    using c(2) by (auto simp: expire_observation_backlog_def expire_positions_def positions_def MAX_ACTIVE_OBSERVATIONS_def)
  obtain kept where k: "archive_and_retain_observations [PDict row'] = Inr kept" using retain_total [of "[PDict row']"] c(1) by auto
  have s: "set kept \<subseteq> {PDict row'}" using archive_and_retain_Inr [OF k] set_nths_subset by fastforce
  have m: "record_sample_batch_mutate [example_sample] ?clk priced_document
      = Inr ([report_applied [PDict row'] (example_sample, 0)], put_rows kept (stamp_clock (row_times ?clk)) priced_document)"
    using a e k
    by (simp add: record_sample_batch_mutate_def with_rows_current priced_document_current retain_rows_def)
  have "due_of_row now (PDict row') = Inr []" using t by (simp add: due_of_row_def)
  then show ?thesis using m s batch_step.keeps_current [OF priced_document_current(1) m]
    by (intro exI [of _ "[report_applied [PDict row'] (example_sample, 0)]"]
        exI [of _ "put_rows kept (stamp_clock (row_times ?clk)) priced_document"]) auto
qed

lemma due_nothing: "\<forall>v \<in> set vs. due_of_row now v = Inr [] \<Longrightarrow> due_sample_candidates vs now = Inr []"
proof -
  assume "\<forall>v \<in> set vs. due_of_row now v = Inr []"
  then have "\<exists>xss. mapE (due_of_row now) vs = Inr xss \<and> concat xss = []" by (induction vs) auto
  then obtain xss where "mapE (due_of_row now) vs = Inr xss" "concat xss = []" by blast
  then show ?thesis by (simp add: due_sample_candidates_def del: concat_eq_Nil_conv)
qed

lemma nothing_due: "run_due_sample_batch io [] g = (Inr ([], []), g)"
proof -
  have "worker_order io 0 = []" using worker_order_length [of io 0] by simp
  then show ?thesis by (simp add: run_due_sample_batch_def List.map_filter_simps)
qed

lemma storing_cycle:
  "\<exists>st'. cycle_state (observer_cycle storing_io waiting_state (Content (PDict priced_document))) = Inr st' \<and> pending_finalized st' = []"
proof -
  obtain ap d where m: "record_sample_batch_mutate [example_sample] (io_clock storing_io FlushPending) priced_document = Inr (ap, d)"
      "current_document d" "\<forall>v \<in> set (ledger_rows d). due_of_row (io_now storing_io) v = Inr []"
    using priced_batch by blast
  obtain v where store: "store_batch storing_io FlushPending [example_sample] (Content (PDict priced_document))
      = (Inr ap, Content (PDict (dset ''version'' (PInt v) d)))"
  proof -
    have "doc_version priced_document = Inr 0" by (simp add: priced_document_def doc_version_def py_or_def dget_or_def)
    then show thesis using that m(1)
      by (simp add: store_batch_def record_sample_batch_applied_def observation_update_def update_json_def locked_def
          storing_io_def busy_io_def OBSERVATION_SAMPLE_BATCH_SIZE_def example_sample_def interval_labels_def OBSERVATION_INTERVALS_def)
  qed
  define d' where "d' = dset ''version'' (PInt v) d"
  have cur: "current_document d'" "ledger_rows d' = ledger_rows d"
    using m(2) by (simp_all add: d'_def current_document_def int_field_def dget_or_def ledger_rows_def)
  have "due_observation_samples (Content (PDict d')) (io_fallback storing_io ScanDue)
      (migrate_clock (row_times (io_clock storing_io ScanDue))) (io_now storing_io) = Inr []"
    using m(3) cur
    by (simp add: due_observation_samples_def read_observations_snapshot_def migrate_current observation_rows_current
        due_nothing select_due_sample_batch_def fair_recovery_eq by_observation_def round_robin_def)
  moreover have "io_others storing_io = (\<lambda>_ f. f)" by (simp add: storing_io_def busy_io_def)
  ultimately show ?thesis using store
    by (simp add: observer_cycle_def waiting_state_def observe_batch_def nothing_due d'_def)
qed


end
