(* ===== verification/MonitorGates.thy ===== *)
theory MonitorGates
  imports AnalyzerSafety SolanaRpc PyDate "HOL-Library.Sublist" "HOL-Library.Char_ord" "HOL-Library.List_Lexorder"
begin

text \<open>
  The gates and the bookkeeping of \<open>src/monitor.py\<close> that stand between a transaction on the chain and a
  purchase: the window of known signatures, the counters of the web socket, the strength of a purchase by a
  watched wallet, the list of watched wallets, the categories of web socket failures, the safety floor of the
  second route, the cool-down of a token, the size after stop losses, and the start of the wallet feeder.

  Module state (a global, an object of a class) is a record that an operation takes and returns; times are
  the readings of the clock.
\<close>

section \<open>Constants\<close>

definition USDC_MINT :: string where "USDC_MINT = ''EPjFWdd5AufqSSqeM2qN1xzybapC8G4wEGGkZwyTDt1v''"
definition SINGLE_STRENGTH_LAMPORTS :: int where "SINGLE_STRENGTH_LAMPORTS = 1500000000"
definition MIN_ACCUMULATION_TRADE_LAMPORTS :: int where "MIN_ACCUMULATION_TRADE_LAMPORTS = 1000000000"
definition ACCUMULATION_TARGET_LAMPORTS :: int where "ACCUMULATION_TARGET_LAMPORTS = 5000000000"
definition ACCUMULATION_WINDOW_SECONDS :: f64 where "ACCUMULATION_WINDOW_SECONDS = float_lit 180"
definition ROUTE_B_MIN_SAFETY_SCORE :: f64 where "ROUTE_B_MIN_SAFETY_SCORE = Fin 55"
definition ROUTE_B_MIN_LIQUIDITY_USD :: f64 where "ROUTE_B_MIN_LIQUIDITY_USD = float_lit 10000"
definition ROUTE_B_MIN_LP_LOCKED_PERCENT :: f64 where "ROUTE_B_MIN_LP_LOCKED_PERCENT = float_lit 40"
definition TOKEN_TRADE_COOLDOWN_SECONDS :: f64 where "TOKEN_TRADE_COOLDOWN_SECONDS = float_lit 2700"
definition STOP_LOSS_TOKEN_COOLDOWN_SECONDS :: f64 where "STOP_LOSS_TOKEN_COOLDOWN_SECONDS = float_lit 86400"
definition STOP_LOSS_BLACKLIST_MAX_TOKENS :: int where "STOP_LOSS_BLACKLIST_MAX_TOKENS = 50"
definition ROUTE_A_LOSS_SIZE_REDUCTION_STREAK :: nat where "ROUTE_A_LOSS_SIZE_REDUCTION_STREAK = 2"
definition ROUTE_A_PAUSE_STREAK :: nat where "ROUTE_A_PAUSE_STREAK = 3"
definition ROUTE_A_PAUSE_SECONDS :: f64 where "ROUTE_A_PAUSE_SECONDS = float_lit 21600"
definition WALLET_FEEDER_TRIGGER_COUNT :: nat where "WALLET_FEEDER_TRIGGER_COUNT = 17"
definition WALLET_FEEDER_COOLDOWN_SECONDS :: f64 where "WALLET_FEEDER_COOLDOWN_SECONDS = float_lit 7200"
definition HELIUS_RECOVERY_PROBE_SECONDS :: f64 where "HELIUS_RECOVERY_PROBE_SECONDS = float_lit 1800"
definition MAX_SEEN_WALLET_SIGNATURES :: int where "MAX_SEEN_WALLET_SIGNATURES = 10000"

definition WALLET_WS_FAILURE_REASONS :: "string list" where
  "WALLET_WS_FAILURE_REASONS = [''WS_AUTH_FAILED'', ''WS_RATE_LIMITED'', ''WS_HANDSHAKE_FAILED'',
     ''WS_SUBSCRIPTION_FAILED'', ''WS_REMOTE_CLOSED'', ''WS_HEARTBEAT_TIMEOUT'', ''WS_TRANSPORT_ERROR'',
     ''WS_MALFORMED_RESPONSE'']"

definition WALLET_WS_ACTIVITY_KEYS :: "string list" where
  "WALLET_WS_ACTIVITY_KEYS = [''connection_success'', ''subscription_success'', ''subscription_failure'',
     ''notification'', ''dex_log_match'', ''unique_signature'', ''transaction_fetch'',
     ''transaction_restore_success'', ''transaction_restore_failure'', ''transaction_parsed'',
     ''smart_money_candidate'', ''research_discovered'', ''analyzer_reached'', ''analyzer_success'',
     ''analyzer_failure'']"

section \<open>The route of the wallet web socket\<close>

datatype ws_mode = HELIUS_ENHANCED | SOLANA_STANDARD

record ws_route =
  route_mode :: ws_mode
  next_helius_probe_at :: f64

definition uses_standard :: "ws_route \<Rightarrow> bool" where
  "uses_standard r \<longleftrightarrow> route_mode r = SOLANA_STANDARD"

definition activate_standard :: "f64 \<Rightarrow> ws_route \<Rightarrow> ws_route" where
  "activate_standard now r =
     r\<lparr>route_mode := SOLANA_STANDARD, next_helius_probe_at := f64_add now HELIUS_RECOVERY_PROBE_SECONDS\<rparr>"

definition record_failure :: "f64 \<Rightarrow> ws_route \<Rightarrow> ws_route" where
  "record_failure now r =
     (if \<not> uses_standard r then activate_standard now r
      else if f64_le (next_helius_probe_at r) now then r\<lparr>route_mode := HELIUS_ENHANCED\<rparr> else r)"

definition refresh_route :: "f64 \<Rightarrow> ws_route \<Rightarrow> ws_route" where
  "refresh_route now r =
     (if uses_standard r \<and> f64_le (next_helius_probe_at r) now then r\<lparr>route_mode := HELIUS_ENHANCED\<rparr> else r)"

section \<open>The window of signatures\<close>

record signature_window =
  window_maximum :: nat
  window_ordered :: "string list"
  window_seen :: "string set"

text \<open>\<open>SignatureWindow(maximum)\<close>; the sizes the module reports are the length of the queue and its maximum.\<close>

definition new_window :: "int \<Rightarrow> signature_window" where
  "new_window maximum = \<lparr>window_maximum = nat (max 1 maximum), window_ordered = [], window_seen = {}\<rparr>"

text \<open>\<open>while len(ordered) > maximum: seen.discard(ordered.popleft())\<close>.\<close>

fun evict_oldest :: "nat \<Rightarrow> string list \<Rightarrow> string set \<Rightarrow> string list \<times> string set" where
  "evict_oldest m [] seen = ([], seen)"
| "evict_oldest m (x # xs) seen =
     (if m < length (x # xs) then evict_oldest m xs (seen - {x}) else (x # xs, seen))"

definition window_add :: "string \<Rightarrow> signature_window \<Rightarrow> bool \<times> signature_window" where
  "window_add sig w =
     (if sig \<in> window_seen w then (False, w)
      else let (ordered, seen) = evict_oldest (window_maximum w) (window_ordered w @ [sig]) (insert sig (window_seen w))
           in (True, w\<lparr>window_ordered := ordered, window_seen := seen\<rparr>))"

section \<open>The counters of the web socket\<close>

type_synonym counter = "(string \<times> int) list"

text \<open>\<open>d[k] = d.get(k, 0) + 1\<close>.\<close>

definition bump :: "string \<Rightarrow> counter \<Rightarrow> counter" where
  "bump k c = AList.update k ((case map_of c k of None \<Rightarrow> 0 | Some n \<Rightarrow> n) + 1) c"

record ws_activity =
  activity_started_at :: f64
  activity_counts :: counter
  activity_by_source :: "(string \<times> counter) list"
  restore_failures :: "(string \<times> counter) list"

definition reset_wallet_ws_activity :: "f64 \<Rightarrow> ws_activity" where
  "reset_wallet_ws_activity now =
     \<lparr>activity_started_at = now, activity_counts = map (\<lambda>k. (k, 0)) WALLET_WS_ACTIVITY_KEYS,
      activity_by_source = map (\<lambda>k. (k, [])) WALLET_WS_ACTIVITY_KEYS, restore_failures = []\<rparr>"

definition record_wallet_ws_activity :: "string \<Rightarrow> string \<Rightarrow> ws_activity \<Rightarrow> ws_activity res" where
  "record_wallet_ws_activity name source a =
     (if name \<notin> set WALLET_WS_ACTIVITY_KEYS then Inl (ValueError ''unsupported wallet WebSocket activity metric'')
      else case (map_of (activity_counts a) name, map_of (activity_by_source a) name) of
        (Some n, Some per_source) \<Rightarrow>
          Inr (a\<lparr>activity_counts := AList.update name (n + 1) (activity_counts a),
                 activity_by_source := AList.update name (bump (take 80 source) per_source) (activity_by_source a)\<rparr>)
      | _ \<Rightarrow> Inl (KeyError name))"

text \<open>The category of a transaction that could not be restored: the error of the call, or none of both.\<close>

definition restore_failure_reason :: "rpc_error option \<Rightarrow> string" where
  "restore_failure_reason err = (case err of
     None \<Rightarrow> ''RPC_GET_TRANSACTION_NOT_AVAILABLE''
   | Some e \<Rightarrow> (case canonical_rpc_failure_reason e of None \<Rightarrow> ''RPC_GET_TRANSACTION_FAILED'' | Some r \<Rightarrow> r))"

definition record_transaction_restore_failure ::
  "string \<Rightarrow> rpc_error option \<Rightarrow> ws_activity \<Rightarrow> (string \<times> ws_activity) res" where
  "record_transaction_restore_failure source err a =
     (let provider = take 80 source; reason = restore_failure_reason err in
      bindE (record_wallet_ws_activity ''transaction_restore_failure'' provider a) (\<lambda>a.
      let reasons = (case map_of (restore_failures a) provider of None \<Rightarrow> [] | Some c \<Rightarrow> c) in
      Inr (reason, a\<lparr>restore_failures := AList.update provider (bump reason reasons) (restore_failures a)\<rparr>)))"

definition counter_dict :: "counter \<Rightarrow> py" where
  "counter_dict c = PDict (map (\<lambda>(k, n). (k, PInt n)) (sort_key fst c))"

definition wallet_ws_activity_metrics :: "ws_activity \<Rightarrow> dict res" where
  "wallet_ws_activity_metrics a =
     bindE (mapE (\<lambda>name. case (map_of (activity_counts a) name, map_of (activity_by_source a) name) of
         (Some n, Some per_source) \<Rightarrow>
           Inr [(''wallet_ws_'' @ name @ ''_process_count'', PInt n),
                (''wallet_ws_'' @ name @ ''_counts_by_source'', counter_dict per_source)]
       | _ \<Rightarrow> Inl (KeyError name)) (sort WALLET_WS_ACTIVITY_KEYS)) (\<lambda>rows.
     Inr ([(''wallet_ws_activity_started_at'', PFloat (activity_started_at a))] @ concat rows
          @ [(''wallet_ws_transaction_restore_failure_reasons_by_source'',
              PDict (map (\<lambda>(source, reasons). (source, counter_dict reasons)) (sort_key fst (restore_failures a))))]))"

section \<open>The watched wallets\<close>

text \<open>
  \<open>load_wallets\<close>: the document is an object with a list \<open>wallets\<close> or a list itself.  \<open>valid\<close> is the
  library's check of a public key.
\<close>

fun wallet_entry :: "(string \<Rightarrow> bool) \<Rightarrow> py \<Rightarrow> string option" where
  "wallet_entry valid (PDict entry) =
     (if dgetn entry ''verified'' = PBool False then None
      else case dgetn entry ''address'' of PStr address \<Rightarrow> (if valid address then Some address else None) | _ \<Rightarrow> None)"
| "wallet_entry valid (PStr address) = (if valid address then Some address else None)"
| "wallet_entry valid _ = None"

text \<open>\<open>dict.fromkeys\<close>: the first occurrence of each.\<close>

fun first_occurrences :: "string list \<Rightarrow> string list" where
  "first_occurrences [] = []"
| "first_occurrences (x # xs) = x # filter (\<lambda>y. y \<noteq> x) (first_occurrences xs)"

definition wallet_entries :: "py \<Rightarrow> py list res" where
  "wallet_entries document =
     (case (case document of PDict d \<Rightarrow> dget_or d ''wallets'' (PList []) | v \<Rightarrow> v) of
        PList entries \<Rightarrow> Inr entries
      | _ \<Rightarrow> Inl (RuntimeError ''wallets.json must contain a 'wallets' list''))"

definition load_wallets :: "(string \<Rightarrow> bool) \<Rightarrow> state_file \<Rightarrow> string list res" where
  "load_wallets valid f = (case f of
     Missing \<Rightarrow> Inl (RuntimeError ''Wallet file not found'')
   | Malformed \<Rightarrow> Inl (RuntimeError ''Wallet file contains invalid JSON'')
   | Content document \<Rightarrow>
       bindE (wallet_entries document) (\<lambda>entries.
       let result = first_occurrences (List.map_filter (wallet_entry valid) entries) in
       if result = [] then Inl (RuntimeError ''No valid wallets found'') else Inr result))"

section \<open>The strength of a purchase\<close>

type_synonym whale_key = "string \<times> py"

record whale_gate =
  whale_history :: "(whale_key \<times> (f64 \<times> int) list) list"
  last_history_cleanup_at :: f64

definition empty_gate :: whale_gate where
  "empty_gate = \<lparr>whale_history = [], last_history_cleanup_at = Fin 0\<rparr>"

text \<open>\<open>while buffered and buffered[0][0] < cutoff: buffered.popleft()\<close>.\<close>

definition drop_before :: "f64 \<Rightarrow> (f64 \<times> int) list \<Rightarrow> (f64 \<times> int) list" where
  "drop_before cutoff h = dropWhile (\<lambda>e. f64_lt (fst e) cutoff) h"

text \<open>Once a minute every history is cleaned, and the empty ones are removed.\<close>

definition clean_histories :: "f64 \<Rightarrow> whale_gate \<Rightarrow> whale_gate" where
  "clean_histories now g =
     (if f64_le (Fin 60) (f64_sub now (last_history_cleanup_at g))
      then \<lparr>whale_history = filter (\<lambda>(k, h). h \<noteq> [])
              (map (\<lambda>(k, h). (k, drop_before (f64_sub now ACCUMULATION_WINDOW_SECONDS) h)) (whale_history g)),
            last_history_cleanup_at = now\<rparr>
      else g)"

definition history_of :: "whale_gate \<Rightarrow> whale_key \<Rightarrow> (f64 \<times> int) list" where
  "history_of g k = (case map_of (whale_history g) k of None \<Rightarrow> [] | Some h \<Rightarrow> h)"

definition put_history :: "whale_key \<Rightarrow> (f64 \<times> int) list \<Rightarrow> whale_gate \<Rightarrow> whale_gate" where
  "put_history k h g = g\<lparr>whale_history := AList.update k h (whale_history g)\<rparr>"

definition drop_history :: "whale_key \<Rightarrow> whale_gate \<Rightarrow> whale_gate" where
  "drop_history k g = g\<lparr>whale_history := AList.delete k (whale_history g)\<rparr>"

definition whale_buy_amount_allowed :: "int \<Rightarrow> whale_key \<Rightarrow> f64 \<Rightarrow> whale_gate \<Rightarrow> bool \<times> whale_gate" where
  "whale_buy_amount_allowed paid_lamports k now g =
     (let g = clean_histories now g;
          history = drop_before (f64_sub now ACCUMULATION_WINDOW_SECONDS) (history_of g k) in
      if paid_lamports \<le> MIN_ACCUMULATION_TRADE_LAMPORTS
      then (False, if history = [] then drop_history k g else put_history k history g)
      else let history = history @ [(now, paid_lamports)] in
        if SINGLE_STRENGTH_LAMPORTS \<le> paid_lamports then (True, put_history k history g)
        else if ACCUMULATION_TARGET_LAMPORTS \<le> sum_list (map snd history) then (True, drop_history k g)
        else (False, put_history k history g))"

section \<open>Failures of the web socket\<close>

text \<open>
  The classes of exceptions the code tells apart, with the attributes it reads: \<open>canonical_reason\<close>, the status
  of the response and a status of the exception itself (\<open>None\<close> where there is none).
\<close>

datatype ws_error_kind = HandshakeError | MalformedJson | ConnectionClosedError string | OtherWsError

record ws_error =
  ws_kind :: ws_error_kind
  ws_reason :: py
  response_status :: py
  own_status :: py

definition websocket_http_status :: "ws_error \<Rightarrow> int option" where
  "websocket_http_status e =
     (let raw = (if response_status e = PNone then own_status e else response_status e) in
      if raw = PNone then None else case py_int raw of Inl _ \<Rightarrow> None | Inr i \<Rightarrow> Some i)"

definition websocket_subscription_failure_reason :: "py \<Rightarrow> string" where
  "websocket_subscription_failure_reason payload =
     (let error = (case payload of PDict d \<Rightarrow> d | _ \<Rightarrow> []);
          code = (case py_int (dgetn error ''code'') of Inl _ \<Rightarrow> 0 | Inr i \<Rightarrow> i);
          message = upper (str_field error ''message'' (PStr [])) in
      if code \<in> {401, 403} \<or> contains message ''AUTH'' \<or> contains message ''API KEY'' then ''WS_AUTH_FAILED''
      else if code = 429 \<or> contains message ''RATE LIMIT'' \<or> contains message ''TOO MANY'' then ''WS_RATE_LIMITED''
      else ''WS_SUBSCRIPTION_FAILED'')"

definition closed_reason :: "string \<Rightarrow> string" where
  "closed_reason text =
     (if contains (upper text) ''PING TIMEOUT'' \<or> contains (upper text) ''HEARTBEAT''
      then ''WS_HEARTBEAT_TIMEOUT'' else ''WS_REMOTE_CLOSED'')"

definition canonical_websocket_failure_reason :: "ws_error \<Rightarrow> string" where
  "canonical_websocket_failure_reason e =
     (let explicit = py_str (py_or (ws_reason e) (PStr [])) in
      if explicit \<in> set WALLET_WS_FAILURE_REASONS then explicit
      else case websocket_http_status e of
        Some status \<Rightarrow> (if status \<in> {401, 403} then ''WS_AUTH_FAILED''
          else if status = 429 then ''WS_RATE_LIMITED''
          else (case ws_kind e of HandshakeError \<Rightarrow> ''WS_HANDSHAKE_FAILED'' | MalformedJson \<Rightarrow> ''WS_MALFORMED_RESPONSE''
                | ConnectionClosedError text \<Rightarrow> closed_reason text | OtherWsError \<Rightarrow> ''WS_TRANSPORT_ERROR''))
      | None \<Rightarrow> (case ws_kind e of HandshakeError \<Rightarrow> ''WS_HANDSHAKE_FAILED'' | MalformedJson \<Rightarrow> ''WS_MALFORMED_RESPONSE''
                | ConnectionClosedError text \<Rightarrow> closed_reason text | OtherWsError \<Rightarrow> ''WS_TRANSPORT_ERROR''))"

definition failure_metrics :: "string \<Rightarrow> f64 \<Rightarrow> dict \<Rightarrow> dict res" where
  "failure_metrics cat now metrics =
     bindE (int_field metrics ''wallet_ws_reconnect_count'' 0) (\<lambda>reconnects.
     let metrics = dset ''wallet_ws_reconnect_count'' (PInt (reconnects + 1)) metrics in
     bindE (int_field metrics ''wallet_ws_consecutive_failures'' 0) (\<lambda>failures.
     Inr (dset ''wallet_ws_state_changed_at'' (PFloat now)
       (dset ''wallet_ws_state'' (PStr ''RECONNECTING'')
       (dset ''wallet_ws_last_failure_category'' (PStr cat)
       (dset ''wallet_ws_last_failure_at'' (PFloat now)
       (dset ''wallet_ws_consecutive_failures'' (PInt (failures + 1)) metrics)))))))"

definition record_wallet_ws_failure_mutate :: "string \<Rightarrow> f64 \<Rightarrow> unit mutator" where
  "record_wallet_ws_failure_mutate cat now document =
     (let document = dsetdefault ''metrics'' (PDict []) (dsetdefault ''schema_version'' (PInt 2) document) in
      case dgetn document ''metrics'' of
        PDict metrics \<Rightarrow> bindE (failure_metrics cat now metrics) (\<lambda>metrics.
          Inr ((), dset ''metrics'' (PDict metrics) document))
      | _ \<Rightarrow> Inl (RuntimeError ''global metrics are malformed''))"

definition record_wallet_ws_failure :: "string \<Rightarrow> f64 \<Rightarrow> bool \<Rightarrow> state_file \<Rightarrow> unit res \<times> state_file" where
  "record_wallet_ws_failure reason now lk f =
     (let cat = upper reason in
      if cat \<notin> set WALLET_WS_FAILURE_REASONS
      then (Inl (ValueError ''unsupported wallet WebSocket failure reason''), f)
      else case update_json ''global_metrics.json'' lk f metrics_fallback
                  (record_wallet_ws_failure_mutate cat now) None of
          (Inl e, f') \<Rightarrow> (Inl e, f')
        | (Inr _, f') \<Rightarrow> (Inr (), f'))"

section \<open>The gates of an entry\<close>

text \<open>\<open>_float_or_none\<close>: an integer too large for a float raises, as it does in the code.\<close>

definition finite_float_or_none :: "py \<Rightarrow> f64 option res" where
  "finite_float_or_none v = (case v of PNone \<Rightarrow> Inr None
     | _ \<Rightarrow> (case py_float v of
          Inl e \<Rightarrow> (if is_value_or_type_error e then Inr None else Inl e)
        | Inr x \<Rightarrow> Inr (if f64_is_finite x then Some x else None)))"

definition at_least :: "f64 \<Rightarrow> f64 option \<Rightarrow> bool" where
  "at_least minimum x = (case x of None \<Rightarrow> False | Some v \<Rightarrow> \<not> f64_lt v minimum)"

definition route_b_safety_filter :: "safety_report \<Rightarrow> bool res" where
  "route_b_safety_filter report =
     bindE (finite_float_or_none (PInt (safety_score report))) (\<lambda>score.
     bindE (finite_float_or_none (opt_str (report_liquidity_usd report))) (\<lambda>liquidity.
     bindE (finite_float_or_none (opt_str (lp_locked_percent report))) (\<lambda>locked.
     Inr (at_least ROUTE_B_MIN_SAFETY_SCORE score \<and> at_least ROUTE_B_MIN_LIQUIDITY_USD liquidity
          \<and> at_least ROUTE_B_MIN_LP_LOCKED_PERCENT locked))))"

text \<open>\<open>token_cooldown_is_active\<close>: the two reads take the lock of the ledger in turn; any exception blocks the entry.\<close>

definition younger_than :: "f64 \<Rightarrow> f64 \<Rightarrow> f64 \<Rightarrow> bool" where
  "younger_than seconds now since \<longleftrightarrow> f64_lt (Fin 0) since \<and> f64_lt (f64_sub now since) seconds"

definition token_cooldown_is_active :: "bool \<Rightarrow> bool \<Rightarrow> state_file \<Rightarrow> string \<Rightarrow> f64 \<Rightarrow> bool" where
  "token_cooldown_is_active lk1 lk2 f m now =
     (case bindE (get_recent_stop_loss_time lk1 f m STOP_LOSS_BLACKLIST_MAX_TOKENS) (\<lambda>stopped.
           bindE (get_last_trade_time lk2 f m) (\<lambda>traded. Inr (stopped, traded))) of
        Inl _ \<Rightarrow> True
      | Inr (stopped, traded) \<Rightarrow>
          younger_than STOP_LOSS_TOKEN_COOLDOWN_SECONDS now stopped \<or> younger_than TOKEN_TRADE_COOLDOWN_SECONDS now traded)"

definition route_a_entry_multiplier :: "nat \<Rightarrow> f64 \<Rightarrow> f64 \<Rightarrow> decimal option" where
  "route_a_entry_multiplier loss_streak latest_loss_at now =
     (if ROUTE_A_PAUSE_STREAK \<le> loss_streak \<and> younger_than ROUTE_A_PAUSE_SECONDS now latest_loss_at then None
      else if ROUTE_A_LOSS_SIZE_REDUCTION_STREAK \<le> loss_streak then Some (Dec (1 / 2)) else Some (Dec 1))"

section \<open>The wallet feeder\<close>

record feeder_io =
  service_stopping :: bool
  feeder_now :: f64
  count_lock :: bool
  metric_lock :: bool
  claim_lock :: bool
  process_start :: "unit res"

definition last_feeder_run :: "feeder_io \<Rightarrow> state_file \<Rightarrow> f64 res" where
  "last_feeder_run io metrics =
     bindE (get_global_metric (metric_lock io) metrics ''last_wallet_feeder_run_time'' (PInt 0)) (\<lambda>raw.
       catchE (py_float (py_or raw (PInt 0))) is_value_or_type_error (\<lambda>_. Inr (Fin 0)))"

text \<open>The result, and the file of the metrics: \<open>process_start\<close> is the outcome of starting the process.\<close>

definition trigger_wallet_feeder_if_needed :: "feeder_io \<Rightarrow> state_file \<Rightarrow> state_file \<Rightarrow> bool \<times> state_file" where
  "trigger_wallet_feeder_if_needed io wallets metrics =
     (if service_stopping io then (False, metrics)
      else case get_active_wallets_count (count_lock io) wallets of
        Inl _ \<Rightarrow> (False, metrics)
      | Inr active_count \<Rightarrow>
          (if WALLET_FEEDER_TRIGGER_COUNT < active_count then (False, metrics)
           else case last_feeder_run io metrics of
             Inl _ \<Rightarrow> (False, metrics)
           | Inr last_run \<Rightarrow>
               (if f64_lt (f64_sub (feeder_now io) last_run) WALLET_FEEDER_COOLDOWN_SECONDS then (False, metrics)
                else case claim_global_interval (claim_lock io) metrics ''last_wallet_feeder_run_time''
                            (feeder_now io) WALLET_FEEDER_COOLDOWN_SECONDS of
                  (Inl _, metrics) \<Rightarrow> (False, metrics)
                | (Inr claimed, metrics) \<Rightarrow> (claimed \<and> process_start io = Inr (), metrics))))"

end
