(* ===== verification/MonitorTrades.thy ===== *)
theory MonitorTrades
  imports MonitorGates Executor
begin

text \<open>
  From a transaction to signals, \<open>src/monitor.py\<close>: the accounts and balances of a transaction, the purchases of
  watched wallets in it, the registry of signal tasks, and the scheduling of a signal.

  \<open>print_buys\<close> changes the state of the module and starts tasks: the state is a record, a started task is an
  effect in its list, and an exception leaves the changes made before it.  The text it prints is not modelled.
\<close>

definition MAX_PENDING_SHADOW_SIGNALS :: nat where "MAX_PENDING_SHADOW_SIGNALS = 40"
definition DISCOVERY_SOURCE_HELIUS :: string where "DISCOVERY_SOURCE_HELIUS = ''helius_transaction_subscribe''"
definition DISCOVERY_SOURCE_SOLANA :: string where "DISCOVERY_SOURCE_SOLANA = ''solana_logs_subscribe''"

section \<open>Transactions\<close>

text \<open>\<open>d.get(k) or {}\<close> as an object whose \<open>get\<close> is called, and \<open>d.get(k) or []\<close> as something iterated.\<close>

definition dict_or_empty :: "dict \<Rightarrow> string \<Rightarrow> dict res" where
  "dict_or_empty d k = as_dict (py_or (dgetn d k) (PDict []))"

definition rows_or_empty :: "dict \<Rightarrow> string \<Rightarrow> py list res" where
  "rows_or_empty d k = py_iter (py_or (dgetn d k) (PList []))"

fun account_key :: "py \<Rightarrow> py" where
  "account_key (PDict item) = dget_or item ''pubkey'' (PStr [])"
| "account_key item = PStr (py_str item)"

definition account_keys :: "dict \<Rightarrow> py list res" where
  "account_keys message =
     bindE (py_iter (dget_or message ''accountKeys'' (PList []))) (\<lambda>items. Inr (map account_key items))"

definition raw_token_amount :: "dict \<Rightarrow> (int \<times> int) res" where
  "raw_token_amount balance =
     bindE (dict_or_empty balance ''uiTokenAmount'') (\<lambda>ui.
     bindE (py_int (dget_or ui ''amount'' (PStr ''0''))) (\<lambda>amount.
     bindE (py_int (dget_or ui ''decimals'' (PInt 0))) (\<lambda>decimals. Inr (amount, decimals))))"

text \<open>The totals by mint; a list or an object cannot be a key.\<close>

type_synonym deltas = "(py \<times> int \<times> int) list"

fun hashable :: "py \<Rightarrow> bool" where
  "hashable (PList _) = False" | "hashable (PDict _) = False" | "hashable _ = True"

definition add_delta :: "py \<Rightarrow> int \<Rightarrow> int \<Rightarrow> deltas \<Rightarrow> deltas" where
  "add_delta m amount decimals totals =
     AList.update m ((case map_of totals m of None \<Rightarrow> 0 | Some (held, _) \<Rightarrow> held) + amount, decimals) totals"

definition delta_row :: "string \<Rightarrow> int \<Rightarrow> deltas \<Rightarrow> py \<Rightarrow> deltas res" where
  "delta_row wallet side totals v =
     bindE (as_dict v) (\<lambda>balance.
     if dgetn balance ''owner'' \<noteq> PStr wallet then Inr totals
     else let m = dgetn balance ''mint'' in
       if \<not> truthy m then Inr totals
       else bindE (raw_token_amount balance) (\<lambda>(amount, decimals).
         if \<not> hashable m then Inl TypeError else Inr (add_delta m (side * amount) decimals totals)))"

definition wallet_token_deltas :: "dict \<Rightarrow> string \<Rightarrow> deltas res" where
  "wallet_token_deltas meta wallet =
     bindE (rows_or_empty meta ''preTokenBalances'') (\<lambda>pre.
     bindE (foldE (delta_row wallet (- 1)) [] pre) (\<lambda>totals.
     bindE (rows_or_empty meta ''postTokenBalances'') (\<lambda>post.
     bindE (foldE (delta_row wallet 1) totals post) (\<lambda>totals.
       Inr (filter (\<lambda>(m, amount, decimals). amount \<noteq> 0) totals)))))"

definition signature_of :: "dict \<Rightarrow> string res" where
  "signature_of result =
     bindE (dict_or_empty result ''transaction'') (\<lambda>transaction.
     case py_or (dgetn transaction ''signatures'') (PList []) of
       PList [] \<Rightarrow> Inr ''unknown''
     | PList (s # _) \<Rightarrow> Inr (py_str s)
     | PStr (c # _) \<Rightarrow> Inr [c]
     | PDict _ \<Rightarrow> Inl (KeyError ''0'')
     | _ \<Rightarrow> Inl TypeError)"

definition route_report_allowed :: "string \<Rightarrow> string option \<Rightarrow> bool" where
  "route_report_allowed requested_route analyzed_route =
     (if requested_route = ''A'' then analyzed_route = Some ''A''
      else if requested_route = ''B'' then analyzed_route \<in> {Some ''A'', Some ''B''} else False)"

text \<open>\<open>len(v)\<close> and \<open>v[i]\<close>.\<close>

fun py_len :: "py \<Rightarrow> nat res" where
  "py_len (PList xs) = Inr (length xs)"
| "py_len (PStr s) = Inr (length s)"
| "py_len (PDict d) = Inr (length d)"
| "py_len _ = Inl TypeError"

fun py_index :: "py \<Rightarrow> nat \<Rightarrow> py res" where
  "py_index (PList xs) i = (if i < length xs then Inr (xs ! i) else Inl IndexError)"
| "py_index (PStr s) i = (if i < length s then Inr (PStr [s ! i]) else Inl IndexError)"
| "py_index (PDict _) i = Inl (KeyError (dec_int (int i)))"
| "py_index _ i = Inl TypeError"

text \<open>
  What the wallet at an index of the accounts paid in SOL, without the fee of the transaction; nothing when the
  balances do not reach the index.
\<close>

definition balances_reach :: "dict \<Rightarrow> nat \<Rightarrow> bool res" where
  "balances_reach meta index =
     (let pre = py_or (dgetn meta ''preBalances'') (PList []); post = py_or (dgetn meta ''postBalances'') (PList []) in
      bindE (py_len pre) (\<lambda>m. if m \<le> index then Inr False else bindE (py_len post) (\<lambda>n. Inr (index < n))))"

definition native_outflow :: "dict \<Rightarrow> nat \<Rightarrow> py \<Rightarrow> int res" where
  "native_outflow meta index fee_value =
     (let pre = py_or (dgetn meta ''preBalances'') (PList []); post = py_or (dgetn meta ''postBalances'') (PList []) in
      bindE (if index = 0 then py_int fee_value else Inr 0) (\<lambda>fee.
      bindE (bindE (py_index pre index) py_int) (\<lambda>held_before.
      bindE (bindE (py_index post index) py_int) (\<lambda>held_after. Inr (held_before - held_after - fee)))))"

section \<open>Signal tasks\<close>

text \<open>Tasks are numbered in the order of their creation.\<close>

record task_registry =
  signal_tasks :: "nat set"
  shadow_tasks :: "nat set"
  tasks_created :: nat
  tasks_completed :: nat
  shadows_created :: nat
  shadows_completed :: nat

definition no_tasks :: task_registry where
  "no_tasks = \<lparr>signal_tasks = {}, shadow_tasks = {}, tasks_created = 0, tasks_completed = 0,
     shadows_created = 0, shadows_completed = 0\<rparr>"

definition track_signal_task :: "bool \<Rightarrow> task_registry \<Rightarrow> task_registry" where
  "track_signal_task shadow r =
     (let i = tasks_created r;
          r = r\<lparr>signal_tasks := insert i (signal_tasks r), tasks_created := tasks_created r + 1\<rparr> in
      if shadow then r\<lparr>shadow_tasks := insert i (shadow_tasks r), shadows_created := shadows_created r + 1\<rparr> else r)"

definition release_signal_task :: "nat \<Rightarrow> bool \<Rightarrow> task_registry \<Rightarrow> task_registry" where
  "release_signal_task i shadow r =
     (let r = r\<lparr>signal_tasks := signal_tasks r - {i}, tasks_completed := tasks_completed r + 1\<rparr> in
      if shadow then r\<lparr>shadow_tasks := shadow_tasks r - {i}, shadows_completed := shadows_completed r + 1\<rparr> else r)"

record paper_signal =
  ps_mint :: py
  ps_amount :: int
  ps_decimals :: int
  ps_paid :: int
  ps_wallet :: string
  ps_signature :: string
  ps_detected :: string
  ps_route :: string
  ps_momentum :: f64
  ps_metrics :: py
  ps_collection :: py
  ps_prefilter :: "string list"
  ps_source :: "string option"

datatype started_task = ObserveBuy string py int int string | PaperSignal paper_signal

record monitor_state =
  gate :: whale_gate
  activity :: ws_activity
  registry :: task_registry
  started :: "started_task list"
  readings :: nat

record monitor_clock =
  monotonic :: "nat \<Rightarrow> f64"
  utc_text :: "nat \<Rightarrow> string"
  epoch_time :: "nat \<Rightarrow> f64"

text \<open>A signal of the first route; \<open>stopping\<close> is the module's flag.\<close>

definition schedule_paper_signal ::
  "bool \<Rightarrow> monitor_clock \<Rightarrow> py \<Rightarrow> int \<Rightarrow> int \<Rightarrow> int \<Rightarrow> string \<Rightarrow> string \<Rightarrow> string list \<Rightarrow> string \<Rightarrow> 'm monitor_state_scheme \<Rightarrow> 'm monitor_state_scheme" where
  "schedule_paper_signal stopping clk m acquired_raw decimals paid wallet sig prefilter source s =
     (if stopping then s
      else if prefilter \<noteq> [] \<and> MAX_PENDING_SHADOW_SIGNALS \<le> card (shadow_tasks (registry s)) then s
      else s\<lparr>registry := track_signal_task (prefilter \<noteq> []) (registry s),
             started := started s @ [PaperSignal \<lparr>ps_mint = m, ps_amount = acquired_raw, ps_decimals = decimals,
               ps_paid = paid, ps_wallet = wallet, ps_signature = sig, ps_detected = utc_text clk (readings s),
               ps_route = ''A'', ps_momentum = Fin 0, ps_metrics = PNone, ps_collection = PNone,
               ps_prefilter = prefilter, ps_source = Some source\<rparr>],
             readings := readings s + 1\<rparr>)"

section \<open>The purchases in a transaction\<close>

definition quote_tokens :: "py set" where
  "quote_tokens = {PStr WSOL_MINT, PStr USDC_MINT}"

definition acquired_tokens :: "deltas \<Rightarrow> deltas" where
  "acquired_tokens d = filter (\<lambda>(m, raw, decimals). 0 < raw) d"

text \<open>The payment in wrapped SOL: the first one given away with nine decimals.\<close>

definition wsol_paid :: "deltas \<Rightarrow> int" where
  "wsol_paid d = (case filter (\<lambda>(m, raw, decimals). raw < 0 \<and> m = PStr WSOL_MINT \<and> decimals = 9) d of
     [] \<Rightarrow> 0 | (m, raw, decimals) # _ \<Rightarrow> - raw)"

fun account_index :: "'a \<Rightarrow> 'a list \<Rightarrow> nat" where
  "account_index x [] = 0"
| "account_index x (y # ys) = (if x = y then 0 else Suc (account_index x ys))"

definition paid_lamports_of :: "dict \<Rightarrow> py list \<Rightarrow> string \<Rightarrow> deltas \<Rightarrow> int res" where
  "paid_lamports_of meta keys wallet d =
     (let index = account_index (PStr wallet) keys in
      bindE (balances_reach meta index) (\<lambda>reach.
      if \<not> reach then Inr (wsol_paid d)
      else bindE (native_outflow meta index (dget_or meta ''fee'' (PInt 0))) (\<lambda>lamports.
        Inr (if 0 < lamports \<and> wsol_paid d \<le> 0 then lamports else wsol_paid d))))"

text \<open>A loop whose body may raise after it changed the state.\<close>

fun each :: "('a \<Rightarrow> 's \<Rightarrow> exc option \<times> 's) \<Rightarrow> 'a list \<Rightarrow> 's \<Rightarrow> exc option \<times> 's" where
  "each f [] s = (None, s)"
| "each f (x # xs) s = (case f x s of (Some e, s) \<Rightarrow> (Some e, s) | (None, s) \<Rightarrow> each f xs s)"

definition observe_task :: "string \<Rightarrow> py \<Rightarrow> int \<Rightarrow> int \<Rightarrow> string \<Rightarrow> 'm monitor_state_scheme \<Rightarrow> 'm monitor_state_scheme" where
  "observe_task wallet m raw paid sig s =
     s\<lparr>registry := track_signal_task False (registry s), started := started s @ [ObserveBuy wallet m raw paid sig]\<rparr>"

text \<open>
  The exception of the text of an amount, \<open>decimal_amount\<close>: the power of ten or the quotient leaves the exponents of the
  decimal context, from -1000026 to 999999.  \<open>decimal.Overflow\<close> is \<open>OverflowError\<close> here; a power that is rounded to zero
  divides by zero.  An amount of more than a million digits cannot be read from the transaction.
\<close>

definition decimal_text_error :: "int \<Rightarrow> int \<Rightarrow> exc option" where
  "decimal_text_error raw decimals =
     (if 0 \<le> decimals then (if decimals \<le> 999999 then None else Some OverflowError)
      else if decimals < - 1000026 then Some ZeroDivisionError
      else if 999999 < dec_exp (dec_round (of_int raw)) - decimals then Some OverflowError
      else None)"

text \<open>The text of the payment lists the quote tokens that were given away; the first amount without a text raises.\<close>

definition payment_text_error :: "deltas \<Rightarrow> exc option" where
  "payment_text_error d =
     (case List.map_filter (\<lambda>(m, raw, decimals). decimal_text_error (- raw) decimals)
         (filter (\<lambda>(m, raw, decimals). raw < 0 \<and> m \<in> quote_tokens) d) of
        [] \<Rightarrow> None | e # _ \<Rightarrow> Some e)"

definition report_purchase ::
  "bool \<Rightarrow> monitor_clock \<Rightarrow> string \<Rightarrow> string \<Rightarrow> string \<Rightarrow> int \<Rightarrow> py \<times> int \<times> int \<Rightarrow> 'm monitor_state_scheme \<Rightarrow> exc option \<times> 'm monitor_state_scheme" where
  "report_purchase stopping clk sig source wallet paid = (\<lambda>(m, raw, decimals) s.
     if m \<in> quote_tokens then (None, s)
     else if decimal_text_error raw decimals \<noteq> None then (decimal_text_error raw decimals, s)
     else if paid \<le> 0
     then (None, schedule_paper_signal stopping clk m raw decimals 0 wallet sig [''PAYMENT_UNRESOLVED''] source s)
     else let s = observe_task wallet m raw paid sig s;
              (allowed, g) = whale_buy_amount_allowed paid (wallet, m) (monotonic clk (readings s)) (gate s);
              s = s\<lparr>gate := g, readings := readings s + 1\<rparr> in
       case record_wallet_ws_activity ''smart_money_candidate'' source (activity s) of
         Inl e \<Rightarrow> (Some e, s)
       | Inr a \<Rightarrow> (None, schedule_paper_signal stopping clk m raw decimals paid wallet sig
             (if allowed then [] else [''WHALE_AMOUNT_FILTER_REJECTED'']) source (s\<lparr>activity := a\<rparr>)))"

definition wallet_purchases ::
  "bool \<Rightarrow> monitor_clock \<Rightarrow> string \<Rightarrow> string \<Rightarrow> py \<Rightarrow> py list \<Rightarrow> string \<Rightarrow> 'm monitor_state_scheme \<Rightarrow> exc option \<times> 'm monitor_state_scheme" where
  "wallet_purchases stopping clk sig source meta keys wallet s =
     (case bindE (as_dict meta) (\<lambda>meta. bindE (wallet_token_deltas meta wallet) (\<lambda>d. Inr (meta, d))) of
        Inl e \<Rightarrow> (Some e, s)
      | Inr (meta, d) \<Rightarrow> (if acquired_tokens d = [] then (None, s)
          else if payment_text_error d \<noteq> None then (payment_text_error d, s)
          else case paid_lamports_of meta keys wallet d of
            Inl e \<Rightarrow> (Some e, s)
          | Inr paid \<Rightarrow> each (report_purchase stopping clk sig source wallet paid) (acquired_tokens d) s))"

text \<open>\<open>watched\<close> lists the watched wallets in the order the set is traversed.\<close>

definition print_buys ::
  "bool \<Rightarrow> monitor_clock \<Rightarrow> dict \<Rightarrow> string list \<Rightarrow> string \<Rightarrow> 'm monitor_state_scheme \<Rightarrow> exc option \<times> 'm monitor_state_scheme" where
  "print_buys stopping clk result watched source s =
     (case bindE (dict_or_empty result ''transaction'') (\<lambda>transaction.
           bindE (dict_or_empty transaction ''message'') (\<lambda>message.
           bindE (account_keys message) (\<lambda>keys.
           bindE (signature_of result) (\<lambda>sig.
           if list_all hashable keys then Inr (py_or (dgetn result ''meta'') (PDict []), keys, sig) else Inl TypeError)))) of
        Inl e \<Rightarrow> (Some e, s)
      | Inr (meta, keys, sig) \<Rightarrow>
          each (wallet_purchases stopping clk sig source meta keys) (filter (\<lambda>w. PStr w \<in> set keys) watched) s)"

end
