(* ===== verification/MonitorGateFacts.thy ===== *)
theory MonitorGateFacts
  imports MonitorGates
begin

text \<open>
  What the gates of the monitor promise: the window of signatures is a bounded queue of the last accepted
  ones; the counters by source add up to the totals; the list of wallets is what the file verifies; a whale's
  purchase passes by its own strength or by at least five SOL of recent trades that count once; every failure
  of the web socket has a known category and is counted; a stopped token stays out for a day, and an
  unreadable ledger keeps every token out; the wallet feeder starts once per interval.
\<close>

section \<open>The window of signatures\<close>

definition window_ok :: "signature_window \<Rightarrow> bool" where
  "window_ok w \<longleftrightarrow> distinct (window_ordered w) \<and> window_seen w = set (window_ordered w)
     \<and> length (window_ordered w) \<le> window_maximum w \<and> 0 < window_maximum w"

lemma evict_oldest_eq:
  "distinct xs \<Longrightarrow> evict_oldest m xs (set xs) = (take_last m xs, set (take_last m xs))"
proof (induction xs)
  case (Cons x xs)
  then have "set (x # xs) - {x} = set xs" by auto
  with Cons show ?case by (auto simp: take_last_def Suc_diff_le not_less)
qed (simp add: take_last_def)

fun window_run :: "string list \<Rightarrow> signature_window \<Rightarrow> bool list \<times> signature_window" where
  "window_run [] w = ([], w)"
| "window_run (sig # sigs) w =
     (let (new, w') = window_add sig w; (rest, w'') = window_run sigs w' in (new # rest, w''))"

text \<open>The reference: a signature is new when it is not among the last \<open>m\<close> new ones before it.\<close>

fun new_signatures :: "nat \<Rightarrow> string list \<Rightarrow> string list \<Rightarrow> bool list" where
  "new_signatures m accepted [] = []"
| "new_signatures m accepted (sig # sigs) =
     (if sig \<in> set (take_last m accepted) then False # new_signatures m accepted sigs
      else True # new_signatures m (accepted @ [sig]) sigs)"

lemma take_last_snoc: "0 < m \<Longrightarrow> take_last m (take_last m xs @ [x]) = take_last m (xs @ [x])"
proof -
  assume m: "0 < m"
  have a: "take_last m (take_last m xs @ [x]) = drop (Suc (min (length xs) m) - m) (drop (length xs - m) xs @ [x])"
    by (simp add: take_last_def min_def)
  show ?thesis
  proof (cases "m \<le> length xs")
    case True
    then show ?thesis using a m by (simp add: take_last_def Suc_diff_le)
  next
    case False
    then show ?thesis using a m by (simp add: take_last_def)
  qed
qed

lemma distinct_take_last: "distinct xs \<Longrightarrow> distinct (take_last m xs)"
  by (simp add: take_last_def)

lemma window_add_eq:
  assumes "window_ordered w = take_last (window_maximum w) accepted" "window_ok w"
  shows "window_add sig w = (if sig \<in> set (take_last (window_maximum w) accepted) then (False, w)
     else (True, w\<lparr>window_ordered := take_last (window_maximum w) (accepted @ [sig]),
                   window_seen := set (take_last (window_maximum w) (accepted @ [sig]))\<rparr>))"
proof (cases "sig \<in> window_seen w")
  case False
  have "insert sig (window_seen w) = set (window_ordered w @ [sig])" "distinct (window_ordered w @ [sig])"
    using assms(2) False by (auto simp: window_ok_def)
  with evict_oldest_eq [of "window_ordered w @ [sig]" "window_maximum w"]
  have "evict_oldest (window_maximum w) (window_ordered w @ [sig]) (insert sig (window_seen w))
      = (take_last (window_maximum w) (accepted @ [sig]), set (take_last (window_maximum w) (accepted @ [sig])))"
    using assms take_last_snoc [of "window_maximum w" accepted sig] by (simp add: window_ok_def)
  then show ?thesis using False assms by (simp add: window_add_def window_ok_def)
qed (use assms in \<open>simp add: window_add_def window_ok_def\<close>)

lemma window_ok_add: "window_ok w \<Longrightarrow> window_ok (snd (window_add sig w))"
proof -
  assume w: "window_ok w"
  have d: "sig \<notin> window_seen w \<Longrightarrow> distinct (window_ordered w @ [sig])" using w by (simp add: window_ok_def)
  show ?thesis
  proof (cases "sig \<in> window_seen w")
    case False
    have e: "insert sig (window_seen w) = set (window_ordered w @ [sig])" using w by (auto simp: window_ok_def)
    show ?thesis using False w evict_oldest_eq [OF d [OF False], of "window_maximum w"]
      by (simp add: window_add_def e window_ok_def distinct_take_last [OF d [OF False]] take_last_length)
  qed (use w in \<open>simp add: window_add_def\<close>)
qed

lemma window_maximum_add [simp]: "window_maximum (snd (window_add sig w)) = window_maximum w"
  by (simp add: window_add_def split: prod.splits)

lemma window_run_eq:
  assumes "window_ok w" "window_ordered w = take_last (window_maximum w) accepted"
  shows "fst (window_run sigs w) = new_signatures (window_maximum w) accepted sigs \<and> window_ok (snd (window_run sigs w))
     \<and> window_maximum (snd (window_run sigs w)) = window_maximum w"
  using assms
proof (induction sigs arbitrary: w accepted)
  case (Cons sig sigs)
  note add = window_add_eq [OF Cons.prems(2,1), of sig]
  show ?case
  proof (cases "sig \<in> set (take_last (window_maximum w) accepted)")
    case True
    then have "window_add sig w = (False, w)" using add by simp
    then show ?thesis using True Cons.IH [OF Cons.prems] by (simp add: Let_def case_prod_beta)
  next
    case False
    define w' where "w' = snd (window_add sig w)"
    have eq: "window_add sig w = (True, w')" using False add by (simp add: w'_def)
    have ok: "window_ok w'" "window_maximum w' = window_maximum w"
      using window_ok_add [OF Cons.prems(1)] by (simp_all add: w'_def)
    have "window_ordered w' = take_last (window_maximum w') (accepted @ [sig])"
      using False add ok(2) by (simp add: w'_def)
    from Cons.IH [OF ok(1) this] show ?thesis using False eq ok(2) by (simp add: Let_def case_prod_beta)
  qed
qed simp

text \<open>C28: over any stream of notifications the window suppresses a signature exactly when it is among the
  last accepted ones, as many as the window holds, and it never holds more than its maximum.\<close>

theorem signature_window_is_the_recent_stream:
  "fst (window_run sigs (new_window maximum)) = new_signatures (nat (max 1 maximum)) [] sigs
   \<and> length (window_ordered (snd (window_run sigs (new_window maximum)))) \<le> nat (max 1 maximum)
   \<and> window_seen (snd (window_run sigs (new_window maximum)))
       = set (window_ordered (snd (window_run sigs (new_window maximum))))"
proof -
  have "window_ok (new_window maximum)" "window_ordered (new_window maximum) = take_last (window_maximum (new_window maximum)) []"
    by (simp_all add: window_ok_def new_window_def take_last_def)
  from window_run_eq [OF this, of sigs] show ?thesis by (auto simp: window_ok_def new_window_def)
qed

section \<open>The counters of the web socket\<close>

datatype ws_event = Activity string string | RestoreFailure string "rpc_error option"

fun ws_event_step :: "ws_activity \<Rightarrow> ws_event \<Rightarrow> ws_activity res" where
  "ws_event_step a (Activity name source) = record_wallet_ws_activity name source a"
| "ws_event_step a (RestoreFailure source err) = bindE (record_transaction_restore_failure source err a) (\<lambda>(r, a). Inr a)"

definition activity_ok :: "ws_activity \<Rightarrow> bool" where
  "activity_ok a \<longleftrightarrow> (\<forall>name \<in> set WALLET_WS_ACTIVITY_KEYS. \<exists>c. map_of (activity_by_source a) name = Some c
     \<and> map_of (activity_counts a) name = Some (sum_list (map snd c)))"

lemma sum_update: "sum_list (map snd (AList.update k v c)) =
    sum_list (map snd c) - (case map_of c k of None \<Rightarrow> 0 | Some n \<Rightarrow> n) + (v :: int)"
  by (induction c) auto

lemma sum_bump: "sum_list (map snd (bump k c)) = sum_list (map snd c) + 1"
  by (simp add: bump_def sum_update split: option.splits)

lemma record_activity_ok:
  assumes "activity_ok a" "record_wallet_ws_activity name source a = Inr a'"
  shows "activity_ok a'"
proof -
  have n: "name \<in> set WALLET_WS_ACTIVITY_KEYS"
    using assms(2) by (auto simp: record_wallet_ws_activity_def split: if_splits)
  then obtain c where c: "map_of (activity_by_source a) name = Some c"
      "map_of (activity_counts a) name = Some (sum_list (map snd c))"
    using assms(1) by (auto simp: activity_ok_def)
  have "a' = a\<lparr>activity_counts := AList.update name (sum_list (map snd c) + 1) (activity_counts a),
      activity_by_source := AList.update name (bump (take 80 source) c) (activity_by_source a)\<rparr>"
    using assms(2) n c by (simp add: record_wallet_ws_activity_def)
  then show ?thesis using assms(1) by (auto simp: activity_ok_def update_conv sum_bump)
qed

lemma ws_event_ok: "activity_ok a \<Longrightarrow> ws_event_step a e = Inr a' \<Longrightarrow> activity_ok a'"
proof (cases e)
  case (RestoreFailure source err)
  assume a: "activity_ok a" "ws_event_step a e = Inr a'"
  obtain b where "record_wallet_ws_activity ''transaction_restore_failure'' (take 80 source) a = Inr b"
      "activity_counts a' = activity_counts b" "activity_by_source a' = activity_by_source b"
    using a(2) RestoreFailure by (auto simp: record_transaction_restore_failure_def Let_def bindE_eq_Inr)
  with record_activity_ok [OF a(1)] show ?thesis by (auto simp: activity_ok_def)
qed (auto intro: record_activity_ok)

lemma reset_activity_ok: "activity_ok (reset_wallet_ws_activity now)"
  by (simp add: activity_ok_def reset_wallet_ws_activity_def WALLET_WS_ACTIVITY_KEYS_def)

text \<open>The counters by source add up to the totals, and the report of the heartbeat can always be made.\<close>

lemma activity_counts_add_up:
  assumes "foldE ws_event_step (reset_wallet_ws_activity now) events = Inr a"
  shows "activity_ok a \<and> (\<exists>d. wallet_ws_activity_metrics a = Inr d)"
proof -
  have ok: "activity_ok a"
    using foldE_invariant [where P = activity_ok, OF assms reset_activity_ok] ws_event_ok by blast
  have "\<exists>rows. mapE (\<lambda>name. case (map_of (activity_counts a) name, map_of (activity_by_source a) name) of
         (Some n, Some per_source) \<Rightarrow>
           Inr [(''wallet_ws_'' @ name @ ''_process_count'', PInt n),
                (''wallet_ws_'' @ name @ ''_counts_by_source'', counter_dict per_source)]
       | _ \<Rightarrow> Inl (KeyError name)) names = Inr rows" if "set names \<subseteq> set WALLET_WS_ACTIVITY_KEYS" for names
    using that
  proof (induction names)
    case (Cons name names)
    then obtain c where "map_of (activity_by_source a) name = Some c"
        "map_of (activity_counts a) name = Some (sum_list (map snd c))"
      using ok by (auto simp: activity_ok_def)
    with Cons show ?case by auto
  qed simp
  from this [of "sort WALLET_WS_ACTIVITY_KEYS"] ok show ?thesis
    by (auto simp: wallet_ws_activity_metrics_def)
qed

section \<open>The watched wallets\<close>

lemma set_first_occurrences [simp]: "set (first_occurrences xs) = set xs"
  by (induction xs) auto

lemma distinct_first_occurrences: "distinct (first_occurrences xs)"
  by (induction xs) auto

lemma wallet_entry_Some:
  "wallet_entry valid v = Some a \<longleftrightarrow> valid a \<and> (v = PStr a \<or> (\<exists>d. v = PDict d \<and> dgetn d ''address'' = PStr a
     \<and> dgetn d ''verified'' \<noteq> PBool False))"
  by (cases v) (auto split: py.splits if_splits)

text \<open>the wallets the monitor watches are distinct valid keys, each named by the file as a plain string or by
  a row that is not marked unverified; every such key is watched; and an unreadable, malformed or empty file
  is an error, never an empty watch list.\<close>

theorem watched_wallets_are_verified:
  "case load_wallets valid f of
     Inl e \<Rightarrow> (\<exists>t. e = RuntimeError t)
   | Inr wallets \<Rightarrow> wallets \<noteq> [] \<and> distinct wallets \<and>
       (\<exists>document entries. f = Content document \<and> wallet_entries document = Inr entries \<and>
         (\<forall>a. a \<in> set wallets \<longleftrightarrow> valid a \<and> (PStr a \<in> set entries \<or> (\<exists>d. PDict d \<in> set entries
            \<and> dgetn d ''address'' = PStr a \<and> dgetn d ''verified'' \<noteq> PBool False))))"
proof (cases f)
  case (Content document)
  show ?thesis
  proof (cases "wallet_entries document")
    case (Inl e)
    then have "\<exists>t. e = RuntimeError t" by (auto simp: wallet_entries_def split: py.splits)
    then show ?thesis using Content Inl by (simp add: load_wallets_def)
  next
    case (Inr entries)
    let ?w = "first_occurrences (List.map_filter (wallet_entry valid) entries)"
    have s: "a \<in> set ?w \<longleftrightarrow> (\<exists>v \<in> set entries. wallet_entry valid v = Some a)" for a
      by (force simp: List.map_filter_def)
    show ?thesis
    proof (cases "?w = []")
      case True
      then show ?thesis using Content Inr by (simp add: load_wallets_def Let_def)
    next
      case False
      then have "load_wallets valid f = Inr ?w" using Content Inr by (simp add: load_wallets_def Let_def)
      then show ?thesis using False Content Inr distinct_first_occurrences
        by (simp add: s wallet_entry_Some del: set_first_occurrences) blast
    qed
  qed
qed (simp_all add: load_wallets_def)

section \<open>The strength of a purchase\<close>

lemma subseq_set: "subseq xs ys \<Longrightarrow> set xs \<subseteq> set ys"
  by (induction rule: list_emb.induct) auto

lemma subseq_sorted_wrt: "subseq xs ys \<Longrightarrow> sorted_wrt P ys \<Longrightarrow> sorted_wrt P xs"
  by (induction rule: list_emb.induct) (auto dest: subseq_set)

record whale_trade =
  whale_key :: whale_key
  whale_paid :: int
  whale_at :: f64

definition gate_step :: "whale_trade \<Rightarrow> whale_gate \<Rightarrow> bool \<times> whale_gate" where
  "gate_step x g = whale_buy_amount_allowed (whale_paid x) (whale_key x) (whale_at x) g"

definition gate_state :: "whale_trade list \<Rightarrow> whale_gate \<Rightarrow> whale_gate" where
  "gate_state trades g = fold (\<lambda>x g. snd (gate_step x g)) trades g"

text \<open>The trades of a key that were approved by accumulation, not by their own strength.\<close>

fun accumulated :: "whale_key \<Rightarrow> whale_trade list \<Rightarrow> whale_gate \<Rightarrow> nat" where
  "accumulated k [] g = 0"
| "accumulated k (x # xs) g =
     (if fst (gate_step x g) \<and> whale_key x = k \<and> whale_paid x < SINGLE_STRENGTH_LAMPORTS then 1 else 0)
     + accumulated k xs (snd (gate_step x g))"

definition noticed :: "whale_key \<Rightarrow> whale_trade \<Rightarrow> bool" where
  "noticed k x \<longleftrightarrow> whale_key x = k \<and> MIN_ACCUMULATION_TRADE_LAMPORTS < whale_paid x"

definition gate_ok :: "whale_gate \<Rightarrow> bool" where
  "gate_ok g \<longleftrightarrow> distinct (map fst (whale_history g))"

lemma drop_before_idem [simp]: "drop_before c (drop_before c h) = drop_before c h"
  by (simp add: drop_before_def dropWhile_idem)

lemma map_of_cleaned:
  "distinct (map fst H) \<Longrightarrow> map_of (filter (\<lambda>(k, h). h \<noteq> []) (map (\<lambda>(k, h). (k, F h)) H)) k =
     (case map_of H k of None \<Rightarrow> None | Some h \<Rightarrow> if F h = [] then None else Some (F h))"
proof (induction H)
  case (Cons p H)
  obtain j h where p: "p = (j, h)" by (cases p)
  show ?case
  proof (cases "j = k")
    case True
    then have "map_of H k = None" using Cons.prems p by (simp add: map_of_eq_None_iff)
    then show ?thesis using Cons p True by simp
  next
    case False
    then show ?thesis using Cons p by simp
  qed
qed simp

lemma history_clean:
  assumes "gate_ok g"
  shows "history_of (clean_histories now g) k =
    (if f64_le (Fin 60) (f64_sub now (last_history_cleanup_at g))
     then drop_before (f64_sub now ACCUMULATION_WINDOW_SECONDS) (history_of g k) else history_of g k)"
proof -
  note m = map_of_cleaned [of "whale_history g" "drop_before (f64_sub now ACCUMULATION_WINDOW_SECONDS)" k]
  have e: "drop_before c [] = []" for c by (simp add: drop_before_def)
  show ?thesis using assms m
    by (cases "map_of (whale_history g) k") (simp_all add: clean_histories_def history_of_def gate_ok_def e)
qed

lemma gate_ok_clean: "gate_ok g \<Longrightarrow> gate_ok (clean_histories now g)"
proof -
  assume g: "gate_ok g"
  have "distinct (map fst (filter P (map (\<lambda>(k, h). (k, F h)) H)))" if "distinct (map fst H)"
    for P and F :: "(f64 \<times> int) list \<Rightarrow> (f64 \<times> int) list" and H :: "(whale_key \<times> (f64 \<times> int) list) list"
  proof -
    have "map fst (map (\<lambda>(k, h). (k, F h)) H) = map fst H" by (simp add: case_prod_unfold o_def)
    with that show ?thesis by (metis distinct_map_filter)
  qed
  from this [of "whale_history g"] g show ?thesis by (simp add: gate_ok_def clean_histories_def)
qed

lemma history_put [simp]: "history_of (put_history k h g) k' = (if k' = k then h else history_of g k')"
  by (simp add: history_of_def put_history_def update_conv)

lemma history_drop [simp]: "history_of (drop_history k g) k' = (if k' = k then [] else history_of g k')"
  by (simp add: history_of_def drop_history_def delete_conv)

lemma gate_ok_put: "gate_ok g \<Longrightarrow> gate_ok (put_history k h g)" "gate_ok g \<Longrightarrow> gate_ok (drop_history k g)"
  by (simp_all add: gate_ok_def put_history_def drop_history_def distinct_update distinct_delete)

definition live :: "whale_trade \<Rightarrow> whale_gate \<Rightarrow> (f64 \<times> int) list" where
  "live x g = drop_before (f64_sub (whale_at x) ACCUMULATION_WINDOW_SECONDS) (history_of g (whale_key x))"

lemma gate_step_eq:
  assumes "gate_ok g"
  shows "fst (gate_step x g) \<longleftrightarrow> MIN_ACCUMULATION_TRADE_LAMPORTS < whale_paid x \<and>
      (SINGLE_STRENGTH_LAMPORTS \<le> whale_paid x
       \<or> ACCUMULATION_TARGET_LAMPORTS \<le> sum_list (map snd (live x g)) + whale_paid x)"
    and "history_of (snd (gate_step x g)) (whale_key x) =
      (if whale_paid x \<le> MIN_ACCUMULATION_TRADE_LAMPORTS then live x g
       else if fst (gate_step x g) \<and> whale_paid x < SINGLE_STRENGTH_LAMPORTS then []
       else live x g @ [(whale_at x, whale_paid x)])"
    and "k \<noteq> whale_key x \<Longrightarrow> history_of (snd (gate_step x g)) k = history_of (clean_histories (whale_at x) g) k"
    and "gate_ok (snd (gate_step x g))"
proof -
  have l: "drop_before (f64_sub (whale_at x) ACCUMULATION_WINDOW_SECONDS)
      (history_of (clean_histories (whale_at x) g) (whale_key x)) = live x g"
    using history_clean [OF assms] by (simp add: live_def)
  show "fst (gate_step x g) \<longleftrightarrow> MIN_ACCUMULATION_TRADE_LAMPORTS < whale_paid x \<and>
      (SINGLE_STRENGTH_LAMPORTS \<le> whale_paid x
       \<or> ACCUMULATION_TARGET_LAMPORTS \<le> sum_list (map snd (live x g)) + whale_paid x)"
    by (auto simp: gate_step_def whale_buy_amount_allowed_def Let_def l)
  show "history_of (snd (gate_step x g)) (whale_key x) =
      (if whale_paid x \<le> MIN_ACCUMULATION_TRADE_LAMPORTS then live x g
       else if fst (gate_step x g) \<and> whale_paid x < SINGLE_STRENGTH_LAMPORTS then []
       else live x g @ [(whale_at x, whale_paid x)])"
    by (auto simp: gate_step_def whale_buy_amount_allowed_def Let_def l)
  show "k \<noteq> whale_key x \<Longrightarrow> history_of (snd (gate_step x g)) k = history_of (clean_histories (whale_at x) g) k"
    by (auto simp: gate_step_def whale_buy_amount_allowed_def Let_def l)
  show "gate_ok (snd (gate_step x g))"
    using gate_ok_clean [OF assms, of "whale_at x"]
    by (auto simp: gate_step_def whale_buy_amount_allowed_def Let_def l intro: gate_ok_put)
qed

text \<open>A history holds the noticed trades of its key, in order, and what an approval by accumulation used is gone.\<close>

definition entry_of :: "whale_trade \<Rightarrow> f64 \<times> int" where
  "entry_of x = (whale_at x, whale_paid x)"

definition holds_trades :: "whale_trade list \<Rightarrow> whale_gate \<Rightarrow> bool" where
  "holds_trades past g \<longleftrightarrow> gate_ok g \<and>
     (\<forall>k. \<exists>ys. subseq ys past \<and> (\<forall>y \<in> set ys. noticed k y) \<and> history_of g k = map entry_of ys)"

lemma holds_tradesD:
  "holds_trades past g \<Longrightarrow> \<exists>ys. subseq ys past \<and> (\<forall>y \<in> set ys. noticed k y) \<and> history_of g k = map entry_of ys"
  unfolding holds_trades_def by blast

lemma drop_before_map:
  "\<exists>zs. subseq zs ys \<and> drop_before c (map entry_of ys) = map entry_of zs"
  by (rule exI [of _ "dropWhile (\<lambda>y. f64_lt (fst (entry_of y)) c) ys"])
    (auto simp: drop_before_def dropWhile_map o_def intro: suffix_imp_subseq suffix_dropWhile)

lemma holds_tradesE:
  assumes "holds_trades past g"
  obtains ys where "subseq ys past" "\<forall>y \<in> set ys. noticed k y" "drop_before c (history_of g k) = map entry_of ys"
proof -
  obtain ys where ys: "subseq ys past" "\<forall>y \<in> set ys. noticed k y" "history_of g k = map entry_of ys"
    using holds_tradesD [OF assms] by blast
  obtain zs where zs: "subseq zs ys" "drop_before c (map entry_of ys) = map entry_of zs" using drop_before_map by blast
  have "subseq zs past" using zs(1) ys(1) by (rule subseq_order.order_trans)
  moreover have "\<forall>y \<in> set zs. noticed k y" using ys(2) zs(1) by (auto dest: subseq_set)
  ultimately show ?thesis using that zs(2) ys(3) by simp
qed

lemma holds_trades_step:
  assumes "holds_trades past g"
  shows "holds_trades (past @ [x]) (snd (gate_step x g))"
proof -
  have g: "gate_ok g" using assms by (simp add: holds_trades_def)
  have sub: "subseq ys past \<Longrightarrow> subseq ys (past @ [x])" for ys by (auto intro: subseq_order.order_trans)
  have "\<exists>ys. subseq ys (past @ [x]) \<and> (\<forall>y \<in> set ys. noticed k y) \<and> history_of (snd (gate_step x g)) k = map entry_of ys" for k
  proof (cases "k = whale_key x")
    case True
    obtain ys where ys: "subseq ys past" "\<forall>y \<in> set ys. noticed k y" "live x g = map entry_of ys"
      using holds_tradesE [OF assms] unfolding live_def True by blast
    note h = gate_step_eq(2) [OF g, of x]
    show ?thesis
    proof (cases "whale_paid x \<le> MIN_ACCUMULATION_TRADE_LAMPORTS")
      case True
      then show ?thesis using h ys sub \<open>k = whale_key x\<close> by (intro exI [of _ ys]) simp
    next
      case big: False
      show ?thesis
      proof (cases "fst (gate_step x g) \<and> whale_paid x < SINGLE_STRENGTH_LAMPORTS")
        case True
        then show ?thesis using h big \<open>k = whale_key x\<close> by (intro exI [of _ "[]"]) simp
      next
        case False
        have "noticed k x" using big \<open>k = whale_key x\<close> by (simp add: noticed_def)
        moreover have "subseq (ys @ [x]) (past @ [x])" using ys(1) by (simp add: subseq_append)
        ultimately show ?thesis using h ys big False \<open>k = whale_key x\<close>
          by (intro exI [of _ "ys @ [x]"]) (auto simp: entry_of_def)
      qed
    qed
  next
    case False
    then have e: "history_of (snd (gate_step x g)) k = history_of (clean_histories (whale_at x) g) k"
      by (rule gate_step_eq(3) [OF g])
    obtain ys where "subseq ys past" "\<forall>y \<in> set ys. noticed k y" "history_of g k = map entry_of ys"
      using holds_tradesD [OF assms] by blast
    moreover obtain zs where "subseq zs past" "\<forall>y \<in> set zs. noticed k y"
        "drop_before (f64_sub (whale_at x) ACCUMULATION_WINDOW_SECONDS) (history_of g k) = map entry_of zs"
      using holds_tradesE [OF assms] by blast
    ultimately show ?thesis using sub e history_clean [OF g] by (metis (full_types))
  qed
  then show ?thesis using gate_step_eq(4) [OF g] by (simp add: holds_trades_def)
qed

lemma holds_trades_state: "holds_trades past g \<Longrightarrow> holds_trades (past @ xs) (gate_state xs g)"
proof (induction xs arbitrary: past g)
  case (Cons x xs)
  from Cons.IH [OF holds_trades_step [OF Cons.prems, of x]] show ?case by (simp add: gate_state_def)
qed (simp add: gate_state_def)

lemma holds_trades_empty: "holds_trades [] empty_gate"
  by (simp add: holds_trades_def gate_ok_def empty_gate_def history_of_def)

lemma f64_not_less_trans: "\<not> f64_lt a c \<Longrightarrow> f64_le a b \<Longrightarrow> \<not> f64_lt b c"
  using f64_le_Fin_trans [of a b c] by (cases a; cases b; cases c) (auto simp: f64_lt_def)

lemma sorted_drop_before:
  assumes "sorted_wrt (\<lambda>a b. f64_le (whale_at a) (whale_at b)) ys" "drop_before c (map entry_of ys) = map entry_of zs"
    "subseq zs ys" "z \<in> set zs"
  shows "\<not> f64_lt (whale_at z) c"
  using assms
proof (induction ys arbitrary: zs z)
  case (Cons y ys)
  show ?case
  proof (cases "f64_lt (whale_at y) c")
    case True
    then have d: "drop_before c (map entry_of ys) = map entry_of zs"
      using Cons.prems(2) by (simp add: drop_before_def) (simp add: entry_of_def)
    obtain ws where ws: "subseq ws ys" "drop_before c (map entry_of ys) = map entry_of ws" using drop_before_map by blast
    have "map fst (map entry_of zs) = map fst (map entry_of ws)" using d ws(2) by simp
    then have "map whale_at zs = map whale_at ws" by (simp add: entry_of_def o_def)
    moreover have "whale_at z \<in> set (map whale_at zs)" using Cons.prems(4) by simp
    ultimately have "whale_at z \<in> set (map whale_at ws)" by (simp only:)
    then obtain w where "w \<in> set ws" "whale_at w = whale_at z" by auto
    with Cons.IH [of ws w] Cons.prems(1) ws show ?thesis by simp
  next
    case False
    have "set zs \<subseteq> set (y # ys)" using Cons.prems(3) by (rule subseq_set)
    then have "z = y \<or> f64_le (whale_at y) (whale_at z)" using Cons.prems(1,4) by auto
    then show ?thesis using False f64_not_less_trans by blast
  qed
qed (auto dest: subseq_set)

lemma sum_entries: "sum_list (map snd (map entry_of ys)) = sum_list (map whale_paid ys)"
  by (simp add: entry_of_def o_def)

text \<open>The lamports of the noticed trades of a key.\<close>

definition noticed_sum :: "whale_key \<Rightarrow> whale_trade list \<Rightarrow> int" where
  "noticed_sum k xs = sum_list (map whale_paid (filter (noticed k) xs))"

definition positive_history :: "whale_gate \<Rightarrow> bool" where
  "positive_history g \<longleftrightarrow> gate_ok g \<and> (\<forall>k. \<forall>e \<in> set (history_of g k). 0 < snd e)"

lemma sum_drop_before: "\<forall>e \<in> set h. 0 < snd e \<Longrightarrow> sum_list (map snd (drop_before c h)) \<le> sum_list (map snd h)"
proof (induction h)
  case (Cons e h)
  then show ?case by (auto simp: drop_before_def)
qed (simp add: drop_before_def)

lemma set_drop_before: "set (drop_before c h) \<subseteq> set h"
  by (auto simp: drop_before_def dest: set_dropWhileD)

lemma positive_step: "positive_history g \<Longrightarrow> positive_history (snd (gate_step x g))"
proof -
  assume g: "positive_history g"
  then have ok: "gate_ok g" by (simp add: positive_history_def)
  have "0 < snd e" if "e \<in> set (history_of (snd (gate_step x g)) k)" for e k
  proof (cases "k = whale_key x")
    case True
    have "e \<in> set (live x g) \<or> e = (whale_at x, whale_paid x) \<and> MIN_ACCUMULATION_TRADE_LAMPORTS < whale_paid x"
      using that gate_step_eq(2) [OF ok, of x] True by (auto split: if_splits)
    moreover have "0 < snd e" if "e \<in> set (live x g)"
      using that g set_drop_before unfolding live_def positive_history_def by blast
    ultimately show ?thesis by (auto simp: MIN_ACCUMULATION_TRADE_LAMPORTS_def)
  next
    case False
    then have "e \<in> set (history_of g k)"
      using that gate_step_eq(3) [OF ok False] history_clean [OF ok]
      by (auto split: if_splits dest: set_drop_before [THEN subsetD])
    then show ?thesis using g unfolding positive_history_def by blast
  qed
  then show ?thesis using gate_step_eq(4) [OF ok] by (simp add: positive_history_def)
qed

lemma step_value:
  assumes "positive_history g"
  shows "int (accumulated k [x] g) * ACCUMULATION_TARGET_LAMPORTS + sum_list (map snd (history_of (snd (gate_step x g)) k))
    \<le> sum_list (map snd (history_of g k)) + noticed_sum k [x]"
proof -
  have ok: "gate_ok g" and pos: "\<And>k e. e \<in> set (history_of g k) \<Longrightarrow> 0 < snd e"
    using assms by (auto simp: positive_history_def)
  have d: "sum_list (map snd (drop_before c (history_of g k))) \<le> sum_list (map snd (history_of g k))" for c
    using pos by (intro sum_drop_before) blast
  show ?thesis
  proof (cases "k = whale_key x")
    case True
    have l: "sum_list (map snd (live x g)) \<le> sum_list (map snd (history_of g k))" using d by (simp add: live_def True)
    show ?thesis using l gate_step_eq(1,2) [OF ok, of x] True
      by (auto simp: noticed_sum_def noticed_def)
  next
    case False
    have "sum_list (map snd (history_of (snd (gate_step x g)) k)) \<le> sum_list (map snd (history_of g k))"
      using gate_step_eq(3) [OF ok False] history_clean [OF ok] d by simp
    then show ?thesis using False by (simp add: noticed_sum_def noticed_def)
  qed
qed

lemma accumulated_value:
  assumes "positive_history g"
  shows "int (accumulated k xs g) * ACCUMULATION_TARGET_LAMPORTS + sum_list (map snd (history_of (gate_state xs g) k))
    \<le> sum_list (map snd (history_of g k)) + noticed_sum k xs"
  using assms
proof (induction xs arbitrary: g)
  case (Cons x xs)
  have "noticed_sum k (x # xs) = noticed_sum k [x] + noticed_sum k xs" by (simp add: noticed_sum_def)
  moreover have "accumulated k (x # xs) g = accumulated k [x] g + accumulated k xs (snd (gate_step x g))" by simp
  ultimately show ?case using step_value [OF Cons.prems, of k x] Cons.IH [OF positive_step [OF Cons.prems], of x]
    by (simp add: gate_state_def algebra_simps del: accumulated.simps)
qed (simp add: gate_state_def noticed_sum_def)

text \<open>C29: after any stream of trades, a purchase of a watched wallet passes only if it is larger than one SOL and
  either at least 1.5 SOL itself, or the trades of the same wallet and token above one SOL, none older than
  three minutes, add up to at least five SOL with it; and trades that were approved by accumulation are not
  counted again: the approvals by accumulation of a wallet and token, at five SOL each, are covered by the sum
  of its trades.\<close>

theorem whale_approval_is_earned:
  assumes "sorted_wrt (\<lambda>a b. f64_le (whale_at a) (whale_at b)) (trades @ [x])"
    and "fst (gate_step x (gate_state trades empty_gate))"
  shows "MIN_ACCUMULATION_TRADE_LAMPORTS < whale_paid x
    \<and> (SINGLE_STRENGTH_LAMPORTS \<le> whale_paid x
       \<or> (\<exists>ys. subseq ys trades \<and> (\<forall>y \<in> set ys. noticed (whale_key x) y
              \<and> \<not> f64_lt (whale_at y) (f64_sub (whale_at x) ACCUMULATION_WINDOW_SECONDS))
            \<and> ACCUMULATION_TARGET_LAMPORTS \<le> sum_list (map whale_paid ys) + whale_paid x))
    \<and> int (accumulated k (trades @ [x]) empty_gate) * ACCUMULATION_TARGET_LAMPORTS \<le> noticed_sum k (trades @ [x])"
proof -
  let ?g = "gate_state trades empty_gate" let ?c = "f64_sub (whale_at x) ACCUMULATION_WINDOW_SECONDS"
  have h: "holds_trades trades ?g" using holds_trades_state [OF holds_trades_empty, of trades] by simp
  then have ok: "gate_ok ?g" by (simp add: holds_trades_def)
  note step = gate_step_eq(1) [OF ok, of x]
  obtain ys where ys: "subseq ys trades" "\<forall>y \<in> set ys. noticed (whale_key x) y" "history_of ?g (whale_key x) = map entry_of ys"
    using holds_tradesD [OF h] by blast
  obtain zs where zs: "subseq zs ys" "drop_before ?c (map entry_of ys) = map entry_of zs" using drop_before_map by blast
  have "sorted_wrt (\<lambda>a b. f64_le (whale_at a) (whale_at b)) ys"
    using assms(1) ys(1) by (auto simp: sorted_wrt_append intro: subseq_sorted_wrt)
  then have fresh: "\<not> f64_lt (whale_at z) ?c" if "z \<in> set zs" for z using sorted_drop_before zs that by blast
  have sum: "sum_list (map snd (live x ?g)) = sum_list (map whale_paid zs)"
    by (simp add: live_def ys(3) zs(2) sum_entries del: map_map)
  have zt: "subseq zs trades" using zs(1) ys(1) by (rule subseq_order.order_trans)
  have zn: "\<forall>z \<in> set zs. noticed (whale_key x) z" using ys(2) zs(1) by (auto dest: subseq_set)
  have "positive_history empty_gate" by (simp add: positive_history_def gate_ok_def empty_gate_def history_of_def)
  from accumulated_value [OF this, of k "trades @ [x]"]
  have "int (accumulated k (trades @ [x]) empty_gate) * ACCUMULATION_TARGET_LAMPORTS
      + sum_list (map snd (history_of (gate_state (trades @ [x]) empty_gate) k)) \<le> noticed_sum k (trades @ [x])"
    by (simp add: empty_gate_def history_of_def)
  moreover have "0 \<le> sum_list (map snd (history_of (gate_state (trades @ [x]) empty_gate) k))"
  proof -
    obtain us where "\<forall>u \<in> set us. noticed k u" "history_of (gate_state (trades @ [x]) empty_gate) k = map entry_of us"
      using holds_tradesD [OF holds_trades_state [OF holds_trades_empty, of "trades @ [x]"]] by blast
    moreover have "\<forall>u \<in> set us. 0 \<le> whale_paid u"
      using calculation(1) by (auto simp: noticed_def MIN_ACCUMULATION_TRADE_LAMPORTS_def)
    ultimately show ?thesis by (auto simp: entry_of_def intro!: sum_list_nonneg)
  qed
  ultimately show ?thesis using step assms(2) sum zt zn fresh by auto
qed

definition example_trade :: "int \<Rightarrow> rat \<Rightarrow> whale_trade" where
  "example_trade paid t = \<lparr>whale_key = (''w'', PStr ''m''), whale_paid = paid, whale_at = Fin t\<rparr>"

theorem whale_approval_is_earned_witness:
  "\<exists>ys. ACCUMULATION_TARGET_LAMPORTS \<le> sum_list (map whale_paid ys) + 1300000000
     \<and> subseq ys [example_trade 1300000000 1000, example_trade 1300000000 1010, example_trade 1300000000 1020]"
proof -
  let ?ts = "[example_trade 1300000000 1000, example_trade 1300000000 1010, example_trade 1300000000 1020]"
  let ?x = "example_trade 1300000000 1030"
  have "sorted_wrt (\<lambda>a b. f64_le (whale_at a) (whale_at b)) (?ts @ [?x])" by (simp add: example_trade_def)
  moreover have "fst (gate_step ?x (gate_state ?ts empty_gate))" by code_simp
  ultimately have "SINGLE_STRENGTH_LAMPORTS \<le> whale_paid ?x
      \<or> (\<exists>ys. subseq ys ?ts \<and> ACCUMULATION_TARGET_LAMPORTS \<le> sum_list (map whale_paid ys) + whale_paid ?x)"
    using whale_approval_is_earned [of ?ts ?x] by blast
  then show ?thesis by (auto simp: example_trade_def SINGLE_STRENGTH_LAMPORTS_def)
qed

section \<open>Failures of the web socket\<close>

lemma canonical_reason_known: "canonical_websocket_failure_reason e \<in> set WALLET_WS_FAILURE_REASONS"
  unfolding canonical_websocket_failure_reason_def Let_def
  by (simp split: option.split ws_error_kind.split add: closed_reason_def)
    (simp add: WALLET_WS_FAILURE_REASONS_def)

lemma upper_known: "r \<in> set WALLET_WS_FAILURE_REASONS \<Longrightarrow> upper r = r"
proof -
  have "\<forall>r \<in> set WALLET_WS_FAILURE_REASONS. upper r = r" by code_simp
  then show "r \<in> set WALLET_WS_FAILURE_REASONS \<Longrightarrow> upper r = r" by blast
qed

lemma subscription_reason_known: "websocket_subscription_failure_reason payload \<in> set WALLET_WS_FAILURE_REASONS"
  by (simp add: websocket_subscription_failure_reason_def Let_def WALLET_WS_FAILURE_REASONS_def)

lemma failure_metrics_Inr:
  assumes "int_field metrics ''wallet_ws_reconnect_count'' 0 = Inr n"
    and "int_field metrics ''wallet_ws_consecutive_failures'' 0 = Inr c"
  obtains new where "failure_metrics cat now metrics = Inr new"
    "dget new ''wallet_ws_reconnect_count'' = Some (PInt (n + 1))"
    "dget new ''wallet_ws_consecutive_failures'' = Some (PInt (c + 1))"
    "dget new ''wallet_ws_last_failure_category'' = Some (PStr cat)"
    "dget new ''wallet_ws_last_failure_at'' = Some (PFloat now)"
    "\<And>k. \<not> starts_with k ''wallet_ws_'' \<Longrightarrow> dget new k = dget metrics k"
proof -
  have c: "int_field (dset ''wallet_ws_reconnect_count'' (PInt (n + 1)) metrics) ''wallet_ws_consecutive_failures'' 0 = Inr c"
    using assms(2) by (simp add: int_field_def)
  define new where "new = dset ''wallet_ws_state_changed_at'' (PFloat now)
       (dset ''wallet_ws_state'' (PStr ''RECONNECTING'')
       (dset ''wallet_ws_last_failure_category'' (PStr cat)
       (dset ''wallet_ws_last_failure_at'' (PFloat now)
       (dset ''wallet_ws_consecutive_failures'' (PInt (c + 1))
       (dset ''wallet_ws_reconnect_count'' (PInt (n + 1)) metrics)))))"
  have "failure_metrics cat now metrics = Inr new" using assms(1) c by (simp add: failure_metrics_def Let_def new_def)
  moreover have "dget new ''wallet_ws_reconnect_count'' = Some (PInt (n + 1))" by (simp add: new_def)
  moreover have "dget new ''wallet_ws_consecutive_failures'' = Some (PInt (c + 1))" by (simp add: new_def)
  moreover have "dget new ''wallet_ws_last_failure_category'' = Some (PStr cat)" by (simp add: new_def)
  moreover have "dget new ''wallet_ws_last_failure_at'' = Some (PFloat now)" by (simp add: new_def)
  moreover have "dget new k = dget metrics k" if "\<not> starts_with k ''wallet_ws_''" for k
  proof -
    have "k \<noteq> ''wallet_ws_state_changed_at''" "k \<noteq> ''wallet_ws_state''" "k \<noteq> ''wallet_ws_last_failure_category''"
      "k \<noteq> ''wallet_ws_last_failure_at''" "k \<noteq> ''wallet_ws_consecutive_failures''" "k \<noteq> ''wallet_ws_reconnect_count''"
      using that by auto
    then show ?thesis by (simp add: new_def)
  qed
  ultimately show ?thesis by (rule that)
qed

text \<open>whatever error ends a connection, its category is one of the known ones, so that recording it is never
  refused: a stored document whose counters are integers gains one reconnection and one consecutive failure,
  the category and the time, and nothing else of the metrics changes.\<close>

theorem every_failure_is_counted:
  assumes "doc_version d = Inr v" "dget d ''metrics'' = Some (PDict metrics)"
    and "int_field metrics ''wallet_ws_reconnect_count'' 0 = Inr n"
    and "int_field metrics ''wallet_ws_consecutive_failures'' 0 = Inr c"
  shows "\<exists>doc. record_wallet_ws_failure (canonical_websocket_failure_reason e) now True (Content (PDict d))
        = (Inr (), Content (PDict doc))
    \<and> dget (metrics_of doc) ''wallet_ws_reconnect_count'' = Some (PInt (n + 1))
    \<and> dget (metrics_of doc) ''wallet_ws_consecutive_failures'' = Some (PInt (c + 1))
    \<and> dget (metrics_of doc) ''wallet_ws_last_failure_category'' = Some (PStr (canonical_websocket_failure_reason e))
    \<and> dget (metrics_of doc) ''wallet_ws_last_failure_at'' = Some (PFloat now)
    \<and> (\<forall>k. \<not> starts_with k ''wallet_ws_'' \<longrightarrow> dget (metrics_of doc) k = dget metrics k)"
proof -
  let ?r = "canonical_websocket_failure_reason e"
  define d' where "d' = dsetdefault ''metrics'' (PDict []) (dsetdefault ''schema_version'' (PInt 2) d)"
  have m: "dgetn d' ''metrics'' = PDict metrics" using assms(2) by (simp add: d'_def dgetn_def dget_or_def)
  obtain new where new: "failure_metrics ?r now metrics = Inr new"
    "dget new ''wallet_ws_reconnect_count'' = Some (PInt (n + 1))"
    "dget new ''wallet_ws_consecutive_failures'' = Some (PInt (c + 1))"
    "dget new ''wallet_ws_last_failure_category'' = Some (PStr ?r)"
    "dget new ''wallet_ws_last_failure_at'' = Some (PFloat now)"
    "\<And>k. \<not> starts_with k ''wallet_ws_'' \<Longrightarrow> dget new k = dget metrics k"
    using failure_metrics_Inr [OF assms(3,4)] by blast
  have mut: "record_wallet_ws_failure_mutate ?r now d = Inr ((), dset ''metrics'' (PDict new) d')"
    using m new(1) by (simp add: record_wallet_ws_failure_mutate_def Let_def d'_def [symmetric])
  define doc where "doc = dset ''version'' (PInt (v + 1)) (dset ''metrics'' (PDict new) d')"
  have run: "record_wallet_ws_failure ?r now True (Content (PDict d)) = (Inr (), Content (PDict doc))"
    using mut canonical_reason_known [of e] upper_known [of ?r] assms(1)
    by (simp add: record_wallet_ws_failure_def Let_def update_json_run doc_def)
  have mo: "metrics_of doc = new" by (simp add: metrics_of_def doc_def)
  show ?thesis using run new(2-6) unfolding mo [symmetric] by blast
qed

theorem every_failure_is_counted_witness:
  "\<exists>doc. record_wallet_ws_failure (canonical_websocket_failure_reason
        \<lparr>ws_kind = ConnectionClosedError ''keepalive ping timeout'', ws_reason = PNone, response_status = PNone, own_status = PNone\<rparr>)
        (Fin 1000) True (Content (PDict metrics_fallback)) = (Inr (), Content (PDict doc))
    \<and> dget (metrics_of doc) ''wallet_ws_last_failure_category'' = Some (PStr ''WS_HEARTBEAT_TIMEOUT'')"
proof -
  have c: "canonical_websocket_failure_reason \<lparr>ws_kind = ConnectionClosedError ''keepalive ping timeout'', ws_reason = PNone,
      response_status = PNone, own_status = PNone\<rparr> = ''WS_HEARTBEAT_TIMEOUT''" by code_simp
  have h: "doc_version metrics_fallback = Inr 0" "dget metrics_fallback ''metrics'' = Some (PDict [])"
    "int_field [] ''wallet_ws_reconnect_count'' 0 = Inr 0" "int_field [] ''wallet_ws_consecutive_failures'' 0 = Inr 0"
    by code_simp+
  from every_failure_is_counted [OF h, of "\<lparr>ws_kind = ConnectionClosedError ''keepalive ping timeout'', ws_reason = PNone,
      response_status = PNone, own_status = PNone\<rparr>" "Fin 1000"] c show ?thesis by auto
qed

section \<open>The cool-down of a token\<close>

fun buy_of :: "string \<Rightarrow> py \<Rightarrow> bool" where
  "buy_of token (PDict e) \<longleftrightarrow> dgetn e ''type'' = PStr ''BUY'' \<and> py_str (dget_or e ''mint'' (PStr [])) = token"
| "buy_of token _ \<longleftrightarrow> False"

lemma last_trade_found:
  assumes "\<forall>x \<in> set pre. \<not> buy_of token x" "buy_of token e" "truthy (event_at e)" "datetime_from_iso (event_at e) = Inr t"
  shows "last_trade_scan token (pre @ e # post) = Inr t"
  using assms(1)
proof (induction pre)
  case Nil
  then show ?case using assms(2-4) by (cases e) (auto simp: Let_def)
next
  case (Cons x pre)
  then show ?case by (cases x) auto
qed

lemma cooldown_fails_closed:
  assumes "strip m \<noteq> []" "\<not> lk1 \<or> \<not> lk2 \<or> f = Malformed"
  shows "token_cooldown_is_active lk1 lk2 f m now"
  using assms by (auto simp: token_cooldown_is_active_def get_recent_stop_loss_time_def get_last_trade_time_def
      Let_def locked_def bindE_def split: sum.splits)

text \<open>A token whose newest stop-loss sale is younger than a day, with fewer than 50 other tokens stopped out
  since, may not be entered; neither may one whose newest purchase is younger than 45 minutes; and a lock not
  granted or a ledger that cannot be parsed keeps every token out.\<close>

theorem stopped_token_stays_out:
  assumes "strip m \<noteq> []" "dget document ''events'' = Some (PList (older @ e # newer))" "truthy (event_at e)"
    and "datetime_from_iso (event_at e) = Inr t"
  shows "(stop_loss_mint e = Inr (Some (strip m)) \<and> (\<forall>x \<in> set newer. \<exists>s. stop_loss_mint x = Inr s \<and> s \<noteq> Some (strip m))
        \<and> card (stop_loss_mints newer) < 50 \<and> younger_than STOP_LOSS_TOKEN_COOLDOWN_SECONDS now t
        \<longrightarrow> token_cooldown_is_active lk1 lk2 (Content (PDict document)) m now)
    \<and> (buy_of (strip m) e \<and> (\<forall>x \<in> set newer. \<not> buy_of (strip m) x) \<and> younger_than TOKEN_TRADE_COOLDOWN_SECONDS now t
        \<longrightarrow> token_cooldown_is_active lk1 lk2 (Content (PDict document)) m now)
    \<and> (\<not> lk1 \<or> \<not> lk2 \<or> f = Malformed \<longrightarrow> token_cooldown_is_active lk1 lk2 f m now)"
proof -
  have "token_cooldown_is_active lk1 lk2 (Content (PDict document)) m now"
    if "stop_loss_mint e = Inr (Some (strip m))" "\<forall>x \<in> set newer. \<exists>s. stop_loss_mint x = Inr s \<and> s \<noteq> Some (strip m)"
      "card (stop_loss_mints newer) < 50" "younger_than STOP_LOSS_TOKEN_COOLDOWN_SECONDS now t"
  proof (cases "lk1 \<and> lk2")
    case True
    have "get_recent_stop_loss_time True (Content (PDict document)) m STOP_LOSS_BLACKLIST_MAX_TOKENS = Inr t"
      using recent_stop_loss_found [OF assms(2) that(2,1) assms(3), of STOP_LOSS_BLACKLIST_MAX_TOKENS] that(3) assms(4)
      by (simp add: STOP_LOSS_BLACKLIST_MAX_TOKENS_def)
    then show ?thesis using True that(4) by (simp add: token_cooldown_is_active_def bindE_def split: sum.splits)
  qed (use cooldown_fails_closed [OF assms(1)] in blast)
  moreover have "token_cooldown_is_active lk1 lk2 (Content (PDict document)) m now"
    if "buy_of (strip m) e" "\<forall>x \<in> set newer. \<not> buy_of (strip m) x" "younger_than TOKEN_TRADE_COOLDOWN_SECONDS now t"
  proof (cases "lk1 \<and> lk2")
    case True
    have "\<forall>x \<in> set (rev newer). \<not> buy_of (strip m) x" using that(2) by simp
    from last_trade_found [OF this that(1) assms(3,4), of "rev older"]
    have "get_last_trade_time True (Content (PDict document)) m = Inr t"
      using assms(1,2) by (simp add: get_last_trade_time_def Let_def locked_def)
    then show ?thesis using True that(3) by (simp add: token_cooldown_is_active_def bindE_def split: sum.splits)
  qed (use cooldown_fails_closed [OF assms(1)] in blast)
  ultimately show ?thesis using cooldown_fails_closed [OF assms(1)] by blast
qed

definition bought_event :: "string \<Rightarrow> string \<Rightarrow> py" where
  "bought_event m t = PDict [(''type'', PStr ''BUY''), (''mint'', PStr m), (''at'', PStr t)]"

theorem stopped_token_stays_out_witness:
  "token_cooldown_is_active True True (Content (PDict [(''events'', PList [bought_event ''m'' ''2026-01-01T00:00:00+00:00''])]))
     ''m'' (Fin 1767226200)"
proof -
  have h: "strip ''m'' \<noteq> []" "datetime_from_iso (event_at (bought_event ''m'' ''2026-01-01T00:00:00+00:00'')) = Inr (Fin 1767225600)"
    "truthy (event_at (bought_event ''m'' ''2026-01-01T00:00:00+00:00''))"
    "buy_of (strip ''m'') (bought_event ''m'' ''2026-01-01T00:00:00+00:00'')"
    "younger_than TOKEN_TRADE_COOLDOWN_SECONDS (Fin 1767226200) (Fin 1767225600)" by code_simp+
  have d: "dget [(''events'', PList [bought_event ''m'' ''2026-01-01T00:00:00+00:00''])] ''events''
      = Some (PList ([] @ bought_event ''m'' ''2026-01-01T00:00:00+00:00'' # []))" by simp
  show ?thesis using stopped_token_stays_out [OF h(1) d h(3,2)] h(4,5) by simp
qed

section \<open>The wallet feeder\<close>

lemma trigger_True:
  assumes "trigger_wallet_feeder_if_needed io wallets f = (True, f')"
  shows "(\<exists>n. get_active_wallets_count (count_lock io) wallets = Inr n \<and> n \<le> WALLET_FEEDER_TRIGGER_COUNT)
    \<and> process_start io = Inr () \<and> \<not> service_stopping io
    \<and> claim_global_interval (claim_lock io) f ''last_wallet_feeder_run_time'' (feeder_now io) WALLET_FEEDER_COOLDOWN_SECONDS
      = (Inr True, f')"
  using assms by (auto simp: trigger_wallet_feeder_if_needed_def split: if_splits sum.splits prod.splits)

text \<open>the feeder is started only when at most 17 wallets are active, by a service that is not stopping; and
  once started, whatever happens to the watch list, it is not started again before two hours have passed.\<close>

theorem feeder_starts_once_per_interval:
  assumes "trigger_wallet_feeder_if_needed io wallets f = (True, f')" "feeder_now io = Fin t1" "t1 \<noteq> 0"
    and "f64_lt (f64_sub (feeder_now later) (Fin t1)) WALLET_FEEDER_COOLDOWN_SECONDS"
  shows "(\<exists>n. get_active_wallets_count (count_lock io) wallets = Inr n \<and> n \<le> 17) \<and> \<not> service_stopping io
    \<and> trigger_wallet_feeder_if_needed later wallets' f' = (False, f')"
proof -
  note t = trigger_True [OF assms(1)]
  obtain doc where doc: "f' = Content (PDict doc)"
      "dget (metrics_of doc) (strip ''last_wallet_feeder_run_time'') = Some (PFloat (Fin t1))"
    using claim_interval_True t assms(2) by metis
  have key: "strip ''last_wallet_feeder_run_time'' = ''last_wallet_feeder_run_time''" by code_simp
  then obtain m where m: "dget_or doc ''metrics'' (PDict []) = PDict m" "dget m ''last_wallet_feeder_run_time'' = Some (PFloat (Fin t1))"
    using doc(2) by (auto simp: metrics_of_def split: py.splits)
  have "last_feeder_run later f' = Inr (Fin t1) \<or> (\<exists>x. last_feeder_run later f' = Inl x)"
    using m key assms(3) by (simp add: last_feeder_run_def get_global_metric_def Let_def locked_def doc(1) py_or_def)
  then have "trigger_wallet_feeder_if_needed later wallets' f' = (False, f')"
    using assms(4) by (auto simp: trigger_wallet_feeder_if_needed_def split: sum.splits)
  then show ?thesis using t by (auto simp: WALLET_FEEDER_TRIGGER_COUNT_def)
qed

definition example_feeder :: "rat \<Rightarrow> feeder_io" where
  "example_feeder t = \<lparr>service_stopping = False, feeder_now = Fin t, count_lock = True, metric_lock = True,
     claim_lock = True, process_start = Inr ()\<rparr>"

theorem feeder_starts_once_per_interval_witness:
  "\<exists>f. trigger_wallet_feeder_if_needed (example_feeder 10000) Missing Missing = (True, f)
     \<and> trigger_wallet_feeder_if_needed (example_feeder 12000) Missing f = (False, f)"
proof -
  have "fst (trigger_wallet_feeder_if_needed (example_feeder 10000) Missing Missing)" by code_simp
  then obtain f where f: "trigger_wallet_feeder_if_needed (example_feeder 10000) Missing Missing = (True, f)"
    by (cases "trigger_wallet_feeder_if_needed (example_feeder 10000) Missing Missing") auto
  have "feeder_now (example_feeder 10000) = Fin 10000" "(10000 :: rat) \<noteq> 0" by (simp_all add: example_feeder_def)
  moreover have "f64_lt (f64_sub (feeder_now (example_feeder 12000)) (Fin 10000)) WALLET_FEEDER_COOLDOWN_SECONDS" by code_simp
  ultimately show ?thesis using feeder_starts_once_per_interval [OF f] f by blast
qed

end
