(* ===== verification/MonitorTradeFacts.thy ===== *)
theory MonitorTradeFacts
  imports MonitorTrades MonitorGateFacts
begin

text \<open>
  What \<open>MonitorTrades\<close> promises: the delta of a token is what the wallet holds after the transaction less what
  it held before; a transaction starts signals only for tokens a watched wallet acquired in it, and one without a
  rejection reason only for a purchase that passed the strength gate; every purchase with a known payment is
  observed, whether it is copied or not.
\<close>

section \<open>Deltas\<close>

fun amount_in :: "string \<Rightarrow> py \<Rightarrow> py \<Rightarrow> int" where
  "amount_in wallet m (PDict b) =
     (if dgetn b ''owner'' = PStr wallet \<and> dgetn b ''mint'' = m \<and> truthy m
      then (case raw_token_amount b of Inr (amount, _) \<Rightarrow> amount | Inl _ \<Rightarrow> 0) else 0)"
| "amount_in wallet m _ = 0"

definition held_in :: "string \<Rightarrow> py \<Rightarrow> py list \<Rightarrow> int" where
  "held_in wallet m rows = sum_list (map (amount_in wallet m) rows)"

definition delta_total :: "deltas \<Rightarrow> py \<Rightarrow> int" where
  "delta_total d m = (case map_of d m of None \<Rightarrow> 0 | Some (held, _) \<Rightarrow> held)"

lemma delta_row_total:
  assumes "delta_row wallet side totals v = Inr totals'" "distinct (map fst totals)"
  shows "delta_total totals' m = delta_total totals m + side * amount_in wallet m v \<and> distinct (map fst totals')"
proof -
  obtain b where b: "v = PDict b" using assms(1) by (cases v) (auto simp: delta_row_def)
  show ?thesis
  proof (cases "dgetn b ''owner'' = PStr wallet \<and> truthy (dgetn b ''mint'')")
    case True
    then obtain a n where "raw_token_amount b = Inr (a, n)" "totals' = add_delta (dgetn b ''mint'') (side * a) n totals"
      using assms(1) b by (auto simp: delta_row_def Let_def bindE_eq_Inr split: if_splits)
    then show ?thesis using True b assms(2)
      by (auto simp: delta_total_def add_delta_def update_conv distinct_update split: option.splits)
  next
    case False
    then show ?thesis using assms b by (auto simp: delta_row_def Let_def split: if_splits)
  qed
qed

lemma delta_rows_total:
  assumes "foldE (delta_row wallet side) totals rows = Inr totals'" "distinct (map fst totals)"
  shows "delta_total totals' m = delta_total totals m + side * held_in wallet m rows \<and> distinct (map fst totals')"
  using assms
proof (induction rows arbitrary: totals)
  case (Cons v rows)
  then obtain t where t: "delta_row wallet side totals v = Inr t" "foldE (delta_row wallet side) t rows = Inr totals'"
    by (auto simp: bindE_eq_Inr)
  note r = delta_row_total [OF t(1) Cons.prems(2), of m]
  from Cons.IH [OF t(2)] r show ?case by (simp add: held_in_def algebra_simps)
qed (simp add: held_in_def)

text \<open>C30: the deltas of a wallet are exact: a token is listed once, with the amount the wallet's accounts hold after
  the transaction less the amount they held before, and it is listed exactly when they differ.\<close>

theorem deltas_are_exact:
  assumes "wallet_token_deltas meta wallet = Inr d"
    and "rows_or_empty meta ''preTokenBalances'' = Inr pre" "rows_or_empty meta ''postTokenBalances'' = Inr post"
  shows "distinct (map fst d)
    \<and> (\<forall>m raw. (\<exists>decimals. (m, raw, decimals) \<in> set d) \<longleftrightarrow> raw = held_in wallet m post - held_in wallet m pre \<and> raw \<noteq> 0)"
proof -
  obtain t1 t2 where t: "foldE (delta_row wallet (- 1)) [] pre = Inr t1" "foldE (delta_row wallet 1) t1 post = Inr t2"
      "d = filter (\<lambda>(m, amount, decimals). amount \<noteq> 0) t2"
    using assms by (auto simp: wallet_token_deltas_def bindE_eq_Inr)
  have "delta_total t2 m = held_in wallet m post - held_in wallet m pre \<and> distinct (map fst t2)" for m
    using delta_rows_total [OF t(1), of m] delta_rows_total [OF t(2), of m] by (simp add: delta_total_def)
  then have total: "\<And>m. delta_total t2 m = held_in wallet m post - held_in wallet m pre" and dist: "distinct (map fst t2)"
    by blast+
  have "(\<exists>decimals. (m, raw, decimals) \<in> set d) \<longleftrightarrow> raw = delta_total t2 m \<and> raw \<noteq> 0" for m raw
  proof
    assume "\<exists>decimals. (m, raw, decimals) \<in> set d"
    then obtain n where "(m, raw, n) \<in> set t2" "raw \<noteq> 0" by (auto simp: t(3))
    then have "map_of t2 m = Some (raw, n)" using dist by simp
    with \<open>raw \<noteq> 0\<close> show "raw = delta_total t2 m \<and> raw \<noteq> 0" by (simp add: delta_total_def)
  next
    assume r: "raw = delta_total t2 m \<and> raw \<noteq> 0"
    then obtain n where "map_of t2 m = Some (raw, n)" by (auto simp: delta_total_def split: option.splits)
    then show "\<exists>decimals. (m, raw, decimals) \<in> set d" using r map_of_SomeD by (force simp: t(3))
  qed
  moreover have "distinct (map fst d)" using dist by (simp add: t(3) distinct_map_filter)
  ultimately show ?thesis by (simp add: total)
qed

definition example_balance :: "string \<Rightarrow> string \<Rightarrow> string \<Rightarrow> py" where
  "example_balance wallet m amount = PDict [(''owner'', PStr wallet), (''mint'', PStr m),
     (''uiTokenAmount'', PDict [(''amount'', PStr amount), (''decimals'', PInt 6)])]"

definition example_meta :: dict where
  "example_meta = [(''preTokenBalances'', PList [example_balance ''w'' ''m'' ''40'']),
     (''postTokenBalances'', PList [example_balance ''w'' ''m'' ''100'', example_balance ''x'' ''m'' ''7'']),
     (''preBalances'', PList [PInt 9000000000]), (''postBalances'', PList [PInt 6999995000]), (''fee'', PInt 5000)]"

theorem deltas_are_exact_witness:
  "\<exists>d. wallet_token_deltas example_meta ''w'' = Inr d \<and> distinct (map fst d) \<and> (\<exists>n. (PStr ''m'', 60, n) \<in> set d)"
proof -
  have d: "wallet_token_deltas example_meta ''w'' = Inr [(PStr ''m'', 60, 6)]" by code_simp
  have "rows_or_empty example_meta ''preTokenBalances'' = Inr [example_balance ''w'' ''m'' ''40'']"
    "rows_or_empty example_meta ''postTokenBalances'' = Inr [example_balance ''w'' ''m'' ''100'', example_balance ''x'' ''m'' ''7'']"
    by code_simp+
  from deltas_are_exact [OF d this] d show ?thesis by simp
qed

section \<open>Purchases in a transaction\<close>

lemma each_step:
  assumes "\<And>x s. x \<in> set xs \<Longrightarrow> R s (snd (f x s))" "\<And>s. R s s" "\<And>a b c. R a b \<Longrightarrow> R b c \<Longrightarrow> R a c"
  shows "R s (snd (each f xs s))"
proof -
  have "(\<And>x s. x \<in> set xs \<Longrightarrow> R s (snd (f x s))) \<Longrightarrow> R s (snd (each f xs s))" for s
  proof (induction xs arbitrary: s)
    case (Cons x xs)
    obtain e t where f: "f x s = (e, t)" by (cases "f x s")
    have st: "R s t" using Cons.prems [of x s] f by simp
    have "R t (snd (each f xs t))" by (rule Cons.IH) (rule Cons.prems, simp)
    then have tr: "R s (snd (each f xs t))" by (rule assms(3) [OF st])
    show ?case
    proof (cases e)
      case None
      then show ?thesis using f tr by simp
    next
      case (Some y)
      then show ?thesis using f st by simp
    qed
  next
    case Nil
    show ?case using assms(2) by simp
  qed
  then show ?thesis using assms(1) by blast
qed

lemma each_all:
  assumes "fst (each f xs s) = None" "x \<in> set xs"
    and "\<And>x s. x \<in> set xs \<Longrightarrow> R s (snd (f x s))" "\<And>s. R s s" "\<And>a b c. R a b \<Longrightarrow> R b c \<Longrightarrow> R a c"
  shows "\<exists>t. fst (f x t) = None \<and> R (snd (f x t)) (snd (each f xs s))"
proof -
  obtain pre post where xs: "xs = pre @ x # post" using assms(2) by (auto dest: split_list)
  have run: "fst (each f (pre @ x # post) s) = None \<Longrightarrow>
      \<exists>t. fst (f x t) = None \<and> snd (each f (pre @ x # post) s) = snd (each f post (snd (f x t)))" for s
  proof (induction pre arbitrary: s)
    case Nil
    then show ?case by (intro exI [of _ s]) (auto split: option.splits prod.splits)
  qed (auto split: option.splits prod.splits)
  have "fst (each f (pre @ x # post) s) = None" using assms(1) xs by simp
  from run [OF this] obtain t where t: "fst (f x t) = None" "snd (each f xs s) = snd (each f post (snd (f x t)))"
    unfolding xs by blast
  have "R u (snd (f y u))" if "y \<in> set post" for y u using assms(3) [of y u] that xs by simp
  then have "R (snd (f x t)) (snd (each f post (snd (f x t))))" by (rule each_step) (assumption, rule assms(4), rule assms(5))
  with t show ?thesis by metis
qed

definition starts :: "(started_task \<Rightarrow> bool) \<Rightarrow> 'm monitor_state_scheme \<Rightarrow> 'm monitor_state_scheme \<Rightarrow> bool" where
  "starts ok s s' \<longleftrightarrow> (\<exists>new. started s' = started s @ new \<and> (\<forall>t \<in> set new. ok t))"

text \<open>
  The purchases that were observed went through the strength gate one after the other, from its state \<open>gate s\<close> to
  \<open>gate s'\<close>, and the signals without a rejection reason are among those it approved, or exactly those.
\<close>

definition new_tasks :: "'m monitor_state_scheme \<Rightarrow> 'm monitor_state_scheme \<Rightarrow> started_task list" where
  "new_tasks s s' = drop (length (started s)) (started s')"

definition observed_purchases :: "started_task list \<Rightarrow> (whale_key \<times> int) list" where
  "observed_purchases ts = List.map_filter (\<lambda>t. case t of ObserveBuy wallet m raw paid sig \<Rightarrow> Some ((wallet, m), paid) | _ \<Rightarrow> None) ts"

definition clean_signals :: "started_task list \<Rightarrow> (whale_key \<times> int) list" where
  "clean_signals ts = List.map_filter (\<lambda>t. case t of
     PaperSignal p \<Rightarrow> (if ps_prefilter p = [] then Some ((ps_wallet p, ps_mint p), ps_paid p) else None) | _ \<Rightarrow> None) ts"

fun approved :: "whale_trade list \<Rightarrow> whale_gate \<Rightarrow> whale_trade list" where
  "approved [] g = []"
| "approved (x # xs) g = (if fst (gate_step x g) then x # approved xs (snd (gate_step x g)) else approved xs (snd (gate_step x g)))"

definition trade_of :: "whale_trade \<Rightarrow> whale_key \<times> int" where
  "trade_of x = (whale_key x, whale_paid x)"

definition gated :: "((whale_key \<times> int) list \<Rightarrow> (whale_key \<times> int) list \<Rightarrow> bool)
    \<Rightarrow> 'm monitor_state_scheme \<Rightarrow> 'm monitor_state_scheme \<Rightarrow> bool" where
  "gated among s s' \<longleftrightarrow> prefix (started s) (started s') \<and> (\<exists>trades. gate s' = gate_state trades (gate s)
     \<and> observed_purchases (new_tasks s s') = map trade_of trades
     \<and> among (clean_signals (new_tasks s s')) (map trade_of (approved trades (gate s))))"

lemma approved_append: "approved (xs @ ys) g = approved xs g @ approved ys (gate_state xs g)"
  by (induction xs arbitrary: g) (simp_all add: gate_state_def)

lemma gated_refl: "among [] [] \<Longrightarrow> gated among s s"
  by (auto simp: gated_def new_tasks_def observed_purchases_def clean_signals_def List.map_filter_simps gate_state_def
      intro!: exI [of _ "[]"])

lemma gated_trans:
  assumes "gated among a b" "gated among b c" "\<And>u v x y. among u v \<Longrightarrow> among x y \<Longrightarrow> among (u @ x) (v @ y)"
  shows "gated among a c"
proof -
  obtain xs where xs: "gate b = gate_state xs (gate a)" "observed_purchases (new_tasks a b) = map trade_of xs"
      "among (clean_signals (new_tasks a b)) (map trade_of (approved xs (gate a)))" using assms(1) by (auto simp: gated_def)
  obtain ys where ys: "gate c = gate_state ys (gate b)" "observed_purchases (new_tasks b c) = map trade_of ys"
      "among (clean_signals (new_tasks b c)) (map trade_of (approved ys (gate b)))" using assms(2) by (auto simp: gated_def)
  have new: "new_tasks a c = new_tasks a b @ new_tasks b c" "prefix (started a) (started c)"
    using assms(1,2) by (auto simp: gated_def new_tasks_def prefix_def)
  have split: "observed_purchases (us @ vs) = observed_purchases us @ observed_purchases vs"
    "clean_signals (us @ vs) = clean_signals us @ clean_signals vs" for us vs
    by (simp_all add: observed_purchases_def clean_signals_def List.map_filter_def)
  show ?thesis unfolding gated_def
    by (intro conjI exI [of _ "xs @ ys"])
      (use xs ys new assms(3) in \<open>simp_all add: split approved_append gate_state_def\<close>)
qed

lemma starts_refl [simp]: "starts ok s s"
  by (simp add: starts_def)

lemma starts_trans: "starts ok a b \<Longrightarrow> starts ok b c \<Longrightarrow> starts ok a c"
  by (auto simp: starts_def)

lemma starts_weaken: "starts ok s s' \<Longrightarrow> (\<And>t. ok t \<Longrightarrow> ok' t) \<Longrightarrow> starts ok' s s'"
  by (auto simp: starts_def)

text \<open>A started task is the observation or the signal of a token that a watched wallet acquired.\<close>

fun task_ok :: "py \<Rightarrow> string \<Rightarrow> started_task \<Rightarrow> bool" where
  "task_ok meta sig (ObserveBuy wallet m raw paid sg) \<longleftrightarrow> sg = sig \<and> 0 < paid \<and> 0 < raw \<and> m \<notin> quote_tokens
     \<and> (\<exists>d md n. meta = PDict md \<and> wallet_token_deltas md wallet = Inr d \<and> (m, raw, n) \<in> set d)"
| "task_ok meta sig (PaperSignal p) \<longleftrightarrow> ps_signature p = sig \<and> 0 < ps_amount p \<and> ps_mint p \<notin> quote_tokens
     \<and> ps_route p = ''A'' \<and> ps_prefilter p \<in> {[], [''PAYMENT_UNRESOLVED''], [''WHALE_AMOUNT_FILTER_REJECTED'']}
     \<and> (ps_prefilter p = [] \<longrightarrow> MIN_ACCUMULATION_TRADE_LAMPORTS < ps_paid p)
     \<and> (\<exists>d md. meta = PDict md \<and> wallet_token_deltas md (ps_wallet p) = Inr d \<and> (ps_mint p, ps_amount p, ps_decimals p) \<in> set d)"

fun task_wallet :: "started_task \<Rightarrow> string" where
  "task_wallet (ObserveBuy wallet m raw paid sg) = wallet" | "task_wallet (PaperSignal p) = ps_wallet p"

lemma schedule_starts:
  assumes "\<And>t. ok (PaperSignal \<lparr>ps_mint = m, ps_amount = raw, ps_decimals = n, ps_paid = paid, ps_wallet = wallet,
      ps_signature = sig, ps_detected = t, ps_route = ''A'', ps_momentum = Fin 0, ps_metrics = PNone, ps_collection = PNone,
      ps_prefilter = prefilter, ps_source = Some source\<rparr>)"
  shows "starts ok s (schedule_paper_signal stopping clk m raw n paid wallet sig prefilter source s)"
  using assms by (auto simp: schedule_paper_signal_def starts_def)

lemma gate_approves_large: "fst (whale_buy_amount_allowed paid k now g) \<Longrightarrow> MIN_ACCUMULATION_TRADE_LAMPORTS < paid"
  by (auto simp: whale_buy_amount_allowed_def Let_def split: if_splits)

lemma started_update [simp]:
  "started (s\<lparr>gate := g, readings := n\<rparr>) = started s" "started (s\<lparr>activity := a\<rparr>) = started s"
  "started (observe_task wallet m raw paid sig s) = started s @ [ObserveBuy wallet m raw paid sig]"
  by (simp_all add: observe_task_def)

lemma starts_same: "started t = started s \<Longrightarrow> starts ok t u \<Longrightarrow> starts ok s u"
  by (simp add: starts_def)

lemma report_purchase_starts:
  assumes "wallet_token_deltas md wallet = Inr d" "(m, raw, n) \<in> set d" "0 < raw"
  shows "starts (\<lambda>t. task_ok (PDict md) sig t \<and> task_wallet t = wallet) s
    (snd (report_purchase stopping clk sig source wallet paid (m, raw, n) s))"
proof (cases "m \<in> quote_tokens")
  case True
  then show ?thesis by (simp add: report_purchase_def)
next
  case m: False
  show ?thesis
  proof (cases "paid \<le> 0 \<or> decimal_text_error raw n \<noteq> None")
    case True
    then show ?thesis using m assms by (auto simp: report_purchase_def intro!: schedule_starts)
  next
    case False
    obtain ok g where g: "whale_buy_amount_allowed paid (wallet, m) (monotonic clk (readings s)) (gate s) = (ok, g)"
      by (cases "whale_buy_amount_allowed paid (wallet, m) (monotonic clk (readings s)) (gate s)")
    have large: "ok \<Longrightarrow> MIN_ACCUMULATION_TRADE_LAMPORTS < paid"
      using gate_approves_large [of paid "(wallet, m)" "monotonic clk (readings s)" "gate s"] g by simp
    define s1 where "s1 = (observe_task wallet m raw paid sig s)\<lparr>gate := g, readings := readings s + 1\<rparr>"
    have r: "readings (observe_task wallet m raw paid sig s) = readings s" "gate (observe_task wallet m raw paid sig s) = gate s"
      by (simp_all add: observe_task_def)
    have s1: "starts (\<lambda>t. task_ok (PDict md) sig t \<and> task_wallet t = wallet) s s1"
      using m False assms by (auto simp: starts_def s1_def)
    show ?thesis
    proof (cases "record_wallet_ws_activity ''smart_money_candidate'' source (activity s1)")
      case (Inl e)
      then show ?thesis using m False s1 g r by (simp add: report_purchase_def Let_def s1_def)
    next
      case (Inr a)
      let ?s2 = "schedule_paper_signal stopping clk m raw n paid wallet sig (if ok then [] else [''WHALE_AMOUNT_FILTER_REJECTED'']) source (s1\<lparr>activity := a\<rparr>)"
      have "starts (\<lambda>t. task_ok (PDict md) sig t \<and> task_wallet t = wallet) (s1\<lparr>activity := a\<rparr>) ?s2"
        using m False assms large by (intro schedule_starts) auto
      then have "starts (\<lambda>t. task_ok (PDict md) sig t \<and> task_wallet t = wallet) s ?s2"
        using s1 by (auto intro: starts_trans simp: starts_def)
      moreover have "snd (report_purchase stopping clk sig source wallet paid (m, raw, n) s) = ?s2"
        using m False g r Inr by (simp add: report_purchase_def Let_def s1_def)
      ultimately show ?thesis by simp
    qed
  qed
qed

lemma scheduled:
  obtains (dropped) "schedule_paper_signal stopping clk m raw n paid wallet sig prefilter source s = s"
      "stopping \<or> prefilter \<noteq> []"
  | (created) p where "started (schedule_paper_signal stopping clk m raw n paid wallet sig prefilter source s) = started s @ [PaperSignal p]"
      "gate (schedule_paper_signal stopping clk m raw n paid wallet sig prefilter source s) = gate s"
      "ps_wallet p = wallet" "ps_mint p = m" "ps_paid p = paid" "ps_prefilter p = prefilter"
  by (cases "stopping \<or> prefilter \<noteq> [] \<and> MAX_PENDING_SHADOW_SIGNALS \<le> card (shadow_tasks (registry s))")
    (auto simp: schedule_paper_signal_def)

lemma gatedI:
  assumes "started s' = started s @ new" "gate s' = gate_state trades (gate s)" "observed_purchases new = map trade_of trades"
    "among (clean_signals new) (map trade_of (approved trades (gate s)))"
  shows "gated among s s'"
  using assms by (auto simp: gated_def new_tasks_def)

lemmas task_lists = observed_purchases_def clean_signals_def List.map_filter_simps

text \<open>\<open>among\<close> is \<open>subseq\<close>, or equality where the purchase is reported to its end and the service does not stop.\<close>

lemma report_gated:
  assumes "among = subseq \<or> among = (=) \<and> \<not> stopping \<and> fst (report_purchase stopping clk sig source wallet paid (m, raw, n) s) = None"
  shows "gated among s (snd (report_purchase stopping clk sig source wallet paid (m, raw, n) s))"
proof -
  have none: "among [] []" and self: "among us us" for us using assms by auto
  consider "m \<in> quote_tokens \<or> decimal_text_error raw n \<noteq> None"
    | (unpaid) "m \<notin> quote_tokens" "decimal_text_error raw n = None" "paid \<le> 0"
    | (paid) "m \<notin> quote_tokens" "decimal_text_error raw n = None" "0 < paid" by linarith
  then show ?thesis
  proof cases
    case 1
    then show ?thesis using gated_refl [of among s] none by (auto simp: report_purchase_def)
  next
    case unpaid
    let ?s' = "schedule_paper_signal stopping clk m raw n 0 wallet sig [''PAYMENT_UNRESOLVED''] source s"
    have "gated among s ?s'"
    proof (cases rule: scheduled [of stopping clk m raw n 0 wallet sig "[''PAYMENT_UNRESOLVED'']" source s])
      case dropped
      then show ?thesis using gated_refl [of among s] none by simp
    next
      case (created p)
      then show ?thesis using none by (intro gatedI [where trades = "[]"]) (auto simp: task_lists gate_state_def)
    qed
    then show ?thesis using unpaid by (simp add: report_purchase_def)
  next
    case paid
    obtain ok g where g: "whale_buy_amount_allowed paid (wallet, m) (monotonic clk (readings s)) (gate s) = (ok, g)"
      by (cases "whale_buy_amount_allowed paid (wallet, m) (monotonic clk (readings s)) (gate s)")
    define x where "x = \<lparr>whale_key = (wallet, m), whale_paid = paid, whale_at = monotonic clk (readings s)\<rparr>"
    have x: "gate_step x (gate s) = (ok, g)" "trade_of x = ((wallet, m), paid)" by (simp_all add: x_def gate_step_def g trade_of_def)
    have gs: "gate_state [x] (gate s) = g" "approved [x] (gate s) = (if ok then [x] else [])" by (simp_all add: gate_state_def x(1))
    define s1 where "s1 = (observe_task wallet m raw paid sig s)\<lparr>gate := g, readings := readings s + 1\<rparr>"
    have r: "readings (observe_task wallet m raw paid sig s) = readings s" "gate (observe_task wallet m raw paid sig s) = gate s"
      by (simp_all add: observe_task_def)
    have s1: "started s1 = started s @ [ObserveBuy wallet m raw paid sig]" "gate s1 = g" by (simp_all add: s1_def)
    show ?thesis
    proof (cases "record_wallet_ws_activity ''smart_money_candidate'' source (activity s1)")
      case (Inl e)
      then have f: "report_purchase stopping clk sig source wallet paid (m, raw, n) s = (Some e, s1)"
        using paid g r by (simp add: report_purchase_def Let_def s1_def)
      then have "among = subseq" using assms by simp
      then show ?thesis unfolding f using s1 gs x by (intro gatedI [where trades = "[x]"]) (auto simp: task_lists)
    next
      case (Inr a)
      let ?reasons = "if ok then [] else [''WHALE_AMOUNT_FILTER_REJECTED'']"
      let ?s2 = "schedule_paper_signal stopping clk m raw n paid wallet sig ?reasons source (s1\<lparr>activity := a\<rparr>)"
      have f: "report_purchase stopping clk sig source wallet paid (m, raw, n) s = (None, ?s2)"
        using paid g r Inr by (simp add: report_purchase_def Let_def s1_def)
      have "gated among s ?s2"
      proof (cases rule: scheduled [of stopping clk m raw n paid wallet sig ?reasons source "s1\<lparr>activity := a\<rparr>"])
        case dropped
        then show ?thesis using s1 gs x assms none
          by (intro gatedI [where trades = "[x]"]) (auto simp: task_lists split: if_splits)
      next
        case (created p)
        then show ?thesis using s1 gs x self by (intro gatedI [where trades = "[x]"]) (auto simp: task_lists)
      qed
      then show ?thesis unfolding f by simp
    qed
  qed
qed

lemma each_kept:
  assumes "\<And>x s. x \<in> set xs \<Longrightarrow> fst (f x s) = None \<Longrightarrow> R s (snd (f x s))" "\<And>s. R s s" "\<And>a b c. R a b \<Longrightarrow> R b c \<Longrightarrow> R a c"
    and "fst (each f xs s) = None"
  shows "R s (snd (each f xs s))"
  using assms(1,4)
proof (induction xs arbitrary: s)
  case (Cons x xs)
  obtain t where f: "f x s = (None, t)" using Cons.prems(2) by (cases "f x s"; cases "fst (f x s)") auto
  have "R s t" using Cons.prems(1) [of x s] f by simp
  moreover have "R t (snd (each f xs t))" using Cons.prems f by (intro Cons.IH) auto
  ultimately show ?case using f assms(3) by simp
qed (simp add: assms(2))

lemma wallet_purchases_gated:
  fixes s :: "'m monitor_state_scheme"
  assumes "among = subseq \<or> among = (=) \<and> \<not> stopping \<and> fst (wallet_purchases stopping clk sig source meta keys wallet s) = None"
  shows "gated among s (snd (wallet_purchases stopping clk sig source meta keys wallet s))"
proof -
  have r: "gated among s s" for s :: "'m monitor_state_scheme" using assms by (intro gated_refl) auto
  have t: "gated among a b \<Longrightarrow> gated among b c \<Longrightarrow> gated among a c" for a b c :: "'m monitor_state_scheme"
    by (rule gated_trans) (use assms in \<open>auto intro: list_emb_append_mono\<close>)
  have "gated among s (snd (each (report_purchase stopping clk sig source wallet paid) xs s))"
    if "among = subseq \<or> among = (=) \<and> \<not> stopping \<and> fst (each (report_purchase stopping clk sig source wallet paid) xs s) = None" for paid xs
    using that
  proof
    assume a: "among = subseq"
    have "gated among u (snd (report_purchase stopping clk sig source wallet paid x u))" for x and u :: "'m monitor_state_scheme"
      using report_gated a by (cases x) blast
    then show ?thesis by (rule each_step [where R = "gated among"]) (rule r, erule (1) t)
  next
    assume a: "among = (=) \<and> \<not> stopping \<and> fst (each (report_purchase stopping clk sig source wallet paid) xs s) = None"
    have "gated among u (snd (report_purchase stopping clk sig source wallet paid x u))"
      if "fst (report_purchase stopping clk sig source wallet paid x u) = None" for x and u :: "'m monitor_state_scheme"
      using report_gated a that by (cases x) blast
    then show ?thesis by (rule each_kept [where R = "gated among"]) (assumption, rule r, erule (1) t, use a in blast)
  qed
  then show ?thesis using assms r by (auto simp: wallet_purchases_def split: sum.splits if_splits)
qed

lemma starts_started: "starts ok s s' \<Longrightarrow> t \<in> set (started s) \<Longrightarrow> t \<in> set (started s')"
  by (auto simp: starts_def)

lemma schedule_keeps: "starts (\<lambda>_. True) s (schedule_paper_signal stopping clk m raw n paid wallet sig prefilter source s)"
  by (rule schedule_starts) simp

lemma report_observes:
  assumes "fst (report_purchase stopping clk sig source wallet paid (m, raw, n) s) = None" "m \<notin> quote_tokens" "0 < paid"
  shows "ObserveBuy wallet m raw paid sig \<in> set (started (snd (report_purchase stopping clk sig source wallet paid (m, raw, n) s)))"
proof -
  obtain ok g where g: "whale_buy_amount_allowed paid (wallet, m) (monotonic clk (readings s)) (gate s) = (ok, g)"
    by (cases "whale_buy_amount_allowed paid (wallet, m) (monotonic clk (readings s)) (gate s)")
  have r: "readings (observe_task wallet m raw paid sig s) = readings s" "gate (observe_task wallet m raw paid sig s) = gate s"
    by (simp_all add: observe_task_def)
  define s1 where "s1 = (observe_task wallet m raw paid sig s)\<lparr>gate := g, readings := readings s + 1\<rparr>"
  obtain a where a: "record_wallet_ws_activity ''smart_money_candidate'' source (activity s1) = Inr a"
    using assms g r by (auto simp: report_purchase_def Let_def s1_def split: sum.splits if_splits)
  have "ObserveBuy wallet m raw paid sig \<in> set (started (s1\<lparr>activity := a\<rparr>))" by (simp add: s1_def)
  from starts_started [OF schedule_keeps this] show ?thesis
    using assms g r a by (auto simp: report_purchase_def Let_def s1_def split: if_splits)
qed

definition wallet_task :: "py \<Rightarrow> string \<Rightarrow> py list \<Rightarrow> string list \<Rightarrow> started_task \<Rightarrow> bool" where
  "wallet_task meta sig keys watched t \<longleftrightarrow> task_ok meta sig t \<and> task_wallet t \<in> set watched \<and> PStr (task_wallet t) \<in> set keys"

lemma wallet_purchases_starts:
  "starts (\<lambda>t. task_ok meta sig t \<and> task_wallet t = wallet) s
     (snd (wallet_purchases stopping clk sig source meta keys wallet s))"
proof (cases "bindE (as_dict meta) (\<lambda>md. bindE (wallet_token_deltas md wallet) (\<lambda>d. Inr (md, d)))")
  case (Inl e)
  then show ?thesis by (simp add: wallet_purchases_def)
next
  case (Inr p)
  then obtain md d where p: "p = (md, d)" "meta = PDict md" "wallet_token_deltas md wallet = Inr d"
    by (cases meta) (auto simp: bindE_eq_Inr)
  let ?R = "starts (\<lambda>t. task_ok meta sig t \<and> task_wallet t = wallet)"
  have "?R s (snd (each (report_purchase stopping clk sig source wallet paid) (acquired_tokens d) s))" for paid
  proof (rule each_step [where R = ?R])
    fix x s assume "x \<in> set (acquired_tokens d)"
    then obtain m raw n where x: "x = (m, raw, n)" "(m, raw, n) \<in> set d" "0 < raw" by (auto simp: acquired_tokens_def)
    show "?R s (snd (report_purchase stopping clk sig source wallet paid x s))"
      using report_purchase_starts [OF p(3) x(2,3)] by (simp add: x(1) p(2))
  qed (auto intro: starts_trans)
  then show ?thesis using Inr p by (auto simp: wallet_purchases_def split: sum.splits)
qed

lemma wallet_purchases_observes:
  assumes "fst (wallet_purchases stopping clk sig source (PDict md) keys wallet s) = None"
    and "wallet_token_deltas md wallet = Inr d" "(m, raw, n) \<in> set d" "0 < raw" "m \<notin> quote_tokens"
    and "paid_lamports_of md keys wallet d = Inr paid" "0 < paid"
  shows "ObserveBuy wallet m raw paid sig \<in> set (started (snd (wallet_purchases stopping clk sig source (PDict md) keys wallet s)))"
proof -
  let ?f = "report_purchase stopping clk sig source wallet paid"
  have a: "(m, raw, n) \<in> set (acquired_tokens d)" using assms by (simp add: acquired_tokens_def)
  then have w: "wallet_purchases stopping clk sig source (PDict md) keys wallet s = each ?f (acquired_tokens d) s"
    using assms by (auto simp: wallet_purchases_def split: if_splits)
  let ?R = "starts (\<lambda>t. task_ok (PDict md) sig t \<and> task_wallet t = wallet)"
  have "\<exists>t. fst (?f (m, raw, n) t) = None \<and> ?R (snd (?f (m, raw, n) t)) (snd (each ?f (acquired_tokens d) s))"
  proof (rule each_all [where R = ?R])
    fix x s assume "x \<in> set (acquired_tokens d)"
    then obtain m raw n where x: "x = (m, raw, n)" "(m, raw, n) \<in> set d" "0 < raw" by (auto simp: acquired_tokens_def)
    show "?R s (snd (?f x s))" using report_purchase_starts [OF assms(2) x(2,3)] by (simp add: x(1))
  qed (use assms(1) w a in \<open>auto intro: starts_trans\<close>)
  then obtain t where t: "fst (?f (m, raw, n) t) = None" "?R (snd (?f (m, raw, n) t)) (snd (each ?f (acquired_tokens d) s))"
    by blast
  from starts_started [OF t(2) report_observes [OF t(1) assms(5,7)]] show ?thesis using w by simp
qed

lemma wallets_gated:
  fixes s :: "'m monitor_state_scheme"
  assumes "among = subseq \<or> among = (=) \<and> \<not> stopping \<and> fst (each (wallet_purchases stopping clk sig source meta keys) xs s) = None"
  shows "gated among s (snd (each (wallet_purchases stopping clk sig source meta keys) xs s))"
proof -
  have r: "gated among s s" for s :: "'m monitor_state_scheme" using assms by (intro gated_refl) auto
  have t: "gated among a b \<Longrightarrow> gated among b c \<Longrightarrow> gated among a c" for a b c :: "'m monitor_state_scheme"
    by (rule gated_trans) (use assms in \<open>auto intro: list_emb_append_mono\<close>)
  from assms show ?thesis
  proof
    assume a: "among = subseq"
    have "gated among u (snd (wallet_purchases stopping clk sig source meta keys x u))" for x and u :: "'m monitor_state_scheme"
      using wallet_purchases_gated a by blast
    then show ?thesis by (rule each_step [where R = "gated among"]) (rule r, erule (1) t)
  next
    assume a: "among = (=) \<and> \<not> stopping \<and> fst (each (wallet_purchases stopping clk sig source meta keys) xs s) = None"
    have "gated among u (snd (wallet_purchases stopping clk sig source meta keys x u))"
      if "fst (wallet_purchases stopping clk sig source meta keys x u) = None" for x and u :: "'m monitor_state_scheme"
      using wallet_purchases_gated a that by blast
    then show ?thesis by (rule each_kept [where R = "gated among"]) (assumption, rule r, erule (1) t, use a in blast)
  qed
qed

text \<open>C31: whatever a transaction holds, the tasks it starts are for tokens a watched wallet among its accounts
  acquired in it, never for the quote tokens.  The purchases it observes go through the strength gate, each once and in
  their order, from the state in which the gate was, and the signals without a rejection reason are purchases the gate
  approved there; when the transaction is read to its end and the service does not stop, they are exactly those.  And
  when it is read to its end, every acquisition of such a token whose payment is known is observed, with
  the payment, whether its signal is copied, filtered or dropped.\<close>

theorem signals_come_from_acquisitions:
  assumes "dict_or_empty result ''transaction'' = Inr tx" "dict_or_empty tx ''message'' = Inr message"
    and "account_keys message = Inr keys" "signature_of result = Inr sig" "list_all hashable keys"
    and "meta = py_or (dgetn result ''meta'') (PDict [])"
  shows "starts (wallet_task meta sig keys watched) s (snd (print_buys stopping clk result watched source s))
    \<and> gated subseq s (snd (print_buys stopping clk result watched source s))
    \<and> (\<not> stopping \<and> fst (print_buys stopping clk result watched source s) = None
        \<longrightarrow> gated (=) s (snd (print_buys stopping clk result watched source s)))
    \<and> (fst (print_buys stopping clk result watched source s) = None \<longrightarrow>
        (\<forall>wallet md d m raw n paid. wallet \<in> set watched \<and> PStr wallet \<in> set keys \<and> meta = PDict md
           \<and> wallet_token_deltas md wallet = Inr d \<and> (m, raw, n) \<in> set d \<and> 0 < raw \<and> m \<notin> quote_tokens
           \<and> paid_lamports_of md keys wallet d = Inr paid \<and> 0 < paid
           \<longrightarrow> ObserveBuy wallet m raw paid sig \<in> set (started (snd (print_buys stopping clk result watched source s)))))"
proof -
  let ?ws = "filter (\<lambda>w. PStr w \<in> set keys) watched" let ?f = "wallet_purchases stopping clk sig source meta keys"
  let ?R = "starts (wallet_task meta sig keys watched)"
  have p: "print_buys stopping clk result watched source s = each ?f ?ws s"
    using assms by (simp add: print_buys_def)
  have step: "?R s (snd (?f w s))" if "w \<in> set ?ws" for w s
    using wallet_purchases_starts by (rule starts_weaken) (use that in \<open>auto simp: wallet_task_def\<close>)
  have "?R s (snd (each ?f ?ws s))" by (rule each_step [where R = ?R]) (blast intro: step starts_refl starts_trans)+
  moreover have "ObserveBuy wallet m raw paid sig \<in> set (started (snd (each ?f ?ws s)))"
    if "fst (each ?f ?ws s) = None" "wallet \<in> set watched" "PStr wallet \<in> set keys" "meta = PDict md"
      "wallet_token_deltas md wallet = Inr d" "(m, raw, n) \<in> set d" "0 < raw" "m \<notin> quote_tokens"
      "paid_lamports_of md keys wallet d = Inr paid" "0 < paid" for wallet md d m raw n paid
  proof -
    have "wallet \<in> set ?ws" using that by simp
    then have "\<exists>t. fst (?f wallet t) = None \<and> ?R (snd (?f wallet t)) (snd (each ?f ?ws s))"
      by (rule each_all [where R = ?R, OF that(1)]) (blast intro: step starts_refl starts_trans)+
    then obtain t where t: "fst (?f wallet t) = None" "?R (snd (?f wallet t)) (snd (each ?f ?ws s))" by blast
    from t(1) wallet_purchases_observes that(4-) have "ObserveBuy wallet m raw paid sig \<in> set (started (snd (?f wallet t)))"
      by blast
    with t(2) show ?thesis by (rule starts_started)
  qed
  moreover have "gated subseq s (snd (each ?f ?ws s))" by (rule wallets_gated) simp
  moreover have "gated (=) s (snd (each ?f ?ws s))" if "\<not> stopping" "fst (each ?f ?ws s) = None"
    by (rule wallets_gated) (use that in simp)
  ultimately show ?thesis unfolding p by blast
qed

definition example_transaction :: dict where
  "example_transaction = [(''transaction'', PDict [(''message'', PDict [(''accountKeys'', PList [PStr ''w''])]),
       (''signatures'', PList [PStr ''sig''])]), (''meta'', PDict example_meta)]"

definition quiet_clock :: monitor_clock where
  "quiet_clock = \<lparr>monotonic = (\<lambda>_. Fin 1000), utc_text = (\<lambda>_. ''t''), epoch_time = (\<lambda>_. Fin 0)\<rparr>"

definition quiet_state :: monitor_state where
  "quiet_state = \<lparr>gate = empty_gate, activity = reset_wallet_ws_activity (Fin 0), registry = no_tasks, started = [], readings = 0\<rparr>"

theorem signals_come_from_acquisitions_witness:
  "ObserveBuy ''w'' (PStr ''m'') 60 2000000000 ''sig''
     \<in> set (started (snd (print_buys False quiet_clock example_transaction [''w''] DISCOVERY_SOURCE_HELIUS quiet_state)))
   \<and> gated (=) quiet_state (snd (print_buys False quiet_clock example_transaction [''w''] DISCOVERY_SOURCE_HELIUS quiet_state))"
proof -
  have h: "dict_or_empty example_transaction ''transaction'' = Inr [(''message'', PDict [(''accountKeys'', PList [PStr ''w''])]),
       (''signatures'', PList [PStr ''sig''])]"
    "dict_or_empty [(''message'', PDict [(''accountKeys'', PList [PStr ''w''])]), (''signatures'', PList [PStr ''sig''])] ''message''
       = Inr [(''accountKeys'', PList [PStr ''w''])]"
    "account_keys [(''accountKeys'', PList [PStr ''w''])] = Inr [PStr ''w'']"
    "signature_of example_transaction = Inr ''sig''" "list_all hashable [PStr ''w'']"
    "PDict example_meta = py_or (dgetn example_transaction ''meta'') (PDict [])"
    by (simp_all add: dict_or_empty_def example_transaction_def signature_of_def account_keys_def dgetn_def dget_or_def
      py_or_def example_meta_def)
  have p: "fst (print_buys False quiet_clock example_transaction [''w''] DISCOVERY_SOURCE_HELIUS quiet_state) = None"
    "wallet_token_deltas example_meta ''w'' = Inr [(PStr ''m'', 60, 6)]"
    "paid_lamports_of example_meta [PStr ''w''] ''w'' [(PStr ''m'', 60, 6)] = Inr 2000000000"
    by code_simp+
  have q: "PStr ''m'' \<notin> quote_tokens" by (simp add: quote_tokens_def WSOL_MINT_def USDC_MINT_def)
  have i: "''w'' \<in> set [''w'']" "PStr ''w'' \<in> set [PStr ''w'']" "(PStr ''m'', 60, 6) \<in> set [(PStr ''m'', 60, 6)]" "(0 :: int) < 60"
    "(0 :: int) < 2000000000" by simp_all
  note both = signals_come_from_acquisitions [OF h, of "[''w'']" quiet_state False quiet_clock DISCOVERY_SOURCE_HELIUS,
      THEN conjunct2, THEN conjunct2]
  note all = both [THEN conjunct2, rule_format, OF p(1)]
  show ?thesis
  proof
    show "ObserveBuy ''w'' (PStr ''m'') 60 2000000000 ''sig''
       \<in> set (started (snd (print_buys False quiet_clock example_transaction [''w''] DISCOVERY_SOURCE_HELIUS quiet_state)))"
      by (rule all) (rule conjI [OF i(1) conjI [OF i(2) conjI [OF refl conjI [OF p(2) conjI [OF i(3) conjI [OF i(4)
        conjI [OF q conjI [OF p(3) i(5)]]]]]]]])
    show "gated (=) quiet_state (snd (print_buys False quiet_clock example_transaction [''w''] DISCOVERY_SOURCE_HELIUS quiet_state))"
      using both [THEN conjunct1] p(1) by blast
  qed
qed

end
