(* ===== verification/MonitorMomentum.thy ===== *)
theory MonitorMomentum
  imports MonitorTrades ProspectiveFeatures WalletCooldown
begin

text \<open>
  The candidates of the second route, \<open>src/monitor.py\<close>: the score of five minutes of activity, the projection of
  a pair of the market feed and the thresholds it is held against, the cohorts of one poll, and the confirmation
  that unknown wallets bought the token.

  The answers of the feed and of the RPC node are arguments.  Finite floats of a projection are rationals; a sort
  by a tuple of finite floats is a sort by the tuple of their negations where the code sorts downwards.
\<close>

section \<open>Constants\<close>

definition MOMENTUM_MIN_VOLUME_M5_USD :: rat where "MOMENTUM_MIN_VOLUME_M5_USD = 15000"
definition MOMENTUM_MIN_NET_BUYS_M5 :: int where "MOMENTUM_MIN_NET_BUYS_M5 = 15"
definition MOMENTUM_MIN_BUY_SELL_RATIO :: f64 where "MOMENTUM_MIN_BUY_SELL_RATIO = float_lit (18 / 10)"
definition MOMENTUM_MIN_LIQUIDITY_USD :: rat where "MOMENTUM_MIN_LIQUIDITY_USD = 10000"
definition MOMENTUM_MIN_PAIR_AGE_SECONDS :: f64 where "MOMENTUM_MIN_PAIR_AGE_SECONDS = float_lit 900"
definition MOMENTUM_MAX_DISCOVERY_TOKENS :: nat where "MOMENTUM_MAX_DISCOVERY_TOKENS = 30"
definition MOMENTUM_MAX_CANDIDATES :: nat where "MOMENTUM_MAX_CANDIDATES = 8"
definition MOMENTUM_MAX_RAW_PAIRS :: nat where "MOMENTUM_MAX_RAW_PAIRS = 200"
definition MOMENTUM_MAX_SHADOW_CANDIDATES :: nat where "MOMENTUM_MAX_SHADOW_CANDIDATES = 8"
definition UNKNOWN_WHALE_MIN_COUNT :: nat where "UNKNOWN_WHALE_MIN_COUNT = 3"

section \<open>The score\<close>

definition volume_operand :: "rat \<Rightarrow> f64" where
  "volume_operand volume = f64_div (Fin (max 0 volume)) (Fin 500)"

definition imbalance_operand :: "int \<Rightarrow> int \<Rightarrow> f64 res" where
  "imbalance_operand buys sells = bindE (f64_of_int (max 0 (buys - sells))) (\<lambda>net. Inr (f64_mul net (Fin 2)))"

definition momentum_score :: "rat \<Rightarrow> int \<Rightarrow> int \<Rightarrow> f64 res" where
  "momentum_score volume buys sells =
     bindE (imbalance_operand buys sells) (\<lambda>imbalance.
       Inr (f64_round (f64_add (f64_min (Fin 60) (volume_operand volume)) (f64_min (Fin 40) imbalance)) 4))"

text \<open>The operands kept for the record of the entry.\<close>

definition score_components :: "rat \<Rightarrow> int \<Rightarrow> int \<Rightarrow> dict res" where
  "score_components volume buys sells =
     bindE (imbalance_operand buys sells) (\<lambda>imbalance.
     bindE (f64_of_int (max 0 (buys - sells))) (\<lambda>net.
       Inr [(''volume_operand_before_cap'', PFloat (volume_operand volume)),
            (''volume_points'', PFloat (f64_min (Fin 60) (volume_operand volume))),
            (''positive_net_buys'', PFloat net), (''imbalance_operand_before_cap'', PFloat imbalance),
            (''imbalance_points'', PFloat (f64_min (Fin 40) imbalance))]))"

section \<open>Pairs\<close>

record momentum_candidate =
  mc_mint :: string
  mc_pair :: string
  mc_volume :: rat
  mc_buys :: int
  mc_sells :: int
  mc_liquidity :: rat
  mc_score :: f64
  mc_age :: f64
  mc_price :: "rat option"
  mc_components :: dict

type_synonym shadow_candidate = "momentum_candidate \<times> string list"

definition net_buys :: "momentum_candidate \<Rightarrow> int" where
  "net_buys c = mc_buys c - mc_sells c"

definition momentum_is_still_strong :: "momentum_candidate \<Rightarrow> momentum_candidate \<Rightarrow> bool" where
  "momentum_is_still_strong original refreshed \<longleftrightarrow>
     mc_mint refreshed = mc_mint original \<and> mc_volume original \<le> mc_volume refreshed
     \<and> net_buys original \<le> net_buys refreshed \<and> f64_le (mc_score original) (mc_score refreshed)"

record pair_projection =
  pp_solana :: bool
  pp_mint :: string
  pp_pair :: string
  pp_buys :: "rat option"
  pp_sells :: "rat option"
  pp_volume :: "rat option"
  pp_liquidity :: "rat option"
  pp_created :: "rat option"
  pp_price :: "rat option"
  pp_error :: bool

definition bare_projection :: "bool \<Rightarrow> string \<Rightarrow> string \<Rightarrow> bool \<Rightarrow> pair_projection" where
  "bare_projection solana m pair_address err =
     \<lparr>pp_solana = solana, pp_mint = m, pp_pair = pair_address, pp_buys = None, pp_sells = None, pp_volume = None,
      pp_liquidity = None, pp_created = None, pp_price = None, pp_error = err\<rparr>"

definition finite_value :: "py \<Rightarrow> rat option" where
  "finite_value v = (case py_float v of Inr (Fin q) \<Rightarrow> Some q | _ \<Rightarrow> None)"

definition feed_metrics :: "dict \<Rightarrow> (rat option \<times> rat option \<times> rat option \<times> rat option) res" where
  "feed_metrics pair =
     bindE (bindE (dict_or_empty pair ''txns'') (\<lambda>txns. dict_or_empty txns ''m5'')) (\<lambda>m5.
     bindE (dict_or_empty pair ''volume'') (\<lambda>volume.
     bindE (dict_or_empty pair ''liquidity'') (\<lambda>liquidity.
     Inr (finite_value (dgetn m5 ''buys''), finite_value (dgetn m5 ''sells''),
          finite_value (dgetn volume ''m5''), finite_value (dgetn liquidity ''usd'')))))"

definition unusable_pair :: "string \<Rightarrow> string \<Rightarrow> bool" where
  "unusable_pair m pair_address \<longleftrightarrow> m = [] \<or> pair_address = [] \<or> m \<in> {WSOL_MINT, USDC_MINT}"

definition momentum_pair_projection :: "dict \<Rightarrow> pair_projection" where
  "momentum_pair_projection pair =
     (if dgetn pair ''chainId'' \<noteq> PStr ''solana'' then bare_projection False [] [] False
      else case dict_or_empty pair ''baseToken'' of
        Inl _ \<Rightarrow> bare_projection True [] [] True
      | Inr base \<Rightarrow>
          (let m = str_field base ''address'' (PStr []); pair_address = str_field pair ''pairAddress'' (PStr []) in
           if unusable_pair m pair_address then bare_projection True m pair_address False
           else case feed_metrics pair of
             Inl _ \<Rightarrow> bare_projection True m pair_address True
           | Inr (buys, sells, volume, liquidity) \<Rightarrow>
               \<lparr>pp_solana = True, pp_mint = m, pp_pair = pair_address, pp_buys = buys, pp_sells = sells,
                pp_volume = volume, pp_liquidity = liquidity, pp_created = finite_value (dgetn pair ''pairCreatedAt''),
                pp_price = finite_value (dgetn pair ''priceUsd''), pp_error = False\<rparr>))"

definition or_zero :: "rat option \<Rightarrow> rat" where
  "or_zero v = (case v of None \<Rightarrow> 0 | Some q \<Rightarrow> q)"

text \<open>An integer is compared with a float exactly.\<close>

definition int_less_f64 :: "int \<Rightarrow> f64 \<Rightarrow> bool" where
  "int_less_f64 i x = (case x of Fin q \<Rightarrow> of_int i < q | PInf \<Rightarrow> True | _ \<Rightarrow> False)"

definition flag :: "bool \<Rightarrow> 'a \<Rightarrow> 'a list" where
  "flag b x = (if b then [x] else [])"

definition age_reason :: "rat \<Rightarrow> f64 \<Rightarrow> f64 \<Rightarrow> string list" where
  "age_reason created current_ms age =
     (if created \<le> 0 then [''PAIR_CREATED_AT_INVALID'']
      else if f64_lt current_ms (Fin created) then [''PAIR_CREATED_IN_FUTURE'']
      else flag (f64_lt age MOMENTUM_MIN_PAIR_AGE_SECONDS) ''PAIR_TOO_YOUNG'')"

definition rejection_reasons :: "pair_projection \<Rightarrow> momentum_candidate \<Rightarrow> f64 \<Rightarrow> string list res" where
  "rejection_reasons p c current_ms =
     bindE (f64_of_int (mc_sells c)) (\<lambda>sells.
     Inr (flag (None \<in> {pp_volume p, pp_buys p, pp_sells p, pp_liquidity p}) ''MOMENTUM_METRIC_INVALID''
       @ age_reason (or_zero (pp_created p)) current_ms (mc_age c)
       @ flag (mc_liquidity c < MOMENTUM_MIN_LIQUIDITY_USD) ''MOMENTUM_LIQUIDITY_UNDER_MIN''
       @ flag (mc_volume c < MOMENTUM_MIN_VOLUME_M5_USD) ''MOMENTUM_VOLUME_UNDER_MIN''
       @ flag (net_buys c < MOMENTUM_MIN_NET_BUYS_M5) ''MOMENTUM_NET_BUYS_UNDER_MIN''
       @ flag (int_less_f64 (mc_buys c) (f64_mul sells MOMENTUM_MIN_BUY_SELL_RATIO)) ''MOMENTUM_BUY_SELL_RATIO_UNDER_MIN''))"

definition momentum_candidate_of :: "pair_projection \<Rightarrow> f64 \<Rightarrow> momentum_candidate res" where
  "momentum_candidate_of p current_ms =
     (let volume = max 0 (or_zero (pp_volume p)); buys = max 0 (trunc_rat (or_zero (pp_buys p)));
          sells = max 0 (trunc_rat (or_zero (pp_sells p))) in
      bindE (momentum_score volume buys sells) (\<lambda>score.
      bindE (score_components volume buys sells) (\<lambda>components.
      Inr \<lparr>mc_mint = pp_mint p, mc_pair = pp_pair p, mc_volume = volume, mc_buys = buys, mc_sells = sells,
           mc_liquidity = max 0 (or_zero (pp_liquidity p)), mc_score = score,
           mc_age = f64_div (f64_sub current_ms (Fin (or_zero (pp_created p)))) (Fin 1000),
           mc_price = (case pp_price p of Some q \<Rightarrow> (if 0 \<le> q then Some q else None) | None \<Rightarrow> None),
           mc_components = components\<rparr>)))"

definition momentum_shadow_candidate :: "pair_projection \<Rightarrow> f64 \<Rightarrow> shadow_candidate option res" where
  "momentum_shadow_candidate p current_ms =
     (if \<not> pp_solana p then Inr None
      else if pp_error p then Inl AttributeError
      else if unusable_pair (pp_mint p) (pp_pair p) then Inr None
      else if \<not> f64_is_finite current_ms then Inr None
      else bindE (momentum_candidate_of p current_ms) (\<lambda>c.
           bindE (rejection_reasons p c current_ms) (\<lambda>reasons. Inr (Some (c, reasons)))))"

definition momentum_candidate_from_pair :: "dict \<Rightarrow> f64 \<Rightarrow> momentum_candidate option res" where
  "momentum_candidate_from_pair pair now_ms =
     bindE (momentum_shadow_candidate (momentum_pair_projection pair) now_ms) (\<lambda>evaluated.
       Inr (case evaluated of Some (c, []) \<Rightarrow> Some c | _ \<Rightarrow> None))"

section \<open>The feed\<close>

fun projected :: "py \<Rightarrow> pair_projection option" where
  "projected (PDict pair) = Some (momentum_pair_projection pair)"
| "projected _ = None"

definition search_pair_projections :: "py \<Rightarrow> pair_projection list res" where
  "search_pair_projections payload = (case payload of
     PDict d \<Rightarrow> bindE (rows_or_empty d ''pairs'') (\<lambda>pairs.
       Inr (take MOMENTUM_MAX_RAW_PAIRS (List.map_filter projected pairs)))
   | _ \<Rightarrow> Inr [])"

text \<open>The loop of \<open>_extend_discovered_mints\<close>: the bound is looked at after a row of the chain.\<close>

fun discover :: "py list \<Rightarrow> string list \<Rightarrow> string list" where
  "discover [] found = found"
| "discover (PDict row # rows) found =
     (if dgetn row ''chainId'' \<noteq> PStr ''solana'' then discover rows found
      else let m = str_field row ''tokenAddress'' (PStr []);
               found = (if m \<noteq> [] \<and> m \<notin> set found then found @ [m] else found) in
        if MOMENTUM_MAX_DISCOVERY_TOKENS \<le> length found then found else discover rows found)"
| "discover (_ # rows) found = discover rows found"

definition extend_discovered_mints :: "py \<Rightarrow> string list \<Rightarrow> string list" where
  "extend_discovered_mints payload found = (case payload of PList rows \<Rightarrow> discover rows found | v \<Rightarrow> discover [v] found)"

definition token_pair_projections :: "py \<Rightarrow> nat \<Rightarrow> pair_projection list" where
  "token_pair_projections payload limit =
     (case payload of PList pairs \<Rightarrow> List.map_filter projected (take limit pairs) | _ \<Rightarrow> [])"

text \<open>The answers of one poll: the search, the profiles, the boosts, and the pairs of the tokens asked for.\<close>

record feed =
  feed_search :: "py res"
  feed_profiles :: "py res"
  feed_boosts :: "py res"
  feed_tokens :: "string list \<Rightarrow> py res"
  feed_epoch :: f64

definition discovered_mints :: "feed \<Rightarrow> string list res" where
  "discovered_mints io =
     bindE (feed_profiles io) (\<lambda>profiles. bindE (feed_boosts io) (\<lambda>boosts.
       Inr (extend_discovered_mints boosts (extend_discovered_mints profiles []))))"

definition feed_projections :: "feed \<Rightarrow> pair_projection list res" where
  "feed_projections io =
     bindE (bindE (feed_search io) search_pair_projections) (\<lambda>found.
     bindE (discovered_mints io) (\<lambda>mints.
     if mints = [] then Inr found
     else bindE (feed_tokens io mints) (\<lambda>payload.
       Inr (found @ token_pair_projections payload (MOMENTUM_MAX_RAW_PAIRS - length found)))))"

section \<open>Cohorts\<close>

type_synonym cohort = "(string \<times> momentum_candidate) list \<times> (string \<times> shadow_candidate) list"

definition shadow_rank :: "shadow_candidate \<Rightarrow> nat \<times> f64 \<times> rat" where
  "shadow_rank s = (length (snd s), f64_neg (mc_score (fst s)), - mc_volume (fst s))"

definition approved_rank :: "momentum_candidate \<Rightarrow> f64 \<times> rat \<times> int" where
  "approved_rank c = (f64_neg (mc_score c), - mc_volume c, - net_buys c)"

text \<open>The best candidate of each token, and the nearest miss of each.\<close>

definition place_candidate :: "shadow_candidate \<Rightarrow> cohort \<Rightarrow> cohort" where
  "place_candidate s = (\<lambda>(best, misses).
     let m = mc_mint (fst s) in
     if snd s \<noteq> [] then
       (best, case map_of misses m of
          None \<Rightarrow> AList.update m s misses
        | Some incumbent \<Rightarrow> (if shadow_rank s < shadow_rank incumbent then AList.update m s misses else misses))
     else
       (case map_of best m of
          None \<Rightarrow> AList.update m (fst s) best
        | Some incumbent \<Rightarrow> (if f64_lt (mc_score incumbent) (mc_score (fst s)) then AList.update m (fst s) best else best),
        misses))"

definition place_projection :: "f64 \<Rightarrow> cohort \<Rightarrow> pair_projection \<Rightarrow> cohort res" where
  "place_projection now_ms cohort p =
     bindE (momentum_shadow_candidate p now_ms) (\<lambda>evaluated.
       Inr (case evaluated of None \<Rightarrow> cohort | Some s \<Rightarrow> place_candidate s cohort))"

definition cohort_of :: "f64 \<Rightarrow> pair_projection list \<Rightarrow> cohort res" where
  "cohort_of epoch projections =
     bindE (foldE (place_projection (f64_mul epoch (Fin 1000))) ([], []) projections) (\<lambda>(best, misses).
       Inr (best, filter (\<lambda>(m, s). map_of best m = None) misses))"

definition record_candidate :: "f64 \<Rightarrow> momentum_candidate \<Rightarrow> snapshot_store \<Rightarrow> snapshot_store" where
  "record_candidate epoch c st = snd (store_record (mc_mint c) (mc_pair c)
     \<lparr>field_at = PFloat epoch, field_volume = PFloat (Fin (mc_volume c)), field_buys = PInt (mc_buys c),
      field_sells = PInt (mc_sells c), field_liquidity = PFloat (Fin (mc_liquidity c)),
      field_price = (case mc_price c of None \<Rightarrow> PNone | Some q \<Rightarrow> PFloat (Fin q))\<rparr> st)"

text \<open>One poll: the approved candidates, the near misses, and the store of snapshots.\<close>

definition fetch_momentum_candidate_cohorts ::
  "feed \<Rightarrow> snapshot_store \<Rightarrow> (momentum_candidate list \<times> shadow_candidate list) res \<times> snapshot_store" where
  "fetch_momentum_candidate_cohorts io st =
     (case bindE (feed_projections io) (cohort_of (feed_epoch io)) of
        Inl e \<Rightarrow> (Inl e, st)
      | Inr (best, misses) \<Rightarrow>
          (Inr (take MOMENTUM_MAX_CANDIDATES (sort_key approved_rank (map snd best)),
                take MOMENTUM_MAX_SHADOW_CANDIDATES (sort_key shadow_rank (map snd misses))),
           fold (record_candidate (feed_epoch io)) (map snd best @ map (fst \<circ> snd) misses) st))"

definition fetch_momentum_candidates :: "feed \<Rightarrow> snapshot_store \<Rightarrow> momentum_candidate list res \<times> snapshot_store" where
  "fetch_momentum_candidates io st =
     (let (r, st) = fetch_momentum_candidate_cohorts io st in (bindE r (\<lambda>(approved, shadows). Inr approved), st))"

end
