(* ===== verification/MonitorMomentumFacts.thy ===== *)
theory MonitorMomentumFacts
  imports MonitorMomentum
begin

text \<open>
  What the candidates of the second route promise: the score is monotone and between 0 and 100, so that the ledger
  accepts it; an approved candidate meets every threshold and scores at least 60; a poll returns at most eight
  approved candidates and eight near misses, one per token, the best first.
\<close>

section \<open>The score\<close>

lemma fl_num: "\<bar>n\<bar> \<le> 2 ^ 53 \<Longrightarrow> fl (of_int n) = (of_int n :: rat)"
  by (rule fl_of_int)

lemma fl_between: "of_int a \<le> x \<Longrightarrow> x \<le> of_int b \<Longrightarrow> \<bar>a\<bar> \<le> 2 ^ 53 \<Longrightarrow> \<bar>b\<bar> \<le> 2 ^ 53 \<Longrightarrow> of_int a \<le> fl x \<and> fl x \<le> of_int b"
  using fl_mono [of "of_int a" x] fl_mono [of x "of_int b"] by (simp add: fl_num)

lemma small_f64: "0 \<le> x \<Longrightarrow> x \<le> 100000000 \<Longrightarrow> f64_of_rat x = Fin (fl x)"
proof -
  assume x: "0 \<le> x" "x \<le> 100000000"
  have "(100000000 :: rat) \<le> 2 ^ 1000" by simp
  then have "\<bar>x\<bar> \<le> 2 ^ 1000" using x by (simp add: abs_of_nonneg)
  then show ?thesis by (rule f64_of_rat_small)
qed

text \<open>A float that is not negative, possibly infinite: the operands of the score.\<close>

fun nonneg :: "f64 \<Rightarrow> bool" where
  "nonneg (Fin q) = (0 \<le> q)" | "nonneg PInf = True" | "nonneg _ = False"

lemma nonneg_of_rat: "0 \<le> x \<Longrightarrow> nonneg (f64_of_rat x)"
  using fl_nonneg [of x] by (simp add: f64_of_rat_def Let_def)

lemma f64_of_rat_mono:
  assumes "0 \<le> x" "x \<le> y" shows "f64_le (f64_of_rat x) (f64_of_rat y)"
  using assms fl_mono [of x y] fl_nonneg [of x] by (auto simp: f64_of_rat_def Let_def)

lemma capped_ex:
  assumes "nonneg x" "0 \<le> a" shows "\<exists>q. f64_min (Fin a) x = Fin q \<and> 0 \<le> q \<and> q \<le> a"
proof (cases x)
  case (Fin r)
  then show ?thesis using assms by (cases "r < a") (auto simp: f64_min_def f64_lt_def)
qed (use assms in \<open>auto simp: f64_min_def f64_lt_def\<close>)

lemma capped:
  assumes "nonneg x" "0 \<le> a"
  obtains q where "f64_min (Fin a) x = Fin q" "0 \<le> q" "q \<le> a"
  using capped_ex [OF assms] by blast

lemma capped_mono:
  assumes "nonneg x" "nonneg y" "f64_le x y" "f64_min (Fin a) x = Fin p" "f64_min (Fin a) y = Fin q"
  shows "p \<le> q"
  using assms by (cases x; cases y) (auto simp: f64_min_def f64_lt_def split: if_splits)

lemma volume_operand_nonneg: "nonneg (volume_operand v)"
  by (simp add: volume_operand_def f64_div_def nonneg_of_rat)

lemma imbalance_operand_Inr:
  assumes "imbalance_operand b s = Inr x"
  obtains n where "f64_of_int (max 0 (b - s)) = Inr (Fin n)" "0 \<le> n" "x = f64_of_rat (n * 2)" "n = fl (of_int (max 0 (b - s)))"
proof -
  obtain net where net: "f64_of_int (max 0 (b - s)) = Inr net" "x = f64_mul net (Fin 2)"
    using assms by (auto simp: imbalance_operand_def bindE_eq_Inr)
  have "\<exists>n. net = Fin n \<and> f64_of_rat (of_int (max 0 (b - s))) = Fin n"
    using net(1) by (cases "f64_of_rat (of_int (max 0 (b - s)))") (auto simp: f64_of_int_def)
  then obtain n where n: "net = Fin n" "f64_of_rat (of_int (max 0 (b - s))) = Fin n" by blast
  have "n = fl (of_int (max 0 (b - s)))" using n(2) by (auto simp: f64_of_rat_def Let_def split: if_splits)
  moreover have "0 \<le> n" unfolding \<open>n = _\<close> by (rule fl_nonneg) simp
  ultimately show ?thesis using that net n by (simp add: f64_mul_def)
qed

lemma round4:
  assumes "of_int a \<le> x" "x \<le> of_int b" "0 \<le> a" "b \<le> 100"
  shows "\<exists>q. f64_round (Fin x) 4 = Fin q \<and> of_int a \<le> q \<and> q \<le> of_int b"
proof -
  have "a \<le> b" using assms(1,2) by (meson of_int_le_iff order_trans)
  have r: "a * 10000 \<le> rhe (x * 10000)" "rhe (x * 10000) \<le> b * 10000"
    using rhe_ge_iff [of "a * 10000" "x * 10000"] rhe_le_iff [of "x * 10000" "b * 10000"] assms by simp_all
  define y where "y = (of_int (rhe (x * 10000)) :: rat) / 10000"
  have "(of_int (a * 10000) :: rat) \<le> of_int (rhe (x * 10000))" "(of_int (rhe (x * 10000)) :: rat) \<le> of_int (b * 10000)"
    using r by (simp_all only: of_int_le_iff)
  then have y: "of_int a \<le> y" "y \<le> of_int b" by (simp_all add: y_def pos_le_divide_eq pos_divide_le_eq)
  have "(0 :: rat) \<le> of_int a" "(of_int b :: rat) \<le> 100" using assms(3,4) by simp_all
  then have "0 \<le> y" "y \<le> 100000000" using y by linarith+
  then have "f64_of_rat y = Fin (fl y)" by (rule small_f64)
  moreover have "of_int a \<le> fl y \<and> fl y \<le> of_int b" using y assms(3,4) \<open>a \<le> b\<close> by (intro fl_between) simp_all
  ultimately show ?thesis by (simp add: y_def)
qed

lemma round_mono:
  assumes "0 \<le> x" "x \<le> y" "y \<le> 100"
  shows "f64_le (f64_round (Fin x) 4) (f64_round (Fin y) 4)"
proof -
  have "x * 10 ^ 4 \<le> y * 10 ^ 4" using assms by simp
  then have "(of_int (rhe (x * 10 ^ 4)) :: rat) / 10 ^ 4 \<le> of_int (rhe (y * 10 ^ 4)) / 10 ^ 4"
    by (simp add: divide_right_mono rhe_mono)
  moreover have "0 \<le> (of_int (rhe (x * 10 ^ 4)) :: rat) / 10 ^ 4"
    using rhe_ge_iff [of 0 "x * 10 ^ 4"] assms by simp
  ultimately show ?thesis by (simp add: f64_of_rat_mono)
qed

text \<open>The score as the rounded sum of its two capped parts.\<close>

lemma momentum_score_parts:
  assumes "momentum_score v b s = Inr x"
  obtains p q y where "f64_min (Fin 60) (volume_operand v) = Fin p" "0 \<le> p" "p \<le> 60"
    "imbalance_operand b s = Inr y" "f64_min (Fin 40) y = Fin q" "0 \<le> q" "q \<le> 40" "x = f64_round (Fin (fl (p + q))) 4"
    "0 \<le> fl (p + q)" "fl (p + q) \<le> 100"
proof -
  obtain y where y: "imbalance_operand b s = Inr y"
      "x = f64_round (f64_add (f64_min (Fin 60) (volume_operand v)) (f64_min (Fin 40) y)) 4"
    using assms by (auto simp: momentum_score_def bindE_eq_Inr)
  obtain p where p: "f64_min (Fin 60) (volume_operand v) = Fin p" "0 \<le> p" "p \<le> 60"
    using capped [OF volume_operand_nonneg, of 60 v] by auto
  obtain n where "y = f64_of_rat (n * 2)" "0 \<le> n" using imbalance_operand_Inr [OF y(1)] by metis
  then have "nonneg y" by (simp add: nonneg_of_rat)
  then obtain q where q: "f64_min (Fin 40) y = Fin q" "0 \<le> q" "q \<le> 40" using capped [of y 40] by auto
  have "f64_of_rat (p + q) = Fin (fl (p + q))" using p q by (intro small_f64) simp_all
  moreover have "0 \<le> fl (p + q)" "fl (p + q) \<le> 100" using fl_between [of 0 "p + q" 100] p q by simp_all
  ultimately show ?thesis using that p q y by simp
qed

lemma score_range:
  assumes "momentum_score v b s = Inr x"
  shows "\<exists>q. x = Fin q \<and> 0 \<le> q \<and> q \<le> 100"
  using assms
proof (rule momentum_score_parts)
  fix p q assume "x = f64_round (Fin (fl (p + q))) 4" "0 \<le> fl (p + q)" "fl (p + q) \<le> 100"
  then show ?thesis using round4 [of 0 "fl (p + q)" 100] by simp
qed

lemma score_mono:
  assumes "momentum_score v b s = Inr x" "momentum_score v' b' s' = Inr x'" "v \<le> v'" "b - s \<le> b' - s'"
  shows "f64_le x x'"
proof -
  obtain p q y where l: "f64_min (Fin 60) (volume_operand v) = Fin p" "imbalance_operand b s = Inr y"
      "f64_min (Fin 40) y = Fin q" "x = f64_round (Fin (fl (p + q))) 4" "0 \<le> fl (p + q)"
    using momentum_score_parts [OF assms(1)] by metis
  obtain p' q' y' where r: "f64_min (Fin 60) (volume_operand v') = Fin p'" "imbalance_operand b' s' = Inr y'"
      "f64_min (Fin 40) y' = Fin q'" "x' = f64_round (Fin (fl (p' + q'))) 4" "fl (p' + q') \<le> 100"
    using momentum_score_parts [OF assms(2)] by metis
  have "f64_le (volume_operand v) (volume_operand v')"
    using assms(3) by (simp add: volume_operand_def f64_div_def f64_of_rat_mono divide_right_mono)
  then have pp: "p \<le> p'" using capped_mono [OF volume_operand_nonneg volume_operand_nonneg _ l(1) r(1)] by simp
  obtain n where n: "y = f64_of_rat (n * 2)" "0 \<le> n" "n = fl (of_int (max 0 (b - s)))" using imbalance_operand_Inr [OF l(2)] by metis
  obtain n' where n': "y' = f64_of_rat (n' * 2)" "0 \<le> n'" "n' = fl (of_int (max 0 (b' - s')))"
    using imbalance_operand_Inr [OF r(2)] by metis
  have "n \<le> n'" unfolding n(3) n'(3) using assms(4) by (intro fl_mono) simp
  then have "f64_le y y'" using n n' by (simp add: f64_of_rat_mono)
  moreover have "nonneg y" "nonneg y'" using n n' by (simp_all add: nonneg_of_rat)
  ultimately have qq: "q \<le> q'" using capped_mono l(3) r(3) by blast
  have "fl (p + q) \<le> fl (p' + q')" using pp qq by (intro fl_mono) simp
  then show ?thesis using round_mono l(4,5) r(4,5) by simp
qed

text \<open>The momentum score lies between 0 and 100, so the ledger accepts it for either route, and it does not fall
  when the volume or the surplus of buys grows.\<close>

theorem momentum_score_is_bounded_and_monotone:
  assumes "momentum_score v b s = Inr x" "momentum_score v' b' s' = Inr x'" "v \<le> v'" "b - s \<le> b' - s'"
  shows "(\<exists>q. x = Fin q \<and> 0 \<le> q \<and> q \<le> 100) \<and> (\<exists>y. normalized_route_metadata ''B'' x = Inr (''B'', y)) \<and> f64_le x x'"
proof -
  obtain q where "x = Fin q" "0 \<le> q" "q \<le> 100" using score_range [OF assms(1)] by blast
  moreover have "upper ''B'' = ''B''" by code_simp
  ultimately show ?thesis using score_mono [OF assms] by (auto simp: normalized_route_metadata_Inr)
qed

theorem momentum_score_is_bounded_and_monotone_witness:
  "\<exists>x y. momentum_score 15000 40 20 = Inr x \<and> momentum_score 20000 45 20 = Inr y \<and> f64_le x y"
proof -
  have a: "momentum_score 15000 40 20 = Inr (Fin 70)" by code_simp
  have b: "momentum_score 20000 45 20 = Inr (Fin 80)" by code_simp
  have "(15000 :: rat) \<le> 20000" "(40 :: int) - 20 \<le> 45 - 20" by simp_all
  from momentum_score_is_bounded_and_monotone [OF a b this] a b show ?thesis by blast
qed

section \<open>Approved candidates\<close>

lemma flag_Nil [simp]: "flag b x = [] \<longleftrightarrow> \<not> b"
  by (simp add: flag_def)

lemma momentum_shadow_candidateD:
  assumes "momentum_shadow_candidate p now = Inr (Some (c, rs))"
  shows "momentum_candidate_of p now = Inr c" "rejection_reasons p c now = Inr rs"
    "\<not> unusable_pair (mc_mint c) (mc_pair c)" "f64_is_finite now"
    "momentum_score (mc_volume c) (mc_buys c) (mc_sells c) = Inr (mc_score c)"
  using assms by (auto simp: momentum_shadow_candidate_def momentum_candidate_of_def Let_def bindE_eq_Inr split: if_splits)

lemma score_from_thresholds:
  assumes "momentum_score v b s = Inr x" "15000 \<le> v" "15 \<le> b - s"
  shows "f64_le (Fin 60) x"
proof -
  obtain p q y where l: "f64_min (Fin 60) (volume_operand v) = Fin p" "imbalance_operand b s = Inr y"
      "f64_min (Fin 40) y = Fin q" "x = f64_round (Fin (fl (p + q))) 4" "fl (p + q) \<le> 100"
    using momentum_score_parts [OF assms(1)] by metis
  have "f64_le (f64_of_rat 30) (volume_operand v)"
    using assms(2) f64_of_rat_mono [of 30 "max 0 v / 500"] by (simp add: volume_operand_def f64_div_def)
  moreover have t: "f64_of_rat 30 = Fin 30" using small_f64 [of 30] fl_num [of 30] by simp
  ultimately have "30 \<le> p" using l(1) by (cases "volume_operand v") (auto simp: f64_min_def f64_lt_def split: if_splits)
  moreover have "30 \<le> q"
  proof -
    obtain n where n: "y = f64_of_rat (n * 2)" "n = fl (of_int (max 0 (b - s)))" using imbalance_operand_Inr [OF l(2)] by metis
    have "(of_int 15 :: rat) \<le> of_int (max 0 (b - s))" unfolding of_int_le_iff using assms(3) by simp
    then have "15 \<le> n" unfolding n(2) using fl_mono [of "of_int 15" "of_int (max 0 (b - s))"] fl_num [of 15] by simp
    then have "f64_le (Fin 30) y" using f64_of_rat_mono [of 30 "n * 2"] t by (simp add: n(1))
    then show ?thesis using l(3) by (cases y) (auto simp: f64_min_def f64_lt_def split: if_splits)
  qed
  ultimately have "60 \<le> fl (p + q)" using fl_mono [of 60 "p + q"] fl_num [of 60] by simp
  then show ?thesis using round4 [of 60 "fl (p + q)" 100] l(4,5) by auto
qed

lemma approved_thresholds:
  assumes "momentum_shadow_candidate p now = Inr (Some (c, []))"
  shows "mc_mint c \<noteq> [] \<and> mc_mint c \<notin> {WSOL_MINT, USDC_MINT} \<and> 10000 \<le> mc_liquidity c \<and> 15000 \<le> mc_volume c
    \<and> 15 \<le> net_buys c \<and> \<not> f64_lt (mc_age c) (Fin 900) \<and> f64_le (Fin 60) (mc_score c) \<and> f64_le (mc_score c) (Fin 100)
    \<and> (\<exists>sells. f64_of_int (mc_sells c) = Inr sells \<and> \<not> int_less_f64 (mc_buys c) (f64_mul sells MOMENTUM_MIN_BUY_SELL_RATIO))"
proof -
  note d = momentum_shadow_candidateD [OF assms]
  obtain sells where s: "f64_of_int (mc_sells c) = Inr sells"
      "age_reason (or_zero (pp_created p)) now (mc_age c) = []"
      "MOMENTUM_MIN_LIQUIDITY_USD \<le> mc_liquidity c" "MOMENTUM_MIN_VOLUME_M5_USD \<le> mc_volume c"
      "MOMENTUM_MIN_NET_BUYS_M5 \<le> net_buys c" "\<not> int_less_f64 (mc_buys c) (f64_mul sells MOMENTUM_MIN_BUY_SELL_RATIO)"
    using d(2) by (auto simp: rejection_reasons_def bindE_eq_Inr not_less)
  have lits: "MOMENTUM_MIN_PAIR_AGE_SECONDS = Fin 900" using fl_num [of 900] by (simp add: MOMENTUM_MIN_PAIR_AGE_SECONDS_def float_lit_def)
  have "\<not> f64_lt (mc_age c) (Fin 900)" using s(2) by (auto simp: age_reason_def lits split: if_splits)
  moreover have "15000 \<le> mc_volume c" "15 \<le> net_buys c" "10000 \<le> mc_liquidity c"
    using s by (simp_all add: MOMENTUM_MIN_VOLUME_M5_USD_def MOMENTUM_MIN_NET_BUYS_M5_def MOMENTUM_MIN_LIQUIDITY_USD_def)
  moreover have "f64_le (Fin 60) (mc_score c)" using score_from_thresholds [OF d(5)] calculation by (simp add: net_buys_def)
  moreover have "f64_le (mc_score c) (Fin 100)" using score_range [OF d(5)] by auto
  moreover have "mc_mint c \<noteq> []" "mc_mint c \<notin> {WSOL_MINT, USDC_MINT}" using d(3) by (auto simp: unusable_pair_def)
  ultimately show ?thesis using s by blast
qed

section \<open>A poll\<close>

definition evaluates :: "f64 \<Rightarrow> pair_projection list \<Rightarrow> shadow_candidate \<Rightarrow> bool" where
  "evaluates now ps s \<longleftrightarrow> (\<exists>p \<in> set ps. momentum_shadow_candidate p now = Inr (Some s))"

definition cohort_ok :: "f64 \<Rightarrow> pair_projection list \<Rightarrow> cohort \<Rightarrow> bool" where
  "cohort_ok now ps cohort \<longleftrightarrow> distinct (map fst (fst cohort)) \<and> distinct (map fst (snd cohort))
     \<and> (\<forall>(m, c) \<in> set (fst cohort). mc_mint c = m \<and> evaluates now ps (c, []))
     \<and> (\<forall>(m, s) \<in> set (snd cohort). mc_mint (fst s) = m \<and> snd s \<noteq> [] \<and> evaluates now ps s)
     \<and> (\<forall>c. evaluates now ps (c, []) \<longrightarrow> (\<exists>b. map_of (fst cohort) (mc_mint c) = Some b \<and> f64_le (mc_score c) (mc_score b)))"

lemma cohort_okI:
  assumes "distinct (map fst best)" "distinct (map fst misses)"
    and "\<And>m b. (m, b) \<in> set best \<Longrightarrow> mc_mint b = m \<and> evaluates now ps (b, [])"
    and "\<And>m x. (m, x) \<in> set misses \<Longrightarrow> mc_mint (fst x) = m \<and> snd x \<noteq> [] \<and> evaluates now ps x"
    and "\<And>b. evaluates now ps (b, []) \<Longrightarrow> \<exists>a. map_of best (mc_mint b) = Some a \<and> f64_le (mc_score b) (mc_score a)"
  shows "cohort_ok now ps (best, misses)"
  unfolding cohort_ok_def fst_conv snd_conv using assms by blast

lemma cohort_okD:
  assumes "cohort_ok now ps (best, misses)"
  shows "distinct (map fst best)" "distinct (map fst misses)"
    and "(m, b) \<in> set best \<Longrightarrow> mc_mint b = m \<and> evaluates now ps (b, [])"
    and "(m, x) \<in> set misses \<Longrightarrow> mc_mint (fst x) = m \<and> snd x \<noteq> [] \<and> evaluates now ps x"
    and "evaluates now ps (b, []) \<Longrightarrow> \<exists>a. map_of best (mc_mint b) = Some a \<and> f64_le (mc_score b) (mc_score a)"
  using assms unfolding cohort_ok_def fst_conv snd_conv by blast+

lemma evaluates_mono: "evaluates now ps s \<Longrightarrow> evaluates now (ps @ qs) s"
  by (auto simp: evaluates_def)

lemma f64_le_refl_score: "evaluates now ps (c, r) \<Longrightarrow> f64_le (mc_score c) (mc_score c)"
  using momentum_shadow_candidateD(5) score_range by (fastforce simp: evaluates_def)

lemma score_linear:
  assumes "evaluates now ps (c, r)" "evaluates now ps (b, r')" "\<not> f64_lt (mc_score b) (mc_score c)"
  shows "f64_le (mc_score c) (mc_score b)"
proof -
  obtain x y where "mc_score c = Fin x" "mc_score b = Fin y"
    using assms(1,2) momentum_shadow_candidateD(5) score_range unfolding evaluates_def by metis
  then show ?thesis using assms(3) by (auto simp: f64_lt_def)
qed

lemma set_update_mem: "x \<in> set (AList.update k v xs) \<Longrightarrow> x = (k, v) \<or> x \<in> set xs"
  by (induction xs) (auto split: if_splits)

lemma place_keeps:
  assumes "cohort_ok now ps coh" "momentum_shadow_candidate p now = Inr (Some s)"
  shows "cohort_ok now (ps @ [p]) (place_candidate s coh)"
proof -
  obtain best misses c rs where co: "coh = (best, misses)" and s: "s = (c, rs)" by (cases coh, cases s)
  have ev: "evaluates now (ps @ [p]) s" using assms(2) by (simp add: evaluates_def)
  have old: "distinct (map fst best)" "distinct (map fst misses)"
    "\<And>m b. (m, b) \<in> set best \<Longrightarrow> mc_mint b = m \<and> evaluates now (ps @ [p]) (b, [])"
    "\<And>m x. (m, x) \<in> set misses \<Longrightarrow> mc_mint (fst x) = m \<and> snd x \<noteq> [] \<and> evaluates now (ps @ [p]) x"
    "\<And>b. evaluates now ps (b, []) \<Longrightarrow> \<exists>a. map_of best (mc_mint b) = Some a \<and> f64_le (mc_score b) (mc_score a)"
  proof -
    note d = cohort_okD [OF assms(1) [unfolded co]]
    show "distinct (map fst best)" "distinct (map fst misses)" by (rule d(1), rule d(2))
    show "mc_mint b = m \<and> evaluates now (ps @ [p]) (b, [])" if "(m, b) \<in> set best" for m b
      using d(3) [OF that] evaluates_mono by blast
    show "mc_mint (fst x) = m \<and> snd x \<noteq> [] \<and> evaluates now (ps @ [p]) x" if "(m, x) \<in> set misses" for m x
      using d(4) [OF that] evaluates_mono by blast
    show "\<exists>a. map_of best (mc_mint b) = Some a \<and> f64_le (mc_score b) (mc_score a)" if "evaluates now ps (b, [])" for b
      by (rule d(5) [OF that])
  qed
  show ?thesis
  proof (cases "rs = []")
    case False
    define misses' where "misses' = snd (place_candidate s coh)"
    have m: "misses' = misses \<or> misses' = AList.update (mc_mint c) s misses"
      using False by (auto simp: misses'_def place_candidate_def Let_def s co split: option.splits)
    have pc: "place_candidate s coh = (best, misses')"
      using False by (auto simp: misses'_def place_candidate_def Let_def s co)
    have "distinct (map fst misses')" using m old(2) by (auto simp: distinct_update)
    moreover have "mc_mint (fst x) = k \<and> snd x \<noteq> [] \<and> evaluates now (ps @ [p]) x" if "(k, x) \<in> set misses'" for k x
    proof -
      have "(k, x) \<in> set misses \<or> k = mc_mint c \<and> x = s" using m that set_update_mem [of "(k, x)" "mc_mint c" s misses] by auto
      then show ?thesis
      proof
        assume "(k, x) \<in> set misses"
        then show ?thesis by (rule old(4))
      next
        assume "k = mc_mint c \<and> x = s"
        then show ?thesis using ev False by (simp add: s)
      qed
    qed
    moreover have "\<exists>a. map_of best (mc_mint b) = Some a \<and> f64_le (mc_score b) (mc_score a)"
      if "evaluates now (ps @ [p]) (b, [])" for b
    proof -
      have "evaluates now ps (b, [])" using that assms(2) False by (auto simp: evaluates_def s)
      then show ?thesis by (rule old(5))
    qed
    ultimately show ?thesis unfolding pc using old(1,3) by (intro cohort_okI) blast+
  next
    case True
    define best' where "best' = fst (place_candidate s coh)"
    have pc: "place_candidate s coh = (best', misses)" using True by (simp add: best'_def place_candidate_def Let_def s co)
    have b: "best' = AList.update (mc_mint c) c best \<and> (\<forall>i. map_of best (mc_mint c) = Some i \<longrightarrow> f64_lt (mc_score i) (mc_score c))
        \<or> best' = best \<and> (\<exists>i. map_of best (mc_mint c) = Some i \<and> \<not> f64_lt (mc_score i) (mc_score c))"
      using True by (auto simp: best'_def place_candidate_def Let_def s co split: option.splits)
    have "distinct (map fst best')" using b old(1) by (auto simp: distinct_update)
    moreover have "mc_mint x = k \<and> evaluates now (ps @ [p]) (x, [])" if "(k, x) \<in> set best'" for k x
    proof -
      have "(k, x) \<in> set best \<or> k = mc_mint c \<and> x = c" using b that set_update_mem [of "(k, x)" "mc_mint c" c best] by auto
      then show ?thesis
      proof
        assume "(k, x) \<in> set best"
        then show ?thesis by (rule old(3))
      next
        assume "k = mc_mint c \<and> x = c"
        then show ?thesis using ev True by (simp add: s)
      qed
    qed
    moreover have "\<exists>a. map_of best' (mc_mint x) = Some a \<and> f64_le (mc_score x) (mc_score a)"
      if x: "evaluates now (ps @ [p]) (x, [])" for x
    proof -
      have "x = c \<or> evaluates now ps (x, [])" using x assms(2) True by (auto simp: evaluates_def s)
      then show ?thesis
      proof
        assume xc: "x = c"
        have r: "f64_le (mc_score c) (mc_score c)" using ev f64_le_refl_score unfolding s by blast
        show ?thesis using b
        proof
          assume "best' = best \<and> (\<exists>i. map_of best (mc_mint c) = Some i \<and> \<not> f64_lt (mc_score i) (mc_score c))"
          then obtain i where i: "best' = best" "map_of best (mc_mint c) = Some i" "\<not> f64_lt (mc_score i) (mc_score c)" by blast
          have "evaluates now (ps @ [p]) (i, [])" using old(3) map_of_SomeD [OF i(2)] by blast
          then have "f64_le (mc_score c) (mc_score i)" using score_linear ev i(3) unfolding s True by blast
          then show ?thesis using i xc by auto
        qed (use r xc in \<open>auto simp: update_conv\<close>)
      next
        assume "evaluates now ps (x, [])"
        then obtain a where a: "map_of best (mc_mint x) = Some a" "f64_le (mc_score x) (mc_score a)" using old(5) by blast
        show ?thesis using b
        proof
          assume u: "best' = AList.update (mc_mint c) c best \<and> (\<forall>i. map_of best (mc_mint c) = Some i \<longrightarrow> f64_lt (mc_score i) (mc_score c))"
          show ?thesis
          proof (cases "mc_mint x = mc_mint c")
            case True
            then have "f64_le (mc_score a) (mc_score c)" using u a(1) by (auto simp: f64_lt_def)
            then show ?thesis using u True a(2) f64_le_Fin_trans by (auto simp: update_conv)
          next
            case False
            then show ?thesis using u a by (auto simp: update_conv)
          qed
        qed (use a in auto)
      qed
    qed
    ultimately show ?thesis unfolding pc using old(2,4) by (intro cohort_okI) blast+
  qed
qed

lemma cohort_ok_skip:
  assumes "cohort_ok now ps coh" "momentum_shadow_candidate p now = Inr None"
  shows "cohort_ok now (ps @ [p]) coh"
proof -
  have ev: "evaluates now (ps @ [p]) s \<longleftrightarrow> evaluates now ps s" for s using assms(2) by (auto simp: evaluates_def)
  show ?thesis using assms(1) unfolding cohort_ok_def ev .
qed

lemma cohort_fold:
  assumes "foldE (place_projection now) coh qs = Inr coh'" "cohort_ok now ps coh"
  shows "cohort_ok now (ps @ qs) coh'"
  using assms
proof (induction qs arbitrary: ps coh)
  case (Cons p qs)
  obtain c1 where c1: "place_projection now coh p = Inr c1" "foldE (place_projection now) c1 qs = Inr coh'"
    using Cons.prems(1) unfolding foldE.simps bindE_eq_Inr by blast
  then obtain e where e: "momentum_shadow_candidate p now = Inr e"
      "foldE (place_projection now) (case e of None \<Rightarrow> coh | Some s \<Rightarrow> place_candidate s coh) qs = Inr coh'"
    unfolding place_projection_def bindE_eq_Inr by blast
  have "cohort_ok now (ps @ [p]) (case e of None \<Rightarrow> coh | Some s \<Rightarrow> place_candidate s coh)"
    using e(1) Cons.prems(2) place_keeps cohort_ok_skip by (cases e) auto
  from Cons.IH [OF e(2) this] show ?case by simp
qed simp

lemma in_filter_misses:
  "cohort_ok now ps (best, misses) \<Longrightarrow>
   cohort_ok now ps (best, filter (\<lambda>(m, s). map_of best m = None) misses)"
proof -
  assume ok: "cohort_ok now ps (best, misses)"
  note d = cohort_okD [OF ok]
  show ?thesis
    by (rule cohort_okI) (use d distinct_map_filter in \<open>auto simp: case_prod_unfold\<close>)
qed

lemma mints_of_cohort:
  "cohort_ok now ps (best, misses) \<Longrightarrow> map mc_mint (map snd best) = map fst best \<and> map (mc_mint \<circ> fst) (map snd misses) = map fst misses"
  using cohort_okD(3) cohort_okD(4) by (auto intro!: map_cong simp: split_beta)

lemma imageE_snd: "set xs \<subseteq> set (map snd ys) \<Longrightarrow> x \<in> set xs \<Longrightarrow> \<exists>k. (k, x) \<in> set ys"
  by force

lemma poll_spec:
  assumes "fetch_momentum_candidate_cohorts io st = (Inr (approved, misses), st')" "feed_projections io = Inr ps"
  shows "length approved \<le> 8 \<and> length misses \<le> 8
    \<and> distinct (map mc_mint approved @ map (mc_mint \<circ> fst) misses)
    \<and> sorted (map approved_rank approved) \<and> sorted (map shadow_rank misses)
    \<and> (\<forall>c \<in> set approved. 10000 \<le> mc_liquidity c \<and> 15000 \<le> mc_volume c \<and> 15 \<le> net_buys c \<and> f64_le (Fin 60) (mc_score c)
        \<and> \<not> f64_lt (mc_age c) (Fin 900))
    \<and> (\<forall>s \<in> set misses. snd s \<noteq> [])
    \<and> (\<forall>c \<in> set approved. \<forall>b. evaluates (f64_mul (feed_epoch io) (Fin 1000)) ps (b, []) \<and> mc_mint b = mc_mint c
        \<longrightarrow> f64_le (mc_score b) (mc_score c))"
proof -
  let ?now = "f64_mul (feed_epoch io) (Fin 1000)"
  obtain best missed where co: "cohort_of (feed_epoch io) ps = Inr (best, missed)"
      "approved = take MOMENTUM_MAX_CANDIDATES (sort_key approved_rank (map snd best))"
      "misses = take MOMENTUM_MAX_SHADOW_CANDIDATES (sort_key shadow_rank (map snd missed))"
    using assms by (auto simp: fetch_momentum_candidate_cohorts_def split: sum.splits prod.splits)
  obtain misses0 where f: "foldE (place_projection ?now) ([], []) ps = Inr (best, misses0)"
      "missed = filter (\<lambda>(m, s). map_of best m = None) misses0"
    using co(1) by (auto simp: cohort_of_def bindE_eq_Inr)
  have start: "cohort_ok ?now [] ([], [])" by (rule cohort_okI) (simp_all add: evaluates_def)
  have ok0: "cohort_ok ?now ps (best, misses0)" using cohort_fold [OF f(1) start] by simp
  then have ok: "cohort_ok ?now ps (best, missed)" unfolding f(2) by (rule in_filter_misses)
  note d = cohort_okD [OF ok] and m = mints_of_cohort [OF ok]
  have perm: "mset (sort_key approved_rank (map snd best)) = mset (map snd best)"
    "mset (sort_key shadow_rank (map snd missed)) = mset (map snd missed)" by simp_all
  have "distinct (map mc_mint (sort_key approved_rank (map snd best)))"
    "distinct (map (mc_mint \<circ> fst) (sort_key shadow_rank (map snd missed)))"
    using d(1,2) m perm by (metis mset_eq_imp_distinct_iff mset_map)+
  then have dist: "distinct (map mc_mint approved)" "distinct (map (mc_mint \<circ> fst) misses)"
    unfolding co(2,3) by (metis distinct_take take_map)+
  have sub: "set approved \<subseteq> set (map snd best)" "set misses \<subseteq> set (map snd missed)"
    unfolding co(2,3) by (metis set_sort set_take_subset)+
  have "mc_mint c \<noteq> mc_mint (fst s)" if c: "c \<in> set approved" and s: "s \<in> set misses" for c s
  proof -
    obtain k where k: "(k, c) \<in> set best" using imageE_snd [OF sub(1) c] by blast
    obtain j where j: "(j, s) \<in> set missed" using imageE_snd [OF sub(2) s] by blast
    have "map_of best j = None" using j f(2) by auto
    then show ?thesis using d(3) [OF k] d(4) [OF j] k by (metis map_of_eq_None_iff image_eqI fst_conv)
  qed
  then have dist3: "distinct (map mc_mint approved @ map (mc_mint \<circ> fst) misses)" using dist by auto
  have ev: "evaluates ?now ps (c, [])" if "c \<in> set approved" for c
    using imageE_snd [OF sub(1) that] d(3) by blast
  have th: "10000 \<le> mc_liquidity c \<and> 15000 \<le> mc_volume c \<and> 15 \<le> net_buys c \<and> f64_le (Fin 60) (mc_score c)
      \<and> \<not> f64_lt (mc_age c) (Fin 900)" if "c \<in> set approved" for c
    using ev [OF that] approved_thresholds unfolding evaluates_def by blast
  have reason: "snd s \<noteq> []" if "s \<in> set misses" for s
    using imageE_snd [OF sub(2) that] d(4) by blast
  have top: "f64_le (mc_score b) (mc_score c)"
    if c: "c \<in> set approved" "evaluates ?now ps (b, [])" "mc_mint b = mc_mint c" for c b
  proof -
    obtain k where k: "(k, c) \<in> set best" using imageE_snd [OF sub(1) c(1)] by blast
    then have "map_of best (mc_mint c) = Some c" using d(1) d(3) [OF k] by simp
    then show ?thesis using d(5) [OF c(2)] c(3) by simp
  qed
  have "sorted (map approved_rank approved)" "sorted (map shadow_rank misses)"
    unfolding co(2,3) by (metis sorted_sort_key sorted_wrt_take take_map)+
  moreover have "length approved \<le> 8" "length misses \<le> 8"
    by (simp_all add: co(2,3) MOMENTUM_MAX_CANDIDATES_def MOMENTUM_MAX_SHADOW_CANDIDATES_def)
  ultimately show ?thesis using dist3 th reason top by blast
qed

lemma candidates_meet_thresholds:
  assumes "fetch_momentum_candidates io st = (Inr approved, st')" "c \<in> set approved"
  shows "10000 \<le> mc_liquidity c \<and> 15000 \<le> mc_volume c \<and> 15 \<le> net_buys c \<and> f64_le (Fin 60) (mc_score c)
    \<and> \<not> f64_lt (mc_age c) (Fin 900)"
proof -
  obtain misses where f: "fetch_momentum_candidate_cohorts io st = (Inr (approved, misses), st')"
    using assms(1) by (auto simp: fetch_momentum_candidates_def bindE_eq_Inr split: prod.splits)
  obtain ps where "feed_projections io = Inr ps"
    using f by (auto simp: fetch_momentum_candidate_cohorts_def bindE_def split: sum.splits)
  from poll_spec [OF f this] assms(2) show ?thesis by blast
qed

text \<open>C32: a poll returns at most eight approved candidates and at most eight near misses, of different tokens; every
  approved candidate meets the thresholds of volume, liquidity, age and surplus of buys and scores at least 60,
  every near miss has a reason, both lists put the best first, and no approved pair of the feed has a better score
  than the candidate chosen for its token.\<close>

theorem poll_returns_the_best_candidates:
  assumes "fetch_momentum_candidate_cohorts io st = (Inr (approved, misses), st')" "feed_projections io = Inr ps"
  shows "length approved \<le> 8 \<and> length misses \<le> 8
    \<and> distinct (map mc_mint approved @ map (mc_mint \<circ> fst) misses)
    \<and> sorted (map approved_rank approved) \<and> sorted (map shadow_rank misses)
    \<and> (\<forall>c \<in> set approved. 10000 \<le> mc_liquidity c \<and> 15000 \<le> mc_volume c \<and> 15 \<le> net_buys c \<and> f64_le (Fin 60) (mc_score c)
        \<and> \<not> f64_lt (mc_age c) (Fin 900))
    \<and> (\<forall>s \<in> set misses. snd s \<noteq> [])
    \<and> (\<forall>c \<in> set approved. \<forall>b. evaluates (f64_mul (feed_epoch io) (Fin 1000)) ps (b, []) \<and> mc_mint b = mc_mint c
        \<longrightarrow> f64_le (mc_score b) (mc_score c))"
  using assms by (rule poll_spec)

definition example_pair :: "string \<Rightarrow> int \<Rightarrow> py" where
  "example_pair m volume = PDict [(''chainId'', PStr ''solana''), (''baseToken'', PDict [(''address'', PStr m)]),
     (''pairAddress'', PStr ''p''), (''txns'', PDict [(''m5'', PDict [(''buys'', PInt 40), (''sells'', PInt 20)])]),
     (''volume'', PDict [(''m5'', PInt volume)]), (''liquidity'', PDict [(''usd'', PInt 20000)]),
     (''pairCreatedAt'', PInt 1000), (''priceUsd'', PStr ''0.5'')]"

definition example_feed :: feed where
  "example_feed = \<lparr>feed_search = Inr (PDict [(''pairs'', PList [example_pair ''m'' 20000, example_pair ''n'' 9000])]),
     feed_profiles = Inr (PList []), feed_boosts = Inr (PList []), feed_tokens = (\<lambda>_. Inr PNone), feed_epoch = Fin 5000\<rparr>"

theorem poll_returns_the_best_candidates_witness:
  "\<exists>approved misses st. fetch_momentum_candidate_cohorts example_feed [] = (Inr (approved, misses), st)
     \<and> length approved \<le> 8 \<and> distinct (map mc_mint approved @ map (mc_mint \<circ> fst) misses)"
proof -
  have "case feed_projections example_feed of Inr _ \<Rightarrow> True | Inl _ \<Rightarrow> False" by code_simp
  then obtain ps where ps: "feed_projections example_feed = Inr ps" by (auto split: sum.splits)
  have "case fst (fetch_momentum_candidate_cohorts example_feed []) of Inr _ \<Rightarrow> True | Inl _ \<Rightarrow> False" by code_simp
  then obtain approved misses st where r: "fetch_momentum_candidate_cohorts example_feed [] = (Inr (approved, misses), st)"
    by (cases "fetch_momentum_candidate_cohorts example_feed []") (auto split: sum.splits)
  from poll_returns_the_best_candidates [OF r ps] r show ?thesis by blast
qed

section \<open>Tokens asked for\<close>

lemma discover_length: "length found \<le> n \<Longrightarrow> MOMENTUM_MAX_DISCOVERY_TOKENS \<le> n \<Longrightarrow> length (discover rows found) \<le> n + 1"
proof (induction rows found rule: discover.induct)
  case (2 row rows found)
  let ?m = "str_field row ''tokenAddress'' (PStr [])"
  let ?f = "if ?m \<noteq> [] \<and> ?m \<notin> set found then found @ [?m] else found"
  show ?case
  proof (cases "dgetn row ''chainId'' \<noteq> PStr ''solana''")
    case True
    then show ?thesis using 2 by simp
  next
    case False
    then show ?thesis
    proof (cases "MOMENTUM_MAX_DISCOVERY_TOKENS \<le> length ?f")
      case True
      then show ?thesis using False 2(3) by (simp add: Let_def)
    next
      case less: False
      then have "length ?f \<le> n" using 2(4) by simp
      then show ?thesis using 2(2) [OF _ refl refl] False less 2(4) by (simp add: Let_def)
    qed
  qed
qed simp_all

lemma discover_within: "length found < MOMENTUM_MAX_DISCOVERY_TOKENS \<Longrightarrow> length (discover rows found) \<le> MOMENTUM_MAX_DISCOVERY_TOKENS"
  by (induction rows found rule: discover.induct) (auto simp: Let_def)

text \<open>A poll asks for at most 31 tokens: the bound of 30 is looked at only after a token was added, so that the
  second list of the feed can add one more to a full list.\<close>

theorem discovery_may_exceed_its_bound:
  "(\<forall>profiles boosts. length (extend_discovered_mints boosts (extend_discovered_mints profiles [])) \<le> 31)
   \<and> (\<exists>profiles boosts. length (extend_discovered_mints boosts (extend_discovered_mints profiles [])) = 31)"
proof
  have ext: "\<exists>rows. extend_discovered_mints payload found = discover rows found" for payload found
    unfolding extend_discovered_mints_def by (cases payload) (simp_all only: py.case, blast+)
  have first: "length (extend_discovered_mints profiles []) \<le> 30" for profiles
    using ext [of profiles "[]"] discover_within [of "[]"] by (auto simp: MOMENTUM_MAX_DISCOVERY_TOKENS_def)
  have "length (extend_discovered_mints boosts (extend_discovered_mints profiles [])) \<le> 31" for profiles boosts
    using ext [of boosts "extend_discovered_mints profiles []"] discover_length [OF first [of profiles]]
    by (auto simp: MOMENTUM_MAX_DISCOVERY_TOKENS_def)
  then show "\<forall>profiles boosts. length (extend_discovered_mints boosts (extend_discovered_mints profiles [])) \<le> 31"
    by blast
next
  let ?row = "\<lambda>n. PDict [(''chainId'', PStr ''solana''), (''tokenAddress'', PStr (replicate (Suc n) CHR ''x''))]"
  have "length (extend_discovered_mints (?row 30) (extend_discovered_mints (PList (map ?row [0..<30])) [])) = 31"
    by code_simp
  then show "\<exists>profiles boosts. length (extend_discovered_mints boosts (extend_discovered_mints profiles [])) = 31" by blast
qed

end
