(* ===== verification/MonitorMarket.thy ===== *)
theory MonitorMarket
  imports MonitorMomentum
begin

text \<open>
  The second route of \<open>src/monitor.py\<close>: unknown wallets that bought a candidate, its observation without a
  purchase, and one turn of the loop that polls the market.

  The answers of the RPC router and of the feed, the locks and the readings of the clocks are arguments; a turn
  is the body of the loop between two sleeps.  The hooks of the telemetry, whose failures the code swallows, are
  left out.
\<close>

definition UNKNOWN_WHALE_SIGNATURE_LIMIT :: int where "UNKNOWN_WHALE_SIGNATURE_LIMIT = 12"
definition MOMENTUM_SHADOW_CAPTURE_INTERVAL_SECONDS :: f64 where "MOMENTUM_SHADOW_CAPTURE_INTERVAL_SECONDS = Fin 30"
definition MOMENTUM_ENTRY_COOLDOWN_SECONDS :: rat where "MOMENTUM_ENTRY_COOLDOWN_SECONDS = 2700"
definition HEALTH_WRITE_INTERVAL_SECONDS :: f64 where "HEALTH_WRITE_INTERVAL_SECONDS = Fin 60"

section \<open>Unknown wallets\<close>

record whale_buy =
  wb_wallet :: string
  wb_signature :: string
  wb_paid :: int
  wb_amount :: int
  wb_decimals :: int

fun row_wallet :: "py \<Rightarrow> string" where
  "row_wallet (PDict row) = str_field row ''pubkey'' (PStr [])"
| "row_wallet row = py_str row"

fun row_signs :: "nat \<Rightarrow> py \<Rightarrow> bool" where
  "row_signs i (PDict row) = truthy (dgetn row ''signer'')"
| "row_signs i row = (i = 0)"

definition delta_of :: "deltas \<Rightarrow> string \<Rightarrow> int \<times> int \<Rightarrow> int \<times> int" where
  "delta_of d m absent = (case map_of d (PStr m) of None \<Rightarrow> absent | Some v \<Rightarrow> v)"

definition whale_payment :: "dict \<Rightarrow> nat \<Rightarrow> deltas \<Rightarrow> int res" where
  "whale_payment meta i d =
     bindE (native_outflow meta i (py_or (dget_or meta ''fee'' (PInt 0)) (PInt 0))) (\<lambda>native.
     let (delta, decimals) = delta_of d WSOL_MINT (0, 9) in
     Inr (max native (if delta < 0 \<and> decimals = 9 then - delta else 0)))"

definition whale_of_row :: "dict \<Rightarrow> string \<Rightarrow> string \<Rightarrow> string set \<Rightarrow> nat \<times> py \<Rightarrow> whale_buy option res" where
  "whale_of_row meta sig m watched = (\<lambda>(i, row).
     let wallet = row_wallet row in
     if \<not> row_signs i row \<or> wallet = [] \<or> wallet \<in> watched then Inr None
     else bindE (wallet_token_deltas meta wallet) (\<lambda>d.
       let (amount, decimals) = delta_of d m (0, 0) in
       if amount \<le> 0 then Inr None
       else bindE (balances_reach meta i) (\<lambda>reach.
         if \<not> reach then Inr None
         else bindE (whale_payment meta i d) (\<lambda>paid.
           Inr (if paid < SINGLE_STRENGTH_LAMPORTS then None
                else Some \<lparr>wb_wallet = wallet, wb_signature = sig, wb_paid = paid, wb_amount = amount,
                           wb_decimals = decimals\<rparr>)))))"

definition unknown_whale_buy_from_transaction :: "dict \<Rightarrow> string \<Rightarrow> string set \<Rightarrow> whale_buy list res" where
  "unknown_whale_buy_from_transaction transaction m watched =
     bindE (bindE (dict_or_empty transaction ''transaction'') (\<lambda>t. dict_or_empty t ''message'')) (\<lambda>message.
     bindE (account_keys message) (\<lambda>_.
     bindE (signature_of transaction) (\<lambda>sig.
     bindE (py_len (py_or (dgetn message ''accountKeys'') (PList []))) (\<lambda>_.
     bindE (dict_or_empty transaction ''meta'') (\<lambda>meta.
     bindE (rows_or_empty message ''accountKeys'') (\<lambda>rows.
     bindE (mapE (whale_of_row meta sig m watched) (enumerate 0 rows)) (\<lambda>found.
       Inr (List.map_filter id found))))))))"

text \<open>The answers one confirmation gets: the signatures of the pair, and the transaction of each.\<close>

record confirm_io =
  signature_reply :: "py res"
  transaction_reply :: "nat \<Rightarrow> string \<Rightarrow> py res"
  confirm_timed_out :: bool

fun readable_signature :: "py \<Rightarrow> string option" where
  "readable_signature (PDict row) =
     (if truthy (dgetn row ''signature'') \<and> dgetn row ''err'' = PNone then Some (py_str (dgetn row ''signature'')) else None)"
| "readable_signature _ = None"

definition transaction_signatures :: "py \<Rightarrow> string list res" where
  "transaction_signatures reply =
     (let signatures = py_or reply (PList []) in
      bindE (py_len signatures) (\<lambda>_. bindE (py_iter signatures) (\<lambda>rows. Inr (List.map_filter readable_signature rows))))"

definition keep_best :: "whale_buy \<Rightarrow> (string \<times> whale_buy) list \<Rightarrow> (string \<times> whale_buy) list" where
  "keep_best b by_wallet = (case map_of by_wallet (wb_wallet b) of
     None \<Rightarrow> AList.update (wb_wallet b) b by_wallet
   | Some incumbent \<Rightarrow> (if wb_paid incumbent < wb_paid b then AList.update (wb_wallet b) b by_wallet else by_wallet))"

text \<open>The transactions are read one after the other until three wallets are known.\<close>

fun read_transactions ::
  "(nat \<Rightarrow> string \<Rightarrow> py res) \<Rightarrow> string \<Rightarrow> string set \<Rightarrow> nat \<Rightarrow> string list \<Rightarrow> (string \<times> whale_buy) list
   \<Rightarrow> (string \<times> whale_buy) list res" where
  "read_transactions reply m watched i [] by_wallet = Inr by_wallet"
| "read_transactions reply m watched i (sig # sigs) by_wallet =
     bindE (reply i sig) (\<lambda>payload. case payload of
       PDict transaction \<Rightarrow> bindE (unknown_whale_buy_from_transaction transaction m watched) (\<lambda>buys.
         let by_wallet = fold keep_best buys by_wallet in
         if UNKNOWN_WHALE_MIN_COUNT \<le> length by_wallet then Inr by_wallet
         else read_transactions reply m watched (Suc i) sigs by_wallet)
     | _ \<Rightarrow> read_transactions reply m watched (Suc i) sigs by_wallet)"

definition confirm_unknown_whales :: "confirm_io \<Rightarrow> momentum_candidate \<Rightarrow> string set \<Rightarrow> whale_buy list res" where
  "confirm_unknown_whales io c watched =
     bindE (bindE (signature_reply io) transaction_signatures) (\<lambda>sigs.
     bindE (read_transactions (transaction_reply io) (mc_mint c) watched 0 sigs []) (\<lambda>by_wallet.
       Inr (sort_key (\<lambda>b. - wb_paid b) (map snd by_wallet))))"

definition confirm_in_time :: "confirm_io \<Rightarrow> momentum_candidate \<Rightarrow> string set \<Rightarrow> whale_buy list res" where
  "confirm_in_time io c watched =
     (if confirm_timed_out io then Inl (TimeoutError ''confirmation'') else confirm_unknown_whales io c watched)"

section \<open>Signals of the market\<close>

record market_state = monitor_state +
  entry_cooldowns :: "(string \<times> f64) list"
  shadow_cooldowns :: "(string \<times> f64) list"
  last_shadow_capture :: f64
  snapshots :: snapshot_store
  poll_failures :: int
  last_health_write :: f64

definition momentum_observation_metrics :: "momentum_candidate \<Rightarrow> nat \<Rightarrow> dict res" where
  "momentum_observation_metrics c unknown_whale_count =
     bindE (int_truediv (mc_buys c) (max 1 (mc_sells c))) (\<lambda>ratio.
     Inr [(''volume_m5_usd'', PFloat (Fin (mc_volume c))), (''buys_m5'', PInt (mc_buys c)), (''sells_m5'', PInt (mc_sells c)),
          (''net_buys_m5'', PInt (net_buys c)), (''buy_sell_ratio_m5'', PFloat ratio),
          (''liquidity_usd'', PFloat (Fin (mc_liquidity c))), (''pair_age_seconds'', PFloat (mc_age c)),
          (''unknown_whale_count'', PInt (int unknown_whale_count))])"

text \<open>\<open>int(time.time() // 2700)\<close>.\<close>

definition cooldown_bucket :: "f64 \<Rightarrow> int res" where
  "cooldown_bucket now = (case now of
     Fin q \<Rightarrow> Inr (float_floordiv q MOMENTUM_ENTRY_COOLDOWN_SECONDS)
   | _ \<Rightarrow> Inl (ValueError ''cannot convert float NaN to integer''))"

text \<open>
  The task of a market signal: its identifier was made from the clock, then the time of detection, the metrics
  and the collection of snapshots are read.
\<close>

definition start_market_signal ::
  "monitor_clock \<Rightarrow> momentum_candidate \<Rightarrow> int \<times> int \<times> int \<times> string \<Rightarrow> string \<Rightarrow> nat \<Rightarrow> string list
   \<Rightarrow> market_state \<Rightarrow> exc option \<times> market_state" where
  "start_market_signal clk c = (\<lambda>(amount, decimals, paid, wallet) sig whale_count prefilter s.
     let detected = utc_text clk (readings s); s = s\<lparr>readings := readings s + 1\<rparr> in
     case momentum_observation_metrics c whale_count of
       Inl e \<Rightarrow> (Some e, s)
     | Inr metrics \<Rightarrow>
         (let (r, st) = store_collection (mc_mint c) (mc_pair c) (PStr detected) (snapshots s); s = s\<lparr>snapshots := st\<rparr> in
          case r of
            Inl e \<Rightarrow> (Some e, s)
          | Inr collection \<Rightarrow>
              (None, s\<lparr>registry := track_signal_task (prefilter \<noteq> []) (registry s),
                       started := started s @ [PaperSignal \<lparr>ps_mint = PStr (mc_mint c), ps_amount = amount,
                         ps_decimals = decimals, ps_paid = paid, ps_wallet = wallet, ps_signature = sig,
                         ps_detected = detected, ps_route = ''B'', ps_momentum = mc_score c, ps_metrics = PDict metrics,
                         ps_collection = PDict collection, ps_prefilter = prefilter, ps_source = None\<rparr>]\<rparr>)))"

definition schedule_market_shadow ::
  "monitor_clock \<Rightarrow> momentum_candidate \<Rightarrow> string list \<Rightarrow> f64 \<Rightarrow> nat \<Rightarrow> market_state \<Rightarrow> bool res \<times> market_state" where
  "schedule_market_shadow clk c rejections now whale_count s =
     (if rejections = [] then (Inl (ValueError ''market shadow requires at least one rejection reason''), s)
      else if map_of (shadow_cooldowns s) (mc_mint c) \<noteq> None then (Inr False, s)
      else if MAX_PENDING_SHADOW_SIGNALS \<le> card (shadow_tasks (registry s)) then (Inr False, s)
      else if f64_lt (Fin 0) (last_shadow_capture s)
              \<and> f64_lt (f64_sub now (last_shadow_capture s)) MOMENTUM_SHADOW_CAPTURE_INTERVAL_SECONDS then (Inr False, s)
      else let s = s\<lparr>shadow_cooldowns := AList.update (mc_mint c) (f64_add now (Fin MOMENTUM_ENTRY_COOLDOWN_SECONDS))
                       (shadow_cooldowns s), last_shadow_capture := now\<rparr> in
        case cooldown_bucket (epoch_time clk (readings s)) of
          Inl e \<Rightarrow> (Inl e, s\<lparr>readings := readings s + 1\<rparr>)
        | Inr bucket \<Rightarrow>
            (case start_market_signal clk c (0, 0, 0, ''market-near-miss'')
                    (''dexscreener-shadow:'' @ mc_pair c @ '':'' @ dec_int bucket) whale_count rejections
                    (s\<lparr>readings := readings s + 1\<rparr>) of
               (Some e, s) \<Rightarrow> (Inl e, s)
             | (None, s) \<Rightarrow> (Inr True, s)))"

text \<open>The near misses in turn, until one is observed.\<close>

fun capture_near_miss :: "monitor_clock \<Rightarrow> f64 \<Rightarrow> shadow_candidate list \<Rightarrow> market_state \<Rightarrow> bool res \<times> market_state" where
  "capture_near_miss clk now [] s = (Inr False, s)"
| "capture_near_miss clk now ((c, rejections) # misses) s =
     (case schedule_market_shadow clk c rejections now 0 s of
        (Inr False, s) \<Rightarrow> capture_near_miss clk now misses s
      | r \<Rightarrow> r)"

definition enter_market ::
  "monitor_clock \<Rightarrow> momentum_candidate \<Rightarrow> whale_buy list \<Rightarrow> f64 \<Rightarrow> market_state \<Rightarrow> exc option \<times> market_state" where
  "enter_market clk c whales now s =
     (let strongest = whales ! 0;
          s = s\<lparr>entry_cooldowns := AList.update (mc_mint c) (f64_add now (Fin MOMENTUM_ENTRY_COOLDOWN_SECONDS)) (entry_cooldowns s),
                readings := readings s + 1\<rparr> in
      case int_of_f64 (epoch_time clk (readings s - 1)) of
        Inl e \<Rightarrow> (Some e, s)
      | Inr second \<Rightarrow>
          start_market_signal clk c (wb_amount strongest, wb_decimals strongest, wb_paid strongest, wb_wallet strongest)
            (''dexscreener:'' @ mc_pair c @ '':'' @ dec_int second) (length whales) [] s)"

section \<open>One turn of the route\<close>

record tick_io =
  tick_wallets :: state_file
  tick_feed :: feed
  refresh_feed :: feed
  tick_whales :: confirm_io
  success_lock :: bool
  failure_lock :: bool

type_synonym poll_result = "exc option \<times> market_state \<times> state_file"

definition note_success :: "monitor_clock \<Rightarrow> bool \<Rightarrow> market_state \<Rightarrow> state_file \<Rightarrow> poll_result" where
  "note_success clk lk s f =
     (let now = epoch_time clk (readings s); s = s\<lparr>poll_failures := 0, readings := readings s + 1\<rparr> in
      if f64_le HEALTH_WRITE_INTERVAL_SECONDS (f64_sub now (last_health_write s))
      then case set_global_metrics lk f [(''route_b_last_poll_success_at'', PFloat now), (''route_b_consecutive_failures'', PInt 0)] of
          (Inl e, f) \<Rightarrow> (Some e, s, f)
        | (Inr _, f) \<Rightarrow> (None, s\<lparr>last_health_write := now\<rparr>, f)
      else (None, s, f))"

definition note_failure :: "monitor_clock \<Rightarrow> bool \<Rightarrow> market_state \<Rightarrow> state_file \<Rightarrow> poll_result" where
  "note_failure clk lk s f =
     (let now = epoch_time clk (readings s); s = s\<lparr>poll_failures := poll_failures s + 1, readings := readings s + 1\<rparr> in
      if poll_failures s = 1 \<or> f64_le HEALTH_WRITE_INTERVAL_SECONDS (f64_sub now (last_health_write s))
      then case set_global_metrics lk f [(''route_b_last_poll_failure_at'', PFloat now),
              (''route_b_consecutive_failures'', PInt (poll_failures s))] of
          (Inl e, f) \<Rightarrow> (Some e, s, f)
        | (Inr _, f) \<Rightarrow> (None, s\<lparr>last_health_write := now\<rparr>, f)
      else (None, s, f))"

definition unexpired :: "f64 \<Rightarrow> (string \<times> f64) list \<Rightarrow> (string \<times> f64) list" where
  "unexpired now cooldowns = filter (\<lambda>(m, expires_at). \<not> f64_le expires_at now) cooldowns"

definition drop_cooldowns :: "f64 \<Rightarrow> market_state \<Rightarrow> market_state" where
  "drop_cooldowns now s =
     s\<lparr>entry_cooldowns := unexpired now (entry_cooldowns s), shadow_cooldowns := unexpired now (shadow_cooldowns s)\<rparr>"

definition capture_result :: "bool res \<times> market_state \<Rightarrow> exc option \<times> market_state" where
  "capture_result r = (case r of (Inl e, s) \<Rightarrow> (Some e, s) | (Inr _, s) \<Rightarrow> (None, s))"

text \<open>A candidate that is observed instead of bought; when it was not taken, a near miss is.\<close>

definition observe_instead ::
  "monitor_clock \<Rightarrow> momentum_candidate \<Rightarrow> string \<Rightarrow> f64 \<Rightarrow> nat \<Rightarrow> shadow_candidate list \<Rightarrow> market_state \<Rightarrow> exc option \<times> market_state" where
  "observe_instead clk c rejection now whale_count misses s =
     (case schedule_market_shadow clk c [rejection] now whale_count s of
        (Inr False, s) \<Rightarrow> capture_result (capture_near_miss clk now misses s)
      | r \<Rightarrow> capture_result r)"

text \<open>Three unknown wallets bought the candidate: it is read once more from the feed.\<close>

definition revalidate ::
  "monitor_clock \<Rightarrow> feed \<Rightarrow> momentum_candidate \<Rightarrow> whale_buy list \<Rightarrow> f64 \<Rightarrow> shadow_candidate list \<Rightarrow> market_state
   \<Rightarrow> exc option \<times> market_state" where
  "revalidate clk feed c whales now misses s =
     (let (r, st) = fetch_momentum_candidates feed (snapshots s); s = s\<lparr>snapshots := st\<rparr> in
      case r of
        Inl e \<Rightarrow> (Some e, s)
      | Inr refreshed_candidates \<Rightarrow>
          (case List.find (\<lambda>i. mc_mint i = mc_mint c) refreshed_candidates of
             None \<Rightarrow> observe_instead clk c ''MOMENTUM_REFRESH_MISSING'' now (length whales) misses s
           | Some refreshed \<Rightarrow>
               (if \<not> momentum_is_still_strong c refreshed
                then observe_instead clk c ''MOMENTUM_WEAKENED'' now (length whales) misses s
                else case enter_market clk refreshed whales now s of
                    (Some e, s) \<Rightarrow> (Some e, s)
                  | (None, s) \<Rightarrow> capture_result (capture_near_miss clk now misses s))))"

definition poll_candidates ::
  "monitor_clock \<Rightarrow> tick_io \<Rightarrow> string list \<Rightarrow> momentum_candidate list \<Rightarrow> shadow_candidate list \<Rightarrow> market_state
   \<Rightarrow> exc option \<times> market_state" where
  "poll_candidates clk io wallets candidates misses s =
     (let now = monotonic clk (readings s); s = drop_cooldowns now (s\<lparr>readings := readings s + 1\<rparr>) in
      case List.find (\<lambda>c. map_of (entry_cooldowns s) (mc_mint c) = None) candidates of
        None \<Rightarrow> capture_result (capture_near_miss clk now misses s)
      | Some c \<Rightarrow>
          (case confirm_in_time (tick_whales io) c (set wallets) of
             Inl e \<Rightarrow> (Some e, s)
           | Inr whales \<Rightarrow>
               (if UNKNOWN_WHALE_MIN_COUNT \<le> length whales
                then revalidate clk (refresh_feed io) c whales now misses s
                else observe_instead clk c ''UNKNOWN_WHALES_UNDER_MIN'' now (length whales) misses s)))"

definition market_poll :: "(string \<Rightarrow> bool) \<Rightarrow> monitor_clock \<Rightarrow> tick_io \<Rightarrow> market_state \<Rightarrow> state_file \<Rightarrow> poll_result" where
  "market_poll valid clk io s f =
     (case load_wallets valid (tick_wallets io) of
        Inl e \<Rightarrow> (Some e, s, f)
      | Inr wallets \<Rightarrow>
          (let (r, st) = fetch_momentum_candidate_cohorts (tick_feed io) (snapshots s); s = s\<lparr>snapshots := st\<rparr> in
           case r of
             Inl e \<Rightarrow> (Some e, s, f)
           | Inr (candidates, misses) \<Rightarrow>
               (case note_success clk (success_lock io) s f of
                  (Some e, s, f) \<Rightarrow> (Some e, s, f)
                | (None, s, f) \<Rightarrow> (let (e, s) = poll_candidates clk io wallets candidates misses s in (e, s, f)))))"

text \<open>
  A turn of \<open>run_market_momentum_route\<close>; an exception of the result is one that leaves the loop, raised while a
  failed poll is written to the metrics.
\<close>

definition market_tick :: "(string \<Rightarrow> bool) \<Rightarrow> monitor_clock \<Rightarrow> tick_io \<Rightarrow> market_state \<Rightarrow> state_file \<Rightarrow> poll_result" where
  "market_tick valid clk io s f = (case market_poll valid clk io s f of
     (None, s, f) \<Rightarrow> (None, s, f) | (Some e, s, f) \<Rightarrow> note_failure clk (failure_lock io) s f)"

end
