(* ===== verification/MonitorMarketFacts.thy ===== *)
theory MonitorMarketFacts
  imports MonitorMarket MonitorTradeFacts MonitorMomentumFacts
begin

text \<open>
  Properties of the second route: what a confirmation by unknown wallets rests on, when a turn starts a signal, and
  the bounds of the task registry that both routes share.
\<close>

section \<open>Started signals\<close>

text \<open>What a step that starts at most one signal leaves of the state.\<close>

lemma start_market_signal_cases:
  assumes "start_market_signal clk c (amount, decimals, paid, wallet) sig n prefilter s = (e, t)"
  obtains (failed) x where "e = Some x" "registry t = registry s" "started t = started s"
      "entry_cooldowns t = entry_cooldowns s" "shadow_cooldowns t = shadow_cooldowns s"
  | (started) p where "e = None" "registry t = track_signal_task (prefilter \<noteq> []) (registry s)"
      "started t = started s @ [PaperSignal p]" "ps_mint p = PStr (mc_mint c)" "ps_prefilter p = prefilter" "ps_paid p = paid"
      "ps_wallet p = wallet" "ps_amount p = amount" "ps_route p = ''B''" "ps_momentum p = mc_score c"
      "entry_cooldowns t = entry_cooldowns s" "shadow_cooldowns t = shadow_cooldowns s"
  using assms by (auto simp: start_market_signal_def Let_def split: sum.splits prod.splits)

lemma shadow_cases:
  assumes "schedule_market_shadow clk c rejections now n s = (r, t)"
  obtains (quiet) "registry t = registry s" "started t = started s" "entry_cooldowns t = entry_cooldowns s" "r \<noteq> Inr True"
  | (observed) p where "r = Inr True" "card (shadow_tasks (registry s)) < MAX_PENDING_SHADOW_SIGNALS"
      "registry t = track_signal_task True (registry s)" "started t = started s @ [PaperSignal p]"
      "ps_mint p = PStr (mc_mint c)" "ps_prefilter p = rejections" "rejections \<noteq> []" "ps_route p = ''B''"
      "entry_cooldowns t = entry_cooldowns s"
proof -
  show ?thesis
  proof (cases "rejections = [] \<or> map_of (shadow_cooldowns s) (mc_mint c) \<noteq> None
      \<or> MAX_PENDING_SHADOW_SIGNALS \<le> card (shadow_tasks (registry s))
      \<or> f64_lt (Fin 0) (last_shadow_capture s)
              \<and> f64_lt (f64_sub now (last_shadow_capture s)) MOMENTUM_SHADOW_CAPTURE_INTERVAL_SECONDS")
    case True
    then have "t = s \<and> r \<noteq> Inr True" using assms by (auto simp: schedule_market_shadow_def split: if_splits)
    then show ?thesis using quiet by simp
  next
    case go: False
    let ?s = "s\<lparr>shadow_cooldowns := AList.update (mc_mint c) (f64_add now (Fin MOMENTUM_ENTRY_COOLDOWN_SECONDS))
                       (shadow_cooldowns s), last_shadow_capture := now\<rparr>"
    show ?thesis
    proof (cases "cooldown_bucket (epoch_time clk (readings s))")
      case (Inl x)
      then have "t = ?s\<lparr>readings := readings s + 1\<rparr>" "r = Inl x" using assms go by (auto simp: schedule_market_shadow_def Let_def)
      then show ?thesis using quiet by simp
    next
      case (Inr bucket)
      let ?sig = "''dexscreener-shadow:'' @ mc_pair c @ '':'' @ dec_int bucket"
      obtain e u where e: "start_market_signal clk c (0, 0, 0, ''market-near-miss'') ?sig n rejections (?s\<lparr>readings := readings s + 1\<rparr>) = (e, u)"
        by (cases "start_market_signal clk c (0, 0, 0, ''market-near-miss'') ?sig n rejections (?s\<lparr>readings := readings s + 1\<rparr>)")
      have t: "t = u" "r = (case e of None \<Rightarrow> Inr True | Some x \<Rightarrow> Inl x)"
        using assms go Inr e by (auto simp: schedule_market_shadow_def Let_def split: option.splits)
      from e show ?thesis
      proof (cases rule: start_market_signal_cases)
        case (failed x)
        then show ?thesis using quiet t by simp
      next
        case (started p)
        then show ?thesis using observed t go by simp
      qed
    qed
  qed
qed

lemma enter_market_cases:
  assumes "enter_market clk c whales now s = (e, t)"
  obtains (failed) x where "e = Some x" "registry t = registry s" "started t = started s"
      "entry_cooldowns t = AList.update (mc_mint c) (f64_add now (Fin MOMENTUM_ENTRY_COOLDOWN_SECONDS)) (entry_cooldowns s)"
  | (entered) p where "e = None" "registry t = track_signal_task False (registry s)" "started t = started s @ [PaperSignal p]"
      "ps_mint p = PStr (mc_mint c)" "ps_prefilter p = []" "ps_paid p = wb_paid (whales ! 0)" "ps_wallet p = wb_wallet (whales ! 0)"
      "ps_amount p = wb_amount (whales ! 0)" "ps_route p = ''B''" "ps_momentum p = mc_score c"
      "entry_cooldowns t = AList.update (mc_mint c) (f64_add now (Fin MOMENTUM_ENTRY_COOLDOWN_SECONDS)) (entry_cooldowns s)"
proof -
  let ?s = "s\<lparr>entry_cooldowns := AList.update (mc_mint c) (f64_add now (Fin MOMENTUM_ENTRY_COOLDOWN_SECONDS)) (entry_cooldowns s),
                readings := readings s + 1\<rparr>"
  show ?thesis
  proof (cases "int_of_f64 (epoch_time clk (readings s))")
    case (Inl x)
    then have "e = Some x" "t = ?s" using assms by (auto simp: enter_market_def)
    then show ?thesis using failed by simp
  next
    case (Inr second)
    let ?w = "whales ! 0"
    have st: "start_market_signal clk c (wb_amount ?w, wb_decimals ?w, wb_paid ?w, wb_wallet ?w)
        (''dexscreener:'' @ mc_pair c @ '':'' @ dec_int second) (length whales) [] ?s = (e, t)"
      using assms Inr by (simp add: enter_market_def Let_def)
    then show ?thesis
    proof (cases rule: start_market_signal_cases)
      case (failed x)
      then show ?thesis using that(1) by simp
    next
      case (started p)
      then show ?thesis using that(2) by simp
    qed
  qed
qed

section \<open>The registry of tasks\<close>

text \<open>A task that only observes: a signal with a rejection reason.\<close>

fun observes_only :: "started_task \<Rightarrow> bool" where
  "observes_only (PaperSignal p) \<longleftrightarrow> ps_prefilter p \<noteq> []"
| "observes_only (ObserveBuy wallet m raw paid sig) \<longleftrightarrow> False"

definition registry_ok :: "task_registry \<Rightarrow> started_task list \<Rightarrow> bool" where
  "registry_ok r ts \<longleftrightarrow> tasks_created r = length ts \<and> signal_tasks r \<subseteq> {..<length ts} \<and> shadow_tasks r \<subseteq> signal_tasks r
     \<and> tasks_created r = tasks_completed r + card (signal_tasks r)
     \<and> shadows_created r = shadows_completed r + card (shadow_tasks r)
     \<and> card (shadow_tasks r) \<le> MAX_PENDING_SHADOW_SIGNALS
     \<and> (\<forall>i \<in> signal_tasks r. i \<in> shadow_tasks r \<longleftrightarrow> observes_only (ts ! i))"

lemma registry_finite: "registry_ok r ts \<Longrightarrow> finite (signal_tasks r) \<and> finite (shadow_tasks r)"
  unfolding registry_ok_def by (meson finite_lessThan finite_subset)

lemma registry_new: "registry_ok no_tasks []"
  by (simp add: registry_ok_def no_tasks_def)

lemma registry_track:
  assumes "registry_ok r ts" "shadow \<longleftrightarrow> observes_only t" "shadow \<Longrightarrow> card (shadow_tasks r) < MAX_PENDING_SHADOW_SIGNALS"
  shows "registry_ok (track_signal_task shadow r) (ts @ [t])"
proof -
  note ok = assms(1) [unfolded registry_ok_def] and f = registry_finite [OF assms(1)]
  have new: "length ts \<notin> signal_tasks r" "length ts \<notin> shadow_tasks r" using ok by auto
  have old: "(ts @ [t]) ! i = ts ! i" if "i \<in> signal_tasks r" for i
    using that ok by (auto simp: nth_append)
  have below: "signal_tasks r \<subseteq> {..<Suc (length ts)}" using ok by auto
  have live: "\<forall>i \<in> signal_tasks r. i \<in> shadow_tasks r \<longleftrightarrow> observes_only ((ts @ [t]) ! i)" using old ok by simp
  show ?thesis
  proof (cases shadow)
    case True
    have "\<forall>i \<in> insert (length ts) (signal_tasks r). i \<in> insert (length ts) (shadow_tasks r) \<longleftrightarrow> observes_only ((ts @ [t]) ! i)"
      using live True assms(2) new by (metis insert_iff nth_append_length)
    then show ?thesis using True ok f new below assms(3) by (simp add: registry_ok_def track_signal_task_def Let_def insert_mono subset_insertI2)
  next
    case False
    have "\<forall>i \<in> insert (length ts) (signal_tasks r). i \<in> shadow_tasks r \<longleftrightarrow> observes_only ((ts @ [t]) ! i)"
      using live False assms(2) new by (metis insert_iff nth_append_length)
    then show ?thesis using False ok f new below by (simp add: registry_ok_def track_signal_task_def Let_def subset_insertI2)
  qed
qed

lemma registry_release:
  assumes "registry_ok r ts" "i \<in> signal_tasks r"
  shows "registry_ok (release_signal_task i (i \<in> shadow_tasks r) r) ts"
proof -
  have f: "finite (signal_tasks r)" "finite (shadow_tasks r)" using registry_finite [OF assms(1)] by auto
  have c: "card (signal_tasks r) = Suc (card (signal_tasks r - {i}))" by (rule card.remove [OF f(1) assms(2)])
  have d: "i \<in> shadow_tasks r \<Longrightarrow> card (shadow_tasks r) = Suc (card (shadow_tasks r - {i}))" by (rule card.remove [OF f(2)])
  note ok = assms(1) [unfolded registry_ok_def]
  have sub: "signal_tasks r - {i} \<subseteq> {..<length ts}" "shadow_tasks r - {i} \<subseteq> signal_tasks r - {i}" using ok by blast+
  have live: "\<forall>j \<in> signal_tasks r - {i}. j \<in> shadow_tasks r - {i} \<longleftrightarrow> observes_only (ts ! j)" using ok by blast
  show ?thesis
  proof (cases "i \<in> shadow_tasks r")
    case True
    have n: "tasks_created r = length ts" "tasks_created r = Suc (tasks_completed r) + card (signal_tasks r - {i})"
      "shadows_created r = Suc (shadows_completed r) + card (shadow_tasks r - {i})"
      "card (shadow_tasks r - {i}) \<le> MAX_PENDING_SHADOW_SIGNALS"
      using ok c d [OF True] by linarith+
    show ?thesis unfolding registry_ok_def release_signal_task_def Let_def
      using True sub live n by simp
  next
    case False
    then have "shadow_tasks r - {i} = shadow_tasks r" by blast
    moreover have n: "tasks_created r = length ts" "tasks_created r = Suc (tasks_completed r) + card (signal_tasks r - {i})"
      "shadows_created r = shadows_completed r + card (shadow_tasks r)"
      "card (shadow_tasks r) \<le> MAX_PENDING_SHADOW_SIGNALS"
      using ok c by linarith+
    ultimately show ?thesis unfolding registry_ok_def release_signal_task_def Let_def
      using False sub live by simp
  qed
qed

lemma schedule_keeps_registry:
  assumes "registry_ok (registry s) (started s)"
  shows "registry_ok (registry (schedule_paper_signal stopping clk m raw n paid wallet sig prefilter source s))
    (started (schedule_paper_signal stopping clk m raw n paid wallet sig prefilter source s))"
  using assms by (auto simp: schedule_paper_signal_def intro!: registry_track)

lemma report_keeps_registry:
  assumes "registry_ok (registry s) (started s)"
  shows "registry_ok (registry (snd (report_purchase stopping clk sig source wallet paid x s)))
    (started (snd (report_purchase stopping clk sig source wallet paid x s)))"
proof -
  obtain m raw n where x: "x = (m, raw, n)" by (cases x)
  obtain ok g where g: "whale_buy_amount_allowed paid (wallet, m) (monotonic clk (readings (observe_task wallet m raw paid sig s)))
      (gate (observe_task wallet m raw paid sig s)) = (ok, g)"
    by fastforce
  have "registry_ok (registry (observe_task wallet m raw paid sig s)) (started (observe_task wallet m raw paid sig s))"
    using assms by (auto simp: observe_task_def intro!: registry_track)
  then show ?thesis
    using assms g by (auto simp: report_purchase_def x Let_def intro!: schedule_keeps_registry split: sum.splits)
qed

lemma each_keeps:
  assumes "\<And>x s. P s \<Longrightarrow> P (snd (f x s))"
  shows "P s \<Longrightarrow> P (snd (each f xs s))"
  using each_step [where R = "\<lambda>s t. P s \<longrightarrow> P t" and xs = xs and f = f and s = s] assms by blast

lemma print_buys_invariant:
  assumes "P s" "\<And>sig wallet paid x u. P u \<Longrightarrow> P (snd (report_purchase stopping clk sig source wallet paid x u))"
  shows "P (snd (print_buys stopping clk result watched source s))"
proof -
  have a: "P (snd (each (report_purchase stopping clk sig source wallet paid) xs u))" if "P u" for sig wallet paid xs u
    by (rule each_keeps [where P = P]) (rule assms(2), assumption, rule that)
  have w: "P (snd (wallet_purchases stopping clk sig source meta keys wallet u))" if "P u" for sig meta keys wallet u
    using a [OF that] that by (simp add: wallet_purchases_def split: sum.split prod.split)
  have "P (snd (each (wallet_purchases stopping clk sig source meta keys) xs s))" for sig meta keys xs
    by (rule each_keeps [where P = P]) (rule w, assumption, rule assms(1))
  then show ?thesis using assms(1) by (simp add: print_buys_def split: sum.split prod.split)
qed

lemma print_buys_keeps_registry:
  assumes "registry_ok (registry s) (started s)"
  shows "registry_ok (registry (snd (print_buys stopping clk result watched source s)))
    (started (snd (print_buys stopping clk result watched source s)))"
  by (rule print_buys_invariant [where P = "\<lambda>s. registry_ok (registry s) (started s)", OF assms report_keeps_registry])

text \<open>
  The steps that touch the registry.  None of them waits, so the steps of all coroutines in any order are the
  behaviours of the process; everything else it does is a step that leaves registry and signals alone.
\<close>

inductive monitor_step :: "market_state \<Rightarrow> market_state \<Rightarrow> bool" where
  step_transaction: "monitor_step s (snd (print_buys stopping clk result watched source s))"
| step_shadow: "monitor_step s (snd (schedule_market_shadow clk c rejections now n s))"
| step_entry: "monitor_step s (snd (enter_market clk c whales now s))"
| step_done: "i \<in> signal_tasks (registry s) \<Longrightarrow>
    monitor_step s (s\<lparr>registry := release_signal_task i (i \<in> shadow_tasks (registry s)) (registry s)\<rparr>)"
| step_other: "registry t = registry s \<Longrightarrow> started t = started s \<Longrightarrow> monitor_step s t"

lemma monitor_step_registry: "monitor_step s t \<Longrightarrow> registry_ok (registry s) (started s) \<Longrightarrow> registry_ok (registry t) (started t)"
proof (induction rule: monitor_step.induct)
  case (step_shadow s clk c rejections now n)
  obtain r t where r: "schedule_market_shadow clk c rejections now n s = (r, t)"
    by (cases "schedule_market_shadow clk c rejections now n s")
  from r show ?case by (cases rule: shadow_cases) (use step_shadow r in \<open>auto intro!: registry_track\<close>)
next
  case (step_entry s clk c whales now)
  obtain e t where e: "enter_market clk c whales now s = (e, t)" by (cases "enter_market clk c whales now s")
  from e show ?case by (cases rule: enter_market_cases) (use step_entry e in \<open>auto intro!: registry_track\<close>)
qed (auto intro: print_buys_keeps_registry registry_release)

lemma steps_registry: "monitor_step\<^sup>*\<^sup>* s t \<Longrightarrow> registry_ok (registry s) (started s) \<Longrightarrow> registry_ok (registry t) (started t)"
  by (induction rule: rtranclp_induct) (auto intro: monitor_step_registry)

text \<open>C33: whatever order the transactions, polls and finished tasks of a process come in, at most 40 tasks that only
  observe are pending at once, of both routes together; the counters of the registry account for every task, the
  pending ones are tasks that were started, and a pending task counts as an observation exactly when its signal
  carries a reason for rejection.\<close>

theorem task_backlog_is_bounded:
  assumes "monitor_step\<^sup>*\<^sup>* s t" "registry s = no_tasks" "started s = []"
  shows "card (shadow_tasks (registry t)) \<le> 40 \<and> shadow_tasks (registry t) \<subseteq> signal_tasks (registry t)
    \<and> length (started t) = tasks_completed (registry t) + card (signal_tasks (registry t))
    \<and> shadows_created (registry t) = shadows_completed (registry t) + card (shadow_tasks (registry t))
    \<and> (\<forall>i \<in> signal_tasks (registry t). i < length (started t)
        \<and> (i \<in> shadow_tasks (registry t) \<longleftrightarrow> observes_only (started t ! i)))"
  using steps_registry [OF assms(1)] registry_new assms(2,3)
  by (auto simp: registry_ok_def MAX_PENDING_SHADOW_SIGNALS_def)

definition example_market :: market_state where
  "example_market = \<lparr>gate = empty_gate, activity = reset_wallet_ws_activity (Fin 0), registry = no_tasks, started = [],
     readings = 0, entry_cooldowns = [], shadow_cooldowns = [], last_shadow_capture = Fin 0, snapshots = [],
     poll_failures = 0, last_health_write = Fin 0\<rparr>"

definition example_candidate :: momentum_candidate where
  "example_candidate = \<lparr>mc_mint = ''m'', mc_pair = ''p'', mc_volume = 20000, mc_buys = 40, mc_sells = 20, mc_liquidity = 20000,
     mc_score = Fin 80, mc_age = Fin 1000, mc_price = None, mc_components = []\<rparr>"

theorem task_backlog_is_bounded_witness:
  "\<exists>t. monitor_step\<^sup>*\<^sup>* example_market t \<and> length (started t) = 1 \<and> card (shadow_tasks (registry t)) \<le> 40"
proof -
  let ?t = "snd (schedule_market_shadow quiet_clock example_candidate [''MOMENTUM_WEAKENED''] (Fin 100) 3 example_market)"
  have "monitor_step\<^sup>*\<^sup>* example_market ?t" by (rule r_into_rtranclp, rule step_shadow)
  moreover have "card (shadow_tasks (registry ?t)) \<le> 40"
    by (rule task_backlog_is_bounded [OF calculation, THEN conjunct1]) (simp_all add: example_market_def)
  moreover have "length (started ?t) = 1" by code_simp
  ultimately show ?thesis by (intro exI [of _ ?t] conjI)
qed

section \<open>Unknown wallets\<close>

lemma in_map_filter: "y \<in> set (List.map_filter f xs) \<longleftrightarrow> (\<exists>x \<in> set xs. f x = Some y)"
  by (induction xs) (auto simp: map_filter_simps split: option.splits)

text \<open>What makes a wallet of a transaction an unknown whale for a token.\<close>

definition bought_in :: "dict \<Rightarrow> string \<Rightarrow> string set \<Rightarrow> whale_buy \<Rightarrow> bool" where
  "bought_in tx m watched b \<longleftrightarrow> wb_wallet b \<notin> watched \<and> wb_wallet b \<noteq> [] \<and> 0 < wb_amount b
     \<and> SINGLE_STRENGTH_LAMPORTS \<le> wb_paid b \<and> signature_of tx = Inr (wb_signature b)
     \<and> (\<exists>meta d i message rows. dict_or_empty tx ''meta'' = Inr meta \<and> wallet_token_deltas meta (wb_wallet b) = Inr d
          \<and> map_of d (PStr m) = Some (wb_amount b, wb_decimals b) \<and> whale_payment meta i d = Inr (wb_paid b)
          \<and> bindE (dict_or_empty tx ''transaction'') (\<lambda>t. dict_or_empty t ''message'') = Inr message
          \<and> rows_or_empty message ''accountKeys'' = Inr rows
          \<and> i < length rows \<and> row_signs i (rows ! i) \<and> row_wallet (rows ! i) = wb_wallet b)"

lemma whale_of_row_bought:
  assumes "whale_of_row meta sig m watched (i, row) = Inr (Some b)"
  shows "wb_wallet b = row_wallet row \<and> wb_signature b = sig \<and> row_signs i row \<and> wb_wallet b \<noteq> [] \<and> wb_wallet b \<notin> watched
    \<and> 0 < wb_amount b \<and> SINGLE_STRENGTH_LAMPORTS \<le> wb_paid b
    \<and> (\<exists>d. wallet_token_deltas meta (wb_wallet b) = Inr d \<and> map_of d (PStr m) = Some (wb_amount b, wb_decimals b)
         \<and> whale_payment meta i d = Inr (wb_paid b))"
proof -
  obtain d where d: "wallet_token_deltas meta (row_wallet row) = Inr d"
    using assms by (auto simp: whale_of_row_def bindE_eq_Inr Let_def split: if_splits)
  obtain amount decimals where v: "delta_of d m (0, 0) = (amount, decimals)" by fastforce
  have "0 < amount \<and> row_signs i row \<and> row_wallet row \<noteq> [] \<and> row_wallet row \<notin> watched"
    "\<exists>paid. whale_payment meta i d = Inr paid \<and> SINGLE_STRENGTH_LAMPORTS \<le> paid
      \<and> b = \<lparr>wb_wallet = row_wallet row, wb_signature = sig, wb_paid = paid, wb_amount = amount, wb_decimals = decimals\<rparr>"
    using assms d v by (auto simp: whale_of_row_def bindE_eq_Inr Let_def split: if_splits)
  moreover have "0 < amount \<Longrightarrow> map_of d (PStr m) = Some (amount, decimals)"
    using v by (auto simp: delta_of_def split: option.splits)
  ultimately show ?thesis using d by auto
qed

lemma mapE_elem: "mapE f xs = Inr ys \<Longrightarrow> y \<in> set ys \<Longrightarrow> \<exists>x \<in> set xs. f x = Inr y"
  by (induction xs arbitrary: ys) (auto simp: bindE_eq_Inr)

lemma transaction_whales:
  assumes "unknown_whale_buy_from_transaction tx m watched = Inr buys" "b \<in> set buys"
  shows "bought_in tx m watched b"
proof -
  obtain message sig meta rows found where t: "bindE (dict_or_empty tx ''transaction'') (\<lambda>t. dict_or_empty t ''message'') = Inr message"
      "signature_of tx = Inr sig" "dict_or_empty tx ''meta'' = Inr meta" "rows_or_empty message ''accountKeys'' = Inr rows"
      "mapE (whale_of_row meta sig m watched) (enumerate 0 rows) = Inr found" "buys = List.map_filter id found"
    using assms(1) unfolding unknown_whale_buy_from_transaction_def bindE_eq_Inr by blast
  have "Some b \<in> set found" using assms(2) unfolding t(6) in_map_filter by simp
  then obtain i row where r: "(i, row) \<in> set (enumerate 0 rows)" "whale_of_row meta sig m watched (i, row) = Inr (Some b)"
    using mapE_elem [OF t(5)] by fast
  have "i < length rows" "rows ! i = row" using r(1) by (auto simp: in_set_enumerate_eq)
  then show ?thesis using whale_of_row_bought [OF r(2)] t(1-4) unfolding bought_in_def by auto
qed

text \<open>The buys a transaction of the reply shows, and those of the first ones.\<close>

definition shown_buys :: "(nat \<Rightarrow> string \<Rightarrow> py res) \<Rightarrow> string \<Rightarrow> string set \<Rightarrow> nat \<Rightarrow> string \<Rightarrow> whale_buy list" where
  "shown_buys reply m watched i sig = (case reply i sig of
     Inr (PDict tx) \<Rightarrow> (case unknown_whale_buy_from_transaction tx m watched of Inr buys \<Rightarrow> buys | _ \<Rightarrow> []) | _ \<Rightarrow> [])"

definition first_buys :: "(nat \<Rightarrow> string \<Rightarrow> py res) \<Rightarrow> string \<Rightarrow> string set \<Rightarrow> nat \<Rightarrow> string list \<Rightarrow> nat \<Rightarrow> whale_buy list" where
  "first_buys reply m watched i sigs k = concat (map (\<lambda>j. shown_buys reply m watched (i + j) (sigs ! j)) [0..<k])"

lemma shown_buys_source:
  assumes "b \<in> set (shown_buys reply m watched j sig)"
  shows "\<exists>tx. reply j sig = Inr (PDict tx) \<and> bought_in tx m watched b"
proof -
  have "\<exists>tx buys. reply j sig = Inr (PDict tx) \<and> unknown_whale_buy_from_transaction tx m watched = Inr buys \<and> b \<in> set buys"
    using assms by (simp add: shown_buys_def split: sum.splits py.splits) metis
  then show ?thesis using transaction_whales by blast
qed

lemma first_buys_0 [simp]: "first_buys reply m watched i sigs 0 = []"
  by (simp add: first_buys_def)

lemma first_buys_Suc:
  "first_buys reply m watched i (sig # sigs) (Suc k) = shown_buys reply m watched i sig @ first_buys reply m watched (Suc i) sigs k"
proof -
  have "[0..<Suc k] = 0 # map Suc [0..<k]" by (simp add: upt_conv_Cons map_Suc_upt del: upt_Suc)
  then show ?thesis unfolding first_buys_def by (simp add: comp_def del: upt_Suc)
qed

lemma read_transactions_spec:
  assumes "read_transactions reply m watched i sigs known = Inr best" "length known < UNKNOWN_WHALE_MIN_COUNT"
  shows "\<exists>k \<le> length sigs. best = fold keep_best (first_buys reply m watched i sigs k) known
    \<and> (k = length sigs \<or> UNKNOWN_WHALE_MIN_COUNT \<le> length best)
    \<and> (\<forall>j < k. length (fold keep_best (first_buys reply m watched i sigs j) known) < UNKNOWN_WHALE_MIN_COUNT)"
  using assms
proof (induction sigs arbitrary: i known)
  case Nil
  then show ?case by (intro exI [of _ 0]) simp
next
  case (Cons sig sigs)
  obtain payload where payload: "reply i sig = Inr payload" using Cons.prems(1) by (auto simp: bindE_eq_Inr)
  have go: ?case if shown: "shown_buys reply m watched i sig = buys" and small: "length (fold keep_best buys known) < UNKNOWN_WHALE_MIN_COUNT"
    and rest: "read_transactions reply m watched (Suc i) sigs (fold keep_best buys known) = Inr best" for buys
  proof -
    from Cons.IH [OF rest small] obtain k where k: "k \<le> length sigs"
        "best = fold keep_best (first_buys reply m watched (Suc i) sigs k) (fold keep_best buys known)"
        "k = length sigs \<or> UNKNOWN_WHALE_MIN_COUNT \<le> length best"
        "\<forall>j < k. length (fold keep_best (first_buys reply m watched (Suc i) sigs j) (fold keep_best buys known)) < UNKNOWN_WHALE_MIN_COUNT"
      by blast
    have "length (fold keep_best (first_buys reply m watched i (sig # sigs) j) known) < UNKNOWN_WHALE_MIN_COUNT" if "j < Suc k" for j
      using that k(4) small Cons.prems(2) shown by (cases j) (auto simp: first_buys_Suc)
    then show ?thesis using k(1-3) shown by (intro exI [of _ "Suc k"]) (auto simp: first_buys_Suc)
  qed
  show ?case
  proof (cases "\<exists>tx. payload = PDict tx")
    case False
    then have "shown_buys reply m watched i sig = []" "read_transactions reply m watched (Suc i) sigs known = Inr best"
      using payload Cons.prems(1) by (auto simp: shown_buys_def split: py.splits)
    then show ?thesis using go [of "[]"] Cons.prems(2) by simp
  next
    case True
    then obtain tx where tx: "payload = PDict tx" by blast
    obtain buys where buys: "unknown_whale_buy_from_transaction tx m watched = Inr buys"
      using payload tx Cons.prems(1) by (auto simp: bindE_eq_Inr)
    have shown: "shown_buys reply m watched i sig = buys" using payload tx buys by (simp add: shown_buys_def)
    show ?thesis
    proof (cases "UNKNOWN_WHALE_MIN_COUNT \<le> length (fold keep_best buys known)")
      case True
      then have "best = fold keep_best buys known" using Cons.prems(1) payload tx buys by simp
      then show ?thesis using True shown Cons.prems(2) by (intro exI [of _ "Suc 0"]) (auto simp: first_buys_Suc)
    next
      case False
      then show ?thesis using go [OF shown] Cons.prems(1) payload tx buys by simp
    qed
  qed
qed

text \<open>The best buy of each wallet.\<close>

definition best_of :: "whale_buy list \<Rightarrow> (string \<times> whale_buy) list \<Rightarrow> bool" where
  "best_of bs best \<longleftrightarrow> distinct (map fst best) \<and> (\<forall>(w, b) \<in> set best. wb_wallet b = w \<and> b \<in> set bs)
     \<and> (\<forall>b \<in> set bs. \<exists>b'. map_of best (wb_wallet b) = Some b' \<and> wb_paid b \<le> wb_paid b')"

lemma best_of_source: "best_of bs best \<Longrightarrow> (w, b) \<in> set best \<Longrightarrow> wb_wallet b = w \<and> b \<in> set bs"
  unfolding best_of_def by fast

lemma best_of_covers:
  assumes "best_of bs best" "x \<in> set bs"
  obtains y where "(wb_wallet x, y) \<in> set best" "wb_paid x \<le> wb_paid y"
proof -
  obtain y where "map_of best (wb_wallet x) = Some y" "wb_paid x \<le> wb_paid y"
    using assms unfolding best_of_def by (elim conjE) (drule bspec [of _ _ x], assumption, elim exE conjE, rule that)
  then show ?thesis using that map_of_SomeD by fast
qed

lemma keep_best_step:
  assumes "best_of bs best"
  shows "best_of (bs @ [b]) (keep_best b best)"
proof (cases "\<exists>old. map_of best (wb_wallet b) = Some old \<and> wb_paid b \<le> wb_paid old")
  case True
  then have "keep_best b best = best" by (auto simp: keep_best_def)
  then show ?thesis using assms True by (auto simp: best_of_def)
next
  case False
  then have k: "keep_best b best = AList.update (wb_wallet b) b best"
    by (auto simp: keep_best_def not_le split: option.splits)
  have d: "distinct (map fst best)" using assms by (simp add: best_of_def)
  have "wb_wallet x = w \<and> x \<in> set (bs @ [b])" if "(w, x) \<in> set (AList.update (wb_wallet b) b best)" for w x
  proof -
    have "map_of (AList.update (wb_wallet b) b best) w = Some x"
      using that d by (simp add: distinct_update)
    then show ?thesis using assms by (auto simp: update_conv best_of_def split: if_splits dest!: map_of_SomeD)
  qed
  moreover have "\<exists>b'. map_of (AList.update (wb_wallet b) b best) (wb_wallet x) = Some b' \<and> wb_paid x \<le> wb_paid b'"
    if "x \<in> set (bs @ [b])" for x
  proof (cases "wb_wallet x = wb_wallet b")
    case True
    then have "wb_paid x \<le> wb_paid b" using that assms False by (fastforce simp: best_of_def)
    then show ?thesis using True by (simp add: update_conv)
  next
    case other: False
    then have "x \<in> set bs" using that by auto
    then show ?thesis using assms other by (auto simp: update_conv best_of_def)
  qed
  ultimately show ?thesis unfolding k best_of_def using d by (auto simp: distinct_update)
qed

lemma keep_best_fold: "best_of bs best \<Longrightarrow> best_of (bs @ cs) (fold keep_best cs best)"
proof (induction cs arbitrary: bs best)
  case (Cons c cs)
  show ?case using Cons.IH [OF keep_best_step [OF Cons.prems]] by simp
qed simp

text \<open>C34: a confirmation names different wallets, none of them watched, the largest payment first; each signed a
  transaction of the pair in which it acquired the token for at least 1.5 SOL.  The wallets are those of the first
  transactions up to the one that makes them three, or of all, and each is listed with its largest payment.\<close>

theorem confirmation_names_the_buyers:
  assumes "confirm_unknown_whales io c watched = Inr whales" "signature_reply io = Inr reply" "transaction_signatures reply = Inr sigs"
  defines "read \<equiv> first_buys (transaction_reply io) (mc_mint c) watched 0 sigs"
  shows "distinct (map wb_wallet whales) \<and> sorted (map (\<lambda>b. - wb_paid b) whales)
    \<and> (\<exists>k \<le> length sigs. (k = length sigs \<or> 3 \<le> length whales)
        \<and> (\<forall>j < k. card (wb_wallet ` set (read j)) < 3)
        \<and> set whales \<subseteq> set (read k)
        \<and> (\<forall>b \<in> set (read k). \<exists>b' \<in> set whales. wb_wallet b' = wb_wallet b \<and> wb_paid b \<le> wb_paid b')
        \<and> (\<forall>b \<in> set whales. \<exists>j tx. j < k \<and> transaction_reply io j (sigs ! j) = Inr (PDict tx)
              \<and> bought_in tx (mc_mint c) watched b))"
proof -
  obtain best where best: "read_transactions (transaction_reply io) (mc_mint c) watched 0 sigs [] = Inr best"
      "whales = sort_key (\<lambda>b. - wb_paid b) (map snd best)"
    using assms(1-3) by (auto simp: confirm_unknown_whales_def bindE_eq_Inr)
  obtain k where k: "k \<le> length sigs" "best = fold keep_best (read k) []" "k = length sigs \<or> 3 \<le> length best"
      "\<forall>j < k. length (fold keep_best (read j) []) < 3"
    using read_transactions_spec [OF best(1), folded read_def, unfolded UNKNOWN_WHALE_MIN_COUNT_def] by auto
  have bo: "best_of (read j) (fold keep_best (read j) [])" for j
  proof -
    have "best_of [] []" by (simp add: best_of_def)
    from keep_best_fold [OF this, of "read j"] show ?thesis by simp
  qed
  have b: "best_of (read k) best" using bo k(2) by simp
  have wallets: "map fst best = map wb_wallet (map snd best)" using b by (auto simp: best_of_def)
  have d: "distinct (map wb_wallet (map snd best))" using b wallets by (simp add: best_of_def)
  have m: "mset (map wb_wallet whales) = mset (map wb_wallet (map snd best))" unfolding best(2) by (simp add: multiset.map_comp)
  have dist: "distinct (map wb_wallet whales)" using d mset_eq_imp_distinct_iff [OF m] by simp
  have sort: "sorted (map (\<lambda>b. - wb_paid b) whales)" unfolding best(2) by simp
  have few: "card (wb_wallet ` set (read j)) < 3" if "j < k" for j
  proof -
    let ?best = "fold keep_best (read j) []"
    have "wb_wallet ` set (read j) \<subseteq> fst ` set ?best"
    proof
      fix w assume "w \<in> wb_wallet ` set (read j)"
      then obtain x where x: "x \<in> set (read j)" "w = wb_wallet x" by blast
      obtain y where "(w, y) \<in> set ?best" using best_of_covers [OF bo x(1)] unfolding x(2) .
      then have "fst (w, y) \<in> fst ` set ?best" by (rule imageI)
      then show "w \<in> fst ` set ?best" by simp
    qed
    then have "card (wb_wallet ` set (read j)) \<le> card (fst ` set ?best)" by (intro card_mono) simp_all
    also have "\<dots> \<le> length ?best" using card_length [of "map fst ?best"] by simp
    finally show ?thesis using k(4) that by fastforce
  qed
  have sub: "set whales \<subseteq> set (read k)" using b unfolding best(2) by (auto simp: best_of_def)
  have all: "\<exists>b' \<in> set whales. wb_wallet b' = wb_wallet x \<and> wb_paid x \<le> wb_paid b'" if x: "x \<in> set (read k)" for x
  proof -
    obtain y where y: "(wb_wallet x, y) \<in> set best" "wb_paid x \<le> wb_paid y" using best_of_covers [OF b x] .
    have "snd (wb_wallet x, y) \<in> set (map snd best)" unfolding set_map using y(1) by (rule imageI)
    then have "y \<in> set whales" unfolding best(2) set_sort by simp
    moreover have "wb_wallet y = wb_wallet x" using best_of_source [OF b y(1)] by simp
    ultimately show ?thesis using y(2) by blast
  qed
  have src: "\<exists>j tx. j < k \<and> transaction_reply io j (sigs ! j) = Inr (PDict tx) \<and> bought_in tx (mc_mint c) watched x"
    if "x \<in> set whales" for x
  proof -
    have "x \<in> set (read k)" using sub that by blast
    then have "\<exists>j \<in> set [0..<k]. x \<in> set (shown_buys (transaction_reply io) (mc_mint c) watched j (sigs ! j))"
      unfolding read_def first_buys_def by simp
    then obtain j where j: "j < k" "x \<in> set (shown_buys (transaction_reply io) (mc_mint c) watched j (sigs ! j))" by auto
    from shown_buys_source [OF j(2)] j(1) show ?thesis by blast
  qed
  have few': "\<forall>j < k. card (wb_wallet ` set (read j)) < 3" by (intro allI impI) (rule few)
  have all': "\<forall>x \<in> set (read k). \<exists>b' \<in> set whales. wb_wallet b' = wb_wallet x \<and> wb_paid x \<le> wb_paid b'" by (rule ballI) (rule all)
  have src': "\<forall>x \<in> set whales. \<exists>j tx. j < k \<and> transaction_reply io j (sigs ! j) = Inr (PDict tx) \<and> bought_in tx (mc_mint c) watched x"
    by (rule ballI) (rule src)
  have "k = length sigs \<or> 3 \<le> length whales" using k(3) unfolding best(2) by simp
  then show ?thesis by (intro conjI exI [of _ k] dist sort k(1) few' sub all' src')
qed

definition example_confirmation :: confirm_io where
  "example_confirmation = \<lparr>signature_reply = Inr (PList [PDict [(''signature'', PStr ''s''), (''err'', PNone)], PStr ''x'']),
     transaction_reply = (\<lambda>_ _. Inr (PDict example_transaction)), confirm_timed_out = False\<rparr>"

theorem confirmation_names_the_buyers_witness:
  "\<exists>whales. confirm_unknown_whales example_confirmation example_candidate {} = Inr whales \<and> map wb_wallet whales = [''w'']
     \<and> distinct (map wb_wallet whales)"
proof -
  let ?whale = "\<lparr>wb_wallet = ''w'', wb_signature = ''sig'', wb_paid = 2000000000, wb_amount = 60, wb_decimals = 6\<rparr>"
  have w: "confirm_unknown_whales example_confirmation example_candidate {} = Inr [?whale]" by code_simp
  have "signature_reply example_confirmation = Inr (PList [PDict [(''signature'', PStr ''s''), (''err'', PNone)], PStr ''x''])"
    by (simp add: example_confirmation_def)
  moreover have "transaction_signatures (PList [PDict [(''signature'', PStr ''s''), (''err'', PNone)], PStr ''x'']) = Inr [''s'']"
    by code_simp
  ultimately have "distinct (map wb_wallet [?whale])"
    by (rule confirmation_names_the_buyers [OF w, THEN conjunct1])
  then show ?thesis by (intro exI [of _ "[?whale]"] conjI w) simp_all
qed

section \<open>Entries of a turn\<close>

text \<open>A step that starts nothing but observations and leaves the cool-downs of entries.\<close>

definition only_observes :: "market_state \<Rightarrow> market_state \<Rightarrow> bool" where
  "only_observes s t \<longleftrightarrow> starts observes_only s t \<and> entry_cooldowns t = entry_cooldowns s"

lemma only_observes_refl [simp]: "only_observes s s"
  by (simp add: only_observes_def)

lemma only_observes_trans: "only_observes a b \<Longrightarrow> only_observes b c \<Longrightarrow> only_observes a c"
  by (auto simp: only_observes_def intro: starts_trans)

lemma shadow_only_observes: "schedule_market_shadow clk c rejections now n s = (r, t) \<Longrightarrow> only_observes s t"
  by (erule shadow_cases) (auto simp: only_observes_def starts_def)

lemma capture_only_observes: "capture_near_miss clk now misses s = (r, t) \<Longrightarrow> only_observes s t"
proof (induction misses arbitrary: s)
  case (Cons miss misses)
  obtain c rejections where m: "miss = (c, rejections)" by (cases miss)
  obtain x u where x: "schedule_market_shadow clk c rejections now 0 s = (x, u)"
    by (cases "schedule_market_shadow clk c rejections now 0 s")
  have u: "only_observes s u" by (rule shadow_only_observes [OF x])
  show ?case
  proof (cases "x = Inr False")
    case True
    then have "only_observes u t" using Cons m x by simp
    then show ?thesis using u by (rule only_observes_trans [rotated])
  next
    case False
    then have "t = u" using Cons.prems x m by (auto split: sum.splits bool.splits)
    then show ?thesis using u by simp
  qed
qed simp

lemma capture_result_snd: "capture_result r = (e, t) \<Longrightarrow> t = snd r"
  by (auto simp: capture_result_def split: prod.splits sum.splits)

lemma captured_only_observes: "capture_result (capture_near_miss clk now misses s) = (e, t) \<Longrightarrow> only_observes s t"
  using capture_only_observes [of clk now misses s] capture_result_snd by (metis prod.collapse)

lemma instead_only_observes:
  assumes "observe_instead clk c rejection now n misses s = (e, t)"
  shows "only_observes s t"
proof -
  obtain x u where x: "schedule_market_shadow clk c [rejection] now n s = (x, u)"
    by (cases "schedule_market_shadow clk c [rejection] now n s")
  have u: "only_observes s u" by (rule shadow_only_observes [OF x])
  show ?thesis
  proof (cases "x = Inr False")
    case True
    then have "only_observes u t" using assms x captured_only_observes by (auto simp: observe_instead_def)
    then show ?thesis using u by (rule only_observes_trans [rotated])
  next
    case False
    then have "t = u" using assms x capture_result_snd [of "(x, u)"]
      by (auto simp: observe_instead_def split: sum.splits bool.splits)
    then show ?thesis using u by simp
  qed
qed

text \<open>A step that enters a token: it starts at most the signal, and observations after it.\<close>

definition enters :: "momentum_candidate \<Rightarrow> whale_buy \<Rightarrow> f64 \<Rightarrow> market_state \<Rightarrow> market_state \<Rightarrow> bool" where
  "enters c b now s t \<longleftrightarrow>
     entry_cooldowns t = AList.update (mc_mint c) (f64_add now (Fin MOMENTUM_ENTRY_COOLDOWN_SECONDS)) (entry_cooldowns s)
     \<and> starts (\<lambda>task. observes_only task \<or> (\<exists>p. task = PaperSignal p \<and> ps_mint p = PStr (mc_mint c) \<and> ps_prefilter p = []
          \<and> ps_paid p = wb_paid b \<and> ps_wallet p = wb_wallet b \<and> ps_amount p = wb_amount b \<and> ps_route p = ''B''
          \<and> ps_momentum p = mc_score c)) s t"

lemma enters_then_observes: "enters c b now s u \<Longrightarrow> only_observes u t \<Longrightarrow> enters c b now s t"
  unfolding enters_def only_observes_def by (auto intro: starts_trans starts_weaken)

lemma enter_market_enters: "enter_market clk c whales now s = (e, t) \<Longrightarrow> enters c (whales ! 0) now s t"
  by (erule enter_market_cases) (auto simp: enters_def starts_def)

lemma revalidate_effect:
  assumes "revalidate clk fd c whales now misses s = (e, t)"
  shows "only_observes s t \<or> (\<exists>cs st refreshed. fetch_momentum_candidates fd (snapshots s) = (Inr cs, st) \<and> refreshed \<in> set cs
    \<and> momentum_is_still_strong c refreshed \<and> enters refreshed (whales ! 0) now s t)"
proof -
  obtain r st where r: "fetch_momentum_candidates fd (snapshots s) = (r, st)" by (cases "fetch_momentum_candidates fd (snapshots s)")
  have upd: "only_observes (s\<lparr>snapshots := st\<rparr>) u \<Longrightarrow> only_observes s u" "enters d b now (s\<lparr>snapshots := st\<rparr>) u \<Longrightarrow> enters d b now s u"
    for u d b by (simp_all add: only_observes_def enters_def starts_def)
  show ?thesis
  proof (cases r)
    case (Inl x)
    then have "t = s\<lparr>snapshots := st\<rparr>" using assms r by (simp add: revalidate_def)
    then show ?thesis using upd(1) by simp
  next
    case (Inr cs)
    show ?thesis
    proof (cases "List.find (\<lambda>i. mc_mint i = mc_mint c) cs")
      case None
      then have "observe_instead clk c ''MOMENTUM_REFRESH_MISSING'' now (length whales) misses (s\<lparr>snapshots := st\<rparr>) = (e, t)"
        using assms r Inr by (simp add: revalidate_def)
      then show ?thesis using instead_only_observes upd(1) by blast
    next
      case (Some refreshed)
      have mem: "refreshed \<in> set cs" using Some by (auto simp: find_Some_iff)
      show ?thesis
      proof (cases "momentum_is_still_strong c refreshed")
        case False
        then have "observe_instead clk c ''MOMENTUM_WEAKENED'' now (length whales) misses (s\<lparr>snapshots := st\<rparr>) = (e, t)"
          using assms r Inr Some by (simp add: revalidate_def)
        then show ?thesis using instead_only_observes upd(1) by blast
      next
        case True
        obtain x u where x: "enter_market clk refreshed whales now (s\<lparr>snapshots := st\<rparr>) = (x, u)"
          by (cases "enter_market clk refreshed whales now (s\<lparr>snapshots := st\<rparr>)")
        have en: "enters refreshed (whales ! 0) now s u" by (rule upd(2) [OF enter_market_enters [OF x]])
        have "only_observes u t"
        proof (cases x)
          case None
          then have "capture_result (capture_near_miss clk now misses u) = (e, t)"
            using assms r Inr Some True x by (simp add: revalidate_def)
          then show ?thesis by (rule captured_only_observes)
        next
          case (Some y)
          then have "t = u" using assms r Inr \<open>List.find _ _ = Some refreshed\<close> True x by (simp add: revalidate_def)
          then show ?thesis by simp
        qed
        then have "enters refreshed (whales ! 0) now s t" by (rule enters_then_observes [OF en])
        then show ?thesis using r Inr mem True by blast
      qed
    qed
  qed
qed

lemma unexpired_none: "distinct (map fst ec) \<Longrightarrow> map_of (unexpired now ec) m = None \<longleftrightarrow> (\<forall>x. map_of ec m = Some x \<longrightarrow> f64_le x now)"
  by (induction ec) (auto simp: unexpired_def map_of_eq_None_iff image_iff split: if_splits dest: map_of_SomeD)

lemma unexpired_some: "map_of ec m = Some x \<Longrightarrow> \<not> f64_le x now \<Longrightarrow> map_of (unexpired now ec) m = Some x"
  by (induction ec) (auto simp: unexpired_def split: if_splits)

lemma unexpired_distinct: "distinct (map fst ec) \<Longrightarrow> distinct (map fst (unexpired now ec))"
  unfolding unexpired_def by (rule distinct_map_filter)

text \<open>What a turn does to the started tasks and to the cool-downs of entries.\<close>

definition entry_conditions :: "(string \<Rightarrow> bool) \<Rightarrow> tick_io \<Rightarrow> (string \<times> f64) list \<Rightarrow> momentum_candidate \<Rightarrow> whale_buy list \<Rightarrow> bool" where
  "entry_conditions valid io cooldowns r whales \<longleftrightarrow> map_of cooldowns (mc_mint r) = None \<and> 3 \<le> length whales
     \<and> (\<exists>c st cs st' st2 rs st3 ws. fetch_momentum_candidates (tick_feed io) st = (Inr cs, st') \<and> c \<in> set cs
          \<and> load_wallets valid (tick_wallets io) = Inr ws \<and> confirm_unknown_whales (tick_whales io) c (set ws) = Inr whales
          \<and> fetch_momentum_candidates (refresh_feed io) st2 = (Inr rs, st3) \<and> r \<in> set rs \<and> momentum_is_still_strong c r)"

lemma poll_candidates_effect:
  assumes "poll_candidates clk io ws cs misses s = (e, t)" "load_wallets valid (tick_wallets io) = Inr ws"
    and "fetch_momentum_candidates (tick_feed io) st = (Inr cs, st')"
  shows "\<exists>n u. started u = started s \<and> entry_cooldowns u = unexpired (monotonic clk n) (entry_cooldowns s)
    \<and> (only_observes u t \<or> (\<exists>r whales. entry_conditions valid io (entry_cooldowns u) r whales
        \<and> enters r (whales ! 0) (monotonic clk n) u t))"
proof -
  define now where "now = monotonic clk (readings s)"
  define u where "u = drop_cooldowns now (s\<lparr>readings := readings s + 1\<rparr>)"
  have u: "started u = started s" "entry_cooldowns u = unexpired (monotonic clk (readings s)) (entry_cooldowns s)"
    by (simp_all add: u_def drop_cooldowns_def now_def)
  have "only_observes u t \<or> (\<exists>r whales. entry_conditions valid io (entry_cooldowns u) r whales \<and> enters r (whales ! 0) now u t)"
  proof (cases "List.find (\<lambda>c. map_of (entry_cooldowns u) (mc_mint c) = None) cs")
    case None
    then have "capture_result (capture_near_miss clk now misses u) = (e, t)"
      using assms(1) by (simp add: poll_candidates_def u_def now_def Let_def)
    then show ?thesis using captured_only_observes by blast
  next
    case (Some c)
    have c: "c \<in> set cs" "map_of (entry_cooldowns u) (mc_mint c) = None" using Some by (auto simp: find_Some_iff)
    show ?thesis
    proof (cases "confirm_in_time (tick_whales io) c (set ws)")
      case (Inl x)
      then have "t = u" using assms(1) Some by (simp add: poll_candidates_def u_def now_def Let_def)
      then show ?thesis by simp
    next
      case (Inr whales)
      have wh: "confirm_unknown_whales (tick_whales io) c (set ws) = Inr whales"
        using Inr by (auto simp: confirm_in_time_def split: if_splits)
      show ?thesis
      proof (cases "UNKNOWN_WHALE_MIN_COUNT \<le> length whales")
        case False
        then have "observe_instead clk c ''UNKNOWN_WHALES_UNDER_MIN'' now (length whales) misses u = (e, t)"
          using assms(1) Some Inr by (simp add: poll_candidates_def u_def now_def Let_def)
        then show ?thesis using instead_only_observes by blast
      next
        case True
        then have "revalidate clk (refresh_feed io) c whales now misses u = (e, t)"
          using assms(1) Some Inr by (simp add: poll_candidates_def u_def now_def Let_def)
        from revalidate_effect [OF this] show ?thesis
        proof (elim disjE exE conjE)
          fix rs st3 r assume r: "fetch_momentum_candidates (refresh_feed io) (snapshots u) = (Inr rs, st3)" "r \<in> set rs"
              "momentum_is_still_strong c r" "enters r (whales ! 0) now u t"
          then have "mc_mint r = mc_mint c" by (simp add: momentum_is_still_strong_def)
          then have "entry_conditions valid io (entry_cooldowns u) r whales"
            unfolding entry_conditions_def
            by (intro conjI exI) (use c True in \<open>simp add: UNKNOWN_WHALE_MIN_COUNT_def\<close>,
              use True in \<open>simp add: UNKNOWN_WHALE_MIN_COUNT_def\<close>, rule assms(3), rule c(1), rule assms(2), rule wh,
              rule r(1), rule r(2), rule r(3))
          then show ?thesis using r(4) by blast
        qed simp
      qed
    qed
  qed
  then show ?thesis using u unfolding now_def by blast
qed

lemma notes_keep:
  "note_success clk lk s f = (e, t, f') \<Longrightarrow> started t = started s \<and> entry_cooldowns t = entry_cooldowns s"
  "note_failure clk lk s f = (e, t, f') \<Longrightarrow> started t = started s \<and> entry_cooldowns t = entry_cooldowns s"
  by (auto simp: note_success_def note_failure_def Let_def split: if_splits sum.splits prod.splits)

lemma market_tick_effect:
  assumes "market_tick valid clk io s f = (e, t, f')"
  shows "only_observes s t \<or> (\<exists>n u. started u = started s \<and> entry_cooldowns u = unexpired (monotonic clk n) (entry_cooldowns s)
    \<and> (only_observes u t \<or> (\<exists>r whales. entry_conditions valid io (entry_cooldowns u) r whales
        \<and> enters r (whales ! 0) (monotonic clk n) u t)))"
proof -
  obtain e1 t1 f1 where poll: "market_poll valid clk io s f = (e1, t1, f1)" by (cases "market_poll valid clk io s f")
  have noted: "started t = started t1 \<and> entry_cooldowns t = entry_cooldowns t1"
    using assms poll notes_keep(2) by (cases e1) (auto simp: market_tick_def)
  have same: "only_observes a t1 \<Longrightarrow> only_observes a t" "enters r b now a t1 \<Longrightarrow> enters r b now a t" for a r b now
    using noted by (simp_all add: only_observes_def enters_def starts_def)
  show ?thesis
  proof (cases "load_wallets valid (tick_wallets io)")
    case (Inl x)
    then have "t1 = s" using poll by (simp add: market_poll_def)
    then show ?thesis using same(1) by simp
  next
    case (Inr ws)
    obtain r st where r: "fetch_momentum_candidate_cohorts (tick_feed io) (snapshots s) = (r, st)"
      by (cases "fetch_momentum_candidate_cohorts (tick_feed io) (snapshots s)")
    show ?thesis
    proof (cases r)
      case (Inl x)
      then have "t1 = s\<lparr>snapshots := st\<rparr>" using poll r Inr by (simp add: market_poll_def)
      then have "only_observes s t1" by (simp add: only_observes_def starts_def)
      then show ?thesis using same(1) by simp
    next
      case (Inr p)
      obtain cs misses where p: "p = (cs, misses)" by (cases p)
      have cs: "fetch_momentum_candidates (tick_feed io) (snapshots s) = (Inr cs, st)"
        using r Inr p by (simp add: fetch_momentum_candidates_def)
      obtain e2 s2 f2 where n: "note_success clk (success_lock io) (s\<lparr>snapshots := st\<rparr>) f = (e2, s2, f2)"
        by (cases "note_success clk (success_lock io) (s\<lparr>snapshots := st\<rparr>) f")
      have s2: "started s2 = started s" "entry_cooldowns s2 = entry_cooldowns s" using notes_keep(1) [OF n] by simp_all
      show ?thesis
      proof (cases e2)
        case (Some x)
        then have "t1 = s2" using poll r Inr p n \<open>load_wallets _ _ = Inr ws\<close> by (simp add: market_poll_def)
        then have "only_observes s t1" using s2 by (simp add: only_observes_def starts_def)
        then show ?thesis using same(1) by simp
      next
        case None
        then have "poll_candidates clk io ws cs misses s2 = (e1, t1)"
          using poll r Inr p n \<open>load_wallets _ _ = Inr ws\<close> by (simp add: market_poll_def split: prod.splits)
        from poll_candidates_effect [OF this \<open>load_wallets _ _ = Inr ws\<close> cs] show ?thesis
          using same s2 by metis
      qed
    qed
  qed
qed

text \<open>C35: a turn of the second route starts a signal that may be bought only for a token that was not entered
  within the cool-down and of which at least three unknown wallets were found to have bought; the signal names the
  first of them with its payment.  The candidate, read once more from the feed, was approved again with no less
  volume, surplus of buys and score, so that it still meets the thresholds, and its token then cools down for 2700
  seconds.\<close>

theorem market_entry_is_confirmed:
  assumes "market_tick valid clk io s f = (e, t, f')" "started t = started s @ new" "PaperSignal p \<in> set new" "ps_prefilter p = []"
    and "distinct (map fst (entry_cooldowns s))"
  shows "\<exists>c r ws whales now. load_wallets valid (tick_wallets io) = Inr ws
    \<and> confirm_unknown_whales (tick_whales io) c (set ws) = Inr whales \<and> 3 \<le> length whales
    \<and> ps_wallet p = wb_wallet (whales ! 0) \<and> ps_paid p = wb_paid (whales ! 0) \<and> ps_amount p = wb_amount (whales ! 0)
    \<and> momentum_is_still_strong c r \<and> ps_mint p = PStr (mc_mint r) \<and> ps_route p = ''B'' \<and> ps_momentum p = mc_score r
    \<and> 10000 \<le> mc_liquidity r \<and> 15000 \<le> mc_volume r \<and> 15 \<le> net_buys r \<and> f64_le (Fin 60) (mc_score r)
    \<and> (\<forall>x. map_of (entry_cooldowns s) (mc_mint r) = Some x \<longrightarrow> f64_le x now)
    \<and> map_of (entry_cooldowns t) (mc_mint r) = Some (f64_add now (Fin 2700))"
proof -
  have not_quiet: "\<not> only_observes u t" if "started u = started s" for u
  proof
    assume "only_observes u t"
    then have "observes_only (PaperSignal p)" using that assms(2,3) by (auto simp: only_observes_def starts_def)
    then show False using assms(4) by simp
  qed
  obtain n u r whales where u: "started u = started s" "entry_cooldowns u = unexpired (monotonic clk n) (entry_cooldowns s)"
      "entry_conditions valid io (entry_cooldowns u) r whales" "enters r (whales ! 0) (monotonic clk n) u t"
    using market_tick_effect [OF assms(1)] not_quiet by blast
  have p: "ps_mint p = PStr (mc_mint r)" "ps_paid p = wb_paid (whales ! 0)" "ps_wallet p = wb_wallet (whales ! 0)"
      "ps_amount p = wb_amount (whales ! 0)" "ps_route p = ''B''" "ps_momentum p = mc_score r"
    using u(1,4) assms(2-4) by (auto simp: enters_def starts_def)
  obtain c st2 rs st3 ws where k: "map_of (entry_cooldowns u) (mc_mint r) = None" "3 \<le> length whales"
      "load_wallets valid (tick_wallets io) = Inr ws" "confirm_unknown_whales (tick_whales io) c (set ws) = Inr whales"
      "fetch_momentum_candidates (refresh_feed io) st2 = (Inr rs, st3)" "r \<in> set rs" "momentum_is_still_strong c r"
    using u(3) unfolding entry_conditions_def by blast
  have cool: "\<forall>x. map_of (entry_cooldowns s) (mc_mint r) = Some x \<longrightarrow> f64_le x (monotonic clk n)"
    using k(1) unfolding u(2) using unexpired_none [OF assms(5)] by blast
  have after: "map_of (entry_cooldowns t) (mc_mint r) = Some (f64_add (monotonic clk n) (Fin 2700))"
    using u(4) by (simp add: enters_def update_conv MOMENTUM_ENTRY_COOLDOWN_SECONDS_def)
  note th = candidates_meet_thresholds [OF k(5,6)]
  show ?thesis
    by (intro exI conjI) (rule k(3), rule k(4), rule k(2), rule p(3), rule p(2), rule p(4), rule k(7), rule p(1), rule p(5),
      rule p(6), use th in simp, use th in simp, use th in simp, use th in simp, rule cool, rule after)
qed

definition whale_transaction :: "string \<Rightarrow> dict" where
  "whale_transaction w = [(''transaction'', PDict [(''message'', PDict [(''accountKeys'', PList [PStr w])]),
       (''signatures'', PList [PStr ''sig''])]),
     (''meta'', PDict [(''postTokenBalances'', PList [example_balance w ''m'' ''100'']),
       (''preBalances'', PList [PInt 5000000000]), (''postBalances'', PList [PInt 2000000000]), (''fee'', PInt 5000)])]"

definition single_feed :: feed where
  "single_feed = example_feed\<lparr>feed_search := Inr (PDict [(''pairs'', PList [example_pair ''m'' 20000])])\<rparr>"
definition single_candidate :: momentum_candidate where "single_candidate = \<lparr>mc_mint = ''m'', mc_pair = ''p'', mc_volume = 20000, mc_buys = 40, mc_sells = 20, mc_liquidity = 20000,
     mc_score = Fin 80, mc_age = Fin 4999, mc_price = Some (1/2), mc_components = [(''volume_operand_before_cap'', PFloat (Fin 40)), (''volume_points'', PFloat (Fin 40)),
            (''positive_net_buys'', PFloat (Fin 20)), (''imbalance_operand_before_cap'', PFloat (Fin 40)),
            (''imbalance_points'', PFloat (Fin 40))]\<rparr>"

definition example_tick :: tick_io where
  "example_tick = \<lparr>tick_wallets = Content (PList [PStr ''k'']), tick_feed = single_feed, refresh_feed = single_feed,
     tick_whales = \<lparr>signature_reply = Inr (PList (map (\<lambda>w. PDict [(''signature'', PStr w)]) [''a'', ''b'', ''c''])),
       transaction_reply = (\<lambda>i w. Inr (PDict (whale_transaction w))), confirm_timed_out = False\<rparr>,
     success_lock = True, failure_lock = True\<rparr>"

definition example_whale :: "string \<Rightarrow> whale_buy" where
  "example_whale w = \<lparr>wb_wallet = w, wb_signature = ''sig'', wb_paid = 2999995000, wb_amount = 100, wb_decimals = 6\<rparr>"

lemma poll_ignores_store:
  "fetch_momentum_candidate_cohorts io st = (fst (fetch_momentum_candidate_cohorts io []), snd (fetch_momentum_candidate_cohorts io st))"
  by (auto simp: fetch_momentum_candidate_cohorts_def split: sum.split)

lemma example_polls:
  "fetch_momentum_candidate_cohorts single_feed st = (Inr ([single_candidate], []), snd (fetch_momentum_candidate_cohorts single_feed st))"
proof -
  have "fst (fetch_momentum_candidate_cohorts single_feed []) = Inr ([single_candidate], [])" by code_simp
  then show ?thesis by (subst poll_ignores_store) simp
qed

lemma example_deltas:
  "wallet_token_deltas [(''postTokenBalances'', PList [example_balance w ''m'' ''100'']),
       (''preBalances'', PList [PInt 5000000000]), (''postBalances'', PList [PInt 2000000000]), (''fee'', PInt 5000)] w
     = Inr [(PStr ''m'', 100, 6)]"
  by (simp add: wallet_token_deltas_def rows_or_empty_def dgetn_def dget_def py_or_def delta_row_def example_balance_def
    raw_token_amount_def dict_or_empty_def dget_or_def add_delta_def int_of_string_def split_sign_def strip_def lstrip_def
    is_space_def char_code_def is_digit_def)

lemma example_whales:
  assumes "w \<noteq> []" "w \<noteq> ''k''"
  shows "unknown_whale_buy_from_transaction (whale_transaction w) ''m'' {''k''} = Inr [example_whale w]"
  using assms example_deltas
  by (simp add: unknown_whale_buy_from_transaction_def whale_transaction_def dict_or_empty_def dgetn_def dget_def py_or_def
    account_keys_def dget_or_def signature_of_def rows_or_empty_def enumerate_eq_zip whale_of_row_def delta_of_def
    balances_reach_def whale_payment_def native_outflow_def WSOL_MINT_def SINGLE_STRENGTH_LAMPORTS_def example_whale_def
    map_filter_simps)

lemma example_confirms:
  "confirm_unknown_whales (tick_whales example_tick) single_candidate {''k''} = Inr (map example_whale [''a'', ''b'', ''c''])"
  using example_whales [of "''a''"] example_whales [of "''b''"] example_whales [of "''c''"]
  by (simp add: confirm_unknown_whales_def example_tick_def single_candidate_def transaction_signatures_def py_or_def
    map_filter_simps dgetn_def dget_def UNKNOWN_WHALE_MIN_COUNT_def keep_best_def example_whale_def)

lemma example_detected: "store_collection m p (PStr ''t'') st = (Inr [], st)"
proof -
  have "feature_timestamp (PStr ''t'') = None" by code_simp
  then show ?thesis by (simp add: store_collection_def)
qed

lemma example_tick_enters:
  "\<exists>t p. market_tick (\<lambda>_. True) quiet_clock example_tick example_market Missing = (None, t, Missing) \<and> started t = [PaperSignal p]
    \<and> ps_prefilter p = []"
proof -
  have w: "load_wallets (\<lambda>_. True) (tick_wallets example_tick) = Inr [''k'']" by code_simp
  have s: "momentum_is_still_strong single_candidate single_candidate" by code_simp
  have m: "\<exists>ms. momentum_observation_metrics single_candidate 3 = Inr ms"
  proof -
    have "case int_truediv (mc_buys single_candidate) (max 1 (mc_sells single_candidate)) of Inr _ \<Rightarrow> True | Inl _ \<Rightarrow> False"
      by code_simp
    then show ?thesis unfolding momentum_observation_metrics_def
      by (cases "int_truediv (mc_buys single_candidate) (max 1 (mc_sells single_candidate))") auto
  qed
  then obtain ms where ms: "momentum_observation_metrics single_candidate 3 = Inr ms" by blast
  have ms3: "momentum_observation_metrics single_candidate (Suc (Suc (Suc 0))) = Inr ms" using ms by (simp add: eval_nat_numeral)
  have h: "\<not> f64_le HEALTH_WRITE_INTERVAL_SECONDS (f64_sub (Fin 0) (Fin 0))" "int_of_f64 (Fin 0) = Inr 0" by code_simp+
  have feeds: "tick_feed example_tick = single_feed" "refresh_feed example_tick = single_feed" "confirm_timed_out (tick_whales example_tick) = False"
    by (simp_all add: example_tick_def)
  define st where "st = snd (fetch_momentum_candidate_cohorts single_feed [])"
  define st2 where "st2 = snd (fetch_momentum_candidate_cohorts single_feed st)"
  have p: "fetch_momentum_candidate_cohorts single_feed [] = (Inr ([single_candidate], []), st)"
    unfolding st_def by (rule example_polls)
  have "fetch_momentum_candidate_cohorts single_feed st = (Inr ([single_candidate], []), st2)"
    unfolding st2_def by (rule example_polls)
  then have f: "fetch_momentum_candidates single_feed st = (Inr [single_candidate], st2)"
    by (simp add: fetch_momentum_candidates_def)
  have c: "confirm_in_time (tick_whales example_tick) single_candidate {''k''} = Inr (map example_whale [''a'', ''b'', ''c''])"
    unfolding confirm_in_time_def feeds(3) by (simp only: if_False example_confirms)
  show ?thesis
    by (simp add: market_tick_def market_poll_def w feeds p note_success_def Let_def h example_market_def
      poll_candidates_def drop_cooldowns_def unexpired_def quiet_clock_def c
      UNKNOWN_WHALE_MIN_COUNT_def revalidate_def f s enter_market_def start_market_signal_def ms3 example_detected
      capture_result_def)
qed

theorem market_entry_is_confirmed_witness:
  "\<exists>e t f p. market_tick (\<lambda>_. True) quiet_clock example_tick example_market Missing = (e, t, f) \<and> PaperSignal p \<in> set (started t)
     \<and> (\<exists>m. ps_mint p = PStr m \<and> m \<in> fst ` set (entry_cooldowns t))"
proof -
  obtain t p where t: "market_tick (\<lambda>_. True) quiet_clock example_tick example_market Missing = (None, t, Missing)"
      "started t = [PaperSignal p]" "ps_prefilter p = []"
    using example_tick_enters by blast
  have new: "started t = started example_market @ [PaperSignal p]" using t(2) by (simp add: example_market_def)
  have d: "distinct (map fst (entry_cooldowns example_market))" by (simp add: example_market_def)
  have mem: "PaperSignal p \<in> set [PaperSignal p]" by simp
  have "\<exists>m now. ps_mint p = PStr m \<and> map_of (entry_cooldowns t) m = Some (f64_add now (Fin 2700))"
    using market_entry_is_confirmed [OF t(1) new mem t(3) d] by (elim exE conjE) (intro exI conjI, assumption+)
  then have "\<exists>m. ps_mint p = PStr m \<and> m \<in> fst ` set (entry_cooldowns t)" by (metis map_of_eq_None_iff option.distinct(1))
  then show ?thesis using t(1,2) by auto
qed

section \<open>Entries of a run\<close>

text \<open>Turns one after the other, each with its clock, its answers and the file of the metrics as it finds it.\<close>

fun run_turns :: "(string \<Rightarrow> bool) \<Rightarrow> (monitor_clock \<times> tick_io \<times> state_file) list \<Rightarrow> market_state \<Rightarrow> market_state" where
  "run_turns valid [] s = s"
| "run_turns valid ((clk, io, f) # turns) s = run_turns valid turns (fst (snd (market_tick valid clk io s f)))"

definition buys_token :: "string \<Rightarrow> started_task \<Rightarrow> bool" where
  "buys_token m task \<longleftrightarrow> (\<exists>p. task = PaperSignal p \<and> ps_mint p = PStr m \<and> ps_prefilter p = [])"

lemma turn_respects_cooldown:
  assumes "market_tick valid clk io s f = (e, t, f')" "map_of (entry_cooldowns s) m = Some x" "\<And>n. \<not> f64_le x (monotonic clk n)"
  shows "starts (\<lambda>task. \<not> buys_token m task) s t \<and> map_of (entry_cooldowns t) m = Some x"
proof -
  have quiet: "only_observes u t \<Longrightarrow> starts (\<lambda>task. \<not> buys_token m task) u t \<and> entry_cooldowns t = entry_cooldowns u" for u
    by (auto simp: only_observes_def buys_token_def elim!: starts_weaken)
  consider "only_observes s t" | n u where "started u = started s" "entry_cooldowns u = unexpired (monotonic clk n) (entry_cooldowns s)"
      "only_observes u t"
    | n u r whales where "started u = started s" "entry_cooldowns u = unexpired (monotonic clk n) (entry_cooldowns s)"
      "entry_conditions valid io (entry_cooldowns u) r whales" "enters r (whales ! 0) (monotonic clk n) u t"
    using market_tick_effect [OF assms(1)] by blast
  then show ?thesis
  proof cases
    case 1
    then show ?thesis using quiet assms(2) by simp
  next
    case 2
    have "map_of (entry_cooldowns u) m = Some x" unfolding 2(2) by (rule unexpired_some [OF assms(2,3)])
    then show ?thesis using quiet [OF 2(3)] starts_same [OF 2(1)] by simp
  next
    case 3
    have keep: "map_of (entry_cooldowns u) m = Some x" unfolding 3(2) by (rule unexpired_some [OF assms(2,3)])
    then have other: "mc_mint r \<noteq> m" using 3(3) by (auto simp: entry_conditions_def)
    then have "starts (\<lambda>task. \<not> buys_token m task) u t"
      using 3(4) by (auto simp: enters_def buys_token_def elim!: starts_weaken)
    moreover have "map_of (entry_cooldowns t) m = Some x" using 3(4) keep other by (simp add: enters_def update_conv)
    ultimately show ?thesis using starts_same [OF 3(1)] by simp
  qed
qed

text \<open>A token that cools down is not entered by the second route before its time: over any number of turns, with
  any answers, as long as no reading of the monotonic clock reaches the end of its cool-down.\<close>

theorem cooling_token_is_not_entered:
  assumes "map_of (entry_cooldowns s) m = Some x" "\<forall>(clk, io, f) \<in> set turns. \<forall>n. \<not> f64_le x (monotonic clk n)"
  shows "starts (\<lambda>task. \<not> buys_token m task) s (run_turns valid turns s)"
  using assms
proof (induction turns arbitrary: s)
  case (Cons turn turns)
  obtain clk io f where turn: "turn = (clk, io, f)" by (cases turn)
  obtain e t f' where t: "market_tick valid clk io s f = (e, t, f')" by (cases "market_tick valid clk io s f")
  have step: "starts (\<lambda>task. \<not> buys_token m task) s t \<and> map_of (entry_cooldowns t) m = Some x"
    by (rule turn_respects_cooldown [OF t Cons.prems(1)]) (use Cons.prems(2) turn in auto)
  then have "starts (\<lambda>task. \<not> buys_token m task) t (run_turns valid turns t)"
    using Cons.IH Cons.prems(2) by simp
  then show ?case using step t turn by (auto intro: starts_trans)
qed simp

theorem cooling_token_is_not_entered_witness:
  "starts (\<lambda>task. \<not> buys_token ''m'' task) (example_market\<lparr>entry_cooldowns := [(''m'', Fin 2700)]\<rparr>)
     (run_turns (\<lambda>_. True) [(quiet_clock, example_tick, Missing)] (example_market\<lparr>entry_cooldowns := [(''m'', Fin 2700)]\<rparr>))"
  by (rule cooling_token_is_not_entered [where x = "Fin 2700"]) (simp_all add: quiet_clock_def)

end
