(* ===== verification/MonitorStream.thy ===== *)
theory MonitorStream
  imports MonitorMarket
begin

text \<open>
  The web socket of \<open>src/monitor.py\<close>: the messages of the two subscriptions, the transactions that are fetched
  for the public one, and the loop that connects again.

  The messages of a connection, the answers of the RPC router, the locks and the clocks are arguments; an
  exception of the library of web sockets is one of the classes the code tells apart.  A message is the result of
  parsing it.  \<open>in\<close> and subscription by a string are modelled for the values JSON has.
\<close>

text \<open>The programs of the exchanges, in the order of the dictionary.\<close>

definition DEX_PROGRAMS :: "(string \<times> string) list" where
  "DEX_PROGRAMS = [(''Pump.fun'', ''6EF8rrecthR5Dkzon8Nwu78hRvfCKubJ14M5uBEwF6P''),
     (''PumpSwap'', ''pAMMBay6oceH9fJKBRHGP5D4bD4sWpmSwMn52FMfXEA''),
     (''Raydium AMM v4'', ''675kPX9MHTjS2zt1qfr1NYHuzeLXfQM9H24wFSUt1Mp8''),
     (''Raydium CPMM'', ''CPMMoo8L3F4NbTegBCKVNunggL7H1ZpdTHKxQB5qKP1C''),
     (''Raydium CLMM'', ''CAMMCzo5YL8w4VFF8KVHrK22GGUsp5VTaW7grrKgrWqK''),
     (''Raydium Stable'', ''5quBtoiQqxF9Jv6KYKctB59NT3gtJD2Y65kdnB1Uev3h'')]"

section \<open>Exceptions that end a connection\<close>

datatype stream_error =
    Raised exc
  | SubscriptionRejected string
  | EnhancedSubscriptionUnavailable
  | WalletListChanged
  | SubscriptionRefresh
  | StreamEnded
  | SocketError ws_error

definition plain_error :: "ws_error_kind \<Rightarrow> py \<Rightarrow> ws_error" where
  "plain_error k reason = \<lparr>ws_kind = k, ws_reason = reason, response_status = PNone, own_status = PNone\<rparr>"

text \<open>The exception as \<open>canonical_websocket_failure_reason\<close> sees it.\<close>

fun as_ws_error :: "stream_error \<Rightarrow> ws_error" where
  "as_ws_error (Raised JSONDecodeError) = plain_error MalformedJson (PStr [])"
| "as_ws_error (SubscriptionRejected reason) = plain_error OtherWsError (PStr reason)"
| "as_ws_error (SocketError e) = e"
| "as_ws_error _ = plain_error OtherWsError (PStr [])"

section \<open>State and steps\<close>

record stream_state = market_state +
  metrics_file :: state_file
  seen :: signature_window
  acknowledgements :: nat
  subscriptions :: "(int \<times> string) list"

type_synonym 's outcome = "stream_error option \<times> 's"

text \<open>A statement after another one.\<close>

definition followed_by :: "'s outcome \<Rightarrow> ('s \<Rightarrow> 's outcome) \<Rightarrow> 's outcome" where
  "followed_by r k = (case r of (Some e, s) \<Rightarrow> (Some e, s) | (None, s) \<Rightarrow> k s)"

definition count_activity :: "string \<Rightarrow> string \<Rightarrow> 'm monitor_state_scheme \<Rightarrow> 'm monitor_state_scheme outcome" where
  "count_activity name source s = (case record_wallet_ws_activity name source (activity s) of
     Inl e \<Rightarrow> (Some (Raised e), s) | Inr a \<Rightarrow> (None, s\<lparr>activity := a\<rparr>))"

definition count_restore_failure :: "string \<Rightarrow> rpc_error option \<Rightarrow> 'm monitor_state_scheme \<Rightarrow> 'm monitor_state_scheme outcome" where
  "count_restore_failure source err s = (case record_transaction_restore_failure source err (activity s) of
     Inl e \<Rightarrow> (Some (Raised e), s) | Inr (_, a) \<Rightarrow> (None, s\<lparr>activity := a\<rparr>))"

definition write_metrics :: "bool \<Rightarrow> dict \<Rightarrow> 'm stream_state_scheme \<Rightarrow> 'm stream_state_scheme outcome" where
  "write_metrics lk values s = (case set_global_metrics lk (metrics_file s) values of
     (Inl e, f) \<Rightarrow> (Some (Raised e), s\<lparr>metrics_file := f\<rparr>) | (Inr _, f) \<Rightarrow> (None, s\<lparr>metrics_file := f\<rparr>))"

text \<open>\<open>key in value\<close> and \<open>value[key]\<close>.\<close>

fun has_key :: "string \<Rightarrow> py \<Rightarrow> bool res" where
  "has_key k (PDict d) = Inr (map_of d k \<noteq> None)"
| "has_key k (PList xs) = Inr (PStr k \<in> set xs)"
| "has_key k (PStr s) = Inr (contains s k)"
| "has_key k _ = Inl TypeError"

fun py_item :: "py \<Rightarrow> string \<Rightarrow> py res" where
  "py_item (PDict d) k = dindex d k"
| "py_item _ k = Inl TypeError"

text \<open>What \<open>run_forever\<close> and the two subscriptions write when they are subscribed.\<close>

definition subscribed_metrics :: "monitor_clock \<Rightarrow> nat \<Rightarrow> string \<Rightarrow> string \<Rightarrow> dict" where
  "subscribed_metrics clk n ws_name source =
     [(''wallet_ws_state'', PStr ''SUBSCRIBED''), (''wallet_ws_subscribed_at'', PFloat (epoch_time clk n)),
      (''wallet_ws_mode'', PStr ws_name), (''wallet_ws_active_source'', PStr source),
      (''wallet_ws_last_success_at'', PFloat (epoch_time clk (n + 1))), (''wallet_ws_consecutive_failures'', PInt 0),
      (''wallet_ws_state_changed_at'', PFloat (epoch_time clk (n + 2)))]"

definition subscribed ::
  "monitor_clock \<Rightarrow> bool \<Rightarrow> string \<Rightarrow> string \<Rightarrow> 'm stream_state_scheme \<Rightarrow> 'm stream_state_scheme outcome" where
  "subscribed clk lk ws_name source s =
     followed_by (count_activity ''subscription_success'' source s) (\<lambda>s.
       write_metrics lk (subscribed_metrics clk (readings s) ws_name source) (s\<lparr>readings := readings s + 3\<rparr>))"

section \<open>The public subscription\<close>

text \<open>The transaction, asked for at most four times; \<open>replies\<close> are the results of the calls.\<close>

type_synonym rpc_reply = "rpc_error + py"

fun fetch_attempts :: "nat \<Rightarrow> (nat \<Rightarrow> rpc_reply) \<Rightarrow> nat \<Rightarrow> rpc_error + dict option" where
  "fetch_attempts 0 replies i = Inr None"
| "fetch_attempts (Suc n) replies i = (case replies i of
     Inl e \<Rightarrow> Inl e
   | Inr (PDict d) \<Rightarrow> Inr (Some d)
   | Inr _ \<Rightarrow> fetch_attempts n replies (i + 1))"

definition fetch_transaction :: "(nat \<Rightarrow> rpc_reply) \<Rightarrow> rpc_error + dict option" where
  "fetch_transaction replies = fetch_attempts 4 replies 0"

text \<open>\<open>any(program in line for line in logs)\<close>, and the first exchange for which it holds.\<close>

fun any_line :: "string \<Rightarrow> py list \<Rightarrow> bool res" where
  "any_line program [] = Inr False"
| "any_line program (line # lines) = bindE (has_key program line) (\<lambda>b. if b then Inr True else any_line program lines)"

fun first_dex :: "(string \<times> string) list \<Rightarrow> py \<Rightarrow> string option res" where
  "first_dex [] logs = Inr None"
| "first_dex ((name, program) # programs) logs =
     bindE (bindE (py_iter logs) (any_line program)) (\<lambda>b. if b then Inr (Some name) else first_dex programs logs)"

record stream_event =
  parsed_message :: "py res"
  event_replies :: "nat \<Rightarrow> rpc_reply"
  event_lock :: bool

definition report_buys ::
  "bool \<Rightarrow> monitor_clock \<Rightarrow> dict \<Rightarrow> string list \<Rightarrow> string \<Rightarrow> 'm monitor_state_scheme \<Rightarrow> 'm monitor_state_scheme outcome" where
  "report_buys stopping clk transaction wallets source s =
     (let (e, s) = print_buys stopping clk transaction wallets source s in (map_option Raised e, s))"

text \<open>A transaction of an exchange: fetched, and its purchases reported.\<close>

definition restore_transaction ::
  "bool \<Rightarrow> monitor_clock \<Rightarrow> string list \<Rightarrow> (nat \<Rightarrow> rpc_reply) \<Rightarrow> 'm monitor_state_scheme \<Rightarrow> 'm monitor_state_scheme outcome" where
  "restore_transaction stopping clk wallets replies s =
     followed_by (count_activity ''dex_log_match'' DISCOVERY_SOURCE_SOLANA s) (\<lambda>s.
     followed_by (count_activity ''transaction_fetch'' DISCOVERY_SOURCE_SOLANA s) (\<lambda>s.
     case fetch_transaction replies of
       Inl e \<Rightarrow> count_restore_failure DISCOVERY_SOURCE_SOLANA (Some e) s
     | Inr None \<Rightarrow> count_restore_failure DISCOVERY_SOURCE_SOLANA None s
     | Inr (Some transaction) \<Rightarrow>
         (if transaction = [] then count_restore_failure DISCOVERY_SOURCE_SOLANA None s
          else followed_by (count_activity ''transaction_restore_success'' DISCOVERY_SOURCE_SOLANA s) (\<lambda>s.
               followed_by (count_activity ''transaction_parsed'' DISCOVERY_SOURCE_SOLANA s) (\<lambda>s.
               report_buys stopping clk transaction wallets DISCOVERY_SOURCE_SOLANA s)))))"

definition notification_value :: "py \<Rightarrow> dict res" where
  "notification_value message =
     bindE (as_dict message) (\<lambda>m. bindE (dict_or_empty m ''params'') (\<lambda>params.
     bindE (dict_or_empty params ''result'') (\<lambda>result. dict_or_empty result ''value'')))"

definition standard_notification ::
  "bool \<Rightarrow> monitor_clock \<Rightarrow> string list \<Rightarrow> stream_event \<Rightarrow> dict \<Rightarrow> 'm stream_state_scheme \<Rightarrow> 'm stream_state_scheme outcome" where
  "standard_notification stopping clk wallets ev v s =
     (if \<not> truthy (dgetn v ''signature'') \<or> dgetn v ''err'' \<noteq> PNone then (None, s)
      else followed_by (count_activity ''notification'' DISCOVERY_SOURCE_SOLANA s) (\<lambda>s.
        let (new, w) = window_add (py_str (dgetn v ''signature'')) (seen s); s = s\<lparr>seen := w\<rparr> in
        if \<not> new then (None, s)
        else followed_by (count_activity ''unique_signature'' DISCOVERY_SOURCE_SOLANA s) (\<lambda>s.
          case first_dex DEX_PROGRAMS (py_or (dgetn v ''logs'') (PList [])) of
            Inl e \<Rightarrow> (Some (Raised e), s)
          | Inr None \<Rightarrow> (None, s)
          | Inr (Some _) \<Rightarrow> restore_transaction stopping clk wallets (event_replies ev) s)))"

definition rejection :: "py \<Rightarrow> stream_error" where
  "rejection message = (case py_item message ''error'' of
     Inl e \<Rightarrow> Raised e | Inr payload \<Rightarrow> SubscriptionRejected (websocket_subscription_failure_reason payload))"

definition standard_message ::
  "bool \<Rightarrow> monitor_clock \<Rightarrow> string list \<Rightarrow> stream_event \<Rightarrow> 'm stream_state_scheme \<Rightarrow> 'm stream_state_scheme outcome" where
  "standard_message stopping clk wallets ev s =
     (case bindE (parsed_message ev) (\<lambda>m. bindE (has_key ''id'' m) (\<lambda>b. Inr (m, b))) of
        Inl e \<Rightarrow> (Some (Raised e), s)
      | Inr (message, True) \<Rightarrow>
          (case has_key ''error'' message of
             Inl e \<Rightarrow> (Some (Raised e), s)
           | Inr True \<Rightarrow> (Some (rejection message), s)
           | Inr False \<Rightarrow>
               (let s = s\<lparr>acknowledgements := acknowledgements s + 1\<rparr> in
                if acknowledgements s = length wallets
                then subscribed clk (event_lock ev) ''STANDARD'' DISCOVERY_SOURCE_SOLANA s else (None, s)))
      | Inr (message, False) \<Rightarrow>
          (case notification_value message of
             Inl e \<Rightarrow> (Some (Raised e), s)
           | Inr v \<Rightarrow> standard_notification stopping clk wallets ev v s))"

section \<open>The enhanced subscription\<close>

definition enhanced_acknowledgement ::
  "monitor_clock \<Rightarrow> bool \<Rightarrow> py \<Rightarrow> 'm stream_state_scheme \<Rightarrow> 'm stream_state_scheme outcome" where
  "enhanced_acknowledgement clk lk message s =
     (case bindE (bindE (py_item message ''id'') py_int) (\<lambda>request_id.
           if 1 \<le> request_id \<and> request_id \<le> int (length DEX_PROGRAMS)
           then bindE (bindE (py_item message ''result'') py_int) (\<lambda>subscription_id.
             Inr (subscription_id, fst (DEX_PROGRAMS ! nat (request_id - 1))))
           else Inl (KeyError (dec_int request_id))) of
        Inl e \<Rightarrow> (Some (Raised e), s)
      | Inr (subscription_id, name) \<Rightarrow>
          (let s = s\<lparr>subscriptions := AList.update subscription_id name (subscriptions s)\<rparr> in
           if length (subscriptions s) = length DEX_PROGRAMS
           then subscribed clk lk ''ENHANCED'' DISCOVERY_SOURCE_HELIUS s else (None, s)))"

text \<open>The exchange of a subscription: equal numbers are equal keys, and a list or an object is no key.\<close>

definition dex_of :: "(int \<times> string) list \<Rightarrow> py \<Rightarrow> string option res" where
  "dex_of subs v = (case v of
     PInt i \<Rightarrow> Inr (map_of subs i)
   | PBool b \<Rightarrow> Inr (map_of subs (if b then 1 else 0))
   | PFloat (Fin q) \<Rightarrow> Inr (if q = of_int \<lfloor>q\<rfloor> then map_of subs \<lfloor>q\<rfloor> else None)
   | PList _ \<Rightarrow> Inl TypeError
   | PDict _ \<Rightarrow> Inl TypeError
   | _ \<Rightarrow> Inr None)"

definition enhanced_notification :: "(int \<times> string) list \<Rightarrow> py \<Rightarrow> (string option \<times> py) res" where
  "enhanced_notification subs message =
     bindE (as_dict message) (\<lambda>m. bindE (dict_or_empty m ''params'') (\<lambda>params.
     bindE (dex_of subs (dgetn params ''subscription'')) (\<lambda>dex.
     bindE (dict_or_empty params ''result'') (\<lambda>result. Inr (dex, dgetn result ''value'')))))"

definition enhanced_message ::
  "bool \<Rightarrow> monitor_clock \<Rightarrow> string list \<Rightarrow> stream_event \<Rightarrow> 'm stream_state_scheme \<Rightarrow> 'm stream_state_scheme outcome" where
  "enhanced_message stopping clk wallets ev s =
     (case bindE (parsed_message ev) (\<lambda>m. bindE (has_key ''id'' m) (\<lambda>b. Inr (m, b))) of
        Inl e \<Rightarrow> (Some (Raised e), s)
      | Inr (message, True) \<Rightarrow>
          (case has_key ''error'' message of
             Inl e \<Rightarrow> (Some (Raised e), s)
           | Inr True \<Rightarrow>
               (case py_item message ''error'' of
                  Inl e \<Rightarrow> (Some (Raised e), s)
                | Inr payload \<Rightarrow> (if contains (py_str payload) ''not available on the free plan''
                    then (Some EnhancedSubscriptionUnavailable, s) else (Some (rejection message), s)))
           | Inr False \<Rightarrow> enhanced_acknowledgement clk (event_lock ev) message s)
      | Inr (message, False) \<Rightarrow>
          (case enhanced_notification (subscriptions s) message of
             Inl e \<Rightarrow> (Some (Raised e), s)
           | Inr (Some _, PDict transaction) \<Rightarrow>
               followed_by (count_activity ''notification'' DISCOVERY_SOURCE_HELIUS s) (\<lambda>s.
               followed_by (count_activity ''transaction_parsed'' DISCOVERY_SOURCE_HELIUS s) (\<lambda>s.
               report_buys stopping clk transaction wallets DISCOVERY_SOURCE_HELIUS s))
           | Inr _ \<Rightarrow> (None, s)))"

section \<open>One connection\<close>

text \<open>What the tasks beside the connection end with, when they end first: a new list of wallets, the time of a
  refresh, or an exception.\<close>

datatype side_result = ListChanged | RefreshDue | TaskRaised exc

fun side_error :: "side_result \<Rightarrow> stream_error" where
  "side_error ListChanged = WalletListChanged"
| "side_error RefreshDue = SubscriptionRefresh"
| "side_error (TaskRaised e) = Raised e"

text \<open>
  The input of one turn of the loop: the list of wallets, the connection (\<open>connect_failure\<close>), its messages and its
  end (\<open>stream_failure\<close>), whether it ended or was cancelled, and the other tasks that were done, before and after
  the connection in the order their results are looked at.
\<close>

record turn_io =
  turn_wallets :: state_file
  stat_failure :: "exc option"
  connect_failure :: "ws_error option"
  stream_events :: "stream_event list"
  stream_failure :: "ws_error option"
  stream_done :: bool
  sides_before :: "side_result list"
  sides_after :: "side_result list"
  connecting_lock :: bool
  connected_lock :: bool
  ending_lock :: bool
  fallback_lock :: bool

definition source_of :: "bool \<Rightarrow> string" where
  "source_of standard = (if standard then DISCOVERY_SOURCE_SOLANA else DISCOVERY_SOURCE_HELIUS)"

definition endpoint_metrics :: "bool \<Rightarrow> dict" where
  "endpoint_metrics standard =
     [(''wallet_ws_endpoint_kind'', PStr (if standard then ''SOLANA_PUBLIC_WSS'' else ''HELIUS_WSS'')),
      (''wallet_ws_subscription_method'', PStr (if standard then ''logsSubscribe'' else ''transactionSubscribe'')),
      (''wallet_ws_active_source'', PStr (source_of standard))]"

text \<open>The start of a connection: nothing is acknowledged, no signature is known.\<close>

definition open_stream :: "bool \<Rightarrow> monitor_clock \<Rightarrow> bool \<Rightarrow> 'm stream_state_scheme \<Rightarrow> 'm stream_state_scheme outcome" where
  "open_stream standard clk lk s =
     (let connected_at = epoch_time clk (readings s);
          s = s\<lparr>readings := readings s + 1, seen := new_window MAX_SEEN_WALLET_SIGNATURES, acknowledgements := 0,
                subscriptions := []\<rparr> in
      followed_by (count_activity ''connection_success'' (source_of standard) s)
        (write_metrics lk ((''wallet_ws_connected_at'', PFloat connected_at) # endpoint_metrics standard)))"

fun process_events :: "(stream_event \<Rightarrow> 's \<Rightarrow> 's outcome) \<Rightarrow> stream_event list \<Rightarrow> 's \<Rightarrow> 's outcome" where
  "process_events step [] s = (None, s)"
| "process_events step (ev # evs) s = followed_by (step ev s) (process_events step evs)"

definition stream_once ::
  "bool \<Rightarrow> bool \<Rightarrow> monitor_clock \<Rightarrow> string list \<Rightarrow> turn_io \<Rightarrow> 'm stream_state_scheme \<Rightarrow> 'm stream_state_scheme outcome" where
  "stream_once standard stopping clk wallets io s =
     (case connect_failure io of
        Some e \<Rightarrow> (Some (SocketError e), s)
      | None \<Rightarrow>
          followed_by (open_stream standard clk (connected_lock io) s) (\<lambda>s.
          followed_by (process_events (if standard then standard_message stopping clk wallets
                                       else enhanced_message stopping clk wallets) (stream_events io) s) (\<lambda>s.
            (map_option SocketError (stream_failure io), s))))"

text \<open>The result that ends the turn: a changed list first, then the first exception.\<close>

definition turn_result :: "turn_io \<Rightarrow> stream_error option \<Rightarrow> stream_error" where
  "turn_result io e =
     (let results = map (Some \<circ> side_error) (sides_before io) @ (if e \<noteq> None \<or> stream_done io then [e] else [])
                    @ map (Some \<circ> side_error) (sides_after io) in
      if Some WalletListChanged \<in> set results then WalletListChanged
      else case List.map_filter id results of [] \<Rightarrow> StreamEnded | x # _ \<Rightarrow> x)"

section \<open>The loop of connections\<close>

record loop_state = stream_state +
  ws_route_state :: ws_route
  delay :: int

text \<open>A turn: the exception that ended it, and whether it came before the tasks were started.\<close>

definition connection_turn ::
  "(string \<Rightarrow> bool) \<Rightarrow> bool \<Rightarrow> monitor_clock \<Rightarrow> turn_io \<Rightarrow> loop_state \<Rightarrow> stream_error \<times> loop_state" where
  "connection_turn valid stopping clk io s =
     (case load_wallets valid (turn_wallets io) of
        Inl e \<Rightarrow> (Raised e, s)
      | Inr wallets \<Rightarrow>
          (case stat_failure io of
             Some e \<Rightarrow> (Raised e, s)
           | None \<Rightarrow>
               (let standard = uses_standard (ws_route_state s) in
                case write_metrics (connecting_lock io)
                       ([(''wallet_ws_state'', PStr ''CONNECTING''), (''wallet_ws_state_changed_at'', PFloat (epoch_time clk (readings s)))]
                        @ endpoint_metrics standard) (s\<lparr>readings := readings s + 1\<rparr>) of
                  (Some e, s) \<Rightarrow> (e, s)
                | (None, s) \<Rightarrow> (let (e, s) = stream_once standard stopping clk wallets io s in (turn_result io e, s)))))"

text \<open>
  What the loop does with the exception: the exception that leaves the loop, if writing the metrics raises, the
  seconds it sleeps, and the state.
\<close>

type_synonym loop_step = "stream_error option \<times> int \<times> loop_state"

definition fallback_metrics :: "monitor_clock \<Rightarrow> string \<Rightarrow> loop_state \<Rightarrow> dict" where
  "fallback_metrics clk cat s =
     [(''wallet_ws_enhanced_fallback_reason'', PStr cat), (''wallet_ws_enhanced_fallback_at'', PFloat (epoch_time clk (readings s)))]"

definition refreshed :: "monitor_clock \<Rightarrow> turn_io \<Rightarrow> loop_state \<Rightarrow> loop_step" where
  "refreshed clk io s =
     (case write_metrics (ending_lock io) [(''wallet_ws_state'', PStr ''REFRESHING''),
             (''wallet_ws_state_changed_at'', PFloat (epoch_time clk (readings s)))] (s\<lparr>readings := readings s + 1\<rparr>) of
        (Some e, s) \<Rightarrow> (Some e, 0, s)
      | (None, s) \<Rightarrow> (None, 0, s\<lparr>ws_route_state := refresh_route (monotonic clk (readings s)) (ws_route_state s),
                               readings := readings s + 1, delay := 3\<rparr>))"

definition fell_back :: "monitor_clock \<Rightarrow> turn_io \<Rightarrow> loop_state \<Rightarrow> loop_step" where
  "fell_back clk io s =
     (case count_activity ''subscription_failure'' DISCOVERY_SOURCE_HELIUS s of
        (Some e, s) \<Rightarrow> (Some e, 0, s)
      | (None, s) \<Rightarrow>
          (let s = s\<lparr>ws_route_state := activate_standard (monotonic clk (readings s)) (ws_route_state s), readings := readings s + 1\<rparr> in
           case write_metrics (fallback_lock io) (fallback_metrics clk ''WS_ENHANCED_NOT_AVAILABLE'' s) (s\<lparr>readings := readings s + 1\<rparr>) of
             (Some e, s) \<Rightarrow> (Some e, 0, s)
           | (None, s) \<Rightarrow> (None, 0, s\<lparr>delay := 3\<rparr>)))"

definition note_ws_failure :: "bool \<Rightarrow> string \<Rightarrow> f64 \<Rightarrow> loop_state \<Rightarrow> loop_state outcome" where
  "note_ws_failure lk cat now s = (case record_wallet_ws_failure cat now lk (metrics_file s) of
     (Inl e, f) \<Rightarrow> (Some (Raised e), s\<lparr>metrics_file := f\<rparr>) | (Inr _, f) \<Rightarrow> (None, s\<lparr>metrics_file := f\<rparr>))"

definition back_off :: "monitor_clock \<Rightarrow> f64 \<Rightarrow> loop_state \<Rightarrow> loop_step" where
  "back_off clk connected_at s =
     (let d = (if f64_le (Fin 60) (f64_sub (monotonic clk (readings s)) connected_at) then 3 else delay s) in
      (None, d, s\<lparr>readings := readings s + 1, delay := min (d * 2) 300\<rparr>))"

definition connection_lost :: "monitor_clock \<Rightarrow> turn_io \<Rightarrow> f64 \<Rightarrow> stream_error \<Rightarrow> loop_state \<Rightarrow> loop_step" where
  "connection_lost clk io connected_at err s =
     (let cat = canonical_websocket_failure_reason (as_ws_error err);
          standard = uses_standard (ws_route_state s);
          counted = (case err of SubscriptionRejected _ \<Rightarrow> count_activity ''subscription_failure'' (source_of standard) s
                     | _ \<Rightarrow> (None, s));
          noted = followed_by counted (\<lambda>s.
            let s = s\<lparr>ws_route_state := record_failure (monotonic clk (readings s)) (ws_route_state s), readings := readings s + 1\<rparr> in
            followed_by (note_ws_failure (ending_lock io) cat (epoch_time clk (readings s)) (s\<lparr>readings := readings s + 1\<rparr>)) (\<lambda>s.
            if \<not> standard \<and> uses_standard (ws_route_state s)
            then write_metrics (fallback_lock io) (fallback_metrics clk cat s) (s\<lparr>readings := readings s + 1\<rparr>) else (None, s))) in
      case noted of (Some e, s) \<Rightarrow> (Some e, 0, s) | (None, s) \<Rightarrow> back_off clk connected_at s)"

definition end_of_turn :: "monitor_clock \<Rightarrow> turn_io \<Rightarrow> f64 \<Rightarrow> stream_error \<Rightarrow> loop_state \<Rightarrow> loop_step" where
  "end_of_turn clk io connected_at err s = (case err of
     WalletListChanged \<Rightarrow> (None, 0, s\<lparr>delay := 3\<rparr>)
   | SubscriptionRefresh \<Rightarrow> refreshed clk io s
   | EnhancedSubscriptionUnavailable \<Rightarrow> fell_back clk io s
   | _ \<Rightarrow> connection_lost clk io connected_at err s)"

text \<open>The loop over the turns it is given; for each the route it used, its exception and its sleep.\<close>

record turn_report =
  used_standard :: bool
  ended_by :: stream_error
  slept :: int
  started_at :: f64
  left_at :: f64

definition loop_turn :: "(string \<Rightarrow> bool) \<Rightarrow> bool \<Rightarrow> monitor_clock \<Rightarrow> turn_io \<Rightarrow> loop_state \<Rightarrow> turn_report \<times> stream_error option \<times> loop_state" where
  "loop_turn valid stopping clk io s =
     (let connected_at = monotonic clk (readings s);
          (err, t) = connection_turn valid stopping clk io (s\<lparr>readings := readings s + 1\<rparr>);
          (escaped, d, u) = end_of_turn clk io connected_at err t in
      (\<lparr>used_standard = uses_standard (ws_route_state s), ended_by = err, slept = d, started_at = connected_at,
        left_at = monotonic clk (readings u - 1)\<rparr>, escaped, u))"

fun run_forever ::
  "(string \<Rightarrow> bool) \<Rightarrow> bool \<Rightarrow> monitor_clock \<Rightarrow> turn_io list \<Rightarrow> loop_state \<Rightarrow> turn_report list \<times> stream_error option \<times> loop_state" where
  "run_forever valid stopping clk [] s = ([], None, s)"
| "run_forever valid stopping clk (io # ios) s =
     (let (report, escaped, s) = loop_turn valid stopping clk io s in
      case escaped of
        Some e \<Rightarrow> ([report], Some e, s)
      | None \<Rightarrow> (let (reports, e, s) = run_forever valid stopping clk ios s in (report # reports, e, s)))"

end
