(* ===== verification/MonitorStreamFacts.thy ===== *)
theory MonitorStreamFacts
  imports MonitorStream MonitorMarketFacts
begin

text \<open>
  Properties of the web socket: the counters of the public subscription account for every transaction it fetches,
  the loop backs off, and the public route is kept until it is time to probe the other one.
\<close>

section \<open>Counters\<close>

definition cnt :: "ws_activity \<Rightarrow> string \<Rightarrow> int" where
  "cnt a name = (case map_of (activity_counts a) name of None \<Rightarrow> 0 | Some n \<Rightarrow> n)"

text \<open>Each name of the list was counted once.\<close>

definition bumped :: "ws_activity \<Rightarrow> string list \<Rightarrow> ws_activity \<Rightarrow> bool" where
  "bumped a ns b \<longleftrightarrow> activity_ok b \<and> (\<forall>name. cnt b name = cnt a name + int (count_list ns name))"

lemma bumped_refl: "activity_ok a \<Longrightarrow> bumped a [] a"
  by (simp add: bumped_def)

lemma bumped_trans: "bumped a ns b \<Longrightarrow> bumped b ms c \<Longrightarrow> bumped a (ns @ ms) c"
  by (simp add: bumped_def)

lemma bumped_ok: "bumped a ns b \<Longrightarrow> activity_ok b"
  by (simp add: bumped_def)

lemma record_bumped:
  assumes "activity_ok a" "name \<in> set WALLET_WS_ACTIVITY_KEYS"
  shows "\<exists>b. record_wallet_ws_activity name source a = Inr b \<and> bumped a [name] b"
proof -
  obtain c where c: "map_of (activity_by_source a) name = Some c" "map_of (activity_counts a) name = Some (sum_list (map snd c))"
    using assms by (auto simp: activity_ok_def)
  let ?b = "a\<lparr>activity_counts := AList.update name (sum_list (map snd c) + 1) (activity_counts a),
      activity_by_source := AList.update name (bump (take 80 source) c) (activity_by_source a)\<rparr>"
  have r: "record_wallet_ws_activity name source a = Inr ?b"
    using assms(2) c by (simp add: record_wallet_ws_activity_def)
  have "activity_ok ?b" using record_activity_ok [OF assms(1) r] .
  then have "bumped a [name] ?b" using c by (auto simp: bumped_def cnt_def update_conv split: option.split)
  then show ?thesis using r by blast
qed

lemma count_activity_bumps:
  assumes "activity_ok (activity s)" "name \<in> set WALLET_WS_ACTIVITY_KEYS"
  obtains a where "count_activity name source s = (None, s\<lparr>activity := a\<rparr>)" "bumped (activity s) [name] a"
proof -
  obtain a where "record_wallet_ws_activity name source (activity s) = Inr a" "bumped (activity s) [name] a"
    using record_bumped [OF assms] by blast
  then show ?thesis using that by (simp add: count_activity_def)
qed

lemma restore_failure_bumps:
  assumes "activity_ok (activity s)"
  obtains a where "count_restore_failure source err s = (None, s\<lparr>activity := a\<rparr>)"
    "bumped (activity s) [''transaction_restore_failure''] a"
proof -
  have "''transaction_restore_failure'' \<in> set WALLET_WS_ACTIVITY_KEYS" by (simp add: WALLET_WS_ACTIVITY_KEYS_def)
  from record_bumped [OF assms this] obtain b where
      b: "record_wallet_ws_activity ''transaction_restore_failure'' (take 80 source) (activity s) = Inr b"
      "bumped (activity s) [''transaction_restore_failure''] b" by blast
  let ?a = "b\<lparr>restore_failures := AList.update (take 80 source) (bump (restore_failure_reason err)
     (case map_of (restore_failures b) (take 80 source) of None \<Rightarrow> [] | Some c \<Rightarrow> c)) (restore_failures b)\<rparr>"
  have "count_restore_failure source err s = (None, s\<lparr>activity := ?a\<rparr>)"
    using b(1) by (simp add: count_restore_failure_def record_transaction_restore_failure_def Let_def)
  moreover have "bumped (activity s) [''transaction_restore_failure''] ?a"
    using b(2) by (simp add: bumped_def cnt_def activity_ok_def)
  ultimately show ?thesis by (rule that)
qed

text \<open>Reported purchases count candidates only.\<close>

definition candidates_only :: "ws_activity \<Rightarrow> ws_activity \<Rightarrow> bool" where
  "candidates_only a b \<longleftrightarrow> (\<exists>k. bumped a (replicate k ''smart_money_candidate'') b)"

lemma candidates_only_trans: "candidates_only a b \<Longrightarrow> candidates_only b c \<Longrightarrow> candidates_only a c"
proof -
  assume "candidates_only a b" "candidates_only b c"
  then obtain j k where "bumped a (replicate j ''smart_money_candidate'') b" "bumped b (replicate k ''smart_money_candidate'') c"
    by (auto simp: candidates_only_def)
  from bumped_trans [OF this] have "bumped a (replicate (j + k) ''smart_money_candidate'') c" by (simp add: replicate_add)
  then show "candidates_only a c" by (auto simp: candidates_only_def)
qed

lemma report_candidates:
  assumes "activity_ok (activity s)"
  shows "candidates_only (activity s) (activity (snd (report_purchase stopping clk sig source wallet paid x s)))"
proof -
  obtain m raw n where x: "x = (m, raw, n)" by (cases x)
  have none: "candidates_only (activity s) (activity s)"
    unfolding candidates_only_def by (intro exI [of _ 0]) (simp add: bumped_refl [OF assms])
  have sched: "activity (schedule_paper_signal stopping clk m raw n paid wallet sig prefilter source u) = activity u" for paid prefilter u
    by (simp add: schedule_paper_signal_def)
  have obs: "activity (observe_task wallet m raw paid sig s) = activity s" by (simp add: observe_task_def)
  have "''smart_money_candidate'' \<in> set WALLET_WS_ACTIVITY_KEYS" by (simp add: WALLET_WS_ACTIVITY_KEYS_def)
  from record_bumped [OF assms this] obtain b where
      b: "record_wallet_ws_activity ''smart_money_candidate'' source (activity s) = Inr b"
      "bumped (activity s) [''smart_money_candidate''] b" by blast
  have one: "candidates_only (activity s) b"
    unfolding candidates_only_def by (intro exI [of _ 1]) (simp add: b(2))
  show ?thesis
  proof (cases "m \<in> quote_tokens \<or> decimal_text_error raw n \<noteq> None \<or> paid \<le> 0")
    case True
    then show ?thesis using none by (auto simp: report_purchase_def x sched)
  next
    case False
    obtain ok g where g: "whale_buy_amount_allowed paid (wallet, m) (monotonic clk (readings (observe_task wallet m raw paid sig s)))
        (gate (observe_task wallet m raw paid sig s)) = (ok, g)"
      by fastforce
    have "snd (report_purchase stopping clk sig source wallet paid x s) =
      schedule_paper_signal stopping clk m raw n paid wallet sig (if ok then [] else [''WHALE_AMOUNT_FILTER_REJECTED'']) source
        ((observe_task wallet m raw paid sig s)\<lparr>gate := g, readings := readings (observe_task wallet m raw paid sig s) + 1, activity := b\<rparr>)"
      using False g by (simp add: report_purchase_def x Let_def obs b(1))
    then show ?thesis using one by (simp add: sched)
  qed
qed

lemma print_buys_candidates:
  assumes "activity_ok (activity s)"
  shows "candidates_only (activity s) (activity (snd (print_buys stopping clk result watched source s)))"
proof -
  let ?P = "\<lambda>u. activity_ok (activity u) \<and> candidates_only (activity s) (activity u)"
  have "candidates_only (activity s) (activity s)"
    unfolding candidates_only_def by (intro exI [of _ 0]) (simp add: bumped_refl [OF assms])
  then have start: "?P s" using assms by simp
  have step: "?P (snd (report_purchase stopping clk sig source wallet paid x u))" if P: "?P u" for sig wallet paid x u
  proof -
    have c: "candidates_only (activity u) (activity (snd (report_purchase stopping clk sig source wallet paid x u)))"
      by (rule report_candidates) (use P in simp)
    moreover have "activity_ok (activity (snd (report_purchase stopping clk sig source wallet paid x u)))"
      using c bumped_ok unfolding candidates_only_def by blast
    ultimately show ?thesis using P candidates_only_trans by blast
  qed
  show ?thesis using print_buys_invariant [where P = ?P, OF start step] by simp
qed

text \<open>The counters of the public subscription: every match is fetched, and every fetch succeeds or fails.\<close>

definition funnel :: "ws_activity \<Rightarrow> ws_activity \<Rightarrow> bool" where
  "funnel a b \<longleftrightarrow> activity_ok b \<and>
     (let d = (\<lambda>name. cnt b name - cnt a name) in
      0 \<le> d ''dex_log_match'' \<and> d ''transaction_fetch'' = d ''dex_log_match''
      \<and> d ''transaction_fetch'' = d ''transaction_restore_success'' + d ''transaction_restore_failure''
      \<and> d ''dex_log_match'' \<le> d ''unique_signature'' \<and> d ''unique_signature'' \<le> d ''notification'')"

lemma funnel_refl: "activity_ok a \<Longrightarrow> funnel a a"
  by (simp add: funnel_def)

lemma funnel_trans: "funnel a b \<Longrightarrow> funnel b c \<Longrightarrow> funnel a c"
  by (auto simp: funnel_def Let_def)

lemma funnel_bumped:
  assumes "bumped a ns b" "count_list ns ''transaction_fetch'' = count_list ns ''dex_log_match''"
    "count_list ns ''transaction_fetch'' = count_list ns ''transaction_restore_success'' + count_list ns ''transaction_restore_failure''"
    "count_list ns ''dex_log_match'' \<le> count_list ns ''unique_signature''" "count_list ns ''unique_signature'' \<le> count_list ns ''notification''"
  shows "funnel a b"
  using assms by (simp add: bumped_def funnel_def Let_def)

lemma count_smart [simp]: "count_list (replicate k ''smart_money_candidate'') name = (if name = ''smart_money_candidate'' then k else 0)"
  by (induction k) auto

text \<open>Counting a known name goes on with the next statement.\<close>

lemma followed_by_count:
  assumes "activity_ok (activity s)" "name \<in> set WALLET_WS_ACTIVITY_KEYS"
  obtains a where "bumped (activity s) [name] a" "followed_by (count_activity name source s) k = k (s\<lparr>activity := a\<rparr>)"
proof -
  obtain a where "count_activity name source s = (None, s\<lparr>activity := a\<rparr>)" "bumped (activity s) [name] a"
    by (rule count_activity_bumps [OF assms])
  then show ?thesis using that by (simp add: followed_by_def)
qed

lemma restore_counts:
  fixes s :: "'m monitor_state_scheme"
  assumes "activity_ok (activity s)" "restore_transaction stopping clk wallets replies s = (e, t)"
  shows "\<exists>ns k. bumped (activity s) ns (activity t) \<and> (ns = [''dex_log_match'', ''transaction_fetch'', ''transaction_restore_failure'']
    \<or> ns = [''dex_log_match'', ''transaction_fetch'', ''transaction_restore_success'', ''transaction_parsed'']
           @ replicate k ''smart_money_candidate'')"
proof -
  define stage2 where "stage2 = (\<lambda>s :: 'm monitor_state_scheme. case fetch_transaction replies of
       Inl e \<Rightarrow> count_restore_failure DISCOVERY_SOURCE_SOLANA (Some e) s
     | Inr None \<Rightarrow> count_restore_failure DISCOVERY_SOURCE_SOLANA None s
     | Inr (Some transaction) \<Rightarrow>
         (if transaction = [] then count_restore_failure DISCOVERY_SOURCE_SOLANA None s
          else followed_by (count_activity ''transaction_restore_success'' DISCOVERY_SOURCE_SOLANA s) (\<lambda>s.
               followed_by (count_activity ''transaction_parsed'' DISCOVERY_SOURCE_SOLANA s) (\<lambda>s.
               report_buys stopping clk transaction wallets DISCOVERY_SOURCE_SOLANA s))))"
  have keys: "''dex_log_match'' \<in> set WALLET_WS_ACTIVITY_KEYS" "''transaction_fetch'' \<in> set WALLET_WS_ACTIVITY_KEYS"
    "''transaction_restore_success'' \<in> set WALLET_WS_ACTIVITY_KEYS" "''transaction_parsed'' \<in> set WALLET_WS_ACTIVITY_KEYS"
    by (simp_all add: WALLET_WS_ACTIVITY_KEYS_def)
  obtain a1 where a1: "bumped (activity s) [''dex_log_match''] a1"
      "restore_transaction stopping clk wallets replies s =
         followed_by (count_activity ''transaction_fetch'' DISCOVERY_SOURCE_SOLANA (s\<lparr>activity := a1\<rparr>)) stage2"
    unfolding restore_transaction_def stage2_def by (rule followed_by_count [OF assms(1) keys(1)])
  have ok1: "activity_ok (activity (s\<lparr>activity := a1\<rparr>))" using bumped_ok [OF a1(1)] by simp
  obtain a2 where x2: "bumped (activity (s\<lparr>activity := a1\<rparr>)) [''transaction_fetch''] a2"
      "followed_by (count_activity ''transaction_fetch'' DISCOVERY_SOURCE_SOLANA (s\<lparr>activity := a1\<rparr>)) stage2
         = stage2 (s\<lparr>activity := a1\<rparr>\<lparr>activity := a2\<rparr>)"
    by (rule followed_by_count [OF ok1 keys(2)])
  have a2: "bumped a1 [''transaction_fetch''] a2" "(e, t) = stage2 (s\<lparr>activity := a2\<rparr>)"
    using x2 a1(2) assms(2) by simp_all
  have b2: "bumped (activity s) [''dex_log_match'', ''transaction_fetch''] a2" using bumped_trans [OF a1(1) a2(1)] by simp
  let ?s2 = "s\<lparr>activity := a2\<rparr>"
  have ok2: "activity_ok (activity ?s2)" using bumped_ok [OF a2(1)] by simp
  have failed: ?thesis if "(e, t) = count_restore_failure DISCOVERY_SOURCE_SOLANA err ?s2" for err
  proof -
    obtain a where x: "count_restore_failure DISCOVERY_SOURCE_SOLANA err ?s2 = (None, ?s2\<lparr>activity := a\<rparr>)"
        "bumped (activity ?s2) [''transaction_restore_failure''] a"
      by (rule restore_failure_bumps [OF ok2])
    have "t = ?s2\<lparr>activity := a\<rparr>" using x(1) that by simp
    then have "activity t = a" by simp
    moreover have "bumped a2 [''transaction_restore_failure''] a" using x(2) by simp
    ultimately have "bumped (activity s) ([''dex_log_match'', ''transaction_fetch''] @ [''transaction_restore_failure'']) (activity t)"
      using bumped_trans [OF b2] by blast
    then show ?thesis by (intro exI [of _ "[''dex_log_match'', ''transaction_fetch''] @ [''transaction_restore_failure'']"]) simp
  qed
  show ?thesis
  proof (cases "\<exists>tx. fetch_transaction replies = Inr (Some tx) \<and> tx \<noteq> []")
    case False
    then have "\<exists>err. (e, t) = count_restore_failure DISCOVERY_SOURCE_SOLANA err ?s2"
      using a2(2) unfolding stage2_def by (auto split: sum.splits option.splits if_splits)
    then show ?thesis using failed by blast
  next
    case True
    then obtain tx where tx: "fetch_transaction replies = Inr (Some tx)" "tx \<noteq> []" by blast
    have run: "(e, t) = followed_by (count_activity ''transaction_restore_success'' DISCOVERY_SOURCE_SOLANA ?s2) (\<lambda>s.
               followed_by (count_activity ''transaction_parsed'' DISCOVERY_SOURCE_SOLANA s) (\<lambda>s.
               report_buys stopping clk tx wallets DISCOVERY_SOURCE_SOLANA s))"
      using a2(2) tx by (simp add: stage2_def)
    obtain a3 where a3: "bumped (activity ?s2) [''transaction_restore_success''] a3"
        "(e, t) = followed_by (count_activity ''transaction_parsed'' DISCOVERY_SOURCE_SOLANA (?s2\<lparr>activity := a3\<rparr>)) (\<lambda>s.
               report_buys stopping clk tx wallets DISCOVERY_SOURCE_SOLANA s)"
      unfolding run by (rule followed_by_count [OF ok2 keys(3)])
    have ok3: "activity_ok (activity (?s2\<lparr>activity := a3\<rparr>))" using bumped_ok [OF a3(1)] by simp
    obtain a4 where a4: "bumped (activity (?s2\<lparr>activity := a3\<rparr>)) [''transaction_parsed''] a4"
        "(e, t) = report_buys stopping clk tx wallets DISCOVERY_SOURCE_SOLANA (?s2\<lparr>activity := a3\<rparr>\<lparr>activity := a4\<rparr>)"
      unfolding a3(2) by (rule followed_by_count [OF ok3 keys(4)])
    let ?s4 = "?s2\<lparr>activity := a3\<rparr>\<lparr>activity := a4\<rparr>"
    have ok4: "activity_ok (activity ?s4)" using bumped_ok [OF a4(1)] by simp
    have t: "t = snd (print_buys stopping clk tx wallets DISCOVERY_SOURCE_SOLANA ?s4)"
      using a4(2) by (simp add: report_buys_def split: prod.splits)
    obtain k where k: "bumped (activity ?s4) (replicate k ''smart_money_candidate'') (activity t)"
      using print_buys_candidates [OF ok4] unfolding t candidates_only_def by blast
    have "bumped a2 [''transaction_restore_success''] a3" "bumped a3 [''transaction_parsed''] a4"
        "bumped a4 (replicate k ''smart_money_candidate'') (activity t)" using a3(1) a4(1) k by simp_all
    note run4 = bumped_trans [OF bumped_trans [OF bumped_trans [OF b2 this(1)] this(2)] this(3)]
    show ?thesis by (intro exI conjI, rule run4) simp
  qed
qed

lemma count_key:
  "''notification'' \<in> set WALLET_WS_ACTIVITY_KEYS" "''unique_signature'' \<in> set WALLET_WS_ACTIVITY_KEYS"
  "''subscription_success'' \<in> set WALLET_WS_ACTIVITY_KEYS"
  by (simp_all add: WALLET_WS_ACTIVITY_KEYS_def)

lemma notification_funnel:
  fixes s :: "'m stream_state_scheme"
  assumes "activity_ok (activity s)" "standard_notification stopping clk wallets ev v s = (e, t)"
  shows "funnel (activity s) (activity t)"
proof (cases "\<not> truthy (dgetn v ''signature'') \<or> dgetn v ''err'' \<noteq> PNone")
  case True
  then show ?thesis using assms by (simp add: standard_notification_def funnel_refl)
next
  case go: False
  define sig where "sig = py_str (dgetn v ''signature'')"
  define fetch where "fetch = (\<lambda>s :: 'm stream_state_scheme. case first_dex DEX_PROGRAMS (py_or (dgetn v ''logs'') (PList [])) of
            Inl e \<Rightarrow> (Some (Raised e), s)
          | Inr None \<Rightarrow> (None, s)
          | Inr (Some _) \<Rightarrow> restore_transaction stopping clk wallets (event_replies ev) s)"
  define look where "look = (\<lambda>s :: 'm stream_state_scheme. let (new, w) = window_add sig (seen s); s = s\<lparr>seen := w\<rparr> in
        if \<not> new then (None, s) else followed_by (count_activity ''unique_signature'' DISCOVERY_SOURCE_SOLANA s) fetch)"
  have run: "(e, t) = followed_by (count_activity ''notification'' DISCOVERY_SOURCE_SOLANA s) look"
    using assms(2) go unfolding standard_notification_def look_def fetch_def sig_def by simp
  obtain a1 where a1: "bumped (activity s) [''notification''] a1" "(e, t) = look (s\<lparr>activity := a1\<rparr>)"
    unfolding run by (rule followed_by_count [OF assms(1) count_key(1)])
  obtain new w where w: "window_add sig (seen s) = (new, w)" by fastforce
  let ?s1 = "s\<lparr>activity := a1\<rparr>\<lparr>seen := w\<rparr>"
  show ?thesis
  proof (cases new)
    case False
    then have "activity t = a1" using a1(2) w by (simp add: look_def)
    then show ?thesis using a1(1) by (intro funnel_bumped [of _ "[''notification'']"]) simp_all
  next
    case True
    have run1: "(e, t) = followed_by (count_activity ''unique_signature'' DISCOVERY_SOURCE_SOLANA ?s1) fetch"
      using a1(2) w True by (simp add: look_def)
    have ok1: "activity_ok (activity ?s1)" using bumped_ok [OF a1(1)] by simp
    obtain a2 where a2: "bumped (activity ?s1) [''unique_signature''] a2" "(e, t) = fetch (?s1\<lparr>activity := a2\<rparr>)"
      unfolding run1 by (rule followed_by_count [OF ok1 count_key(2)])
    have "bumped a1 [''unique_signature''] a2" using a2(1) by simp
    note b2 = bumped_trans [OF a1(1) this]
    consider "activity t = a2" | "restore_transaction stopping clk wallets (event_replies ev) (?s1\<lparr>activity := a2\<rparr>) = (e, t)"
      using a2(2) unfolding fetch_def by (cases "first_dex DEX_PROGRAMS (py_or (dgetn v ''logs'') (PList []))") (auto split: option.splits)
    then show ?thesis
    proof cases
      case 1
      then show ?thesis using b2 by (intro funnel_bumped [of _ "[''notification''] @ [''unique_signature'']"]) simp_all
    next
      case 2
      have ok2: "activity_ok (activity (?s1\<lparr>activity := a2\<rparr>))" using bumped_ok [OF a2(1)] by simp
      obtain ns k where ns: "bumped (activity (?s1\<lparr>activity := a2\<rparr>)) ns (activity t)"
          "ns = [''dex_log_match'', ''transaction_fetch'', ''transaction_restore_failure'']
    \<or> ns = [''dex_log_match'', ''transaction_fetch'', ''transaction_restore_success'', ''transaction_parsed'']
           @ replicate k ''smart_money_candidate''"
        using restore_counts [OF ok2 2] by blast
      have "bumped a2 ns (activity t)" using ns(1) by simp
      note b3 = bumped_trans [OF b2 this]
      show ?thesis by (rule funnel_bumped [OF b3]; use ns(2) in \<open>auto\<close>)
    qed
  qed
qed

lemma subscribed_funnel:
  fixes s :: "'m stream_state_scheme"
  assumes "activity_ok (activity s)" "subscribed clk lk ws_name source s = (e, t)"
  shows "funnel (activity s) (activity t)"
proof -
  obtain a where a: "bumped (activity s) [''subscription_success''] a"
      "subscribed clk lk ws_name source s = (\<lambda>s :: 'm stream_state_scheme. write_metrics lk (subscribed_metrics clk (readings s) ws_name source)
         (s\<lparr>readings := readings s + 3\<rparr>)) (s\<lparr>activity := a\<rparr>)"
    unfolding subscribed_def by (rule followed_by_count [OF assms(1) count_key(3)])
  have "activity t = a" using assms(2) a(2) by (auto simp: write_metrics_def split: prod.splits sum.splits)
  then show ?thesis using a(1) by (intro funnel_bumped [of _ "[''subscription_success'']"]) simp_all
qed

lemma message_funnel:
  fixes s :: "'m stream_state_scheme"
  assumes ok: "activity_ok (activity s)" and run: "standard_message stopping clk wallets ev s = (e, t)"
  shows "funnel (activity s) (activity t)"
proof -
  consider "activity t = activity s" | k where "subscribed clk (event_lock ev) ''STANDARD'' DISCOVERY_SOURCE_SOLANA (s\<lparr>acknowledgements := k\<rparr>) = (e, t)"
    | v where "standard_notification stopping clk wallets ev v s = (e, t)"
    using run unfolding standard_message_def Let_def
    by (auto split: sum.splits prod.splits bool.splits if_splits)
  then show ?thesis
  proof cases
    case 1
    then show ?thesis using ok by (simp add: funnel_refl)
  next
    case 2
    have "activity_ok (activity (s\<lparr>acknowledgements := k\<rparr>))" using ok by simp
    from subscribed_funnel [OF this 2] show ?thesis by simp
  next
    case 3
    then show ?thesis by (rule notification_funnel [OF ok])
  qed
qed

text \<open>Over any messages of the public subscription every transaction that matched an exchange is fetched, every
  fetch is counted as a success or as a failure, and there are no more fetches than new signatures, nor more of those
  than notifications.\<close>

theorem restores_are_accounted:
  fixes s t :: "'m stream_state_scheme"
  assumes "process_events (standard_message stopping clk wallets) evs s = (e, t)" "activity_ok (activity s)"
  shows "let d = (\<lambda>name. cnt (activity t) name - cnt (activity s) name) in
      0 \<le> d ''dex_log_match'' \<and> d ''transaction_fetch'' = d ''dex_log_match''
      \<and> d ''transaction_fetch'' = d ''transaction_restore_success'' + d ''transaction_restore_failure''
      \<and> d ''dex_log_match'' \<le> d ''unique_signature'' \<and> d ''unique_signature'' \<le> d ''notification''"
proof -
  have "funnel (activity s) (activity t)" using assms
  proof (induction evs arbitrary: s)
    case Nil
    then show ?case by (simp add: funnel_refl)
  next
    case (Cons ev evs)
    obtain e1 u where u: "standard_message stopping clk wallets ev s = (e1, u)" by fastforce
    have f: "funnel (activity s) (activity u)" by (rule message_funnel [OF Cons.prems(2) u])
    show ?case
    proof (cases e1)
      case (Some x)
      then have "t = u" using Cons.prems(1) u by (simp add: followed_by_def)
      then show ?thesis using f by simp
    next
      case None
      then have "process_events (standard_message stopping clk wallets) evs u = (e, t)"
        using Cons.prems(1) u by (simp add: followed_by_def)
      moreover have "activity_ok (activity u)" using f by (simp add: funnel_def)
      ultimately have "funnel (activity u) (activity t)" by (rule Cons.IH)
      then show ?thesis by (rule funnel_trans [OF f])
    qed
  qed
  then show ?thesis by (simp add: funnel_def)
qed

definition example_stream :: stream_state where
  "example_stream = \<lparr>gate = empty_gate, activity = reset_wallet_ws_activity (Fin 0), registry = no_tasks, started = [],
     readings = 0, entry_cooldowns = [], shadow_cooldowns = [], last_shadow_capture = Fin 0, snapshots = [],
     poll_failures = 0, last_health_write = Fin 0, metrics_file = Missing, seen = new_window 10, acknowledgements = 0,
     subscriptions = []\<rparr>"

definition pump_event :: stream_event where
  "pump_event = \<lparr>parsed_message = Inr (PDict [(''params'', PDict [(''result'', PDict [(''value'', PDict
        [(''signature'', PStr ''sig''), (''logs'', PList [PStr ''6EF8rrecthR5Dkzon8Nwu78hRvfCKubJ14M5uBEwF6P''])])])])]),
     event_replies = (\<lambda>_. Inr PNone), event_lock = True\<rparr>"

theorem restores_are_accounted_witness:
  "\<exists>e t. process_events (standard_message False quiet_clock [''w'']) [pump_event, pump_event] example_stream = (e, t)
     \<and> cnt (activity t) ''transaction_fetch'' = 1 \<and> cnt (activity t) ''transaction_restore_success''
         + cnt (activity t) ''transaction_restore_failure'' - cnt (activity example_stream) ''transaction_restore_success''
         - cnt (activity example_stream) ''transaction_restore_failure''
       = cnt (activity t) ''transaction_fetch'' - cnt (activity example_stream) ''transaction_fetch''"
proof -
  let ?r = "process_events (standard_message False quiet_clock [''w'']) [pump_event, pump_event] example_stream"
  have r: "?r = (fst ?r, snd ?r)" by simp
  have c: "cnt (activity (snd ?r)) ''transaction_fetch'' = 1" by code_simp
  have "activity_ok (activity example_stream)" by (simp add: example_stream_def reset_activity_ok)
  from restores_are_accounted [OF r this] c show ?thesis by (intro exI [of _ "fst ?r"] exI [of _ "snd ?r"]) (simp add: Let_def)
qed

section \<open>Reconnecting\<close>

text \<open>What an ended turn does to the delay: it sleeps for the delay, and doubles it up to 300 seconds; a connection
  that lasted a minute, and an end that is no failure, start again from three seconds.\<close>

lemma followed_by_keeps: "P (snd r) \<Longrightarrow> (\<And>s. P s \<Longrightarrow> P (snd (k s))) \<Longrightarrow> P (snd (followed_by r k))"
  by (auto simp: followed_by_def split: prod.splits option.splits)

lemma write_metrics_keeps [simp]:
  fixes s :: loop_state
  shows "delay (snd (write_metrics lk values s)) = delay s"
    "ws_route_state (snd (write_metrics lk values s)) = ws_route_state s"
    "readings (snd (write_metrics lk values s)) = readings s"
  by (auto simp: write_metrics_def split: prod.splits sum.splits)

lemma count_activity_keeps [simp]:
  fixes s :: loop_state
  shows "delay (snd (count_activity name source s)) = delay s"
    "ws_route_state (snd (count_activity name source s)) = ws_route_state s"
    "readings (snd (count_activity name source s)) = readings s"
  by (auto simp: count_activity_def split: prod.splits sum.splits)

lemma note_ws_failure_keeps [simp]:
  "delay (snd (note_ws_failure lk cat now s)) = delay s"
  "ws_route_state (snd (note_ws_failure lk cat now s)) = ws_route_state s"
  by (auto simp: note_ws_failure_def split: prod.splits sum.splits)

text \<open>The bookkeeping of a lost connection, before the loop sleeps.\<close>

definition lost_noted :: "monitor_clock \<Rightarrow> turn_io \<Rightarrow> stream_error \<Rightarrow> loop_state \<Rightarrow> loop_state outcome" where
  "lost_noted clk io err s =
     followed_by (case err of SubscriptionRejected _ \<Rightarrow> count_activity ''subscription_failure'' (source_of (uses_standard (ws_route_state s))) s
                  | _ \<Rightarrow> (None, s)) (\<lambda>u.
       let u = u\<lparr>ws_route_state := record_failure (monotonic clk (readings u)) (ws_route_state u), readings := readings u + 1\<rparr> in
       followed_by (note_ws_failure (ending_lock io) (canonical_websocket_failure_reason (as_ws_error err)) (epoch_time clk (readings u)) (u\<lparr>readings := readings u + 1\<rparr>)) (\<lambda>u.
       if \<not> uses_standard (ws_route_state s) \<and> uses_standard (ws_route_state u)
       then write_metrics (fallback_lock io) (fallback_metrics clk (canonical_websocket_failure_reason (as_ws_error err)) u) (u\<lparr>readings := readings u + 1\<rparr>) else (None, u)))"

lemma connection_lost_noted:
  "connection_lost clk io c err s = (case lost_noted clk io err s of (Some e, s) \<Rightarrow> (Some e, 0, s) | (None, s) \<Rightarrow> back_off clk c s)"
  by (simp add: connection_lost_def lost_noted_def Let_def)

lemma counted_keeps:
  fixes s :: loop_state
  shows "delay (snd (case err of SubscriptionRejected x \<Rightarrow> count_activity name source s | _ \<Rightarrow> (None, s))) = delay s"
    "ws_route_state (snd (case err of SubscriptionRejected x \<Rightarrow> count_activity name source s | _ \<Rightarrow> (None, s))) = ws_route_state s"
    "readings (snd (case err of SubscriptionRejected x \<Rightarrow> count_activity name source s | _ \<Rightarrow> (None, s))) = readings s"
  by (auto split: stream_error.split)

lemma lost_noted_delay: "delay (snd (lost_noted clk io err s)) = delay s"
  unfolding lost_noted_def Let_def
  by (rule followed_by_keeps [where P = "\<lambda>u. delay u = delay s"], rule counted_keeps,
    rule followed_by_keeps [where P = "\<lambda>u. delay u = delay s"]) (simp_all split: if_split)

text \<open>The route after a lost connection.\<close>

lemma lost_noted_route:
  "ws_route_state (snd (lost_noted clk io err s)) \<in> {ws_route_state s, record_failure (monotonic clk (readings s)) (ws_route_state s)}"
proof -
  define r where "r = (case err of SubscriptionRejected x \<Rightarrow> count_activity ''subscription_failure'' (source_of (uses_standard (ws_route_state s))) s | _ \<Rightarrow> (None, s))"
  obtain e u where u: "r = (e, u)" by fastforce
  have k: "ws_route_state u = ws_route_state s" "readings u = readings s"
    using counted_keeps(2,3) [where err = err and name = "''subscription_failure''" and source = "source_of (uses_standard (ws_route_state s))" and s = s, folded r_def] u by simp_all
  show ?thesis
  proof (cases e)
    case (Some x)
    then show ?thesis using u k by (simp add: lost_noted_def followed_by_def r_def [symmetric])
  next
    case None
    let ?u = "u\<lparr>ws_route_state := record_failure (monotonic clk (readings u)) (ws_route_state u), readings := readings u + 1\<rparr>"
    let ?k = "\<lambda>u. if \<not> uses_standard (ws_route_state s) \<and> uses_standard (ws_route_state u)
       then write_metrics (fallback_lock io) (fallback_metrics clk (canonical_websocket_failure_reason (as_ws_error err)) u) (u\<lparr>readings := readings u + 1\<rparr>) else (None, u)"
    have l: "lost_noted clk io err s = followed_by (note_ws_failure (ending_lock io) (canonical_websocket_failure_reason (as_ws_error err))
        (epoch_time clk (readings ?u)) (?u\<lparr>readings := readings ?u + 1\<rparr>)) ?k"
      using u None unfolding lost_noted_def r_def [symmetric] by (simp add: followed_by_def)
    have "ws_route_state (snd (lost_noted clk io err s)) = record_failure (monotonic clk (readings s)) (ws_route_state s)"
      unfolding l by (rule followed_by_keeps [where P = "\<lambda>u. ws_route_state u = record_failure (monotonic clk (readings s)) (ws_route_state s)"])
        (simp_all add: k)
    then show ?thesis by simp
  qed
qed

lemma connection_lost_delay:
  assumes "connection_lost clk io c err s = (escaped, d, t)"
  shows "escaped \<noteq> None \<and> d = 0 \<and> delay t = delay s
    \<or> escaped = None \<and> d = (if f64_le (Fin 60) (f64_sub (monotonic clk (readings t - 1)) c) then 3 else delay s) \<and> delay t = min (d * 2) 300"
proof -
  obtain e u where u: "lost_noted clk io err s = (e, u)" by fastforce
  have "delay u = delay s" using lost_noted_delay [of clk io err s] u by simp
  then show ?thesis using assms u unfolding connection_lost_noted by (cases e) (auto simp: back_off_def Let_def)
qed

lemma end_of_turn_delay:
  assumes "end_of_turn clk io c err s = (escaped, d, t)" "3 \<le> delay s" "delay s \<le> 300"
  shows "3 \<le> delay t \<and> delay t \<le> 300 \<and> (d = 0 \<or> 3 \<le> d \<and> d \<le> 300)
    \<and> (d \<noteq> 0 \<longrightarrow> delay t = min (d * 2) 300 \<and> (\<not> f64_le (Fin 60) (f64_sub (monotonic clk (readings t - 1)) c) \<longrightarrow> d = delay s))
    \<and> (err \<in> {WalletListChanged, SubscriptionRefresh, EnhancedSubscriptionUnavailable} \<longrightarrow> d = 0)"
proof (cases "err \<in> {WalletListChanged, SubscriptionRefresh, EnhancedSubscriptionUnavailable}")
  case True
  have "d = 0 \<and> (delay t = 3 \<or> delay t = delay s)"
  proof -
    consider "err = WalletListChanged" | "err = SubscriptionRefresh" | "err = EnhancedSubscriptionUnavailable" using True by blast
    then show ?thesis
    proof cases
      case 1
      then show ?thesis using assms(1) by (auto simp: end_of_turn_def)
    next
      case 2
      let ?r = "write_metrics (ending_lock io) [(''wallet_ws_state'', PStr ''REFRESHING''),
             (''wallet_ws_state_changed_at'', PFloat (epoch_time clk (readings s)))] (s\<lparr>readings := readings s + 1\<rparr>)"
      obtain e u where u: "?r = (e, u)" by fastforce
      have "delay (snd ?r) = delay s" by simp
      then have "delay u = delay s" unfolding u by simp
      then show ?thesis using assms(1) 2 u by (cases e) (auto simp: end_of_turn_def refreshed_def)
    next
      case 3
      let ?r = "count_activity ''subscription_failure'' DISCOVERY_SOURCE_HELIUS s"
      obtain e u where u: "?r = (e, u)" by fastforce
      let ?u = "u\<lparr>ws_route_state := activate_standard (monotonic clk (readings u)) (ws_route_state u), readings := readings u + 1\<rparr>"
      let ?w = "write_metrics (fallback_lock io) (fallback_metrics clk ''WS_ENHANCED_NOT_AVAILABLE'' ?u) (?u\<lparr>readings := readings ?u + 1\<rparr>)"
      obtain e2 w where w: "?w = (e2, w)" by fastforce
      have "delay (snd ?r) = delay s" "delay (snd ?w) = delay u" by simp_all
      then have "delay u = delay s" "delay w = delay u" unfolding u w by simp_all
      then show ?thesis using assms(1) 3 u w by (cases e; cases e2) (auto simp: end_of_turn_def fell_back_def Let_def)
    qed
  qed
  then show ?thesis using assms(2,3) by auto
next
  case False
  then have "connection_lost clk io c err s = (escaped, d, t)" using assms(1) by (auto simp: end_of_turn_def split: stream_error.splits)
  from connection_lost_delay [OF this] show ?thesis using False assms(2,3) by (auto split: if_splits)
qed

text \<open>The messages of a connection leave the loop's own state alone.\<close>

definition loop_part :: "ws_route \<Rightarrow> int \<Rightarrow> loop_state \<Rightarrow> bool" where
  "loop_part r d s \<longleftrightarrow> ws_route_state s = r \<and> delay s = d"

lemma loop_part_updates [simp]:
  "loop_part r d (s\<lparr>activity := a\<rparr>) = loop_part r d s" "loop_part r d (s\<lparr>seen := w\<rparr>) = loop_part r d s"
  "loop_part r d (s\<lparr>readings := n\<rparr>) = loop_part r d s" "loop_part r d (s\<lparr>acknowledgements := n\<rparr>) = loop_part r d s"
  "loop_part r d (s\<lparr>subscriptions := x\<rparr>) = loop_part r d s" "loop_part r d (s\<lparr>metrics_file := f\<rparr>) = loop_part r d s"
  by (simp_all add: loop_part_def)

lemma loop_part_steps [simp]:
  "loop_part r d (snd (count_activity name source s)) = loop_part r d s"
  "loop_part r d (snd (count_restore_failure source err s)) = loop_part r d s"
  "loop_part r d (snd (write_metrics lk values s)) = loop_part r d s"
  by (auto simp: count_activity_def count_restore_failure_def write_metrics_def split: sum.splits prod.splits)

lemma report_loop_part: "loop_part r d s \<Longrightarrow> loop_part r d (snd (report_purchase stopping clk sig source wallet paid x s))"
  by (auto simp: report_purchase_def schedule_paper_signal_def observe_task_def loop_part_def Let_def split: prod.splits sum.splits)

lemma report_buys_loop_part: "loop_part r d s \<Longrightarrow> loop_part r d (snd (report_buys stopping clk tx wallets source s))"
  using print_buys_invariant [where P = "loop_part r d", OF _ report_loop_part] by (simp add: report_buys_def split: prod.split) (metis snd_conv)

lemmas followed_loop_part = followed_by_keeps [where P = "loop_part r d" for r d]

lemma subscribed_loop_part: "loop_part r d s \<Longrightarrow> loop_part r d (snd (subscribed clk lk ws_name source s))"
  unfolding subscribed_def by (rule followed_loop_part) simp_all

lemma restore_loop_part: "loop_part r d s \<Longrightarrow> loop_part r d (snd (restore_transaction stopping clk wallets replies s))"
  unfolding restore_transaction_def
  by (intro followed_loop_part) (auto split: sum.split option.split intro!: followed_loop_part report_buys_loop_part)

lemma standard_loop_part: "loop_part r d s \<Longrightarrow> loop_part r d (snd (standard_message stopping clk wallets ev s))"
proof -
  assume s: "loop_part r d s"
  have n: "loop_part r d (snd (standard_notification stopping clk wallets ev v s))" for v
    unfolding standard_notification_def using s
    by (auto split: sum.split option.split prod.split simp: Let_def intro!: followed_loop_part restore_loop_part)
  show ?thesis unfolding standard_message_def Let_def
    using s n by (auto split: sum.split prod.split bool.split intro!: subscribed_loop_part)
qed

lemma enhanced_loop_part: "loop_part r d s \<Longrightarrow> loop_part r d (snd (enhanced_message stopping clk wallets ev s))"
proof -
  assume s: "loop_part r d s"
  have a: "loop_part r d (snd (enhanced_acknowledgement clk lk message s))" for lk message
    unfolding enhanced_acknowledgement_def Let_def using s by (auto split: sum.split prod.split intro!: subscribed_loop_part)
  have n: "loop_part r d (snd (followed_by (count_activity ''notification'' DISCOVERY_SOURCE_HELIUS s) (\<lambda>s.
               followed_by (count_activity ''transaction_parsed'' DISCOVERY_SOURCE_HELIUS s) (\<lambda>s.
               report_buys stopping clk tx wallets DISCOVERY_SOURCE_HELIUS s))))" for tx
    using s by (intro followed_loop_part report_buys_loop_part) simp_all
  show ?thesis unfolding enhanced_message_def
    using s a n by (auto split: sum.split prod.split bool.split option.split py.split)
qed

lemma stream_loop_part: "loop_part r d s \<Longrightarrow> loop_part r d (snd (stream_once standard stopping clk wallets io s))"
proof -
  assume s: "loop_part r d s"
  have ev: "(\<And>ev s. loop_part r d s \<Longrightarrow> loop_part r d (snd (step ev s))) \<Longrightarrow> loop_part r d s \<Longrightarrow> loop_part r d (snd (process_events step evs s))"
    for step evs s by (induction evs arbitrary: s) (auto intro: followed_loop_part)
  have op: "loop_part r d (snd (open_stream st clk lk s))" for st lk
    unfolding open_stream_def Let_def using s by (intro followed_loop_part) simp_all
  show ?thesis unfolding stream_once_def
    using s by (auto split: option.split intro!: followed_loop_part op ev standard_loop_part enhanced_loop_part)
qed

lemma connection_turn_keeps:
  assumes "connection_turn valid stopping clk io s = (err, t)"
  shows "delay t = delay s \<and> ws_route_state t = ws_route_state s"
proof -
  have s: "loop_part (ws_route_state s) (delay s) s" by (simp add: loop_part_def)
  have "loop_part (ws_route_state s) (delay s) (snd (connection_turn valid stopping clk io s))"
  proof (cases "load_wallets valid (turn_wallets io)")
    case (Inl e)
    then show ?thesis using s by (simp add: connection_turn_def)
  next
    case (Inr wallets)
    define w where "w = write_metrics (connecting_lock io)
                       ([(''wallet_ws_state'', PStr ''CONNECTING''), (''wallet_ws_state_changed_at'', PFloat (epoch_time clk (readings s)))]
                        @ endpoint_metrics (uses_standard (ws_route_state s))) (s\<lparr>readings := readings s + 1\<rparr>)"
    obtain e u where u: "w = (e, u)" by fastforce
    have "loop_part (ws_route_state s) (delay s) (snd w)" unfolding w_def using s by simp
    then have lu: "loop_part (ws_route_state s) (delay s) u" unfolding u by simp
    show ?thesis
    proof (cases "stat_failure io")
      case (Some x)
      then show ?thesis using s Inr by (simp add: connection_turn_def)
    next
      case None
      then show ?thesis using lu u Inr stream_loop_part [OF lu]
        unfolding connection_turn_def Let_def w_def [symmetric]
        by (cases e) (auto split: prod.splits, metis snd_conv)
    qed
  qed
  then show ?thesis using assms by (simp add: loop_part_def)
qed

lemma loop_turn_delay:
  assumes "loop_turn valid stopping clk io s = (r, escaped, t)" "3 \<le> delay s" "delay s \<le> 300"
  shows "3 \<le> delay t \<and> delay t \<le> 300 \<and> (slept r = 0 \<or> 3 \<le> slept r \<and> slept r \<le> 300)
    \<and> (slept r \<noteq> 0 \<longrightarrow> delay t = min (slept r * 2) 300
         \<and> (\<not> f64_le (Fin 60) (f64_sub (left_at r) (started_at r)) \<longrightarrow> slept r = delay s))
    \<and> (ended_by r \<in> {WalletListChanged, SubscriptionRefresh, EnhancedSubscriptionUnavailable} \<longrightarrow> slept r = 0)"
proof -
  let ?s = "s\<lparr>readings := readings s + 1\<rparr>"
  obtain err u where u: "connection_turn valid stopping clk io ?s = (err, u)" by fastforce
  have d: "delay u = delay s" using connection_turn_keeps [OF u] by simp
  obtain x y z where e: "end_of_turn clk io (monotonic clk (readings s)) err u = (x, y, z)" by (cases "end_of_turn clk io (monotonic clk (readings s)) err u")
  have r: "slept r = y" "ended_by r = err" "started_at r = monotonic clk (readings s)" "left_at r = monotonic clk (readings z - 1)" "t = z"
    using assms(1) u e by (auto simp: loop_turn_def Let_def)
  show ?thesis unfolding r using end_of_turn_delay [OF e] d assms(2,3) by simp
qed

text \<open>C37: the loop of connections sleeps between 3 and 300 seconds before it connects again, and not at all after a
  changed wallet list, a due refresh or the switch to the public subscription; while its connections fail within a
  minute, the sleeps are 3 seconds doubled each time, up to 300.\<close>

theorem reconnection_backs_off:
  assumes "run_forever valid stopping clk ios s = (reports, e, t)" "delay s = 3"
  shows "(\<forall>r \<in> set reports. (slept r = 0 \<or> 3 \<le> slept r \<and> slept r \<le> 300)
        \<and> (ended_by r \<in> {WalletListChanged, SubscriptionRefresh, EnhancedSubscriptionUnavailable} \<longrightarrow> slept r = 0))
    \<and> (\<forall>i < length reports. (\<forall>j \<le> i. slept (reports ! j) \<noteq> 0
          \<and> \<not> f64_le (Fin 60) (f64_sub (left_at (reports ! j)) (started_at (reports ! j))))
        \<longrightarrow> slept (reports ! i) = min (3 * 2 ^ i) 300)"
proof -
  have main: "3 \<le> delay s \<Longrightarrow> delay s \<le> 300 \<Longrightarrow>
    (\<forall>r \<in> set reports. (slept r = 0 \<or> 3 \<le> slept r \<and> slept r \<le> 300)
        \<and> (ended_by r \<in> {WalletListChanged, SubscriptionRefresh, EnhancedSubscriptionUnavailable} \<longrightarrow> slept r = 0))
    \<and> (\<forall>i < length reports. (\<forall>j \<le> i. slept (reports ! j) \<noteq> 0
          \<and> \<not> f64_le (Fin 60) (f64_sub (left_at (reports ! j)) (started_at (reports ! j))))
        \<longrightarrow> slept (reports ! i) = min (delay s * 2 ^ i) 300)"
    using assms(1)
  proof (induction ios arbitrary: s reports)
    case (Cons io ios)
    obtain r x u where r: "loop_turn valid stopping clk io s = (r, x, u)" by (cases "loop_turn valid stopping clk io s")
    note d = loop_turn_delay [OF r Cons.prems(1,2)]
    show ?case
    proof (cases x)
      case (Some y)
      then have "reports = [r]" using Cons.prems(3) r by simp
      then show ?thesis using d by auto
    next
      case None
      then obtain rest where rest: "run_forever valid stopping clk ios u = (rest, e, t)" "reports = r # rest"
        using Cons.prems(3) r by (auto split: prod.splits)
      have ih: "(\<forall>r \<in> set rest. (slept r = 0 \<or> 3 \<le> slept r \<and> slept r \<le> 300)
        \<and> (ended_by r \<in> {WalletListChanged, SubscriptionRefresh, EnhancedSubscriptionUnavailable} \<longrightarrow> slept r = 0))"
        "\<And>i. i < length rest \<Longrightarrow> \<forall>j \<le> i. slept (rest ! j) \<noteq> 0
          \<and> \<not> f64_le (Fin 60) (f64_sub (left_at (rest ! j)) (started_at (rest ! j))) \<Longrightarrow> slept (rest ! i) = min (delay u * 2 ^ i) 300"
        using Cons.IH [OF _ _ rest(1)] d by blast+
      have "slept (reports ! i) = min (delay s * 2 ^ i) 300"
        if i: "i < length reports" and all: "\<forall>j \<le> i. slept (reports ! j) \<noteq> 0
          \<and> \<not> f64_le (Fin 60) (f64_sub (left_at (reports ! j)) (started_at (reports ! j)))" for i
      proof (cases i)
        case 0
        then show ?thesis using all d Cons.prems(2) rest(2) by auto
      next
        case (Suc k)
        have first: "slept r = delay s" "delay u = min (delay s * 2) 300" using all [rule_format, of 0] d rest(2) by auto
        have "\<forall>j \<le> k. slept (rest ! j) \<noteq> 0 \<and> \<not> f64_le (Fin 60) (f64_sub (left_at (rest ! j)) (started_at (rest ! j)))"
        proof (intro allI impI)
          fix j assume "j \<le> k"
          then show "slept (rest ! j) \<noteq> 0 \<and> \<not> f64_le (Fin 60) (f64_sub (left_at (rest ! j)) (started_at (rest ! j)))"
            using all [rule_format, of "Suc j"] Suc rest(2) by simp
        qed
        then have k: "slept (rest ! k) = min (delay u * 2 ^ k) 300" using ih(2) i Suc rest(2) by simp
        have "min (min (delay s * 2) 300 * 2 ^ k) 300 = min (delay s * 2 ^ Suc k) (300 :: int)"
        proof (cases "delay s * 2 \<le> 300")
          case False
          have "(1 :: int) \<le> 2 ^ k" by simp
          then have low: "300 \<le> 300 * (2 :: int) ^ k" by simp
          have "300 * 2 ^ k \<le> delay s * 2 * (2 :: int) ^ k" by (rule mult_right_mono) (use False in simp_all)
          with low have "300 \<le> delay s * (2 * 2 ^ k)" unfolding mult.assoc by (rule order_trans)
          then show ?thesis using False by simp
        qed (simp add: mult.assoc)
        then show ?thesis using k first Suc rest(2) by simp
      qed
      then show ?thesis using ih(1) d rest(2) by auto
    qed
  qed simp
  show ?thesis by (rule main [unfolded assms(2)]) simp_all
qed

definition start_loop :: loop_state where
  "start_loop = \<lparr>gate = empty_gate, activity = reset_wallet_ws_activity (Fin 0), registry = no_tasks, started = [],
     readings = 0, entry_cooldowns = [], shadow_cooldowns = [], last_shadow_capture = Fin 0, snapshots = [],
     poll_failures = 0, last_health_write = Fin 0, metrics_file = Content (PDict []), seen = new_window 10, acknowledgements = 0,
     subscriptions = [], ws_route_state = \<lparr>route_mode = HELIUS_ENHANCED, next_helius_probe_at = Fin 0\<rparr>, delay = 3\<rparr>"

definition failing_turn :: turn_io where
  "failing_turn = \<lparr>turn_wallets = Missing, stat_failure = None, connect_failure = None, stream_events = [], stream_failure = None,
     stream_done = True, sides_before = [], sides_after = [], connecting_lock = True, connected_lock = True, ending_lock = True,
     fallback_lock = True\<rparr>"

theorem reconnection_backs_off_witness:
  "\<exists>reports e t. run_forever (\<lambda>_. True) False quiet_clock [failing_turn, failing_turn] start_loop = (reports, e, t)
     \<and> length reports = 2 \<and> (\<forall>r \<in> set reports. slept r = 0 \<or> 3 \<le> slept r \<and> slept r \<le> 300)"
proof -
  let ?r = "run_forever (\<lambda>_. True) False quiet_clock [failing_turn, failing_turn] start_loop"
  have r: "?r = (fst ?r, fst (snd ?r), snd (snd ?r))" by simp
  have d: "delay start_loop = 3" by (simp add: start_loop_def)
  have n: "length (fst ?r) = 2" by code_simp
  show ?thesis
    using reconnection_backs_off [OF r d, THEN conjunct1] n by (intro exI [of _ "fst ?r"] exI [of _ "fst (snd ?r)"] exI [of _ "snd (snd ?r)"]) auto
qed

section \<open>The public route\<close>

text \<open>An outcome of the public subscription is never the exception of the enhanced one.\<close>

definition available :: "'s outcome \<Rightarrow> bool" where
  "available r \<longleftrightarrow> fst r \<noteq> Some EnhancedSubscriptionUnavailable"

lemma available_done [simp]: "available (None, s)" "available (Some (Raised e), s)"
  by (simp_all add: available_def)

lemma available_steps [simp]:
  "available (count_activity name source s)" "available (count_restore_failure source err s)"
  "available (write_metrics lk vs u)" "available (report_buys stopping clk tx wallets source s)"
  by (auto simp: available_def count_activity_def count_restore_failure_def write_metrics_def report_buys_def split: sum.split prod.split)

lemma available_followed: "available r \<Longrightarrow> (\<And>s. available (k s)) \<Longrightarrow> available (followed_by r k)"
  by (auto simp: available_def followed_by_def split: prod.split option.split)

lemma available_restore: "available (restore_transaction stopping clk wallets replies s)"
  unfolding restore_transaction_def
  by (intro available_followed) (auto split: sum.split option.split intro!: available_followed)

lemma standard_available: "available (standard_message stopping clk wallets ev s)"
proof -
  have n: "available (standard_notification stopping clk wallets ev v s)" for v
    unfolding standard_notification_def
    by (auto simp: Let_def split: sum.split option.split prod.split intro!: available_followed available_restore)
  have su: "available (subscribed clk lk ws_name source u)" for lk ws_name source and u :: "'a stream_state_scheme"
    unfolding subscribed_def by (intro available_followed) simp_all
  have rej: "available (Some (rejection m), u)" for m and u :: "'a stream_state_scheme"
    by (simp add: rejection_def available_def split: sum.split)
  show ?thesis unfolding standard_message_def Let_def by (auto split: sum.split prod.split bool.split simp: n su rej)
qed

lemma standard_turn_not_unavailable:
  assumes "connection_turn valid stopping clk io s = (err, t)" "uses_standard (ws_route_state s)"
  shows "err \<noteq> EnhancedSubscriptionUnavailable"
proof -
  have ev: "available (process_events (standard_message stopping clk wallets) evs u)" for wallets evs and u :: loop_state
    by (induction evs arbitrary: u) (auto intro: available_followed standard_available)
  have st: "available (stream_once True stopping clk wallets io u)" for wallets and u :: loop_state
  proof -
    have "available (map_option SocketError x, v)" for x and v :: loop_state by (cases x) (simp_all add: available_def)
    moreover have "available (Some (SocketError x), v)" for x and v :: loop_state by (simp add: available_def)
    moreover have "available (open_stream True clk (connected_lock io) u)"
      unfolding open_stream_def Let_def by (intro available_followed) simp_all
    ultimately show ?thesis using ev by (auto simp: stream_once_def split: option.split intro!: available_followed)
  qed
  have side: "side_error x \<noteq> EnhancedSubscriptionUnavailable" for x by (cases x) simp_all
  have tr: "turn_result io e \<noteq> EnhancedSubscriptionUnavailable" if "e \<noteq> Some EnhancedSubscriptionUnavailable" for e
  proof -
    have "Some EnhancedSubscriptionUnavailable \<notin> set (map (Some \<circ> side_error) (sides_before io)
        @ (if e \<noteq> None \<or> stream_done io then [e] else []) @ map (Some \<circ> side_error) (sides_after io))" (is "_ \<notin> set ?rs")
      using that side by auto (metis side)+
    then have "EnhancedSubscriptionUnavailable \<notin> set (List.map_filter id ?rs)" by (auto simp: in_map_filter)
    then show ?thesis by (auto simp: turn_result_def Let_def split: list.split)
  qed
  show ?thesis
  proof (cases "load_wallets valid (turn_wallets io)")
    case (Inl e)
    then show ?thesis using assms(1) by (auto simp: connection_turn_def)
  next
    case (Inr wallets)
    show ?thesis
    proof (cases "stat_failure io")
      case (Some e)
      then show ?thesis using assms(1) Inr by (auto simp: connection_turn_def)
    next
      case None
      obtain e u where u: "write_metrics (connecting_lock io)
                       ([(''wallet_ws_state'', PStr ''CONNECTING''), (''wallet_ws_state_changed_at'', PFloat (epoch_time clk (readings s)))]
                        @ endpoint_metrics True) (s\<lparr>readings := readings s + 1\<rparr>) = (e, u)" by fastforce
      have "available (e, u)" unfolding u [symmetric] by simp
      moreover obtain e2 u2 where u2: "stream_once True stopping clk wallets io u = (e2, u2)" by fastforce
      moreover have "e2 \<noteq> Some EnhancedSubscriptionUnavailable" using st [of wallets u] u2 by (simp add: available_def)
      ultimately show ?thesis using assms Inr None u tr by (cases e) (auto simp: connection_turn_def Let_def available_def)
    qed
  qed
qed

lemma standard_end_keeps_route:
  assumes "end_of_turn clk io c err s = (escaped, d, t)" "uses_standard (ws_route_state s)"
    "\<And>n. \<not> f64_le (next_helius_probe_at (ws_route_state s)) (monotonic clk n)" "err \<noteq> EnhancedSubscriptionUnavailable"
  shows "ws_route_state t = ws_route_state s"
proof -
  have same: "record_failure (monotonic clk n) (ws_route_state s) = ws_route_state s"
    "refresh_route (monotonic clk n) (ws_route_state s) = ws_route_state s" for n
    using assms(2,3) by (simp_all add: record_failure_def refresh_route_def)
  consider "err = WalletListChanged" | "err = SubscriptionRefresh" | "connection_lost clk io c err s = (escaped, d, t)"
    using assms(1,4) by (cases err) (auto simp: end_of_turn_def)
  then show ?thesis
  proof cases
    case 1
    then show ?thesis using assms(1) by (auto simp: end_of_turn_def)
  next
    case 2
    let ?r = "write_metrics (ending_lock io) [(''wallet_ws_state'', PStr ''REFRESHING''),
             (''wallet_ws_state_changed_at'', PFloat (epoch_time clk (readings s)))] (s\<lparr>readings := readings s + 1\<rparr>)"
    obtain e u where u: "?r = (e, u)" by fastforce
    have "ws_route_state (snd ?r) = ws_route_state s" by simp
    then have "ws_route_state u = ws_route_state s" unfolding u by simp
    then show ?thesis using assms(1) 2 u same(2) by (cases e) (auto simp: end_of_turn_def refreshed_def)
  next
    case 3
    obtain e u where u: "lost_noted clk io err s = (e, u)" by fastforce
    have "ws_route_state u = ws_route_state s" using lost_noted_route [of clk io err s] u same(1) by simp
    then show ?thesis using 3 u unfolding connection_lost_noted by (cases e) (auto simp: back_off_def Let_def)
  qed
qed

lemma public_run:
  assumes "run_forever valid stopping clk ios s = (reports, e, t)" "uses_standard (ws_route_state s)"
    "\<And>n. \<not> f64_le (next_helius_probe_at (ws_route_state s)) (monotonic clk n)"
  shows "\<forall>r \<in> set reports. used_standard r"
  using assms
proof (induction ios arbitrary: s reports)
  case (Cons io ios)
  obtain r x u where r: "loop_turn valid stopping clk io s = (r, x, u)" by (cases "loop_turn valid stopping clk io s")
  have used: "used_standard r" using r Cons.prems(2) by (auto simp: loop_turn_def Let_def split: prod.splits)
  show ?case
  proof (cases x)
    case (Some y)
    then have "reports = [r]" using Cons.prems(1) r by auto
    then show ?thesis using used by simp
  next
    case None
    then obtain rest where rest: "run_forever valid stopping clk ios u = (rest, e, t)" "reports = r # rest"
      using Cons.prems(1) r by (auto split: prod.splits)
    let ?s = "s\<lparr>readings := readings s + 1\<rparr>"
    obtain err v where v: "connection_turn valid stopping clk io ?s = (err, v)" by fastforce
    obtain y z w where w: "end_of_turn clk io (monotonic clk (readings s)) err v = (y, z, w)"
      by (cases "end_of_turn clk io (monotonic clk (readings s)) err v")
    have wu: "w = u" using r v w by (simp add: loop_turn_def Let_def)
    have rv: "ws_route_state v = ws_route_state s" using connection_turn_keeps [OF v] by simp
    have "err \<noteq> EnhancedSubscriptionUnavailable" using standard_turn_not_unavailable [OF v] Cons.prems(2) by simp
    then have "ws_route_state u = ws_route_state s"
      using standard_end_keeps_route [OF w] rv Cons.prems(2,3) wu by simp
    then have "\<forall>r \<in> set rest. used_standard r" using Cons.IH [OF rest(1)] Cons.prems(2,3) by simp
    then show ?thesis using rest(2) used by simp
  qed
qed simp

lemma leaves_enhanced:
  assumes "loop_turn valid stopping clk io s = (r, x, u)" "\<not> uses_standard (ws_route_state s)" "uses_standard (ws_route_state u)"
  shows "\<exists>n. next_helius_probe_at (ws_route_state u) = f64_add (monotonic clk n) (Fin 1800)"
proof -
  let ?s = "s\<lparr>readings := readings s + 1\<rparr>"
  obtain err v where v: "connection_turn valid stopping clk io ?s = (err, v)" by fastforce
  obtain y z w where w: "end_of_turn clk io (monotonic clk (readings s)) err v = (y, z, w)"
    by (cases "end_of_turn clk io (monotonic clk (readings s)) err v")
  have wu: "w = u" using assms(1) v w by (simp add: loop_turn_def Let_def)
  have rv: "ws_route_state v = ws_route_state s" using connection_turn_keeps [OF v] by simp
  have probe: "HELIUS_RECOVERY_PROBE_SECONDS = Fin 1800" using fl_num [of 1800] by (simp add: HELIUS_RECOVERY_PROBE_SECONDS_def float_lit_def)
  have act: "next_helius_probe_at (activate_standard now q) = f64_add now (Fin 1800)" for now q
    by (simp add: activate_standard_def probe)
  have nv: "\<not> uses_standard (ws_route_state v)" using rv assms(2) by simp
  consider "err = WalletListChanged" | "err = SubscriptionRefresh" | "err = EnhancedSubscriptionUnavailable"
    | "connection_lost clk io (monotonic clk (readings s)) err v = (y, z, u)"
    using w wu by (cases err) (auto simp: end_of_turn_def)
  then show ?thesis
  proof cases
    case 1
    then show ?thesis using w wu nv assms(3) by (auto simp: end_of_turn_def)
  next
    case 2
    let ?r = "write_metrics (ending_lock io) [(''wallet_ws_state'', PStr ''REFRESHING''),
             (''wallet_ws_state_changed_at'', PFloat (epoch_time clk (readings v)))] (v\<lparr>readings := readings v + 1\<rparr>)"
    obtain e q where q: "?r = (e, q)" by fastforce
    have "ws_route_state (snd ?r) = ws_route_state v" by simp
    then have "ws_route_state q = ws_route_state v" unfolding q by simp
    then have "ws_route_state u = ws_route_state v"
      using w wu 2 q nv by (cases e) (auto simp: end_of_turn_def refreshed_def refresh_route_def)
    then show ?thesis using nv assms(3) by simp
  next
    case 3
    let ?c = "count_activity ''subscription_failure'' DISCOVERY_SOURCE_HELIUS v"
    obtain e q where q: "?c = (e, q)" by fastforce
    have "ws_route_state (snd ?c) = ws_route_state v" by simp
    then have rq: "ws_route_state q = ws_route_state v" unfolding q by simp
    let ?q = "q\<lparr>ws_route_state := activate_standard (monotonic clk (readings q)) (ws_route_state q), readings := readings q + 1\<rparr>"
    let ?w = "write_metrics (fallback_lock io) (fallback_metrics clk ''WS_ENHANCED_NOT_AVAILABLE'' ?q) (?q\<lparr>readings := readings ?q + 1\<rparr>)"
    obtain e2 w2 where w2: "?w = (e2, w2)" by fastforce
    have "ws_route_state (snd ?w) = activate_standard (monotonic clk (readings q)) (ws_route_state q)" by simp
    then have rw: "ws_route_state w2 = activate_standard (monotonic clk (readings q)) (ws_route_state q)" unfolding w2 by simp
    have "ws_route_state u = ws_route_state v \<or> ws_route_state u = activate_standard (monotonic clk (readings q)) (ws_route_state q)"
      using w wu 3 q w2 rq rw by (cases e; cases e2) (auto simp: end_of_turn_def fell_back_def Let_def)
    then show ?thesis using nv assms(3) act by auto
  next
    case 4
    obtain e q where q: "lost_noted clk io err v = (e, q)" by fastforce
    have rq: "ws_route_state q \<in> {ws_route_state v, record_failure (monotonic clk (readings v)) (ws_route_state v)}"
      using lost_noted_route [of clk io err v] q by simp
    have "ws_route_state u = ws_route_state q"
      using 4 q unfolding connection_lost_noted by (cases e) (auto simp: back_off_def Let_def)
    then show ?thesis using rq nv assms(3) act by (auto simp: record_failure_def)
  qed
qed

text \<open>C38: when a connection to the enhanced subscription ends and the public one takes its place, the time of the next
  probe is half an hour after a reading of the clock; and as long as no reading reaches that time, the process does
  not connect to the enhanced one again, however its connections end.\<close>

theorem enhanced_route_rests:
  assumes "loop_turn valid stopping clk io s = (r, None, u)" "\<not> used_standard r" "uses_standard (ws_route_state u)"
    and "run_forever valid stopping clk ios u = (reports, e, t)"
  shows "(\<exists>n. next_helius_probe_at (ws_route_state u) = f64_add (monotonic clk n) (Fin 1800))
    \<and> ((\<forall>k. \<not> f64_le (next_helius_probe_at (ws_route_state u)) (monotonic clk k)) \<longrightarrow> (\<forall>r \<in> set reports. used_standard r))"
proof -
  have "\<not> uses_standard (ws_route_state s)" using assms(1,2) by (auto simp: loop_turn_def Let_def split: prod.splits)
  with leaves_enhanced [OF assms(1) _ assms(3)] public_run [OF assms(4,3)] show ?thesis by blast
qed

theorem enhanced_route_rests_witness:
  "\<exists>r u reports e t. loop_turn (\<lambda>_. True) False quiet_clock failing_turn start_loop = (r, None, u)
     \<and> run_forever (\<lambda>_. True) False quiet_clock [failing_turn] u = (reports, e, t) \<and> length reports = 1
     \<and> (\<forall>r \<in> set reports. used_standard r)"
proof -
  let ?l = "loop_turn (\<lambda>_. True) False quiet_clock failing_turn start_loop"
  let ?u = "snd (snd ?l)" let ?run = "run_forever (\<lambda>_. True) False quiet_clock [failing_turn] ?u"
  have e: "fst (snd ?l) = None" by code_simp
  have l: "?l = (fst ?l, None, ?u)" by (simp only: e [symmetric] prod.collapse)
  have run: "?run = (fst ?run, fst (snd ?run), snd (snd ?run))" by simp
  have n: "\<not> used_standard (fst ?l)" "uses_standard (ws_route_state ?u)" "length (fst ?run) = 1" by code_simp+
  have "\<not> f64_le (next_helius_probe_at (ws_route_state ?u)) (Fin 1000)" by code_simp
  then have k: "\<forall>k. \<not> f64_le (next_helius_probe_at (ws_route_state ?u)) (monotonic quiet_clock k)" by (simp add: quiet_clock_def)
  have "\<forall>r \<in> set (fst ?run). used_standard r"
    by (rule enhanced_route_rests [OF l n(1,2) run, THEN conjunct2, THEN mp, OF k])
  then show ?thesis using l run n(3) by blast
qed

end
