(* ===== verification/MonitorSignal.thy ===== *)
theory MonitorSignal
  imports MonitorTrades ObservationRecords WalletPerformance
begin

text \<open>
  A signal of \<open>src/monitor.py\<close> from its task to the paper purchase (\<open>process_paper_signal\<close> and
  \<open>_process_paper_signal_control\<close>): the observation of the candidate, the streak of losses, the cool-down of the
  token, the analysis, the size, the quotes of entry and exit, the decision, the purchase, and the handlers of
  exceptions.

  The function works on the files of the other components, so each step is the operation of the component that
  owns the file.  \<open>point\<close> names the steps; \<open>at io point\<close> holds what a step meets: what other tasks and processes
  did to the files before it, the locks, the clock and the identifiers.  The replies of the services are the other
  fields of \<open>io\<close>.  Logging, the hooks of the telemetry, whose failures the code swallows, and its counters of
  stages, which stay in memory and know every stage named here, are left out.
\<close>

definition SIGNAL_BASIS_POINTS :: int where "SIGNAL_BASIS_POINTS = 50"

section \<open>The files and the variables of a signal\<close>

record signal_world =
  paper_file :: state_file
  observations_file :: state_file
  performance_files :: wallet_files
  quote_slot :: state_file
  analyses :: analyzer_state
  counters :: ws_activity

record signal_run =
  observed_as :: "string option"
  observing :: bool
  objections :: "string list"
  safety_snapshot :: dict
  analyzed_text :: "string option"
  analyzer_started :: bool
  preflight_started :: bool
  preflight_finished :: bool
  purchase :: "(buy_request \<times> string) option"
  world :: signal_world

datatype point = Discovery | Streak | Cooldown | Analysis | Unsafe | Rejection | Cash | Unusable | EntryQuote | ExitQuote
  | ExitRejection | Decision | Purchase | Admission | Opening | Credit | Closing | RpcSkip

record point_io =
  meanwhile :: "signal_world \<Rightarrow> signal_world"
  first_lock :: bool
  second_lock :: bool
  ledger_calls :: env
  rows_calls :: row_clock
  empty_at :: string
  clock_text :: string
  clock_seconds :: f64

text \<open>
  The analyzer: the clock readings around its run, the number of its task, whether the mint is a key, the replies to
  a run of its own and to the run of another task that it joins.
\<close>

type_synonym replies = "rpc_error + (py \<times> py \<times> dict option \<times> dict option)"

record signal_io =
  point_of :: "point \<Rightarrow> point_io"
  variables :: "string \<Rightarrow> string option"
  lookup_at :: f64
  stored_at :: f64
  fresh_task :: nat
  mint_is_key :: bool
  own_replies :: replies
  joined_replies :: "nat \<Rightarrow> replies"
  while_analyzing :: "signal_world \<Rightarrow> signal_world"
  entry_attempts :: "int \<Rightarrow> nat \<Rightarrow> quote_attempt"
  exit_attempts :: "int \<Rightarrow> nat \<Rightarrow> quote_attempt"
  quoted_text :: string
  arrived_us :: int
  wallet_calls :: wallet_io

section \<open>Steps\<close>

datatype 'a flow = Next 'a | Leave | Failed rpc_error

type_synonym 'a step = "signal_run \<Rightarrow> 'a flow \<times> signal_run"

definition proceed :: "'a step \<Rightarrow> ('a \<Rightarrow> 'b step) \<Rightarrow> 'b step" where
  "proceed m f r = (case m r of (Next x, r) \<Rightarrow> f x r | (Leave, r) \<Rightarrow> (Leave, r) | (Failed e, r) \<Rightarrow> (Failed e, r))"

definition give :: "'a \<Rightarrow> 'a step" where "give x r = (Next x, r)"
definition leave :: "'a step" where "leave r = (Leave, r)"
definition change :: "(signal_run \<Rightarrow> signal_run) \<Rightarrow> unit step" where "change g r = (Next (), g r)"

definition checked :: "'a res \<Rightarrow> 'a step" where
  "checked v r = (case v of Inl e \<Rightarrow> (Failed (OtherError e), r) | Inr x \<Rightarrow> (Next x, r))"

text \<open>A step on the files, after what happened to them meanwhile.\<close>

definition at_point :: "signal_io \<Rightarrow> point \<Rightarrow> (point_io \<Rightarrow> signal_world \<Rightarrow> 'a \<times> signal_world) \<Rightarrow> 'a step" where
  "at_point io k op r =
     (let (x, w) = op (point_of io k) (meanwhile (point_of io k) (world r)) in (Next x, r\<lparr>world := w\<rparr>))"

definition raising :: "'a res step \<Rightarrow> 'a step" where
  "raising m = proceed m checked"

definition on_paper :: "(state_file \<Rightarrow> 'a \<times> state_file) \<Rightarrow> signal_world \<Rightarrow> 'a \<times> signal_world" where
  "on_paper op w = (let (x, f) = op (paper_file w) in (x, w\<lparr>paper_file := f\<rparr>))"

definition on_observations :: "(state_file \<Rightarrow> 'a \<times> state_file) \<Rightarrow> signal_world \<Rightarrow> 'a \<times> signal_world" where
  "on_observations op w = (let (x, f) = op (observations_file w) in (x, w\<lparr>observations_file := f\<rparr>))"

definition on_wallets :: "(wallet_files \<Rightarrow> 'a \<times> wallet_files) \<Rightarrow> signal_world \<Rightarrow> 'a \<times> signal_world" where
  "on_wallets op w = (let (x, f) = op (performance_files w) in (x, w\<lparr>performance_files := f\<rparr>))"

definition source_name :: "paper_signal \<Rightarrow> string" where
  "source_name p = (case ps_source p of None \<Rightarrow> ''unknown'' | Some s \<Rightarrow> if s = [] then ''unknown'' else s)"

text \<open>\<open>record_wallet_ws_activity(name, discovery_source or "unknown")\<close>, for the first route only.\<close>

definition count_for_route_a :: "paper_signal \<Rightarrow> string \<Rightarrow> unit step" where
  "count_for_route_a p name r =
     (if ps_route p \<noteq> ''A'' then (Next (), r)
      else case record_wallet_ws_activity name (source_name p) (counters (world r)) of
        Inl e \<Rightarrow> (Failed (OtherError e), r)
      | Inr a \<Rightarrow> (Next (), r\<lparr>world := (world r)\<lparr>counters := a\<rparr>\<rparr>))"

text \<open>A reason against the entry: the signal goes on only to be observed.\<close>

definition object :: "string \<Rightarrow> unit step" where
  "object reason r =
     (let r = r\<lparr>objections := objections r @ [reason]\<rparr> in (if observing r then Next () else Leave, r))"

section \<open>Before the analysis\<close>

definition discovery_details :: "paper_signal \<Rightarrow> string list \<Rightarrow> dict" where
  "discovery_details p against =
     [(''whale_paid_lamports'', PInt (ps_paid p)), (''source_token_amount_raw'', PInt (ps_amount p)),
      (''source_token_decimals'', PInt (ps_decimals p)), (''prefilter_reasons'', PStr (join '','' against))]
     @ (case ps_source p of None \<Rightarrow> [] | Some s \<Rightarrow> if s = [] then [] else [(''discovery_source'', PStr s)])"

definition discovery_of :: "paper_signal \<Rightarrow> string \<Rightarrow> string list \<Rightarrow> discovery" where
  "discovery_of p m against =
     \<lparr>found_mint = m, found_route = ps_route p, found_wallet = ps_wallet p, found_signature = ps_signature p,
      found_amount = ps_amount p, found_decimals = ps_decimals p, found_at = ps_detected p,
      found_momentum = PFloat (ps_momentum p), found_metrics = ps_metrics p,
      found_metadata = PDict (discovery_details p against), found_collection = ps_collection p\<rparr>"

definition observe_candidate :: "signal_io \<Rightarrow> string \<Rightarrow> paper_signal \<Rightarrow> bool \<Rightarrow> unit step" where
  "observe_candidate io m p enabled =
     (if enabled then
       (\<lambda>r. proceed (raising (at_point io Discovery (\<lambda>c. on_observations (\<lambda>f.
               record_candidate_discovery (first_lock c) f (empty_at c) (discovery_of p m (objections r)) (clock_seconds c) (rows_calls c)))))
         (\<lambda>found. proceed (change (\<lambda>r. r\<lparr>observed_as := Some (decision_observation found)\<rparr>)) (\<lambda>_.
          if decision_created found
          then proceed (checked (prospective_feature_collection_eligible (PDict
                  [(''prospective_feature_collection'', ps_collection p), (''signal_detected_at'', PStr (ps_detected p))]) 2))
                 (\<lambda>_. count_for_route_a p ''research_discovered'')
          else give ())) r)
     else (\<lambda>r. if objections r \<noteq> [] then leave r else give () r))"

definition discover_candidate :: "signal_io \<Rightarrow> string \<Rightarrow> paper_signal \<Rightarrow> unit step" where
  "discover_candidate io m p =
     proceed (checked (observation_mode_enabled (variables io))) (\<lambda>enabled.
     proceed (change (\<lambda>r. r\<lparr>observing := enabled\<rparr>)) (\<lambda>_. observe_candidate io m p enabled))"

definition size_after_losses :: "signal_io \<Rightarrow> paper_signal \<Rightarrow> decimal step" where
  "size_after_losses io p =
     (if ps_route p \<noteq> ''A'' then give (Dec 1)
      else proceed (at_point io Streak (\<lambda>c w. ((get_route_initial_stop_streak (first_lock c) (paper_file w) ''A'', clock_seconds c), w)))
        (\<lambda>(streak, now).
        proceed (case streak of
            Inl _ \<Rightarrow> proceed (object ''ROUTE_A_LOSS_STREAK_LOOKUP_FAILED'') (\<lambda>_. give (0, Fin 0))
          | Inr found \<Rightarrow> give found) (\<lambda>(losses, latest).
        case route_a_entry_multiplier losses latest now of
          None \<Rightarrow> proceed (object ''ROUTE_A_LOSS_PAUSE'') (\<lambda>_. give (Dec 1))
        | Some d \<Rightarrow> give d)))"

definition check_cooldown :: "signal_io \<Rightarrow> string \<Rightarrow> unit step" where
  "check_cooldown io m =
     proceed (at_point io Cooldown (\<lambda>c w. (token_cooldown_is_active (first_lock c) (second_lock c) (paper_file w) m (clock_seconds c), w)))
       (\<lambda>active. if active then object ''TOKEN_COOLDOWN_OR_LOOKUP_FAILURE'' else give ())"

section \<open>The analysis\<close>

text \<open>The text of an exception that is a \<open>RuntimeError\<close>; no call here passes an expected version.\<close>

definition plain_error :: "rpc_error \<Rightarrow> exc" where
  "plain_error e = (case e of OtherError x \<Rightarrow> x
     | _ \<Rightarrow> RuntimeError (case canonical_reason e of Some t \<Rightarrow> t | None \<Rightarrow> []))"

definition analysis_result :: "signal_io \<Rightarrow> string \<Rightarrow> analyzer_settings \<Rightarrow> replies \<Rightarrow> rpc_error + safety_report" where
  "analysis_result io m settings answered = (case answered of
     Inl e \<Rightarrow> Inl e
   | Inr gathered \<Rightarrow> (case analyze_token_uncached (mint_is_key io) m settings (Inr gathered) of
       Inl e \<Rightarrow> Inl (OtherError e) | Inr report \<Rightarrow> Inr report))"

text \<open>\<open>await analyze_token(mint)\<close>: a report of the cache, of the running task for the same token, or of a new one.\<close>

definition await_analysis ::
  "signal_io \<Rightarrow> string \<Rightarrow> signal_world \<Rightarrow> (rpc_error + safety_report) \<times> signal_world" where
  "await_analysis io m w = (case analyzer_settings_from_env (variables io) of
     Inl e \<Rightarrow> (Inl (OtherError e), w)
   | Inr settings \<Rightarrow>
       (if \<not> mint_is_key io then (Inl (OtherError (ValueError (''invalid mint address: '' @ m))), w)
        else (let (found, s) = analyze_token (lookup_at io) (m, settings) (fresh_task io) (analyses w);
                  w = w\<lparr>analyses := s\<rparr> in
          case found of
            CachedReport report \<Rightarrow> (Inr report, w)
          | JoinFlight task \<Rightarrow> (analysis_result io m settings (joined_replies io task), while_analyzing io w)
          | StartFlight task \<Rightarrow>
              (let w = while_analyzing io w;
                   result = analysis_result io m settings (own_replies io);
                   (_, s) = run_analysis_flight (stored_at io) (m, settings) task (map_sum plain_error id result) (analyses w) in
               (result, w\<lparr>analyses := s\<rparr>)))))"

definition snapshot_of :: "safety_report \<Rightarrow> dict" where
  "snapshot_of report =
     [(''developer_supply_percent'', opt_str (developer_supply_percent report)),
      (''developer_below_ten_percent'', PBool (developer_below_ten_percent report)),
      (''mint_authority_renounced'', PBool (mint_authority_renounced report)),
      (''lp_locked'', PBool (lp_locked report)), (''lp_locked_percent'', opt_str (lp_locked_percent report)),
      (''liquidity_usd'', opt_str (report_liquidity_usd report)),
      (''liquidity_above_minimum'', PBool (liquidity_above_minimum report)),
      (''reasons'', PList (map PStr (reasons report))), (''sources'', PList (map PStr (report_sources report)))]"

definition analyze_signal :: "signal_io \<Rightarrow> string \<Rightarrow> paper_signal \<Rightarrow> safety_report step" where
  "analyze_signal io m p =
     proceed (count_for_route_a p ''analyzer_reached'') (\<lambda>_.
     proceed (change (\<lambda>r. r\<lparr>analyzer_started := True\<rparr>)) (\<lambda>_.
     proceed (at_point io Analysis (\<lambda>c w. let (result, w) = await_analysis io m w in ((result, clock_text c), w)))
       (\<lambda>(result, finished). case result of
          Inl e \<Rightarrow> (\<lambda>r. (Failed e, r))
        | Inr report \<Rightarrow>
            proceed (change (\<lambda>r. r\<lparr>analyzed_text := Some finished\<rparr>)) (\<lambda>_.
            proceed (count_for_route_a p ''analyzer_success'') (\<lambda>_.
            proceed (change (\<lambda>r. r\<lparr>safety_snapshot := snapshot_of report\<rparr>)) (\<lambda>_. give report))))))"

text \<open>What is recorded of an analysis that rejects a signal nothing else spoke against.\<close>

definition record_unsafe :: "signal_io \<Rightarrow> string \<Rightarrow> paper_signal \<Rightarrow> safety_report \<Rightarrow> unit step" where
  "record_unsafe io m p report =
     proceed (if ps_route p = ''A''
              then raising (at_point io Unsafe (\<lambda>c. on_wallets
                     (reject_unsafe_buy (wallet_calls io) (ps_wallet p) m (reasons report) (ps_signature p))))
              else give ()) (\<lambda>_.
     raising (at_point io Rejection (\<lambda>c. on_paper (\<lambda>f. record_paper_rejection (ledger_calls c) (first_lock c) (second_lock c) f m
       (safety_report.safety_score report) (reasons report) (ps_wallet p) (ps_signature p)))))"

definition judge_report :: "signal_io \<Rightarrow> string \<Rightarrow> paper_signal \<Rightarrow> safety_report \<Rightarrow> unit step" where
  "judge_report io m p report =
     proceed (if ps_route p = ''B''
              then proceed (checked (route_b_safety_filter report)) (\<lambda>safe.
                change (\<lambda>r. if safe then r else r\<lparr>objections := objections r @ [''ROUTE_B_SAFETY_FILTER_REJECTED'']\<rparr>))
              else give ()) (\<lambda>_.
     proceed (if route_report_allowed (ps_route p) (report_route report) then give ()
              else (\<lambda>r. let operational = (objections r = []) in
                proceed (change (\<lambda>r. r\<lparr>objections := objections r @ [''ANALYZER_ROUTE_REJECTED'']\<rparr>)) (\<lambda>_.
                  if operational then record_unsafe io m p report else give ()) r)) (\<lambda>_.
     (\<lambda>r. if objections r \<noteq> [] \<and> \<not> observing r then leave r else give () r)))"

section \<open>The size\<close>

definition closing_of :: "string \<Rightarrow> string list \<Rightarrow> string \<Rightarrow> py \<Rightarrow> signal_run \<Rightarrow> closing" where
  "closing_of verdict against quoted score r =
     \<lparr>closing_status = verdict, closing_reasons = map PStr against, closing_quote = quoted, closing_score = score,
      closing_metrics = PDict (safety_snapshot r), closing_analysis = opt_str (analyzed_text r)\<rparr>"

definition close_candidate :: "signal_io \<Rightarrow> point \<Rightarrow> string \<Rightarrow> closing \<Rightarrow> bool res step" where
  "close_candidate io k oid c = at_point io k (\<lambda>x. on_observations (\<lambda>f.
     finalize_candidate_without_quote (first_lock x) f (empty_at x) oid c (rows_calls x)))"

text \<open>The cost of the entry: a share of the cash, sized by the route and by the losses.\<close>

definition signal_cost :: "int \<Rightarrow> string \<Rightarrow> decimal \<Rightarrow> int res" where
  "signal_cost balance route multiplier =
     bindE (route_sized_amount (balance * SIGNAL_BASIS_POINTS div 10000) route) (\<lambda>cost.
     bindE (dec_mul (Dec (of_int cost)) multiplier) dec_trunc)"

definition size_signal :: "signal_io \<Rightarrow> paper_signal \<Rightarrow> safety_report \<Rightarrow> decimal \<Rightarrow> int step" where
  "size_signal io p report multiplier =
     proceed (raising (at_point io Cash (\<lambda>c. on_paper (paper_cash_balance (ledger_calls c) (first_lock c))))) (\<lambda>balance.
     proceed (checked (signal_cost balance (ps_route p) multiplier)) (\<lambda>cost.
     if 0 < cost then give cost
     else (\<lambda>r. case observed_as r of
         None \<Rightarrow> leave r
       | Some oid \<Rightarrow> proceed (raising (close_candidate io Unusable oid (closing_of ''UNAVAILABLE''
             (objections r @ [''PAPER_SIZE_UNUSABLE'']) ''SIZE_UNUSABLE'' (PInt (safety_report.safety_score report)) r)))
             (\<lambda>_. leave) r)))"

section \<open>The quotes\<close>

definition is_runtime_error :: "exc \<Rightarrow> bool" where
  "is_runtime_error x = (case x of
     RuntimeError _ \<Rightarrow> True | JupiterNoRouteError _ \<Rightarrow> True | VersionConflict _ _ \<Rightarrow> True | _ \<Rightarrow> False)"

definition runtime_text :: "exc \<Rightarrow> string" where
  "runtime_text x = (case x of RuntimeError t \<Rightarrow> t | JupiterNoRouteError t \<Rightarrow> t
     | VersionConflict e a \<Rightarrow> '' version changed: expected='' @ dec_int e @ '', actual='' @ dec_int a | _ \<Rightarrow> [])"

definition quote_at_point :: "signal_io \<Rightarrow> point \<Rightarrow> (nat \<Rightarrow> quote_attempt) \<Rightarrow> dict res step" where
  "quote_at_point io k attempts = at_point io k (\<lambda>c w.
     let (quote, pauses, f) = jupiter_quote attempts 100 False (quote_slot w) in (quote, w\<lparr>quote_slot := f\<rparr>))"

definition exit_rejection :: "exc \<Rightarrow> string" where
  "exit_rejection x = (let reason = redact_sensitive_text (runtime_text x) in
     if starts_with reason ''[ENTRY_REJECTED]'' then reason
     else ''[ENTRY_REJECTED] Exit pre-flight failed: '' @ reason)"

definition no_exit :: "signal_io \<Rightarrow> string \<Rightarrow> paper_signal \<Rightarrow> safety_report \<Rightarrow> exc \<Rightarrow> unit step" where
  "no_exit io m p report x =
     proceed (\<lambda>r. if objections r = []
        then raising (at_point io ExitRejection (\<lambda>c. on_paper (\<lambda>f. record_paper_rejection (ledger_calls c) (first_lock c) (second_lock c) f m
               (safety_report.safety_score report) [exit_rejection x] (ps_wallet p) (ps_signature p)))) r
        else give () r) (\<lambda>_. object ''EXIT_PREFLIGHT_FAILED'')"

text \<open>The quote of the exit: its impact, or none when it fails and the signal is still observed.\<close>

definition quote_exit :: "signal_io \<Rightarrow> string \<Rightarrow> paper_signal \<Rightarrow> safety_report \<Rightarrow> int \<Rightarrow> f64 option step" where
  "quote_exit io m p report tokens =
     proceed (quote_at_point io ExitQuote (exit_attempts io tokens)) (\<lambda>quote.
     case bindE quote validate_exit_price_impact of
       Inr impact \<Rightarrow> give (Some impact)
     | Inl x \<Rightarrow> (if is_runtime_error x then proceed (no_exit io m p report x) (\<lambda>_. give None)
                 else (\<lambda>r. (Failed (OtherError x), r))))"

record signal_price =
  price_quote :: dict
  price_cost :: int
  price_tokens :: int
  price_impact :: f64
  price_exit_impact :: "f64 option"
  price_reference :: f64
  price_gap :: f64
  price_latency :: int

definition copy_prices :: "paper_signal \<Rightarrow> int \<Rightarrow> int \<Rightarrow> (f64 \<times> f64) res" where
  "copy_prices p cost tokens =
     bindE (if 0 < ps_amount p then int_truediv (ps_paid p) (ps_amount p) else Inr (Fin 0)) (\<lambda>reference.
     bindE (if 0 < tokens then int_truediv cost tokens else Inr (Fin 0)) (\<lambda>copy.
     bindE (if f64_lt (Fin 0) reference
            then bindE (f64_truediv copy reference) (\<lambda>q. Inr (f64_mul (f64_sub q (Fin 1)) (Fin 100)))
            else Inr (Fin 0)) (\<lambda>gap. Inr (reference, gap))))"

text \<open>Milliseconds since the detection; a time without an offset cannot be subtracted.\<close>

definition latency_of :: "paper_signal \<Rightarrow> int \<Rightarrow> int res" where
  "latency_of p arrived =
     bindE (parse_iso_text (PStr (ps_detected p))) (\<lambda>t.
       if offset_us t = None then Inl TypeError
       else int_of_f64 (f64_mul (seconds_of_us (arrived - instant_us t)) (Fin 1000)))"

definition quote_signal :: "signal_io \<Rightarrow> string \<Rightarrow> paper_signal \<Rightarrow> safety_report \<Rightarrow> int \<Rightarrow> signal_price step" where
  "quote_signal io m p report cost =
     proceed (change (\<lambda>r. r\<lparr>preflight_started := True\<rparr>)) (\<lambda>_.
     proceed (raising (quote_at_point io EntryQuote (entry_attempts io cost))) (\<lambda>quote.
     proceed (checked (validate_entry_price_impact quote)) (\<lambda>impact.
     proceed (checked (bindE (dindex quote ''outAmount'') py_int)) (\<lambda>tokens.
     proceed (quote_exit io m p report tokens) (\<lambda>exit_impact.
     proceed (change (\<lambda>r. r\<lparr>preflight_finished := True\<rparr>)) (\<lambda>_.
     proceed (checked (bindE (copy_prices p cost tokens) (\<lambda>prices. bindE (latency_of p (arrived_us io)) (\<lambda>latency. Inr (prices, latency)))))
       (\<lambda>((reference, gap), latency).
     give \<lparr>price_quote = quote, price_cost = cost, price_tokens = tokens, price_impact = impact,
           price_exit_impact = exit_impact, price_reference = reference, price_gap = gap, price_latency = latency\<rparr>)))))))"

definition expected_slippage :: "dict \<Rightarrow> int res" where
  "expected_slippage quote = py_int (py_or (dget_or quote ''slippageBps'' (PInt 100)) (PInt 100))"

section \<open>The decision\<close>

definition quoted_of :: "signal_io \<Rightarrow> string \<Rightarrow> paper_signal \<Rightarrow> safety_report \<Rightarrow> signal_price \<Rightarrow> int \<Rightarrow> signal_run \<Rightarrow> quoted_signal" where
  "quoted_of io m p report price slippage r =
     \<lparr>quoted_mint = m, quoted_route = ps_route p, quoted_wallet = ps_wallet p, quoted_signature = ps_signature p,
      quoted_score = safety_report.safety_score report, quoted_cost = price_cost price, quoted_amount = price_tokens price,
      quoted_decimals = ps_decimals p, quoted_entry_impact = price_impact price,
      quoted_exit_impact = price_exit_impact price, quoted_slippage = slippage, quoted_momentum = PFloat (ps_momentum p),
      quoted_detected = ps_detected p, quoted_analyzed = str_or (analyzed_text r) [], quoted_at = quoted_text io,
      quoted_latency = price_latency price, quoted_copy_gap = PFloat (price_gap price), quoted_metrics = ps_metrics p,
      quoted_safety = PDict (safety_snapshot r), quoted_collection = ps_collection p,
      quoted_decision = (if objections r = [] then ''APPROVED'' else ''REJECTED''),
      quoted_reasons = map PStr (objections r),
      quoted_status = (if price_exit_impact price = None then ''ENTRY_ONLY'' else ''EXECUTABLE'')\<rparr>"

text \<open>Whether the purchase belongs to the broad experiment; an observed signal goes on only as a part of it.\<close>

definition decide_signal :: "signal_io \<Rightarrow> string \<Rightarrow> paper_signal \<Rightarrow> safety_report \<Rightarrow> signal_price \<Rightarrow> bool step" where
  "decide_signal io m p report price =
     (\<lambda>r. if \<not> observing r then give False r
       else proceed (checked (expected_slippage (price_quote price))) (\<lambda>slippage.
         proceed (raising (at_point io Decision (\<lambda>c. on_observations (\<lambda>f.
             record_observation_decision (first_lock c) f (empty_at c) (quoted_of io m p report price slippage r)
               (clock_seconds c) (rows_calls c))))) (\<lambda>decision.
         proceed (change (\<lambda>r. r\<lparr>observed_as := Some (decision_observation decision)\<rparr>)) (\<lambda>_.
         if objections r \<noteq> [] then leave
         else proceed (checked (approved_signal_paper_mode_enabled (variables io))) (\<lambda>promoted.
           if promoted \<and> decision_created decision then give True else leave)))) r)"

section \<open>The purchase\<close>

definition signal_buy ::
  "signal_io \<Rightarrow> string \<Rightarrow> paper_signal \<Rightarrow> safety_report \<Rightarrow> signal_price \<Rightarrow> bool \<Rightarrow> int \<Rightarrow> int option \<Rightarrow> f64 \<Rightarrow> signal_run
   \<Rightarrow> buy_request" where
  "signal_buy io m p report price broad slippage limit exit_impact r =
     \<lparr>mint = m, cost_lamports = price_cost price, token_amount_raw = price_tokens price, token_decimals = ps_decimals p,
      source_wallet = Some (ps_wallet p), source_signature = Some (ps_signature p),
      buy_request.safety_score = Some (safety_report.safety_score report),
      entry_reason = (if broad then ''broad_discovery_approved_signal''
                      else if ps_route p = ''A'' then ''whale_route_a'' else ''dex_momentum_unknown_whales''),
      signal_detected_at = Some (ps_detected p), analysis_completed_at = analyzed_text r, entry_quote_at = Some (quoted_text io),
      entry_price_impact = price_impact price, exit_price_impact = exit_impact, expected_slippage_bps = slippage,
      whale_reference_price = price_reference price, copy_price_gap = price_gap price, entry_latency_ms = price_latency price,
      route_type = ps_route p, dex_momentum_score = ps_momentum p,
      strategy_version = (if broad then ''broad_discovery_v1'' else ''baseline_v1''),
      observation_id = observed_as r, max_strategy_open_positions = limit\<rparr>"

text \<open>The arguments of the purchase; \<open>float(None)\<close> raises.\<close>

definition purchase_request ::
  "signal_io \<Rightarrow> string \<Rightarrow> paper_signal \<Rightarrow> safety_report \<Rightarrow> signal_price \<Rightarrow> bool \<Rightarrow> signal_run \<Rightarrow> buy_request res" where
  "purchase_request io m p report price broad r =
     bindE (expected_slippage (price_quote price)) (\<lambda>slippage.
     bindE (if broad then bindE (approved_signal_max_open_positions (variables io)) (\<lambda>n. Inr (Some n)) else Inr None) (\<lambda>limit.
     case price_exit_impact price of
       None \<Rightarrow> Inl TypeError
     | Some exit_impact \<Rightarrow> Inr (signal_buy io m p report price broad slippage limit exit_impact r)))"

definition try_purchase ::
  "signal_io \<Rightarrow> string \<Rightarrow> paper_signal \<Rightarrow> safety_report \<Rightarrow> signal_price \<Rightarrow> bool \<Rightarrow> (buy_request \<times> string) res step" where
  "try_purchase io m p report price broad r = (case purchase_request io m p report price broad r of
     Inl x \<Rightarrow> (Next (Inl x), r)
   | Inr b \<Rightarrow> at_point io Purchase (\<lambda>c. on_paper (\<lambda>f.
       case record_paper_buy (ledger_calls c) (first_lock c) (second_lock c) f b of
         (Inl x, f) \<Rightarrow> (Inl x, f) | (Inr position_id, f) \<Rightarrow> (Inr (b, position_id), f))) r)"

definition mark_experiment :: "signal_io \<Rightarrow> point \<Rightarrow> string \<Rightarrow> string \<Rightarrow> string option \<Rightarrow> bool step" where
  "mark_experiment io k oid new position = raising (at_point io k (\<lambda>c. on_observations (\<lambda>f.
     mark_paper_experiment_status (first_lock c) f (empty_at c) oid new position (rows_calls c))))"

text \<open>A purchase the ledger refuses: in the experiment it only marks the observation.\<close>

definition refused_purchase :: "signal_io \<Rightarrow> bool \<Rightarrow> exc \<Rightarrow> unit step" where
  "refused_purchase io broad x r = (case observed_as r of
     None \<Rightarrow> (Failed (OtherError x), r)
   | Some oid \<Rightarrow> (if is_runtime_error x \<and> broad
       then proceed (mark_experiment io Admission oid
              (if contains (runtime_text x) ''capacity reached'' then ''SKIPPED_CAPACITY'' else ''FAILED'') None) (\<lambda>_. leave) r
       else (Failed (OtherError x), r)))"

definition book_purchase :: "signal_io \<Rightarrow> string \<Rightarrow> paper_signal \<Rightarrow> bool \<Rightarrow> string \<Rightarrow> unit step" where
  "book_purchase io m p broad position_id =
     proceed (\<lambda>r. case observed_as r of
         None \<Rightarrow> give () r
       | Some oid \<Rightarrow> (if broad then proceed (mark_experiment io Opening oid ''OPENED'' (Some position_id)) (\<lambda>_. give ()) r
                     else give () r)) (\<lambda>_.
     if ps_route p = ''A''
     then raising (at_point io Credit (\<lambda>c. on_wallets (\<lambda>fs. let (x, f) = record_paper_buy_success (first_lock c) (performance_file fs)
            (ps_wallet p) m (ps_signature p) (empty_at c) (clock_text c) in (x, fs\<lparr>performance_file := f\<rparr>))))
     else give ())"

definition buy_signal :: "signal_io \<Rightarrow> string \<Rightarrow> paper_signal \<Rightarrow> safety_report \<Rightarrow> signal_price \<Rightarrow> bool \<Rightarrow> unit step" where
  "buy_signal io m p report price broad =
     proceed (try_purchase io m p report price broad) (\<lambda>result. case result of
       Inl x \<Rightarrow> refused_purchase io broad x
     | Inr (b, position_id) \<Rightarrow>
         proceed (change (\<lambda>r. r\<lparr>purchase := Some (b, position_id)\<rparr>)) (\<lambda>_. book_purchase io m p broad position_id))"

section \<open>The handlers\<close>

definition analysis_failed :: "paper_signal \<Rightarrow> unit step" where
  "analysis_failed p r = (if analyzer_started r \<and> analyzed_text r = None then count_for_route_a p ''analyzer_failure'' r else give () r)"

text \<open>The candidate is closed; an exception of that write is swallowed.\<close>

definition close_after_failure :: "signal_io \<Rightarrow> string \<Rightarrow> string \<Rightarrow> unit step" where
  "close_after_failure io verdict reason r = (case observed_as r of
     None \<Rightarrow> give () r
   | Some oid \<Rightarrow> (if observing r
       then proceed (close_candidate io Closing oid (closing_of verdict (objections r @ [reason]) ''PROCESSING_FAILED'' PNone r))
              (\<lambda>_. give ()) r
       else give () r))"

definition failure_reason :: "rpc_error \<Rightarrow> string" where
  "failure_reason e = redact_sensitive_text (runtime_text (plain_error e))"

definition lookup_failed :: "rpc_error \<Rightarrow> bool" where
  "lookup_failed e \<longleftrightarrow> (case e of SolanaRpcRateLimitExhaustedError _ _ _ _ \<Rightarrow> True | SolanaRpcExhaustedError _ _ _ \<Rightarrow> True | _ \<Rightarrow> False)
     \<or> canonical_rpc_failure_reason e \<noteq> None
     \<or> contains (failure_reason e) ''failed after 3 attempts'' \<or> contains (failure_reason e) ''getTokenSupply failed''
     \<or> contains (failure_reason e) ''could not find account''"

definition handle_runtime_error :: "signal_io \<Rightarrow> string \<Rightarrow> paper_signal \<Rightarrow> rpc_error \<Rightarrow> unit step" where
  "handle_runtime_error io m p e =
     proceed (analysis_failed p) (\<lambda>_.
     proceed (close_after_failure io ''UNAVAILABLE''
       (case canonical_rpc_failure_reason e of Some t \<Rightarrow> t | None \<Rightarrow> failure_reason e)) (\<lambda>_.
     if lookup_failed e
     then raising (at_point io RpcSkip (\<lambda>c. on_paper (\<lambda>f. record_rpc_skip (ledger_calls c) (first_lock c) (second_lock c) f m
            (ps_wallet p) (ps_signature p) (failure_reason e))))
     else give ()))"

definition handle_exception :: "signal_io \<Rightarrow> paper_signal \<Rightarrow> unit step" where
  "handle_exception io p =
     proceed (analysis_failed p) (\<lambda>_. close_after_failure io ''FAILED'' ''PROCESSING_FAILED'')"

section \<open>The signal\<close>

text \<open>The way to the purchase: the report, the price, and whether the purchase belongs to the experiment.\<close>

definition prepare_signal :: "signal_io \<Rightarrow> string \<Rightarrow> paper_signal \<Rightarrow> (safety_report \<times> signal_price \<times> bool) step" where
  "prepare_signal io m p =
     proceed (discover_candidate io m p) (\<lambda>_.
     proceed (size_after_losses io p) (\<lambda>multiplier.
     proceed (check_cooldown io m) (\<lambda>_.
     proceed (analyze_signal io m p) (\<lambda>report.
     proceed (judge_report io m p report) (\<lambda>_.
     proceed (size_signal io p report multiplier) (\<lambda>cost.
     proceed (quote_signal io m p report cost) (\<lambda>price.
     proceed (decide_signal io m p report price) (\<lambda>broad.
     give (report, price, broad)))))))))"

definition enter_signal :: "signal_io \<Rightarrow> string \<Rightarrow> paper_signal \<Rightarrow> unit step" where
  "enter_signal io m p =
     proceed (prepare_signal io m p) (\<lambda>(report, price, broad). buy_signal io m p report price broad)"

definition begin_signal :: "paper_signal \<Rightarrow> signal_world \<Rightarrow> signal_run" where
  "begin_signal p w = \<lparr>observed_as = None, observing = False, objections = ps_prefilter p, safety_snapshot = [],
     analyzed_text = None, analyzer_started = False, preflight_started = False, preflight_finished = False, purchase = None,
     world = w\<rparr>"

definition process_paper_signal_control :: "signal_io \<Rightarrow> string \<Rightarrow> paper_signal \<Rightarrow> signal_world \<Rightarrow> unit flow \<times> signal_run" where
  "process_paper_signal_control io m p w = (case enter_signal io m p (begin_signal p w) of
     (Failed e, r) \<Rightarrow> (if is_runtime_error (plain_error e) then handle_runtime_error io m p e r else handle_exception io p r)
   | done \<Rightarrow> done)"

text \<open>Once the service stops only the tasks of the registry go on.\<close>

definition process_paper_signal :: "bool \<Rightarrow> bool \<Rightarrow> signal_io \<Rightarrow> string \<Rightarrow> paper_signal \<Rightarrow> signal_world \<Rightarrow> unit flow \<times> signal_run" where
  "process_paper_signal stopping tracked io m p w =
     (if stopping \<and> \<not> tracked then (Leave, begin_signal p w) else process_paper_signal_control io m p w)"

end
