(* ===== verification/MonitorSignalFacts.thy ===== *)
theory MonitorSignalFacts
  imports MonitorSignal MonitorGateFacts ExecutorOrders
begin

text \<open>
  What \<open>MonitorSignal\<close> guarantees: which gates a purchase has passed, which exceptions leave the processing of a
  signal, and what becomes of the accounts of the ledger.
\<close>

section \<open>Steps and their effects\<close>

lemma proceed_cases:
  assumes "proceed m f r = (e, r')"
  obtains (step) x r1 where "m r = (Next x, r1)" "f x r1 = (e, r')"
  | (left) "m r = (Leave, r')" "e = Leave"
  | (failed) y where "m r = (Failed y, r')" "e = Failed y"
  using assms by (cases "m r"; cases "fst (m r)") (auto simp: proceed_def)

lemmas step_defs = give_def leave_def change_def checked_def at_point_def raising_def object_def Let_def

text \<open>A relation between the variables before and after that all steps of a function keep.\<close>

definition keeps :: "(signal_run \<Rightarrow> signal_run \<Rightarrow> bool) \<Rightarrow> 'a step \<Rightarrow> bool" where
  "keeps R m \<longleftrightarrow> (\<forall>r e r'. m r = (e, r') \<longrightarrow> R r r')"

lemma keepsD: "keeps R m \<Longrightarrow> m r = (e, r') \<Longrightarrow> R r r'"
  by (auto simp: keeps_def)

lemma keeps_parameter: "(\<And>s. keeps R (m s)) \<Longrightarrow> keeps R (\<lambda>r. m r r)"
  by (auto simp: keeps_def)

locale kept_by_steps =
  fixes R :: "signal_run \<Rightarrow> signal_run \<Rightarrow> bool"
  assumes same: "R r r"
    and chain: "R r s \<Longrightarrow> R s t \<Longrightarrow> R r t"
begin

lemma keeps_give [intro!]: "keeps R (give x)" and keeps_leave [intro!]: "keeps R leave"
  and keeps_checked [intro!]: "keeps R (checked v)"
  by (auto simp: keeps_def step_defs same split: sum.splits)

lemma keeps_failed [intro!]: "keeps R (\<lambda>r. (Failed e, r))"
  by (auto simp: keeps_def same)

lemma keeps_left [intro!]: "keeps R (\<lambda>r. leave r)"
  by (rule keeps_leave)

lemma keeps_proceed [intro!]:
  assumes "keeps R m" "\<And>x. keeps R (f x)"
  shows "keeps R (proceed m f)"
  unfolding keeps_def
proof (intro allI impI)
  fix r e r' assume "proceed m f r = (e, r')"
  then show "R r r'"
    by (cases rule: proceed_cases) (use assms chain in \<open>simp_all add: keeps_def, blast+\<close>)
qed

lemma keeps_raising [intro!]: "keeps R m \<Longrightarrow> keeps R (raising m)"
  unfolding raising_def by (intro keeps_proceed keeps_checked)

lemma keeps_if [intro!]: "keeps R m \<Longrightarrow> keeps R n \<Longrightarrow> keeps R (if b then m else n)"
  by simp

lemma keeps_branch [intro!]: "keeps R m \<Longrightarrow> keeps R n \<Longrightarrow> keeps R (\<lambda>r. if P r then m r else n r)"
  by (auto simp: keeps_def)

lemma keeps_alternative:
  "keeps R m \<Longrightarrow> (\<And>s. keeps R (proceed (n s) (f s))) \<Longrightarrow> keeps R (\<lambda>r. if P r then m r else proceed (n r) (f r) r)"
  by (auto simp: keeps_def)

lemma keeps_option:
  "keeps R m \<Longrightarrow> (\<And>x s. keeps R (proceed (n x s) (f x s)))
   \<Longrightarrow> keeps R (\<lambda>r. case g r of None \<Rightarrow> m r | Some x \<Rightarrow> proceed (n x r) (f x r) r)"
  by (auto simp: keeps_def split: option.splits)

lemma keeps_option_if:
  "keeps R m \<Longrightarrow> (\<And>x s. keeps R (proceed (n x s) (f x s)))
   \<Longrightarrow> keeps R (\<lambda>r. case g r of None \<Rightarrow> m r | Some x \<Rightarrow> if P r then proceed (n x r) (f x r) r else m r)"
  by (auto simp: keeps_def split: option.splits)

end

section \<open>What every step but the purchase keeps\<close>

text \<open>
  The purchase stays, reasons are only added, and the ledger and the counters change by relations \<open>L\<close> and \<open>A\<close> that
  hold for what other tasks do meanwhile and for the ledger operations a signal makes beside the purchase.
\<close>

locale signal_frame =
  fixes io :: signal_io and L :: "state_file \<Rightarrow> state_file \<Rightarrow> bool" and A :: "ws_activity \<Rightarrow> ws_activity \<Rightarrow> bool"
  assumes L_refl: "L f f" and L_trans: "L f g \<Longrightarrow> L g h \<Longrightarrow> L f h"
    and A_refl: "A a a" and A_trans: "A a b \<Longrightarrow> A b c \<Longrightarrow> A a c"
    and meanwhile: "L (paper_file w) (paper_file (meanwhile (point_of io k) w))
          \<and> A (counters w) (counters (meanwhile (point_of io k) w))"
    and analyzing: "L (paper_file w) (paper_file (while_analyzing io w)) \<and> A (counters w) (counters (while_analyzing io w))"
    and balance: "paper_cash_balance v l f = (x, f') \<Longrightarrow> L f f'"
    and rejection: "record_paper_rejection v l1 l2 f m n rs wallet sig = (y, f') \<Longrightarrow> L f f'"
    and skip: "record_rpc_skip v l1 l2 f m wallet sig t = (y, f') \<Longrightarrow> L f f'"
    and counted: "record_wallet_ws_activity name source a = Inr a' \<Longrightarrow> A a a'"
begin

definition frame :: "signal_run \<Rightarrow> signal_run \<Rightarrow> bool" where
  "frame r r' \<longleftrightarrow> purchase r' = purchase r \<and> observing r' = observing r \<and> prefix (objections r) (objections r')
     \<and> L (paper_file (world r)) (paper_file (world r')) \<and> A (counters (world r)) (counters (world r'))"

definition moves :: "signal_world \<Rightarrow> signal_world \<Rightarrow> bool" where
  "moves w w' \<longleftrightarrow> L (paper_file w) (paper_file w') \<and> A (counters w) (counters w')"

lemma moves_refl [simp, intro]: "moves w w"
  by (simp add: moves_def L_refl A_refl)

lemma moves_trans: "moves u v \<Longrightarrow> moves v w \<Longrightarrow> moves u w"
  by (auto simp: moves_def intro: L_trans A_trans)

lemma moves_update [simp]:
  "moves u (w\<lparr>observations_file := f\<rparr>) = moves u w" "moves u (w\<lparr>performance_files := fs\<rparr>) = moves u w"
  "moves u (w\<lparr>quote_slot := f\<rparr>) = moves u w" "moves u (w\<lparr>analyses := s\<rparr>) = moves u w"
  by (simp_all add: moves_def)

lemma moves_meanwhile: "moves w (meanwhile (point_of io k) w)" and moves_analyzing: "moves w (while_analyzing io w)"
  using meanwhile analyzing by (simp_all add: moves_def)

sublocale steps: kept_by_steps frame
  by unfold_locales (auto simp: frame_def L_refl A_refl intro: L_trans A_trans)

lemma keeps_at_point:
  assumes "\<And>c w x w'. op c w = (x, w') \<Longrightarrow> moves w w'"
  shows "keeps frame (at_point io k op)"
  using moves_trans [OF moves_meanwhile assms]
  by (auto simp: keeps_def frame_def at_point_def Let_def moves_def split: prod.splits)

lemma keeps_elsewhere [intro!]:
  "keeps frame (at_point io k (\<lambda>c. on_observations (h c)))" "keeps frame (at_point io k (\<lambda>c. on_wallets (g c)))"
  by (rule keeps_at_point; auto simp: on_observations_def on_wallets_def moves_def L_refl A_refl split: prod.splits)+

lemma keeps_reading [intro!]: "keeps frame (at_point io k (\<lambda>c w. (h c w, w)))"
  by (rule keeps_at_point) auto

lemma keeps_paper: "(\<And>c f x f'. h c f = (x, f') \<Longrightarrow> L f f') \<Longrightarrow> keeps frame (at_point io k (\<lambda>c. on_paper (h c)))"
  by (rule keeps_at_point) (auto simp: on_paper_def moves_def A_refl split: prod.splits)

lemma keeps_ledger [intro!]:
  "keeps frame (at_point io k (\<lambda>c. on_paper (paper_cash_balance (ledger_calls c) (first_lock c))))"
  "keeps frame (at_point io k (\<lambda>c. on_paper (\<lambda>f. record_paper_rejection (ledger_calls c) (first_lock c) (second_lock c) f m n rs wallet sig)))"
  "keeps frame (at_point io k (\<lambda>c. on_paper (\<lambda>f. record_rpc_skip (ledger_calls c) (first_lock c) (second_lock c) f m wallet sig t)))"
  by (rule keeps_paper, fact balance rejection skip)+

lemma keeps_change: "(\<And>r. frame r (g r)) \<Longrightarrow> keeps frame (change g)"
  by (simp add: keeps_def change_def)

lemma keeps_variables [intro!]:
  "keeps frame (change (\<lambda>r. r\<lparr>observed_as := o1\<rparr>))"
  "keeps frame (change (\<lambda>r. r\<lparr>analyzer_started := b\<rparr>))" "keeps frame (change (\<lambda>r. r\<lparr>analyzed_text := o1\<rparr>))"
  "keeps frame (change (\<lambda>r. r\<lparr>safety_snapshot := d\<rparr>))" "keeps frame (change (\<lambda>r. r\<lparr>preflight_started := b\<rparr>))"
  "keeps frame (change (\<lambda>r. r\<lparr>preflight_finished := b\<rparr>))" "keeps frame (change (\<lambda>r. r\<lparr>objections := objections r @ against\<rparr>))"
  by (rule keeps_change, simp add: frame_def L_refl A_refl)+

lemma keeps_unless [intro!]: "keeps frame (change (\<lambda>r. if b then r else r\<lparr>objections := objections r @ against\<rparr>))"
  by (rule keeps_change) (simp add: frame_def L_refl A_refl)

lemma keeps_object [intro!]: "keeps frame (object reason)"
  by (auto simp: keeps_def object_def frame_def Let_def L_refl A_refl)

lemma keeps_count [intro!]: "keeps frame (count_for_route_a p name)"
  by (auto simp: keeps_def count_for_route_a_def frame_def L_refl A_refl dest: counted split: sum.splits if_splits)

lemmas keeps_rules = steps.keeps_proceed steps.keeps_checked keeps_variables steps.keeps_if steps.keeps_raising
  keeps_elsewhere keeps_count steps.keeps_give steps.keeps_branch steps.keeps_leave keeps_object keeps_unless

text \<open>The discovery after the mode was read.\<close>

lemma keeps_observe: "keeps frame (observe_candidate io m p b)"
  unfolding observe_candidate_def by (intro keeps_rules; (rule keeps_parameter)?; intro keeps_rules)

lemma discover_frame:
  assumes "discover_candidate io m p r = (e, r')"
  shows "r' = r \<or> (\<exists>b. observation_mode_enabled (variables io) = Inr b \<and> frame (r\<lparr>observing := b\<rparr>) r')"
proof (cases "observation_mode_enabled (variables io)")
  case (Inr b)
  then show ?thesis using assms
    by (auto simp: discover_candidate_def proceed_def checked_def change_def dest: keepsD [OF keeps_observe])
qed (use assms in \<open>auto simp: discover_candidate_def proceed_def checked_def\<close>)

lemma keeps_streak: "keeps frame (size_after_losses io p)"
  unfolding size_after_losses_def
  by (auto split: option.splits sum.splits)

lemma keeps_cooldown: "keeps frame (check_cooldown io m)"
  unfolding check_cooldown_def by auto

lemma await_moves: "await_analysis io m w = (x, w') \<Longrightarrow> moves w w'"
proof -
  have "moves w (while_analyzing io (w\<lparr>analyses := s\<rparr>))" for s
    by (rule moves_trans [OF _ moves_analyzing]) simp
  then show "await_analysis io m w = (x, w') \<Longrightarrow> moves w w'"
    by (auto simp: await_analysis_def Let_def split: sum.splits if_splits prod.splits lookup.splits)
qed

lemma keeps_analysis: "keeps frame (analyze_signal io m p)"
  unfolding analyze_signal_def
  by (intro steps.keeps_proceed keeps_count keeps_variables keeps_at_point)
    (auto simp: Let_def dest: await_moves split: prod.splits sum.splits)

lemma keeps_unsafe: "keeps frame (record_unsafe io m p report)"
  unfolding record_unsafe_def by auto

lemma keeps_judge: "keeps frame (judge_report io m p report)"
  unfolding judge_report_def Let_def
  by (intro keeps_rules keeps_unsafe; (rule keeps_parameter)?; intro keeps_rules keeps_unsafe)

lemma keeps_close: "keeps frame (close_candidate io k oid c)"
  unfolding close_candidate_def by (rule keeps_elsewhere)

lemma keeps_size: "keeps frame (size_signal io p report multiplier)"
  unfolding size_signal_def
  by (intro keeps_rules keeps_ledger steps.keeps_option keeps_close)

lemma keeps_no_exit: "keeps frame (no_exit io m p report x)"
  unfolding no_exit_def by (intro keeps_rules keeps_ledger)

lemma keeps_quote: "keeps frame (quote_at_point io k attempts)"
  unfolding quote_at_point_def by (rule keeps_at_point) (auto split: prod.splits)

lemma keeps_exit: "keeps frame (quote_exit io m p report tokens)"
  unfolding quote_exit_def
  by (auto intro!: keeps_quote keeps_no_exit split: sum.splits)

lemma keeps_quotes: "keeps frame (quote_signal io m p report cost)"
  unfolding quote_signal_def split_beta by (intro keeps_rules keeps_quote keeps_exit)

lemma keeps_decide: "keeps frame (decide_signal io m p report price)"
  unfolding decide_signal_def by (intro steps.keeps_alternative keeps_rules)

lemma keeps_mark: "keeps frame (mark_experiment io k oid state position)"
  unfolding mark_experiment_def by (intro keeps_rules)

lemma keeps_analysis_failed: "keeps frame (analysis_failed p)"
  unfolding analysis_failed_def by (intro keeps_rules)

lemma keeps_close_after: "keeps frame (close_after_failure io verdict reason)"
  unfolding close_after_failure_def by (intro steps.keeps_option_if keeps_rules keeps_close)

lemma keeps_refused: "keeps frame (refused_purchase io broad x)"
  unfolding refused_purchase_def by (intro steps.keeps_option_if keeps_rules steps.keeps_failed keeps_mark)

lemma keeps_book: "keeps frame (book_purchase io m p broad position_id)"
  unfolding book_purchase_def by (intro steps.keeps_option_if keeps_rules keeps_mark)

lemma keeps_handlers: "keeps frame (handle_runtime_error io m p e)" "keeps frame (handle_exception io p)"
  unfolding handle_runtime_error_def handle_exception_def
  by (intro keeps_rules keeps_ledger keeps_analysis_failed keeps_close_after)+

end

section \<open>A signal goes on without objections, or observed\<close>

definition unopposed :: "signal_run \<Rightarrow> bool" where
  "unopposed r \<longleftrightarrow> observing r \<or> objections r = []"

definition sound :: "'a step \<Rightarrow> bool" where
  "sound m \<longleftrightarrow> (\<forall>r x r'. m r = (Next x, r') \<longrightarrow> unopposed r \<longrightarrow> unopposed r')"

lemma soundD: "sound m \<Longrightarrow> m r = (Next x, r') \<Longrightarrow> unopposed r \<Longrightarrow> unopposed r'"
  by (auto simp: sound_def)

lemma sound_basic [intro!]: "sound (give x)" "sound leave" "sound (checked v)" "sound (at_point io k op)"
  "sound (object reason)" "sound (count_for_route_a p name)" "sound (\<lambda>r. (Failed e, r))"
  by (auto simp: sound_def unopposed_def step_defs count_for_route_a_def split: sum.splits if_splits prod.splits)

lemma sound_change: "(\<And>r. observing (g r) = observing r \<and> objections (g r) = objections r) \<Longrightarrow> sound (change g)"
  by (auto simp: sound_def unopposed_def change_def)

lemma sound_variables [intro!]:
  "sound (change (\<lambda>r. r\<lparr>observed_as := o1\<rparr>))" "sound (change (\<lambda>r. r\<lparr>analyzer_started := b\<rparr>))"
  "sound (change (\<lambda>r. r\<lparr>analyzed_text := o1\<rparr>))" "sound (change (\<lambda>r. r\<lparr>safety_snapshot := d\<rparr>))"
  "sound (change (\<lambda>r. r\<lparr>preflight_started := b\<rparr>))" "sound (change (\<lambda>r. r\<lparr>preflight_finished := b\<rparr>))"
  by (rule sound_change, simp)+

lemma sound_proceed [intro!]: "sound m \<Longrightarrow> (\<And>x. sound (f x)) \<Longrightarrow> sound (proceed m f)"
  unfolding sound_def by (auto elim!: proceed_cases)

lemma sound_raising [intro!]: "sound m \<Longrightarrow> sound (raising m)"
  unfolding raising_def by (intro sound_proceed sound_basic)

lemma sound_branch [intro!]: "sound m \<Longrightarrow> sound n \<Longrightarrow> sound (\<lambda>r. if P r then m r else n r)"
  by (auto simp: sound_def)

lemma sound_option [intro]:
  "sound m \<Longrightarrow> (\<And>x s. sound (proceed (n x s) (f x s)))
   \<Longrightarrow> sound (\<lambda>r. case g r of None \<Rightarrow> m r | Some x \<Rightarrow> proceed (n x r) (f x r) r)"
  by (auto simp: sound_def split: option.splits)

lemma sound_if [intro!]: "sound m \<Longrightarrow> sound n \<Longrightarrow> sound (if b then m else n)"
  by simp

lemma sound_before_quotes:
  "sound (size_after_losses io p)" "sound (check_cooldown io m)" "sound (analyze_signal io m p)"
  unfolding size_after_losses_def check_cooldown_def analyze_signal_def
  by (auto split: option.splits sum.splits)

lemma sound_size: "sound (size_signal io p report multiplier)"
  unfolding size_signal_def close_candidate_def
  by (intro sound_proceed sound_raising sound_basic sound_if sound_option)

lemma sound_quotes: "sound (quote_signal io m p report cost)"
  unfolding quote_signal_def split_beta quote_exit_def no_exit_def quote_at_point_def
  by (auto split: sum.splits)

interpretation plain: signal_frame io "\<lambda>_ _. True" "\<lambda>_ _. True" for io
  by unfold_locales simp_all

lemma discovery_unopposed:
  assumes "discover_candidate io m p r = (Next x, r')"
  shows "unopposed r' \<and> observation_mode_enabled (variables io) = Inr (observing r')"
proof (cases "observation_mode_enabled (variables io)")
  case (Inr b)
  then have o: "observe_candidate io m p b (r\<lparr>observing := b\<rparr>) = (Next x, r')"
    using assms by (simp add: discover_candidate_def proceed_def checked_def change_def)
  have "observing r' = b" using keepsD [OF plain.keeps_observe o] by (simp add: plain.frame_def)
  moreover have "b \<or> objections r' = []"
    using o by (auto simp: observe_candidate_def step_defs split: if_splits)
  ultimately show ?thesis using Inr by (simp add: unopposed_def)
qed (use assms in \<open>auto simp: discover_candidate_def proceed_def checked_def\<close>)

section \<open>What each gate has checked\<close>

text \<open>The files and the state of the analyzer that a step meets, after what the others did to them.\<close>

definition seen :: "signal_io \<Rightarrow> point \<Rightarrow> signal_run \<Rightarrow> signal_world" where
  "seen io k r = meanwhile (point_of io k) (world r)"

text \<open>The streak of losses in the ledger \<open>f\<close> does not pause the first route, and \<open>d\<close> is the share of its size.\<close>

definition losses_allow :: "point_io \<Rightarrow> state_file \<Rightarrow> string \<Rightarrow> decimal \<Rightarrow> bool" where
  "losses_allow c f route d \<longleftrightarrow> (if route = ''A''
     then \<exists>losses latest. get_route_initial_stop_streak (first_lock c) f ''A'' = Inr (losses, latest)
       \<and> \<not> (3 \<le> losses \<and> f64_lt (Fin 0) latest \<and> f64_lt (f64_sub (clock_seconds c) latest) (Fin 21600))
       \<and> d = (if 2 \<le> losses then Dec (1/2) else Dec 1)
     else d = Dec 1)"

text \<open>By the ledger \<open>f\<close> the token was neither stopped out within a day nor bought within 45 minutes.\<close>

definition cooled_down :: "point_io \<Rightarrow> state_file \<Rightarrow> string \<Rightarrow> bool" where
  "cooled_down c f m \<longleftrightarrow> (\<exists>stopped traded. get_recent_stop_loss_time (first_lock c) f m 50 = Inr stopped
     \<and> get_last_trade_time (second_lock c) f m = Inr traded
     \<and> \<not> (f64_lt (Fin 0) stopped \<and> f64_lt (f64_sub (clock_seconds c) stopped) (Fin 86400))
     \<and> \<not> (f64_lt (Fin 0) traded \<and> f64_lt (f64_sub (clock_seconds c) traded) (Fin 2700)))"

text \<open>The report that the analyzer gives in the state \<open>s\<close>: the one of its cache if it has not expired, else that of the
  running task for the token, else that of a run of its own.\<close>

definition gives_report :: "signal_io \<Rightarrow> string \<Rightarrow> analyzer_state \<Rightarrow> safety_report \<Rightarrow> bool" where
  "gives_report io m s report \<longleftrightarrow> mint_is_key io \<and> (\<exists>settings. analyzer_settings_from_env (variables io) = Inr settings
     \<and> (if \<exists>expires cached. map_of (analysis_cache s) (m, settings) = Some (expires, cached) \<and> f64_lt (lookup_at io) expires
        then \<exists>expires. map_of (analysis_cache s) (m, settings) = Some (expires, report)
        else case map_of (analysis_flights s) (m, settings) of
            Some task \<Rightarrow> analysis_result io m settings (joined_replies io task) = Inr report
          | None \<Rightarrow> analysis_result io m settings (own_replies io) = Inr report))"

text \<open>The report lets the route in; the second route also needs a score, a liquidity and a lock.\<close>

definition no_less :: "py \<Rightarrow> rat \<Rightarrow> bool" where
  "no_less v least \<longleftrightarrow> (\<exists>x. finite_float_or_none v = Inr (Some (Fin x)) \<and> least \<le> x)"

definition admits :: "string \<Rightarrow> safety_report \<Rightarrow> bool" where
  "admits route report \<longleftrightarrow>
     (route = ''A'' \<and> report_route report = Some ''A''
      \<or> route = ''B'' \<and> (report_route report = Some ''A'' \<or> report_route report = Some ''B'')
        \<and> no_less (PInt (safety_report.safety_score report)) 55
        \<and> no_less (opt_str (report_liquidity_usd report)) 10000 \<and> no_less (opt_str (lp_locked_percent report)) 40)"

lemma gate_constants:
  "ROUTE_A_PAUSE_SECONDS = Fin 21600" "STOP_LOSS_TOKEN_COOLDOWN_SECONDS = Fin 86400" "TOKEN_TRADE_COOLDOWN_SECONDS = Fin 2700"
  "ROUTE_B_MIN_LIQUIDITY_USD = Fin 10000" "ROUTE_B_MIN_LP_LOCKED_PERCENT = Fin 40"
  by code_simp+

lemma multiplier_allows:
  "route_a_entry_multiplier losses latest now = Some d \<longleftrightarrow>
     \<not> (3 \<le> losses \<and> f64_lt (Fin 0) latest \<and> f64_lt (f64_sub now latest) (Fin 21600)) \<and> d = (if 2 \<le> losses then Dec (1/2) else Dec 1)"
  by (auto simp: route_a_entry_multiplier_def younger_than_def gate_constants ROUTE_A_PAUSE_STREAK_def ROUTE_A_LOSS_SIZE_REDUCTION_STREAK_def)

lemma losses_gate:
  assumes "size_after_losses io p r = (Next d, r')" "objections r' = []"
  shows "losses_allow (point_of io Streak) (paper_file (seen io Streak r)) (ps_route p) d"
proof -
  have "if ps_route p = ''A''
    then \<exists>losses latest. get_route_initial_stop_streak (first_lock (point_of io Streak)) (paper_file (seen io Streak r)) ''A'' = Inr (losses, latest)
      \<and> route_a_entry_multiplier losses latest (clock_seconds (point_of io Streak)) = Some d
    else d = Dec 1"
    using assms
    by (auto simp: size_after_losses_def step_defs seen_def elim!: proceed_cases split: sum.splits option.splits if_splits prod.splits)
  then show ?thesis unfolding losses_allow_def multiplier_allows .
qed

lemma cooldown_gate:
  assumes "check_cooldown io m r = (Next x, r')" "objections r' = []"
  shows "cooled_down (point_of io Cooldown) (paper_file (seen io Cooldown r)) m"
proof -
  have "\<not> token_cooldown_is_active (first_lock (point_of io Cooldown)) (second_lock (point_of io Cooldown))
      (paper_file (seen io Cooldown r)) m (clock_seconds (point_of io Cooldown))"
    using assms by (auto simp: check_cooldown_def step_defs seen_def elim!: proceed_cases split: if_splits)
  then show ?thesis
    by (auto simp: cooled_down_def token_cooldown_is_active_def younger_than_def gate_constants STOP_LOSS_BLACKLIST_MAX_TOKENS_def
        bindE_def split: sum.splits)
qed

lemma await_report:
  assumes "await_analysis io m w = (Inr report, w')"
  shows "gives_report io m (analyses w) report"
  using assms unfolding gives_report_def
  by (auto simp: await_analysis_def analyze_token_def Let_def split: sum.splits if_splits prod.splits option.splits)

lemma analysis_gate:
  assumes "analyze_signal io m p r = (Next report, r')"
  obtains q where "count_for_route_a p ''analyzer_reached'' r = (Next (), q)" "gives_report io m (analyses (seen io Analysis q)) report"
  using assms that
  by (auto simp: analyze_signal_def step_defs seen_def elim!: proceed_cases split: sum.splits prod.splits dest!: await_report)

lemma at_least_no_less: "finite_float_or_none v = Inr x \<Longrightarrow> at_least (Fin least) x \<Longrightarrow> no_less v least"
  by (cases x; cases "the x")
    (auto simp: at_least_def no_less_def f64_lt_def finite_float_or_none_def split: py.splits sum.splits if_splits)

lemma route_b_filter_admits:
  assumes "route_b_safety_filter report = Inr True"
  shows "no_less (PInt (safety_report.safety_score report)) 55
    \<and> no_less (opt_str (report_liquidity_usd report)) 10000 \<and> no_less (opt_str (lp_locked_percent report)) 40"
  using assms by (auto simp: route_b_safety_filter_def bindE_eq_Inr gate_constants ROUTE_B_MIN_SAFETY_SCORE_def intro: at_least_no_less)

lemma judge_gate:
  assumes "judge_report io m p report r = (Next x, r')" "objections r' = []"
  shows "admits (ps_route p) report"
proof -
  define filters where "filters = (if ps_route p = ''B''
              then proceed (checked (route_b_safety_filter report)) (\<lambda>safe.
                change (\<lambda>r. if safe then r else r\<lparr>objections := objections r @ [''ROUTE_B_SAFETY_FILTER_REJECTED'']\<rparr>))
              else give ())"
  define route where "route = (if route_report_allowed (ps_route p) (report_route report) then give ()
              else (\<lambda>r. let operational = (objections r = []) in
                proceed (change (\<lambda>r. r\<lparr>objections := objections r @ [''ANALYZER_ROUTE_REJECTED'']\<rparr>)) (\<lambda>_.
                  if operational then record_unsafe io m p report else give ()) r))"
  have "proceed filters (\<lambda>_. proceed route (\<lambda>_ r. if objections r \<noteq> [] \<and> \<not> observing r then leave r else give () r)) r = (Next (), r')"
    using assms(1) unfolding judge_report_def filters_def route_def by simp
  then obtain r1 where r1: "filters r = (Next (), r1)" "route r1 = (Next (), r')"
    by (auto simp: step_defs elim!: proceed_cases split: if_splits)
  have unsafe: "prefix (objections q) (objections q')" if "record_unsafe io m p report q = (e, q')" for q e q'
    using keepsD [OF plain.keeps_unsafe that] by (simp add: plain.frame_def)
  have allowed: "route_report_allowed (ps_route p) (report_route report) \<and> objections r1 = []"
    using r1(2) assms(2) by (auto simp: route_def step_defs elim!: proceed_cases dest!: unsafe split: if_splits)
  then have "ps_route p = ''B'' \<longrightarrow> route_b_safety_filter report = Inr True"
    using r1(1) by (auto simp: filters_def step_defs elim!: proceed_cases split: if_splits sum.splits)
  with allowed show ?thesis
    by (auto simp: admits_def route_report_allowed_def split: if_splits dest: route_b_filter_admits)
qed

lemma judge_unopposed: "judge_report io m p report r = (Next x, r') \<Longrightarrow> unopposed r'"
  by (auto simp: judge_report_def give_def leave_def unopposed_def elim!: proceed_cases split: if_splits)

text \<open>The cost is sized from the cash that the ledger \<open>f\<close> holds.\<close>

definition sized :: "point_io \<Rightarrow> state_file \<Rightarrow> string \<Rightarrow> decimal \<Rightarrow> int \<Rightarrow> bool" where
  "sized c f route d cost \<longleftrightarrow> 0 < cost \<and> (\<exists>balance. fst (paper_cash_balance (ledger_calls c) (first_lock c) f) = Inr balance
     \<and> signal_cost balance route d = Inr cost \<and> (0 \<le> balance \<and> balance < 10 ^ 26 \<longrightarrow> cost * 200 \<le> balance))"

lemma dec_mul_share:
  assumes "0 \<le> a" "a < 10 ^ 26" "d = Dec 1 \<or> d = Dec (1/2)" "bindE (dec_mul (Dec (of_int a)) d) dec_trunc = Inr cost"
  shows "cost \<le> a"
proof -
  obtain k :: int where d: "d = Dec (of_int k / 100)" "k = 100 \<or> k = 50" using assms(3) by (auto intro: that)
  have "\<bar>k * a\<bar> < 10 ^ 28" using assms(1,2) d(2) by auto
  from dec_round_hundredths [OF this] have r: "dec_round (of_int a * (of_int k / 100)) = of_int (k * a) / 100"
    by (simp add: mult.commute)
  have "dec_mul (Dec (of_int a)) d = Inr (Dec (of_int (k * a) / 100))"
    by (simp only: dec_mul_def dec_nan_def d r prod.case decimal.case decimal.distinct if_False disj_not1 simp_thms)
  then have "cost = trunc_rat (of_int (k * a) / 100)" using assms(4) by simp
  then have "cost = k * a div 100"
    using assms(1) d(2) floor_divide_of_int_eq [of "k * a" 100, where 'a = rat] by (auto simp: trunc_rat_def)
  then show ?thesis using assms(1) d(2) by auto
qed

lemma cost_share:
  assumes "signal_cost balance route d = Inr cost" "d = Dec 1 \<or> d = Dec (1/2)" "0 \<le> balance" "balance < 10 ^ 26"
  shows "cost * 200 \<le> balance"
proof -
  let ?n = "balance * 50 div 10000"
  have n: "0 \<le> ?n" "?n < 10 ^ 26" "?n * 200 \<le> balance" using assms(3,4) by auto
  obtain a where a: "route_sized_amount ?n route = Inr a" "bindE (dec_mul (Dec (of_int a)) d) dec_trunc = Inr cost"
    using assms(1) by (auto simp: signal_cost_def SIGNAL_BASIS_POINTS_def bindE_eq_Inr)
  have "0 \<le> a" "a \<le> ?n" using sized_amount_cases [OF a(1) n(1,2)] n(1) by auto
  moreover from this have "cost \<le> a" using dec_mul_share [OF _ _ assms(2) a(2)] n(2) by simp
  ultimately show ?thesis using n(3) by linarith
qed

lemma size_gate:
  assumes "size_signal io p report d r = (Next cost, r')" "losses_allow c f (ps_route p) d"
  shows "sized (point_of io Cash) (paper_file (seen io Cash r)) (ps_route p) d cost"
proof -
  obtain balance where b: "fst (paper_cash_balance (ledger_calls (point_of io Cash)) (first_lock (point_of io Cash)) (paper_file (seen io Cash r)))
      = Inr balance" "signal_cost balance (ps_route p) d = Inr cost" "0 < cost"
    using assms(1) by (auto simp: size_signal_def give_def leave_def checked_def raising_def at_point_def on_paper_def seen_def Let_def
      elim!: proceed_cases split: sum.splits option.splits if_splits prod.splits)
  moreover have "d = Dec 1 \<or> d = Dec (1/2)" using assms(2) by (auto simp: losses_allow_def split: if_splits)
  ultimately show ?thesis unfolding sized_def using cost_share by blast
qed

text \<open>The entry was quoted for the cost and the exit for the tokens of that quote; the impacts are those of the quotes.\<close>

definition quoted :: "signal_io \<Rightarrow> signal_run \<Rightarrow> int \<Rightarrow> int \<Rightarrow> f64 \<Rightarrow> f64 \<Rightarrow> bool" where
  "quoted io r cost tokens entry leaving \<longleftrightarrow> (\<exists>quote pauses slot back x y.
     jupiter_quote (entry_attempts io cost) 100 False (quote_slot (seen io EntryQuote r)) = (Inr quote, pauses, slot)
     \<and> bindE (dindex quote ''outAmount'') py_int = Inr tokens
     \<and> fst (jupiter_quote (exit_attempts io tokens) 100 False
         (quote_slot (meanwhile (point_of io ExitQuote) ((seen io EntryQuote r)\<lparr>quote_slot := slot\<rparr>)))) = Inr back
     \<and> entry_price_impact_pct quote = Inr (Fin x) \<and> entry = Fin x \<and> 0 \<le> x \<and> x \<le> 3/2
     \<and> entry_price_impact_pct back = Inr (Fin y) \<and> leaving = Fin y \<and> 0 \<le> y \<and> y < 7/2)"

lemma exit_gate:
  assumes "quote_exit io m p report tokens r = (Next (Some y), r')"
  shows "\<exists>back. fst (jupiter_quote (exit_attempts io tokens) 100 False (quote_slot (seen io ExitQuote r))) = Inr back
    \<and> validate_exit_price_impact back = Inr y"
  using assms by (auto simp: quote_exit_def quote_at_point_def seen_def step_defs bindE_eq_Inr elim!: proceed_cases split: sum.splits if_splits prod.splits)

lemma quotes_steps:
  assumes "quote_signal io m p report cost r = (Next price, r')"
  obtains quote q q' where "raising (quote_at_point io EntryQuote (entry_attempts io cost)) (r\<lparr>preflight_started := True\<rparr>) = (Next quote, q)"
    "validate_entry_price_impact quote = Inr (price_impact price)" "bindE (dindex quote ''outAmount'') py_int = Inr (price_tokens price)"
    "quote_exit io m p report (price_tokens price) q = (Next (price_exit_impact price), q')" "price_cost price = cost"
  using assms
  by (auto simp: quote_signal_def checked_def change_def give_def elim!: proceed_cases split: sum.splits prod.splits)

lemma quotes_gate:
  assumes "quote_signal io m p report cost r = (Next price, r')"
  shows "price_cost price = cost
    \<and> (\<forall>y. price_exit_impact price = Some y \<longrightarrow> quoted io r cost (price_tokens price) (price_impact price) y)"
proof -
  obtain quote q q' where q: "raising (quote_at_point io EntryQuote (entry_attempts io cost)) (r\<lparr>preflight_started := True\<rparr>) = (Next quote, q)"
    "validate_entry_price_impact quote = Inr (price_impact price)" "bindE (dindex quote ''outAmount'') py_int = Inr (price_tokens price)"
    "quote_exit io m p report (price_tokens price) q = (Next (price_exit_impact price), q')" "price_cost price = cost"
    by (rule quotes_steps [OF assms])
  obtain pauses slot where slot: "jupiter_quote (entry_attempts io cost) 100 False (quote_slot (seen io EntryQuote r)) = (Inr quote, pauses, slot)"
      "world q = (seen io EntryQuote r)\<lparr>quote_slot := slot\<rparr>"
    using q(1) by (auto simp: raising_def quote_at_point_def at_point_def checked_def seen_def Let_def elim!: proceed_cases split: prod.splits sum.splits)
  have "quoted io r cost (price_tokens price) (price_impact price) y" if "price_exit_impact price = Some y" for y
    using exit_gate [of io m p report "price_tokens price" q y q'] q that slot entry_impact_range [OF q(2)] unfolding quoted_def
    by (fastforce simp: seen_def dest!: exit_impact_range)
  with q(5) show ?thesis by blast
qed

lemma decide_gate:
  assumes "decide_signal io m p report price r = (Next broad, r')" "unopposed r"
  shows "objections r' = [] \<and> broad = observing r'
    \<and> (broad \<longrightarrow> approved_signal_paper_mode_enabled (variables io) = Inr True \<and> observed_as r' \<noteq> None)"
  using assms
  by (auto simp: decide_signal_def step_defs unopposed_def elim!: proceed_cases split: sum.splits prod.splits if_splits)

lemma buy_gate:
  assumes "buy_signal io m p report price broad r = (e, r')" "purchase r = None" "purchase r' = Some (b, i)"
  shows "purchase_request io m p report price broad r = Inr b \<and> observing r' = observing r
    \<and> (\<exists>f'. record_paper_buy (ledger_calls (point_of io Purchase)) (first_lock (point_of io Purchase))
           (second_lock (point_of io Purchase)) (paper_file (seen io Purchase r)) b = (Inr i, f'))"
  using assms
  by (auto simp: seen_def buy_signal_def try_purchase_def at_point_def on_paper_def change_def plain.frame_def Let_def
      elim!: proceed_cases dest!: keepsD [OF plain.keeps_refused] keepsD [OF plain.keeps_book] split: sum.splits prod.splits)

section \<open>The way to a purchase\<close>

lemma proceed_NextE:
  assumes "proceed m f r = (Next y, r')"
  obtains x r1 where "m r = (Next x, r1)" "f x r1 = (Next y, r')"
  using assms by (auto elim: proceed_cases)

context signal_frame
begin

definition later :: "signal_run \<Rightarrow> signal_run \<Rightarrow> bool" where
  "later r r' \<longleftrightarrow> purchase r' = purchase r \<and> prefix (objections r) (objections r')
     \<and> L (paper_file (world r)) (paper_file (world r')) \<and> A (counters (world r)) (counters (world r'))"

lemma later_refl: "later r r"
  by (simp add: later_def L_refl A_refl)

lemma later_trans: "later r s \<Longrightarrow> later s t \<Longrightarrow> later r t"
  by (auto simp: later_def intro: L_trans A_trans)

lemma frame_later: "frame r r' \<Longrightarrow> later r r'"
  by (simp add: frame_def later_def)

lemma discover_later: "discover_candidate io m p r = (e, r') \<Longrightarrow> later r r'"
  by (drule discover_frame) (auto simp: later_def frame_def L_refl A_refl)

sublocale weak: kept_by_steps later
  by unfold_locales (auto intro: later_refl later_trans)

lemma weaken: "keeps frame m \<Longrightarrow> keeps later m"
  by (auto simp: keeps_def intro: frame_later)

lemmas keeps_stages = keeps_streak keeps_cooldown keeps_analysis keeps_judge keeps_size keeps_quotes keeps_decide

lemma prepare_later: "keeps later (prepare_signal io m p)"
  unfolding prepare_signal_def
  by (intro weak.keeps_proceed weak.keeps_give weaken [OF keeps_streak] weaken [OF keeps_cooldown] weaken [OF keeps_analysis]
      weaken [OF keeps_judge] weaken [OF keeps_size] weaken [OF keeps_quotes] weaken [OF keeps_decide])
    (auto simp: keeps_def intro: discover_later)

text \<open>The variables at the gates of a signal that reached the purchase without objections.\<close>

lemma prepared_stages:
  assumes "prepare_signal io m p (begin_signal p w) = (Next (report, price, broad), r8)"
  obtains r1 r2 r3 r4 r5 r6 r7 d where
    "discover_candidate io m p (begin_signal p w) = (Next (), r1)" "size_after_losses io p r1 = (Next d, r2)"
    "check_cooldown io m r2 = (Next (), r3)" "analyze_signal io m p r3 = (Next report, r4)"
    "judge_report io m p report r4 = (Next (), r5)" "size_signal io p report d r5 = (Next (price_cost price), r6)"
    "quote_signal io m p report (price_cost price) r6 = (Next price, r7)"
    "decide_signal io m p report price r7 = (Next broad, r8)"
    "ps_prefilter p = []" "objections r2 = []" "objections r3 = []" "objections r5 = []" "objections r8 = []"
    "observation_mode_enabled (variables io) = Inr (observing r8)" "purchase r8 = None" "later (begin_signal p w) r5" "unopposed r7"
    "later (begin_signal p w) r1" "later (begin_signal p w) r2" "later (begin_signal p w) r8"
proof -
  from assms obtain r1 r2 r3 r4 r5 r6 r7 d cost where
    r1: "discover_candidate io m p (begin_signal p w) = (Next (), r1)" and r2: "size_after_losses io p r1 = (Next d, r2)" and
    r3: "check_cooldown io m r2 = (Next (), r3)" and r4: "analyze_signal io m p r3 = (Next report, r4)" and
    r5: "judge_report io m p report r4 = (Next (), r5)" and r6: "size_signal io p report d r5 = (Next cost, r6)" and
    r7: "quote_signal io m p report cost r6 = (Next price, r7)" and r8: "decide_signal io m p report price r7 = (Next broad, r8)"
    by (auto simp: prepare_signal_def give_def elim!: proceed_NextE)
  note f = keepsD [OF keeps_streak r2] keepsD [OF keeps_cooldown r3] keepsD [OF keeps_analysis r4] keepsD [OF keeps_judge r5]
    keepsD [OF keeps_size r6] keepsD [OF keeps_quotes r7] keepsD [OF keeps_decide r8]
  have l: "later (begin_signal p w) r1" "later r1 r2" "later r2 r3" "later r3 r4" "later r4 r5" "later r5 r6" "later r6 r7" "later r7 r8"
    using discover_later [OF r1] f [THEN frame_later] by simp_all
  have o: "observing r8 = observing r1" using f by (simp add: frame_def)
  have "unopposed r7" using soundD [OF sound_quotes r7] soundD [OF sound_size r6] judge_unopposed [OF r5] by blast
  note u7 = this
  then have e8: "objections r8 = []" using decide_gate [OF r8] by simp
  then have e: "objections r7 = []" "objections r6 = []" "objections r5 = []" "objections r4 = []" "objections r3 = []"
    "objections r2 = []" "objections r1 = []" "ps_prefilter p = []" "purchase r8 = None"
    using l by (auto simp: later_def begin_signal_def)
  have c: "cost = price_cost price" using quotes_gate [OF r7] by simp
  have l2: "later (begin_signal p w) r2" using l(1,2) by (rule later_trans)
  have l5: "later (begin_signal p w) r5" using l2 l(3-5) by (blast intro: later_trans)
  have l8: "later (begin_signal p w) r8" using l5 l(6-8) by (blast intro: later_trans)
  show thesis
    by (rule that [OF r1 r2 r3 r4 r5 r6 [unfolded c] r7 [unfolded c] r8])
      (use e e8 discovery_unopposed [OF r1] o l(1) l2 l5 l8 u7 in simp_all)
qed

end

text \<open>The handlers keep the purchase.\<close>

lemma processed_enters:
  assumes "process_paper_signal stopping tracked io m p w = (e, r)" "purchase r = Some (b, i)"
  obtains e1 r1 where "enter_signal io m p (begin_signal p w) = (e1, r1)" "purchase r1 = Some (b, i)" "observing r1 = observing r"
proof -
  obtain e1 r1 where enter: "enter_signal io m p (begin_signal p w) = (e1, r1)" by fastforce
  have "process_paper_signal_control io m p w = (e, r)"
    using assms by (auto simp: process_paper_signal_def begin_signal_def split: if_splits)
  then have "purchase r1 = purchase r \<and> observing r1 = observing r" using enter
    by (auto simp: process_paper_signal_control_def plain.frame_def dest!: keepsD [OF plain.keeps_handlers(1)]
        keepsD [OF plain.keeps_handlers(2)] split: flow.splits if_splits)
  then show thesis using that [OF enter] assms(2) by simp
qed

lemma request_Inr:
  assumes "purchase_request io m p report price broad r = Inr b"
  shows "\<exists>slippage limit y. b = signal_buy io m p report price broad slippage limit y r \<and> price_exit_impact price = Some y
    \<and> (if broad then \<exists>n. approved_signal_max_open_positions (variables io) = Inr n \<and> limit = Some n else limit = None)"
  using assms by (auto simp: purchase_request_def bindE_eq_Inr split: option.splits if_splits) blast+

text \<open>What may happen to the ledger on the way: the changes of others, and the calls of the signal itself.\<close>

inductive ledger_moves :: "signal_io \<Rightarrow> state_file \<Rightarrow> state_file \<Rightarrow> bool" for io where
  others: "ledger_moves io (paper_file v) (paper_file (meanwhile (point_of io k) v))"
| analyzing: "ledger_moves io (paper_file v) (paper_file (while_analyzing io v))"
| balance: "paper_cash_balance e l f = (x, f') \<Longrightarrow> ledger_moves io f f'"
| rejection: "record_paper_rejection e l1 l2 f m n rs wallet sig = (y, f') \<Longrightarrow> ledger_moves io f f'"
| skip: "record_rpc_skip e l1 l2 f m wallet sig t = (y, f') \<Longrightarrow> ledger_moves io f f'"

interpretation moved: signal_frame io "(ledger_moves io)\<^sup>*\<^sup>*" "\<lambda>_ _. True" for io
  by unfold_locales (auto intro: ledger_moves.intros)

text \<open>The run of a signal from its start to the purchase: the variables before and after each stage.\<close>

record signal_stages =
  stage_multiplier :: decimal
  stage_report :: safety_report
  stage_price :: signal_price
  discovered :: signal_run
  multiplied :: signal_run
  cooled :: signal_run
  analyzed :: signal_run
  judged :: signal_run
  costed :: signal_run
  priced :: signal_run
  decided :: signal_run

definition stages_of :: "signal_io \<Rightarrow> string \<Rightarrow> paper_signal \<Rightarrow> signal_world \<Rightarrow> bool \<Rightarrow> signal_stages \<Rightarrow> bool" where
  "stages_of io m p w broad t \<longleftrightarrow>
     discover_candidate io m p (begin_signal p w) = (Next (), discovered t)
     \<and> size_after_losses io p (discovered t) = (Next (stage_multiplier t), multiplied t)
     \<and> check_cooldown io m (multiplied t) = (Next (), cooled t)
     \<and> analyze_signal io m p (cooled t) = (Next (stage_report t), analyzed t)
     \<and> judge_report io m p (stage_report t) (analyzed t) = (Next (), judged t)
     \<and> size_signal io p (stage_report t) (stage_multiplier t) (judged t) = (Next (price_cost (stage_price t)), costed t)
     \<and> quote_signal io m p (stage_report t) (price_cost (stage_price t)) (costed t) = (Next (stage_price t), priced t)
     \<and> decide_signal io m p (stage_report t) (stage_price t) (priced t) = (Next broad, decided t)"

text \<open>Each gate, on the files and the state as its stage found them.\<close>

definition gates_passed :: "signal_io \<Rightarrow> string \<Rightarrow> paper_signal \<Rightarrow> signal_world \<Rightarrow> signal_stages \<Rightarrow> bool" where
  "gates_passed io m p w t \<longleftrightarrow> ps_prefilter p = []
    \<and> losses_allow (point_of io Streak) (paper_file (seen io Streak (discovered t))) (ps_route p) (stage_multiplier t)
    \<and> cooled_down (point_of io Cooldown) (paper_file (seen io Cooldown (multiplied t))) m
    \<and> (\<exists>q. count_for_route_a p ''analyzer_reached'' (cooled t) = (Next (), q)
        \<and> gives_report io m (analyses (seen io Analysis q)) (stage_report t))
    \<and> admits (ps_route p) (stage_report t)
    \<and> sized (point_of io Cash) (paper_file (seen io Cash (judged t))) (ps_route p) (stage_multiplier t) (price_cost (stage_price t))
    \<and> (\<forall>f \<in> {paper_file (world (discovered t)), paper_file (world (multiplied t)), paper_file (world (judged t)),
          paper_file (world (decided t))}. (ledger_moves io)\<^sup>*\<^sup>* (paper_file w) f)"

lemma prepared_gates:
  assumes "prepare_signal io m p (begin_signal p w) = (Next (report, price, broad), r8)"
  obtains t where "stages_of io m p w broad t" "gates_passed io m p w t" "stage_report t = report" "stage_price t = price"
    "decided t = r8" "purchase r8 = None" "observation_mode_enabled (variables io) = Inr broad" "observing r8 = broad"
    "\<forall>y. price_exit_impact price = Some y \<longrightarrow> quoted io (costed t) (price_cost price) (price_tokens price) (price_impact price) y"
    "broad \<longrightarrow> approved_signal_paper_mode_enabled (variables io) = Inr True \<and> observed_as r8 \<noteq> None"
proof -
  obtain r1 r2 r3 r4 r5 r6 r7 d where stages:
    "discover_candidate io m p (begin_signal p w) = (Next (), r1)" "size_after_losses io p r1 = (Next d, r2)"
    "check_cooldown io m r2 = (Next (), r3)" "analyze_signal io m p r3 = (Next report, r4)"
    "judge_report io m p report r4 = (Next (), r5)" "size_signal io p report d r5 = (Next (price_cost price), r6)"
    "quote_signal io m p report (price_cost price) r6 = (Next price, r7)"
    "decide_signal io m p report price r7 = (Next broad, r8)"
    and clear: "ps_prefilter p = []" "objections r2 = []" "objections r3 = []" "objections r5 = []" "objections r8 = []"
    and mode: "observation_mode_enabled (variables io) = Inr (observing r8)" and new: "purchase r8 = None" "unopposed r7"
    and late: "moved.later io (begin_signal p w) r1" "moved.later io (begin_signal p w) r2" "moved.later io (begin_signal p w) r5"
      "moved.later io (begin_signal p w) r8"
    by (rule moved.prepared_stages [OF assms])
  define t where "t = \<lparr>stage_multiplier = d, stage_report = report, stage_price = price, discovered = r1, multiplied = r2,
    cooled = r3, analyzed = r4, judged = r5, costed = r6, priced = r7, decided = r8\<rparr>"
  note losses = losses_gate [OF stages(2) clear(2)]
  obtain q where "count_for_route_a p ''analyzer_reached'' r3 = (Next (), q)" "gives_report io m (analyses (seen io Analysis q)) report"
    by (rule analysis_gate [OF stages(4)])
  then have given: "\<exists>q. count_for_route_a p ''analyzer_reached'' r3 = (Next (), q)
      \<and> gives_report io m (analyses (seen io Analysis q)) report" by blast
  have touched: "\<forall>f \<in> {paper_file (world r1), paper_file (world r2), paper_file (world r5), paper_file (world r8)}.
      (ledger_moves io)\<^sup>*\<^sup>* (paper_file w) f"
    using late by (simp add: moved.later_def begin_signal_def)
  have runs [simp]: "stage_multiplier t = d" "stage_report t = report" "stage_price t = price" "discovered t = r1" "multiplied t = r2"
      "cooled t = r3" "analyzed t = r4" "judged t = r5" "costed t = r6" "priced t = r7" "decided t = r8"
    by (simp_all add: t_def)
  have passed: "gates_passed io m p w t"
    unfolding gates_passed_def runs
    by (intro conjI clear(1) losses cooldown_gate [OF stages(3) clear(3)] given judge_gate [OF stages(5) clear(4)]
        size_gate [OF stages(6) losses] touched)
  have run: "stages_of io m p w broad t" unfolding stages_of_def runs by (intro conjI stages)
  note d = decide_gate [OF stages(8) new(2)]
  show thesis
  proof (rule that [OF run passed])
    show "\<forall>y. price_exit_impact price = Some y \<longrightarrow> quoted io (costed t) (price_cost price) (price_tokens price) (price_impact price) y"
      using quotes_gate [OF stages(7)] unfolding runs by blast
  qed (use d mode new(1) in simp_all)
qed

lemma bought_after_preparing:
  assumes "enter_signal io m p (begin_signal p w) = (e, r)" "purchase r = Some (b, i)"
  obtains report price broad r8 where "prepare_signal io m p (begin_signal p w) = (Next (report, price, broad), r8)"
    "buy_signal io m p report price broad r8 = (e, r)"
  using assms(1) unfolding enter_signal_def
proof (cases rule: proceed_cases)
  case (step x r1)
  then show ?thesis using that by (cases x) auto
qed (use assms(2) in \<open>auto dest!: keepsD [OF plain.prepare_later] simp: plain.later_def begin_signal_def\<close>)

text \<open>C5: a paper purchase that the processing of a signal made has passed every gate, each on what the processing
  itself met.  The stages are those of this run from \<open>w\<close>; each stage finds the files of the run so far and what others
  did to them, and the ledger came from that of \<open>w\<close> by the changes of others and the signal's own records alone.
  Nothing spoke against the signal before.  On that ledger, the losses of the first route did not pause it, and the token
  was neither stopped out within a day nor bought within 45 minutes; in that state of the analyzer, the report is the one
  it gives, the report admits the route, and on the second route its score is at least 55, its liquidity 10000 and its
  lock 40 percent; the cost is positive and the share of that ledger's cash, at most half a percent, for the route and
  the losses; the entry was quoted for that cost with an impact of at most 1.5 percent, the exit for the quoted tokens
  with less than 3.5.  The purchase carries the score of that report and the numbers of these quotes; an observed signal
  was promoted by the mode, within the limit of open positions; and the ledger of that moment recorded the purchase.\<close>

theorem purchase_passed_every_gate:
  assumes "process_paper_signal stopping tracked io m p w = (e, r)" "purchase r = Some (b, position_id)"
  shows "\<exists>t. stages_of io m p w (observing r) t \<and> gates_passed io m p w t
    \<and> cost_lamports b = price_cost (stage_price t) \<and> token_amount_raw b = price_tokens (stage_price t)
    \<and> quoted io (costed t) (cost_lamports b) (token_amount_raw b) (entry_price_impact b) (exit_price_impact b)
    \<and> mint b = m \<and> route_type b = ps_route p \<and> source_wallet b = Some (ps_wallet p) \<and> source_signature b = Some (ps_signature p)
    \<and> buy_request.safety_score b = Some (safety_report.safety_score (stage_report t))
    \<and> observation_mode_enabled (variables io) = Inr (observing r)
    \<and> (if observing r
       then approved_signal_paper_mode_enabled (variables io) = Inr True \<and> strategy_version b = ''broad_discovery_v1''
         \<and> observation_id b \<noteq> None
         \<and> (\<exists>n. approved_signal_max_open_positions (variables io) = Inr n \<and> max_strategy_open_positions b = Some n)
       else strategy_version b = ''baseline_v1'' \<and> max_strategy_open_positions b = None)
    \<and> (\<exists>f'. record_paper_buy (ledger_calls (point_of io Purchase)) (first_lock (point_of io Purchase))
          (second_lock (point_of io Purchase)) (paper_file (seen io Purchase (decided t))) b = (Inr position_id, f'))"
proof -
  obtain e1 r1 where enter: "enter_signal io m p (begin_signal p w) = (e1, r1)" "purchase r1 = Some (b, position_id)"
      and observing: "observing r1 = observing r"
    by (rule processed_enters [OF assms])
  obtain report price broad r8 where prepared: "prepare_signal io m p (begin_signal p w) = (Next (report, price, broad), r8)"
      and buys: "buy_signal io m p report price broad r8 = (e1, r1)"
    by (rule bought_after_preparing [OF enter])
  obtain t where t: "stages_of io m p w broad t" "gates_passed io m p w t" "stage_report t = report" "stage_price t = price"
      "decided t = r8" "purchase r8 = None" "observation_mode_enabled (variables io) = Inr broad" "observing r8 = broad"
    and quotes: "\<forall>y. price_exit_impact price = Some y \<longrightarrow> quoted io (costed t) (price_cost price) (price_tokens price) (price_impact price) y"
    and promoted: "broad \<longrightarrow> approved_signal_paper_mode_enabled (variables io) = Inr True \<and> observed_as r8 \<noteq> None"
    by (rule prepared_gates [OF prepared])
  note bought = buy_gate [OF buys t(6) enter(2)]
  then have broad: "broad = observing r" using t(8) observing by simp
  obtain slippage limit y where b: "b = signal_buy io m p report price broad slippage limit y r8" "price_exit_impact price = Some y"
      "if broad then \<exists>n. approved_signal_max_open_positions (variables io) = Inr n \<and> limit = Some n else limit = None"
    using request_Inr [OF conjunct1 [OF bought]] by blast
  show ?thesis
  proof (intro exI [of _ t] conjI)
    show "quoted io (costed t) (cost_lamports b) (token_amount_raw b) (entry_price_impact b) (exit_price_impact b)"
      using quotes b(2) by (simp add: b(1) signal_buy_def)
  qed (use t bought b(3) promoted in \<open>simp_all add: b(1) signal_buy_def broad\<close>)
qed

section \<open>Exceptions\<close>

text \<open>Other tasks only count, by the functions of the module.\<close>

definition others_count :: "signal_io \<Rightarrow> bool" where
  "others_count io \<longleftrightarrow> (\<forall>k v. activity_ok (counters v) \<longrightarrow> activity_ok (counters (meanwhile (point_of io k) v)))
     \<and> (\<forall>v. activity_ok (counters v) \<longrightarrow> activity_ok (counters (while_analyzing io v)))"

lemma counting_frame: "others_count io \<Longrightarrow> signal_frame io (\<lambda>_ _. True) (\<lambda>a a'. activity_ok a \<longrightarrow> activity_ok a')"
  by unfold_locales (auto simp: others_count_def intro: record_activity_ok)

lemma count_known:
  "activity_ok a \<Longrightarrow> name \<in> set WALLET_WS_ACTIVITY_KEYS \<Longrightarrow> \<exists>a'. record_wallet_ws_activity name source a = Inr a'"
  by (fastforce simp: record_wallet_ws_activity_def activity_ok_def)

lemma analysis_failed_Next:
  assumes "activity_ok (counters (world r))"
  shows "\<exists>r'. analysis_failed p r = (Next (), r') \<and> activity_ok (counters (world r'))"
proof -
  have "''analyzer_failure'' \<in> set WALLET_WS_ACTIVITY_KEYS" by code_simp
  then obtain a where a: "record_wallet_ws_activity ''analyzer_failure'' (source_name p) (counters (world r)) = Inr a"
    using count_known [OF assms] by blast
  then show ?thesis using assms record_activity_ok [OF assms a]
    by (simp add: analysis_failed_def count_for_route_a_def give_def)
qed

lemma close_after_Next: "\<exists>r'. close_after_failure io verdict reason r = (Next (), r')"
  by (auto simp: close_after_failure_def close_candidate_def proceed_def at_point_def give_def Let_def split: option.splits prod.splits)

lemma handlers_fail:
  assumes "activity_ok (counters (world q))"
  shows "\<exists>r. handle_exception io p q = (Next (), r)"
    and "handle_runtime_error io m p e q = (Failed y, r) \<Longrightarrow> lookup_failed e \<and> (\<exists>x f f'. y = OtherError x
      \<and> record_rpc_skip (ledger_calls (point_of io RpcSkip)) (first_lock (point_of io RpcSkip)) (second_lock (point_of io RpcSkip)) f m
          (ps_wallet p) (ps_signature p) (failure_reason e) = (Inl x, f'))"
proof -
  obtain q1 where q1: "analysis_failed p q = (Next (), q1)" using analysis_failed_Next [OF assms] by blast
  let ?reason = "case canonical_rpc_failure_reason e of Some t \<Rightarrow> t | None \<Rightarrow> failure_reason e"
  obtain q2 q3 where q2: "close_after_failure io ''FAILED'' ''PROCESSING_FAILED'' q1 = (Next (), q2)"
      and q3: "close_after_failure io ''UNAVAILABLE'' ?reason q1 = (Next (), q3)"
    using close_after_Next [of io "''FAILED''" "''PROCESSING_FAILED''" q1] close_after_Next [of io "''UNAVAILABLE''" ?reason q1]
    by (elim exE)
  show "\<exists>r. handle_exception io p q = (Next (), r)" by (simp add: handle_exception_def proceed_def q1 q2)
  assume "handle_runtime_error io m p e q = (Failed y, r)"
  then have "lookup_failed e" and skip: "raising (at_point io RpcSkip (\<lambda>c. on_paper (\<lambda>f. record_rpc_skip (ledger_calls c) (first_lock c)
      (second_lock c) f m (ps_wallet p) (ps_signature p) (failure_reason e)))) q3 = (Failed y, r)"
    by (simp_all add: handle_runtime_error_def proceed_def [of "analysis_failed p"] proceed_def [of "close_after_failure _ _ _"] q1 q3
       give_def split: if_splits)
  then show "lookup_failed e \<and> (\<exists>x f f'. y = OtherError x
      \<and> record_rpc_skip (ledger_calls (point_of io RpcSkip)) (first_lock (point_of io RpcSkip)) (second_lock (point_of io RpcSkip)) f m
          (ps_wallet p) (ps_signature p) (failure_reason e) = (Inl x, f'))"
    by (auto simp: raising_def proceed_def at_point_def on_paper_def checked_def Let_def split: prod.splits sum.splits) blast+
qed

context signal_frame
begin

lemma try_purchase_counters:
  "try_purchase io m p report price broad r = (e, r') \<Longrightarrow> A (counters (world r)) (counters (world r'))"
  using meanwhile [of "world r" Purchase]
  by (auto simp: try_purchase_def at_point_def on_paper_def A_refl Let_def split: sum.splits prod.splits)

lemma buy_counters:
  assumes "buy_signal io m p report price broad r = (e, r')"
  shows "A (counters (world r)) (counters (world r'))"
  using assms unfolding buy_signal_def
proof (cases rule: proceed_cases)
  case (step x r1)
  have "A (counters (world r1)) (counters (world r'))"
    using step(2) by (auto simp: change_def frame_def elim!: proceed_cases dest!: keepsD [OF keeps_refused] keepsD [OF keeps_book]
      split: sum.splits)
  with try_purchase_counters [OF step(1)] show ?thesis by (rule A_trans)
qed (auto dest: try_purchase_counters)

lemma enter_counters:
  assumes "enter_signal io m p r = (e, r')"
  shows "A (counters (world r)) (counters (world r'))"
  using assms unfolding enter_signal_def
proof (cases rule: proceed_cases)
  case (step x r1)
  have "A (counters (world r)) (counters (world r1))" using keepsD [OF prepare_later step(1)] by (simp add: later_def)
  moreover have "A (counters (world r1)) (counters (world r'))" using step(2) by (cases x) (auto dest: buy_counters)
  ultimately show ?thesis by (rule A_trans)
qed (auto dest: keepsD [OF prepare_later] simp: later_def)

end

lemma enter_keeps_counters:
  assumes "others_count io" "activity_ok (counters (world r))" "enter_signal io m p r = (e, r')"
  shows "activity_ok (counters (world r'))"
  using signal_frame.enter_counters [OF counting_frame [OF assms(1)] assms(3)] assms(2) by simp

text \<open>C36: only one exception leaves the processing of a signal.  When the counters are those of the module, an
  exception that is raised on the way is answered by a handler, and the handler raises only if the ledger cannot
  record the skip of a signal whose lookup failed, with the exception of that record.\<close>

theorem signal_errors_are_contained:
  assumes "process_paper_signal stopping tracked io m p w = (Failed y, r)" "activity_ok (counters w)" "others_count io"
  shows "\<exists>e q x f f'. enter_signal io m p (begin_signal p w) = (Failed e, q) \<and> is_runtime_error (plain_error e)
    \<and> lookup_failed e \<and> y = OtherError x
    \<and> record_rpc_skip (ledger_calls (point_of io RpcSkip)) (first_lock (point_of io RpcSkip)) (second_lock (point_of io RpcSkip)) f m
        (ps_wallet p) (ps_signature p) (failure_reason e) = (Inl x, f')"
proof -
  have run: "process_paper_signal_control io m p w = (Failed y, r)"
    using assms(1) by (auto simp: process_paper_signal_def split: if_splits)
  obtain e q where enter: "enter_signal io m p (begin_signal p w) = (Failed e, q)"
    using run by (auto simp: process_paper_signal_control_def split: prod.splits flow.splits)
  have ok: "activity_ok (counters (world q))"
    by (rule enter_keeps_counters [OF assms(3) _ enter]) (simp add: begin_signal_def assms(2))
  have "is_runtime_error (plain_error e) \<and> handle_runtime_error io m p e q = (Failed y, r)"
    using run handlers_fail(1) [OF ok, of io p] by (auto simp: process_paper_signal_control_def enter split: if_splits)
  with handlers_fail(2) [OF ok] enter show ?thesis by blast
qed

section \<open>Accounts\<close>

text \<open>Other processes keep a well-formed ledger, and move no money while the signal is processed.\<close>

definition others_idle :: "signal_io \<Rightarrow> bool" where
  "others_idle io \<longleftrightarrow> (\<forall>k v. file_holds wf_ledger (paper_file v) \<longrightarrow> file_holds wf_ledger (paper_file (meanwhile (point_of io k) v))
       \<and> same_money (file_ledger (paper_file v)) (file_ledger (paper_file (meanwhile (point_of io k) v))))
     \<and> (\<forall>v. file_holds wf_ledger (paper_file v) \<longrightarrow> file_holds wf_ledger (paper_file (while_analyzing io v))
       \<and> same_money (file_ledger (paper_file v)) (file_ledger (paper_file (while_analyzing io v))))"

definition idle :: "state_file \<Rightarrow> state_file \<Rightarrow> bool" where
  "idle f f' \<longleftrightarrow> (file_holds wf_ledger f \<longrightarrow> file_holds wf_ledger f' \<and> same_money (file_ledger f) (file_ledger f'))"

lemma idle_refl: "idle f f" and idle_trans: "idle f g \<Longrightarrow> idle g h \<Longrightarrow> idle f h"
  by (auto simp: idle_def same_money_def)

context money_kept
begin

lemma update_is_idle:
  assumes "migrated_update e l1 l2 f m = (x, f')"
  shows "idle f f'"
  unfolding idle_def
proof
  assume wf: "file_holds wf_ledger f"
  from wf assms show "file_holds wf_ledger f' \<and> same_money (file_ledger f) (file_ledger f')"
  proof (cases rule: migrated_update_cases)
    case (committed d r d' v)
    then show ?thesis using keeps [of d r d'] by (auto simp: keeps_money_def same_money_def wf_ledger_version)
  qed simp
qed

end

lemma idle_frame:
  assumes "others_idle io"
  shows "signal_frame io idle (\<lambda>_ _. True)"
proof
  show "idle f f'" if "paper_cash_balance v l f = (x, f')" for v l f x f'
    using paper_balance_is_cash [OF _ that] by (auto simp: idle_def same_money_def)
  show "idle f f'" if "record_paper_rejection v l1 l2 f m n rs wallet sig = (y, f')" for v l1 l2 f m n rs wallet sig y f'
    using that unfolding record_paper_rejection_def by (rule rejection.update_is_idle)
  show "idle f f'" if "record_rpc_skip v l1 l2 f m wallet sig t = (y, f')" for v l1 l2 f m wallet sig t y f'
    using that unfolding record_rpc_skip_def by (rule rpc_skip.update_is_idle)
qed (use assms in \<open>auto simp: others_idle_def idle_refl idle_def same_money_def\<close>)

lemma try_purchase_money:
  assumes "try_purchase io m p report price broad r = (e, r')" "file_holds wf_ledger (paper_file (world r))" "others_idle io"
  shows "file_holds wf_ledger (paper_file (world r')) \<and> purchase r' = purchase r \<and> (\<exists>x. e = Next x
    \<and> (case x of Inl _ \<Rightarrow> same_money (file_ledger (paper_file (world r))) (file_ledger (paper_file (world r')))
       | Inr (b, i) \<Rightarrow> cost_lamports b = price_cost price
           \<and> bought b (file_ledger (paper_file (world r))) (file_ledger (paper_file (world r')))))"
proof (cases "purchase_request io m p report price broad r")
  case (Inr b)
  let ?c = "point_of io Purchase" let ?f = "paper_file (meanwhile ?c (world r))"
  obtain y f where f: "record_paper_buy (ledger_calls ?c) (first_lock ?c) (second_lock ?c) ?f b = (y, f)" by fastforce
  have wf: "file_holds wf_ledger ?f" "same_money (file_ledger (paper_file (world r))) (file_ledger ?f)"
    using assms(2,3) by (simp_all add: others_idle_def)
  note money = record_paper_buy_file [OF wf(1) f]
  have e: "e = Next (case y of Inl x \<Rightarrow> Inl x | Inr i \<Rightarrow> Inr (b, i))" "paper_file (world r') = f" "purchase r' = purchase r"
    using assms(1) f by (auto simp: try_purchase_def Inr at_point_def on_paper_def Let_def split: sum.splits)
  have "cost_lamports b = price_cost price" using request_Inr [OF Inr] by (auto simp: signal_buy_def)
  with money wf(2) show ?thesis unfolding e by (auto simp: bought_def same_money_def split: sum.splits)
qed (use assms in \<open>auto simp: try_purchase_def same_money_def\<close>)

lemma buy_money:
  assumes "buy_signal io m p report price broad r = (e, r')" "file_holds wf_ledger (paper_file (world r))" "others_idle io"
    "purchase r = None"
  shows "file_holds wf_ledger (paper_file (world r')) \<and> (case purchase r' of
      None \<Rightarrow> same_money (file_ledger (paper_file (world r))) (file_ledger (paper_file (world r')))
    | Some (b, i) \<Rightarrow> cost_lamports b = price_cost price
        \<and> cash (file_ledger (paper_file (world r'))) = cash (file_ledger (paper_file (world r))) - cost_lamports b
        \<and> held_cost (file_ledger (paper_file (world r'))) = held_cost (file_ledger (paper_file (world r))) + cost_lamports b)"
  using assms(1) unfolding buy_signal_def
proof (cases rule: proceed_cases)
  case (step x r1)
  note t = try_purchase_money [OF step(1) assms(2,3)]
  note frame = signal_frame.frame_def [OF idle_frame [OF assms(3)]] idle_def
  show ?thesis
  proof (cases x)
    case (Inl y)
    then have "signal_frame.frame idle (\<lambda>_ _. True) r1 r'"
      using step(2) keepsD [OF signal_frame.keeps_refused [OF idle_frame [OF assms(3)]]] by simp
    then show ?thesis using t Inl assms(4) by (auto simp: frame same_money_def)
  next
    case (Inr z)
    obtain b i where z: "z = (b, i)" by (cases z)
    then have "signal_frame.frame idle (\<lambda>_ _. True) (r1\<lparr>purchase := Some (b, i)\<rparr>) r'"
      using step(2) Inr keepsD [OF signal_frame.keeps_book [OF idle_frame [OF assms(3)]]]
      by (auto simp: change_def elim!: proceed_cases)
    then show ?thesis using t Inr z by (auto simp: frame same_money_def bought_def)
  qed
qed (use try_purchase_money [OF _ assms(2,3)] in \<open>blast+\<close>)

lemma size_of_cash:
  assumes "size_signal io p report d r = (Next cost, r')" "file_holds wf_ledger (paper_file (world r))" "others_idle io"
  shows "signal_cost (cash (file_ledger (paper_file (world r)))) (ps_route p) d = Inr cost"
proof -
  let ?c = "point_of io Cash" let ?f = "paper_file (meanwhile ?c (world r))"
  have wf: "file_holds wf_ledger ?f" "same_money (file_ledger (paper_file (world r))) (file_ledger ?f)"
    using assms(2,3) by (simp_all add: others_idle_def)
  obtain y f where f: "paper_cash_balance (ledger_calls ?c) (first_lock ?c) ?f = (y, f)" by fastforce
  then obtain n where "y = Inr n" "signal_cost n (ps_route p) d = Inr cost"
    using assms(1) by (cases y) (auto simp: size_signal_def raising_def proceed_def at_point_def on_paper_def checked_def give_def leave_def
      split: sum.splits if_splits option.splits prod.splits flow.splits)
  with paper_balance_is_cash [OF wf(1) f] wf(2) show ?thesis by (simp add: same_money_def)
qed

definition accounted :: "paper_signal \<Rightarrow> signal_world \<Rightarrow> signal_run \<Rightarrow> bool" where
  "accounted p w r \<longleftrightarrow> file_holds wf_ledger (paper_file (world r)) \<and> (case purchase r of
      None \<Rightarrow> same_money (file_ledger (paper_file w)) (file_ledger (paper_file (world r)))
    | Some (b, i) \<Rightarrow>
        (signal_cost (cash (file_ledger (paper_file w))) (ps_route p) (Dec 1) = Inr (cost_lamports b)
          \<or> ps_route p = ''A'' \<and> signal_cost (cash (file_ledger (paper_file w))) ''A'' (Dec (1/2)) = Inr (cost_lamports b))
        \<and> cash (file_ledger (paper_file (world r))) = cash (file_ledger (paper_file w)) - cost_lamports b
        \<and> held_cost (file_ledger (paper_file (world r))) = held_cost (file_ledger (paper_file w)) + cost_lamports b)"

lemma prepared_money:
  assumes "prepare_signal io m p (begin_signal p w) = (Next (report, price, broad), r)" "file_holds wf_ledger (paper_file w)" "others_idle io"
  shows "signal_cost (cash (file_ledger (paper_file w))) (ps_route p) (Dec 1) = Inr (price_cost price)
    \<or> ps_route p = ''A'' \<and> signal_cost (cash (file_ledger (paper_file w))) ''A'' (Dec (1/2)) = Inr (price_cost price)"
proof -
  obtain r1 r2 r5 r6 d where stages: "size_after_losses io p r1 = (Next d, r2)" "objections r2 = []"
      "size_signal io p report d r5 = (Next (price_cost price), r6)"
      "signal_frame.later idle (\<lambda>_ _. True) (begin_signal p w) r5"
    by (rule signal_frame.prepared_stages [OF idle_frame [OF assms(3)] assms(1)])
  have "idle (paper_file w) (paper_file (world r5))"
    using stages(4) by (simp add: signal_frame.later_def [OF idle_frame [OF assms(3)]] begin_signal_def)
  then have wf: "file_holds wf_ledger (paper_file (world r5))" "same_money (file_ledger (paper_file w)) (file_ledger (paper_file (world r5)))"
    using assms(2) by (simp_all add: idle_def)
  have "signal_cost (cash (file_ledger (paper_file w))) (ps_route p) d = Inr (price_cost price)"
    using size_of_cash [OF stages(3) wf(1) assms(3)] wf(2) by (simp add: same_money_def)
  moreover have "d = Dec 1 \<or> ps_route p = ''A'' \<and> d = Dec (1/2)"
    using losses_gate [OF stages(1,2)] by (auto simp: losses_allow_def split: if_splits)
  ultimately show ?thesis by auto
qed

lemma prepare_keeps_money:
  assumes "prepare_signal io m p (begin_signal p w) = (e, r)" "file_holds wf_ledger (paper_file w)" "others_idle io"
  shows "purchase r = None \<and> file_holds wf_ledger (paper_file (world r)) \<and> same_money (file_ledger (paper_file w)) (file_ledger (paper_file (world r)))"
  using keepsD [OF signal_frame.prepare_later [OF idle_frame [OF assms(3)]] assms(1)] assms(2)
  by (simp add: signal_frame.later_def [OF idle_frame [OF assms(3)]] begin_signal_def idle_def)

lemma enter_accounts:
  assumes "enter_signal io m p (begin_signal p w) = (e, r)" "file_holds wf_ledger (paper_file w)" "others_idle io"
  shows "accounted p w r"
  using assms(1) unfolding enter_signal_def
proof (cases rule: proceed_cases)
  case (step x r1)
  obtain report price broad where x: "x = (report, price, broad)" by (cases x)
  note k = prepare_keeps_money [OF step(1) assms(2,3)]
  have "buy_signal io m p report price broad r1 = (e, r)" using step(2) x by simp
  from buy_money [OF this _ assms(3)] k prepared_money [OF step(1) [unfolded x] assms(2,3)]
  show ?thesis by (auto simp: accounted_def same_money_def split: option.splits)
qed (use prepare_keeps_money [OF _ assms(2,3)] in \<open>auto simp: accounted_def\<close>)

lemma accounted_frame:
  assumes "accounted p w r" "signal_frame.frame idle (\<lambda>_ _. True) r r'" "others_idle io"
  shows "accounted p w r'"
  using assms(1,2) by (auto simp: accounted_def signal_frame.frame_def [OF idle_frame [OF assms(3)]] idle_def same_money_def split: option.splits)

lemma control_accounts:
  assumes "process_paper_signal_control io m p w = (e, r)" "file_holds wf_ledger (paper_file w)" "others_idle io"
  shows "accounted p w r"
proof -
  obtain e1 q where enter: "enter_signal io m p (begin_signal p w) = (e1, q)" by fastforce
  note q = enter_accounts [OF enter assms(2,3)]
  note h = signal_frame.keeps_handlers [OF idle_frame [OF assms(3)]]
  show ?thesis
    using assms(1) q by (auto simp: process_paper_signal_control_def enter split: flow.splits if_splits
        dest!: keepsD [OF h(1)] keepsD [OF h(2)] intro: accounted_frame [OF _ _ assms(3)])
qed

text \<open>C6: what a signal does to the accounts while no other process moves money.  Whatever way its processing takes,
  exceptions included, the ledger stays well-formed; without a purchase neither the cash nor the cost of the open
  positions changes; with one the cash pays exactly its cost, which is the share of that cash for its route, halved
  after two losses of the first route.\<close>

theorem signal_accounts_balance:
  assumes "process_paper_signal stopping tracked io m p w = (e, r)" "file_holds wf_ledger (paper_file w)" "others_idle io"
  shows "file_holds wf_ledger (paper_file (world r)) \<and> (case purchase r of
      None \<Rightarrow> same_money (file_ledger (paper_file w)) (file_ledger (paper_file (world r)))
    | Some (b, i) \<Rightarrow>
        (signal_cost (cash (file_ledger (paper_file w))) (ps_route p) (Dec 1) = Inr (cost_lamports b)
          \<or> ps_route p = ''A'' \<and> signal_cost (cash (file_ledger (paper_file w))) ''A'' (Dec (1/2)) = Inr (cost_lamports b))
        \<and> cash (file_ledger (paper_file (world r))) = cash (file_ledger (paper_file w)) - cost_lamports b
        \<and> held_cost (file_ledger (paper_file (world r))) = held_cost (file_ledger (paper_file w)) + cost_lamports b)"
proof (cases "stopping \<and> \<not> tracked")
  case True
  then show ?thesis using assms by (auto simp: process_paper_signal_def begin_signal_def same_money_def)
next
  case False
  then have "process_paper_signal_control io m p w = (e, r)" using assms(1) by (auto simp: process_paper_signal_def)
  from control_accounts [OF this assms(2,3)] show ?thesis unfolding accounted_def .
qed

section \<open>Examples\<close>

definition still_point :: point_io where
  "still_point = \<lparr>meanwhile = id, first_lock = True, second_lock = True, ledger_calls = sample_env,
     rows_calls = \<lparr>migrate_clock = (\<lambda>_. ''t''), expire_clock = (\<lambda>_. ''t''), start_clock = ''t'', stamp_clock = ''t''\<rparr>,
     empty_at = ''t'', clock_text = ''2026-01-01T00:00:00+00:00'', clock_seconds = Fin 1000\<rparr>"

definition public_settings :: analyzer_settings where
  "public_settings = \<lparr>settings_rpc_url = ''solana-rpc-router'', minimum_safety_score = 70,
       maximum_developer_percent = Dec 10, minimum_lp_locked_percent = Dec 80, minimum_liquidity_usd = Dec 10000\<rparr>"

definition safe_report :: safety_report where
  "safe_report = (empty_report ''N'')\<lparr>safety_report.safety_score := 100, should_enter := True, report_route := Some ''A'',
     lp_locked_percent := Some ''99.00'', report_liquidity_usd := Some ''50000.00''\<rparr>"

definition example_signal :: paper_signal where
  "example_signal = \<lparr>ps_mint = PStr ''N'', ps_amount = 5, ps_decimals = 6, ps_paid = 7499250, ps_wallet = ''W'',
     ps_signature = ''s'', ps_detected = ''2026-01-01T00:00:00+00:00'', ps_route = ''B'', ps_momentum = Fin 80,
     ps_metrics = PNone, ps_collection = PNone, ps_prefilter = [], ps_source = None\<rparr>"

definition example_world :: signal_world where
  "example_world = \<lparr>paper_file = Content (PDict sample_ledger), observations_file = Missing,
     performance_files = \<lparr>performance_file = Missing, candidate_file = Missing, wallets_file = Missing\<rparr>,
     quote_slot = Missing, analyses = \<lparr>analysis_cache = [((''N'', public_settings), (Fin 2000, safe_report))], analysis_flights = []\<rparr>,
     counters = reset_wallet_ws_activity (Fin 0)\<rparr>"

definition example_io :: signal_io where
  "example_io = \<lparr>point_of = (\<lambda>k. if k = ExitQuote then still_point\<lparr>meanwhile := (\<lambda>w. w\<lparr>quote_slot := Missing\<rparr>)\<rparr> else still_point), variables = (\<lambda>_. None), lookup_at = Fin 1000, stored_at = Fin 1001,
     fresh_task = 0, mint_is_key = True, own_replies = Inl SolanaRpcConfigurationError,
     joined_replies = (\<lambda>_. Inl SolanaRpcConfigurationError), while_analyzing = id, entry_attempts = (\<lambda>_. quoting),
     exit_attempts = (\<lambda>_. quoting), quoted_text = ''2026-01-01T00:00:01+00:00'', arrived_us = 1767225601000000,
     wallet_calls = \<lparr>wallet_lock = (\<lambda>_. True), wallet_others = (\<lambda>_. id), wallet_time = (\<lambda>_. ''t''), wallet_environ = (\<lambda>_. None)\<rparr>\<rparr>"


definition example_price :: signal_price where
  "example_price = \<lparr>price_quote = sample_quote, price_cost = 7499250, price_tokens = 5, price_impact = Fin (1/2),
     price_exit_impact = Some (Fin (1/2)), price_reference = Fin 1499850, price_gap = Fin 0, price_latency = 1000\<rparr>"

definition example_buy :: buy_request where
  "example_buy = signal_buy example_io ''N'' example_signal safe_report example_price False 100 None (Fin (1/2))
     ((begin_signal example_signal example_world)\<lparr>analyzed_text := Some ''2026-01-01T00:00:00+00:00''\<rparr>)"

definition analyzed_run :: signal_run where
  "analyzed_run = (begin_signal example_signal example_world)\<lparr>analyzer_started := True,
     analyzed_text := Some ''2026-01-01T00:00:00+00:00'', safety_snapshot := snapshot_of safe_report\<rparr>"

definition quoted_run :: signal_run where
  "quoted_run = analyzed_run\<lparr>preflight_started := True, preflight_finished := True,
     world := example_world\<lparr>quote_slot := snd (snd (jupiter_quote quoting 100 False Missing))\<rparr>\<rparr>"

lemmas example_defs = example_io_def still_point_def example_signal_def example_world_def begin_signal_def analyzed_run_def

lemma example_gates:
  "observation_mode_enabled (\<lambda>_. None) = Inr False"
  "\<not> token_cooldown_is_active True True (Content (PDict sample_ledger)) ''N'' (Fin 1000)"
  "analyzer_settings_from_env (\<lambda>_. None) = Inr public_settings"
  "route_b_safety_filter safe_report = Inr True"
  by code_simp+

lemma example_sizes:
  "paper_cash_balance sample_env True (Content (PDict sample_ledger)) = (Inr 9999000000, Content (PDict sample_ledger))"
  "signal_cost 9999000000 ''B'' (Dec 1) = Inr 7499250"
  by code_simp+

lemma example_prices:
  "validate_entry_price_impact sample_quote = Inr (Fin (1/2))" "validate_exit_price_impact sample_quote = Inr (Fin (1/2))"
  "copy_prices example_signal 7499250 5 = Inr (Fin 1499850, Fin 0)" "latency_of example_signal 1767225601000000 = Inr 1000"
  "expected_slippage sample_quote = Inr 100" "bindE (dindex sample_quote ''outAmount'') py_int = Inr 5"
  by code_simp+

lemma example_recorded:
  "fst (record_paper_buy sample_env True True (Content (PDict sample_ledger)) example_buy) = Inr ''v''"
  by code_simp

lemma proceed_simps:
  "proceed (give x) f r = f x r" "proceed (change g) h r = h () (g r)" "proceed (checked (Inr x)) f r = f x r"
  "proceed (proceed m f') f r = proceed m (\<lambda>x. proceed (f' x) f) r"
  "proceed (at_point io k op) f r = (let (x, w) = op (point_of io k) (meanwhile (point_of io k) (world r)) in f x (r\<lparr>world := w\<rparr>))"
  by (simp_all add: proceed_def give_def change_def checked_def at_point_def split: prod.splits flow.splits)

lemma example_analyzed:
  "discover_candidate example_io ''N'' example_signal (begin_signal example_signal example_world)
     = (Next (), begin_signal example_signal example_world)"
  "size_after_losses example_io example_signal r = (Next (Dec 1), r)"
  "check_cooldown example_io ''N'' (begin_signal example_signal example_world) = (Next (), begin_signal example_signal example_world)"
  "analyze_signal example_io ''N'' example_signal (begin_signal example_signal example_world) = (Next safe_report, analyzed_run)"
  by (simp_all add: discover_candidate_def observe_candidate_def size_after_losses_def check_cooldown_def analyze_signal_def
      await_analysis_def analyze_token_def count_for_route_a_def proceed_def at_point_def checked_def change_def give_def
      example_defs example_gates f64_lt_def)

lemma example_judged: "judge_report example_io ''N'' example_signal safe_report analyzed_run = (Next (), analyzed_run)"
  by (simp add: judge_report_def proceed_def checked_def change_def give_def example_gates route_report_allowed_def)
    (simp add: example_defs safe_report_def)

lemma example_sized: "size_signal example_io example_signal safe_report (Dec 1) analyzed_run = (Next 7499250, analyzed_run)"
  by (simp add: size_signal_def proceed_def raising_def at_point_def on_paper_def checked_def give_def example_defs example_sizes)

lemma example_quoted: "quote_signal example_io ''N'' example_signal safe_report 7499250 analyzed_run = (Next example_price, quoted_run)"
proof -
  obtain f where f: "jupiter_quote quoting 100 False Missing = (Inr sample_quote, [], f)" using quote_on_fresh_slot by blast
  have io: "point_of example_io EntryQuote = still_point" "entry_attempts example_io c = quoting" "exit_attempts example_io c = quoting"
    "point_of example_io ExitQuote = still_point\<lparr>meanwhile := (\<lambda>w. w\<lparr>quote_slot := Missing\<rparr>)\<rparr>"
    "meanwhile still_point w = w" "arrived_us example_io = 1767225601000000" for c w
    by (simp_all add: example_io_def still_point_def)
  have slot: "quote_slot example_world = Missing" "world analyzed_run = example_world" by (simp_all add: example_defs)
  show ?thesis
    by (simp add: quote_signal_def quote_exit_def quote_at_point_def raising_def proceed_simps io slot f example_prices
       quoted_run_def example_price_def) (simp add: give_def)
qed

lemma example_decided:
  "decide_signal example_io ''N'' example_signal safe_report example_price quoted_run = (Next False, quoted_run)"
  by (simp add: decide_signal_def give_def quoted_run_def example_defs)

lemma example_requested: "purchase_request example_io ''N'' example_signal safe_report example_price False quoted_run = Inr example_buy"
  by (simp add: purchase_request_def example_buy_def example_prices example_price_def signal_buy_def quoted_run_def analyzed_run_def begin_signal_def)

lemma example_bought:
  "\<exists>r. buy_signal example_io ''N'' example_signal safe_report example_price False quoted_run = (Next (), r)
     \<and> purchase r = Some (example_buy, ''v'')"
proof -
  obtain f where f: "record_paper_buy sample_env True True (Content (PDict sample_ledger)) example_buy = (Inr ''v'', f)"
    using example_recorded by (cases "record_paper_buy sample_env True True (Content (PDict sample_ledger)) example_buy") auto
  have b: "try_purchase example_io ''N'' example_signal safe_report example_price False quoted_run
    = (Next (Inr (example_buy, ''v'')), quoted_run\<lparr>world := (world quoted_run)\<lparr>paper_file := f\<rparr>\<rparr>)"
    by (simp add: try_purchase_def example_requested at_point_def on_paper_def)
      (simp add: example_io_def still_point_def quoted_run_def f example_world_def)
  have o: "observed_as quoted_run = None" by (simp add: quoted_run_def analyzed_run_def begin_signal_def)
  show ?thesis
    by (simp add: buy_signal_def proceed_def [of "try_purchase _ _ _ _ _ _"] b proceed_simps book_purchase_def)
      (simp add: proceed_def give_def o example_signal_def)
qed

lemma example_processed:
  obtains r where "process_paper_signal False True example_io ''N'' example_signal example_world = (Next (), r)"
    "purchase r = Some (example_buy, ''v'')"
proof -
  obtain r where r: "buy_signal example_io ''N'' example_signal safe_report example_price False quoted_run = (Next (), r)"
      "purchase r = Some (example_buy, ''v'')"
    using example_bought by blast
  have "prepare_signal example_io ''N'' example_signal (begin_signal example_signal example_world)
     = (Next (safe_report, example_price, False), quoted_run)"
    by (simp add: prepare_signal_def proceed_def give_def example_analyzed example_judged example_sized example_quoted example_decided)
  then have "process_paper_signal False True example_io ''N'' example_signal example_world = (Next (), r)"
    by (simp add: process_paper_signal_def process_paper_signal_control_def enter_signal_def proceed_def r)
  then show thesis by (rule that [OF _ r(2)])
qed

theorem purchase_passed_every_gate_witness:
  "\<exists>r t. process_paper_signal False True example_io ''N'' example_signal example_world = (Next (), r)
     \<and> stages_of example_io ''N'' example_signal example_world False t \<and> gates_passed example_io ''N'' example_signal example_world t
     \<and> price_cost (stage_price t) = 7499250"
proof -
  obtain r where r: "process_paper_signal False True example_io ''N'' example_signal example_world = (Next (), r)"
    "purchase r = Some (example_buy, ''v'')" by (rule example_processed)
  have "cost_lamports example_buy = 7499250" "strategy_version example_buy = ''baseline_v1''"
    by (simp_all add: example_buy_def signal_buy_def example_price_def)
  with purchase_passed_every_gate [OF r] r(1) show ?thesis by (auto split: if_splits)
qed

theorem signal_accounts_balance_witness:
  "\<exists>r. process_paper_signal False True example_io ''N'' example_signal example_world = (Next (), r)
     \<and> cash (file_ledger (paper_file (world r))) = 9999000000 - 7499250"
proof -
  obtain r where r: "process_paper_signal False True example_io ''N'' example_signal example_world = (Next (), r)"
    "purchase r = Some (example_buy, ''v'')" by (rule example_processed)
  have wf: "file_holds wf_ledger (paper_file example_world)" by (simp add: example_world_def wf_sample_ledger)
  have idle: "others_idle example_io" by (simp add: others_idle_def example_io_def still_point_def same_money_def)
  have "cost_lamports example_buy = 7499250" by (simp add: example_buy_def signal_buy_def example_price_def)
  moreover have "cash (file_ledger (paper_file example_world)) = 9999000000"
    by (simp add: example_world_def sample_ledger_def cash_def ival_def)
  ultimately show ?thesis using signal_accounts_balance [OF r(1) wf idle] r by auto
qed

text \<open>A lookup that fails for all providers, and a ledger whose lock is not given.\<close>

definition failing_io :: signal_io where
  "failing_io = example_io\<lparr>own_replies := Inl (SolanaRpcExhaustedError 20 None None),
     point_of := (\<lambda>k. if k = RpcSkip then still_point\<lparr>first_lock := False, second_lock := False\<rparr> else still_point)\<rparr>"

definition empty_cache_world :: signal_world where
  "empty_cache_world = example_world\<lparr>analyses := \<lparr>analysis_cache = [], analysis_flights = []\<rparr>\<rparr>"

lemma failing_enters:
  "\<exists>q. enter_signal failing_io ''N'' example_signal (begin_signal example_signal empty_cache_world)
     = (Failed (SolanaRpcExhaustedError 20 None None), q)"
  by (simp add: enter_signal_def prepare_signal_def failing_io_def empty_cache_world_def
      discover_candidate_def observe_candidate_def size_after_losses_def check_cooldown_def analyze_signal_def
      await_analysis_def analyze_token_def analysis_result_def run_analysis_flight_def count_for_route_a_def proceed_def at_point_def
      checked_def change_def give_def example_defs example_gates)

lemma skip_locked: "\<exists>x. fst (record_rpc_skip sample_env False False f ''N'' ''W'' ''s'' t) = Inl x"
  by (auto simp: record_rpc_skip_def migrated_update_def ensure_ledger_migrated_def migrate_json_def update_json_def locked_def
      split: sum.splits prod.splits)

lemma failing_others: "others_count failing_io" and failing_counters: "activity_ok (counters empty_cache_world)"
  by (simp_all add: others_count_def failing_io_def example_io_def still_point_def empty_cache_world_def example_world_def reset_activity_ok)

lemma failing_handled:
  assumes "activity_ok (counters (world q))"
  shows "\<exists>y r. handle_runtime_error failing_io ''N'' example_signal (SolanaRpcExhaustedError 20 None None) q = (Failed y, r)"
proof -
  obtain q1 where q1: "analysis_failed example_signal q = (Next (), q1)" using analysis_failed_Next [OF assms] by blast
  let ?skip = "\<lambda>f. record_rpc_skip sample_env False False f ''N'' ''W'' ''s'' (failure_reason (SolanaRpcExhaustedError 20 None None))"
  let ?reason = "case canonical_rpc_failure_reason (SolanaRpcExhaustedError 20 None None) of Some t \<Rightarrow> t
      | None \<Rightarrow> failure_reason (SolanaRpcExhaustedError 20 None None)"
  obtain q2 where q2: "close_after_failure failing_io ''UNAVAILABLE'' ?reason q1 = (Next (), q2)" using close_after_Next by blast
  have at: "point_of failing_io RpcSkip = still_point\<lparr>first_lock := False, second_lock := False\<rparr>" by (simp add: failing_io_def)
  obtain x f where "?skip (paper_file (world q2)) = (Inl x, f)" using skip_locked by (metis prod.collapse)
  then have "raising (at_point failing_io RpcSkip (\<lambda>c. on_paper (\<lambda>f. record_rpc_skip (ledger_calls c) (first_lock c) (second_lock c) f ''N''
      (ps_wallet example_signal) (ps_signature example_signal) (failure_reason (SolanaRpcExhaustedError 20 None None))))) q2
     = (Failed (OtherError x), q2\<lparr>world := (world q2)\<lparr>paper_file := f\<rparr>\<rparr>)"
    by (simp add: raising_def proceed_def at_point_def on_paper_def checked_def at still_point_def example_signal_def)
  then show ?thesis
    by (simp add: handle_runtime_error_def proceed_def [of "analysis_failed _"] proceed_def [of "close_after_failure _ _ _"] q1 q2
        lookup_failed_def)
qed

theorem signal_errors_are_contained_witness:
  "\<exists>y r e q. process_paper_signal False True failing_io ''N'' example_signal empty_cache_world = (Failed y, r)
     \<and> enter_signal failing_io ''N'' example_signal (begin_signal example_signal empty_cache_world) = (Failed e, q) \<and> lookup_failed e"
proof -
  obtain q where q: "enter_signal failing_io ''N'' example_signal (begin_signal example_signal empty_cache_world)
      = (Failed (SolanaRpcExhaustedError 20 None None), q)" using failing_enters by blast
  have "activity_ok (counters (world q))"
    by (rule enter_keeps_counters [OF failing_others _ q]) (simp add: begin_signal_def failing_counters)
  then obtain y r where "handle_runtime_error failing_io ''N'' example_signal (SolanaRpcExhaustedError 20 None None) q = (Failed y, r)"
    using failing_handled by blast
  then have "process_paper_signal False True failing_io ''N'' example_signal empty_cache_world = (Failed y, r)"
    by (simp add: process_paper_signal_def process_paper_signal_control_def q plain_error_def is_runtime_error_def split: option.splits)
  with signal_errors_are_contained [OF this failing_counters failing_others] show ?thesis by blast
qed

end
