(* ===== verification/Spec2Isabelle.thy ===== *)
theory Spec2Isabelle
  imports LogRedaction RpcRouting AnalyzerSafety WalletCooldown RiskExits LedgerConcurrency ObservationDelivery
    MonitorTradeFacts MonitorMomentumFacts MonitorMarketFacts MonitorStreamFacts MonitorSignalFacts
begin

text \<open>
  A model of aibot, a bot that copies the trades of chosen Solana wallets on paper.

  The program is a set of Python processes that share JSON state files.  A process reads and
  writes a file only through \<open>src/state_store.py\<close>: under a file lock it reads the document,
  lets a \<open>mutate\<close> function change it, increments its version and replaces the file.  On that
  store stand the paper ledger of \<open>src/risk_manager.py\<close> (cash, positions, events), the wallet
  files and the metrics.

  Theories, in the order of their imports:

  \<^item> \<open>Float64\<close>: binary64 numbers (Python floats) as rationals with rounding, and when a
    comparison of rounded quotients decides the comparison of the exact ones.
  \<^item> \<open>PyValue\<close>, \<open>PyText\<close>, \<open>PyTime\<close>: Python values, dictionaries, exceptions as the left
    side of a sum, conversions of built-in types, and ISO timestamps.
  \<^item> \<open>StateStore\<close>: \<open>src/state_store.py\<close>.  \<open>StateConcurrency\<close> takes its transactions apart into the
    steps of many processes and shows that every interleaving is an atomic execution;
    \<open>LedgerConcurrency\<close> draws the consequence for the ledger, the profits of processes that died included.
  \<^item> \<open>LogRedaction\<close>: the redaction of \<open>src/logging_utils.py\<close>.
  \<^item> \<open>Ledger\<close>: the ledger part of \<open>src/risk_manager.py\<close>; \<open>LedgerInvariant\<close>, \<open>LedgerTrades\<close> and
    \<open>LedgerAccounts\<close> hold its invariant, its purchases, sales and exit claims, and the accounts
    over sequences of transactions.
  \<^item> \<open>HeliusRpc\<close>: \<open>src/helius_rpc.py\<close>, the calls to the Helius provider.
  \<^item> \<open>SolanaRpc\<close>: \<open>src/solana_rpc.py\<close>, the router over several providers; \<open>RpcCircuit\<close> relates the
    operations on a provider's state file to an abstract circuit breaker and shows that on a file the
    router wrote they raise only for a provider that is not supported or a lock that is not granted; \<open>RpcRouting\<close> bounds the call.
  \<^item> \<open>PyDecimal\<close>: decimal numbers of the default context.  \<open>JupiterQuotes\<close> and \<open>Executor\<close>:
    \<open>src/executor.py\<close>, quotes, tips, the live swap, purchases and sales; \<open>ExecutorOrders\<close> holds their
    properties, up to what a paper purchase does to the ledger.
  \<^item> \<open>Analyzer\<close>: \<open>src/analyzer.py\<close>, the safety checks of a token before a purchase, its route, the
    cache of reports and the shared analyses; \<open>AnalyzerSafety\<close> shows what an approval rests on and
    what the cache answers.
  \<^item> \<open>WalletPerformance\<close>: \<open>src/wallet_performance.py\<close>, the results of the watched wallets.  \<open>WalletScores\<close>
    refines its file to abstract wallets; \<open>WalletCooldown\<close> covers the watch list, the recovery after a
    day and what is due.
  \<^item> \<open>PyDate\<close>: times as ISO text.  \<open>ProspectiveFeatures\<close>: \<open>src/research/prospective_features.py\<close>, the
    snapshots of a pair before a signal.
  \<^item> \<open>ObservationRows\<close>, \<open>ObservationRetention\<close>, \<open>ObservationRecords\<close>: \<open>src/observation_tracker.py\<close>, the
    ledger of candidates whose prices are sampled for an hour.  \<open>ObservationLedger\<close> shows, through a
    locale of transactions, that its operations keep it readable and lose nothing that is not archived;
    \<open>ObservationSampling\<close> covers the due samples, their batch and the cycles of the observer, and
    \<open>ObservationDelivery\<close> follows a final result from its worker to the ledger file.
  \<^item> \<open>RiskLoop\<close>: the loop of \<open>src/risk_manager.py\<close> that watches the open positions, on paper and live.
    \<open>LedgerClaims\<close> follows an exit claim through the transactions of all processes, and \<open>RiskExits\<close>
    shows that an exit gives its claim back, that the stops compare exactly, and what becomes of a
    live sale that is lost from sight.
  \<^item> \<open>MonitorGates\<close>, \<open>MonitorTrades\<close>, \<open>MonitorMomentum\<close>: \<open>src/monitor.py\<close>, the process that watches the chain and
    the market: its gates and counters, the purchases of a transaction and the tasks they start, and the
    poll of the market feed.  \<open>MonitorGateFacts\<close>, \<open>MonitorTradeFacts\<close> and \<open>MonitorMomentumFacts\<close> hold their
    properties.
  \<^item> \<open>MonitorMarket\<close> and \<open>MonitorMarketFacts\<close>: the second route of that process, the confirmation by unknown buyers and
    the turn of its loop; what a turn may start, and the registry of tasks as a step relation of all routes.
  \<^item> \<open>MonitorStream\<close> and \<open>MonitorStreamFacts\<close>: the messages of the two subscriptions, a connection, and the loop that
    connects again; the funnel of its counters, its sleeps, and how long it stays on the public subscription.
  \<^item> \<open>MonitorSignal\<close> and \<open>MonitorSignalFacts\<close>: the processing of a signal (\<open>process_paper_signal\<close>) across the files
    of the other components, as a sequence of steps that may leave or raise.  The locale \<open>signal_frame\<close> says what every
    step but the purchase keeps; its instances give the gates of a purchase, each on the files and the analyzer state that the
    run met at that stage, the accounts and the errors that escape.

  What the code only calls is an argument: the HTTP client and its replies, the clocks, the random jitter, the
  cryptography and the transaction library, and what other processes do to a file between two steps.  Loops that
  may wait for ever take fuel (the lock and the retries) or the list of their turns (the services); the theorems say
  for which of them a result is returned.  Not modelled are logging and telemetry, whose failures the code swallows,
  the dashboard, the offline reports of \<open>src/research\<close> and \<open>src/observation_analysis.py\<close>, the archives of finished
  observations and hypothetical trades, and the scripts.
\<close>

end
